(* ===== verification/Prelude.thy ===== *)
theory Prelude
  imports Main "HOL-Library.Signed_Division"
begin

text \<open>
  Shared vocabulary of the development.

  The engine computes on 64-bit signed fixed-point values with 128-bit intermediates. A value is
  modelled by its mathematical \<open>int\<close>, and every narrowing or unchecked operation of the source writes
  the wrap-around out (\<open>wrap64\<close>, \<open>wrap128\<close>). Unsigned counters are naturals with \<open>inc64\<close>/\<open>inc32\<close> for
  \<open>++\<close>. C++ integer division truncates towards zero: \<open>sdiv\<close> and \<open>smod\<close> of
  \<open>HOL-Library.Signed_Division\<close>.
\<close>

section \<open>Collections of rules\<close>

named_theorems range_simps \<open>unfolding the ranges of machine integers\<close>
named_theorems checked_simps \<open>unfolding the overflow-checked arithmetic\<close>
named_theorems inv_defs \<open>definitions of invariants\<close>

section \<open>Machine integers\<close>

abbreviation INT64_MAX :: int where
  "INT64_MAX \<equiv> 9223372036854775807"

abbreviation INT64_MIN :: int where
  "INT64_MIN \<equiv> -9223372036854775808"

definition in64 :: "int \<Rightarrow> bool" where
  [range_simps]: "in64 x \<longleftrightarrow> INT64_MIN \<le> x \<and> x \<le> INT64_MAX"

definition wrap64 :: "int \<Rightarrow> int" where
  "wrap64 x = (x + 9223372036854775808) mod 18446744073709551616 - 9223372036854775808"

definition wrap32 :: "int \<Rightarrow> int" where
  "wrap32 x = (x + 2147483648) mod 4294967296 - 2147483648"

definition wrap128 :: "int \<Rightarrow> int" where
  "wrap128 x = (x + 2 ^ 127) mod 2 ^ 128 - 2 ^ 127"

definition inc64 :: "nat \<Rightarrow> nat" where
  "inc64 n = nat ((int n + 1) mod 18446744073709551616)"

definition inc32 :: "nat \<Rightarrow> nat" where
  "inc32 n = nat ((int n + 1) mod 4294967296)"

lemma wrap64_id [simp]: "in64 x \<Longrightarrow> wrap64 x = x"
  by (simp add: wrap64_def in64_def)

lemma in64_wrap64 [simp]: "in64 (wrap64 x)"
proof -
  have "0 \<le> (x + 9223372036854775808) mod 18446744073709551616"
    and "(x + 9223372036854775808) mod 18446744073709551616 < 18446744073709551616"
    by simp_all
  then show ?thesis by (simp only: wrap64_def in64_def) linarith
qed

lemma wrap128_id: "- (2 ^ 127) \<le> x \<Longrightarrow> x < 2 ^ 127 \<Longrightarrow> wrap128 x = x"
  by (simp add: wrap128_def)

lemma in64_zero [simp]: "in64 0"
  by (simp add: in64_def)

lemma in64_between: "in64 a \<Longrightarrow> in64 b \<Longrightarrow> a \<le> x \<Longrightarrow> x \<le> b \<Longrightarrow> in64 x"
  by (simp add: in64_def)

lemma in64_uminus: "in64 x \<Longrightarrow> x \<noteq> INT64_MIN \<Longrightarrow> in64 (- x)"
  by (simp add: in64_def)

lemma inc64_less: "n < 18446744073709551615 \<Longrightarrow> inc64 n = Suc n"
  by (simp add: inc64_def)

lemma inc64_bound: "inc64 n < 18446744073709551616"
  by (simp add: inc64_def nat_less_iff)

section \<open>Truncating division\<close>

lemma sdiv_nonneg: "0 \<le> a \<Longrightarrow> 0 < k \<Longrightarrow> a sdiv k = a div k" for a k :: int
  by (cases "a = 0") (simp_all add: signed_divide_int_def)

lemma sdiv_minus_left: "(- a) sdiv k = - (a sdiv k)" for a k :: int
  by (simp add: signed_divide_int_def)

lemma sdiv_neg: "a < 0 \<Longrightarrow> 0 < k \<Longrightarrow> a sdiv k = - ((- a) div k)" for a k :: int
  by (simp add: signed_divide_int_def)

lemma sdiv_mono:
  fixes a b k :: int
  assumes "a \<le> b" and "0 < k"
  shows "a sdiv k \<le> b sdiv k"
proof -
  consider "0 \<le> a" | "a < 0" "0 \<le> b" | "a < 0" "b < 0" by linarith
  then show ?thesis
  proof cases
    case 1
    with assms show ?thesis by (simp add: sdiv_nonneg zdiv_mono1)
  next
    case 2
    then have "a sdiv k \<le> 0" and "0 \<le> b sdiv k"
      using assms(2) by (simp_all add: sdiv_neg sdiv_nonneg pos_imp_zdiv_nonneg_iff)
    then show ?thesis by linarith
  next
    case 3
    with assms show ?thesis by (simp add: sdiv_neg zdiv_mono1)
  qed
qed

lemma sdiv_mult_self: "0 < k \<Longrightarrow> (a * k) sdiv k = a" for a k :: int
  by (cases "0 \<le> a")
     (simp_all add: sdiv_nonneg sdiv_neg mult_less_0_iff minus_mult_left del: mult_minus_left)

lemma sdiv_error:
  fixes a k :: int
  assumes "0 < k"
  shows "\<bar>a - (a sdiv k) * k\<bar> < k"
proof (cases "0 \<le> a")
  case True
  with assms have "a - (a sdiv k) * k = a mod k"
    by (simp add: sdiv_nonneg minus_div_mult_eq_mod)
  with assms show ?thesis by simp
next
  case False
  with assms have "a - (a sdiv k) * k = - ((- a) - (- a) div k * k)"
    by (simp add: sdiv_neg)
  also have "\<dots> = - ((- a) mod k)"
    by (simp add: minus_div_mult_eq_mod)
  finally have eq: "a - (a sdiv k) * k = - ((- a) mod k)" .
  have "0 \<le> (- a) mod k" and "(- a) mod k < k" using assms by simp_all
  then show ?thesis unfolding eq by linarith
qed

lemma abs_sdiv: "0 < k \<Longrightarrow> \<bar>a sdiv k\<bar> = \<bar>a\<bar> div k" for a k :: int
  by (cases "0 \<le> a") (simp_all add: sdiv_nonneg sdiv_neg pos_imp_zdiv_nonneg_iff)

section \<open>Lists and association by a key\<close>

text \<open>
  The engine keeps its objects in contiguous vectors and finds them by a linear scan over a key.
  \<open>find_index\<close> is the position of the first hit; \<open>map_at\<close> writes one element through.
\<close>

primrec find_index :: "('a \<Rightarrow> bool) \<Rightarrow> 'a list \<Rightarrow> nat option" where
  "find_index P [] = None"
| "find_index P (x # xs) = (if P x then Some 0 else map_option Suc (find_index P xs))"

lemma find_index_Some:
  "find_index P xs = Some i \<Longrightarrow> i < length xs \<and> P (xs ! i) \<and> (\<forall>j<i. \<not> P (xs ! j))"
proof (induction xs arbitrary: i)
  case Nil
  then show ?case by simp
next
  case (Cons x xs)
  show ?case
  proof (cases "P x")
    case True
    with Cons.prems show ?thesis by simp
  next
    case False
    with Cons.prems obtain k where k: "find_index P xs = Some k" and i: "i = Suc k" by auto
    from Cons.IH [OF k] False i show ?thesis by (auto simp: less_Suc_eq_0_disj)
  qed
qed

lemma find_index_None_iff: "find_index P xs = None \<longleftrightarrow> (\<forall>x\<in>set xs. \<not> P x)"
  by (induction xs) auto

lemma find_index_cong_map:
  "map f xs = map f ys \<Longrightarrow> (\<And>x. P x = Q (f x)) \<Longrightarrow> find_index P xs = find_index P ys"
proof (induction xs arbitrary: ys)
  case Nil
  then show ?case by simp
next
  case (Cons x xs)
  then obtain y ys' where "ys = y # ys'" "f x = f y" "map f xs = map f ys'" by (cases ys) auto
  with Cons show ?case by auto
qed

lemma find_Some_find_index:
  "find P xs = (case find_index P xs of None \<Rightarrow> None | Some i \<Rightarrow> Some (xs ! i))"
  by (induction xs) (auto split: option.splits)

lemma list_update_forall:
  "(\<forall>x\<in>set xs. Q x) \<Longrightarrow> Q y \<Longrightarrow> \<forall>x\<in>set (xs[i := y]). Q x"
  using set_update_subset_insert [of xs i y] by auto

section \<open>Counters\<close>

text \<open>A metrics struct is a function from its counters; \<open>bump\<close> is \<open>++\<close> on one of them.\<close>

type_synonym 'c counters = "'c \<Rightarrow> nat"

definition bump :: "'c counters \<Rightarrow> 'c \<Rightarrow> 'c counters" where
  "bump m c = m(c := inc64 (m c))"

definition zero_counters :: "'c counters" where
  "zero_counters = (\<lambda>_. 0)"

lemma bump_other [simp]: "c \<noteq> d \<Longrightarrow> bump m c d = m d"
  by (simp add: bump_def)

lemma bump_same [simp]: "bump m c c = inc64 (m c)"
  by (simp add: bump_def)

end
