(* ===== verification/Double.thy ===== *)
theory Double
  imports Prelude Complex_Main
begin

text \<open>
  The C++ type \<^verbatim>\<open>double\<close> (IEEE 754 binary64) as far as the rate limiter and the price band use it: a value is the
  rational number it denotes, and every operation is the exact one followed by \<open>fl\<close>, rounding to the nearest value of
  53 significant bits with ties to even. Overflow to infinity and subnormal numbers do not occur: the operands are
  64-bit integers, quotients and products of a few of them, and sums with a bucket size, all far inside the normal
  range. \<open>of_int64\<close> is the conversion from a 64-bit integer.
\<close>

section \<open>Definitions\<close>

function ilog2 :: "int \<Rightarrow> int" where
  "ilog2 n = (if n \<le> 1 then 0 else 1 + ilog2 (n div 2))"
  by pat_completeness auto
termination
  by (relation "measure nat") auto

declare ilog2.simps [simp del]

text \<open>The binary exponent of a positive rational: \<open>2 powi e \<le> x < 2 powi (e + 1)\<close>.\<close>

definition binexp :: "rat \<Rightarrow> int" where
  "binexp x = (let (n, d) = quotient_of x; k = ilog2 n - ilog2 d in if 2 powi k \<le> x then k else k - 1)"

definition round_even :: "rat \<Rightarrow> int" where
  "round_even x = (let f = \<lfloor>x\<rfloor>; r = x - of_int f
     in if r < 1 / 2 then f else if r > 1 / 2 then f + 1 else if even f then f else f + 1)"

definition fl_pos :: "rat \<Rightarrow> rat" where
  "fl_pos x = (let e = binexp x - 52 in of_int (round_even (x * 2 powi (- e))) * 2 powi e)"

definition fl :: "rat \<Rightarrow> rat" where
  "fl x = (if x > 0 then fl_pos x else if x < 0 then - fl_pos (- x) else 0)"

definition of_int64 :: "int \<Rightarrow> rat" where
  "of_int64 n = fl (of_int n)"

definition dadd :: "rat \<Rightarrow> rat \<Rightarrow> rat" where "dadd x y = fl (x + y)"
definition dsub :: "rat \<Rightarrow> rat \<Rightarrow> rat" where "dsub x y = fl (x - y)"
definition dmul :: "rat \<Rightarrow> rat \<Rightarrow> rat" where "dmul x y = fl (x * y)"
definition ddiv :: "rat \<Rightarrow> rat \<Rightarrow> rat" where "ddiv x y = fl (x / y)"

section \<open>Rounding is monotone and exact on small integers\<close>

lemma ilog2_bounds: "0 < n \<Longrightarrow> 0 \<le> ilog2 n \<and> 2 ^ nat (ilog2 n) \<le> n \<and> n < 2 * 2 ^ nat (ilog2 n)"
proof (induction n rule: ilog2.induct)
  case (1 n)
  show ?case
  proof (cases "n \<le> 1")
    case True
    with 1 show ?thesis by (simp add: ilog2.simps [of n])
  next
    case False
    with 1 have ih: "0 \<le> ilog2 (n div 2)" "2 ^ nat (ilog2 (n div 2)) \<le> n div 2" "n div 2 < 2 * 2 ^ nat (ilog2 (n div 2))"
      by auto
    have e: "ilog2 n = 1 + ilog2 (n div 2)" using False by (simp add: ilog2.simps [of n])
    have p: "(2::int) ^ nat (1 + ilog2 (n div 2)) = 2 * 2 ^ nat (ilog2 (n div 2))"
      using ih(1) by (simp add: nat_add_distrib)
    show ?thesis unfolding e p using ih by linarith
  qed
qed

lemma two_powi_nat: "0 \<le> k \<Longrightarrow> (2::rat) powi k = 2 ^ nat k"
  by (simp add: power_int_def)

lemma two_powi_pos [simp]: "0 < (2::rat) powi k"
  by (rule zero_less_power_int) simp

lemma two_powi_Suc: "(2::rat) powi (k + 1) = 2 * 2 powi k"
  using power_int_add [of "2::rat" k 1] by simp

lemma two_powi_mono: "i \<le> j \<Longrightarrow> (2::rat) powi i \<le> 2 powi j"
  by (rule power_int_increasing) simp_all

lemma ilog2_rat:
  assumes "0 < n"
  shows "(2::rat) powi (ilog2 n) \<le> of_int n" "of_int n < (2::rat) * 2 powi (ilog2 n)"
proof -
  have p: "(2::rat) powi (ilog2 n) = of_int (2 ^ nat (ilog2 n))" using ilog2_bounds [OF assms] by (simp add: two_powi_nat)
  have q: "(2::rat) * of_int (2 ^ nat (ilog2 n)) = of_int (2 * 2 ^ nat (ilog2 n))" by simp
  show "(2::rat) powi (ilog2 n) \<le> of_int n" unfolding p of_int_le_iff using ilog2_bounds [OF assms] by blast
  show "of_int n < (2::rat) * 2 powi (ilog2 n)" unfolding p q of_int_less_iff using ilog2_bounds [OF assms] by blast
qed

lemma binexp_bounds:
  assumes "0 < x"
  shows "2 powi (binexp x) \<le> x \<and> x < 2 * 2 powi (binexp x)"
proof -
  obtain n d where q: "quotient_of x = (n, d)" by (metis surj_pair)
  then have d: "0 < d" and x: "x = of_int n / of_int d" by (auto simp: quotient_of_denom_pos dest: quotient_of_div)
  have n: "0 < n" using assms d unfolding x by (simp add: zero_less_divide_iff)
  let ?i = "ilog2 n" and ?j = "ilog2 d"
  note bn = ilog2_bounds [OF n] and bd = ilog2_bounds [OF d]
  have cn: "(2::rat) powi ?i \<le> of_int n" "of_int n < (2::rat) * 2 powi ?i"
    by (rule ilog2_rat [OF n])+
  have cd: "(2::rat) powi ?j \<le> of_int d" "of_int d < (2::rat) * 2 powi ?j"
    by (rule ilog2_rat [OF d])+
  have k: "(2::rat) powi (?i - ?j) * 2 powi ?j = 2 powi ?i" using power_int_add [of "2::rat" "?i - ?j" ?j] by simp
  have lo: "2 powi (?i - ?j) < 2 * x"
  proof -
    have "(2::rat) powi (?i - ?j) * of_int d < 2 powi (?i - ?j) * (2 * 2 powi ?j)" using cd(2) by simp
    also have "\<dots> = 2 * 2 powi ?i" using k by (simp add: algebra_simps)
    also have "\<dots> \<le> 2 * of_int n" using cn(1) by simp
    finally show ?thesis using d unfolding x by (simp add: field_simps)
  qed
  have hi: "x < 2 * 2 powi (?i - ?j)"
  proof -
    have "rat_of_int n < 2 * (2 powi (?i - ?j) * 2 powi ?j)" using cn(2) k by simp
    also have "\<dots> \<le> 2 * (2 powi (?i - ?j) * of_int d)" using cd(1) by simp
    finally show ?thesis using d unfolding x by (simp add: field_simps)
  qed
  have "2 * (2::rat) powi (?i - ?j - 1) = 2 powi (?i - ?j)" using two_powi_Suc [of "?i - ?j - 1"] by simp
  with lo hi show ?thesis by (auto simp: binexp_def q Let_def)
qed

lemma binexp_mono: "0 < x \<Longrightarrow> x \<le> y \<Longrightarrow> binexp x \<le> binexp y"
proof (rule ccontr)
  assume a: "0 < x" "x \<le> y" and "\<not> binexp x \<le> binexp y"
  then have "binexp y + 1 \<le> binexp x" by simp
  then have "2 * (2::rat) powi (binexp y) \<le> 2 powi (binexp x)"
    using two_powi_mono [of "binexp y + 1" "binexp x"] two_powi_Suc [of "binexp y"] by simp
  with binexp_bounds [of x] binexp_bounds [of y] a show False by simp
qed

lemma round_even_bounds: "of_int (round_even x) - x \<le> 1 / 2" "x - of_int (round_even x) \<le> 1 / 2"
proof -
  have f: "of_int \<lfloor>x\<rfloor> \<le> x" "x < of_int \<lfloor>x\<rfloor> + 1" by linarith+
  show "of_int (round_even x) - x \<le> 1 / 2" "x - of_int (round_even x) \<le> 1 / 2"
    unfolding round_even_def Let_def using f by (auto split: if_splits) linarith+
qed

lemma round_even_of_int [simp]: "round_even (of_int n) = n"
  by (simp add: round_even_def)

lemma round_even_mono: "x \<le> y \<Longrightarrow> round_even x \<le> round_even y"
proof -
  assume le: "x \<le> y"
  then have f: "\<lfloor>x\<rfloor> \<le> \<lfloor>y\<rfloor>" by (rule floor_mono)
  show ?thesis
  proof (cases "\<lfloor>x\<rfloor> = \<lfloor>y\<rfloor>")
    case True
    with le show ?thesis by (auto simp: round_even_def Let_def)
  next
    case False
    with f have "\<lfloor>x\<rfloor> + 1 \<le> \<lfloor>y\<rfloor>" by simp
    moreover have "round_even x \<le> \<lfloor>x\<rfloor> + 1" "\<lfloor>y\<rfloor> \<le> round_even y" by (auto simp: round_even_def Let_def)
    ultimately show ?thesis by linarith
  qed
qed

lemma fl_pos_range:
  assumes "0 < x"
  shows "2 powi (binexp x) \<le> fl_pos x \<and> fl_pos x \<le> 2 * 2 powi (binexp x)"
proof -
  define b p m where "b = binexp x" and "p = (2::rat) powi (52 - b)" and "m = x * p"
  have pp: "0 < p" by (simp add: p_def)
  have pe: "2 powi b * p = of_int (2 ^ 52)" unfolding p_def
    using power_int_add [of "2::rat" b "52 - b"] by (simp add: power_int_def)
  have q: "(2::rat) ^ 52 * 2 powi (b - 52) = 2 powi b" using power_int_add [of "2::rat" 52 "b - 52"] by (simp add: power_int_def)
  have bb: "2 powi b \<le> x" "x \<le> 2 * 2 powi b" using binexp_bounds [OF assms] by (simp_all add: b_def)
  have lo: "of_int (2 ^ 52) \<le> m"
    unfolding pe [symmetric] m_def using bb(1) pp by (intro mult_right_mono) simp_all
  have "m \<le> 2 * 2 powi b * p" unfolding m_def using bb(2) pp by (intro mult_right_mono) simp_all
  also have "\<dots> = of_int (2 ^ 53)" unfolding mult.assoc pe by simp
  finally have hi: "m \<le> of_int (2 ^ 53)" .
  from round_even_mono [OF lo] round_even_mono [OF hi]
  have r: "2 ^ 52 \<le> round_even m" "round_even m \<le> 2 * 2 ^ 52" by (simp_all only: round_even_of_int) simp
  have r1: "(2::rat) ^ 52 \<le> of_int (round_even m)" using r(1) by (simp only: of_int_le_iff [symmetric, where ?'a = rat] of_int_power of_int_numeral)
  have r2: "of_int (round_even m) \<le> (2::rat) * 2 ^ 52"
    using r(2) by (simp only: of_int_le_iff [symmetric, where ?'a = rat] of_int_power of_int_numeral of_int_mult)
  have f: "fl_pos x = of_int (round_even m) * 2 powi (b - 52)" by (simp add: fl_pos_def Let_def m_def p_def b_def)
  have "2 ^ 52 * 2 powi (b - 52) \<le> fl_pos x" unfolding f by (rule mult_right_mono [OF r1 less_imp_le [OF two_powi_pos]])
  moreover have "fl_pos x \<le> 2 * 2 ^ 52 * 2 powi (b - 52)" unfolding f by (rule mult_right_mono [OF r2 less_imp_le [OF two_powi_pos]])
  ultimately show ?thesis unfolding b_def [symmetric] q mult.assoc by blast
qed

lemma fl_pos_mono:
  assumes "0 < x" "x \<le> y"
  shows "fl_pos x \<le> fl_pos y"
proof (cases "binexp x = binexp y")
  case True
  have "x * 2 powi (- (binexp y - 52)) \<le> y * 2 powi (- (binexp y - 52))"
    using assms(2) by (intro mult_right_mono less_imp_le [OF two_powi_pos])
  from round_even_mono [OF this] show ?thesis unfolding fl_pos_def Let_def True
    by (intro mult_right_mono less_imp_le [OF two_powi_pos]) simp
next
  case False
  then have "binexp x + 1 \<le> binexp y" using binexp_mono [OF assms] by simp
  then have "2 * (2::rat) powi (binexp x) \<le> 2 powi (binexp y)"
    using two_powi_mono [of "binexp x + 1" "binexp y"] two_powi_Suc [of "binexp x"] by simp
  with fl_pos_range [of x] fl_pos_range [of y] assms show ?thesis by simp
qed

lemma fl_0 [simp]: "fl 0 = 0"
  by (simp add: fl_def)

lemma fl_pos_nonneg: "0 < x \<Longrightarrow> 0 < fl_pos x"
  using fl_pos_range [of x] two_powi_pos [of "binexp x"] by linarith

lemma fl_mono: "x \<le> y \<Longrightarrow> fl x \<le> fl y"
  using fl_pos_mono [of x y] fl_pos_mono [of "- y" "- x"] fl_pos_nonneg [of y] fl_pos_nonneg [of "- x"]
  by (auto simp: fl_def not_less)

lemma fl_nonneg: "0 \<le> x \<Longrightarrow> 0 \<le> fl x"
  using fl_mono [of 0 x] by simp

lemma fl_minus: "fl (- x) = - fl x"
  by (auto simp: fl_def)

lemma fl_of_int_pos:
  assumes "0 < n" "n < 2 ^ 53"
  shows "fl (of_int n) = of_int n"
proof -
  define x b p where "x = (of_int n :: rat)" and "b = binexp x" and "p = (2::rat) powi (52 - b)"
  have x: "0 < x" using assms(1) by (simp add: x_def)
  have b: "b \<le> 52"
  proof (rule ccontr)
    assume "\<not> b \<le> 52"
    then have "(2::rat) powi 53 \<le> 2 powi b" by (intro two_powi_mono) simp
    with binexp_bounds [OF x] have "(2::rat) powi 53 \<le> x" by (simp only: b_def) linarith
    moreover have "(2::rat) powi 53 = of_int (2 ^ 53)" by (simp add: power_int_def)
    ultimately have "(2::int) ^ 53 \<le> n" by (simp only: x_def of_int_le_iff)
    with assms(2) show False by simp
  qed
  have one: "p * 2 powi (b - 52) = 1" unfolding p_def using power_int_add [of "2::rat" "52 - b" "b - 52"] by simp
  have "p = of_int (2 ^ nat (52 - b))" unfolding p_def using b by (simp add: power_int_def)
  then have "x * p = of_int (n * 2 ^ nat (52 - b))" by (simp only: x_def of_int_mult)
  then have r: "of_int (round_even (x * p)) = x * p" by (simp only: round_even_of_int)
  have "fl_pos x = of_int (round_even (x * p)) * 2 powi (b - 52)" by (simp add: fl_pos_def Let_def p_def b_def)
  also have "\<dots> = x" unfolding r mult.assoc one by simp
  finally show ?thesis using x by (simp add: fl_def x_def [symmetric])
qed

lemma fl_of_int: "\<bar>n\<bar> < 2 ^ 53 \<Longrightarrow> fl (of_int n) = of_int n"
  using fl_of_int_pos [of n] fl_of_int_pos [of "- n"] fl_minus [of "of_int (- n)"]
  by (cases n "0::int" rule: linorder_cases) auto

text \<open>Half a unit in the last place, relative to the exact value.\<close>

lemma fl_pos_error:
  assumes "0 < x"
  shows "\<bar>fl_pos x - x\<bar> \<le> x / 2 ^ 53"
proof -
  define b p m where "b = binexp x" and "p = (2::rat) powi (52 - b)" and "m = x * p"
  have one: "p * 2 powi (b - 52) = 1" unfolding p_def using power_int_add [of "2::rat" "52 - b" "b - 52"] by simp
  then have x: "x = m * 2 powi (b - 52)" by (simp only: m_def mult.assoc mult_1_right)
  have "of_int (round_even m) - m \<le> 1 / 2" "m - of_int (round_even m) \<le> 1 / 2" by (rule round_even_bounds)+
  then have "\<bar>of_int (round_even m) - m\<bar> \<le> 1 / 2" by linarith
  then have "\<bar>of_int (round_even m) - m\<bar> * 2 powi (b - 52) \<le> 1 / 2 * 2 powi (b - 52)"
    by (rule mult_right_mono [OF _ less_imp_le [OF two_powi_pos]])
  moreover have "fl_pos x = of_int (round_even m) * 2 powi (b - 52)" by (simp add: fl_pos_def Let_def m_def p_def b_def)
  then have "\<bar>fl_pos x - x\<bar> = \<bar>of_int (round_even m) - m\<bar> * 2 powi (b - 52)"
    using x by (metis abs_mult abs_of_pos left_diff_distrib two_powi_pos)
  moreover have "(2::rat) ^ 52 * 2 powi (b - 52) = 2 powi b" using power_int_add [of "2::rat" 52 "b - 52"] by (simp add: power_int_def)
  moreover have "2 powi b \<le> x" using binexp_bounds [OF assms] by (simp add: b_def)
  ultimately have "\<bar>fl_pos x - x\<bar> \<le> 2 powi (b - 52) / 2" "2 ^ 52 * 2 powi (b - 52) \<le> x" by simp_all
  moreover from divide_right_mono [OF this(2), of "2 ^ 53"] have "2 powi (b - 52) / 2 \<le> x / 2 ^ 53" by simp
  ultimately show ?thesis by linarith
qed

lemma fl_error: "\<bar>fl x - x\<bar> \<le> \<bar>x\<bar> / 2 ^ 53"
proof (cases x "0::rat" rule: linorder_cases)
  case less
  then have "fl x - x = - (fl_pos (- x) - (- x))" by (simp add: fl_def)
  with fl_pos_error [of "- x"] less show ?thesis by (simp only: abs_minus_cancel) simp
next
  case greater
  with fl_pos_error [of x] show ?thesis by (simp add: fl_def)
qed simp

end
