(* ===== verification/LatencyHistogram.thy ===== *)
theory LatencyHistogram
  imports Double "HOL-Library.Multiset"
begin

text \<open>
  The log-linear latency histogram of \<^verbatim>\<open>include/mm/common/LatencyHistogram.hpp\<close>. A value is a
  \<^verbatim>\<open>uint64_t\<close>, here a natural number, and every counter wraps at 64 bits. The abstract state of a histogram is
  the list of samples recorded into it (\<open>hist_of\<close>); the percentile is shown against the order statistic of that list.
  Times are read by the caller: \<^verbatim>\<open>record_since\<close> and the destructor of \<^verbatim>\<open>ScopedLatency\<close> take the two
  readings of the steady clock as arguments. \<^verbatim>\<open>std::ceil\<close> and the conversion to \<^verbatim>\<open>uint64_t\<close> are exact on
  the values they meet, products of a number in [0, 1] and a count.
\<close>

section \<open>Slots\<close>

definition kSubBits :: nat where "kSubBits = 6"
definition kSubCount :: nat where "kSubCount = 2 ^ kSubBits"
definition kBucketCount :: nat where "kBucketCount = 64 - kSubBits + 1"
definition kSlots :: nat where "kSlots = kBucketCount * kSubCount"
definition kUnsetMin :: nat where "kUnsetMin = 2 ^ 64 - 1"

text \<open>\<^verbatim>\<open>63 - std::countl_zero(v)\<close>, the index of the highest set bit.\<close>

definition msb64 :: "nat \<Rightarrow> nat" where
  "msb64 v = nat (ilog2 (int v))"

definition hist_slot_of :: "nat \<Rightarrow> nat" where
  "hist_slot_of v =
    (if v < kSubCount then v
     else (let msb = msb64 v;
               bucket = msb - kSubBits + 1;
               sub = v div 2 ^ (bucket - 1) - kSubCount
           in bucket * kSubCount + sub))"

definition slot_lower_bound :: "nat \<Rightarrow> nat" where
  "slot_lower_bound slot =
    (let bucket = slot div kSubCount; sub = slot mod kSubCount
     in if bucket = 0 then sub else ((sub + kSubCount) * 2 ^ (bucket - 1)) mod 2 ^ 64)"

definition slot_upper_bound :: "nat \<Rightarrow> nat" where
  "slot_upper_bound slot =
    (let bucket = slot div kSubCount; lower = slot_lower_bound slot
     in if bucket = 0 then lower else (lower + 2 ^ (bucket - 1) - 1) mod 2 ^ 64)"

section \<open>State and operations\<close>

record LatencyHistogram =
  lh_counts :: "nat list"
  lh_count :: nat
  lh_sum :: nat
  lh_min :: nat
  lh_max :: nat

definition empty_histogram :: LatencyHistogram where
  "empty_histogram = \<lparr>lh_counts = replicate kSlots 0, lh_count = 0, lh_sum = 0, lh_min = kUnsetMin, lh_max = 0\<rparr>"

definition hist_record :: "LatencyHistogram \<Rightarrow> int \<Rightarrow> LatencyHistogram" where
  "hist_record h value =
    (let v = (if value > 0 then nat value else 0);
         i = hist_slot_of v
     in h\<lparr>lh_counts := (lh_counts h)[i := inc64 (lh_counts h ! i)],
          lh_count := inc64 (lh_count h),
          lh_sum := (lh_sum h + v) mod 2 ^ 64,
          lh_max := (if v > lh_max h then v else lh_max h),
          lh_min := (if v < lh_min h then v else lh_min h)\<rparr>)"

definition record_since :: "LatencyHistogram \<Rightarrow> int \<Rightarrow> int \<Rightarrow> LatencyHistogram" where
  "record_since h now start_steady_ns = hist_record h (wrap64 (now - start_steady_ns))"

definition hist_min :: "LatencyHistogram \<Rightarrow> int" where
  "hist_min h = (if lh_count h = 0 then 0 else wrap64 (int (lh_min h)))"

definition hist_max :: "LatencyHistogram \<Rightarrow> int" where
  "hist_max h = wrap64 (int (lh_max h))"

definition hist_mean :: "LatencyHistogram \<Rightarrow> rat" where
  "hist_mean h = (if lh_count h = 0 then 0 else ddiv (of_int64 (int (lh_sum h))) (of_int64 (int (lh_count h))))"

definition percentile_rank :: "nat \<Rightarrow> rat \<Rightarrow> nat" where
  "percentile_rank cnt p =
    (let clamped = (if p < 0 then 0 else if 100 < p then 100 else p);
         rank = nat \<lceil>dmul (ddiv clamped 100) (of_int64 (int cnt))\<rceil>;
         rank = (if rank = 0 then 1 else rank)
     in if rank > cnt then cnt else rank)"

text \<open>The loop over the slots: the first index at which the cumulative count reaches the rank.\<close>

fun percentile_scan :: "nat list \<Rightarrow> nat \<Rightarrow> nat \<Rightarrow> nat \<Rightarrow> nat option" where
  "percentile_scan [] i cumulative rank = None"
| "percentile_scan (c # cs) i cumulative rank =
    (let cumulative = (cumulative + c) mod 2 ^ 64
     in if rank \<le> cumulative then Some i else percentile_scan cs (Suc i) cumulative rank)"

definition hist_percentile :: "LatencyHistogram \<Rightarrow> rat \<Rightarrow> int" where
  "hist_percentile h p =
    (if lh_count h = 0 then 0
     else case percentile_scan (lh_counts h) 0 0 (percentile_rank (lh_count h) p) of
            Some i \<Rightarrow> wrap64 (int (min (slot_upper_bound i) (lh_max h)))
          | None \<Rightarrow> wrap64 (int (lh_max h)))"

definition hist_p50 :: "LatencyHistogram \<Rightarrow> int" where "hist_p50 h = hist_percentile h 50"
definition hist_p90 :: "LatencyHistogram \<Rightarrow> int" where "hist_p90 h = hist_percentile h 90"
definition hist_p95 :: "LatencyHistogram \<Rightarrow> int" where "hist_p95 h = hist_percentile h 95"
definition hist_p99 :: "LatencyHistogram \<Rightarrow> int" where "hist_p99 h = hist_percentile h 99"
definition hist_p999 :: "LatencyHistogram \<Rightarrow> int" where "hist_p999 h = hist_percentile h (fl (999 / 10))"

definition hist_reset :: "LatencyHistogram \<Rightarrow> LatencyHistogram" where
  "hist_reset h =
    h\<lparr>lh_counts := replicate kSlots 0, lh_count := 0, lh_sum := 0, lh_min := kUnsetMin, lh_max := 0\<rparr>"

definition hist_merge :: "LatencyHistogram \<Rightarrow> LatencyHistogram \<Rightarrow> LatencyHistogram" where
  "hist_merge h other =
    h\<lparr>lh_counts := map2 (\<lambda>a b. (a + b) mod 2 ^ 64) (lh_counts h) (lh_counts other),
      lh_count := (lh_count h + lh_count other) mod 2 ^ 64,
      lh_sum := (lh_sum h + lh_sum other) mod 2 ^ 64,
      lh_max := max (lh_max h) (lh_max other),
      lh_min := min (lh_min h) (lh_min other)\<rparr>"

record LatencySummary =
  ls_count :: nat
  ls_min_ns :: int
  ls_p50_ns :: int
  ls_p90_ns :: int
  ls_p95_ns :: int
  ls_p99_ns :: int
  ls_p999_ns :: int
  ls_max_ns :: int
  ls_mean_ns :: rat

definition summary_from :: "LatencyHistogram \<Rightarrow> LatencySummary" where
  "summary_from h =
    \<lparr>ls_count = lh_count h, ls_min_ns = hist_min h, ls_p50_ns = hist_p50 h, ls_p90_ns = hist_p90 h,
     ls_p95_ns = hist_p95 h, ls_p99_ns = hist_p99 h, ls_p999_ns = hist_p999 h, ls_max_ns = hist_max h,
     ls_mean_ns = hist_mean h\<rparr>"

text \<open>\<^verbatim>\<open>ScopedLatency\<close>: the constructor stamps, the destructor records the difference.\<close>

definition scoped_latency :: "LatencyHistogram \<Rightarrow> int \<Rightarrow> int \<Rightarrow> LatencyHistogram" where
  "scoped_latency h start now = hist_record h (wrap64 (now - start))"

section \<open>Slot arithmetic\<close>

lemmas k_defs = kSubCount_def kSubBits_def kBucketCount_def kSlots_def

lemma kSubCount_64 [simp]: "kSubCount = 64"
  by (simp add: k_defs)

lemma kSlots_val: "kSlots = 3776"
  by (simp add: k_defs)

lemma msb64_bounds: "0 < v \<Longrightarrow> 2 ^ msb64 v \<le> v \<and> v < 2 * 2 ^ msb64 v"
proof -
  assume "0 < v"
  then have "2 ^ msb64 v \<le> int v \<and> int v < 2 * 2 ^ msb64 v"
    using ilog2_bounds [of "int v"] by (simp add: msb64_def)
  moreover have "int (2 ^ msb64 v) = 2 ^ msb64 v" by simp
  ultimately show ?thesis by linarith
qed

lemma msb64_unique: "2 ^ k \<le> v \<Longrightarrow> v < 2 * 2 ^ k \<Longrightarrow> msb64 v = k"
proof (rule ccontr)
  assume a: "2 ^ k \<le> v" "v < 2 * 2 ^ k" "msb64 v \<noteq> k"
  have "0 < v" using a(1) by (metis less_le_trans zero_less_numeral zero_less_power)
  note b = msb64_bounds [OF this]
  consider "Suc (msb64 v) \<le> k" | "Suc k \<le> msb64 v" using a(3) by linarith
  then show False
  proof cases
    case 1
    then have "(2::nat) ^ Suc (msb64 v) \<le> 2 ^ k" by (intro power_increasing) auto
    then show ?thesis using a b by simp
  next
    case 2
    then have "(2::nat) ^ Suc k \<le> 2 ^ msb64 v" by (intro power_increasing) auto
    then show ?thesis using a b by simp
  qed
qed

text \<open>Every value of at least 64 has a mantissa of seven bits and an exponent; its slot packs both.\<close>

lemma slot_of_mantissa:
  assumes "64 \<le> v"
  obtains k m where "64 \<le> m" "m < 128" "m * 2 ^ k \<le> v" "v < (m + 1) * 2 ^ k" "hist_slot_of v = k * 64 + m" "m = v div 2 ^ k"
proof -
  define k where "k = msb64 v - 6"
  define m where "m = v div 2 ^ k"
  have b: "2 ^ msb64 v \<le> v" "v < 2 * 2 ^ msb64 v" using msb64_bounds [of v] assms by auto
  have "6 \<le> msb64 v"
  proof (rule ccontr)
    assume "\<not> 6 \<le> msb64 v"
    then have "(2::nat) ^ msb64 v \<le> 2 ^ 5" by (intro power_increasing) auto
    then show False using b assms by simp
  qed
  then have e: "msb64 v = k + 6" by (simp add: k_def)
  have lo: "64 * 2 ^ k \<le> v" and hi: "v < 128 * 2 ^ k" using b by (simp_all add: e power_add)
  have m64: "64 \<le> m" unfolding m_def using lo by (simp add: less_eq_div_iff_mult_less_eq)
  have m128: "m < 128" unfolding m_def using hi by (simp add: div_less_iff_less_mult)
  have "m * 2 ^ k \<le> v" by (simp add: m_def)
  moreover have "v < (m + 1) * 2 ^ k"
    using dividend_less_div_times [of "2 ^ k" v] by (simp add: m_def algebra_simps)
  moreover have "hist_slot_of v = k * 64 + m"
    using assms m64 by (simp add: hist_slot_of_def Let_def e kSubBits_def m_def)
  ultimately show thesis using that m64 m128 m_def by blast
qed

lemma slot_of_small [simp]: "v < 64 \<Longrightarrow> hist_slot_of v = v"
  by (simp add: hist_slot_of_def)

lemma slot_bounds_pack:
  assumes "64 \<le> m" "m < 128" "(m + 1) * 2 ^ k \<le> 2 ^ 64"
  shows "slot_lower_bound (k * 64 + m) = m * 2 ^ k" "slot_upper_bound (k * 64 + m) = (m + 1) * 2 ^ k - 1"
proof -
  have e: "k * 64 + m = (k + 1) * 64 + (m - 64)" using assms(1) by simp
  have d: "(k * 64 + m) div 64 = k + 1" "(k * 64 + m) mod 64 = m - 64"
    unfolding e using assms(2) by (simp, simp only: mod_mult_self3) simp
  have p: "0 < (2::nat) ^ k" by simp
  have s: "(m + 1) * 2 ^ k = m * 2 ^ k + 2 ^ k" by simp
  have "m * 2 ^ k < 2 ^ 64" using assms(3) p unfolding s by linarith
  then have m: "(m * 2 ^ k) mod 2 ^ 64 = m * 2 ^ k" by (rule mod_less)
  have "m * 2 ^ k + 2 ^ k - 1 < 2 ^ 64" using assms(3) p unfolding s by linarith
  then have u: "(m * 2 ^ k + 2 ^ k - 1) mod 2 ^ 64 = m * 2 ^ k + 2 ^ k - 1" by (rule mod_less)
  show l: "slot_lower_bound (k * 64 + m) = m * 2 ^ k"
    unfolding slot_lower_bound_def Let_def kSubCount_64 d using assms(1) m by simp
  show "slot_upper_bound (k * 64 + m) = (m + 1) * 2 ^ k - 1"
    unfolding slot_upper_bound_def Let_def kSubCount_64 d l s using u by simp
qed

lemma mantissa_fits:
  assumes "v < 2 ^ 64" "64 \<le> m" "m < (128::nat)" "m * 2 ^ k \<le> v"
  shows "k \<le> 57" "(m + 1) * 2 ^ k \<le> 2 ^ 64"
proof -
  have "64 * 2 ^ k \<le> m * (2 ^ k :: nat)" using assms(2) by (rule mult_le_mono1)
  moreover have "(2::nat) ^ (k + 6) = 64 * 2 ^ k" by (simp add: power_add)
  ultimately have "(2::nat) ^ (k + 6) < 2 ^ 64" using assms(1,4) by linarith
  then have "k + 6 < 64" by (rule power_less_imp_less_exp [rotated]) simp
  then show k: "k \<le> 57" by simp
  have "(m + 1) * 2 ^ k \<le> 128 * (2 ^ 57 :: nat)"
    using assms(3) k by (intro mult_le_mono power_increasing) auto
  then show "(m + 1) * 2 ^ k \<le> 2 ^ 64" by simp
qed

lemma slot_bounds_small: "v < 64 \<Longrightarrow> slot_lower_bound v = v \<and> slot_upper_bound v = v"
  by (simp add: slot_lower_bound_def slot_upper_bound_def)

lemma hist_slot_of_bound:
  assumes "v < 2 ^ 64"
  shows "hist_slot_of v < kSlots"
proof (cases "v < 64")
  case False
  then obtain k m where r: "64 \<le> m" "m < 128" "m * 2 ^ k \<le> v" "hist_slot_of v = k * 64 + m"
    by (metis not_le_imp_less slot_of_mantissa)
  then have "k \<le> 57" using assms mantissa_fits by blast
  then show ?thesis using r by (simp add: kSlots_val)
qed (simp add: kSlots_val)

lemma slot_brackets:
  assumes "v < 2 ^ 64"
  shows "slot_lower_bound (hist_slot_of v) \<le> v" "v \<le> slot_upper_bound (hist_slot_of v)"
    "64 * slot_upper_bound (hist_slot_of v) \<le> 65 * v"
proof -
  have "slot_lower_bound (hist_slot_of v) \<le> v \<and> v \<le> slot_upper_bound (hist_slot_of v)
      \<and> 64 * slot_upper_bound (hist_slot_of v) \<le> 65 * v"
  proof (cases "v < 64")
    case False
    then obtain k m where r: "64 \<le> m" "m < 128" "m * 2 ^ k \<le> v" "v < (m + 1) * 2 ^ k" "hist_slot_of v = k * 64 + m"
      by (metis not_le_imp_less slot_of_mantissa)
    note b = slot_bounds_pack [OF r(1,2) mantissa_fits(2) [OF assms r(1,2,3)]]
    have s: "(m + 1) * 2 ^ k = m * 2 ^ k + 2 ^ k" by simp
    have "64 * 2 ^ k \<le> m * (2 ^ k :: nat)" using r(1) by (rule mult_le_mono1)
    then show ?thesis using r(3,4) unfolding r(5) b s by linarith
  qed (simp add: slot_bounds_small)
  then show "slot_lower_bound (hist_slot_of v) \<le> v" "v \<le> slot_upper_bound (hist_slot_of v)"
    "64 * slot_upper_bound (hist_slot_of v) \<le> 65 * v" by auto
qed

lemma slot_of_mono:
  assumes "v \<le> w"
  shows "hist_slot_of v \<le> hist_slot_of w"
proof -
  consider "w < 64" | "v < 64" "64 \<le> w" | "64 \<le> v" using assms by linarith
  then show ?thesis
  proof cases
    case 2
    obtain k m where "64 \<le> m" "hist_slot_of w = k * 64 + m" by (rule slot_of_mantissa [OF 2(2)])
    with 2 show ?thesis by simp
  next
    case 3
    obtain k m where r: "64 \<le> m" "m < 128" "m * 2 ^ k \<le> v" "hist_slot_of v = k * 64 + m" "m = v div 2 ^ k"
      by (rule slot_of_mantissa [OF 3])
    obtain k' m' where r': "64 \<le> m'" "m' < 128" "w < (m' + 1) * 2 ^ k'" "hist_slot_of w = k' * 64 + m'" "m' = w div 2 ^ k'"
      by (rule slot_of_mantissa [OF order_trans [OF 3 assms]])
    have "(2::nat) ^ (k + 6) = 64 * 2 ^ k" by (simp add: power_add)
    then have "(2::nat) ^ (k + 6) \<le> v" using mult_le_mono1 [OF r(1), of "2 ^ k"] r(3) by linarith
    moreover have "w < 2 ^ (k' + 7)"
    proof -
      have "(m' + 1) * 2 ^ k' \<le> 128 * (2::nat) ^ k'" using r'(2) by (intro mult_le_mono1) simp
      moreover have "(2::nat) ^ (k' + 7) = 128 * 2 ^ k'" by (simp add: power_add)
      ultimately show ?thesis using r'(3) by linarith
    qed
    ultimately have "(2::nat) ^ (k + 6) < 2 ^ (k' + 7)" using assms by linarith
    then have "k + 6 < k' + 7" by (rule power_less_imp_less_exp [rotated]) simp
    then consider "k < k'" | "k = k'" by linarith
    then show ?thesis
    proof cases
      case 1
      then show ?thesis using r(2) r'(1) unfolding r(4) r'(4) by linarith
    next
      case 2
      then have "m \<le> m'" unfolding r(5) r'(5) using assms by (simp add: div_le_mono)
      then show ?thesis unfolding r(4) r'(4) 2 by simp
    qed
  qed (use assms in simp)
qed

section \<open>The samples a histogram stands for\<close>

text \<open>\<open>hist_rel h xs\<close>: the histogram holds exactly the samples \<open>xs\<close>, each below \<open>2 ^ 63\<close> and fewer than \<open>2 ^ 64\<close> of them.\<close>

definition hist_rel :: "LatencyHistogram \<Rightarrow> nat list \<Rightarrow> bool" where
  "hist_rel h xs \<longleftrightarrow>
    length xs < 2 ^ 64 \<and> (\<forall>x \<in> set xs. x < 2 ^ 63) \<and>
    lh_counts h = map (\<lambda>i. length (filter (\<lambda>x. hist_slot_of x = i) xs)) [0..<kSlots] \<and>
    lh_count h = length xs \<and>
    lh_sum h = sum_list xs mod 2 ^ 64 \<and>
    lh_max h = fold max xs 0 \<and>
    lh_min h = fold min xs kUnsetMin"

lemma fold_max_Max: "fold max xs (a::nat) = Max (insert a (set xs))"
  by (metis Max.set_eq_fold list.simps(15))

lemma fold_max_append: "fold max ys (fold max xs (0::nat)) = max (fold max xs 0) (fold max ys 0)"
proof -
  have "fold max ys (max a b) = max a (fold max ys b)" for a b :: nat
    by (induction ys arbitrary: b) (simp, metis fold_simps(2) max.left_commute)
  from this [of "fold max xs 0" 0] show ?thesis by simp
qed

lemma fold_min_append: "fold min ys (fold min xs (u::nat)) = min (fold min xs u) (fold min ys u)"
proof -
  have a: "fold min ys (min a b) = min a (fold min ys b)" for a b :: nat
    by (induction ys arbitrary: b) (simp, metis fold_simps(2) min.left_commute)
  have "fold min xs u \<le> u" by (induction xs arbitrary: u) (simp, metis fold_simps(2) min.boundedE)
  then have "fold min xs u = min (fold min xs u) u" by simp
  then show ?thesis using a [of "fold min xs u" u] by simp
qed

lemma fold_min_Min: "fold min xs (a::nat) = Min (insert a (set xs))"
  by (metis Min.set_eq_fold list.simps(15))

lemma hist_rel_empty: "hist_rel empty_histogram []"
  by (simp add: hist_rel_def empty_histogram_def map_replicate_const)

lemma hist_rel_reset: "hist_rel (hist_reset h) []"
  by (simp add: hist_rel_def hist_reset_def map_replicate_const)

lemma hist_rel_record:
  assumes "hist_rel h xs" "in64 v" "Suc (length xs) < 2 ^ 64"
  shows "hist_rel (hist_record h v) (xs @ [nat v])"
proof -
  define n where "n = (if v > 0 then nat v else 0)"
  have n: "nat v = n" by (simp add: n_def)
  have nb: "n < 2 ^ 63" using assms(2) by (simp add: in64_def n_def nat_less_iff)
  have sb: "hist_slot_of n < kSlots" by (rule hist_slot_of_bound) (use nb in simp)
  have len: "length (filter P xs) < 2 ^ 64 - 1" for P
    using assms(3) length_filter_le [of P xs] by linarith
  have c: "(map (\<lambda>i. length (filter (\<lambda>x. hist_slot_of x = i) xs)) [0..<kSlots])
             [hist_slot_of n := inc64 (length (filter (\<lambda>x. hist_slot_of x = hist_slot_of n) xs))]
         = map (\<lambda>i. length (filter (\<lambda>x. hist_slot_of x = i) (xs @ [n]))) [0..<kSlots]"
    using len by (intro nth_equalityI) (auto simp: nth_list_update inc64_less)
  have g: "length xs < 2 ^ 64 - 1" "\<forall>x \<in> set xs. x < 2 ^ 63"
    "lh_counts h = map (\<lambda>i. length (filter (\<lambda>x. hist_slot_of x = i) xs)) [0..<kSlots]"
    "lh_count h = length xs" "lh_sum h = sum_list xs mod 2 ^ 64" "lh_max h = fold max xs 0"
    "lh_min h = fold min xs kUnsetMin"
    using assms(1,3) by (simp_all add: hist_rel_def)
  define h' where "h' = hist_record h v"
  have h': "lh_counts h' = map (\<lambda>i. length (filter (\<lambda>x. hist_slot_of x = i) (xs @ [n]))) [0..<kSlots]"
    "lh_count h' = Suc (length xs)" "lh_sum h' = (sum_list xs mod 2 ^ 64 + n) mod 2 ^ 64"
    "lh_max h' = max n (fold max xs 0)" "lh_min h' = min n (fold min xs kUnsetMin)"
    using g sb unfolding h'_def hist_record_def n_def [symmetric] Let_def c [symmetric]
    by (simp_all add: inc64_less max_def min_def)
  show ?thesis
    unfolding hist_rel_def h'_def [symmetric] n h' using g(2) nb assms(3) by (simp add: mod_simps)
qed

lemma hist_rel_merge:
  assumes "hist_rel h xs" "hist_rel g ys" "length xs + length ys < 2 ^ 64"
  shows "hist_rel (hist_merge h g) (xs @ ys)"
proof -
  have f: "length (filter P xs) + length (filter P ys) < 2 ^ 64" for P
    using assms(3) length_filter_le [of P xs] length_filter_le [of P ys] by linarith
  have c: "map2 (\<lambda>a b. (a + b) mod 2 ^ 64) (lh_counts h) (lh_counts g)
         = map (\<lambda>i. length (filter (\<lambda>x. hist_slot_of x = i) (xs @ ys))) [0..<kSlots]"
    using assms(1,2) f by (intro nth_equalityI) (auto simp: hist_rel_def)
  show ?thesis
    unfolding hist_rel_def hist_merge_def
    using assms c by (auto simp: hist_rel_def fold_max_append fold_min_append mod_simps)
qed

section \<open>The percentile is the order statistic, rounded up within its slot\<close>

lemma sum_count_upt:
  "sum_list (map (\<lambda>i. length (filter (\<lambda>x. f x = i) xs)) [0..<n]) = length (filter (\<lambda>x. f x < n) xs)"
proof (induction xs)
  case (Cons a xs)
  have "sum_list (map (\<lambda>i. length (filter (\<lambda>x. f x = i) (a # xs))) [0..<n])
      = sum_list (map (\<lambda>i. (if f a = i then 1 else 0) + length (filter (\<lambda>x. f x = i) xs)) [0..<n])"
    by (intro arg_cong [where f = sum_list] map_cong) auto
  also have "\<dots> = sum_list (map (\<lambda>i. if f a = i then 1 else 0) [0..<n]) + length (filter (\<lambda>x. f x < n) xs)"
    by (simp add: sum_list_addf Cons.IH)
  also have "sum_list (map (\<lambda>i. if f a = i then 1 else 0) [0..<n]) = (if f a < n then 1 else (0::nat))"
    by (simp add: interv_sum_list_conv_sum_set_nat)
  finally show ?case by simp
qed simp

lemma percentile_scan_Some:
  assumes "cum + sum_list cs < 2 ^ 64" "rank \<le> cum + sum_list cs" "cum < rank"
  shows "\<exists>j < length cs. percentile_scan cs i cum rank = Some (i + j)
           \<and> cum + sum_list (take j cs) < rank \<and> rank \<le> cum + sum_list (take (Suc j) cs)"
  using assms
proof (induction cs arbitrary: i cum)
  case (Cons c cs)
  then have m: "(cum + c) mod 2 ^ 64 = cum + c" by simp
  show ?case
  proof (cases "rank \<le> cum + c")
    case True
    then show ?thesis using Cons.prems m by (intro exI [of _ 0]) (simp add: Let_def)
  next
    case False
    then obtain j where "j < length cs" "percentile_scan cs (Suc i) (cum + c) rank = Some (Suc i + j)"
      "cum + c + sum_list (take j cs) < rank" "rank \<le> cum + c + sum_list (take (Suc j) cs)"
      using Cons.IH [of "cum + c" "Suc i"] Cons.prems by (auto simp: add.assoc)
    then show ?thesis using False m by (intro exI [of _ "Suc j"]) (simp add: Let_def add.assoc)
  qed
qed simp

lemma sorted_rank_iff:
  assumes "sorted xs" "r < length xs"
  shows "Suc r \<le> length (filter (\<lambda>x. x < n) xs) \<longleftrightarrow> xs ! r < (n::nat)"
  using assms
proof (induction xs arbitrary: r)
  case (Cons a xs)
  show ?case
  proof (cases "a < n")
    case True
    with Cons show ?thesis by (cases r) auto
  next
    case False
    then have "\<forall>x \<in> set xs. \<not> x < n" using Cons.prems(1) by auto
    then show ?thesis using False Cons.prems by (cases r) (auto simp: filter_empty_conv)
  qed
qed simp

lemma percentile_rank_range: "0 < cnt \<Longrightarrow> 1 \<le> percentile_rank cnt p \<and> percentile_rank cnt p \<le> cnt"
  unfolding percentile_rank_def Let_def by (auto simp only: split: if_split)

lemma scan_finds_slot:
  assumes "length xs < 2 ^ 64" "\<forall>x \<in> set xs. hist_slot_of x < kSlots" "1 \<le> r" "r \<le> length xs"
  shows "percentile_scan (map (\<lambda>i. length (filter (\<lambda>x. hist_slot_of x = i) xs)) [0..<kSlots]) 0 0 r
         = Some (hist_slot_of (sort xs ! (r - 1)))"
proof -
  define cs where "cs = map (\<lambda>i. length (filter (\<lambda>x. hist_slot_of x = i) xs)) [0..<kSlots]"
  have tk: "sum_list (take j cs) = length (filter (\<lambda>x. hist_slot_of x < j) xs)" if "j \<le> kSlots" for j
    using that sum_count_upt [of hist_slot_of xs j] by (simp add: cs_def take_map min_def)
  have all: "sum_list cs = length xs"
    using tk [of kSlots] assms(2) by (simp add: cs_def)
  obtain j where j: "j < kSlots" "percentile_scan cs 0 0 r = Some j"
    "length (filter (\<lambda>x. hist_slot_of x < j) xs) < r" "r \<le> length (filter (\<lambda>x. hist_slot_of x < Suc j) xs)"
    using percentile_scan_Some [of 0 cs r 0] assms tk all by (auto simp: cs_def)
  define ts where "ts = map hist_slot_of (sort xs)"
  have srt: "sorted ts" unfolding ts_def
    by (rule sorted_map_mono) (auto intro: monoI slot_of_mono simp: mono_on_def)
  have cnt: "length (filter (\<lambda>x. hist_slot_of x < n) xs) = length (filter (\<lambda>x. x < n) ts)" for n
    by (simp add: ts_def filter_map o_def filter_sort)
  have len: "r - 1 < length ts" using assms by (simp add: ts_def)
  note iff = sorted_rank_iff [OF srt len]
  have "ts ! (r - 1) < Suc j" using iff [of "Suc j"] j(4) assms(3) by (simp add: cnt)
  moreover have "\<not> ts ! (r - 1) < j" using iff [of j] j(3) assms(3) by (simp add: cnt)
  ultimately have "ts ! (r - 1) = j" by simp
  then show ?thesis using j(2) len by (simp add: cs_def ts_def)
qed

lemma percentile_value:
  fixes p :: rat
  assumes "hist_rel h xs" "xs \<noteq> []"
  defines "x \<equiv> sort xs ! (percentile_rank (length xs) p - 1)"
  shows "hist_percentile h p = int (min (slot_upper_bound (hist_slot_of x)) (fold max xs 0))"
    and "x \<in> set xs" "x < 2 ^ 63"
proof -
  have rel: "length xs < 2 ^ 64" "\<forall>y \<in> set xs. y < 2 ^ 63" "lh_count h = length xs" "lh_max h = fold max xs 0"
    "lh_counts h = map (\<lambda>i. length (filter (\<lambda>x. hist_slot_of x = i) xs)) [0..<kSlots]"
    using assms(1) by (simp_all add: hist_rel_def)
  have sl: "\<forall>y \<in> set xs. hist_slot_of y < kSlots" using rel(2) by (auto intro!: hist_slot_of_bound)
  have rk: "1 \<le> percentile_rank (length xs) p" "percentile_rank (length xs) p \<le> length xs"
    using percentile_rank_range [of "length xs" p] assms(2) by auto
  show xin: "x \<in> set xs" unfolding x_def using rk nth_mem [of "percentile_rank (length xs) p - 1" "sort xs"] by simp
  show "x < 2 ^ 63" using xin rel(2) by blast
  have "fold max xs 0 < 2 ^ 63" using rel(2) by (simp add: fold_max_Max)
  then have "in64 (int (min (slot_upper_bound (hist_slot_of x)) (fold max xs 0)))"
    by (simp add: in64_def min_def)
  then show "hist_percentile h p = int (min (slot_upper_bound (hist_slot_of x)) (fold max xs 0))"
    using scan_finds_slot [OF rel(1) sl rk] assms(2) rel
    by (simp add: hist_percentile_def x_def)
qed

lemma percentile_bounds:
  fixes p :: rat
  assumes "hist_rel h xs" "xs \<noteq> []"
  defines "x \<equiv> sort xs ! (percentile_rank (length xs) p - 1)"
  shows "int x \<le> hist_percentile h p" "64 * hist_percentile h p \<le> 65 * int x"
    "hist_min h \<le> hist_percentile h p" "hist_percentile h p \<le> hist_max h"
proof -
  note v = percentile_value [OF assms(1,2), of p, folded x_def]
  note b = slot_brackets [of x]
  have mx: "x \<le> fold max xs 0" using v(2) by (simp add: fold_max_Max)
  have mn: "fold min xs kUnsetMin \<le> x" using v(2) by (simp add: fold_min_Min)
  have lt: "fold max xs 0 < 2 ^ 63" using assms(1) by (simp add: hist_rel_def fold_max_Max)
  show lo: "int x \<le> hist_percentile h p" using v b(2) mx by simp
  have "64 * min (slot_upper_bound (hist_slot_of x)) (fold max xs 0) \<le> 65 * x" using b(3) v(3) by simp
  then show "64 * hist_percentile h p \<le> 65 * int x" unfolding v(1) by linarith
  have "hist_min h = int (fold min xs kUnsetMin)"
    using assms(1,2) mn v(3) by (simp add: hist_min_def hist_rel_def in64_def)
  then show "hist_min h \<le> hist_percentile h p" using lo mn by simp
  have "hist_max h = int (fold max xs 0)"
    using assms(1) lt by (simp add: hist_max_def hist_rel_def in64_def)
  then show "hist_percentile h p \<le> hist_max h" using v(1) by simp
qed

definition hist_of :: "int list \<Rightarrow> LatencyHistogram" where
  "hist_of vs = fold (\<lambda>v h. hist_record h v) vs empty_histogram"

lemma hist_rel_fold:
  assumes "hist_rel h xs" "list_all in64 vs" "length xs + length vs < 2 ^ 64"
  shows "hist_rel (fold (\<lambda>v h. hist_record h v) vs h) (xs @ map nat vs)"
  using assms
proof (induction vs arbitrary: h xs)
  case (Cons v vs)
  have "hist_rel (hist_record h v) (xs @ [nat v])" using Cons.prems by (intro hist_rel_record) auto
  then have "hist_rel (fold (\<lambda>v h. hist_record h v) vs (hist_record h v)) ((xs @ [nat v]) @ map nat vs)"
    using Cons.prems by (intro Cons.IH) auto
  then show ?case by simp
qed simp

lemma hist_of_rel: "list_all in64 vs \<Longrightarrow> length vs < 2 ^ 64 \<Longrightarrow> hist_rel (hist_of vs) (map nat vs)"
  using hist_rel_fold [OF hist_rel_empty, of vs] by (simp add: hist_of_def)

text \<open>
  Whatever samples a histogram has recorded (any 64-bit values, negative ones counting as zero), the reported
  percentile is never below the sample of that rank in the sorted list of all samples, exceeds it by at most one part
  in 64, and lies between the smallest and the largest sample.
\<close>

theorem percentile_order_statistic:
  assumes "vs \<noteq> []" "list_all in64 vs" "length vs < 2 ^ 64"
  shows "int (sort (map nat vs) ! (percentile_rank (length vs) p - 1)) \<le> hist_percentile (hist_of vs) p
       \<and> 64 * hist_percentile (hist_of vs) p \<le> 65 * int (sort (map nat vs) ! (percentile_rank (length vs) p - 1))
       \<and> hist_min (hist_of vs) \<le> hist_percentile (hist_of vs) p
       \<and> hist_percentile (hist_of vs) p \<le> hist_max (hist_of vs)"
  using percentile_bounds [OF hist_of_rel [OF assms(2,3)], of p] assms(1) by simp

theorem percentile_order_statistic_witness:
  "1000 \<le> hist_percentile (hist_of [1000, -5, 70000, 2000]) 50
   \<and> 64 * hist_percentile (hist_of [1000, -5, 70000, 2000]) 50 \<le> 65000"
proof -
  have r: "percentile_rank (Suc (Suc (Suc (Suc 0)))) 50 = 2" by code_simp
  have s: "sort [1000, 0, 70000, 2000 :: nat] ! 1 = 1000" by simp
  show ?thesis
    using percentile_order_statistic [of "[1000, -5, 70000, 2000]" 50] by (simp add: in64_def r s)
qed

lemma percentile_rank_100: "cnt < 2 ^ 53 \<Longrightarrow> 0 < cnt \<Longrightarrow> percentile_rank cnt 100 = cnt"
proof -
  assume c: "cnt < 2 ^ 53" "0 < cnt"
  have one: "fl 1 = 1" using fl_of_int [of 1] by simp
  have "fl (of_int (int cnt)) = of_int (int cnt)" using c by (intro fl_of_int) simp
  then have "dmul (ddiv 100 100) (of_int64 (int cnt)) = of_int (int cnt)"
    by (simp add: dmul_def ddiv_def of_int64_def one)
  then show ?thesis using c by (simp add: percentile_rank_def Let_def)
qed

lemma sort_last_max:
  fixes xs :: "nat list"
  assumes "0 < length xs"
  shows "sort xs ! (length xs - 1) = fold max xs 0"
proof -
  have le: "sort xs ! i \<le> sort xs ! (length xs - 1)" if "i < length (sort xs)" for i
    using that by (intro sorted_nth_mono) simp_all
  have "y \<le> sort xs ! (length xs - 1)" if "y \<in> set xs" for y
    using that le by (metis in_set_conv_nth set_sort)
  moreover have "sort xs ! (length xs - 1) \<in> set xs"
    using nth_mem [of "length xs - 1" "sort xs"] assms by (simp del: length_greater_0_conv)
  ultimately have "Max (insert 0 (set xs)) = sort xs ! (length xs - 1)" by (intro Max_eqI) auto
  then show ?thesis by (simp only: fold_max_Max)
qed

text \<open>The hundredth percentile is the maximum exactly, as the comment in the code says.\<close>

lemma percentile_100:
  assumes "hist_rel h xs" "xs \<noteq> []" "length xs < 2 ^ 53"
  shows "hist_percentile h 100 = int (fold max xs 0)"
proof -
  have p: "0 < length xs" using assms(2) by simp
  have x: "sort xs ! (percentile_rank (length xs) 100 - 1) = fold max xs 0"
    unfolding percentile_rank_100 [OF assms(3) p] by (rule sort_last_max [OF p])
  note v = percentile_value [OF assms(1,2), of 100, unfolded x]
  show ?thesis using v slot_brackets(2) [of "fold max xs 0"] by simp
qed

lemma summary_ordered:
  assumes "hist_rel h xs" "xs \<noteq> []"
  shows "ls_min_ns (summary_from h) \<le> ls_p50_ns (summary_from h)" "ls_p999_ns (summary_from h) \<le> ls_max_ns (summary_from h)"
  using percentile_bounds [OF assms]
  by (simp_all add: summary_from_def hist_p50_def hist_p999_def)

end
