(* ===== verification/ObjectPool.thy ===== *)
theory ObjectPool
  imports Prelude
begin

text \<open>
  The fixed-capacity object pool of \<^verbatim>\<open>include/mm/common/ObjectPool.hpp\<close>. The capacity is the template
  argument, here the length of the three arrays; an index is a \<^verbatim>\<open>uint32_t\<close>, here a natural number. The
  occupancy invariant \<open>pool_inv\<close> is shown of every sequence of operations, and with it that no two owners ever hold
  the same slot. The object \<^verbatim>\<open>T{}\<close> is the argument \<open>t0\<close>.
\<close>

section \<open>State and operations\<close>

definition kInvalidIndex :: nat where "kInvalidIndex = 4294967295"

record 'a ObjectPool =
  op_slots :: "'a list"
  op_free_list :: "nat list"
  op_in_use :: "bool list"
  op_free_count :: nat
  op_high_water :: nat
  op_acquired_total :: nat
  op_invalid_releases :: nat

definition pool_capacity :: "'a ObjectPool \<Rightarrow> nat" where
  "pool_capacity p = length (op_slots p)"

definition new_pool :: "'a \<Rightarrow> nat \<Rightarrow> 'a ObjectPool" where
  "new_pool t0 cap =
    \<lparr>op_slots = replicate cap t0, op_free_list = map (\<lambda>i. cap - 1 - i) [0..<cap], op_in_use = replicate cap False,
     op_free_count = cap, op_high_water = 0, op_acquired_total = 0, op_invalid_releases = 0\<rparr>"

definition pool_acquire :: "'a \<Rightarrow> 'a ObjectPool \<Rightarrow> nat \<times> 'a ObjectPool" where
  "pool_acquire t0 p =
    (if op_free_count p = 0 then (kInvalidIndex, p)
     else (let fc = op_free_count p - 1;
               idx = op_free_list p ! fc;
               used = pool_capacity p - fc
           in (idx, p\<lparr>op_free_count := fc,
                      op_in_use := (op_in_use p)[idx := True],
                      op_slots := (op_slots p)[idx := t0],
                      op_acquired_total := inc64 (op_acquired_total p),
                      op_high_water := (if used > op_high_water p then used else op_high_water p)\<rparr>)))"

definition pool_is_live :: "'a ObjectPool \<Rightarrow> nat \<Rightarrow> bool" where
  "pool_is_live p idx \<longleftrightarrow> idx < pool_capacity p \<and> op_in_use p ! idx"

definition pool_release :: "'a ObjectPool \<Rightarrow> nat \<Rightarrow> bool \<times> 'a ObjectPool" where
  "pool_release p idx =
    (if pool_capacity p \<le> idx \<or> \<not> op_in_use p ! idx
     then (False, p\<lparr>op_invalid_releases := inc64 (op_invalid_releases p)\<rparr>)
     else (True, p\<lparr>op_in_use := (op_in_use p)[idx := False],
                  op_free_list := (op_free_list p)[op_free_count p := idx],
                  op_free_count := op_free_count p + 1\<rparr>))"

definition pool_get :: "'a ObjectPool \<Rightarrow> nat \<Rightarrow> 'a option" where
  "pool_get p idx = (if idx < pool_capacity p \<and> op_in_use p ! idx then Some (op_slots p ! idx) else None)"

text \<open>Writing through the reference \<^verbatim>\<open>operator[]\<close> or the pointer \<^verbatim>\<open>get\<close> returns.\<close>

definition pool_put :: "'a ObjectPool \<Rightarrow> nat \<Rightarrow> 'a \<Rightarrow> 'a ObjectPool" where
  "pool_put p idx t = p\<lparr>op_slots := (op_slots p)[idx := t]\<rparr>"

definition in_use_count :: "'a ObjectPool \<Rightarrow> nat" where
  "in_use_count p = pool_capacity p - op_free_count p"

definition pool_available :: "'a ObjectPool \<Rightarrow> nat" where
  "pool_available p = op_free_count p"

definition for_each_live :: "(nat \<Rightarrow> 'a \<Rightarrow> 's \<Rightarrow> 's) \<Rightarrow> 'a ObjectPool \<Rightarrow> 's \<Rightarrow> 's" where
  "for_each_live fn p s =
    fold (\<lambda>i s. if op_in_use p ! i then fn i (op_slots p ! i) s else s) [0..<pool_capacity p] s"

text \<open>A client's calls, as data, so that every history of the pool is a list of them.\<close>

datatype 'a pool_op = Acquire | Release nat | Put nat 'a

fun pool_step :: "'a \<Rightarrow> 'a pool_op \<Rightarrow> 'a ObjectPool \<Rightarrow> 'a ObjectPool" where
  "pool_step t0 Acquire p = snd (pool_acquire t0 p)"
| "pool_step t0 (Release idx) p = snd (pool_release p idx)"
| "pool_step t0 (Put idx t) p = pool_put p idx t"

definition pool_run :: "'a \<Rightarrow> nat \<Rightarrow> 'a pool_op list \<Rightarrow> 'a ObjectPool" where
  "pool_run t0 cap ops = fold (pool_step t0) ops (new_pool t0 cap)"

section \<open>The occupancy invariant\<close>

definition free_part :: "'a ObjectPool \<Rightarrow> nat list" where
  "free_part p = take (op_free_count p) (op_free_list p)"

definition pool_inv :: "nat \<Rightarrow> 'a ObjectPool \<Rightarrow> bool" where
  "pool_inv cap p \<longleftrightarrow>
    length (op_slots p) = cap \<and> length (op_free_list p) = cap \<and> length (op_in_use p) = cap \<and>
    op_free_count p \<le> cap \<and> op_high_water p \<le> cap \<and> cap - op_free_count p \<le> op_high_water p \<and>
    distinct (free_part p) \<and> set (free_part p) = {i. i < cap \<and> \<not> op_in_use p ! i}"

lemma new_pool_inv: "pool_inv cap (new_pool t0 cap)"
proof -
  have "set (map (\<lambda>i. cap - 1 - i) [0..<cap]) = {i. i < cap}"
  proof (intro set_eqI iffI)
    fix i assume "i \<in> {i. i < cap}"
    then have "i = cap - 1 - (cap - 1 - i) \<and> cap - 1 - i < cap" by auto
    then show "i \<in> set (map (\<lambda>i. cap - 1 - i) [0..<cap])" by fastforce
  qed auto
  moreover have "distinct (map (\<lambda>i. cap - 1 - i) [0..<cap])"
    by (auto simp: distinct_map inj_on_def)
  ultimately show ?thesis by (auto simp: pool_inv_def new_pool_def free_part_def)
qed

lemma take_snoc_free:
  assumes "0 < n" "n \<le> length xs"
  shows "take n xs = take (n - 1) xs @ [xs ! (n - 1)]"
  using assms take_Suc_conv_app_nth [of "n - 1" xs] by simp

lemma acquire_free:
  assumes "pool_inv cap p" "op_free_count p \<noteq> 0"
  defines "idx \<equiv> op_free_list p ! (op_free_count p - 1)"
  shows "idx < cap" "\<not> op_in_use p ! idx" "idx \<notin> set (take (op_free_count p - 1) (op_free_list p))"
    "set (take (op_free_count p - 1) (op_free_list p)) = {i. i < cap \<and> \<not> op_in_use p ! i} - {idx}"
    "distinct (take (op_free_count p - 1) (op_free_list p))"
proof -
  have s: "free_part p = take (op_free_count p - 1) (op_free_list p) @ [idx]"
    unfolding free_part_def idx_def using assms by (intro take_snoc_free) (auto simp: pool_inv_def)
  have d: "distinct (free_part p)" "set (free_part p) = {i. i < cap \<and> \<not> op_in_use p ! i}"
    using assms(1) by (auto simp: pool_inv_def)
  have "idx \<in> set (free_part p)" by (simp add: s)
  then show "idx < cap" "\<not> op_in_use p ! idx" using d(2) by auto
  show "idx \<notin> set (take (op_free_count p - 1) (op_free_list p))"
    "distinct (take (op_free_count p - 1) (op_free_list p))" using d(1) by (auto simp: s)
  then show "set (take (op_free_count p - 1) (op_free_list p)) = {i. i < cap \<and> \<not> op_in_use p ! i} - {idx}"
    using d(2) by (auto simp: s)
qed

lemma acquire_inv: "pool_inv cap p \<Longrightarrow> pool_inv cap (snd (pool_acquire t0 p))"
proof (cases "op_free_count p = 0")
  case False
  assume inv: "pool_inv cap p"
  note a = acquire_free [OF inv False]
  define idx where "idx = op_free_list p ! (op_free_count p - 1)"
  have len: "length (op_slots p) = cap" "length (op_free_list p) = cap" "length (op_in_use p) = cap"
    "op_free_count p \<le> cap" "op_high_water p \<le> cap" using inv by (simp_all add: pool_inv_def)
  have s: "{i. i < cap \<and> \<not> op_in_use p ! i} - {idx} = {i. i < cap \<and> \<not> (op_in_use p)[idx := True] ! i}"
    using len a(1) by (auto simp: nth_list_update idx_def)
  define q where "q = snd (pool_acquire t0 p)"
  have q: "op_slots q = (op_slots p)[idx := t0]" "op_in_use q = (op_in_use p)[idx := True]"
    "op_free_count q = op_free_count p - 1" "op_free_list q = op_free_list p"
    "op_high_water q = max (op_high_water p) (cap - (op_free_count p - 1))"
    using False len by (simp_all add: q_def idx_def pool_acquire_def Let_def pool_capacity_def max_def)
  have "set (free_part q) = {i. i < cap \<and> \<not> op_in_use q ! i}" "distinct (free_part q)"
    unfolding free_part_def q a(4) using a(5) s by (simp_all add: idx_def)
  then show ?thesis
    unfolding q_def [symmetric] pool_inv_def using len by (intro conjI) (simp_all add: q)
qed (simp add: pool_acquire_def)

text \<open>The free part is exactly as long as the number of dead slots, so exhaustion is full occupancy.\<close>

lemma free_count_card:
  assumes "pool_inv cap p"
  shows "op_free_count p = card {i. i < cap \<and> \<not> op_in_use p ! i}"
proof -
  have s: "set (free_part p) = {i. i < cap \<and> \<not> op_in_use p ! i}" "distinct (free_part p)"
    "length (free_part p) = op_free_count p"
    using assms by (auto simp: pool_inv_def free_part_def)
  show ?thesis using distinct_card [OF s(2)] unfolding s(1) s(3) by simp
qed

lemma release_dead_refused:
  "\<not> pool_is_live p idx \<Longrightarrow> pool_release p idx = (False, p\<lparr>op_invalid_releases := inc64 (op_invalid_releases p)\<rparr>)"
  by (auto simp: pool_release_def pool_is_live_def)

lemma pool_inv_invalid_releases [simp]: "pool_inv cap (p\<lparr>op_invalid_releases := n\<rparr>) = pool_inv cap p"
  by (simp add: pool_inv_def free_part_def)

lemma release_inv: "pool_inv cap p \<Longrightarrow> pool_inv cap (snd (pool_release p idx))"
proof (cases "pool_is_live p idx")
  case True
  assume inv: "pool_inv cap p"
  have idx: "idx < cap" "op_in_use p ! idx" using True inv by (auto simp: pool_is_live_def pool_capacity_def pool_inv_def)
  have room: "op_free_count p < cap"
  proof -
    have "card {i. i < cap \<and> \<not> op_in_use p ! i} < card {i. i < cap}"
      using idx by (intro psubset_card_mono) auto
    then show ?thesis by (simp add: free_count_card [OF inv])
  qed
  define q where "q = snd (pool_release p idx)"
  have q: "op_slots q = op_slots p" "op_in_use q = (op_in_use p)[idx := False]" "op_high_water q = op_high_water p"
    "op_free_list q = (op_free_list p)[op_free_count p := idx]" "op_free_count q = op_free_count p + 1"
    using True by (simp_all add: q_def pool_release_def pool_is_live_def not_le)
  have p: "length (op_slots p) = cap" "length (op_free_list p) = cap" "length (op_in_use p) = cap"
    "op_high_water p \<le> cap" "cap - op_free_count p \<le> op_high_water p"
    "distinct (free_part p)" "set (free_part p) = {i. i < cap \<and> \<not> op_in_use p ! i}"
    using inv by (simp_all add: pool_inv_def)
  have fp: "free_part q = free_part p @ [idx]"
    unfolding free_part_def q using room p(2) by (simp add: take_Suc_conv_app_nth)
  have "set (free_part q) = {i. i < cap \<and> \<not> op_in_use q ! i}"
  proof -
    have "{i. i < cap \<and> \<not> op_in_use p ! i} \<union> {idx} = {i. i < cap \<and> \<not> (op_in_use p)[idx := False] ! i}"
      using idx(1) p(3) by (intro set_eqI) (simp add: nth_list_update)
    then show ?thesis by (simp only: fp q(2) set_append p(7) list.set)
  qed
  moreover have "distinct (free_part q)" unfolding fp distinct_append p(7) using p(6) idx(2) by simp
  ultimately show ?thesis
    unfolding q_def [symmetric] pool_inv_def using p(1-5) room by (intro conjI) (simp_all add: q)
qed (simp add: release_dead_refused)

lemma put_inv: "pool_inv cap p \<Longrightarrow> pool_inv cap (pool_put p idx t)"
  by (simp add: pool_put_def pool_inv_def free_part_def)

lemma step_inv: "pool_inv cap p \<Longrightarrow> pool_inv cap (pool_step t0 op p)"
  by (cases op) (simp_all add: acquire_inv release_inv put_inv)

lemma run_inv: "pool_inv cap (pool_run t0 cap ops)"
proof -
  have "pool_inv cap p \<Longrightarrow> pool_inv cap (fold (pool_step t0) ops p)" for p
    by (induction ops arbitrary: p) (auto intro: step_inv)
  then show ?thesis by (simp add: pool_run_def new_pool_inv)
qed

section \<open>Ownership\<close>

text \<open>
  In every history of the pool (any sequence of acquires, releases, valid or not, and writes), an acquire either
  reports exhaustion, which happens exactly when every slot is live, and changes nothing, or hands out an index in
  range that no live owner holds, makes it live with a fresh object, and leaves every other slot's liveness and contents
  as they were.
\<close>

theorem acquire_hands_out_fresh_slot:
  fixes t0 :: 'a and cap :: nat and ops :: "'a pool_op list"
  defines "p \<equiv> pool_run t0 cap ops"
  defines "idx \<equiv> fst (pool_acquire t0 p)" and "q \<equiv> snd (pool_acquire t0 p)"
  shows "if list_all (pool_is_live p) [0..<cap] then idx = kInvalidIndex \<and> q = p
         else idx < cap \<and> \<not> pool_is_live p idx \<and> pool_get q idx = Some t0
            \<and> pool_available p = pool_available q + 1
            \<and> list_all (\<lambda>j. j = idx \<or> pool_get q j = pool_get p j) [0..<cap]"
proof -
  have inv: "pool_inv cap p" unfolding p_def by (rule run_inv)
  have full: "list_all (pool_is_live p) [0..<cap] \<longleftrightarrow> op_free_count p = 0"
    using inv free_count_card [OF inv] by (auto simp: list_all_iff pool_is_live_def pool_capacity_def pool_inv_def)
  show ?thesis
  proof (cases "op_free_count p = 0")
    case True
    then show ?thesis unfolding full by (simp add: idx_def q_def pool_acquire_def)
  next
    case False
    note a = acquire_free [OF inv False]
    have len: "length (op_slots p) = cap" "length (op_in_use p) = cap" using inv by (simp_all add: pool_inv_def)
    have ix: "idx = op_free_list p ! (op_free_count p - 1)"
      using False by (simp add: idx_def pool_acquire_def Let_def)
    note a = a [folded ix]
    have q: "op_slots q = (op_slots p)[idx := t0]" "op_in_use q = (op_in_use p)[idx := True]"
      "op_free_count q = op_free_count p - 1"
      using False by (simp_all add: q_def ix pool_acquire_def Let_def)
    have other: "list_all (\<lambda>j. j = idx \<or> pool_get q j = pool_get p j) [0..<cap]"
      unfolding list_all_iff
    proof
      fix j show "j = idx \<or> pool_get q j = pool_get p j"
        by (cases "j = idx") (simp_all add: pool_get_def pool_capacity_def q)
    qed
    have "\<not> pool_is_live p idx" "pool_get q idx = Some t0" "pool_available p = pool_available q + 1"
      using False a(1,2) len by (simp_all add: pool_is_live_def pool_get_def pool_capacity_def pool_available_def q)
    then show ?thesis unfolding full using False a(1) other by simp
  qed
qed

lemma double_release_refused:
  assumes "pool_inv cap p" "pool_release p idx = (True, q)"
  shows "\<not> pool_is_live q idx" "fst (pool_release q idx) = False"
proof -
  have "\<not> (pool_capacity p \<le> idx \<or> \<not> op_in_use p ! idx)"
    using assms(2) by (simp add: pool_release_def split: if_splits)
  then have "q = p\<lparr>op_in_use := (op_in_use p)[idx := False], op_free_list := (op_free_list p)[op_free_count p := idx],
      op_free_count := op_free_count p + 1\<rparr>" "idx < length (op_slots p)"
    using assms(2) by (auto simp: pool_release_def pool_capacity_def)
  then show l: "\<not> pool_is_live q idx" using assms(1) by (simp add: pool_is_live_def pool_inv_def)
  show "fst (pool_release q idx) = False" by (simp add: release_dead_refused [OF l])
qed

lemma for_each_live_visits:
  assumes "pool_inv cap p"
  shows "for_each_live (\<lambda>i t s. s @ [(i, t)]) p [] = map (\<lambda>i. (i, op_slots p ! i)) (filter (pool_is_live p) [0..<cap])"
proof -
  have "fold (\<lambda>i s. if op_in_use p ! i then s @ [(i, op_slots p ! i)] else s) is acc
      = acc @ map (\<lambda>i. (i, op_slots p ! i)) (filter (\<lambda>i. op_in_use p ! i) is)" for "is" acc
    by (induction "is" arbitrary: acc) auto
  moreover have "filter (\<lambda>i. op_in_use p ! i) [0..<cap] = filter (pool_is_live p) [0..<cap]"
    using assms by (intro filter_cong) (auto simp: pool_is_live_def pool_capacity_def pool_inv_def)
  ultimately show ?thesis using assms by (simp add: for_each_live_def pool_capacity_def pool_inv_def)
qed

end
