(* ===== verification/SpscRing.thy ===== *)
theory SpscRing
  imports Prelude
begin

text \<open>
  The single-producer single-consumer ring, \<^verbatim>\<open>SpscRing.hpp\<close>: free-running 64-bit positions, a masked buffer, and
  each side's cached copy of the other side's position. Pushing is two memory effects, writing the slot and
  publishing the tail; popping is reading the slot and publishing the head. They are separate definitions, so
  that the interleavings of the two threads are sequences of steps. Acquire and release order the slot access
  before the publication, which is the order of the steps here. \<open>bounded_queue\<close> is the contract that the users of
  a ring rely on.
\<close>

section \<open>Definitions\<close>

definition sub64 :: "nat \<Rightarrow> nat \<Rightarrow> nat" where
  "sub64 a b = nat ((int a - int b) mod 18446744073709551616)"

record 'a SpscRing =
  sq_head :: nat
  sq_tail :: nat
  sq_cached_head :: nat
  sq_cached_tail :: nat
  sq_high_water :: nat
  sq_buffer :: "'a list"

definition sq_capacity :: "'a SpscRing \<Rightarrow> nat" where
  "sq_capacity r = length (sq_buffer r)"

text \<open>A fresh ring; the buffer holds value-initialised elements.\<close>

definition new_ring :: "nat \<Rightarrow> 'a \<Rightarrow> 'a SpscRing" where
  "new_ring cap blank = \<lparr>sq_head = 0, sq_tail = 0, sq_cached_head = 0, sq_cached_tail = 0,
     sq_high_water = 0, sq_buffer = replicate cap blank\<rparr>"

text \<open>The producer up to the slot write, and its publication.\<close>

definition push_write :: "'a SpscRing \<Rightarrow> 'a \<Rightarrow> 'a SpscRing \<times> bool" where
  "push_write r item =
     (let next = inc64 (sq_tail r);
          r1 = (if sub64 next (sq_cached_head r) > sq_capacity r then r\<lparr>sq_cached_head := sq_head r\<rparr> else r)
      in if sub64 next (sq_cached_head r1) > sq_capacity r then (r1, False)
         else (r1\<lparr>sq_buffer := (sq_buffer r1)[sq_tail r mod sq_capacity r := item]\<rparr>, True))"

definition push_publish :: "'a SpscRing \<Rightarrow> 'a SpscRing" where
  "push_publish r = r\<lparr>sq_tail := inc64 (sq_tail r)\<rparr>"

definition try_push :: "'a SpscRing \<Rightarrow> 'a \<Rightarrow> 'a SpscRing \<times> bool" where
  "try_push r item = (let (r1, ok) = push_write r item in if ok then (push_publish r1, True) else (r1, False))"

text \<open>The consumer up to the slot read, and its publication.\<close>

definition pop_read :: "'a SpscRing \<Rightarrow> 'a SpscRing \<times> 'a option" where
  "pop_read r =
     (let r1 = (if sq_head r = sq_cached_tail r then r\<lparr>sq_cached_tail := sq_tail r\<rparr> else r)
      in if sq_head r1 = sq_cached_tail r1 then (r1, None)
         else (r1, Some (sq_buffer r1 ! (sq_head r1 mod sq_capacity r1))))"

definition pop_publish :: "'a SpscRing \<Rightarrow> 'a SpscRing" where
  "pop_publish r = r\<lparr>sq_head := inc64 (sq_head r)\<rparr>"

definition try_pop :: "'a SpscRing \<Rightarrow> 'a SpscRing \<times> 'a option" where
  "try_pop r = (let (r1, x) = pop_read r in case x of None \<Rightarrow> (r1, None) | Some y \<Rightarrow> (pop_publish r1, Some y))"

definition peek :: "'a SpscRing \<Rightarrow> 'a SpscRing \<times> 'a option" where
  "peek r = pop_read r"

definition pop_peeked :: "'a SpscRing \<Rightarrow> 'a SpscRing" where
  "pop_peeked r = pop_publish r"

definition size_approx :: "'a SpscRing \<Rightarrow> nat" where
  "size_approx r = sub64 (sq_tail r) (sq_head r)"

definition observe_high_water :: "'a SpscRing \<Rightarrow> 'a SpscRing" where
  "observe_high_water r =
     (let n = size_approx r in if n > sq_high_water r then r\<lparr>sq_high_water := n\<rparr> else r)"

section \<open>Wrapping positions\<close>

text \<open>
  The positions count modulo \<open>2 ^ 64\<close>. The invariant names the unbounded positions behind them.
\<close>

abbreviation W64 :: nat where
  "W64 \<equiv> 18446744073709551616"

lemma sub64_mod:
  assumes "b \<le> a" "a - b < W64"
  shows "sub64 (a mod W64) (b mod W64) = a - b"
proof -
  have "(int (a mod W64) - int (b mod W64)) mod 18446744073709551616
          = (int a - int b) mod 18446744073709551616"
    by (simp add: zmod_int mod_diff_eq)
  also have "\<dots> = int (a - b)" using assms by (simp add: of_nat_diff)
  finally show ?thesis by (simp add: sub64_def)
qed

lemma inc64_mod: "inc64 (a mod W64) = Suc a mod W64"
proof -
  have "(int (a mod W64) + 1) mod 18446744073709551616 = (int a + 1) mod 18446744073709551616"
    by (simp add: zmod_int mod_add_left_eq)
  also have "\<dots> = int (Suc a mod W64)" by (simp add: zmod_int add.commute)
  finally show ?thesis by (simp add: inc64_def)
qed

lemma mod_eq_near: "a mod W64 = b mod W64 \<Longrightarrow> b \<le> a \<Longrightarrow> a - b < W64 \<Longrightarrow> a = b"
  using sub64_mod [of b a] by (metis (no_types, lifting) diff_is_0_eq' le_refl sub64_mod diff_self_eq_0 diff_is_0_eq le_antisym zero_less_numeral)

lemma slot_mod: "cap dvd W64 \<Longrightarrow> (a mod W64) mod cap = a mod cap" for cap :: nat
  by (simp add: mod_mod_cancel)

section \<open>The invariant and the queue behind the ring\<close>

definition ring_at :: "'a SpscRing \<Rightarrow> nat \<Rightarrow> nat \<Rightarrow> nat \<Rightarrow> nat \<Rightarrow> bool" where
  "ring_at r h t ch ct \<longleftrightarrow>
     0 < sq_capacity r \<and> Suc (sq_capacity r) < W64 \<and> sq_capacity r dvd W64
     \<and> ch \<le> h \<and> h \<le> ct \<and> ct \<le> t \<and> t \<le> ch + sq_capacity r
     \<and> sq_head r = h mod W64 \<and> sq_tail r = t mod W64
     \<and> sq_cached_head r = ch mod W64 \<and> sq_cached_tail r = ct mod W64"

definition ring_inv :: "'a SpscRing \<Rightarrow> bool" where
  "ring_inv r \<longleftrightarrow> (\<exists>h t ch ct. ring_at r h t ch ct)"

definition ring_list :: "'a SpscRing \<Rightarrow> 'a list" where
  "ring_list r = map (\<lambda>k. sq_buffer r ! ((sq_head r + k) mod sq_capacity r)) [0..<size_approx r]"

lemma ring_list_at:
  assumes "ring_at r h t ch ct"
  shows "ring_list r = map (\<lambda>k. sq_buffer r ! (k mod sq_capacity r)) [h..<t]"
proof -
  let ?c = "sq_capacity r"
  have d: "?c dvd W64" and le: "h \<le> t" and n: "t - h < W64" and hd: "sq_head r = h mod W64"
    and tl: "sq_tail r = t mod W64"
    using assms by (auto simp: ring_at_def)
  have "(sq_head r + k) mod ?c = (h + k) mod ?c" for k
    using slot_mod [OF d, of h] by (metis hd mod_add_left_eq)
  moreover have "size_approx r = t - h"
    unfolding size_approx_def hd tl using sub64_mod [OF le n] .
  ultimately show ?thesis
    using le by (auto simp: ring_list_def intro!: nth_equalityI)
qed

lemma ring_list_length:
  assumes "ring_inv r"
  shows "length (ring_list r) \<le> sq_capacity r"
proof -
  obtain h t ch ct where "ring_at r h t ch ct" using assms by (auto simp: ring_inv_def)
  then show ?thesis by (auto simp: ring_list_at ring_at_def)
qed

lemma size_approx_length: "size_approx r = length (ring_list r)"
  by (simp add: ring_list_def)

lemma observe_high_water_list:
  "ring_list (observe_high_water r) = ring_list r" "ring_inv (observe_high_water r) = ring_inv r"
  by (simp_all add: observe_high_water_def Let_def ring_list_def size_approx_def sq_capacity_def ring_inv_def ring_at_def)

lemma new_ring_inv:
  assumes "0 < cap" "Suc cap < W64" "cap dvd W64"
  shows "ring_inv (new_ring cap x)" "ring_list (new_ring cap x) = []"
proof -
  have "ring_at (new_ring cap x) 0 0 0 0"
    using assms by (simp add: ring_at_def sq_capacity_def new_ring_def)
  then show "ring_inv (new_ring cap x)" "ring_list (new_ring cap x) = []"
    by (auto simp: ring_inv_def ring_list_at)
qed

text \<open>The producer's room check, with the cached head reloaded when it claims the ring is full.\<close>

lemma push_write_at:
  assumes "ring_at r h t ch ct"
  shows "snd (push_write r x) \<longleftrightarrow> t < h + sq_capacity r"
    and "\<exists>ch'. ring_at (fst (push_write r x)) h t ch' ct \<and> (snd (push_write r x) \<longrightarrow> Suc t \<le> ch' + sq_capacity r)"
    and "sq_capacity (fst (push_write r x)) = sq_capacity r"
    and "sq_buffer (fst (push_write r x)) =
           (if snd (push_write r x) then (sq_buffer r)[t mod sq_capacity r := x] else sq_buffer r)"
proof -
  let ?c = "sq_capacity r"
  have a: "0 < ?c" "Suc ?c < W64" "?c dvd W64" "ch \<le> h" "h \<le> ct" "ct \<le> t" "t \<le> ch + ?c"
    and eqs: "sq_head r = h mod W64" "sq_tail r = t mod W64" "sq_cached_head r = ch mod W64"
    using assms by (auto simp: ring_at_def)
  have s1: "sub64 (inc64 (sq_tail r)) (sq_cached_head r) = Suc t - ch"
    unfolding eqs inc64_mod by (rule sub64_mod) (use a in auto)
  have s2: "sub64 (inc64 (sq_tail r)) (sq_head r) = Suc t - h"
    unfolding eqs inc64_mod by (rule sub64_mod) (use a in auto)
  have slot: "sq_tail r mod ?c = t mod ?c" unfolding eqs by (rule slot_mod [OF a(3)])
  have pw: "push_write r x =
      (let r1 = (if ?c < Suc t - ch then r\<lparr>sq_cached_head := sq_head r\<rparr> else r)
       in if ?c < Suc t - ch \<and> ?c < Suc t - h then (r1, False)
          else (r1\<lparr>sq_buffer := (sq_buffer r1)[t mod ?c := x]\<rparr>, True))"
    by (simp add: push_write_def Let_def s1 s2 slot)
  show "snd (push_write r x) \<longleftrightarrow> t < h + ?c" using a by (auto simp: pw Let_def)
  show "sq_capacity (fst (push_write r x)) = ?c" by (simp add: pw Let_def sq_capacity_def)
  show "sq_buffer (fst (push_write r x)) =
          (if snd (push_write r x) then (sq_buffer r)[t mod ?c := x] else sq_buffer r)"
    by (simp add: pw Let_def)
  show "\<exists>ch'. ring_at (fst (push_write r x)) h t ch' ct \<and> (snd (push_write r x) \<longrightarrow> Suc t \<le> ch' + ?c)"
    using assms a by (intro exI [of _ "if ?c < Suc t - ch then h else ch"])
      (auto simp: pw Let_def ring_at_def sq_capacity_def)
qed

text \<open>A write into the free slot does not disturb the queued elements.\<close>

lemma free_slot_untouched:
  assumes "ring_at r h t ch ct" "t < h + sq_capacity r" "k \<in> set [h..<t]"
  shows "(sq_buffer r)[t mod sq_capacity r := x] ! (k mod sq_capacity r) = sq_buffer r ! (k mod sq_capacity r)"
proof -
  let ?c = "sq_capacity r"
  have "t mod ?c \<noteq> k mod ?c"
  proof
    assume "t mod ?c = k mod ?c"
    then have "?c dvd t - k" using assms(3) by (simp add: mod_eq_dvd_iff_nat)
    then show False using assms(2,3) dvd_imp_le [of ?c "t - k"] by auto
  qed
  then show ?thesis by simp
qed

lemma push_write_list:
  assumes "ring_inv r"
  shows "ring_list (fst (push_write r x)) = ring_list r" "ring_inv (fst (push_write r x))"
    and "sq_capacity (fst (push_write r x)) = sq_capacity r"
    and "snd (push_write r x) \<longleftrightarrow> length (ring_list r) < sq_capacity r"
proof -
  obtain h t ch ct where at: "ring_at r h t ch ct" using assms by (auto simp: ring_inv_def)
  note pw = push_write_at [OF at, of x]
  from pw(2) obtain ch' where at': "ring_at (fst (push_write r x)) h t ch' ct" by blast
  then show "ring_inv (fst (push_write r x))" by (auto simp: ring_inv_def)
  show "ring_list (fst (push_write r x)) = ring_list r"
    unfolding ring_list_at [OF at] ring_list_at [OF at'] pw(3,4)
    using free_slot_untouched [OF at] pw(1) by auto
  show "sq_capacity (fst (push_write r x)) = sq_capacity r" by (rule pw(3))
  have "h \<le> t" using at by (auto simp: ring_at_def)
  then show "snd (push_write r x) \<longleftrightarrow> length (ring_list r) < sq_capacity r"
    unfolding pw(1) ring_list_at [OF at] by auto
qed
lemma push_publish_list:
  assumes "ring_at r h t ch ct" "Suc t \<le> ch + sq_capacity r"
  shows "ring_at (push_publish r) h (Suc t) ch ct"
    and "ring_list (push_publish r) = ring_list r @ [sq_buffer r ! (t mod sq_capacity r)]"
proof -
  show at': "ring_at (push_publish r) h (Suc t) ch ct"
    using assms inc64_mod [of t] by (auto simp: ring_at_def push_publish_def sq_capacity_def)
  have "h \<le> t" using assms(1) by (auto simp: ring_at_def)
  then show "ring_list (push_publish r) = ring_list r @ [sq_buffer r ! (t mod sq_capacity r)]"
    unfolding ring_list_at [OF assms(1)] ring_list_at [OF at']
    by (simp add: push_publish_def sq_capacity_def)
qed

lemma try_push_list:
  assumes "ring_inv r"
  shows "ring_inv (fst (try_push r x))" "sq_capacity (fst (try_push r x)) = sq_capacity r"
    and "snd (try_push r x) \<longleftrightarrow> length (ring_list r) < sq_capacity r"
    and "ring_list (fst (try_push r x)) = (if length (ring_list r) < sq_capacity r then ring_list r @ [x] else ring_list r)"
proof -
  obtain h t ch ct where at: "ring_at r h t ch ct" using assms by (auto simp: ring_inv_def)
  note pw = push_write_at [OF at, of x] and pl = push_write_list [OF assms, of x]
  obtain r1 ok where r1: "push_write r x = (r1, ok)" by (cases "push_write r x")
  have tp: "try_push r x = (if ok then push_publish r1 else r1, ok)" by (simp add: try_push_def r1)
  from pw(2) r1 obtain ch' where at1: "ring_at r1 h t ch' ct" and room: "ok \<Longrightarrow> Suc t \<le> ch' + sq_capacity r1"
    using pw(3) by auto
  have buf: "ok \<Longrightarrow> sq_buffer r1 ! (t mod sq_capacity r1) = x"
    using pw(3,4) r1 at by (auto simp: ring_at_def sq_capacity_def)
  show "sq_capacity (fst (try_push r x)) = sq_capacity r"
    using pw(3) r1 by (simp add: tp push_publish_def sq_capacity_def)
  show "snd (try_push r x) \<longleftrightarrow> length (ring_list r) < sq_capacity r" using pl(4) r1 by (simp add: tp)
  show "ring_inv (fst (try_push r x))"
    using at1 push_publish_list(1) [OF at1 room] by (auto simp: tp ring_inv_def)
  show "ring_list (fst (try_push r x)) = (if length (ring_list r) < sq_capacity r then ring_list r @ [x] else ring_list r)"
    using push_publish_list(2) [OF at1 room] buf pl(1,4) r1 by (auto simp: tp)
qed

lemma pop_read_at:
  assumes "ring_at r h t ch ct"
  shows "\<exists>ct'. ring_at (fst (pop_read r)) h t ch ct' \<and> (snd (pop_read r) \<noteq> None \<longrightarrow> h < ct')"
    and "snd (pop_read r) = (if h = t then None else Some (sq_buffer r ! (h mod sq_capacity r)))"
    and "ring_list (fst (pop_read r)) = ring_list r" "sq_capacity (fst (pop_read r)) = sq_capacity r"
proof -
  let ?c = "sq_capacity r"
  have a: "?c dvd W64" "Suc ?c < W64" "ch \<le> h" "h \<le> ct" "ct \<le> t" "t \<le> ch + ?c"
    and eqs: "sq_head r = h mod W64" "sq_tail r = t mod W64" "sq_cached_tail r = ct mod W64"
    using assms by (auto simp: ring_at_def)
  have "ct - h < W64" "t - h < W64" "h \<le> t" using a by auto
  then have e1: "sq_head r = sq_cached_tail r \<longleftrightarrow> h = ct" and e2: "sq_head r = sq_tail r \<longleftrightarrow> h = t"
    using mod_eq_near [of ct h] mod_eq_near [of t h] a(4) unfolding eqs by metis+
  have slot: "sq_head r mod ?c = h mod ?c" unfolding eqs by (rule slot_mod [OF a(1)])
  have pr: "pop_read r =
      (let r1 = (if h = ct then r\<lparr>sq_cached_tail := sq_tail r\<rparr> else r)
       in if h = ct \<and> h = t then (r1, None) else (r1, Some (sq_buffer r ! (h mod ?c))))"
    using slot by (auto simp: pop_read_def Let_def e1 e2 sq_capacity_def)
  show at': "\<exists>ct'. ring_at (fst (pop_read r)) h t ch ct' \<and> (snd (pop_read r) \<noteq> None \<longrightarrow> h < ct')"
    using assms a by (intro exI [of _ "if h = ct then t else ct"])
      (auto simp: pr Let_def ring_at_def sq_capacity_def)
  show "snd (pop_read r) = (if h = t then None else Some (sq_buffer r ! (h mod ?c)))"
    using a by (auto simp: pr Let_def)
  show "ring_list (fst (pop_read r)) = ring_list r" "sq_capacity (fst (pop_read r)) = ?c"
    by (auto simp: pr Let_def ring_list_def size_approx_def sq_capacity_def)
qed

lemma pop_publish_list:
  assumes "ring_at r h t ch ct" "h < ct"
  shows "ring_at (pop_publish r) (Suc h) t ch ct" "ring_list (pop_publish r) = tl (ring_list r)"
proof -
  show at': "ring_at (pop_publish r) (Suc h) t ch ct"
    using assms inc64_mod [of h] by (auto simp: ring_at_def pop_publish_def sq_capacity_def)
  have "h < t" using assms by (auto simp: ring_at_def)
  then show "ring_list (pop_publish r) = tl (ring_list r)"
    unfolding ring_list_at [OF assms(1)] ring_list_at [OF at']
    by (simp add: pop_publish_def sq_capacity_def upt_conv_Cons)
qed

lemma ring_list_hd:
  assumes "ring_at r h t ch ct" "h < t"
  shows "ring_list r = sq_buffer r ! (h mod sq_capacity r) # tl (ring_list r)"
  using assms(2) unfolding ring_list_at [OF assms(1)] by (simp add: upt_conv_Cons)

lemma try_pop_list:
  assumes "ring_inv r"
  shows "ring_inv (fst (try_pop r))" "sq_capacity (fst (try_pop r)) = sq_capacity r"
    and "ring_list r = [] \<Longrightarrow> snd (try_pop r) = None"
    and "ring_list r = x # xs \<Longrightarrow> snd (try_pop r) = Some x"
    and "ring_list (fst (try_pop r)) = tl (ring_list r)"
proof -
  obtain h t ch ct where at: "ring_at r h t ch ct" using assms by (auto simp: ring_inv_def)
  note pr = pop_read_at [OF at]
  obtain r1 y where r1: "pop_read r = (r1, y)" by (cases "pop_read r")
  have tp: "try_pop r = (if y = None then r1 else pop_publish r1, y)"
    by (simp add: try_pop_def r1 split: option.splits)
  have ht: "h \<le> t" using at by (auto simp: ring_at_def)
  from pr(1) r1 obtain ct' where at1: "ring_at r1 h t ch ct'" and lt: "y \<noteq> None \<Longrightarrow> h < ct'" by auto
  have empty: "ring_list r = [] \<longleftrightarrow> h = t" using ht unfolding ring_list_at [OF at] by auto
  have y: "y = (if h = t then None else Some (sq_buffer r ! (h mod sq_capacity r)))" using pr(2) r1 by simp
  have l1: "ring_list r1 = ring_list r" "sq_capacity r1 = sq_capacity r" using pr(3,4) r1 by simp_all
  show "ring_inv (fst (try_pop r))"
    using at1 pop_publish_list(1) [OF at1 lt] by (cases "y = None") (simp_all add: tp ring_inv_def, blast+)
  show "sq_capacity (fst (try_pop r)) = sq_capacity r"
    using l1 by (simp add: tp pop_publish_def sq_capacity_def)
  show "ring_list r = [] \<Longrightarrow> snd (try_pop r) = None" using empty y by (simp add: tp)
  show "ring_list r = x # xs \<Longrightarrow> snd (try_pop r) = Some x"
    using empty y ht ring_list_hd [OF at] by (auto simp: tp)
  show "ring_list (fst (try_pop r)) = tl (ring_list r)"
    using l1 pop_publish_list(2) [OF at1 lt] empty y by (auto simp: tp)
qed

section \<open>The contract of a bounded queue\<close>

locale bounded_queue =
  fixes cap :: "'q \<Rightarrow> nat"
    and inv :: "'q \<Rightarrow> bool"
    and queue :: "'q \<Rightarrow> 'a list"
    and push :: "'q \<Rightarrow> 'a \<Rightarrow> 'q \<times> bool"
    and pop :: "'q \<Rightarrow> 'q \<times> 'a option"
  assumes bounded: "inv q \<Longrightarrow> length (queue q) \<le> cap q"
    and push_inv: "inv q \<Longrightarrow> inv (fst (push q x)) \<and> cap (fst (push q x)) = cap q"
    and push_queue: "inv q \<Longrightarrow> queue (fst (push q x)) = (if snd (push q x) then queue q @ [x] else queue q)"
    and push_room: "inv q \<Longrightarrow> snd (push q x) \<longleftrightarrow> length (queue q) < cap q"
    and pop_inv: "inv q \<Longrightarrow> inv (fst (pop q)) \<and> cap (fst (pop q)) = cap q"
    and pop_queue: "inv q \<Longrightarrow> queue (fst (pop q)) = tl (queue q)"
    and pop_empty: "inv q \<Longrightarrow> queue q = [] \<Longrightarrow> snd (pop q) = None"
    and pop_hd: "inv q \<Longrightarrow> queue q = x # xs \<Longrightarrow> snd (pop q) = Some x"
begin

text \<open>Pushing a batch: what is accepted is a prefix, and popping returns it in order.\<close>

fun push_all :: "'q \<Rightarrow> 'a list \<Rightarrow> 'q \<times> 'a list" where
  "push_all q [] = (q, [])"
| "push_all q (x # xs) =
     (let (q1, ok) = push q x; (q2, acc) = push_all q1 xs in (q2, if ok then x # acc else acc))"

lemma push_all_queue:
  "inv q \<Longrightarrow> inv (fst (push_all q xs)) \<and> queue (fst (push_all q xs)) = queue q @ take (cap q - length (queue q)) xs
     \<and> snd (push_all q xs) = take (cap q - length (queue q)) xs"
proof (induction xs arbitrary: q)
  case Nil
  then show ?case by simp
next
  case (Cons x xs)
  obtain q1 ok where q1: "push q x = (q1, ok)" by (cases "push q x")
  have i1: "inv q1" and c1: "cap q1 = cap q" using push_inv [OF Cons.prems, of x] q1 by simp_all
  show ?case
  proof (cases "length (queue q) < cap q")
    case True
    then obtain n where n: "cap q - length (queue q) = Suc n" by (metis Suc_diff_Suc)
    then have "cap q - Suc (length (queue q)) = n" by simp
    with True n show ?thesis
      using Cons.IH [OF i1] push_queue [OF Cons.prems, of x] push_room [OF Cons.prems, of x] q1 c1
      by (simp add: case_prod_beta)
  next
    case False
    then show ?thesis
      using Cons.IH [OF i1] push_queue [OF Cons.prems, of x] push_room [OF Cons.prems, of x] q1 c1
      by (simp add: case_prod_beta)
  qed
qed

lemma pop_some_iff: "inv q \<Longrightarrow> snd (pop q) = None \<longleftrightarrow> queue q = []"
  using pop_empty pop_hd by (cases "queue q") auto

lemma pop_shrinks: "inv q \<Longrightarrow> snd (pop q) \<noteq> None \<Longrightarrow> length (queue (fst (pop q))) < length (queue q)"
  using pop_queue pop_some_iff by (cases "queue q") auto

end

interpretation spsc: bounded_queue sq_capacity ring_inv ring_list try_push try_pop
  by unfold_locales (simp_all add: ring_list_length try_push_list try_pop_list)

section \<open>Two threads\<close>

text \<open>
  The producer and the consumer as a step relation over the shared ring: the element a thread is between its slot
  access and its publication with, and the logs of what was published and what was taken.
\<close>

record 'a spsc =
  sp_ring :: "'a SpscRing"
  sp_writing :: "'a option"
  sp_reading :: "'a option"
  sp_pushed :: "'a list"
  sp_popped :: "'a list"

inductive spsc_step :: "'a spsc \<Rightarrow> 'a spsc \<Rightarrow> bool" where
  slot_write: "sp_writing s = None \<Longrightarrow> push_write (sp_ring s) x = (r, True) \<Longrightarrow>
          spsc_step s (s\<lparr>sp_ring := r, sp_writing := Some x\<rparr>)"
| full: "sp_writing s = None \<Longrightarrow> push_write (sp_ring s) x = (r, False) \<Longrightarrow> spsc_step s (s\<lparr>sp_ring := r\<rparr>)"
| publish: "sp_writing s = Some x \<Longrightarrow>
          spsc_step s (s\<lparr>sp_ring := push_publish (sp_ring s), sp_writing := None, sp_pushed := sp_pushed s @ [x]\<rparr>)"
| read: "sp_reading s = None \<Longrightarrow> pop_read (sp_ring s) = (r, Some x) \<Longrightarrow>
          spsc_step s (s\<lparr>sp_ring := r, sp_reading := Some x\<rparr>)"
| empty: "sp_reading s = None \<Longrightarrow> pop_read (sp_ring s) = (r, None) \<Longrightarrow> spsc_step s (s\<lparr>sp_ring := r\<rparr>)"
| take: "sp_reading s = Some x \<Longrightarrow>
          spsc_step s (s\<lparr>sp_ring := pop_publish (sp_ring s), sp_reading := None, sp_popped := sp_popped s @ [x]\<rparr>)"

definition spsc_start :: "nat \<Rightarrow> 'a \<Rightarrow> 'a spsc" where
  "spsc_start cap blank = \<lparr>sp_ring = new_ring cap blank, sp_writing = None, sp_reading = None,
     sp_pushed = [], sp_popped = []\<rparr>"

definition spsc_inv :: "'a spsc \<Rightarrow> bool" where
  "spsc_inv s \<longleftrightarrow>
     (\<exists>h t ch ct. ring_at (sp_ring s) h t ch ct
        \<and> (\<forall>x. sp_writing s = Some x \<longrightarrow> Suc t \<le> ch + sq_capacity (sp_ring s)
               \<and> sq_buffer (sp_ring s) ! (t mod sq_capacity (sp_ring s)) = x)
        \<and> (\<forall>x. sp_reading s = Some x \<longrightarrow> h < ct
               \<and> sq_buffer (sp_ring s) ! (h mod sq_capacity (sp_ring s)) = x))
     \<and> sp_pushed s = sp_popped s @ ring_list (sp_ring s)"

lemma spsc_invI:
  assumes "ring_at (sp_ring s) h t ch ct"
    and "\<And>x. sp_writing s = Some x \<Longrightarrow> Suc t \<le> ch + sq_capacity (sp_ring s)
           \<and> sq_buffer (sp_ring s) ! (t mod sq_capacity (sp_ring s)) = x"
    and "\<And>x. sp_reading s = Some x \<Longrightarrow> h < ct \<and> sq_buffer (sp_ring s) ! (h mod sq_capacity (sp_ring s)) = x"
    and "sp_pushed s = sp_popped s @ ring_list (sp_ring s)"
  shows "spsc_inv s"
  unfolding spsc_inv_def using assms by blast

lemma spsc_step_inv:
  assumes "spsc_step s s'" "spsc_inv s"
  shows "spsc_inv s' \<and> sq_capacity (sp_ring s') = sq_capacity (sp_ring s)"
proof -
  let ?r = "sp_ring s" and ?c = "sq_capacity (sp_ring s)"
  from assms(2) obtain h t ch ct where at: "ring_at ?r h t ch ct"
    and w: "\<And>x. sp_writing s = Some x \<Longrightarrow> Suc t \<le> ch + ?c \<and> sq_buffer ?r ! (t mod ?c) = x"
    and rd: "\<And>x. sp_reading s = Some x \<Longrightarrow> h < ct \<and> sq_buffer ?r ! (h mod ?c) = x"
    and logs: "sp_pushed s = sp_popped s @ ring_list ?r"
    unfolding spsc_inv_def by blast
  have inv: "ring_inv ?r" and bnd: "h \<le> ct" "ct \<le> t" "0 < ?c" using at by (auto simp: ring_inv_def ring_at_def)
  from assms(1) show ?thesis
  proof cases
    case (slot_write x r)
    note pw = push_write_at [OF at, of x]
    from pw(2) obtain ch' where at': "ring_at r h t ch' ct" and room: "Suc t \<le> ch' + ?c" using slot_write by auto
    have buf: "sq_buffer r = (sq_buffer ?r)[t mod ?c := x]" and cap: "sq_capacity r = ?c" and "t < h + ?c"
      using pw slot_write by simp_all
    then have keep: "h < ct \<Longrightarrow> sq_buffer r ! (h mod ?c) = sq_buffer ?r ! (h mod ?c)"
      using free_slot_untouched [OF at, of h x] bnd by auto
    have "sq_buffer r ! (t mod ?c) = x" using buf bnd by (simp add: sq_capacity_def)
    moreover have "ring_list r = ring_list ?r" using push_write_list(1) [OF inv, of x] slot_write by simp
    ultimately have "spsc_inv s'"
      using at' room rd keep cap logs slot_write by (intro spsc_invI [where h = h and t = t and ch = ch' and ct = ct]) auto
    then show ?thesis using cap slot_write by simp
  next
    case (full x r)
    note pw = push_write_at [OF at, of x]
    from pw(2) obtain ch' where at': "ring_at r h t ch' ct" using full by auto
    moreover have "ring_list r = ring_list ?r" "sq_buffer r = sq_buffer ?r" "sq_capacity r = ?c"
      using push_write_list(1) [OF inv, of x] pw full by simp_all
    ultimately show ?thesis
      using rd logs full by (auto intro!: spsc_invI [where h = h and t = t and ch = ch' and ct = ct])
  next
    case (publish x)
    note pp = push_publish_list [OF at]
    have "Suc t \<le> ch + ?c" "sq_buffer ?r ! (t mod ?c) = x" using w publish by auto
    then show ?thesis
      using pp rd logs publish
      by (auto simp: push_publish_def sq_capacity_def
               intro!: spsc_invI [where h = h and t = "Suc t" and ch = ch and ct = ct])
  next
    case (read r x)
    note pr = pop_read_at [OF at]
    from pr(1) obtain ct' where at': "ring_at r h t ch ct'" "h < ct'" using read by auto
    have "sq_buffer r = sq_buffer ?r" using arg_cong [OF read(3), of fst] by (auto simp: pop_read_def Let_def)
    moreover have "ring_list r = ring_list ?r" "sq_capacity r = ?c" "sq_buffer ?r ! (h mod ?c) = x"
      using pr read by (simp_all split: if_splits)
    ultimately show ?thesis
      using at' w logs read by (auto intro!: spsc_invI [where h = h and t = t and ch = ch and ct = ct'])
  next
    case (empty r)
    note pr = pop_read_at [OF at]
    from pr(1) obtain ct' where at': "ring_at r h t ch ct'" using empty by auto
    have "sq_buffer r = sq_buffer ?r" using arg_cong [OF empty(3), of fst] by (auto simp: pop_read_def Let_def)
    moreover have "ring_list r = ring_list ?r" "sq_capacity r = ?c" using pr empty by simp_all
    ultimately show ?thesis
      using at' w logs empty by (auto intro!: spsc_invI [where h = h and t = t and ch = ch and ct = ct'])
  next
    case (take x)
    have lt: "h < ct" and x: "sq_buffer ?r ! (h mod ?c) = x" using rd take by auto
    note pp = pop_publish_list [OF at lt]
    have "ring_list ?r = x # tl (ring_list ?r)" using ring_list_hd [OF at] lt bnd x by simp
    then have "sp_pushed s = (sp_popped s @ [x]) @ tl (ring_list ?r)" using logs by simp
    then show ?thesis
      using pp w take
      by (auto simp: pop_publish_def sq_capacity_def
               intro!: spsc_invI [where h = "Suc h" and t = t and ch = ch and ct = ct])
  qed
qed

lemma spsc_reachable_inv:
  assumes "spsc_step\<^sup>*\<^sup>* (spsc_start cap blank) s" "0 < cap" "Suc cap < W64" "cap dvd W64"
  shows "spsc_inv s \<and> sq_capacity (sp_ring s) = cap"
  using assms(1)
proof (induction rule: rtranclp_induct)
  case base
  have "ring_at (new_ring cap blank) 0 0 0 0"
    using assms by (simp add: ring_at_def sq_capacity_def new_ring_def)
  then show ?case
    using new_ring_inv(2) [OF assms(2-4), of blank]
    by (auto simp: spsc_start_def new_ring_def sq_capacity_def intro!: spsc_invI)
next
  case (step s s')
  then show ?case using spsc_step_inv by metis
qed

text \<open>
  C34. The single-producer single-consumer ring is a bounded first-in first-out queue under every interleaving of the
  two threads' steps, for a capacity that is a power of two as the class asserts (\<open>2 ^ k\<close>, \<open>0 < k < 64\<close>), however
  often the 64-bit positions wrap: what has been published is exactly what has been taken followed by what is in the
  ring, nothing lost, duplicated or reordered, and never more than the capacity; the element a consumer has read but
  not yet released is the oldest one in the ring, whatever the producer writes meanwhile; a push is refused only when
  the ring is full at that moment, and a pop finds nothing only when it is empty.
\<close>

theorem spsc_ring_is_fifo:
  assumes "spsc_step\<^sup>*\<^sup>* (spsc_start (2 ^ k) blank) s" and "0 < k" and "k < 64"
  shows "sp_pushed s = sp_popped s @ ring_list (sp_ring s)
    \<and> length (ring_list (sp_ring s)) \<le> 2 ^ k
    \<and> (\<forall>x. sp_reading s = Some x \<longrightarrow> ring_list (sp_ring s) = x # tl (ring_list (sp_ring s)))
    \<and> (\<forall>y. snd (push_write (sp_ring s) y) \<longleftrightarrow> length (ring_list (sp_ring s)) < 2 ^ k)
    \<and> (snd (pop_read (sp_ring s)) = None \<longleftrightarrow> ring_list (sp_ring s) = [])"
proof -
  have "(2 :: nat) ^ k dvd 2 ^ 64" using assms(3) by (intro le_imp_power_dvd) simp
  moreover have "(2 :: nat) ^ k \<le> 2 ^ 63" using assms(3) by (intro power_increasing) simp_all
  ultimately have "0 < (2 :: nat) ^ k" "Suc (2 ^ k) < W64" "2 ^ k dvd W64" by simp_all
  from spsc_reachable_inv [OF assms(1) this]
  have inv: "spsc_inv s" and cap: "sq_capacity (sp_ring s) = 2 ^ k" by simp_all
  then obtain h t ch ct where at: "ring_at (sp_ring s) h t ch ct"
    and rd: "\<And>x. sp_reading s = Some x \<Longrightarrow> h < ct \<and> sq_buffer (sp_ring s) ! (h mod sq_capacity (sp_ring s)) = x"
    unfolding spsc_inv_def by blast
  then have ri: "ring_inv (sp_ring s)" and le: "ct \<le> t" "h \<le> t" by (auto simp: ring_inv_def ring_at_def)
  show ?thesis
  proof (intro conjI allI impI)
    show "sp_pushed s = sp_popped s @ ring_list (sp_ring s)" using inv by (simp add: spsc_inv_def)
    show "length (ring_list (sp_ring s)) \<le> 2 ^ k" using ring_list_length [OF ri] cap by simp
    show "ring_list (sp_ring s) = x # tl (ring_list (sp_ring s))" if "sp_reading s = Some x" for x
      using rd [OF that] ring_list_hd [OF at] le by auto
    show "snd (push_write (sp_ring s) y) \<longleftrightarrow> length (ring_list (sp_ring s)) < 2 ^ k" for y
      using push_write_list(4) [OF ri, of y] cap by simp
    show "snd (pop_read (sp_ring s)) = None \<longleftrightarrow> ring_list (sp_ring s) = []"
      using pop_read_at(2) [OF at] le unfolding ring_list_at [OF at] by auto
  qed
qed

text \<open>A run on a ring of two slots: the second element is written while the consumer holds the first.\<close>

definition demo_spsc :: "nat spsc" where
  "demo_spsc = \<lparr>sp_ring = \<lparr>sq_head = 0, sq_tail = 1, sq_cached_head = 0, sq_cached_tail = 1, sq_high_water = 0, sq_buffer = [7, 8]\<rparr>,
     sp_writing = Some 8, sp_reading = Some 7, sp_pushed = [7], sp_popped = []\<rparr>"

lemma demo_spsc_reachable: "spsc_step\<^sup>*\<^sup>* (spsc_start (2 ^ 1) 0) demo_spsc"
proof -
  let ?s = "\<lambda>h t ct buf w r pushed. \<lparr>sp_ring = \<lparr>sq_head = h, sq_tail = t, sq_cached_head = 0, sq_cached_tail = ct,
     sq_high_water = 0, sq_buffer = buf\<rparr>, sp_writing = w, sp_reading = r, sp_pushed = pushed, sp_popped = []\<rparr> :: nat spsc"
  note ev = push_write_def push_publish_def pop_read_def sq_capacity_def sub64_def inc64_def Let_def
  have start: "spsc_start (2 ^ 1) 0 = ?s 0 0 0 [0, 0] None None []"
    by (simp add: spsc_start_def new_ring_def numeral_2_eq_2)
  have "spsc_step (?s 0 0 0 [0, 0] None None []) (?s 0 0 0 [7, 0] (Some 7) None [])"
    using slot_write [of "?s 0 0 0 [0, 0] None None []" 7] by (simp add: ev)
  moreover have "spsc_step (?s 0 0 0 [7, 0] (Some 7) None []) (?s 0 1 0 [7, 0] None None [7])"
    using publish [of "?s 0 0 0 [7, 0] (Some 7) None []" 7] by (simp add: ev)
  moreover have "spsc_step (?s 0 1 0 [7, 0] None None [7]) (?s 0 1 1 [7, 0] None (Some 7) [7])"
    using read [of "?s 0 1 0 [7, 0] None None [7]"] by (simp add: ev)
  moreover have "spsc_step (?s 0 1 1 [7, 0] None (Some 7) [7]) (?s 0 1 1 [7, 8] (Some 8) (Some 7) [7])"
    using slot_write [of "?s 0 1 1 [7, 0] None (Some 7) [7]" 8] by (simp add: ev)
  ultimately show ?thesis unfolding start demo_spsc_def
    by (meson converse_rtranclp_into_rtranclp rtranclp.rtrancl_refl)
qed

lemma spsc_ring_is_fifo_witness:
  "sp_reading demo_spsc = Some 7 \<and> ring_list (sp_ring demo_spsc) = 7 # tl (ring_list (sp_ring demo_spsc))
   \<and> sp_pushed demo_spsc = sp_popped demo_spsc @ ring_list (sp_ring demo_spsc)"
  using spsc_ring_is_fifo [OF demo_spsc_reachable] by (simp add: demo_spsc_def)

end
