(* ===== verification/Seqlock.thy ===== *)
theory Seqlock
  imports SpscRing
begin

text \<open>
  The snapshot publication of \<^verbatim>\<open>include/mm/common/Seqlock.hpp\<close>. The payload is the list of its words, the sequence
  is a wrapping 64-bit counter, odd while a store is under way. A store and a load are cut into their atomic accesses, so
  that one writer and a reader interleave as sequences of steps; the fences keep each thread's accesses in program order,
  which is the order of the steps here. Readers write nothing, so one arbitrary reader stands for all of them. The list
  \<open>sl_history\<close> is ghost state: the payloads stored whole, oldest first, from the value-initialised one on.
\<close>

section \<open>Definitions\<close>

text \<open>The writer's position in \<open>store\<close> (payload, sequence it loaded, next word) and the reader's in \<open>load\<close>.\<close>

datatype 'w store_pc = WIdle | WStoring "'w list" nat nat

datatype 'w load_pc = RTry nat | RCopying nat nat "'w list" | RLoaded "'w list" | RGaveUp

record 'w Seqlock =
  sl_seq :: nat
  sl_words :: "'w list"
  sl_writer :: "'w store_pc"
  sl_reader :: "'w load_pc"
  sl_history :: "'w list list"

definition new_seqlock :: "nat \<Rightarrow> 'w \<Rightarrow> 'w Seqlock" where
  "new_seqlock k blank = \<lparr>sl_seq = 0, sl_words = replicate k blank, sl_writer = WIdle, sl_reader = RGaveUp,
     sl_history = [replicate k blank]\<rparr>"

definition kMaxTries :: nat where
  "kMaxTries = 16"

definition sl_version :: "'w Seqlock \<Rightarrow> nat" where
  "sl_version l = sl_seq l div 2"

text \<open>\<open>store\<close>: the odd sequence, then word by word, then the even sequence.\<close>

definition store_begin :: "'w Seqlock \<Rightarrow> 'w list \<Rightarrow> 'w Seqlock" where
  "store_begin l src = l\<lparr>sl_seq := inc64 (sl_seq l), sl_writer := WStoring src (sl_seq l) 0\<rparr>"

definition store_step :: "'w Seqlock \<Rightarrow> 'w Seqlock" where
  "store_step l =
     (case sl_writer l of
        WIdle \<Rightarrow> l
      | WStoring src s i \<Rightarrow>
          if i < length (sl_words l)
          then l\<lparr>sl_words := (sl_words l)[i := src ! i], sl_writer := WStoring src s (i + 1)\<rparr>
          else l\<lparr>sl_seq := inc64 (inc64 s), sl_writer := WIdle, sl_history := sl_history l @ [src]\<rparr>)"

text \<open>\<open>load\<close>: one access of the current attempt.\<close>

definition load_begin :: "'w Seqlock \<Rightarrow> 'w Seqlock" where
  "load_begin l = l\<lparr>sl_reader := RTry 0\<rparr>"

definition load_step :: "'w Seqlock \<Rightarrow> 'w Seqlock" where
  "load_step l =
     (case sl_reader l of
        RTry attempt \<Rightarrow>
          (let before = sl_seq l
           in if attempt \<ge> kMaxTries then l\<lparr>sl_reader := RGaveUp\<rparr>
              else if odd before then l\<lparr>sl_reader := RTry (attempt + 1)\<rparr>
              else l\<lparr>sl_reader := RCopying attempt before []\<rparr>)
      | RCopying attempt before dst \<Rightarrow>
          if length dst < length (sl_words l)
          then l\<lparr>sl_reader := RCopying attempt before (dst @ [sl_words l ! length dst])\<rparr>
          else if sl_seq l = before then l\<lparr>sl_reader := RLoaded dst\<rparr>
          else l\<lparr>sl_reader := RTry (attempt + 1)\<rparr>
      | _ \<Rightarrow> l)"

text \<open>The interleavings of one writer, which starts a store only when the last one is complete, and a reader.\<close>

inductive seqlock_run :: "nat \<Rightarrow> 'w \<Rightarrow> 'w Seqlock \<Rightarrow> bool" for k blank where
  run_new: "seqlock_run k blank (new_seqlock k blank)"
| run_store: "seqlock_run k blank l \<Longrightarrow> sl_writer l = WIdle \<Longrightarrow> length src = k \<Longrightarrow> seqlock_run k blank (store_begin l src)"
| run_store_step: "seqlock_run k blank l \<Longrightarrow> seqlock_run k blank (store_step l)"
| run_load: "seqlock_run k blank l \<Longrightarrow> seqlock_run k blank (load_begin l)"
| run_load_step: "seqlock_run k blank l \<Longrightarrow> seqlock_run k blank (load_step l)"

section \<open>The invariant\<close>

text \<open>The unbounded sequence behind the counter.\<close>

definition true_seq :: "'w Seqlock \<Rightarrow> nat" where
  "true_seq l = 2 * (length (sl_history l) - 1) + (if sl_writer l = WIdle then 0 else 1)"

definition writer_inv :: "nat \<Rightarrow> 'w Seqlock \<Rightarrow> bool" where
  "writer_inv k l \<longleftrightarrow> length (sl_words l) = k \<and> sl_history l \<noteq> [] \<and> sl_seq l = true_seq l mod W64
     \<and> (\<forall>h\<in>set (sl_history l). length h = k)
     \<and> (case sl_writer l of
          WIdle \<Rightarrow> sl_words l = last (sl_history l)
        | WStoring src s i \<Rightarrow> length src = k \<and> i \<le> k \<and> s = (2 * (length (sl_history l) - 1)) mod W64
            \<and> take i (sl_words l) = take i src)"

text \<open>What an attempt has copied is a prefix of the payload as long as no store has begun since it read the sequence.\<close>

definition reader_inv :: "'w Seqlock \<Rightarrow> bool" where
  "reader_inv l \<longleftrightarrow>
     (case sl_reader l of
        RCopying attempt before dst \<Rightarrow>
          length dst \<le> length (sl_words l)
          \<and> (\<exists>b. even b \<and> b \<le> true_seq l \<and> before = b mod W64 \<and> (b = true_seq l \<longrightarrow> dst = take (length dst) (sl_words l)))
      | RLoaded dst \<Rightarrow> dst \<in> set (sl_history l)
      | _ \<Rightarrow> True)"

lemma writer_inv_store_begin:
  assumes "writer_inv k l" "sl_writer l = WIdle" "length src = k"
  shows "writer_inv k (store_begin l src)"
  using assms inc64_mod [of "true_seq l"] by (simp add: writer_inv_def store_begin_def true_seq_def)

lemma writer_inv_store_step:
  assumes "writer_inv k l"
  shows "writer_inv k (store_step l)"
proof (cases "sl_writer l")
  case WIdle
  with assms show ?thesis by (simp add: store_step_def)
next
  case (WStoring src s i)
  then have w: "length src = k" "i \<le> k" "s = (2 * (length (sl_history l) - 1)) mod W64"
    "take i (sl_words l) = take i src" "length (sl_words l) = k" "sl_history l \<noteq> []"
    using assms by (simp_all add: writer_inv_def)
  show ?thesis
  proof (cases "i < k")
    case True
    then have "take (Suc i) ((sl_words l)[i := src ! i]) = take (Suc i) src"
      using w by (simp add: take_Suc_conv_app_nth)
    with True w WStoring assms show ?thesis by (simp add: store_step_def writer_inv_def true_seq_def)
  next
    case False
    obtain n where n: "length (sl_history l) = Suc n" using w(6) by (cases "sl_history l") auto
    have "inc64 (inc64 s) = (2 * Suc n) mod W64" using w(3) n by (simp add: inc64_mod)
    moreover have "sl_words l = src" using w False by simp
    ultimately show ?thesis using False w WStoring assms n by (simp add: store_step_def writer_inv_def true_seq_def)
  qed
qed

lemma true_seq_store:
  "sl_writer l = WIdle \<Longrightarrow> true_seq (store_begin l src) = Suc (true_seq l)"
  "writer_inv k l \<Longrightarrow> sl_writer l \<noteq> WIdle \<Longrightarrow> sl_writer (store_step l) = WIdle \<Longrightarrow> true_seq (store_step l) = Suc (true_seq l)"
  by (auto simp: true_seq_def store_begin_def store_step_def writer_inv_def split: store_pc.splits if_splits
        simp flip: length_greater_0_conv)

lemma copying_even: "even b \<Longrightarrow> b = true_seq l \<Longrightarrow> sl_writer l = WIdle"
  by (auto simp: true_seq_def split: if_splits)

lemma even_seq: "writer_inv k l \<Longrightarrow> even (sl_seq l) = even (true_seq l)"
proof -
  have "even (n mod W64) = even n" for n by (rule dvd_mod_iff) simp
  then show "writer_inv k l \<Longrightarrow> ?thesis" by (simp only: writer_inv_def)
qed

lemma true_seq_bound:
  assumes "writer_inv k l" "length (sl_history l) \<le> 2 ^ 63"
  shows "true_seq l < W64"
proof -
  obtain n where "length (sl_history l) = Suc n"
    using assms(1) by (cases "sl_history l") (auto simp: writer_inv_def)
  then show ?thesis using assms(2) by (simp add: true_seq_def)
qed

lemma reader_inv_store_begin:
  assumes "reader_inv l" "sl_writer l = WIdle"
  shows "reader_inv (store_begin l src)"
proof -
  have same: "sl_reader (store_begin l src) = sl_reader l" "sl_words (store_begin l src) = sl_words l"
    "sl_history (store_begin l src) = sl_history l" by (simp_all add: store_begin_def)
  show ?thesis
  proof (cases "sl_reader l")
    case (RCopying a before dst)
    with assms(1) obtain b where "length dst \<le> length (sl_words l)" "even b" "b \<le> true_seq l" "before = b mod W64"
      unfolding reader_inv_def by auto
    then show ?thesis unfolding reader_inv_def same true_seq_store(1) [OF assms(2)] RCopying
      by (auto intro!: exI [where x = b])
  qed (use assms(1) in \<open>simp_all add: reader_inv_def same\<close>)
qed

lemma reader_inv_store_step:
  assumes "reader_inv l" "writer_inv k l"
  shows "reader_inv (store_step l)"
proof (cases "sl_writer l = WIdle")
  case True
  with assms show ?thesis by (simp add: store_step_def)
next
  case False
  have same: "sl_reader (store_step l) = sl_reader l" "length (sl_words (store_step l)) = length (sl_words l)"
    "set (sl_history l) \<subseteq> set (sl_history (store_step l))"
    by (auto simp: store_step_def split: store_pc.splits)
  have odd: "odd (true_seq l)" using False by (simp add: true_seq_def)
  have seq: "true_seq (store_step l) = true_seq l \<or> true_seq (store_step l) = Suc (true_seq l)"
  proof (cases "sl_writer (store_step l) = WIdle")
    case True
    with assms(2) False show ?thesis using true_seq_store(2) by blast
  next
    case busy: False
    with False show ?thesis by (auto simp: store_step_def true_seq_def split: store_pc.splits if_splits)
  qed
  have late: "b \<le> true_seq (store_step l) \<and> b \<noteq> true_seq (store_step l)" if "even b" "b \<le> true_seq l" for b
    using that odd seq by (metis le_SucI le_antisym not_less_eq_eq)
  show ?thesis using assms(1) same late unfolding reader_inv_def
    by (fastforce split: load_pc.splits)
qed

lemma reader_inv_load_step:
  assumes "reader_inv l" "writer_inv k l" "length (sl_history l) \<le> 2 ^ 63"
  shows "reader_inv (load_step l)"
proof (cases "sl_reader l")
  case (RTry a)
  have same: "true_seq (load_step l) = true_seq l" by (simp add: load_step_def Let_def true_seq_def RTry)
  have "sl_seq l = true_seq l mod W64" using assms(2) by (simp add: writer_inv_def)
  then show ?thesis using RTry even_seq [OF assms(2)] unfolding reader_inv_def same
    by (auto simp: load_step_def Let_def)
next
  case (RCopying a before dst)
  then obtain b where b: "length dst \<le> length (sl_words l)" "even b" "b \<le> true_seq l" "before = b mod W64"
    "b = true_seq l \<longrightarrow> dst = take (length dst) (sl_words l)"
    using assms(1) by (auto simp: reader_inv_def)
  consider "length dst < length (sl_words l)" | "length dst = length (sl_words l)" "sl_seq l = before"
    | "length dst = length (sl_words l)" "sl_seq l \<noteq> before" using b(1) by linarith
  then show ?thesis
  proof cases
    case 1
    then have "b = true_seq l \<longrightarrow> dst @ [sl_words l ! length dst] = take (Suc (length dst)) (sl_words l)"
      using b(5) by (simp add: take_Suc_conv_app_nth)
    moreover have "true_seq (load_step l) = true_seq l" by (simp add: load_step_def true_seq_def RCopying 1)
    ultimately show ?thesis using 1 b RCopying by (auto simp: reader_inv_def load_step_def)
  next
    case 2
    have "true_seq l < W64" by (rule true_seq_bound [OF assms(2,3)])
    then have eq: "b = true_seq l"
      using 2 assms(2) b by (simp add: writer_inv_def)
    then have "sl_words l = last (sl_history l)"
      using copying_even [OF b(2) eq] assms(2) by (simp add: writer_inv_def)
    then have "dst \<in> set (sl_history l)" using eq b(5) 2 assms(2) by (simp add: writer_inv_def)
    then show ?thesis using RCopying 2 by (simp add: reader_inv_def load_step_def)
  next
    case 3
    with RCopying show ?thesis by (simp add: reader_inv_def load_step_def)
  qed
qed (use assms(1) in \<open>simp_all add: reader_inv_def load_step_def\<close>)

lemma history_grows: "length (sl_history l) \<le> length (sl_history (store_step l))"
  "sl_history (store_begin l src) = sl_history l" "sl_history (load_begin l) = sl_history l"
  "sl_history (load_step l) = sl_history l"
  by (auto simp: store_step_def store_begin_def load_begin_def load_step_def Let_def split: store_pc.splits load_pc.splits)

lemma writer_inv_load: "writer_inv k (load_begin l) = writer_inv k l" "writer_inv k (load_step l) = writer_inv k l"
proof -
  have same: "sl_seq (load_step l) = sl_seq l" "sl_words (load_step l) = sl_words l" "sl_writer (load_step l) = sl_writer l"
    "sl_history (load_step l) = sl_history l" "sl_seq (load_begin l) = sl_seq l" "sl_words (load_begin l) = sl_words l"
    "sl_writer (load_begin l) = sl_writer l" "sl_history (load_begin l) = sl_history l"
    by (simp_all add: load_step_def load_begin_def Let_def split: load_pc.split)
  show "writer_inv k (load_begin l) = writer_inv k l" "writer_inv k (load_step l) = writer_inv k l"
    unfolding writer_inv_def true_seq_def same by simp_all
qed

lemma seqlock_run_inv:
  assumes "seqlock_run k blank l" "length (sl_history l) \<le> 2 ^ 63"
  shows "writer_inv k l \<and> reader_inv l"
  using assms
proof (induction rule: seqlock_run.induct)
  case run_new
  then show ?case by (simp add: writer_inv_def reader_inv_def new_seqlock_def true_seq_def)
next
  case (run_store l src)
  then show ?case by (simp add: history_grows writer_inv_store_begin reader_inv_store_begin)
next
  case (run_store_step l)
  then have "writer_inv k l \<and> reader_inv l" using history_grows(1) [of l] by (meson le_trans)
  then show ?case using writer_inv_store_step reader_inv_store_step by blast
next
  case (run_load l)
  then show ?case unfolding writer_inv_load history_grows by (simp add: reader_inv_def load_begin_def)
next
  case (run_load_step l)
  then show ?case unfolding writer_inv_load history_grows using reader_inv_load_step by blast
qed

text \<open>
  C35. However a load interleaves with the stores of the writer, what it returns is never torn: a successful load
  returns a payload that one store wrote whole (or the initial one), and at the access that makes it succeed no store is
  under way and the payload is the one the last completed store wrote. This needs fewer than \<open>2 ^ 63\<close> stores, so that
  the 64-bit sequence does not come round.
\<close>

theorem seqlock_load_is_not_torn:
  assumes "seqlock_run k blank l" and "length (sl_history l) \<le> 2 ^ 63"
  shows "(sl_reader l = RLoaded v \<longrightarrow> v \<in> set (sl_history l) \<and> length v = k)
    \<and> (sl_reader l \<noteq> RLoaded v \<and> sl_reader (load_step l) = RLoaded v
       \<longrightarrow> sl_writer l = WIdle \<and> v = last (sl_history l))"
proof (intro conjI impI)
  note inv = seqlock_run_inv [OF assms]
  assume "sl_reader l = RLoaded v"
  with inv show "v \<in> set (sl_history l)" "length v = k" by (auto simp: reader_inv_def writer_inv_def)
next
  note inv = seqlock_run_inv [OF assms]
  assume r: "sl_reader l \<noteq> RLoaded v \<and> sl_reader (load_step l) = RLoaded v"
  then obtain a before where c: "sl_reader l = RCopying a before v" "length v = length (sl_words l)" "sl_seq l = before"
    using inv by (auto simp: load_step_def Let_def reader_inv_def split: load_pc.splits if_splits)
  then obtain b where b: "even b" "b \<le> true_seq l" "before = b mod W64" "b = true_seq l \<longrightarrow> v = take (length v) (sl_words l)"
    using inv by (auto simp: reader_inv_def)
  have "true_seq l < W64" by (rule true_seq_bound [OF conjunct1 [OF inv] assms(2)])
  then have eq: "b = true_seq l" using c inv b by (simp add: writer_inv_def)
  then show "sl_writer l = WIdle" using copying_even [OF b(1) eq] by simp
  then show "v = last (sl_history l)" using inv b(4) eq c(2) by (simp add: writer_inv_def)
qed

text \<open>A writer that stores a second payload while the reader is half way: the first attempt is retried, the second succeeds.\<close>

definition seqlock_demo :: "nat Seqlock" where
  "seqlock_demo = (load_step ^^ 4) (store_step (store_step (store_step (store_begin
     (load_step (load_step (load_begin (store_step (store_step (store_step (store_begin (new_seqlock 2 0) [1, 2]))))))) [3, 4]))))"

lemma seqlock_demo_run: "seqlock_run 2 0 seqlock_demo"
proof -
  let ?l = "store_step (store_step (store_step (store_begin (new_seqlock 2 0) [1, 2]))) :: nat Seqlock"
  have "seqlock_run 2 0 ?l" by (intro run_store_step run_store run_new) (simp_all add: new_seqlock_def)
  then have "seqlock_run 2 0 (load_step (load_step (load_begin ?l)))" by (intro run_load_step run_load)
  moreover have "sl_writer (load_step (load_step (load_begin ?l))) = WIdle" by code_simp
  ultimately show ?thesis unfolding seqlock_demo_def
    by (simp add: numeral_eq_Suc run_load_step run_store_step run_store)
qed

theorem seqlock_load_is_not_torn_witness:
  "sl_reader (load_step (load_step seqlock_demo)) = RLoaded [3, 4] \<and> last (sl_history seqlock_demo) = [3, 4]
   \<and> sl_reader seqlock_demo = RCopying 1 4 [3]"
proof -
  have run: "seqlock_run 2 0 (load_step seqlock_demo)" by (rule run_load_step [OF seqlock_demo_run])
  have "length (sl_history (load_step seqlock_demo)) = 3" by code_simp
  then have small: "length (sl_history (load_step seqlock_demo)) \<le> 2 ^ 63" by simp
  have "sl_reader (load_step seqlock_demo) \<noteq> RLoaded [3, 4]" "sl_reader (load_step (load_step seqlock_demo)) = RLoaded [3, 4]"
    "sl_reader seqlock_demo = RCopying 1 4 [3]" by code_simp+
  moreover have "sl_history (load_step seqlock_demo) = sl_history seqlock_demo" by (rule history_grows)
  ultimately show ?thesis using seqlock_load_is_not_torn [OF run small, of "[3, 4]"] by simp
qed

section \<open>An undisturbed load\<close>

lemma load_copies:
  assumes "sl_reader l = RCopying a (sl_seq l) (take i (sl_words l))" "i + n = length (sl_words l)"
  shows "(load_step ^^ n) l = l\<lparr>sl_reader := RCopying a (sl_seq l) (sl_words l)\<rparr>"
  using assms
proof (induction n arbitrary: l i)
  case 0
  then show ?case by simp
next
  case (Suc n)
  let ?m = "load_step l"
  have step: "?m = l\<lparr>sl_reader := RCopying a (sl_seq l) (take (Suc i) (sl_words l))\<rparr>"
    using Suc.prems by (simp add: load_step_def take_Suc_conv_app_nth)
  have "(load_step ^^ n) ?m = ?m\<lparr>sl_reader := RCopying a (sl_seq ?m) (sl_words ?m)\<rparr>"
    using Suc.prems by (intro Suc.IH [of _ "Suc i"]) (simp_all add: step)
  then show ?case by (simp add: funpow_swap1 step)
qed

text \<open>A load that no store disturbs returns the payload in one attempt.\<close>

lemma quiet_load:
  assumes "even (sl_seq l)"
  shows "sl_reader ((load_step ^^ (length (sl_words l) + 2)) (load_begin l)) = RLoaded (sl_words l)"
proof -
  let ?m = "load_step (load_begin l)"
  have m: "?m = l\<lparr>sl_reader := RCopying 0 (sl_seq l) []\<rparr>"
    using assms by (simp add: load_step_def load_begin_def kMaxTries_def)
  have "(load_step ^^ length (sl_words l)) ?m = l\<lparr>sl_reader := RCopying 0 (sl_seq l) (sl_words l)\<rparr>"
    using load_copies [of ?m 0 0 "length (sl_words l)"] by (simp add: m)
  then show ?thesis by (simp add: funpow_swap1 load_step_def)
qed

end
