(* ===== verification/Fixed.thy ===== *)
theory Fixed
  imports Prelude
begin

text \<open>
  \<^verbatim>\<open>include/mm/common/Fixed.hpp\<close>: the fixed-point scalar \<open>Fixed<Tag>\<close> (1e-8 resolution) and its free
  functions. A value is its raw 64-bit integer; \<open>px\<close>, \<open>qty\<close> and \<open>notional\<close> are the three tags. The
  unchecked operators wrap, the checked ones return \<open>None\<close> where the source returns \<open>false\<close>.
\<close>

section \<open>Definitions\<close>

type_synonym px = int
type_synonym qty = int
type_synonym notional = int

definition kScale :: int where
  "kScale = 100000000"

definition from_units :: "int \<Rightarrow> int" where
  "from_units whole = wrap64 (whole * kScale)"

definition fx_abs :: "int \<Rightarrow> int" where
  "fx_abs r = (if r < 0 then wrap64 (- r) else r)"

definition fx_add :: "int \<Rightarrow> int \<Rightarrow> int" where
  "fx_add a b = wrap64 (a + b)"

definition fx_sub :: "int \<Rightarrow> int \<Rightarrow> int" where
  "fx_sub a b = wrap64 (a - b)"

definition fx_mul :: "int \<Rightarrow> int \<Rightarrow> int" where
  "fx_mul a k = wrap64 (a * k)"

text \<open>Division by zero is undefined in the source: \<open>None\<close>.\<close>

definition scaled_by :: "int \<Rightarrow> int \<Rightarrow> int \<Rightarrow> int option" where
  "scaled_by r num den = (if den = 0 then None else Some (wrap64 ((r * num) sdiv den)))"

definition notional_of :: "px \<Rightarrow> qty \<Rightarrow> notional" where
  "notional_of p q = (let wide = p * q in wrap64 (wide sdiv kScale))"

definition checked_notional_of :: "px \<Rightarrow> qty \<Rightarrow> notional option" where
  "checked_notional_of p q =
     (let wide = p * q; scaled = wide sdiv kScale
      in if scaled > INT64_MAX \<or> scaled < INT64_MIN then None else Some scaled)"

definition checked_add :: "int \<Rightarrow> int \<Rightarrow> int option" where
  "checked_add a b =
     (let wide = a + b in if wide > INT64_MAX \<or> wide < INT64_MIN then None else Some wide)"

definition checked_sub :: "int \<Rightarrow> int \<Rightarrow> int option" where
  "checked_sub a b =
     (let wide = a - b in if wide > INT64_MAX \<or> wide < INT64_MIN then None else Some wide)"

definition saturating_abs :: "int \<Rightarrow> int" where
  "saturating_abs v = (if v = INT64_MIN then INT64_MAX else if v < 0 then - v else v)"

definition qty_for_notional :: "notional \<Rightarrow> px \<Rightarrow> qty" where
  "qty_for_notional n p = (if p = 0 then 0 else wrap64 ((n * kScale) sdiv p))"

datatype Rounding = Down | Up | Nearest

definition round_to_step :: "int \<Rightarrow> int \<Rightarrow> Rounding \<Rightarrow> int" where
  "round_to_step v step mode =
     (if step \<le> 0 then v
      else let s = step; r = v; q = r sdiv s; rem = r - q * s;
               q' = (if rem \<noteq> 0 then
                       (case mode of
                          Down \<Rightarrow> (if rem < 0 then q - 1 else q)
                        | Up \<Rightarrow> (if rem > 0 then q + 1 else q)
                        | Nearest \<Rightarrow>
                            (let twice = wrap64 ((if rem < 0 then - rem else rem) * 2)
                             in if twice \<ge> s then q + (if rem > 0 then 1 else -1) else q))
                     else q)
           in wrap64 (q' * s))"

definition is_on_step :: "int \<Rightarrow> int \<Rightarrow> bool" where
  "is_on_step v step \<longleftrightarrow> step \<le> 0 \<or> v smod step = 0"

section \<open>Checked arithmetic\<close>

lemma kScale_pos [simp]: "0 < kScale" "kScale \<noteq> 0"
  by (simp_all add: kScale_def)

lemma checked_add_Some_iff [checked_simps]:
  "checked_add a b = Some c \<longleftrightarrow> c = a + b \<and> in64 c"
  by (auto simp: checked_add_def in64_def Let_def)

lemma checked_add_None_iff [checked_simps]: "checked_add a b = None \<longleftrightarrow> \<not> in64 (a + b)"
  by (auto simp: checked_add_def in64_def Let_def)

lemma checked_sub_Some_iff [checked_simps]:
  "checked_sub a b = Some c \<longleftrightarrow> c = a - b \<and> in64 c"
  by (auto simp: checked_sub_def in64_def Let_def)

lemma checked_sub_None_iff [checked_simps]: "checked_sub a b = None \<longleftrightarrow> \<not> in64 (a - b)"
  by (auto simp: checked_sub_def in64_def Let_def)

lemma checked_notional_of_Some_iff [checked_simps]:
  "checked_notional_of p q = Some n \<longleftrightarrow> n = (p * q) sdiv kScale \<and> in64 n"
  by (auto simp: checked_notional_of_def in64_def Let_def)

lemma checked_notional_of_None_iff [checked_simps]:
  "checked_notional_of p q = None \<longleftrightarrow> \<not> in64 ((p * q) sdiv kScale)"
  by (auto simp: checked_notional_of_def in64_def Let_def)

lemma checked_notional_of_zero [simp]: "checked_notional_of p 0 = Some 0"
  "checked_notional_of 0 q = Some 0"
  by (simp_all add: checked_simps)

lemma saturating_abs_nonneg: "0 \<le> saturating_abs v"
  by (simp add: saturating_abs_def)

lemma saturating_abs_in64: "in64 v \<Longrightarrow> in64 (saturating_abs v)"
  by (auto simp: saturating_abs_def in64_def)

lemma saturating_abs_eq: "v \<noteq> INT64_MIN \<Longrightarrow> saturating_abs v = \<bar>v\<bar>"
  by (simp add: saturating_abs_def)

lemma saturating_abs_le_abs: "saturating_abs v \<le> \<bar>v\<bar>"
  by (simp add: saturating_abs_def)

lemma saturating_abs_le_iff:
  "in64 v \<Longrightarrow> m < INT64_MAX \<Longrightarrow> saturating_abs v \<le> m \<longleftrightarrow> \<bar>v\<bar> \<le> m"
  by (auto simp: saturating_abs_def in64_def)

lemma is_on_step_dvd: "0 < step \<Longrightarrow> is_on_step v step \<longleftrightarrow> step dvd v"
  by (cases "v = 0") (simp_all add: is_on_step_def signed_modulo_int_def sgn_0_0 mod_eq_0_iff_dvd)

lemma round_to_step_Down:
  assumes "0 < s" and "in64 v" and "in64 (v - s)"
  shows "round_to_step v s Down = v div s * s"
proof -
  let ?q = "v sdiv s"
  have err: "\<bar>v - ?q * s\<bar> < s" using assms(1) by (rule sdiv_error)
  have q: "(if v - ?q * s < 0 then ?q - 1 else ?q) = v div s"
  proof (cases "v - ?q * s < 0")
    case True
    with err have "0 \<le> v - (?q - 1) * s" "v - (?q - 1) * s < s"
      by (simp_all add: algebra_simps)
    then have "v div s = ?q - 1"
      using assms(1) by (intro int_div_pos_eq [where r = "v - (?q - 1) * s"]) (simp_all add: algebra_simps)
    with True show ?thesis by simp
  next
    case False
    with err have "0 \<le> v - ?q * s" "v - ?q * s < s" by simp_all
    then have "v div s = ?q"
      using assms(1) by (intro int_div_pos_eq [where r = "v - ?q * s"]) (simp_all add: algebra_simps)
    with False show ?thesis by simp
  qed
  have "in64 (v div s * s)"
  proof (rule in64_between [OF assms(3) assms(2)])
    show "v div s * s \<le> v" and "v - s \<le> v div s * s"
      using assms(1) pos_mod_bound [of s v] pos_mod_sign [of s v] div_mult_mod_eq [of v s] by linarith+
  qed
  moreover have "round_to_step v s Down = wrap64 ((if v - ?q * s < 0 then ?q - 1 else ?q) * s)"
    using assms(1) by (auto simp: round_to_step_def Let_def)
  ultimately show ?thesis by (simp only: q wrap64_id)
qed

lemma round_to_step_Up:
  assumes "0 < s" and "in64 v" and "in64 (v + s)"
  shows "round_to_step v s Up = - ((- v) div s) * s"
proof -
  let ?q = "v sdiv s"
  have err: "\<bar>v - ?q * s\<bar> < s" using assms(1) by (rule sdiv_error)
  have q: "(if v - ?q * s > 0 then ?q + 1 else ?q) = - ((- v) div s)"
  proof (cases "v - ?q * s > 0")
    case True
    with err have "0 \<le> - v - (- ?q - 1) * s" "- v - (- ?q - 1) * s < s"
      by (simp_all add: algebra_simps)
    then have "(- v) div s = - ?q - 1"
      using assms(1)
      by (intro int_div_pos_eq [where r = "- v - (- ?q - 1) * s"]) (simp_all add: algebra_simps)
    with True show ?thesis by simp
  next
    case False
    with err have "0 \<le> - v - (- ?q) * s" "- v - (- ?q) * s < s" by simp_all
    then have "(- v) div s = - ?q"
      using assms(1)
      by (intro int_div_pos_eq [where r = "- v - (- ?q) * s"]) (simp_all add: algebra_simps)
    with False show ?thesis by simp
  qed
  have "in64 (- ((- v) div s) * s)"
  proof (rule in64_between [OF assms(2) assms(3)])
    have "- v div s * s = - v - - v mod s" by (simp add: minus_mod_eq_div_mult)
    then show "v \<le> - ((- v) div s) * s" and "- ((- v) div s) * s \<le> v + s"
      using pos_mod_bound [OF assms(1), of "- v"] pos_mod_sign [OF assms(1), of "- v"]
      by (simp_all only: mult_minus_left)
  qed
  moreover have "round_to_step v s Up = wrap64 ((if v - ?q * s > 0 then ?q + 1 else ?q) * s)"
    using assms(1) by (auto simp: round_to_step_def Let_def)
  ultimately show ?thesis by (simp only: q wrap64_id)
qed

lemma round_to_step_Nearest:
  assumes s: "0 < s" and v: "in64 v" and up: "in64 (v + s)" and dn: "in64 (v - s)"
  shows "s dvd round_to_step v s Nearest \<and> 2 * \<bar>v - round_to_step v s Nearest\<bar> \<le> s"
proof -
  let ?q = "v sdiv s"
  let ?rem = "v - ?q * s"
  let ?twice = "wrap64 ((if ?rem < 0 then - ?rem else ?rem) * 2)"
  let ?q' = "if ?rem \<noteq> 0 \<and> ?twice \<ge> s then ?q + (if ?rem > 0 then 1 else -1) else ?q"
  have err: "\<bar>?rem\<bar> < s" using s by (rule sdiv_error)
  have sm: "\<bar>?q\<bar> * s \<le> \<bar>v\<bar>"
    using s by (simp add: abs_sdiv) (metis add.right_neutral add_le_cancel_left abs_ge_zero
        div_mult_mod_eq pos_mod_sign)
  have same: "\<bar>?rem\<bar> \<le> \<bar>v\<bar>"
  proof (cases "0 \<le> v")
    case True
    then have "0 \<le> ?q" using s by (simp add: sdiv_nonneg pos_imp_zdiv_nonneg_iff)
    then have "0 \<le> ?q * s" using s by simp
    with sm True \<open>0 \<le> ?q\<close> show ?thesis by (simp add: abs_if)
  next
    case False
    then have "?q \<le> 0" using s by (simp add: sdiv_neg pos_imp_zdiv_nonneg_iff)
    then have "?q * s \<le> 0" using s by (simp add: mult_nonpos_nonneg)
    with sm False \<open>?q \<le> 0\<close> show ?thesis by simp
  qed
  have "\<bar>v\<bar> + s \<le> 9223372036854775808" using up dn by (auto simp: in64_def abs_if)
  with err same have "in64 (\<bar>?rem\<bar> * 2)" by (simp add: in64_def)
  then have twice: "?twice = 2 * \<bar>?rem\<bar>" by (simp add: abs_if)
  have bound: "2 * \<bar>v - ?q' * s\<bar> \<le> s"
  proof (cases "?rem \<noteq> 0 \<and> ?twice \<ge> s")
    case True
    then show ?thesis using err twice by (auto simp: algebra_simps abs_if split: if_splits)
  next
    case False
    then show ?thesis using s twice by auto
  qed
  have "in64 (?q' * s)"
  proof (rule in64_between [OF dn up])
    have lin: "v - s \<le> w \<and> w \<le> v + s" if "2 * \<bar>v - w\<bar> \<le> s" for w
      using that s by (auto simp: abs_if split: if_splits)
    from lin [OF bound] show "v - s \<le> ?q' * s" and "?q' * s \<le> v + s" by blast+
  qed
  moreover have "round_to_step v s Nearest = wrap64 (?q' * s)"
    using s by (auto simp: round_to_step_def Let_def)
  ultimately have "round_to_step v s Nearest = ?q' * s" by simp
  with bound show ?thesis by simp
qed

section \<open>Properties\<close>

text \<open>
  The overflow-checked product is exact: when \<open>checked_notional_of\<close> succeeds it agrees with the
  unchecked \<open>notional_of\<close>, it is the product truncated towards zero at the 1e-8 scale (less than one
  unit off, never larger in magnitude), and, as the comment on \<open>notional_of\<close> promises, flipping the
  sign of the quantity flips the result (the one unrepresentable negation aside); and it refuses
  only when the scaled product does not fit 64 bits.
\<close>

theorem checked_notional_of_exact:
  assumes "checked_notional_of p q = Some n"
  shows "notional_of p q = n \<and> in64 n \<and> \<bar>p * q - n * kScale\<bar> < kScale
    \<and> \<bar>n\<bar> * kScale \<le> \<bar>p * q\<bar>
    \<and> (n \<noteq> INT64_MIN \<longrightarrow> checked_notional_of p (- q) = Some (- n))
    \<and> (\<forall>a b. \<bar>a * b\<bar> \<le> INT64_MAX * kScale \<longrightarrow> checked_notional_of a b \<noteq> None)"
proof -
  from assms have n: "n = (p * q) sdiv kScale" and rng: "in64 n"
    unfolding checked_notional_of_Some_iff by blast+
  have "\<bar>n\<bar> * kScale = \<bar>p * q\<bar> - \<bar>p * q\<bar> mod kScale"
    unfolding n by (simp add: abs_sdiv minus_mod_eq_div_mult)
  moreover have "0 \<le> \<bar>p * q\<bar> mod kScale" by simp
  ultimately have le: "\<bar>n\<bar> * kScale \<le> \<bar>p * q\<bar>" by linarith
  have total: "checked_notional_of a b \<noteq> None" if "\<bar>a * b\<bar> \<le> INT64_MAX * kScale" for a b
  proof -
    have "\<bar>a * b\<bar> div kScale \<le> INT64_MAX * kScale div kScale"
      by (rule zdiv_mono1 [OF that]) simp
    then have "\<bar>(a * b) sdiv kScale\<bar> \<le> INT64_MAX" by (simp add: abs_sdiv)
    then have "in64 ((a * b) sdiv kScale)" by (auto simp: in64_def abs_le_iff)
    then show ?thesis by (simp add: checked_notional_of_None_iff)
  qed
  have odd: "n \<noteq> INT64_MIN \<longrightarrow> checked_notional_of p (- q) = Some (- n)"
    using in64_uminus [OF rng] by (simp add: checked_simps sdiv_minus_left n)
  have "notional_of p q = n" using rng by (simp add: notional_of_def n Let_def)
  moreover have "\<bar>p * q - n * kScale\<bar> < kScale" unfolding n by (rule sdiv_error) simp
  ultimately show ?thesis using rng le odd total by blast
qed

theorem checked_notional_of_exact_witness:
  "checked_notional_of 6012345000000 (-150000000) = Some (-9018517500000)
    \<and> notional_of 6012345000000 (-150000000) = -9018517500000"
proof -
  have h: "checked_notional_of 6012345000000 (-150000000) = Some (-9018517500000)"
    by (simp add: checked_notional_of_def kScale_def Let_def sdiv_minus_left sdiv_neg)
  from checked_notional_of_exact [OF h] h show ?thesis by blast
qed

text \<open>
  Snapping onto a venue grid: for a positive step and a value at least one step away from the
  ends of the 64-bit range, \<open>round_to_step\<close> returns a grid point in every mode, the nearest one
  from below for \<open>Down\<close> (also for negative values), from above for \<open>Up\<close>, and one within half a
  step for \<open>Nearest\<close>; a value already on the grid is left alone.
\<close>

theorem round_to_step_grid:
  assumes "0 < s" and "in64 v" and "in64 (v + s)" and "in64 (v - s)"
  shows "is_on_step (round_to_step v s mode) s
    \<and> (mode = Down \<longrightarrow> round_to_step v s mode \<le> v \<and> v < round_to_step v s mode + s)
    \<and> (mode = Up \<longrightarrow> v \<le> round_to_step v s mode \<and> round_to_step v s mode < v + s)
    \<and> (mode = Nearest \<longrightarrow> 2 * \<bar>v - round_to_step v s mode\<bar> \<le> s)
    \<and> (is_on_step v s \<longrightarrow> round_to_step v s mode = v)"
proof -
  have fix_point: "round_to_step v s mode = v" if "s dvd v"
  proof -
    from that assms(1) have "v - v sdiv s * s = 0"
      by (metis dvd_def mult.commute sdiv_mult_self diff_self)
    with assms(1,2) show ?thesis by (simp add: round_to_step_def Let_def)
  qed
  have d: "v div s * s = v - v mod s" "- v div s * s = - v - - v mod s"
    by (simp_all add: minus_mod_eq_div_mult)
  note bounds = pos_mod_bound [OF assms(1)] pos_mod_sign [OF assms(1)]
  show ?thesis
  proof (cases mode)
    case Down
    with round_to_step_Down [OF assms(1,2,4)] d bounds [of v] bounds(2) [of v] fix_point assms(1)
    show ?thesis by (simp add: is_on_step_dvd)
  next
    case Up
    have "s dvd round_to_step v s Up" by (simp add: round_to_step_Up [OF assms(1,2,3)])
    with Up round_to_step_Up [OF assms(1,2,3)] d bounds [of "- v"] bounds(2) [of "- v"] fix_point assms(1)
    show ?thesis by (simp add: is_on_step_dvd)
  next
    case Nearest
    with round_to_step_Nearest [OF assms] fix_point assms(1)
    show ?thesis by (simp add: is_on_step_dvd)
  qed
qed

theorem round_to_step_grid_witness:
  "in64 (-157) \<and> round_to_step (-157) 25 Down \<le> -157 \<and> -157 < round_to_step (-157) 25 Down + 25"
proof -
  have h: "(0::int) < 25" "in64 (-157)" "in64 (-157 + 25)" "in64 (-157 - 25)"
    by (simp_all add: in64_def)
  from round_to_step_grid [OF h, of Down] h(2) show ?thesis by simp
qed

end
