(* ===== verification/Decimal.thy ===== *)
theory Decimal
  imports Fixed
begin

text \<open>
  \<^verbatim>\<open>src/common/Decimal.cpp\<close>: exact decimal text to raw fixed-point and back. The scanning loops of
  \<open>parse_fixed_raw\<close> are recursive functions on the remaining text, a \<open>return false\<close> is \<open>None\<close>, and the
  128-bit mantissa multiplications write the wrap-around out, since the guard in the source does not
  bound the exponent shift.
\<close>

section \<open>Definitions\<close>

definition kDecimals :: nat where
  "kDecimals = 8"

definition kMantissaCeiling :: int where
  "kMantissaCeiling = 2 ^ 100"

definition kPow10_size :: int where
  "kPow10_size = 39"

definition is_digit :: "char \<Rightarrow> bool" where
  "is_digit c \<longleftrightarrow> 48 \<le> (of_char c :: int) \<and> (of_char c :: int) \<le> 57"

definition digit_value :: "char \<Rightarrow> int" where
  "digit_value c = of_char c - 48"

text \<open>The integer part: every digit is folded into the mantissa; above the ceiling the text is refused.\<close>

fun scan_integer :: "string \<Rightarrow> int \<Rightarrow> bool \<Rightarrow> (int \<times> bool \<times> string) option" where
  "scan_integer [] m any = Some (m, any, [])"
| "scan_integer (c # cs) m any =
     (if is_digit c then
        (let m' = m * 10 + digit_value c
         in if m' > kMantissaCeiling then None else scan_integer cs m' True)
      else Some (m, any, c # cs))"

text \<open>The fractional part: digits past the eighth are accepted only when they are zero.\<close>

fun scan_fraction :: "string \<Rightarrow> int \<Rightarrow> nat \<Rightarrow> bool \<Rightarrow> (int \<times> nat \<times> bool \<times> string) option" where
  "scan_fraction [] m f any = Some (m, f, any, [])"
| "scan_fraction (c # cs) m f any =
     (if is_digit c then
        (if f < kDecimals then
           (let m' = m * 10 + digit_value c
            in if m' > kMantissaCeiling then None else scan_fraction cs m' (f + 1) True)
         else if c \<noteq> CHR ''0'' then None
         else if m > kMantissaCeiling then None
         else scan_fraction cs m f True)
      else Some (m, f, any, c # cs))"

fun scan_exponent :: "string \<Rightarrow> int \<Rightarrow> (int \<times> string) option" where
  "scan_exponent [] e = Some (e, [])"
| "scan_exponent (c # cs) e =
     (if is_digit c then
        (let e' = e * 10 + digit_value c in if e' > 4096 then None else scan_exponent cs e')
      else Some (e, c # cs))"

text \<open>The optional \<open>e[+-]digits\<close> suffix: the signed exponent and what is left of the text.\<close>

definition parse_exponent :: "string \<Rightarrow> (int \<times> string) option" where
  "parse_exponent s =
     (case s of
        [] \<Rightarrow> Some (0, [])
      | c # cs \<Rightarrow>
          if c = CHR ''e'' \<or> c = CHR ''E'' then
            (let (neg, ds) = (case cs of
                                [] \<Rightarrow> (False, [])
                              | d # ds' \<Rightarrow> if d = CHR ''+'' \<or> d = CHR ''-'' then (d = CHR ''-'', ds')
                                          else (False, d # ds'))
             in case ds of
                  [] \<Rightarrow> None
                | d # _ \<Rightarrow> if \<not> is_digit d then None
                          else (case scan_exponent ds 0 of
                                  None \<Rightarrow> None
                                | Some (e, rest) \<Rightarrow> Some (if neg then - e else e, rest)))
          else Some (0, s))"

text \<open>Scaling the mantissa by \<open>10^shift\<close>: multiplication in 128 bits, exact division otherwise.\<close>

definition scale_mantissa :: "int \<Rightarrow> int \<Rightarrow> int option" where
  "scale_mantissa m shift =
     (if shift > 0 then
        (if shift \<ge> kPow10_size then None else Some (wrap128 (m * 10 ^ nat shift)))
      else if shift < 0 then
        (let down = - shift
         in if down \<ge> kPow10_size then (if m = 0 then Some 0 else None)
            else (let divisor = 10 ^ nat down
                  in if m smod divisor \<noteq> 0 then None else Some (m sdiv divisor)))
      else Some m)"

text \<open>The optional \<open>.digits\<close> part after the integer part.\<close>

definition parse_fraction :: "string \<Rightarrow> int \<Rightarrow> bool \<Rightarrow> (int \<times> nat \<times> bool \<times> string) option" where
  "parse_fraction rest m any =
     (case rest of
        [] \<Rightarrow> Some (m, 0, any, rest)
      | d # ds \<Rightarrow> if d = CHR ''.'' then scan_fraction ds m 0 any else Some (m, 0, any, rest))"

text \<open>Everything after the sign: the scaled magnitude, before negation and the range check.\<close>

definition parse_magnitude :: "string \<Rightarrow> int option" where
  "parse_magnitude body =
     (case scan_integer body 0 False of
        None \<Rightarrow> None
      | Some (m, any, rest) \<Rightarrow>
          (case parse_fraction rest m any of
             None \<Rightarrow> None
           | Some (m', f, any', rest') \<Rightarrow>
               if \<not> any' then None
               else (case parse_exponent rest' of
                       None \<Rightarrow> None
                     | Some (e, rest'') \<Rightarrow>
                         if rest'' \<noteq> [] then None
                         else scale_mantissa m' (int kDecimals - int f + e))))"

definition parse_fixed_raw :: "string \<Rightarrow> int option" where
  "parse_fixed_raw text =
     (case text of
        [] \<Rightarrow> None
      | c # cs \<Rightarrow>
          (let negative = (c = CHR ''-'');
               body = (if c = CHR ''+'' \<or> c = CHR ''-'' then cs else text)
           in case parse_magnitude body of
                None \<Rightarrow> None
              | Some r \<Rightarrow>
                  (let r' = (if negative then wrap128 (- r) else r)
                   in if r' > INT64_MAX \<or> r' < INT64_MIN then None else Some r')))"

definition digit_char :: "int \<Rightarrow> char" where
  "digit_char n = char_of (48 + n)"

text \<open>\<open>std::to_string\<close> on an unsigned value.\<close>

function uint_to_string :: "int \<Rightarrow> string" where
  "uint_to_string n =
     (if n < 10 then [digit_char n] else uint_to_string (n div 10) @ [digit_char (n mod 10)])"
  by pat_completeness auto
termination
  by (relation "measure nat") auto

declare uint_to_string.simps [simp del]

text \<open>The fractional digits, least significant written first from the right.\<close>

fun fill_digits :: "nat \<Rightarrow> int \<Rightarrow> string \<Rightarrow> string" where
  "fill_digits 0 frac acc = acc"
| "fill_digits (Suc d) frac acc = fill_digits d (frac div 10) (digit_char (frac mod 10) # acc)"

fun trimmed_length :: "string \<Rightarrow> nat \<Rightarrow> nat" where
  "trimmed_length ds 0 = 0"
| "trimmed_length ds (Suc n) = (if ds ! n = CHR ''0'' then trimmed_length ds n else Suc n)"

definition format_fixed_raw :: "int \<Rightarrow> string" where
  "format_fixed_raw raw =
     (let negative = raw < 0;
          magnitude = (if negative then (- raw) mod 2 ^ 64 else raw mod 2 ^ 64);
          whole = magnitude div kScale;
          frac = magnitude mod kScale;
          frac_digits = fill_digits kDecimals frac [];
          frac_len = trimmed_length frac_digits (length frac_digits)
      in (if negative then ''-'' else '''') @ uint_to_string whole
         @ (if frac_len > 0 then CHR ''.'' # take frac_len frac_digits else []))"

text \<open>The number a digit string denotes, appended to what was read before.\<close>

definition digits_value :: "string \<Rightarrow> int \<Rightarrow> int" where
  "digits_value ds m = foldl (\<lambda>a c. a * 10 + digit_value c) m ds"

section \<open>Digit strings\<close>

lemma digits_value_simps [simp]:
  "digits_value [] m = m"
  "digits_value (c # cs) m = digits_value cs (m * 10 + digit_value c)"
  "digits_value (cs @ ds) m = digits_value ds (digits_value cs m)"
  by (simp_all add: digits_value_def)

lemma digit_value_bounds: "is_digit c \<Longrightarrow> 0 \<le> digit_value c \<and> digit_value c \<le> 9"
  by (simp add: is_digit_def digit_value_def)

lemma digits_value_linear: "digits_value ds m = m * 10 ^ length ds + digits_value ds 0"
proof (induction ds arbitrary: m)
  case Nil
  then show ?case by simp
next
  case (Cons c cs)
  have "digits_value (c # cs) m = (m * 10 + digit_value c) * 10 ^ length cs + digits_value cs 0"
    using Cons [of "m * 10 + digit_value c"] by simp
  also have "\<dots> = m * 10 ^ length (c # cs) + (digit_value c * 10 ^ length cs + digits_value cs 0)"
    by (simp add: distrib_right)
  also have "digit_value c * 10 ^ length cs + digits_value cs 0 = digits_value (c # cs) 0"
    using Cons [of "digit_value c"] by simp
  finally show ?case .
qed

lemma digits_value_nonneg: "list_all is_digit ds \<Longrightarrow> 0 \<le> m \<Longrightarrow> 0 \<le> digits_value ds m"
proof (induction ds arbitrary: m)
  case Nil
  then show ?case by simp
next
  case (Cons c cs)
  with digit_value_bounds [of c] have "0 \<le> m * 10 + digit_value c" by simp
  with Cons show ?case by simp
qed

lemma digits_value_ge:
  assumes "list_all is_digit ds" and "0 \<le> m"
  shows "m \<le> digits_value ds m"
proof -
  have "m * 1 \<le> m * 10 ^ length ds" by (rule mult_left_mono [OF _ assms(2)]) simp
  moreover have "0 \<le> digits_value ds 0" using assms(1) by (simp add: digits_value_nonneg)
  ultimately show ?thesis using digits_value_linear [of ds m] by linarith
qed

lemma digit_char_props [simp]:
  assumes "0 \<le> n" and "n \<le> 9"
  shows "is_digit (digit_char n)" and "digit_value (digit_char n) = n"
proof -
  have "(48 + n) mod 256 = 48 + n" using assms by simp
  then have "(of_char (digit_char n) :: int) = 48 + n"
    by (simp add: digit_char_def)
  with assms show "is_digit (digit_char n)" "digit_value (digit_char n) = n"
    by (simp_all add: is_digit_def digit_value_def)
qed

lemma uint_to_string_digits:
  assumes "0 \<le> n"
  shows "list_all is_digit (uint_to_string n) \<and> uint_to_string n \<noteq> [] \<and> digits_value (uint_to_string n) 0 = n"
  using assms
proof (induction n rule: uint_to_string.induct)
  case (1 n)
  show ?case
  proof (cases "n < 10")
    case True
    with 1 show ?thesis by (simp add: uint_to_string.simps [of n])
  next
    case False
    with 1 show ?thesis by (simp add: uint_to_string.simps [of n])
  qed
qed

lemma fill_digits_digits:
  assumes "0 \<le> frac"
  shows "\<exists>ds. fill_digits d frac acc = ds @ acc \<and> length ds = d \<and> list_all is_digit ds
    \<and> digits_value ds 0 = frac mod 10 ^ d"
  using assms
proof (induction d arbitrary: frac acc)
  case 0
  then show ?case by simp
next
  case (Suc d)
  let ?acc = "digit_char (frac mod 10) # acc"
  from Suc.prems have "0 \<le> frac div 10" by (simp add: pos_imp_zdiv_nonneg_iff)
  from Suc.IH [OF this, of ?acc] obtain ds where
    ds: "fill_digits d (frac div 10) ?acc = ds @ ?acc" "length ds = d" "list_all is_digit ds"
      "digits_value ds 0 = frac div 10 mod 10 ^ d" by blast
  have "frac div 10 mod 10 ^ d * 10 + frac mod 10 = frac mod (10 ^ Suc d)"
    by (simp add: zmod_zmult2_eq algebra_simps)
  with ds show ?case by (intro exI [of _ "ds @ [digit_char (frac mod 10)]"]) simp
qed

lemma trimmed_length_zeros:
  assumes "n \<le> length ds"
  shows "trimmed_length ds n \<le> n
    \<and> digits_value (take n ds) 0 = digits_value (take (trimmed_length ds n) ds) 0 * 10 ^ (n - trimmed_length ds n)"
  using assms
proof (induction n)
  case 0
  then show ?case by simp
next
  case (Suc n)
  then have tk: "take (Suc n) ds = take n ds @ [ds ! n]" by (simp add: take_Suc_conv_app_nth)
  show ?case
  proof (cases "ds ! n = CHR ''0''")
    case True
    with Suc have IH: "trimmed_length ds n \<le> n"
      "digits_value (take n ds) 0
        = digits_value (take (trimmed_length ds n) ds) 0 * 10 ^ (n - trimmed_length ds n)" by simp_all
    have "digit_value (CHR ''0'') = 0" by (simp add: digit_value_def)
    with True IH tk show ?thesis by (simp add: Suc_diff_le)
  next
    case False
    then show ?thesis by simp
  qed
qed

section \<open>The scanning loops\<close>

definition no_digit :: "string \<Rightarrow> bool" where
  "no_digit s \<longleftrightarrow> (case s of [] \<Rightarrow> True | c # _ \<Rightarrow> \<not> is_digit c)"

lemma scan_integer_run:
  assumes "list_all is_digit ds" and "no_digit rest" and "0 \<le> m"
    and "digits_value ds m \<le> kMantissaCeiling"
  shows "scan_integer (ds @ rest) m any = Some (digits_value ds m, any \<or> ds \<noteq> [], rest)"
  using assms
proof (induction ds arbitrary: m any)
  case Nil
  then show ?case by (cases rest) (simp_all add: no_digit_def)
next
  case (Cons c cs)
  let ?m = "m * 10 + digit_value c"
  have "0 \<le> ?m" using Cons.prems digit_value_bounds [of c] by simp
  moreover have "?m \<le> digits_value cs ?m"
    using Cons.prems \<open>0 \<le> ?m\<close> by (intro digits_value_ge) simp_all
  ultimately show ?case using Cons by (simp add: Let_def)
qed

lemma scan_integer_Some:
  assumes "scan_integer s m any = Some (m', any', rest)"
  shows "\<exists>ds. s = ds @ rest \<and> list_all is_digit ds \<and> m' = digits_value ds m
    \<and> any' = (any \<or> ds \<noteq> []) \<and> no_digit rest"
  using assms
proof (induction s m any rule: scan_integer.induct)
  case (1 m any)
  then show ?case by (simp add: no_digit_def)
next
  case (2 c cs m any)
  show ?case
  proof (cases "is_digit c")
    case True
    with 2 obtain ds where "cs = ds @ rest" "list_all is_digit ds"
      "m' = digits_value ds (m * 10 + digit_value c)" "any'" "no_digit rest"
      by (auto simp: Let_def split: if_splits)
    with True show ?thesis by (intro exI [of _ "c # ds"]) simp
  next
    case False
    with 2 show ?thesis by (auto simp: no_digit_def)
  qed
qed

lemma scan_fraction_run:
  assumes "list_all is_digit ds" and "no_digit rest" and "0 \<le> m"
    and "digits_value ds m \<le> kMantissaCeiling" and "f + length ds \<le> kDecimals"
  shows "scan_fraction (ds @ rest) m f any
    = Some (digits_value ds m, f + length ds, any \<or> ds \<noteq> [], rest)"
  using assms
proof (induction ds arbitrary: m f any)
  case Nil
  then show ?case by (cases rest) (simp_all add: no_digit_def)
next
  case (Cons c cs)
  let ?m = "m * 10 + digit_value c"
  have "0 \<le> ?m" using Cons.prems digit_value_bounds [of c] by simp
  moreover have "?m \<le> digits_value cs ?m"
    using Cons.prems \<open>0 \<le> ?m\<close> by (intro digits_value_ge) simp_all
  ultimately show ?case using Cons by (simp add: Let_def)
qed

lemma scan_fraction_zeros:
  assumes "scan_fraction s m f any = Some (m', f', any', rest)" and "\<not> f < kDecimals"
  shows "m' = m \<and> f' = f \<and> no_digit rest
    \<and> (\<exists>n. s = replicate n (CHR ''0'') @ rest \<and> any' = (any \<or> n \<noteq> 0))"
  using assms
proof (induction s m f any rule: scan_fraction.induct)
  case (1 m f any)
  then show ?case by (simp add: no_digit_def)
next
  case (2 c cs m f any)
  show ?case
  proof (cases "is_digit c")
    case True
    with 2 have c: "c = CHR ''0''" by (auto split: if_splits)
    with True 2 obtain n where n: "cs = replicate n (CHR ''0'') @ rest" "any'" "m' = m" "f' = f" "no_digit rest"
      by (auto split: if_splits)
    with c show ?thesis by (auto intro!: exI [of _ "Suc n"])
  next
    case False
    with 2 show ?thesis by (auto simp: no_digit_def)
  qed
qed

lemma digits_value_zeros: "digits_value (replicate n (CHR ''0'')) m = m * 10 ^ n"
  by (induction n arbitrary: m) (simp_all add: digit_value_def)

lemma is_digit_zero: "is_digit (CHR ''0'')"
  by (simp add: is_digit_def)

lemma scan_fraction_Some:
  assumes "scan_fraction s m f any = Some (m', f', any', rest)"
  shows "\<exists>ds. s = ds @ rest \<and> list_all is_digit ds \<and> f \<le> f' \<and> f' \<le> f + length ds
    \<and> f' \<le> max f kDecimals \<and> m' * 10 ^ (f + length ds - f') = digits_value ds m
    \<and> any' = (any \<or> ds \<noteq> []) \<and> no_digit rest"
  using assms
proof (induction s m f any rule: scan_fraction.induct)
  case (1 m f any)
  then show ?case by (simp add: no_digit_def)
next
  case (2 c cs m f any)
  consider (low) "is_digit c" "f < kDecimals" | (zero) "\<not> f < kDecimals"
    | (stop) "\<not> is_digit c" by blast
  then show ?case
  proof cases
    case low
    let ?m = "m * 10 + digit_value c"
    from low 2 have run: "scan_fraction cs ?m (f + 1) True = Some (m', f', any', rest)"
      by (auto simp: Let_def split: if_splits)
    moreover from low 2 have "\<not> ?m > kMantissaCeiling" by (auto simp: Let_def split: if_splits)
    ultimately obtain ds where ds: "cs = ds @ rest" "list_all is_digit ds" "f + 1 \<le> f'"
      "f' \<le> f + 1 + length ds" "f' \<le> max (f + 1) kDecimals"
      "m' * 10 ^ (f + 1 + length ds - f') = digits_value ds ?m" "any'" "no_digit rest"
      using "2.IH"(1) [OF low refl] by auto
    with low show ?thesis by (intro exI [of _ "c # ds"]) simp
  next
    case zero
    from scan_fraction_zeros [OF "2.prems" zero] obtain n where
      "m' = m" "f' = f" "no_digit rest" "c # cs = replicate n (CHR ''0'') @ rest"
      "any' = (any \<or> n \<noteq> 0)" by blast
    then show ?thesis
      by (intro exI [of _ "replicate n (CHR ''0'')"])
         (simp add: digits_value_zeros is_digit_zero list_all_iff)
  next
    case stop
    with 2 show ?thesis by (auto simp: no_digit_def)
  qed
qed

section \<open>Whole texts\<close>

lemma digits_value_mono: "m \<le> n \<Longrightarrow> digits_value ds m \<le> digits_value ds n"
  using digits_value_linear [of ds m] digits_value_linear [of ds n] by (simp add: mult_right_mono)

lemma scale_mantissa_up:
  assumes "0 \<le> shift" and "shift < kPow10_size" and "0 \<le> m * 10 ^ nat shift"
    and "m * 10 ^ nat shift \<le> 9223372036854775808"
  shows "scale_mantissa m shift = Some (m * 10 ^ nat shift)"
proof -
  have "wrap128 (m * 10 ^ nat shift) = m * 10 ^ nat shift"
    using assms(3,4) by (intro wrap128_id) simp_all
  with assms show ?thesis by (cases "shift = 0") (simp_all add: scale_mantissa_def)
qed

text \<open>A text without exponent, from the sign to the last fractional digit.\<close>

definition sign_text :: "bool \<Rightarrow> string" where
  "sign_text negative = (if negative then ''-'' else '''')"

definition fraction_text :: "string \<Rightarrow> string" where
  "fraction_text fs = (if fs = [] then [] else CHR ''.'' # fs)"

lemma not_digit_chars [simp]:
  "\<not> is_digit (CHR ''.'')" "\<not> is_digit (CHR ''+'')" "\<not> is_digit (CHR ''-'')"
  by (simp_all add: is_digit_def)

lemma parse_fixed_raw_plain:
  assumes ds: "list_all is_digit ds" "ds \<noteq> []" and fs: "list_all is_digit fs" "length fs \<le> kDecimals"
    and m: "digits_value (ds @ fs) 0 \<le> kMantissaCeiling"
    and v: "v = digits_value (ds @ fs) 0 * 10 ^ (kDecimals - length fs)"
    and rng: "in64 (if negative then - v else v)"
  shows "parse_fixed_raw (sign_text negative @ ds @ fraction_text fs)
    = Some (if negative then - v else v)"
proof -
  let ?m = "digits_value (ds @ fs) 0" and ?rest = "fraction_text fs"
  let ?shift = "int kDecimals - int (length fs)"
  have m0: "0 \<le> digits_value ds 0" "0 \<le> ?m" using ds fs by (simp_all add: digits_value_nonneg)
  have "digits_value ds 0 \<le> ?m" using digits_value_ge [OF fs(1) m0(1)] by simp
  with m have int_part: "scan_integer (ds @ ?rest) 0 False = Some (digits_value ds 0, True, ?rest)"
    using scan_integer_run [of ds ?rest 0 False] ds by (auto simp: no_digit_def fraction_text_def)
  have frac_part: "parse_fraction ?rest (digits_value ds 0) True = Some (?m, length fs, True, [])"
    using scan_fraction_run [of fs "[]" "digits_value ds 0" 0 True] fs m m0
    by (auto simp: parse_fraction_def fraction_text_def no_digit_def)
  have v0: "0 \<le> v" using m0 v by simp
  have v1: "v \<le> 9223372036854775808" using rng by (auto simp: in64_def split: if_splits)
  have "nat ?shift = kDecimals - length fs" by simp
  with v v0 v1 have scaled: "scale_mantissa ?m ?shift = Some v"
    using scale_mantissa_up [of ?shift ?m] fs(2) by (simp add: kPow10_size_def kDecimals_def)
  have neg: "wrap128 (- v) = - v" using v0 v1 by (intro wrap128_id) simp_all
  have tail: "parse_exponent [] = Some (0, [])" by (simp add: parse_exponent_def)
  have mag: "parse_magnitude (ds @ ?rest) = Some v"
    using int_part frac_part scaled tail by (simp add: parse_magnitude_def)
  obtain c cs where c: "ds = c # cs" "is_digit c" using ds by (cases ds) auto
  then have "c \<noteq> CHR ''+''" "c \<noteq> CHR ''-''" by auto
  then have first: "parse_fixed_raw (ds @ ?rest) =
      (if v > INT64_MAX \<or> v < INT64_MIN then None else Some v)"
    using mag c by (simp add: parse_fixed_raw_def Let_def)
  have second: "parse_fixed_raw (CHR ''-'' # ds @ ?rest) =
      (if - v > INT64_MAX \<or> - v < INT64_MIN then None else Some (- v))"
    using mag neg by (simp add: parse_fixed_raw_def)
  show ?thesis
  proof (cases negative)
    case True
    with second rng show ?thesis by (simp add: sign_text_def in64_def)
  next
    case False
    with first rng show ?thesis by (simp add: sign_text_def in64_def)
  qed
qed

text \<open>What a successful parse of a text without exponent says about the text.\<close>

lemma scan_integer_bound:
  "scan_integer s m any = Some (m', any', rest) \<Longrightarrow> m \<le> kMantissaCeiling \<Longrightarrow> m' \<le> kMantissaCeiling"
  by (induction s m any rule: scan_integer.induct) (auto simp: Let_def split: if_splits)

lemma scan_fraction_bound:
  "scan_fraction s m f any = Some (m', f', any', rest) \<Longrightarrow> m \<le> kMantissaCeiling \<Longrightarrow> m' \<le> kMantissaCeiling"
  by (induction s m f any rule: scan_fraction.induct) (auto simp: Let_def split: if_splits)

lemma parse_fraction_Some:
  assumes "parse_fraction s m any = Some (m', f, any', rest)" and "no_digit s"
  shows "\<exists>fs ds. s = fs @ rest \<and> (fs = [] \<and> ds = [] \<or> fs = CHR ''.'' # ds) \<and> list_all is_digit ds
    \<and> f \<le> length ds \<and> f \<le> kDecimals \<and> m' * 10 ^ (length ds - f) = digits_value ds m
    \<and> any' = (any \<or> ds \<noteq> [])"
proof (cases "\<exists>cs. s = CHR ''.'' # cs")
  case True
  then obtain cs where s: "s = CHR ''.'' # cs" by blast
  with assms have "scan_fraction cs m 0 any = Some (m', f, any', rest)"
    by (simp add: parse_fraction_def)
  from scan_fraction_Some [OF this] obtain ds where "cs = ds @ rest" "list_all is_digit ds"
    "f \<le> length ds" "f \<le> kDecimals" "m' * 10 ^ (length ds - f) = digits_value ds m"
    "any' = (any \<or> ds \<noteq> [])" by auto
  with s show ?thesis by (intro exI [of _ "CHR ''.'' # ds"] exI [of _ ds]) simp
next
  case False
  with assms have "m' = m" "f = 0" "any' = any" "rest = s"
    by (auto simp: parse_fraction_def split: list.splits if_splits)
  then show ?thesis by (intro exI [of _ "[]"]) simp
qed

lemma parse_exponent_plain:
  "parse_exponent s = Some (e, []) \<Longrightarrow> CHR ''e'' \<notin> set s \<Longrightarrow> CHR ''E'' \<notin> set s \<Longrightarrow> e = 0 \<and> s = []"
  by (cases s) (auto simp: parse_exponent_def split: if_splits)

lemma scale_mantissa_exact:
  assumes "scale_mantissa m (int kDecimals - int f) = Some r" and "f \<le> kDecimals"
    and "0 \<le> m" and "m \<le> kMantissaCeiling"
  shows "r = m * 10 ^ (kDecimals - f)"
proof -
  have eq: "nat (int kDecimals - int f) = kDecimals - f" by simp
  have "m * 10 ^ (kDecimals - f) \<le> kMantissaCeiling * 10 ^ (kDecimals - f)"
    using assms(4) by (rule mult_right_mono) simp
  also have "\<dots> \<le> kMantissaCeiling * 10 ^ kDecimals"
    by (intro mult_left_mono power_increasing) (simp_all add: kMantissaCeiling_def)
  also have "\<dots> < 2 ^ 127" by (simp add: kMantissaCeiling_def kDecimals_def)
  finally have "m * 10 ^ (kDecimals - f) < 2 ^ 127" .
  moreover have "0 \<le> m * 10 ^ (kDecimals - f)" using assms(3) by simp
  ultimately have "wrap128 (m * 10 ^ (kDecimals - f)) = m * 10 ^ (kDecimals - f)"
    by (intro wrap128_id) simp_all
  with assms(1,2) eq show ?thesis
    by (auto simp: scale_mantissa_def split: if_splits)
qed

lemma parse_magnitude_Some:
  assumes "parse_magnitude s = Some r" and "CHR ''e'' \<notin> set s" "CHR ''E'' \<notin> set s"
  shows "\<exists>ds fs gs. s = ds @ fs \<and> list_all is_digit ds \<and> list_all is_digit gs
    \<and> (fs = [] \<and> gs = [] \<or> fs = CHR ''.'' # gs) \<and> ds @ gs \<noteq> [] \<and> 0 \<le> r \<and> r < 2 ^ 127
    \<and> r * 10 ^ length gs = digits_value (ds @ gs) 0 * kScale"
proof -
  from assms(1) obtain m any rest m' f any' rest' e where
    int_part: "scan_integer s 0 False = Some (m, any, rest)"
    and frac_part: "parse_fraction rest m any = Some (m', f, any', rest')" and any': "any'"
    and tail: "parse_exponent rest' = Some (e, [])"
    and scaled: "scale_mantissa m' (int kDecimals - int f + e) = Some r"
    by (auto simp: parse_magnitude_def split: option.splits prod.splits if_splits)
  from scan_integer_Some [OF int_part] obtain ds where
    ds: "s = ds @ rest" "list_all is_digit ds" "m = digits_value ds 0" "any = (ds \<noteq> [])" "no_digit rest"
    by auto
  from parse_fraction_Some [OF frac_part ds(5)] obtain fs gs where
    gs: "rest = fs @ rest'" "fs = [] \<and> gs = [] \<or> fs = CHR ''.'' # gs" "list_all is_digit gs"
      "f \<le> length gs" "f \<le> kDecimals" "m' * 10 ^ (length gs - f) = digits_value gs m"
      "any' = (any \<or> gs \<noteq> [])" by blast
  from parse_exponent_plain [OF tail] assms(2,3) ds(1) gs(1) have e: "e = 0" "rest' = []" by auto
  have m0: "0 \<le> m" using ds by (simp add: digits_value_nonneg)
  have "0 \<le> m' * 10 ^ (length gs - f)" unfolding gs(6) using gs(3) m0 by (rule digits_value_nonneg)
  then have m'0: "0 \<le> m'" by (metis mult_neg_pos not_le zero_less_power zero_less_numeral)
  have "m \<le> kMantissaCeiling"
    using scan_integer_bound [OF int_part] by (simp add: kMantissaCeiling_def)
  then have "m' \<le> kMantissaCeiling"
    using frac_part scan_fraction_bound
    by (fastforce simp: parse_fraction_def split: list.splits if_splits)
  then have r: "r = m' * 10 ^ (kDecimals - f)" and "m' * 10 ^ (kDecimals - f) \<le> kMantissaCeiling * 10 ^ kDecimals"
    using scale_mantissa_exact [of m' f r] scaled e gs(5) m'0
    by (auto intro!: mult_mono power_increasing)
  then have "r < 2 ^ 127" by (simp add: kMantissaCeiling_def kDecimals_def)
  have "r * 10 ^ length gs = m' * (10 ^ (length gs - f) * 10 ^ f) * 10 ^ (kDecimals - f)"
    using gs(4) by (simp add: r power_add [symmetric])
  also have "\<dots> = digits_value gs m * (10 ^ f * 10 ^ (kDecimals - f))"
    by (simp add: gs(6) [symmetric])
  also have "(10::int) ^ f * 10 ^ (kDecimals - f) = kScale"
    using gs(5) by (simp add: power_add [symmetric] kDecimals_def kScale_def)
  finally have "r * 10 ^ length gs = digits_value (ds @ gs) 0 * kScale" by (simp add: ds(3))
  with ds gs e any' m'0 r \<open>r < 2 ^ 127\<close> show ?thesis
    by (intro exI [of _ ds] exI [of _ fs] exI [of _ gs]) auto
qed

lemma format_fixed_raw_plain:
  assumes "in64 raw"
  obtains ds fs where "format_fixed_raw raw = sign_text (raw < 0) @ ds @ fraction_text fs"
    "list_all is_digit ds" "ds \<noteq> []" "list_all is_digit fs" "length fs \<le> kDecimals"
    "digits_value ds 0 = \<bar>raw\<bar> div kScale"
    "digits_value fs 0 * 10 ^ (kDecimals - length fs) = \<bar>raw\<bar> mod kScale"
proof -
  let ?whole = "\<bar>raw\<bar> div kScale" and ?frac = "\<bar>raw\<bar> mod kScale"
  have mag: "(if raw < 0 then (- raw) mod 2 ^ 64 else raw mod 2 ^ 64) = \<bar>raw\<bar>"
    using assms by (auto simp: in64_def)
  have "0 \<le> ?frac" by simp
  from fill_digits_digits [OF this, of kDecimals "[]"] obtain fd where
    fd: "fill_digits kDecimals ?frac [] = fd" "length fd = kDecimals" "list_all is_digit fd"
      "digits_value fd 0 = ?frac mod 10 ^ kDecimals" by auto
  let ?n = "trimmed_length fd (length fd)"
  from trimmed_length_zeros [of "length fd" fd] fd(2)
  have n: "?n \<le> kDecimals"
    and tz: "digits_value fd 0 = digits_value (take ?n fd) 0 * 10 ^ (kDecimals - ?n)" by simp_all
  have len: "length (take ?n fd) = ?n" using n fd(2) by simp
  have "?frac mod 10 ^ kDecimals = ?frac" by (simp add: kDecimals_def kScale_def)
  with tz fd(4) len
  have val: "digits_value (take ?n fd) 0 * 10 ^ (kDecimals - length (take ?n fd)) = ?frac" by simp
  have dig: "list_all is_digit (take ?n fd)" using fd(3) by (auto simp: list_all_iff dest: in_set_takeD)
  have "0 \<le> ?whole" by (simp add: pos_imp_zdiv_nonneg_iff)
  note whole = uint_to_string_digits [OF this]
  have "format_fixed_raw raw = sign_text (raw < 0) @ uint_to_string ?whole @ fraction_text (take ?n fd)"
    unfolding format_fixed_raw_def mag Let_def fd(1)
    using len by (auto simp: sign_text_def fraction_text_def)
  then show ?thesis using whole dig n len val
    by (intro that [of "uint_to_string ?whole" "take ?n fd"]) simp_all
qed

section \<open>Properties\<close>

text \<open>
  C39. Formatting and parsing are inverse: every 64-bit raw value, both ends of the range included,
  is printed by \<open>format_fixed_raw\<close> as a decimal that \<open>parse_fixed_raw\<close> reads back exactly.
\<close>

theorem parse_format_roundtrip:
  assumes "in64 raw"
  shows "parse_fixed_raw (format_fixed_raw raw) = Some raw"
proof -
  from format_fixed_raw_plain [OF assms] obtain ds fs where
    fmt: "format_fixed_raw raw = sign_text (raw < 0) @ ds @ fraction_text fs"
    and ds: "list_all is_digit ds" "ds \<noteq> []" and fs: "list_all is_digit fs" "length fs \<le> kDecimals"
    and w: "digits_value ds 0 = \<bar>raw\<bar> div kScale"
    and f: "digits_value fs 0 * 10 ^ (kDecimals - length fs) = \<bar>raw\<bar> mod kScale" .
  let ?v = "digits_value (ds @ fs) 0 * 10 ^ (kDecimals - length fs)"
  have "?v = (\<bar>raw\<bar> div kScale * 10 ^ length fs + digits_value fs 0) * 10 ^ (kDecimals - length fs)"
    using digits_value_linear [of fs "\<bar>raw\<bar> div kScale"] w by simp
  also have "\<dots> = \<bar>raw\<bar> div kScale * (10 ^ length fs * 10 ^ (kDecimals - length fs)) + \<bar>raw\<bar> mod kScale"
    using f by (simp only: distrib_right mult.assoc)
  also have "10 ^ length fs * 10 ^ (kDecimals - length fs) = kScale"
    using fs(2) by (simp add: power_add [symmetric] kDecimals_def kScale_def)
  finally have v: "\<bar>raw\<bar> = ?v" by simp
  have "digits_value (ds @ fs) 0 * 1 \<le> ?v"
    using ds fs by (intro mult_left_mono) (simp_all add: digits_value_nonneg)
  then have "digits_value (ds @ fs) 0 \<le> kMantissaCeiling"
    using v assms by (auto simp: in64_def kMantissaCeiling_def)
  from parse_fixed_raw_plain [OF ds fs this v, of "raw < 0"] assms
  show ?thesis by (simp add: fmt abs_if)
qed

theorem parse_format_roundtrip_witness:
  "in64 (- 123456789012345678) \<and> parse_fixed_raw (format_fixed_raw (- 123456789012345678)) = Some (- 123456789012345678)"
proof -
  have h: "in64 (- 123456789012345678)" by (simp add: in64_def)
  from parse_format_roundtrip [OF h] h show ?thesis by blast
qed

text \<open>
  Parsing is exact: whatever text without exponent \<open>parse_fixed_raw\<close> accepts is an optional sign,
  digits and an optional fraction with at least one digit in all, and the raw value returned is the
  denoted number at the 1e-8 scale with no rounding at all, inside the 64-bit range.
\<close>

theorem parse_fixed_raw_exact:
  assumes "parse_fixed_raw t = Some r" and "CHR ''e'' \<notin> set t" and "CHR ''E'' \<notin> set t"
  shows "in64 r \<and> (\<exists>sgn ds fs gs. t = sgn @ ds @ fs \<and> sgn \<in> {'''', ''+'', ''-''}
    \<and> list_all is_digit ds \<and> list_all is_digit gs
    \<and> (fs = '''' \<and> gs = '''' \<or> fs = CHR ''.'' # gs) \<and> ds @ gs \<noteq> ''''
    \<and> (if sgn = ''-'' then - r else r) * 10 ^ length gs = digits_value (ds @ gs) 0 * kScale)"
proof -
  from assms(1) obtain c cs where t: "t = c # cs" by (cases t) (auto simp: parse_fixed_raw_def)
  let ?signed = "c = CHR ''+'' \<or> c = CHR ''-''"
  let ?body = "if ?signed then cs else t" and ?sgn = "if ?signed then [c] else []"
  from assms(1) t obtain v where v: "parse_magnitude ?body = Some v"
    and r: "r = (if c = CHR ''-'' then wrap128 (- v) else v)" "in64 r"
    by (auto simp: parse_fixed_raw_def Let_def in64_def split: option.splits if_splits)
  have "CHR ''e'' \<notin> set ?body" "CHR ''E'' \<notin> set ?body" using assms(2,3) t by auto
  from parse_magnitude_Some [OF v this] obtain ds fs gs where
    parts: "?body = ds @ fs" "list_all is_digit ds" "list_all is_digit gs"
      "fs = [] \<and> gs = [] \<or> fs = CHR ''.'' # gs" "ds @ gs \<noteq> []" "0 \<le> v" "v < 2 ^ 127"
      "v * 10 ^ length gs = digits_value (ds @ gs) 0 * kScale" by blast
  from parts have "wrap128 (- v) = - v" by (intro wrap128_id) simp_all
  with r have v_eq: "v = (if ?sgn = ''-'' then - r else r)" by auto
  have "t = ?sgn @ ds @ fs" using parts(1) t by (auto split: if_splits)
  moreover have "?sgn \<in> {'''', ''+'', ''-''}" by auto
  ultimately show ?thesis using parts r(2) unfolding v_eq by blast
qed

theorem parse_fixed_raw_exact_witness:
  "\<exists>sgn ds fs gs. ''-12.050'' = sgn @ ds @ fs \<and> list_all is_digit ds \<and> list_all is_digit gs
    \<and> (if sgn = ''-'' then - (- 1205000000) else - 1205000000) * 10 ^ length gs
        = digits_value (ds @ gs) 0 * kScale"
proof -
  have h: "parse_fixed_raw ''-12.050'' = Some (- 1205000000)" by code_simp
  from parse_fixed_raw_exact [OF h] have "\<exists>sgn ds fs gs. ''-12.050'' = sgn @ ds @ fs \<and> sgn \<in> {'''', ''+'', ''-''}
    \<and> list_all is_digit ds \<and> list_all is_digit gs
    \<and> (fs = '''' \<and> gs = '''' \<or> fs = CHR ''.'' # gs) \<and> ds @ gs \<noteq> ''''
    \<and> (if sgn = ''-'' then - (- 1205000000) else - 1205000000) * 10 ^ length gs
        = digits_value (ds @ gs) 0 * kScale" by simp
  then show ?thesis by blast
qed

text \<open>
  The exponent path can overflow the 128-bit mantissa silently: the text of \<open>2^90\<close> with exponent 30
  denotes a number of more than 57 digits, far outside the 64-bit range, and is accepted as zero
  because the mantissa is multiplied by \<open>10^38\<close> without a bound. The header promises a refusal on overflow.
\<close>

theorem parse_fixed_raw_exponent_overflow:
  "parse_fixed_raw ''1237940039285380274899124224E30'' = Some 0"
  by code_simp

end
