(* ===== verification/Types.thy ===== *)
theory Types
  imports Fixed
begin

text \<open>
  The shared vocabulary: \<^verbatim>\<open>include/mm/common/Types.hpp\<close>, \<^verbatim>\<open>Status.hpp\<close> and \<^verbatim>\<open>InlineString.hpp\<close>.
  Enumerations are datatypes, structs are records with a field prefix, a bounded inline string is a
  \<open>string\<close> whose capacity appears in \<open>assign\<close> and \<open>append\<close>. A \<open>Status\<close> is its \<open>ErrorCode\<close>: the message is
  diagnostic text no code branches on.
\<close>

section \<open>Definitions\<close>

type_synonym nanos = int
type_synonym seq = nat
type_synonym symbol_id = nat

definition kInvalidSymbolId :: symbol_id where
  "kInvalidSymbolId = 65535"

text \<open>\<open>InlineString<Cap>\<close>: \<open>assign\<close> truncates and reports it, \<open>append\<close> refuses what does not fit.\<close>

definition inline_assign :: "nat \<Rightarrow> string \<Rightarrow> string \<times> bool" where
  "inline_assign cap sv = (let n = min (length sv) cap in (take n sv, n = length sv))"

definition inline_append :: "nat \<Rightarrow> string \<Rightarrow> string \<Rightarrow> string \<times> bool" where
  "inline_append cap s sv = (if length s + length sv > cap then (s, False) else (s @ sv, True))"

datatype ErrorCode =
    Ok | InvalidArgument | FailedPrecondition | NotFound | AlreadyExists | OutOfRange
  | PermissionDenied | Unavailable | Timeout | ParseError | Rejected | Overflow | Unsafe | Internal

definition is_ok :: "ErrorCode \<Rightarrow> bool" where
  "is_ok c \<longleftrightarrow> c = Ok"

definition is_err :: "ErrorCode \<Rightarrow> bool" where
  "is_err c \<longleftrightarrow> c \<noteq> Ok"

datatype Side = Buy | Sell

definition opposite :: "Side \<Rightarrow> Side" where
  "opposite s = (if s = Buy then Sell else Buy)"

definition sign_of :: "Side \<Rightarrow> int" where
  "sign_of s = (if s = Buy then 1 else -1)"

datatype OrderType = Limit | Market | LimitMaker

datatype TimeInForce = GTC | IOC | FOK | GTX

datatype Liquidity = LiquidityUnknown | Maker | Taker

datatype RejectReason =
    NoReason | UnknownReason | InsufficientBalance | PriceOutOfBounds | QuantityOutOfBounds
  | NotionalTooSmall | TickSizeViolation | LotSizeViolation | PostOnlyWouldCross
  | DuplicateClientOrderId | UnknownOrder | RateLimited | MarketClosed | SymbolNotTrading
  | ReduceOnlyViolation | RiskLimitExceeded | Connectivity | InternalError

datatype MarketStatus = MarketUnknown | Trading | Halted | AuctionOnly | Delisted

record InstrumentSpec =
  is_symbol :: string
  is_id :: symbol_id
  is_base :: string
  is_quote :: string
  is_tick_size :: px
  is_lot_size :: qty
  is_min_qty :: qty
  is_max_qty :: qty
  is_min_notional :: notional
  is_price_band_lo :: px
  is_price_band_hi :: px
  is_status :: MarketStatus

definition spec_is_valid :: "InstrumentSpec \<Rightarrow> bool" where
  "spec_is_valid s \<longleftrightarrow> is_symbol s \<noteq> [] \<and> is_tick_size s > 0 \<and> is_lot_size s > 0"

record BestBidAsk =
  bba_bid_px :: px
  bba_bid_qty :: qty
  bba_ask_px :: px
  bba_ask_qty :: qty
  bba_seq :: seq
  bba_exchange_ns :: nanos

definition is_two_sided :: "BestBidAsk \<Rightarrow> bool" where
  "is_two_sided b \<longleftrightarrow> bba_bid_px b > 0 \<and> bba_ask_px b > 0"

definition is_sane :: "BestBidAsk \<Rightarrow> bool" where
  "is_sane b \<longleftrightarrow> is_two_sided b \<and> bba_bid_px b < bba_ask_px b
     \<and> bba_bid_qty b > 0 \<and> bba_ask_qty b > 0"

definition mid :: "BestBidAsk \<Rightarrow> px" where
  "mid b = wrap64 (bba_bid_px b + bba_ask_px b) sdiv 2"

definition spread :: "BestBidAsk \<Rightarrow> px" where
  "spread b = fx_sub (bba_ask_px b) (bba_bid_px b)"

definition micro_price :: "BestBidAsk \<Rightarrow> px" where
  "micro_price b =
     (let bq = bba_bid_qty b; aq = bba_ask_qty b; total = wrap64 (bq + aq)
      in if total \<le> 0 then mid b
         else (let weighted = bba_bid_px b * aq + bba_ask_px b * bq
               in wrap64 (weighted sdiv total)))"

section \<open>Lemmas\<close>

lemma is_err_iff [simp]: "is_err c \<longleftrightarrow> \<not> is_ok c"
  by (simp add: is_err_def is_ok_def)

lemma is_ok_Ok [simp]: "is_ok Ok"
  by (simp add: is_ok_def)

lemma opposite_opposite [simp]: "opposite (opposite s) = s"
  by (cases s) (simp_all add: opposite_def)

lemma sign_of_cases: "sign_of s = 1 \<or> sign_of s = -1"
  by (simp add: sign_of_def)

lemma inline_append_length:
  "length s \<le> cap \<Longrightarrow> length (fst (inline_append cap s sv)) \<le> cap"
  by (simp add: inline_append_def)

section \<open>Properties\<close>

text \<open>
  Fair-value references stay inside the spread: for a top of book that passes \<open>is_sane\<close>, and whose
  price and size sums fit 64 bits, the mid is at least the bid and below the ask, the size-weighted
  \<open>micro_price\<close> lies between bid and ask, and the spread is positive.
\<close>

theorem fair_value_inside_spread:
  assumes sane: "is_sane b" and px: "in64 (bba_bid_px b + bba_ask_px b)"
    and sz: "in64 (bba_bid_qty b + bba_ask_qty b)"
  shows "bba_bid_px b \<le> mid b \<and> mid b < bba_ask_px b
    \<and> bba_bid_px b \<le> micro_price b \<and> micro_price b \<le> bba_ask_px b \<and> spread b > 0"
proof -
  define B A p q where d: "B = bba_bid_px b" "A = bba_ask_px b" "p = bba_bid_qty b" "q = bba_ask_qty b"
  from sane have o: "0 < B" "B < A" "0 < p" "0 < q" by (simp_all add: d is_sane_def is_two_sided_def)
  have mid: "mid b = (B + A) div 2"
    using px o by (simp add: mid_def d [symmetric] sdiv_nonneg)
  have lo: "B * (p + q) \<le> B * q + A * p" and hi: "B * q + A * p \<le> A * (p + q)"
    using o by (simp_all add: distrib_left)
  have "0 \<le> B * q + A * p" using o by simp
  then have w: "(B * q + A * p) sdiv (p + q) = (B * q + A * p) div (p + q)"
    using o by (simp add: sdiv_nonneg)
  have "B * (p + q) div (p + q) \<le> (B * q + A * p) div (p + q)"
    using lo o by (intro zdiv_mono1) simp_all
  moreover have "(B * q + A * p) div (p + q) \<le> A * (p + q) div (p + q)"
    using hi o by (intro zdiv_mono1) simp_all
  ultimately have between: "B \<le> (B * q + A * p) div (p + q)" "(B * q + A * p) div (p + q) \<le> A"
    using o by simp_all
  have rng: "in64 A" "in64 (A - B)" using px o by (simp_all add: d [symmetric] in64_def)
  with between o have "in64 ((B * q + A * p) div (p + q))" by (simp add: in64_def)
  then have micro: "micro_price b = (B * q + A * p) div (p + q)"
    using sz o w by (simp add: micro_price_def Let_def d [symmetric])
  have "spread b = A - B" using rng by (simp add: spread_def fx_sub_def d)
  moreover have "B \<le> (B + A) div 2" "(B + A) div 2 < A" using o by linarith+
  ultimately show ?thesis using mid micro between o by (simp add: d)
qed

theorem fair_value_inside_spread_witness:
  "is_sane \<lparr>bba_bid_px = 100, bba_bid_qty = 3, bba_ask_px = 103, bba_ask_qty = 5, bba_seq = 0, bba_exchange_ns = 0\<rparr>
   \<and> 100 \<le> micro_price \<lparr>bba_bid_px = 100, bba_bid_qty = 3, bba_ask_px = 103, bba_ask_qty = 5, bba_seq = 0, bba_exchange_ns = 0\<rparr>"
  (is "is_sane ?b \<and> _")
proof -
  have h: "is_sane ?b" by (simp add: is_sane_def is_two_sided_def)
  have "100 \<le> micro_price ?b"
    using fair_value_inside_spread [OF h] by (simp add: in64_def)
  with h show ?thesis by blast
qed

end
