(* ===== verification/Params.thy ===== *)
theory Params
  imports Decimal Types Double "HOL-Library.Char_ord" "HOL-Library.List_Lexorder"
begin

text \<open>
  The strategy parameter bag, \<^verbatim>\<open>Params.hpp\<close> and \<^verbatim>\<open>Params.cpp\<close>, with the two forms of \<^verbatim>\<open>std::from_chars\<close> it
  reads numbers with. The \<^verbatim>\<open>std::map\<close> is an association list with strictly ascending keys (bytewise order, as
  \<^verbatim>\<open>std::string\<close> compares); the getters look keys up in the finite map it stands for. A \<^verbatim>\<open>Result\<close> is a sum with
  the error code on the left.

  \<^verbatim>\<open>from_chars\<close> reads infinities and NaNs, so a parameter is a \<open>cdouble\<close>: a finite double, an infinity with its
  sign, or NaN. The finite operations are those of the theory \<open>Double\<close>; a result beyond the largest double is an
  infinity, comparisons with NaN are false.
\<close>

section \<open>Doubles with infinities and NaN\<close>

datatype cdouble = Fin rat | Inf bool | NaN

definition to_cdouble :: "rat \<Rightarrow> cdouble" where
  "to_cdouble x = (if 2 ^ 1024 \<le> \<bar>x\<bar> then Inf (x < 0) else Fin x)"

fun x_lt :: "cdouble \<Rightarrow> cdouble \<Rightarrow> bool" where
  "x_lt (Fin a) (Fin b) = (a < b)"
| "x_lt (Fin a) (Inf n) = (\<not> n)"
| "x_lt (Inf n) (Fin b) = n"
| "x_lt (Inf n) (Inf m) = (n \<and> \<not> m)"
| "x_lt NaN y = False"
| "x_lt x NaN = False"

fun x_le :: "cdouble \<Rightarrow> cdouble \<Rightarrow> bool" where
  "x_le (Fin a) (Fin b) = (a \<le> b)"
| "x_le (Fin a) (Inf n) = (\<not> n)"
| "x_le (Inf n) (Fin b) = n"
| "x_le (Inf n) (Inf m) = (n \<or> \<not> m)"
| "x_le NaN y = False"
| "x_le x NaN = False"

fun x_neg :: "cdouble \<Rightarrow> cdouble" where
  "x_neg (Fin a) = Fin (- a)"
| "x_neg (Inf n) = Inf (\<not> n)"
| "x_neg NaN = NaN"

fun x_add :: "cdouble \<Rightarrow> cdouble \<Rightarrow> cdouble" where
  "x_add (Fin a) (Fin b) = to_cdouble (dadd a b)"
| "x_add (Fin a) (Inf n) = Inf n"
| "x_add (Inf n) (Fin b) = Inf n"
| "x_add (Inf n) (Inf m) = (if n = m then Inf n else NaN)"
| "x_add NaN y = NaN"
| "x_add x NaN = NaN"

definition x_sub :: "cdouble \<Rightarrow> cdouble \<Rightarrow> cdouble" where
  "x_sub x y = x_add x (x_neg y)"

fun x_mul :: "cdouble \<Rightarrow> cdouble \<Rightarrow> cdouble" where
  "x_mul (Fin a) (Fin b) = to_cdouble (dmul a b)"
| "x_mul (Fin a) (Inf n) = (if a = 0 then NaN else Inf ((a < 0) \<noteq> n))"
| "x_mul (Inf n) (Fin b) = (if b = 0 then NaN else Inf ((b < 0) \<noteq> n))"
| "x_mul (Inf n) (Inf m) = Inf (n \<noteq> m)"
| "x_mul NaN y = NaN"
| "x_mul x NaN = NaN"

text \<open>
  \<^verbatim>\<open>static_cast<std::int64_t>\<close>: truncation towards zero. Out of range, and for infinities and NaN, the conversion is
  undefined in C++; the model takes the value the hardware returns, the smallest integer.
\<close>

definition rat_trunc :: "rat \<Rightarrow> int" where
  "rat_trunc x = (if x < 0 then \<lceil>x\<rceil> else \<lfloor>x\<rfloor>)"

fun x_to_int64 :: "cdouble \<Rightarrow> int" where
  "x_to_int64 (Fin a) = (let n = rat_trunc a in if in64 n then n else INT64_MIN)"
| "x_to_int64 (Inf n) = INT64_MIN"
| "x_to_int64 NaN = INT64_MIN"

section \<open>std::from\_chars\<close>

text \<open>
  \<^verbatim>\<open>std::from_chars\<close> for \<^verbatim>\<open>int64_t\<close> with the caller's check that the whole text was consumed: an optional minus
  sign (no plus sign, no white space) and digits, in range.
\<close>

definition from_chars_int :: "string \<Rightarrow> int option" where
  "from_chars_int s =
     (let (neg, ds) = (case s of c # cs \<Rightarrow> if c = CHR ''-'' then (True, cs) else (False, s) | [] \<Rightarrow> (False, []));
          v = (if neg then - digits_value ds 0 else digits_value ds 0)
      in if ds = [] \<or> \<not> list_all is_digit ds then None else if in64 v then Some v else None)"

text \<open>The double nearest to an exact decimal value; overflow and underflow to zero are \<^verbatim>\<open>result_out_of_range\<close>.\<close>

definition nearest_double :: "rat \<Rightarrow> rat option" where
  "nearest_double x =
     (if x = 0 then Some 0
      else if \<bar>x\<bar> < 2 powi (- 1022) then
        (let r = of_int (round_even (\<bar>x\<bar> * 2 ^ 1074)) * 2 powi (- 1074)
         in if r = 0 then None else Some (if x < 0 then - r else r))
      else if 2 ^ 1024 \<le> \<bar>fl x\<bar> then None else Some (fl x))"

definition lower_char :: "char \<Rightarrow> char" where
  "lower_char c = (if 65 \<le> (of_char c :: int) \<and> (of_char c :: int) \<le> 90 then char_of ((of_char c :: int) + 32) else c)"

definition is_nan_char :: "char \<Rightarrow> bool" where
  "is_nan_char c \<longleftrightarrow> is_digit c \<or> c = CHR ''_'' \<or> 97 \<le> (of_char (lower_char c) :: int) \<and> (of_char (lower_char c) :: int) \<le> 122"

definition parse_special :: "bool \<Rightarrow> string \<Rightarrow> cdouble option" where
  "parse_special neg s =
     (let t = map lower_char s
      in if t = ''inf'' \<or> t = ''infinity'' then Some (Inf neg)
         else if t = ''nan'' then Some NaN
         else if take 4 t = ''nan('' \<and> 5 \<le> length t \<and> last t = CHR '')''
             \<and> list_all is_nan_char (butlast (drop 4 s)) then Some NaN
         else None)"

definition parse_exp10 :: "string \<Rightarrow> int option" where
  "parse_exp10 s =
     (case s of
        [] \<Rightarrow> Some 0
      | c # cs \<Rightarrow>
          if c = CHR ''e'' \<or> c = CHR ''E'' then
            (let (neg, ds) = (case cs of d # ds' \<Rightarrow> if d = CHR ''+'' \<or> d = CHR ''-'' then (d = CHR ''-'', ds') else (False, cs)
                              | [] \<Rightarrow> (False, []))
             in if ds = [] \<or> \<not> list_all is_digit ds then None
                else Some (if neg then - digits_value ds 0 else digits_value ds 0))
          else None)"

text \<open>\<^verbatim>\<open>std::from_chars\<close> for \<^verbatim>\<open>double\<close> in the general format, again for a text consumed as a whole.\<close>

definition from_chars_double :: "string \<Rightarrow> cdouble option" where
  "from_chars_double s =
     (let (neg, body) = (case s of c # cs \<Rightarrow> if c = CHR ''-'' then (True, cs) else (False, s) | [] \<Rightarrow> (False, []));
          ip = takeWhile is_digit body;
          rest = dropWhile is_digit body;
          (fp, rest2) = (case rest of d # ds \<Rightarrow> if d = CHR ''.'' then (takeWhile is_digit ds, dropWhile is_digit ds) else ([], rest)
                         | [] \<Rightarrow> ([], []))
      in if ip = [] \<and> fp = [] then parse_special neg body
         else (case parse_exp10 rest2 of
                 None \<Rightarrow> None
               | Some e \<Rightarrow>
                   (let m = of_int (digits_value (ip @ fp) 0) * 10 powi (e - int (length fp))
                    in map_option Fin (nearest_double (if neg then - m else m)))))"

section \<open>The parameter bag\<close>

type_synonym params = "(string \<times> string) list"
type_synonym 'a result = "ErrorCode + 'a"

fun params_set :: "(string \<times> 'v) list \<Rightarrow> string \<Rightarrow> 'v \<Rightarrow> (string \<times> 'v) list" where
  "params_set [] key v = [(key, v)]"
| "params_set ((k, w) # ps) key v =
     (if key < k then (key, v) # (k, w) # ps
      else if key = k then (key, v) # ps
      else (k, w) # params_set ps key v)"

definition params_has :: "(string \<rightharpoonup> string) \<Rightarrow> string \<Rightarrow> bool" where
  "params_has values key \<longleftrightarrow> values key \<noteq> None"

definition get_with :: "(string \<Rightarrow> 'a option) \<Rightarrow> (string \<rightharpoonup> string) \<Rightarrow> string \<Rightarrow> 'a result" where
  "get_with conv values key =
     (case values key of
        None \<Rightarrow> Inl NotFound
      | Some txt \<Rightarrow> (case conv txt of None \<Rightarrow> Inl ParseError | Some v \<Rightarrow> Inr v))"

definition get_string :: "(string \<rightharpoonup> string) \<Rightarrow> string \<Rightarrow> string result" where
  "get_string = get_with Some"

definition get_double :: "(string \<rightharpoonup> string) \<Rightarrow> string \<Rightarrow> cdouble result" where
  "get_double = get_with from_chars_double"

definition get_int :: "(string \<rightharpoonup> string) \<Rightarrow> string \<Rightarrow> int result" where
  "get_int = get_with from_chars_int"

definition bool_text :: "string \<Rightarrow> bool option" where
  "bool_text v =
     (if v \<in> set [''true'', ''True'', ''TRUE'', ''yes'', ''on'', ''1''] then Some True
      else if v \<in> set [''false'', ''False'', ''FALSE'', ''no'', ''off'', ''0''] then Some False
      else None)"

definition get_bool :: "(string \<rightharpoonup> string) \<Rightarrow> string \<Rightarrow> bool result" where
  "get_bool = get_with bool_text"

definition get_px :: "(string \<rightharpoonup> string) \<Rightarrow> string \<Rightarrow> px result" where
  "get_px = get_with parse_fixed_raw"

definition get_qty :: "(string \<rightharpoonup> string) \<Rightarrow> string \<Rightarrow> qty result" where
  "get_qty = get_with parse_fixed_raw"

definition value_or :: "'a result \<Rightarrow> 'a \<Rightarrow> 'a" where
  "value_or r fallback = (case r of Inr v \<Rightarrow> v | Inl _ \<Rightarrow> fallback)"

definition string_or :: "(string \<rightharpoonup> string) \<Rightarrow> string \<Rightarrow> string \<Rightarrow> string" where
  "string_or values key fallback = value_or (get_string values key) fallback"

definition double_or :: "(string \<rightharpoonup> string) \<Rightarrow> string \<Rightarrow> cdouble \<Rightarrow> cdouble" where
  "double_or values key fallback = value_or (get_double values key) fallback"

definition int_or :: "(string \<rightharpoonup> string) \<Rightarrow> string \<Rightarrow> int \<Rightarrow> int" where
  "int_or values key fallback = value_or (get_int values key) fallback"

definition bool_or :: "(string \<rightharpoonup> string) \<Rightarrow> string \<Rightarrow> bool \<Rightarrow> bool" where
  "bool_or values key fallback = value_or (get_bool values key) fallback"

definition params_keys :: "(string \<times> 'v) list \<Rightarrow> string list" where
  "params_keys ps = map fst ps"

definition params_to_string :: "params \<Rightarrow> string" where
  "params_to_string ps =
     ''{'' @ snd (foldl (\<lambda>(first, out) (k, v). (False, out @ (if first then [] else '', '') @ k @ ''='' @ v)) (True, []) ps) @ ''}''"

section \<open>The bag is a finite map with sorted keys\<close>

definition params_inv :: "(string \<times> 'v) list \<Rightarrow> bool" where
  "params_inv ps \<longleftrightarrow> sorted_wrt (<) (map fst ps)"

lemma params_set_keys: "set (map fst (params_set ps k v)) = insert k (set (map fst ps))"
  by (induction ps k v rule: params_set.induct) auto

lemma params_set_inv: "params_inv ps \<Longrightarrow> params_inv (params_set ps k v)"
proof (induction ps k v rule: params_set.induct)
  case (2 k w ps key v)
  then show ?case
    using params_set_keys [of ps key v] by (auto simp: params_inv_def)
qed (simp add: params_inv_def)

lemma params_set_lookup: "params_inv ps \<Longrightarrow> map_of (params_set ps k v) = (map_of ps)(k \<mapsto> v)"
proof (induction ps k v rule: params_set.induct)
  case (2 k w ps key v)
  then show ?case by (auto simp: params_inv_def fun_eq_iff)
qed simp

lemma params_inv_distinct: "params_inv ps \<Longrightarrow> distinct (params_keys ps)"
  unfolding params_inv_def params_keys_def
  by (metis strict_sorted_iff)

text \<open>A bag filled by any sequence of \<^verbatim>\<open>set\<close> calls is sorted, has each key once and answers with the last value set.\<close>

lemma params_fill:
  "params_inv (fold (\<lambda>(k, v) ps. params_set ps k v) kvs []) \<and> map_of (fold (\<lambda>(k, v) ps. params_set ps k v) kvs []) = map_of (rev kvs)"
proof (induction kvs rule: rev_induct)
  case (snoc kv kvs)
  then show ?case by (cases kv) (simp add: params_set_inv params_set_lookup)
qed (simp add: params_inv_def)

section \<open>Integers round-trip through their text\<close>

definition int_to_string :: "int \<Rightarrow> string" where
  "int_to_string n = (if n < 0 then CHR ''-'' # uint_to_string (- n) else uint_to_string n)"

lemma from_chars_int_to_string: "in64 n \<Longrightarrow> from_chars_int (int_to_string n) = Some n"
proof (cases "n < 0")
  case True
  assume "in64 n"
  with True show ?thesis
    using uint_to_string_digits [of "- n"] by (simp add: from_chars_int_def int_to_string_def Let_def)
next
  case False
  assume "in64 n"
  moreover obtain c cs where u: "uint_to_string n = c # cs" "is_digit c"
    using uint_to_string_digits [of n] False by (cases "uint_to_string n") auto
  then have "c \<noteq> CHR ''-''" by (auto simp: is_digit_def)
  ultimately show ?thesis
    using uint_to_string_digits [of n] False u by (simp add: from_chars_int_def int_to_string_def Let_def)
qed

section \<open>Whole numbers are read exactly\<close>

lemma nearest_double_int:
  assumes "\<bar>n\<bar> < 2 ^ 53"
  shows "nearest_double (of_int n) = Some (of_int n)"
proof (cases "n = 0")
  case False
  have "(2::rat) powi (- 1022) \<le> 2 powi 0" by (rule two_powi_mono) simp
  moreover have "1 \<le> \<bar>n\<bar>" using False by simp
  then have "(1::rat) \<le> \<bar>of_int n\<bar>" by (metis of_int_1_le_iff of_int_abs)
  ultimately have lo: "\<not> \<bar>of_int n\<bar> < (2::rat) powi (- 1022)" by simp
  have "\<bar>of_int n\<bar> < (2::rat) ^ 53"
    by (metis assms of_int_abs of_int_less_iff of_int_numeral of_int_power)
  moreover have "(2::rat) ^ 53 \<le> 2 ^ 1024" by (rule power_increasing) simp_all
  ultimately have hi: "\<not> (2::rat) ^ 1024 \<le> \<bar>of_int n\<bar>" by linarith
  show ?thesis unfolding nearest_double_def fl_of_int [OF assms] using lo hi False by simp
qed (simp add: nearest_double_def)

end
