(* ===== verification/ExchangeTypes.thy ===== *)
theory ExchangeTypes
  imports Types
begin

text \<open>
  The exchange boundary: \<^verbatim>\<open>ExchangeTypes.hpp\<close>, \<^verbatim>\<open>ExchangeError.hpp\<close>, \<^verbatim>\<open>ExchangeCapabilities.hpp\<close> and
  \<^verbatim>\<open>OrderRequest.hpp\<close> with their implementations: order status, the market-data session machine, what a
  failure implies about an order's existence, and the validation of outbound requests.
\<close>

section \<open>Venue vocabulary\<close>

datatype OrderStatus =
    StUnknown | StNew | StPartiallyFilled | StFilled | StCanceled | StRejected | StExpired
  | StPendingCancel | StPendingReplace

definition status_is_terminal :: "OrderStatus \<Rightarrow> bool" where
  "status_is_terminal s \<longleftrightarrow> s = StFilled \<or> s = StCanceled \<or> s = StRejected \<or> s = StExpired"

definition may_still_trade :: "OrderStatus \<Rightarrow> bool" where
  "may_still_trade s \<longleftrightarrow> \<not> status_is_terminal s"

datatype CancelStatus = CsUnknown | CsAccepted | CsRejected | CsOrderNotFound | CsTooLate

datatype ExecutionType =
    XtUnknown | XtNew | XtTrade | XtCanceled | XtReplaced | XtRejected | XtExpired
  | XtPendingCancel | XtPendingReplace | XtRestated

datatype ConnectionState = CnDisconnected | CnConnecting | CnConnected | CnReconnecting | CnFailed

definition is_usable :: "ConnectionState \<Rightarrow> bool" where
  "is_usable s \<longleftrightarrow> s = CnConnected"

datatype SessionState =
    Disconnected | Connecting | Connected | Authenticated | Subscribed | Syncing | Ready | Stale
  | ResyncRequired | Backoff | Error

definition is_quotable :: "SessionState \<Rightarrow> bool" where
  "is_quotable s \<longleftrightarrow> s = Ready"

definition is_recovering :: "SessionState \<Rightarrow> bool" where
  "is_recovering s \<longleftrightarrow> s = Connecting \<or> s = Backoff \<or> s = Syncing \<or> s = ResyncRequired
     \<or> s = Subscribed \<or> s = Connected \<or> s = Authenticated"

definition session_legal_transition :: "SessionState \<Rightarrow> SessionState \<Rightarrow> bool" where
  "session_legal_transition from_st to_st =
     (if from_st = to_st then True
      else if to_st = Disconnected \<or> to_st = Error then True
      else if to_st = Backoff then from_st \<noteq> Disconnected \<and> from_st \<noteq> Error
      else (case from_st of
              Disconnected \<Rightarrow> to_st = Connecting
            | Connecting \<Rightarrow> to_st = Connected
            | Connected \<Rightarrow> to_st = Authenticated \<or> to_st = Subscribed
            | Authenticated \<Rightarrow> to_st = Subscribed
            | Subscribed \<Rightarrow> to_st = Syncing
            | Syncing \<Rightarrow> to_st = Ready \<or> to_st = ResyncRequired
            | Ready \<Rightarrow> to_st = Stale \<or> to_st = ResyncRequired
            | Stale \<Rightarrow> to_st = Ready \<or> to_st = ResyncRequired
            | ResyncRequired \<Rightarrow> to_st = Syncing
            | Backoff \<Rightarrow> to_st = Connecting
            | Error \<Rightarrow> False))"

datatype RequestOutcome = OutAcknowledged | OutRejected | OutUnknown | OutNotSent

definition requires_reconciliation :: "RequestOutcome \<Rightarrow> bool" where
  "requires_reconciliation o' \<longleftrightarrow> o' = OutUnknown"

definition is_definitively_absent :: "RequestOutcome \<Rightarrow> bool" where
  "is_definitively_absent o' \<longleftrightarrow> o' = OutRejected \<or> o' = OutNotSent"

section \<open>The failure model\<close>

datatype ExchangeErrorCategory =
    NoError | TransportErr | AuthenticationErr | InvalidRequestErr | RateLimitErr
  | ExchangeRejectionErr | TimeoutErr | ConnectionFailureErr | UnknownOrderStateErr
  | UnsupportedOperationErr | MalformedResponseErr

definition default_outcome_for :: "ExchangeErrorCategory \<Rightarrow> RequestOutcome" where
  "default_outcome_for c =
     (case c of
        NoError \<Rightarrow> OutAcknowledged
      | ExchangeRejectionErr \<Rightarrow> OutRejected
      | UnsupportedOperationErr \<Rightarrow> OutNotSent
      | ConnectionFailureErr \<Rightarrow> OutNotSent
      | _ \<Rightarrow> OutUnknown)"

definition is_consistent :: "ExchangeErrorCategory \<Rightarrow> RequestOutcome \<Rightarrow> bool" where
  "is_consistent category out =
     (if category = NoError then out = OutAcknowledged
      else if out = OutAcknowledged then False
      else (case category of
              TimeoutErr \<Rightarrow> out = OutUnknown
            | UnknownOrderStateErr \<Rightarrow> out = OutUnknown
            | MalformedResponseErr \<Rightarrow> out = OutUnknown
            | TransportErr \<Rightarrow> out = OutUnknown \<or> out = OutNotSent
            | ConnectionFailureErr \<Rightarrow> out = OutUnknown \<or> out = OutNotSent
            | AuthenticationErr \<Rightarrow> out = OutRejected \<or> out = OutNotSent \<or> out = OutUnknown
            | RateLimitErr \<Rightarrow> out = OutRejected \<or> out = OutNotSent \<or> out = OutUnknown
            | InvalidRequestErr \<Rightarrow> out = OutRejected \<or> out = OutNotSent \<or> out = OutUnknown
            | ExchangeRejectionErr \<Rightarrow> out = OutRejected
            | UnsupportedOperationErr \<Rightarrow> out = OutNotSent
            | NoError \<Rightarrow> False))"

definition safest_legal_outcome :: "ExchangeErrorCategory \<Rightarrow> RequestOutcome" where
  "safest_legal_outcome category =
     (if is_consistent category OutUnknown then OutUnknown else default_outcome_for category)"

text \<open>The error struct; the free-text \<open>detail\<close> is the only field left out.\<close>

record ExchangeError =
  ee_category :: ExchangeErrorCategory
  ee_outcome :: RequestOutcome
  ee_reason :: RejectReason
  ee_venue_code :: int
  ee_retryable :: bool

definition error_none :: ExchangeError where
  "error_none = \<lparr>ee_category = NoError, ee_outcome = OutUnknown, ee_reason = NoReason,
     ee_venue_code = 0, ee_retryable = False\<rparr>"

definition ee_is_error :: "ExchangeError \<Rightarrow> bool" where
  "ee_is_error e \<longleftrightarrow> ee_category e \<noteq> NoError"

definition make_error ::
  "ExchangeErrorCategory \<Rightarrow> RequestOutcome \<Rightarrow> RejectReason \<Rightarrow> int \<Rightarrow> bool \<Rightarrow> ExchangeError" where
  "make_error category out reason venue_code retryable =
     \<lparr>ee_category = category,
      ee_outcome = (if is_consistent category out then out else safest_legal_outcome category),
      ee_reason = reason, ee_venue_code = venue_code, ee_retryable = retryable\<rparr>"

definition from_category :: "ExchangeErrorCategory \<Rightarrow> ExchangeError" where
  "from_category category = make_error category (default_outcome_for category) NoReason 0 False"

section \<open>Capabilities and requests\<close>

record ExchangeCapabilities =
  cap_post_only :: bool
  cap_replace :: bool
  cap_reduce_only :: bool
  cap_client_order_id :: bool
  cap_mass_cancel :: bool
  cap_order_query :: bool
  cap_native_bbo :: bool
  cap_orderbook_snapshot :: bool
  cap_incremental_depth :: bool
  cap_trade_stream :: bool
  cap_balance_stream :: bool
  cap_position_stream :: bool
  cap_has_positions :: bool
  cap_max_client_order_id_len :: nat
  cap_max_subscriptions_per_connection :: nat
  cap_max_snapshot_depth :: nat

datatype Feature =
    FtNone | FtPostOnly | FtReplace | FtReduceOnly | FtClientOrderId | FtMassCancel | FtOrderQuery
  | FtNativeBbo | FtOrderbookSnapshot | FtIncrementalDepth | FtTradeStream | FtBalanceStream
  | FtPositionStream

definition supports :: "ExchangeCapabilities \<Rightarrow> Feature \<Rightarrow> bool" where
  "supports caps f =
     (case f of
        FtNone \<Rightarrow> True
      | FtPostOnly \<Rightarrow> cap_post_only caps
      | FtReplace \<Rightarrow> cap_replace caps
      | FtReduceOnly \<Rightarrow> cap_reduce_only caps
      | FtClientOrderId \<Rightarrow> cap_client_order_id caps
      | FtMassCancel \<Rightarrow> cap_mass_cancel caps
      | FtOrderQuery \<Rightarrow> cap_order_query caps
      | FtNativeBbo \<Rightarrow> cap_native_bbo caps
      | FtOrderbookSnapshot \<Rightarrow> cap_orderbook_snapshot caps
      | FtIncrementalDepth \<Rightarrow> cap_incremental_depth caps
      | FtTradeStream \<Rightarrow> cap_trade_stream caps
      | FtBalanceStream \<Rightarrow> cap_balance_stream caps
      | FtPositionStream \<Rightarrow> cap_position_stream caps)"

record OrderRequest =
  or_client_order_id :: string
  or_symbol :: string
  or_symbol_id :: symbol_id
  or_side :: Side
  or_type :: OrderType
  or_tif :: TimeInForce
  or_price :: px
  or_quantity :: qty
  or_post_only :: bool
  or_reduce_only :: bool
  or_trace :: nat
  or_created_ns :: nanos

definition is_post_only :: "OrderRequest \<Rightarrow> bool" where
  "is_post_only r \<longleftrightarrow> or_post_only r \<or> or_type r = LimitMaker"

definition requires_price :: "OrderRequest \<Rightarrow> bool" where
  "requires_price r \<longleftrightarrow> or_type r \<noteq> Market"

definition request_notional :: "OrderRequest \<Rightarrow> notional" where
  "request_notional r = notional_of (or_price r) (or_quantity r)"

record CancelRequest =
  cr_client_order_id :: string
  cr_exchange_order_id :: string
  cr_symbol :: string
  cr_symbol_id :: symbol_id
  cr_trace :: nat
  cr_created_ns :: nanos

definition identifies_an_order :: "CancelRequest \<Rightarrow> bool" where
  "identifies_an_order r \<longleftrightarrow> cr_client_order_id r \<noteq> [] \<or> cr_exchange_order_id r \<noteq> []"

record ReplaceRequest =
  rr_original_client_order_id :: string
  rr_original_exchange_order_id :: string
  rr_new_client_order_id :: string
  rr_symbol :: string
  rr_symbol_id :: symbol_id
  rr_new_price :: px
  rr_new_quantity :: qty
  rr_trace :: nat
  rr_created_ns :: nanos

definition invalid_request :: "RejectReason \<Rightarrow> ExchangeError" where
  "invalid_request reason = make_error InvalidRequestErr OutNotSent reason 0 False"

definition unsupported :: ExchangeError where
  "unsupported = make_error UnsupportedOperationErr OutNotSent NoReason 0 False"

definition validate_order :: "OrderRequest \<Rightarrow> InstrumentSpec \<Rightarrow> ExchangeCapabilities \<Rightarrow> ExchangeError" where
  "validate_order req spec caps =
     (if or_client_order_id req = [] then invalid_request UnknownReason
      else if length (or_client_order_id req) > cap_max_client_order_id_len caps
        then invalid_request UnknownReason
      else if or_symbol req = [] then invalid_request SymbolNotTrading
      else if \<not> spec_is_valid spec then invalid_request SymbolNotTrading
      else if or_symbol req \<noteq> is_symbol spec then invalid_request SymbolNotTrading
      else if is_status spec \<noteq> Trading then invalid_request SymbolNotTrading
      else if \<not> or_quantity req > 0 then invalid_request QuantityOutOfBounds
      else if \<not> is_on_step (or_quantity req) (is_lot_size spec) then invalid_request LotSizeViolation
      else if is_min_qty spec > 0 \<and> or_quantity req < is_min_qty spec
        then invalid_request QuantityOutOfBounds
      else if is_max_qty spec > 0 \<and> or_quantity req > is_max_qty spec
        then invalid_request QuantityOutOfBounds
      else if requires_price req \<and> \<not> or_price req > 0 then invalid_request PriceOutOfBounds
      else if requires_price req \<and> \<not> is_on_step (or_price req) (is_tick_size spec)
        then invalid_request TickSizeViolation
      else if requires_price req \<and> is_price_band_lo spec > 0 \<and> or_price req < is_price_band_lo spec
        then invalid_request PriceOutOfBounds
      else if requires_price req \<and> is_price_band_hi spec > 0 \<and> or_price req > is_price_band_hi spec
        then invalid_request PriceOutOfBounds
      else if requires_price req \<and> is_min_notional spec > 0 \<and> request_notional req < is_min_notional spec
        then invalid_request NotionalTooSmall
      else if \<not> requires_price req \<and> or_price req \<noteq> 0 then invalid_request PriceOutOfBounds
      else if or_type req = Market \<and> or_tif req = GTC then invalid_request UnknownReason
      else if is_post_only req \<and> or_type req = Market then invalid_request UnknownReason
      else if is_post_only req \<and> (or_tif req = IOC \<or> or_tif req = FOK) then invalid_request UnknownReason
      else if is_post_only req \<and> \<not> cap_post_only caps then unsupported
      else if or_reduce_only req \<and> \<not> cap_reduce_only caps then unsupported
      else if \<not> cap_client_order_id caps then unsupported
      else error_none)"

definition validate_cancel :: "CancelRequest \<Rightarrow> ExchangeCapabilities \<Rightarrow> ExchangeError" where
  "validate_cancel req caps =
     (if \<not> identifies_an_order req then invalid_request UnknownOrder
      else if cr_symbol req = [] then invalid_request SymbolNotTrading
      else if cr_exchange_order_id req = [] \<and> \<not> cap_client_order_id caps then unsupported
      else error_none)"

definition validate_replace ::
  "ReplaceRequest \<Rightarrow> InstrumentSpec \<Rightarrow> ExchangeCapabilities \<Rightarrow> ExchangeError" where
  "validate_replace req spec caps =
     (if \<not> cap_replace caps then unsupported
      else if rr_original_client_order_id req = [] \<and> rr_original_exchange_order_id req = []
        then invalid_request UnknownOrder
      else if rr_new_client_order_id req = [] then invalid_request UnknownReason
      else if rr_new_client_order_id req = rr_original_client_order_id req
        then invalid_request DuplicateClientOrderId
      else if length (rr_new_client_order_id req) > cap_max_client_order_id_len caps
        then invalid_request UnknownReason
      else if \<not> spec_is_valid spec then invalid_request SymbolNotTrading
      else if \<not> rr_new_quantity req > 0 then invalid_request QuantityOutOfBounds
      else if \<not> is_on_step (rr_new_quantity req) (is_lot_size spec) then invalid_request LotSizeViolation
      else if \<not> rr_new_price req > 0 then invalid_request PriceOutOfBounds
      else if \<not> is_on_step (rr_new_price req) (is_tick_size spec) then invalid_request TickSizeViolation
      else if is_min_notional spec > 0
          \<and> notional_of (rr_new_price req) (rr_new_quantity req) < is_min_notional spec
        then invalid_request NotionalTooSmall
      else error_none)"

section \<open>Lemmas\<close>

lemma make_error_consistent [simp]:
  "is_consistent (ee_category (make_error c out reason code retry)) (ee_outcome (make_error c out reason code retry))"
  by (cases c; cases out)
     (simp_all add: make_error_def safest_legal_outcome_def is_consistent_def default_outcome_for_def)

lemma make_error_category [simp]: "ee_category (make_error c out reason code retry) = c"
  by (simp add: make_error_def)

lemma ee_is_error_simps [simp]:
  "\<not> ee_is_error error_none"
  "ee_is_error (make_error c out reason code retry) \<longleftrightarrow> c \<noteq> NoError"
  "ee_is_error (invalid_request reason)"
  "ee_is_error unsupported"
  by (simp_all add: ee_is_error_def error_none_def invalid_request_def unsupported_def)

lemma refusal_outcome [simp]:
  "ee_outcome (invalid_request reason) = OutNotSent"
  "ee_outcome unsupported = OutNotSent"
  by (simp_all add: invalid_request_def unsupported_def make_error_def is_consistent_def)

text \<open>A chain of refusals is an error when one of its guards fires, and then it is \<open>NotSent\<close>.\<close>

lemma refusal_chain [simp]:
  "ee_is_error (if b then invalid_request reason else e) \<longleftrightarrow> b \<or> ee_is_error e"
  "ee_is_error (if b then unsupported else e) \<longleftrightarrow> b \<or> ee_is_error e"
  by simp_all

definition not_sent_or_ok :: "ExchangeError \<Rightarrow> bool" where
  "not_sent_or_ok e \<longleftrightarrow> \<not> ee_is_error e \<or> ee_outcome e = OutNotSent"

lemma not_sent_chain [simp]:
  "not_sent_or_ok (if b then x else e) \<longleftrightarrow> (if b then not_sent_or_ok x else not_sent_or_ok e)"
  "not_sent_or_ok (invalid_request reason)" "not_sent_or_ok unsupported" "not_sent_or_ok error_none"
  by (simp_all add: not_sent_or_ok_def)

lemma validate_not_sent:
  "not_sent_or_ok (validate_order req spec caps)"
  "not_sent_or_ok (validate_cancel creq caps)"
  "not_sent_or_ok (validate_replace rreq spec caps)"
  by (simp_all add: validate_order_def validate_cancel_def validate_replace_def cong: if_cong)

text \<open>Runs of the session machine: each reported state is a legal successor of the one before.\<close>

inductive session_run :: "SessionState \<Rightarrow> SessionState list \<Rightarrow> SessionState \<Rightarrow> bool" where
  run_start: "session_run s [] s"
| run_step: "session_run s visited t \<Longrightarrow> session_legal_transition t u
    \<Longrightarrow> session_run s (visited @ [t]) u"

inductive_cases session_run_NilE: "session_run s [] t"

lemma legal_into_Ready:
  "session_legal_transition t Ready \<longleftrightarrow> t = Syncing \<or> t = Stale \<or> t = Ready"
  by (cases t) (simp_all add: session_legal_transition_def)

lemma legal_into_Stale: "session_legal_transition t Stale \<longleftrightarrow> t = Ready \<or> t = Stale"
  by (cases t) (simp_all add: session_legal_transition_def)

lemma legal_from_Error:
  "session_legal_transition Error u \<longleftrightarrow> u = Error \<or> u = Disconnected"
  by (cases u) (simp_all add: session_legal_transition_def)

lemma session_run_live:
  "session_run s visited t \<Longrightarrow> s \<notin> {Syncing, Ready, Stale} \<Longrightarrow> t \<in> {Ready, Stale} \<Longrightarrow> Syncing \<in> set visited"
proof (induction rule: session_run.induct)
  case (run_start s)
  then show ?case by simp
next
  case (run_step s visited t u)
  then have "t = Syncing \<or> t \<in> {Ready, Stale}" by (auto simp: legal_into_Ready legal_into_Stale)
  with run_step show ?case by auto
qed

lemma session_run_error:
  "session_run s visited t \<Longrightarrow> s = Error \<Longrightarrow> t \<noteq> Error \<Longrightarrow> Disconnected \<in> set (visited @ [t])"
proof (induction rule: session_run.induct)
  case (run_start s)
  then show ?case by simp
next
  case (run_step s visited t u)
  then show ?case by (cases "t = Error") (auto simp: legal_from_Error)
qed

section \<open>Properties\<close>

text \<open>
  The unknown-state guarantee of the failure model: whatever category and outcome an adapter
  reports, \<open>ExchangeError::make\<close> yields a consistent pair; a legal pair is kept; a category in which the
  venue never spoke (timeout, transport, connection failure, unknown order state, malformed response)
  is never turned into a rejection; and an illegal pair is turned into a claim that the order is absent
  only for the two categories for which absence is the only legal outcome.
\<close>

theorem make_error_never_invents_absence:
  shows "is_consistent c (ee_outcome (make_error c out reason code retry))
    \<and> (is_consistent c out \<longrightarrow> ee_outcome (make_error c out reason code retry) = out)
    \<and> (c \<in> {TimeoutErr, TransportErr, ConnectionFailureErr, UnknownOrderStateErr, MalformedResponseErr}
        \<longrightarrow> ee_outcome (make_error c out reason code retry) \<noteq> OutRejected)
    \<and> (\<not> is_consistent c out \<and> is_definitively_absent (ee_outcome (make_error c out reason code retry))
        \<longrightarrow> c = ExchangeRejectionErr \<or> c = UnsupportedOperationErr)"
  by (cases c; cases out)
     (simp_all add: make_error_def safest_legal_outcome_def is_consistent_def default_outcome_for_def
        is_definitively_absent_def)

theorem make_error_never_invents_absence_witness:
  "\<not> is_consistent TimeoutErr OutRejected
    \<and> ee_outcome (make_error TimeoutErr OutRejected NoReason 0 False) \<noteq> OutRejected"
  using make_error_never_invents_absence [of TimeoutErr OutRejected NoReason 0 False]
  by (simp add: is_consistent_def)

text \<open>
  The market-data session machine cannot skip synchronisation: in every run of legal transitions
  that starts outside the synchronised states and reaches \<open>Ready\<close> (the only quotable state), \<open>Syncing\<close> was
  visited; and a run that starts in \<open>Error\<close> and leaves it goes through \<open>Disconnected\<close>, so an error never
  heals itself into a quotable state.
\<close>

theorem session_ready_needs_sync:
  assumes "session_run s visited t"
  shows "(s \<notin> {Syncing, Ready, Stale} \<and> is_quotable t \<longrightarrow> Syncing \<in> set visited)
    \<and> (s = Error \<and> t \<noteq> Error \<longrightarrow> Disconnected \<in> set (visited @ [t]))"
  using session_run_live [OF assms] session_run_error [OF assms] by (simp add: is_quotable_def)

theorem session_ready_needs_sync_witness:
  "session_run Disconnected [Disconnected, Connecting, Connected, Subscribed, Syncing] Ready
    \<and> Syncing \<in> set [Disconnected, Connecting, Connected, Subscribed, Syncing]"
proof -
  have "session_run Disconnected ([] @ [Disconnected]) Connecting"
    by (rule run_step, rule run_start) (simp add: session_legal_transition_def)
  then have "session_run Disconnected (([] @ [Disconnected]) @ [Connecting]) Connected"
    by (rule run_step) (simp add: session_legal_transition_def)
  then have "session_run Disconnected ((([] @ [Disconnected]) @ [Connecting]) @ [Connected]) Subscribed"
    by (rule run_step) (simp add: session_legal_transition_def)
  then have "session_run Disconnected (((([] @ [Disconnected]) @ [Connecting]) @ [Connected]) @ [Subscribed]) Syncing"
    by (rule run_step) (simp add: session_legal_transition_def)
  then have "session_run Disconnected ((((([] @ [Disconnected]) @ [Connecting]) @ [Connected]) @ [Subscribed]) @ [Syncing]) Ready"
    by (rule run_step) (simp add: session_legal_transition_def)
  then have run: "session_run Disconnected [Disconnected, Connecting, Connected, Subscribed, Syncing] Ready"
    by simp
  from session_ready_needs_sync [OF run] run show ?thesis by (simp add: is_quotable_def)
qed

text \<open>
  An order leaves the process only when the venue's rules allow it: \<open>validate_order\<close> accepts exactly
  the requests with a well-sized client id, the right tradable instrument, a positive quantity on the lot
  grid and inside the bounds, a positive price on the tick grid inside the band with enough notional
  (none at all for a market order), and a coherent type, time in force and capability set. Every refusal is
  an error whose outcome is \<open>NotSent\<close>, so there is never anything to reconcile.
\<close>

theorem validate_order_iff:
  "(\<not> ee_is_error (validate_order req spec caps) \<longleftrightarrow>
      or_client_order_id req \<noteq> [] \<and> length (or_client_order_id req) \<le> cap_max_client_order_id_len caps
    \<and> spec_is_valid spec \<and> or_symbol req = is_symbol spec \<and> is_status spec = Trading
    \<and> or_quantity req > 0 \<and> is_on_step (or_quantity req) (is_lot_size spec)
    \<and> (is_min_qty spec \<le> 0 \<or> is_min_qty spec \<le> or_quantity req)
    \<and> (is_max_qty spec \<le> 0 \<or> or_quantity req \<le> is_max_qty spec)
    \<and> (if or_type req = Market then or_price req = 0 \<and> or_tif req \<noteq> GTC \<and> \<not> or_post_only req
       else or_price req > 0 \<and> is_on_step (or_price req) (is_tick_size spec)
         \<and> (is_price_band_lo spec \<le> 0 \<or> is_price_band_lo spec \<le> or_price req)
         \<and> (is_price_band_hi spec \<le> 0 \<or> or_price req \<le> is_price_band_hi spec)
         \<and> (is_min_notional spec \<le> 0 \<or> is_min_notional spec \<le> request_notional req))
    \<and> (\<not> is_post_only req \<or> or_tif req \<in> {GTC, GTX} \<and> cap_post_only caps)
    \<and> (\<not> or_reduce_only req \<or> cap_reduce_only caps) \<and> cap_client_order_id caps)
   \<and> (\<not> ee_is_error (validate_order req spec caps) \<or> ee_outcome (validate_order req spec caps) = OutNotSent)"
  (is "(?accepted \<longleftrightarrow> ?rules) \<and> _")
proof -
  have sym: "spec_is_valid spec \<longrightarrow> or_symbol req = is_symbol spec \<longrightarrow> \<not> or_symbol req = []"
    by (auto simp: spec_is_valid_def)
  have tif: "or_tif req \<in> {GTC, GTX} \<longleftrightarrow> \<not> (or_tif req = IOC \<or> or_tif req = FOK)"
    by (cases "or_tif req") simp_all
  have post: "or_type req = Market \<longrightarrow> is_post_only req = or_post_only req" by (simp add: is_post_only_def)
  have price: "requires_price req \<longleftrightarrow> \<not> or_type req = Market" by (simp add: requires_price_def)
  have none: "\<not> ee_is_error error_none" by simp
  show ?thesis
  proof (rule conjI)
    show "?accepted \<longleftrightarrow> ?rules"
      unfolding tif validate_order_def refusal_chain price if_bool_eq_conj linorder_not_less [symmetric]
      using sym post none by satx
    show "?accepted \<or> ee_outcome (validate_order req spec caps) = OutNotSent"
      using validate_not_sent(1) by (simp add: not_sent_or_ok_def)
  qed
qed

theorem validate_order_iff_witness:
  "\<not> ee_is_error (validate_order
     \<lparr>or_client_order_id = ''mm-1'', or_symbol = ''BTCUSDT'', or_symbol_id = 0, or_side = Buy,
      or_type = LimitMaker, or_tif = GTX, or_price = 500, or_quantity = 30, or_post_only = True,
      or_reduce_only = False, or_trace = 0, or_created_ns = 0\<rparr>
     \<lparr>is_symbol = ''BTCUSDT'', is_id = 0, is_base = ''BTC'', is_quote = ''USDT'', is_tick_size = 5,
      is_lot_size = 10, is_min_qty = 20, is_max_qty = 0, is_min_notional = 0, is_price_band_lo = 0,
      is_price_band_hi = 0, is_status = Trading\<rparr>
     \<lparr>cap_post_only = True, cap_replace = False, cap_reduce_only = False, cap_client_order_id = True,
      cap_mass_cancel = False, cap_order_query = True, cap_native_bbo = False, cap_orderbook_snapshot = True,
      cap_incremental_depth = True, cap_trade_stream = True, cap_balance_stream = False,
      cap_position_stream = False, cap_has_positions = False, cap_max_client_order_id_len = 36,
      cap_max_subscriptions_per_connection = 0, cap_max_snapshot_depth = 0\<rparr>)"
  by (subst conjunct1 [OF validate_order_iff])
     (simp add: spec_is_valid_def is_on_step_dvd is_post_only_def)

end
