(* ===== verification/OrderAction.thy ===== *)
theory OrderAction
  imports ExchangeTypes
begin

text \<open>
  The vocabulary between strategy, quote manager, risk engine and order manager: \<^verbatim>\<open>QuoteTypes.hpp\<close>,
  \<^verbatim>\<open>OrderAction.hpp\<close> and the strategy identity of \<^verbatim>\<open>StrategyTypes.hpp\<close>.
\<close>

section \<open>Definitions\<close>

datatype QuoteSlot = Bid | Ask

definition slot_side :: "QuoteSlot \<Rightarrow> Side" where
  "slot_side slot = (if slot = Bid then Buy else Sell)"

definition slot_of :: "Side \<Rightarrow> QuoteSlot" where
  "slot_of side = (if side = Buy then Bid else Ask)"

definition kSlotCount :: nat where
  "kSlotCount = 2"

record QuoteOwner =
  qo_strategy :: string
  qo_slot :: QuoteSlot

definition no_owner :: QuoteOwner where
  "no_owner = \<lparr>qo_strategy = [], qo_slot = Bid\<rparr>"

definition is_managed :: "QuoteOwner \<Rightarrow> bool" where
  "is_managed o1 \<longleftrightarrow> qo_strategy o1 \<noteq> []"

definition owner_matches :: "QuoteOwner \<Rightarrow> string \<Rightarrow> QuoteSlot \<Rightarrow> bool" where
  "owner_matches o1 owner which \<longleftrightarrow> is_managed o1 \<and> qo_strategy o1 = owner \<and> qo_slot o1 = which"

datatype PendingOperation = PoNone | PoNew | PoCancel | PoReplace

datatype SlotOutcome =
    SoIdle | SoKeep | SoNew | SoCancel | SoReplace | SoCancelThenNew | SoAwaitingPending | SoFrozenUnknown
  | SoSuppressedByChurnControl | SoBlockedInvalid

datatype QuoteRejection =
    QrNone | QrGenerationRegression | QrIdentityMismatch | QrSymbolMismatch | QrIntentExpired
  | QrMarketDataStale | QrInstrumentNotLoaded | QrNotRunning

definition implies_withdraw :: "QuoteRejection \<Rightarrow> bool" where
  "implies_withdraw r \<longleftrightarrow> r = QrIntentExpired \<or> r = QrMarketDataStale \<or> r = QrNotRunning"

record StrategyIdentity =
  si_name :: string
  si_version :: int
  si_config_generation :: nat

definition identity_is_valid :: "StrategyIdentity \<Rightarrow> bool" where
  "identity_is_valid i \<longleftrightarrow> si_name i \<noteq> [] \<and> si_version i > 0"

definition no_identity :: StrategyIdentity where
  "no_identity = \<lparr>si_name = [], si_version = 0, si_config_generation = 0\<rparr>"

datatype OrderActionType = ActNoop | ActNew | ActCancel | ActReplace

datatype ActionReason =
    ArNone | ArNoQuoteResting | ArPriceChanged | ArQuantityChanged | ArPartialFillReplenish | ArQuoteDisabled
  | ArIntentExpired | ArMarketDataStale | ArStrategyNotRunning | ArOperatorDisabled | ArGenerationSuperseded
  | ArReplaceUnsupported

record OrderAction =
  oa_type :: OrderActionType
  oa_slot :: QuoteSlot
  oa_reason :: ActionReason
  oa_symbol :: string
  oa_symbol_id :: symbol_id
  oa_side :: Side
  oa_price :: px
  oa_quantity :: qty
  oa_target_client_order_id :: string
  oa_target_exchange_order_id :: string
  oa_identity :: StrategyIdentity
  oa_generation :: nat
  oa_market_sequence :: seq
  oa_issued_ns :: nanos
  oa_trace :: nat

definition default_action :: OrderAction where
  "default_action = \<lparr>oa_type = ActNoop, oa_slot = Bid, oa_reason = ArNone, oa_symbol = [],
     oa_symbol_id = kInvalidSymbolId, oa_side = Buy, oa_price = 0, oa_quantity = 0,
     oa_target_client_order_id = [], oa_target_exchange_order_id = [], oa_identity = no_identity,
     oa_generation = 0, oa_market_sequence = 0, oa_issued_ns = 0, oa_trace = 0\<rparr>"

definition is_noop :: "OrderAction \<Rightarrow> bool" where
  "is_noop a \<longleftrightarrow> oa_type a = ActNoop"

definition adds_exposure :: "OrderActionType \<Rightarrow> bool" where
  "adds_exposure t \<longleftrightarrow> t = ActNew \<or> t = ActReplace"

definition default_request :: OrderRequest where
  "default_request = \<lparr>or_client_order_id = [], or_symbol = [], or_symbol_id = kInvalidSymbolId, or_side = Buy,
     or_type = Limit, or_tif = GTC, or_price = 0, or_quantity = 0, or_post_only = False, or_reduce_only = False,
     or_trace = 0, or_created_ns = 0\<rparr>"

definition default_capabilities :: ExchangeCapabilities where
  "default_capabilities = \<lparr>cap_post_only = False, cap_replace = False, cap_reduce_only = False,
     cap_client_order_id = True, cap_mass_cancel = False, cap_order_query = True, cap_native_bbo = False,
     cap_orderbook_snapshot = True, cap_incremental_depth = True, cap_trade_stream = True,
     cap_balance_stream = False, cap_position_stream = False, cap_has_positions = False, cap_max_client_order_id_len = 36,
     cap_max_subscriptions_per_connection = 0, cap_max_snapshot_depth = 0\<rparr>"

section \<open>Lemmas\<close>

lemma slot_side_of [simp]: "slot_of (slot_side s) = s" "slot_side (slot_of d) = d"
  by (cases s; simp add: slot_of_def slot_side_def) (cases d; simp add: slot_of_def slot_side_def)

end
