(* ===== verification/ExecutionEvents.thy ===== *)
theory ExecutionEvents
  imports ExchangeTypes
begin

text \<open>
  Inbound events, \<^verbatim>\<open>ExecutionEvents.hpp\<close>, \<^verbatim>\<open>MarketDataEvents.hpp\<close> and \<^verbatim>\<open>Events.cpp\<close>. The tagged union
  \<open>ExecutionEvent\<close> is a datatype whose constructors carry the payload structs. The venue's transaction time
  and sequence number are fields where the order manager reads them; receive times and trace ids ride along in the
  source for logs only and are left out of the payloads.
\<close>

section \<open>Execution events\<close>

datatype RequestKind =
    RkNone | RkSubmit | RkCancel | RkReplace | RkQueryOrder | RkQueryOpenOrders | RkQueryBalances
  | RkQueryPositions | RkMassCancel

record OrderAckEvent =
  ack_client_order_id :: string
  ack_exchange_order_id :: string
  ack_symbol :: string
  ack_symbol_id :: symbol_id
  ack_side :: Side
  ack_type :: OrderType
  ack_tif :: TimeInForce
  ack_price :: px
  ack_original_qty :: qty
  ack_cumulative_qty :: qty
  ack_status :: OrderStatus
  ack_exec_type :: ExecutionType
  ack_transact_ns :: nanos
  ack_seq :: seq

record OrderRejectEvent =
  rej_client_order_id :: string
  rej_exchange_order_id :: string
  rej_symbol :: string
  rej_symbol_id :: symbol_id
  rej_error :: ExchangeError
  rej_transact_ns :: nanos
  rej_seq :: seq

record OrderCancelEvent =
  cxl_client_order_id :: string
  cxl_exchange_order_id :: string
  cxl_symbol :: string
  cxl_symbol_id :: symbol_id
  cxl_cancel_status :: CancelStatus
  cxl_order_status :: OrderStatus
  cxl_cumulative_qty :: qty
  cxl_leaves_qty :: qty
  cxl_error :: ExchangeError
  cxl_transact_ns :: nanos
  cxl_seq :: seq

record OrderReplaceEvent =
  rpl_original_client_order_id :: string
  rpl_new_client_order_id :: string
  rpl_original_exchange_order_id :: string
  rpl_new_exchange_order_id :: string
  rpl_symbol :: string
  rpl_symbol_id :: symbol_id
  rpl_accepted :: bool
  rpl_new_status :: OrderStatus
  rpl_new_price :: px
  rpl_new_qty :: qty
  rpl_cumulative_qty :: qty
  rpl_error :: ExchangeError
  rpl_transact_ns :: nanos
  rpl_seq :: seq

record FillEvent =
  fill_client_order_id :: string
  fill_exchange_order_id :: string
  fill_trade_id :: string
  fill_symbol :: string
  fill_symbol_id :: symbol_id
  fill_side :: Side
  fill_price :: px
  fill_quantity :: qty
  fill_cumulative_qty :: qty
  fill_leaves_qty :: qty
  fill_fee :: notional
  fill_fee_asset :: string
  fill_liquidity :: Liquidity
  fill_order_status :: OrderStatus
  fill_transact_ns :: nanos
  fill_seq :: seq

record BalanceUpdateEvent =
  bal_asset :: string
  bal_free :: qty
  bal_locked :: qty

record PositionUpdateEvent =
  pue_symbol :: string
  pue_symbol_id :: symbol_id
  pue_net_quantity :: qty
  pue_average_entry_price :: px
  pue_unrealized_pnl :: notional

record ConnectionEvent =
  con_venue :: string
  con_from :: ConnectionState
  con_to :: ConnectionState
  con_error :: ExchangeError
  con_reconnect_count :: nat

record RequestFailureEvent =
  rf_kind :: RequestKind
  rf_client_order_id :: string
  rf_exchange_order_id :: string
  rf_symbol :: string
  rf_symbol_id :: symbol_id
  rf_error :: ExchangeError

record OrderStatusReport =
  osr_client_order_id :: string
  osr_exchange_order_id :: string
  osr_symbol :: string
  osr_symbol_id :: symbol_id
  osr_side :: Side
  osr_type :: OrderType
  osr_tif :: TimeInForce
  osr_price :: px
  osr_original_qty :: qty
  osr_cumulative_qty :: qty
  osr_status :: OrderStatus

definition kMaxOrdersPerSnapshotEvent :: nat where
  "kMaxOrdersPerSnapshotEvent = 4"

record OpenOrdersSnapshotEvent =
  oos_orders :: "OrderStatusReport list"
  oos_count :: nat
  oos_is_first :: bool
  oos_is_last :: bool
  oos_symbol_filter :: string

datatype ExecutionEvent =
    EvNone
  | EvOrderAck OrderAckEvent
  | EvOrderReject OrderRejectEvent
  | EvOrderCancel OrderCancelEvent
  | EvOrderReplace OrderReplaceEvent
  | EvFill FillEvent
  | EvBalanceUpdate BalanceUpdateEvent
  | EvPositionUpdate PositionUpdateEvent
  | EvConnection ConnectionEvent
  | EvRequestFailure RequestFailureEvent
  | EvOpenOrdersSnapshot OpenOrdersSnapshotEvent
  | EvOrderStatus OrderStatusReport

definition event_client_order_id :: "ExecutionEvent \<Rightarrow> string" where
  "event_client_order_id ev =
     (case ev of
        EvOrderAck e \<Rightarrow> ack_client_order_id e
      | EvOrderReject e \<Rightarrow> rej_client_order_id e
      | EvOrderCancel e \<Rightarrow> cxl_client_order_id e
      | EvOrderReplace e \<Rightarrow> rpl_new_client_order_id e
      | EvFill e \<Rightarrow> fill_client_order_id e
      | EvRequestFailure e \<Rightarrow> rf_client_order_id e
      | EvOrderStatus e \<Rightarrow> osr_client_order_id e
      | _ \<Rightarrow> [])"

definition event_symbol :: "ExecutionEvent \<Rightarrow> string" where
  "event_symbol ev =
     (case ev of
        EvOrderAck e \<Rightarrow> ack_symbol e
      | EvOrderReject e \<Rightarrow> rej_symbol e
      | EvOrderCancel e \<Rightarrow> cxl_symbol e
      | EvOrderReplace e \<Rightarrow> rpl_symbol e
      | EvFill e \<Rightarrow> fill_symbol e
      | EvPositionUpdate e \<Rightarrow> pue_symbol e
      | EvRequestFailure e \<Rightarrow> rf_symbol e
      | EvOpenOrdersSnapshot e \<Rightarrow> oos_symbol_filter e
      | EvOrderStatus e \<Rightarrow> osr_symbol e
      | _ \<Rightarrow> [])"

definition event_outcome :: "ExecutionEvent \<Rightarrow> RequestOutcome" where
  "event_outcome ev =
     (case ev of
        EvOrderAck _ \<Rightarrow> OutAcknowledged
      | EvFill _ \<Rightarrow> OutAcknowledged
      | EvOrderStatus _ \<Rightarrow> OutAcknowledged
      | EvOrderReject _ \<Rightarrow> OutRejected
      | EvOrderCancel e \<Rightarrow> ee_outcome (cxl_error e)
      | EvOrderReplace e \<Rightarrow> ee_outcome (rpl_error e)
      | EvRequestFailure e \<Rightarrow> ee_outcome (rf_error e)
      | _ \<Rightarrow> OutAcknowledged)"

definition validate_execution_event :: "ExecutionEvent \<Rightarrow> ErrorCode" where
  "validate_execution_event ev =
     (case ev of
        EvNone \<Rightarrow> InvalidArgument
      | EvOrderAck e \<Rightarrow>
          (if ack_client_order_id e = [] then InvalidArgument
           else if \<not> ack_original_qty e > 0 then InvalidArgument
           else if ack_cumulative_qty e > ack_original_qty e then InvalidArgument
           else if ack_cumulative_qty e < 0 then InvalidArgument
           else Ok)
      | EvOrderReject e \<Rightarrow>
          (if rej_client_order_id e = [] then InvalidArgument
           else if ee_outcome (rej_error e) \<noteq> OutRejected then Internal
           else if \<not> ee_is_error (rej_error e) then InvalidArgument
           else Ok)
      | EvOrderCancel e \<Rightarrow>
          (if cxl_client_order_id e = [] \<and> cxl_exchange_order_id e = [] then InvalidArgument
           else if cxl_cumulative_qty e < 0 \<or> cxl_leaves_qty e < 0 then InvalidArgument
           else if cxl_cancel_status e = CsRejected \<and> status_is_terminal (cxl_order_status e)
               \<and> cxl_order_status e \<noteq> StFilled then Internal
           else if \<not> is_consistent (ee_category (cxl_error e)) (ee_outcome (cxl_error e)) then Internal
           else Ok)
      | EvOrderReplace e \<Rightarrow>
          (if rpl_new_client_order_id e = [] then InvalidArgument
           else if rpl_accepted e \<and> ee_is_error (rpl_error e) then Internal
           else if \<not> is_consistent (ee_category (rpl_error e)) (ee_outcome (rpl_error e)) then Internal
           else Ok)
      | EvFill e \<Rightarrow>
          (if fill_client_order_id e = [] then InvalidArgument
           else if fill_trade_id e = [] then InvalidArgument
           else if \<not> fill_quantity e > 0 then InvalidArgument
           else if \<not> fill_price e > 0 then InvalidArgument
           else if fill_cumulative_qty e < fill_quantity e then InvalidArgument
           else if fill_leaves_qty e < 0 then InvalidArgument
           else Ok)
      | EvBalanceUpdate e \<Rightarrow>
          (if bal_asset e = [] then InvalidArgument
           else if bal_free e < 0 \<or> bal_locked e < 0 then InvalidArgument
           else Ok)
      | EvPositionUpdate e \<Rightarrow> (if pue_symbol e = [] then InvalidArgument else Ok)
      | EvRequestFailure e \<Rightarrow>
          (if rf_kind e = RkNone then InvalidArgument
           else if \<not> ee_is_error (rf_error e) then InvalidArgument
           else if ee_outcome (rf_error e) = OutAcknowledged then Internal
           else if \<not> is_consistent (ee_category (rf_error e)) (ee_outcome (rf_error e)) then Internal
           else Ok)
      | EvOpenOrdersSnapshot e \<Rightarrow> (if oos_count e > kMaxOrdersPerSnapshotEvent then OutOfRange else Ok)
      | EvOrderStatus e \<Rightarrow>
          (if osr_client_order_id e = [] \<and> osr_exchange_order_id e = [] then InvalidArgument
           else if osr_cumulative_qty e > osr_original_qty e then InvalidArgument
           else Ok)
      | EvConnection _ \<Rightarrow> Ok)"

section \<open>Market-data events\<close>

definition kMaxLevelsPerEvent :: nat where
  "kMaxLevelsPerEvent = 16"

record PriceLevel =
  pl_price :: px
  pl_quantity :: qty

definition is_deletion :: "PriceLevel \<Rightarrow> bool" where
  "is_deletion l \<longleftrightarrow> pl_quantity l = 0"

record BookLevels =
  bl_bids :: "PriceLevel list"
  bl_asks :: "PriceLevel list"
  bl_bid_count :: nat
  bl_ask_count :: nat

definition counts_are_sane :: "BookLevels \<Rightarrow> bool" where
  "counts_are_sane b \<longleftrightarrow> bl_bid_count b \<le> kMaxLevelsPerEvent \<and> bl_ask_count b \<le> kMaxLevelsPerEvent"

record BookSnapshotEvent =
  bse_symbol :: string
  bse_symbol_id :: symbol_id
  bse_last_update_id :: seq
  bse_levels :: BookLevels
  bse_is_first :: bool
  bse_is_last :: bool

record BookUpdateEvent =
  bue_symbol :: string
  bue_symbol_id :: symbol_id
  bue_first_update_id :: seq
  bue_final_update_id :: seq
  bue_prev_final_update_id :: seq
  bue_levels :: BookLevels
  bue_is_last :: bool

record TradeEvent =
  te_symbol :: string
  te_symbol_id :: symbol_id
  te_price :: px
  te_quantity :: qty
  te_aggressor :: Side
  te_trade_id :: string

section \<open>Properties\<close>

text \<open>
  A certainty about an order is never forged: an execution event that passes
  \<open>validate_execution_event\<close> as a reject carries the venue's explicit rejection, one that passes as a
  request failure never claims success, and a category in which the venue never spoke is always
  reported as \<open>Unknown\<close> or \<open>NotSent\<close>, never as a rejection; a valid fill has a trade id, positive price and
  quantity, and a cumulative quantity that covers it.
\<close>

theorem validated_events_are_certain:
  assumes "is_ok (validate_execution_event ev)"
  shows "case ev of
      EvOrderReject e \<Rightarrow> event_outcome ev = OutRejected \<and> ee_outcome (rej_error e) = OutRejected
        \<and> ee_is_error (rej_error e)
    | EvRequestFailure e \<Rightarrow> event_outcome ev \<noteq> OutAcknowledged
        \<and> (ee_category (rf_error e) \<in> {TimeoutErr, UnknownOrderStateErr, MalformedResponseErr}
             \<longrightarrow> requires_reconciliation (event_outcome ev))
        \<and> (ee_category (rf_error e) \<in> {TransportErr, ConnectionFailureErr}
             \<longrightarrow> event_outcome ev \<noteq> OutRejected)
    | EvOrderCancel e \<Rightarrow> cxl_cancel_status e = CsRejected
        \<longrightarrow> may_still_trade (cxl_order_status e) \<or> cxl_order_status e = StFilled
    | EvFill e \<Rightarrow> fill_trade_id e \<noteq> [] \<and> fill_quantity e > 0 \<and> fill_price e > 0
        \<and> fill_cumulative_qty e \<ge> fill_quantity e \<and> event_outcome ev = OutAcknowledged
    | EvNone \<Rightarrow> False
    | _ \<Rightarrow> True"
proof (cases ev)
  case (EvRequestFailure e)
  with assms show ?thesis
    by (cases "ee_category (rf_error e)"; cases "ee_outcome (rf_error e)")
       (simp_all add: validate_execution_event_def event_outcome_def is_ok_def ee_is_error_def
          is_consistent_def requires_reconciliation_def split: if_splits)
qed (use assms in \<open>auto simp: validate_execution_event_def event_outcome_def is_ok_def may_still_trade_def
        split: if_splits\<close>)

theorem validated_events_are_certain_witness:
  "is_ok (validate_execution_event (EvRequestFailure \<lparr>rf_kind = RkSubmit, rf_client_order_id = ''a'',
       rf_exchange_order_id = [], rf_symbol = ''X'', rf_symbol_id = 0,
       rf_error = from_category TimeoutErr\<rparr>))
   \<and> requires_reconciliation (event_outcome (EvRequestFailure \<lparr>rf_kind = RkSubmit, rf_client_order_id = ''a'',
       rf_exchange_order_id = [], rf_symbol = ''X'', rf_symbol_id = 0,
       rf_error = from_category TimeoutErr\<rparr>))"
  (is "is_ok (validate_execution_event ?ev) \<and> _")
proof -
  have h: "is_ok (validate_execution_event ?ev)"
    by (simp add: validate_execution_event_def from_category_def make_error_def default_outcome_for_def
        is_consistent_def ee_is_error_def)
  from validated_events_are_certain [OF h] h show ?thesis
    by (simp add: from_category_def)
qed

text \<open>
  \<open>ExchangeError::none()\<close> is not a consistent success: its outcome is \<open>Unknown\<close> while \<open>is_consistent\<close>
  asks a non-error to be \<open>Acknowledged\<close>, so a cancel confirmation (and likewise a replace confirmation)
  that carries it is refused by \<open>validate_execution_event\<close> as an internal error.
\<close>

theorem error_none_is_refused:
  "validate_execution_event (EvOrderCancel \<lparr>cxl_client_order_id = ''mm-1'', cxl_exchange_order_id = ''7'',
      cxl_symbol = ''BTCUSDT'', cxl_symbol_id = 0, cxl_cancel_status = CsAccepted,
      cxl_order_status = StCanceled, cxl_cumulative_qty = 0, cxl_leaves_qty = 0,
      cxl_error = error_none, cxl_transact_ns = 0, cxl_seq = 0\<rparr>) = Internal"
  by (simp add: validate_execution_event_def error_none_def is_consistent_def)

end
