(* ===== verification/StrategyTypes.thy ===== *)
theory StrategyTypes
  imports OrderAction ExecutionEvents Double
begin

text \<open>
  The strategy boundary: \<^verbatim>\<open>StrategyTypes.hpp\<close>, \<^verbatim>\<open>QuoteIntent.hpp\<close> and \<^verbatim>\<open>StrategyContext.hpp\<close>. A depth view is the pair
  of level lists it points at; the null pointers of an empty view are the empty lists.
\<close>

section \<open>Life cycle and triggers\<close>

datatype StrategyState = SsCreated | SsInitialized | SsRunning | SsPaused | SsStopped | SsFaulted

definition is_evaluable :: "StrategyState \<Rightarrow> bool" where
  "is_evaluable s \<longleftrightarrow> s = SsRunning"

definition needs_operator_action :: "StrategyState \<Rightarrow> bool" where
  "needs_operator_action s \<longleftrightarrow> s = SsFaulted"

definition strategy_legal_transition :: "StrategyState \<Rightarrow> StrategyState \<Rightarrow> bool" where
  "strategy_legal_transition from_st to_st =
     (if from_st = to_st then True
      else if to_st = SsFaulted then True
      else case from_st of
             SsCreated \<Rightarrow> to_st = SsInitialized
           | SsInitialized \<Rightarrow> to_st = SsRunning \<or> to_st = SsStopped
           | SsRunning \<Rightarrow> to_st = SsPaused \<or> to_st = SsStopped
           | SsPaused \<Rightarrow> to_st = SsRunning \<or> to_st = SsStopped
           | SsStopped \<Rightarrow> to_st = SsInitialized
           | SsFaulted \<Rightarrow> to_st = SsInitialized)"

datatype EvaluationMode = OnBookUpdate | OnBboChange | OnTimer | OnBboChangeAndTimer

definition evaluation_mode_text :: "EvaluationMode \<Rightarrow> string" where
  "evaluation_mode_text m =
     (case m of OnBookUpdate \<Rightarrow> ''on_book_update'' | OnBboChange \<Rightarrow> ''on_bbo_change'' | OnTimer \<Rightarrow> ''on_timer''
      | OnBboChangeAndTimer \<Rightarrow> ''on_bbo_change_and_timer'')"

definition parse_evaluation_mode :: "string \<Rightarrow> EvaluationMode option" where
  "parse_evaluation_mode txt =
     (if txt = ''on_book_update'' then Some OnBookUpdate
      else if txt = ''on_bbo_change'' then Some OnBboChange
      else if txt = ''on_timer'' then Some OnTimer
      else if txt = ''on_bbo_change_and_timer'' then Some OnBboChangeAndTimer
      else None)"

datatype TriggerReason = TrNone | TrBookUpdate | TrBboChange | TrTrade | TrTimer | TrInventoryChange | TrOrderStateChange

definition mode_accepts :: "EvaluationMode \<Rightarrow> TriggerReason \<Rightarrow> bool" where
  "mode_accepts m r =
     (case m of
        OnBookUpdate \<Rightarrow> r = TrBookUpdate \<or> r = TrBboChange
      | OnBboChange \<Rightarrow> r = TrBboChange
      | OnTimer \<Rightarrow> r = TrTimer
      | OnBboChangeAndTimer \<Rightarrow> r = TrBboChange \<or> r = TrTimer)"

section \<open>Intents\<close>

datatype QuoteAction = QaQuote | QaPull | QaNoChange

datatype IntentReason =
    InNone | InNormal | InInventoryLimit | InSpreadTooTight | InSpreadTooWide | InInsufficientDepth | InWarmup
  | InStrategyDisabled | InCustom

record QuoteIntent =
  qi_action :: QuoteAction
  qi_quote_bid :: bool
  qi_quote_ask :: bool
  qi_bid_price :: px
  qi_ask_price :: px
  qi_bid_quantity :: qty
  qi_ask_quantity :: qty
  qi_reason :: IntentReason
  qi_identity :: StrategyIdentity
  qi_generation :: nat
  qi_market_sequence :: seq
  qi_computed_ns :: nanos
  qi_trace :: nat

definition default_intent :: QuoteIntent where
  "default_intent = \<lparr>qi_action = QaPull, qi_quote_bid = False, qi_quote_ask = False, qi_bid_price = 0,
     qi_ask_price = 0, qi_bid_quantity = 0, qi_ask_quantity = 0, qi_reason = InNone, qi_identity = no_identity,
     qi_generation = 0, qi_market_sequence = 0, qi_computed_ns = 0, qi_trace = 0\<rparr>"

definition pull_intent :: "IntentReason \<Rightarrow> QuoteIntent" where
  "pull_intent reason = default_intent\<lparr>qi_action := QaPull, qi_reason := reason\<rparr>"

definition no_change_intent :: QuoteIntent where
  "no_change_intent = default_intent\<lparr>qi_action := QaNoChange, qi_reason := InNormal\<rparr>"

definition wants_quotes :: "QuoteIntent \<Rightarrow> bool" where
  "wants_quotes i \<longleftrightarrow> qi_action i = QaQuote \<and> (qi_quote_bid i \<or> qi_quote_ask i)"

datatype IntentRejection =
    IrNone | IrUnknownAction | IrNonPositivePrice | IrNonPositiveQuantity | IrNegativeQuantity | IrTickMisaligned
  | IrLotMisaligned | IrNotionalTooSmall | IrQuantityAboveVenueMax | IrCrossedQuote | IrQuoteTooFarFromTouch
  | IrStaleSequence | IrIdentityMissing | IrIdentityMismatch | IrSymbolMismatch | IrInstrumentNotLoaded

record IntentLimits =
  il_max_distance_from_touch_bps :: int
  il_require_matching_sequence :: bool

section \<open>Context\<close>

record BookDepthView =
  dv_bids :: "PriceLevel list"
  dv_asks :: "PriceLevel list"

definition view_side :: "BookDepthView \<Rightarrow> Side \<Rightarrow> PriceLevel list" where
  "view_side v side = (if side = Buy then dv_bids v else dv_asks v)"

definition view_depth :: "BookDepthView \<Rightarrow> Side \<Rightarrow> nat" where
  "view_depth v side = length (view_side v side)"

definition view_level :: "BookDepthView \<Rightarrow> Side \<Rightarrow> nat \<Rightarrow> PriceLevel" where
  "view_level v side index =
     (if index \<ge> view_depth v side then \<lparr>pl_price = 0, pl_quantity = 0\<rparr> else view_side v side ! index)"

definition view_cumulative_qty :: "BookDepthView \<Rightarrow> Side \<Rightarrow> nat \<Rightarrow> qty" where
  "view_cumulative_qty v side levels =
     foldl (\<lambda>total i. fx_add total (pl_quantity (view_side v side ! i))) 0
       [0..<(if levels < view_depth v side then levels else view_depth v side)]"

definition view_empty :: "BookDepthView \<Rightarrow> bool" where
  "view_empty v \<longleftrightarrow> length (dv_bids v) = 0 \<and> length (dv_asks v) = 0"

record WorkingQuote =
  wk_active :: bool
  wk_price :: px
  wk_quantity :: qty
  wk_filled_quantity :: qty
  wk_in_transition :: bool

record InventoryView =
  iv_position :: qty
  iv_position_limit :: qty
  iv_notional_exposure :: notional

definition headroom :: "InventoryView \<Rightarrow> Side \<Rightarrow> qty" where
  "headroom v side =
     (if \<not> iv_position_limit v > 0 then 0
      else let room = (if side = Buy then fx_sub (iv_position_limit v) (iv_position v)
                       else fx_add (iv_position_limit v) (iv_position v))
           in if room > 0 then room else 0)"

definition utilisation :: "InventoryView \<Rightarrow> rat" where
  "utilisation v =
     (if \<not> iv_position_limit v > 0 then 0 else ddiv (of_int64 (iv_position v)) (of_int64 (iv_position_limit v)))"

record StrategyContext =
  sc_symbol :: string
  sc_symbol_id :: symbol_id
  sc_bbo :: BestBidAsk
  sc_depth :: BookDepthView
  sc_sequence :: seq
  sc_exchange_ns :: nanos
  sc_recv_ns :: nanos
  sc_now_ns :: nanos
  sc_data_age_ns :: nanos
  sc_instrument :: "InstrumentSpec option"
  sc_session_state :: SessionState
  sc_inventory :: InventoryView
  sc_working_bid :: WorkingQuote
  sc_working_ask :: WorkingQuote
  sc_trigger :: TriggerReason
  sc_quoting_enabled :: bool
  sc_config_generation :: nat

definition has_two_sided_market :: "StrategyContext \<Rightarrow> bool" where
  "has_two_sided_market c \<longleftrightarrow> is_sane (sc_bbo c)"

definition is_book_quotable :: "StrategyContext \<Rightarrow> bool" where
  "is_book_quotable c \<longleftrightarrow> is_quotable (sc_session_state c)"

record StrategyFill =
  sf_symbol :: string
  sf_side :: Side
  sf_price :: px
  sf_quantity :: qty
  sf_liquidity :: Liquidity
  sf_resulting_position :: qty
  sf_recv_ns :: nanos
  sf_trace :: nat

datatype QuoteLifecycle = QlNone | QlPlaced | QlAmended | QlCancelled | QlRejected | QlUnknown

record StrategyOrderEvent =
  sv_symbol :: string
  sv_side :: Side
  sv_event :: QuoteLifecycle
  sv_price :: px
  sv_remaining_quantity :: qty
  sv_recv_ns :: nanos
  sv_trace :: nat

section \<open>Lemmas\<close>

lemma parse_evaluation_mode_text: "parse_evaluation_mode (evaluation_mode_text m) = Some m"
  by (cases m) (simp_all add: parse_evaluation_mode_def evaluation_mode_text_def)

text \<open>An instrument for the concrete examples.\<close>

definition demo_instrument :: InstrumentSpec where
  "demo_instrument = \<lparr>is_symbol = ''BTC'', is_id = 0, is_base = ''BTC'', is_quote = ''USDT'', is_tick_size = 1,
     is_lot_size = 10, is_min_qty = 0, is_max_qty = 0, is_min_notional = 0, is_price_band_lo = 0, is_price_band_hi = 0,
     is_status = Trading\<rparr>"

end
