(* ===== verification/StrategyRuntime.thy ===== *)
theory StrategyRuntime
  imports StrategyTypes
begin

text \<open>
  The container a strategy runs in, \<^verbatim>\<open>StrategyRuntime.hpp\<close> and \<^verbatim>\<open>StrategyRuntime.cpp\<close>. The strategy is a plug-in: a
  record of functions over a state of any type, each of which returns a value or throws. Clock readings are arguments;
  the latency histogram is left out.
\<close>

section \<open>The plug-in contract\<close>

datatype 'a outcome = Returned 'a | ThrewStd string | ThrewOther

record StrategyInit =
  in_symbol :: string
  in_instrument :: InstrumentSpec
  in_params :: "string \<rightharpoonup> string"
  in_identity :: StrategyIdentity

record 's IStrategy =
  is_initialize :: "'s \<Rightarrow> StrategyInit \<Rightarrow> 's \<times> ErrorCode outcome"
  is_on_market_update :: "'s \<Rightarrow> StrategyContext \<Rightarrow> 's \<times> QuoteIntent outcome"
  is_on_timer :: "'s \<Rightarrow> StrategyContext \<Rightarrow> 's \<times> QuoteIntent outcome"
  is_on_fill :: "'s \<Rightarrow> StrategyFill \<Rightarrow> 's \<times> unit outcome"
  is_on_order_event :: "'s \<Rightarrow> StrategyOrderEvent \<Rightarrow> 's \<times> unit outcome"
  is_reset :: "'s \<Rightarrow> 's \<times> unit outcome"
  is_identity :: "'s \<Rightarrow> StrategyIdentity"

section \<open>Data\<close>

datatype SkipReason =
    SkNone | SkNotInitialized | SkPaused | SkStopped | SkFaulted | SkBookNotQuotable | SkMarketDataStale
  | SkNoTwoSidedMarket | SkInstrumentNotLoaded | SkTriggerNotWanted | SkQuotingDisabled

record StrategyRuntimeConfig =
  rtc_enabled :: bool
  rtc_quoting_enabled :: bool
  rtc_evaluation_mode :: EvaluationMode
  rtc_max_evaluation_latency_ns :: nanos
  rtc_max_consecutive_budget_violations :: int
  rtc_max_consecutive_invalid_outputs :: int
  rtc_max_data_age_ns :: nanos
  rtc_limits :: IntentLimits

record EvaluationResult =
  er_accepted :: bool
  er_intent :: QuoteIntent
  er_skip :: SkipReason
  er_rejection :: IntentRejection
  er_evaluation_ns :: nanos

definition no_evaluation :: EvaluationResult where
  "no_evaluation = \<lparr>er_accepted = False, er_intent = default_intent, er_skip = SkNone, er_rejection = IrNone,
     er_evaluation_ns = 0\<rparr>"

datatype StrategyMetric =
    SmEvaluations | SmSkipped | SmIntentsAccepted | SmIntentsRejected | SmQuoteIntents | SmPullIntents
  | SmExceptions | SmBudgetViolations

record 's StrategyRuntime =
  rt_config :: StrategyRuntimeConfig
  rt_strategy :: "'s option"
  rt_state :: StrategyState
  rt_identity :: StrategyIdentity
  rt_instrument :: "InstrumentSpec option"
  rt_generation :: nat
  rt_consecutive_budget_violations :: int
  rt_consecutive_invalid_outputs :: int
  rt_fault_reason :: string
  rt_metrics :: "StrategyMetric counters"
  rt_max_evaluation_ns :: nanos
  rt_skips_by_reason :: "SkipReason counters"
  rt_rejections_by_cause :: "IntentRejection counters"

definition new_runtime :: "StrategyRuntimeConfig \<Rightarrow> 's option \<Rightarrow> 's StrategyRuntime" where
  "new_runtime config strategy = \<lparr>rt_config = config, rt_strategy = strategy, rt_state = SsCreated,
     rt_identity = no_identity, rt_instrument = None, rt_generation = 0, rt_consecutive_budget_violations = 0,
     rt_consecutive_invalid_outputs = 0, rt_fault_reason = [], rt_metrics = zero_counters, rt_max_evaluation_ns = 0,
     rt_skips_by_reason = zero_counters, rt_rejections_by_cause = zero_counters\<rparr>"

section \<open>Validation\<close>

definition touch_distance_bps :: "px \<Rightarrow> px \<Rightarrow> rat" where
  "touch_distance_bps price reference =
     (if \<not> reference > 0 then 0
      else ddiv (dmul 10000 (of_int64 (wrap64 (price - reference)))) (of_int64 reference))"

definition validate_side :: "px \<Rightarrow> qty \<Rightarrow> InstrumentSpec \<Rightarrow> px \<Rightarrow> IntentLimits \<Rightarrow> IntentRejection" where
  "validate_side price quantity spec touch limits =
     (if \<not> price > 0 then IrNonPositivePrice
      else if quantity < 0 then IrNegativeQuantity
      else if \<not> quantity > 0 then IrNonPositiveQuantity
      else if \<not> is_on_step price (is_tick_size spec) then IrTickMisaligned
      else if \<not> is_on_step quantity (is_lot_size spec) then IrLotMisaligned
      else if is_max_qty spec > 0 \<and> quantity > is_max_qty spec then IrQuantityAboveVenueMax
      else if is_min_notional spec > 0 \<and> notional_of price quantity < is_min_notional spec then IrNotionalTooSmall
      else if il_max_distance_from_touch_bps limits > 0 \<and> touch > 0
          \<and> (let away = touch_distance_bps price touch; magnitude = (if away < 0 then - away else away)
             in magnitude > of_int64 (il_max_distance_from_touch_bps limits)) then IrQuoteTooFarFromTouch
      else IrNone)"

definition validate_sides :: "QuoteIntent \<Rightarrow> StrategyContext \<Rightarrow> InstrumentSpec \<Rightarrow> IntentLimits \<Rightarrow> IntentRejection" where
  "validate_sides intent context spec limits =
     (let bid = (if qi_quote_bid intent
                 then validate_side (qi_bid_price intent) (qi_bid_quantity intent) spec (bba_bid_px (sc_bbo context)) limits
                 else IrNone);
          ask = (if qi_quote_ask intent
                 then validate_side (qi_ask_price intent) (qi_ask_quantity intent) spec (bba_ask_px (sc_bbo context)) limits
                 else IrNone)
      in if bid \<noteq> IrNone then bid
         else if ask \<noteq> IrNone then ask
         else if qi_quote_bid intent \<and> qi_quote_ask intent \<and> qi_bid_price intent \<ge> qi_ask_price intent
           then IrCrossedQuote
         else IrNone)"

definition validate_intent ::
  "QuoteIntent \<Rightarrow> StrategyContext \<Rightarrow> StrategyIdentity \<Rightarrow> IntentLimits \<Rightarrow> IntentRejection" where
  "validate_intent intent context expected limits =
     (if qi_action intent = QaPull \<or> qi_action intent = QaNoChange then IrNone
      else if qi_action intent \<noteq> QaQuote then IrUnknownAction
      else if \<not> identity_is_valid (qi_identity intent) then IrIdentityMissing
      else if si_name (qi_identity intent) \<noteq> si_name expected \<or> si_version (qi_identity intent) \<noteq> si_version expected
        then IrIdentityMismatch
      else if il_require_matching_sequence limits \<and> qi_market_sequence intent \<noteq> sc_sequence context then IrStaleSequence
      else case sc_instrument context of
             None \<Rightarrow> IrInstrumentNotLoaded
           | Some spec \<Rightarrow>
               if \<not> spec_is_valid spec then IrInstrumentNotLoaded
               else if \<not> qi_quote_bid intent \<and> \<not> qi_quote_ask intent then IrUnknownAction
               else validate_sides intent context spec limits)"

section \<open>Life cycle\<close>

definition rt_count :: "StrategyMetric \<Rightarrow> 's StrategyRuntime \<Rightarrow> 's StrategyRuntime" where
  "rt_count m r = r\<lparr>rt_metrics := bump (rt_metrics r) m\<rparr>"

definition rt_transition :: "StrategyState \<Rightarrow> 's StrategyRuntime \<Rightarrow> 's StrategyRuntime" where
  "rt_transition to_st r = (if strategy_legal_transition (rt_state r) to_st then r\<lparr>rt_state := to_st\<rparr> else r)"

definition rt_fault :: "string \<Rightarrow> 's StrategyRuntime \<Rightarrow> 's StrategyRuntime" where
  "rt_fault reason r = r\<lparr>rt_state := SsFaulted, rt_fault_reason := fst (inline_assign 160 reason)\<rparr>"

definition skipped :: "nanos \<Rightarrow> SkipReason \<Rightarrow> 's StrategyRuntime \<Rightarrow> 's StrategyRuntime \<times> EvaluationResult" where
  "skipped now reason r =
     (let r1 = rt_count SmSkipped (r\<lparr>rt_skips_by_reason := bump (rt_skips_by_reason r) reason\<rparr>);
          g = inc64 (rt_generation r1)
      in (r1\<lparr>rt_generation := g\<rparr>,
          no_evaluation\<lparr>er_skip := reason,
            er_intent := (pull_intent InNormal)\<lparr>qi_identity := rt_identity r1, qi_generation := g, qi_computed_ns := now\<rparr>\<rparr>))"

definition rt_initialize ::
  "'s IStrategy \<Rightarrow> StrategyInit \<Rightarrow> 's StrategyRuntime \<Rightarrow> 's StrategyRuntime \<times> ErrorCode" where
  "rt_initialize plug init r =
     (case rt_strategy r of
        None \<Rightarrow> (r, FailedPrecondition)
      | Some st \<Rightarrow>
          if \<not> identity_is_valid (in_identity init) then (r, InvalidArgument)
          else if si_name (is_identity plug st) \<noteq> si_name (in_identity init)
              \<or> si_version (is_identity plug st) \<noteq> si_version (in_identity init) then (r, FailedPrecondition)
          else if \<not> spec_is_valid (in_instrument init) then (r, FailedPrecondition)
          else case is_initialize plug st init of
                 (st1, ThrewStd what) \<Rightarrow>
                   (rt_count SmExceptions (rt_fault (''initialize threw: '' @ what) (r\<lparr>rt_strategy := Some st1\<rparr>)), Internal)
               | (st1, ThrewOther) \<Rightarrow>
                   (rt_count SmExceptions
                      (rt_fault ''initialize threw a non-standard exception'' (r\<lparr>rt_strategy := Some st1\<rparr>)), Internal)
               | (st1, Returned code) \<Rightarrow>
                   if is_err code then (r\<lparr>rt_strategy := Some st1\<rparr>, code)
                   else (r\<lparr>rt_strategy := Some st1, rt_identity := in_identity init,
                           rt_instrument := Some (in_instrument init), rt_consecutive_budget_violations := 0,
                           rt_consecutive_invalid_outputs := 0, rt_fault_reason := [], rt_state := SsInitialized\<rparr>, Ok))"

definition rt_start :: "'s StrategyRuntime \<Rightarrow> 's StrategyRuntime" where
  "rt_start r = rt_transition SsRunning r"

definition rt_pause :: "'s StrategyRuntime \<Rightarrow> 's StrategyRuntime" where
  "rt_pause r = rt_transition SsPaused r"

definition rt_resume :: "'s StrategyRuntime \<Rightarrow> 's StrategyRuntime" where
  "rt_resume r = rt_transition SsRunning r"

definition rt_stop :: "'s StrategyRuntime \<Rightarrow> 's StrategyRuntime" where
  "rt_stop r = rt_transition SsStopped r"

definition threw :: "'a outcome \<Rightarrow> bool" where
  "threw x \<longleftrightarrow> (case x of Returned _ \<Rightarrow> False | _ \<Rightarrow> True)"

definition reset_strategy :: "'s IStrategy \<Rightarrow> 's StrategyRuntime \<Rightarrow> 's StrategyRuntime" where
  "reset_strategy plug r =
     (case rt_strategy r of
        None \<Rightarrow> r
      | Some st \<Rightarrow>
          (let (st1, done) = is_reset plug st; r1 = r\<lparr>rt_strategy := Some st1\<rparr>;
               r2 = (if threw done then rt_fault ''reset threw'' (rt_count SmExceptions r1) else r1)
           in r2\<lparr>rt_consecutive_invalid_outputs := 0\<rparr>))"

definition clear_fault :: "'s IStrategy \<Rightarrow> 's StrategyRuntime \<Rightarrow> 's StrategyRuntime \<times> ErrorCode" where
  "clear_fault plug r =
     (if rt_state r \<noteq> SsFaulted then (r, FailedPrecondition)
      else
        let r1 = reset_strategy plug (r\<lparr>rt_state := SsInitialized, rt_fault_reason := []\<rparr>)
        in if rt_state r1 = SsFaulted then (r1, Internal)
           else (r1\<lparr>rt_consecutive_budget_violations := 0, rt_consecutive_invalid_outputs := 0\<rparr>, Ok))"

section \<open>Evaluation\<close>

definition rt_gate :: "'s StrategyRuntime \<Rightarrow> StrategyContext \<Rightarrow> SkipReason" where
  "rt_gate r context =
     (if \<not> rtc_enabled (rt_config r) then SkQuotingDisabled
      else case rt_state r of
             SsCreated \<Rightarrow> SkNotInitialized
           | SsInitialized \<Rightarrow> SkNotInitialized
           | SsPaused \<Rightarrow> SkPaused
           | SsStopped \<Rightarrow> SkStopped
           | SsFaulted \<Rightarrow> SkFaulted
           | SsRunning \<Rightarrow>
               if \<not> mode_accepts (rtc_evaluation_mode (rt_config r)) (sc_trigger context) then SkTriggerNotWanted
               else if \<not> is_book_quotable context then SkBookNotQuotable
               else if sc_data_age_ns context > rtc_max_data_age_ns (rt_config r) then SkMarketDataStale
               else if (case sc_instrument context of None \<Rightarrow> True | Some spec \<Rightarrow> \<not> spec_is_valid spec)
                 then SkInstrumentNotLoaded
               else if \<not> has_two_sided_market context then SkNoTwoSidedMarket
               else SkNone)"

text \<open>What happens to an intent the strategy returned: stamping, validation, the operator switch.\<close>

definition stamp_intent :: "nanos \<Rightarrow> StrategyContext \<Rightarrow> 's StrategyRuntime \<Rightarrow> QuoteIntent \<Rightarrow> 's StrategyRuntime \<times> QuoteIntent" where
  "stamp_intent now context r intent =
     (let g = inc64 (rt_generation r)
      in (r\<lparr>rt_generation := g\<rparr>,
          intent\<lparr>qi_identity := (rt_identity r)\<lparr>si_config_generation := sc_config_generation context\<rparr>,
            qi_generation := g, qi_computed_ns := now,
            qi_market_sequence := (if qi_market_sequence intent = 0 then sc_sequence context
                                   else qi_market_sequence intent)\<rparr>))"

definition reject_intent :: "nanos \<Rightarrow> IntentRejection \<Rightarrow> 's StrategyRuntime \<Rightarrow> 's StrategyRuntime \<times> EvaluationResult" where
  "reject_intent elapsed rejection r =
     (let r1 = rt_count SmIntentsRejected (r\<lparr>rt_rejections_by_cause := bump (rt_rejections_by_cause r) rejection,
                 rt_consecutive_invalid_outputs := wrap32 (rt_consecutive_invalid_outputs r + 1)\<rparr>);
          r2 = (if rt_consecutive_invalid_outputs r1 \<ge> rtc_max_consecutive_invalid_outputs (rt_config r1)
                then rt_fault ''strategy produced invalid output repeatedly'' r1 else r1)
      in (r2, no_evaluation\<lparr>er_evaluation_ns := elapsed, er_rejection := rejection,
                er_intent := (pull_intent InNormal)\<lparr>qi_identity := rt_identity r2\<rparr>\<rparr>))"

definition accept_intent ::
  "nanos \<Rightarrow> StrategyContext \<Rightarrow> QuoteIntent \<Rightarrow> 's StrategyRuntime \<Rightarrow> 's StrategyRuntime \<times> EvaluationResult" where
  "accept_intent elapsed context intent r =
     (let r1 = r\<lparr>rt_consecutive_invalid_outputs := 0\<rparr>;
          intent1 = (if (\<not> rtc_quoting_enabled (rt_config r1) \<or> \<not> sc_quoting_enabled context) \<and> qi_action intent = QaQuote
                     then (pull_intent InStrategyDisabled)\<lparr>qi_identity := rt_identity r1,
                            qi_market_sequence := sc_sequence context\<rparr>
                     else intent)
      in (rt_count (if wants_quotes intent1 then SmQuoteIntents else SmPullIntents) (rt_count SmIntentsAccepted r1),
          no_evaluation\<lparr>er_evaluation_ns := elapsed, er_accepted := True, er_intent := intent1\<rparr>))"

definition handle_intent ::
  "nanos \<Rightarrow> nanos \<Rightarrow> StrategyContext \<Rightarrow> QuoteIntent \<Rightarrow> 's StrategyRuntime \<Rightarrow> 's StrategyRuntime \<times> EvaluationResult" where
  "handle_intent elapsed now context returned r =
     (let (r1, intent) = stamp_intent now context r returned;
          rejection = validate_intent intent context (rt_identity r1) (rtc_limits (rt_config r1))
      in if rejection \<noteq> IrNone then reject_intent elapsed rejection r1
         else accept_intent elapsed context intent r1)"

definition time_evaluation :: "nanos \<Rightarrow> 's StrategyRuntime \<Rightarrow> 's StrategyRuntime" where
  "time_evaluation elapsed r =
     (let r1 = rt_count SmEvaluations r
      in if elapsed > rt_max_evaluation_ns r1 then r1\<lparr>rt_max_evaluation_ns := elapsed\<rparr> else r1)"

text \<open>The latency budget, checked before the intent is looked at.\<close>

definition check_budget ::
  "nanos \<Rightarrow> nanos \<Rightarrow> StrategyContext \<Rightarrow> QuoteIntent \<Rightarrow> 's StrategyRuntime \<Rightarrow> 's StrategyRuntime \<times> EvaluationResult" where
  "check_budget elapsed now context intent r =
     (if elapsed > rtc_max_evaluation_latency_ns (rt_config r)
      then
        let r1 = rt_count SmBudgetViolations
                   (r\<lparr>rt_consecutive_budget_violations := wrap32 (rt_consecutive_budget_violations r + 1)\<rparr>)
        in if rt_consecutive_budget_violations r1 \<ge> rtc_max_consecutive_budget_violations (rt_config r1)
           then skipped now SkFaulted (rt_fault ''evaluation exceeded its latency budget repeatedly'' r1)
           else handle_intent elapsed now context intent r1
      else handle_intent elapsed now context intent (r\<lparr>rt_consecutive_budget_violations := 0\<rparr>))"

definition rt_evaluate ::
  "'s IStrategy \<Rightarrow> nanos \<Rightarrow> nanos \<Rightarrow> nanos \<Rightarrow> StrategyContext \<Rightarrow> 's StrategyRuntime \<Rightarrow> 's StrategyRuntime \<times> EvaluationResult" where
  "rt_evaluate plug started finished now context r =
     (if rt_gate r context \<noteq> SkNone then skipped now (rt_gate r context) r
      else
        let (st, returned) = (if sc_trigger context = TrTimer then is_on_timer plug else is_on_market_update plug)
              (the (rt_strategy r)) context;
            r1 = r\<lparr>rt_strategy := Some st\<rparr>;
            elapsed = wrap64 (finished - started)
        in case returned of
             ThrewStd what \<Rightarrow>
               skipped now SkFaulted (rt_fault (''evaluation threw: '' @ what) (rt_count SmExceptions r1))
           | ThrewOther \<Rightarrow>
               skipped now SkFaulted (rt_fault ''evaluation threw a non-standard exception'' (rt_count SmExceptions r1))
           | Returned intent \<Rightarrow> check_budget elapsed now context intent (time_evaluation elapsed r1))"

section \<open>Notifications\<close>

definition forward ::
  "('s \<Rightarrow> 'e \<Rightarrow> 's \<times> unit outcome) \<Rightarrow> string \<Rightarrow> 'e \<Rightarrow> 's StrategyRuntime \<Rightarrow> 's StrategyRuntime" where
  "forward handler message event r =
     (case rt_strategy r of
        None \<Rightarrow> r
      | Some st \<Rightarrow>
          if rt_state r = SsFaulted \<or> rt_state r = SsCreated then r
          else
            let (st1, done) = handler st event; r1 = r\<lparr>rt_strategy := Some st1\<rparr>
            in if threw done then rt_fault message (rt_count SmExceptions r1) else r1)"

definition rt_on_fill :: "'s IStrategy \<Rightarrow> StrategyFill \<Rightarrow> 's StrategyRuntime \<Rightarrow> 's StrategyRuntime" where
  "rt_on_fill plug fill r = forward (is_on_fill plug) ''on_fill threw'' fill r"

definition rt_on_order_event :: "'s IStrategy \<Rightarrow> StrategyOrderEvent \<Rightarrow> 's StrategyRuntime \<Rightarrow> 's StrategyRuntime" where
  "rt_on_order_event plug event r = forward (is_on_order_event plug) ''on_order_event threw'' event r"

section \<open>Lemmas\<close>

lemmas rt_defs = rt_transition_def rt_fault_def rt_count_def skipped_def Let_def

text \<open>What a side has to satisfy to be quoted.\<close>

definition side_sound :: "InstrumentSpec \<Rightarrow> px \<Rightarrow> qty \<Rightarrow> bool" where
  "side_sound spec price quantity \<longleftrightarrow> 0 < price \<and> 0 < quantity \<and> is_tick_size spec dvd price \<and> is_lot_size spec dvd quantity
     \<and> (0 < is_max_qty spec \<longrightarrow> quantity \<le> is_max_qty spec)
     \<and> (0 < is_min_notional spec \<longrightarrow> is_min_notional spec \<le> notional_of price quantity)"

lemma validate_side_sound:
  assumes "validate_side price quantity spec touch limits = IrNone" "spec_is_valid spec"
  shows "side_sound spec price quantity"
  using assms by (auto simp: is_on_step_dvd validate_side_def side_sound_def spec_is_valid_def split: if_splits)

text \<open>What an intent that asks for quotes has to satisfy to be accepted.\<close>

definition intent_sound :: "QuoteIntent \<Rightarrow> StrategyContext \<Rightarrow> bool" where
  "intent_sound intent context \<longleftrightarrow> (\<exists>spec. sc_instrument context = Some spec \<and> spec_is_valid spec
     \<and> (qi_quote_bid intent \<longrightarrow> side_sound spec (qi_bid_price intent) (qi_bid_quantity intent))
     \<and> (qi_quote_ask intent \<longrightarrow> side_sound spec (qi_ask_price intent) (qi_ask_quantity intent))
     \<and> (qi_quote_bid intent \<and> qi_quote_ask intent \<longrightarrow> qi_bid_price intent < qi_ask_price intent)
     \<and> identity_is_valid (qi_identity intent))"

lemma validate_intent_sound:
  assumes "validate_intent intent context expected limits = IrNone" "wants_quotes intent"
  shows "intent_sound intent context"
proof -
  obtain spec where s: "sc_instrument context = Some spec" "spec_is_valid spec" "identity_is_valid (qi_identity intent)"
    "validate_sides intent context spec limits = IrNone"
    using assms by (auto simp: validate_intent_def wants_quotes_def split: if_splits option.splits)
  then show ?thesis
    unfolding intent_sound_def
    by (intro exI [of _ spec]) (auto simp: validate_sides_def Let_def split: if_splits intro: validate_side_sound)
qed

lemma rt_gate_None:
  assumes "rt_gate r context = SkNone"
  shows "rtc_enabled (rt_config r)" "rt_state r = SsRunning"
    "mode_accepts (rtc_evaluation_mode (rt_config r)) (sc_trigger context)" "is_quotable (sc_session_state context)"
    "sc_data_age_ns context \<le> rtc_max_data_age_ns (rt_config r)" "is_sane (sc_bbo context)"
  using assms by (auto simp: rt_gate_def is_book_quotable_def has_two_sided_market_def
      split: if_splits StrategyState.splits option.splits)

lemma handle_intent_result:
  fixes r :: "'s StrategyRuntime"
  assumes "handle_intent elapsed now context returned r = (r', res)"
  shows "er_accepted res \<Longrightarrow> wants_quotes (er_intent res) \<Longrightarrow> rtc_quoting_enabled (rt_config r) \<and> sc_quoting_enabled context
      \<and> intent_sound (er_intent res) context \<and> qi_generation (er_intent res) = inc64 (rt_generation r)
      \<and> qi_identity (er_intent res) = (rt_identity r)\<lparr>si_config_generation := sc_config_generation context\<rparr>"
    and "\<not> er_accepted res \<Longrightarrow> qi_action (er_intent res) = QaPull"
    and "rt_generation r' = inc64 (rt_generation r)" "rt_strategy r' = rt_strategy r" "rt_config r' = rt_config r"
    and "rt_state r' = rt_state r \<or> rt_state r' = SsFaulted"
proof -
  let ?i = "snd (stamp_intent now context r returned)"
  have i: "qi_generation ?i = inc64 (rt_generation r)"
    "qi_identity ?i = (rt_identity r)\<lparr>si_config_generation := sc_config_generation context\<rparr>"
    by (simp_all add: stamp_intent_def Let_def)
  have v: "intent_sound ?i context" if "validate_intent ?i context (rt_identity r) (rtc_limits (rt_config r)) = IrNone" "wants_quotes ?i"
    using validate_intent_sound that by blast
  have p: "\<not> wants_quotes ((pull_intent c)\<lparr>qi_identity := d, qi_market_sequence := q\<rparr>)" for c d q
    by (simp add: wants_quotes_def pull_intent_def)
  show "er_accepted res \<Longrightarrow> wants_quotes (er_intent res) \<Longrightarrow> rtc_quoting_enabled (rt_config r) \<and> sc_quoting_enabled context
      \<and> intent_sound (er_intent res) context \<and> qi_generation (er_intent res) = inc64 (rt_generation r)
      \<and> qi_identity (er_intent res) = (rt_identity r)\<lparr>si_config_generation := sc_config_generation context\<rparr>"
    using assms i v p
    by (auto simp: handle_intent_def reject_intent_def accept_intent_def no_evaluation_def Let_def stamp_intent_def
        wants_quotes_def split: if_splits)
  show "\<not> er_accepted res \<Longrightarrow> qi_action (er_intent res) = QaPull"
    using assms by (auto simp: handle_intent_def reject_intent_def accept_intent_def Let_def pull_intent_def case_prod_beta
        split: if_splits)
  show "rt_generation r' = inc64 (rt_generation r)" "rt_strategy r' = rt_strategy r" "rt_config r' = rt_config r"
    "rt_state r' = rt_state r \<or> rt_state r' = SsFaulted"
    using assms by (auto simp: handle_intent_def reject_intent_def accept_intent_def Let_def stamp_intent_def rt_count_def
        rt_fault_def split: if_splits)
qed

text \<open>An evaluation is skipped, before or after the strategy ran, or hands the returned intent on.\<close>

definition evaluates_from :: "'s StrategyRuntime \<Rightarrow> 's StrategyRuntime \<Rightarrow> bool" where
  "evaluates_from r r1 \<longleftrightarrow> rt_generation r1 = rt_generation r \<and> rt_config r1 = rt_config r \<and> rt_identity r1 = rt_identity r
     \<and> (rt_state r1 = rt_state r \<or> rt_state r1 = SsFaulted) \<and> (rt_strategy r1 = None \<longrightarrow> rt_strategy r = None)"

lemma check_budget_cases:
  obtains (skip) r1 where "check_budget elapsed now context intent r = skipped now SkFaulted r1" "evaluates_from r r1"
  | (handle) r1 where "check_budget elapsed now context intent r = handle_intent elapsed now context intent r1"
      "evaluates_from r r1" "rt_state r1 = rt_state r"
proof (cases "elapsed > rtc_max_evaluation_latency_ns (rt_config r)")
  case False
  then show ?thesis using handle [of "r\<lparr>rt_consecutive_budget_violations := 0\<rparr>"]
    by (simp add: check_budget_def evaluates_from_def)
next
  case True
  let ?r = "rt_count SmBudgetViolations (r\<lparr>rt_consecutive_budget_violations := wrap32 (rt_consecutive_budget_violations r + 1)\<rparr>)"
  have f: "evaluates_from r ?r" "evaluates_from r (rt_fault m ?r)" "rt_state ?r = rt_state r" for m
    by (simp_all add: evaluates_from_def rt_count_def rt_fault_def)
  show ?thesis
  proof (cases "rt_consecutive_budget_violations ?r \<ge> rtc_max_consecutive_budget_violations (rt_config ?r)")
    case exceeded: True
    show ?thesis by (rule skip [OF _ f(2)]) (simp only: check_budget_def Let_def True exceeded if_True)
  next
    case tolerated: False
    show ?thesis by (rule handle [OF _ f(1,3)]) (simp only: check_budget_def Let_def True tolerated if_True if_False)
  qed
qed

lemma evaluates_from_trans: "evaluates_from r r1 \<Longrightarrow> evaluates_from r1 r2 \<Longrightarrow> evaluates_from r r2"
  by (auto simp: evaluates_from_def)

lemma rt_evaluate_cases:
  obtains (skip) reason r1 where "rt_evaluate plug t1 t2 now context r = skipped now reason r1" "reason \<noteq> SkNone" "evaluates_from r r1"
  | (handle) r1 intent where "rt_gate r context = SkNone" "evaluates_from r r1" "rt_state r1 = rt_state r"
      "rt_evaluate plug t1 t2 now context r = handle_intent (wrap64 (t2 - t1)) now context intent r1"
proof (cases "rt_gate r context = SkNone")
  case False
  then show ?thesis using skip [of "rt_gate r context" r] by (simp add: rt_evaluate_def evaluates_from_def)
next
  case True
  obtain st returned where s: "(if sc_trigger context = TrTimer then is_on_timer plug else is_on_market_update plug)
      (the (rt_strategy r)) context = (st, returned)" by fastforce
  let ?r = "r\<lparr>rt_strategy := Some st\<rparr>" and ?e = "wrap64 (t2 - t1)"
  show ?thesis
  proof (cases returned)
    case (Returned intent)
    have t: "evaluates_from r (time_evaluation ?e ?r)" "rt_state (time_evaluation ?e ?r) = rt_state r"
      by (simp_all add: evaluates_from_def time_evaluation_def rt_count_def Let_def)
    have e: "rt_evaluate plug t1 t2 now context r = check_budget ?e now context intent (time_evaluation ?e ?r)"
      using True s Returned by (simp add: rt_evaluate_def Let_def)
    show ?thesis
    proof (cases rule: check_budget_cases [of ?e now "context" intent "time_evaluation ?e ?r"])
      case (skip r1)
      then show ?thesis using that(1) [of SkFaulted r1] e evaluates_from_trans [OF t(1)] by simp
    next
      case (handle r1)
      then show ?thesis using that(2) [OF True evaluates_from_trans [OF t(1)]] e t(2) by simp
    qed
  next
    case (ThrewStd what)
    then show ?thesis using True s skip [of SkFaulted "rt_fault (''evaluation threw: '' @ what) (rt_count SmExceptions ?r)"]
      by (simp add: rt_evaluate_def Let_def evaluates_from_def rt_fault_def rt_count_def)
  next
    case ThrewOther
    then show ?thesis using True s skip [of SkFaulted "rt_fault ''evaluation threw a non-standard exception'' (rt_count SmExceptions ?r)"]
      by (simp add: rt_evaluate_def Let_def evaluates_from_def rt_fault_def rt_count_def)
  qed
qed

lemma skipped_result:
  "er_accepted (snd (skipped now reason r)) = False" "qi_action (er_intent (snd (skipped now reason r))) = QaPull"
  "qi_generation (er_intent (snd (skipped now reason r))) = inc64 (rt_generation r)"
  "rt_generation (fst (skipped now reason r)) = inc64 (rt_generation r)" "rt_state (fst (skipped now reason r)) = rt_state r"
  "rt_strategy (fst (skipped now reason r)) = rt_strategy r" "rt_config (fst (skipped now reason r)) = rt_config r"
  by (simp_all add: skipped_def Let_def no_evaluation_def pull_intent_def default_intent_def rt_count_def)

lemma rt_evaluate_frame:
  "rt_generation (fst (rt_evaluate plug t1 t2 now context r)) = inc64 (rt_generation r)"
  "rt_config (fst (rt_evaluate plug t1 t2 now context r)) = rt_config r"
  "rt_state (fst (rt_evaluate plug t1 t2 now context r)) = rt_state r
     \<or> rt_state (fst (rt_evaluate plug t1 t2 now context r)) = SsFaulted"
  "rt_strategy (fst (rt_evaluate plug t1 t2 now context r)) = None \<Longrightarrow> rt_strategy r = None"
proof -
  have "rt_generation r' = inc64 (rt_generation r) \<and> rt_config r' = rt_config r \<and> (rt_state r' = rt_state r \<or> rt_state r' = SsFaulted)
      \<and> (rt_strategy r' = None \<longrightarrow> rt_strategy r = None)" if "rt_evaluate plug t1 t2 now context r = (r', res)" for r' res
  proof (cases rule: rt_evaluate_cases [of plug t1 t2 now "context" r])
    case (skip reason r1)
    then have "r' = fst (skipped now reason r1)" using that by (metis fst_conv)
    then show ?thesis using skip(3) by (simp add: skipped_result evaluates_from_def)
  next
    case (handle r1 intent)
    then have "handle_intent (wrap64 (t2 - t1)) now context intent r1 = (r', res)" using that by simp
    from handle_intent_result(3-6) [OF this] handle(2) show ?thesis by (auto simp: evaluates_from_def)
  qed
  then show "rt_generation (fst (rt_evaluate plug t1 t2 now context r)) = inc64 (rt_generation r)"
    "rt_config (fst (rt_evaluate plug t1 t2 now context r)) = rt_config r"
    "rt_state (fst (rt_evaluate plug t1 t2 now context r)) = rt_state r
       \<or> rt_state (fst (rt_evaluate plug t1 t2 now context r)) = SsFaulted"
    "rt_strategy (fst (rt_evaluate plug t1 t2 now context r)) = None \<Longrightarrow> rt_strategy r = None"
    by (metis prod.collapse)+
qed

section \<open>Sequences of calls\<close>

datatype RtCommand =
    RtInitialize StrategyInit | RtStart | RtPause | RtResume | RtStop | RtReset | RtClearFault
  | RtEvaluate nanos nanos nanos StrategyContext | RtFill StrategyFill | RtOrderEvent StrategyOrderEvent

fun rt_do :: "'s IStrategy \<Rightarrow> 's StrategyRuntime \<Rightarrow> RtCommand \<Rightarrow> 's StrategyRuntime" where
  "rt_do plug r (RtInitialize init) = fst (rt_initialize plug init r)"
| "rt_do plug r RtStart = rt_start r"
| "rt_do plug r RtPause = rt_pause r"
| "rt_do plug r RtResume = rt_resume r"
| "rt_do plug r RtStop = rt_stop r"
| "rt_do plug r RtReset = reset_strategy plug r"
| "rt_do plug r RtClearFault = fst (clear_fault plug r)"
| "rt_do plug r (RtEvaluate t1 t2 now context) = fst (rt_evaluate plug t1 t2 now context r)"
| "rt_do plug r (RtFill fill) = rt_on_fill plug fill r"
| "rt_do plug r (RtOrderEvent event) = rt_on_order_event plug event r"

definition rt_run :: "'s IStrategy \<Rightarrow> RtCommand list \<Rightarrow> 's StrategyRuntime \<Rightarrow> 's StrategyRuntime" where
  "rt_run plug cs r = foldl (rt_do plug) r cs"

fun is_evaluation :: "RtCommand \<Rightarrow> bool" where
  "is_evaluation (RtEvaluate _ _ _ _) = True"
| "is_evaluation _ = False"

fun reopens :: "RtCommand \<Rightarrow> bool" where
  "reopens (RtInitialize _) = True"
| "reopens RtClearFault = True"
| "reopens _ = False"

lemma rt_frames:
  "rt_generation (rt_transition t r) = rt_generation r" "rt_strategy (rt_transition t r) = rt_strategy r"
  "rt_generation (reset_strategy plug r) = rt_generation r" "rt_strategy (reset_strategy plug r) = None \<longleftrightarrow> rt_strategy r = None"
  "rt_generation (forward h m e r) = rt_generation r" "rt_strategy (forward h m e r) = None \<longleftrightarrow> rt_strategy r = None"
  "rt_state (reset_strategy plug r) = rt_state r \<or> rt_state (reset_strategy plug r) = SsFaulted"
  "rt_state (forward h m e r) = rt_state r \<or> rt_state (forward h m e r) = SsFaulted"
  by (auto simp: rt_transition_def reset_strategy_def forward_def Let_def rt_fault_def rt_count_def case_prod_beta
      split: option.splits)

lemma rt_initialize_frames:
  "rt_generation (fst (rt_initialize plug init r)) = rt_generation r"
  "rt_strategy (fst (rt_initialize plug init r)) = None \<longleftrightarrow> rt_strategy r = None"
  "rt_strategy r = None \<Longrightarrow> fst (rt_initialize plug init r) = r"
  by (auto simp: rt_initialize_def rt_fault_def rt_count_def split: option.splits prod.splits outcome.splits)

text \<open>Every evaluation takes the next generation, and nothing else touches it.\<close>

lemma rt_generation_run:
  assumes "rt_generation r + length (filter is_evaluation cs) < 2 ^ 64"
  shows "rt_generation (rt_run plug cs r) = rt_generation r + length (filter is_evaluation cs)"
  unfolding rt_run_def using assms
proof (induction cs arbitrary: r)
  case (Cons c cs)
  have "rt_generation (rt_do plug r c) = rt_generation r + (if is_evaluation c then 1 else 0)"
    using Cons.prems
    by (cases c) (auto simp: rt_start_def rt_pause_def rt_resume_def rt_stop_def rt_frames rt_initialize_frames
        rt_on_fill_def rt_on_order_event_def rt_evaluate_frame inc64_less clear_fault_def Let_def)
  with Cons show ?case by auto
qed simp

text \<open>A runtime without a strategy never leaves the Created state, so the pointer is never followed when it is null.\<close>

lemma created_steps:
  assumes "rt_state r = SsCreated"
  shows "rt_state (fst (rt_evaluate plug t1 t2 now context r)) = SsCreated" "rt_state (fst (clear_fault plug r)) = SsCreated"
    "rt_state (forward h m e r) = SsCreated" "t \<noteq> SsInitialized \<Longrightarrow> t \<noteq> SsFaulted \<Longrightarrow> rt_state (rt_transition t r) = SsCreated"
  using assms
  by (simp_all add: rt_evaluate_def rt_gate_def skipped_result clear_fault_def rt_transition_def strategy_legal_transition_def
      forward_def split: option.splits)

lemma forward_faulted: "rt_state r = SsFaulted \<Longrightarrow> forward h m e r = r"
  by (simp add: forward_def split: option.splits)

lemma rt_strategy_run:
  assumes "rt_strategy r = None \<longrightarrow> rt_state r = SsCreated"
  shows "rt_strategy (rt_run plug cs r) = None \<longrightarrow> rt_state (rt_run plug cs r) = SsCreated"
  unfolding rt_run_def using assms
proof (induction cs arbitrary: r)
  case (Cons c cs)
  have "rt_state (rt_do plug r c) = SsCreated" if "rt_strategy r = None" "rt_state r = SsCreated"
    using that by (cases c) (simp_all add: rt_start_def rt_pause_def rt_resume_def rt_stop_def created_steps
        rt_on_fill_def rt_on_order_event_def rt_initialize_frames reset_strategy_def)
  moreover have "rt_strategy r = None" if "rt_strategy (rt_do plug r c) = None"
    using that by (cases c) (auto simp: rt_start_def rt_pause_def rt_resume_def rt_stop_def rt_frames(2,4,6) rt_on_fill_def
        rt_initialize_frames(2) rt_on_order_event_def clear_fault_def Let_def split: if_splits dest: rt_evaluate_frame(4))
  ultimately have "rt_strategy (rt_do plug r c) = None \<longrightarrow> rt_state (rt_do plug r c) = SsCreated" using Cons.prems by auto
  from Cons.IH [OF this] show ?case by simp
qed simp

lemma rt_fault_run:
  assumes "rt_state r = SsFaulted" "\<forall>c\<in>set cs. \<not> reopens c"
  shows "rt_state (rt_run plug cs r) = SsFaulted"
  unfolding rt_run_def using assms
proof (induction cs arbitrary: r)
  case (Cons c cs)
  have "rt_state (rt_do plug r c) = SsFaulted"
    using Cons.prems rt_frames(7) [of plug r] rt_evaluate_frame(3) [of plug _ _ _ _ r]
    by (cases c) (auto simp: rt_start_def rt_pause_def rt_resume_def rt_stop_def rt_transition_def strategy_legal_transition_def
        rt_on_fill_def rt_on_order_event_def forward_faulted)
  with Cons show ?case by simp
qed simp

section \<open>A concrete strategy\<close>

text \<open>A strategy that always asks for the same two quotes; its state counts the calls.\<close>

definition demo_quote :: "px \<Rightarrow> QuoteIntent" where
  "demo_quote ask = default_intent\<lparr>qi_action := QaQuote, qi_quote_bid := True, qi_quote_ask := True, qi_bid_price := 99,
     qi_ask_price := ask, qi_bid_quantity := 10, qi_ask_quantity := 10, qi_reason := InNormal\<rparr>"

definition demo_plug :: "px \<Rightarrow> nat IStrategy" where
  "demo_plug ask = \<lparr>is_initialize = \<lambda>n _. (n, Returned Ok), is_on_market_update = \<lambda>n _. (Suc n, Returned (demo_quote ask)),
     is_on_timer = \<lambda>n _. (Suc n, Returned (demo_quote ask)), is_on_fill = \<lambda>n _. (n, Returned ()),
     is_on_order_event = \<lambda>n _. (n, ThrewOther), is_reset = \<lambda>_. (0, Returned ()),
     is_identity = \<lambda>_. \<lparr>si_name = ''ref'', si_version = 1, si_config_generation = 0\<rparr>\<rparr>"

definition demo_runtime_config :: StrategyRuntimeConfig where
  "demo_runtime_config = \<lparr>rtc_enabled = True, rtc_quoting_enabled = True, rtc_evaluation_mode = OnBboChange,
     rtc_max_evaluation_latency_ns = 50, rtc_max_consecutive_budget_violations = 5,
     rtc_max_consecutive_invalid_outputs = 3, rtc_max_data_age_ns = 500,
     rtc_limits = \<lparr>il_max_distance_from_touch_bps = 0, il_require_matching_sequence = True\<rparr>\<rparr>"

definition demo_context :: "bool \<Rightarrow> StrategyContext" where
  "demo_context quoting = \<lparr>sc_symbol = ''BTC'', sc_symbol_id = 0,
     sc_bbo = \<lparr>bba_bid_px = 100, bba_bid_qty = 5, bba_ask_px = 102, bba_ask_qty = 5, bba_seq = 7, bba_exchange_ns = 0\<rparr>,
     sc_depth = \<lparr>dv_bids = [], dv_asks = []\<rparr>, sc_sequence = 7, sc_exchange_ns = 0, sc_recv_ns = 0, sc_now_ns = 0,
     sc_data_age_ns = 1, sc_instrument = Some demo_instrument, sc_session_state = Ready,
     sc_inventory = \<lparr>iv_position = 0, iv_position_limit = 0, iv_notional_exposure = 0\<rparr>,
     sc_working_bid = \<lparr>wk_active = False, wk_price = 0, wk_quantity = 0, wk_filled_quantity = 0, wk_in_transition = False\<rparr>,
     sc_working_ask = \<lparr>wk_active = False, wk_price = 0, wk_quantity = 0, wk_filled_quantity = 0, wk_in_transition = False\<rparr>,
     sc_trigger = TrBboChange, sc_quoting_enabled = quoting, sc_config_generation = 4\<rparr>"

definition demo_init :: StrategyInit where
  "demo_init = \<lparr>in_symbol = ''BTC'', in_instrument = demo_instrument, in_params = Map.empty,
     in_identity = \<lparr>si_name = ''ref'', si_version = 1, si_config_generation = 0\<rparr>\<rparr>"

text \<open>Initialised and started.\<close>

definition demo_runtime :: "px \<Rightarrow> nat StrategyRuntime" where
  "demo_runtime ask = rt_run (demo_plug ask) [RtInitialize demo_init, RtStart] (new_runtime demo_runtime_config (Some 0))"

lemmas demo_runtime_defs = demo_runtime_def rt_run_def rt_start_def rt_initialize_def demo_init_def demo_plug_def
  new_runtime_def rt_transition_def strategy_legal_transition_def identity_is_valid_def spec_is_valid_def
  demo_instrument_def is_err_def

lemma demo_runtime_fields:
  "rt_state (demo_runtime ask) = SsRunning" "rt_strategy (demo_runtime ask) = Some 0" "rt_generation (demo_runtime ask) = 0"
  "rt_config (demo_runtime ask) = demo_runtime_config" "rt_consecutive_invalid_outputs (demo_runtime ask) = 0"
  "rt_identity (demo_runtime ask) = \<lparr>si_name = ''ref'', si_version = 1, si_config_generation = 0\<rparr>"
  by (simp_all add: demo_runtime_defs)

lemma demo_gate: "rt_gate (demo_runtime ask) (demo_context q) = SkNone"
  by (simp add: rt_gate_def demo_runtime_fields demo_runtime_config_def demo_context_def demo_instrument_def spec_is_valid_def
      mode_accepts_def is_book_quotable_def is_quotable_def has_two_sided_market_def is_sane_def is_two_sided_def)

lemma demo_validate:
  "validate_intent ((demo_quote ask)\<lparr>qi_identity := \<lparr>si_name = ''ref'', si_version = 1, si_config_generation = g\<rparr>,
      qi_generation := n, qi_computed_ns := t, qi_market_sequence := 7\<rparr>) (demo_context q)
      \<lparr>si_name = ''ref'', si_version = 1, si_config_generation = h\<rparr> (rtc_limits demo_runtime_config)
    = (if ask \<le> 0 then IrNonPositivePrice else if ask \<le> 99 then IrCrossedQuote else IrNone)"
  by (simp add: validate_intent_def validate_sides_def validate_side_def demo_quote_def demo_context_def demo_instrument_def
      demo_runtime_config_def identity_is_valid_def spec_is_valid_def is_on_step_dvd Let_def)

lemma demo_evaluation:
  obtains r1 where "rt_evaluate (demo_plug ask) 5 9 20 (demo_context q) (demo_runtime ask) = handle_intent 4 20 (demo_context q) (demo_quote ask) r1"
    "rt_generation r1 = 0" "rt_config r1 = demo_runtime_config" "rt_consecutive_invalid_outputs r1 = 0" "rt_strategy r1 = Some 1"
    "rt_identity r1 = \<lparr>si_name = ''ref'', si_version = 1, si_config_generation = 0\<rparr>"
proof -
  let ?r = "(time_evaluation 4 ((demo_runtime ask)\<lparr>rt_strategy := Some 1\<rparr>))\<lparr>rt_consecutive_budget_violations := 0\<rparr>"
  have "sc_trigger (demo_context q) = TrBboChange" "is_on_market_update (demo_plug ask) 0 c = (1, Returned (demo_quote ask))" for c
    by (simp_all add: demo_context_def demo_plug_def)
  moreover have "wrap64 4 = 4" by (simp add: in64_def)
  moreover have f: "rt_config (time_evaluation e r) = rt_config r" "rt_generation (time_evaluation e r) = rt_generation r"
    "rt_identity (time_evaluation e r) = rt_identity r" "rt_strategy (time_evaluation e r) = rt_strategy r"
    "rt_consecutive_invalid_outputs (time_evaluation e r) = rt_consecutive_invalid_outputs r" for e and r :: "nat StrategyRuntime"
    by (simp_all add: time_evaluation_def rt_count_def Let_def)
  moreover have "rtc_max_evaluation_latency_ns demo_runtime_config = 50" by (simp add: demo_runtime_config_def)
  ultimately have "rt_evaluate (demo_plug ask) 5 9 20 (demo_context q) (demo_runtime ask) = handle_intent 4 20 (demo_context q) (demo_quote ask) ?r"
    by (simp add: rt_evaluate_def demo_gate demo_runtime_fields Let_def check_budget_def)
  then show ?thesis by (rule that) (simp_all add: f demo_runtime_fields)
qed

definition demo_identity :: "nat \<Rightarrow> StrategyIdentity" where
  "demo_identity g = \<lparr>si_name = ''ref'', si_version = 1, si_config_generation = g\<rparr>"

lemma demo_result:
  "snd (rt_evaluate (demo_plug ask) 5 9 20 (demo_context q) (demo_runtime ask)) =
     (if ask \<le> 99
      then no_evaluation\<lparr>er_evaluation_ns := 4, er_rejection := (if ask \<le> 0 then IrNonPositivePrice else IrCrossedQuote),
             er_intent := (pull_intent InNormal)\<lparr>qi_identity := demo_identity 0\<rparr>\<rparr>
      else no_evaluation\<lparr>er_evaluation_ns := 4, er_accepted := True, er_intent :=
             (if q then (demo_quote ask)\<lparr>qi_identity := demo_identity 4, qi_generation := 1, qi_computed_ns := 20,
                          qi_market_sequence := 7\<rparr>
              else (pull_intent InStrategyDisabled)\<lparr>qi_identity := demo_identity 0, qi_market_sequence := 7\<rparr>)\<rparr>)"
proof -
  obtain r where r: "rt_evaluate (demo_plug ask) 5 9 20 (demo_context q) (demo_runtime ask) = handle_intent 4 20 (demo_context q) (demo_quote ask) r"
    "rt_generation r = 0" "rt_config r = demo_runtime_config" "rt_identity r = demo_identity 0"
    using demo_evaluation by (metis demo_identity_def)
  have s: "stamp_intent 20 (demo_context q) r (demo_quote ask) = (r\<lparr>rt_generation := 1\<rparr>, (demo_quote ask)\<lparr>qi_identity := demo_identity 4,
      qi_generation := 1, qi_computed_ns := 20, qi_market_sequence := 7\<rparr>)"
    using r by (simp add: stamp_intent_def Let_def demo_quote_def demo_context_def default_intent_def inc64_def demo_identity_def)
  have q: "qi_action (demo_quote ask) = QaQuote" "rtc_quoting_enabled demo_runtime_config" "sc_quoting_enabled (demo_context q) = q"
      "sc_sequence (demo_context p) = 7" for p
    by (simp_all add: demo_quote_def demo_runtime_config_def demo_context_def)
  have f: "rt_identity (rt_fault m x) = rt_identity x" "rt_identity (rt_count c x) = rt_identity x" for m c and x :: "nat StrategyRuntime"
    by (simp_all add: rt_fault_def rt_count_def)
  show ?thesis
    unfolding r(1) handle_intent_def s by (simp add: demo_validate [folded demo_identity_def] r q f reject_intent_def accept_intent_def Let_def)
qed

section \<open>Properties\<close>

text \<open>
  C10. What a strategy returns is contained: when the runtime accepts an intent that asks for quotes, the strategy was
  running and enabled, the trigger is one of its mode, the book is quotable, fresh and two-sided, the operator switches
  are on, every quoted side has a positive price on the tick grid and a positive quantity on the lot grid that is not
  above the venue's maximum and reaches its minimum notional (the venue's minimum quantity and its price band are not
  looked at here), the two sides do not cross, the intent carries the runtime's identity and the next generation;
  everything the runtime does not accept is a pull, and every evaluation, also a skipped or throwing one, uses up one
  generation.
\<close>

theorem strategy_output_is_contained:
  fixes plug :: "'s IStrategy" and t1 t2 now :: nanos and "context" :: StrategyContext and r :: "'s StrategyRuntime"
  assumes "rt_generation r + 1 < 2 ^ 64"
  defines "res \<equiv> snd (rt_evaluate plug t1 t2 now context r)"
  shows "(er_accepted res \<and> wants_quotes (er_intent res) \<longrightarrow>
        rt_state r = SsRunning \<and> rtc_enabled (rt_config r)
        \<and> mode_accepts (rtc_evaluation_mode (rt_config r)) (sc_trigger context)
        \<and> is_quotable (sc_session_state context) \<and> sc_data_age_ns context \<le> rtc_max_data_age_ns (rt_config r)
        \<and> is_sane (sc_bbo context) \<and> rtc_quoting_enabled (rt_config r) \<and> sc_quoting_enabled context
        \<and> intent_sound (er_intent res) context
        \<and> qi_identity (er_intent res) = (rt_identity r)\<lparr>si_config_generation := sc_config_generation context\<rparr>
        \<and> qi_generation (er_intent res) = rt_generation r + 1)
    \<and> (\<not> er_accepted res \<longrightarrow> qi_action (er_intent res) = QaPull)
    \<and> rt_generation (fst (rt_evaluate plug t1 t2 now context r)) = rt_generation r + 1"
proof -
  have g: "inc64 (rt_generation r) = rt_generation r + 1" using assms(1) by (simp add: inc64_less)
  have "er_accepted res \<and> wants_quotes (er_intent res) \<longrightarrow> rt_gate r context = SkNone
        \<and> rtc_quoting_enabled (rt_config r) \<and> sc_quoting_enabled context \<and> intent_sound (er_intent res) context
        \<and> qi_identity (er_intent res) = (rt_identity r)\<lparr>si_config_generation := sc_config_generation context\<rparr>
        \<and> qi_generation (er_intent res) = rt_generation r + 1"
    and "\<not> er_accepted res \<longrightarrow> qi_action (er_intent res) = QaPull"
    by (cases rule: rt_evaluate_cases [of plug t1 t2 now "context" r];
        use handle_intent_result(1,2) [OF prod.collapse [symmetric]] g in
          \<open>force simp: res_def skipped_result evaluates_from_def\<close>)+
  then show ?thesis using rt_gate_None [of r "context"] by (auto simp: rt_evaluate_frame(1) g)
qed

theorem strategy_output_is_contained_witness:
  "er_accepted (snd (rt_evaluate (demo_plug 102) 5 9 20 (demo_context True) (demo_runtime 102)))
   \<and> intent_sound (er_intent (snd (rt_evaluate (demo_plug 102) 5 9 20 (demo_context True) (demo_runtime 102)))) (demo_context True)
   \<and> qi_generation (er_intent (snd (rt_evaluate (demo_plug 102) 5 9 20 (demo_context True) (demo_runtime 102)))) = 1"
  using strategy_output_is_contained [of "demo_runtime 102" "demo_plug 102" 5 9 20 "demo_context True"]
  by (simp add: demo_result demo_runtime_fields wants_quotes_def demo_quote_def) metis

text \<open>
  C11. A fault latches: once the strategy has faulted (thrown, overrun its budget or produced invalid output too often),
  no sequence of starts, pauses, resumes, stops, resets, evaluations and notifications makes it run again; every
  evaluation in between is skipped with a pull and does not call the strategy. Only a re-initialisation or an explicit
  clearing of the fault reopens it.
\<close>

theorem strategy_fault_latches:
  fixes plug :: "'s IStrategy" and r :: "'s StrategyRuntime"
  assumes "rt_state r = SsFaulted" and "\<forall>c\<in>set cs. \<not> reopens c"
  defines "r' \<equiv> rt_run plug cs r"
  shows "rt_state r' = SsFaulted
    \<and> rt_evaluate plug t1 t2 now context r' = skipped now (if rtc_enabled (rt_config r') then SkFaulted else SkQuotingDisabled) r'"
  using rt_fault_run [OF assms(1,2)] by (simp add: r'_def rt_evaluate_def rt_gate_def)

theorem strategy_fault_latches_witness:
  "rt_state (rt_run (demo_plug 102) [RtStart, RtReset, RtResume] ((demo_runtime 102)\<lparr>rt_state := SsFaulted\<rparr>)) = SsFaulted"
  using strategy_fault_latches [of "(demo_runtime 102)\<lparr>rt_state := SsFaulted\<rparr>" "[RtStart, RtReset, RtResume]"
"demo_plug 102"]
  by simp

end
