(* ===== verification/StrategyRegistry.thy ===== *)
theory StrategyRegistry
  imports StrategyRuntime "HOL-Library.Char_ord" "HOL-Library.List_Lexorder"
begin

text \<open>
  \<^verbatim>\<open>StrategyRegistry.hpp\<close> and \<^verbatim>\<open>StrategyRegistry.cpp\<close>: name to factory, filled during static initialisation by
  the \<^verbatim>\<open>MM_REGISTER_STRATEGY\<close> lines in whatever order the linker put them. A factory is an argument of any type: an
  optional constructor (None for an empty \<^verbatim>\<open>std::function\<close>) whose result is an optional strategy (None for a null
  pointer). The sort of \<^verbatim>\<open>list\<close> is an insertion sort; keys are unique, so any sort gives the same list.
\<close>

section \<open>Definitions\<close>

record StrategyDescriptor =
  sd_name :: string
  sd_version :: int
  sd_description :: string

type_synonym 'p registry = "(StrategyDescriptor \<times> 'p option) list"

definition registry_contains :: "'p registry \<Rightarrow> string \<Rightarrow> bool" where
  "registry_contains r name \<longleftrightarrow> list_ex (\<lambda>e. sd_name (fst e) = name) r"

definition register_strategy ::
  "'p registry \<Rightarrow> string \<Rightarrow> int \<Rightarrow> string \<Rightarrow> 'p option option \<Rightarrow> 'p registry \<times> bool" where
  "register_strategy r name version description factory =
     (if name = [] \<or> version \<le> 0 \<or> factory = None then (r, False)
      else if registry_contains r name then (r, False)
      else (r @ [(\<lparr>sd_name = name, sd_version = version, sd_description = description\<rparr>, the factory)], True))"

definition registry_create :: "'p registry \<Rightarrow> string \<Rightarrow> ErrorCode + 'p" where
  "registry_create r name =
     (case find (\<lambda>e. sd_name (fst e) = name) r of
        None \<Rightarrow> Inl NotFound
      | Some e \<Rightarrow> (case snd e of None \<Rightarrow> Inl Internal | Some p \<Rightarrow> Inr p))"

definition check_version :: "'p registry \<Rightarrow> string \<Rightarrow> int \<Rightarrow> ErrorCode" where
  "check_version r name expected_version =
     (case find (\<lambda>e. sd_name (fst e) = name) r of
        None \<Rightarrow> NotFound
      | Some e \<Rightarrow> if expected_version \<noteq> 0 \<and> sd_version (fst e) \<noteq> expected_version then FailedPrecondition else Ok)"

fun insert_by_name :: "StrategyDescriptor \<Rightarrow> StrategyDescriptor list \<Rightarrow> StrategyDescriptor list" where
  "insert_by_name d [] = [d]"
| "insert_by_name d (e # es) = (if sd_name e < sd_name d then e # insert_by_name d es else d # e # es)"

definition registry_list :: "'p registry \<Rightarrow> StrategyDescriptor list" where
  "registry_list r = foldr insert_by_name (map fst r) []"

definition registry_size :: "'p registry \<Rightarrow> nat" where
  "registry_size r = length r"

text \<open>Static initialisation: one registration per translation unit, the return value is dropped.\<close>

record 'p registration =
  rn_name :: string
  rn_version :: int
  rn_description :: string
  rn_factory :: "'p option option"

definition register_all :: "'p registration list \<Rightarrow> 'p registry" where
  "register_all regs =
     foldl (\<lambda>r g. fst (register_strategy r (rn_name g) (rn_version g) (rn_description g) (rn_factory g))) [] regs"

section \<open>Names are unique and valid\<close>

definition registry_inv :: "'p registry \<Rightarrow> bool" where
  "registry_inv r \<longleftrightarrow> distinct (map (sd_name \<circ> fst) r) \<and> (\<forall>e \<in> set r. sd_name (fst e) \<noteq> [] \<and> 0 < sd_version (fst e))"

lemma contains_iff: "registry_contains r name \<longleftrightarrow> name \<in> set (map (sd_name \<circ> fst) r)"
  by (auto simp: registry_contains_def list_ex_iff)

lemma register_inv: "registry_inv r \<Longrightarrow> registry_inv (fst (register_strategy r n v d f))"
  by (auto simp: register_strategy_def registry_inv_def contains_iff)

lemma register_all_snoc:
  "register_all (gs @ [g])
   = fst (register_strategy (register_all gs) (rn_name g) (rn_version g) (rn_description g) (rn_factory g))"
  by (simp add: register_all_def)

lemma register_all_inv: "registry_inv (register_all gs)"
proof (induction gs rule: rev_induct)
  case Nil
  then show ?case by (simp add: register_all_def registry_inv_def)
next
  case (snoc g gs)
  then show ?case by (simp add: register_all_snoc register_inv)
qed

definition valid_registration :: "'p registration \<Rightarrow> bool" where
  "valid_registration g \<longleftrightarrow> rn_name g \<noteq> [] \<and> 0 < rn_version g \<and> rn_factory g \<noteq> None"

lemma register_all_names: "set (map (sd_name \<circ> fst) (register_all gs)) = rn_name ` {g \<in> set gs. valid_registration g}"
proof (induction gs rule: rev_induct)
  case (snoc g gs)
  define R where "R = register_all gs"
  have ih: "set (map (sd_name \<circ> fst) R) = rn_name ` {g \<in> set gs. valid_registration g}" using snoc R_def by simp
  have split: "rn_name ` {x \<in> set (gs @ [g]). valid_registration x}
      = (if valid_registration g then insert (rn_name g) (set (map (sd_name \<circ> fst) R)) else set (map (sd_name \<circ> fst) R))"
    unfolding ih by auto
  show ?case
    unfolding register_all_snoc R_def [symmetric] split
    by (auto simp: register_strategy_def valid_registration_def contains_iff)
qed (simp add: register_all_def)

text \<open>The first valid registration of a name is the one that is kept.\<close>

lemma find_append: "find P (xs @ ys) = (case find P xs of Some x \<Rightarrow> Some x | None \<Rightarrow> find P ys)"
  by (induction xs) auto

lemma find_name_None: "find (\<lambda>e. sd_name (fst e) = n) r = None \<longleftrightarrow> \<not> registry_contains r n"
  by (auto simp: find_None_iff registry_contains_def list_ex_iff)

lemma register_all_find:
  "find (\<lambda>e. sd_name (fst e) = n) (register_all gs)
   = map_option (\<lambda>g. (\<lparr>sd_name = rn_name g, sd_version = rn_version g, sd_description = rn_description g\<rparr>, the (rn_factory g)))
       (find (\<lambda>g. valid_registration g \<and> rn_name g = n) gs)"
proof (induction gs rule: rev_induct)
  case (snoc g gs)
  define R where "R = register_all gs"
  define F where "F = find (\<lambda>e. sd_name (fst e) = n) R"
  have ih: "F = map_option (\<lambda>g. (\<lparr>sd_name = rn_name g, sd_version = rn_version g, sd_description = rn_description g\<rparr>, the (rn_factory g)))
       (find (\<lambda>g. valid_registration g \<and> rn_name g = n) gs)" using snoc by (simp add: F_def R_def)
  have c: "registry_contains R n \<longleftrightarrow> F \<noteq> None" using find_name_None [of n R] by (auto simp: F_def)
  show ?case
  proof (cases "valid_registration g \<and> \<not> registry_contains R (rn_name g)")
    case True
    then show ?thesis unfolding register_all_snoc R_def [symmetric]
      using ih c by (auto simp: register_strategy_def valid_registration_def find_append F_def [symmetric] split: option.splits)
  next
    case False
    have "valid_registration g \<and> rn_name g = n \<Longrightarrow> F \<noteq> None" using False c by auto
    moreover have "fst (register_strategy R (rn_name g) (rn_version g) (rn_description g) (rn_factory g)) = R"
      using False by (auto simp: register_strategy_def valid_registration_def)
    ultimately show ?thesis unfolding register_all_snoc R_def [symmetric]
      using ih by (auto simp: find_append F_def [symmetric] split: option.splits)
  qed
qed (simp add: register_all_def)

section \<open>The listing does not depend on link order\<close>

lemma insert_by_name_set: "set (insert_by_name d es) = insert d (set es)"
  by (induction es) auto

lemma insert_by_name_sorted:
  "sorted_wrt (\<lambda>a b. sd_name a < sd_name b) es \<Longrightarrow> sd_name d \<notin> sd_name ` set es
   \<Longrightarrow> sorted_wrt (\<lambda>a b. sd_name a < sd_name b) (insert_by_name d es)"
  by (induction es) (auto simp: insert_by_name_set)

lemma sort_by_name:
  "distinct (map sd_name ds) \<Longrightarrow>
   sorted_wrt (\<lambda>a b. sd_name a < sd_name b) (foldr insert_by_name ds []) \<and> set (foldr insert_by_name ds []) = set ds"
  by (induction ds) (auto simp: insert_by_name_set insert_by_name_sorted)

lemma registry_list_sorted:
  assumes "registry_inv r"
  shows "sorted_wrt (\<lambda>a b. sd_name a < sd_name b) (registry_list r)" "set (registry_list r) = set (map fst r)"
  using sort_by_name [of "map fst r"] assms by (auto simp: registry_list_def registry_inv_def)

lemma sorted_by_name_unique:
  assumes "sorted_wrt (\<lambda>a b. sd_name a < sd_name b) xs" "sorted_wrt (\<lambda>a b. sd_name a < sd_name b) ys" "set xs = set ys"
  shows "xs = ys"
  using assms
proof (induction xs arbitrary: ys)
  case (Cons x xs)
  then obtain y ys' where ys: "ys = y # ys'" by (cases ys) auto
  have "x = y" using Cons.prems unfolding ys by (auto simp: set_eq_iff) (metis order.asym)
  moreover have "x \<notin> set xs" "y \<notin> set ys'" using Cons.prems unfolding ys by auto
  ultimately have "set xs = set ys'" using Cons.prems(3) unfolding ys by (auto simp: set_eq_iff)
  then show ?case using Cons.IH [of ys'] Cons.prems \<open>x = y\<close> unfolding ys by auto
qed simp

text \<open>
  Whatever the link order and however many translation units register, the registry holds each name once, knows
  exactly the names of the valid registrations, resolves a name to its first valid registration with that
  registration's version, and answers anything else with \<^verbatim>\<open>NotFound\<close>.
\<close>

theorem registry_resolves_first_registration:
  fixes gs :: "'p registration list"
  shows "distinct (map (sd_name \<circ> fst) (register_all gs))
       \<and> (case find (\<lambda>g. valid_registration g \<and> rn_name g = n) gs of
            None \<Rightarrow> registry_create (register_all gs) n = Inl NotFound \<and> check_version (register_all gs) n v = NotFound
          | Some g \<Rightarrow> registry_create (register_all gs) n
                       = (case the (rn_factory g) of None \<Rightarrow> Inl Internal | Some p \<Rightarrow> Inr p)
                   \<and> check_version (register_all gs) n v
                       = (if v = 0 \<or> v = rn_version g then Ok else FailedPrecondition))"
  using register_all_inv [of gs]
  by (auto simp: registry_inv_def registry_create_def check_version_def register_all_find split: option.splits)

lemma listing_order_independent:
  assumes "distinct (map rn_name gs)" "set gs = set hs" "distinct (map rn_name hs)"
  shows "registry_list (register_all gs) = registry_list (register_all hs)"
proof -
  have key: "set (map fst (register_all gs))
      = (\<lambda>g. \<lparr>sd_name = rn_name g, sd_version = rn_version g, sd_description = rn_description g\<rparr>) ` {g \<in> set gs. valid_registration g}"
    if "distinct (map rn_name gs)" for gs :: "'a registration list"
    using that
  proof (induction gs rule: rev_induct)
    case (snoc g gs)
    define R where "R = register_all gs"
    have "\<not> registry_contains R (rn_name g)"
      unfolding contains_iff R_def register_all_names using snoc.prems by auto
    then show ?case
      using snoc unfolding register_all_snoc R_def [symmetric]
      by (auto simp: register_strategy_def valid_registration_def)
  qed (simp add: register_all_def)
  show ?thesis
    by (rule sorted_by_name_unique)
       (use registry_list_sorted [OF register_all_inv, of gs] registry_list_sorted [OF register_all_inv, of hs]
         key [OF assms(1)] key [OF assms(3)] assms(2) in simp_all)
qed

end
