(* ===== verification/ReferenceMarketMaker.thy ===== *)
theory ReferenceMarketMaker
  imports Params StrategyRegistry
begin

text \<open>
  The reference strategy \<^verbatim>\<open>strategies/reference_mm_v1/ReferenceMarketMaker\<close>, as a plug-in of the strategy runtime.
  Its numbers are the \<open>cdouble\<close>s of the parameter bag; prices stay fixed point.
\<close>

section \<open>State and parameters\<close>

record RmmParameters =
  rp_half_spread_bps :: cdouble
  rp_quote_size :: qty
  rp_inventory_skew_bps :: cdouble
  rp_max_inventory_utilisation :: cdouble
  rp_min_market_spread_bps :: cdouble
  rp_use_micro_price :: bool

record ReferenceMarketMaker =
  rm_params :: RmmParameters
  rm_instrument :: InstrumentSpec
  rm_initialized :: bool
  rm_fills_seen :: nat

definition default_spec :: InstrumentSpec where
  "default_spec = \<lparr>is_symbol = [], is_id = kInvalidSymbolId, is_base = [], is_quote = [], is_tick_size = 0,
     is_lot_size = 0, is_min_qty = 0, is_max_qty = 0, is_min_notional = 0, is_price_band_lo = 0, is_price_band_hi = 0,
     is_status = MarketUnknown\<rparr>"

definition new_rmm :: ReferenceMarketMaker where
  "new_rmm = \<lparr>rm_params = \<lparr>rp_half_spread_bps = Fin 5, rp_quote_size = 0, rp_inventory_skew_bps = Fin 0,
       rp_max_inventory_utilisation = Fin (fl (9 / 10)), rp_min_market_spread_bps = Fin 0, rp_use_micro_price = False\<rparr>,
     rm_instrument = default_spec, rm_initialized = False, rm_fills_seen = 0\<rparr>"

section \<open>Operations\<close>

definition shift_bps :: "px \<Rightarrow> cdouble \<Rightarrow> px" where
  "shift_bps price bps =
     (let scaled = x_to_int64 (x_mul bps (Fin 100))
      in case scaled_by price (wrap64 (1000000 + scaled)) 1000000 of Some p \<Rightarrow> p | None \<Rightarrow> 0)"

definition rmm_initialize :: "ReferenceMarketMaker \<Rightarrow> StrategyInit \<Rightarrow> ReferenceMarketMaker \<times> ErrorCode" where
  "rmm_initialize s init =
     (let p = in_params init in
      case get_double p ''half_spread_bps'' of
        Inl e \<Rightarrow> (s, e)
      | Inr half_spread \<Rightarrow>
          if x_le half_spread (Fin 0) then (s, InvalidArgument)
          else (let s = s\<lparr>rm_params := (rm_params s)\<lparr>rp_half_spread_bps := half_spread\<rparr>\<rparr> in
            case get_qty p ''quote_size'' of
              Inl e \<Rightarrow> (s, e)
            | Inr quote_size \<Rightarrow>
                if \<not> quote_size > 0 then (s, InvalidArgument)
                else (let s = s\<lparr>rm_params := (rm_params s)\<lparr>rp_quote_size := quote_size,
                              rp_inventory_skew_bps := double_or p ''inventory_skew_bps'' (Fin 0)\<rparr>\<rparr> in
                  if x_lt (rp_inventory_skew_bps (rm_params s)) (Fin 0) then (s, InvalidArgument)
                  else (let s = s\<lparr>rm_params := (rm_params s)\<lparr>rp_max_inventory_utilisation :=
                                double_or p ''max_inventory_utilisation'' (Fin (fl (9 / 10)))\<rparr>\<rparr> in
                    if x_le (rp_max_inventory_utilisation (rm_params s)) (Fin 0)
                        \<or> x_lt (Fin 1) (rp_max_inventory_utilisation (rm_params s)) then (s, InvalidArgument)
                    else (let s = s\<lparr>rm_params := (rm_params s)\<lparr>
                                  rp_min_market_spread_bps := double_or p ''min_market_spread_bps'' (Fin 0),
                                  rp_use_micro_price := bool_or p ''use_micro_price'' False\<rparr>\<rparr> in
                      if \<not> spec_is_valid (in_instrument init) then (s, FailedPrecondition)
                      else if \<not> is_on_step (rp_quote_size (rm_params s)) (is_lot_size (in_instrument init))
                        then (s, InvalidArgument)
                      else (s\<lparr>rm_instrument := in_instrument init, rm_initialized := True, rm_fills_seen := 0\<rparr>, Ok))))))"

definition rmm_reference :: "ReferenceMarketMaker \<Rightarrow> StrategyContext \<Rightarrow> px" where
  "rmm_reference s c = (if rp_use_micro_price (rm_params s) then micro_price (sc_bbo c) else mid (sc_bbo c))"

definition market_spread_bps :: "StrategyContext \<Rightarrow> px \<Rightarrow> rat" where
  "market_spread_bps c reference = ddiv (dmul 10000 (of_int64 (spread (sc_bbo c)))) (of_int64 reference)"

definition spread_too_tight :: "ReferenceMarketMaker \<Rightarrow> StrategyContext \<Rightarrow> px \<Rightarrow> bool" where
  "spread_too_tight s c reference \<longleftrightarrow>
     x_lt (Fin 0) (rp_min_market_spread_bps (rm_params s))
     \<and> x_lt (Fin (market_spread_bps c reference)) (rp_min_market_spread_bps (rm_params s))"

definition skew_bps :: "ReferenceMarketMaker \<Rightarrow> StrategyContext \<Rightarrow> cdouble" where
  "skew_bps s c = x_mul (Fin (- utilisation (sc_inventory c))) (rp_inventory_skew_bps (rm_params s))"

definition rmm_quote :: "ReferenceMarketMaker \<Rightarrow> StrategyContext \<Rightarrow> px \<Rightarrow> QuoteIntent" where
  "rmm_quote s c reference =
     (let u = utilisation (sc_inventory c);
          hs = rp_half_spread_bps (rm_params s);
          tick = is_tick_size (rm_instrument s);
          bid = round_to_step (shift_bps reference (x_sub (skew_bps s c) hs)) tick Down;
          ask = round_to_step (shift_bps reference (x_add (skew_bps s c) hs)) tick Up;
          limit = rp_max_inventory_utilisation (rm_params s);
          quote_bid = x_lt (Fin u) limit;
          quote_ask = x_lt (x_neg limit) (Fin u);
          intent = default_intent\<lparr>qi_action := QaQuote, qi_reason := InNormal, qi_market_sequence := sc_sequence c,
            qi_bid_price := bid, qi_ask_price := (if bid \<ge> ask then fx_add bid tick else ask),
            qi_bid_quantity := rp_quote_size (rm_params s), qi_ask_quantity := rp_quote_size (rm_params s),
            qi_quote_bid := quote_bid, qi_quote_ask := quote_ask\<rparr>
      in if \<not> quote_bid \<and> \<not> quote_ask then pull_intent InInventoryLimit
         else if \<not> quote_bid \<or> \<not> quote_ask then intent\<lparr>qi_reason := InInventoryLimit\<rparr>
         else intent)"

definition rmm_decide :: "ReferenceMarketMaker \<Rightarrow> StrategyContext \<Rightarrow> QuoteIntent" where
  "rmm_decide s c =
     (if \<not> rm_initialized s then pull_intent InWarmup
      else if \<not> has_two_sided_market c then pull_intent InInsufficientDepth
      else (let reference = rmm_reference s c
            in if \<not> reference > 0 then pull_intent InInsufficientDepth
               else if spread_too_tight s c reference then pull_intent InSpreadTooTight
               else rmm_quote s c reference))"

definition rmm_on_fill :: "ReferenceMarketMaker \<Rightarrow> StrategyFill \<Rightarrow> ReferenceMarketMaker" where
  "rmm_on_fill s f = s\<lparr>rm_fills_seen := inc64 (rm_fills_seen s)\<rparr>"

definition rmm_reset :: "ReferenceMarketMaker \<Rightarrow> ReferenceMarketMaker" where
  "rmm_reset s = s\<lparr>rm_fills_seen := 0\<rparr>"

definition rmm_identity :: StrategyIdentity where
  "rmm_identity = no_identity\<lparr>si_name := ''reference_mm_v1'', si_version := 1\<rparr>"

text \<open>The virtual table: no callback throws.\<close>

definition reference_mm :: "ReferenceMarketMaker IStrategy" where
  "reference_mm =
     \<lparr>is_initialize = (\<lambda>s init. case rmm_initialize s init of (s', e) \<Rightarrow> (s', Returned e)),
      is_on_market_update = (\<lambda>s c. (s, Returned (rmm_decide s c))),
      is_on_timer = (\<lambda>s c. (s, Returned (rmm_decide s c))),
      is_on_fill = (\<lambda>s f. (rmm_on_fill s f, Returned ())),
      is_on_order_event = (\<lambda>s e. (s, Returned ())),
      is_reset = (\<lambda>s. (rmm_reset s, Returned ())),
      is_identity = (\<lambda>s. rmm_identity)\<rparr>"

definition reference_mm_registration :: "ReferenceMarketMaker registration" where
  "reference_mm_registration =
     \<lparr>rn_name = ''reference_mm_v1'', rn_version = 1,
      rn_description = ''TEST/REFERENCE ONLY - deterministic symmetric quotes; not a trading strategy and not suitable for live use'',
      rn_factory = Some (Some new_rmm)\<rparr>"

section \<open>What a successful initialisation establishes\<close>

definition rmm_ready :: "ReferenceMarketMaker \<Rightarrow> bool" where
  "rmm_ready s \<longleftrightarrow> rm_initialized s \<and> spec_is_valid (rm_instrument s) \<and> 0 < rp_quote_size (rm_params s)
     \<and> is_on_step (rp_quote_size (rm_params s)) (is_lot_size (rm_instrument s))
     \<and> \<not> x_le (rp_half_spread_bps (rm_params s)) (Fin 0) \<and> \<not> x_lt (rp_inventory_skew_bps (rm_params s)) (Fin 0)"

lemma rmm_initialize_ready:
  "rmm_initialize s init = (s', Ok) \<Longrightarrow> rmm_ready s' \<and> rm_instrument s' = in_instrument init"
  by (auto simp: rmm_initialize_def rmm_ready_def Let_def get_double_def get_qty_def get_with_def
      split: sum.splits if_splits option.splits)

lemma rmm_callbacks_ready: "rmm_ready s \<Longrightarrow> rmm_ready (rmm_on_fill s f)" "rmm_ready s \<Longrightarrow> rmm_ready (rmm_reset s)"
  by (simp_all add: rmm_ready_def rmm_on_fill_def rmm_reset_def)

section \<open>Prices\<close>

text \<open>Offsets of at most ten thousand basis points keep every step of the price arithmetic in range.\<close>

lemma rat_trunc_mono: "x \<le> y \<Longrightarrow> rat_trunc x \<le> rat_trunc y"
proof -
  assume a: "x \<le> y"
  consider "x < 0" "y < 0" | "x < 0" "0 \<le> y" | "0 \<le> x" by linarith
  then show ?thesis
  proof cases
    case 2
    then have "\<lceil>x\<rceil> \<le> 0" "0 \<le> \<lfloor>y\<rfloor>" by simp_all
    then have "\<lceil>x\<rceil> \<le> \<lfloor>y\<rfloor>" by (rule order_trans)
    then show ?thesis using 2 by (simp only: rat_trunc_def) simp
  qed (use a in \<open>auto simp: rat_trunc_def ceiling_mono floor_mono\<close>)
qed

lemma rat_trunc_of_int [simp]: "rat_trunc (of_int n) = n"
  by (simp add: rat_trunc_def)

definition bps_ok :: "rat \<Rightarrow> bool" where
  "bps_ok b \<longleftrightarrow> \<bar>b\<bar> \<le> 10000"

lemma scaled_bps_range:
  assumes "bps_ok b"
  shows "\<bar>rat_trunc (dmul b 100)\<bar> \<le> 1000000" "\<bar>dmul b 100\<bar> \<le> 1000000"
proof -
  have e: "fl (of_int 1000000) = of_int 1000000" "fl (of_int (- 1000000)) = of_int (- 1000000)"
    by (intro fl_of_int; simp)+
  have "b * 100 \<le> of_int 1000000" "of_int (- 1000000) \<le> b * 100" using assms by (auto simp: bps_ok_def)
  then have d: "dmul b 100 \<le> of_int 1000000" "of_int (- 1000000) \<le> dmul b 100"
    unfolding dmul_def using e fl_mono by metis+
  then show "\<bar>dmul b 100\<bar> \<le> 1000000" by simp
  show "\<bar>rat_trunc (dmul b 100)\<bar> \<le> 1000000"
    using rat_trunc_mono [OF d(1)] rat_trunc_mono [OF d(2)] by (simp only: rat_trunc_of_int)
qed

lemma shift_bps_eq:
  assumes "bps_ok b" "0 < p" "p \<le> 2 ^ 60"
  shows "shift_bps p (Fin b) = p * (1000000 + rat_trunc (dmul b 100)) div 1000000"
    "0 \<le> shift_bps p (Fin b)" "shift_bps p (Fin b) \<le> 2 * p"
proof -
  define t where "t = rat_trunc (dmul b 100)"
  note r = scaled_bps_range [OF assms(1)]
  have t: "\<bar>t\<bar> \<le> 1000000" using r(1) by (simp add: t_def)
  then have i: "in64 t" by (auto simp: in64_def)
  have "\<not> 2 ^ 1024 \<le> \<bar>dmul b 100\<bar>" using r(2) by (simp add: not_le)
  then have x: "x_to_int64 (x_mul (Fin b) (Fin 100)) = t"
    using i by (simp add: to_cdouble_def t_def Let_def)
  have w: "wrap64 (1000000 + t) = 1000000 + t" using t by (intro wrap64_id) (auto simp: in64_def)
  have num: "0 \<le> p * (1000000 + t)" "p * (1000000 + t) \<le> p * 2000000"
    using assms(2) t by (auto intro!: mult_left_mono)
  have q: "0 \<le> p * (1000000 + t) div 1000000" "p * (1000000 + t) div 1000000 \<le> 2 * p"
    using num by (simp add: pos_imp_zdiv_nonneg_iff, linarith)
  have "shift_bps p (Fin b) = wrap64 (p * (1000000 + t) sdiv 1000000)"
    unfolding shift_bps_def Let_def x w by (simp add: scaled_by_def)
  also have "\<dots> = p * (1000000 + t) div 1000000"
    using num(1) q assms(3) by (simp add: sdiv_nonneg in64_def)
  finally show e: "shift_bps p (Fin b) = p * (1000000 + rat_trunc (dmul b 100)) div 1000000" by (simp add: t_def)
  show "0 \<le> shift_bps p (Fin b)" "shift_bps p (Fin b) \<le> 2 * p" unfolding e using q by (simp_all add: t_def)
qed

lemma shift_bps_mono:
  assumes "bps_ok a" "bps_ok b" "a \<le> b" "0 < p" "p \<le> 2 ^ 60"
  shows "shift_bps p (Fin a) \<le> shift_bps p (Fin b)"
proof -
  have "rat_trunc (dmul a 100) \<le> rat_trunc (dmul b 100)"
    unfolding dmul_def using assms(3) by (intro rat_trunc_mono fl_mono) simp
  then show ?thesis
    unfolding shift_bps_eq(1) [OF assms(1,4,5)] shift_bps_eq(1) [OF assms(2,4,5)]
    using assms(4) by (intro zdiv_mono1 mult_left_mono) auto
qed

section \<open>The quotes pass the runtime's structural checks\<close>

text \<open>The offsets a context leads to, when every parameter is finite.\<close>

definition offsets_ok :: "ReferenceMarketMaker \<Rightarrow> StrategyContext \<Rightarrow> bool" where
  "offsets_ok s c \<longleftrightarrow>
     (case (skew_bps s c, rp_half_spread_bps (rm_params s)) of
        (Fin k, Fin h) \<Rightarrow> bps_ok (dsub k h) \<and> bps_ok (dadd k h)
      | _ \<Rightarrow> False)"

lemma offsets_Fin:
  assumes "offsets_ok s c" "rmm_ready s"
  obtains lo hi where "x_sub (skew_bps s c) (rp_half_spread_bps (rm_params s)) = Fin lo"
    "x_add (skew_bps s c) (rp_half_spread_bps (rm_params s)) = Fin hi" "bps_ok lo" "bps_ok hi" "lo \<le> hi"
proof -
  obtain k h where kh: "skew_bps s c = Fin k" "rp_half_spread_bps (rm_params s) = Fin h"
    "bps_ok (dsub k h)" "bps_ok (dadd k h)"
    using assms(1) by (auto simp: offsets_ok_def split: cdouble.splits)
  have h: "0 < h" using assms(2) kh(2) by (auto simp: rmm_ready_def)
  have big: "\<not> 2 ^ 1024 \<le> \<bar>b\<bar>" if "bps_ok b" for b :: rat
    using that by (simp add: bps_ok_def not_le)
  have "x_sub (Fin k) (Fin h) = Fin (dsub k h)" "x_add (Fin k) (Fin h) = Fin (dadd k h)"
    using big [OF kh(3)] big [OF kh(4)] by (simp_all add: x_sub_def to_cdouble_def dadd_def dsub_def)
  moreover have "dsub k h \<le> dadd k h" unfolding dsub_def dadd_def using h by (intro fl_mono) simp
  ultimately show thesis using that kh by simp
qed

lemma rmm_prices:
  assumes "rmm_ready s" "offsets_ok s c" "0 < p" "p \<le> 2 ^ 60" "is_tick_size (rm_instrument s) \<le> 2 ^ 60"
  shows "is_on_step (qi_bid_price (rmm_quote s c p)) (is_tick_size (rm_instrument s))
       \<and> is_on_step (qi_ask_price (rmm_quote s c p)) (is_tick_size (rm_instrument s))
       \<and> (qi_action (rmm_quote s c p) = QaQuote \<longrightarrow> qi_bid_price (rmm_quote s c p) < qi_ask_price (rmm_quote s c p))"
proof -
  define tick where "tick = is_tick_size (rm_instrument s)"
  have tick: "0 < tick" "tick \<le> 2 ^ 60" using assms(1,5) by (auto simp: tick_def rmm_ready_def spec_is_valid_def)
  obtain lo hi where o: "x_sub (skew_bps s c) (rp_half_spread_bps (rm_params s)) = Fin lo"
    "x_add (skew_bps s c) (rp_half_spread_bps (rm_params s)) = Fin hi" "bps_ok lo" "bps_ok hi" "lo \<le> hi"
    by (rule offsets_Fin [OF assms(2,1)])
  define b where "b = shift_bps p (Fin lo)"
  define a where "a = shift_bps p (Fin hi)"
  have rng: "0 \<le> b" "b \<le> 2 * p" "0 \<le> a" "a \<le> 2 * p" "b \<le> a"
    using shift_bps_eq(2,3) [OF o(3) assms(3,4)] shift_bps_eq(2,3) [OF o(4) assms(3,4)]
      shift_bps_mono [OF o(3,4,5) assms(3,4)] by (simp_all add: a_def b_def)
  have i64: "in64 b" "in64 (b + tick)" "in64 (b - tick)" "in64 a" "in64 (a + tick)" "in64 (a - tick)"
    using rng tick assms(4) by (simp_all add: in64_def)
  define bid where "bid = round_to_step b tick Down"
  define ask where "ask = round_to_step a tick Up"
  have bid: "tick dvd bid" "bid \<le> b" "b < bid + tick"
    using round_to_step_Down [OF tick(1) i64(1,3)] tick(1)
      pos_mod_bound [OF tick(1), of b] pos_mod_sign [OF tick(1), of b] minus_mod_eq_div_mult [of b tick]
    by (simp_all add: bid_def)
  have up: "ask = - (- a div tick) * tick" unfolding ask_def by (rule round_to_step_Up [OF tick(1) i64(4,5)])
  have ask: "tick dvd ask" "a \<le> ask"
    using pos_mod_sign [OF tick(1), of "- a"] minus_mod_eq_div_mult [of "- a" tick] unfolding up by (simp, linarith)
  have w: "fx_add bid tick = bid + tick"
    unfolding fx_add_def using bid rng tick assms(4) by (intro wrap64_id) (simp add: in64_def)
  have pr: "qi_bid_price (rmm_quote s c p) = (if qi_action (rmm_quote s c p) = QaQuote then bid else 0)"
    "qi_ask_price (rmm_quote s c p) = (if qi_action (rmm_quote s c p) = QaQuote then (if bid \<ge> ask then bid + tick else ask) else 0)"
    unfolding rmm_quote_def Let_def o tick_def [symmetric] b_def [symmetric] a_def [symmetric] bid_def [symmetric]
      ask_def [symmetric] w
    by (simp_all add: pull_intent_def default_intent_def)
  show ?thesis unfolding pr tick_def [symmetric] using bid ask tick by (simp add: is_on_step_dvd)
qed

lemma rmm_quote_fields:
  "qi_action (rmm_quote s c p) = QaQuote \<Longrightarrow>
     qi_bid_quantity (rmm_quote s c p) = rp_quote_size (rm_params s)
   \<and> qi_ask_quantity (rmm_quote s c p) = rp_quote_size (rm_params s)
   \<and> qi_market_sequence (rmm_quote s c p) = sc_sequence c
   \<and> (qi_quote_bid (rmm_quote s c p) \<or> qi_quote_ask (rmm_quote s c p))
   \<and> (qi_quote_bid (rmm_quote s c p) \<longleftrightarrow> x_lt (Fin (utilisation (sc_inventory c))) (rp_max_inventory_utilisation (rm_params s)))
   \<and> (qi_quote_ask (rmm_quote s c p) \<longleftrightarrow> x_lt (x_neg (rp_max_inventory_utilisation (rm_params s))) (Fin (utilisation (sc_inventory c))))"
  by (auto simp: rmm_quote_def Let_def pull_intent_def default_intent_def split: if_splits)

lemma rmm_decide_cases:
  "(\<exists>r. rmm_decide s c = pull_intent r)
   \<or> rmm_initialized_context"
  if "rmm_initialized_context = (rm_initialized s \<and> 0 < rmm_reference s c \<and> rmm_decide s c = rmm_quote s c (rmm_reference s c)
        \<and> qi_action (rmm_decide s c) = QaQuote)"
  using that by (auto simp: rmm_decide_def rmm_quote_def Let_def default_intent_def)

text \<open>Which of the runtime's causes remain for a side with these prices and sizes.\<close>

lemma validate_side_remaining:
  "is_on_step price (is_tick_size spec) \<Longrightarrow> 0 < quantity \<Longrightarrow> is_on_step quantity (is_lot_size spec)
   \<Longrightarrow> validate_side price quantity spec touch limits
       \<in> {IrNone, IrNonPositivePrice, IrQuantityAboveVenueMax, IrNotionalTooSmall, IrQuoteTooFarFromTouch}"
  by (simp add: validate_side_def Let_def)

text \<open>
  C29. Once the reference strategy has initialised successfully, every intent it returns for a market on the instrument
  it was initialised with passes the runtime's validation for action, identity, sequence, tick grid, lot grid, size sign
  and crossing, whatever the limits are: the only causes left are a price at or below zero, the venue's size and
  notional limits and the distance from the touch. The inputs are finite offsets of at most ten thousand basis points and
  prices and ticks up to \<open>2 ^ 60\<close>.
\<close>

theorem reference_quotes_are_well_formed:
  assumes "rmm_initialize s0 init = (s, Ok)" "sc_instrument c = Some (in_instrument init)" "identity_is_valid ident"
    "offsets_ok s c" "rmm_reference s c \<le> 2 ^ 60" "is_tick_size (in_instrument init) \<le> 2 ^ 60"
  shows "validate_intent ((rmm_decide s c)\<lparr>qi_identity := ident\<rparr>) c ident limits
         \<in> {IrNone, IrNonPositivePrice, IrQuantityAboveVenueMax, IrNotionalTooSmall, IrQuoteTooFarFromTouch}"
proof -
  have ready: "rmm_ready s" and inst: "rm_instrument s = in_instrument init"
    using rmm_initialize_ready [OF assms(1)] by auto
  define q where "q = rmm_decide s c"
  consider (pull) r where "q = pull_intent r"
    | (quote) "0 < rmm_reference s c" "q = rmm_quote s c (rmm_reference s c)" "qi_action q = QaQuote"
    using rmm_decide_cases [OF refl, of s c] by (auto simp: q_def)
  then show ?thesis
  proof cases
    case pull
    then show ?thesis unfolding q_def [symmetric] by (simp add: validate_intent_def pull_intent_def)
  next
    case quote
    have tick: "is_tick_size (rm_instrument s) \<le> 2 ^ 60" using assms(6) by (simp add: inst)
    note pr = rmm_prices [OF ready assms(4) quote(1) assms(5) tick, folded quote(2), unfolded inst]
    note f = rmm_quote_fields [of s c "rmm_reference s c", folded quote(2), OF quote(3)]
    have spec: "spec_is_valid (in_instrument init)" "0 < rp_quote_size (rm_params s)"
      "is_on_step (rp_quote_size (rm_params s)) (is_lot_size (in_instrument init))"
      using ready inst by (auto simp: rmm_ready_def)
    note vs = validate_side_remaining [OF _ spec(2,3)]
    show ?thesis
      unfolding q_def [symmetric] validate_intent_def validate_sides_def Let_def
      using assms(2,3) quote(3) f spec(1) pr vs [OF conjunct1 [OF pr]] vs [OF conjunct1 [OF conjunct2 [OF pr]]]
      by auto
  qed
qed

section \<open>Parameters that get through\<close>

definition demo_rmm_init :: "string \<Rightarrow> string \<Rightarrow> StrategyInit" where
  "demo_rmm_init half skew =
     \<lparr>in_symbol = ''BTC'', in_instrument = demo_instrument,
      in_params = [''half_spread_bps'' \<mapsto> half, ''quote_size'' \<mapsto> ''0.0000001'', ''inventory_skew_bps'' \<mapsto> skew],
      in_identity = rmm_identity\<rparr>"

text \<open>A not-a-number spread is not below zero, so it is accepted.\<close>

lemma demo_numbers:
  "from_chars_double ''nan'' = Some NaN" "from_chars_double ''2,5'' = None" "parse_fixed_raw ''0.0000001'' = Some 10"
  "\<not> fl (9 / 10) \<le> 0" "\<not> 1 < fl (9 / 10)"
  by code_simp+

lemma demo_whole_numbers:
  "from_chars_double ''5'' = Some (Fin 5)" "from_chars_double ''2'' = Some (Fin 2)"
  "from_chars_double ''-2'' = Some (Fin (- 2))"
  using nearest_double_int [of 5] nearest_double_int [of 2] nearest_double_int [of "- 2"]
  by (simp_all add: from_chars_double_def Let_def is_digit_def digit_value_def parse_exp10_def)

lemmas demo_rmm_defs = rmm_initialize_def Let_def demo_rmm_init_def get_double_def get_qty_def get_with_def double_or_def
  value_or_def demo_numbers demo_whole_numbers demo_instrument_def spec_is_valid_def is_on_step_dvd

lemma nan_half_spread_accepted: "snd (rmm_initialize new_rmm (demo_rmm_init ''nan'' ''2'')) = Ok"
  by (simp add: demo_rmm_defs)

text \<open>A malformed optional parameter is the default, not an error.\<close>

lemma malformed_skew_defaulted:
  "snd (rmm_initialize new_rmm (demo_rmm_init ''5'' ''2,5'')) = Ok
   \<and> rp_inventory_skew_bps (rm_params (fst (rmm_initialize new_rmm (demo_rmm_init ''5'' ''2,5'')))) = Fin 0"
  by (simp add: demo_rmm_defs)

lemma negative_skew_refused: "snd (rmm_initialize new_rmm (demo_rmm_init ''5'' ''-2'')) = InvalidArgument"
  by (simp add: demo_rmm_defs)

definition demo_rmm_context :: StrategyContext where
  "demo_rmm_context = (demo_context True)\<lparr>sc_instrument := Some demo_instrument\<rparr>"

theorem reference_quotes_are_well_formed_witness:
  "validate_intent ((rmm_decide (fst (rmm_initialize new_rmm (demo_rmm_init ''5'' ''2''))) demo_rmm_context)\<lparr>qi_identity := rmm_identity\<rparr>)
     demo_rmm_context rmm_identity \<lparr>il_max_distance_from_touch_bps = 0, il_require_matching_sequence = True\<rparr>
   \<in> {IrNone, IrNonPositivePrice, IrQuantityAboveVenueMax, IrNotionalTooSmall, IrQuoteTooFarFromTouch}"
proof -
  have ok: "rmm_initialize new_rmm (demo_rmm_init ''5'' ''2'') = (fst (rmm_initialize new_rmm (demo_rmm_init ''5'' ''2'')), Ok)"
  proof -
    have "snd (rmm_initialize new_rmm (demo_rmm_init ''5'' ''2'')) = Ok" by (simp add: demo_rmm_defs)
    then show ?thesis by (metis prod.collapse)
  qed
  define s where "s = fst (rmm_initialize new_rmm (demo_rmm_init ''5'' ''2''))"
  have p: "rp_half_spread_bps (rm_params s) = Fin 5" "rp_inventory_skew_bps (rm_params s) = Fin 2"
    "rp_use_micro_price (rm_params s) = False"
    unfolding s_def by (simp_all add: demo_rmm_defs bool_or_def get_bool_def)
  have u: "utilisation (sc_inventory demo_rmm_context) = 0"
    by (simp add: demo_rmm_context_def demo_context_def utilisation_def)
  have o: "offsets_ok s demo_rmm_context"
    using fl_of_int [of 5] fl_of_int [of "- 5"]
    by (simp add: offsets_ok_def skew_bps_def p u to_cdouble_def dmul_def dsub_def dadd_def bps_ok_def)
  have r: "rmm_reference s demo_rmm_context \<le> 2 ^ 60"
    by (simp add: rmm_reference_def p demo_rmm_context_def demo_context_def mid_def wrap64_def)
  have i: "sc_instrument demo_rmm_context = Some (in_instrument (demo_rmm_init ''5'' ''2''))"
    "is_tick_size (in_instrument (demo_rmm_init ''5'' ''2'')) \<le> 2 ^ 60" "identity_is_valid rmm_identity"
    by (simp_all add: demo_rmm_context_def demo_rmm_init_def demo_instrument_def rmm_identity_def identity_is_valid_def)
  show ?thesis by (rule reference_quotes_are_well_formed [OF ok i(1) i(3) o [unfolded s_def] r [unfolded s_def] i(2)])
qed

end
