(* ===== verification/OrderBook.thy ===== *)
theory OrderBook
  imports ExecutionEvents
begin

text \<open>
  The local L2 book, \<^verbatim>\<open>OrderBook.hpp\<close> and \<^verbatim>\<open>OrderBook.cpp\<close>: two price-ordered vectors, a staging area for
  chunked snapshots, incremental diffs, bounded depth. Iterators are positions, \<open>std::lower_bound\<close> is its
  halving loop, \<open>std::sort\<close> a sort by price. The two sides share one ladder interface, the locale
  \<open>ladder\<close>, whose laws say that applying a level is a map update as long as nothing is cut off.
\<close>

section \<open>Definitions\<close>

datatype BookViolation =
    BvNone | BvCrossedBook | BvLockedBook | BvNegativeQuantity | BvZeroQuantityLevel
  | BvNonPositivePrice | BvUnsortedLevels | BvDuplicateLevel | BvDepthExceeded | BvSequenceRegression

definition is_better :: "Side \<Rightarrow> px \<Rightarrow> px \<Rightarrow> bool" where
  "is_better side a b = (if side = Buy then a > b else a < b)"

text \<open>The halving loop of \<open>std::lower_bound\<close> over \<open>[first, first + len)\<close>.\<close>

function lower_bound :: "PriceLevel list \<Rightarrow> Side \<Rightarrow> px \<Rightarrow> nat \<Rightarrow> nat \<Rightarrow> nat" where
  "lower_bound side which price first len =
     (if len = 0 then first
      else let half = len div 2; middle = first + half
           in if is_better which (pl_price (side ! middle)) price
              then lower_bound side which price (middle + 1) (len - half - 1)
              else lower_bound side which price first half)"
  by pat_completeness auto
termination
  by (relation "measure (\<lambda>(_, _, _, _, len). len)") auto

declare lower_bound.simps [simp del]

definition locate :: "PriceLevel list \<Rightarrow> Side \<Rightarrow> px \<Rightarrow> nat" where
  "locate side which price = lower_bound side which price 0 (length side)"

record OrderBook =
  ob_symbol :: string
  ob_max_depth :: nat
  ob_bids :: "PriceLevel list"
  ob_asks :: "PriceLevel list"
  ob_staging_bids :: "PriceLevel list"
  ob_staging_asks :: "PriceLevel list"
  ob_building_snapshot :: bool
  ob_last_update_id :: seq
  ob_snapshot_applied :: bool
  ob_violated :: bool
  ob_violation :: BookViolation
  ob_updates_applied :: nat
  ob_levels_dropped :: nat

definition kDefaultMaxDepth :: nat where
  "kDefaultMaxDepth = 50"

definition kNoSeq :: seq where
  "kNoSeq = 0"

definition ob_clear :: "OrderBook \<Rightarrow> OrderBook" where
  "ob_clear b = b\<lparr>ob_bids := [], ob_asks := [], ob_staging_bids := [], ob_staging_asks := [],
     ob_building_snapshot := False, ob_last_update_id := kNoSeq, ob_snapshot_applied := False,
     ob_violated := False, ob_violation := BvNone\<rparr>"

definition ob_reset :: "OrderBook \<Rightarrow> string \<Rightarrow> nat \<Rightarrow> OrderBook" where
  "ob_reset b symbol max_depth =
     ob_clear (b\<lparr>ob_symbol := symbol, ob_max_depth := (if max_depth = 0 then kDefaultMaxDepth else max_depth)\<rparr>)"

definition new_book :: "string \<Rightarrow> nat \<Rightarrow> OrderBook" where
  "new_book symbol max_depth =
     ob_reset \<lparr>ob_symbol = [], ob_max_depth = kDefaultMaxDepth, ob_bids = [], ob_asks = [],
       ob_staging_bids = [], ob_staging_asks = [], ob_building_snapshot = False, ob_last_update_id = kNoSeq,
       ob_snapshot_applied = False, ob_violated = False, ob_violation = BvNone, ob_updates_applied = 0,
       ob_levels_dropped = 0\<rparr> symbol max_depth"

definition mark_invalid :: "OrderBook \<Rightarrow> BookViolation \<Rightarrow> OrderBook" where
  "mark_invalid b v = b\<lparr>ob_violated := True, ob_violation := v\<rparr>"

definition begin_snapshot :: "OrderBook \<Rightarrow> OrderBook" where
  "begin_snapshot b = b\<lparr>ob_staging_bids := [], ob_staging_asks := [], ob_building_snapshot := True\<rparr>"

text \<open>One side of a snapshot chunk: the staged levels so far and whether a level was refused.\<close>

fun stage_levels :: "PriceLevel list \<Rightarrow> PriceLevel list \<Rightarrow> PriceLevel list \<times> bool" where
  "stage_levels staged [] = (staged, True)"
| "stage_levels staged (l # ls) =
     (if pl_quantity l = 0 then stage_levels staged ls
      else if \<not> pl_price l > 0 \<or> pl_quantity l < 0 then (staged, False)
      else stage_levels (staged @ [l]) ls)"

definition add_snapshot_levels :: "OrderBook \<Rightarrow> BookLevels \<Rightarrow> OrderBook \<times> ErrorCode" where
  "add_snapshot_levels b levels =
     (if \<not> ob_building_snapshot b then (b, FailedPrecondition)
      else if \<not> counts_are_sane levels then (b, OutOfRange)
      else
        let (bids, bids_ok) = stage_levels (ob_staging_bids b) (take (bl_bid_count levels) (bl_bids levels));
            b1 = b\<lparr>ob_staging_bids := bids\<rparr>
        in if \<not> bids_ok then (b1, InvalidArgument)
           else
             let (asks, asks_ok) = stage_levels (ob_staging_asks b1) (take (bl_ask_count levels) (bl_asks levels));
                 b2 = b1\<lparr>ob_staging_asks := asks\<rparr>
             in if \<not> asks_ok then (b2, InvalidArgument) else (b2, Ok))"

fun has_duplicates :: "PriceLevel list \<Rightarrow> bool" where
  "has_duplicates (a # b # ls) = (pl_price a = pl_price b \<or> has_duplicates (b # ls))"
| "has_duplicates _ = False"

definition sort_bids :: "PriceLevel list \<Rightarrow> PriceLevel list" where
  "sort_bids ls = sort_key (\<lambda>l. - pl_price l) ls"

definition sort_asks :: "PriceLevel list \<Rightarrow> PriceLevel list" where
  "sort_asks ls = sort_key pl_price ls"

definition finish_snapshot :: "OrderBook \<Rightarrow> seq \<Rightarrow> OrderBook \<times> ErrorCode" where
  "finish_snapshot b last_update_id =
     (if \<not> ob_building_snapshot b then (b, FailedPrecondition)
      else
        let b1 = b\<lparr>ob_building_snapshot := False, ob_staging_bids := sort_bids (ob_staging_bids b),
                   ob_staging_asks := sort_asks (ob_staging_asks b)\<rparr>
        in if has_duplicates (ob_staging_bids b1) \<or> has_duplicates (ob_staging_asks b1)
           then (mark_invalid b1 BvDuplicateLevel, InvalidArgument)
           else
             let b2 = b1\<lparr>ob_staging_bids := take (ob_max_depth b1) (ob_staging_bids b1),
                         ob_staging_asks := take (ob_max_depth b1) (ob_staging_asks b1)\<rparr>
             in if ob_staging_bids b2 \<noteq> [] \<and> ob_staging_asks b2 \<noteq> []
                   \<and> pl_price (hd (ob_staging_bids b2)) \<ge> pl_price (hd (ob_staging_asks b2))
                then (mark_invalid b2 (if pl_price (hd (ob_staging_bids b2)) = pl_price (hd (ob_staging_asks b2))
                                       then BvLockedBook else BvCrossedBook), InvalidArgument)
                else (b2\<lparr>ob_bids := ob_staging_bids b2, ob_asks := ob_staging_asks b2,
                         ob_staging_bids := [], ob_staging_asks := [], ob_last_update_id := last_update_id,
                         ob_snapshot_applied := True, ob_violated := False, ob_violation := BvNone\<rparr>, Ok))"

text \<open>The vector one update changes, with the counters of the book it touches.\<close>

definition trim :: "nat \<Rightarrow> PriceLevel list \<Rightarrow> PriceLevel list \<times> bool" where
  "trim max_depth side = (if length side > max_depth then (take max_depth side, True) else (side, False))"

datatype LevelResult = Refused BookViolation | Applied "PriceLevel list" bool

definition apply_to_side :: "nat \<Rightarrow> Side \<Rightarrow> PriceLevel list \<Rightarrow> PriceLevel \<Rightarrow> LevelResult" where
  "apply_to_side max_depth which side level =
     (if \<not> pl_price level > 0 then Refused BvNonPositivePrice
      else if pl_quantity level < 0 then Refused BvNegativeQuantity
      else
        let it = locate side which (pl_price level);
            found = (it < length side \<and> pl_price (side ! it) = pl_price level)
        in if pl_quantity level = 0 then
             Applied (if found then take it side @ drop (it + 1) side else side) False
           else if found then Applied (side[it := (side ! it)\<lparr>pl_quantity := pl_quantity level\<rparr>]) False
           else if length side \<ge> max_depth \<and> it = length side then Applied side True
           else (let (s, dropped) = trim max_depth (take it side @ [level] @ drop it side)
                 in Applied s dropped))"

definition side_of :: "OrderBook \<Rightarrow> Side \<Rightarrow> PriceLevel list" where
  "side_of b which = (if which = Buy then ob_bids b else ob_asks b)"

definition set_side :: "OrderBook \<Rightarrow> Side \<Rightarrow> PriceLevel list \<Rightarrow> OrderBook" where
  "set_side b which s = (if which = Buy then b\<lparr>ob_bids := s\<rparr> else b\<lparr>ob_asks := s\<rparr>)"

definition apply_level :: "OrderBook \<Rightarrow> Side \<Rightarrow> PriceLevel \<Rightarrow> OrderBook \<times> ErrorCode" where
  "apply_level b which level =
     (case apply_to_side (ob_max_depth b) which (side_of b which) level of
        Refused v \<Rightarrow> (mark_invalid b v, InvalidArgument)
      | Applied s dropped \<Rightarrow>
          (let b1 = set_side b which s
           in (if dropped then b1\<lparr>ob_levels_dropped := inc64 (ob_levels_dropped b1)\<rparr> else b1, Ok)))"

fun apply_levels :: "OrderBook \<Rightarrow> Side \<Rightarrow> PriceLevel list \<Rightarrow> OrderBook \<times> ErrorCode" where
  "apply_levels b which [] = (b, Ok)"
| "apply_levels b which (l # ls) =
     (let (b1, s) = apply_level b which l in if is_err s then (b1, s) else apply_levels b1 which ls)"

definition ob_apply_update :: "OrderBook \<Rightarrow> BookLevels \<Rightarrow> seq \<Rightarrow> OrderBook \<times> ErrorCode" where
  "ob_apply_update b levels final_update_id =
     (if \<not> ob_snapshot_applied b then (b, FailedPrecondition)
      else if \<not> counts_are_sane levels then (mark_invalid b BvDepthExceeded, OutOfRange)
      else if final_update_id \<noteq> kNoSeq \<and> final_update_id < ob_last_update_id b
        then (mark_invalid b BvSequenceRegression, FailedPrecondition)
      else
        let (b1, s1) = apply_levels b Buy (take (bl_bid_count levels) (bl_bids levels))
        in if is_err s1 then (b1, s1)
           else
             let (b2, s2) = apply_levels b1 Sell (take (bl_ask_count levels) (bl_asks levels))
             in if is_err s2 then (b2, s2)
                else if ob_bids b2 \<noteq> [] \<and> ob_asks b2 \<noteq> []
                      \<and> pl_price (hd (ob_bids b2)) > pl_price (hd (ob_asks b2))
                  then (mark_invalid b2 BvCrossedBook, FailedPrecondition)
                else if ob_bids b2 \<noteq> [] \<and> ob_asks b2 \<noteq> []
                      \<and> pl_price (hd (ob_bids b2)) = pl_price (hd (ob_asks b2))
                  then (mark_invalid b2 BvLockedBook, FailedPrecondition)
                else
                  (let b3 = (if final_update_id \<noteq> kNoSeq then b2\<lparr>ob_last_update_id := final_update_id\<rparr> else b2)
                   in (b3\<lparr>ob_updates_applied := inc64 (ob_updates_applied b3)\<rparr>, Ok)))"

definition best_bid_price :: "OrderBook \<Rightarrow> px" where
  "best_bid_price b = (if ob_bids b = [] then 0 else pl_price (hd (ob_bids b)))"

definition best_bid_qty :: "OrderBook \<Rightarrow> qty" where
  "best_bid_qty b = (if ob_bids b = [] then 0 else pl_quantity (hd (ob_bids b)))"

definition best_ask_price :: "OrderBook \<Rightarrow> px" where
  "best_ask_price b = (if ob_asks b = [] then 0 else pl_price (hd (ob_asks b)))"

definition best_ask_qty :: "OrderBook \<Rightarrow> qty" where
  "best_ask_qty b = (if ob_asks b = [] then 0 else pl_quantity (hd (ob_asks b)))"

definition bbo :: "OrderBook \<Rightarrow> BestBidAsk" where
  "bbo b = \<lparr>bba_bid_px = best_bid_price b, bba_bid_qty = best_bid_qty b, bba_ask_px = best_ask_price b,
     bba_ask_qty = best_ask_qty b, bba_seq = ob_last_update_id b, bba_exchange_ns = 0\<rparr>"

definition ob_spread :: "OrderBook \<Rightarrow> px" where
  "ob_spread b = (if ob_bids b = [] \<or> ob_asks b = [] then 0
     else fx_sub (pl_price (hd (ob_asks b))) (pl_price (hd (ob_bids b))))"

definition ob_mid :: "OrderBook \<Rightarrow> px" where
  "ob_mid b = (if ob_bids b = [] \<or> ob_asks b = [] then 0
     else wrap64 (pl_price (hd (ob_bids b)) + pl_price (hd (ob_asks b))) sdiv 2)"

definition depth :: "OrderBook \<Rightarrow> Side \<Rightarrow> nat" where
  "depth b side = length (side_of b side)"

definition quantity_in :: "Side \<Rightarrow> PriceLevel list \<Rightarrow> px \<Rightarrow> qty" where
  "quantity_in which levels price =
     (let it = locate levels which price
      in if it = length levels \<or> pl_price (levels ! it) \<noteq> price then 0 else pl_quantity (levels ! it))"

definition quantity_at :: "OrderBook \<Rightarrow> Side \<Rightarrow> px \<Rightarrow> qty" where
  "quantity_at b side price = quantity_in side (side_of b side) price"

definition cumulative_qty :: "OrderBook \<Rightarrow> Side \<Rightarrow> nat \<Rightarrow> qty" where
  "cumulative_qty b side levels =
     foldl (\<lambda>acc l. fx_add acc (pl_quantity l)) 0 (take levels (side_of b side))"

definition ob_is_valid :: "OrderBook \<Rightarrow> bool" where
  "ob_is_valid b \<longleftrightarrow> ob_snapshot_applied b \<and> \<not> ob_violated b"

fun audit_levels :: "Side \<Rightarrow> px option \<Rightarrow> PriceLevel list \<Rightarrow> BookViolation" where
  "audit_levels which prev [] = BvNone"
| "audit_levels which prev (l # ls) =
     (if \<not> pl_price l > 0 then BvNonPositivePrice
      else if pl_quantity l < 0 then BvNegativeQuantity
      else if pl_quantity l = 0 then BvZeroQuantityLevel
      else if prev = Some (pl_price l) then BvDuplicateLevel
      else if (case prev of None \<Rightarrow> False | Some p \<Rightarrow> \<not> is_better which p (pl_price l)) then BvUnsortedLevels
      else audit_levels which (Some (pl_price l)) ls)"

definition audit_side :: "nat \<Rightarrow> Side \<Rightarrow> PriceLevel list \<Rightarrow> BookViolation" where
  "audit_side max_depth which side =
     (if length side > max_depth then BvDepthExceeded else audit_levels which None side)"

definition check_invariants :: "OrderBook \<Rightarrow> BookViolation" where
  "check_invariants b =
     (let bid_violation = audit_side (ob_max_depth b) Buy (ob_bids b)
      in if bid_violation \<noteq> BvNone then bid_violation
         else let ask_violation = audit_side (ob_max_depth b) Sell (ob_asks b)
              in if ask_violation \<noteq> BvNone then ask_violation
                 else if ob_bids b \<noteq> [] \<and> ob_asks b \<noteq> []
                       \<and> pl_price (hd (ob_bids b)) > pl_price (hd (ob_asks b)) then BvCrossedBook
                 else if ob_bids b \<noteq> [] \<and> ob_asks b \<noteq> []
                       \<and> pl_price (hd (ob_bids b)) = pl_price (hd (ob_asks b)) then BvLockedBook
                 else BvNone)"

section \<open>The order of levels and the binary search\<close>

lemma is_better_irrefl [simp]: "\<not> is_better which p p"
  by (simp add: is_better_def)

lemma is_better_trans: "is_better which a b \<Longrightarrow> is_better which b c \<Longrightarrow> is_better which a c"
  by (auto simp: is_better_def split: if_splits)

lemma is_better_total: "\<not> is_better which a b \<Longrightarrow> a \<noteq> b \<Longrightarrow> is_better which b a"
  by (auto simp: is_better_def split: if_splits)

lemma is_better_asym: "is_better which a b \<Longrightarrow> \<not> is_better which b a"
  by (auto simp: is_better_def split: if_splits)

abbreviation level_before :: "Side \<Rightarrow> PriceLevel \<Rightarrow> PriceLevel \<Rightarrow> bool" where
  "level_before which a b \<equiv> is_better which (pl_price a) (pl_price b)"

lemma transp_level_before: "transp (level_before which)"
  by (rule transpI) (rule is_better_trans)

definition insertion_point :: "PriceLevel list \<Rightarrow> Side \<Rightarrow> px \<Rightarrow> nat" where
  "insertion_point side which price = length (takeWhile (\<lambda>l. is_better which (pl_price l) price) side)"

lemma insertion_point_le: "insertion_point side which price \<le> length side"
  by (simp add: insertion_point_def length_takeWhile_le)

lemma better_iff_before_point:
  assumes "sorted_wrt (level_before which) side" and "j < length side"
  shows "is_better which (pl_price (side ! j)) price \<longleftrightarrow> j < insertion_point side which price"
proof
  assume "j < insertion_point side which price"
  then show "is_better which (pl_price (side ! j)) price"
    unfolding insertion_point_def by (metis nth_mem set_takeWhileD takeWhile_nth)
next
  assume b: "is_better which (pl_price (side ! j)) price"
  show "j < insertion_point side which price"
  proof (rule ccontr)
    let ?t = "insertion_point side which price"
    assume "\<not> j < ?t"
    then have t: "?t \<le> j" by simp
    with assms(2) have "\<not> is_better which (pl_price (side ! ?t)) price"
      unfolding insertion_point_def by (intro nth_length_takeWhile) simp
    moreover have "is_better which (pl_price (side ! ?t)) price"
    proof (cases "?t = j")
      case False
      with t have "level_before which (side ! ?t) (side ! j)"
        using sorted_wrt_nth_less [OF assms(1), of ?t j] assms(2) by simp
      then show ?thesis using b by (rule is_better_trans)
    qed (use b in simp)
    ultimately show False by contradiction
  qed
qed

lemma lower_bound_point:
  assumes "sorted_wrt (level_before which) side" and "first \<le> insertion_point side which price"
    and "insertion_point side which price \<le> first + len" and "first + len \<le> length side"
  shows "lower_bound side which price first len = insertion_point side which price"
  using assms
proof (induction side which price first len rule: lower_bound.induct)
  case (1 side which price first len)
  show ?case
  proof (cases "len = 0")
    case True
    with 1 show ?thesis by (simp add: lower_bound.simps)
  next
    case False
    let ?half = "len div 2"
    have mid: "first + ?half < length side" using False "1.prems"(4) by linarith
    note bt = better_iff_before_point [OF "1.prems"(1) mid, of price]
    show ?thesis
    proof (cases "is_better which (pl_price (side ! (first + ?half))) price")
      case True
      with bt have "first + ?half + 1 \<le> insertion_point side which price" by simp
      with 1 False True show ?thesis
        by (subst lower_bound.simps) (simp add: Let_def)
    next
      case F: False
      with bt have "insertion_point side which price \<le> first + ?half" by simp
      with 1 False F mid show ?thesis
        by (subst lower_bound.simps) (simp add: Let_def)
    qed
  qed
qed

lemma locate_point:
  "sorted_wrt (level_before which) side \<Longrightarrow> locate side which price = insertion_point side which price"
  unfolding locate_def by (rule lower_bound_point) (simp_all add: insertion_point_le)

section \<open>One side as a map\<close>

definition ladder_ok :: "nat \<Rightarrow> Side \<Rightarrow> PriceLevel list \<Rightarrow> bool" where
  [inv_defs]: "ladder_ok max_depth which side \<longleftrightarrow> length side \<le> max_depth
     \<and> sorted_wrt (level_before which) side \<and> (\<forall>l\<in>set side. pl_price l > 0 \<and> pl_quantity l > 0)"

definition side_map :: "PriceLevel list \<Rightarrow> px \<Rightarrow> qty option" where
  "side_map side = map_of (map (\<lambda>l. (pl_price l, pl_quantity l)) side)"

lemma side_map_append [simp]: "side_map (xs @ ys) p = (case side_map xs p of None \<Rightarrow> side_map ys p | Some q \<Rightarrow> Some q)"
  by (simp add: side_map_def map_add_def split: option.splits)

lemma side_map_Cons [simp]: "side_map (l # ls) p = (if pl_price l = p then Some (pl_quantity l) else side_map ls p)"
  by (simp add: side_map_def)

lemma side_map_Nil [simp]: "side_map [] p = None"
  by (simp add: side_map_def)

lemma side_map_None_iff: "side_map side p = None \<longleftrightarrow> p \<notin> pl_price ` set side"
  by (simp add: side_map_def map_of_eq_None_iff image_image)

lemma locate_split:
  assumes "sorted_wrt (level_before which) side"
  obtains A B where "side = A @ B" "locate side which p = length A"
    "\<forall>a\<in>set A. is_better which (pl_price a) p" "\<forall>b\<in>set B. \<not> is_better which (pl_price b) p"
    "p \<notin> pl_price ` set A"
    "\<And>b B'. B = b # B' \<Longrightarrow> pl_price b = p \<Longrightarrow> p \<notin> pl_price ` set B'"
    "(\<And>b B'. B = b # B' \<Longrightarrow> pl_price b \<noteq> p) \<Longrightarrow> p \<notin> pl_price ` set B"
proof -
  let ?P = "\<lambda>l. is_better which (pl_price l) p"
  let ?A = "takeWhile ?P side" and ?B = "dropWhile ?P side"
  have sp: "side = ?A @ ?B" by simp
  with assms have sB: "sorted_wrt (level_before which) ?B" by (metis sorted_wrt_append)
  have A: "\<forall>a\<in>set ?A. ?P a" by (auto dest: set_takeWhileD)
  have hd: "\<not> ?P b" if "?B = b # B'" for b B' using that by (metis dropWhile_eq_Cons_conv)
  have later: "is_better which (pl_price b) (pl_price x)" if "?B = b # B'" "x \<in> set B'" for b B' x
    using sB that by simp
  have B: "\<forall>b\<in>set ?B. \<not> ?P b"
  proof (cases ?B)
    case Nil
    then show ?thesis by (simp only: Nil) simp
  next
    case (Cons b B')
    with hd [OF Cons] later [OF Cons] show ?thesis
      by (metis is_better_trans set_ConsD)
  qed
  have notA: "p \<notin> pl_price ` set ?A" using A by auto
  have 1: "p \<notin> pl_price ` set B'" if "?B = b # B'" "pl_price b = p" for b B'
    using later [OF that(1)] that(2) by (metis imageE is_better_irrefl)
  have 2: "p \<notin> pl_price ` set ?B" if "\<And>b B'. ?B = b # B' \<Longrightarrow> pl_price b \<noteq> p"
  proof (cases ?B)
    case Nil
    then show ?thesis by (simp only: Nil) simp
  next
    case (Cons b B')
    with that have ne: "pl_price b \<noteq> p" by blast
    with hd [OF Cons] have "is_better which p (pl_price b)" by (rule is_better_total)
    with later [OF Cons] have "is_better which p (pl_price x)" if "x \<in> set B'" for x
      using that is_better_trans by blast
    with ne show ?thesis unfolding Cons by (metis imageE is_better_irrefl set_ConsD)
  qed
  from assms have "locate side which p = length ?A" by (simp add: locate_point insertion_point_def)
  show ?thesis by (rule that [OF sp \<open>locate side which p = length ?A\<close> A B notA 1 2])
qed

lemma quantity_in_side_map:
  assumes "sorted_wrt (level_before which) side"
  shows "quantity_in which side p = (case side_map side p of None \<Rightarrow> 0 | Some q \<Rightarrow> q)"
proof (rule locate_split [OF assms, of p])
  fix A B
  assume s: "side = A @ B" "locate side which p = length A" and A: "p \<notin> pl_price ` set A"
    and B: "(\<And>b B'. B = b # B' \<Longrightarrow> pl_price b \<noteq> p) \<Longrightarrow> p \<notin> pl_price ` set B"
  from A have nA: "side_map A p = None" by (simp add: side_map_None_iff)
  show ?thesis
  proof (cases B)
    case Nil
    with s nA show ?thesis by (simp add: quantity_in_def)
  next
    case (Cons b B')
    show ?thesis
    proof (cases "pl_price b = p")
      case True
      with s nA Cons show ?thesis by (simp add: quantity_in_def)
    next
      case False
      with B Cons have "side_map B p = None" by (simp add: side_map_None_iff)
      with s nA Cons False show ?thesis by (simp add: quantity_in_def)
    qed
  qed
qed

text \<open>Applying one level keeps the ladder in order and, unless something is cut off, is a map update.\<close>

lemma apply_to_side_Applied:
  assumes ok: "ladder_ok m which side" and ap: "apply_to_side m which side level = Applied s dropped"
  shows "ladder_ok m which s"
    and "\<not> dropped \<Longrightarrow> side_map s =
      (side_map side)(pl_price level := (if pl_quantity level = 0 then None else Some (pl_quantity level)))"
proof -
  let ?p = "pl_price level" and ?q = "pl_quantity level"
  from ap have pos: "0 < ?p" "0 \<le> ?q" by (auto simp: apply_to_side_def Let_def split: if_splits prod.splits)
  from ok have srt: "sorted_wrt (level_before which) side" by (simp add: ladder_ok_def)
  obtain A B where s: "side = A @ B" "locate side which ?p = length A"
    and A: "\<forall>a\<in>set A. is_better which (pl_price a) ?p" and B: "\<forall>b\<in>set B. \<not> is_better which (pl_price b) ?p"
    and nA: "?p \<notin> pl_price ` set A"
    and nB: "\<And>b B'. B = b # B' \<Longrightarrow> pl_price b = ?p \<Longrightarrow> ?p \<notin> pl_price ` set B'"
    and nB': "(\<And>b B'. B = b # B' \<Longrightarrow> pl_price b \<noteq> ?p) \<Longrightarrow> ?p \<notin> pl_price ` set B"
    by (rule locate_split [OF srt, of ?p]) blast
  from nA have mA: "side_map A ?p = None" by (simp add: side_map_None_iff)
  have "ladder_ok m which s \<and> (\<not> dropped \<longrightarrow> side_map s = (side_map side)(?p := (if ?q = 0 then None else Some ?q)))"
  proof (cases "\<exists>b B'. B = b # B' \<and> pl_price b = ?p")
    case True
    then obtain b B' where b: "B = b # B'" "pl_price b = ?p" by blast
    from nB [OF b] have mB: "side_map B' ?p = None" by (simp add: side_map_None_iff)
    from s b have nth: "side ! length A = b" by simp
    show ?thesis
    proof (cases "?q = 0")
      case True
      with ap pos s b nth have r: "s = A @ B'" "\<not> dropped" by (auto simp: apply_to_side_def Let_def)
      have "ladder_ok m which s" using ok s(1) b(1) r(1) by (auto simp: ladder_ok_def sorted_wrt_append)
      moreover have "side_map s = (side_map side)(?p := None)"
        using r(1) s(1) b mA mB by (auto simp: fun_eq_iff split: option.splits)
      ultimately show ?thesis using True by simp
    next
      case False
      with ap pos s b nth have r: "s = A @ b\<lparr>pl_quantity := ?q\<rparr> # B'" "\<not> dropped"
        by (auto simp: apply_to_side_def Let_def list_update_append)
      have "ladder_ok m which s" using ok s(1) b(1) r(1) False pos by (auto simp: ladder_ok_def sorted_wrt_append)
      moreover have "side_map s = (side_map side)(?p := Some ?q)"
        using r(1) s(1) b mA by (auto simp: fun_eq_iff split: option.splits)
      ultimately show ?thesis using False by simp
    qed
  next
    case False
    with nB' have nBp: "?p \<notin> pl_price ` set B" by blast
    then have mB: "side_map B ?p = None" by (simp add: side_map_None_iff)
    have nf: "\<not> (length A < length side \<and> pl_price (side ! length A) = ?p)"
      using nBp s(1) by (cases B) auto
    have lB: "\<forall>b\<in>set B. is_better which ?p (pl_price b)"
      using B nBp is_better_total by blast
    have wide: "sorted_wrt (level_before which) (A @ level # B)"
      using srt s(1) A lB by (auto simp: sorted_wrt_append)
    show ?thesis
    proof (cases "?q = 0 \<or> length side \<ge> m \<and> length A = length side")
      case True
      with ap pos s nf have "s = side" "dropped \<or> ?q = 0" by (auto simp: apply_to_side_def Let_def split: if_splits)
      with ok s(1) mA mB show ?thesis by (auto simp: fun_eq_iff)
    next
      case F: False
      have tk: "take (length A) side @ [level] @ drop (length A) side = A @ level # B" using s(1) by simp
      from F pos nf s(2) have "apply_to_side m which side level
          = (let (t, d) = trim m (take (length A) side @ [level] @ drop (length A) side) in Applied t d)"
        by (auto simp: apply_to_side_def Let_def)
      with ap have r: "Applied s dropped = (let (t, d) = trim m (A @ level # B) in Applied t d)"
        unfolding tk by simp
      then have sd: "s = take m (A @ level # B)" "dropped \<longleftrightarrow> length (A @ level # B) > m"
        by (auto simp: trim_def Let_def split: if_splits)
      have "sorted_wrt (level_before which) s" unfolding sd by (rule sorted_wrt_take [OF wide])
      moreover have "\<forall>l\<in>set s. pl_price l > 0 \<and> pl_quantity l > 0"
      proof
        fix l
        assume "l \<in> set s"
        then have "l \<in> set (A @ level # B)" unfolding sd by (rule in_set_takeD)
        then show "pl_price l > 0 \<and> pl_quantity l > 0" using ok s(1) F pos by (auto simp: ladder_ok_def)
      qed
      ultimately have "ladder_ok m which s" by (simp add: ladder_ok_def sd(1))
      moreover have "side_map s = (side_map side)(?p := Some ?q)" if "\<not> dropped"
        using that sd s(1) mA by (auto simp: fun_eq_iff split: option.splits)
      ultimately show ?thesis using F by simp
    qed
  qed
  then show "ladder_ok m which s" and "\<not> dropped \<Longrightarrow> side_map s =
      (side_map side)(?p := (if ?q = 0 then None else Some ?q))" by blast+
qed

section \<open>The ladder interface\<close>

text \<open>
  What a consumer of a price ladder relies on: an operation that sets the size at one price keeps the
  invariant, and the sizes it later reads are those of a map, provided no level was cut off. The consequence
  for a whole message is proved once, here, and holds for bids and asks.
\<close>

locale ladder =
  fixes inv :: "'s \<Rightarrow> bool"
    and put :: "'s \<Rightarrow> 'k \<Rightarrow> 'v \<Rightarrow> 's"
    and exact :: "'s \<Rightarrow> 'k \<Rightarrow> 'v \<Rightarrow> bool"
    and size_at :: "'s \<Rightarrow> 'k \<Rightarrow> 'v"
  assumes put_inv: "inv s \<Longrightarrow> inv (put s k v)"
    and size_at_put: "inv s \<Longrightarrow> exact s k v \<Longrightarrow> size_at (put s k v) j = (if j = k then v else size_at s j)"
begin

lemma puts_inv: "inv s \<Longrightarrow> inv (foldl (\<lambda>s (k, v). put s k v) s kvs)"
  by (induction kvs arbitrary: s) (auto simp: put_inv)

lemma size_at_puts:
  assumes "inv s" and "\<forall>i<length kvs. exact (foldl (\<lambda>s (k, v). put s k v) s (take i kvs)) (fst (kvs ! i)) (snd (kvs ! i))"
  shows "size_at (foldl (\<lambda>s (k, v). put s k v) s kvs) j = foldl (\<lambda>d (k, v). if k = j then v else d) (size_at s j) kvs"
  using assms
proof (induction kvs arbitrary: s)
  case Nil
  then show ?case by simp
next
  case (Cons kv kvs)
  obtain k v where kv: "kv = (k, v)" by (cases kv)
  have e: "exact s k v" using Cons.prems(2) [rule_format, of 0] kv by simp
  have rest: "\<forall>i<length kvs. exact (foldl (\<lambda>s (k, v). put s k v) (put s k v) (take i kvs)) (fst (kvs ! i)) (snd (kvs ! i))"
  proof (intro allI impI)
    fix i
    assume "i < length kvs"
    with Cons.prems(2) [rule_format, of "Suc i"] kv
    show "exact (foldl (\<lambda>s (k, v). put s k v) (put s k v) (take i kvs)) (fst (kvs ! i)) (snd (kvs ! i))" by simp
  qed
  have "size_at (put s k v) j = (if k = j then v else size_at s j)"
    using size_at_put [OF Cons.prems(1) e] by auto
  with Cons.IH [OF put_inv [OF Cons.prems(1)] rest] kv show ?case by simp
qed

end

definition side_put :: "nat \<Rightarrow> Side \<Rightarrow> PriceLevel list \<Rightarrow> px \<Rightarrow> qty \<Rightarrow> PriceLevel list" where
  "side_put m which side p q =
     (case apply_to_side m which side \<lparr>pl_price = p, pl_quantity = q\<rparr> of Applied s _ \<Rightarrow> s | Refused _ \<Rightarrow> side)"

definition side_exact :: "nat \<Rightarrow> Side \<Rightarrow> PriceLevel list \<Rightarrow> px \<Rightarrow> qty \<Rightarrow> bool" where
  "side_exact m which side p q =
     (case apply_to_side m which side \<lparr>pl_price = p, pl_quantity = q\<rparr> of Applied _ d \<Rightarrow> \<not> d | Refused _ \<Rightarrow> False)"

lemma side_put_ok: "ladder_ok m which s \<Longrightarrow> ladder_ok m which (side_put m which s p q)"
  by (auto simp: side_put_def apply_to_side_Applied(1) split: LevelResult.splits)

lemma quantity_in_side_put:
  assumes "ladder_ok m which s" and "side_exact m which s p q"
  shows "quantity_in which (side_put m which s p q) j = (if j = p then q else quantity_in which s j)"
proof -
  from assms(2) obtain s' where ap: "apply_to_side m which s \<lparr>pl_price = p, pl_quantity = q\<rparr> = Applied s' False"
    by (auto simp: side_exact_def split: LevelResult.splits)
  note a = apply_to_side_Applied [OF assms(1) ap]
  have srt: "sorted_wrt (level_before which) s" "sorted_wrt (level_before which) s'"
    using assms(1) a(1) by (simp_all add: ladder_ok_def)
  show ?thesis using ap a(2) by (simp add: side_put_def quantity_in_side_map [OF srt(1)] quantity_in_side_map [OF srt(2)])
qed

interpretation bid_ladder: ladder "ladder_ok m Buy" "side_put m Buy" "side_exact m Buy" "quantity_in Buy" for m
  by unfold_locales (simp_all add: side_put_ok quantity_in_side_put)

interpretation ask_ladder: ladder "ladder_ok m Sell" "side_put m Sell" "side_exact m Sell" "quantity_in Sell" for m
  by unfold_locales (simp_all add: side_put_ok quantity_in_side_put)

section \<open>The book invariant\<close>

definition staged_ok :: "PriceLevel list \<Rightarrow> bool" where
  "staged_ok ls \<longleftrightarrow> (\<forall>l\<in>set ls. pl_price l > 0 \<and> pl_quantity l > 0)"

definition book_inv :: "OrderBook \<Rightarrow> bool" where
  [inv_defs]: "book_inv b \<longleftrightarrow> ladder_ok (ob_max_depth b) Buy (ob_bids b)
     \<and> ladder_ok (ob_max_depth b) Sell (ob_asks b) \<and> staged_ok (ob_staging_bids b) \<and> staged_ok (ob_staging_asks b)"

definition uncrossed :: "OrderBook \<Rightarrow> bool" where
  "uncrossed b \<longleftrightarrow> ob_bids b = [] \<or> ob_asks b = [] \<or> pl_price (hd (ob_bids b)) < pl_price (hd (ob_asks b))"

lemma audit_levels_None_iff:
  "audit_levels which prev ls = BvNone \<longleftrightarrow>
     (\<forall>l\<in>set ls. pl_price l > 0 \<and> pl_quantity l > 0) \<and> sorted_wrt (level_before which) ls
     \<and> (case prev of None \<Rightarrow> True | Some p \<Rightarrow> ls \<noteq> [] \<longrightarrow> is_better which p (pl_price (hd ls)))"
proof (induction ls arbitrary: prev)
  case Nil
  then show ?case by (simp split: option.splits)
next
  case (Cons l ls)
  have ne: "prev = Some p \<Longrightarrow> is_better which p (pl_price l) \<Longrightarrow> prev \<noteq> Some (pl_price l)" for p by auto
  have srt: "sorted_wrt (level_before which) (l # ls) \<longleftrightarrow>
    sorted_wrt (level_before which) ls \<and> (ls \<noteq> [] \<longrightarrow> level_before which l (hd ls))"
    by (cases ls) (auto simp: sorted_wrt2 [OF transp_level_before] sorted_wrt1 simp del: sorted_wrt.simps(2))
  show ?case unfolding srt using ne
    by (auto simp: Cons.IH less_le split: option.splits if_splits)
qed

lemma audit_side_None_iff: "audit_side m which side = BvNone \<longleftrightarrow> ladder_ok m which side"
  by (auto simp: audit_side_def audit_levels_None_iff ladder_ok_def)

lemma check_invariants_None_iff:
  "check_invariants b = BvNone \<longleftrightarrow> ladder_ok (ob_max_depth b) Buy (ob_bids b)
     \<and> ladder_ok (ob_max_depth b) Sell (ob_asks b) \<and> uncrossed b"
  by (auto simp: check_invariants_def audit_side_None_iff uncrossed_def Let_def)

lemma set_side_simps [simp]:
  "ob_max_depth (set_side b which s) = ob_max_depth b"
  "ob_staging_bids (set_side b which s) = ob_staging_bids b" "ob_staging_asks (set_side b which s) = ob_staging_asks b"
  "ob_last_update_id (set_side b which s) = ob_last_update_id b"
  "ob_snapshot_applied (set_side b which s) = ob_snapshot_applied b"
  "ob_violated (set_side b which s) = ob_violated b"
  "ob_violation (set_side b which s) = ob_violation b"
  "ob_levels_dropped (set_side b which s) = ob_levels_dropped b"
  "ob_building_snapshot (set_side b which s) = ob_building_snapshot b"
  "side_of (set_side b which s) which = s" "side_of (set_side b which s) (opposite which) = side_of b (opposite which)"
  by (cases which; simp add: set_side_def side_of_def opposite_def)+

lemma mark_invalid_simps [simp]:
  "ob_max_depth (mark_invalid b v) = ob_max_depth b" "ob_bids (mark_invalid b v) = ob_bids b"
  "ob_asks (mark_invalid b v) = ob_asks b" "ob_staging_bids (mark_invalid b v) = ob_staging_bids b"
  "ob_staging_asks (mark_invalid b v) = ob_staging_asks b"
  "ob_violated (mark_invalid b v)" "ob_last_update_id (mark_invalid b v) = ob_last_update_id b"
  "side_of (mark_invalid b v) which = side_of b which"
  "ob_snapshot_applied (mark_invalid b v) = ob_snapshot_applied b"
  by (simp_all add: mark_invalid_def side_of_def)

lemma book_inv_iff:
  "book_inv b \<longleftrightarrow> (\<forall>which. ladder_ok (ob_max_depth b) which (side_of b which))
     \<and> staged_ok (ob_staging_bids b) \<and> staged_ok (ob_staging_asks b)"
  by (auto simp: book_inv_def side_of_def all_conj_distrib) (metis Side.exhaust)+

lemma book_inv_frame [simp]:
  "book_inv (mark_invalid b v) = book_inv b"
  "book_inv (b\<lparr>ob_last_update_id := u\<rparr>) = book_inv b" "book_inv (b\<lparr>ob_updates_applied := n\<rparr>) = book_inv b"
  "book_inv (b\<lparr>ob_levels_dropped := n\<rparr>) = book_inv b" "book_inv (b\<lparr>ob_building_snapshot := f\<rparr>) = book_inv b"
  "book_inv (b\<lparr>ob_snapshot_applied := f\<rparr>) = book_inv b"
  "uncrossed (b\<lparr>ob_last_update_id := u\<rparr>) = uncrossed b" "uncrossed (b\<lparr>ob_updates_applied := n\<rparr>) = uncrossed b"
  by (simp_all add: book_inv_def mark_invalid_def uncrossed_def)

lemma apply_level_cases:
  obtains (refused) v where "apply_level b which l = (mark_invalid b v, InvalidArgument)"
  | (applied) s d where "apply_to_side (ob_max_depth b) which (side_of b which) l = Applied s d"
      "apply_level b which l = ((if d then (set_side b which s)\<lparr>ob_levels_dropped := inc64 (ob_levels_dropped b)\<rparr>
         else set_side b which s), Ok)"
proof (cases "apply_to_side (ob_max_depth b) which (side_of b which) l")
  case (Refused v)
  then show ?thesis by (intro refused) (simp add: apply_level_def)
next
  case (Applied s d)
  have "apply_level b which l = ((if d then (set_side b which s)\<lparr>ob_levels_dropped := inc64 (ob_levels_dropped b)\<rparr>
      else set_side b which s), Ok)"
    by (cases d) (simp_all add: apply_level_def Applied)
  with Applied show ?thesis by (rule applied)
qed

lemma apply_level_inv:
  assumes "book_inv b"
  shows "book_inv (fst (apply_level b which l)) \<and> ob_max_depth (fst (apply_level b which l)) = ob_max_depth b
    \<and> ob_last_update_id (fst (apply_level b which l)) = ob_last_update_id b
    \<and> ob_snapshot_applied (fst (apply_level b which l)) = ob_snapshot_applied b
    \<and> (is_ok (snd (apply_level b which l)) \<longrightarrow> ob_violated (fst (apply_level b which l)) = ob_violated b)"
proof (cases rule: apply_level_cases [of b which l])
  case (refused v)
  with assms show ?thesis by (simp add: book_inv_def is_ok_def)
next
  case (applied s d)
  have ok: "ladder_ok (ob_max_depth b) which s"
    using assms applied(1) by (auto simp: book_inv_iff intro: apply_to_side_Applied(1))
  have "book_inv (set_side b which s)"
    using assms ok by (cases which) (simp_all add: book_inv_def set_side_def)
  with applied(2) show ?thesis by (simp add: book_inv_def)
qed

lemma apply_levels_inv:
  "book_inv b \<Longrightarrow> book_inv (fst (apply_levels b which ls))
    \<and> ob_max_depth (fst (apply_levels b which ls)) = ob_max_depth b
    \<and> ob_last_update_id (fst (apply_levels b which ls)) = ob_last_update_id b
    \<and> ob_snapshot_applied (fst (apply_levels b which ls)) = ob_snapshot_applied b
    \<and> (is_ok (snd (apply_levels b which ls)) \<longrightarrow> ob_violated (fst (apply_levels b which ls)) = ob_violated b)"
proof (induction ls arbitrary: b)
  case Nil
  then show ?case by simp
next
  case (Cons l ls)
  obtain b1 s where r: "apply_level b which l = (b1, s)" by (cases "apply_level b which l")
  from apply_level_inv [OF Cons.prems, of which l] r Cons.IH [of b1] show ?case by (auto simp: is_ok_def)
qed

lemma ob_apply_update_inv:
  assumes "book_inv b"
  shows "book_inv (fst (ob_apply_update b levels u)) \<and> ob_max_depth (fst (ob_apply_update b levels u)) = ob_max_depth b
    \<and> ob_snapshot_applied (fst (ob_apply_update b levels u)) = ob_snapshot_applied b
    \<and> (is_ok (snd (ob_apply_update b levels u)) \<longrightarrow> uncrossed (fst (ob_apply_update b levels u))
        \<and> ob_snapshot_applied b \<and> ob_violated (fst (ob_apply_update b levels u)) = ob_violated b
        \<and> ob_last_update_id (fst (ob_apply_update b levels u)) = (if u = kNoSeq then ob_last_update_id b else u)
        \<and> (u \<noteq> kNoSeq \<longrightarrow> ob_last_update_id b \<le> u))"
proof -
  obtain b1 s1 where r1: "apply_levels b Buy (take (bl_bid_count levels) (bl_bids levels)) = (b1, s1)"
    by (metis surj_pair)
  obtain b2 s2 where r2: "apply_levels b1 Sell (take (bl_ask_count levels) (bl_asks levels)) = (b2, s2)"
    by (metis surj_pair)
  note i1 = apply_levels_inv [OF assms, of Buy "take (bl_bid_count levels) (bl_bids levels)", unfolded r1 fst_conv snd_conv]
  then have "book_inv b1" by blast
  note i2 = apply_levels_inv [OF this, of Sell "take (bl_ask_count levels) (bl_asks levels)", unfolded r2 fst_conv snd_conv]
  define b3 where "b3 = (if u \<noteq> kNoSeq then b2\<lparr>ob_last_update_id := u\<rparr> else b2)
    \<lparr>ob_updates_applied := inc64 (ob_updates_applied (if u \<noteq> kNoSeq then b2\<lparr>ob_last_update_id := u\<rparr> else b2))\<rparr>"
  define P where "P r \<longleftrightarrow> book_inv (fst r) \<and> ob_max_depth (fst r) = ob_max_depth b
    \<and> ob_snapshot_applied (fst r) = ob_snapshot_applied b
    \<and> (is_ok (snd r) \<longrightarrow> uncrossed (fst r) \<and> ob_snapshot_applied b \<and> ob_violated (fst r) = ob_violated b
        \<and> ob_last_update_id (fst r) = (if u = kNoSeq then ob_last_update_id b else u)
        \<and> (u \<noteq> kNoSeq \<longrightarrow> ob_last_update_id b \<le> u))" for r :: "OrderBook \<times> ErrorCode"
  have fail: "P (x, e)" if "\<not> is_ok e" "book_inv x" "ob_max_depth x = ob_max_depth b"
    "ob_snapshot_applied x = ob_snapshot_applied b" for x e
    using that by (simp add: P_def)
  have done': "P (b3, Ok)" if "is_ok s1" "is_ok s2" "ob_snapshot_applied b" "uncrossed b2"
    "u \<noteq> kNoSeq \<longrightarrow> ob_last_update_id b \<le> u"
    using that i1 i2 by (simp add: P_def b3_def)
  have res: "ob_apply_update b levels u =
    (if \<not> ob_snapshot_applied b then (b, FailedPrecondition)
     else if \<not> counts_are_sane levels then (mark_invalid b BvDepthExceeded, OutOfRange)
     else if u \<noteq> kNoSeq \<and> u < ob_last_update_id b then (mark_invalid b BvSequenceRegression, FailedPrecondition)
     else if is_err s1 then (b1, s1)
     else if is_err s2 then (b2, s2)
     else if ob_bids b2 \<noteq> [] \<and> ob_asks b2 \<noteq> [] \<and> pl_price (hd (ob_bids b2)) > pl_price (hd (ob_asks b2))
       then (mark_invalid b2 BvCrossedBook, FailedPrecondition)
     else if ob_bids b2 \<noteq> [] \<and> ob_asks b2 \<noteq> [] \<and> pl_price (hd (ob_bids b2)) = pl_price (hd (ob_asks b2))
       then (mark_invalid b2 BvLockedBook, FailedPrecondition)
     else (b3, Ok))"
    by (simp only: ob_apply_update_def r1 r2 Let_def prod.case b3_def)
  have e: "\<not> is_ok FailedPrecondition" "\<not> is_ok OutOfRange" by (simp_all add: is_ok_def)
  have refused: "P (b, FailedPrecondition)" "P (mark_invalid b v, FailedPrecondition)" "P (mark_invalid b v, OutOfRange)"
      "P (mark_invalid b2 v, FailedPrecondition)" "is_err s1 \<Longrightarrow> P (b1, s1)" "is_err s2 \<Longrightarrow> P (b2, s2)" for v
    using e assms i1 i2 by (auto intro!: fail)
  let ?two = "ob_bids b2 \<noteq> [] \<and> ob_asks b2 \<noteq> []"
  let ?bid = "pl_price (hd (ob_bids b2))" and ?ask = "pl_price (hd (ob_asks b2))"
  have unc: "uncrossed b2" if "\<not> (?two \<and> ?bid > ?ask)" "\<not> (?two \<and> ?bid = ?ask)"
    using that by (auto simp: uncrossed_def)
  consider (early) "\<not> ob_snapshot_applied b \<or> \<not> counts_are_sane levels \<or> u \<noteq> kNoSeq \<and> u < ob_last_update_id b"
    | (mid) "ob_snapshot_applied b" "counts_are_sane levels" "\<not> (u \<noteq> kNoSeq \<and> u < ob_last_update_id b)"
        "is_err s1 \<or> is_err s2 \<or> (?two \<and> ?bid > ?ask) \<or> (?two \<and> ?bid = ?ask)"
    | (fine) "ob_snapshot_applied b" "counts_are_sane levels" "\<not> (u \<noteq> kNoSeq \<and> u < ob_last_update_id b)"
        "\<not> is_err s1" "\<not> is_err s2" "\<not> (?two \<and> ?bid > ?ask)" "\<not> (?two \<and> ?bid = ?ask)" by blast
  then have "P (ob_apply_update b levels u)"
  proof cases
    case early
    then show ?thesis unfolding res using refused(1-3) by (simp only: if_True if_False simp_thms split: if_split) blast
  next
    case mid
    then show ?thesis unfolding res using refused(4-6) by (simp only: if_True if_False simp_thms split: if_split) blast
  next
    case fine
    have "u \<noteq> kNoSeq \<longrightarrow> ob_last_update_id b \<le> u" using fine(3) by auto
    with done' unc fine have "P (b3, Ok)" by simp
    with fine show ?thesis unfolding res by (simp only: if_False simp_thms conj_assoc)
  qed
  then show ?thesis by (simp add: P_def)
qed

lemma stage_levels_ok: "staged_ok ls \<Longrightarrow> staged_ok (fst (stage_levels ls xs))"
proof (induction ls xs rule: stage_levels.induct)
  case (2 staged l ls)
  consider "pl_quantity l = 0" | "pl_quantity l \<noteq> 0" "\<not> pl_price l > 0 \<or> pl_quantity l < 0" | "pl_quantity l \<noteq> 0" "\<not> (\<not> pl_price l > 0 \<or> pl_quantity l < 0)" by blast
  then show ?case
  proof cases
    case 1
    with 2 show ?thesis by simp
  next
    case t: 2
    with 2 show ?thesis by simp
  next
    case 3
    then have "staged_ok (staged @ [l])" using 2(3) by (auto simp: staged_ok_def)
    from "2.IH"(2) [OF 3 this] 3 show ?thesis by simp
  qed
qed simp

lemma add_snapshot_levels_inv:
  assumes "book_inv b"
  shows "book_inv (fst (add_snapshot_levels b levels))
    \<and> ob_max_depth (fst (add_snapshot_levels b levels)) = ob_max_depth b
    \<and> ob_bids (fst (add_snapshot_levels b levels)) = ob_bids b \<and> ob_asks (fst (add_snapshot_levels b levels)) = ob_asks b
    \<and> ob_snapshot_applied (fst (add_snapshot_levels b levels)) = ob_snapshot_applied b
    \<and> ob_violated (fst (add_snapshot_levels b levels)) = ob_violated b"
proof -
  obtain sb okb where b: "stage_levels (ob_staging_bids b) (take (bl_bid_count levels) (bl_bids levels)) = (sb, okb)"
    by (metis surj_pair)
  obtain sa oka where a: "stage_levels (ob_staging_asks b) (take (bl_ask_count levels) (bl_asks levels)) = (sa, oka)"
    by (metis surj_pair)
  have "staged_ok sb" "staged_ok sa"
    using assms stage_levels_ok [of "ob_staging_bids b" "take (bl_bid_count levels) (bl_bids levels)"]
      stage_levels_ok [of "ob_staging_asks b" "take (bl_ask_count levels) (bl_asks levels)"] a b
    by (simp_all add: book_inv_def)
  with assms show ?thesis by (simp add: add_snapshot_levels_def a b book_inv_def Let_def)
qed

lemma sorted_strict:
  assumes "sorted_wrt (\<lambda>a b. f a \<le> (f b :: int)) ls" and "\<not> has_duplicates ls"
    and "\<And>l. f l = c * pl_price l" and "c = 1 \<or> c = -1"
  shows "sorted_wrt (\<lambda>a b. f a < f b) ls"
  using assms(1,2)
proof (induction ls)
  case (Cons a ls)
  show ?case
  proof (cases ls)
    case Nil
    then show ?thesis by simp
  next
    case (Cons b bs)
    with Cons.prems assms(3,4) have lt: "f a < f b" by (auto simp: less_le)
    have IH: "sorted_wrt (\<lambda>a b. f a < f b) ls" using Cons.IH Cons.prems Cons by simp
    have tr: "transp (\<lambda>a b. f a < f b)" by (auto intro: transpI)
    from IH lt Cons show ?thesis by (simp add: sorted_wrt2 [OF tr] del: sorted_wrt.simps(2))
  qed
qed simp

lemma sort_ladder:
  assumes "staged_ok ls"
  shows "\<not> has_duplicates (sort_bids ls) \<Longrightarrow> ladder_ok m Buy (take m (sort_bids ls))"
    and "\<not> has_duplicates (sort_asks ls) \<Longrightarrow> ladder_ok m Sell (take m (sort_asks ls))"
proof -
  have sub: "set (take m (sort_bids ls)) \<subseteq> set ls" "set (take m (sort_asks ls)) \<subseteq> set ls"
    using set_take_subset [of m "sort_bids ls"] set_take_subset [of m "sort_asks ls"]
    by (simp_all add: sort_bids_def sort_asks_def)
  from assms have "\<forall>l\<in>set ls. pl_price l > 0 \<and> pl_quantity l > 0" by (simp only: staged_ok_def)
  then have pos: "\<forall>l\<in>set (take m (sort_bids ls)). pl_price l > 0 \<and> pl_quantity l > 0"
    "\<forall>l\<in>set (take m (sort_asks ls)). pl_price l > 0 \<and> pl_quantity l > 0"
    using sub by blast+
{
  assume "\<not> has_duplicates (sort_bids ls)"
  then have "sorted_wrt (\<lambda>a b. - pl_price a < - pl_price b) (sort_bids ls)"
    using sorted_sort_key [of "\<lambda>l. - pl_price l" ls, unfolded sorted_map, folded sort_bids_def]
    by (intro sorted_strict [of _ _ "-1"]) simp_all
  then have "sorted_wrt (level_before Buy) (sort_bids ls)" by (simp add: is_better_def)
  then show "ladder_ok m Buy (take m (sort_bids ls))"
    using pos(1) unfolding ladder_ok_def by (intro conjI sorted_wrt_take) simp_all
}
{
  assume "\<not> has_duplicates (sort_asks ls)"
  then have "sorted_wrt (\<lambda>a b. pl_price a < pl_price b) (sort_asks ls)"
    using sorted_sort_key [of pl_price ls, unfolded sorted_map, folded sort_asks_def]
    by (intro sorted_strict [of _ _ 1]) simp_all
  then have "sorted_wrt (level_before Sell) (sort_asks ls)" by (simp add: is_better_def)
  then show "ladder_ok m Sell (take m (sort_asks ls))"
    using pos(2) unfolding ladder_ok_def by (intro conjI sorted_wrt_take) simp_all
}
qed

lemma staged_ok_subset: "staged_ok ls \<Longrightarrow> set ks \<subseteq> set ls \<Longrightarrow> staged_ok ks"
  unfolding staged_ok_def by blast

lemma staged_ok_sort [simp]:
  "staged_ok ls \<Longrightarrow> staged_ok (sort_bids ls)" "staged_ok ls \<Longrightarrow> staged_ok (sort_asks ls)"
  "staged_ok ls \<Longrightarrow> staged_ok (take n (sort_bids ls))" "staged_ok ls \<Longrightarrow> staged_ok (take n (sort_asks ls))"
  "staged_ok []"
  using set_take_subset [of n "sort_bids ls"] set_take_subset [of n "sort_asks ls"]
  by (simp_all add: staged_ok_subset sort_bids_def sort_asks_def staged_ok_def [of "[]"])

lemma finish_snapshot_inv:
  assumes "book_inv b"
  shows "book_inv (fst (finish_snapshot b u)) \<and> ob_max_depth (fst (finish_snapshot b u)) = ob_max_depth b
    \<and> (is_ok (snd (finish_snapshot b u)) \<longrightarrow> uncrossed (fst (finish_snapshot b u)) \<and> ob_is_valid (fst (finish_snapshot b u))
        \<and> ob_last_update_id (fst (finish_snapshot b u)) = u)"
proof -
  let ?B = "sort_bids (ob_staging_bids b)" and ?A = "sort_asks (ob_staging_asks b)" and ?m = "ob_max_depth b"
  have st: "staged_ok (ob_staging_bids b)" "staged_ok (ob_staging_asks b)" using assms by (simp_all add: book_inv_def)
  note ld = sort_ladder(1) [OF st(1), of ?m] sort_ladder(2) [OF st(2), of ?m]
  show ?thesis
  proof (cases "\<not> ob_building_snapshot b \<or> has_duplicates ?B \<or> has_duplicates ?A")
    case True
    with assms st show ?thesis by (auto simp: finish_snapshot_def book_inv_def is_ok_def)
  next
    case False
    then have l: "ladder_ok ?m Buy (take ?m ?B)" "ladder_ok ?m Sell (take ?m ?A)" using ld by blast+
    have t: "staged_ok (take ?m ?B)" "staged_ok (take ?m ?A)" using st by simp_all
    show ?thesis using False assms l t
      by (simp add: finish_snapshot_def book_inv_def is_ok_def uncrossed_def ob_is_valid_def not_le Let_def)
  qed
qed

section \<open>Whole messages as map updates\<close>

lemma side_put_length: "length (side_put m which s p q) \<le> Suc (length s)"
  by (auto simp: side_put_def apply_to_side_def trim_def Let_def split: LevelResult.splits prod.splits if_splits)

lemma side_exact_room:
  assumes "p > 0" and "q \<ge> 0" and "length s < m"
  shows "side_exact m which s p q"
  using assms by (auto simp: side_exact_def apply_to_side_def trim_def Let_def split: LevelResult.splits prod.splits if_splits)

lemma side_puts_length: "length (foldl (\<lambda>s (k, v). side_put m which s k v) s kvs) \<le> length s + length kvs"
proof (induction kvs arbitrary: s)
  case Nil
  then show ?case by simp
next
  case (Cons kv kvs)
  obtain k v where kv: "kv = (k, v)" by (cases kv)
  from Cons [of "side_put m which s k v"] side_put_length [of m which s k v] kv show ?case by simp
qed

definition entries :: "PriceLevel list \<Rightarrow> (px \<times> qty) list" where
  "entries ls = map (\<lambda>l. (pl_price l, pl_quantity l)) ls"

lemma apply_levels_side_puts:
  assumes "apply_levels b which ls = (b', Ok)"
  shows "side_of b' which = foldl (\<lambda>s (k, v). side_put (ob_max_depth b) which s k v) (side_of b which) (entries ls)
    \<and> side_of b' (opposite which) = side_of b (opposite which) \<and> ob_max_depth b' = ob_max_depth b
    \<and> (\<forall>l\<in>set ls. pl_price l > 0 \<and> pl_quantity l \<ge> 0)"
  using assms
proof (induction ls arbitrary: b)
  case Nil
  then show ?case by (simp add: entries_def)
next
  case (Cons l ls)
  from Cons.prems obtain b1 where b1: "apply_level b which l = (b1, Ok)" and rest: "apply_levels b1 which ls = (b', Ok)"
    by (auto simp: is_ok_def split: prod.splits if_splits)
  show ?case
  proof (cases rule: apply_level_cases [of b which l])
    case (refused v)
    with b1 show ?thesis by simp
  next
    case (applied s d)
    have l: "\<lparr>pl_price = pl_price l, pl_quantity = pl_quantity l\<rparr> = l" by simp
    from applied(1) have s: "s = side_put (ob_max_depth b) which (side_of b which) (pl_price l) (pl_quantity l)"
      by (simp add: side_put_def l)
    have pos: "pl_price l > 0 \<and> pl_quantity l \<ge> 0"
      using applied(1) by (auto simp: apply_to_side_def split: if_splits)
    have "side_of b1 which = s" "side_of b1 (opposite which) = side_of b (opposite which)" "ob_max_depth b1 = ob_max_depth b"
      using applied(2) b1 by (cases which; auto simp: side_of_def set_side_def opposite_def split: if_splits)+
    with Cons.IH [OF rest] s pos show ?thesis by (simp add: entries_def)
  qed
qed

text \<open>What a message leaves at a price: the last size it mentions there, else the old one.\<close>

definition final_size :: "PriceLevel list \<Rightarrow> px \<Rightarrow> qty \<Rightarrow> qty" where
  "final_size ls p old = foldl (\<lambda>d l. if pl_price l = p then pl_quantity l else d) old ls"

lemma final_size_entries: "final_size ls p old = foldl (\<lambda>d (k, v). if k = p then v else d) old (entries ls)"
  by (induction ls arbitrary: old) (simp_all add: final_size_def entries_def)

lemma ladder_sides: "ladder (ladder_ok m which) (side_put m which) (side_exact m which) (quantity_in which)"
  by (cases which) (auto intro: bid_ladder.ladder_axioms ask_ladder.ladder_axioms)

lemma apply_levels_quantity:
  assumes "book_inv b" and "apply_levels b which ls = (b', Ok)"
    and room: "length (side_of b which) + length ls \<le> ob_max_depth b"
  shows "quantity_at b' which p = final_size ls p (quantity_at b which p)"
proof -
  let ?m = "ob_max_depth b" and ?kvs = "entries ls"
  note puts = apply_levels_side_puts [OF assms(2)]
  have ok: "ladder_ok ?m which (side_of b which)" using assms(1) by (simp add: book_inv_iff)
  have "\<forall>i<length ?kvs. side_exact ?m which (foldl (\<lambda>s (k, v). side_put ?m which s k v) (side_of b which) (take i ?kvs))
      (fst (?kvs ! i)) (snd (?kvs ! i))"
  proof (intro allI impI)
    fix i
    assume i: "i < length ?kvs"
    then have len: "i < length ls" by (simp add: entries_def)
    then have mem: "ls ! i \<in> set ls" by simp
    have "length (foldl (\<lambda>s (k, v). side_put ?m which s k v) (side_of b which) (take i ?kvs)) < ?m"
      using side_puts_length [of ?m which "side_of b which" "take i ?kvs"] room len i by simp
    with puts mem len show "side_exact ?m which (foldl (\<lambda>s (k, v). side_put ?m which s k v) (side_of b which) (take i ?kvs))
      (fst (?kvs ! i)) (snd (?kvs ! i))" by (simp add: entries_def side_exact_room)
  qed
  from ladder.size_at_puts [OF ladder_sides ok this, of p] puts show ?thesis
    by (simp add: quantity_at_def final_size_entries)
qed

lemma bbo_sane: "book_inv b \<Longrightarrow> uncrossed b \<Longrightarrow> ob_bids b \<noteq> [] \<Longrightarrow> ob_asks b \<noteq> [] \<Longrightarrow> is_sane (bbo b)"
  by (cases "ob_bids b"; cases "ob_asks b")
     (simp_all add: book_inv_def ladder_ok_def uncrossed_def is_sane_def is_two_sided_def bbo_def
        best_bid_price_def best_bid_qty_def best_ask_price_def best_ask_qty_def)

lemma best_is_first:
  assumes "ladder_ok m which (l # ls)" and "side_map (l # ls) p = Some q"
  shows "p = pl_price l \<or> is_better which (pl_price l) p"
proof -
  from assms(2) have "p \<in> pl_price ` set (l # ls)" using side_map_None_iff [of "l # ls" p] by auto
  with assms(1) show ?thesis by (auto simp: ladder_ok_def)
qed

section \<open>Properties\<close>

text \<open>
  C40. The binary search is the linear search: on every ordered side the halving loop of \<open>locate\<close> returns the
  length of the longest prefix of strictly better levels, and \<open>quantity_at\<close>, which uses it, returns the size
  stored for the price, or zero.
\<close>

theorem binary_search_equals_scan:
  assumes "sorted_wrt (\<lambda>a b. is_better which (pl_price a) (pl_price b)) side"
  shows "locate side which price = length (takeWhile (\<lambda>l. is_better which (pl_price l) price) side)
    \<and> quantity_in which side price = (case find (\<lambda>l. pl_price l = price) side of None \<Rightarrow> 0 | Some l \<Rightarrow> pl_quantity l)"
proof -
  have "side_map side p = map_option pl_quantity (find (\<lambda>l. pl_price l = p) side)" for p
    by (induction side) simp_all
  then show ?thesis
    using locate_point [OF assms, of price] quantity_in_side_map [OF assms, of price]
    by (auto simp: insertion_point_def split: option.splits)
qed

theorem binary_search_equals_scan_witness:
  "locate [\<lparr>pl_price = 100, pl_quantity = 1\<rparr>, \<lparr>pl_price = 99, pl_quantity = 2\<rparr>, \<lparr>pl_price = 90, pl_quantity = 3\<rparr>] Buy 95 = 2"
proof -
  let ?s = "[\<lparr>pl_price = 100, pl_quantity = 1\<rparr>, \<lparr>pl_price = 99, pl_quantity = 2\<rparr>, \<lparr>pl_price = 90, pl_quantity = 3\<rparr>]"
  have h: "sorted_wrt (\<lambda>a b. is_better Buy (pl_price a) (pl_price b)) ?s" by (simp add: is_better_def)
  from binary_search_equals_scan [OF h, of 95] show ?thesis by (simp add: is_better_def)
qed

text \<open>
  C23. Book integrity: from a fresh book, every operation (reset, clear, snapshot begin, chunk and finish, update,
  also the failing ones) keeps both sides strictly ordered best first, with positive prices and sizes and within
  the depth; a successful snapshot or update leaves a book that passes the full audit \<open>check_invariants\<close>,
  is not crossed or locked, and whose top of book, when two-sided after an update, is sane; and a successful update
  does not take the update id back (reset and clear return it to none, and a snapshot sets its own).
\<close>

theorem book_integrity:
  shows "book_inv (new_book symbol d)
    \<and> (book_inv b \<longrightarrow> book_inv (ob_clear b) \<and> book_inv (ob_reset b symbol d) \<and> book_inv (begin_snapshot b)
        \<and> book_inv (fst (add_snapshot_levels b levels)) \<and> book_inv (fst (finish_snapshot b u))
        \<and> book_inv (fst (ob_apply_update b levels u)))
    \<and> (book_inv b \<and> is_ok (snd (finish_snapshot b u)) \<longrightarrow>
        check_invariants (fst (finish_snapshot b u)) = BvNone \<and> ob_is_valid (fst (finish_snapshot b u)))
    \<and> (book_inv b \<and> is_ok (snd (ob_apply_update b levels u)) \<longrightarrow>
        check_invariants (fst (ob_apply_update b levels u)) = BvNone
      \<and> ob_last_update_id b \<le> ob_last_update_id (fst (ob_apply_update b levels u))
      \<and> (ob_bids (fst (ob_apply_update b levels u)) \<noteq> [] \<and> ob_asks (fst (ob_apply_update b levels u)) \<noteq> []
          \<longrightarrow> is_sane (bbo (fst (ob_apply_update b levels u)))))"
proof -
  have clear: "book_inv (ob_clear b)" for b by (simp add: book_inv_def ob_clear_def ladder_ok_def)
  have reset: "book_inv (ob_reset b symbol d)" for b unfolding ob_reset_def by (rule clear)
  have begin': "book_inv b \<Longrightarrow> book_inv (begin_snapshot b)" by (simp add: book_inv_def begin_snapshot_def)
  have audit: "book_inv b' \<Longrightarrow> uncrossed b' \<Longrightarrow> check_invariants b' = BvNone" for b'
    by (simp add: check_invariants_None_iff book_inv_def)
  show ?thesis
    using clear reset begin' audit add_snapshot_levels_inv [of b levels] finish_snapshot_inv [of b u]
      ob_apply_update_inv [of b levels u] bbo_sane [of "fst (ob_apply_update b levels u)"]
    by (auto simp: new_book_def)
qed

theorem book_integrity_witness:
  "check_invariants (fst (finish_snapshot (begin_snapshot (new_book ''X'' 5)) 7)) = BvNone"
proof -
  have i: "book_inv (begin_snapshot (new_book ''X'' 5))" using book_integrity by blast
  moreover have "is_ok (snd (finish_snapshot (begin_snapshot (new_book ''X'' 5)) 7))" by code_simp
  ultimately show ?thesis using book_integrity by blast
qed

text \<open>
  C24. An update is a map update: when a side has room for the message (nothing can be cut off), applying its
  levels leaves at every price the last size the message mentions there (zero deletes), and the old size
  everywhere else; the other side is untouched.
\<close>

theorem update_refines_map:
  assumes "book_inv b" and "apply_levels b which ls = (b', Ok)" and "depth b which + length ls \<le> ob_max_depth b"
  shows "quantity_at b' which p = final_size ls p (quantity_at b which p)
    \<and> quantity_at b' (opposite which) p = quantity_at b (opposite which) p"
  using apply_levels_quantity [OF assms(1,2)] apply_levels_side_puts [OF assms(2)] assms(3)
  by (simp add: depth_def quantity_at_def)

theorem update_refines_map_witness:
  "quantity_at (fst (apply_levels (new_book ''X'' 5) Sell
     [\<lparr>pl_price = 101, pl_quantity = 4\<rparr>, \<lparr>pl_price = 100, pl_quantity = 1\<rparr>, \<lparr>pl_price = 101, pl_quantity = 0\<rparr>])) Sell 101 = 0"
proof -
  let ?ls = "[\<lparr>pl_price = 101, pl_quantity = 4\<rparr>, \<lparr>pl_price = 100, pl_quantity = 1\<rparr>, \<lparr>pl_price = 101, pl_quantity = 0\<rparr>]"
  have inv: "book_inv (new_book ''X'' 5)"
    by (simp add: book_inv_def new_book_def ob_reset_def ob_clear_def ladder_ok_def)
  have "snd (apply_levels (new_book ''X'' 5) Sell ?ls) = Ok" by code_simp
  then obtain b' where b': "apply_levels (new_book ''X'' 5) Sell ?ls = (b', Ok)"
    by (metis prod.collapse)
  have "depth (new_book ''X'' 5) Sell + length ?ls \<le> ob_max_depth (new_book ''X'' 5)" by code_simp
  from update_refines_map [OF inv b' this, of 101] b' show ?thesis by (simp add: final_size_def)
qed

text \<open>
  The depth bound can make the top of book wrong: with two tracked levels, bids at 100, 99 and 98 arrive (98 is
  dropped), 100 and 99 are deleted and a bid at 97 arrives. The book then reports 97 as best bid although the
  bid of size 5 at 98 was never deleted. The header claims that best bid and ask are always exact.
\<close>

theorem truncated_best_bid_not_exact:
  "best_bid_price (fst (apply_levels (new_book ''X'' 2) Buy
      [\<lparr>pl_price = 100, pl_quantity = 1\<rparr>, \<lparr>pl_price = 99, pl_quantity = 1\<rparr>, \<lparr>pl_price = 98, pl_quantity = 5\<rparr>,
       \<lparr>pl_price = 100, pl_quantity = 0\<rparr>, \<lparr>pl_price = 99, pl_quantity = 0\<rparr>, \<lparr>pl_price = 97, pl_quantity = 1\<rparr>])) = 97
   \<and> final_size
      [\<lparr>pl_price = 100, pl_quantity = 1\<rparr>, \<lparr>pl_price = 99, pl_quantity = 1\<rparr>, \<lparr>pl_price = 98, pl_quantity = 5\<rparr>,
       \<lparr>pl_price = 100, pl_quantity = 0\<rparr>, \<lparr>pl_price = 99, pl_quantity = 0\<rparr>, \<lparr>pl_price = 97, pl_quantity = 1\<rparr>] 98 0 = 5"
  by code_simp

end
