(* ===== verification/PaperMatcher.thy ===== *)
theory PaperMatcher
  imports OrderBook
begin

text \<open>
  The matching rules of the simulated venue: \<^verbatim>\<open>PaperOrder.hpp\<close>, the enumerations of \<^verbatim>\<open>PaperTypes.hpp\<close> and
  \<^verbatim>\<open>PaperMatcher.cpp\<close>. The venue's order is a record of its own, apart from the order manager's. The loop of
  \<open>match_and_consume\<close> over the opposite side is a recursion on the levels that returns them as the loop leaves
  them; \<open>int128\<close> sums are mathematical integers, and \<open>walk_levels_value\<close> shows that they stay far inside 128 bits.
\<close>

section \<open>Definitions\<close>

datatype FillModel = DisplayedLiquidity | FullOnCross

datatype PostOnlyPolicy = PopReject | PopExpire

datatype ReplaceMode = RmAtomic | RmUnsupported

definition FillModel_to_string :: "FillModel \<Rightarrow> string" where
  "FillModel_to_string m = (case m of DisplayedLiquidity \<Rightarrow> ''DISPLAYED_LIQUIDITY'' | FullOnCross \<Rightarrow> ''FULL_ON_CROSS'')"

definition PostOnlyPolicy_to_string :: "PostOnlyPolicy \<Rightarrow> string" where
  "PostOnlyPolicy_to_string p = (case p of PopReject \<Rightarrow> ''REJECT'' | PopExpire \<Rightarrow> ''EXPIRE'')"

definition ReplaceMode_to_string :: "ReplaceMode \<Rightarrow> string" where
  "ReplaceMode_to_string m = (case m of RmAtomic \<Rightarrow> ''ATOMIC'' | RmUnsupported \<Rightarrow> ''UNSUPPORTED'')"

record PaperOrder =
  pv_exchange_order_id :: string
  pv_client_order_id :: string
  pv_symbol :: string
  pv_symbol_id :: symbol_id
  pv_side :: Side
  pv_type :: OrderType
  pv_tif :: TimeInForce
  pv_post_only :: bool
  pv_price :: px
  pv_original_qty :: qty
  pv_cumulative_qty :: qty
  pv_status :: OrderStatus
  pv_arrival_sequence :: nat
  pv_accepted_ns :: nanos
  pv_last_event_ns :: nanos
  pv_cancel_pending :: bool

definition pv_remaining :: "PaperOrder \<Rightarrow> qty" where
  "pv_remaining o' =
     (case checked_sub (pv_original_qty o') (pv_cumulative_qty o') of
        None \<Rightarrow> 0
      | Some out \<Rightarrow> if out < 0 then 0 else out)"

definition pv_is_resting :: "PaperOrder \<Rightarrow> bool" where
  "pv_is_resting o' \<longleftrightarrow> pv_status o' = StNew \<or> pv_status o' = StPartiallyFilled"

definition pv_is_terminal :: "PaperOrder \<Rightarrow> bool" where
  "pv_is_terminal o' \<longleftrightarrow> pv_status o' = StFilled \<or> pv_status o' = StCanceled
     \<or> pv_status o' = StRejected \<or> pv_status o' = StExpired"

definition would_cross :: "PaperOrder \<Rightarrow> px \<Rightarrow> bool" where
  "would_cross o' opp =
     (if \<not> opp > 0 then False
      else if pv_side o' = Buy then pv_price o' \<ge> opp else pv_price o' \<le> opp)"

record MatchResult =
  mr_quantity :: qty
  mr_price :: px
  mr_liquidity :: Liquidity
  mr_levels_consumed :: nat

definition no_match :: MatchResult where
  "no_match = \<lparr>mr_quantity = 0, mr_price = 0, mr_liquidity = Maker, mr_levels_consumed = 0\<rparr>"

definition apply_share :: "qty \<Rightarrow> nat \<Rightarrow> qty" where
  "apply_share q bps =
     (if bps \<ge> 10000 then q else let scaled = (q * int bps) sdiv 10000 in wrap64 scaled)"

definition is_marketable_on_arrival :: "PaperOrder \<Rightarrow> OrderBook \<Rightarrow> bool" where
  "is_marketable_on_arrival o' b =
     (if \<not> ob_is_valid b then False
      else let opp = (if pv_side o' = Buy then best_ask_price b else best_bid_price b)
           in would_cross o' opp)"

definition executable_side :: "OrderBook \<Rightarrow> Side \<Rightarrow> PriceLevel list" where
  "executable_side b side = (if side = Buy then ob_asks b else ob_bids b)"

text \<open>Whether the order's limit permits an execution at a price.\<close>

definition limit_permits :: "PaperOrder \<Rightarrow> px \<Rightarrow> bool" where
  "limit_permits o' p = (if pv_side o' = Buy then pv_price o' \<ge> p else pv_price o' \<le> p)"

text \<open>What is left of a level after an amount was taken off it.\<close>

definition taken_off :: "PriceLevel \<Rightarrow> qty \<Rightarrow> PriceLevel" where
  "taken_off l amount =
     (case checked_sub (pl_quantity l) amount of
        Some left \<Rightarrow> if left < 0 then l\<lparr>pl_quantity := 0\<rparr> else l\<lparr>pl_quantity := left\<rparr>
      | None \<Rightarrow> l\<lparr>pl_quantity := 0\<rparr>)"

text \<open>The loop: filled quantity, its value and the number of levels consumed are carried along.\<close>

fun walk_levels :: "PaperOrder \<Rightarrow> nat \<Rightarrow> qty \<Rightarrow> PriceLevel list \<Rightarrow> qty \<Rightarrow> int \<Rightarrow> nat
    \<Rightarrow> PriceLevel list \<times> qty \<times> int \<times> nat" where
  "walk_levels o' bps remaining [] filled val n = ([], filled, val, n)"
| "walk_levels o' bps remaining (l # ls) filled val n =
     (if \<not> limit_permits o' (pl_price l) then (l # ls, filled, val, n)
      else let available = apply_share (pl_quantity l) bps
           in if \<not> available > 0
              then (let (ls', rest) = walk_levels o' bps remaining ls filled val n in (l # ls', rest))
              else (case checked_sub remaining filled of
                      None \<Rightarrow> (l # ls, filled, val, n)
                    | Some room \<Rightarrow>
                        if \<not> room > 0 then (l # ls, filled, val, n)
                        else let amount = min available room
                             in (case checked_add filled amount of
                                   None \<Rightarrow> (l # ls, filled, val, n)
                                 | Some next_filled \<Rightarrow>
                                     let val' = val + amount * pl_price l; n' = inc32 n; l' = taken_off l amount
                                     in if next_filled \<ge> remaining then (l' # ls, next_filled, val', n')
                                        else (let (ls', rest) = walk_levels o' bps remaining ls next_filled val' n'
                                              in (l' # ls', rest)))))"

definition match_and_consume :: "PaperOrder \<Rightarrow> PriceLevel list \<Rightarrow> FillModel \<Rightarrow> nat
    \<Rightarrow> MatchResult \<times> PriceLevel list" where
  "match_and_consume o' levels model queue_share_bps =
     (if \<not> pv_is_resting o' then (no_match, levels)
      else let remaining = pv_remaining o'
           in if \<not> remaining > 0 then (no_match, levels)
              else (case levels of
                      [] \<Rightarrow> (no_match, levels)
                    | front # rest \<Rightarrow>
                        if model = FullOnCross
                        then (if \<not> limit_permits o' (pl_price front) then (no_match, levels)
                              else (no_match\<lparr>mr_quantity := remaining, mr_price := pv_price o',
                                      mr_levels_consumed := 1\<rparr>,
                                    taken_off front remaining # rest))
                        else (let (levels', filled, val, n) = walk_levels o' queue_share_bps remaining levels 0 0 0
                              in if \<not> filled > 0 then (no_match\<lparr>mr_levels_consumed := n\<rparr>, levels')
                                 else (no_match\<lparr>mr_quantity := filled, mr_price := wrap64 (val sdiv filled),
                                         mr_levels_consumed := n\<rparr>, levels'))))"

definition match_against_book :: "PaperOrder \<Rightarrow> OrderBook \<Rightarrow> FillModel \<Rightarrow> nat \<Rightarrow> MatchResult" where
  "match_against_book o' b model queue_share_bps =
     (if \<not> ob_is_valid b then no_match
      else fst (match_and_consume o' (executable_side b (pv_side o')) model queue_share_bps))"

section \<open>Lemmas\<close>

definition displayed :: "PriceLevel list \<Rightarrow> int" where
  "displayed ls = (\<Sum>l\<leftarrow>ls. pl_quantity l)"

definition levels_fit :: "PriceLevel list \<Rightarrow> bool" where
  [inv_defs]: "levels_fit ls \<longleftrightarrow> (\<forall>l\<in>set ls. 0 < pl_price l \<and> in64 (pl_price l)
     \<and> 0 \<le> pl_quantity l \<and> in64 (pl_quantity l))"

text \<open>The second ladder is the first with sizes reduced, no level below zero.\<close>

definition reduced :: "PriceLevel list \<Rightarrow> PriceLevel list \<Rightarrow> bool" where
  "reduced ls ls' \<longleftrightarrow> list_all2 (\<lambda>l l'. pl_price l' = pl_price l \<and> 0 \<le> pl_quantity l'
     \<and> pl_quantity l' \<le> pl_quantity l) ls ls'"

definition pv_sound :: "PaperOrder \<Rightarrow> bool" where
  [inv_defs]: "pv_sound o' \<longleftrightarrow> 0 < pv_price o' \<and> in64 (pv_price o') \<and> 0 < pv_original_qty o' \<and> in64 (pv_original_qty o')
     \<and> 0 \<le> pv_cumulative_qty o' \<and> pv_cumulative_qty o' \<le> pv_original_qty o'"

lemma displayed_simps [simp]:
  "displayed [] = 0" "displayed (l # ls) = pl_quantity l + displayed ls"
  by (simp_all add: displayed_def)

lemma levels_fit_Cons [simp]:
  "levels_fit []"
  "levels_fit (l # ls) \<longleftrightarrow> 0 < pl_price l \<and> in64 (pl_price l) \<and> 0 \<le> pl_quantity l \<and> in64 (pl_quantity l)
     \<and> levels_fit ls"
  by (auto simp: levels_fit_def)

lemma reduced_simps [simp]:
  "reduced [] []"
  "reduced (l # ls) (l' # ls') \<longleftrightarrow> pl_price l' = pl_price l \<and> 0 \<le> pl_quantity l' \<and> pl_quantity l' \<le> pl_quantity l
     \<and> reduced ls ls'"
  by (simp_all add: reduced_def)

lemma reduced_refl: "levels_fit ls \<Longrightarrow> reduced ls ls"
  by (induction ls) simp_all

lemma reduced_fit: "reduced ls ls' \<Longrightarrow> levels_fit ls \<Longrightarrow> levels_fit ls'"
  unfolding reduced_def
  by (induction rule: list_all2_induct) (auto simp: in64_def)

lemma reduced_trans:
  assumes "reduced ls ls'" and "reduced ls' ls''"
  shows "reduced ls ls''"
  using assms unfolding reduced_def
  by (rule list_all2_trans [rotated]) (elim conjE, intro conjI, simp_all)

lemma reduced_displayed: "reduced ls ls' \<Longrightarrow> displayed ls' \<le> displayed ls"
  unfolding reduced_def by (induction rule: list_all2_induct) auto

lemma displayed_nonneg: "levels_fit ls \<Longrightarrow> 0 \<le> displayed ls"
  by (induction ls) simp_all

lemma pv_remaining_eq [simp]: "pv_sound o' \<Longrightarrow> pv_remaining o' = pv_original_qty o' - pv_cumulative_qty o'"
  by (auto simp: pv_remaining_def pv_sound_def checked_sub_def Let_def in64_def)

lemma apply_share_bounds:
  assumes "0 \<le> q" and "in64 q"
  shows "0 \<le> apply_share q bps \<and> apply_share q bps \<le> q"
proof (cases "bps \<ge> 10000")
  case True
  with assms show ?thesis by (simp add: apply_share_def)
next
  case False
  have s: "(q * int bps) sdiv 10000 = (q * int bps) div 10000"
    using assms by (simp add: sdiv_nonneg)
  have "q * int bps \<le> q * 10000" using assms False by (intro mult_left_mono) auto
  then have "(q * int bps) div 10000 \<le> (q * 10000) div 10000" by (intro zdiv_mono1) auto
  then have hi: "(q * int bps) div 10000 \<le> q" by simp
  have lo: "0 \<le> (q * int bps) div 10000" using assms by (simp add: pos_imp_zdiv_nonneg_iff)
  have "in64 ((q * int bps) div 10000)" using in64_between [OF in64_zero assms(2) lo hi] .
  with lo hi s False show ?thesis by (simp add: apply_share_def)
qed

lemma taken_off_simps:
  assumes "0 \<le> amount" and "amount \<le> pl_quantity l" and "in64 (pl_quantity l)"
  shows "pl_price (taken_off l amount) = pl_price l" "pl_quantity (taken_off l amount) = pl_quantity l - amount"
  using assms by (auto simp: taken_off_def checked_sub_def Let_def in64_def)

lemma taken_off_reduced:
  "0 \<le> pl_quantity l \<Longrightarrow> 0 < amount \<Longrightarrow>
     pl_price (taken_off l amount) = pl_price l \<and> 0 \<le> pl_quantity (taken_off l amount)
     \<and> pl_quantity (taken_off l amount) \<le> pl_quantity l"
  by (auto simp: taken_off_def checked_sub_def Let_def)

text \<open>
  What the loop guarantees, from any point of it: nothing is created (what is added to the filled quantity is
  taken off the ladder), the order is never overfilled, and every unit is valued at a price the limit permits.
\<close>

definition between_limits :: "PaperOrder \<Rightarrow> int \<Rightarrow> int \<Rightarrow> bool" where
  "between_limits o' amount val \<longleftrightarrow>
     (if pv_side o' = Buy then amount \<le> val \<and> val \<le> amount * pv_price o'
      else amount * pv_price o' \<le> val \<and> val \<le> amount * INT64_MAX)"

lemma between_limits_add:
  assumes "between_limits o' a v" and "0 < b" and "limit_permits o' p" and "0 < p" and "in64 p"
  shows "between_limits o' (a + b) (v + b * p)"
proof (cases "pv_side o' = Buy")
  case True
  have "b * p \<le> b * pv_price o'" using assms True by (intro mult_left_mono) (auto simp: limit_permits_def)
  moreover have "b * 1 \<le> b * p" using assms by (intro mult_left_mono) auto
  ultimately show ?thesis using assms(1) True by (auto simp: between_limits_def distrib_right)
next
  case False
  have "b * pv_price o' \<le> b * p" using assms False by (intro mult_left_mono) (auto simp: limit_permits_def)
  moreover have "b * p \<le> b * INT64_MAX" using assms by (intro mult_left_mono) (auto simp: in64_def)
  ultimately show ?thesis using assms(1) False by (auto simp: between_limits_def distrib_right)
qed

lemma walk_levels_sound:
  assumes "walk_levels o' bps remaining ls filled val n = (ls', filled', val', n')"
    and "levels_fit ls" and "0 \<le> filled" and "filled \<le> remaining" and "in64 remaining"
    and "between_limits o' filled val"
  shows "displayed ls' + filled' = displayed ls + filled \<and> reduced ls ls' \<and> filled \<le> filled' \<and> filled' \<le> remaining
    \<and> between_limits o' filled' val'"
  using assms
proof (induction ls arbitrary: filled val n ls')
  case Nil
  then show ?case by simp
next
  case (Cons l ls)
  have fit: "levels_fit ls" "0 < pl_price l" "in64 (pl_price l)" "0 \<le> pl_quantity l" "in64 (pl_quantity l)"
    using Cons.prems(2) by simp_all
  have refl: "reduced (l # ls) (l # ls)" using Cons.prems(2) by (rule reduced_refl)
  let ?av = "apply_share (pl_quantity l) bps"
  have av: "0 \<le> ?av" "?av \<le> pl_quantity l" using apply_share_bounds [OF fit(4,5)] by auto
  consider (stop) "ls' = l # ls" "filled' = filled" "val' = val"
    | (skip) ls1 where "walk_levels o' bps remaining ls filled val n = (ls1, filled', val', n')" "ls' = l # ls1"
    | (take) amount ls1 where "amount = min ?av (remaining - filled)" "0 < amount" "limit_permits o' (pl_price l)"
        "ls' = taken_off l amount # ls1"
        "(filled + amount \<ge> remaining \<and> ls1 = ls \<and> filled' = filled + amount \<and> val' = val + amount * pl_price l)
         \<or> walk_levels o' bps remaining ls (filled + amount) (val + amount * pl_price l) (inc32 n) = (ls1, filled', val', n')"
    using Cons.prems(1)
    by (auto simp: Let_def checked_simps split: if_splits option.splits prod.splits)
  then show ?case
  proof cases
    case stop
    with refl Cons.prems show ?thesis by auto
  next
    case skip
    from Cons.IH [OF skip(1) fit(1) Cons.prems(3-6)] skip(2) fit show ?thesis by auto
  next
    case take
    have le: "amount \<le> pl_quantity l" "filled + amount \<le> remaining" using take(1) av by auto
    note off = taken_off_simps [OF less_imp_le [OF take(2)] le(1) fit(5)]
    have btw: "between_limits o' (filled + amount) (val + amount * pl_price l)"
      by (rule between_limits_add [OF Cons.prems(6) take(2,3) fit(2,3)])
    from take(5) show ?thesis
    proof
      assume "filled + amount \<ge> remaining \<and> ls1 = ls \<and> filled' = filled + amount \<and> val' = val + amount * pl_price l"
      with take(2,4) off le btw reduced_refl [OF fit(1)] fit show ?thesis by auto
    next
      assume w: "walk_levels o' bps remaining ls (filled + amount) (val + amount * pl_price l) (inc32 n)
        = (ls1, filled', val', n')"
      from Cons.IH [OF w fit(1) _ le(2) Cons.prems(5) btw] Cons.prems(3) take(2,4) off le fit
      show ?thesis by auto
    qed
  qed
qed

lemma walk_levels_value:
  assumes "walk_levels o' bps remaining ls 0 0 n = (ls', filled, val, n')" and "levels_fit ls"
    and "0 \<le> remaining" and "in64 remaining" and "pv_sound o'"
  shows "0 \<le> val \<and> val < 2 ^ 126"
proof -
  have w: "filled \<le> remaining" "0 \<le> filled" "between_limits o' filled val"
    using walk_levels_sound [OF assms(1,2) _ assms(3,4)] by (simp_all add: between_limits_def)
  let ?hi = "if pv_side o' = Buy then pv_price o' else INT64_MAX"
  have hi: "0 \<le> ?hi" "?hi \<le> INT64_MAX" using assms(5) by (auto simp: pv_sound_def in64_def)
  have "val \<le> filled * ?hi" using w(3) by (auto simp: between_limits_def split: if_splits)
  also have "\<dots> \<le> INT64_MAX * INT64_MAX"
    using w(1,2) assms(4) hi by (intro mult_mono) (auto simp: in64_def)
  finally have "val < 2 ^ 126" by simp
  moreover have "0 \<le> filled * pv_price o'" using w(2) assms(5) by (simp add: pv_sound_def)
  then have "0 \<le> val" using w(2,3) by (auto simp: between_limits_def split: if_splits)
  ultimately show ?thesis by simp
qed

text \<open>The average price of what was taken lies on the right side of the limit.\<close>

lemma average_within_limit:
  assumes "between_limits o' filled val" and "0 < filled" and "pv_sound o'"
  shows "0 < wrap64 (val sdiv filled) \<and> limit_permits o' (wrap64 (val sdiv filled))"
proof -
  have px: "0 < pv_price o'" "in64 (pv_price o')" using assms(3) by (simp_all add: pv_sound_def)
  have lo: "filled * (if pv_side o' = Buy then 1 else pv_price o') \<le> val"
    and hi: "val \<le> filled * (if pv_side o' = Buy then pv_price o' else INT64_MAX)"
    using assms(1) by (auto simp: between_limits_def)
  have "0 \<le> filled * (if pv_side o' = Buy then 1 else pv_price o')" using assms(2) px by simp
  with lo have v: "val sdiv filled = val div filled" using assms(2) by (simp add: sdiv_nonneg)
  have "(filled * (if pv_side o' = Buy then 1 else pv_price o')) div filled \<le> val div filled"
    by (rule zdiv_mono1 [OF lo assms(2)])
  moreover have "val div filled \<le> (filled * (if pv_side o' = Buy then pv_price o' else INT64_MAX)) div filled"
    by (rule zdiv_mono1 [OF hi assms(2)])
  ultimately have b: "(if pv_side o' = Buy then 1 else pv_price o') \<le> val div filled"
    "val div filled \<le> (if pv_side o' = Buy then pv_price o' else INT64_MAX)"
    using assms(2) by simp_all
  have "in64 (val div filled)" using b px by (auto simp: in64_def split: if_splits)
  with b v px show ?thesis by (auto simp: limit_permits_def split: if_splits)
qed

text \<open>What one matching attempt promises about the order, the ladder and the execution.\<close>

definition fair_match :: "PaperOrder \<Rightarrow> PriceLevel list \<Rightarrow> MatchResult \<Rightarrow> PriceLevel list \<Rightarrow> bool" where
  "fair_match o' ls r ls' \<longleftrightarrow> 0 \<le> mr_quantity r \<and> mr_quantity r \<le> pv_remaining o' \<and> reduced ls ls'
     \<and> (mr_quantity r > 0 \<longrightarrow> pv_is_resting o' \<and> 0 < mr_price r \<and> limit_permits o' (mr_price r))"

lemma no_match_simps [simp]:
  "mr_quantity no_match = 0" "mr_liquidity no_match = Maker"
  by (simp_all add: no_match_def)

lemma match_and_consume_fair:
  assumes "match_and_consume o' ls model bps = (r, ls')" and "pv_sound o'" and "levels_fit ls"
  shows "fair_match o' ls r ls' \<and> mr_liquidity r = Maker
    \<and> (model = DisplayedLiquidity \<longrightarrow> displayed ls' + mr_quantity r = displayed ls)"
proof -
  let ?rem = "pv_remaining o'"
  have refl: "reduced ls ls" using assms(3) by (rule reduced_refl)
  have rem: "0 \<le> ?rem" "in64 ?rem" using assms(2) by (auto simp: pv_sound_def in64_def)
  consider (none) "r = no_match" "ls' = ls"
    | (full) front rest where "model = FullOnCross" "ls = front # rest" "limit_permits o' (pl_price front)" "0 < ?rem"
        "r = no_match\<lparr>mr_quantity := ?rem, mr_price := pv_price o', mr_levels_consumed := 1\<rparr>"
        "ls' = taken_off front ?rem # rest" "pv_is_resting o'"
    | (walk) filled val n where "walk_levels o' bps ?rem ls 0 0 0 = (ls', filled, val, n)" "pv_is_resting o'"
        "r = (if \<not> filled > 0 then no_match\<lparr>mr_levels_consumed := n\<rparr>
              else no_match\<lparr>mr_quantity := filled, mr_price := wrap64 (val sdiv filled), mr_levels_consumed := n\<rparr>)"
    using assms(1)
    by (auto simp: match_and_consume_def Let_def split: if_splits list.splits prod.splits)
  then show ?thesis
  proof cases
    case none
    with refl rem show ?thesis by (simp add: fair_match_def)
  next
    case full
    have "reduced ls ls'"
      using full assms(3) taken_off_reduced [of front ?rem] by (simp add: reduced_refl)
    with full rem assms(2) show ?thesis
      by (simp add: fair_match_def limit_permits_def pv_sound_def)
  next
    case walk
    have w: "displayed ls' + filled = displayed ls" "reduced ls ls'" "0 \<le> filled" "filled \<le> ?rem"
        "between_limits o' filled val"
      using walk_levels_sound [OF walk(1) assms(3) _ rem] by (simp_all add: between_limits_def)
    show ?thesis
    proof (cases "filled > 0")
      case True
      with walk(2,3) w average_within_limit [OF w(5) True assms(2)] show ?thesis by (simp add: fair_match_def)
    next
      case False
      with w walk(3) rem show ?thesis by (simp add: fair_match_def)
    qed
  qed
qed

section \<open>Properties\<close>

text \<open>
  C15. A simulated execution is one the market could have given: matching an order against the opposite side never executes more
  than the order has left, never at a price its limit forbids and never at a price that is not positive; it only takes from the
  ladder, never adds to it or moves a price; and under the default model what it executes is exactly what disappears from the
  ladder, so nothing is executed that was not displayed.
\<close>

theorem matching_respects_limit_and_liquidity:
  assumes "match_and_consume o' ls model bps = (r, ls')" and "pv_sound o'" and "levels_fit ls"
  shows "0 \<le> mr_quantity r \<and> mr_quantity r \<le> pv_original_qty o' - pv_cumulative_qty o' \<and> reduced ls ls'
    \<and> (mr_quantity r > 0 \<longrightarrow> 0 < mr_price r \<and> (if pv_side o' = Buy then mr_price r \<le> pv_price o' else pv_price o' \<le> mr_price r))
    \<and> (model = DisplayedLiquidity \<longrightarrow> mr_quantity r = displayed ls - displayed ls')"
  using match_and_consume_fair [OF assms] assms(2) by (auto simp: fair_match_def limit_permits_def)

definition demo_taker :: PaperOrder where
  "demo_taker = \<lparr>pv_exchange_order_id = ''PX'', pv_client_order_id = ''c1'', pv_symbol = ''BTC'', pv_symbol_id = 0,
     pv_side = Buy, pv_type = Limit, pv_tif = GTC, pv_post_only = False, pv_price = 103, pv_original_qty = 9,
     pv_cumulative_qty = 2, pv_status = StPartiallyFilled, pv_arrival_sequence = 4, pv_accepted_ns = 0,
     pv_last_event_ns = 0, pv_cancel_pending = False\<rparr>"

definition demo_ladder :: "PriceLevel list" where
  "demo_ladder = [\<lparr>pl_price = 100, pl_quantity = 4\<rparr>, \<lparr>pl_price = 102, pl_quantity = 6\<rparr>, \<lparr>pl_price = 104, pl_quantity = 50\<rparr>]"

lemma demo_match:
  "match_and_consume demo_taker demo_ladder DisplayedLiquidity 5000 =
     (\<lparr>mr_quantity = 5, mr_price = 101, mr_liquidity = Maker, mr_levels_consumed = 2\<rparr>,
      [\<lparr>pl_price = 100, pl_quantity = 2\<rparr>, \<lparr>pl_price = 102, pl_quantity = 3\<rparr>, \<lparr>pl_price = 104, pl_quantity = 50\<rparr>])"
  by code_simp

theorem matching_respects_limit_and_liquidity_witness:
  "pv_sound demo_taker \<and> levels_fit demo_ladder \<and> (5::int) \<le> pv_original_qty demo_taker - pv_cumulative_qty demo_taker
    \<and> (101::int) \<le> pv_price demo_taker"
proof -
  have h: "pv_sound demo_taker" "levels_fit demo_ladder"
    by (simp_all add: demo_taker_def demo_ladder_def pv_sound_def in64_def)
  from matching_respects_limit_and_liquidity [OF demo_match h] h show ?thesis by (simp add: demo_taker_def)
qed

text \<open>
  The optimistic fill model hands out the same displayed quantity twice: a second order that crosses the same level is filled in
  full as well, however little was displayed and although the first order has already taken it, because the model looks at the
  price of the level and never at the size left on it.
\<close>

theorem full_on_cross_hands_out_twice:
  assumes "pv_is_resting a" and "0 < pv_remaining a" and "limit_permits a (pl_price front)"
    and "pv_is_resting b" and "0 < pv_remaining b" and "limit_permits b (pl_price front)"
    and "match_and_consume a (front # rest) FullOnCross bps = (r1, ls)"
    and "match_and_consume b ls FullOnCross bps = (r2, ls')"
  shows "mr_quantity r1 = pv_remaining a \<and> mr_quantity r2 = pv_remaining b"
proof -
  have "pl_price (taken_off front amount) = pl_price front" for amount
    by (simp add: taken_off_def split: option.split)
  with assms show ?thesis by (auto simp: match_and_consume_def Let_def)
qed

end
