(* ===== verification/PaperExecution.thy ===== *)
theory PaperExecution
  imports PaperMatcher Decimal Double "HOL-Library.Product_Lexorder"
begin

text \<open>
  The simulated venue: \<^verbatim>\<open>PaperTypes.hpp\<close>, \<^verbatim>\<open>PaperExecution.hpp\<close> and \<^verbatim>\<open>PaperExecution.cpp\<close>. The class is
  the record \<open>PaperExecution\<close>; every entry point is a function on it that also takes the reading of the injected
  clock, which is the same for the whole call. The sink is a flag (attached or not) and the list of the events
  delivered to it. The venue reads the engine's books through pointers: \<open>pe_books\<close> maps a symbol to an address, and
  the operations that read a book take the store of books by address as it is at the time of the call.

  An event is built in a union whose storage was initialised as an empty open-orders snapshot, and a handler writes
  only some fields of its payload. The fields it leaves are therefore zero: an unwritten error reads as category
  \<open>None\<close> with outcome \<open>Acknowledged\<close> (\<open>unset_error\<close>, which is not \<open>ExchangeError::none()\<close>), an unwritten string as
  empty, and the symbol id as the invalid one where its place coincides with that of a snapshot row.
\<close>

section \<open>Configuration\<close>

record PaperLatency =
  la_request_ns :: nanos
  la_ack_ns :: nanos
  la_cancel_ns :: nanos
  la_replace_ns :: nanos
  la_fill_ns :: nanos
  la_query_ns :: nanos

definition new_total :: "PaperLatency \<Rightarrow> nanos" where
  "new_total l = la_request_ns l + la_ack_ns l"

definition cancel_total :: "PaperLatency \<Rightarrow> nanos" where
  "cancel_total l = la_request_ns l + la_cancel_ns l"

definition replace_total :: "PaperLatency \<Rightarrow> nanos" where
  "replace_total l = la_request_ns l + la_replace_ns l"

record PaperFaults =
  fa_reject_next_new :: nat
  fa_reject_next_cancel :: nat
  fa_reject_next_replace :: nat
  fa_drop_next_request :: nat
  fa_duplicate_next_event :: nat
  fa_reorder_next_event :: nat
  fa_delay_next_request_ns :: nanos
  fa_hide_next_snapshot_orders :: nat
  fa_error_next_request :: nat

definition no_faults :: PaperFaults where
  "no_faults = \<lparr>fa_reject_next_new = 0, fa_reject_next_cancel = 0, fa_reject_next_replace = 0,
     fa_drop_next_request = 0, fa_duplicate_next_event = 0, fa_reorder_next_event = 0,
     fa_delay_next_request_ns = 0, fa_hide_next_snapshot_orders = 0, fa_error_next_request = 0\<rparr>"

definition faults_any :: "PaperFaults \<Rightarrow> bool" where
  "faults_any f \<longleftrightarrow> fa_reject_next_new f \<noteq> 0 \<or> fa_reject_next_cancel f \<noteq> 0 \<or> fa_reject_next_replace f \<noteq> 0
     \<or> fa_drop_next_request f \<noteq> 0 \<or> fa_duplicate_next_event f \<noteq> 0 \<or> fa_reorder_next_event f \<noteq> 0
     \<or> fa_delay_next_request_ns f \<noteq> 0 \<or> fa_hide_next_snapshot_orders f \<noteq> 0 \<or> fa_error_next_request f \<noteq> 0"

record PaperExecutionConfig =
  pc_venue :: string
  pc_latency :: PaperLatency
  pc_faults :: PaperFaults
  pc_fill_model :: FillModel
  pc_post_only_policy :: PostOnlyPolicy
  pc_replace_mode :: ReplaceMode
  pc_queue_share_bps :: nat
  pc_max_book_age_ns :: nanos
  pc_max_pending_events :: nat
  pc_max_orders :: nat
  pc_deterministic_seed :: nat
  pc_maker_fee_bps :: int
  pc_taker_fee_bps :: int

definition default_paper_config :: PaperExecutionConfig where
  "default_paper_config = \<lparr>pc_venue = ''paper'',
     pc_latency = \<lparr>la_request_ns = 500000, la_ack_ns = 1500000, la_cancel_ns = 1500000, la_replace_ns = 2000000,
       la_fill_ns = 1000000, la_query_ns = 5000000\<rparr>,
     pc_faults = no_faults, pc_fill_model = DisplayedLiquidity, pc_post_only_policy = PopReject,
     pc_replace_mode = RmAtomic, pc_queue_share_bps = 5000, pc_max_book_age_ns = 500000000,
     pc_max_pending_events = 4096, pc_max_orders = 1024, pc_deterministic_seed = 0,
     pc_maker_fee_bps = 10, pc_taker_fee_bps = 40\<rparr>"

text \<open>The engine's YAML block, and the venue's reading of it. A \<open>double\<close> is the rational it denotes.\<close>

record PaperConfig =
  py_request_latency_us :: int
  py_ack_latency_us :: int
  py_cancel_latency_us :: int
  py_replace_latency_us :: int
  py_fill_latency_us :: int
  py_query_latency_us :: int
  py_fill_model :: string
  py_post_only_policy :: string
  py_replace_mode :: string
  py_queue_share_bps :: int
  py_max_book_age_ms :: int
  py_max_orders :: int
  py_deterministic_seed :: nat
  py_maker_fee_bps :: rat
  py_taker_fee_bps :: rat

text \<open>
  Durations are multiplied out in 64 bits: a large setting wraps around. A fee above the range of \<open>int32_t\<close> has no defined
  conversion; the value here is the one the conversion instruction of the x86 gives.
\<close>

definition micros :: "nanos \<Rightarrow> nanos" where
  "micros n = wrap64 (n * 1000)"

definition millis :: "nanos \<Rightarrow> nanos" where
  "millis n = wrap64 (n * 1000000)"

definition int32_cast :: "rat \<Rightarrow> int" where
  "int32_cast r = (if r < 2147483648 then \<lfloor>r\<rfloor> else - 2147483648)"

definition paper_latency_from :: "PaperConfig \<Rightarrow> PaperLatency" where
  "paper_latency_from y = \<lparr>la_request_ns = micros (py_request_latency_us y), la_ack_ns = micros (py_ack_latency_us y),
     la_cancel_ns = micros (py_cancel_latency_us y), la_replace_ns = micros (py_replace_latency_us y),
     la_fill_ns = micros (py_fill_latency_us y), la_query_ns = micros (py_query_latency_us y)\<rparr>"

definition parse_fill_model :: "string \<Rightarrow> FillModel option" where
  "parse_fill_model s = (if s = ''displayed_liquidity'' then Some DisplayedLiquidity
     else if s = ''full_on_cross'' then Some FullOnCross else None)"

definition parse_post_only_policy :: "string \<Rightarrow> PostOnlyPolicy option" where
  "parse_post_only_policy s = (if s = ''reject'' then Some PopReject
     else if s = ''expire'' then Some PopExpire else None)"

definition parse_replace_mode :: "string \<Rightarrow> ReplaceMode option" where
  "parse_replace_mode s = (if s = ''atomic'' then Some RmAtomic
     else if s = ''unsupported'' then Some RmUnsupported else None)"

definition paper_config_from :: "PaperConfig \<Rightarrow> ErrorCode + PaperExecutionConfig" where
  "paper_config_from y =
     (case parse_fill_model (py_fill_model y) of
        None \<Rightarrow> Inl InvalidArgument
      | Some fm \<Rightarrow>
     (case parse_post_only_policy (py_post_only_policy y) of
        None \<Rightarrow> Inl InvalidArgument
      | Some pp \<Rightarrow>
     (case parse_replace_mode (py_replace_mode y) of
        None \<Rightarrow> Inl InvalidArgument
      | Some rm \<Rightarrow>
        if py_queue_share_bps y < 0 \<or> py_queue_share_bps y > 10000 then Inl InvalidArgument
        else if py_max_orders y \<le> 0 then Inl InvalidArgument
        else if py_maker_fee_bps y < 0 \<or> py_taker_fee_bps y < 0 then Inl InvalidArgument
        else Inr (default_paper_config\<lparr>pc_latency := paper_latency_from y, pc_fill_model := fm,
               pc_post_only_policy := pp, pc_replace_mode := rm, pc_queue_share_bps := nat (py_queue_share_bps y),
               pc_max_book_age_ns := millis (py_max_book_age_ms y), pc_max_orders := nat (py_max_orders y),
               pc_deterministic_seed := py_deterministic_seed y, pc_maker_fee_bps := int32_cast (py_maker_fee_bps y),
               pc_taker_fee_bps := int32_cast (py_taker_fee_bps y)\<rparr>))))"

definition paper_capabilities :: "ReplaceMode \<Rightarrow> ExchangeCapabilities" where
  "paper_capabilities mode = \<lparr>cap_post_only = True, cap_replace = (mode = RmAtomic), cap_reduce_only = False,
     cap_client_order_id = True, cap_mass_cancel = True, cap_order_query = True, cap_native_bbo = False,
     cap_orderbook_snapshot = True, cap_incremental_depth = True, cap_trade_stream = True,
     cap_balance_stream = False, cap_position_stream = False, cap_has_positions = False, cap_max_client_order_id_len = 36,
     cap_max_subscriptions_per_connection = 0, cap_max_snapshot_depth = 0\<rparr>"

datatype PaperMetric =
    PmNewRequests | PmNewAcks | PmNewRejects | PmCancelRequests | PmCancelAcks | PmCancelRejects
  | PmReplaceRequests | PmReplaceAcks | PmReplaceRejects | PmFills | PmPartialFills | PmExpiries
  | PmExecutionErrors | PmConnectionTransitions | PmSnapshots | PmEventsEmitted | PmEventsDropped
  | PmRequestsDropped | PmDuplicatesInjected | PmReordersInjected | PmStaleBookSkips | PmPostOnlyRejections

section \<open>State\<close>

record Clock =
  ck_steady :: nanos
  ck_wall :: nanos

datatype VenueRequest = VrSubmit OrderRequest | VrCancel CancelRequest | VrReplace ReplaceRequest

record PendingRequest =
  pr_due_ns :: nanos
  pr_ordinal :: nat
  pr_request :: VenueRequest
  pr_decision_delay_ns :: nanos

record Scheduled =
  sc_due_ns :: nanos
  sc_ordinal :: nat
  sc_event :: ExecutionEvent

record PaperExecution =
  pe_config :: PaperExecutionConfig
  pe_sink :: bool
  pe_delivered :: "ExecutionEvent list"
  pe_caps :: ExchangeCapabilities
  pe_connection :: ConnectionState
  pe_authenticated :: bool
  pe_started :: bool
  pe_orders :: "PaperOrder list"
  pe_by_client_id :: "string \<Rightarrow> nat option"
  pe_by_exchange_id :: "string \<Rightarrow> nat option"
  pe_books :: "string \<Rightarrow> nat option"
  pe_book_updated_ns :: "string \<Rightarrow> nanos option"
  pe_pending :: "Scheduled list"
  pe_in_flight :: "PendingRequest list"
  pe_processing_arrival_ns :: nanos
  pe_next_exchange_seq :: nat
  pe_next_trade_seq :: nat
  pe_next_arrival_seq :: nat
  pe_next_ordinal :: nat
  pe_seq :: seq
  pe_metrics :: "PaperMetric counters"
  pe_simulated_latency_ns :: nanos

definition new_paper :: "PaperExecutionConfig \<Rightarrow> PaperExecution" where
  "new_paper config = \<lparr>pe_config = config, pe_sink = False, pe_delivered = [],
     pe_caps = paper_capabilities (pc_replace_mode config), pe_connection = CnDisconnected,
     pe_authenticated = False, pe_started = False, pe_orders = [], pe_by_client_id = Map.empty,
     pe_by_exchange_id = Map.empty, pe_books = Map.empty, pe_book_updated_ns = Map.empty, pe_pending = [],
     pe_in_flight = [], pe_processing_arrival_ns = 0, pe_next_exchange_seq = 1, pe_next_trade_seq = 1,
     pe_next_arrival_seq = 1, pe_next_ordinal = 0, pe_seq = 0, pe_metrics = zero_counters,
     pe_simulated_latency_ns = 0\<rparr>"

definition pe_count :: "PaperExecution \<Rightarrow> PaperMetric \<Rightarrow> PaperExecution" where
  "pe_count v m = v\<lparr>pe_metrics := bump (pe_metrics v) m\<rparr>"

definition pe_faults :: "PaperExecution \<Rightarrow> PaperFaults" where
  "pe_faults v = pc_faults (pe_config v)"

definition inject :: "PaperExecution \<Rightarrow> PaperFaults \<Rightarrow> PaperExecution" where
  "inject v f = v\<lparr>pe_config := (pe_config v)\<lparr>pc_faults := f\<rparr>\<rparr>"

section \<open>Helpers\<close>

definition require_connected :: "PaperExecution \<Rightarrow> ErrorCode" where
  "require_connected v =
     (if \<not> pe_started v \<or> \<not> pe_sink v then Unavailable
      else if pe_connection v \<noteq> CnConnected then Unavailable
      else if \<not> pe_authenticated v then PermissionDenied
      else Ok)"

text \<open>\<open>consume\<close> on one fault counter, given by its reader and its updater.\<close>

definition consume :: "(PaperFaults \<Rightarrow> nat) \<Rightarrow> ((nat \<Rightarrow> nat) \<Rightarrow> PaperFaults \<Rightarrow> PaperFaults) \<Rightarrow> PaperExecution
    \<Rightarrow> bool \<times> PaperExecution" where
  "consume get put v =
     (if get (pe_faults v) = 0 then (False, v)
      else (True, inject v (put (\<lambda>n. n - 1) (pe_faults v))))"

definition take_request_delay :: "PaperExecution \<Rightarrow> nanos \<times> PaperExecution" where
  "take_request_delay v =
     (let extra = fa_delay_next_request_ns (pe_faults v)
      in if extra \<noteq> 0 then (extra, inject v ((pe_faults v)\<lparr>fa_delay_next_request_ns := 0\<rparr>)) else (0, v))"

definition padded11 :: "nat \<Rightarrow> string" where
  "padded11 n = (let d = uint_to_string (int n) in replicate (11 - length d) (CHR ''0'') @ d)"

definition next_exchange_id :: "PaperExecution \<Rightarrow> string \<times> PaperExecution" where
  "next_exchange_id v =
     (fst (inline_assign 32 (''PX'' @ padded11 (pe_next_exchange_seq v))),
      v\<lparr>pe_next_exchange_seq := inc64 (pe_next_exchange_seq v)\<rparr>)"

definition next_trade_id :: "PaperExecution \<Rightarrow> string \<times> PaperExecution" where
  "next_trade_id v =
     (fst (inline_assign 32 (''PT'' @ padded11 (pe_next_trade_seq v))),
      v\<lparr>pe_next_trade_seq := inc64 (pe_next_trade_seq v)\<rparr>)"

definition next_seq :: "PaperExecution \<Rightarrow> seq \<times> PaperExecution" where
  "next_seq v = (inc64 (pe_seq v), v\<lparr>pe_seq := inc64 (pe_seq v)\<rparr>)"

definition order_by_client :: "PaperExecution \<Rightarrow> string \<Rightarrow> PaperOrder option" where
  "order_by_client v cid = map_option (\<lambda>i. pe_orders v ! i) (pe_by_client_id v cid)"

definition order_by_exchange :: "PaperExecution \<Rightarrow> string \<Rightarrow> PaperOrder option" where
  "order_by_exchange v eid = map_option (\<lambda>i. pe_orders v ! i) (pe_by_exchange_id v eid)"

definition resting_order_count :: "PaperExecution \<Rightarrow> nat" where
  "resting_order_count v = length (filter pv_is_resting (pe_orders v))"

definition write_order :: "PaperExecution \<Rightarrow> nat \<Rightarrow> PaperOrder \<Rightarrow> PaperExecution" where
  "write_order v i o' = v\<lparr>pe_orders := (pe_orders v)[i := o']\<rparr>"

definition in_flight_requests :: "PaperExecution \<Rightarrow> nat" where
  "in_flight_requests v = length (pe_in_flight v) + length (pe_pending v)"

section \<open>The event path\<close>

definition schedule_at :: "Clock \<Rightarrow> PaperExecution \<Rightarrow> nanos \<Rightarrow> ExecutionEvent \<Rightarrow> PaperExecution" where
  "schedule_at ck v due event =
     (if length (pe_pending v) \<ge> pc_max_pending_events (pe_config v) then pe_count v PmEventsDropped
      else let now = ck_steady ck;
               s = \<lparr>sc_due_ns = due, sc_ordinal = pe_next_ordinal v, sc_event = event\<rparr>;
               v1 = v\<lparr>pe_simulated_latency_ns := pe_simulated_latency_ns v + (if due > now then due - now else 0),
                      pe_next_ordinal := inc64 (pe_next_ordinal v), pe_pending := pe_pending v @ [s]\<rparr>;
               (dup, v2) = consume fa_duplicate_next_event fa_duplicate_next_event_update v1
           in if dup then (pe_count v2 PmDuplicatesInjected)
                  \<lparr>pe_pending := pe_pending v2 @ [s\<lparr>sc_ordinal := pe_next_ordinal v2\<rparr>],
                   pe_next_ordinal := inc64 (pe_next_ordinal v2)\<rparr>
              else v2)"

definition schedule :: "Clock \<Rightarrow> PaperExecution \<Rightarrow> nanos \<Rightarrow> ExecutionEvent \<Rightarrow> PaperExecution" where
  "schedule ck v delay event =
     (let base = (if pe_processing_arrival_ns v \<noteq> 0 then pe_processing_arrival_ns v else ck_steady ck)
      in schedule_at ck v (base + delay) event)"

definition emit :: "PaperExecution \<Rightarrow> ExecutionEvent \<Rightarrow> PaperExecution" where
  "emit v event =
     (if \<not> pe_sink v then v
      else (pe_count v PmEventsEmitted)\<lparr>pe_delivered := pe_delivered v @ [event]\<rparr>)"

definition set_connection :: "PaperExecution \<Rightarrow> ConnectionState \<Rightarrow> ExchangeError \<Rightarrow> PaperExecution" where
  "set_connection v state error =
     (if state = pe_connection v then v
      else let from_st = pe_connection v;
               v1 = pe_count (v\<lparr>pe_connection := state\<rparr>) PmConnectionTransitions
           in if \<not> pe_sink v then v1
              else emit v1 (EvConnection \<lparr>con_venue = pc_venue (pe_config v), con_from = from_st, con_to = state,
                     con_error = error, con_reconnect_count = 0\<rparr>))"

definition pe_start :: "PaperExecution \<Rightarrow> PaperExecution \<times> ErrorCode" where
  "pe_start v =
     (let v1 = set_connection (v\<lparr>pe_sink := True, pe_started := True\<rparr>) CnConnecting error_none;
          v2 = set_connection (v1\<lparr>pe_authenticated := True\<rparr>) CnConnected error_none
      in (v2, Ok))"

definition pe_stop :: "PaperExecution \<Rightarrow> PaperExecution" where
  "pe_stop v =
     (if \<not> pe_started v then v
      else (set_connection (v\<lparr>pe_started := False, pe_in_flight := []\<rparr>) CnDisconnected error_none)
             \<lparr>pe_pending := [], pe_sink := False\<rparr>)"

definition unset_error :: ExchangeError where
  "unset_error = \<lparr>ee_category = NoError, ee_outcome = OutAcknowledged, ee_reason = NoReason,
     ee_venue_code = 0, ee_retryable = False\<rparr>"

definition resolve_pending_cancel :: "Clock \<Rightarrow> PaperExecution \<Rightarrow> OrderCancelEvent
    \<Rightarrow> PaperExecution \<times> OrderCancelEvent" where
  "resolve_pending_cancel ck v e =
     (case pe_by_client_id v (cxl_client_order_id e) of
        None \<Rightarrow> (pe_count v PmCancelRejects, e\<lparr>cxl_cancel_status := CsOrderNotFound, cxl_order_status := StUnknown\<rparr>)
      | Some i \<Rightarrow>
          let o' = (pe_orders v ! i)\<lparr>pv_cancel_pending := False\<rparr>; v1 = write_order v i o'
          in if pv_status o' = StFilled
             then (pe_count v1 PmCancelRejects,
                   e\<lparr>cxl_cancel_status := CsTooLate, cxl_order_status := StFilled,
                     cxl_cumulative_qty := pv_cumulative_qty o', cxl_leaves_qty := 0\<rparr>)
             else if pv_is_terminal o'
             then (pe_count v1 PmCancelRejects,
                   e\<lparr>cxl_cancel_status := CsOrderNotFound, cxl_order_status := pv_status o'\<rparr>)
             else (pe_count (write_order v i (o'\<lparr>pv_status := StCanceled, pv_last_event_ns := ck_steady ck\<rparr>)) PmCancelAcks,
                   e\<lparr>cxl_cancel_status := CsAccepted, cxl_order_status := StCanceled,
                     cxl_cumulative_qty := pv_cumulative_qty o', cxl_leaves_qty := pv_remaining o'\<rparr>))"

section \<open>Order entry\<close>

definition enqueue_request :: "Clock \<Rightarrow> PaperExecution \<Rightarrow> VenueRequest \<Rightarrow> nanos \<Rightarrow> PaperExecution" where
  "enqueue_request ck v req decision_delay =
     (let (extra, v1) = take_request_delay v
      in v1\<lparr>pe_in_flight := pe_in_flight v1 @
              [\<lparr>pr_due_ns = ck_steady ck + la_request_ns (pc_latency (pe_config v1)) + extra,
                pr_ordinal = pe_next_ordinal v1, pr_request = req, pr_decision_delay_ns = decision_delay\<rparr>],
            pe_next_ordinal := inc64 (pe_next_ordinal v1)\<rparr>)"

text \<open>The tail of the three request calls: an injected fault swallows the request, otherwise it takes off.\<close>

definition send_request :: "Clock \<Rightarrow> PaperExecution \<Rightarrow> VenueRequest \<Rightarrow> nanos \<Rightarrow> PaperExecution \<times> ErrorCode" where
  "send_request ck v req decision_delay =
     (let (dropped, v1) = consume fa_drop_next_request fa_drop_next_request_update v
      in if dropped then (pe_count v1 PmRequestsDropped, Ok)
         else (enqueue_request ck v1 req decision_delay, Ok))"

definition pe_submit :: "Clock \<Rightarrow> PaperExecution \<Rightarrow> OrderRequest \<Rightarrow> PaperExecution \<times> ErrorCode" where
  "pe_submit ck v req =
     (if is_err (require_connected v) then (v, require_connected v)
      else if length (pe_orders v) \<ge> pc_max_orders (pe_config v) then (v, Overflow)
      else if or_client_order_id req = [] then (v, InvalidArgument)
      else if length (or_client_order_id req) > cap_max_client_order_id_len (pe_caps v) then (v, InvalidArgument)
      else if order_by_client v (or_client_order_id req) \<noteq> None then (v, AlreadyExists)
      else if or_type req \<noteq> Limit \<and> or_type req \<noteq> LimitMaker then (v, FailedPrecondition)
      else if \<not> or_price req > 0 \<or> \<not> or_quantity req > 0 then (v, InvalidArgument)
      else send_request ck (pe_count v PmNewRequests) (VrSubmit req) (la_ack_ns (pc_latency (pe_config v))))"

definition pe_cancel :: "Clock \<Rightarrow> PaperExecution \<Rightarrow> CancelRequest \<Rightarrow> PaperExecution \<times> ErrorCode" where
  "pe_cancel ck v req =
     (if \<not> pe_started v \<or> \<not> pe_sink v then (v, Unavailable)
      else if pe_connection v = CnDisconnected \<or> pe_connection v = CnFailed then (v, Unavailable)
      else if \<not> identifies_an_order req then (v, InvalidArgument)
      else send_request ck (pe_count v PmCancelRequests) (VrCancel req) (la_cancel_ns (pc_latency (pe_config v))))"

text \<open>\<open>cancel_all\<close> walks the venue's orders and stops at the first cancel that is refused.\<close>

fun cancel_each :: "Clock \<Rightarrow> PaperExecution \<Rightarrow> string \<Rightarrow> PaperOrder list \<Rightarrow> PaperExecution \<times> ErrorCode" where
  "cancel_each ck v symbol [] = (v, Ok)"
| "cancel_each ck v symbol (o' # os) =
     (if \<not> pv_is_resting o' then cancel_each ck v symbol os
      else if symbol \<noteq> [] \<and> pv_symbol o' \<noteq> symbol then cancel_each ck v symbol os
      else let (v1, st) = pe_cancel ck v \<lparr>cr_client_order_id = pv_client_order_id o',
                 cr_exchange_order_id = pv_exchange_order_id o', cr_symbol = pv_symbol o',
                 cr_symbol_id = kInvalidSymbolId, cr_trace = 0, cr_created_ns = 0\<rparr>
           in if is_err st then (v1, st) else cancel_each ck v1 symbol os)"

definition cancel_all :: "Clock \<Rightarrow> PaperExecution \<Rightarrow> string \<Rightarrow> PaperExecution \<times> ErrorCode" where
  "cancel_all ck v symbol =
     (if is_err (require_connected v) then (v, require_connected v)
      else cancel_each ck v symbol (pe_orders v))"

definition pe_replace :: "Clock \<Rightarrow> PaperExecution \<Rightarrow> ReplaceRequest \<Rightarrow> PaperExecution \<times> ErrorCode" where
  "pe_replace ck v req =
     (if pc_replace_mode (pe_config v) = RmUnsupported then (v, InvalidArgument)
      else if is_err (require_connected v) then (v, require_connected v)
      else if \<not> rr_new_price req > 0 \<or> \<not> rr_new_quantity req > 0 then (v, InvalidArgument)
      else if rr_new_client_order_id req = [] then (v, InvalidArgument)
      else send_request ck (pe_count v PmReplaceRequests) (VrReplace req) (la_replace_ns (pc_latency (pe_config v))))"

section \<open>Executions\<close>

definition apply_match :: "PaperOrder \<Rightarrow> MatchResult \<Rightarrow> nanos \<Rightarrow> PaperOrder" where
  "apply_match o' m at_ns =
     (case checked_add (pv_cumulative_qty o') (mr_quantity m) of
        None \<Rightarrow> o'
      | Some next_qty \<Rightarrow>
          if next_qty > pv_original_qty o' then o'
          else let o1 = o'\<lparr>pv_cumulative_qty := next_qty, pv_last_event_ns := at_ns\<rparr>
               in o1\<lparr>pv_status := (if pv_remaining o1 = 0 then StFilled else StPartiallyFilled)\<rparr>)"

definition fill_fee :: "PaperExecutionConfig \<Rightarrow> MatchResult \<Rightarrow> notional" where
  "fill_fee config m =
     (let rate_bps = (if mr_liquidity m = Taker then pc_taker_fee_bps config else pc_maker_fee_bps config);
          val = notional_of (mr_price m) (mr_quantity m)
      in wrap64 ((val * rate_bps) sdiv 10000))"

definition schedule_fill :: "Clock \<Rightarrow> PaperExecution \<Rightarrow> PaperOrder \<Rightarrow> MatchResult \<Rightarrow> nanos \<Rightarrow> PaperExecution" where
  "schedule_fill ck v o' m delay =
     (let v1 = pe_count v (if pv_remaining o' = 0 then PmFills else PmPartialFills);
          (tid, v2) = next_trade_id v1;
          (sq, v3) = next_seq v2
      in schedule ck v3 delay
           (EvFill \<lparr>fill_client_order_id = pv_client_order_id o', fill_exchange_order_id = pv_exchange_order_id o',
              fill_trade_id = tid, fill_symbol = pv_symbol o', fill_symbol_id = pv_symbol_id o', fill_side = pv_side o',
              fill_price = mr_price m, fill_quantity = mr_quantity m, fill_cumulative_qty = pv_cumulative_qty o',
              fill_leaves_qty = pv_remaining o', fill_fee = fill_fee (pe_config v) m, fill_fee_asset = [],
              fill_liquidity = mr_liquidity m, fill_order_status = pv_status o', fill_transact_ns = ck_wall ck,
              fill_seq = sq\<rparr>))"

section \<open>What the venue does with a request\<close>

definition reject_order :: "Clock \<Rightarrow> PaperExecution \<Rightarrow> OrderRequest \<Rightarrow> RejectReason \<Rightarrow> nanos \<Rightarrow> PaperExecution" where
  "reject_order ck v req reason delay =
     (let (sq, v1) = next_seq (pe_count v PmNewRejects)
      in schedule ck v1 delay
           (EvOrderReject \<lparr>rej_client_order_id = or_client_order_id req, rej_exchange_order_id = [],
              rej_symbol = or_symbol req, rej_symbol_id = or_symbol_id req,
              rej_error = make_error ExchangeRejectionErr OutRejected reason 0 False,
              rej_transact_ns = ck_wall ck, rej_seq = sq\<rparr>))"

definition expire_order :: "Clock \<Rightarrow> PaperExecution \<Rightarrow> OrderRequest \<Rightarrow> string \<Rightarrow> nanos \<Rightarrow> PaperExecution" where
  "expire_order ck v req eid delay =
     (let (sq, v1) = next_seq (pe_count v PmExpiries)
      in schedule ck v1 delay
           (EvOrderCancel \<lparr>cxl_client_order_id = or_client_order_id req, cxl_exchange_order_id = eid,
              cxl_symbol = or_symbol req, cxl_symbol_id = kInvalidSymbolId, cxl_cancel_status = CsAccepted,
              cxl_order_status = StExpired, cxl_cumulative_qty = 0, cxl_leaves_qty = 0, cxl_error = unset_error,
              cxl_transact_ns = ck_wall ck, cxl_seq = sq\<rparr>))"

definition order_from :: "OrderRequest \<Rightarrow> string \<Rightarrow> nat \<Rightarrow> nanos \<Rightarrow> PaperOrder" where
  "order_from req eid arrival now =
     \<lparr>pv_exchange_order_id = eid, pv_client_order_id = or_client_order_id req, pv_symbol = or_symbol req,
      pv_symbol_id = or_symbol_id req, pv_side = or_side req, pv_type = or_type req, pv_tif = or_tif req,
      pv_post_only = is_post_only req, pv_price = or_price req, pv_original_qty = or_quantity req,
      pv_cumulative_qty = 0, pv_status = StNew, pv_arrival_sequence = arrival, pv_accepted_ns = now,
      pv_last_event_ns = now, pv_cancel_pending = False\<rparr>"

definition ack_event :: "Clock \<Rightarrow> PaperOrder \<Rightarrow> seq \<Rightarrow> ExecutionEvent" where
  "ack_event ck o' sq =
     EvOrderAck \<lparr>ack_client_order_id = pv_client_order_id o', ack_exchange_order_id = pv_exchange_order_id o',
       ack_symbol = pv_symbol o', ack_symbol_id = pv_symbol_id o', ack_side = pv_side o', ack_type = pv_type o',
       ack_tif = pv_tif o', ack_price = pv_price o', ack_original_qty = pv_original_qty o', ack_cumulative_qty = 0,
       ack_status = StNew, ack_exec_type = XtNew, ack_transact_ns = ck_wall ck, ack_seq = sq\<rparr>"

text \<open>The order enters the venue's table and is acknowledged.\<close>

definition rest_order :: "Clock \<Rightarrow> PaperExecution \<Rightarrow> PaperOrder \<Rightarrow> nanos \<Rightarrow> PaperExecution" where
  "rest_order ck v o' delay =
     (let index = length (pe_orders v);
          v1 = pe_count (v\<lparr>pe_orders := pe_orders v @ [o'],
                 pe_by_client_id := (pe_by_client_id v)(pv_client_order_id o' \<mapsto> index),
                 pe_by_exchange_id := (pe_by_exchange_id v)(pv_exchange_order_id o' \<mapsto> index)\<rparr>) PmNewAcks;
          (sq, v2) = next_seq v1
      in schedule ck v2 delay (ack_event ck o' sq))"

text \<open>Immediate execution of an order that is marketable on arrival.\<close>

definition take_on_arrival :: "Clock \<Rightarrow> PaperExecution \<Rightarrow> nat \<Rightarrow> OrderBook \<Rightarrow> nanos \<Rightarrow> PaperExecution" where
  "take_on_arrival ck v index b delay =
     (let m = match_against_book (pe_orders v ! index) b (pc_fill_model (pe_config v)) (pc_queue_share_bps (pe_config v))
      in if mr_quantity m > 0
         then (let taker = m\<lparr>mr_liquidity := Taker\<rparr>;
                   o' = apply_match (pe_orders v ! index) taker (ck_steady ck)
               in schedule_fill ck (write_order v index o') o' taker (delay + la_fill_ns (pc_latency (pe_config v))))
         else v)"

definition accept_order :: "Clock \<Rightarrow> (nat \<Rightarrow> OrderBook) \<Rightarrow> PaperExecution \<Rightarrow> OrderRequest \<Rightarrow> nanos \<Rightarrow> PaperExecution" where
  "accept_order ck store v req delay =
     (let (eid, v1) = next_exchange_id v;
          o' = order_from req eid (pe_next_arrival_seq v1) (ck_steady ck);
          v2 = v1\<lparr>pe_next_arrival_seq := inc64 (pe_next_arrival_seq v1)\<rparr>;
          found = map_option store (pe_books v2 (or_symbol req));
          marketable = (case found of None \<Rightarrow> False | Some b \<Rightarrow> is_marketable_on_arrival o' b)
      in if marketable \<and> pv_post_only o'
         then (let v3 = pe_count v2 PmPostOnlyRejections
               in if pc_post_only_policy (pe_config v3) = PopReject then reject_order ck v3 req PostOnlyWouldCross delay
                  else expire_order ck v3 req eid delay)
         else (let v3 = rest_order ck v2 o' delay
               in (case found of
                     Some b \<Rightarrow> if marketable then take_on_arrival ck v3 (length (pe_orders v2)) b delay else v3
                   | None \<Rightarrow> v3)))"

definition process_submit :: "Clock \<Rightarrow> (nat \<Rightarrow> OrderBook) \<Rightarrow> PaperExecution \<Rightarrow> OrderRequest \<Rightarrow> nanos \<Rightarrow> PaperExecution" where
  "process_submit ck store v req delay =
     (let (err, v1) = consume fa_error_next_request fa_error_next_request_update v
      in if err
         then schedule ck (pe_count v1 PmExecutionErrors) delay
                (EvRequestFailure \<lparr>rf_kind = RkSubmit, rf_client_order_id = or_client_order_id req,
                   rf_exchange_order_id = [], rf_symbol = or_symbol req, rf_symbol_id = 0,
                   rf_error = make_error TransportErr OutUnknown NoReason 0 False\<rparr>)
         else let (refused, v2) = consume fa_reject_next_new fa_reject_next_new_update v1
              in if refused then reject_order ck v2 req InternalError delay
                 else if order_by_client v2 (or_client_order_id req) \<noteq> None
                 then reject_order ck v2 req DuplicateClientOrderId delay
                 else accept_order ck store v2 req delay)"

definition cancel_event :: "Clock \<Rightarrow> CancelRequest \<Rightarrow> seq \<Rightarrow> OrderCancelEvent" where
  "cancel_event ck req sq =
     \<lparr>cxl_client_order_id = cr_client_order_id req, cxl_exchange_order_id = cr_exchange_order_id req,
      cxl_symbol = cr_symbol req, cxl_symbol_id = cr_symbol_id req, cxl_cancel_status = CsUnknown,
      cxl_order_status = StUnknown, cxl_cumulative_qty = 0, cxl_leaves_qty = 0, cxl_error = unset_error,
      cxl_transact_ns = ck_wall ck, cxl_seq = sq\<rparr>"

definition venue_cancel_target :: "PaperExecution \<Rightarrow> CancelRequest \<Rightarrow> nat option" where
  "venue_cancel_target v req =
     (case pe_by_client_id v (cr_client_order_id req) of
        Some i \<Rightarrow> Some i
      | None \<Rightarrow> if cr_exchange_order_id req \<noteq> [] then pe_by_exchange_id v (cr_exchange_order_id req) else None)"

definition process_cancel :: "Clock \<Rightarrow> PaperExecution \<Rightarrow> CancelRequest \<Rightarrow> nanos \<Rightarrow> PaperExecution" where
  "process_cancel ck v req delay =
     (let (sq, v1) = next_seq v; e = cancel_event ck req sq
      in (case venue_cancel_target v1 req of
            None \<Rightarrow> schedule ck (pe_count v1 PmCancelRejects) delay
              (EvOrderCancel (e\<lparr>cxl_cancel_status := CsOrderNotFound, cxl_order_status := StUnknown,
                 cxl_error := make_error UnknownOrderStateErr OutUnknown UnknownOrder 0 False\<rparr>))
          | Some i \<Rightarrow>
              let o' = pe_orders v1 ! i;
                  (refused, v2) = consume fa_reject_next_cancel fa_reject_next_cancel_update v1
              in if refused
                 then schedule ck (pe_count v2 PmCancelRejects) delay
                   (EvOrderCancel (e\<lparr>cxl_cancel_status := CsRejected, cxl_order_status := pv_status o',
                      cxl_cumulative_qty := pv_cumulative_qty o', cxl_leaves_qty := pv_remaining o',
                      cxl_error := make_error ExchangeRejectionErr OutRejected NoReason 0 False\<rparr>))
                 else if pv_is_terminal o'
                 then schedule ck (pe_count v2 PmCancelRejects) delay
                   (EvOrderCancel (e\<lparr>cxl_cancel_status := (if pv_status o' = StFilled then CsTooLate else CsOrderNotFound),
                      cxl_order_status := pv_status o', cxl_cumulative_qty := pv_cumulative_qty o', cxl_leaves_qty := 0\<rparr>))
                 else schedule ck (write_order v2 i (o'\<lparr>pv_cancel_pending := True\<rparr>)) delay
                   (EvOrderCancel (e\<lparr>cxl_cancel_status := CsAccepted, cxl_order_status := StCanceled,
                      cxl_exchange_order_id := pv_exchange_order_id o', cxl_client_order_id := pv_client_order_id o',
                      cxl_cumulative_qty := pv_cumulative_qty o', cxl_leaves_qty := pv_remaining o'\<rparr>))))"

definition replace_event :: "Clock \<Rightarrow> ReplaceRequest \<Rightarrow> seq \<Rightarrow> OrderReplaceEvent" where
  "replace_event ck req sq =
     \<lparr>rpl_original_client_order_id = rr_original_client_order_id req,
      rpl_new_client_order_id = rr_new_client_order_id req, rpl_original_exchange_order_id = [],
      rpl_new_exchange_order_id = [], rpl_symbol = rr_symbol req, rpl_symbol_id = rr_symbol_id req,
      rpl_accepted = False, rpl_new_status = StUnknown, rpl_new_price = 0, rpl_new_qty = 0, rpl_cumulative_qty = 0,
      rpl_error = unset_error, rpl_transact_ns = ck_wall ck, rpl_seq = sq\<rparr>"

text \<open>The atomic swap: new identity and parameters, filled quantity carried over.\<close>

definition amended :: "PaperOrder \<Rightarrow> ReplaceRequest \<Rightarrow> string \<Rightarrow> nat \<Rightarrow> nanos \<Rightarrow> PaperOrder" where
  "amended o' req eid arrival now =
     o'\<lparr>pv_exchange_order_id := eid, pv_client_order_id := rr_new_client_order_id req, pv_price := rr_new_price req,
        pv_original_qty := rr_new_quantity req,
        pv_status := (if pv_cumulative_qty o' > 0 then StPartiallyFilled else StNew),
        pv_arrival_sequence := (if pv_price o' \<noteq> rr_new_price req then arrival else pv_arrival_sequence o'),
        pv_last_event_ns := now\<rparr>"

definition swap_identity :: "Clock \<Rightarrow> PaperExecution \<Rightarrow> nat \<Rightarrow> ReplaceRequest \<Rightarrow> PaperExecution \<times> PaperOrder" where
  "swap_identity ck v i req =
     (let o' = pe_orders v ! i;
          (eid, v1) = next_exchange_id v;
          o1 = amended o' req eid (pe_next_arrival_seq v1) (ck_steady ck);
          v2 = (if pv_price o' \<noteq> rr_new_price req then v1\<lparr>pe_next_arrival_seq := inc64 (pe_next_arrival_seq v1)\<rparr> else v1)
      in ((write_order v2 i o1)
            \<lparr>pe_by_client_id := (pe_by_client_id v2)(pv_client_order_id o' := None, pv_client_order_id o1 \<mapsto> i),
             pe_by_exchange_id := (pe_by_exchange_id v2)(pv_exchange_order_id o' := None, pv_exchange_order_id o1 \<mapsto> i)\<rparr>, o1))"

definition process_replace :: "Clock \<Rightarrow> PaperExecution \<Rightarrow> ReplaceRequest \<Rightarrow> nanos \<Rightarrow> PaperExecution" where
  "process_replace ck v req delay =
     (let (sq, v1) = next_seq v; e = replace_event ck req sq;
          unknown = schedule ck (pe_count v1 PmReplaceRejects) delay
            (EvOrderReplace (e\<lparr>rpl_error := make_error UnknownOrderStateErr OutUnknown UnknownOrder 0 False\<rparr>))
      in (case pe_by_client_id v1 (rr_original_client_order_id req) of
            None \<Rightarrow> unknown
          | Some i \<Rightarrow>
              let o' = pe_orders v1 ! i
              in if \<not> pv_is_resting o' then unknown
                 else let (refused, v2) = consume fa_reject_next_replace fa_reject_next_replace_update v1
                 in if refused
                    then schedule ck (pe_count v2 PmReplaceRejects) delay
                      (EvOrderReplace (e\<lparr>rpl_original_exchange_order_id := pv_exchange_order_id o',
                         rpl_new_price := pv_price o', rpl_new_qty := pv_original_qty o',
                         rpl_cumulative_qty := pv_cumulative_qty o',
                         rpl_error := make_error ExchangeRejectionErr OutRejected NoReason 0 False\<rparr>))
                    else if rr_new_quantity req < pv_cumulative_qty o'
                    then schedule ck (pe_count v2 PmReplaceRejects) delay
                      (EvOrderReplace (e\<lparr>rpl_original_exchange_order_id := pv_exchange_order_id o',
                         rpl_error := make_error InvalidRequestErr OutRejected QuantityOutOfBounds 0 False\<rparr>))
                    else let (v3, o1) = swap_identity ck v2 i req
                    in schedule ck (pe_count v3 PmReplaceAcks) delay
                      (EvOrderReplace (e\<lparr>rpl_accepted := True, rpl_original_exchange_order_id := pv_exchange_order_id o',
                         rpl_new_exchange_order_id := pv_exchange_order_id o1, rpl_new_status := pv_status o1,
                         rpl_new_price := pv_price o1, rpl_new_qty := pv_original_qty o1,
                         rpl_cumulative_qty := pv_cumulative_qty o1\<rparr>))))"

definition process_request :: "Clock \<Rightarrow> (nat \<Rightarrow> OrderBook) \<Rightarrow> PaperExecution \<Rightarrow> PendingRequest \<Rightarrow> PaperExecution" where
  "process_request ck store v r =
     (let v1 = v\<lparr>pe_processing_arrival_ns := pr_due_ns r\<rparr>;
          v2 = (case pr_request r of
                  VrSubmit req \<Rightarrow> process_submit ck store v1 req (pr_decision_delay_ns r)
                | VrCancel req \<Rightarrow> process_cancel ck v1 req (pr_decision_delay_ns r)
                | VrReplace req \<Rightarrow> process_replace ck v1 req (pr_decision_delay_ns r))
      in v2\<lparr>pe_processing_arrival_ns := 0\<rparr>)"

section \<open>The pump\<close>

definition swap_last_two :: "'a list \<Rightarrow> 'a list" where
  "swap_last_two xs = (let n = length xs in xs[n - 2 := xs ! (n - 1), n - 1 := xs ! (n - 2)])"

text \<open>The reordering loop: at most as many rounds as the fault counter holds.\<close>

fun reorder_due :: "nat \<Rightarrow> PaperExecution \<Rightarrow> Scheduled list \<Rightarrow> PaperExecution \<times> Scheduled list" where
  "reorder_due 0 v due = (v, due)"
| "reorder_due (Suc k) v due =
     (if length due \<ge> 2
      then (let (_, v1) = consume fa_reorder_next_event fa_reorder_next_event_update v
            in reorder_due k (pe_count v1 PmReordersInjected) (swap_last_two due))
      else (v, due))"

definition deliver_one :: "Clock \<Rightarrow> PaperExecution \<Rightarrow> Scheduled \<Rightarrow> PaperExecution" where
  "deliver_one ck v s =
     (case sc_event s of
        EvOrderCancel e \<Rightarrow>
          if cxl_cancel_status e = CsAccepted \<and> cxl_order_status e = StCanceled
          then (let (v1, e1) = resolve_pending_cancel ck v e in emit v1 (EvOrderCancel e1))
          else emit v (sc_event s)
      | _ \<Rightarrow> emit v (sc_event s))"

definition poll :: "Clock \<Rightarrow> (nat \<Rightarrow> OrderBook) \<Rightarrow> PaperExecution \<Rightarrow> PaperExecution \<times> nat" where
  "poll ck store v =
     (if \<not> pe_sink v then (v, 0)
      else let now = ck_steady ck;
               arrived = sort_key (\<lambda>r. (pr_due_ns r, pr_ordinal r)) (filter (\<lambda>r. pr_due_ns r \<le> now) (pe_in_flight v));
               v1 = foldl (process_request ck store)
                      (v\<lparr>pe_in_flight := filter (\<lambda>r. \<not> pr_due_ns r \<le> now) (pe_in_flight v)\<rparr>) arrived;
               due = sort_key (\<lambda>s. (sc_due_ns s, sc_ordinal s)) (filter (\<lambda>s. sc_due_ns s \<le> now) (pe_pending v1));
               v2 = v1\<lparr>pe_pending := filter (\<lambda>s. \<not> sc_due_ns s \<le> now) (pe_pending v1)\<rparr>;
               (v3, due') = reorder_due (fa_reorder_next_event (pe_faults v2)) v2 due
           in (foldl (deliver_one ck) v3 due', length due'))"

section \<open>Market data\<close>

definition attach_book :: "PaperExecution \<Rightarrow> string \<Rightarrow> nat \<Rightarrow> PaperExecution" where
  "attach_book v symbol address = v\<lparr>pe_books := (pe_books v)(symbol \<mapsto> address)\<rparr>"

definition priority :: "PaperOrder \<Rightarrow> nat \<times> int \<times> nat" where
  "priority o' = (if pv_side o' = Buy then 0 else 1,
     if pv_side o' = Buy then - pv_price o' else pv_price o', pv_arrival_sequence o')"

text \<open>One order of the matching loop; the two ladders are the working copies of this update.\<close>

fun match_one :: "Clock \<Rightarrow> nanos \<Rightarrow> PaperExecution \<times> PriceLevel list \<times> PriceLevel list \<Rightarrow> nat
    \<Rightarrow> PaperExecution \<times> PriceLevel list \<times> PriceLevel list" where
  "match_one ck now (v, asks, bids) i =
     (let o' = pe_orders v ! i
      in if \<not> pv_is_resting o' then (v, asks, bids)
         else let (m, available) = match_and_consume o' (if pv_side o' = Buy then asks else bids)
                    (pc_fill_model (pe_config v)) (pc_queue_share_bps (pe_config v));
                  asks' = (if pv_side o' = Buy then available else asks);
                  bids' = (if pv_side o' = Buy then bids else available)
              in if \<not> mr_quantity m > 0 then (v, asks', bids')
                 else let o1 = apply_match o' m now
                      in (schedule_fill ck (write_order v i o1) o1 m (la_fill_ns (pc_latency (pe_config v))), asks', bids'))"

definition match_order :: "PaperExecution \<Rightarrow> string \<Rightarrow> nat list" where
  "match_order v symbol =
     sort_key (\<lambda>i. priority (pe_orders v ! i))
       (filter (\<lambda>i. pv_symbol (pe_orders v ! i) = symbol \<and> pv_is_resting (pe_orders v ! i)) [0..<length (pe_orders v)])"

definition match_symbol :: "Clock \<Rightarrow> (nat \<Rightarrow> OrderBook) \<Rightarrow> PaperExecution \<Rightarrow> string \<Rightarrow> nanos \<Rightarrow> PaperExecution" where
  "match_symbol ck store v symbol now =
     (case pe_books v symbol of
        None \<Rightarrow> v
      | Some address \<Rightarrow>
          let b = store address
          in if \<not> ob_is_valid b then v
             else let age = now - (case pe_book_updated_ns v symbol of None \<Rightarrow> 0 | Some t \<Rightarrow> t)
             in if age > pc_max_book_age_ns (pe_config v) then pe_count v PmStaleBookSkips
                else fst (foldl (match_one ck now) (v, executable_side b Buy, executable_side b Sell)
                       (match_order v symbol)))"

definition on_market_update :: "Clock \<Rightarrow> (nat \<Rightarrow> OrderBook) \<Rightarrow> PaperExecution \<Rightarrow> string \<Rightarrow> nanos \<Rightarrow> PaperExecution" where
  "on_market_update ck store v symbol update_ns =
     match_symbol ck store (v\<lparr>pe_book_updated_ns := (pe_book_updated_ns v)(symbol \<mapsto> update_ns)\<rparr>) symbol (ck_steady ck)"

section \<open>Queries\<close>

definition status_row :: "PaperOrder \<Rightarrow> OrderStatusReport" where
  "status_row o' =
     \<lparr>osr_client_order_id = pv_client_order_id o', osr_exchange_order_id = pv_exchange_order_id o',
      osr_symbol = pv_symbol o', osr_symbol_id = pv_symbol_id o', osr_side = pv_side o', osr_type = pv_type o',
      osr_tif = pv_tif o', osr_price = pv_price o', osr_original_qty = pv_original_qty o',
      osr_cumulative_qty = pv_cumulative_qty o', osr_status = pv_status o'\<rparr>"

text \<open>The rows of a listing: the resting orders of the symbol, less the first few when the fault hides them.\<close>

fun open_rows :: "string \<Rightarrow> nat \<Rightarrow> PaperOrder list \<Rightarrow> OrderStatusReport list" where
  "open_rows symbol hidden [] = []"
| "open_rows symbol hidden (o' # os) =
     (if \<not> pv_is_resting o' then open_rows symbol hidden os
      else if symbol \<noteq> [] \<and> pv_symbol o' \<noteq> symbol then open_rows symbol hidden os
      else if hidden > 0 then open_rows symbol (hidden - 1) os
      else status_row o' # open_rows symbol hidden os)"

definition snapshot_chunk :: "string \<Rightarrow> OrderStatusReport list \<Rightarrow> nat \<Rightarrow> nat \<Rightarrow> ExecutionEvent" where
  "snapshot_chunk symbol rows chunks c =
     (let page = take kMaxOrdersPerSnapshotEvent (drop (c * kMaxOrdersPerSnapshotEvent) rows)
      in EvOpenOrdersSnapshot \<lparr>oos_orders = page, oos_count = length page, oos_is_first = (c = 0),
           oos_is_last = (c + 1 = chunks), oos_symbol_filter = symbol\<rparr>)"

definition chunk_count :: "'a list \<Rightarrow> nat" where
  "chunk_count rows = (if rows = [] then 1
     else (length rows + kMaxOrdersPerSnapshotEvent - 1) div kMaxOrdersPerSnapshotEvent)"

definition query_open_orders :: "Clock \<Rightarrow> PaperExecution \<Rightarrow> string \<Rightarrow> PaperExecution \<times> ErrorCode" where
  "query_open_orders ck v symbol =
     (if is_err (require_connected v) then (v, require_connected v)
      else let v1 = pe_count v PmSnapshots;
               hidden = fa_hide_next_snapshot_orders (pe_faults v1);
               v2 = inject v1 ((pe_faults v1)\<lparr>fa_hide_next_snapshot_orders := 0\<rparr>);
               rows = open_rows symbol hidden (pe_orders v2);
               chunks = chunk_count rows
           in (foldl (\<lambda>w c. schedule ck w (la_query_ns (pc_latency (pe_config w))) (snapshot_chunk symbol rows chunks c))
                 v2 [0..<chunks], Ok))"

definition query_order :: "Clock \<Rightarrow> PaperExecution \<Rightarrow> string \<Rightarrow> string \<Rightarrow> PaperExecution \<times> ErrorCode" where
  "query_order ck v cid eid =
     (if is_err (require_connected v) then (v, require_connected v)
      else let found = (case order_by_client v cid of
                          Some o' \<Rightarrow> Some o'
                        | None \<Rightarrow> if eid \<noteq> [] then order_by_exchange v eid else None);
               delay = la_query_ns (pc_latency (pe_config v))
           in (case found of
                 None \<Rightarrow> (schedule ck v delay
                   (EvRequestFailure \<lparr>rf_kind = RkQueryOrder, rf_client_order_id = cid, rf_exchange_order_id = eid,
                      rf_symbol = [], rf_symbol_id = 0,
                      rf_error = make_error UnknownOrderStateErr OutUnknown UnknownOrder 0 False\<rparr>), Ok)
               | Some o' \<Rightarrow> (schedule ck v delay (EvOrderStatus (status_row o')), Ok)))"

definition query_balances :: ErrorCode where
  "query_balances = FailedPrecondition"

definition query_positions :: ErrorCode where
  "query_positions = FailedPrecondition"

text \<open>The entry points as one type, for runs of the venue.\<close>

datatype PaperOp =
    PoStart | PoStop | PoSetConnection ConnectionState ExchangeError | PoSetAuthenticated bool | PoInject PaperFaults
  | PoSubmit OrderRequest | PoCancel CancelRequest | PoReplace ReplaceRequest | PoCancelAll string
  | PoQueryOpenOrders string | PoQueryOrder string string | PoAttachBook string nat
  | PoMarketUpdate string nanos | PoPoll

definition paper_do :: "Clock \<Rightarrow> (nat \<Rightarrow> OrderBook) \<Rightarrow> PaperOp \<Rightarrow> PaperExecution \<Rightarrow> PaperExecution" where
  "paper_do ck store op v =
     (case op of
        PoStart \<Rightarrow> fst (pe_start v)
      | PoStop \<Rightarrow> pe_stop v
      | PoSetConnection st err \<Rightarrow> set_connection v st err
      | PoSetAuthenticated a \<Rightarrow> v\<lparr>pe_authenticated := a\<rparr>
      | PoInject f \<Rightarrow> inject v f
      | PoSubmit req \<Rightarrow> fst (pe_submit ck v req)
      | PoCancel req \<Rightarrow> fst (pe_cancel ck v req)
      | PoReplace req \<Rightarrow> fst (pe_replace ck v req)
      | PoCancelAll symbol \<Rightarrow> fst (cancel_all ck v symbol)
      | PoQueryOpenOrders symbol \<Rightarrow> fst (query_open_orders ck v symbol)
      | PoQueryOrder cid eid \<Rightarrow> fst (query_order ck v cid eid)
      | PoAttachBook symbol address \<Rightarrow> attach_book v symbol address
      | PoMarketUpdate symbol t \<Rightarrow> on_market_update ck store v symbol t
      | PoPoll \<Rightarrow> fst (poll ck store v))"

end
