(* ===== verification/ConfigTypes.thy ===== *)
theory ConfigTypes
  imports Params PaperExecution
begin

text \<open>
  The typed configuration of \<^verbatim>\<open>include/mm/common/Config.hpp\<close>: one record per section with the defaults of the
  struct, and the whole \<^verbatim>\<open>EngineConfig\<close>. Signed integers are \<open>int\<close>, unsigned ones \<open>nat\<close>; the width is enforced where a
  value is read (the conversion functions of the YAML library). The paper section is the record of the theory
  \<open>PaperExecution\<close>.
\<close>

datatype TradingMode = TmPaper | TmLive

record ExchangeConfig =
  xcf_name :: string
  xcf_rest_base_url :: string
  xcf_ws_base_url :: string
  xcf_credentials_env_prefix :: string
  xcf_recv_window_ms :: int
  xcf_rest_timeout_ms :: int
  xcf_book_depth :: int

definition default_exchange_config :: ExchangeConfig where
  "default_exchange_config = \<lparr>xcf_name = [], xcf_rest_base_url = [], xcf_ws_base_url = [], xcf_credentials_env_prefix = [],
     xcf_recv_window_ms = 5000, xcf_rest_timeout_ms = 3000, xcf_book_depth = 50\<rparr>"

record SymbolConfig =
  syc_symbol :: string
  syc_enabled :: bool
  syc_max_position :: qty
  syc_max_notional :: notional
  syc_quote_size :: qty

definition default_symbol_config :: SymbolConfig where
  "default_symbol_config = \<lparr>syc_symbol = [], syc_enabled = True, syc_max_position = 0, syc_max_notional = 0, syc_quote_size = 0\<rparr>"

record StrategyConfig =
  stc_name :: string
  stc_version :: int
  stc_enabled :: bool
  stc_quoting_enabled :: bool
  stc_evaluation_mode :: string
  stc_budget_ns :: int
  stc_max_consecutive_budget_violations :: int
  stc_max_consecutive_invalid_outputs :: int
  stc_timer_interval_ms :: int
  stc_max_quote_distance_bps :: int
  stc_params :: "params"

definition default_strategy_config :: StrategyConfig where
  "default_strategy_config = \<lparr>stc_name = [], stc_version = 0, stc_enabled = True, stc_quoting_enabled = True,
     stc_evaluation_mode = ''on_bbo_change_and_timer'', stc_budget_ns = 50000,
     stc_max_consecutive_budget_violations = 5, stc_max_consecutive_invalid_outputs = 3, stc_timer_interval_ms = 100,
     stc_max_quote_distance_bps = 500, stc_params = []\<rparr>"

record QuoteManagerConfigYaml =
  qmy_max_intent_age_ms :: int
  qmy_max_market_data_age_ms :: int
  qmy_min_price_move_ticks :: int
  qmy_min_quantity_move_fraction :: rat
  qmy_min_replace_interval_ms :: int
  qmy_cooldown_after_cancel_ms :: int
  qmy_assume_request_lost_after_ms :: int
  qmy_replenish_partial_fills :: bool

definition default_quote_yaml :: QuoteManagerConfigYaml where
  "default_quote_yaml = \<lparr>qmy_max_intent_age_ms = 250, qmy_max_market_data_age_ms = 500, qmy_min_price_move_ticks = 1,
     qmy_min_quantity_move_fraction = 0, qmy_min_replace_interval_ms = 0, qmy_cooldown_after_cancel_ms = 0,
     qmy_assume_request_lost_after_ms = 1000, qmy_replenish_partial_fills = True\<rparr>"

record SymbolRiskConfig =
  syr_symbol :: string
  syr_max_position :: qty
  syr_max_position_notional :: notional
  syr_max_order_quantity :: qty
  syr_max_order_notional :: notional
  syr_max_working_exposure :: qty
  syr_max_side_exposure :: qty
  syr_max_open_orders :: int
  syr_price_band_bps :: int

definition default_symbol_risk :: SymbolRiskConfig where
  "default_symbol_risk = \<lparr>syr_symbol = [], syr_max_position = 0, syr_max_position_notional = 0, syr_max_order_quantity = 0,
     syr_max_order_notional = 0, syr_max_working_exposure = 0, syr_max_side_exposure = 0, syr_max_open_orders = 0,
     syr_price_band_bps = 0\<rparr>"

record RiskConfig =
  rcf_enabled :: bool
  rcf_max_market_data_age_ms :: int
  rcf_max_position_age_ms :: int
  rcf_max_new_orders_per_second :: int
  rcf_max_cancels_per_second :: int
  rcf_max_replaces_per_second :: int
  rcf_max_actions_per_second :: int
  rcf_burst_capacity :: int
  rcf_max_position :: qty
  rcf_max_notional :: notional
  rcf_max_portfolio_notional :: notional
  rcf_max_order_qty :: qty
  rcf_max_order_notional :: notional
  rcf_max_active_orders_per_symbol :: int
  rcf_max_active_orders_total :: int
  rcf_max_daily_loss :: notional
  rcf_max_session_loss :: notional
  rcf_emergency_loss :: notional
  rcf_max_quote_distance_bps :: int
  rcf_symbols :: "SymbolRiskConfig list"

definition default_risk_config :: RiskConfig where
  "default_risk_config = \<lparr>rcf_enabled = False, rcf_max_market_data_age_ms = 500, rcf_max_position_age_ms = 5000,
     rcf_max_new_orders_per_second = 0, rcf_max_cancels_per_second = 0, rcf_max_replaces_per_second = 0,
     rcf_max_actions_per_second = 0, rcf_burst_capacity = 0, rcf_max_position = 0, rcf_max_notional = 0,
     rcf_max_portfolio_notional = 0, rcf_max_order_qty = 0, rcf_max_order_notional = 0,
     rcf_max_active_orders_per_symbol = 10, rcf_max_active_orders_total = 100, rcf_max_daily_loss = 0,
     rcf_max_session_loss = 0, rcf_emergency_loss = 0, rcf_max_quote_distance_bps = 500, rcf_symbols = []\<rparr>"

record ExecutionRateConfig =
  erc_max_orders_per_second :: int
  erc_max_cancels_per_second :: int
  erc_max_replaces_per_second :: int
  erc_max_messages_per_second :: int
  erc_ack_timeout_ms :: int
  erc_cancel_timeout_ms :: int

definition default_execution_rate :: ExecutionRateConfig where
  "default_execution_rate = \<lparr>erc_max_orders_per_second = 20, erc_max_cancels_per_second = 20, erc_max_replaces_per_second = 20,
     erc_max_messages_per_second = 50, erc_ack_timeout_ms = 5000, erc_cancel_timeout_ms = 5000\<rparr>"

record SafetyConfig =
  sfc_max_market_data_age_ms :: int
  sfc_max_processing_delay_ms :: int
  sfc_max_clock_skew_ms :: int
  sfc_max_consecutive_rejects :: int
  sfc_reconcile_interval_ms :: int
  sfc_live_trading_enabled :: bool
  sfc_cancel_all_on_shutdown :: bool

definition default_safety :: SafetyConfig where
  "default_safety = \<lparr>sfc_max_market_data_age_ms = 500, sfc_max_processing_delay_ms = 100, sfc_max_clock_skew_ms = 1000,
     sfc_max_consecutive_rejects = 5, sfc_reconcile_interval_ms = 30000, sfc_live_trading_enabled = False,
     sfc_cancel_all_on_shutdown = True\<rparr>"

definition default_paper_yaml :: PaperConfig where
  "default_paper_yaml = \<lparr>py_request_latency_us = 500, py_ack_latency_us = 1500, py_cancel_latency_us = 1500,
     py_replace_latency_us = 2000, py_fill_latency_us = 1000, py_query_latency_us = 5000,
     py_fill_model = ''displayed_liquidity'', py_post_only_policy = ''reject'', py_replace_mode = ''atomic'',
     py_queue_share_bps = 5000, py_max_book_age_ms = 500, py_max_orders = 1024, py_deterministic_seed = 0,
     py_maker_fee_bps = 1, py_taker_fee_bps = 4\<rparr>"

datatype ExecutionMode = EmPaper | EmLive

record MonitoringConfig =
  mnc_http_host :: string
  mnc_http_port :: int
  mnc_snapshot_interval_ms :: int
  mnc_enabled :: bool

definition default_monitoring :: MonitoringConfig where
  "default_monitoring = \<lparr>mnc_http_host = ''127.0.0.1'', mnc_http_port = 8787, mnc_snapshot_interval_ms = 100, mnc_enabled = True\<rparr>"

record PersistenceConfig =
  prc_journal_dir :: string
  prc_state_file :: string
  prc_journal_flush_interval_ms :: int
  prc_fsync_on_flush :: bool

definition default_persistence :: PersistenceConfig where
  "default_persistence = \<lparr>prc_journal_dir = ''var/journal'', prc_state_file = ''var/state/engine_state.json'',
     prc_journal_flush_interval_ms = 200, prc_fsync_on_flush = True\<rparr>"

record LoggingConfig =
  lgc_level :: string
  lgc_dir :: string
  lgc_max_file_bytes :: int
  lgc_max_files :: int
  lgc_console :: bool

definition default_logging :: LoggingConfig where
  "default_logging = \<lparr>lgc_level = ''info'', lgc_dir = ''var/log'', lgc_max_file_bytes = 268435456, lgc_max_files = 10,
     lgc_console = True\<rparr>"

record IoConfig =
  ioc_md_threads :: int
  ioc_exec_threads :: int
  ioc_trading_cpu :: int

definition default_io :: IoConfig where
  "default_io = \<lparr>ioc_md_threads = 1, ioc_exec_threads = 1, ioc_trading_cpu = - 1\<rparr>"

record OmsConfigYaml =
  omy_client_id_prefix :: string
  omy_session_id :: nat
  omy_max_client_id_length :: nat
  omy_new_request_timeout_ms :: nat
  omy_cancel_request_timeout_ms :: nat
  omy_replace_request_timeout_ms :: nat
  omy_reconciliation_interval_ms :: nat
  omy_max_orders :: nat
  omy_journal_capacity :: nat
  omy_journal_enabled :: bool

definition default_oms_yaml :: OmsConfigYaml where
  "default_oms_yaml = \<lparr>omy_client_id_prefix = ''mm'', omy_session_id = 0, omy_max_client_id_length = 36,
     omy_new_request_timeout_ms = 5000, omy_cancel_request_timeout_ms = 5000, omy_replace_request_timeout_ms = 5000,
     omy_reconciliation_interval_ms = 30000, omy_max_orders = 1024, omy_journal_capacity = 65536,
     omy_journal_enabled = True\<rparr>"

record EngineConfig =
  ecf_mode :: TradingMode
  ecf_session_name :: string
  ecf_exchange :: ExchangeConfig
  ecf_symbols :: "SymbolConfig list"
  ecf_strategy :: StrategyConfig
  ecf_quote :: QuoteManagerConfigYaml
  ecf_strategy_params :: "(string \<times> params) list"
  ecf_risk :: RiskConfig
  ecf_oms :: OmsConfigYaml
  ecf_execution_env :: ExecutionMode
  ecf_execution :: ExecutionRateConfig
  ecf_safety :: SafetyConfig
  ecf_paper :: PaperConfig
  ecf_monitoring :: MonitoringConfig
  ecf_persistence :: PersistenceConfig
  ecf_logging :: LoggingConfig
  ecf_io :: IoConfig

definition default_engine_config :: EngineConfig where
  "default_engine_config = \<lparr>ecf_mode = TmPaper, ecf_session_name = ''default'', ecf_exchange = default_exchange_config,
     ecf_symbols = [], ecf_strategy = default_strategy_config, ecf_quote = default_quote_yaml, ecf_strategy_params = [],
     ecf_risk = default_risk_config, ecf_oms = default_oms_yaml, ecf_execution_env = EmPaper,
     ecf_execution = default_execution_rate, ecf_safety = default_safety, ecf_paper = default_paper_yaml,
     ecf_monitoring = default_monitoring, ecf_persistence = default_persistence, ecf_logging = default_logging,
     ecf_io = default_io\<rparr>"

end
