(* ===== verification/ClientOrderId.thy ===== *)
theory ClientOrderId
  imports Types
begin

text \<open>
  Client order identifiers, \<^verbatim>\<open>ClientOrderIdGenerator.hpp\<close> and \<^verbatim>\<open>ClientOrderIdGenerator.cpp\<close>: prefix, session and
  sequence joined by dashes, the numbers in base 36. A function that fills a caller's variable and reports success
  returns an \<open>option\<close>. The digit arithmetic runs on \<open>int\<close>; values are those of \<^verbatim>\<open>std::uint64_t\<close>.
\<close>

section \<open>Definitions\<close>

definition kDigits :: string where
  "kDigits = ''0123456789abcdefghijklmnopqrstuvwxyz''"

text \<open>The encoding loop, least significant digit first, into a buffer with the given room.\<close>

fun emit_digits :: "nat \<Rightarrow> int \<Rightarrow> string" where
  "emit_digits 0 v = []"
| "emit_digits (Suc room) v = (if v > 0 then kDigits ! nat (v mod 36) # emit_digits room (v div 36) else [])"

definition encode_base36 :: "nat \<Rightarrow> string" where
  "encode_base36 v = (if v = 0 then ''0'' else rev (emit_digits 16 (int v)))"

definition base36_digit :: "char \<Rightarrow> int option" where
  "base36_digit c =
     (let k = of_char c :: int
      in if 48 \<le> k \<and> k \<le> 57 then Some (k - 48)
         else if 97 \<le> k \<and> k \<le> 122 then Some (k - 97 + 10) else None)"

fun decode_digits :: "int \<Rightarrow> string \<Rightarrow> int option" where
  "decode_digits v [] = Some v"
| "decode_digits v (c # cs) =
     (case base36_digit c of None \<Rightarrow> None
      | Some d \<Rightarrow> decode_digits ((v * 36 + d) mod 18446744073709551616) cs)"

definition decode_base36 :: "string \<Rightarrow> nat option" where
  "decode_base36 text = (if text = [] \<or> length text > 13 then None else map_option nat (decode_digits 0 text))"

record IdGenerator =
  ig_prefix :: string
  ig_session_id :: nat
  ig_sequence :: nat
  ig_max_length :: nat
  ig_generated :: nat
  ig_failures :: nat

definition new_generator :: "string \<Rightarrow> nat \<Rightarrow> nat \<Rightarrow> IdGenerator" where
  "new_generator prefix session_id max_length = \<lparr>ig_prefix = fst (inline_assign 16 prefix),
     ig_session_id = session_id, ig_sequence = 0, ig_max_length = max_length, ig_generated = 0, ig_failures = 0\<rparr>"

definition kClientIdCapacity :: nat where
  "kClientIdCapacity = 40"

definition id_text :: "string \<Rightarrow> nat \<Rightarrow> nat \<Rightarrow> string" where
  "id_text prefix session seqno = prefix @ ''-'' @ encode_base36 session @ ''-'' @ encode_base36 seqno"

definition next_id :: "IdGenerator \<Rightarrow> IdGenerator \<times> string option" where
  "next_id g =
     (let s = encode_base36 (ig_session_id g);
          n = inc64 (ig_sequence g);
          q = encode_base36 n;
          g1 = g\<lparr>ig_sequence := n\<rparr>;
          size = length (ig_prefix g) + 1 + length s + 1 + length q
      in if size > ig_max_length g \<or> size > kClientIdCapacity
         then (g1\<lparr>ig_failures := inc64 (ig_failures g1)\<rparr>, None)
         else
           let (t0, ok0) = inline_assign kClientIdCapacity (ig_prefix g);
               (t1, ok1) = inline_append kClientIdCapacity t0 ''-'';
               (t2, ok2) = inline_append kClientIdCapacity t1 s;
               (t3, ok3) = inline_append kClientIdCapacity t2 ''-'';
               (t4, ok4) = inline_append kClientIdCapacity t3 q
           in if \<not> ok0 \<or> \<not> ok1 \<or> \<not> ok2 \<or> \<not> ok3 \<or> \<not> ok4
              then (g1\<lparr>ig_failures := inc64 (ig_failures g1)\<rparr>, None)
              else (g1\<lparr>ig_generated := inc64 (ig_generated g1)\<rparr>, Some t4))"

definition generator_restore :: "IdGenerator \<Rightarrow> nat \<Rightarrow> IdGenerator" where
  "generator_restore g next_sequence = g\<lparr>ig_sequence := next_sequence\<rparr>"

definition parse_id :: "string \<Rightarrow> string \<Rightarrow> (nat \<times> nat) option" where
  "parse_id text expected_prefix =
     (if length text \<le> length expected_prefix + 2 then None
      else if take (length expected_prefix) text \<noteq> expected_prefix then None
      else if text ! length expected_prefix \<noteq> CHR ''-'' then None
      else
        let rest = drop (length expected_prefix + 1) text
        in case find_index (\<lambda>c. c = CHR ''-'') rest of
             None \<Rightarrow> None
           | Some separator \<Rightarrow>
               (case decode_base36 (take separator rest) of
                  None \<Rightarrow> None
                | Some session \<Rightarrow> map_option (\<lambda>n. (session, n)) (decode_base36 (drop (separator + 1) rest))))"

section \<open>The encoding and its inverse\<close>

lemma digit_roundtrip:
  assumes "0 \<le> d" "d < 36"
  shows "base36_digit (kDigits ! nat d) = Some d" and "kDigits ! nat d \<noteq> CHR ''-''"
proof -
  have "list_all (\<lambda>i. base36_digit (kDigits ! i) = Some (int i) \<and> kDigits ! i \<noteq> CHR ''-'') [0..<36]"
    by code_simp
  moreover have "nat d \<in> set [0..<36]" using assms by simp
  ultimately have "base36_digit (kDigits ! nat d) = Some (int (nat d)) \<and> kDigits ! nat d \<noteq> CHR ''-''"
    unfolding list_all_iff by blast
  then show "base36_digit (kDigits ! nat d) = Some d" "kDigits ! nat d \<noteq> CHR ''-''" using assms by auto
qed

lemma decode_digits_append:
  "decode_digits v (xs @ ys) = (case decode_digits v xs of None \<Rightarrow> None | Some w \<Rightarrow> decode_digits w ys)"
  by (induction xs arbitrary: v) (auto split: option.splits)

lemma div36_less: "v < 36 * b \<Longrightarrow> v div 36 < b" for v b :: int
  by linarith

lemma decode_emit:
  assumes "0 \<le> v" "v < 36 ^ room" "v < 18446744073709551616"
  shows "decode_digits 0 (rev (emit_digits room v)) = Some v"
  using assms
proof (induction room arbitrary: v)
  case 0
  then show ?case by simp
next
  case (Suc room)
  show ?case
  proof (cases "v > 0")
    case True
    have "v div 36 < 36 ^ room" using Suc.prems(2) by (intro div36_less) simp
    moreover have "0 \<le> v div 36" "v div 36 < 18446744073709551616" using Suc.prems True by linarith+
    ultimately have "decode_digits 0 (rev (emit_digits room (v div 36))) = Some (v div 36)" by (intro Suc.IH)
    moreover have "base36_digit (kDigits ! nat (v mod 36)) = Some (v mod 36)" by (rule digit_roundtrip(1)) simp_all
    ultimately show ?thesis using True Suc.prems(3) by (simp add: decode_digits_append)
  qed (use Suc.prems in simp)
qed

lemma emit_length:
  "0 \<le> v \<Longrightarrow> v < 36 ^ k \<Longrightarrow> length (emit_digits room v) \<le> k"
proof (induction room arbitrary: v k)
  case (Suc room)
  show ?case
  proof (cases "v > 0")
    case True
    with Suc.prems obtain j where k: "k = Suc j" by (cases k) auto
    then have "v div 36 < 36 ^ j" using Suc.prems(2) by (intro div36_less) simp
    with Suc.IH [of "v div 36" j] True k show ?thesis by simp
  qed simp
qed simp

lemma emit_nonempty: "0 < v \<Longrightarrow> emit_digits (Suc room) v \<noteq> []"
  by simp

lemma emit_no_dash: "0 \<le> v \<Longrightarrow> CHR ''-'' \<notin> set (emit_digits room v)"
proof (induction room arbitrary: v)
  case (Suc room)
  then show ?case using digit_roundtrip(2) [of "v mod 36"] by (auto simp: pos_imp_zdiv_nonneg_iff)
qed simp

lemma uint64_below: "v < 18446744073709551616 \<Longrightarrow> int v < 36 ^ 13 \<and> int v < 36 ^ 16"
  by simp

lemma encode_simps:
  assumes "v < 18446744073709551616"
  shows "decode_base36 (encode_base36 v) = Some v" "CHR ''-'' \<notin> set (encode_base36 v)"
    "encode_base36 v \<noteq> []" "length (encode_base36 v) \<le> 13"
proof -
  note b = uint64_below [OF assms]
  have z: "decode_base36 ''0'' = Some 0" by code_simp
  have n: "emit_digits 16 (int v) \<noteq> []" if "v \<noteq> 0" using that by (simp add: numeral_eq_Suc)
  have l: "length (emit_digits 16 (int v)) \<le> 13" using b by (intro emit_length) simp_all
  have d: "decode_digits 0 (rev (emit_digits 16 (int v))) = Some (int v)" using b assms by (intro decode_emit) simp_all
  show "decode_base36 (encode_base36 v) = Some v"
    using z n l d by (auto simp: encode_base36_def decode_base36_def)
  show "CHR ''-'' \<notin> set (encode_base36 v)" using emit_no_dash [of "int v" 16] by (simp add: encode_base36_def)
  show "encode_base36 v \<noteq> []" using n by (simp add: encode_base36_def)
  show "length (encode_base36 v) \<le> 13" using l by (simp add: encode_base36_def)
qed

lemma find_index_dash:
  "CHR ''-'' \<notin> set xs \<Longrightarrow> find_index (\<lambda>c. c = CHR ''-'') (xs @ CHR ''-'' # ys) = Some (length xs)"
  by (induction xs) auto

lemma parse_id_text:
  assumes "session < 18446744073709551616" "seqno < 18446744073709551616"
  shows "parse_id (id_text prefix session seqno) prefix = Some (session, seqno)"
proof -
  let ?s = "encode_base36 session" and ?q = "encode_base36 seqno"
  note s = encode_simps [OF assms(1)] and q = encode_simps [OF assms(2)]
  have t: "id_text prefix session seqno = prefix @ CHR ''-'' # (?s @ CHR ''-'' # ?q)" by (simp add: id_text_def)
  have "0 < length ?s" "0 < length ?q" using s q by simp_all
  then have l: "\<not> length (id_text prefix session seqno) \<le> length prefix + 2" by (simp add: t)
  have r: "drop (Suc (length prefix)) (id_text prefix session seqno) = ?s @ CHR ''-'' # ?q" by (simp add: t)
  have h: "take (length prefix) (id_text prefix session seqno) = prefix" "id_text prefix session seqno ! length prefix = CHR ''-''"
    by (simp_all add: t nth_append)
  show ?thesis using l h s(1) q(1) find_index_dash [OF s(2), of ?q]
    by (simp add: parse_id_def Let_def r)
qed

lemma next_id_text:
  assumes "next_id g = (g', Some out)"
  shows "out = id_text (ig_prefix g) (ig_session_id g) (inc64 (ig_sequence g))" "length out \<le> ig_max_length g"
    "length out \<le> kClientIdCapacity" "ig_sequence g' = inc64 (ig_sequence g)"
  using assms
  by (auto simp: next_id_def id_text_def Let_def inline_append_def inline_assign_def case_prod_beta split: if_splits)

lemma next_id_frame [simp]:
  "ig_prefix (fst (next_id g)) = ig_prefix g" "ig_session_id (fst (next_id g)) = ig_session_id g"
  "ig_sequence (fst (next_id g)) = inc64 (ig_sequence g)" "ig_max_length (fst (next_id g)) = ig_max_length g"
  by (simp_all add: next_id_def Let_def case_prod_beta)

lemma next_id_succeeds:
  assumes "length (ig_prefix g) + 1 + length (encode_base36 (ig_session_id g)) + 1
      + length (encode_base36 (inc64 (ig_sequence g))) \<le> min (ig_max_length g) kClientIdCapacity"
  shows "\<exists>out. snd (next_id g) = Some out"
  using assms by (auto simp: next_id_def Let_def inline_append_def inline_assign_def case_prod_beta)

lemma id_text_inj:
  assumes "id_text p s q = id_text p s' q'" "s < 18446744073709551616" "q < 18446744073709551616"
    "s' < 18446744073709551616" "q' < 18446744073709551616"
  shows "s = s' \<and> q = q'"
proof -
  have "Some (s, q) = Some (s', q')"
    unfolding parse_id_text [OF assms(2,3), of p, symmetric] parse_id_text [OF assms(4,5), of p, symmetric] assms(1) ..
  then show ?thesis by simp
qed

section \<open>Properties\<close>

text \<open>
  Client order ids identify: an id that \<open>next\<close> produces is never truncated (it fits both the venue's limit and the
  inline string), \<open>parse\<close> recovers exactly its session and sequence numbers from it, so two ids of generators with the
  same prefix are equal only if session and sequence are equal, consecutive ids differ, and when the parts fit the
  limit an id is indeed produced.
\<close>

theorem client_ids_identify:
  assumes "ig_session_id g < 18446744073709551616"
  shows "(\<forall>g' out. next_id g = (g', Some out) \<longrightarrow>
        length out \<le> ig_max_length g \<and> length out \<le> kClientIdCapacity
      \<and> parse_id out (ig_prefix g) = Some (ig_session_id g, inc64 (ig_sequence g))
      \<and> (\<forall>h h' out2. next_id h = (h', Some out2) \<and> ig_prefix h = ig_prefix g \<and> ig_session_id h < 18446744073709551616
          \<and> out2 = out \<longrightarrow> ig_session_id h = ig_session_id g \<and> inc64 (ig_sequence h) = inc64 (ig_sequence g)))
    \<and> (length (ig_prefix g) + length (encode_base36 (ig_session_id g)) + length (encode_base36 (inc64 (ig_sequence g))) + 2
         \<le> min (ig_max_length g) kClientIdCapacity \<longrightarrow> snd (next_id g) \<noteq> None)"
proof -
  have "parse_id out (ig_prefix g) = Some (ig_session_id g, inc64 (ig_sequence g))" if "next_id g = (g', Some out)" for g' out
    using next_id_text(1) [OF that] parse_id_text [OF assms inc64_bound] by simp
  moreover have "ig_session_id h = ig_session_id g \<and> inc64 (ig_sequence h) = inc64 (ig_sequence g)"
    if "next_id g = (g', Some out)" "next_id h = (h', Some out)" "ig_prefix h = ig_prefix g" "ig_session_id h < 18446744073709551616"
    for g' h h' out
    using next_id_text(1) [OF that(1)] next_id_text(1) [OF that(2)] that(3,4)
      id_text_inj [OF _ assms inc64_bound that(4) inc64_bound] by metis
  moreover have "snd (next_id g) \<noteq> None" if "length (ig_prefix g) + length (encode_base36 (ig_session_id g))
      + length (encode_base36 (inc64 (ig_sequence g))) + 2 \<le> min (ig_max_length g) kClientIdCapacity"
    using next_id_succeeds [of g] that by auto
  ultimately show ?thesis using next_id_text(2,3) by blast
qed

theorem client_ids_identify_witness:
  "snd (next_id (new_generator ''mm'' 1000 36)) = Some ''mm-rs-1''
   \<and> parse_id ''mm-rs-1'' ''mm'' = Some (1000, 1)"
proof -
  let ?g = "new_generator ''mm'' 1000 36"
  have g: "ig_session_id ?g = 1000" "ig_prefix ?g = ''mm''" "inc64 (ig_sequence ?g) = 1"
    by (simp_all add: new_generator_def inline_assign_def inc64_def)
  have n: "snd (next_id ?g) = Some ''mm-rs-1''" by code_simp
  then have "next_id ?g = (fst (next_id ?g), Some ''mm-rs-1'')" by (simp add: prod_eq_iff)
  with client_ids_identify [of ?g] g have "parse_id ''mm-rs-1'' ''mm'' = Some (1000, 1)" by simp
  with n show ?thesis by blast
qed

end
