(* ===== verification/ConfigLoader.thy ===== *)
theory ConfigLoader
  imports ConfigTypes ClientOrderId StrategyTypes
begin

text \<open>
  \<^verbatim>\<open>src/common/Config.cpp\<close>: reading a YAML document into the configuration, and the validation rules. The YAML
  library is not part of the program: a document is the tree \<open>YNode\<close> its node type describes, and the functions the
  loader calls on it are the fields of a record \<open>yaml\<close>, an argument of every definition here: the parser and the
  typed conversions \<^verbatim>\<open>as<T>\<close> (None where they throw; a conversion to \<^verbatim>\<open>double\<close> gives a finite value). Subscripting is
  the documented lookup: the first entry with that key, nothing for a missing key, and an exception on a scalar.

  A call has three outcomes: a value, a \<^verbatim>\<open>Status\<close>, or a library exception that leaves \<^verbatim>\<open>load_config_string\<close>. A
  section is a list of steps run until one fails, as the macro \<^verbatim>\<open>MM_RETURN_IF_ERROR\<close> does. Messages are dropped.
\<close>

section \<open>Documents and outcomes\<close>

datatype YNode = YUndef | YNull | YScalar string | YSeq "YNode list" | YMap "(YNode \<times> YNode) list"

record yaml =
  y_load :: "string \<Rightarrow> YNode option"
  y_string :: "YNode \<Rightarrow> string option"
  y_int64 :: "YNode \<Rightarrow> int option"
  y_int32 :: "YNode \<Rightarrow> int option"
  y_uint32 :: "YNode \<Rightarrow> nat option"
  y_uint64 :: "YNode \<Rightarrow> nat option"
  y_bool :: "YNode \<Rightarrow> bool option"
  y_double :: "YNode \<Rightarrow> rat option"

datatype 'a loaded = Done 'a | Fail ErrorCode | Escaped

fun run_steps :: "('c \<Rightarrow> 'c loaded) list \<Rightarrow> 'c \<Rightarrow> 'c loaded" where
  "run_steps [] c = Done c"
| "run_steps (f # fs) c = (case f c of Done c' \<Rightarrow> run_steps fs c' | Fail e \<Rightarrow> Fail e | Escaped \<Rightarrow> Escaped)"

definition is_defined :: "YNode \<Rightarrow> bool" where
  "is_defined n \<longleftrightarrow> n \<noteq> YUndef"

definition key_is :: "string \<Rightarrow> YNode \<times> YNode \<Rightarrow> bool" where
  "key_is key e \<longleftrightarrow> fst e = YScalar key"

text \<open>\<^verbatim>\<open>node[key]\<close> on a constant node.\<close>

fun y_get :: "YNode \<Rightarrow> string \<Rightarrow> YNode loaded" where
  "y_get (YMap kvs) key = (case find (key_is key) kvs of Some e \<Rightarrow> Done (snd e) | None \<Rightarrow> Done YUndef)"
| "y_get (YScalar _) key = Escaped"
| "y_get n key = Done YUndef"

section \<open>Readers\<close>

fun check_keys :: "yaml \<Rightarrow> (YNode \<times> YNode) list \<Rightarrow> string list \<Rightarrow> 'c \<Rightarrow> 'c loaded" where
  "check_keys y [] known c = Done c"
| "check_keys y (e # es) known c =
     (case y_string y (fst e) of
        None \<Rightarrow> Escaped
      | Some key \<Rightarrow> if key \<in> set known then check_keys y es known c else Fail InvalidArgument)"

definition check_known_keys :: "yaml \<Rightarrow> YNode \<Rightarrow> string list \<Rightarrow> 'c \<Rightarrow> 'c loaded" where
  "check_known_keys y n known c = (case n of YMap kvs \<Rightarrow> check_keys y kvs known c | _ \<Rightarrow> Done c)"

definition read_scalar :: "(YNode \<Rightarrow> 'v option) \<Rightarrow> YNode \<Rightarrow> string \<Rightarrow> ('v \<Rightarrow> 'c \<Rightarrow> 'c) \<Rightarrow> 'c \<Rightarrow> 'c loaded" where
  "read_scalar conv n key upd c =
     (case n of
        YMap kvs \<Rightarrow>
          (case find (key_is key) kvs of
             None \<Rightarrow> Done c
           | Some e \<Rightarrow>
               if snd e = YUndef \<or> snd e = YNull then Done c
               else (case conv (snd e) of None \<Rightarrow> Fail ParseError | Some v \<Rightarrow> Done (upd v c)))
      | _ \<Rightarrow> Done c)"

definition read_fixed :: "yaml \<Rightarrow> YNode \<Rightarrow> string \<Rightarrow> (int \<Rightarrow> 'c \<Rightarrow> 'c) \<Rightarrow> 'c \<Rightarrow> 'c loaded" where
  "read_fixed y n key upd c =
     read_scalar (\<lambda>m. case y_string y m of None \<Rightarrow> None | Some txt \<Rightarrow> parse_fixed_raw txt) n key upd c"

text \<open>Flattening a parameter block into dotted keys.\<close>

fun flatten_params :: "yaml \<Rightarrow> YNode \<Rightarrow> string \<Rightarrow> params \<Rightarrow> params loaded"
and flatten_entries :: "yaml \<Rightarrow> (YNode \<times> YNode) list \<Rightarrow> string \<Rightarrow> params \<Rightarrow> params loaded"
and flatten_items :: "yaml \<Rightarrow> YNode list \<Rightarrow> nat \<Rightarrow> string \<Rightarrow> params \<Rightarrow> params loaded" where
  "flatten_params y (YScalar s) prefix out =
     (case y_string y (YScalar s) of None \<Rightarrow> Escaped | Some v \<Rightarrow> Done (params_set out prefix v))"
| "flatten_params y (YMap kvs) prefix out = flatten_entries y kvs prefix out"
| "flatten_params y (YSeq ns) prefix out = flatten_items y ns 0 prefix out"
| "flatten_params y YNull prefix out = Done out"
| "flatten_params y YUndef prefix out = Done out"
| "flatten_entries y [] prefix out = Done out"
| "flatten_entries y ((k, n) # es) prefix out =
     (case y_string y k of
        None \<Rightarrow> Escaped
      | Some key \<Rightarrow>
          (case flatten_params y n (if prefix = [] then key else prefix @ ''.'' @ key) out of
             Done out' \<Rightarrow> flatten_entries y es prefix out'
           | Fail e \<Rightarrow> Fail e
           | Escaped \<Rightarrow> Escaped))"
| "flatten_items y [] i prefix out = Done (params_set out (prefix @ ''.count'') (uint_to_string (int i)))"
| "flatten_items y (n # ns) i prefix out =
     (case flatten_params y n (prefix @ ''.'' @ uint_to_string (int i)) out of
        Done out' \<Rightarrow> flatten_items y ns (Suc i) prefix out'
      | Fail e \<Rightarrow> Fail e
      | Escaped \<Rightarrow> Escaped)"

section \<open>Sections\<close>

definition exchange_keys :: "string list" where
  "exchange_keys = [''name'', ''rest_base_url'', ''ws_base_url'', ''credentials_env_prefix'', ''recv_window_ms'',
     ''rest_timeout_ms'', ''book_depth'']"

definition parse_exchange :: "yaml \<Rightarrow> YNode \<Rightarrow> ExchangeConfig \<Rightarrow> ExchangeConfig loaded" where
  "parse_exchange y n = run_steps
    [check_known_keys y n exchange_keys,
     read_scalar (y_string y) n ''name'' (\<lambda>v c. c\<lparr>xcf_name := v\<rparr>),
     read_scalar (y_string y) n ''rest_base_url'' (\<lambda>v c. c\<lparr>xcf_rest_base_url := v\<rparr>),
     read_scalar (y_string y) n ''ws_base_url'' (\<lambda>v c. c\<lparr>xcf_ws_base_url := v\<rparr>),
     read_scalar (y_string y) n ''credentials_env_prefix'' (\<lambda>v c. c\<lparr>xcf_credentials_env_prefix := v\<rparr>),
     read_scalar (y_int64 y) n ''recv_window_ms'' (\<lambda>v c. c\<lparr>xcf_recv_window_ms := v\<rparr>),
     read_scalar (y_int64 y) n ''rest_timeout_ms'' (\<lambda>v c. c\<lparr>xcf_rest_timeout_ms := v\<rparr>),
     read_scalar (y_int32 y) n ''book_depth'' (\<lambda>v c. c\<lparr>xcf_book_depth := v\<rparr>)]"

definition symbol_keys :: "string list" where
  "symbol_keys = [''symbol'', ''enabled'', ''max_position'', ''max_notional'', ''quote_size'']"

definition parse_symbol_entry :: "yaml \<Rightarrow> YNode \<Rightarrow> SymbolConfig \<Rightarrow> SymbolConfig loaded" where
  "parse_symbol_entry y n = run_steps
    [check_known_keys y n symbol_keys,
     read_scalar (y_string y) n ''symbol'' (\<lambda>v c. c\<lparr>syc_symbol := v\<rparr>),
     read_scalar (y_bool y) n ''enabled'' (\<lambda>v c. c\<lparr>syc_enabled := v\<rparr>),
     read_fixed y n ''max_position'' (\<lambda>v c. c\<lparr>syc_max_position := v\<rparr>),
     read_fixed y n ''max_notional'' (\<lambda>v c. c\<lparr>syc_max_notional := v\<rparr>),
     read_fixed y n ''quote_size'' (\<lambda>v c. c\<lparr>syc_quote_size := v\<rparr>)]"

fun parse_symbol_items :: "yaml \<Rightarrow> YNode list \<Rightarrow> SymbolConfig list \<Rightarrow> SymbolConfig list loaded" where
  "parse_symbol_items y [] out = Done out"
| "parse_symbol_items y (item # ns) out =
     (case (case item of
              YScalar s \<Rightarrow> (case y_string y item of None \<Rightarrow> Escaped
                            | Some v \<Rightarrow> Done (default_symbol_config\<lparr>syc_symbol := v\<rparr>))
            | YMap kvs \<Rightarrow> parse_symbol_entry y item default_symbol_config
            | _ \<Rightarrow> Fail InvalidArgument) of
        Done entry \<Rightarrow> parse_symbol_items y ns (out @ [entry])
      | Fail e \<Rightarrow> Fail e
      | Escaped \<Rightarrow> Escaped)"

definition parse_symbols :: "yaml \<Rightarrow> YNode \<Rightarrow> SymbolConfig list \<Rightarrow> SymbolConfig list loaded" where
  "parse_symbols y n out =
     (case n of YUndef \<Rightarrow> Done out | YSeq items \<Rightarrow> parse_symbol_items y items out | _ \<Rightarrow> Fail InvalidArgument)"

definition strategy_keys :: "string list" where
  "strategy_keys = [''name'', ''version'', ''enabled'', ''quoting_enabled'', ''evaluation_mode'', ''budget_ns'',
     ''max_consecutive_budget_violations'', ''max_consecutive_invalid_outputs'', ''timer_interval_ms'',
     ''max_quote_distance_bps'', ''params'']"

definition parse_strategy_fields :: "yaml \<Rightarrow> YNode \<Rightarrow> StrategyConfig \<Rightarrow> StrategyConfig loaded" where
  "parse_strategy_fields y n = run_steps
    [check_known_keys y n strategy_keys,
     read_scalar (y_string y) n ''name'' (\<lambda>v c. c\<lparr>stc_name := v\<rparr>),
     read_scalar (y_int32 y) n ''version'' (\<lambda>v c. c\<lparr>stc_version := v\<rparr>),
     read_scalar (y_bool y) n ''enabled'' (\<lambda>v c. c\<lparr>stc_enabled := v\<rparr>),
     read_scalar (y_bool y) n ''quoting_enabled'' (\<lambda>v c. c\<lparr>stc_quoting_enabled := v\<rparr>),
     read_scalar (y_string y) n ''evaluation_mode'' (\<lambda>v c. c\<lparr>stc_evaluation_mode := v\<rparr>),
     read_scalar (y_int64 y) n ''budget_ns'' (\<lambda>v c. c\<lparr>stc_budget_ns := v\<rparr>),
     read_scalar (y_int32 y) n ''max_consecutive_budget_violations'' (\<lambda>v c. c\<lparr>stc_max_consecutive_budget_violations := v\<rparr>),
     read_scalar (y_int32 y) n ''max_consecutive_invalid_outputs'' (\<lambda>v c. c\<lparr>stc_max_consecutive_invalid_outputs := v\<rparr>),
     read_scalar (y_int64 y) n ''timer_interval_ms'' (\<lambda>v c. c\<lparr>stc_timer_interval_ms := v\<rparr>),
     read_scalar (y_int32 y) n ''max_quote_distance_bps'' (\<lambda>v c. c\<lparr>stc_max_quote_distance_bps := v\<rparr>)]"

definition read_params :: "yaml \<Rightarrow> YNode \<Rightarrow> StrategyConfig \<Rightarrow> StrategyConfig loaded" where
  "read_params y n c =
     (if \<not> is_defined n then Done c
      else case y_get n ''params'' of
             Done m \<Rightarrow>
               if is_defined m \<and> m \<noteq> YNull
               then (case flatten_params y m [] (stc_params c) of
                       Done ps \<Rightarrow> Done (c\<lparr>stc_params := ps\<rparr>) | Fail e \<Rightarrow> Fail e | Escaped \<Rightarrow> Escaped)
               else Done c
           | Fail e \<Rightarrow> Fail e
           | Escaped \<Rightarrow> Escaped)"

definition parse_strategy :: "yaml \<Rightarrow> YNode \<Rightarrow> StrategyConfig \<Rightarrow> StrategyConfig loaded" where
  "parse_strategy y n = run_steps [parse_strategy_fields y n, read_params y n]"

fun parse_strategy_blocks ::
  "yaml \<Rightarrow> (YNode \<times> YNode) list \<Rightarrow> (string \<times> params) list \<Rightarrow> (string \<times> params) list loaded" where
  "parse_strategy_blocks y [] out = Done out"
| "parse_strategy_blocks y (e # es) out =
     (case y_string y (fst e) of
        None \<Rightarrow> Escaped
      | Some name \<Rightarrow>
          if name = [] then Fail InvalidArgument
          else (case (if snd e = YNull then Done [] else flatten_params y (snd e) [] []) of
                  Done ps \<Rightarrow> parse_strategy_blocks y es (params_set out name ps)
                | Fail c \<Rightarrow> Fail c
                | Escaped \<Rightarrow> Escaped))"

definition parse_strategy_params :: "yaml \<Rightarrow> YNode \<Rightarrow> (string \<times> params) list \<Rightarrow> (string \<times> params) list loaded" where
  "parse_strategy_params y n out =
     (case n of
        YUndef \<Rightarrow> Done out | YNull \<Rightarrow> Done out
      | YMap kvs \<Rightarrow> parse_strategy_blocks y kvs out
      | _ \<Rightarrow> Fail InvalidArgument)"

definition quote_keys :: "string list" where
  "quote_keys = [''max_intent_age_ms'', ''max_market_data_age_ms'', ''min_price_move_ticks'', ''min_quantity_move_fraction'',
     ''min_replace_interval_ms'', ''cooldown_after_cancel_ms'', ''assume_request_lost_after_ms'',
     ''replenish_partial_fills'']"

definition parse_quote :: "yaml \<Rightarrow> YNode \<Rightarrow> QuoteManagerConfigYaml \<Rightarrow> QuoteManagerConfigYaml loaded" where
  "parse_quote y n = run_steps
    [check_known_keys y n quote_keys,
     read_scalar (y_int64 y) n ''max_intent_age_ms'' (\<lambda>v c. c\<lparr>qmy_max_intent_age_ms := v\<rparr>),
     read_scalar (y_int64 y) n ''max_market_data_age_ms'' (\<lambda>v c. c\<lparr>qmy_max_market_data_age_ms := v\<rparr>),
     read_scalar (y_int32 y) n ''min_price_move_ticks'' (\<lambda>v c. c\<lparr>qmy_min_price_move_ticks := v\<rparr>),
     read_scalar (y_double y) n ''min_quantity_move_fraction'' (\<lambda>v c. c\<lparr>qmy_min_quantity_move_fraction := v\<rparr>),
     read_scalar (y_int64 y) n ''min_replace_interval_ms'' (\<lambda>v c. c\<lparr>qmy_min_replace_interval_ms := v\<rparr>),
     read_scalar (y_int64 y) n ''cooldown_after_cancel_ms'' (\<lambda>v c. c\<lparr>qmy_cooldown_after_cancel_ms := v\<rparr>),
     read_scalar (y_int64 y) n ''assume_request_lost_after_ms'' (\<lambda>v c. c\<lparr>qmy_assume_request_lost_after_ms := v\<rparr>),
     read_scalar (y_bool y) n ''replenish_partial_fills'' (\<lambda>v c. c\<lparr>qmy_replenish_partial_fills := v\<rparr>)]"

definition symbol_risk_keys :: "string list" where
  "symbol_risk_keys = [''max_position'', ''max_position_notional'', ''max_order_quantity'', ''max_order_notional'',
     ''max_working_exposure'', ''max_side_exposure'', ''max_open_orders'', ''price_band_bps'']"

definition parse_symbol_risk_entry :: "yaml \<Rightarrow> YNode \<Rightarrow> SymbolRiskConfig \<Rightarrow> SymbolRiskConfig loaded" where
  "parse_symbol_risk_entry y n = run_steps
    [check_known_keys y n symbol_risk_keys,
     read_fixed y n ''max_position'' (\<lambda>v c. c\<lparr>syr_max_position := v\<rparr>),
     read_fixed y n ''max_position_notional'' (\<lambda>v c. c\<lparr>syr_max_position_notional := v\<rparr>),
     read_fixed y n ''max_order_quantity'' (\<lambda>v c. c\<lparr>syr_max_order_quantity := v\<rparr>),
     read_fixed y n ''max_order_notional'' (\<lambda>v c. c\<lparr>syr_max_order_notional := v\<rparr>),
     read_fixed y n ''max_working_exposure'' (\<lambda>v c. c\<lparr>syr_max_working_exposure := v\<rparr>),
     read_fixed y n ''max_side_exposure'' (\<lambda>v c. c\<lparr>syr_max_side_exposure := v\<rparr>),
     read_scalar (y_int32 y) n ''max_open_orders'' (\<lambda>v c. c\<lparr>syr_max_open_orders := v\<rparr>),
     read_scalar (y_int32 y) n ''price_band_bps'' (\<lambda>v c. c\<lparr>syr_price_band_bps := v\<rparr>)]"

fun parse_symbol_risks :: "yaml \<Rightarrow> (YNode \<times> YNode) list \<Rightarrow> SymbolRiskConfig list \<Rightarrow> SymbolRiskConfig list loaded" where
  "parse_symbol_risks y [] out = Done out"
| "parse_symbol_risks y (e # es) out =
     (case y_string y (fst e) of
        None \<Rightarrow> Escaped
      | Some name \<Rightarrow>
          if name = [] then Fail InvalidArgument
          else (case parse_symbol_risk_entry y (snd e) (default_symbol_risk\<lparr>syr_symbol := name\<rparr>) of
                  Done entry \<Rightarrow> parse_symbol_risks y es (out @ [entry])
                | Fail c \<Rightarrow> Fail c
                | Escaped \<Rightarrow> Escaped))"

definition parse_symbol_risk :: "yaml \<Rightarrow> YNode \<Rightarrow> SymbolRiskConfig list \<Rightarrow> SymbolRiskConfig list loaded" where
  "parse_symbol_risk y n out =
     (case n of
        YUndef \<Rightarrow> Done out | YNull \<Rightarrow> Done out
      | YMap kvs \<Rightarrow> parse_symbol_risks y kvs out
      | _ \<Rightarrow> Fail InvalidArgument)"

definition read_symbol_risk :: "yaml \<Rightarrow> YNode \<Rightarrow> RiskConfig \<Rightarrow> RiskConfig loaded" where
  "read_symbol_risk y n c =
     (if \<not> is_defined n then Done c
      else case y_get n ''symbols'' of
             Done m \<Rightarrow> (case parse_symbol_risk y m (rcf_symbols c) of
                          Done ss \<Rightarrow> Done (c\<lparr>rcf_symbols := ss\<rparr>) | Fail e \<Rightarrow> Fail e | Escaped \<Rightarrow> Escaped)
           | Fail e \<Rightarrow> Fail e
           | Escaped \<Rightarrow> Escaped)"

definition oms_keys :: "string list" where
  "oms_keys = [''client_id_prefix'', ''session_id'', ''max_client_id_length'', ''new_request_timeout_ms'',
     ''cancel_request_timeout_ms'', ''replace_request_timeout_ms'', ''reconciliation_interval_ms'', ''max_orders'',
     ''journal_capacity'', ''journal_enabled'']"

definition parse_oms :: "yaml \<Rightarrow> YNode \<Rightarrow> OmsConfigYaml \<Rightarrow> OmsConfigYaml loaded" where
  "parse_oms y n = run_steps
    [check_known_keys y n oms_keys,
     read_scalar (y_string y) n ''client_id_prefix'' (\<lambda>v c. c\<lparr>omy_client_id_prefix := v\<rparr>),
     read_scalar (y_uint64 y) n ''session_id'' (\<lambda>v c. c\<lparr>omy_session_id := v\<rparr>),
     read_scalar (y_uint32 y) n ''max_client_id_length'' (\<lambda>v c. c\<lparr>omy_max_client_id_length := v\<rparr>),
     read_scalar (y_uint32 y) n ''new_request_timeout_ms'' (\<lambda>v c. c\<lparr>omy_new_request_timeout_ms := v\<rparr>),
     read_scalar (y_uint32 y) n ''cancel_request_timeout_ms'' (\<lambda>v c. c\<lparr>omy_cancel_request_timeout_ms := v\<rparr>),
     read_scalar (y_uint32 y) n ''replace_request_timeout_ms'' (\<lambda>v c. c\<lparr>omy_replace_request_timeout_ms := v\<rparr>),
     read_scalar (y_uint32 y) n ''reconciliation_interval_ms'' (\<lambda>v c. c\<lparr>omy_reconciliation_interval_ms := v\<rparr>),
     read_scalar (y_uint32 y) n ''max_orders'' (\<lambda>v c. c\<lparr>omy_max_orders := v\<rparr>),
     read_scalar (y_uint32 y) n ''journal_capacity'' (\<lambda>v c. c\<lparr>omy_journal_capacity := v\<rparr>),
     read_scalar (y_bool y) n ''journal_enabled'' (\<lambda>v c. c\<lparr>omy_journal_enabled := v\<rparr>)]"

definition risk_keys :: "string list" where
  "risk_keys = [''enabled'', ''symbols'', ''max_market_data_age_ms'', ''max_position_age_ms'', ''max_new_orders_per_second'',
     ''max_cancels_per_second'', ''max_replaces_per_second'', ''max_actions_per_second'', ''burst_capacity'',
     ''max_position'', ''max_notional'', ''max_portfolio_notional'', ''max_order_qty'', ''max_order_notional'',
     ''max_active_orders_per_symbol'', ''max_active_orders_total'', ''max_daily_loss'', ''max_session_loss'',
     ''emergency_loss'', ''max_quote_distance_bps'']"

definition parse_risk :: "yaml \<Rightarrow> YNode \<Rightarrow> RiskConfig \<Rightarrow> RiskConfig loaded" where
  "parse_risk y n = run_steps
    [check_known_keys y n risk_keys,
     read_scalar (y_bool y) n ''enabled'' (\<lambda>v c. c\<lparr>rcf_enabled := v\<rparr>),
     read_scalar (y_int64 y) n ''max_market_data_age_ms'' (\<lambda>v c. c\<lparr>rcf_max_market_data_age_ms := v\<rparr>),
     read_scalar (y_int64 y) n ''max_position_age_ms'' (\<lambda>v c. c\<lparr>rcf_max_position_age_ms := v\<rparr>),
     read_scalar (y_int32 y) n ''max_new_orders_per_second'' (\<lambda>v c. c\<lparr>rcf_max_new_orders_per_second := v\<rparr>),
     read_scalar (y_int32 y) n ''max_cancels_per_second'' (\<lambda>v c. c\<lparr>rcf_max_cancels_per_second := v\<rparr>),
     read_scalar (y_int32 y) n ''max_replaces_per_second'' (\<lambda>v c. c\<lparr>rcf_max_replaces_per_second := v\<rparr>),
     read_scalar (y_int32 y) n ''max_actions_per_second'' (\<lambda>v c. c\<lparr>rcf_max_actions_per_second := v\<rparr>),
     read_scalar (y_int32 y) n ''burst_capacity'' (\<lambda>v c. c\<lparr>rcf_burst_capacity := v\<rparr>),
     read_symbol_risk y n,
     read_fixed y n ''max_position'' (\<lambda>v c. c\<lparr>rcf_max_position := v\<rparr>),
     read_fixed y n ''max_notional'' (\<lambda>v c. c\<lparr>rcf_max_notional := v\<rparr>),
     read_fixed y n ''max_portfolio_notional'' (\<lambda>v c. c\<lparr>rcf_max_portfolio_notional := v\<rparr>),
     read_fixed y n ''max_order_qty'' (\<lambda>v c. c\<lparr>rcf_max_order_qty := v\<rparr>),
     read_fixed y n ''max_order_notional'' (\<lambda>v c. c\<lparr>rcf_max_order_notional := v\<rparr>),
     read_scalar (y_int32 y) n ''max_active_orders_per_symbol'' (\<lambda>v c. c\<lparr>rcf_max_active_orders_per_symbol := v\<rparr>),
     read_scalar (y_int32 y) n ''max_active_orders_total'' (\<lambda>v c. c\<lparr>rcf_max_active_orders_total := v\<rparr>),
     read_fixed y n ''max_daily_loss'' (\<lambda>v c. c\<lparr>rcf_max_daily_loss := v\<rparr>),
     read_fixed y n ''max_session_loss'' (\<lambda>v c. c\<lparr>rcf_max_session_loss := v\<rparr>),
     read_fixed y n ''emergency_loss'' (\<lambda>v c. c\<lparr>rcf_emergency_loss := v\<rparr>),
     read_scalar (y_int32 y) n ''max_quote_distance_bps'' (\<lambda>v c. c\<lparr>rcf_max_quote_distance_bps := v\<rparr>)]"

definition execution_keys :: "string list" where
  "execution_keys = [''max_orders_per_second'', ''max_cancels_per_second'', ''max_replaces_per_second'', ''max_messages_per_second'',
     ''ack_timeout_ms'', ''cancel_timeout_ms'']"

definition parse_execution :: "yaml \<Rightarrow> YNode \<Rightarrow> ExecutionRateConfig \<Rightarrow> ExecutionRateConfig loaded" where
  "parse_execution y n = run_steps
    [check_known_keys y n execution_keys,
     read_scalar (y_int32 y) n ''max_orders_per_second'' (\<lambda>v c. c\<lparr>erc_max_orders_per_second := v\<rparr>),
     read_scalar (y_int32 y) n ''max_cancels_per_second'' (\<lambda>v c. c\<lparr>erc_max_cancels_per_second := v\<rparr>),
     read_scalar (y_int32 y) n ''max_replaces_per_second'' (\<lambda>v c. c\<lparr>erc_max_replaces_per_second := v\<rparr>),
     read_scalar (y_int32 y) n ''max_messages_per_second'' (\<lambda>v c. c\<lparr>erc_max_messages_per_second := v\<rparr>),
     read_scalar (y_int64 y) n ''ack_timeout_ms'' (\<lambda>v c. c\<lparr>erc_ack_timeout_ms := v\<rparr>),
     read_scalar (y_int64 y) n ''cancel_timeout_ms'' (\<lambda>v c. c\<lparr>erc_cancel_timeout_ms := v\<rparr>)]"

definition safety_keys :: "string list" where
  "safety_keys = [''max_market_data_age_ms'', ''max_processing_delay_ms'', ''max_clock_skew_ms'', ''max_consecutive_rejects'',
     ''reconcile_interval_ms'', ''live_trading_enabled'', ''cancel_all_on_shutdown'']"

definition parse_safety :: "yaml \<Rightarrow> YNode \<Rightarrow> SafetyConfig \<Rightarrow> SafetyConfig loaded" where
  "parse_safety y n = run_steps
    [check_known_keys y n safety_keys,
     read_scalar (y_int64 y) n ''max_market_data_age_ms'' (\<lambda>v c. c\<lparr>sfc_max_market_data_age_ms := v\<rparr>),
     read_scalar (y_int64 y) n ''max_processing_delay_ms'' (\<lambda>v c. c\<lparr>sfc_max_processing_delay_ms := v\<rparr>),
     read_scalar (y_int64 y) n ''max_clock_skew_ms'' (\<lambda>v c. c\<lparr>sfc_max_clock_skew_ms := v\<rparr>),
     read_scalar (y_int32 y) n ''max_consecutive_rejects'' (\<lambda>v c. c\<lparr>sfc_max_consecutive_rejects := v\<rparr>),
     read_scalar (y_int64 y) n ''reconcile_interval_ms'' (\<lambda>v c. c\<lparr>sfc_reconcile_interval_ms := v\<rparr>),
     read_scalar (y_bool y) n ''live_trading_enabled'' (\<lambda>v c. c\<lparr>sfc_live_trading_enabled := v\<rparr>),
     read_scalar (y_bool y) n ''cancel_all_on_shutdown'' (\<lambda>v c. c\<lparr>sfc_cancel_all_on_shutdown := v\<rparr>)]"

definition paper_keys :: "string list" where
  "paper_keys = [''request_latency_us'', ''ack_latency_us'', ''cancel_latency_us'', ''replace_latency_us'', ''fill_latency_us'',
     ''query_latency_us'', ''fill_model'', ''post_only_policy'', ''replace_mode'', ''queue_share_bps'',
     ''max_book_age_ms'', ''max_orders'', ''deterministic_seed'', ''maker_fee_bps'', ''taker_fee_bps'']"

definition parse_paper :: "yaml \<Rightarrow> YNode \<Rightarrow> PaperConfig \<Rightarrow> PaperConfig loaded" where
  "parse_paper y n = run_steps
    [check_known_keys y n paper_keys,
     read_scalar (y_int64 y) n ''request_latency_us'' (\<lambda>v c. c\<lparr>py_request_latency_us := v\<rparr>),
     read_scalar (y_int64 y) n ''ack_latency_us'' (\<lambda>v c. c\<lparr>py_ack_latency_us := v\<rparr>),
     read_scalar (y_int64 y) n ''cancel_latency_us'' (\<lambda>v c. c\<lparr>py_cancel_latency_us := v\<rparr>),
     read_scalar (y_int64 y) n ''replace_latency_us'' (\<lambda>v c. c\<lparr>py_replace_latency_us := v\<rparr>),
     read_scalar (y_int64 y) n ''fill_latency_us'' (\<lambda>v c. c\<lparr>py_fill_latency_us := v\<rparr>),
     read_scalar (y_int64 y) n ''query_latency_us'' (\<lambda>v c. c\<lparr>py_query_latency_us := v\<rparr>),
     read_scalar (y_string y) n ''fill_model'' (\<lambda>v c. c\<lparr>py_fill_model := v\<rparr>),
     read_scalar (y_string y) n ''post_only_policy'' (\<lambda>v c. c\<lparr>py_post_only_policy := v\<rparr>),
     read_scalar (y_string y) n ''replace_mode'' (\<lambda>v c. c\<lparr>py_replace_mode := v\<rparr>),
     read_scalar (y_int32 y) n ''queue_share_bps'' (\<lambda>v c. c\<lparr>py_queue_share_bps := v\<rparr>),
     read_scalar (y_int64 y) n ''max_book_age_ms'' (\<lambda>v c. c\<lparr>py_max_book_age_ms := v\<rparr>),
     read_scalar (y_int32 y) n ''max_orders'' (\<lambda>v c. c\<lparr>py_max_orders := v\<rparr>),
     read_scalar (y_uint64 y) n ''deterministic_seed'' (\<lambda>v c. c\<lparr>py_deterministic_seed := v\<rparr>),
     read_scalar (y_double y) n ''maker_fee_bps'' (\<lambda>v c. c\<lparr>py_maker_fee_bps := v\<rparr>),
     read_scalar (y_double y) n ''taker_fee_bps'' (\<lambda>v c. c\<lparr>py_taker_fee_bps := v\<rparr>)]"

definition parse_execution_mode :: "string \<Rightarrow> ExecutionMode option" where
  "parse_execution_mode txt = (if txt = ''paper'' then Some EmPaper else if txt = ''live'' then Some EmLive else None)"

definition parse_trading_mode :: "string \<Rightarrow> TradingMode option" where
  "parse_trading_mode txt = (if txt = ''paper'' then Some TmPaper else if txt = ''live'' then Some TmLive else None)"

definition trading_mode_text :: "TradingMode \<Rightarrow> string" where
  "trading_mode_text m = (if m = TmLive then ''live'' else ''paper'')"

definition execution_mode_text :: "ExecutionMode \<Rightarrow> string" where
  "execution_mode_text m = (case m of EmPaper \<Rightarrow> ''paper'' | EmLive \<Rightarrow> ''live'')"

definition parse_execution_env :: "yaml \<Rightarrow> YNode \<Rightarrow> ExecutionMode \<Rightarrow> ExecutionMode loaded" where
  "parse_execution_env y n m =
     (case run_steps [check_known_keys y n [''mode''], read_scalar (y_string y) n ''mode'' (\<lambda>v c. v)] ''paper'' of
        Done txt \<Rightarrow> (case parse_execution_mode txt of None \<Rightarrow> Fail InvalidArgument | Some e \<Rightarrow> Done e)
      | Fail e \<Rightarrow> Fail e
      | Escaped \<Rightarrow> Escaped)"

definition monitoring_keys :: "string list" where
  "monitoring_keys = [''http_host'', ''http_port'', ''snapshot_interval_ms'', ''enabled'']"

definition parse_monitoring :: "yaml \<Rightarrow> YNode \<Rightarrow> MonitoringConfig \<Rightarrow> MonitoringConfig loaded" where
  "parse_monitoring y n = run_steps
    [check_known_keys y n monitoring_keys,
     read_scalar (y_string y) n ''http_host'' (\<lambda>v c. c\<lparr>mnc_http_host := v\<rparr>),
     read_scalar (y_int32 y) n ''http_port'' (\<lambda>v c. c\<lparr>mnc_http_port := v\<rparr>),
     read_scalar (y_int64 y) n ''snapshot_interval_ms'' (\<lambda>v c. c\<lparr>mnc_snapshot_interval_ms := v\<rparr>),
     read_scalar (y_bool y) n ''enabled'' (\<lambda>v c. c\<lparr>mnc_enabled := v\<rparr>)]"

definition persistence_keys :: "string list" where
  "persistence_keys = [''journal_dir'', ''state_file'', ''journal_flush_interval_ms'', ''fsync_on_flush'']"

definition parse_persistence :: "yaml \<Rightarrow> YNode \<Rightarrow> PersistenceConfig \<Rightarrow> PersistenceConfig loaded" where
  "parse_persistence y n = run_steps
    [check_known_keys y n persistence_keys,
     read_scalar (y_string y) n ''journal_dir'' (\<lambda>v c. c\<lparr>prc_journal_dir := v\<rparr>),
     read_scalar (y_string y) n ''state_file'' (\<lambda>v c. c\<lparr>prc_state_file := v\<rparr>),
     read_scalar (y_int64 y) n ''journal_flush_interval_ms'' (\<lambda>v c. c\<lparr>prc_journal_flush_interval_ms := v\<rparr>),
     read_scalar (y_bool y) n ''fsync_on_flush'' (\<lambda>v c. c\<lparr>prc_fsync_on_flush := v\<rparr>)]"

definition logging_keys :: "string list" where
  "logging_keys = [''level'', ''dir'', ''max_file_bytes'', ''max_files'', ''console'']"

definition parse_logging :: "yaml \<Rightarrow> YNode \<Rightarrow> LoggingConfig \<Rightarrow> LoggingConfig loaded" where
  "parse_logging y n = run_steps
    [check_known_keys y n logging_keys,
     read_scalar (y_string y) n ''level'' (\<lambda>v c. c\<lparr>lgc_level := v\<rparr>),
     read_scalar (y_string y) n ''dir'' (\<lambda>v c. c\<lparr>lgc_dir := v\<rparr>),
     read_scalar (y_int64 y) n ''max_file_bytes'' (\<lambda>v c. c\<lparr>lgc_max_file_bytes := v\<rparr>),
     read_scalar (y_int32 y) n ''max_files'' (\<lambda>v c. c\<lparr>lgc_max_files := v\<rparr>),
     read_scalar (y_bool y) n ''console'' (\<lambda>v c. c\<lparr>lgc_console := v\<rparr>)]"

definition io_keys :: "string list" where
  "io_keys = [''md_threads'', ''exec_threads'', ''trading_cpu'']"

definition parse_io :: "yaml \<Rightarrow> YNode \<Rightarrow> IoConfig \<Rightarrow> IoConfig loaded" where
  "parse_io y n = run_steps
    [check_known_keys y n io_keys,
     read_scalar (y_int32 y) n ''md_threads'' (\<lambda>v c. c\<lparr>ioc_md_threads := v\<rparr>),
     read_scalar (y_int32 y) n ''exec_threads'' (\<lambda>v c. c\<lparr>ioc_exec_threads := v\<rparr>),
     read_scalar (y_int32 y) n ''trading_cpu'' (\<lambda>v c. c\<lparr>ioc_trading_cpu := v\<rparr>)]"

section \<open>Validation\<close>

text \<open>A chain of guarded early returns: the code of the first condition that holds.\<close>

fun first_failure :: "(bool \<times> ErrorCode) list \<Rightarrow> ErrorCode" where
  "first_failure [] = Ok"
| "first_failure ((bad, code) # cs) = (if bad then code else first_failure cs)"

definition validate_paper :: "PaperConfig \<Rightarrow> ErrorCode" where
  "validate_paper p = first_failure
    [(py_fill_model p \<noteq> ''displayed_liquidity'' \<and> py_fill_model p \<noteq> ''full_on_cross'', InvalidArgument),
     (py_post_only_policy p \<noteq> ''reject'' \<and> py_post_only_policy p \<noteq> ''expire'', InvalidArgument),
     (py_replace_mode p \<noteq> ''atomic'' \<and> py_replace_mode p \<noteq> ''unsupported'', InvalidArgument),
     (py_queue_share_bps p < 0 \<or> py_queue_share_bps p > 10000, InvalidArgument),
     (py_request_latency_us p < 0 \<or> py_ack_latency_us p < 0 \<or> py_cancel_latency_us p < 0
        \<or> py_replace_latency_us p < 0 \<or> py_fill_latency_us p < 0 \<or> py_query_latency_us p < 0, InvalidArgument),
     (py_max_orders p \<le> 0, InvalidArgument),
     (py_max_book_age_ms p \<le> 0, InvalidArgument)]"

definition validate_oms :: "OmsConfigYaml \<Rightarrow> ErrorCode" where
  "validate_oms m = first_failure
    [(omy_client_id_prefix m = [], InvalidArgument),
     (omy_max_client_id_length m < 8 \<or> omy_max_client_id_length m > 64, InvalidArgument),
     (length (omy_client_id_prefix m) + 14 > omy_max_client_id_length m, InvalidArgument),
     (omy_new_request_timeout_ms m = 0 \<or> omy_cancel_request_timeout_ms m = 0 \<or> omy_replace_request_timeout_ms m = 0,
        InvalidArgument),
     (omy_max_orders m = 0, InvalidArgument),
     (omy_journal_enabled m \<and> omy_journal_capacity m = 0, InvalidArgument)]"

definition kSymbolCapacity :: nat where "kSymbolCapacity = 24"

definition validate_symbols :: "SymbolConfig list \<Rightarrow> ErrorCode" where
  "validate_symbols ss = first_failure
    [(ss = [], InvalidArgument),
     (list_ex (\<lambda>s. syc_symbol s = [] \<or> length (syc_symbol s) > kSymbolCapacity) ss, InvalidArgument),
     (\<not> distinct (map syc_symbol ss), InvalidArgument)]"

definition validate_symbol_risks :: "SymbolRiskConfig list \<Rightarrow> ErrorCode" where
  "validate_symbol_risks ss = first_failure
    [(\<not> distinct (map syr_symbol ss)
        \<or> list_ex (\<lambda>s. syr_max_position s < 0 \<or> syr_max_order_quantity s < 0 \<or> syr_max_order_notional s < 0
             \<or> syr_max_working_exposure s < 0 \<or> syr_max_side_exposure s < 0 \<or> syr_max_position_notional s < 0
             \<or> syr_max_open_orders s < 0 \<or> syr_price_band_bps s < 0) ss, InvalidArgument)]"

definition validate_strategy_quote :: "StrategyConfig \<Rightarrow> ExchangeConfig \<Rightarrow> QuoteManagerConfigYaml \<Rightarrow> ErrorCode" where
  "validate_strategy_quote s x q = first_failure
    [(stc_name s = [], InvalidArgument),
     (xcf_name x = [], InvalidArgument),
     (stc_budget_ns s \<le> 0, InvalidArgument),
     (stc_timer_interval_ms s \<le> 0, InvalidArgument),
     (stc_max_consecutive_budget_violations s \<le> 0 \<or> stc_max_consecutive_invalid_outputs s \<le> 0, InvalidArgument),
     (qmy_max_intent_age_ms q \<le> 0 \<or> qmy_max_market_data_age_ms q \<le> 0, InvalidArgument),
     (qmy_min_price_move_ticks q \<le> 0, InvalidArgument),
     (qmy_min_quantity_move_fraction q < 0 \<or> qmy_min_quantity_move_fraction q > 1, InvalidArgument),
     (qmy_min_replace_interval_ms q < 0 \<or> qmy_cooldown_after_cancel_ms q < 0 \<or> qmy_assume_request_lost_after_ms q < 0,
        InvalidArgument),
     (stc_max_quote_distance_bps s \<le> 0, InvalidArgument),
     (stc_evaluation_mode s
        \<notin> set [''on_book_update'', ''on_bbo_change'', ''on_timer'', ''on_bbo_change_and_timer''], InvalidArgument),
     (xcf_book_depth x \<le> 0, InvalidArgument)]"

definition validate_risk :: "RiskConfig \<Rightarrow> ErrorCode" where
  "validate_risk r = first_failure
    [(rcf_max_active_orders_per_symbol r \<le> 0 \<or> rcf_max_active_orders_total r \<le> 0, InvalidArgument),
     (rcf_max_active_orders_total r < rcf_max_active_orders_per_symbol r, InvalidArgument),
     (rcf_max_quote_distance_bps r \<le> 0, InvalidArgument),
     (rcf_max_market_data_age_ms r \<le> 0 \<or> rcf_max_position_age_ms r \<le> 0, InvalidArgument),
     (rcf_max_new_orders_per_second r < 0 \<or> rcf_max_cancels_per_second r < 0 \<or> rcf_max_replaces_per_second r < 0
        \<or> rcf_max_actions_per_second r < 0 \<or> rcf_burst_capacity r < 0, InvalidArgument),
     (is_err (validate_symbol_risks (rcf_symbols r)), validate_symbol_risks (rcf_symbols r)),
     (rcf_max_position r < 0 \<or> rcf_max_notional r < 0 \<or> rcf_max_order_qty r < 0 \<or> rcf_max_order_notional r < 0
        \<or> rcf_max_daily_loss r < 0 \<or> rcf_max_session_loss r < 0 \<or> rcf_emergency_loss r < 0
        \<or> rcf_max_portfolio_notional r < 0, InvalidArgument)]"

definition validate_config :: "EngineConfig \<Rightarrow> ErrorCode" where
  "validate_config c = first_failure
    [(is_err (validate_oms (ecf_oms c)), validate_oms (ecf_oms c)),
     (is_err (validate_paper (ecf_paper c)), validate_paper (ecf_paper c)),
     (is_err (validate_symbols (ecf_symbols c)), validate_symbols (ecf_symbols c)),
     (is_err (validate_strategy_quote (ecf_strategy c) (ecf_exchange c) (ecf_quote c)),
        validate_strategy_quote (ecf_strategy c) (ecf_exchange c) (ecf_quote c)),
     (erc_max_orders_per_second (ecf_execution c) \<le> 0 \<or> erc_max_cancels_per_second (ecf_execution c) \<le> 0
        \<or> erc_max_messages_per_second (ecf_execution c) \<le> 0, InvalidArgument),
     (erc_ack_timeout_ms (ecf_execution c) \<le> 0 \<or> erc_cancel_timeout_ms (ecf_execution c) \<le> 0, InvalidArgument),
     (is_err (validate_risk (ecf_risk c)), validate_risk (ecf_risk c)),
     (sfc_max_market_data_age_ms (ecf_safety c) \<le> 0, InvalidArgument),
     (sfc_reconcile_interval_ms (ecf_safety c) \<le> 0, InvalidArgument),
     (mnc_enabled (ecf_monitoring c) \<and> (mnc_http_port (ecf_monitoring c) \<le> 0 \<or> mnc_http_port (ecf_monitoring c) > 65535),
        InvalidArgument),
     (ioc_md_threads (ecf_io c) \<le> 0 \<or> ioc_exec_threads (ecf_io c) \<le> 0, InvalidArgument)]"

definition effective_execution_mode :: "EngineConfig \<Rightarrow> ExecutionMode" where
  "effective_execution_mode c = (if ecf_mode c = TmLive then EmLive else ecf_execution_env c)"

definition validate_execution_available :: "EngineConfig \<Rightarrow> ErrorCode" where
  "validate_execution_available c = (if effective_execution_mode c = EmLive then PermissionDenied else Ok)"

definition validate_live_gates :: "EngineConfig \<Rightarrow> bool \<Rightarrow> ErrorCode" where
  "validate_live_gates c operator_confirmed_live =
     (if ecf_mode c \<noteq> TmLive then validate_execution_available c
      else first_failure
        [(\<not> sfc_live_trading_enabled (ecf_safety c), PermissionDenied),
         (\<not> operator_confirmed_live, PermissionDenied),
         (\<not> rcf_max_position (ecf_risk c) > 0, PermissionDenied),
         (\<not> rcf_max_notional (ecf_risk c) > 0, PermissionDenied),
         (\<not> rcf_max_order_qty (ecf_risk c) > 0, PermissionDenied),
         (\<not> rcf_max_order_notional (ecf_risk c) > 0, PermissionDenied),
         (\<not> rcf_max_daily_loss (ecf_risk c) > 0, PermissionDenied),
         (\<not> rcf_emergency_loss (ecf_risk c) > 0, PermissionDenied),
         (rcf_emergency_loss (ecf_risk c) < rcf_max_daily_loss (ecf_risk c), InvalidArgument),
         (xcf_credentials_env_prefix (ecf_exchange c) = [], PermissionDenied),
         (\<not> list_ex syc_enabled (ecf_symbols c), InvalidArgument),
         (is_err (validate_execution_available c), validate_execution_available c)])"

definition find_symbol :: "EngineConfig \<Rightarrow> string \<Rightarrow> SymbolConfig option" where
  "find_symbol c symbol = find (\<lambda>s. syc_symbol s = symbol) (ecf_symbols c)"

section \<open>Loading\<close>

definition root_keys :: "string list" where
  "root_keys = [''mode'', ''session_name'', ''exchange'', ''symbols'', ''strategy'', ''risk'', ''execution'', ''safety'',
     ''paper'', ''monitoring'', ''persistence'', ''logging'', ''io'', ''strategies'', ''quote'', ''oms'', ''execution_env'']"

text \<open>One section: subscript the doc, parse, store the result.\<close>

definition parse_section ::
  "YNode \<Rightarrow> string \<Rightarrow> (YNode \<Rightarrow> 's \<Rightarrow> 's loaded) \<Rightarrow> (EngineConfig \<Rightarrow> 's) \<Rightarrow> ('s \<Rightarrow> EngineConfig \<Rightarrow> EngineConfig)
   \<Rightarrow> EngineConfig \<Rightarrow> EngineConfig loaded" where
  "parse_section doc key parse get put c =
     (case y_get doc key of
        Done n \<Rightarrow> (case parse n (get c) of Done s \<Rightarrow> Done (put s c) | Fail e \<Rightarrow> Fail e | Escaped \<Rightarrow> Escaped)
      | Fail e \<Rightarrow> Fail e
      | Escaped \<Rightarrow> Escaped)"

definition read_mode :: "yaml \<Rightarrow> YNode \<Rightarrow> EngineConfig \<Rightarrow> EngineConfig loaded" where
  "read_mode y doc c =
     (case read_scalar (y_string y) doc ''mode'' (\<lambda>v c. v) ''paper'' of
        Done txt \<Rightarrow> (case parse_trading_mode txt of None \<Rightarrow> Fail InvalidArgument | Some m \<Rightarrow> Done (c\<lparr>ecf_mode := m\<rparr>))
      | Fail e \<Rightarrow> Fail e
      | Escaped \<Rightarrow> Escaped)"

text \<open>The block of the selected strategy is merged over the legacy \<^verbatim>\<open>strategy.params\<close>.\<close>

definition merge_strategy_params :: "EngineConfig \<Rightarrow> EngineConfig loaded" where
  "merge_strategy_params c =
     (case map_of (ecf_strategy_params c) (stc_name (ecf_strategy c)) of
        None \<Rightarrow> Done c
      | Some block \<Rightarrow>
          Done (c\<lparr>ecf_strategy := (ecf_strategy c)\<lparr>stc_params :=
            foldl (\<lambda>ps key. case get_string (map_of block) key of Inr v \<Rightarrow> params_set ps key v | Inl _ \<Rightarrow> ps)
              (stc_params (ecf_strategy c)) (params_keys block)\<rparr>\<rparr>))"

definition check_valid :: "EngineConfig \<Rightarrow> EngineConfig loaded" where
  "check_valid c = (if is_err (validate_config c) then Fail (validate_config c) else Done c)"

definition load_steps :: "yaml \<Rightarrow> YNode \<Rightarrow> (EngineConfig \<Rightarrow> EngineConfig loaded) list" where
  "load_steps y doc =
    [check_known_keys y doc root_keys,
     read_mode y doc,
     read_scalar (y_string y) doc ''session_name'' (\<lambda>v c. c\<lparr>ecf_session_name := v\<rparr>),
     parse_section doc ''exchange'' (parse_exchange y) ecf_exchange (\<lambda>s c. c\<lparr>ecf_exchange := s\<rparr>),
     parse_section doc ''symbols'' (parse_symbols y) ecf_symbols (\<lambda>s c. c\<lparr>ecf_symbols := s\<rparr>),
     parse_section doc ''strategy'' (parse_strategy y) ecf_strategy (\<lambda>s c. c\<lparr>ecf_strategy := s\<rparr>),
     parse_section doc ''strategies'' (parse_strategy_params y) ecf_strategy_params (\<lambda>s c. c\<lparr>ecf_strategy_params := s\<rparr>),
     merge_strategy_params,
     parse_section doc ''quote'' (parse_quote y) ecf_quote (\<lambda>s c. c\<lparr>ecf_quote := s\<rparr>),
     parse_section doc ''risk'' (parse_risk y) ecf_risk (\<lambda>s c. c\<lparr>ecf_risk := s\<rparr>),
     parse_section doc ''oms'' (parse_oms y) ecf_oms (\<lambda>s c. c\<lparr>ecf_oms := s\<rparr>),
     parse_section doc ''execution'' (parse_execution y) ecf_execution (\<lambda>s c. c\<lparr>ecf_execution := s\<rparr>),
     parse_section doc ''safety'' (parse_safety y) ecf_safety (\<lambda>s c. c\<lparr>ecf_safety := s\<rparr>),
     parse_section doc ''execution_env'' (parse_execution_env y) ecf_execution_env (\<lambda>s c. c\<lparr>ecf_execution_env := s\<rparr>),
     parse_section doc ''paper'' (parse_paper y) ecf_paper (\<lambda>s c. c\<lparr>ecf_paper := s\<rparr>),
     parse_section doc ''monitoring'' (parse_monitoring y) ecf_monitoring (\<lambda>s c. c\<lparr>ecf_monitoring := s\<rparr>),
     parse_section doc ''persistence'' (parse_persistence y) ecf_persistence (\<lambda>s c. c\<lparr>ecf_persistence := s\<rparr>),
     parse_section doc ''logging'' (parse_logging y) ecf_logging (\<lambda>s c. c\<lparr>ecf_logging := s\<rparr>),
     parse_section doc ''io'' (parse_io y) ecf_io (\<lambda>s c. c\<lparr>ecf_io := s\<rparr>),
     check_valid]"

definition load_config_string :: "yaml \<Rightarrow> string \<Rightarrow> EngineConfig loaded" where
  "load_config_string y yaml_text =
     (case y_load y yaml_text of
        Some (YMap kvs) \<Rightarrow> run_steps (load_steps y (YMap kvs)) default_engine_config
      | _ \<Rightarrow> Fail ParseError)"

text \<open>The file system is an argument: the contents of a path, or None when it cannot be opened.\<close>

definition load_config_file :: "yaml \<Rightarrow> (string \<Rightarrow> string option) \<Rightarrow> string \<Rightarrow> EngineConfig loaded" where
  "load_config_file y read_file path =
     (case read_file path of None \<Rightarrow> Fail NotFound | Some txt \<Rightarrow> load_config_string y txt)"

section \<open>Steps\<close>

lemma run_steps_append:
  "run_steps (fs @ gs) c = (case run_steps fs c of Done c' \<Rightarrow> run_steps gs c' | Fail e \<Rightarrow> Fail e | Escaped \<Rightarrow> Escaped)"
  by (induction fs arbitrary: c) (auto split: loaded.splits)

lemma run_steps_each: "run_steps fs c = Done c' \<Longrightarrow> f \<in> set fs \<Longrightarrow> \<exists>a b. f a = Done b"
  by (induction fs arbitrary: c) (auto split: loaded.splits)

lemma run_steps_last: "run_steps (fs @ [f]) c = Done c' \<Longrightarrow> \<exists>a. f a = Done c'"
  by (auto simp: run_steps_append split: loaded.splits)

lemma run_steps_no_escape: "\<forall>f \<in> set fs. \<forall>c. f c \<noteq> Escaped \<Longrightarrow> run_steps fs c \<noteq> Escaped"
  by (induction fs arbitrary: c) (auto split: loaded.splits)

lemma load_check_valid:
  assumes "load_config_string y t = Done c"
  shows "validate_config c = Ok"
proof -
  obtain kvs where "run_steps (load_steps y (YMap kvs)) default_engine_config = Done c"
    using assms by (auto simp: load_config_string_def split: option.splits YNode.splits)
  moreover have "load_steps y (YMap kvs) = butlast (load_steps y (YMap kvs)) @ [check_valid]" by (simp add: load_steps_def)
  ultimately obtain a where "check_valid a = Done c" using run_steps_last by metis
  then show ?thesis by (auto simp: check_valid_def is_err_def is_ok_def split: if_splits)
qed

section \<open>No unknown key gets through\<close>

definition known_only :: "yaml \<Rightarrow> YNode \<Rightarrow> string list \<Rightarrow> bool" where
  "known_only y n known =
     (case n of YMap kvs \<Rightarrow> list_all (\<lambda>e. case y_string y (fst e) of Some k \<Rightarrow> k \<in> set known | None \<Rightarrow> False) kvs | _ \<Rightarrow> True)"

lemma check_keys_Done: "check_keys y kvs known c = Done c' \<Longrightarrow> known_only y (YMap kvs) known \<and> c' = c"
  by (induction kvs) (auto simp: known_only_def split: option.splits if_splits)

lemma check_known_keys_Done: "check_known_keys y n known c = Done c' \<Longrightarrow> known_only y n known \<and> c' = c"
  by (cases n) (auto simp: check_known_keys_def known_only_def dest: check_keys_Done [unfolded known_only_def])

lemma run_steps_known: "run_steps (check_known_keys y n known # fs) c = Done c' \<Longrightarrow> known_only y n known"
  by (auto dest: check_known_keys_Done split: loaded.splits)

lemma parse_section_Done:
  "parse_section doc key parse get put a = Done b \<Longrightarrow> \<exists>n s s'. y_get doc key = Done n \<and> parse n s = Done s'"
  by (auto simp: parse_section_def split: loaded.splits)

lemma parse_known:
  "parse_exchange y n a = Done b \<Longrightarrow> known_only y n exchange_keys"
  "parse_strategy_fields y n d = Done e \<Longrightarrow> known_only y n strategy_keys"
  "parse_quote y n f = Done g \<Longrightarrow> known_only y n quote_keys"
  "parse_risk y n h = Done i \<Longrightarrow> known_only y n risk_keys"
  "parse_oms y n j = Done k \<Longrightarrow> known_only y n oms_keys"
  "parse_execution y n l = Done m \<Longrightarrow> known_only y n execution_keys"
  "parse_safety y n p = Done q \<Longrightarrow> known_only y n safety_keys"
  "parse_paper y n r = Done s \<Longrightarrow> known_only y n paper_keys"
  "parse_monitoring y n t = Done u \<Longrightarrow> known_only y n monitoring_keys"
  "parse_persistence y n v = Done w \<Longrightarrow> known_only y n persistence_keys"
  "parse_logging y n x = Done z \<Longrightarrow> known_only y n logging_keys"
  "parse_io y n aa = Done ab \<Longrightarrow> known_only y n io_keys"
  unfolding parse_exchange_def parse_strategy_fields_def parse_quote_def parse_risk_def parse_oms_def parse_execution_def
    parse_safety_def parse_paper_def parse_monitoring_def parse_persistence_def parse_logging_def parse_io_def
  by (erule run_steps_known)+

lemma parse_strategy_known: "parse_strategy y n d = Done e \<Longrightarrow> known_only y n strategy_keys"
  unfolding parse_strategy_def by (auto intro: parse_known(2) split: loaded.splits)

lemma parse_execution_env_known: "parse_execution_env y n d = Done e \<Longrightarrow> known_only y n [''mode'']"
  unfolding parse_execution_env_def by (auto dest: check_known_keys_Done split: loaded.splits)

text \<open>The sections of a document and the keys each may have.\<close>

definition section_keys :: "(string \<times> string list) list" where
  "section_keys = [(''exchange'', exchange_keys), (''strategy'', strategy_keys), (''quote'', quote_keys),
     (''risk'', risk_keys), (''oms'', oms_keys), (''execution'', execution_keys), (''safety'', safety_keys),
     (''execution_env'', [''mode'']), (''paper'', paper_keys), (''monitoring'', monitoring_keys),
     (''persistence'', persistence_keys), (''logging'', logging_keys), (''io'', io_keys)]"

definition no_unknown_keys :: "yaml \<Rightarrow> YNode \<Rightarrow> bool" where
  "no_unknown_keys y doc \<longleftrightarrow> known_only y doc root_keys
     \<and> list_all (\<lambda>(sec, keys). case y_get doc sec of Done n \<Rightarrow> known_only y n keys | _ \<Rightarrow> False) section_keys"

lemma section_holds:
  assumes "run_steps (load_steps y doc) c = Done c'" "parse_section doc sec p get put \<in> set (load_steps y doc)"
    "\<And>n a b. p n a = Done b \<Longrightarrow> P n"
  shows "case y_get doc sec of Done n \<Rightarrow> P n | _ \<Rightarrow> False"
proof -
  obtain a b where "parse_section doc sec p get put a = Done b" using run_steps_each [OF assms(1,2)] by blast
  then obtain n s s' where "y_get doc sec = Done n" "p n s = Done s'" using parse_section_Done by metis
  then show ?thesis using assms(3) by simp
qed

lemma load_steps_sections:
  "parse_section doc ''exchange'' (parse_exchange y) ecf_exchange (\<lambda>s c. c\<lparr>ecf_exchange := s\<rparr>) \<in> set (load_steps y doc)"
  "parse_section doc ''strategy'' (parse_strategy y) ecf_strategy (\<lambda>s c. c\<lparr>ecf_strategy := s\<rparr>) \<in> set (load_steps y doc)"
  "parse_section doc ''quote'' (parse_quote y) ecf_quote (\<lambda>s c. c\<lparr>ecf_quote := s\<rparr>) \<in> set (load_steps y doc)"
  "parse_section doc ''risk'' (parse_risk y) ecf_risk (\<lambda>s c. c\<lparr>ecf_risk := s\<rparr>) \<in> set (load_steps y doc)"
  "parse_section doc ''oms'' (parse_oms y) ecf_oms (\<lambda>s c. c\<lparr>ecf_oms := s\<rparr>) \<in> set (load_steps y doc)"
  "parse_section doc ''execution'' (parse_execution y) ecf_execution (\<lambda>s c. c\<lparr>ecf_execution := s\<rparr>) \<in> set (load_steps y doc)"
  "parse_section doc ''safety'' (parse_safety y) ecf_safety (\<lambda>s c. c\<lparr>ecf_safety := s\<rparr>) \<in> set (load_steps y doc)"
  "parse_section doc ''execution_env'' (parse_execution_env y) ecf_execution_env (\<lambda>s c. c\<lparr>ecf_execution_env := s\<rparr>) \<in> set (load_steps y doc)"
  "parse_section doc ''paper'' (parse_paper y) ecf_paper (\<lambda>s c. c\<lparr>ecf_paper := s\<rparr>) \<in> set (load_steps y doc)"
  "parse_section doc ''monitoring'' (parse_monitoring y) ecf_monitoring (\<lambda>s c. c\<lparr>ecf_monitoring := s\<rparr>) \<in> set (load_steps y doc)"
  "parse_section doc ''persistence'' (parse_persistence y) ecf_persistence (\<lambda>s c. c\<lparr>ecf_persistence := s\<rparr>) \<in> set (load_steps y doc)"
  "parse_section doc ''logging'' (parse_logging y) ecf_logging (\<lambda>s c. c\<lparr>ecf_logging := s\<rparr>) \<in> set (load_steps y doc)"
  "parse_section doc ''io'' (parse_io y) ecf_io (\<lambda>s c. c\<lparr>ecf_io := s\<rparr>) \<in> set (load_steps y doc)"
  by (simp_all add: load_steps_def)

lemma load_known:
  assumes "run_steps (load_steps y doc) c = Done c'"
  shows "no_unknown_keys y doc"
proof -
  note s = section_holds [OF assms]
  note each = s [OF load_steps_sections(1) parse_known(1)]
    s [OF load_steps_sections(2) parse_strategy_known]
    s [OF load_steps_sections(3) parse_known(3)]
    s [OF load_steps_sections(4) parse_known(4)]
    s [OF load_steps_sections(5) parse_known(5)]
    s [OF load_steps_sections(6) parse_known(6)]
    s [OF load_steps_sections(7) parse_known(7)]
    s [OF load_steps_sections(8) parse_execution_env_known]
    s [OF load_steps_sections(9) parse_known(8)]
    s [OF load_steps_sections(10) parse_known(9)]
    s [OF load_steps_sections(11) parse_known(10)]
    s [OF load_steps_sections(12) parse_known(11)]
    s [OF load_steps_sections(13) parse_known(12)]
  have "known_only y doc root_keys"
    using assms unfolding load_steps_def by (rule run_steps_known)
  then show ?thesis unfolding no_unknown_keys_def section_keys_def list.pred_inject prod.case by (intro conjI each) simp_all
qed

end
