(* ===== verification/ConfigProperties.thy ===== *)
theory ConfigProperties
  imports ConfigLoader
begin

text \<open>
  What a configuration that loads can be relied on for: its keys were all known, the components that read it accept it,
  no combination of file and command line reaches live execution, and which documents make the loader answer with a
  status rather than an exception. The last section shows documents the loader treats in ways its comments rule out.
\<close>

section \<open>Live execution is unreachable\<close>

text \<open>
  C19. The live gate opens for no configuration whatsoever: with or without the operator's flag, whatever the limits,
  credentials and symbols are, it answers Ok exactly when both the trading mode and the execution environment are
  paper, and then the environment that is built is the paper one.
\<close>

theorem live_execution_unreachable:
  "(validate_live_gates c confirmed = Ok \<longleftrightarrow> ecf_mode c = TmPaper \<and> ecf_execution_env c = EmPaper)
   \<and> (validate_live_gates c confirmed = Ok \<longleftrightarrow> effective_execution_mode c = EmPaper)"
  by (cases "ecf_mode c"; cases "ecf_execution_env c")
     (simp_all add: validate_live_gates_def validate_execution_available_def effective_execution_mode_def is_err_def is_ok_def)

section \<open>Unknown keys\<close>

text \<open>
  A configuration that loads came from a document in which every key, at the root and in each of its thirteen
  fixed sections, is one the loader knows: a misspelt key never yields a running configuration with a limit that was not
  applied.
\<close>

theorem loaded_keys_are_known:
  assumes "load_config_string y t = Done c" "y_load y t = Some doc"
  shows "no_unknown_keys y doc"
  using assms load_known [of y doc default_engine_config c]
  by (auto simp: load_config_string_def split: YNode.splits)

section \<open>Accepted by the components\<close>

lemmas validate_defs = is_err_def first_failure.simps

lemma validate_config_parts:
  assumes "validate_config c = Ok"
  shows "validate_oms (ecf_oms c) = Ok" "validate_paper (ecf_paper c) = Ok" "validate_symbols (ecf_symbols c) = Ok"
    "validate_strategy_quote (ecf_strategy c) (ecf_exchange c) (ecf_quote c) = Ok" "validate_risk (ecf_risk c) = Ok"
  using assms unfolding validate_config_def validate_defs by (simp_all split: if_splits)

text \<open>The settings the paper environment can hold: no negative fee, and fees and the book age within the integers it keeps them in.\<close>

definition paper_settings_fit :: "PaperConfig \<Rightarrow> bool" where
  "paper_settings_fit p \<longleftrightarrow> 0 \<le> py_maker_fee_bps p \<and> 0 \<le> py_taker_fee_bps p
     \<and> py_maker_fee_bps p < 2147483648 \<and> py_taker_fee_bps p < 2147483648 \<and> py_max_book_age_ms p \<le> 9223372036854"

lemma valid_paper_accepted:
  assumes "validate_paper p = Ok" "0 \<le> py_maker_fee_bps p" "0 \<le> py_taker_fee_bps p"
  shows "\<exists>pc. paper_config_from p = Inr pc \<and> 0 < pc_max_orders pc \<and> pc_queue_share_bps pc \<le> 10000
    \<and> pc_max_book_age_ns pc = millis (py_max_book_age_ms p)
    \<and> pc_maker_fee_bps pc = int32_cast (py_maker_fee_bps p) \<and> pc_taker_fee_bps pc = int32_cast (py_taker_fee_bps p)"
  using assms unfolding validate_paper_def validate_defs
  by (auto simp: paper_config_from_def parse_fill_model_def parse_post_only_policy_def parse_replace_mode_def
      default_paper_config_def split: if_splits)

lemma valid_paper_settings:
  assumes "validate_paper p = Ok" "paper_settings_fit p"
  shows "0 < millis (py_max_book_age_ms p) \<and> 0 \<le> int32_cast (py_maker_fee_bps p) \<and> 0 \<le> int32_cast (py_taker_fee_bps p)"
proof -
  have "0 < py_max_book_age_ms p" using assms(1) unfolding validate_paper_def validate_defs by (simp split: if_splits)
  moreover from this assms(2) have "in64 (py_max_book_age_ms p * 1000000)" by (simp add: paper_settings_fit_def in64_def)
  ultimately show ?thesis using assms(2) by (simp add: millis_def int32_cast_def paper_settings_fit_def)
qed

lemma valid_symbols:
  assumes "validate_symbols ss = Ok"
  shows "ss \<noteq> []" "distinct (map syc_symbol ss)"
    "list_all (\<lambda>s. syc_symbol s \<noteq> [] \<and> inline_assign kSymbolCapacity (syc_symbol s) = (syc_symbol s, True)) ss"
  using assms unfolding validate_symbols_def validate_defs
  by (auto simp: list_all_iff list_ex_iff inline_assign_def Let_def split: if_splits)

lemma valid_mode: "validate_strategy_quote s x q = Ok \<Longrightarrow> parse_evaluation_mode (stc_evaluation_mode s) \<noteq> None"
  unfolding validate_strategy_quote_def validate_defs
  by (auto simp: parse_evaluation_mode_def split: if_splits)

lemma encode_short: "v < 36 ^ 6 \<Longrightarrow> length (encode_base36 v) \<le> 6"
proof -
  assume "v < 36 ^ 6"
  then have "int v < 36 ^ 6" by (metis of_nat_less_iff of_nat_numeral of_nat_power)
  then have "length (emit_digits 16 (int v)) \<le> 6" by (intro emit_length) simp_all
  then show ?thesis by (simp add: encode_base36_def)
qed

lemma valid_oms_ids:
  assumes "validate_oms o' = Ok" "omy_session_id o' < 36 ^ 6" "n + 1 < 36 ^ 6"
  shows "\<exists>out. snd (next_id (generator_restore
           (new_generator (omy_client_id_prefix o') (omy_session_id o') (omy_max_client_id_length o')) n)) = Some out"
proof -
  define g where "g = generator_restore (new_generator (omy_client_id_prefix o') (omy_session_id o') (omy_max_client_id_length o')) n"
  have f: "length (ig_prefix g) \<le> length (omy_client_id_prefix o')" "length (ig_prefix g) \<le> 16"
    "ig_session_id g = omy_session_id o'" "ig_sequence g = n" "ig_max_length g = omy_max_client_id_length o'"
    by (simp_all add: g_def generator_restore_def new_generator_def inline_assign_def Let_def)
  have p: "length (omy_client_id_prefix o') + 14 \<le> omy_max_client_id_length o'"
    using assms(1) unfolding validate_oms_def validate_defs by (auto split: if_splits)
  have i: "inc64 n < 36 ^ 6" using assms(3) by (simp add: inc64_less)
  note e = encode_short [OF assms(2)] encode_short [OF i]
  have "length (ig_prefix g) + 1 + length (encode_base36 (ig_session_id g)) + 1
      + length (encode_base36 (inc64 (ig_sequence g))) \<le> min (ig_max_length g) kClientIdCapacity"
    unfolding f(3-5) kClientIdCapacity_def using f(1,2) p e by linarith
  then show ?thesis unfolding g_def [symmetric] by (rule next_id_succeeds)
qed

text \<open>
  C30. A configuration that loads is accepted by the components that read it: its evaluation mode is one the strategy
  runtime parses; its symbols are non-empty, distinct and stored untruncated; the paper environment accepts its section
  when the fees are not negative, with room for at least one order and a queue share of at most a hundred per cent, and when
  moreover the fees are below \<open>2 ^ 31\<close> and the book age is at most 9223372036854 ms, so that neither leaves the integers
  they are kept in, with a positive book age in nanoseconds and no negative fee; and order ids fit the configured
  length as long as session and sequence number stay below \<open>36 ^ 6\<close>.
\<close>

theorem loaded_config_accepted:
  assumes "load_config_string y t = Done c"
  shows "parse_evaluation_mode (stc_evaluation_mode (ecf_strategy c)) \<noteq> None
    \<and> ecf_symbols c \<noteq> [] \<and> distinct (map syc_symbol (ecf_symbols c))
    \<and> list_all (\<lambda>s. syc_symbol s \<noteq> [] \<and> inline_assign kSymbolCapacity (syc_symbol s) = (syc_symbol s, True)) (ecf_symbols c)
    \<and> (0 \<le> py_maker_fee_bps (ecf_paper c) \<and> 0 \<le> py_taker_fee_bps (ecf_paper c)
        \<longrightarrow> (\<exists>pc. paper_config_from (ecf_paper c) = Inr pc \<and> 0 < pc_max_orders pc \<and> pc_queue_share_bps pc \<le> 10000
              \<and> (py_maker_fee_bps (ecf_paper c) < 2147483648 \<and> py_taker_fee_bps (ecf_paper c) < 2147483648
                  \<and> py_max_book_age_ms (ecf_paper c) \<le> 9223372036854
                  \<longrightarrow> 0 < pc_max_book_age_ns pc \<and> 0 \<le> pc_maker_fee_bps pc \<and> 0 \<le> pc_taker_fee_bps pc)))
    \<and> (omy_session_id (ecf_oms c) < 36 ^ 6 \<and> n + 1 < 36 ^ 6
        \<longrightarrow> (\<exists>out. snd (next_id (generator_restore (new_generator (omy_client_id_prefix (ecf_oms c))
                (omy_session_id (ecf_oms c)) (omy_max_client_id_length (ecf_oms c))) n)) = Some out))"
proof -
  note v = validate_config_parts [OF load_check_valid [OF assms]]
  have "\<exists>pc. paper_config_from (ecf_paper c) = Inr pc \<and> 0 < pc_max_orders pc \<and> pc_queue_share_bps pc \<le> 10000
      \<and> (py_maker_fee_bps (ecf_paper c) < 2147483648 \<and> py_taker_fee_bps (ecf_paper c) < 2147483648
          \<and> py_max_book_age_ms (ecf_paper c) \<le> 9223372036854
          \<longrightarrow> 0 < pc_max_book_age_ns pc \<and> 0 \<le> pc_maker_fee_bps pc \<and> 0 \<le> pc_taker_fee_bps pc)"
    if "0 \<le> py_maker_fee_bps (ecf_paper c)" "0 \<le> py_taker_fee_bps (ecf_paper c)"
    using valid_paper_accepted [OF v(2) that] valid_paper_settings [OF v(2)] that by (fastforce simp: paper_settings_fit_def)
  then show ?thesis
    using valid_mode [OF v(4)] valid_symbols [OF v(3)] valid_oms_ids [OF v(1)] by blast
qed

section \<open>Failures are statuses\<close>

fun keys_scalar :: "YNode \<Rightarrow> bool"
and entries_scalar :: "(YNode \<times> YNode) list \<Rightarrow> bool"
and items_scalar :: "YNode list \<Rightarrow> bool" where
  "keys_scalar (YMap kvs) = entries_scalar kvs"
| "keys_scalar (YSeq ns) = items_scalar ns"
| "keys_scalar n = True"
| "entries_scalar [] = True"
| "entries_scalar ((k, n) # es) = ((case k of YScalar s \<Rightarrow> True | _ \<Rightarrow> False) \<and> keys_scalar n \<and> entries_scalar es)"
| "items_scalar [] = True"
| "items_scalar (n # ns) = (keys_scalar n \<and> items_scalar ns)"

definition reads_scalars :: "yaml \<Rightarrow> bool" where
  "reads_scalars y \<longleftrightarrow> (\<forall>s. y_string y (YScalar s) \<noteq> None)"

definition is_scalar :: "YNode \<Rightarrow> bool" where
  "is_scalar n \<longleftrightarrow> (\<exists>s. n = YScalar s)"

lemma check_keys_no_escape: "reads_scalars y \<Longrightarrow> entries_scalar kvs \<Longrightarrow> check_keys y kvs known c \<noteq> Escaped"
  by (induction kvs) (auto simp: reads_scalars_def split: option.splits YNode.splits)

lemma check_known_no_escape: "reads_scalars y \<Longrightarrow> keys_scalar n \<Longrightarrow> check_known_keys y n known c \<noteq> Escaped"
  by (cases n) (simp_all add: check_known_keys_def check_keys_no_escape)

lemma read_scalar_no_escape: "read_scalar conv n key upd c \<noteq> Escaped"
  by (simp add: read_scalar_def split: YNode.splits option.splits)

lemma read_fixed_no_escape: "read_fixed y n key upd c \<noteq> Escaped"
  by (simp add: read_fixed_def read_scalar_no_escape)

lemma flatten_no_escape:
  "reads_scalars y \<Longrightarrow> keys_scalar n \<Longrightarrow> flatten_params y n prefix out \<noteq> Escaped"
  "reads_scalars y \<Longrightarrow> entries_scalar es \<Longrightarrow> flatten_entries y es prefix out \<noteq> Escaped"
  "reads_scalars y \<Longrightarrow> items_scalar ns \<Longrightarrow> flatten_items y ns i prefix out \<noteq> Escaped"
  by (induction y n prefix out and y es prefix out and y ns i prefix out
      rule: flatten_params_flatten_entries_flatten_items.induct)
     (auto simp: reads_scalars_def split: option.splits loaded.splits YNode.splits if_splits)

lemmas no_escape = check_known_no_escape read_scalar_no_escape read_fixed_no_escape

lemma entries_find: "entries_scalar kvs \<Longrightarrow> find P kvs = Some e \<Longrightarrow> keys_scalar (snd e)"
  by (induction kvs) (auto split: if_splits)

lemma y_get_scalar_keys:
  assumes "keys_scalar n" "\<not> is_scalar n"
  shows "\<exists>m. y_get n key = Done m \<and> keys_scalar m"
  using assms by (cases n) (auto simp: is_scalar_def dest: entries_find split: option.splits)

lemma parse_sections_no_escape:
  assumes "reads_scalars y" "keys_scalar n"
  shows "parse_exchange y n a \<noteq> Escaped" "parse_symbol_entry y n b \<noteq> Escaped" "parse_strategy_fields y n d \<noteq> Escaped"
    "parse_quote y n e \<noteq> Escaped" "parse_symbol_risk_entry y n f \<noteq> Escaped" "parse_oms y n g \<noteq> Escaped"
    "parse_execution y n h \<noteq> Escaped" "parse_safety y n i \<noteq> Escaped" "parse_paper y n j \<noteq> Escaped"
    "parse_monitoring y n k \<noteq> Escaped" "parse_persistence y n l \<noteq> Escaped" "parse_logging y n m \<noteq> Escaped"
    "parse_io y n p \<noteq> Escaped"
  unfolding parse_exchange_def parse_symbol_entry_def parse_strategy_fields_def parse_quote_def parse_symbol_risk_entry_def
    parse_oms_def parse_execution_def parse_safety_def parse_paper_def parse_monitoring_def parse_persistence_def
    parse_logging_def parse_io_def
  by (rule run_steps_no_escape, simp add: no_escape assms)+

lemma parse_symbols_no_escape:
  assumes "reads_scalars y" "keys_scalar n"
  shows "parse_symbols y n out \<noteq> Escaped"
proof -
  have "items_scalar ns \<Longrightarrow> parse_symbol_items y ns out \<noteq> Escaped" for ns out
  proof (induction ns arbitrary: out)
    case (Cons item ns)
    have r: "y_string y (YScalar s) \<noteq> None" for s using assms(1) by (simp add: reads_scalars_def)
    show ?case
      using Cons parse_sections_no_escape(2) [OF assms(1), of item default_symbol_config]
      by (cases item) (auto simp: r split: option.splits loaded.splits)
  qed simp
  then show ?thesis using assms(2) by (cases n) (simp_all add: parse_symbols_def)
qed

lemma parse_strategy_no_escape:
  assumes "reads_scalars y" "keys_scalar n" "\<not> is_scalar n"
  shows "parse_strategy y n c \<noteq> Escaped"
proof -
  have "read_params y n c \<noteq> Escaped" for c
    using y_get_scalar_keys [OF assms(2,3), of "''params''"] flatten_no_escape(1) [OF assms(1)]
    by (auto simp: read_params_def split: loaded.splits)
  then show ?thesis
    unfolding parse_strategy_def
    by (intro run_steps_no_escape) (simp add: parse_sections_no_escape(3) [OF assms(1,2)])
qed

lemma parse_strategy_params_no_escape:
  assumes "reads_scalars y" "keys_scalar n"
  shows "parse_strategy_params y n out \<noteq> Escaped"
proof -
  have "entries_scalar es \<Longrightarrow> parse_strategy_blocks y es out \<noteq> Escaped" for es out
    using assms(1) flatten_no_escape(1) [OF assms(1)]
    by (induction es arbitrary: out) (auto simp: reads_scalars_def split: YNode.splits option.splits loaded.splits if_splits)
  then show ?thesis using assms(2) by (cases n) (simp_all add: parse_strategy_params_def)
qed

lemma parse_risk_no_escape:
  assumes "reads_scalars y" "keys_scalar n" "\<not> is_scalar n"
  shows "parse_risk y n c \<noteq> Escaped"
proof -
  have es: "entries_scalar es \<Longrightarrow> parse_symbol_risks y es out \<noteq> Escaped" for es out
    using assms(1) parse_sections_no_escape(5) [OF assms(1)]
    by (induction es arbitrary: out) (auto simp: reads_scalars_def split: YNode.splits option.splits loaded.splits if_splits)
  have "keys_scalar m \<Longrightarrow> parse_symbol_risk y m out \<noteq> Escaped" for m out
    using es by (cases m) (simp_all add: parse_symbol_risk_def)
  then have "read_symbol_risk y n c \<noteq> Escaped" for c
    using y_get_scalar_keys [OF assms(2,3), of "''symbols''"]
    by (auto simp: read_symbol_risk_def split: loaded.splits)
  then show ?thesis
    unfolding parse_risk_def by (intro run_steps_no_escape) (simp add: no_escape assms)
qed

lemma parse_section_no_escape:
  assumes "keys_scalar (YMap kvs)" "\<And>n s. keys_scalar n \<Longrightarrow> y_get (YMap kvs) key = Done n \<Longrightarrow> parse n s \<noteq> Escaped"
  shows "parse_section (YMap kvs) key parse get put c \<noteq> Escaped"
  using assms y_get_scalar_keys [of "YMap kvs" key]
  by (auto simp: parse_section_def is_scalar_def split: loaded.splits)

lemma read_mode_no_escape: "read_mode y doc c \<noteq> Escaped"
  using read_scalar_no_escape [of "y_string y" doc "''mode''" "\<lambda>v c. v" "''paper''"]
  by (auto simp: read_mode_def split: loaded.splits option.splits)

lemma parse_execution_env_no_escape:
  assumes "reads_scalars y" "keys_scalar n"
  shows "parse_execution_env y n c \<noteq> Escaped"
proof -
  have "run_steps [check_known_keys y n [''mode''], read_scalar (y_string y) n ''mode'' (\<lambda>v c. v)] ''paper'' \<noteq> Escaped"
    by (rule run_steps_no_escape) (simp add: no_escape assms)
  then show ?thesis by (auto simp: parse_execution_env_def split: loaded.splits option.splits)
qed

lemma load_no_escape:
  assumes "reads_scalars y" "y_load y t = Some doc" "keys_scalar doc"
    "case y_get doc ''strategy'' of Done n \<Rightarrow> \<not> is_scalar n | _ \<Rightarrow> True"
    "case y_get doc ''risk'' of Done n \<Rightarrow> \<not> is_scalar n | _ \<Rightarrow> True"
  shows "load_config_string y t \<noteq> Escaped"
proof (cases doc)
  case (YMap kvs)
  have k: "keys_scalar (YMap kvs)" using assms(3) YMap by simp
  note ps = parse_section_no_escape [OF k]
  note se = parse_sections_no_escape [OF assms(1)]
  have st: "\<not> is_scalar n" if "y_get (YMap kvs) ''strategy'' = Done n" for n using assms(4) that YMap by simp
  have ri: "\<not> is_scalar n" if "y_get (YMap kvs) ''risk'' = Done n" for n using assms(5) that YMap by simp
  have ck: "check_known_keys y (YMap kvs) root_keys c \<noteq> Escaped" for c :: EngineConfig
    by (rule check_known_no_escape [OF assms(1) k])
  have pst: "parse_section (YMap kvs) ''strategy'' (parse_strategy y) get put c \<noteq> Escaped" for get put c
    by (rule ps) (intro parse_strategy_no_escape assms(1) st; assumption)
  have pri: "parse_section (YMap kvs) ''risk'' (parse_risk y) get put c \<noteq> Escaped" for get put c
    by (rule ps) (intro parse_risk_no_escape assms(1) ri; assumption)
  have "run_steps (load_steps y (YMap kvs)) default_engine_config \<noteq> Escaped"
    unfolding load_steps_def
    by (rule run_steps_no_escape)
       (simp add: ps se ck pst pri parse_symbols_no_escape parse_strategy_params_no_escape parse_execution_env_no_escape
         read_mode_no_escape read_scalar_no_escape assms(1)
         merge_strategy_params_def check_valid_def split: option.splits)
  then show ?thesis using assms(2) YMap by (simp add: load_config_string_def)
qed (simp_all add: assms(2) load_config_string_def)

text \<open>
  What type the value of each key has, section by section. A value that is absent or null is left at its default; any
  other must convert.
\<close>

datatype ValueKind = KText | KInt64 | KInt32 | KUint64 | KUint32 | KBool | KDouble | KFixed

definition converts :: "yaml \<Rightarrow> ValueKind \<Rightarrow> YNode \<Rightarrow> bool" where
  "converts y kind n =
     (case kind of
        KText \<Rightarrow> y_string y n \<noteq> None | KInt64 \<Rightarrow> y_int64 y n \<noteq> None | KInt32 \<Rightarrow> y_int32 y n \<noteq> None
      | KUint64 \<Rightarrow> y_uint64 y n \<noteq> None | KUint32 \<Rightarrow> y_uint32 y n \<noteq> None | KBool \<Rightarrow> y_bool y n \<noteq> None
      | KDouble \<Rightarrow> y_double y n \<noteq> None
      | KFixed \<Rightarrow> (case y_string y n of None \<Rightarrow> False | Some txt \<Rightarrow> parse_fixed_raw txt \<noteq> None))"

definition value_ok :: "(YNode \<Rightarrow> bool) \<Rightarrow> YNode \<Rightarrow> string \<Rightarrow> bool" where
  "value_ok good n key =
     (case n of
        YMap kvs \<Rightarrow> (case find (key_is key) kvs of None \<Rightarrow> True | Some e \<Rightarrow> snd e = YUndef \<or> snd e = YNull \<or> good (snd e))
      | _ \<Rightarrow> True)"

type_synonym kinds = "(ValueKind \<times> string list) list"

definition values_ok :: "yaml \<Rightarrow> YNode \<Rightarrow> kinds \<Rightarrow> bool" where
  "values_ok y n kinds \<longleftrightarrow> list_all (\<lambda>(kind, keys). list_all (value_ok (converts y kind) n) keys) kinds"

definition section_kinds :: "(string \<times> kinds) list" where
  "section_kinds =
    [(''exchange'', [(KText, [''name'', ''rest_base_url'', ''ws_base_url'', ''credentials_env_prefix'']),
       (KInt64, [''recv_window_ms'', ''rest_timeout_ms'']), (KInt32, [''book_depth''])]),
     (''strategy'', [(KText, [''name'', ''evaluation_mode'']), (KBool, [''enabled'', ''quoting_enabled'']),
       (KInt64, [''budget_ns'', ''timer_interval_ms'']),
       (KInt32, [''version'', ''max_consecutive_budget_violations'', ''max_consecutive_invalid_outputs'', ''max_quote_distance_bps''])]),
     (''quote'', [(KInt64, [''max_intent_age_ms'', ''max_market_data_age_ms'', ''min_replace_interval_ms'',
         ''cooldown_after_cancel_ms'', ''assume_request_lost_after_ms'']),
       (KInt32, [''min_price_move_ticks'']), (KDouble, [''min_quantity_move_fraction'']), (KBool, [''replenish_partial_fills''])]),
     (''risk'', [(KBool, [''enabled'']), (KInt64, [''max_market_data_age_ms'', ''max_position_age_ms'']),
       (KInt32, [''max_new_orders_per_second'', ''max_cancels_per_second'', ''max_replaces_per_second'', ''max_actions_per_second'',
         ''burst_capacity'', ''max_active_orders_per_symbol'', ''max_active_orders_total'', ''max_quote_distance_bps'']),
       (KFixed, [''max_position'', ''max_notional'', ''max_portfolio_notional'', ''max_order_qty'', ''max_order_notional'',
         ''max_daily_loss'', ''max_session_loss'', ''emergency_loss''])]),
     (''oms'', [(KText, [''client_id_prefix'']), (KUint64, [''session_id'']),
       (KUint32, [''max_client_id_length'', ''new_request_timeout_ms'', ''cancel_request_timeout_ms'',
         ''replace_request_timeout_ms'', ''reconciliation_interval_ms'', ''max_orders'', ''journal_capacity'']),
       (KBool, [''journal_enabled''])]),
     (''execution'', [(KInt32, [''max_orders_per_second'', ''max_cancels_per_second'', ''max_replaces_per_second'',
         ''max_messages_per_second'']), (KInt64, [''ack_timeout_ms'', ''cancel_timeout_ms''])]),
     (''safety'', [(KInt64, [''max_market_data_age_ms'', ''max_processing_delay_ms'', ''max_clock_skew_ms'', ''reconcile_interval_ms'']),
       (KInt32, [''max_consecutive_rejects'']), (KBool, [''live_trading_enabled'', ''cancel_all_on_shutdown''])]),
     (''execution_env'', [(KText, [''mode''])]),
     (''paper'', [(KInt64, [''request_latency_us'', ''ack_latency_us'', ''cancel_latency_us'', ''replace_latency_us'',
         ''fill_latency_us'', ''query_latency_us'', ''max_book_age_ms'']),
       (KText, [''fill_model'', ''post_only_policy'', ''replace_mode'']), (KInt32, [''queue_share_bps'', ''max_orders'']),
       (KUint64, [''deterministic_seed'']), (KDouble, [''maker_fee_bps'', ''taker_fee_bps''])]),
     (''monitoring'', [(KText, [''http_host'']), (KInt32, [''http_port'']), (KInt64, [''snapshot_interval_ms'']), (KBool, [''enabled''])]),
     (''persistence'', [(KText, [''journal_dir'', ''state_file'']), (KInt64, [''journal_flush_interval_ms'']),
       (KBool, [''fsync_on_flush''])]),
     (''logging'', [(KText, [''level'', ''dir'']), (KInt64, [''max_file_bytes'']), (KInt32, [''max_files'']), (KBool, [''console''])]),
     (''io'', [(KInt32, [''md_threads'', ''exec_threads'', ''trading_cpu''])])]"

definition symbol_kinds :: kinds where
  "symbol_kinds = [(KText, [''symbol'']), (KBool, [''enabled'']), (KFixed, [''max_position'', ''max_notional'', ''quote_size''])]"

definition symbol_risk_kinds :: kinds where
  "symbol_risk_kinds = [(KFixed, [''max_position'', ''max_position_notional'', ''max_order_quantity'', ''max_order_notional'',
     ''max_working_exposure'', ''max_side_exposure'']), (KInt32, [''max_open_orders'', ''price_band_bps''])]"

text \<open>Every value of a document converts: those of the root, of the sections, of the symbols and of the limits per symbol.\<close>

definition values_convert :: "yaml \<Rightarrow> YNode \<Rightarrow> bool" where
  "values_convert y doc \<longleftrightarrow> values_ok y doc [(KText, [''mode'', ''session_name''])]
     \<and> list_all (\<lambda>(sec, kinds). case y_get doc sec of Done n \<Rightarrow> values_ok y n kinds | _ \<Rightarrow> False) section_kinds
     \<and> (case y_get doc ''symbols'' of Done (YSeq items) \<Rightarrow> list_all (\<lambda>n. values_ok y n symbol_kinds) items | _ \<Rightarrow> True)
     \<and> (case y_get doc ''risk'' of
          Done n \<Rightarrow> (case y_get n ''symbols'' of Done (YMap kvs) \<Rightarrow> list_all (\<lambda>e. values_ok y (snd e) symbol_risk_kinds) kvs | _ \<Rightarrow> True)
        | _ \<Rightarrow> True)"

lemma read_scalar_Done: "read_scalar conv n key upd a = Done b \<Longrightarrow> value_ok (\<lambda>m. conv m \<noteq> None) n key"
  by (auto simp: read_scalar_def value_ok_def split: YNode.splits option.splits if_splits)

lemma read_fixed_Done: "read_fixed y n key upd a = Done b \<Longrightarrow> value_ok (converts y KFixed) n key"
  unfolding read_fixed_def by (drule read_scalar_Done) (auto simp: value_ok_def converts_def split: YNode.splits option.splits)

text \<open>A run of steps that succeeds passed each reader.\<close>

lemma run_steps_scalarE:
  assumes "run_steps (read_scalar conv n key upd # fs) c = Done c'"
  obtains d where "value_ok (\<lambda>m. conv m \<noteq> None) n key" "run_steps fs d = Done c'"
  using assms by (auto dest: read_scalar_Done split: loaded.splits)

lemma run_steps_fixedE:
  assumes "run_steps (read_fixed y n key upd # fs) c = Done c'"
  obtains d where "value_ok (converts y KFixed) n key" "run_steps fs d = Done c'"
  using assms by (auto dest: read_fixed_Done split: loaded.splits)

lemma run_steps_keysE:
  assumes "run_steps (check_known_keys y n known # fs) c = Done c'"
  obtains d where "run_steps fs d = Done c'"
  using assms by (auto split: loaded.splits)

lemma run_steps_symbolsE:
  assumes "run_steps (read_symbol_risk y n # fs) c = Done c'"
  obtains d where "run_steps fs d = Done c'"
  using assms by (auto split: loaded.splits)

lemmas run_stepsE = run_steps_scalarE run_steps_fixedE run_steps_keysE run_steps_symbolsE

lemma converts_simps:
  "converts y KText = (\<lambda>n. y_string y n \<noteq> None)" "converts y KInt64 = (\<lambda>n. y_int64 y n \<noteq> None)"
  "converts y KInt32 = (\<lambda>n. y_int32 y n \<noteq> None)" "converts y KUint64 = (\<lambda>n. y_uint64 y n \<noteq> None)"
  "converts y KUint32 = (\<lambda>n. y_uint32 y n \<noteq> None)" "converts y KBool = (\<lambda>n. y_bool y n \<noteq> None)"
  "converts y KDouble = (\<lambda>n. y_double y n \<noteq> None)"
  by (simp_all add: converts_def fun_eq_iff)

definition kinds_of :: "string \<Rightarrow> kinds" where
  "kinds_of sec = the (map_of section_kinds sec)"

lemmas values_defs = values_ok_def kinds_of_def section_kinds_def converts_simps list.pred_inject

lemma parse_values:
  "parse_exchange y n a = Done b \<Longrightarrow> values_ok y n (kinds_of ''exchange'')"
  "parse_strategy_fields y n d = Done e \<Longrightarrow> values_ok y n (kinds_of ''strategy'')"
  "parse_quote y n f = Done g \<Longrightarrow> values_ok y n (kinds_of ''quote'')"
  "parse_risk y n h = Done i \<Longrightarrow> values_ok y n (kinds_of ''risk'')"
  "parse_oms y n j = Done k \<Longrightarrow> values_ok y n (kinds_of ''oms'')"
  "parse_execution y n l = Done m \<Longrightarrow> values_ok y n (kinds_of ''execution'')"
  "parse_safety y n p = Done q \<Longrightarrow> values_ok y n (kinds_of ''safety'')"
  "parse_paper y n r = Done s \<Longrightarrow> values_ok y n (kinds_of ''paper'')"
  "parse_monitoring y n t = Done u \<Longrightarrow> values_ok y n (kinds_of ''monitoring'')"
  "parse_persistence y n v = Done w \<Longrightarrow> values_ok y n (kinds_of ''persistence'')"
  "parse_logging y n x = Done z \<Longrightarrow> values_ok y n (kinds_of ''logging'')"
  "parse_io y n aa = Done ab \<Longrightarrow> values_ok y n (kinds_of ''io'')"
  "parse_symbol_entry y n ac = Done ad \<Longrightarrow> values_ok y n symbol_kinds"
  "parse_symbol_risk_entry y n ae = Done af \<Longrightarrow> values_ok y n symbol_risk_kinds"
  unfolding parse_exchange_def parse_strategy_fields_def parse_quote_def parse_risk_def parse_oms_def parse_execution_def
    parse_safety_def parse_paper_def parse_monitoring_def parse_persistence_def parse_logging_def parse_io_def
    parse_symbol_entry_def parse_symbol_risk_entry_def
  by (elim run_stepsE, simp add: values_defs symbol_kinds_def symbol_risk_kinds_def)+

lemma parse_strategy_values: "parse_strategy y n d = Done e \<Longrightarrow> values_ok y n (kinds_of ''strategy'')"
  unfolding parse_strategy_def by (auto intro: parse_values(2) split: loaded.splits)

lemma parse_execution_env_values: "parse_execution_env y n d = Done e \<Longrightarrow> values_ok y n (kinds_of ''execution_env'')"
proof -
  assume "parse_execution_env y n d = Done e"
  then obtain s where "run_steps [check_known_keys y n [''mode''], read_scalar (y_string y) n ''mode'' (\<lambda>v c. v)] ''paper'' = Done s"
    unfolding parse_execution_env_def by (auto split: loaded.splits)
  then show ?thesis by (elim run_stepsE) (simp add: values_defs)
qed

lemma not_map_values: "(\<And>kvs. n \<noteq> YMap kvs) \<Longrightarrow> values_ok y n kinds"
  by (cases n) (auto simp: values_ok_def value_ok_def list_all_iff)

lemma parse_symbol_items_values: "parse_symbol_items y ns out = Done out' \<Longrightarrow> list_all (\<lambda>n. values_ok y n symbol_kinds) ns"
proof (induction ns arbitrary: out)
  case (Cons n ns)
  have "values_ok y n symbol_kinds"
  proof (cases n)
    case (YMap kvs)
    with Cons.prems show ?thesis by (auto intro: parse_values(13) split: loaded.splits)
  qed (simp_all add: not_map_values)
  with Cons show ?case by (auto split: loaded.splits)
qed simp

lemma parse_symbols_values:
  "parse_symbols y n out = Done out' \<Longrightarrow> (case n of YSeq items \<Rightarrow> list_all (\<lambda>m. values_ok y m symbol_kinds) items | _ \<Rightarrow> True)"
  by (cases n) (auto simp: parse_symbols_def dest: parse_symbol_items_values)

lemma parse_symbol_risks_values:
  "parse_symbol_risks y kvs out = Done out' \<Longrightarrow> list_all (\<lambda>e. values_ok y (snd e) symbol_risk_kinds) kvs"
proof (induction kvs arbitrary: out)
  case (Cons e es)
  then show ?case by (auto dest: parse_values(14) split: loaded.splits option.splits if_splits)
qed simp

lemma parse_risk_symbols:
  assumes "parse_risk y n c = Done c'"
  shows "case y_get n ''symbols'' of Done (YMap kvs) \<Rightarrow> list_all (\<lambda>e. values_ok y (snd e) symbol_risk_kinds) kvs | _ \<Rightarrow> True"
proof -
  obtain a b where "read_symbol_risk y n a = Done b"
    using run_steps_each [OF assms [unfolded parse_risk_def], of "read_symbol_risk y n"] by auto
  then show ?thesis
    by (cases n) (auto simp: read_symbol_risk_def parse_symbol_risk_def is_defined_def dest: parse_symbol_risks_values
        split: loaded.splits YNode.splits option.splits)
qed

lemma load_steps_symbols:
  "parse_section doc ''symbols'' (parse_symbols y) ecf_symbols (\<lambda>s c. c\<lparr>ecf_symbols := s\<rparr>) \<in> set (load_steps y doc)"
  by (simp add: load_steps_def)

lemma load_steps_root:
  "read_mode y doc \<in> set (load_steps y doc)"
  "read_scalar (y_string y) doc ''session_name'' (\<lambda>v c. c\<lparr>ecf_session_name := v\<rparr>) \<in> set (load_steps y doc)"
  by (simp_all add: load_steps_def)

lemma read_mode_Done: "read_mode y doc a = Done b \<Longrightarrow> value_ok (converts y KText) doc ''mode''"
  unfolding converts_simps by (auto simp: read_mode_def dest: read_scalar_Done split: loaded.splits)

lemma load_values:
  assumes "run_steps (load_steps y doc) c = Done c'"
  shows "values_convert y doc"
proof -
  note s = section_holds [OF assms]
  note each = s [OF load_steps_sections(1) parse_values(1)] s [OF load_steps_sections(2) parse_strategy_values]
    s [OF load_steps_sections(3) parse_values(3)] s [OF load_steps_sections(4) parse_values(4)]
    s [OF load_steps_sections(5) parse_values(5)] s [OF load_steps_sections(6) parse_values(6)]
    s [OF load_steps_sections(7) parse_values(7)] s [OF load_steps_sections(8) parse_execution_env_values]
    s [OF load_steps_sections(9) parse_values(8)] s [OF load_steps_sections(10) parse_values(9)]
    s [OF load_steps_sections(11) parse_values(10)] s [OF load_steps_sections(12) parse_values(11)]
    s [OF load_steps_sections(13) parse_values(12)]
  have eq: "section_kinds = map (\<lambda>sec. (sec, kinds_of sec)) (map fst section_kinds)"
    by (simp add: kinds_of_def section_kinds_def)
  have names: "list_all (\<lambda>sec. case y_get doc sec of Done n \<Rightarrow> values_ok y n (kinds_of sec) | _ \<Rightarrow> False) (map fst section_kinds)"
    unfolding section_kinds_def list.map fst_conv list.pred_inject(2) by (intro conjI each list.pred_inject(1))
  have "list_all (\<lambda>(sec, kinds). case y_get doc sec of Done n \<Rightarrow> values_ok y n kinds | _ \<Rightarrow> False) section_kinds"
    by (subst eq) (use names in \<open>simp add: list.pred_map comp_def\<close>)
  moreover obtain a b where "read_mode y doc a = Done b" using run_steps_each [OF assms load_steps_root(1)] by blast
  then have "value_ok (converts y KText) doc ''mode''" by (rule read_mode_Done)
  moreover obtain a b :: EngineConfig where "read_scalar (y_string y) doc ''session_name'' (\<lambda>v c. c\<lparr>ecf_session_name := v\<rparr>) a = Done b"
    using run_steps_each [OF assms load_steps_root(2)] by blast
  then have "value_ok (converts y KText) doc ''session_name''" unfolding converts_simps by (rule read_scalar_Done)
  moreover have "case y_get doc ''symbols'' of
      Done n \<Rightarrow> (case n of YSeq items \<Rightarrow> list_all (\<lambda>m. values_ok y m symbol_kinds) items | _ \<Rightarrow> True) | _ \<Rightarrow> False"
    by (rule s [OF load_steps_symbols]) (rule parse_symbols_values)
  then have "case y_get doc ''symbols'' of Done (YSeq items) \<Rightarrow> list_all (\<lambda>n. values_ok y n symbol_kinds) items | _ \<Rightarrow> True"
    by (simp split: loaded.splits)
  moreover have "case y_get doc ''risk'' of
      Done n \<Rightarrow> (case y_get n ''symbols'' of Done (YMap kvs) \<Rightarrow> list_all (\<lambda>e. values_ok y (snd e) symbol_risk_kinds) kvs | _ \<Rightarrow> True)
    | _ \<Rightarrow> False"
    by (rule s [OF load_steps_sections(4)]) (rule parse_risk_symbols)
  then have "case y_get doc ''risk'' of
          Done n \<Rightarrow> (case y_get n ''symbols'' of Done (YMap kvs) \<Rightarrow> list_all (\<lambda>e. values_ok y (snd e) symbol_risk_kinds) kvs | _ \<Rightarrow> True)
        | _ \<Rightarrow> True" by (simp split: loaded.splits)
  ultimately show ?thesis unfolding values_convert_def by (intro conjI) (simp_all add: values_ok_def)
qed

text \<open>
  C31. When every mapping key of the document is a scalar (and the library reads scalars as text), and neither the
  strategy nor the risk section is a bare scalar, no exception leaves the loader. It returns a configuration only when
  every key of the root and of the fixed sections is known, every value that is given, in the sections, in the symbols
  and in the limits per symbol, converts to the type of its key, and the configuration passes the validation; a document
  with an unknown key or with a value that does not convert is answered with an error status, never with a default in
  its place. (A section that is not a mapping has no keys, so nothing of it is read.)
\<close>

theorem load_reports_statuses:
  assumes "reads_scalars y" "y_load y t = Some doc" "keys_scalar doc"
    "case y_get doc ''strategy'' of Done n \<Rightarrow> \<not> is_scalar n | _ \<Rightarrow> True"
    "case y_get doc ''risk'' of Done n \<Rightarrow> \<not> is_scalar n | _ \<Rightarrow> True"
  shows "load_config_string y t \<noteq> Escaped
    \<and> (\<not> values_convert y doc \<or> \<not> no_unknown_keys y doc \<longrightarrow> (\<exists>e. load_config_string y t = Fail e))
    \<and> (\<forall>c. load_config_string y t = Done c \<longrightarrow> validate_config c = Ok)"
proof -
  have esc: "load_config_string y t \<noteq> Escaped" by (rule load_no_escape [OF assms])
  have "values_convert y doc \<and> no_unknown_keys y doc" if "load_config_string y t = Done c" for c
    using that assms(2) load_values load_known by (auto simp: load_config_string_def split: YNode.splits)
  with esc load_check_valid show ?thesis by (cases "load_config_string y t") auto
qed

section \<open>Concrete documents\<close>

text \<open>A library that reads scalars the obvious way and has one document.\<close>

definition demo_yaml :: "YNode \<Rightarrow> yaml" where
  "demo_yaml doc =
     (let str = (\<lambda>n. case n of YScalar s \<Rightarrow> Some s | _ \<Rightarrow> None);
          num = (\<lambda>n. case n of YScalar s \<Rightarrow> from_chars_int s | _ \<Rightarrow> None)
      in \<lparr>y_load = \<lambda>_. Some doc, y_string = str, y_int64 = num, y_int32 = num, y_uint32 = \<lambda>n. map_option nat (num n),
          y_uint64 = \<lambda>n. map_option nat (num n),
          y_bool = \<lambda>n. case n of YScalar s \<Rightarrow> bool_text s | _ \<Rightarrow> None,
          y_double = \<lambda>n. map_option of_int (num n)\<rparr>)"

definition demo_doc :: "(YNode \<times> YNode) list \<Rightarrow> YNode" where
  "demo_doc extra = YMap ([(YScalar ''exchange'', YMap [(YScalar ''name'', YScalar ''paper'')]),
     (YScalar ''symbols'', YSeq [YScalar ''BTCUSDT'']),
     (YScalar ''strategy'', YMap [(YScalar ''name'', YScalar ''reference_mm_v1'')])] @ extra)"

definition demo_engine_config :: EngineConfig where
  "demo_engine_config = default_engine_config\<lparr>
     ecf_exchange := default_exchange_config\<lparr>xcf_name := ''paper''\<rparr>,
     ecf_symbols := [default_symbol_config\<lparr>syc_symbol := ''BTCUSDT''\<rparr>],
     ecf_strategy := default_strategy_config\<lparr>stc_name := ''reference_mm_v1''\<rparr>\<rparr>"

lemmas config_defaults = default_engine_config_def default_exchange_config_def default_symbol_config_def
  default_strategy_config_def default_quote_yaml_def default_risk_config_def default_oms_yaml_def
  default_execution_rate_def default_safety_def default_paper_yaml_def default_monitoring_def default_persistence_def
  default_logging_def default_io_def

lemmas validators = validate_config_def validate_oms_def validate_paper_def validate_symbols_def
  validate_strategy_quote_def validate_risk_def validate_symbol_risks_def validate_defs is_ok_def

text \<open>An absent section leaves its defaults alone.\<close>

lemma absent_sections:
  "parse_exchange y YUndef a = Done a" "parse_symbols y YUndef b = Done b" "parse_strategy y YUndef d = Done d"
  "parse_strategy_params y YUndef e = Done e" "parse_quote y YUndef f = Done f" "parse_risk y YUndef g = Done g"
  "parse_oms y YUndef h = Done h" "parse_execution y YUndef i = Done i" "parse_safety y YUndef j = Done j"
  "parse_paper y YUndef k = Done k" "parse_monitoring y YUndef l = Done l" "parse_persistence y YUndef m = Done m"
  "parse_logging y YUndef n = Done n" "parse_io y YUndef p = Done p" "parse_execution_env y YUndef q = Done EmPaper"
  by (simp_all add: parse_exchange_def parse_symbols_def parse_strategy_def parse_strategy_fields_def read_params_def
      parse_strategy_params_def parse_quote_def parse_risk_def read_symbol_risk_def parse_oms_def parse_execution_def
      parse_safety_def parse_paper_def parse_monitoring_def parse_persistence_def parse_logging_def parse_io_def
      parse_execution_env_def parse_execution_mode_def check_known_keys_def read_scalar_def read_fixed_def is_defined_def)

lemma demo_engine_config_valid: "validate_config demo_engine_config = Ok"
  by (simp add: demo_engine_config_def config_defaults validators kSymbolCapacity_def)

lemma demo_reads: "reads_scalars (demo_yaml doc)"
  by (simp add: reads_scalars_def demo_yaml_def Let_def)

lemma demo_yaml_simps [simp]: "y_string (demo_yaml doc) (YScalar s) = Some s" "y_load (demo_yaml doc) t = Some doc"
  by (simp_all add: demo_yaml_def Let_def)

lemma demo_sections:
  "parse_exchange (demo_yaml doc) (YMap [(YScalar ''name'', YScalar nm)]) a = Done (a\<lparr>xcf_name := nm\<rparr>)"
  "parse_strategy (demo_yaml doc) (YMap [(YScalar ''name'', YScalar nm)]) b = Done (b\<lparr>stc_name := nm\<rparr>)"
  "parse_symbols (demo_yaml doc) (YSeq [YScalar nm]) [] = Done [default_symbol_config\<lparr>syc_symbol := nm\<rparr>]"
  by (simp_all add: parse_exchange_def exchange_keys_def parse_strategy_def parse_strategy_fields_def strategy_keys_def
      parse_symbols_def read_params_def check_known_keys_def read_scalar_def key_is_def is_defined_def)

lemma demo_load: "load_config_string (demo_yaml (demo_doc [])) t = Done demo_engine_config"
proof -
  have ck: "check_known_keys (demo_yaml d) (demo_doc []) root_keys c = Done c" for d and c :: EngineConfig
    by (simp add: check_known_keys_def demo_doc_def root_keys_def)
  have g: "y_get (demo_doc []) k = Done (if k = ''exchange'' then YMap [(YScalar ''name'', YScalar ''paper'')]
      else if k = ''symbols'' then YSeq [YScalar ''BTCUSDT'']
      else if k = ''strategy'' then YMap [(YScalar ''name'', YScalar ''reference_mm_v1'')] else YUndef)" for k
    by (simp add: demo_doc_def key_is_def)
  have r: "read_scalar conv (demo_doc []) ''mode'' u a = Done a" "read_scalar conv' (demo_doc []) ''session_name'' u' b = Done b"
    for conv :: "YNode \<Rightarrow> 'a option" and conv' :: "YNode \<Rightarrow> 'b option" and u a u' b
    by (simp_all add: read_scalar_def demo_doc_def key_is_def)
  have "run_steps (load_steps (demo_yaml (demo_doc [])) (demo_doc [])) default_engine_config = check_valid demo_engine_config"
    by (simp add: load_steps_def ck parse_section_def g r read_mode_def parse_trading_mode_def demo_sections absent_sections
        merge_strategy_params_def default_engine_config_def demo_engine_config_def split: loaded.splits)
  then show ?thesis
    by (simp add: load_config_string_def demo_doc_def check_valid_def demo_engine_config_valid is_err_def is_ok_def)
qed

theorem loaded_keys_are_known_witness: "no_unknown_keys (demo_yaml (demo_doc [])) (demo_doc [])"
  by (rule loaded_keys_are_known [OF demo_load]) simp

theorem loaded_config_accepted_witness:
  "parse_evaluation_mode (stc_evaluation_mode (ecf_strategy demo_engine_config)) \<noteq> None
   \<and> (\<exists>pc. paper_config_from (ecf_paper demo_engine_config) = Inr pc \<and> 0 < pc_max_orders pc \<and> 0 < pc_max_book_age_ns pc)"
proof -
  have "0 \<le> py_maker_fee_bps (ecf_paper demo_engine_config)" "0 \<le> py_taker_fee_bps (ecf_paper demo_engine_config)"
    "py_maker_fee_bps (ecf_paper demo_engine_config) < 2147483648" "py_taker_fee_bps (ecf_paper demo_engine_config) < 2147483648"
    "py_max_book_age_ms (ecf_paper demo_engine_config) \<le> 9223372036854"
    by (simp_all add: demo_engine_config_def config_defaults)
  then show ?thesis using loaded_config_accepted [OF demo_load] by blast
qed

text \<open>A limit that is not a number: the document is refused.\<close>

definition bad_limit_doc :: YNode where
  "bad_limit_doc = demo_doc [(YScalar ''risk'', YMap [(YScalar ''max_position'', YScalar ''ten'')])]"

lemma bad_limit: "\<not> values_convert (demo_yaml bad_limit_doc) bad_limit_doc"
proof -
  have g: "y_get bad_limit_doc ''risk'' = Done (YMap [(YScalar ''max_position'', YScalar ''ten'')])"
    by (simp add: bad_limit_doc_def demo_doc_def key_is_def)
  have "parse_fixed_raw ''ten'' = None" by code_simp
  then have "\<not> values_ok (demo_yaml bad_limit_doc) (YMap [(YScalar ''max_position'', YScalar ''ten'')]) (kinds_of ''risk'')"
    by (simp add: values_defs value_ok_def key_is_def converts_def demo_yaml_def Let_def)
  with g show ?thesis by (auto simp: values_convert_def section_kinds_def kinds_of_def)
qed

theorem load_reports_statuses_witness:
  "load_config_string (demo_yaml (demo_doc [])) [] \<noteq> Escaped \<and> (\<exists>e. load_config_string (demo_yaml bad_limit_doc) [] = Fail e)"
proof -
  have ok: "reads_scalars (demo_yaml d)" "y_load (demo_yaml d) [] = Some d" for d by (simp_all add: demo_reads)
  have shape: "keys_scalar (demo_doc [])" "keys_scalar bad_limit_doc"
    "case y_get (demo_doc []) ''strategy'' of Done n \<Rightarrow> \<not> is_scalar n | _ \<Rightarrow> True"
    "case y_get (demo_doc []) ''risk'' of Done n \<Rightarrow> \<not> is_scalar n | _ \<Rightarrow> True"
    "case y_get bad_limit_doc ''strategy'' of Done n \<Rightarrow> \<not> is_scalar n | _ \<Rightarrow> True"
    "case y_get bad_limit_doc ''risk'' of Done n \<Rightarrow> \<not> is_scalar n | _ \<Rightarrow> True"
    by (simp_all add: demo_doc_def bad_limit_doc_def key_is_def is_scalar_def)
  show ?thesis using load_reports_statuses [OF ok shape(1,3,4)] load_reports_statuses [OF ok shape(2,5,6)] bad_limit by blast
qed

section \<open>What the loader lets through\<close>

text \<open>A section written as a sequence instead of a mapping is ignored, limits and all.\<close>

lemma sequence_section_ignored:
  "parse_risk y (YSeq ns) c = Done c" "parse_safety y (YSeq ns) d = Done d" "parse_oms y (YSeq ns) e = Done e"
  by (simp_all add: parse_risk_def parse_safety_def parse_oms_def read_symbol_risk_def parse_symbol_risk_def
      check_known_keys_def read_scalar_def read_fixed_def is_defined_def)

text \<open>A strategy or risk section that is a bare scalar ends in an exception of the YAML library.\<close>

lemma scalar_section_escapes: "parse_risk y (YScalar s) c = Escaped" "parse_strategy y (YScalar s) d = Escaped"
  by (simp_all add: parse_risk_def parse_strategy_def parse_strategy_fields_def read_symbol_risk_def read_params_def
      check_known_keys_def read_scalar_def is_defined_def)

text \<open>Negative fees pass validation although the paper environment refuses them.\<close>

lemma negative_fees_validated:
  "validate_paper (default_paper_yaml\<lparr>py_maker_fee_bps := - 1\<rparr>) = Ok
   \<and> paper_config_from (default_paper_yaml\<lparr>py_maker_fee_bps := - 1\<rparr>) = Inl InvalidArgument"
  by (simp add: default_paper_yaml_def validators paper_config_from_def parse_fill_model_def parse_post_only_policy_def
      parse_replace_mode_def)

text \<open>
  The book age is checked in milliseconds and kept in nanoseconds: from 9223372036855 ms on, a setting that validates
  comes out negative, and every book is too old to trade on.
\<close>

lemma book_age_wraps:
  "validate_paper (default_paper_yaml\<lparr>py_max_book_age_ms := 9223372036855\<rparr>) = Ok
   \<and> (\<exists>pc. paper_config_from (default_paper_yaml\<lparr>py_max_book_age_ms := 9223372036855\<rparr>) = Inr pc \<and> pc_max_book_age_ns pc < 0)"
  by (simp add: default_paper_yaml_def validators paper_config_from_def parse_fill_model_def parse_post_only_policy_def
      parse_replace_mode_def millis_def wrap64_def)

text \<open>The budget of fourteen characters does not cover every session id: the first id already fails.\<close>

definition tight_oms :: OmsConfigYaml where
  "tight_oms = default_oms_yaml\<lparr>omy_max_client_id_length := 16, omy_session_id := 18446744073709551615\<rparr>"

lemma emit_length_ge: "36 ^ k \<le> v \<Longrightarrow> k < room \<Longrightarrow> k < length (emit_digits room v)"
proof (induction room arbitrary: v k)
  case (Suc room)
  note ih = Suc.IH and pr = Suc.prems
  have v: "0 < v" using pr(1) by (rule less_le_trans [rotated]) simp
  show ?case
  proof (cases k)
    case (Suc j)
    have "36 ^ j * 36 div 36 \<le> v div 36" using pr(1) Suc by (intro zdiv_mono1) (simp_all add: mult.commute)
    then have "36 ^ j \<le> v div 36" by simp
    then show ?thesis using ih [of j "v div 36"] pr(2) Suc v by simp
  qed (use v in simp)
qed simp

lemma id_budget_too_small:
  "validate_oms tight_oms = Ok
   \<and> snd (next_id (new_generator (omy_client_id_prefix tight_oms) (omy_session_id tight_oms) (omy_max_client_id_length tight_oms))) = None"
proof
  show "validate_oms tight_oms = Ok" by (simp add: tight_oms_def default_oms_yaml_def validators)
  have "12 < length (emit_digits 16 18446744073709551615)" by (rule emit_length_ge) simp_all
  then have "12 < length (encode_base36 18446744073709551615)" by (simp add: encode_base36_def)
  then show "snd (next_id (new_generator (omy_client_id_prefix tight_oms) (omy_session_id tight_oms) (omy_max_client_id_length tight_oms))) = None"
    by (simp add: next_id_def new_generator_def tight_oms_def default_oms_yaml_def inline_assign_def Let_def)
qed

end
