(* ===== verification/BookSync.thy ===== *)
theory BookSync
  imports OrderBook
begin

text \<open>
  Snapshot and stream synchronisation, \<^verbatim>\<open>BookSynchronizer.hpp\<close> and \<^verbatim>\<open>BookSynchronizer.cpp\<close>. The record
  \<open>BookSync\<close> has the members of the class; the state callback is the list \<open>bs_announced\<close> of the transitions it
  was called with, oldest first. \<open>sync_handle\<close> dispatches one external event, and \<open>sync_reachable\<close> collects the
  states of every history of events at any clock readings.
\<close>

section \<open>Definitions\<close>

datatype SyncFailure =
    SfNone | SfSequenceGap | SfStaleSnapshot | SfBufferOverflow | SfCrossedBook | SfInvalidUpdate
  | SfDataStale | SfDisconnected | SfProtocolErrorBudget | SfSnapshotRetryBudget

record SyncConfig =
  sc_max_data_age_ns :: nanos
  sc_snapshot_retry_delay_ns :: nanos
  sc_max_snapshot_retries :: int
  sc_max_buffered_updates :: nat
  sc_max_protocol_errors :: int
  sc_max_depth :: nat

datatype SyncMetric =
    SnapshotsApplied | UpdatesApplied | UpdatesBuffered | UpdatesDiscardedStale
  | UpdatesDiscardedDuplicate | SequenceGaps | Resyncs | StaleTransitions | ProtocolErrors
  | SnapshotRequests | BufferOverflows

record BookSync =
  bs_symbol :: string
  bs_config :: SyncConfig
  bs_state :: SessionState
  bs_book :: OrderBook
  bs_buffer :: "BookUpdateEvent list"
  bs_last_data_ns :: nanos
  bs_has_data :: bool
  bs_last_snapshot_request_ns :: nanos
  bs_snapshot_requested :: bool
  bs_snapshot_attempts :: int
  bs_protocol_errors :: int
  bs_last_failure :: SyncFailure
  bs_diag :: "SyncMetric counters"
  bs_announced :: "(SessionState \<times> SessionState) list"

definition new_sync :: "string \<Rightarrow> SyncConfig \<Rightarrow> BookSync" where
  "new_sync symbol config = \<lparr>bs_symbol = symbol, bs_config = config, bs_state = Disconnected,
     bs_book = new_book symbol (sc_max_depth config), bs_buffer = [], bs_last_data_ns = 0, bs_has_data = False,
     bs_last_snapshot_request_ns = 0, bs_snapshot_requested = False, bs_snapshot_attempts = 0,
     bs_protocol_errors = 0, bs_last_failure = SfNone, bs_diag = zero_counters, bs_announced = []\<rparr>"

definition diag :: "BookSync \<Rightarrow> SyncMetric \<Rightarrow> BookSync" where
  "diag s c = s\<lparr>bs_diag := bump (bs_diag s) c\<rparr>"

definition bs_transition :: "BookSync \<Rightarrow> SessionState \<Rightarrow> BookSync" where
  "bs_transition s to_st =
     (let from_st = bs_state s
      in if from_st = to_st then s
         else if \<not> session_legal_transition from_st to_st
           then s\<lparr>bs_state := Error, bs_announced := bs_announced s @ [(from_st, Error)]\<rparr>
         else s\<lparr>bs_state := to_st, bs_announced := bs_announced s @ [(from_st, to_st)]\<rparr>)"

definition touch_data_clock :: "BookSync \<Rightarrow> nanos \<Rightarrow> BookSync" where
  "touch_data_clock s now = s\<lparr>bs_last_data_ns := now, bs_has_data := True\<rparr>"

definition data_age_ns :: "BookSync \<Rightarrow> nanos \<Rightarrow> nanos" where
  "data_age_ns s now = (if \<not> bs_has_data s then INT64_MAX else wrap64 (now - bs_last_data_ns s))"

definition on_connecting :: "BookSync \<Rightarrow> BookSync" where
  "on_connecting s = bs_transition s Connecting"

definition on_connected :: "BookSync \<Rightarrow> BookSync" where
  "on_connected s =
     (let s1 = (if bs_state s = Disconnected \<or> bs_state s = Backoff then bs_transition s Connecting else s)
      in bs_transition s1 Connected)"

definition on_subscribed :: "BookSync \<Rightarrow> BookSync" where
  "on_subscribed s = (bs_transition s Subscribed)
     \<lparr>bs_buffer := [], bs_snapshot_requested := False, bs_snapshot_attempts := 0\<rparr>"

definition on_disconnected :: "BookSync \<Rightarrow> BookSync" where
  "on_disconnected s =
     bs_transition (s\<lparr>bs_last_failure := SfDisconnected, bs_book := ob_clear (bs_book s), bs_buffer := [],
                      bs_has_data := False, bs_snapshot_requested := False\<rparr>) Disconnected"

definition on_backoff :: "BookSync \<Rightarrow> BookSync" where
  "on_backoff s = bs_transition s Backoff"

definition on_fatal :: "BookSync \<Rightarrow> BookSync" where
  "on_fatal s = bs_transition (s\<lparr>bs_book := ob_clear (bs_book s), bs_buffer := []\<rparr>) Error"

definition begin_resync :: "BookSync \<Rightarrow> SyncFailure \<Rightarrow> BookSync" where
  "begin_resync s failure =
     (let s1 = s\<lparr>bs_last_failure := failure, bs_book := ob_clear (bs_book s), bs_buffer := [],
                 bs_snapshot_requested := False, bs_snapshot_attempts := 0\<rparr>
      in if bs_state s1 = Subscribed then s1
         else bs_transition (diag s1 Resyncs) ResyncRequired)"

definition continues_from :: "BookUpdateEvent \<Rightarrow> seq \<Rightarrow> bool" where
  "continues_from u last_applied =
     (if bue_prev_final_update_id u \<noteq> kNoSeq then
        (let follows_last = (bue_prev_final_update_id u = last_applied);
             internally_consistent = (bue_first_update_id u = kNoSeq
               \<or> bue_first_update_id u = inc64 (bue_prev_final_update_id u))
         in follows_last \<and> internally_consistent)
      else bue_first_update_id u = inc64 last_applied)"

definition apply_update_to_book :: "BookSync \<Rightarrow> BookUpdateEvent \<Rightarrow> BookSync \<times> ErrorCode" where
  "apply_update_to_book s u =
     (let advance_to = (if bue_is_last u then bue_final_update_id u else kNoSeq);
          (b, st) = ob_apply_update (bs_book s) (bue_levels u) advance_to;
          s1 = s\<lparr>bs_book := b\<rparr>
      in if is_err st then (s1, st)
         else (if bue_is_last u then diag s1 UpdatesApplied else s1, Ok))"

text \<open>Step 1 of the reconciliation: what the snapshot already contains is discarded.\<close>

fun discard_stale :: "BookSync \<Rightarrow> seq \<Rightarrow> BookUpdateEvent list \<Rightarrow> BookSync" where
  "discard_stale s snapshot_id [] = s\<lparr>bs_buffer := []\<rparr>"
| "discard_stale s snapshot_id (u # us) =
     (if bue_final_update_id u \<le> snapshot_id then discard_stale (diag s UpdatesDiscardedStale) snapshot_id us
      else s\<lparr>bs_buffer := u # us\<rparr>)"

text \<open>Step 3: the buffer is applied in order, checking continuity from the second update on.\<close>

fun drain_buffer :: "BookSync \<Rightarrow> bool \<Rightarrow> BookUpdateEvent list \<Rightarrow> BookSync \<times> ErrorCode" where
  "drain_buffer s first_applied [] = (s\<lparr>bs_buffer := []\<rparr>, Ok)"
| "drain_buffer s first_applied (u # us) =
     (let s1 = s\<lparr>bs_buffer := us\<rparr>
      in if first_applied \<and> \<not> continues_from u (ob_last_update_id (bs_book s1))
         then (begin_resync (diag s1 SequenceGaps) SfSequenceGap, FailedPrecondition)
         else let (s2, st) = apply_update_to_book s1 u
              in if is_err st then (begin_resync s2 SfInvalidUpdate, st)
                 else drain_buffer s2 (first_applied \<or> bue_is_last u) us)"

definition spans_snapshot :: "BookUpdateEvent \<Rightarrow> seq \<Rightarrow> bool" where
  "spans_snapshot first snapshot_id \<longleftrightarrow>
     bue_first_update_id first \<le> inc64 snapshot_id \<and> inc64 snapshot_id \<le> bue_final_update_id first"

text \<open>From a published image to \<open>Ready\<close>: steps 1 to 4.\<close>

definition reconcile_stream :: "BookSync \<Rightarrow> seq \<Rightarrow> BookSync \<times> ErrorCode" where
  "reconcile_stream s snapshot_id =
     (let s1 = discard_stale s snapshot_id (bs_buffer s)
      in if bs_buffer s1 \<noteq> [] \<and> \<not> spans_snapshot (hd (bs_buffer s1)) snapshot_id
         then (begin_resync (diag s1 SequenceGaps) SfStaleSnapshot, FailedPrecondition)
         else let (s2, st) = drain_buffer s1 False (bs_buffer s1)
              in if is_err st then (s2, st)
                 else if check_invariants (bs_book s2) \<noteq> BvNone
                   then (begin_resync s2 SfCrossedBook, Internal)
                 else (bs_transition (s2\<lparr>bs_last_failure := SfNone, bs_snapshot_attempts := 0\<rparr>) Ready, Ok))"

definition on_snapshot :: "BookSync \<Rightarrow> nanos \<Rightarrow> BookSnapshotEvent \<Rightarrow> BookSync \<times> ErrorCode" where
  "on_snapshot s now snapshot =
     (if bse_symbol snapshot \<noteq> bs_symbol s then (s, InvalidArgument)
      else if bs_state s \<noteq> Subscribed \<and> bs_state s \<noteq> Syncing \<and> bs_state s \<noteq> ResyncRequired
        then (s, FailedPrecondition)
      else
        let s1 = touch_data_clock s now;
            s2 = (if bse_is_first snapshot then
                    (let s' = (if bs_state s1 \<noteq> Syncing then bs_transition s1 Syncing else s1)
                     in s'\<lparr>bs_book := begin_snapshot (bs_book s')\<rparr>)
                  else s1);
            (b, st) = add_snapshot_levels (bs_book s2) (bse_levels snapshot);
            s3 = s2\<lparr>bs_book := b\<rparr>
        in if is_err st then (s3, st)
           else if \<not> bse_is_last snapshot then (s3, Ok)
           else
             let (b', fin) = finish_snapshot (bs_book s3) (bse_last_update_id snapshot);
                 s4 = s3\<lparr>bs_book := b'\<rparr>
             in if is_err fin then (begin_resync s4 SfCrossedBook, fin)
                else reconcile_stream ((diag s4 SnapshotsApplied)\<lparr>bs_snapshot_requested := False\<rparr>)
                       (bse_last_update_id snapshot))"

definition on_protocol_error :: "BookSync \<Rightarrow> BookSync" where
  "on_protocol_error s =
     (let s1 = (diag s ProtocolErrors)\<lparr>bs_protocol_errors := wrap32 (bs_protocol_errors s + 1)\<rparr>
      in if bs_protocol_errors s1 \<ge> sc_max_protocol_errors (bs_config s1)
         then on_fatal (s1\<lparr>bs_last_failure := SfProtocolErrorBudget\<rparr>)
         else s1)"

definition buffer_update :: "BookSync \<Rightarrow> BookUpdateEvent \<Rightarrow> BookSync \<times> ErrorCode" where
  "buffer_update s u =
     (if length (bs_buffer s) \<ge> sc_max_buffered_updates (bs_config s)
      then (begin_resync (diag s BufferOverflows) SfBufferOverflow, Overflow)
      else ((diag s UpdatesBuffered)\<lparr>bs_buffer := bs_buffer s @ [u]\<rparr>, Ok))"

definition live_update :: "BookSync \<Rightarrow> BookUpdateEvent \<Rightarrow> BookSync \<times> ErrorCode" where
  "live_update s u =
     (let last_applied = ob_last_update_id (bs_book s)
      in if bue_final_update_id u \<noteq> kNoSeq \<and> bue_final_update_id u \<le> last_applied
         then (diag s UpdatesDiscardedDuplicate, Ok)
         else if \<not> continues_from u last_applied
         then (begin_resync (diag s SequenceGaps) SfSequenceGap, FailedPrecondition)
         else let (s1, st) = apply_update_to_book s u
              in if is_err st then (begin_resync s1 SfInvalidUpdate, st)
                 else (if bs_state s1 = Stale then bs_transition s1 Ready else s1, Ok))"

definition on_update :: "BookSync \<Rightarrow> nanos \<Rightarrow> BookUpdateEvent \<Rightarrow> BookSync \<times> ErrorCode" where
  "on_update s now u =
     (if bue_symbol u \<noteq> bs_symbol s then (s, InvalidArgument)
      else if \<not> counts_are_sane (bue_levels u) then (on_protocol_error s, OutOfRange)
      else if bue_final_update_id u \<noteq> kNoSeq \<and> bue_first_update_id u > bue_final_update_id u
        then (on_protocol_error s, InvalidArgument)
      else
        let s1 = touch_data_clock s now
        in if bs_state s1 = Subscribed \<or> bs_state s1 = Syncing then buffer_update s1 u
           else if bs_state s1 = Ready \<or> bs_state s1 = Stale then live_update s1 u
           else (s1, Ok))"

definition sync_on_timer :: "BookSync \<Rightarrow> nanos \<Rightarrow> BookSync" where
  "sync_on_timer s now =
     (if bs_state s = Ready then
        (if data_age_ns s now > sc_max_data_age_ns (bs_config s)
         then bs_transition ((diag s StaleTransitions)\<lparr>bs_last_failure := SfDataStale\<rparr>) Stale
         else s)
      else if bs_state s = Stale then
        (if data_age_ns s now > wrap64 (sc_max_data_age_ns (bs_config s) * 10)
         then begin_resync s SfDataStale else s)
      else s)"

definition wants_snapshot :: "BookSync \<Rightarrow> nanos \<Rightarrow> bool" where
  "wants_snapshot s now =
     (if bs_state s \<noteq> Subscribed \<and> bs_state s \<noteq> ResyncRequired then False
      else if bs_snapshot_requested s then False
      else if bs_snapshot_attempts s = 0 then True
      else wrap64 (now - bs_last_snapshot_request_ns s) \<ge> sc_snapshot_retry_delay_ns (bs_config s))"

definition note_snapshot_requested :: "BookSync \<Rightarrow> nanos \<Rightarrow> BookSync" where
  "note_snapshot_requested s now =
     (diag s SnapshotRequests)\<lparr>bs_snapshot_requested := True, bs_last_snapshot_request_ns := now,
        bs_snapshot_attempts := wrap32 (bs_snapshot_attempts s + 1)\<rparr>"

definition note_snapshot_failed :: "BookSync \<Rightarrow> BookSync" where
  "note_snapshot_failed s =
     (let s1 = s\<lparr>bs_snapshot_requested := False\<rparr>
      in if bs_snapshot_attempts s1 \<ge> sc_max_snapshot_retries (bs_config s1)
         then on_fatal (s1\<lparr>bs_last_failure := SfSnapshotRetryBudget\<rparr>)
         else s1)"

section \<open>Histories\<close>

datatype SyncEvent =
    SeConnecting | SeConnected | SeSubscribed | SeDisconnected | SeBackoff | SeFatal
  | SeSnapshot BookSnapshotEvent | SeUpdate BookUpdateEvent | SeProtocolError | SeTimer
  | SeSnapshotRequested | SeSnapshotFailed

definition sync_handle :: "BookSync \<Rightarrow> nanos \<Rightarrow> SyncEvent \<Rightarrow> BookSync" where
  "sync_handle s now ev =
     (case ev of
        SeConnecting \<Rightarrow> on_connecting s
      | SeConnected \<Rightarrow> on_connected s
      | SeSubscribed \<Rightarrow> on_subscribed s
      | SeDisconnected \<Rightarrow> on_disconnected s
      | SeBackoff \<Rightarrow> on_backoff s
      | SeFatal \<Rightarrow> on_fatal s
      | SeSnapshot e \<Rightarrow> fst (on_snapshot s now e)
      | SeUpdate e \<Rightarrow> fst (on_update s now e)
      | SeProtocolError \<Rightarrow> on_protocol_error s
      | SeTimer \<Rightarrow> sync_on_timer s now
      | SeSnapshotRequested \<Rightarrow> note_snapshot_requested s now
      | SeSnapshotFailed \<Rightarrow> note_snapshot_failed s)"

inductive sync_reachable :: "string \<Rightarrow> SyncConfig \<Rightarrow> BookSync \<Rightarrow> bool" for symbol config where
  sync_start: "sync_reachable symbol config (new_sync symbol config)"
| sync_step: "sync_reachable symbol config s \<Longrightarrow> sync_reachable symbol config (sync_handle s now ev)"

section \<open>The invariant\<close>

text \<open>
  The states a session may enter from each state. An attempt to leave Error for anything but Disconnected announces
  Error once more.
\<close>

fun session_next :: "SessionState \<Rightarrow> SessionState set" where
  "session_next Disconnected = {Connecting, Error}"
| "session_next Connecting = {Connected, Backoff, Disconnected, Error}"
| "session_next Connected = {Authenticated, Subscribed, Backoff, Disconnected, Error}"
| "session_next Authenticated = {Subscribed, Backoff, Disconnected, Error}"
| "session_next Subscribed = {Syncing, Backoff, Disconnected, Error}"
| "session_next Syncing = {Ready, ResyncRequired, Backoff, Disconnected, Error}"
| "session_next Ready = {Stale, ResyncRequired, Backoff, Disconnected, Error}"
| "session_next Stale = {Ready, ResyncRequired, Backoff, Disconnected, Error}"
| "session_next ResyncRequired = {Syncing, Backoff, Disconnected, Error}"
| "session_next Backoff = {Connecting, Disconnected, Error}"
| "session_next Error = {Disconnected, Error}"

lemma legal_session_next: "a \<noteq> b \<Longrightarrow> session_legal_transition a b \<longleftrightarrow> b \<in> session_next a"
  by (cases a; cases b) (simp_all add: session_legal_transition_def)

text \<open>A list of announced transitions that leads from one state to another, each from where the last one ended.\<close>

fun announced_run :: "SessionState \<Rightarrow> (SessionState \<times> SessionState) list \<Rightarrow> SessionState \<Rightarrow> bool" where
  "announced_run st [] st' \<longleftrightarrow> st' = st"
| "announced_run st (x # xs) st' \<longleftrightarrow> fst x = st \<and> snd x \<in> session_next st \<and> announced_run (snd x) xs st'"

lemma announced_run_snoc: "announced_run a xs b \<Longrightarrow> c \<in> session_next b \<Longrightarrow> announced_run a (xs @ [(b, c)]) c"
  by (induction xs arbitrary: a) auto

text \<open>What holds in every state, and what a synchronised state adds.\<close>

definition sync_core :: "string \<Rightarrow> SyncConfig \<Rightarrow> BookSync \<Rightarrow> bool" where
  [inv_defs]: "sync_core symbol config s \<longleftrightarrow> bs_symbol s = symbol \<and> bs_config s = config \<and> book_inv (bs_book s)
     \<and> length (bs_buffer s) \<le> sc_max_buffered_updates config
     \<and> announced_run Disconnected (bs_announced s) (bs_state s)"

definition synced_book :: "OrderBook \<Rightarrow> bool" where
  "synced_book b \<longleftrightarrow> ob_is_valid b \<and> uncrossed b"

definition sync_good :: "BookSync \<Rightarrow> bool" where
  [inv_defs]: "sync_good s \<longleftrightarrow> (bs_state s = Ready \<or> bs_state s = Stale \<longrightarrow> synced_book (bs_book s))"

definition sync_inv :: "string \<Rightarrow> SyncConfig \<Rightarrow> BookSync \<Rightarrow> bool" where
  [inv_defs]: "sync_inv symbol config s \<longleftrightarrow> sync_core symbol config s \<and> sync_good s"

lemma diag_simps [simp]:
  "bs_symbol (diag s c) = bs_symbol s" "bs_config (diag s c) = bs_config s" "bs_state (diag s c) = bs_state s"
  "bs_book (diag s c) = bs_book s" "bs_buffer (diag s c) = bs_buffer s" "bs_announced (diag s c) = bs_announced s"
  by (simp_all add: diag_def)

lemma touch_simps [simp]:
  "bs_symbol (touch_data_clock s now) = bs_symbol s" "bs_config (touch_data_clock s now) = bs_config s"
  "bs_state (touch_data_clock s now) = bs_state s" "bs_book (touch_data_clock s now) = bs_book s"
  "bs_buffer (touch_data_clock s now) = bs_buffer s" "bs_announced (touch_data_clock s now) = bs_announced s"
  by (simp_all add: touch_data_clock_def)

lemma sync_core_frame [simp]:
  "sync_core symbol config (diag s c) = sync_core symbol config s"
  "sync_core symbol config (touch_data_clock s now) = sync_core symbol config s"
  "sync_core symbol config (s\<lparr>bs_last_failure := f\<rparr>) = sync_core symbol config s"
  "sync_core symbol config (s\<lparr>bs_snapshot_requested := r\<rparr>) = sync_core symbol config s"
  "sync_core symbol config (s\<lparr>bs_snapshot_attempts := n\<rparr>) = sync_core symbol config s"
  "sync_core symbol config (s\<lparr>bs_protocol_errors := n\<rparr>) = sync_core symbol config s"
  "sync_core symbol config (s\<lparr>bs_last_snapshot_request_ns := m\<rparr>) = sync_core symbol config s"
  "sync_core symbol config (s\<lparr>bs_has_data := r\<rparr>) = sync_core symbol config s"
  "sync_good (diag s c) = sync_good s" "sync_good (touch_data_clock s now) = sync_good s"
  "sync_good (s\<lparr>bs_last_failure := f\<rparr>) = sync_good s" "sync_good (s\<lparr>bs_snapshot_requested := r\<rparr>) = sync_good s"
  "sync_good (s\<lparr>bs_snapshot_attempts := n\<rparr>) = sync_good s" "sync_good (s\<lparr>bs_protocol_errors := n\<rparr>) = sync_good s"
  "sync_good (s\<lparr>bs_last_snapshot_request_ns := m\<rparr>) = sync_good s" "sync_good (s\<lparr>bs_buffer := us\<rparr>) = sync_good s"
  by (simp_all add: sync_core_def sync_good_def)

lemma bs_transition_simps [simp]:
  "bs_symbol (bs_transition s t) = bs_symbol s" "bs_config (bs_transition s t) = bs_config s"
  "bs_book (bs_transition s t) = bs_book s" "bs_buffer (bs_transition s t) = bs_buffer s"
  "bs_state (bs_transition s t) = (if session_legal_transition (bs_state s) t then t else Error)"
  by (simp_all add: bs_transition_def Let_def session_legal_transition_def)

lemma bs_transition_core: "sync_core symbol config s \<Longrightarrow> sync_core symbol config (bs_transition s t)"
proof -
  have "Error \<in> session_next (bs_state s)" by (cases "bs_state s") simp_all
  then show "sync_core symbol config s \<Longrightarrow> ?thesis"
    by (auto simp: sync_core_def bs_transition_def Let_def legal_session_next intro: announced_run_snoc)
qed

lemma bs_transition_good:
  "sync_good s \<Longrightarrow> t \<noteq> Ready \<Longrightarrow> t \<noteq> Stale \<or> bs_state s = Ready \<Longrightarrow> sync_good (bs_transition s t)"
  by (auto simp: sync_good_def)

lemma ob_clear_inv [simp]: "book_inv (ob_clear b)" "uncrossed (ob_clear b)"
  by (simp_all add: book_inv_def ob_clear_def ladder_ok_def uncrossed_def)

lemma clear_core: "sync_core symbol config s \<Longrightarrow> sync_core symbol config (s\<lparr>bs_book := ob_clear (bs_book s), bs_buffer := []\<rparr>)"
  by (simp add: sync_core_def)

lemma begin_resync_inv:
  assumes "sync_core symbol config s"
  shows "sync_inv symbol config (begin_resync s f)"
proof -
  let ?s = "s\<lparr>bs_last_failure := f, bs_book := ob_clear (bs_book s), bs_buffer := [],
              bs_snapshot_requested := False, bs_snapshot_attempts := 0\<rparr>"
  have c: "sync_core symbol config ?s" using clear_core [OF assms] by (simp add: sync_core_def)
  show ?thesis
  proof (cases "bs_state s = Subscribed")
    case True
    with c show ?thesis by (simp add: begin_resync_def sync_inv_def sync_good_def)
  next
    case False
    with c show ?thesis
      by (simp add: begin_resync_def Let_def sync_inv_def sync_good_def bs_transition_core)
  qed
qed

lemma on_fatal_inv: "sync_core symbol config s \<Longrightarrow> sync_inv symbol config (on_fatal s)"
  using bs_transition_core [OF clear_core]
  by (simp add: on_fatal_def sync_inv_def sync_good_def session_legal_transition_def)

lemma on_protocol_error_inv:
  assumes "sync_inv symbol config s"
  shows "sync_inv symbol config (on_protocol_error s)"
proof -
  let ?s = "(diag s ProtocolErrors)\<lparr>bs_protocol_errors := wrap32 (bs_protocol_errors s + 1)\<rparr>"
  have c: "sync_core symbol config ?s" "sync_good ?s" using assms by (simp_all add: sync_inv_def)
  then have "sync_inv symbol config (on_fatal (?s\<lparr>bs_last_failure := SfProtocolErrorBudget\<rparr>))"
    by (intro on_fatal_inv) (simp only: sync_core_frame)
  with c show ?thesis by (simp only: on_protocol_error_def Let_def sync_inv_def split: if_split) simp
qed

lemma set_book_core:
  "sync_core symbol config s \<Longrightarrow> book_inv b \<Longrightarrow> sync_core symbol config (s\<lparr>bs_book := b\<rparr>)"
  by (simp add: sync_core_def)

lemma apply_update_to_book_inv:
  assumes "sync_core symbol config s"
  shows "sync_core symbol config (fst (apply_update_to_book s u))
    \<and> bs_state (fst (apply_update_to_book s u)) = bs_state s \<and> bs_buffer (fst (apply_update_to_book s u)) = bs_buffer s
    \<and> (is_ok (snd (apply_update_to_book s u)) \<longrightarrow>
        (\<not> ob_violated (bs_book s) \<longrightarrow> synced_book (bs_book (fst (apply_update_to_book s u))))
      \<and> ob_last_update_id (bs_book (fst (apply_update_to_book s u)))
        = (if bue_is_last u \<and> bue_final_update_id u \<noteq> kNoSeq then bue_final_update_id u else ob_last_update_id (bs_book s)))"
proof -
  let ?adv = "if bue_is_last u then bue_final_update_id u else kNoSeq"
  obtain b st where r: "ob_apply_update (bs_book s) (bue_levels u) ?adv = (b, st)" by (metis surj_pair)
  have "book_inv (bs_book s)" using assms by (simp add: sync_core_def)
  from ob_apply_update_inv [OF this, of "bue_levels u" ?adv] r
  have b: "book_inv b" "is_ok st \<longrightarrow> uncrossed b \<and> ob_snapshot_applied b \<and> ob_violated b = ob_violated (bs_book s)
    \<and> ob_last_update_id b = (if ?adv = kNoSeq then ob_last_update_id (bs_book s) else ?adv)" by auto
  have ok: "is_ok Ok" by simp
  show ?thesis using b ok set_book_core [OF assms b(1)]
    by (simp add: apply_update_to_book_def r Let_def synced_book_def ob_is_valid_def)
qed

lemma discard_stale_inv:
  assumes "sync_core symbol config s" and "length us \<le> length (bs_buffer s)"
  shows "sync_core symbol config (discard_stale s i us) \<and> bs_state (discard_stale s i us) = bs_state s
    \<and> bs_book (discard_stale s i us) = bs_book s \<and> length (bs_buffer (discard_stale s i us)) \<le> length us"
  using assms
proof (induction us arbitrary: s)
  case Nil
  then show ?case by (simp add: sync_core_def)
next
  case (Cons u us)
  show ?case
  proof (cases "bue_final_update_id u \<le> i")
    case True
    with Cons.IH [of "diag s UpdatesDiscardedStale"] Cons.prems show ?thesis by simp
  next
    case False
    with Cons.prems show ?thesis by (simp add: sync_core_def)
  qed
qed

lemma drain_buffer_inv:
  assumes "sync_core symbol config s" and "length us \<le> length (bs_buffer s)" and "\<not> ob_violated (bs_book s)"
  shows "if is_ok (snd (drain_buffer s fa us))
    then sync_core symbol config (fst (drain_buffer s fa us)) \<and> bs_state (fst (drain_buffer s fa us)) = bs_state s
       \<and> (us \<noteq> [] \<or> synced_book (bs_book s) \<longrightarrow> synced_book (bs_book (fst (drain_buffer s fa us))))
       \<and> bs_buffer (fst (drain_buffer s fa us)) = []
    else sync_inv symbol config (fst (drain_buffer s fa us))"
  using assms
proof (induction us arbitrary: s fa)
  case Nil
  then show ?case by (simp add: sync_core_def)
next
  case (Cons u us)
  let ?s = "s\<lparr>bs_buffer := us\<rparr>"
  have c: "sync_core symbol config ?s" using Cons.prems(1,2) by (simp add: sync_core_def)
  obtain s2 st where r: "apply_update_to_book ?s u = (s2, st)" by (metis surj_pair)
  note a = apply_update_to_book_inv [OF c, of u, unfolded r fst_conv snd_conv]
  consider (gap) "fa \<and> \<not> continues_from u (ob_last_update_id (bs_book ?s))"
    | (bad) "\<not> (fa \<and> \<not> continues_from u (ob_last_update_id (bs_book ?s)))" "\<not> is_ok st"
    | (fine) "\<not> (fa \<and> \<not> continues_from u (ob_last_update_id (bs_book ?s)))" "is_ok st" by blast
  then show ?case
  proof cases
    case gap
    then have "drain_buffer s fa (u # us) = (begin_resync (diag ?s SequenceGaps) SfSequenceGap, FailedPrecondition)" by simp
    then show ?thesis using begin_resync_inv [of symbol config "diag ?s SequenceGaps"] c by (simp add: is_ok_def)
  next
    case bad
    then have "drain_buffer s fa (u # us) = (begin_resync s2 SfInvalidUpdate, st)" using r by (auto simp: Let_def)
    then show ?thesis using begin_resync_inv a bad by simp
  next
    case fine
    then have eq: "drain_buffer s fa (u # us) = drain_buffer s2 (fa \<or> bue_is_last u) us" using r by (auto simp: Let_def)
    have s2: "synced_book (bs_book s2)" using a fine Cons.prems(3) by simp
    then have "\<not> ob_violated (bs_book s2)" by (simp add: synced_book_def ob_is_valid_def)
    with Cons.IH [of s2 "fa \<or> bue_is_last u"] a s2 show ?thesis unfolding eq by simp
  qed
qed

lemma reconcile_stream_inv:
  assumes "sync_core symbol config s" and "synced_book (bs_book s)"
  shows "sync_inv symbol config (fst (reconcile_stream s i))
    \<and> (is_ok (snd (reconcile_stream s i)) \<and> bs_state s = Syncing \<longrightarrow>
        bs_state (fst (reconcile_stream s i)) = Ready \<and> bs_buffer (fst (reconcile_stream s i)) = [])"
proof -
  define s1 where "s1 = discard_stale s i (bs_buffer s)"
  obtain s2 st where r: "drain_buffer s1 False (bs_buffer s1) = (s2, st)" by (metis surj_pair)
  note d = discard_stale_inv [OF assms(1) order_refl, of i, folded s1_def]
  have "\<not> ob_violated (bs_book s1)" using d assms(2) by (simp add: synced_book_def ob_is_valid_def)
  note dr = drain_buffer_inv [of symbol config s1 "bs_buffer s1" False, unfolded r fst_conv snd_conv, OF _ order_refl this]
  have e: "\<not> is_ok FailedPrecondition" "\<not> is_ok Internal" "is_ok Ok" by (simp_all add: is_ok_def)
  consider (gap) "bs_buffer s1 \<noteq> [] \<and> \<not> spans_snapshot (hd (bs_buffer s1)) i"
    | (bad) "\<not> (bs_buffer s1 \<noteq> [] \<and> \<not> spans_snapshot (hd (bs_buffer s1)) i)" "\<not> is_ok st"
    | (audit) "\<not> (bs_buffer s1 \<noteq> [] \<and> \<not> spans_snapshot (hd (bs_buffer s1)) i)" "is_ok st" "check_invariants (bs_book s2) \<noteq> BvNone"
    | (fine) "\<not> (bs_buffer s1 \<noteq> [] \<and> \<not> spans_snapshot (hd (bs_buffer s1)) i)" "is_ok st" "check_invariants (bs_book s2) = BvNone"
    by blast
  then show ?thesis
  proof cases
    case gap
    then have "reconcile_stream s i = (begin_resync (diag s1 SequenceGaps) SfStaleSnapshot, FailedPrecondition)"
      by (simp add: reconcile_stream_def s1_def Let_def)
    then show ?thesis using begin_resync_inv [of symbol config "diag s1 SequenceGaps"] d e by simp
  next
    case bad
    then have "reconcile_stream s i = (s2, st)" using r by (auto simp: reconcile_stream_def s1_def Let_def)
    then show ?thesis using dr d bad by simp
  next
    case audit
    then have "reconcile_stream s i = (begin_resync s2 SfCrossedBook, Internal)"
      using r by (auto simp: reconcile_stream_def s1_def Let_def)
    then show ?thesis using dr d audit e begin_resync_inv by simp
  next
    case fine
    let ?s = "s2\<lparr>bs_last_failure := SfNone, bs_snapshot_attempts := 0\<rparr>"
    from fine have eq: "reconcile_stream s i = (bs_transition ?s Ready, Ok)"
      using r by (auto simp: reconcile_stream_def s1_def Let_def)
    from dr d fine assms(2) have s2: "sync_core symbol config s2" "synced_book (bs_book s2)" "bs_state s2 = bs_state s"
      "bs_buffer s2 = []" by auto
    then have "sync_core symbol config (bs_transition ?s Ready)" by (intro bs_transition_core) simp
    with s2 show ?thesis unfolding eq by (simp add: sync_inv_def sync_good_def session_legal_transition_def)
  qed
qed

lemma buffer_update_inv:
  assumes "sync_inv symbol config s"
  shows "sync_inv symbol config (fst (buffer_update s u))"
proof (cases "length (bs_buffer s) \<ge> sc_max_buffered_updates (bs_config s)")
  case True
  with assms begin_resync_inv [of symbol config "diag s BufferOverflows"] show ?thesis
    by (simp add: buffer_update_def sync_inv_def)
next
  case False
  with assms show ?thesis by (simp add: buffer_update_def sync_inv_def sync_core_def sync_good_def)
qed

lemma live_update_inv:
  assumes "sync_inv symbol config s" and "bs_state s = Ready \<or> bs_state s = Stale"
  shows "sync_inv symbol config (fst (live_update s u))"
proof -
  obtain s1 st where r: "apply_update_to_book s u = (s1, st)" by (metis surj_pair)
  have c: "sync_core symbol config s" "synced_book (bs_book s)" "sync_good s"
    using assms by (auto simp: sync_inv_def sync_good_def)
  then have nv: "\<not> ob_violated (bs_book s)" by (simp add: synced_book_def ob_is_valid_def)
  note a = apply_update_to_book_inv [OF c(1), of u, unfolded r fst_conv snd_conv]
  have g: "sync_inv symbol config (begin_resync (diag s SequenceGaps) SfSequenceGap)"
    by (rule begin_resync_inv) (simp add: c)
  have b: "sync_inv symbol config (begin_resync s1 SfInvalidUpdate)"
    using a by (intro begin_resync_inv) simp
  have f: "sync_inv symbol config (if bs_state s1 = Stale then bs_transition s1 Ready else s1)" if "is_ok st"
    using a that nv assms(2) by (auto simp: sync_inv_def sync_good_def intro: bs_transition_core)
  show ?thesis using g b f assms(1) by (auto simp: live_update_def r Let_def sync_inv_def)
qed

lemma on_update_inv:
  assumes "sync_inv symbol config s"
  shows "sync_inv symbol config (fst (on_update s now u))"
proof -
  have t: "sync_inv symbol config (touch_data_clock s now)" using assms by (simp add: sync_inv_def)
  then show ?thesis
    using assms on_protocol_error_inv [OF assms] buffer_update_inv [OF t, of u] live_update_inv [OF t, of u]
    by (auto simp: on_update_def Let_def)
qed

lemma begin_snapshot_inv [simp]: "book_inv b \<Longrightarrow> book_inv (begin_snapshot b)"
  by (simp add: book_inv_def begin_snapshot_def staged_ok_def)

text \<open>The image under construction before a chunk is staged: a first chunk restarts it.\<close>

definition opened_for :: "BookSync \<Rightarrow> nanos \<Rightarrow> BookSnapshotEvent \<Rightarrow> BookSync" where
  "opened_for s now e =
     (let s1 = touch_data_clock s now
      in if bse_is_first e then
           (let s' = (if bs_state s1 \<noteq> Syncing then bs_transition s1 Syncing else s1)
            in s'\<lparr>bs_book := begin_snapshot (bs_book s')\<rparr>)
         else s1)"

lemma opened_for_inv:
  assumes "sync_core symbol config s" and "bs_state s = Subscribed \<or> bs_state s = Syncing \<or> bs_state s = ResyncRequired"
  shows "sync_core symbol config (opened_for s now e)
    \<and> (bs_state (opened_for s now e) = (if bse_is_first e then Syncing else bs_state s))"
proof -
  have t: "sync_core symbol config (touch_data_clock s now)" using assms by simp
  moreover have "sync_core symbol config (bs_transition (touch_data_clock s now) Syncing)" using t by (rule bs_transition_core)
  ultimately show ?thesis using assms(2)
    by (auto simp: opened_for_def Let_def session_legal_transition_def sync_core_def)
qed

lemma on_snapshot_cases:
  assumes "bse_symbol e = bs_symbol s" and "bs_state s = Subscribed \<or> bs_state s = Syncing \<or> bs_state s = ResyncRequired"
    and "add_snapshot_levels (bs_book (opened_for s now e)) (bse_levels e) = (b, st)"
    and "finish_snapshot b (bse_last_update_id e) = (b', fin)"
  shows "on_snapshot s now e =
     (let s3 = (opened_for s now e)\<lparr>bs_book := b\<rparr>; s4 = s3\<lparr>bs_book := b'\<rparr>
      in if is_err st then (s3, st) else if \<not> bse_is_last e then (s3, Ok)
         else if is_err fin then (begin_resync s4 SfCrossedBook, fin)
         else reconcile_stream ((diag s4 SnapshotsApplied)\<lparr>bs_snapshot_requested := False\<rparr>) (bse_last_update_id e))"
proof -
  have "(if bse_symbol e \<noteq> bs_symbol s then (s, InvalidArgument)
      else if bs_state s \<noteq> Subscribed \<and> bs_state s \<noteq> Syncing \<and> bs_state s \<noteq> ResyncRequired
        then (s, FailedPrecondition) else x) = x" for x using assms(1,2) by auto
  with assms(3,4) show ?thesis unfolding on_snapshot_def opened_for_def [symmetric] Let_def [of "touch_data_clock s now"]
    by (simp add: Let_def opened_for_def)
qed

lemma on_snapshot_inv:
  assumes "sync_inv symbol config s"
  shows "sync_inv symbol config (fst (on_snapshot s now e))
    \<and> (is_ok (snd (on_snapshot s now e)) \<and> bse_is_last e \<and> (bse_is_first e \<or> bs_state s = Syncing)
       \<longrightarrow> bs_state (fst (on_snapshot s now e)) = Ready \<and> bs_buffer (fst (on_snapshot s now e)) = [])"
proof (cases "bse_symbol e = bs_symbol s \<and> (bs_state s = Subscribed \<or> bs_state s = Syncing \<or> bs_state s = ResyncRequired)")
  case False
  then show ?thesis using assms by (auto simp: on_snapshot_def is_ok_def)
next
  case True
  define o1 where "o1 = opened_for s now e"
  obtain b st where r1: "add_snapshot_levels (bs_book o1) (bse_levels e) = (b, st)" by (metis surj_pair)
  obtain b' fin where r2: "finish_snapshot b (bse_last_update_id e) = (b', fin)" by (metis surj_pair)
  let ?s3 = "o1\<lparr>bs_book := b\<rparr>" let ?s4 = "?s3\<lparr>bs_book := b'\<rparr>"
  let ?s5 = "(diag ?s4 SnapshotsApplied)\<lparr>bs_snapshot_requested := False\<rparr>"
  have "sync_core symbol config s" using assms by (simp add: sync_inv_def)
  with True have o: "sync_core symbol config o1" "bs_state o1 = (if bse_is_first e then Syncing else bs_state s)"
    using opened_for_inv [of symbol config s now e] by (auto simp: o1_def)
  then have "book_inv (bs_book o1)" by (simp add: sync_core_def)
  from add_snapshot_levels_inv [OF this, of "bse_levels e"] r1 have b: "book_inv b" by simp
  from finish_snapshot_inv [OF this, of "bse_last_update_id e"] r2
  have b': "book_inv b'" "is_ok fin \<longrightarrow> synced_book b'" by (auto simp: synced_book_def)
  have c: "sync_core symbol config ?s3" "sync_core symbol config ?s4" "sync_core symbol config ?s5"
    using o(1) b b'(1) by (simp_all add: sync_core_def)
  have g: "sync_good ?s3" using True o(2) by (auto simp: sync_good_def)
  have rs: "sync_inv symbol config (begin_resync ?s4 SfCrossedBook)" by (rule begin_resync_inv [OF c(2)])
  have rc: "is_ok fin \<longrightarrow> sync_inv symbol config (fst (reconcile_stream ?s5 (bse_last_update_id e)))
    \<and> (is_ok (snd (reconcile_stream ?s5 (bse_last_update_id e))) \<and> bs_state o1 = Syncing \<longrightarrow>
        bs_state (fst (reconcile_stream ?s5 (bse_last_update_id e))) = Ready
        \<and> bs_buffer (fst (reconcile_stream ?s5 (bse_last_update_id e))) = [])"
    using reconcile_stream_inv [OF c(3)] b'(2) by simp
  from True r1 r2 have eq: "on_snapshot s now e =
      (if is_err st then (?s3, st) else if \<not> bse_is_last e then (?s3, Ok)
       else if is_err fin then (begin_resync ?s4 SfCrossedBook, fin)
       else reconcile_stream ?s5 (bse_last_update_id e))"
    using on_snapshot_cases [of e s now b st b' fin] by (simp add: o1_def Let_def)
  show ?thesis unfolding eq using c(1) g rs rc o(2) by (auto simp: sync_inv_def split: if_splits)
qed

lemma sync_on_timer_inv: "sync_inv symbol config s \<Longrightarrow> sync_inv symbol config (sync_on_timer s now)"
  using begin_resync_inv [of symbol config s SfDataStale]
    bs_transition_core [of symbol config "(diag s StaleTransitions)\<lparr>bs_last_failure := SfDataStale\<rparr>" Stale]
    bs_transition_good [of "(diag s StaleTransitions)\<lparr>bs_last_failure := SfDataStale\<rparr>" Stale]
  by (auto simp: sync_on_timer_def sync_inv_def)

lemma lifecycle_inv:
  assumes "sync_inv symbol config s"
  shows "sync_inv symbol config (on_connecting s)" "sync_inv symbol config (on_connected s)"
    "sync_inv symbol config (on_subscribed s)" "sync_inv symbol config (on_disconnected s)"
    "sync_inv symbol config (on_backoff s)"
proof -
  have c: "sync_core symbol config s" "sync_good s" using assms by (simp_all add: sync_inv_def)
  note t = bs_transition_core [OF c(1)]
  show "sync_inv symbol config (on_connecting s)" "sync_inv symbol config (on_backoff s)"
    using t c(2) by (simp_all add: on_connecting_def on_backoff_def sync_inv_def bs_transition_good)
  show "sync_inv symbol config (on_connected s)"
    using t c bs_transition_core [OF t] by (simp add: on_connected_def Let_def sync_inv_def bs_transition_good)
  have "sync_core symbol config ((bs_transition s Subscribed)\<lparr>bs_buffer := []\<rparr>)" using t [of Subscribed] by (simp add: sync_core_def)
  then show "sync_inv symbol config (on_subscribed s)" by (simp add: on_subscribed_def sync_inv_def bs_transition_good c(2) sync_core_def sync_good_def)
  have "sync_core symbol config (s\<lparr>bs_last_failure := SfDisconnected, bs_book := ob_clear (bs_book s), bs_buffer := [],
                      bs_has_data := False, bs_snapshot_requested := False\<rparr>)" using c(1) by (simp add: sync_core_def)
  from bs_transition_core [OF this] show "sync_inv symbol config (on_disconnected s)"
    by (simp add: on_disconnected_def sync_inv_def sync_good_def)
qed

lemma note_inv:
  assumes "sync_inv symbol config s"
  shows "sync_inv symbol config (note_snapshot_requested s now)" "sync_inv symbol config (note_snapshot_failed s)"
proof -
  have c: "sync_core symbol config s" "sync_good s" using assms by (simp_all add: sync_inv_def)
  then show "sync_inv symbol config (note_snapshot_requested s now)"
    by (simp add: note_snapshot_requested_def sync_inv_def sync_core_def sync_good_def)
  have "sync_core symbol config (s\<lparr>bs_snapshot_requested := False, bs_last_failure := SfSnapshotRetryBudget\<rparr>)" using c(1) by simp
  from on_fatal_inv [OF this] c show "sync_inv symbol config (note_snapshot_failed s)"
    by (simp add: note_snapshot_failed_def Let_def sync_inv_def)
qed

lemma sync_handle_inv:
  assumes "sync_inv symbol config s"
  shows "sync_inv symbol config (sync_handle s now ev)"
proof -
  have "sync_core symbol config s" using assms by (simp add: sync_inv_def)
  with lifecycle_inv [OF assms] note_inv [OF assms] on_snapshot_inv [OF assms] on_update_inv [OF assms]
    on_protocol_error_inv [OF assms] sync_on_timer_inv [OF assms] on_fatal_inv
  show ?thesis by (cases ev) (simp_all add: sync_handle_def)
qed

lemma new_sync_inv: "sync_inv symbol config (new_sync symbol config)"
  by (simp add: sync_inv_def sync_core_def sync_good_def new_sync_def new_book_def book_inv_def ladder_ok_def staged_ok_def run_start
      ob_reset_def ob_clear_def)

lemma sync_reachable_inv: "sync_reachable symbol config s \<Longrightarrow> sync_inv symbol config s"
  by (induction rule: sync_reachable.induct) (auto intro: new_sync_inv sync_handle_inv)

section \<open>A clean image\<close>

lemma stage_levels_clean:
  "staged_ok ls \<Longrightarrow> stage_levels st ls = (st @ ls, True)"
  by (induction ls arbitrary: st) (auto simp: staged_ok_def)

lemma distinct_no_duplicates: "distinct (map pl_price ls) \<Longrightarrow> \<not> has_duplicates ls"
  by (induction ls rule: has_duplicates.induct) auto

lemma distinct_sorts:
  "distinct (map pl_price ls) \<Longrightarrow> \<not> has_duplicates (sort_bids ls) \<and> \<not> has_duplicates (sort_asks ls)"
  by (auto intro!: distinct_no_duplicates simp: sort_bids_def sort_asks_def distinct_map)

text \<open>What a venue's well-formed single-message image satisfies.\<close>

definition clean_image :: "BookLevels \<Rightarrow> bool" where
  "clean_image l \<longleftrightarrow> counts_are_sane l
     \<and> (let bs = take (bl_bid_count l) (bl_bids l); as = take (bl_ask_count l) (bl_asks l)
        in staged_ok bs \<and> staged_ok as \<and> distinct (map pl_price bs) \<and> distinct (map pl_price as)
           \<and> (\<forall>b\<in>set bs. \<forall>a\<in>set as. pl_price b < pl_price a))"

lemma hd_take_sort:
  "take m (sort_bids ls) \<noteq> [] \<Longrightarrow> hd (take m (sort_bids ls)) \<in> set ls"
  "take m (sort_asks ls) \<noteq> [] \<Longrightarrow> hd (take m (sort_asks ls)) \<in> set ls"
  using hd_in_set [of "take m (sort_bids ls)"] set_take_subset [of m "sort_bids ls"]
    hd_in_set [of "take m (sort_asks ls)"] set_take_subset [of m "sort_asks ls"]
  by (auto simp: sort_bids_def sort_asks_def)

lemma finish_clean:
  assumes "ob_building_snapshot b" "distinct (map pl_price (ob_staging_bids b))" "distinct (map pl_price (ob_staging_asks b))"
    and "\<forall>p\<in>set (ob_staging_bids b). \<forall>a\<in>set (ob_staging_asks b). pl_price p < pl_price a"
  shows "is_ok (snd (finish_snapshot b u)) \<and> ob_bids (fst (finish_snapshot b u)) = take (ob_max_depth b) (sort_bids (ob_staging_bids b))
    \<and> ob_asks (fst (finish_snapshot b u)) = take (ob_max_depth b) (sort_asks (ob_staging_asks b))"
proof -
  let ?B = "take (ob_max_depth b) (sort_bids (ob_staging_bids b))" and ?A = "take (ob_max_depth b) (sort_asks (ob_staging_asks b))"
  have "?B \<noteq> [] \<Longrightarrow> ?A \<noteq> [] \<Longrightarrow> pl_price (hd ?B) < pl_price (hd ?A)"
    using assms(4) hd_take_sort by blast
  then have "\<not> (?B \<noteq> [] \<and> ?A \<noteq> [] \<and> pl_price (hd ?B) \<ge> pl_price (hd ?A))" by force
  with assms(1) distinct_sorts [OF assms(2)] distinct_sorts [OF assms(3)] show ?thesis
    by (simp only: finish_snapshot_def Let_def OrderBook.simps OrderBook.select_convs OrderBook.update_convs if_False if_True
        simp_thms fst_conv snd_conv) (simp add: is_ok_def)
qed

lemma reconcile_empty:
  assumes "bs_buffer s = []" "book_inv (bs_book s)" "synced_book (bs_book s)" "bs_state s = Syncing"
  shows "is_ok (snd (reconcile_stream s i)) \<and> bs_book (fst (reconcile_stream s i)) = bs_book s
    \<and> bs_state (fst (reconcile_stream s i)) = Ready"
proof -
  have "check_invariants (bs_book s) = BvNone"
    using assms(2,3) by (simp add: check_invariants_None_iff book_inv_def synced_book_def ob_is_valid_def)
  with assms(1,4) show ?thesis
    by (simp add: reconcile_stream_def Let_def is_ok_def session_legal_transition_def)
qed

lemma clean_image_recovers:
  assumes "sync_inv symbol config s" and "bs_buffer s = []" and "bse_symbol e = symbol"
    and "bs_state s = Subscribed \<or> bs_state s = Syncing \<or> bs_state s = ResyncRequired"
    and "bse_is_first e" "bse_is_last e" and "clean_image (bse_levels e)"
  shows "is_ok (snd (on_snapshot s now e)) \<and> bs_state (fst (on_snapshot s now e)) = Ready
    \<and> ob_bids (bs_book (fst (on_snapshot s now e))) = take (ob_max_depth (bs_book s))
        (sort_bids (take (bl_bid_count (bse_levels e)) (bl_bids (bse_levels e))))
    \<and> ob_asks (bs_book (fst (on_snapshot s now e))) = take (ob_max_depth (bs_book s))
        (sort_asks (take (bl_ask_count (bse_levels e)) (bl_asks (bse_levels e))))
    \<and> ob_last_update_id (bs_book (fst (on_snapshot s now e))) = bse_last_update_id e"
proof -
  define o1 where "o1 = opened_for s now e"
  define bs as where "bs = take (bl_bid_count (bse_levels e)) (bl_bids (bse_levels e))"
    and "as = take (bl_ask_count (bse_levels e)) (bl_asks (bse_levels e))"
  have core: "sync_core symbol config s" using assms(1) by (simp add: sync_inv_def)
  have o: "sync_core symbol config o1" "bs_state o1 = Syncing"
    using opened_for_inv [OF core assms(4), of now e] assms(5) by (simp_all add: o1_def)
  have p: "bs_buffer o1 = []" "bs_book o1 = begin_snapshot (bs_book s)"
    using assms(2,5) by (auto simp: o1_def opened_for_def Let_def)
  define b where "b = (bs_book o1)\<lparr>ob_staging_bids := bs, ob_staging_asks := as\<rparr>"
  have cl: "counts_are_sane (bse_levels e)" "staged_ok bs" "staged_ok as" "distinct (map pl_price bs)" "distinct (map pl_price as)"
    "\<forall>x\<in>set bs. \<forall>y\<in>set as. pl_price x < pl_price y"
    using assms(7) by (auto simp: clean_image_def Let_def bs_def as_def)
  have r1: "add_snapshot_levels (bs_book o1) (bse_levels e) = (b, Ok)"
    using cl(1-3) by (simp add: add_snapshot_levels_def p(2) begin_snapshot_def stage_levels_clean b_def bs_def as_def)
  obtain b' fin where r2: "finish_snapshot b (bse_last_update_id e) = (b', fin)" by (metis surj_pair)
  have "book_inv b" using add_snapshot_levels_inv [of "bs_book o1" "bse_levels e"] o(1) r1 by (simp add: sync_core_def)
  from finish_snapshot_inv [OF this, of "bse_last_update_id e"] r2 have i: "book_inv b'"
    "is_ok fin \<longrightarrow> synced_book b' \<and> ob_last_update_id b' = bse_last_update_id e" by (auto simp: synced_book_def)
  have f: "is_ok fin" "ob_bids b' = take (ob_max_depth (bs_book s)) (sort_bids bs)"
    "ob_asks b' = take (ob_max_depth (bs_book s)) (sort_asks as)"
    using finish_clean [of b "bse_last_update_id e"] cl(4-6) r2 by (simp_all add: b_def p(2) begin_snapshot_def)
  let ?s5 = "(diag (o1\<lparr>bs_book := b'\<rparr>) SnapshotsApplied)\<lparr>bs_snapshot_requested := False\<rparr>"
  have eq: "on_snapshot s now e = reconcile_stream ?s5 (bse_last_update_id e)"
    using on_snapshot_cases [of e s now b Ok b' fin] assms(3,4,6) core r1 r2 f(1) by (simp add: o1_def Let_def is_ok_def sync_core_def)
  have "is_ok (snd (reconcile_stream ?s5 (bse_last_update_id e))) \<and> bs_book (fst (reconcile_stream ?s5 (bse_last_update_id e))) = b'
    \<and> bs_state (fst (reconcile_stream ?s5 (bse_last_update_id e))) = Ready"
    using reconcile_empty [of ?s5 "bse_last_update_id e"] o p i f(1) by simp
  with i f show ?thesis unfolding eq bs_def [symmetric] as_def [symmetric] by simp
qed

section \<open>Properties\<close>

text \<open>
  C16. In every state the synchroniser can reach, whatever events arrive in whatever order, a session on which quoting
  is allowed has a valid book: an image was published, no violation is recorded, the full audit of the ladders passes,
  and a two-sided book gives a sane best bid and offer. The update buffer never exceeds its configured bound. The
  transitions announced to the callback tell the whole story: they begin at \<open>Disconnected\<close>, each starts in the state
  in which the previous one ended and goes to one of the states listed as next for it (Error may be announced again
  while in Error), and the last ends in the present state.
\<close>

theorem quotable_book_is_sound:
  assumes "sync_reachable symbol config s"
  shows "(is_quotable (bs_state s) \<longrightarrow> ob_is_valid (bs_book s) \<and> check_invariants (bs_book s) = BvNone
      \<and> (ob_bids (bs_book s) \<noteq> [] \<and> ob_asks (bs_book s) \<noteq> [] \<longrightarrow> is_sane (bbo (bs_book s))))
    \<and> length (bs_buffer s) \<le> sc_max_buffered_updates config
    \<and> announced_run Disconnected (bs_announced s) (bs_state s)"
proof -
  have "sync_inv symbol config s" by (rule sync_reachable_inv [OF assms])
  then show ?thesis
    by (auto simp: sync_inv_def sync_core_def sync_good_def is_quotable_def synced_book_def check_invariants_None_iff
        book_inv_def [of "bs_book s"] intro: bbo_sane [unfolded book_inv_def])
qed

definition demo_config :: SyncConfig where
  "demo_config = \<lparr>sc_max_data_age_ns = 5000, sc_snapshot_retry_delay_ns = 1000, sc_max_snapshot_retries = 5,
     sc_max_buffered_updates = 4, sc_max_protocol_errors = 3, sc_max_depth = 10\<rparr>"

definition demo_levels :: "PriceLevel list \<Rightarrow> PriceLevel list \<Rightarrow> BookLevels" where
  "demo_levels bs as = \<lparr>bl_bids = bs, bl_asks = as, bl_bid_count = length bs, bl_ask_count = length as\<rparr>"

definition demo_image :: "bool \<Rightarrow> bool \<Rightarrow> BookLevels \<Rightarrow> BookSnapshotEvent" where
  "demo_image fst_chunk lst_chunk levels = \<lparr>bse_symbol = ''BTCUSDT'', bse_symbol_id = 0, bse_last_update_id = 10,
     bse_levels = levels, bse_is_first = fst_chunk, bse_is_last = lst_chunk\<rparr>"

definition demo_full :: BookSnapshotEvent where
  "demo_full = demo_image True True
     (demo_levels [\<lparr>pl_price = 100, pl_quantity = 5\<rparr>] [\<lparr>pl_price = 102, pl_quantity = 7\<rparr>])"

definition demo_update :: "seq \<Rightarrow> seq \<Rightarrow> BookUpdateEvent" where
  "demo_update first final = \<lparr>bue_symbol = ''BTCUSDT'', bue_symbol_id = 0, bue_first_update_id = first,
     bue_final_update_id = final, bue_prev_final_update_id = kNoSeq,
     bue_levels = demo_levels [\<lparr>pl_price = 101, pl_quantity = 3\<rparr>] [], bue_is_last = True\<rparr>"

definition demo_run :: "SyncEvent list \<Rightarrow> BookSync" where
  "demo_run evs = foldl (\<lambda>s ev. sync_handle s 1000 ev) (new_sync ''BTCUSDT'' demo_config) evs"

lemma demo_run_reachable: "sync_reachable ''BTCUSDT'' demo_config (demo_run evs)"
  by (induction evs rule: rev_induct) (auto simp: demo_run_def intro: sync_reachable.intros)

theorem quotable_book_is_sound_witness:
  "is_quotable (bs_state (demo_run [SeConnected, SeSubscribed, SeUpdate (demo_update 11 12), SeSnapshot demo_full]))
   \<and> ob_is_valid (bs_book (demo_run [SeConnected, SeSubscribed, SeUpdate (demo_update 11 12), SeSnapshot demo_full]))
   \<and> best_bid_price (bs_book (demo_run [SeConnected, SeSubscribed, SeUpdate (demo_update 11 12), SeSnapshot demo_full])) = 101"
proof -
  let ?s = "demo_run [SeConnected, SeSubscribed, SeUpdate (demo_update 11 12), SeSnapshot demo_full]"
  have q: "is_quotable (bs_state ?s)" "best_bid_price (bs_book ?s) = 101" by code_simp+
  with quotable_book_is_sound [OF demo_run_reachable, of "[SeConnected, SeSubscribed, SeUpdate (demo_update 11 12), SeSnapshot demo_full]"]
  show ?thesis by blast
qed

lemma begin_resync_effect:
  "bs_state s = Ready \<or> bs_state s = Stale \<Longrightarrow> bs_state (begin_resync s f) = ResyncRequired
     \<and> bs_book (begin_resync s f) = ob_clear (bs_book s) \<and> bs_last_failure (begin_resync s f) = f"
  by (auto simp: begin_resync_def Let_def session_legal_transition_def bs_transition_def diag_def)

text \<open>The update that comes next in the stream: by the previous final identifier where the venue sends it, else by its first.\<close>

definition next_in_stream :: "BookUpdateEvent \<Rightarrow> seq \<Rightarrow> bool" where
  "next_in_stream u last_id \<longleftrightarrow>
     (let succ = (last_id + 1) mod 2 ^ 64
      in if bue_prev_final_update_id u = 0 then bue_first_update_id u = succ
         else bue_prev_final_update_id u = last_id \<and> bue_first_update_id u \<in> {0, succ})"

lemma next_in_stream_iff: "continues_from u last_id \<longleftrightarrow> next_in_stream u last_id"
proof -
  have "inc64 n = (n + 1) mod 2 ^ 64" for n by (simp add: inc64_def nat_mod_distrib nat_add_distrib)
  then show ?thesis by (auto simp: continues_from_def next_in_stream_def Let_def kNoSeq_def)
qed

definition malformed_update :: "BookUpdateEvent \<Rightarrow> bool" where
  "malformed_update u \<longleftrightarrow> \<not> counts_are_sane (bue_levels u)
     \<or> bue_final_update_id u \<noteq> 0 \<and> bue_final_update_id u < bue_first_update_id u"

definition emptied :: "OrderBook \<Rightarrow> bool" where
  "emptied b \<longleftrightarrow> ob_bids b = [] \<and> ob_asks b = [] \<and> \<not> ob_is_valid b"

lemma emptied_clear [simp]: "emptied (ob_clear b)"
  by (simp add: emptied_def ob_clear_def ob_is_valid_def)

lemma on_update_live:
  assumes "bs_state s = Ready \<or> bs_state s = Stale" "bue_symbol u = bs_symbol s" "\<not> malformed_update u"
  shows "on_update s now u = live_update (touch_data_clock s now) u"
  using assms by (auto simp: on_update_def Let_def malformed_update_def kNoSeq_def)

lemma protocol_error_effect:
  assumes "t = on_protocol_error s"
  shows "bs_state t = bs_state s \<and> bs_book t = bs_book s \<or> bs_state t = Error \<and> emptied (bs_book t)"
  by (simp add: assms on_protocol_error_def on_fatal_def Let_def session_legal_transition_def)

lemma live_update_effect:
  fixes u :: BookUpdateEvent and s :: BookSync
  defines "last_id \<equiv> ob_last_update_id (bs_book s)"
    and "out \<equiv> ob_apply_update (bs_book s) (bue_levels u) (if bue_is_last u then bue_final_update_id u else kNoSeq)"
    and "t \<equiv> fst (live_update s u)" and "code \<equiv> snd (live_update s u)"
    and "dup \<equiv> bue_final_update_id u \<noteq> kNoSeq \<and> bue_final_update_id u \<le> ob_last_update_id (bs_book s)"
  assumes "sync_core symbol config s" and "bs_state s = Ready \<or> bs_state s = Stale"
  shows "dup \<Longrightarrow> code = Ok \<and> t = diag s UpdatesDiscardedDuplicate"
    and "\<not> dup \<Longrightarrow> \<not> next_in_stream u last_id \<Longrightarrow> code = FailedPrecondition \<and> bs_last_failure t = SfSequenceGap"
    and "\<not> dup \<Longrightarrow> next_in_stream u last_id \<Longrightarrow> is_ok code \<longleftrightarrow> is_ok (snd out)"
    and "\<not> is_ok code \<Longrightarrow> bs_state t = ResyncRequired \<and> emptied (bs_book t)"
    and "\<not> dup \<Longrightarrow> is_ok code \<Longrightarrow> is_quotable (bs_state t) \<and> bs_book t = fst out
      \<and> ob_last_update_id (bs_book t) = (if bue_is_last u \<and> bue_final_update_id u \<noteq> kNoSeq then bue_final_update_id u else last_id)"
proof -
  obtain s1 st where r: "apply_update_to_book s u = (s1, st)" by (metis surj_pair)
  note a = apply_update_to_book_inv [OF assms(6), of u, unfolded r fst_conv snd_conv]
  have o: "bs_book s1 = fst out" "is_ok st \<longleftrightarrow> is_ok (snd out)"
    using r by (auto simp: apply_update_to_book_def out_def Let_def case_prod_beta split: if_splits)
  have g: "bs_state (diag s SequenceGaps) = Ready \<or> bs_state (diag s SequenceGaps) = Stale" using assms(7) by simp
  have g1: "bs_state s1 = Ready \<or> bs_state s1 = Stale" using assms(7) a by simp
  note e = begin_resync_effect [OF g, of SfSequenceGap] begin_resync_effect [OF g1, of SfInvalidUpdate]
  have f: "\<not> is_ok FailedPrecondition" "is_ok Ok" by (simp_all add: is_ok_def)
  note l = live_update_def r Let_def t_def code_def last_id_def dup_def next_in_stream_iff
  show "dup \<Longrightarrow> code = Ok \<and> t = diag s UpdatesDiscardedDuplicate" by (simp add: l)
  show "\<not> dup \<Longrightarrow> \<not> next_in_stream u last_id \<Longrightarrow> code = FailedPrecondition \<and> bs_last_failure t = SfSequenceGap"
    using e(1) by (simp add: l)
  show "\<not> dup \<Longrightarrow> next_in_stream u last_id \<Longrightarrow> is_ok code \<longleftrightarrow> is_ok (snd out)" using o(2) f by (simp add: l)
  show "\<not> is_ok code \<Longrightarrow> bs_state t = ResyncRequired \<and> emptied (bs_book t)" using e f by (auto simp: l split: if_splits)
  show "\<not> dup \<Longrightarrow> is_ok code \<Longrightarrow> is_quotable (bs_state t) \<and> bs_book t = fst out
      \<and> ob_last_update_id (bs_book t) = (if bue_is_last u \<and> bue_final_update_id u \<noteq> kNoSeq then bue_final_update_id u else last_id)"
    using a o g1 f by (auto simp: l is_quotable_def session_legal_transition_def split: if_splits)
qed

text \<open>
  C17. Sequence discipline on a live book, whatever update arrives. An update for another symbol changes nothing. A
  malformed one (a bad level count or an inverted range of identifiers) is refused and leaves book and state alone,
  unless it exhausts the budget of protocol errors, which ends the session with an empty book. An update whose final
  identifier is not past the book's is dropped: it only moves the data clock and the counter of duplicates. Any other
  update that is not the next one in the stream is a sequence gap and is refused. The next one is accepted exactly
  when the book takes its levels; the book is then the updated one, the session is quotable, and the update's final
  identifier is the new position in the stream. Whatever else is refused empties the book and forces a
  resynchronisation. This includes the first update after an image: one that straddles the image's identifier, which
  the documentation allows there, counts as a gap.
\<close>

theorem stream_continuity:
  fixes u :: BookUpdateEvent and s :: BookSync and now :: nanos
  defines "last_id \<equiv> ob_last_update_id (bs_book s)"
    and "out \<equiv> ob_apply_update (bs_book s) (bue_levels u) (if bue_is_last u then bue_final_update_id u else kNoSeq)"
    and "t \<equiv> fst (on_update s now u)" and "code \<equiv> snd (on_update s now u)"
    and "dup \<equiv> bue_final_update_id u \<noteq> 0 \<and> bue_final_update_id u \<le> ob_last_update_id (bs_book s)"
  assumes "sync_reachable symbol config s" and "bs_state s = Ready \<or> bs_state s = Stale"
  shows "(bue_symbol u \<noteq> symbol \<longrightarrow> t = s \<and> \<not> is_ok code)
    \<and> (bue_symbol u = symbol \<and> malformed_update u \<longrightarrow> \<not> is_ok code
        \<and> (bs_state t = bs_state s \<and> bs_book t = bs_book s \<or> bs_state t = Error \<and> emptied (bs_book t)))
    \<and> (bue_symbol u = symbol \<and> \<not> malformed_update u \<longrightarrow>
        (dup \<longrightarrow> code = Ok \<and> t = s\<lparr>bs_last_data_ns := now, bs_has_data := True,
                                       bs_diag := bump (bs_diag s) UpdatesDiscardedDuplicate\<rparr>)
      \<and> (\<not> dup \<and> \<not> next_in_stream u last_id \<longrightarrow> code = FailedPrecondition \<and> bs_last_failure t = SfSequenceGap)
      \<and> (\<not> dup \<and> next_in_stream u last_id \<longrightarrow> (is_ok code \<longleftrightarrow> is_ok (snd out)))
      \<and> (\<not> is_ok code \<longrightarrow> bs_state t = ResyncRequired \<and> emptied (bs_book t))
      \<and> (\<not> dup \<and> is_ok code \<longrightarrow> is_quotable (bs_state t) \<and> bs_book t = fst out \<and> ob_last_update_id (bs_book t)
           = (if bue_is_last u \<and> bue_final_update_id u \<noteq> 0 then bue_final_update_id u else last_id)))"
proof -
  have inv: "sync_inv symbol config s" by (rule sync_reachable_inv [OF assms(6)])
  let ?s = "touch_data_clock s now"
  have st: "bs_state ?s = Ready \<or> bs_state ?s = Stale" using assms(7) by simp
  have core: "sync_core symbol config ?s" "bs_symbol s = symbol" using inv by (simp_all add: sync_inv_def sync_core_def)
  have e: "\<not> is_ok InvalidArgument" "\<not> is_ok OutOfRange" by (simp_all add: is_ok_def)
  consider (other) "bue_symbol u \<noteq> symbol" | (bad) "bue_symbol u = symbol" "malformed_update u"
    | (live) "bue_symbol u = symbol" "\<not> malformed_update u" by blast
  then show ?thesis
  proof cases
    case other
    then show ?thesis using e core(2) by (simp add: t_def code_def on_update_def)
  next
    case bad
    then have "t = on_protocol_error s" "\<not> is_ok code"
      using e core(2) by (auto simp: t_def code_def on_update_def malformed_update_def kNoSeq_def)
    then show ?thesis using bad protocol_error_effect by simp
  next
    case live
    have eq: "on_update s now u = live_update ?s u" using live assms(7) core(2) by (intro on_update_live) simp_all
    have d: "diag ?s UpdatesDiscardedDuplicate = s\<lparr>bs_last_data_ns := now, bs_has_data := True,
        bs_diag := bump (bs_diag s) UpdatesDiscardedDuplicate\<rparr>"
      by (simp add: diag_def touch_data_clock_def)
    note f = live_update_effect [OF core(1) st, of u, folded eq, unfolded touch_simps kNoSeq_def d]
    show ?thesis unfolding t_def code_def dup_def last_id_def out_def kNoSeq_def using live f by blast
  qed
qed

theorem stream_continuity_witness:
  "let s = demo_run [SeConnected, SeSubscribed, SeSnapshot demo_full]
   in bs_state (fst (on_update s 2000 (demo_update 13 14))) = ResyncRequired
    \<and> snd (on_update s 2000 (demo_update 13 14)) = FailedPrecondition
    \<and> snd (on_update s 2000 (demo_update 11 12)) = Ok
    \<and> ob_last_update_id (bs_book (fst (on_update s 2000 (demo_update 11 12)))) = 12"
proof -
  let ?s = "demo_run [SeConnected, SeSubscribed, SeSnapshot demo_full]"
  have f: "bs_state ?s = Ready" "ob_last_update_id (bs_book ?s) = 10" "snd (on_update ?s 2000 (demo_update 11 12)) = Ok"
    by code_simp+
  have u: "bue_symbol (demo_update a b) = ''BTCUSDT''" "a \<le> b \<Longrightarrow> \<not> malformed_update (demo_update a b)"
    "bue_final_update_id (demo_update a b) = b" "bue_is_last (demo_update a b)" "\<not> next_in_stream (demo_update 13 14) 10" for a b
    by (simp_all add: demo_update_def demo_levels_def counts_are_sane_def kMaxLevelsPerEvent_def malformed_update_def
        next_in_stream_def kNoSeq_def)
  have k: "\<not> is_ok FailedPrecondition" "is_ok Ok" by (simp_all add: is_ok_def)
  note p = stream_continuity [OF demo_run_reachable, of "[SeConnected, SeSubscribed, SeSnapshot demo_full]"]
  have "snd (on_update ?s 2000 (demo_update 13 14)) = FailedPrecondition" "bs_state (fst (on_update ?s 2000 (demo_update 13 14))) = ResyncRequired"
    using p [of "demo_update 13 14" 2000] f u k by auto
  moreover have "ob_last_update_id (bs_book (fst (on_update ?s 2000 (demo_update 11 12)))) = 12"
    using p [of "demo_update 11 12" 2000] f u k by auto
  ultimately show ?thesis using f by simp
qed

text \<open>
  C38. Recovery: from any reachable state that waits for an image with nothing buffered, one well-formed image (sane
  counts, positive levels, no price twice, bids below asks) is accepted, makes the session quotable and publishes
  exactly its levels, each side sorted best first and cut at the configured depth.
\<close>

theorem image_restores_quoting:
  assumes "sync_reachable symbol config s" and "bs_buffer s = []" and "bse_symbol e = symbol"
    and "bs_state s = Subscribed \<or> bs_state s = Syncing \<or> bs_state s = ResyncRequired"
    and "bse_is_first e" "bse_is_last e" and "clean_image (bse_levels e)"
  shows "is_ok (snd (on_snapshot s now e)) \<and> is_quotable (bs_state (fst (on_snapshot s now e)))
    \<and> ob_bids (bs_book (fst (on_snapshot s now e))) = take (ob_max_depth (bs_book s))
        (sort_bids (take (bl_bid_count (bse_levels e)) (bl_bids (bse_levels e))))
    \<and> ob_asks (bs_book (fst (on_snapshot s now e))) = take (ob_max_depth (bs_book s))
        (sort_asks (take (bl_ask_count (bse_levels e)) (bl_asks (bse_levels e))))
    \<and> ob_last_update_id (bs_book (fst (on_snapshot s now e))) = bse_last_update_id e"
  using clean_image_recovers [OF sync_reachable_inv [OF assms(1)] assms(2-7), of now] by (simp add: is_quotable_def)

theorem image_restores_quoting_witness:
  "is_quotable (bs_state (fst (on_snapshot (demo_run [SeConnected, SeSubscribed, SeSnapshot demo_full, SeUpdate (demo_update 13 14)]) 5000 demo_full)))"
proof -
  let ?s = "demo_run [SeConnected, SeSubscribed, SeSnapshot demo_full, SeUpdate (demo_update 13 14)]"
  have "bs_state ?s = ResyncRequired" "bs_buffer ?s = []" by code_simp+
  moreover have "clean_image (bse_levels demo_full)" "bse_is_first demo_full" "bse_is_last demo_full" "bse_symbol demo_full = ''BTCUSDT''"
    by (simp_all add: demo_full_def demo_image_def demo_levels_def clean_image_def counts_are_sane_def kMaxLevelsPerEvent_def staged_ok_def)
  ultimately show ?thesis using image_restores_quoting [OF demo_run_reachable, of "[SeConnected, SeSubscribed, SeSnapshot demo_full, SeUpdate (demo_update 13 14)]" demo_full 5000]
    by simp
qed

text \<open>
  A chunk of an image that is refused does not abandon the image: the session stays in \<open>Syncing\<close>, where no timer
  acts and no new image is asked for at any later time, and when the remaining chunk arrives the incomplete image is
  published and the session becomes quotable. Here the first chunk has a bad second bid and an ask that is never staged.
\<close>

theorem refused_chunk_publishes_partial_image:
  "let bad = demo_image True False (demo_levels [\<lparr>pl_price = 100, pl_quantity = 5\<rparr>, \<lparr>pl_price = -1, pl_quantity = 5\<rparr>]
                                                [\<lparr>pl_price = 101, pl_quantity = 9\<rparr>]);
       rest = demo_image False True (demo_levels [] [\<lparr>pl_price = 105, pl_quantity = 7\<rparr>]);
       s0 = demo_run [SeConnected, SeSubscribed];
       s1 = fst (on_snapshot s0 1000 bad);
       s2 = fst (on_snapshot s1 1000 rest)
   in snd (on_snapshot s0 1000 bad) = InvalidArgument \<and> bs_state s1 = Syncing
    \<and> wants_snapshot s1 now = False \<and> sync_on_timer s1 now = s1
    \<and> is_quotable (bs_state s2) \<and> best_ask_price (bs_book s2) = 105"
proof -
  let ?bad = "demo_image True False (demo_levels [\<lparr>pl_price = 100, pl_quantity = 5\<rparr>, \<lparr>pl_price = -1, pl_quantity = 5\<rparr>]
                                                [\<lparr>pl_price = 101, pl_quantity = 9\<rparr>])"
  let ?rest = "demo_image False True (demo_levels [] [\<lparr>pl_price = 105, pl_quantity = 7\<rparr>])"
  let ?s0 = "demo_run [SeConnected, SeSubscribed]"
  let ?s1 = "fst (on_snapshot ?s0 1000 ?bad)"
  have "snd (on_snapshot ?s0 1000 ?bad) = InvalidArgument" "bs_state ?s1 = Syncing"
    "is_quotable (bs_state (fst (on_snapshot ?s1 1000 ?rest)))"
    "best_ask_price (bs_book (fst (on_snapshot ?s1 1000 ?rest))) = 105" by code_simp+
  then show ?thesis by (simp add: Let_def wants_snapshot_def sync_on_timer_def)
qed

end
