(* ===== verification/BinanceCodec.thy ===== *)
theory BinanceCodec
  imports BookSync Params
begin

text \<open>
  The Binance wire format, \<^verbatim>\<open>exchange/binance/BinanceCodec\<close>: frames in, normalised market-data events out. The JSON
  library is not part of the program: its parser is the argument \<open>parse\<close> of the decoders (None for a discarded
  document), its value type is \<open>json\<close>. An object answers \<^verbatim>\<open>contains\<close> and \<^verbatim>\<open>[]\<close> by its first entry with the key; an
  integer is unsigned or signed as the library classifies it. The vector a decoder appends to is an argument and part of
  the result, so that what a failing decode leaves behind is visible. The steady clock reading of \<^verbatim>\<open>stamp\<close> is the
  argument \<open>now\<close>.
\<close>

section \<open>JSON values\<close>

datatype json =
    JNull | JBool bool | JUnsigned nat | JInteger int | JFloat rat | JString string
  | JArray "json list" | JObject "(string \<times> json) list"

fun j_get :: "json \<Rightarrow> string \<Rightarrow> json option" where
  "j_get (JObject kvs) key = map_of kvs key"
| "j_get v key = None"

fun j_is_object :: "json \<Rightarrow> bool" where
  "j_is_object (JObject kvs) = True"
| "j_is_object v = False"

fun j_string :: "json \<Rightarrow> string option" where
  "j_string (JString s) = Some s"
| "j_string v = None"

fun j_array :: "json \<Rightarrow> json list option" where
  "j_array (JArray vs) = Some vs"
| "j_array v = None"

text \<open>\<^verbatim>\<open>root.contains(key) && root[key].is_string()\<close> and the string.\<close>

definition get_text :: "json \<Rightarrow> string \<Rightarrow> string option" where
  "get_text v key = Option.bind (j_get v key) j_string"

section \<open>Events\<close>

record EventStamps =
  es_exchange_ns :: nanos
  es_recv_ns :: nanos
  es_parse_ns :: nanos
  es_process_ns :: nanos

record SessionStateEvent =
  sse_symbol :: string
  sse_from :: SessionState
  sse_to :: SessionState
  sse_reason :: string

text \<open>The tagged union; a trade carries its venue sequence beside the fields of \<open>TradeEvent\<close>.\<close>

datatype MdPayload =
    MdBookSnapshot BookSnapshotEvent | MdBookUpdate BookUpdateEvent | MdTrade TradeEvent seq
  | MdSession SessionStateEvent | MdConnection ConnectionEvent | MdInstrument InstrumentSpec

record MarketDataEvent =
  me_payload :: MdPayload
  me_stamps :: EventStamps

definition md_symbol :: "MarketDataEvent \<Rightarrow> string" where
  "md_symbol e =
     (case me_payload e of
        MdBookSnapshot s \<Rightarrow> bse_symbol s | MdBookUpdate u \<Rightarrow> bue_symbol u | MdTrade t q \<Rightarrow> te_symbol t
      | MdSession s \<Rightarrow> sse_symbol s | MdInstrument s \<Rightarrow> is_symbol s | MdConnection c \<Rightarrow> [])"

definition md_sequence :: "MarketDataEvent \<Rightarrow> seq" where
  "md_sequence e =
     (case me_payload e of
        MdBookSnapshot s \<Rightarrow> bse_last_update_id s | MdBookUpdate u \<Rightarrow> bue_final_update_id u | MdTrade t q \<Rightarrow> q
      | _ \<Rightarrow> kNoSeq)"

definition stamp :: "nanos \<Rightarrow> nanos \<Rightarrow> nanos \<Rightarrow> MdPayload \<Rightarrow> MarketDataEvent" where
  "stamp exchange_ns recv_ns now p =
     \<lparr>me_payload = p, me_stamps = \<lparr>es_exchange_ns = exchange_ns, es_recv_ns = recv_ns, es_parse_ns = now, es_process_ns = 0\<rparr>\<rparr>"

section \<open>Fields\<close>

definition parse_decimal :: "json \<Rightarrow> int option" where
  "parse_decimal v = Option.bind (j_string v) parse_fixed_raw"

fun read_seq :: "json \<Rightarrow> seq option" where
  "read_seq (JUnsigned n) = Some n"
| "read_seq (JInteger v) = (if v < 0 then None else Some (nat v))"
| "read_seq v = None"

definition millis_to_nanos :: "int \<Rightarrow> nanos option" where
  "millis_to_nanos ms = (if ms < 0 then None else Some (wrap64 (ms * 1000000)))"

fun read_millis_as_nanos :: "json \<Rightarrow> nanos option" where
  "read_millis_as_nanos (JUnsigned n) = millis_to_nanos (wrap64 (int n))"
| "read_millis_as_nanos (JInteger v) = millis_to_nanos v"
| "read_millis_as_nanos v = None"

definition read_level :: "json \<Rightarrow> PriceLevel option" where
  "read_level node =
     (case j_array node of
        Some (p # q # _) \<Rightarrow>
          (case (parse_decimal p, parse_decimal q) of
             (Some price, Some quantity) \<Rightarrow>
               if price > 0 \<and> \<not> quantity < 0 then Some \<lparr>pl_price = price, pl_quantity = quantity\<rparr> else None
           | _ \<Rightarrow> None)
      | _ \<Rightarrow> None)"

text \<open>A cursor is the list of nodes still to be read.\<close>

fun fill_chunk :: "nat \<Rightarrow> json list \<Rightarrow> (PriceLevel list \<times> json list) option" where
  "fill_chunk 0 cursor = Some ([], cursor)"
| "fill_chunk (Suc room) [] = Some ([], [])"
| "fill_chunk (Suc room) (node # cursor) =
     (case read_level node of
        None \<Rightarrow> None
      | Some l \<Rightarrow> (case fill_chunk room cursor of None \<Rightarrow> None | Some (ls, rest) \<Rightarrow> Some (l # ls, rest)))"

datatype DecodeError =
    DeNone | DeNotJson | DeNotAnObject | DeUnknownMessageType | DeMissingField | DeInvalidNumber | DeInvalidSequence
  | DeUnknownSymbol | DeTooLarge | DeLevelParseFailed

definition decode_error_text :: "DecodeError \<Rightarrow> string" where
  "decode_error_text e =
     (case e of DeNone \<Rightarrow> ''NONE'' | DeNotJson \<Rightarrow> ''NOT_JSON'' | DeNotAnObject \<Rightarrow> ''NOT_AN_OBJECT''
      | DeUnknownMessageType \<Rightarrow> ''UNKNOWN_MESSAGE_TYPE'' | DeMissingField \<Rightarrow> ''MISSING_FIELD''
      | DeInvalidNumber \<Rightarrow> ''INVALID_NUMBER'' | DeInvalidSequence \<Rightarrow> ''INVALID_SEQUENCE''
      | DeUnknownSymbol \<Rightarrow> ''UNKNOWN_SYMBOL'' | DeTooLarge \<Rightarrow> ''TOO_LARGE'' | DeLevelParseFailed \<Rightarrow> ''LEVEL_PARSE_FAILED'')"

definition kMaxFrameBytes :: nat where "kMaxFrameBytes = 4 * 1024 * 1024"

text \<open>A decoder's result: the classification kept in \<^verbatim>\<open>last_error\<close> (the status is an error unless it is none) and the vector.\<close>

type_synonym decoded = "DecodeError \<times> MarketDataEvent list"

section \<open>Symbols and streams\<close>

definition upper_char :: "char \<Rightarrow> char" where
  "upper_char c = (if 97 \<le> (of_char c :: int) \<and> (of_char c :: int) \<le> 122 then char_of ((of_char c :: int) - 32) else c)"

definition to_stream_symbol :: "string \<Rightarrow> string" where
  "to_stream_symbol s = map lower_char s"

definition to_rest_symbol :: "string \<Rightarrow> string" where
  "to_rest_symbol s = map upper_char s"

definition from_venue_symbol :: "string \<Rightarrow> string" where
  "from_venue_symbol s = fst (inline_assign 24 (map upper_char s))"

definition depth_stream_name :: "string \<Rightarrow> int \<Rightarrow> string" where
  "depth_stream_name s update_interval_ms =
     to_stream_symbol s @ ''@depth'' @ (if update_interval_ms = 100 then ''@100ms'' else [])"

definition trade_stream_name :: "string \<Rightarrow> string" where
  "trade_stream_name s = to_stream_symbol s @ ''@trade''"

definition book_ticker_stream_name :: "string \<Rightarrow> string" where
  "book_ticker_stream_name s = to_stream_symbol s @ ''@bookTicker''"

section \<open>Stream frames\<close>

lemma fill_chunk_rest: "fill_chunk n c = Some (ls, rest) \<Longrightarrow> rest = drop n c \<and> length ls = min n (length c)"
  by (induction n c arbitrary: ls rest rule: fill_chunk.induct) (auto split: option.splits)

text \<open>The do-while loop that splits the levels of one message into events; None when a level is malformed.\<close>

function chunk_levels ::
  "(bool \<Rightarrow> BookLevels \<Rightarrow> bool \<Rightarrow> MdPayload) \<Rightarrow> bool \<Rightarrow> json list \<Rightarrow> json list \<Rightarrow> MdPayload list option" where
  "chunk_levels mk is_first bids asks =
     (case (fill_chunk kMaxLevelsPerEvent bids, fill_chunk kMaxLevelsPerEvent asks) of
        (Some (b, bids'), Some (a, asks')) \<Rightarrow>
          (let p = mk is_first \<lparr>bl_bids = b, bl_asks = a, bl_bid_count = length b, bl_ask_count = length a\<rparr> (bids' = [] \<and> asks' = [])
           in if bids' = [] \<and> asks' = [] then Some [p]
              else case chunk_levels mk False bids' asks' of None \<Rightarrow> None | Some ps \<Rightarrow> Some (p # ps))
      | _ \<Rightarrow> None)"
  by pat_completeness auto
termination
  by (relation "measure (\<lambda>(mk, f, b, a). length b + length a)")
     (auto dest!: fill_chunk_rest [OF sym] simp: kMaxLevelsPerEvent_def)

declare chunk_levels.simps [simp del]

text \<open>An absent level array is an empty cursor; anything present must be an array.\<close>

definition level_cursor :: "json \<Rightarrow> string \<Rightarrow> json list option" where
  "level_cursor v key = (case j_get v key of None \<Rightarrow> Some [] | Some node \<Rightarrow> j_array node)"

definition optional_nanos :: "json \<Rightarrow> string \<Rightarrow> nanos" where
  "optional_nanos v key =
     (case j_get v key of None \<Rightarrow> 0 | Some node \<Rightarrow> (case read_millis_as_nanos node of None \<Rightarrow> 0 | Some t \<Rightarrow> t))"

definition optional_seq :: "json \<Rightarrow> string \<Rightarrow> seq" where
  "optional_seq v key =
     (case j_get v key of None \<Rightarrow> kNoSeq | Some node \<Rightarrow> (case read_seq node of None \<Rightarrow> kNoSeq | Some n \<Rightarrow> n))"

definition decode_depth_update :: "json \<Rightarrow> nanos \<Rightarrow> nanos \<Rightarrow> MarketDataEvent list \<Rightarrow> decoded" where
  "decode_depth_update payload recv_ns now out =
     (case get_text payload ''s'' of
        None \<Rightarrow> (DeMissingField, out)
      | Some venue_symbol \<Rightarrow>
     (let symbol = from_venue_symbol venue_symbol in
      if symbol = [] then (DeUnknownSymbol, out)
      else
     (case Option.bind (j_get payload ''U'') read_seq of
        None \<Rightarrow> (DeInvalidSequence, out)
      | Some first_id \<Rightarrow>
     (case Option.bind (j_get payload ''u'') read_seq of
        None \<Rightarrow> (DeInvalidSequence, out)
      | Some final_id \<Rightarrow>
          if first_id > final_id then (DeInvalidSequence, out)
          else
     (let prev_final = optional_seq payload ''pu'';
          exchange_ns = optional_nanos payload ''E''
      in case (level_cursor payload ''b'', level_cursor payload ''a'') of
           (Some bids, Some asks) \<Rightarrow>
             (case chunk_levels (\<lambda>_ levels last. MdBookUpdate
                     \<lparr>bue_symbol = symbol, bue_symbol_id = kInvalidSymbolId, bue_first_update_id = first_id,
                      bue_final_update_id = final_id, bue_prev_final_update_id = prev_final, bue_levels = levels,
                      bue_is_last = last\<rparr>) True bids asks of
                None \<Rightarrow> (DeLevelParseFailed, out)
              | Some ps \<Rightarrow> (DeNone, out @ map (stamp exchange_ns recv_ns now) ps))
         | _ \<Rightarrow> (DeMissingField, out))))))"

definition trade_time :: "json \<Rightarrow> nanos" where
  "trade_time payload = (if j_get payload ''T'' \<noteq> None then optional_nanos payload ''T'' else optional_nanos payload ''E'')"

definition decode_trade :: "json \<Rightarrow> nanos \<Rightarrow> nanos \<Rightarrow> MarketDataEvent list \<Rightarrow> decoded" where
  "decode_trade payload recv_ns now out =
     (case get_text payload ''s'' of
        None \<Rightarrow> (DeMissingField, out)
      | Some venue_symbol \<Rightarrow>
     (case Option.bind (j_get payload ''p'') parse_decimal of
        None \<Rightarrow> (DeInvalidNumber, out)
      | Some price \<Rightarrow>
     (case Option.bind (j_get payload ''q'') parse_decimal of
        None \<Rightarrow> (DeInvalidNumber, out)
      | Some quantity \<Rightarrow>
          if \<not> price > 0 \<or> \<not> quantity > 0 then (DeInvalidNumber, out)
          else
     (let buyer_is_maker = (j_get payload ''m'' = Some (JBool True));
          trade_seq = Option.bind (j_get payload ''t'') read_seq
      in (DeNone, out @ [stamp (trade_time payload) recv_ns now (MdTrade
            \<lparr>te_symbol = from_venue_symbol venue_symbol, te_symbol_id = kInvalidSymbolId, te_price = price,
             te_quantity = quantity, te_aggressor = (if buyer_is_maker then Sell else Buy),
             te_trade_id = (case trade_seq of None \<Rightarrow> [] | Some n \<Rightarrow> fst (inline_assign 32 (uint_to_string (int n))))\<rparr>
            (case trade_seq of None \<Rightarrow> kNoSeq | Some n \<Rightarrow> n))])))))"

definition decode_payload :: "json \<Rightarrow> json \<Rightarrow> nanos \<Rightarrow> nanos \<Rightarrow> MarketDataEvent list \<Rightarrow> decoded" where
  "decode_payload doc payload recv_ns now out =
     (case get_text payload ''e'' of
        None \<Rightarrow> if j_get doc ''result'' \<noteq> None \<or> j_get doc ''id'' \<noteq> None then (DeNone, out) else (DeUnknownMessageType, out)
      | Some event_type \<Rightarrow>
          if event_type = ''depthUpdate'' then decode_depth_update payload recv_ns now out
          else if event_type = ''trade'' then decode_trade payload recv_ns now out
          else (DeUnknownMessageType, out))"

definition decode_stream_frame ::
  "(string \<Rightarrow> json option) \<Rightarrow> string \<Rightarrow> nanos \<Rightarrow> nanos \<Rightarrow> MarketDataEvent list \<Rightarrow> decoded" where
  "decode_stream_frame parse frame recv_ns now out =
     (if length frame > kMaxFrameBytes then (DeTooLarge, out)
      else case parse frame of
             None \<Rightarrow> (DeNotJson, out)
           | Some doc \<Rightarrow>
               if \<not> j_is_object doc then (DeNotAnObject, out)
               else (let payload = (case j_get doc ''data'' of Some d \<Rightarrow> if j_is_object d then d else doc | None \<Rightarrow> doc)
                     in decode_payload doc payload recv_ns now out))"

section \<open>REST bodies\<close>

definition decode_depth_snapshot ::
  "(string \<Rightarrow> json option) \<Rightarrow> string \<Rightarrow> string \<Rightarrow> nanos \<Rightarrow> nanos \<Rightarrow> MarketDataEvent list \<Rightarrow> decoded" where
  "decode_depth_snapshot parse body symbol recv_ns now out =
     (if length body > kMaxFrameBytes then (DeTooLarge, out)
      else case parse body of
             None \<Rightarrow> (DeNotJson, out)
           | Some doc \<Rightarrow>
               if \<not> j_is_object doc then (DeNotAnObject, out)
               else if j_get doc ''code'' \<noteq> None \<and> j_get doc ''msg'' \<noteq> None then (DeMissingField, out)
               else (case Option.bind (j_get doc ''lastUpdateId'') read_seq of
                       None \<Rightarrow> (DeInvalidSequence, out)
                     | Some last_update_id \<Rightarrow>
                         (case (Option.bind (j_get doc ''bids'') j_array, Option.bind (j_get doc ''asks'') j_array) of
                            (Some bids, Some asks) \<Rightarrow>
                              (case chunk_levels (\<lambda>first levels last. MdBookSnapshot
                                      \<lparr>bse_symbol = symbol, bse_symbol_id = kInvalidSymbolId,
                                       bse_last_update_id = last_update_id, bse_levels = levels, bse_is_first = first,
                                       bse_is_last = last\<rparr>) True bids asks of
                                 None \<Rightarrow> (DeLevelParseFailed, out)
                               | Some ps \<Rightarrow> (DeNone, out @ map (stamp 0 recv_ns now) ps))
                          | _ \<Rightarrow> (DeMissingField, out))))"

text \<open>A decimal field that overwrites the old value only when it parses.\<close>

definition update_decimal :: "json \<Rightarrow> string \<Rightarrow> int \<Rightarrow> int" where
  "update_decimal filt key old = (case Option.bind (j_get filt key) parse_decimal of None \<Rightarrow> old | Some v \<Rightarrow> v)"

definition apply_filter :: "InstrumentSpec \<Rightarrow> json \<Rightarrow> InstrumentSpec" where
  "apply_filter spec filt =
     (case get_text filt ''filterType'' of
        None \<Rightarrow> spec
      | Some type \<Rightarrow>
          if type = ''PRICE_FILTER'' \<and> j_get filt ''tickSize'' \<noteq> None
          then spec\<lparr>is_tick_size := update_decimal filt ''tickSize'' (is_tick_size spec)\<rparr>
          else if type = ''LOT_SIZE''
          then spec\<lparr>is_lot_size := update_decimal filt ''stepSize'' (is_lot_size spec),
                    is_min_qty := update_decimal filt ''minQty'' (is_min_qty spec),
                    is_max_qty := update_decimal filt ''maxQty'' (is_max_qty spec)\<rparr>
          else if (type = ''NOTIONAL'' \<or> type = ''MIN_NOTIONAL'') \<and> j_get filt ''minNotional'' \<noteq> None
          then spec\<lparr>is_min_notional := update_decimal filt ''minNotional'' (is_min_notional spec)\<rparr>
          else spec)"

definition blank_spec :: "string \<Rightarrow> InstrumentSpec" where
  "blank_spec symbol = \<lparr>is_symbol = symbol, is_id = kInvalidSymbolId, is_base = [], is_quote = [], is_tick_size = 0,
     is_lot_size = 0, is_min_qty = 0, is_max_qty = 0, is_min_notional = 0, is_price_band_lo = 0, is_price_band_hi = 0,
     is_status = MarketUnknown\<rparr>"

definition decode_instrument :: "json \<Rightarrow> string \<Rightarrow> InstrumentSpec" where
  "decode_instrument entry symbol =
     (let spec = blank_spec symbol;
          spec = (case get_text entry ''baseAsset'' of None \<Rightarrow> spec | Some a \<Rightarrow> spec\<lparr>is_base := fst (inline_assign 12 a)\<rparr>);
          spec = (case get_text entry ''quoteAsset'' of None \<Rightarrow> spec | Some a \<Rightarrow> spec\<lparr>is_quote := fst (inline_assign 12 a)\<rparr>);
          spec = (case get_text entry ''status'' of None \<Rightarrow> spec
                  | Some t \<Rightarrow> spec\<lparr>is_status := (if t = ''TRADING'' then Trading else Halted)\<rparr>)
      in case Option.bind (j_get entry ''filters'') j_array of None \<Rightarrow> spec | Some fs \<Rightarrow> foldl apply_filter spec fs)"

definition exchange_info_entry :: "string list \<Rightarrow> json \<Rightarrow> InstrumentSpec option" where
  "exchange_info_entry wanted entry =
     (case get_text entry ''symbol'' of
        None \<Rightarrow> None
      | Some venue_symbol \<Rightarrow>
          (let symbol = from_venue_symbol venue_symbol
           in if wanted \<noteq> [] \<and> symbol \<notin> set wanted then None
              else (let spec = decode_instrument entry symbol in if spec_is_valid spec then Some spec else None)))"

definition decode_exchange_info ::
  "(string \<Rightarrow> json option) \<Rightarrow> string \<Rightarrow> string list \<Rightarrow> nanos \<Rightarrow> nanos \<Rightarrow> MarketDataEvent list \<Rightarrow> decoded" where
  "decode_exchange_info parse body wanted recv_ns now out =
     (if length body > kMaxFrameBytes then (DeTooLarge, out)
      else case parse body of
             None \<Rightarrow> (DeNotJson, out)
           | Some doc \<Rightarrow>
               if \<not> j_is_object doc then (DeNotJson, out)
               else (case Option.bind (j_get doc ''symbols'') j_array of
                       None \<Rightarrow> (DeMissingField, out)
                     | Some listed \<Rightarrow>
                         (DeNone, out @ map (\<lambda>s. stamp 0 recv_ns now (MdInstrument s))
                            (List.map_filter (exchange_info_entry wanted) listed))))"

section \<open>Evaluating the chunk loop\<close>

text \<open>The loop with a bound on its rounds; a message has fewer chunks than levels and one more, so the bound is never met.\<close>

fun chunk_levels_n ::
  "nat \<Rightarrow> (bool \<Rightarrow> BookLevels \<Rightarrow> bool \<Rightarrow> MdPayload) \<Rightarrow> bool \<Rightarrow> json list \<Rightarrow> json list \<Rightarrow> MdPayload list option" where
  "chunk_levels_n 0 mk is_first bids asks = None"
| "chunk_levels_n (Suc n) mk is_first bids asks =
     (case (fill_chunk kMaxLevelsPerEvent bids, fill_chunk kMaxLevelsPerEvent asks) of
        (Some (b, bids'), Some (a, asks')) \<Rightarrow>
          (let p = mk is_first \<lparr>bl_bids = b, bl_asks = a, bl_bid_count = length b, bl_ask_count = length a\<rparr> (bids' = [] \<and> asks' = [])
           in if bids' = [] \<and> asks' = [] then Some [p]
              else case chunk_levels_n n mk False bids' asks' of None \<Rightarrow> None | Some ps \<Rightarrow> Some (p # ps))
      | _ \<Rightarrow> None)"

lemma chunk_levels_n_eq:
  "length bids + length asks < n \<Longrightarrow> chunk_levels_n n mk f bids asks = chunk_levels mk f bids asks"
proof (induction n arbitrary: f bids asks)
  case (Suc n)
  have rec: "chunk_levels_n n mk False bids' asks' = chunk_levels mk False bids' asks'"
    if "fill_chunk kMaxLevelsPerEvent bids = Some (b, bids')" "fill_chunk kMaxLevelsPerEvent asks = Some (a, asks')"
      "\<not> (bids' = [] \<and> asks' = [])" for b bids' a asks'
  proof (rule Suc.IH)
    have "bids' = drop kMaxLevelsPerEvent bids" "asks' = drop kMaxLevelsPerEvent asks"
      using fill_chunk_rest that(1,2) by blast+
    then show "length bids' + length asks' < n" using that(3) Suc.prems by (auto simp: kMaxLevelsPerEvent_def)
  qed
  show ?case unfolding chunk_levels.simps [of mk f bids asks]
    using rec by (auto split: option.split prod.split simp: Let_def)
qed simp

lemma chunk_levels_code [code]:
  "chunk_levels mk f bids asks = chunk_levels_n (Suc (length bids + length asks)) mk f bids asks"
  by (rule chunk_levels_n_eq [symmetric]) simp

lemma frame_limit_code [code_unfold]: "kMaxFrameBytes < n \<longleftrightarrow> (4194304 :: int) < int n"
  by (simp add: kMaxFrameBytes_def)

section \<open>Chunks carry every level once, in order\<close>

text \<open>The reference: reading all the levels of an array at once.\<close>

fun read_levels :: "json list \<Rightarrow> PriceLevel list option" where
  "read_levels [] = Some []"
| "read_levels (n # ns) =
     (case read_level n of None \<Rightarrow> None | Some l \<Rightarrow> (case read_levels ns of None \<Rightarrow> None | Some ls \<Rightarrow> Some (l # ls)))"

lemma fill_chunk_read_levels:
  "fill_chunk n c = (case read_levels (take n c) of None \<Rightarrow> None | Some ls \<Rightarrow> Some (ls, drop n c))"
  by (induction n c rule: fill_chunk.induct) (auto split: option.splits)

lemma read_levels_append:
  "read_levels (xs @ ys) =
     (case read_levels xs of None \<Rightarrow> None | Some as \<Rightarrow> (case read_levels ys of None \<Rightarrow> None | Some bs \<Rightarrow> Some (as @ bs)))"
  by (induction xs) (auto split: option.splits)

lemma read_levels_split:
  "read_levels c = (case fill_chunk n c of None \<Rightarrow> None
     | Some (ls, rest) \<Rightarrow> (case read_levels rest of None \<Rightarrow> None | Some ms \<Rightarrow> Some (ls @ ms)))"
  using read_levels_append [of "take n c" "drop n c"] by (simp add: fill_chunk_read_levels split: option.splits)

definition level_ok :: "PriceLevel \<Rightarrow> bool" where
  "level_ok l \<longleftrightarrow> 0 < pl_price l \<and> 0 \<le> pl_quantity l"

lemma read_levels_ok: "read_levels ns = Some ls \<Longrightarrow> list_all level_ok ls \<and> length ls = length ns"
  by (induction ns arbitrary: ls)
     (auto simp: read_level_def level_ok_def split: option.splits if_splits list.splits)

text \<open>A run of chunks: bounded, only the first marked first and only the last marked last.\<close>

definition chunk_run :: "(bool \<Rightarrow> BookLevels \<Rightarrow> bool \<Rightarrow> MdPayload) \<Rightarrow> bool \<Rightarrow> BookLevels list \<Rightarrow> MdPayload list" where
  "chunk_run mk is_first bls =
     map (\<lambda>i. mk (is_first \<and> i = 0) (bls ! i) (Suc i = length bls)) [0..<length bls]"

definition chunk_ok :: "BookLevels \<Rightarrow> bool" where
  "chunk_ok b \<longleftrightarrow> counts_are_sane b \<and> bl_bid_count b = length (bl_bids b) \<and> bl_ask_count b = length (bl_asks b)
     \<and> list_all level_ok (bl_bids b) \<and> list_all level_ok (bl_asks b)"

lemma chunk_run_Cons:
  "bls \<noteq> [] \<Longrightarrow> chunk_run mk f (b # bls) = mk f b False # chunk_run mk False bls"
  unfolding chunk_run_def by (rule nth_equalityI) (auto simp: nth_Cons' simp del: upt_Suc)

lemma chunk_run_single: "chunk_run mk f [b] = [mk f b True]"
  by (simp add: chunk_run_def)

lemma chunk_levels_correct:
  "case (read_levels bids, read_levels asks) of
     (Some bs, Some as) \<Rightarrow> \<exists>bls. chunk_levels mk f bids asks = Some (chunk_run mk f bls) \<and> bls \<noteq> []
        \<and> concat (map bl_bids bls) = bs \<and> concat (map bl_asks bls) = as \<and> list_all chunk_ok bls
   | _ \<Rightarrow> chunk_levels mk f bids asks = None"
proof (induction mk f bids asks rule: chunk_levels.induct)
  case (1 mk f bids asks)
  show ?case
  proof (cases "fill_chunk kMaxLevelsPerEvent bids = None \<or> fill_chunk kMaxLevelsPerEvent asks = None")
    case True
    then show ?thesis
      using read_levels_split [of bids kMaxLevelsPerEvent] read_levels_split [of asks kMaxLevelsPerEvent]
      by (auto simp: chunk_levels.simps [of mk f bids asks] split: option.splits)
  next
    case False
    then obtain b bids' a asks' where fc: "fill_chunk kMaxLevelsPerEvent bids = Some (b, bids')"
      "fill_chunk kMaxLevelsPerEvent asks = Some (a, asks')" by auto
    define p where "p = \<lparr>bl_bids = b, bl_asks = a, bl_bid_count = length b, bl_ask_count = length a\<rparr>"
    have len: "length b \<le> kMaxLevelsPerEvent" "length a \<le> kMaxLevelsPerEvent"
      using fill_chunk_rest [OF fc(1)] fill_chunk_rest [OF fc(2)] by auto
    have "list_all level_ok b" "list_all level_ok a"
      using fc read_levels_ok by (auto simp: fill_chunk_read_levels split: option.splits)
    then have ok: "chunk_ok p" using len by (simp add: chunk_ok_def p_def counts_are_sane_def)
    note rs = read_levels_split [of bids kMaxLevelsPerEvent, unfolded fc option.case prod.case]
      read_levels_split [of asks kMaxLevelsPerEvent, unfolded fc option.case prod.case]
    note step = chunk_levels.simps [of mk f bids asks, unfolded fc option.case prod.case Let_def p_def [symmetric]]
    show ?thesis
    proof (cases "bids' = [] \<and> asks' = []")
      case True
      then show ?thesis
        using ok by (auto simp: step rs chunk_run_single p_def intro!: exI [of _ "[p]"])
    next
      case False
      note ih = 1 [OF refl fc(1) refl fc(2) refl refl False]
      show ?thesis
      proof (cases "read_levels bids' = None \<or> read_levels asks' = None")
        case True
        then show ?thesis using ih False by (auto simp: step rs split: option.splits)
      next
        case no: False
        then obtain bs as where r: "read_levels bids' = Some bs" "read_levels asks' = Some as" by auto
        with ih obtain bls where b: "chunk_levels mk False bids' asks' = Some (chunk_run mk False bls)" "bls \<noteq> []"
          "concat (map bl_bids bls) = bs" "concat (map bl_asks bls) = as" "list_all chunk_ok bls" by auto
        show ?thesis
          unfolding step rs r option.case prod.case b(1)
          using False b ok by (auto simp: chunk_run_Cons p_def intro!: exI [of _ "p # bls"])
      qed
    qed
  qed
qed

section \<open>Symbols survive the round trip through stream names\<close>

lemma of_char_range: "0 \<le> (of_char c :: int)" "(of_char c :: int) < 256"
  using of_char_mod_256 [where 'a = int, of c] pos_mod_bound [of 256 "of_char c :: int"] pos_mod_sign [of 256 "of_char c :: int"]
  by simp_all

lemma upper_lower_char: "upper_char (lower_char c) = upper_char c"
proof (cases "65 \<le> (of_char c :: int) \<and> (of_char c :: int) \<le> 90")
  case True
  then have "(of_char (lower_char c) :: int) = of_char c + 32" by (simp add: lower_char_def of_char_of)
  moreover have "char_of (of_char c :: int) = c" by simp
  ultimately show ?thesis using True by (simp add: upper_char_def)
next
  case False
  then have "lower_char c = c" by (auto simp: lower_char_def)
  then show ?thesis by simp
qed

lemma symbol_roundtrip:
  assumes "map upper_char s = s" "length s \<le> 24"
  shows "from_venue_symbol (to_stream_symbol s) = s" "from_venue_symbol (to_rest_symbol s) = s"
proof -
  have "map (upper_char \<circ> lower_char) s = map upper_char s" by (simp add: upper_lower_char)
  then show "from_venue_symbol (to_stream_symbol s) = s"
    using assms by (simp add: from_venue_symbol_def to_stream_symbol_def inline_assign_def Let_def del: map_map add: map_map)
  show "from_venue_symbol (to_rest_symbol s) = s"
    unfolding to_rest_symbol_def assms(1) using assms by (simp add: from_venue_symbol_def inline_assign_def Let_def)
qed

section \<open>Decoded events are well formed\<close>

definition event_wf :: "MarketDataEvent \<Rightarrow> bool" where
  "event_wf e =
     (case me_payload e of
        MdBookUpdate u \<Rightarrow> bue_symbol u \<noteq> [] \<and> length (bue_symbol u) \<le> 24 \<and> bue_first_update_id u \<le> bue_final_update_id u
          \<and> chunk_ok (bue_levels u)
      | MdBookSnapshot s \<Rightarrow> chunk_ok (bse_levels s)
      | MdTrade t q \<Rightarrow> length (te_symbol t) \<le> 24 \<and> 0 < te_price t \<and> 0 < te_quantity t
      | MdInstrument s \<Rightarrow> spec_is_valid s
      | _ \<Rightarrow> True)"

text \<open>The promise of a decoder: on success it appends well-formed events, on failure it appends nothing.\<close>

definition appends_wf :: "MarketDataEvent list \<Rightarrow> decoded \<Rightarrow> bool" where
  "appends_wf out d \<longleftrightarrow>
     (if fst d = DeNone then take (length out) (snd d) = out \<and> list_all event_wf (drop (length out) (snd d)) else snd d = out)"

lemma appends_wf_fail: "e \<noteq> DeNone \<Longrightarrow> appends_wf out (e, out)"
  by (simp add: appends_wf_def)

lemma appends_wf_ok: "list_all event_wf evs \<Longrightarrow> appends_wf out (DeNone, out @ evs)"
  by (simp add: appends_wf_def)

lemma appends_wf_nothing: "appends_wf out (DeNone, out)"
  by (simp add: appends_wf_def)

lemma from_venue_symbol_length: "length (from_venue_symbol s) \<le> 24"
  by (simp add: from_venue_symbol_def inline_assign_def Let_def)

lemma chunk_levels_wf:
  assumes "chunk_levels mk f bids asks = Some ps"
    "\<And>first levels last. chunk_ok levels \<Longrightarrow> event_wf (stamp x r n (mk first levels last))"
  shows "list_all event_wf (map (stamp x r n) ps)"
proof -
  obtain bls where "ps = chunk_run mk f bls" "list_all chunk_ok bls"
    using chunk_levels_correct [of mk f bids asks] assms(1) by (auto split: option.splits)
  then show ?thesis using assms(2) by (auto simp: chunk_run_def list_all_iff)
qed

lemma decode_depth_update_wf: "appends_wf out (decode_depth_update payload recv_ns now out)"
proof -
  have "list_all event_wf (map (stamp x r n) ps)"
    if "chunk_levels (\<lambda>_ levels last. MdBookUpdate
             \<lparr>bue_symbol = from_venue_symbol sym, bue_symbol_id = kInvalidSymbolId, bue_first_update_id = a,
              bue_final_update_id = b, bue_prev_final_update_id = c, bue_levels = levels, bue_is_last = last\<rparr>) True bids asks = Some ps"
      "from_venue_symbol sym \<noteq> []" "\<not> b < a" for x r n sym a b c bids asks ps
    using that by (intro chunk_levels_wf [OF that(1)]) (simp add: event_wf_def stamp_def from_venue_symbol_length)
  then show ?thesis
    by (auto simp: decode_depth_update_def Let_def intro!: appends_wf_fail appends_wf_ok split: option.splits)
qed

lemma decode_trade_wf: "appends_wf out (decode_trade payload recv_ns now out)"
  by (auto simp: decode_trade_def Let_def event_wf_def stamp_def from_venue_symbol_length
      intro!: appends_wf_fail appends_wf_ok split: option.splits)

text \<open>
  C27. Whatever bytes arrive on the stream, in a snapshot response or in an instrument listing, and whatever the JSON
  parser makes of them, a decoder either appends nothing and reports why, or appends only well-formed events after those
  already in the buffer: levels with a positive price and no negative size in chunks of at most sixteen, update ranges
  that are not inverted under a non-empty symbol of at most 24 characters, trades with positive price and size, and
  instruments with a tick and a lot size.
\<close>

theorem decoded_events_are_well_formed:
  "appends_wf out (decode_stream_frame parse frame recv_ns now out)
   \<and> appends_wf out (decode_depth_snapshot parse body symbol recv_ns now out)
   \<and> appends_wf out (decode_exchange_info parse info wanted recv_ns now out)"
proof (intro conjI)
  show "appends_wf out (decode_stream_frame parse frame recv_ns now out)"
    by (auto simp: decode_stream_frame_def decode_payload_def Let_def
        intro!: appends_wf_fail appends_wf_nothing decode_depth_update_wf decode_trade_wf split: option.splits)
  have "list_all event_wf (map (stamp x r n) ps)"
    if "chunk_levels (\<lambda>first levels last. MdBookSnapshot \<lparr>bse_symbol = symbol, bse_symbol_id = kInvalidSymbolId,
           bse_last_update_id = i, bse_levels = levels, bse_is_first = first, bse_is_last = last\<rparr>) True bids asks = Some ps"
    for x r n i bids asks ps
    by (intro chunk_levels_wf [OF that]) (simp add: event_wf_def stamp_def)
  then show "appends_wf out (decode_depth_snapshot parse body symbol recv_ns now out)"
    by (auto simp: decode_depth_snapshot_def intro!: appends_wf_fail appends_wf_ok split: option.splits)
  have "list_all event_wf (map (\<lambda>s. stamp 0 recv_ns now (MdInstrument s)) (List.map_filter (exchange_info_entry wanted) es))" for es
    by (auto simp: list_all_iff List.map_filter_def exchange_info_entry_def event_wf_def stamp_def Let_def
        split: option.splits if_splits)
  then show "appends_wf out (decode_exchange_info parse info wanted recv_ns now out)"
    by (auto simp: decode_exchange_info_def intro!: appends_wf_fail appends_wf_ok split: option.splits)
qed

section \<open>A snapshot is delivered whole\<close>

text \<open>
  A snapshot body with an update id and two level arrays, however long, is delivered as one run of events that
  carries every level of both arrays exactly once and in order, with only the first event marked first and only the last
  one marked last, all under the same update id; if any single level is malformed the whole snapshot is refused and
  nothing is delivered.
\<close>

theorem snapshot_delivered_whole:
  assumes "length body \<le> kMaxFrameBytes" "parse body = Some (JObject kvs)"
    "map_of kvs ''code'' = None \<or> map_of kvs ''msg'' = None"
    "map_of kvs ''lastUpdateId'' = Some idv" "read_seq idv = Some i"
    "map_of kvs ''bids'' = Some (JArray bids)" "map_of kvs ''asks'' = Some (JArray asks)"
  shows "case (read_levels bids, read_levels asks) of
      (Some bs, Some as) \<Rightarrow> \<exists>bls. decode_depth_snapshot parse body symbol recv_ns now out
          = (DeNone, out @ map (stamp 0 recv_ns now) (chunk_run (\<lambda>first levels last. MdBookSnapshot
               \<lparr>bse_symbol = symbol, bse_symbol_id = kInvalidSymbolId, bse_last_update_id = i, bse_levels = levels,
                bse_is_first = first, bse_is_last = last\<rparr>) True bls))
          \<and> bls \<noteq> [] \<and> concat (map bl_bids bls) = bs \<and> concat (map bl_asks bls) = as \<and> list_all chunk_ok bls
    | _ \<Rightarrow> decode_depth_snapshot parse body symbol recv_ns now out = (DeLevelParseFailed, out)"
proof -
  define mk where "mk = (\<lambda>first levels last. MdBookSnapshot
     \<lparr>bse_symbol = symbol, bse_symbol_id = kInvalidSymbolId, bse_last_update_id = i, bse_levels = levels,
      bse_is_first = first, bse_is_last = last\<rparr>)"
  have "decode_depth_snapshot parse body symbol recv_ns now out
      = (case chunk_levels mk True bids asks of None \<Rightarrow> (DeLevelParseFailed, out)
         | Some ps \<Rightarrow> (DeNone, out @ map (stamp 0 recv_ns now) ps))"
    using assms by (auto simp: decode_depth_snapshot_def mk_def not_less)
  then show ?thesis
    using chunk_levels_correct [of mk True bids asks] unfolding mk_def [symmetric] by (auto split: option.splits)
qed

definition demo_level_json :: "string \<Rightarrow> json" where
  "demo_level_json p = JArray [JString p, JString ''1'']"

definition demo_snapshot_json :: json where
  "demo_snapshot_json = JObject [(''lastUpdateId'', JUnsigned 7), (''bids'', JArray (replicate 20 (demo_level_json ''100''))),
     (''asks'', JArray [demo_level_json ''101''])]"

theorem snapshot_delivered_whole_witness:
  "\<exists>bls. decode_depth_snapshot (\<lambda>_. Some demo_snapshot_json) [] ''BTC'' 0 0 []
      = (DeNone, map (stamp 0 0 0) (chunk_run (\<lambda>first levels last. MdBookSnapshot
           \<lparr>bse_symbol = ''BTC'', bse_symbol_id = kInvalidSymbolId, bse_last_update_id = 7, bse_levels = levels,
            bse_is_first = first, bse_is_last = last\<rparr>) True bls))
      \<and> length (concat (map bl_bids bls)) = 20"
proof -
  have l: "read_level (demo_level_json ''100'') = Some \<lparr>pl_price = 10000000000, pl_quantity = 100000000\<rparr>"
    "read_level (demo_level_json ''101'') = Some \<lparr>pl_price = 10100000000, pl_quantity = 100000000\<rparr>"
    by code_simp+
  have r: "read_levels (replicate n (demo_level_json ''100'')) = Some (replicate n \<lparr>pl_price = 10000000000, pl_quantity = 100000000\<rparr>)" for n
    by (induction n) (simp_all add: l)
  have k: "map_of [(''lastUpdateId'', JUnsigned 7), (''bids'', JArray (replicate 20 (demo_level_json ''100''))),
     (''asks'', JArray [demo_level_json ''101''])] x = (if x = ''lastUpdateId'' then Some (JUnsigned 7)
       else if x = ''bids'' then Some (JArray (replicate 20 (demo_level_json ''100'')))
       else if x = ''asks'' then Some (JArray [demo_level_json ''101'']) else None)" for x by simp
  have "case (read_levels (replicate 20 (demo_level_json ''100'')), read_levels [demo_level_json ''101'']) of
      (Some bs, Some as) \<Rightarrow> \<exists>bls. decode_depth_snapshot (\<lambda>_. Some demo_snapshot_json) [] ''BTC'' 0 0 []
          = (DeNone, [] @ map (stamp 0 0 0) (chunk_run (\<lambda>first levels last. MdBookSnapshot
               \<lparr>bse_symbol = ''BTC'', bse_symbol_id = kInvalidSymbolId, bse_last_update_id = 7, bse_levels = levels,
                bse_is_first = first, bse_is_last = last\<rparr>) True bls))
          \<and> bls \<noteq> [] \<and> concat (map bl_bids bls) = bs \<and> concat (map bl_asks bls) = as \<and> list_all chunk_ok bls
    | _ \<Rightarrow> decode_depth_snapshot (\<lambda>_. Some demo_snapshot_json) [] ''BTC'' 0 0 [] = (DeLevelParseFailed, [])"
    by (rule snapshot_delivered_whole [where idv = "JUnsigned 7"])
       (simp_all only: demo_snapshot_json_def k, simp_all)
  then show ?thesis unfolding r using l(2) by auto
qed

end
