(* ===== verification/ReconnectBackoff.thy ===== *)
theory ReconnectBackoff
  imports Prelude "HOL-Library.Word"
begin

text \<open>
  The reconnect schedule of \<^verbatim>\<open>include/mm/exchange/common/ReconnectBackoff.hpp\<close>: bounded exponential backoff
  whose jitter is a hash of the seed and the attempt number. The hash is computed on 64-bit words, a delay is a signed
  64-bit count of nanoseconds, the attempt counter is a \<^verbatim>\<open>uint32_t\<close> and wraps. The abstract schedule is
  \<open>base_delay\<close>, the capped power of two.
\<close>

unbundle bit_operations_syntax

section \<open>Definitions\<close>

record BackoffConfig =
  initial_delay :: int
  max_delay :: int
  jitter_percent :: nat
  max_attempts :: nat

definition default_backoff :: BackoffConfig where
  "default_backoff = \<lparr>initial_delay = 200 * 1000000, max_delay = 30 * 1000000000, jitter_percent = 25, max_attempts = 0\<rparr>"

record ReconnectBackoff =
  rb_config :: BackoffConfig
  rb_seed :: "64 word"
  rb_attempts :: nat

definition new_backoff :: "BackoffConfig \<Rightarrow> 64 word \<Rightarrow> ReconnectBackoff" where
  "new_backoff c seed = \<lparr>rb_config = c, rb_seed = seed, rb_attempts = 0\<rparr>"

text \<open>The doubling loop: at most \<open>attempt\<close> rounds, left as soon as the cap is reached.\<close>

fun double_delay :: "nat \<Rightarrow> int \<Rightarrow> int \<Rightarrow> int" where
  "double_delay 0 delay mx = delay"
| "double_delay (Suc n) delay mx = (if delay < mx then double_delay n (wrap64 (delay * 2)) mx else delay)"

definition jitter_hash :: "64 word \<Rightarrow> nat \<Rightarrow> 64 word" where
  "jitter_hash seed attempt =
    (let h = seed XOR (of_nat attempt * 0x9E3779B97F4A7C15);
         h = h XOR drop_bit 30 h;
         h = h * 0xBF58476D1CE4E5B9
     in h XOR drop_bit 27 h)"

text \<open>The jitter only subtracts, and only when its span is not zero.\<close>

definition apply_jitter :: "BackoffConfig \<Rightarrow> 64 word \<Rightarrow> nat \<Rightarrow> int \<Rightarrow> int" where
  "apply_jitter c seed attempt delay =
    (if jitter_percent c > 0
     then (let h = jitter_hash seed attempt;
               span = ((nat (delay mod 2 ^ 64) * jitter_percent c) mod 2 ^ 64) div 100
           in if span > 0 then wrap64 (delay - int (unat h mod span)) else delay)
     else delay)"

definition next_delay :: "ReconnectBackoff \<Rightarrow> int \<times> ReconnectBackoff" where
  "next_delay b =
    (let attempt = rb_attempts b;
         delay = double_delay attempt (initial_delay (rb_config b)) (max_delay (rb_config b));
         delay = min delay (max_delay (rb_config b))
     in (apply_jitter (rb_config b) (rb_seed b) attempt delay, b\<lparr>rb_attempts := inc32 attempt\<rparr>))"

definition backoff_reset :: "ReconnectBackoff \<Rightarrow> ReconnectBackoff" where
  "backoff_reset b = b\<lparr>rb_attempts := 0\<rparr>"

definition exhausted :: "ReconnectBackoff \<Rightarrow> bool" where
  "exhausted b \<longleftrightarrow> max_attempts (rb_config b) \<noteq> 0 \<and> max_attempts (rb_config b) \<le> rb_attempts b"

section \<open>The schedule\<close>

definition base_delay :: "BackoffConfig \<Rightarrow> nat \<Rightarrow> int" where
  "base_delay c n = min (initial_delay c * 2 ^ n) (max_delay c)"

text \<open>A sane configuration: positive delays, a jitter of at most the whole delay, and no 64-bit overflow in the span.\<close>

definition backoff_ok :: "BackoffConfig \<Rightarrow> bool" where
  "backoff_ok c \<longleftrightarrow> 0 < initial_delay c \<and> 0 < max_delay c \<and> max_delay c \<le> 2 ^ 57 \<and> initial_delay c \<le> 2 ^ 62
     \<and> jitter_percent c \<le> 100"

lemma double_delay_base:
  assumes "0 < d" "0 < mx" "mx \<le> 2 ^ 57"
  shows "min (double_delay n d mx) mx = min (d * 2 ^ n) mx"
  using assms(1)
proof (induction n arbitrary: d)
  case (Suc n)
  show ?case
  proof (cases "d < mx")
    case True
    then have w: "wrap64 (d * 2) = d * 2" using assms Suc.prems by (intro wrap64_id) (simp add: in64_def)
    have "min (double_delay n (d * 2) mx) mx = min (d * 2 * 2 ^ n) mx" using Suc.prems by (intro Suc.IH) simp
    then show ?thesis using True w by (simp add: mult.assoc)
  next
    case False
    have "d * 1 \<le> d * 2 ^ Suc n"
      using Suc.prems one_le_power [of "2 :: int" "Suc n"] by (intro mult_left_mono) simp_all
    then have "mx \<le> d * 2 ^ Suc n" using False by linarith
    then show ?thesis using False by (simp add: min_absorb2 del: power_Suc)
  qed
qed simp

lemma base_delay_range: "backoff_ok c \<Longrightarrow> 0 < base_delay c n \<and> base_delay c n \<le> max_delay c"
  by (simp add: backoff_ok_def base_delay_def)

lemma jitter_span:
  fixes d :: int
  assumes "0 < d" "d \<le> 2 ^ 57" "j \<le> 100"
  shows "((nat (d mod 2 ^ 64) * j) mod 2 ^ 64) div 100 = nat (d * int j div 100)"
proof -
  have "d mod 2 ^ 64 = d" using assms by simp
  moreover have "nat d * j < 2 ^ 64"
  proof -
    have "nat d * j \<le> 2 ^ 57 * 100" using assms by (intro mult_le_mono) auto
    then show ?thesis by simp
  qed
  ultimately show ?thesis using assms by (simp add: nat_div_distrib nat_mult_distrib)
qed

lemma next_delay_eq:
  assumes "backoff_ok (rb_config b)"
  defines "d \<equiv> base_delay (rb_config b) (rb_attempts b)"
  defines "span \<equiv> nat (d * int (jitter_percent (rb_config b)) div 100)"
  shows "next_delay b = (if span > 0 then d - int (unat (jitter_hash (rb_seed b) (rb_attempts b)) mod span) else d,
           b\<lparr>rb_attempts := inc32 (rb_attempts b)\<rparr>)"
proof -
  have d: "min (double_delay (rb_attempts b) (initial_delay (rb_config b)) (max_delay (rb_config b))) (max_delay (rb_config b)) = d"
    using assms(1) unfolding d_def base_delay_def backoff_ok_def by (intro double_delay_base) auto
  have r: "0 < d" "d \<le> 2 ^ 57" "jitter_percent (rb_config b) \<le> 100"
    using assms(1) base_delay_range [OF assms(1), of "rb_attempts b"] by (auto simp: d_def backoff_ok_def)
  note sp = jitter_span [OF r, folded span_def]
  have "int span \<le> d"
  proof -
    have "d * int (jitter_percent (rb_config b)) \<le> d * 100" using r by (intro mult_left_mono) auto
    then have "d * int (jitter_percent (rb_config b)) div 100 \<le> d" by linarith
    then show ?thesis using r by (simp add: span_def)
  qed
  then have "in64 (d - int (unat (jitter_hash (rb_seed b) (rb_attempts b)) mod span))" if "span > 0"
    using r that mod_less_divisor [OF that, of "unat (jitter_hash (rb_seed b) (rb_attempts b))"]
    by (simp add: in64_def)
  then have w: "wrap64 (d - int (unat (jitter_hash (rb_seed b) (rb_attempts b)) mod span))
      = d - int (unat (jitter_hash (rb_seed b) (rb_attempts b)) mod span)" if "span > 0"
    using that by (intro wrap64_id)
  have z: "span = 0" if "jitter_percent (rb_config b) = 0" using that by (simp add: span_def)
  show ?thesis
    unfolding next_delay_def apply_jitter_def Let_def d sp by (auto simp only: w z split: if_splits)
qed

text \<open>
  For every configuration with positive delays, a jitter of at most 100 percent and a cap of at most \<open>2 ^ 57\<close>
  nanoseconds, and every seed and attempt number, the delay is positive, never longer than the capped exponential
  schedule \<open>base_delay\<close>, never shorter than that schedule less its jitter share, and the attempt is
  counted once.
\<close>

theorem next_delay_bounds:
  assumes "backoff_ok (rb_config b)"
  shows "0 < fst (next_delay b)
       \<and> fst (next_delay b) \<le> base_delay (rb_config b) (rb_attempts b)
       \<and> fst (next_delay b) \<le> max_delay (rb_config b)
       \<and> base_delay (rb_config b) (rb_attempts b) * (100 - int (jitter_percent (rb_config b))) \<le> 100 * fst (next_delay b)
       \<and> snd (next_delay b) = b\<lparr>rb_attempts := inc32 (rb_attempts b)\<rparr>"
proof -
  define d where "d = base_delay (rb_config b) (rb_attempts b)"
  define j where "j = int (jitter_percent (rb_config b))"
  define span where "span = nat (d * j div 100)"
  define r where "r = (if span > 0 then int (unat (jitter_hash (rb_seed b) (rb_attempts b)) mod span) else 0)"
  have nd: "next_delay b = (d - r, b\<lparr>rb_attempts := inc32 (rb_attempts b)\<rparr>)"
    unfolding next_delay_eq [OF assms] r_def span_def d_def j_def by simp
  have rg: "0 < d" "d \<le> max_delay (rb_config b)" "0 \<le> j" "j \<le> 100"
    using assms base_delay_range [OF assms, of "rb_attempts b"] by (auto simp: d_def j_def backoff_ok_def)
  have "0 \<le> d * j div 100" using rg by (simp add: pos_imp_zdiv_nonneg_iff)
  then have "int span = d * j div 100" by (simp add: span_def)
  then have sp: "100 * int span \<le> d * j" by presburger
  have "d * j \<le> d * 100" using rg by (intro mult_left_mono) auto
  then have "int span \<le> d" using sp by linarith
  moreover have r0: "0 \<le> r" "span > 0 \<longrightarrow> r < int span" "span = 0 \<longrightarrow> r = 0" by (auto simp: r_def)
  moreover have "100 * r \<le> d * j" using r0 sp by (cases "span = 0") auto
  ultimately show ?thesis
    unfolding nd d_def [symmetric] j_def [symmetric] using rg by (auto simp: algebra_simps)
qed

theorem next_delay_bounds_witness:
  "let b = \<lparr>rb_config = default_backoff, rb_seed = 7, rb_attempts = 3\<rparr>
   in 0 < fst (next_delay b) \<and> fst (next_delay b) \<le> 1600000000 \<and> 1200000000 \<le> fst (next_delay b)"
proof -
  define b where "b = \<lparr>rb_config = default_backoff, rb_seed = 7, rb_attempts = 3\<rparr>"
  have ok: "backoff_ok (rb_config b)" by (simp add: b_def backoff_ok_def default_backoff_def)
  have "base_delay (rb_config b) (rb_attempts b) = 1600000000" "jitter_percent (rb_config b) = 25"
    by (simp_all add: b_def base_delay_def default_backoff_def)
  then show ?thesis using next_delay_bounds [OF ok] unfolding b_def [symmetric] Let_def by simp
qed

section \<open>Exhaustion\<close>

definition retry :: "nat \<Rightarrow> ReconnectBackoff \<Rightarrow> ReconnectBackoff" where
  "retry n b = ((\<lambda>b. snd (next_delay b)) ^^ n) b"

lemma next_delay_attempts [simp]:
  "rb_attempts (snd (next_delay b)) = inc32 (rb_attempts b)" "rb_config (snd (next_delay b)) = rb_config b"
  by (simp_all add: next_delay_def Let_def)

lemma retry_Suc [simp]: "retry 0 b = b" "retry (Suc n) b = snd (next_delay (retry n b))"
  by (simp_all add: retry_def)

lemma retry_config [simp]: "rb_config (retry n b) = rb_config b"
  by (induction n) simp_all

lemma retry_attempts: "rb_attempts b + n < 2 ^ 32 \<Longrightarrow> rb_attempts (retry n b) = rb_attempts b + n"
  by (induction n) (simp_all add: inc32_def)

text \<open>After a reset, a bounded schedule is exhausted after exactly \<open>max_attempts\<close> further delays.\<close>

lemma exhausted_after:
  assumes "n < 2 ^ 32"
  shows "exhausted (retry n (backoff_reset b)) \<longleftrightarrow> max_attempts (rb_config b) \<noteq> 0 \<and> max_attempts (rb_config b) \<le> n"
  using retry_attempts [where n = n and b = "backoff_reset b"] assms by (simp add: exhausted_def backoff_reset_def)

end
