(* ===== verification/BinanceTransport.thy ===== *)
theory BinanceTransport
  imports BinanceCodec ReconnectBackoff
begin

text \<open>
  The Binance transport, \<^verbatim>\<open>exchange/binance/BinanceTransport\<close>: the one-shot REST request and the reconnecting
  WebSocket session. The sockets, TLS and the event loop are the Boost libraries: an asynchronous operation is a pending
  completion, which the environment delivers with an outcome of its choice, an error carrying the library's message. A
  REST request has one pending operation at a time, its stage; a session keeps the list of its pending operations, which
  complete in any order. The callbacks a session makes are returned by the operation that makes them, oldest first, and
  carry the reconnect count at that moment. What the library does with deadlines, options and buffers is not visible here
  except as the error it reports.
\<close>

section \<open>REST requests\<close>

type_synonym rest_result = "(ErrorCode \<times> string) + string"

datatype RestStage = RsResolve | RsConnect | RsHandshake | RsWrite | RsRead | RsIdle

text \<open>The client counts what it issues, and its requests count their failures in it.\<close>

record RestClient =
  rc_issued :: nat
  rc_failed :: nat

text \<open>One request; the answers are the calls of its handler.\<close>

record RestRequest =
  rr_target :: string
  rr_stage :: RestStage
  rr_completed :: bool
  rr_answers :: "rest_result list"

definition rest_finish :: "RestClient \<Rightarrow> RestRequest \<Rightarrow> rest_result \<Rightarrow> RestClient \<times> RestRequest" where
  "rest_finish c r result =
     (if rr_completed r then (c, r)
      else (case result of Inl e \<Rightarrow> c\<lparr>rc_failed := inc64 (rc_failed c)\<rparr> | Inr b \<Rightarrow> c,
            r\<lparr>rr_completed := True, rr_answers := rr_answers r @ [result]\<rparr>))"

definition rest_await :: "RestClient \<Rightarrow> RestRequest \<Rightarrow> RestStage \<Rightarrow> RestClient \<times> RestRequest" where
  "rest_await c r st = (c, r\<lparr>rr_stage := st\<rparr>)"

definition rest_run :: "RestClient \<Rightarrow> RestRequest \<Rightarrow> bool \<Rightarrow> RestClient \<times> RestRequest" where
  "rest_run c r sni_set =
     (if \<not> sni_set then rest_finish c r (Inl (Internal, ''cannot set the TLS SNI hostname''))
      else rest_await c r RsResolve)"

definition async_get :: "RestClient \<Rightarrow> string \<Rightarrow> bool \<Rightarrow> RestClient \<times> RestRequest" where
  "async_get c target sni_set =
     rest_run (c\<lparr>rc_issued := inc64 (rc_issued c)\<rparr>)
       \<lparr>rr_target = target, rr_stage = RsIdle, rr_completed = False, rr_answers = []\<rparr> sni_set"

definition on_resolve :: "RestClient \<Rightarrow> RestRequest \<Rightarrow> string option \<Rightarrow> RestClient \<times> RestRequest" where
  "on_resolve c r ec = (case ec of Some m \<Rightarrow> rest_finish c r (Inl (Unavailable, ''DNS resolution failed: '' @ m))
                        | None \<Rightarrow> rest_await c r RsConnect)"

definition on_connect :: "RestClient \<Rightarrow> RestRequest \<Rightarrow> string option \<Rightarrow> RestClient \<times> RestRequest" where
  "on_connect c r ec = (case ec of Some m \<Rightarrow> rest_finish c r (Inl (Unavailable, ''connect failed: '' @ m))
                        | None \<Rightarrow> rest_await c r RsHandshake)"

definition on_handshake :: "RestClient \<Rightarrow> RestRequest \<Rightarrow> string option \<Rightarrow> RestClient \<times> RestRequest" where
  "on_handshake c r ec = (case ec of Some m \<Rightarrow> rest_finish c r (Inl (Unavailable, ''TLS handshake failed: '' @ m))
                          | None \<Rightarrow> rest_await c r RsWrite)"

definition on_write :: "RestClient \<Rightarrow> RestRequest \<Rightarrow> string option \<Rightarrow> RestClient \<times> RestRequest" where
  "on_write c r ec = (case ec of Some m \<Rightarrow> rest_finish c r (Inl (Unavailable, ''write failed: '' @ m))
                      | None \<Rightarrow> rest_await c r RsRead)"

text \<open>A body of at most 120 characters is quoted in the message.\<close>

definition on_read :: "RestClient \<Rightarrow> RestRequest \<Rightarrow> string option \<Rightarrow> nat \<Rightarrow> string \<Rightarrow> RestClient \<times> RestRequest" where
  "on_read c r ec status body =
     (case ec of
        Some m \<Rightarrow> rest_finish c r (Inl (Timeout, ''read failed: '' @ m))
      | None \<Rightarrow>
          if status \<noteq> 200
          then (let throttled = (status = 429 \<or> status = 418)
                in rest_finish c r (Inl (if throttled then Unavailable else Rejected,
                     ''HTTP '' @ uint_to_string (int status) @ '': '' @ take 120 body)))
          else rest_finish c r (Inr body))"

text \<open>How the pending operation completes: an error, or success, with the response when it was the read.\<close>

record RestOutcome =
  ro_error :: "string option"
  ro_status :: nat
  ro_body :: string

definition rest_complete :: "RestClient \<Rightarrow> RestRequest \<Rightarrow> RestOutcome \<Rightarrow> RestClient \<times> RestRequest" where
  "rest_complete c r out =
     (let r1 = r\<lparr>rr_stage := RsIdle\<rparr>
      in case rr_stage r of
           RsResolve \<Rightarrow> on_resolve c r1 (ro_error out)
         | RsConnect \<Rightarrow> on_connect c r1 (ro_error out)
         | RsHandshake \<Rightarrow> on_handshake c r1 (ro_error out)
         | RsWrite \<Rightarrow> on_write c r1 (ro_error out)
         | RsRead \<Rightarrow> on_read c r1 (ro_error out) (ro_status out) (ro_body out)
         | RsIdle \<Rightarrow> (c, r))"

section \<open>The WebSocket session\<close>

text \<open>A wait of the reconnect timer is pending as \<open>OpTimer\<close> until it expires; then its handler is queued, \<open>OpExpired\<close>.\<close>

datatype WsOp = OpResolve | OpConnect | OpTls | OpHandshake | OpRead | OpWrite | OpTimer | OpExpired

datatype WsCall = CallState ConnectionState string nat | CallMessage string nanos

record WsConfig =
  wsc_host :: string
  wsc_port :: string
  wsc_target :: string
  wsc_backoff :: BackoffConfig
  wsc_seed :: "64 word"

text \<open>
  \<open>ws_accepted\<close> and \<open>ws_begun\<close> are ghost state: the payloads taken by \<open>send_text\<close> and those whose write began. A write
  that began may still fail, and its payload is then erased unsent.
\<close>

record WsSession =
  ws_config :: WsConfig
  ws_has_stream :: bool
  ws_write_queue :: "string list"
  ws_writing :: bool
  ws_state :: ConnectionState
  ws_backoff :: ReconnectBackoff
  ws_stopping :: bool
  ws_reconnects :: nat
  ws_frames :: nat
  ws_pending :: "WsOp list"
  ws_accepted :: "string list"
  ws_begun :: "string list"

definition new_ws :: "WsConfig \<Rightarrow> WsSession" where
  "new_ws c = \<lparr>ws_config = c, ws_has_stream = False, ws_write_queue = [], ws_writing = False, ws_state = CnDisconnected,
     ws_backoff = new_backoff (wsc_backoff c) (wsc_seed c), ws_stopping = False, ws_reconnects = 0, ws_frames = 0,
     ws_pending = [], ws_accepted = [], ws_begun = []\<rparr>"

definition ws_set_state :: "WsSession \<Rightarrow> ConnectionState \<Rightarrow> string \<Rightarrow> WsSession \<times> WsCall list" where
  "ws_set_state w st reason =
     (if ws_state w = st then (w, []) else (w\<lparr>ws_state := st\<rparr>, [CallState st reason (ws_reconnects w)]))"

definition ws_await :: "WsSession \<Rightarrow> WsOp \<Rightarrow> WsSession" where
  "ws_await w p = w\<lparr>ws_pending := ws_pending w @ [p]\<rparr>"

text \<open>
  Setting a new expiry cancels the wait that is pending, and a cancelled wait does nothing; a wait that has expired can
  no longer be cancelled.
\<close>

definition ws_arm_timer :: "WsSession \<Rightarrow> WsSession" where
  "ws_arm_timer w = w\<lparr>ws_pending := filter (\<lambda>p. p \<noteq> OpTimer) (ws_pending w) @ [OpTimer]\<rparr>"

definition ws_expire :: "WsSession \<Rightarrow> nat \<Rightarrow> WsSession" where
  "ws_expire w i =
     (if i < length (ws_pending w) \<and> ws_pending w ! i = OpTimer then w\<lparr>ws_pending := (ws_pending w)[i := OpExpired]\<rparr> else w)"

definition schedule_reconnect :: "WsSession \<Rightarrow> string \<Rightarrow> WsSession \<times> WsCall list" where
  "schedule_reconnect w reason =
     (if ws_stopping w then (w, [])
      else if exhausted (ws_backoff w) then ws_set_state w CnFailed ''reconnect budget exhausted''
      else
        let w1 = w\<lparr>ws_reconnects := inc32 (ws_reconnects w)\<rparr>;
            (w2, calls) = ws_set_state w1 CnReconnecting reason;
            w3 = w2\<lparr>ws_backoff := snd (next_delay (ws_backoff w2))\<rparr>
        in (ws_arm_timer w3, calls))"

definition ws_fail :: "WsSession \<Rightarrow> string \<Rightarrow> string \<Rightarrow> WsSession \<times> WsCall list" where
  "ws_fail w message what = schedule_reconnect w (what @ '': '' @ message)"

definition do_connect :: "WsSession \<Rightarrow> WsSession \<times> WsCall list" where
  "do_connect w =
     (if ws_stopping w then (w, [])
      else
        let (w1, calls) = ws_set_state w CnConnecting ''dialling''
        in (ws_await (w1\<lparr>ws_has_stream := True\<rparr>) OpResolve, calls))"

definition ws_start :: "WsSession \<Rightarrow> WsSession \<times> WsCall list" where
  "ws_start w = do_connect (w\<lparr>ws_stopping := False\<rparr>)"

definition ws_stop :: "WsSession \<Rightarrow> WsSession \<times> WsCall list" where
  "ws_stop w =
     ws_set_state (w\<lparr>ws_stopping := True, ws_write_queue := [], ws_writing := False,
                      ws_pending := filter (\<lambda>p. p \<noteq> OpTimer) (ws_pending w)\<rparr>) CnDisconnected ''stopped''"

definition write_next :: "WsSession \<Rightarrow> WsSession" where
  "write_next w =
     (if ws_write_queue w = [] \<or> \<not> ws_has_stream w \<or> ws_stopping w then w\<lparr>ws_writing := False\<rparr>
      else ws_await (w\<lparr>ws_writing := True, ws_begun := ws_begun w @ [hd (ws_write_queue w)]\<rparr>) OpWrite)"

definition send_text :: "WsSession \<Rightarrow> string \<Rightarrow> WsSession \<times> bool" where
  "send_text w payload =
     (if ws_state w \<noteq> CnConnected \<or> \<not> ws_has_stream w then (w, False)
      else
        let w1 = w\<lparr>ws_write_queue := ws_write_queue w @ [payload], ws_accepted := ws_accepted w @ [payload]\<rparr>
        in (if \<not> ws_writing w1 then write_next w1 else w1, True))"

definition read_loop :: "WsSession \<Rightarrow> WsSession" where
  "read_loop w = (if ws_stopping w \<or> \<not> ws_has_stream w then w else ws_await w OpRead)"

text \<open>
  The outcomes of an operation: an error, or success. Success says whether the SNI name can be set, which only a connect
  reads, and the frame with the instant it was read, which only a read has.
\<close>

datatype WsOutcome = OutError string | OutDone bool string nanos

fun on_dialled :: "WsSession \<Rightarrow> WsOp \<Rightarrow> WsOutcome \<Rightarrow> WsSession \<times> WsCall list" where
  "on_dialled w OpResolve (OutError m) = ws_fail w m ''resolve''"
| "on_dialled w OpResolve (OutDone sni_set frame recv_ns) = (ws_await w OpConnect, [])"
| "on_dialled w OpConnect (OutError m) = ws_fail w m ''connect''"
| "on_dialled w OpConnect (OutDone sni_set frame recv_ns) =
     (if \<not> sni_set then schedule_reconnect w ''cannot set the TLS SNI hostname'' else (ws_await w OpTls, []))"
| "on_dialled w OpTls (OutError m) = ws_fail w m ''TLS handshake''"
| "on_dialled w OpTls (OutDone sni_set frame recv_ns) = (ws_await w OpHandshake, [])"
| "on_dialled w OpHandshake (OutError m) = ws_fail w m ''WebSocket handshake''"
| "on_dialled w OpHandshake (OutDone sni_set frame recv_ns) =
     (let (w1, calls) = ws_set_state (w\<lparr>ws_backoff := backoff_reset (ws_backoff w)\<rparr>) CnConnected ''connected''
      in (read_loop w1, calls))"
| "on_dialled w p v = (w, [])"

definition on_written :: "WsSession \<Rightarrow> WsOutcome \<Rightarrow> WsSession \<times> WsCall list" where
  "on_written w v =
     (let w1 = w\<lparr>ws_write_queue := tl (ws_write_queue w)\<rparr>
      in case v of
           OutError m \<Rightarrow>
             (let w2 = w1\<lparr>ws_writing := False\<rparr> in if \<not> ws_stopping w2 then ws_fail w2 m ''write'' else (w2, []))
         | _ \<Rightarrow> (write_next w1, []))"

definition on_frame :: "WsSession \<Rightarrow> WsOutcome \<Rightarrow> WsSession \<times> WsCall list" where
  "on_frame w v =
     (case v of
        OutError m \<Rightarrow> if ws_stopping w then (w, []) else ws_fail w m ''read''
      | OutDone sni_set frame recv_ns \<Rightarrow>
          (read_loop (w\<lparr>ws_frames := inc64 (ws_frames w)\<rparr>), [CallMessage frame recv_ns]))"

definition on_reconnect_timer :: "WsSession \<Rightarrow> WsOutcome \<Rightarrow> WsSession \<times> WsCall list" where
  "on_reconnect_timer w v =
     (case v of OutError m \<Rightarrow> (w, []) | _ \<Rightarrow> if ws_stopping w then (w, []) else do_connect w)"

text \<open>The \<open>i\<close>-th pending operation completes; a wait that had expired always without an error.\<close>

definition ws_complete :: "WsSession \<Rightarrow> nat \<Rightarrow> WsOutcome \<Rightarrow> WsSession \<times> WsCall list" where
  "ws_complete w i v =
     (if i < length (ws_pending w)
      then (let p = ws_pending w ! i;
                w1 = w\<lparr>ws_pending := take i (ws_pending w) @ drop (Suc i) (ws_pending w)\<rparr>
            in case p of
                 OpWrite \<Rightarrow> on_written w1 v
               | OpRead \<Rightarrow> on_frame w1 v
               | OpTimer \<Rightarrow> on_reconnect_timer w1 v
               | OpExpired \<Rightarrow> on_reconnect_timer w1 (OutDone True [] 0)
               | _ \<Rightarrow> on_dialled w1 p v)
      else (w, []))"

section \<open>A request is answered exactly once\<close>

fun rest_completions :: "RestClient \<Rightarrow> RestRequest \<Rightarrow> RestOutcome list \<Rightarrow> RestClient \<times> RestRequest" where
  "rest_completions c r [] = (c, r)"
| "rest_completions c r (v # vs) = (let (c1, r1) = rest_complete c r v in rest_completions c1 r1 vs)"

text \<open>A whole exchange: the request is issued and its operations complete with the given outcomes.\<close>

definition rest_exchange :: "RestClient \<Rightarrow> string \<Rightarrow> bool \<Rightarrow> RestOutcome list \<Rightarrow> RestClient \<times> RestRequest" where
  "rest_exchange c target sni_set vs = (let (c1, r) = async_get c target sni_set in rest_completions c1 r vs)"

text \<open>How many completions a request still waits for.\<close>

fun stage_left :: "RestStage \<Rightarrow> nat" where
  "stage_left RsResolve = 5"
| "stage_left RsConnect = 4"
| "stage_left RsHandshake = 3"
| "stage_left RsWrite = 2"
| "stage_left RsRead = 1"
| "stage_left RsIdle = 0"

text \<open>The two states of a request: unanswered with an operation pending, or answered with nothing pending.\<close>

definition request_inv :: "RestRequest \<Rightarrow> bool" where
  "request_inv r \<longleftrightarrow> (if rr_completed r then rr_stage r = RsIdle \<and> length (rr_answers r) = 1
                      else rr_stage r \<noteq> RsIdle \<and> rr_answers r = [])"

lemmas rest_step_defs = rest_complete_def on_resolve_def on_connect_def on_handshake_def on_write_def on_read_def
  rest_finish_def rest_await_def Let_def

lemma rest_complete_inv:
  assumes "request_inv r"
  shows "request_inv (snd (rest_complete c r v))
    \<and> stage_left (rr_stage (snd (rest_complete c r v))) \<le> stage_left (rr_stage r) - 1"
  using assms by (cases "rr_stage r") (auto simp: rest_step_defs request_inv_def split: option.split if_splits)

lemma rest_completions_inv:
  "request_inv r \<Longrightarrow> request_inv (snd (rest_completions c r vs))
    \<and> stage_left (rr_stage (snd (rest_completions c r vs))) \<le> stage_left (rr_stage r) - length vs"
proof (induction vs arbitrary: c r)
  case (Cons v vs)
  obtain c1 r1 where r1: "rest_complete c r v = (c1, r1)" by fastforce
  then have step: "request_inv r1" "stage_left (rr_stage r1) \<le> stage_left (rr_stage r) - 1"
    using rest_complete_inv [OF Cons.prems, of c v] by simp_all
  from Cons.IH [OF step(1), of c1] step(2) show ?case by (simp add: r1) linarith
qed simp

lemma async_get_inv: "request_inv (snd (async_get c target sni_set))"
  by (simp add: async_get_def rest_run_def rest_finish_def rest_await_def request_inv_def)

text \<open>
  C36. A REST request answers its caller exactly once on every path: after any sequence of outcomes it has called the
  handler at most once, and once the library has delivered five completions it has called it, with the body when every
  step succeeded and the status was 200, and with an error otherwise.
\<close>

theorem request_answered_exactly_once:
  "length (rr_answers (snd (rest_exchange c target sni_set vs))) \<le> 1
   \<and> (length vs = 5 \<longrightarrow>
      (\<exists>result. rr_answers (snd (rest_exchange c target sni_set vs)) = [result]
        \<and> (sni_set \<and> (\<forall>v\<in>set vs. ro_error v = None) \<and> ro_status (last vs) = 200 \<longrightarrow> result = Inr (ro_body (last vs)))
        \<and> (\<not> (sni_set \<and> (\<forall>v\<in>set vs. ro_error v = None) \<and> ro_status (last vs) = 200) \<longrightarrow> (\<exists>e. result = Inl e))))"
proof -
  let ?r = "snd (rest_exchange c target sni_set vs)"
  have inv: "request_inv ?r"
    using rest_completions_inv [OF async_get_inv] by (simp add: rest_exchange_def split_beta)
  have most: "length (rr_answers ?r) \<le> 1" using inv by (auto simp: request_inv_def split: if_splits)
  have five: "\<exists>result. rr_answers ?r = [result]
        \<and> (sni_set \<and> (\<forall>v\<in>set vs. ro_error v = None) \<and> ro_status (last vs) = 200 \<longrightarrow> result = Inr (ro_body (last vs)))
        \<and> (\<not> (sni_set \<and> (\<forall>v\<in>set vs. ro_error v = None) \<and> ro_status (last vs) = 200) \<longrightarrow> (\<exists>e. result = Inl e))"
    if "length vs = 5"
  proof -
    from that obtain v1 v2 v3 v4 v5 where vs: "vs = [v1, v2, v3, v4, v5]"
      by (auto simp: length_Suc_conv numeral_eq_Suc)
    show ?thesis unfolding vs
      by (cases sni_set; cases "ro_error v1"; cases "ro_error v2"; cases "ro_error v3"; cases "ro_error v4";
          cases "ro_error v5"; cases "ro_status v5 = 200")
         (simp_all add: rest_step_defs rest_exchange_def async_get_def rest_run_def)
  qed
  from most five show ?thesis by blast
qed

text \<open>Four successful steps and a throttled response, and a response that arrives whole.\<close>

definition demo_outcome :: "nat \<Rightarrow> RestOutcome" where
  "demo_outcome status = \<lparr>ro_error = None, ro_status = status, ro_body = ''{}''\<rparr>"

theorem request_answered_exactly_once_witness:
  "rr_answers (snd (rest_exchange \<lparr>rc_issued = 0, rc_failed = 0\<rparr> ''/api'' True (replicate 5 (demo_outcome 200)))) = [Inr ''{}'']
   \<and> length (rr_answers (snd (rest_exchange \<lparr>rc_issued = 0, rc_failed = 0\<rparr> ''/api'' True (replicate 5 (demo_outcome 429))))) = 1"
proof -
  let ?c = "\<lparr>rc_issued = 0, rc_failed = 0\<rparr>"
  have ok: "\<forall>v\<in>set (replicate 5 (demo_outcome s)). ro_error v = None" "ro_status (last (replicate 5 (demo_outcome s))) = s"
    "ro_body (last (replicate 5 (demo_outcome s))) = ''{}''" for s
    by (simp_all add: demo_outcome_def)
  have "length (rr_answers (snd (rest_exchange ?c ''/api'' True (replicate 5 (demo_outcome 429))))) = 1"
    using request_answered_exactly_once [of ?c "''/api''" True "replicate 5 (demo_outcome 429)"] by auto
  then show ?thesis
    using request_answered_exactly_once [of ?c "''/api''" True "replicate 5 (demo_outcome 200)"] ok [of 200] by auto
qed

section \<open>Sessions\<close>

text \<open>
  The histories of a session that is started once, as the adapter does: completions of its pending operations in any
  order and with any outcome, waits that expire, payloads handed to it, and being stopped.
\<close>

inductive ws_run :: "WsConfig \<Rightarrow> WsSession \<Rightarrow> bool" for c where
  ws_started: "ws_run c (fst (ws_start (new_ws c)))"
| ws_completed: "ws_run c w \<Longrightarrow> ws_run c (fst (ws_complete w i v))"
| ws_expired: "ws_run c w \<Longrightarrow> ws_run c (ws_expire w i)"
| ws_sent: "ws_run c w \<Longrightarrow> ws_run c (fst (send_text w payload))"
| ws_stopped: "ws_run c w \<Longrightarrow> ws_run c (fst (ws_stop w))"

text \<open>What the state changes leave alone, and what they announce.\<close>

fun states_of :: "WsCall list \<Rightarrow> ConnectionState list" where
  "states_of [] = []"
| "states_of (CallState st reason n # cs) = st # states_of cs"
| "states_of (CallMessage frame recv_ns # cs) = states_of cs"

definition announced_change :: "WsSession \<Rightarrow> WsSession \<times> WsCall list \<Rightarrow> bool" where
  "announced_change w q \<longleftrightarrow>
     states_of (snd q) = (if ws_state (fst q) = ws_state w then [] else [ws_state (fst q)])"

lemma read_loop_simps [simp]:
  "ws_state (read_loop w) = ws_state w" "ws_state (write_next w) = ws_state w" "ws_state (ws_await w p) = ws_state w"
  "ws_state (ws_arm_timer w) = ws_state w" "ws_state (ws_expire w i) = ws_state w"
  by (simp_all add: read_loop_def write_next_def ws_await_def ws_arm_timer_def ws_expire_def)

lemma ws_set_state_announced: "announced_change w (ws_set_state w st reason)"
  by (simp add: announced_change_def ws_set_state_def)

lemma announced_frame:
  "announced_change w q \<Longrightarrow> ws_state w = ws_state w' \<Longrightarrow> ws_state u = ws_state (fst q) \<Longrightarrow> announced_change w' (u, snd q)"
  "ws_state u = ws_state w' \<Longrightarrow> states_of cs = [] \<Longrightarrow> announced_change w' (u, cs)"
  by (simp_all add: announced_change_def)

lemma schedule_reconnect_announced: "announced_change w (schedule_reconnect w reason)"
  by (simp add: schedule_reconnect_def announced_change_def ws_set_state_def Let_def)

lemma do_connect_announced: "announced_change w (do_connect w)"
  by (simp add: do_connect_def announced_change_def ws_set_state_def Let_def)

lemma on_dialled_announced: "announced_change w (on_dialled w p v)"
  by (cases "(w, p, v)" rule: on_dialled.cases)
     (simp_all add: ws_fail_def schedule_reconnect_announced announced_frame(2), simp add: announced_change_def ws_set_state_def)

lemma announced_same_state: "ws_state w = ws_state w' \<Longrightarrow> announced_change w q = announced_change w' q"
  by (simp add: announced_change_def)

lemma ws_complete_announced: "announced_change w (ws_complete w i v)"
proof -
  let ?w1 = "w\<lparr>ws_pending := take i (ws_pending w) @ drop (Suc i) (ws_pending w)\<rparr>"
  have wr: "announced_change ?w1 (on_written ?w1 v)"
    using schedule_reconnect_announced
      [of "?w1\<lparr>ws_write_queue := tl (ws_write_queue ?w1), ws_writing := False\<rparr>"]
    by (cases v) (simp_all add: on_written_def ws_fail_def announced_change_def Let_def)
  have rd: "announced_change ?w1 (on_frame ?w1 v)"
    using schedule_reconnect_announced [of ?w1] by (cases v) (simp_all add: on_frame_def ws_fail_def announced_change_def)
  have tm: "announced_change ?w1 (on_reconnect_timer ?w1 v)" for v
    using do_connect_announced [of ?w1] by (cases v) (simp_all add: on_reconnect_timer_def announced_change_def)
  have same: "announced_change w q = announced_change ?w1 q" for q by (rule announced_same_state) simp
  show ?thesis
    using wr rd tm on_dialled_announced unfolding ws_complete_def Let_def same
    by (simp add: announced_change_def split: WsOp.split)
qed

lemma ws_stop_announced: "announced_change w (ws_stop w)"
  by (simp add: ws_stop_def announced_change_def ws_set_state_def)

lemma ws_start_announced: "announced_change w (ws_start w)"
  using do_connect_announced [of "w\<lparr>ws_stopping := False\<rparr>"] by (simp add: ws_start_def announced_change_def)

lemma send_text_state: "ws_state (fst (send_text w payload)) = ws_state w"
  by (simp add: send_text_def Let_def)

section \<open>The session invariant\<close>

definition writes_in_order :: "WsSession \<Rightarrow> bool" where
  "writes_in_order w \<longleftrightarrow>
     (if ws_stopping w then \<not> ws_writing w \<and> (\<exists>later. ws_accepted w = ws_begun w @ later)
      else ws_begun w @ (if ws_writing w then tl (ws_write_queue w) else ws_write_queue w) = ws_accepted w
        \<and> (ws_writing w \<longrightarrow> ws_write_queue w \<noteq> []) \<and> (ws_writing w \<longleftrightarrow> OpWrite \<in> set (ws_pending w)))"

definition budget_kept :: "WsConfig \<Rightarrow> WsSession \<Rightarrow> bool" where
  "budget_kept c w \<longleftrightarrow> rb_config (ws_backoff w) = wsc_backoff c
     \<and> (max_attempts (wsc_backoff c) \<noteq> 0 \<longrightarrow> rb_attempts (ws_backoff w) \<le> max_attempts (wsc_backoff c))"

definition ws_inv :: "WsConfig \<Rightarrow> WsSession \<Rightarrow> bool" where
  "ws_inv c w \<longleftrightarrow> writes_in_order w \<and> budget_kept c w
     \<and> count_list (ws_pending w) OpWrite \<le> 1 \<and> count_list (ws_pending w) OpTimer \<le> 1"

text \<open>The fields an operation of the reconnect machinery leaves alone.\<close>

definition same_writes :: "WsSession \<Rightarrow> WsSession \<Rightarrow> bool" where
  "same_writes w w' \<longleftrightarrow> ws_stopping w' = ws_stopping w \<and> ws_writing w' = ws_writing w \<and> ws_write_queue w' = ws_write_queue w
     \<and> ws_begun w' = ws_begun w \<and> ws_accepted w' = ws_accepted w
     \<and> count_list (ws_pending w') OpWrite = count_list (ws_pending w) OpWrite"

lemma count_list_mem: "p \<in> set ps \<longleftrightarrow> count_list ps p \<noteq> 0"
  by (simp add: count_list_0_iff)

lemma count_filter: "count_list (filter (\<lambda>p. p \<noteq> q) ps) p = (if p = q then 0 else count_list ps p)"
  by (induction ps) auto

lemma count_drop_nth:
  assumes "i < length ps"
  shows "count_list ps p = count_list (take i ps @ drop (Suc i) ps) p + (if ps ! i = p then 1 else 0)"
proof -
  have "count_list ps p = count_list (take i ps @ ps ! i # drop (Suc i) ps) p"
    using id_take_nth_drop [OF assms] by simp
  then show ?thesis by simp
qed

lemma ws_inv_frame:
  assumes "ws_inv c w" "same_writes w w'" "budget_kept c w'" "count_list (ws_pending w') OpTimer \<le> 1"
  shows "ws_inv c w'"
proof -
  have "OpWrite \<in> set (ws_pending w') \<longleftrightarrow> OpWrite \<in> set (ws_pending w)"
    using assms(2) by (simp add: count_list_mem same_writes_def)
  with assms show ?thesis
    by (cases "ws_stopping w"; cases "ws_writing w") (simp_all add: ws_inv_def writes_in_order_def same_writes_def)
qed

lemma schedule_reconnect_inv:
  assumes "ws_inv c w"
  shows "ws_inv c (fst (schedule_reconnect w reason))"
proof (rule ws_inv_frame [OF assms])
  let ?w = "fst (schedule_reconnect w reason)"
  have b: "rb_config (ws_backoff w) = wsc_backoff c" "max_attempts (wsc_backoff c) \<noteq> 0 \<longrightarrow> rb_attempts (ws_backoff w) \<le> max_attempts (wsc_backoff c)"
    using assms by (simp_all add: ws_inv_def budget_kept_def)
  have "inc32 n \<le> Suc n" for n by (simp add: inc32_def nat_le_iff) (smt (verit) of_nat_0_le_iff zmod_le_nonneg_dividend)
  then have next_ok: "\<not> exhausted (ws_backoff w) \<Longrightarrow> max_attempts (wsc_backoff c) \<noteq> 0
      \<Longrightarrow> inc32 (rb_attempts (ws_backoff w)) \<le> max_attempts (wsc_backoff c)"
    using b by (simp add: exhausted_def) (meson le_trans not_less_eq_eq)
  show "same_writes w ?w"
    by (simp add: same_writes_def schedule_reconnect_def Let_def ws_set_state_def ws_arm_timer_def count_filter)
  show "budget_kept c ?w" using b next_ok
    by (simp add: budget_kept_def schedule_reconnect_def Let_def ws_set_state_def ws_arm_timer_def)
  show "count_list (ws_pending ?w) OpTimer \<le> 1" using assms
    by (simp add: ws_inv_def schedule_reconnect_def Let_def ws_set_state_def ws_arm_timer_def count_filter)
qed

lemma ws_await_inv: "ws_inv c w \<Longrightarrow> p \<noteq> OpWrite \<Longrightarrow> p \<noteq> OpTimer \<Longrightarrow> ws_inv c (ws_await w p)"
  by (rule ws_inv_frame [of c w]) (auto simp: ws_await_def same_writes_def ws_inv_def budget_kept_def)

lemma ws_set_state_inv: "ws_inv c w \<Longrightarrow> ws_inv c (fst (ws_set_state w st reason))"
  by (rule ws_inv_frame [of c w]) (auto simp: ws_set_state_def same_writes_def ws_inv_def budget_kept_def)

lemma ws_inv_fields [simp]:
  "ws_inv c (w\<lparr>ws_has_stream := b\<rparr>) = ws_inv c w" "ws_inv c (w\<lparr>ws_frames := n\<rparr>) = ws_inv c w"
  by (simp_all add: ws_inv_def writes_in_order_def budget_kept_def)

lemma read_loop_inv: "ws_inv c w \<Longrightarrow> ws_inv c (read_loop w)"
  by (simp add: read_loop_def ws_await_inv)

lemma do_connect_inv: "ws_inv c w \<Longrightarrow> ws_inv c (fst (do_connect w))"
  using ws_set_state_inv [of c w CnConnecting "''dialling''"]
  by (simp add: do_connect_def split_beta Let_def ws_await_inv)

lemma backoff_reset_inv: "ws_inv c w \<Longrightarrow> ws_inv c (w\<lparr>ws_backoff := backoff_reset (ws_backoff w)\<rparr>)"
  by (rule ws_inv_frame [of c w]) (auto simp: same_writes_def ws_inv_def budget_kept_def backoff_reset_def)

lemma on_dialled_inv:
  assumes "ws_inv c w"
  shows "ws_inv c (fst (on_dialled w p v))"
  using assms ws_set_state_inv [OF backoff_reset_inv [OF assms]]
  by (cases "(w, p, v)" rule: on_dialled.cases)
     (simp_all add: ws_fail_def schedule_reconnect_inv ws_await_inv read_loop_inv split_beta Let_def)

lemma ws_inv_drop_other:
  assumes "ws_inv c w" "i < length (ws_pending w)" "ws_pending w ! i \<noteq> OpWrite"
  shows "ws_inv c (w\<lparr>ws_pending := take i (ws_pending w) @ drop (Suc i) (ws_pending w)\<rparr>)"
proof (rule ws_inv_frame [OF assms(1)])
  show "same_writes w (w\<lparr>ws_pending := take i (ws_pending w) @ drop (Suc i) (ws_pending w)\<rparr>)"
    "budget_kept c (w\<lparr>ws_pending := take i (ws_pending w) @ drop (Suc i) (ws_pending w)\<rparr>)"
    "count_list (ws_pending (w\<lparr>ws_pending := take i (ws_pending w) @ drop (Suc i) (ws_pending w)\<rparr>)) OpTimer \<le> 1"
    using assms(1,3) count_drop_nth [OF assms(2), of OpWrite] count_drop_nth [OF assms(2), of OpTimer]
    by (simp_all add: same_writes_def ws_inv_def budget_kept_def split: if_splits)
qed

text \<open>A session whose write has just completed: the head of its queue is still the payload that was written.\<close>

definition write_done :: "WsConfig \<Rightarrow> WsSession \<Rightarrow> bool" where
  "write_done c w \<longleftrightarrow> budget_kept c w \<and> OpWrite \<notin> set (ws_pending w) \<and> count_list (ws_pending w) OpTimer \<le> 1
     \<and> (if ws_stopping w then \<not> ws_writing w \<and> (\<exists>later. ws_accepted w = ws_begun w @ later)
        else ws_begun w @ tl (ws_write_queue w) = ws_accepted w)"

lemma ws_inv_drop_write:
  assumes "ws_inv c w" "i < length (ws_pending w)" "ws_pending w ! i = OpWrite"
  shows "write_done c (w\<lparr>ws_pending := take i (ws_pending w) @ drop (Suc i) (ws_pending w)\<rparr>)"
proof -
  note eq = count_drop_nth [OF assms(2)]
  have "count_list (take i (ws_pending w) @ drop (Suc i) (ws_pending w)) OpWrite = 0"
    using eq [of OpWrite] assms by (simp add: ws_inv_def)
  then have gone: "OpWrite \<notin> set (take i (ws_pending w) @ drop (Suc i) (ws_pending w))"
    by (metis count_list_0_iff)
  have "OpWrite \<in> set (ws_pending w)" using assms(2,3) by (metis nth_mem)
  then have writes: "if ws_stopping w then \<not> ws_writing w \<and> (\<exists>later. ws_accepted w = ws_begun w @ later)
      else ws_begun w @ tl (ws_write_queue w) = ws_accepted w"
    using assms(1) unfolding ws_inv_def writes_in_order_def by presburger
  have "count_list (take i (ws_pending w) @ drop (Suc i) (ws_pending w)) OpTimer \<le> 1"
    using assms(1) eq [of OpTimer] by (simp add: ws_inv_def)
  then show ?thesis using assms(1) gone writes by (simp add: write_done_def ws_inv_def budget_kept_def)
qed

lemma on_written_inv:
  assumes "write_done c w"
  shows "ws_inv c (fst (on_written w v))"
proof (cases v)
  case (OutError m)
  have "ws_inv c (w\<lparr>ws_write_queue := tl (ws_write_queue w), ws_writing := False\<rparr>)"
    using assms by (simp add: write_done_def ws_inv_def writes_in_order_def budget_kept_def count_list_0_iff split: if_splits)
  then show ?thesis using schedule_reconnect_inv OutError by (simp add: on_written_def ws_fail_def Let_def)
next
  case (OutDone b f t)
  have "count_list (ws_pending w) OpWrite = 0" using assms by (simp add: write_done_def count_list_0_iff)
  then show ?thesis using assms OutDone
    by (cases "tl (ws_write_queue w)")
       (simp_all add: on_written_def write_next_def ws_await_def write_done_def ws_inv_def writes_in_order_def budget_kept_def Let_def
          split: if_splits)
qed

lemma ws_complete_inv:
  assumes "ws_inv c w"
  shows "ws_inv c (fst (ws_complete w i v))"
proof (cases "i < length (ws_pending w)")
  case True
  let ?w1 = "w\<lparr>ws_pending := take i (ws_pending w) @ drop (Suc i) (ws_pending w)\<rparr>"
  show ?thesis
  proof (cases "ws_pending w ! i = OpWrite")
    case wr: True
    then show ?thesis using True on_written_inv [OF ws_inv_drop_write [OF assms True wr]] by (simp add: ws_complete_def)
  next
    case False
    note inv = ws_inv_drop_other [OF assms True False]
    have rd: "ws_inv c (fst (on_frame ?w1 v))"
      using inv by (cases v) (simp_all add: on_frame_def ws_fail_def schedule_reconnect_inv read_loop_inv)
    have tm: "ws_inv c (fst (on_reconnect_timer ?w1 v))" for v
      using inv do_connect_inv by (cases v) (simp_all add: on_reconnect_timer_def)
    show ?thesis using True False rd tm on_dialled_inv [OF inv] by (simp add: ws_complete_def Let_def split: WsOp.split)
  qed
next
  case False
  with assms show ?thesis by (simp add: ws_complete_def)
qed

lemma ws_expire_inv:
  assumes "ws_inv c w"
  shows "ws_inv c (ws_expire w i)"
proof (cases "i < length (ws_pending w) \<and> ws_pending w ! i = OpTimer")
  case True
  let ?ps = "(ws_pending w)[i := OpExpired]"
  have split: "?ps = take i (ws_pending w) @ OpExpired # drop (Suc i) (ws_pending w)" using True by (simp add: upd_conv_take_nth_drop)
  have "count_list ?ps OpWrite = count_list (ws_pending w) OpWrite" "count_list ?ps OpTimer \<le> count_list (ws_pending w) OpTimer"
    using True count_drop_nth [of i "ws_pending w"] by (simp_all add: split)
  then show ?thesis
    using True assms ws_inv_frame [OF assms, of "w\<lparr>ws_pending := ?ps\<rparr>"]
    by (simp add: ws_expire_def same_writes_def ws_inv_def budget_kept_def)
next
  case False
  with assms show ?thesis by (auto simp: ws_expire_def)
qed

lemma send_text_inv:
  assumes "ws_inv c w"
  shows "ws_inv c (fst (send_text w payload))"
proof -
  let ?w = "w\<lparr>ws_write_queue := ws_write_queue w @ [payload], ws_accepted := ws_accepted w @ [payload]\<rparr>"
  have busy: "ws_inv c ?w" if "ws_writing w"
    using assms that by (simp add: ws_inv_def writes_in_order_def budget_kept_def split: if_splits)
  have free: "ws_inv c (write_next ?w)" if "\<not> ws_writing w"
  proof (cases "ws_stopping w \<or> \<not> ws_has_stream w")
    case True
    with assms that show ?thesis
      by (auto simp: write_next_def ws_inv_def writes_in_order_def budget_kept_def split: if_splits)
  next
    case False
    then have "OpWrite \<notin> set (ws_pending w)" "ws_begun w @ ws_write_queue w = ws_accepted w"
      using assms that by (auto simp: ws_inv_def writes_in_order_def)
    moreover have "hd (ws_write_queue w @ [payload]) # tl (ws_write_queue w @ [payload]) = ws_write_queue w @ [payload]"
      by simp
    ultimately show ?thesis using False assms that
      by (simp add: write_next_def ws_await_def ws_inv_def writes_in_order_def budget_kept_def count_list_0_iff)
  qed
  show ?thesis using assms busy free by (simp add: send_text_def Let_def)
qed

lemma wire_prefix:
  assumes "ws_inv c w"
  shows "\<exists>later. ws_accepted w = ws_begun w @ later"
proof (cases "ws_stopping w")
  case False
  then have "ws_accepted w = ws_begun w @ (if ws_writing w then tl (ws_write_queue w) else ws_write_queue w)"
    using assms by (cases "ws_writing w") (simp_all add: ws_inv_def writes_in_order_def)
  then show ?thesis by blast
qed (use assms in \<open>simp add: ws_inv_def writes_in_order_def\<close>)

lemma ws_stop_inv:
  assumes "ws_inv c w"
  shows "ws_inv c (fst (ws_stop w))"
proof -
  let ?w = "w\<lparr>ws_stopping := True, ws_write_queue := [], ws_writing := False,
              ws_pending := filter (\<lambda>p. p \<noteq> OpTimer) (ws_pending w)\<rparr>"
  have "\<exists>later. ws_accepted w = ws_begun w @ later" by (rule wire_prefix [OF assms])
  then have "ws_inv c ?w"
    using assms by (simp add: ws_inv_def writes_in_order_def budget_kept_def count_filter)
  then show ?thesis unfolding ws_stop_def by (rule ws_set_state_inv)
qed

lemma ws_run_inv: "ws_run c w \<Longrightarrow> ws_inv c w"
proof (induction rule: ws_run.induct)
  case ws_started
  have "ws_inv c (new_ws c)"
    by (simp add: ws_inv_def writes_in_order_def budget_kept_def new_ws_def new_backoff_def)
  then show ?case using do_connect_inv [of c "new_ws c"] by (simp add: ws_start_def new_ws_def)
qed (simp_all add: ws_complete_inv ws_expire_inv send_text_inv ws_stop_inv)


text \<open>A session that connects, is given two payloads and loses its first write.\<close>

definition demo_ws_config :: WsConfig where
  "demo_ws_config = \<lparr>wsc_host = ''stream'', wsc_port = ''9443'', wsc_target = ''/stream'',
     wsc_backoff = default_backoff\<lparr>max_attempts := 3\<rparr>, wsc_seed = 0\<rparr>"

definition demo_done :: WsOutcome where
  "demo_done = OutDone True [] 0"

definition demo_open_session :: WsSession where
  "demo_open_session =
     fst (ws_complete (fst (ws_complete (fst (ws_complete (fst (ws_complete (fst (ws_start (new_ws demo_ws_config)))
       0 demo_done)) 0 demo_done)) 0 demo_done)) 0 demo_done)"

definition demo_busy_session :: WsSession where
  "demo_busy_session = fst (send_text (fst (send_text demo_open_session ''a'')) ''b'')"

lemma demo_busy_run: "ws_run demo_ws_config demo_busy_session"
  unfolding demo_busy_session_def demo_open_session_def by (intro ws_sent ws_completed ws_started)

lemma demo_busy_state:
  "ws_pending demo_busy_session = [OpRead, OpWrite]" "ws_begun demo_busy_session = [''a'']"
  "ws_accepted demo_busy_session = [''a'', ''b'']" "ws_state demo_busy_session = CnConnected" "ws_stopping demo_busy_session = False"
  by (simp_all add: demo_busy_session_def demo_open_session_def demo_done_def demo_ws_config_def ws_start_def new_ws_def do_connect_def
      ws_set_state_def ws_await_def ws_complete_def read_loop_def send_text_def write_next_def Let_def)


section \<open>Stopping\<close>

text \<open>The completions a pending operation can still lead to once the session is stopping.\<close>

fun op_rank :: "WsOp \<Rightarrow> nat" where
  "op_rank OpResolve = 4"
| "op_rank OpConnect = 3"
| "op_rank OpTls = 2"
| "op_rank OpTimer = 2"
| "op_rank p = 1"

definition ws_rank :: "WsSession \<Rightarrow> nat" where
  "ws_rank w = sum_list (map op_rank (ws_pending w))"

lemma sum_list_drop_nth: "i < length xs \<Longrightarrow> sum_list (map f xs) = sum_list (map f (take i xs @ drop (Suc i) xs)) + f (xs ! i)"
  for f :: "'a \<Rightarrow> nat"
  by (subst id_take_nth_drop [of i xs]) auto

text \<open>
  Once it is stopping, a session dials no more: each completion uses up rank, so that at most \<open>ws_rank w\<close> further
  completions remain, and none of them arms a reconnect.
\<close>

lemma stopping_session_winds_down:
  assumes "ws_stopping w" "i < length (ws_pending w)"
  shows "ws_rank (fst (ws_complete w i v)) < ws_rank w \<and> ws_stopping (fst (ws_complete w i v))"
proof -
  let ?w1 = "w\<lparr>ws_pending := take i (ws_pending w) @ drop (Suc i) (ws_pending w)\<rparr>"
  have rank: "ws_rank w = ws_rank ?w1 + op_rank (ws_pending w ! i)"
    using sum_list_drop_nth [OF assms(2), of op_rank] by (simp add: ws_rank_def)
  have st: "ws_stopping ?w1" using assms(1) by simp
  have wr: "ws_rank (fst (on_written ?w1 v)) = ws_rank ?w1 \<and> ws_stopping (fst (on_written ?w1 v))"
    using st by (cases v) (simp_all add: on_written_def write_next_def ws_rank_def Let_def)
  have rd: "ws_rank (fst (on_frame ?w1 v)) = ws_rank ?w1 \<and> ws_stopping (fst (on_frame ?w1 v))"
    using st by (cases v) (simp_all add: on_frame_def read_loop_def ws_rank_def)
  have tm: "ws_rank (fst (on_reconnect_timer ?w1 v)) = ws_rank ?w1 \<and> ws_stopping (fst (on_reconnect_timer ?w1 v))" for v
    using st by (cases v) (simp_all add: on_reconnect_timer_def ws_rank_def)
  have dl: "ws_rank (fst (on_dialled ?w1 p v)) < ws_rank ?w1 + op_rank p \<and> ws_stopping (fst (on_dialled ?w1 p v))" for p
    using st by (cases "(?w1, p, v)" rule: on_dialled.cases)
      (simp_all add: ws_fail_def schedule_reconnect_def ws_await_def ws_rank_def ws_set_state_def read_loop_def)
  show ?thesis using assms(2) rank wr rd tm dl [of "ws_pending w ! i"]
    by (cases "ws_pending w ! i") (simp_all add: ws_complete_def Let_def)
qed

text \<open>The handshake completion does not look at \<^verbatim>\<open>stopping_\<close>: a stopped session can still report itself connected.\<close>

lemma handshake_after_stop_connects:
  assumes "i < length (ws_pending w)" "ws_pending w ! i = OpHandshake"
  shows "ws_state (fst (ws_complete w i (OutDone sni_set frame recv_ns))) = CnConnected"
  using assms by (simp add: ws_complete_def ws_set_state_def Let_def)

text \<open>One dropped connection with a read and a write outstanding is counted, and backed off, twice.\<close>

lemma one_drop_counts_twice:
  "ws_reconnects (fst (ws_complete (fst (ws_complete demo_busy_session 0 (OutError m))) 0 (OutError m'))) = 2"
proof -
  have "\<not> exhausted (ws_backoff demo_busy_session)" "\<not> exhausted (snd (next_delay (ws_backoff demo_busy_session)))"
    "ws_reconnects demo_busy_session = 0"
    by (simp_all add: demo_busy_session_def demo_open_session_def demo_done_def demo_ws_config_def ws_start_def new_ws_def do_connect_def
      ws_set_state_def ws_await_def ws_complete_def read_loop_def send_text_def write_next_def Let_def exhausted_def
      backoff_reset_def new_backoff_def inc32_def)
  then show ?thesis
    by (simp add: demo_busy_state ws_complete_def on_frame_def on_written_def ws_fail_def schedule_reconnect_def ws_set_state_def
        ws_arm_timer_def Let_def inc32_def)
qed

text \<open>
  A wait that expired while another failure was on its way is not recalled when that failure arms the timer anew: both
  waits dial, so that two connection attempts run at once on a session that keeps a single stream.
\<close>

lemma expired_wait_dials_beside_new_one:
  "let w1 = fst (ws_complete demo_busy_session 0 (OutError m));
       w2 = fst (ws_complete (ws_expire w1 1) 0 (OutError m'));
       w3 = fst (ws_complete w2 0 demo_done)
   in ws_pending w2 = [OpExpired, OpTimer] \<and> ws_pending (fst (ws_complete w3 0 demo_done)) = [OpResolve, OpResolve]"
proof -
  have "\<not> exhausted (ws_backoff demo_busy_session)" "\<not> exhausted (snd (next_delay (ws_backoff demo_busy_session)))"
    by (simp_all add: demo_busy_session_def demo_open_session_def demo_done_def demo_ws_config_def ws_start_def new_ws_def do_connect_def
      ws_set_state_def ws_await_def ws_complete_def read_loop_def send_text_def write_next_def Let_def exhausted_def
      backoff_reset_def new_backoff_def inc32_def)
  then show ?thesis
    by (simp add: demo_busy_state ws_complete_def on_frame_def on_written_def ws_fail_def schedule_reconnect_def ws_set_state_def
        ws_arm_timer_def ws_expire_def on_reconnect_timer_def do_connect_def ws_await_def demo_done_def Let_def)
qed

end
