(* ===== verification/BinanceMarketData.thy ===== *)
theory BinanceMarketData
  imports BinanceTransport
begin

text \<open>
  The Binance market-data adapter, \<^verbatim>\<open>exchange/binance/BinanceMarketData\<close>: it owns the WebSocket session, the
  REST client and one book synchroniser per symbol, and publishes a view of each book. Everything that changes it runs on
  one thread, the event loop, except the registration calls: closures posted to the loop are the queue \<open>md_posted\<close>, and
  the outstanding REST requests the list \<open>md_requests\<close>. A registration is three steps of its own thread, which the loop can
  run between: the slot is counted, its synchroniser gets its state callback, and the closing closure is posted; until the
  second, transitions of the symbol reach nobody. The JSON parser, the clock reading of a handler and whether the
  library accepts the SNI name are the environment of a step. \<open>symbol_count_\<close> is the length of \<open>md_symbols\<close>: slots are
  filled in order and never freed. The sink is the list of what it received; the reason text of a session event is left
  out. The seqlock a view travels through is in \<open>Seqlock\<close>.
\<close>

section \<open>Definitions\<close>

definition kPublishedDepth :: nat where
  "kPublishedDepth = 10"

definition kMaxSymbols :: nat where
  "kMaxSymbols = 32"

text \<open>The used entries of the two level arrays; the counts are their lengths.\<close>

record BookView =
  bv_symbol :: string
  bv_state :: SessionState
  bv_last_update_id :: seq
  bv_exchange_ns :: nanos
  bv_recv_ns :: nanos
  bv_bids :: "PriceLevel list"
  bv_asks :: "PriceLevel list"

definition empty_view :: BookView where
  "empty_view = \<lparr>bv_symbol = [], bv_state = Disconnected, bv_last_update_id = kNoSeq, bv_exchange_ns = 0, bv_recv_ns = 0,
     bv_bids = [], bv_asks = []\<rparr>"

definition view_bbo :: "BookView \<Rightarrow> BestBidAsk" where
  "view_bbo v =
     \<lparr>bba_bid_px = (if bv_bids v \<noteq> [] then pl_price (hd (bv_bids v)) else 0),
      bba_bid_qty = (if bv_bids v \<noteq> [] then pl_quantity (hd (bv_bids v)) else 0),
      bba_ask_px = (if bv_asks v \<noteq> [] then pl_price (hd (bv_asks v)) else 0),
      bba_ask_qty = (if bv_asks v \<noteq> [] then pl_quantity (hd (bv_asks v)) else 0),
      bba_seq = bv_last_update_id v, bba_exchange_ns = bv_exchange_ns v\<rparr>"

record SubscriptionRequest =
  sr_symbol :: string
  sr_symbol_id :: symbol_id
  sr_want_depth :: bool
  sr_want_trades :: bool
  sr_want_bbo :: bool
  sr_depth_levels :: nat

text \<open>
  \<open>ss_wired\<close> says whether the synchroniser has its state callback. \<open>ss_missed\<close> is no part of the code: it records that the
  last transition of the synchroniser came before it had one.
\<close>

record SymbolState =
  ss_symbol :: string
  ss_request :: SubscriptionRequest
  ss_sync :: BookSync
  ss_published_state :: SessionState
  ss_published_data_ns :: nanos
  ss_has_data :: bool
  ss_view :: BookView
  ss_active :: bool
  ss_wired :: bool
  ss_missed :: bool

record MdConfig =
  mdc_ws_host :: string
  mdc_ws_port :: string
  mdc_depth_update_ms :: int
  mdc_snapshot_limit :: int
  mdc_want_trades :: bool
  mdc_sync :: SyncConfig
  mdc_backoff :: BackoffConfig
  mdc_seed :: "64 word"

text \<open>Closures posted to the loop, outstanding REST calls with what their handler captured, and what the sink received.\<close>

datatype MdTask = TaskBoot | TaskSubscribe nat | TaskSnapshot string | TaskInstruments | TaskStop

datatype RestCall = CallDepth nat | CallInfo "string list"

datatype SinkEvent = SinkMd MarketDataEvent | SinkSession string SessionState SessionState nanos

text \<open>Where a \<open>subscribe\<close> that holds the registry mutex is: its slot is counted, or its callback is set as well.\<close>

datatype Registration = RegIdle | RegSlot nat | RegWired nat

record MdAdapter =
  md_config :: MdConfig
  md_has_sink :: bool
  md_running :: bool
  md_ws :: "WsSession option"
  md_rest :: "RestClient option"
  md_requests :: "(RestCall \<times> RestRequest) list"
  md_timer_armed :: bool
  md_posted :: "MdTask list"
  md_symbols :: "SymbolState list"
  md_connection :: ConnectionState
  md_decode_errors :: nat
  md_events_published :: nat
  md_snapshot_requests :: nat
  md_snapshot_failures :: nat
  md_instruments_loaded :: nat
  md_instrument_failures :: nat
  md_subscribe_id :: nat
  md_registering :: Registration
  md_out :: "SinkEvent list"

record MdEnv =
  env_parse :: "string \<Rightarrow> json option"
  env_now :: nanos
  env_sni :: bool

definition new_adapter :: "MdConfig \<Rightarrow> MdAdapter" where
  "new_adapter c = \<lparr>md_config = c, md_has_sink = False, md_running = False, md_ws = None, md_rest = None, md_requests = [],
     md_timer_armed = False, md_posted = [], md_symbols = [], md_connection = CnDisconnected, md_decode_errors = 0,
     md_events_published = 0, md_snapshot_requests = 0, md_snapshot_failures = 0, md_instruments_loaded = 0,
     md_instrument_failures = 0, md_subscribe_id = 1, md_registering = RegIdle, md_out = []\<rparr>"

text \<open>\<open>find\<close>: the first active slot with the symbol.\<close>

fun find_from :: "nat \<Rightarrow> SymbolState list \<Rightarrow> string \<Rightarrow> nat option" where
  "find_from i [] symbol = None"
| "find_from i (s # ss) symbol = (if ss_active s \<and> ss_symbol s = symbol then Some i else find_from (Suc i) ss symbol)"

definition md_find :: "MdAdapter \<Rightarrow> string \<Rightarrow> nat option" where
  "md_find m symbol = find_from 0 (md_symbols m) symbol"

definition stream_names_for :: "MdConfig \<Rightarrow> SubscriptionRequest \<Rightarrow> string list" where
  "stream_names_for c request =
     (if sr_want_depth request then [depth_stream_name (sr_symbol request) (mdc_depth_update_ms c)] else [])
     @ (if sr_want_trades request \<and> mdc_want_trades c then [trade_stream_name (sr_symbol request)] else [])"

fun join_with :: "string \<Rightarrow> string list \<Rightarrow> string" where
  "join_with sep [] = []"
| "join_with sep [x] = x"
| "join_with sep (x # y # xs) = x @ sep @ join_with sep (y # xs)"

definition build_stream_path :: "MdAdapter \<Rightarrow> string" where
  "build_stream_path m =
     (let names = concat (map (\<lambda>s. stream_names_for (md_config m) (ss_request s)) (filter ss_active (md_symbols m)))
      in if names = [] then [] else ''/stream?streams='' @ join_with ''/'' names)"

section \<open>Publishing\<close>

definition md_emit :: "MdAdapter \<Rightarrow> SinkEvent \<Rightarrow> MdAdapter" where
  "md_emit m ev =
     (if \<not> md_has_sink m then m
      else m\<lparr>md_events_published := inc64 (md_events_published m), md_out := md_out m @ [ev]\<rparr>)"

definition emit_connection_event :: "MdAdapter \<Rightarrow> nanos \<Rightarrow> ConnectionState \<Rightarrow> ConnectionState \<Rightarrow> nat \<Rightarrow> MdAdapter" where
  "emit_connection_event m now from_st to_st reconnects =
     md_emit m (SinkMd \<lparr>me_payload = MdConnection \<lparr>con_venue = ''binance'', con_from = from_st, con_to = to_st,
         con_error = error_none, con_reconnect_count = reconnects\<rparr>,
       me_stamps = \<lparr>es_exchange_ns = 0, es_recv_ns = now, es_parse_ns = now, es_process_ns = 0\<rparr>\<rparr>)"

text \<open>Levels are published only for a synchronised book.\<close>

definition view_of :: "SymbolState \<Rightarrow> BookView" where
  "view_of s =
     (let b = bs_book (ss_sync s); shown = is_quotable (bs_state (ss_sync s))
      in \<lparr>bv_symbol = ss_symbol s, bv_state = bs_state (ss_sync s), bv_last_update_id = ob_last_update_id b,
          bv_exchange_ns = 0, bv_recv_ns = ss_published_data_ns s,
          bv_bids = (if shown then take kPublishedDepth (ob_bids b) else []),
          bv_asks = (if shown then take kPublishedDepth (ob_asks b) else [])\<rparr>)"

definition ss_publish :: "SymbolState \<Rightarrow> SymbolState" where
  "ss_publish s = s\<lparr>ss_view := view_of s\<rparr>"

definition on_slot :: "MdAdapter \<Rightarrow> nat \<Rightarrow> (SymbolState \<Rightarrow> SymbolState) \<Rightarrow> MdAdapter" where
  "on_slot m i f = m\<lparr>md_symbols := (md_symbols m)[i := f (md_symbols m ! i)]\<rparr>"

definition publish_view :: "MdAdapter \<Rightarrow> nat \<Rightarrow> MdAdapter" where
  "publish_view m i = on_slot m i ss_publish"

text \<open>
  One event for the synchroniser of a symbol. Its state callback, once it is set, runs for every transition: it stores the
  new state, calls the sink with a session event, and then publishes the view, so a sink that reads the view sees the one
  before. The callbacks are run here after the synchroniser has handled its event; a view published for a transition
  before the last is overwritten by the next before the handler returns, and the last is published when the book has
  its final content, or is published again by the handler.
\<close>

definition new_transitions :: "SymbolState \<Rightarrow> nanos \<Rightarrow> SyncEvent \<Rightarrow> (SessionState \<times> SessionState) list" where
  "new_transitions s now ev = drop (length (bs_announced (ss_sync s))) (bs_announced (sync_handle (ss_sync s) now ev))"

definition ss_advance :: "nanos \<Rightarrow> SyncEvent \<Rightarrow> SymbolState \<Rightarrow> SymbolState" where
  "ss_advance now ev s = s\<lparr>ss_sync := sync_handle (ss_sync s) now ev,
     ss_missed := (if new_transitions s now ev = [] then ss_missed s else \<not> ss_wired s)\<rparr>"

definition emit_session_event :: "MdAdapter \<Rightarrow> nanos \<Rightarrow> nat \<Rightarrow> SessionState \<Rightarrow> SessionState \<Rightarrow> MdAdapter" where
  "emit_session_event m now i from_st to_st = md_emit m (SinkSession (ss_symbol (md_symbols m ! i)) from_st to_st now)"

definition state_callback :: "nanos \<Rightarrow> nat \<Rightarrow> MdAdapter \<Rightarrow> SessionState \<times> SessionState \<Rightarrow> MdAdapter" where
  "state_callback now i m t =
     (let m1 = on_slot m i (\<lambda>s. s\<lparr>ss_published_state := snd t\<rparr>);
          m2 = emit_session_event m1 now i (fst t) (snd t)
      in publish_view m2 i)"

definition run_sync :: "MdAdapter \<Rightarrow> nanos \<Rightarrow> nat \<Rightarrow> SyncEvent \<Rightarrow> MdAdapter" where
  "run_sync m now i ev =
     (let s = md_symbols m ! i
      in foldl (state_callback now i) (on_slot m i (ss_advance now ev)) (if ss_wired s then new_transitions s now ev else []))"

text \<open>The loops over the active symbols.\<close>

definition if_active :: "(MdAdapter \<Rightarrow> nat \<Rightarrow> MdAdapter) \<Rightarrow> MdAdapter \<Rightarrow> nat \<Rightarrow> MdAdapter" where
  "if_active f m i = (if ss_active (md_symbols m ! i) then f m i else m)"

definition for_active :: "MdAdapter \<Rightarrow> (MdAdapter \<Rightarrow> nat \<Rightarrow> MdAdapter) \<Rightarrow> MdAdapter" where
  "for_active m f = foldl (if_active f) m [0..<length (md_symbols m)]"

section \<open>Snapshots and instruments\<close>

definition int_text :: "int \<Rightarrow> string" where
  "int_text v = (if v < 0 then ''-'' @ uint_to_string (- v) else uint_to_string v)"

definition depth_target :: "MdConfig \<Rightarrow> string \<Rightarrow> string" where
  "depth_target c symbol = ''/api/v3/depth?symbol='' @ to_rest_symbol symbol @ ''&limit='' @ int_text (mdc_snapshot_limit c)"

text \<open>One chunk of an image: the synchroniser decides whether it makes the book usable, the sink gets it either way.\<close>

definition image_chunk :: "nanos \<Rightarrow> nat \<Rightarrow> MdAdapter \<Rightarrow> MarketDataEvent \<Rightarrow> MdAdapter" where
  "image_chunk now i m ev =
     md_emit (case me_payload ev of MdBookSnapshot s \<Rightarrow> run_sync m now i (SeSnapshot s) | _ \<Rightarrow> m) (SinkMd ev)"

definition on_snapshot_response :: "MdEnv \<Rightarrow> MdAdapter \<Rightarrow> nat \<Rightarrow> rest_result \<Rightarrow> MdAdapter" where
  "on_snapshot_response env m i result =
     (case result of
        Inl e \<Rightarrow>
          run_sync (m\<lparr>md_snapshot_failures := inc64 (md_snapshot_failures m)\<rparr>) (env_now env) i SeSnapshotFailed
      | Inr body \<Rightarrow>
          (let (err, events) = decode_depth_snapshot (env_parse env) body (ss_symbol (md_symbols m ! i)) (env_now env) (env_now env) []
           in if err \<noteq> DeNone
              then run_sync (run_sync (m\<lparr>md_decode_errors := inc64 (md_decode_errors m),
                                         md_snapshot_failures := inc64 (md_snapshot_failures m)\<rparr>)
                               (env_now env) i SeProtocolError) (env_now env) i SeSnapshotFailed
              else publish_view (foldl (image_chunk (env_now env) i) m events) i))"

definition instrument_loaded :: "MdAdapter \<Rightarrow> MarketDataEvent \<Rightarrow> MdAdapter" where
  "instrument_loaded m ev = md_emit (m\<lparr>md_instruments_loaded := inc64 (md_instruments_loaded m)\<rparr>) (SinkMd ev)"

definition on_info_response :: "MdEnv \<Rightarrow> MdAdapter \<Rightarrow> string list \<Rightarrow> rest_result \<Rightarrow> MdAdapter" where
  "on_info_response env m wanted result =
     (case result of
        Inl e \<Rightarrow> m\<lparr>md_instrument_failures := inc64 (md_instrument_failures m)\<rparr>
      | Inr body \<Rightarrow>
          (let (err, events) = decode_exchange_info (env_parse env) body wanted (env_now env) (env_now env) []
           in if err \<noteq> DeNone
              then m\<lparr>md_decode_errors := inc64 (md_decode_errors m), md_instrument_failures := inc64 (md_instrument_failures m)\<rparr>
              else foldl instrument_loaded
                (if events = [] then m\<lparr>md_instrument_failures := inc64 (md_instrument_failures m)\<rparr> else m) events))"

definition on_response :: "MdEnv \<Rightarrow> MdAdapter \<Rightarrow> RestCall \<Rightarrow> rest_result \<Rightarrow> MdAdapter" where
  "on_response env m call result =
     (case call of CallDepth i \<Rightarrow> on_snapshot_response env m i result | CallInfo wanted \<Rightarrow> on_info_response env m wanted result)"

text \<open>Issuing a GET: a request refused at once is answered at once.\<close>

definition issue_get :: "MdEnv \<Rightarrow> MdAdapter \<Rightarrow> RestClient \<Rightarrow> string \<Rightarrow> RestCall \<Rightarrow> MdAdapter" where
  "issue_get env m client target call =
     (let (client', r) = async_get client target (env_sni env);
          m1 = m\<lparr>md_rest := Some client'\<rparr>
      in case rr_answers r of
           [] \<Rightarrow> m1\<lparr>md_requests := md_requests m1 @ [(call, r)]\<rparr>
         | result # rest \<Rightarrow> on_response env m1 call result)"

definition issue_snapshot :: "MdEnv \<Rightarrow> MdAdapter \<Rightarrow> nat \<Rightarrow> MdAdapter" where
  "issue_snapshot env m i =
     (case md_rest m of
        None \<Rightarrow> m
      | Some client \<Rightarrow>
          (let m1 = run_sync m (env_now env) i SeSnapshotRequested;
               m2 = m1\<lparr>md_snapshot_requests := inc64 (md_snapshot_requests m1)\<rparr>
           in issue_get env m2 client (depth_target (md_config m) (ss_symbol (md_symbols m ! i))) (CallDepth i)))"

definition info_target :: "string list \<Rightarrow> string" where
  "info_target wanted =
     ''/api/v3/exchangeInfo'' @
     (case wanted of
        [] \<Rightarrow> []
      | [s] \<Rightarrow> ''?symbol='' @ to_rest_symbol s
      | _ \<Rightarrow> ''?symbols=%5B'' @ join_with '','' (map (\<lambda>s. ''%22'' @ to_rest_symbol s @ ''%22'') wanted) @ ''%5D'')"

definition issue_exchange_info :: "MdEnv \<Rightarrow> MdAdapter \<Rightarrow> MdAdapter" where
  "issue_exchange_info env m =
     (case md_rest m of
        None \<Rightarrow> m
      | Some client \<Rightarrow>
          (let wanted = map ss_symbol (filter ss_active (md_symbols m))
           in issue_get env m client (info_target wanted) (CallInfo wanted)))"

text \<open>The pending operation of the \<open>i\<close>-th outstanding request completes; an answered request is gone.\<close>

definition rest_event :: "MdEnv \<Rightarrow> MdAdapter \<Rightarrow> nat \<Rightarrow> RestOutcome \<Rightarrow> MdAdapter" where
  "rest_event env m i out =
     (case md_rest m of
        None \<Rightarrow> m
      | Some client \<Rightarrow>
          if i < length (md_requests m)
          then (let (call, r) = md_requests m ! i;
                    (client', r') = rest_complete client r out;
                    m1 = m\<lparr>md_rest := Some client'\<rparr>
                in case rr_answers r' of
                     [] \<Rightarrow> m1\<lparr>md_requests := (md_requests m)[i := (call, r')]\<rparr>
                   | result # rest \<Rightarrow>
                       on_response env (m1\<lparr>md_requests := take i (md_requests m) @ drop (Suc i) (md_requests m)\<rparr>) call result)
          else m)"

section \<open>The feed\<close>

definition sync_connection :: "MdAdapter \<Rightarrow> nanos \<Rightarrow> ConnectionState \<Rightarrow> nat \<Rightarrow> MdAdapter" where
  "sync_connection m now st i =
     (case st of
        CnConnected \<Rightarrow> run_sync (run_sync m now i SeConnected) now i SeSubscribed
      | CnConnecting \<Rightarrow> run_sync m now i SeConnecting
      | CnReconnecting \<Rightarrow> run_sync (run_sync (run_sync m now i SeDisconnected) now i SeConnecting) now i SeBackoff
      | CnFailed \<Rightarrow> run_sync m now i SeFatal
      | CnDisconnected \<Rightarrow> run_sync m now i SeDisconnected)"

definition connection_round :: "nanos \<Rightarrow> ConnectionState \<Rightarrow> MdAdapter \<Rightarrow> nat \<Rightarrow> MdAdapter" where
  "connection_round now st m i = publish_view (sync_connection m now st i) i"

definition on_ws_state :: "MdAdapter \<Rightarrow> nanos \<Rightarrow> ConnectionState \<Rightarrow> nat \<Rightarrow> MdAdapter" where
  "on_ws_state m now st reconnects =
     (let previous = md_connection m;
          m1 = emit_connection_event (m\<lparr>md_connection := st\<rparr>) now previous st reconnects
      in for_active m1 (connection_round now st))"

definition touch_feed :: "nanos \<Rightarrow> SymbolState \<Rightarrow> SymbolState" where
  "touch_feed recv_ns s = s\<lparr>ss_published_data_ns := recv_ns, ss_has_data := True\<rparr>"

definition feed_event :: "nanos \<Rightarrow> MdAdapter \<Rightarrow> MarketDataEvent \<Rightarrow> MdAdapter" where
  "feed_event now m ev =
     md_emit
       (case md_find m (md_symbol ev) of
          None \<Rightarrow> m
        | Some i \<Rightarrow>
            (case me_payload ev of
               MdBookUpdate u \<Rightarrow>
                 publish_view (on_slot (run_sync m now i (SeUpdate u)) i (touch_feed (es_recv_ns (me_stamps ev)))) i
             | MdTrade t q \<Rightarrow> on_slot m i (touch_feed (es_recv_ns (me_stamps ev)))
             | _ \<Rightarrow> m))
       (SinkMd ev)"

definition corruption_round :: "nanos \<Rightarrow> MdAdapter \<Rightarrow> nat \<Rightarrow> MdAdapter" where
  "corruption_round now m i = run_sync m now i SeProtocolError"

definition on_ws_frame :: "MdEnv \<Rightarrow> MdAdapter \<Rightarrow> string \<Rightarrow> nanos \<Rightarrow> MdAdapter" where
  "on_ws_frame env m frame recv_ns =
     (let (err, events) = decode_stream_frame (env_parse env) frame recv_ns (env_now env) []
      in if err \<noteq> DeNone
         then for_active (m\<lparr>md_decode_errors := inc64 (md_decode_errors m)\<rparr>) (corruption_round (env_now env))
         else foldl (feed_event (env_now env)) m events)"

definition md_call :: "MdEnv \<Rightarrow> MdAdapter \<Rightarrow> WsCall \<Rightarrow> MdAdapter" where
  "md_call env m call =
     (case call of
        CallState st reason reconnects \<Rightarrow> on_ws_state m (env_now env) st reconnects
      | CallMessage frame recv_ns \<Rightarrow> on_ws_frame env m frame recv_ns)"

text \<open>An operation of the session, and the callbacks it makes into the adapter.\<close>

definition with_ws :: "MdEnv \<Rightarrow> MdAdapter \<Rightarrow> (WsSession \<Rightarrow> WsSession \<times> WsCall list) \<Rightarrow> MdAdapter" where
  "with_ws env m f =
     (case md_ws m of
        None \<Rightarrow> m
      | Some w \<Rightarrow> (let (w', calls) = f w in foldl (md_call env) (m\<lparr>md_ws := Some w'\<rparr>) calls))"

definition arm_timer :: "MdAdapter \<Rightarrow> MdAdapter" where
  "arm_timer m = (if md_running m then m\<lparr>md_timer_armed := True\<rparr> else m)"

definition timer_slot :: "MdEnv \<Rightarrow> MdAdapter \<Rightarrow> nat \<Rightarrow> MdAdapter" where
  "timer_slot env m i =
     (let m1 = run_sync m (env_now env) i SeTimer
      in if wants_snapshot (ss_sync (md_symbols m1 ! i)) (env_now env) then issue_snapshot env m1 i else m1)"

definition md_on_timer :: "MdEnv \<Rightarrow> MdAdapter \<Rightarrow> MdAdapter" where
  "md_on_timer env m = for_active m (timer_slot env)"

definition timer_event :: "MdEnv \<Rightarrow> MdAdapter \<Rightarrow> MdAdapter" where
  "timer_event env m =
     (if \<not> md_timer_armed m then m else arm_timer (md_on_timer env (m\<lparr>md_timer_armed := False\<rparr>)))"

section \<open>Lifecycle\<close>

definition binance_capabilities :: ExchangeCapabilities where
  "binance_capabilities = \<lparr>cap_post_only = False, cap_replace = False, cap_reduce_only = False, cap_client_order_id = True,
     cap_mass_cancel = False, cap_order_query = True, cap_native_bbo = True, cap_orderbook_snapshot = True,
     cap_incremental_depth = True, cap_trade_stream = True, cap_balance_stream = False, cap_position_stream = False,
     cap_has_positions = False, cap_max_client_order_id_len = 36, cap_max_subscriptions_per_connection = 200,
     cap_max_snapshot_depth = 5000\<rparr>"

definition ws_config_for :: "MdAdapter \<Rightarrow> WsConfig" where
  "ws_config_for m =
     (let target = build_stream_path m
      in \<lparr>wsc_host = mdc_ws_host (md_config m), wsc_port = mdc_ws_port (md_config m),
          wsc_target = (if target = [] then ''/stream?streams='' else target),
          wsc_backoff = mdc_backoff (md_config m), wsc_seed = mdc_seed (md_config m)\<rparr>)"

text \<open>\<open>start\<close>; the TLS context is made or refused with a status.\<close>

definition md_start :: "MdAdapter \<Rightarrow> ErrorCode \<Rightarrow> MdAdapter \<times> ErrorCode" where
  "md_start m tls =
     (if md_running m then (m, AlreadyExists)
      else
        let m1 = m\<lparr>md_has_sink := True\<rparr>
        in if is_err tls then (m1, tls)
           else (m1\<lparr>md_rest := Some \<lparr>rc_issued = 0, rc_failed = 0\<rparr>, md_ws := Some (new_ws (ws_config_for m1)),
                    md_running := True, md_posted := [TaskBoot], md_requests := []\<rparr>, Ok))"

text \<open>The runtime SUBSCRIBE of a symbol added while connected.\<close>

definition subscribe_payload :: "MdAdapter \<Rightarrow> nat \<Rightarrow> string" where
  "subscribe_payload m i =
     ''{\"method\":\"SUBSCRIBE\",\"params\":['' @
     join_with '','' (map (\<lambda>n. ''\"'' @ n @ ''\"'') (stream_names_for (md_config m) (ss_request (md_symbols m ! i)))) @
     ''],\"id\":'' @ uint_to_string (int (md_subscribe_id m)) @ ''}''"

definition subscribe_now :: "MdEnv \<Rightarrow> MdAdapter \<Rightarrow> nat \<Rightarrow> MdAdapter" where
  "subscribe_now env m i =
     (case md_ws m of
        None \<Rightarrow> m
      | Some w \<Rightarrow>
          if md_connection m = CnConnected
          then (let (w', sent) = send_text w (subscribe_payload m i);
                    m1 = m\<lparr>md_ws := Some w', md_subscribe_id := inc32 (md_subscribe_id m)\<rparr>
                in if sent then run_sync (run_sync m1 (env_now env) i SeConnected) (env_now env) i SeSubscribed else m1)
          else m)"

definition run_task :: "MdEnv \<Rightarrow> MdAdapter \<Rightarrow> MdTask \<Rightarrow> MdAdapter" where
  "run_task env m task =
     (case task of
        TaskBoot \<Rightarrow> arm_timer (with_ws env (issue_exchange_info env m) ws_start)
      | TaskSubscribe i \<Rightarrow> subscribe_now env m i
      | TaskSnapshot symbol \<Rightarrow> (case md_find m symbol of None \<Rightarrow> m | Some i \<Rightarrow> issue_snapshot env m i)
      | TaskInstruments \<Rightarrow> issue_exchange_info env m
      | TaskStop \<Rightarrow> (with_ws env m ws_stop)\<lparr>md_timer_armed := False\<rparr>)"

definition run_posted :: "MdEnv \<Rightarrow> MdAdapter \<Rightarrow> MdAdapter" where
  "run_posted env m =
     (case md_posted m of [] \<Rightarrow> m | task # tasks \<Rightarrow> run_task env (m\<lparr>md_posted := tasks\<rparr>) task)"

definition md_post :: "MdAdapter \<Rightarrow> MdTask \<Rightarrow> MdAdapter" where
  "md_post m task = m\<lparr>md_posted := md_posted m @ [task]\<rparr>"

text \<open>
  \<open>stop\<close>: the closing closure is posted and the loop told to stop at once, so the loop runs some number \<open>k\<close> of the
  posted closures before it notices; then everything it owned is released.
\<close>

definition md_stop :: "MdEnv \<Rightarrow> MdAdapter \<Rightarrow> nat \<Rightarrow> MdAdapter" where
  "md_stop env m k =
     (if \<not> md_running m then m
      else
        let m1 = md_post (m\<lparr>md_running := False\<rparr>) TaskStop;
            m2 = (run_posted env ^^ k) m1
        in m2\<lparr>md_ws := None, md_rest := None, md_requests := [], md_timer_armed := False, md_posted := [],
              md_has_sink := False, md_connection := CnDisconnected\<rparr>)"

definition sync_config_for :: "MdConfig \<Rightarrow> SubscriptionRequest \<Rightarrow> SyncConfig" where
  "sync_config_for c request =
     (if sr_depth_levels request > 0 then (mdc_sync c)\<lparr>sc_max_depth := sr_depth_levels request\<rparr> else mdc_sync c)"

definition new_slot :: "MdConfig \<Rightarrow> SubscriptionRequest \<Rightarrow> SymbolState" where
  "new_slot c request = \<lparr>ss_symbol = sr_symbol request, ss_request = request,
     ss_sync = new_sync (sr_symbol request) (sync_config_for c request), ss_published_state = Disconnected,
     ss_published_data_ns = 0, ss_has_data = False, ss_view = empty_view, ss_active = True,
     ss_wired = False, ss_missed = False\<rparr>"

text \<open>\<open>subscribe\<close> up to the store of \<open>symbol_count_\<close>, and the two steps that follow it.\<close>

definition register_slot :: "MdAdapter \<Rightarrow> SubscriptionRequest \<Rightarrow> MdAdapter \<times> ErrorCode" where
  "register_slot m request =
     (if sr_symbol request = [] then (m, InvalidArgument)
      else if \<exists>s\<in>set (md_symbols m). ss_symbol s = sr_symbol request then (m, AlreadyExists)
      else if length (md_symbols m) \<ge> kMaxSymbols then (m, OutOfRange)
      else (m\<lparr>md_symbols := md_symbols m @ [new_slot (md_config m) request],
              md_registering := RegSlot (length (md_symbols m))\<rparr>, Ok))"

definition wire_synchronizer :: "MdAdapter \<Rightarrow> MdAdapter" where
  "wire_synchronizer m =
     (case md_registering m of
        RegSlot i \<Rightarrow> (on_slot m i (\<lambda>s. s\<lparr>ss_wired := True\<rparr>))\<lparr>md_registering := RegWired i\<rparr>
      | _ \<Rightarrow> m)"

definition post_subscription :: "MdAdapter \<Rightarrow> MdAdapter" where
  "post_subscription m =
     (case md_registering m of
        RegWired i \<Rightarrow>
          (let m1 = m\<lparr>md_registering := RegIdle\<rparr>
           in if \<not> md_running m1 then m1 else md_post m1 (TaskSubscribe i))
      | _ \<Rightarrow> m)"

definition subscribe :: "MdAdapter \<Rightarrow> SubscriptionRequest \<Rightarrow> MdAdapter \<times> ErrorCode" where
  "subscribe m request =
     (let (m1, err) = register_slot m request
      in if err \<noteq> Ok then (m1, err) else (post_subscription (wire_synchronizer m1), Ok))"

definition unsubscribe :: "MdAdapter \<Rightarrow> string \<Rightarrow> MdAdapter \<times> ErrorCode" where
  "unsubscribe m symbol =
     (case md_find m symbol of
        None \<Rightarrow> (m, NotFound)
      | Some i \<Rightarrow> (on_slot m i (\<lambda>s. s\<lparr>ss_active := False, ss_published_state := Disconnected\<rparr>), Ok))"

definition request_snapshot :: "MdAdapter \<Rightarrow> string \<Rightarrow> MdAdapter \<times> ErrorCode" where
  "request_snapshot m symbol = (if \<not> md_running m then (m, FailedPrecondition) else (md_post m (TaskSnapshot symbol), Ok))"

definition request_instruments :: "MdAdapter \<Rightarrow> MdAdapter \<times> ErrorCode" where
  "request_instruments m = (if \<not> md_running m then (m, FailedPrecondition) else (md_post m TaskInstruments, Ok))"

section \<open>Queries\<close>

definition session_state :: "MdAdapter \<Rightarrow> string \<Rightarrow> SessionState" where
  "session_state m symbol = (case md_find m symbol of None \<Rightarrow> Disconnected | Some i \<Rightarrow> ss_published_state (md_symbols m ! i))"

definition md_data_age_ns :: "MdAdapter \<Rightarrow> nanos \<Rightarrow> string \<Rightarrow> nanos" where
  "md_data_age_ns m now symbol =
     (case md_find m symbol of
        None \<Rightarrow> INT64_MAX
      | Some i \<Rightarrow> if \<not> ss_has_data (md_symbols m ! i) then INT64_MAX
                  else wrap64 (now - ss_published_data_ns (md_symbols m ! i)))"

definition book_view :: "MdAdapter \<Rightarrow> string \<Rightarrow> BookView option" where
  "book_view m symbol = (case md_find m symbol of None \<Rightarrow> None | Some i \<Rightarrow> Some (ss_view (md_symbols m ! i)))"

record MdDiagnostics =
  dg_frames_received :: nat
  dg_decode_errors :: nat
  dg_events_published :: nat
  dg_snapshot_requests :: nat
  dg_snapshot_failures :: nat
  dg_reconnects :: nat
  dg_instruments_loaded :: nat
  dg_instrument_failures :: nat

definition diagnostics :: "MdAdapter \<Rightarrow> MdDiagnostics" where
  "diagnostics m = \<lparr>dg_frames_received = (case md_ws m of None \<Rightarrow> 0 | Some w \<Rightarrow> ws_frames w),
     dg_decode_errors = md_decode_errors m, dg_events_published = md_events_published m,
     dg_snapshot_requests = md_snapshot_requests m, dg_snapshot_failures = md_snapshot_failures m,
     dg_reconnects = (case md_ws m of None \<Rightarrow> 0 | Some w \<Rightarrow> ws_reconnects w),
     dg_instruments_loaded = md_instruments_loaded m, dg_instrument_failures = md_instrument_failures m\<rparr>"

section \<open>Histories\<close>

text \<open>
  What can happen to an adapter: the calls of the engine, the steps of a registration, and the completions the loop
  delivers. A registration holds the mutex, so another \<open>subscribe\<close> or \<open>unsubscribe\<close> waits for it to end; a registration
  that the loop does not interrupt is the three steps in a row, which is \<open>subscribe\<close>.
\<close>

datatype MdAct =
    ActStart ErrorCode | ActStop nat | ActSubscribe SubscriptionRequest | ActUnsubscribe string
  | ActWire | ActPost | ActRequestSnapshot string | ActRequestInstruments | ActPosted | ActWs nat WsOutcome | ActExpire nat
  | ActRest nat RestOutcome | ActTimer

definition md_act :: "MdEnv \<Rightarrow> MdAdapter \<Rightarrow> MdAct \<Rightarrow> MdAdapter" where
  "md_act env m act =
     (case act of
        ActStart tls \<Rightarrow> fst (md_start m tls)
      | ActStop k \<Rightarrow> md_stop env m k
      | ActSubscribe request \<Rightarrow> if md_registering m = RegIdle then fst (register_slot m request) else m
      | ActWire \<Rightarrow> wire_synchronizer m
      | ActPost \<Rightarrow> post_subscription m
      | ActUnsubscribe symbol \<Rightarrow> if md_registering m = RegIdle then fst (unsubscribe m symbol) else m
      | ActRequestSnapshot symbol \<Rightarrow> fst (request_snapshot m symbol)
      | ActRequestInstruments \<Rightarrow> fst (request_instruments m)
      | ActPosted \<Rightarrow> run_posted env m
      | ActWs i out \<Rightarrow> with_ws env m (\<lambda>w. ws_complete w i out)
      | ActExpire i \<Rightarrow> with_ws env m (\<lambda>w. (ws_expire w i, []))
      | ActRest i out \<Rightarrow> rest_event env m i out
      | ActTimer \<Rightarrow> timer_event env m)"

inductive md_reachable :: "MdConfig \<Rightarrow> MdAdapter \<Rightarrow> bool" for c where
  md_new: "md_reachable c (new_adapter c)"
| md_step: "md_reachable c m \<Longrightarrow> md_reachable c (md_act env m act)"

section \<open>What a synchroniser announces\<close>

text \<open>The new announcements of an operation end in the state it leaves, and there are none when the state is the same.\<close>

definition announces :: "BookSync \<Rightarrow> BookSync \<Rightarrow> bool" where
  "announces s s' \<longleftrightarrow> (\<exists>ts. bs_announced s' = bs_announced s @ ts
     \<and> bs_state s' = (if ts = [] then bs_state s else snd (last ts)))"

lemma announces_refl: "bs_announced s' = bs_announced s \<Longrightarrow> bs_state s' = bs_state s \<Longrightarrow> announces s s'"
  by (simp add: announces_def)

lemma announces_trans: "announces s s' \<Longrightarrow> announces s' s'' \<Longrightarrow> announces s s''"
proof -
  assume "announces s s'" "announces s' s''"
  then obtain ts us where "bs_announced s' = bs_announced s @ ts" "bs_state s' = (if ts = [] then bs_state s else snd (last ts))"
    "bs_announced s'' = bs_announced s' @ us" "bs_state s'' = (if us = [] then bs_state s' else snd (last us))"
    unfolding announces_def by blast
  then have "bs_announced s'' = bs_announced s @ (ts @ us)
    \<and> bs_state s'' = (if ts @ us = [] then bs_state s else snd (last (ts @ us)))" by simp
  then show "announces s s''" unfolding announces_def by blast
qed

lemma announces_transition: "announces s (bs_transition s t)"
  by (simp add: announces_def bs_transition_def Let_def)

lemma announces_from: "announces s s' \<Longrightarrow> bs_announced u = bs_announced s \<Longrightarrow> bs_state u = bs_state s \<Longrightarrow> announces u s'"
  by (simp only: announces_def)

lemma announces_to: "announces s s' \<Longrightarrow> bs_announced u = bs_announced s' \<Longrightarrow> bs_state u = bs_state s' \<Longrightarrow> announces s u"
  by (simp only: announces_def)

lemma begin_resync_announces: "announces s (begin_resync s f)"
proof -
  let ?s = "diag (s\<lparr>bs_last_failure := f, bs_book := ob_clear (bs_book s), bs_buffer := [],
                 bs_snapshot_requested := False, bs_snapshot_attempts := 0\<rparr>) Resyncs"
  have "announces s (bs_transition ?s ResyncRequired)"
    by (rule announces_from [OF announces_transition]) simp_all
  then show ?thesis by (simp add: begin_resync_def Let_def announces_refl)
qed

lemma on_fatal_announces: "announces s (on_fatal s)"
  unfolding on_fatal_def by (rule announces_from [OF announces_transition]) simp_all

lemma apply_update_announces:
  "bs_announced (fst (apply_update_to_book s u)) = bs_announced s" "bs_state (fst (apply_update_to_book s u)) = bs_state s"
  by (simp_all add: apply_update_to_book_def Let_def split: prod.split)

lemma discard_stale_announces: "announces s (discard_stale s i us)"
proof -
  have "bs_announced (discard_stale s i us) = bs_announced s \<and> bs_state (discard_stale s i us) = bs_state s"
    by (induction us arbitrary: s) simp_all
  then show ?thesis by (simp add: announces_refl)
qed

lemma drain_buffer_announces: "announces s (fst (drain_buffer s fa us))"
proof (induction us arbitrary: s fa)
  case Nil
  then show ?case by (simp add: announces_refl)
next
  case (Cons u us)
  let ?s1 = "s\<lparr>bs_buffer := us\<rparr>"
  obtain s2 st where s2: "apply_update_to_book ?s1 u = (s2, st)" by fastforce
  have same: "bs_announced s2 = bs_announced s" "bs_state s2 = bs_state s"
    using apply_update_announces [of ?s1 u] s2 by simp_all
  have gap: "announces s (begin_resync (diag ?s1 SequenceGaps) SfSequenceGap)"
    by (rule announces_from [OF begin_resync_announces]) simp_all
  have bad: "announces s (begin_resync s2 SfInvalidUpdate)"
    by (rule announces_from [OF begin_resync_announces]) (simp_all add: same)
  have rest: "announces s (fst (drain_buffer s2 fb us))" for fb
    by (rule announces_from [OF Cons.IH]) (simp_all add: same)
  show ?case using gap bad rest by (simp add: s2 Let_def)
qed

lemma reconcile_announces: "announces s (fst (reconcile_stream s i))"
proof -
  let ?s1 = "discard_stale s i (bs_buffer s)"
  obtain s2 st where s2: "drain_buffer ?s1 False (bs_buffer ?s1) = (s2, st)" by fastforce
  have a1: "announces s ?s1" by (rule discard_stale_announces)
  have a2: "announces s s2" using announces_trans [OF a1] drain_buffer_announces [of ?s1 False "bs_buffer ?s1"] s2 by simp
  have r1: "announces s (begin_resync (diag ?s1 SequenceGaps) SfStaleSnapshot)"
    by (rule announces_trans [OF a1], rule announces_from [OF begin_resync_announces]) simp_all
  have r2: "announces s (begin_resync s2 SfCrossedBook)" by (rule announces_trans [OF a2 begin_resync_announces])
  have r3: "announces s (bs_transition (s2\<lparr>bs_last_failure := SfNone, bs_snapshot_attempts := 0\<rparr>) Ready)"
    by (rule announces_trans [OF a2], rule announces_from [OF announces_transition]) simp_all
  show ?thesis using r1 r2 r3 a2 by (simp add: reconcile_stream_def s2 Let_def split del: if_split split: if_split)
qed

lemma opened_for_announces: "announces s (opened_for s now e)"
proof -
  let ?t = "touch_data_clock s now"
  have "announces s (bs_transition ?t Syncing)" by (rule announces_from [OF announces_transition]) simp_all
  then show ?thesis by (auto simp: opened_for_def Let_def announces_refl intro: announces_to)
qed

lemma on_snapshot_announces: "announces s (fst (on_snapshot s now e))"
proof (cases "bse_symbol e = bs_symbol s \<and> (bs_state s = Subscribed \<or> bs_state s = Syncing \<or> bs_state s = ResyncRequired)")
  case True
  let ?s2 = "opened_for s now e"
  obtain b st where b: "add_snapshot_levels (bs_book ?s2) (bse_levels e) = (b, st)" by fastforce
  obtain b' fin where b': "finish_snapshot b (bse_last_update_id e) = (b', fin)" by fastforce
  have a3: "announces s (?s2\<lparr>bs_book := x\<rparr>)" for x by (rule announces_to [OF opened_for_announces]) simp_all
  have r1: "announces s (begin_resync (?s2\<lparr>bs_book := x\<rparr>) f)" for x f
    by (rule announces_trans [OF a3 begin_resync_announces])
  have r2: "announces s (fst (reconcile_stream ((diag (?s2\<lparr>bs_book := x\<rparr>) SnapshotsApplied)\<lparr>bs_snapshot_requested := False\<rparr>) j))" for x j
    by (rule announces_trans [OF a3 [of x]], rule announces_from [OF reconcile_announces]) simp_all
  from True a3 r1 r2 show ?thesis using on_snapshot_cases [OF _ _ b b'] by (simp add: Let_def)
qed (auto simp: on_snapshot_def announces_refl)

lemma on_protocol_error_announces: "announces s (on_protocol_error s)"
proof -
  have "announces s (on_fatal u)" if "bs_announced u = bs_announced s" "bs_state u = bs_state s" for u
    by (rule announces_from [OF on_fatal_announces]) (simp_all add: that)
  then show ?thesis by (simp add: on_protocol_error_def Let_def announces_refl)
qed

lemma on_update_announces: "announces s (fst (on_update s now u))"
proof -
  let ?t = "touch_data_clock s now"
  obtain s1 st where s1: "apply_update_to_book ?t u = (s1, st)" by fastforce
  have same: "bs_announced s1 = bs_announced s" "bs_state s1 = bs_state s"
    using apply_update_announces [of ?t u] s1 by simp_all
  have resync: "announces s (begin_resync v f)" if "bs_announced v = bs_announced s" "bs_state v = bs_state s" for v f
    by (rule announces_from [OF begin_resync_announces]) (simp_all add: that)
  have buf: "announces s (fst (buffer_update ?t u))"
    using resync by (simp add: buffer_update_def announces_refl)
  have "announces s (bs_transition s1 Ready)" by (rule announces_from [OF announces_transition]) (simp_all add: same)
  then have live: "announces s (fst (live_update ?t u))"
    using resync same by (simp add: live_update_def s1 Let_def announces_refl)
  show ?thesis using buf live on_protocol_error_announces by (simp add: on_update_def Let_def announces_refl)
qed

lemma sync_handle_announces: "announces s (sync_handle s now ev)"
proof -
  have tr: "announces s (bs_transition u t)" if "bs_announced u = bs_announced s" "bs_state u = bs_state s" for u t
    by (rule announces_from [OF announces_transition]) (simp_all add: that)
  have conn: "announces s (on_connected s)"
    unfolding on_connected_def Let_def by (simp add: tr announces_trans [OF announces_transition announces_transition])
  have sub: "announces s (on_subscribed s)"
    unfolding on_subscribed_def by (rule announces_to [OF announces_transition]) simp_all
  have tm: "announces s (sync_on_timer s now)"
    by (simp add: sync_on_timer_def tr begin_resync_announces announces_refl)
  have fatal: "announces s (on_fatal u)" if "bs_announced u = bs_announced s" "bs_state u = bs_state s" for u
    by (rule announces_from [OF on_fatal_announces]) (simp_all add: that)
  have failed: "announces s (note_snapshot_failed s)"
    by (simp add: note_snapshot_failed_def Let_def fatal announces_refl)
  show ?thesis
    using conn sub tm failed on_snapshot_announces on_update_announces on_protocol_error_announces on_fatal_announces
    by (simp add: sync_handle_def on_connecting_def on_disconnected_def on_backoff_def note_snapshot_requested_def tr
        announces_refl split: SyncEvent.split)
qed

lemma sync_handle_tail:
  "drop (length (bs_announced s)) (bs_announced (sync_handle s now ev)) = ts \<Longrightarrow>
   bs_state (sync_handle s now ev) = (if ts = [] then bs_state s else snd (last ts))"
  using sync_handle_announces [of s now ev] by (force simp: announces_def)

section \<open>Slots\<close>

definition slot_ok :: "MdConfig \<Rightarrow> SymbolState \<Rightarrow> bool" where
  "slot_ok c s \<longleftrightarrow> sync_inv (ss_symbol s) (sync_config_for c (ss_request s)) (ss_sync s)
     \<and> (ss_active s \<and> \<not> ss_missed s \<longrightarrow> ss_published_state s = bs_state (ss_sync s))"

text \<open>What an event leaves of a slot, the callbacks included: what one callback stores is overwritten by the next.\<close>

definition ss_sync_event :: "nanos \<Rightarrow> SyncEvent \<Rightarrow> SymbolState \<Rightarrow> SymbolState" where
  "ss_sync_event now ev s =
     (let ts = new_transitions s now ev; s1 = ss_advance now ev s
      in if ts = [] \<or> \<not> ss_wired s then s1 else ss_publish (s1\<lparr>ss_published_state := snd (last ts)\<rparr>))"

text \<open>The published view shows the state of the book, and its levels when they are to be shown.\<close>

definition view_ok :: "SymbolState \<Rightarrow> bool" where
  "view_ok s \<longleftrightarrow> bv_state (ss_view s) = bs_state (ss_sync s)
     \<and> bv_bids (ss_view s) = bv_bids (view_of s) \<and> bv_asks (ss_view s) = bv_asks (view_of s)"

lemma ss_publish_simps [simp]:
  "ss_symbol (ss_publish s) = ss_symbol s" "ss_sync (ss_publish s) = ss_sync s" "ss_active (ss_publish s) = ss_active s"
  "ss_missed (ss_publish s) = ss_missed s" "ss_wired (ss_publish s) = ss_wired s"
  "slot_ok c (ss_publish s) = slot_ok c s" "view_ok (ss_publish s)"
  by (simp_all add: ss_publish_def slot_ok_def view_ok_def view_of_def Let_def)

lemma ss_sync_event_simps [simp]:
  "ss_symbol (ss_sync_event now ev s) = ss_symbol s" "ss_active (ss_sync_event now ev s) = ss_active s"
  "ss_sync (ss_sync_event now ev s) = sync_handle (ss_sync s) now ev" "ss_wired (ss_sync_event now ev s) = ss_wired s"
  "ss_missed (ss_sync_event now ev s) = (if new_transitions s now ev = [] then ss_missed s else \<not> ss_wired s)"
  by (simp_all add: ss_sync_event_def ss_advance_def Let_def)

lemma ss_sync_event_ok:
  assumes "slot_ok c s"
  shows "slot_ok c (ss_sync_event now ev s)"
proof -
  have inv: "sync_inv (ss_symbol s) (sync_config_for c (ss_request s)) (sync_handle (ss_sync s) now ev)"
    using assms by (simp add: slot_ok_def sync_handle_inv)
  have st: "bs_state (sync_handle (ss_sync s) now ev)
      = (if new_transitions s now ev = [] then bs_state (ss_sync s) else snd (last (new_transitions s now ev)))"
    by (rule sync_handle_tail) (simp add: new_transitions_def)
  show ?thesis using assms inv st by (simp add: slot_ok_def ss_sync_event_def ss_advance_def Let_def ss_publish_def)
qed

text \<open>Apart from a snapshot and an update, no event changes a book that stays quotable.\<close>

definition quiet :: "SyncEvent \<Rightarrow> bool" where
  "quiet ev \<longleftrightarrow> (case ev of SeSnapshot e \<Rightarrow> False | SeUpdate u \<Rightarrow> False | _ \<Rightarrow> True)"

lemma on_fatal_state: "bs_state (on_fatal s) = Error"
  by (simp add: on_fatal_def session_legal_transition_def)

lemma begin_resync_state: "bs_state (begin_resync s f) \<noteq> Ready"
  by (simp add: begin_resync_def Let_def)

lemma quiet_keeps_book:
  assumes "quiet ev" "bs_state (sync_handle s now ev) = Ready"
  shows "bs_book (sync_handle s now ev) = bs_book s"
proof (cases ev)
  case SeProtocolError
  have "bs_book (on_protocol_error s) = bs_book s \<or> bs_state (on_protocol_error s) = Error"
    by (simp add: on_protocol_error_def Let_def on_fatal_state)
  with assms SeProtocolError show ?thesis by (auto simp: sync_handle_def)
next
  case SeSnapshotFailed
  have "bs_book (note_snapshot_failed s) = bs_book s \<or> bs_state (note_snapshot_failed s) = Error"
    by (simp add: note_snapshot_failed_def Let_def on_fatal_state)
  with assms SeSnapshotFailed show ?thesis by (auto simp: sync_handle_def)
next
  case SeTimer
  have "bs_book (sync_on_timer s now) = bs_book s \<or> bs_state (sync_on_timer s now) \<noteq> Ready"
    by (simp add: sync_on_timer_def begin_resync_state)
  with assms SeTimer show ?thesis by (auto simp: sync_handle_def)
next
  case SeDisconnected
  with assms show ?thesis by (simp add: sync_handle_def on_disconnected_def split: if_splits)
qed (use assms in \<open>simp_all add: sync_handle_def quiet_def on_connecting_def on_connected_def on_subscribed_def on_backoff_def
       on_fatal_state note_snapshot_requested_def Let_def\<close>)

lemma ss_sync_event_view:
  assumes "\<not> ss_missed s \<Longrightarrow> view_ok s" "quiet ev" "\<not> ss_missed (ss_sync_event now ev s)"
  shows "view_ok (ss_sync_event now ev s)"
proof (cases "new_transitions s now ev = []")
  case True
  then have "bs_state (sync_handle (ss_sync s) now ev) = bs_state (ss_sync s)"
    using sync_handle_tail [of "ss_sync s" now ev "[]"] by (simp add: new_transitions_def)
  moreover from this have "bs_state (ss_sync s) = Ready \<Longrightarrow> bs_book (sync_handle (ss_sync s) now ev) = bs_book (ss_sync s)"
    using quiet_keeps_book [OF assms(2)] by simp
  ultimately show ?thesis using assms(1,3) True
    by (auto simp: ss_sync_event_def ss_advance_def view_ok_def view_of_def is_quotable_def Let_def)
next
  case False
  then have "ss_wired s" using assms(3) by simp
  with False show ?thesis by (simp add: ss_sync_event_def Let_def)
qed

section \<open>The adapter's operations on its slots\<close>

text \<open>Every slot is in order; those outside \<open>dirty\<close> that have missed nothing have published their book.\<close>

definition slots :: "MdConfig \<Rightarrow> nat set \<Rightarrow> MdAdapter \<Rightarrow> bool" where
  "slots c dirty m \<longleftrightarrow> (\<forall>j<length (md_symbols m). slot_ok c (md_symbols m ! j) \<and> (j \<notin> dirty \<and> \<not> ss_missed (md_symbols m ! j) \<longrightarrow> view_ok (md_symbols m ! j)))"

definition refs_ok :: "MdAdapter \<Rightarrow> bool" where
  "refs_ok m \<longleftrightarrow> (\<forall>(call, r)\<in>set (md_requests m). case call of CallDepth i \<Rightarrow> i < length (md_symbols m) | CallInfo w \<Rightarrow> True)"

text \<open>What the handlers of the loop leave alone.\<close>

definition md_frame :: "MdAdapter \<Rightarrow> MdAdapter \<Rightarrow> bool" where
  "md_frame m m' \<longleftrightarrow> md_config m' = md_config m \<and> md_ws m' = md_ws m \<and> md_connection m' = md_connection m
     \<and> md_running m' = md_running m \<and> md_posted m' = md_posted m \<and> md_registering m' = md_registering m
     \<and> map ss_symbol (md_symbols m') = map ss_symbol (md_symbols m) \<and> (refs_ok m \<longrightarrow> refs_ok m')"

lemma md_frame_refl [simp]: "md_frame m m"
  by (simp add: md_frame_def)

lemma md_frame_trans: "md_frame m m' \<Longrightarrow> md_frame m' m'' \<Longrightarrow> md_frame m m''"
  by (simp add: md_frame_def)

lemma md_frame_length: "md_frame m m' \<Longrightarrow> length (md_symbols m') = length (md_symbols m)"
  unfolding md_frame_def by (metis length_map)

lemma refs_cong: "md_requests m' = md_requests m \<Longrightarrow> length (md_symbols m') = length (md_symbols m) \<Longrightarrow> refs_ok m' = refs_ok m"
  by (simp only: refs_ok_def)

lemma refs_ok_fields [simp]:
  "refs_ok (m\<lparr>md_decode_errors := x0\<rparr>) = refs_ok m"
  "refs_ok (m\<lparr>md_snapshot_failures := x1\<rparr>) = refs_ok m"
  "refs_ok (m\<lparr>md_snapshot_requests := x2\<rparr>) = refs_ok m"
  "refs_ok (m\<lparr>md_instruments_loaded := x3\<rparr>) = refs_ok m"
  "refs_ok (m\<lparr>md_instrument_failures := x4\<rparr>) = refs_ok m"
  "refs_ok (m\<lparr>md_rest := x5\<rparr>) = refs_ok m"
  "refs_ok (m\<lparr>md_timer_armed := x6\<rparr>) = refs_ok m"
  "refs_ok (m\<lparr>md_subscribe_id := x7\<rparr>) = refs_ok m"
  "refs_ok (m\<lparr>md_ws := x8\<rparr>) = refs_ok m"
  "refs_ok (m\<lparr>md_connection := x9\<rparr>) = refs_ok m"
  "refs_ok (m\<lparr>md_running := x10\<rparr>) = refs_ok m"
  "refs_ok (m\<lparr>md_posted := x11\<rparr>) = refs_ok m"
  "refs_ok (m\<lparr>md_has_sink := x12\<rparr>) = refs_ok m"
  "refs_ok (m\<lparr>md_registering := x13\<rparr>) = refs_ok m"
  by (rule refs_cong; simp)+

lemma slots_fields [simp]:
  "slots c d (m\<lparr>md_decode_errors := y0\<rparr>) = slots c d m"
  "slots c d (m\<lparr>md_snapshot_failures := y1\<rparr>) = slots c d m"
  "slots c d (m\<lparr>md_snapshot_requests := y2\<rparr>) = slots c d m"
  "slots c d (m\<lparr>md_instruments_loaded := y3\<rparr>) = slots c d m"
  "slots c d (m\<lparr>md_instrument_failures := y4\<rparr>) = slots c d m"
  "slots c d (m\<lparr>md_rest := y5\<rparr>) = slots c d m"
  "slots c d (m\<lparr>md_timer_armed := y6\<rparr>) = slots c d m"
  "slots c d (m\<lparr>md_subscribe_id := y7\<rparr>) = slots c d m"
  "slots c d (m\<lparr>md_ws := y8\<rparr>) = slots c d m"
  "slots c d (m\<lparr>md_connection := y9\<rparr>) = slots c d m"
  "slots c d (m\<lparr>md_running := y10\<rparr>) = slots c d m"
  "slots c d (m\<lparr>md_posted := y11\<rparr>) = slots c d m"
  "slots c d (m\<lparr>md_has_sink := y12\<rparr>) = slots c d m"
  "slots c d (m\<lparr>md_requests := y13\<rparr>) = slots c d m"
  "slots c d (m\<lparr>md_registering := y14\<rparr>) = slots c d m"
  by (simp_all add: slots_def)

lemma nth_update: "j < length xs \<Longrightarrow> xs[i := x] ! j = (if i = j then x else xs ! j)"
  by (cases "i = j") simp_all

lemma md_emit_simps [simp]:
  "md_symbols (md_emit m ev) = md_symbols m" "slots c d (md_emit m ev) = slots c d m"
  by (simp_all add: md_emit_def slots_def)

lemma md_emit_frame [simp]: "md_frame m (md_emit m ev)"
proof -
  have "refs_ok (md_emit m ev) = refs_ok m" by (rule refs_cong) (simp_all add: md_emit_def)
  then show ?thesis unfolding md_frame_def by (simp add: md_emit_def split: if_splits)
qed

lemma foldl_frame: "(\<And>m x. md_frame m (f m x)) \<Longrightarrow> md_frame m (foldl f m xs)"
proof (induction xs arbitrary: m)
  case (Cons x xs)
  then show ?case using md_frame_trans [of m "f m x"] by simp
qed simp

lemma on_slot_frame:
  assumes "\<And>s. ss_symbol (f s) = ss_symbol s"
  shows "md_frame m (on_slot m i f)"
proof -
  have "map ss_symbol ((md_symbols m)[i := f (md_symbols m ! i)]) = map ss_symbol (md_symbols m)"
    using assms by (cases "i < length (md_symbols m)") (simp_all add: map_update list_update_same_conv list_update_beyond not_less)
  moreover have "refs_ok (on_slot m i f) = refs_ok m" by (rule refs_cong) (simp_all add: on_slot_def)
  ultimately show ?thesis by (simp add: md_frame_def) (simp add: on_slot_def)
qed

lemma publish_view_frame [simp]: "md_frame m (publish_view m i)"
  unfolding publish_view_def by (rule on_slot_frame) simp

lemma nth_list_update_self: "xs[i := x] ! i = (if i < length xs then x else xs ! i)"
  by (cases "i < length xs") (simp_all add: list_update_beyond not_less)

lemma state_callback_symbols:
  "md_symbols (state_callback now i m t)
     = (md_symbols m)[i := ss_publish ((md_symbols m ! i)\<lparr>ss_published_state := snd t\<rparr>)]"
  by (simp add: state_callback_def emit_session_event_def publish_view_def on_slot_def nth_list_update_self list_update_beyond)

lemma state_callbacks_symbols:
  "ts \<noteq> [] \<Longrightarrow> md_symbols (foldl (state_callback now i) m ts)
     = (md_symbols m)[i := ss_publish ((md_symbols m ! i)\<lparr>ss_published_state := snd (last ts)\<rparr>)]"
proof (induction ts arbitrary: m)
  case (Cons t ts)
  have again: "ss_publish ((ss_publish (s\<lparr>ss_published_state := x\<rparr>))\<lparr>ss_published_state := y\<rparr>)
      = ss_publish (s\<lparr>ss_published_state := y\<rparr>)" for s x y
    by (simp add: ss_publish_def view_of_def Let_def)
  show ?case
  proof (cases "ts = []")
    case False
    from Cons.IH [OF this] False show ?thesis
      by (cases "i < length (md_symbols m)") (simp_all add: state_callback_symbols again list_update_beyond)
  qed (simp add: state_callback_symbols)
qed simp

lemma run_sync_symbols:
  "md_symbols (run_sync m now i ev) = (md_symbols m)[i := ss_sync_event now ev (md_symbols m ! i)]"
proof (cases "new_transitions (md_symbols m ! i) now ev = []")
  case False
  then show ?thesis
    by (cases "i < length (md_symbols m)")
       (simp_all add: run_sync_def Let_def on_slot_def ss_sync_event_def state_callbacks_symbols list_update_beyond)
qed (simp add: run_sync_def Let_def on_slot_def ss_sync_event_def)

lemma run_sync_frame [simp]: "md_frame m (run_sync m now i ev)"
proof -
  have step: "md_frame n (state_callback now i n t)" for n t
    unfolding state_callback_def emit_session_event_def Let_def
    by (rule md_frame_trans [OF on_slot_frame md_frame_trans [OF md_emit_frame publish_view_frame]]) simp
  have "md_frame m (on_slot m i (ss_advance now ev))" by (rule on_slot_frame) (simp add: ss_advance_def)
  from md_frame_trans [OF this foldl_frame [OF step]] show ?thesis unfolding run_sync_def Let_def .
qed

lemma run_sync_slots:
  assumes "slots c d m"
  shows "slots c (insert i d) (run_sync m now i ev)" "quiet ev \<Longrightarrow> slots c d (run_sync m now i ev)"
  using assms by (auto simp: slots_def run_sync_symbols nth_update ss_sync_event_ok ss_sync_event_view)

lemma publish_view_slots: "slots c d m \<Longrightarrow> slots c (d - {i}) (publish_view m i)"
  by (auto simp: slots_def publish_view_def on_slot_def nth_update)

text \<open>Loops over the active symbols keep what each round keeps.\<close>

definition round_ok :: "MdConfig \<Rightarrow> (MdAdapter \<Rightarrow> nat \<Rightarrow> MdAdapter) \<Rightarrow> bool" where
  "round_ok c f \<longleftrightarrow> (\<forall>m i. slots c {} m \<and> i < length (md_symbols m) \<longrightarrow> slots c {} (f m i) \<and> md_frame m (f m i))"

lemma for_active_ok:
  assumes "round_ok c f" "slots c {} m"
  shows "slots c {} (for_active m f) \<and> md_frame m (for_active m f)"
proof -
  have "slots c {} (foldl (if_active f) n is) \<and> md_frame n (foldl (if_active f) n is)"
    if "slots c {} n" "\<forall>i\<in>set is. i < length (md_symbols n)" for n "is"
    using that
  proof (induction "is" arbitrary: n)
    case (Cons i "is")
    let ?n = "if_active f n i"
    have n: "slots c {} ?n" "md_frame n ?n" using Cons.prems assms(1) by (simp_all add: round_ok_def if_active_def)
    with Cons.IH [of ?n] Cons.prems md_frame_length [OF n(2)] md_frame_trans [OF n(2)] show ?case by simp
  qed simp
  with assms(2) show ?thesis by (simp add: for_active_def)
qed

lemma on_snapshot_response_ok:
  assumes "slots c {} m"
  shows "slots c {} (on_snapshot_response env m i result) \<and> md_frame m (on_snapshot_response env m i result)"
proof (cases result)
  case (Inl e)
  let ?m = "m\<lparr>md_snapshot_failures := inc64 (md_snapshot_failures m)\<rparr>"
  have "slots c {} ?m" "md_frame m ?m" using assms by (simp_all add: md_frame_def)
  with Inl show ?thesis using run_sync_slots(2) [of c "{}" ?m SeSnapshotFailed "env_now env" i] md_frame_trans [OF _ run_sync_frame]
    by (simp add: on_snapshot_response_def quiet_def)
next
  case (Inr body)
  obtain err evs where d: "decode_depth_snapshot (env_parse env) body (ss_symbol (md_symbols m ! i)) (env_now env) (env_now env) [] = (err, evs)"
    by fastforce
  let ?m = "m\<lparr>md_decode_errors := inc64 (md_decode_errors m), md_snapshot_failures := inc64 (md_snapshot_failures m)\<rparr>"
  let ?bad = "run_sync (run_sync ?m (env_now env) i SeProtocolError) (env_now env) i SeSnapshotFailed"
  let ?f = "image_chunk (env_now env) i"
  have "slots c {} ?m" and f0: "md_frame m ?m" using assms by (simp_all add: md_frame_def)
  then have bad: "slots c {} ?bad" using run_sync_slots(2) by (simp add: quiet_def)
  have bad_f: "md_frame m ?bad" by (rule md_frame_trans [OF md_frame_trans [OF f0 run_sync_frame] run_sync_frame])
  have "slots c {i} (foldl ?f n evs)" if "slots c {i} n" for n
    using that
  proof (induction evs arbitrary: n)
    case (Cons ev evs)
    have "slots c {i} (?f n ev)" using run_sync_slots(1) [OF Cons.prems, of i] Cons.prems by (simp add: image_chunk_def split: MdPayload.split)
    with Cons.IH show ?case by simp
  qed simp
  moreover have "slots c {i} m" using assms by (auto simp: slots_def)
  ultimately have "slots c {i} (foldl ?f m evs)" by blast
  then have good: "slots c {} (publish_view (foldl ?f m evs) i)" using publish_view_slots [of c "{i}" _ i] by simp
  have "md_frame n (?f n ev)" for n ev
    unfolding image_chunk_def by (rule md_frame_trans [OF _ md_emit_frame]) (simp split: MdPayload.split)
  then have good_f: "md_frame m (publish_view (foldl ?f m evs) i)"
    by (intro md_frame_trans [OF foldl_frame publish_view_frame])
  show ?thesis using Inr d bad bad_f good good_f by (simp add: on_snapshot_response_def)
qed

lemma on_info_response_ok:
  assumes "slots c {} m"
  shows "slots c {} (on_info_response env m wanted result) \<and> md_frame m (on_info_response env m wanted result)"
proof (cases result)
  case (Inl e)
  with assms show ?thesis by (simp add: on_info_response_def md_frame_def)
next
  case (Inr body)
  obtain err evs where d: "decode_exchange_info (env_parse env) body wanted (env_now env) (env_now env) [] = (err, evs)"
    by fastforce
  let ?f = instrument_loaded
  let ?m = "if evs = [] then m\<lparr>md_instrument_failures := inc64 (md_instrument_failures m)\<rparr> else m"
  have step: "md_frame n (?f n ev)" for n ev 
    unfolding instrument_loaded_def by (rule md_frame_trans [OF _ md_emit_frame]) (simp add: md_frame_def)
  have m: "slots c {} ?m" "md_frame m ?m" using assms by (simp_all add: md_frame_def)
  have "slots c {} (foldl ?f n evs)" if "slots c {} n" for n
    using that by (induction evs arbitrary: n) (simp_all add: instrument_loaded_def)
  with m(1) have "slots c {} (foldl ?f ?m evs)" by blast
  moreover have "md_frame m (foldl ?f ?m evs)" by (rule md_frame_trans [OF m(2) foldl_frame]) (rule step)
  ultimately show ?thesis using Inr d assms by (simp add: on_info_response_def md_frame_def)
qed

lemma on_response_ok:
  "slots c {} m \<Longrightarrow> slots c {} (on_response env m call result) \<and> md_frame m (on_response env m call result)"
  using on_snapshot_response_ok on_info_response_ok by (simp add: on_response_def split: RestCall.split)

text \<open>A call names a slot that exists.\<close>

definition call_ok :: "MdAdapter \<Rightarrow> RestCall \<Rightarrow> bool" where
  "call_ok m call \<longleftrightarrow> (case call of CallDepth i \<Rightarrow> i < length (md_symbols m) | CallInfo w \<Rightarrow> True)"

lemma refs_ok_alt: "refs_ok m \<longleftrightarrow> (\<forall>q\<in>set (md_requests m). call_ok m (fst q))"
  by (simp add: refs_ok_def call_ok_def split_beta)

lemma call_ok_requests [simp]: "call_ok (m\<lparr>md_requests := q, md_rest := r\<rparr>) = call_ok m"
  "call_ok (m\<lparr>md_requests := q\<rparr>) = call_ok m" "call_ok (m\<lparr>md_rest := r\<rparr>) = call_ok m"
  by (simp_all add: call_ok_def fun_eq_iff split: RestCall.split)

lemma issue_get_ok:
  assumes "slots c {} m" "call_ok m call"
  shows "slots c {} (issue_get env m client target call) \<and> md_frame m (issue_get env m client target call)"
proof -
  obtain client' r where g: "async_get client target (env_sni env) = (client', r)" by fastforce
  let ?m = "m\<lparr>md_rest := Some client'\<rparr>"
  have m: "slots c {} ?m" "md_frame m ?m" using assms(1) by (simp_all add: md_frame_def)
  have "refs_ok m \<longrightarrow> refs_ok (?m\<lparr>md_requests := md_requests m @ [(call, r)]\<rparr>)"
    using assms(2) by (simp add: refs_ok_alt)
  then have "md_frame m (?m\<lparr>md_requests := md_requests m @ [(call, r)]\<rparr>)" by (simp add: md_frame_def)
  then show ?thesis
    using m on_response_ok [OF m(1)] md_frame_trans [OF m(2)]
    by (simp add: issue_get_def g Let_def split: list.split)
qed

lemma issue_snapshot_ok:
  assumes "slots c {} m" "i < length (md_symbols m)"
  shows "slots c {} (issue_snapshot env m i) \<and> md_frame m (issue_snapshot env m i)"
proof (cases "md_rest m")
  case (Some client)
  let ?m1 = "run_sync m (env_now env) i SeSnapshotRequested"
  let ?m2 = "?m1\<lparr>md_snapshot_requests := inc64 (md_snapshot_requests ?m1)\<rparr>"
  have s: "slots c {} ?m2" using run_sync_slots(2) [OF assms(1), of SeSnapshotRequested] by (simp add: quiet_def)
  have f: "md_frame m ?m2" using run_sync_frame [of m "env_now env" i SeSnapshotRequested] by (simp add: md_frame_def)
  have "call_ok ?m2 (CallDepth i)" using assms(2) md_frame_length [OF f] by (simp add: call_ok_def)
  from issue_get_ok [OF s this] md_frame_trans [OF f] Some show ?thesis by (simp add: issue_snapshot_def Let_def)
qed (use assms in \<open>simp add: issue_snapshot_def\<close>)

lemma issue_exchange_info_ok:
  assumes "slots c {} m"
  shows "slots c {} (issue_exchange_info env m) \<and> md_frame m (issue_exchange_info env m)"
  using issue_get_ok [OF assms] assms
  by (simp add: issue_exchange_info_def call_ok_def Let_def split: option.split)

lemma rest_event_ok:
  assumes "slots c {} m"
  shows "slots c {} (rest_event env m i out) \<and> md_frame m (rest_event env m i out)"
proof (cases "md_rest m = None \<or> length (md_requests m) \<le> i")
  case True
  with assms show ?thesis by (auto simp: rest_event_def split: option.split)
next
  case False
  then obtain client where client: "md_rest m = Some client" and i: "i < length (md_requests m)" by auto
  obtain call r where q: "md_requests m ! i = (call, r)" by fastforce
  obtain client' r' where d: "rest_complete client r out = (client', r')" by fastforce
  let ?m1 = "m\<lparr>md_rest := Some client', md_requests := (md_requests m)[i := (call, r')]\<rparr>"
  let ?m2 = "m\<lparr>md_rest := Some client', md_requests := take i (md_requests m) @ drop (Suc i) (md_requests m)\<rparr>"
  have "refs_ok m \<longrightarrow> refs_ok ?m1"
    using i q by (auto simp: refs_ok_alt dest!: subsetD [OF set_update_subset_insert]) (metis fst_conv nth_mem)
  then have m1: "slots c {} ?m1" "md_frame m ?m1" using assms by (simp_all add: md_frame_def)
  have "refs_ok m \<longrightarrow> refs_ok ?m2"
    by (auto simp: refs_ok_alt dest: in_set_takeD in_set_dropD)
  then have m2: "slots c {} ?m2" "md_frame m ?m2" using assms by (simp_all add: md_frame_def)
  show ?thesis using m1 on_response_ok [OF m2(1)] md_frame_trans [OF m2(2)] client i
    by (simp add: rest_event_def q d Let_def split: list.split)
qed

lemma find_from_Some:
  "find_from i ss symbol = Some j \<Longrightarrow> i \<le> j \<and> j < i + length ss \<and> ss_active (ss ! (j - i)) \<and> ss_symbol (ss ! (j - i)) = symbol"
proof (induction ss arbitrary: i)
  case (Cons s ss)
  show ?case
  proof (cases "ss_active s \<and> ss_symbol s = symbol")
    case False
    then have "find_from (Suc i) ss symbol = Some j" using Cons.prems by auto
    from Cons.IH [OF this] have j: "Suc i \<le> j" "j < Suc i + length ss" "ss_active (ss ! (j - Suc i))" "ss_symbol (ss ! (j - Suc i)) = symbol"
      by simp_all
    then have "(s # ss) ! (j - i) = ss ! (j - Suc i)" by (simp add: nth_Cons')
    with j show ?thesis by simp
  qed (use Cons.prems in auto)
qed simp

lemma md_find_Some:
  "md_find m symbol = Some j \<Longrightarrow> j < length (md_symbols m) \<and> ss_active (md_symbols m ! j) \<and> ss_symbol (md_symbols m ! j) = symbol"
  using find_from_Some [of 0 "md_symbols m" symbol j] by (simp add: md_find_def)

lemma touch_feed_simps [simp]:
  "ss_symbol (touch_feed t s) = ss_symbol s" "ss_missed (touch_feed t s) = ss_missed s" "slot_ok c (touch_feed t s) = slot_ok c s" "view_ok (touch_feed t s) = view_ok s"
  by (simp_all add: touch_feed_def slot_ok_def view_ok_def view_of_def Let_def)

lemma touch_slots: "slots c d m \<Longrightarrow> slots c d (on_slot m i (touch_feed t))"
  by (simp add: slots_def on_slot_def nth_update)

lemma touch_frame [simp]: "md_frame m (on_slot m i (touch_feed t))"
  by (rule on_slot_frame) simp

lemma feed_event_ok:
  assumes "slots c {} m"
  shows "slots c {} (feed_event now m ev) \<and> md_frame m (feed_event now m ev)"
proof -
  have up: "slots c {} (publish_view (on_slot (run_sync m now i (SeUpdate u)) i (touch_feed t)) i)" for i u t
    using publish_view_slots [OF touch_slots [OF run_sync_slots(1) [OF assms, of i]], where i = i] by simp
  have up_f: "md_frame m (publish_view (on_slot (run_sync m now i (SeUpdate u)) i (touch_feed t)) i)" for i u t
    by (rule md_frame_trans [OF md_frame_trans [OF run_sync_frame touch_frame] publish_view_frame])
  show ?thesis unfolding feed_event_def using up up_f assms touch_slots [OF assms]
    by (auto split: option.split MdPayload.split intro: md_frame_trans [OF _ md_emit_frame])
qed

lemma on_ws_frame_ok:
  assumes "slots c {} m"
  shows "slots c {} (on_ws_frame env m frame recv_ns) \<and> md_frame m (on_ws_frame env m frame recv_ns)"
proof -
  obtain err evs where d: "decode_stream_frame (env_parse env) frame recv_ns (env_now env) [] = (err, evs)" by fastforce
  let ?m = "m\<lparr>md_decode_errors := inc64 (md_decode_errors m)\<rparr>"
  have m: "slots c {} ?m" "md_frame m ?m" using assms by (simp_all add: md_frame_def)
  have "round_ok c (corruption_round (env_now env))"
    using run_sync_slots(2) by (simp add: round_ok_def corruption_round_def quiet_def)
  from for_active_ok [OF this m(1)] md_frame_trans [OF m(2)]
  have bad: "slots c {} (for_active ?m (corruption_round (env_now env)))
    \<and> md_frame m (for_active ?m (corruption_round (env_now env)))" by simp
  have "slots c {} (foldl (feed_event (env_now env)) n es) \<and> md_frame n (foldl (feed_event (env_now env)) n es)"
    if "slots c {} n" for n es
    using that
  proof (induction es arbitrary: n)
    case (Cons e es)
    with feed_event_ok [OF Cons.prems, of "env_now env" e] show ?case using md_frame_trans by (simp, blast)
  qed simp
  with assms bad d show ?thesis by (simp add: on_ws_frame_def)
qed

lemma sync_connection_ok:
  assumes "slots c {} m"
  shows "slots c {} (publish_view (sync_connection m now st i) i) \<and> md_frame m (publish_view (sync_connection m now st i) i)"
proof -
  have "slots c {} (sync_connection m now st i)"
    using assms run_sync_slots(2) by (cases st) (simp_all add: sync_connection_def quiet_def)
  moreover have "md_frame m (sync_connection m now st i)"
    by (cases st) (auto simp: sync_connection_def intro: md_frame_trans [OF _ run_sync_frame] md_frame_trans [OF run_sync_frame run_sync_frame])
  ultimately show ?thesis using publish_view_slots [of c "{}"] md_frame_trans [OF _ publish_view_frame] by simp
qed

lemma on_ws_state_ok:
  assumes "slots c {} m"
  shows "slots c {} (on_ws_state m now st n) \<and> md_frame (m\<lparr>md_connection := st\<rparr>) (on_ws_state m now st n)"
proof -
  let ?m = "emit_connection_event (m\<lparr>md_connection := st\<rparr>) now (md_connection m) st n"
  have m: "slots c {} ?m" "md_frame (m\<lparr>md_connection := st\<rparr>) ?m" using assms by (simp_all add: emit_connection_event_def)
  have "round_ok c (connection_round now st)"
    unfolding round_ok_def connection_round_def using sync_connection_ok by blast
  from for_active_ok [OF this m(1)] md_frame_trans [OF m(2)] show ?thesis by (simp add: on_ws_state_def)
qed

text \<open>The connection state after a list of callbacks is the last one announced.\<close>

definition last_state :: "ConnectionState \<Rightarrow> WsCall list \<Rightarrow> ConnectionState" where
  "last_state st calls = (if states_of calls = [] then st else last (states_of calls))"

lemma md_calls_ok:
  assumes "slots c {} m"
  shows "slots c {} (foldl (md_call env) m calls)
    \<and> md_frame (m\<lparr>md_connection := last_state (md_connection m) calls\<rparr>) (foldl (md_call env) m calls)"
  using assms
proof (induction calls arbitrary: m)
  case Nil
  then show ?case by (simp add: last_state_def md_frame_def)
next
  case (Cons call calls)
  let ?n = "md_call env m call"
  show ?case
  proof (cases call)
    case (CallState st reason k)
    then have n: "slots c {} ?n" "md_frame (m\<lparr>md_connection := st\<rparr>) ?n" using on_ws_state_ok [OF Cons.prems] by (simp_all add: md_call_def)
    then have "last_state (md_connection ?n) calls = last_state (md_connection m) (call # calls)"
      by (simp add: last_state_def CallState md_frame_def)
    with Cons.IH [OF n(1)] n(2) show ?thesis by (simp add: md_frame_def)
  next
    case (CallMessage frame t)
    then have n: "slots c {} ?n" "md_frame m ?n" using on_ws_frame_ok [OF Cons.prems] by (simp_all add: md_call_def)
    then have "last_state (md_connection ?n) calls = last_state (md_connection m) (call # calls)"
      by (simp add: last_state_def CallMessage md_frame_def)
    with Cons.IH [OF n(1)] n(2) show ?thesis by (simp add: md_frame_def)
  qed
qed

lemma with_ws_ok:
  assumes "slots c {} m" "md_ws m = Some w" "announced_change w (f w)" "md_connection m = ws_state w"
  shows "slots c {} (with_ws env m f)
    \<and> md_frame (m\<lparr>md_ws := Some (fst (f w)), md_connection := ws_state (fst (f w))\<rparr>) (with_ws env m f)"
proof -
  obtain w' calls where q: "f w = (w', calls)" by fastforce
  let ?m = "m\<lparr>md_ws := Some w'\<rparr>"
  have st: "last_state (md_connection ?m) calls = ws_state w'"
    using assms(3,4) q by (simp add: announced_change_def last_state_def)
  have "slots c {} ?m" using assms(1) by simp
  from md_calls_ok [OF this, of env calls] st show ?thesis using assms(2) q
    by (simp add: with_ws_def)
qed

section \<open>The adapter invariant\<close>

definition task_ok :: "nat \<Rightarrow> MdTask \<Rightarrow> bool" where
  "task_ok n task \<longleftrightarrow> (case task of TaskSubscribe i \<Rightarrow> i < n | _ \<Rightarrow> True)"

definition reg_ok :: "nat \<Rightarrow> Registration \<Rightarrow> bool" where
  "reg_ok n reg \<longleftrightarrow> (case reg of RegIdle \<Rightarrow> True | RegSlot i \<Rightarrow> i < n | RegWired i \<Rightarrow> i < n)"

definition ws_state_of :: "WsSession option \<Rightarrow> ConnectionState" where
  "ws_state_of w = (case w of None \<Rightarrow> CnDisconnected | Some w \<Rightarrow> ws_state w)"

text \<open>The parameter \<open>life\<close> says whether the adapter is running and whether it has a session.\<close>

definition md_inv :: "MdConfig \<Rightarrow> bool \<times> bool \<Rightarrow> MdAdapter \<Rightarrow> bool" where
  "md_inv c life m \<longleftrightarrow> md_config m = c \<and> slots c {} m \<and> distinct (map ss_symbol (md_symbols m))
     \<and> length (md_symbols m) \<le> kMaxSymbols \<and> md_connection m = ws_state_of (md_ws m) \<and> refs_ok m
     \<and> list_all (task_ok (length (md_symbols m))) (md_posted m) \<and> reg_ok (length (md_symbols m)) (md_registering m)
     \<and> life = (md_running m, md_ws m \<noteq> None)"

lemma md_inv_frame:
  assumes "md_inv c life m" "slots c {} m'" "md_frame m m'"
  shows "md_inv c life m'"
proof -
  have "length (md_symbols m') = length (md_symbols m)" by (rule md_frame_length [OF assms(3)])
  with assms show ?thesis by (simp add: md_inv_def md_frame_def)
qed

lemma md_inv_fields [simp]:
  "md_inv c life (m\<lparr>md_timer_armed := b\<rparr>) = md_inv c life m" "md_inv c life (m\<lparr>md_has_sink := b\<rparr>) = md_inv c life m"
  by (simp_all add: md_inv_def)

lemma md_inv_slots: "md_inv c life m \<Longrightarrow> slots c {} m"
  by (simp add: md_inv_def)

lemma md_inv_ok: "md_inv c life m \<Longrightarrow> slots c {} m' \<and> md_frame m m' \<Longrightarrow> md_inv c life m'"
  using md_inv_frame by blast

lemma with_ws_inv:
  assumes "md_inv c life m" "\<And>w. announced_change w (f w)"
  shows "md_inv c life (with_ws env m f)"
proof (cases "md_ws m")
  case None
  with assms(1) show ?thesis by (simp add: with_ws_def)
next
  case (Some w)
  let ?m = "m\<lparr>md_ws := Some (fst (f w)), md_connection := ws_state (fst (f w))\<rparr>"
  have "md_connection m = ws_state w" using assms(1) Some by (simp add: md_inv_def ws_state_of_def)
  from with_ws_ok [where f = f, OF md_inv_slots [OF assms(1)] Some assms(2) this] have "slots c {} (with_ws env m f) \<and> md_frame ?m (with_ws env m f)" .
  moreover have "md_inv c life ?m" using assms(1) Some by (simp add: md_inv_def ws_state_of_def)
  ultimately show ?thesis using md_inv_ok by blast
qed

lemma subscribe_now_inv:
  assumes "md_inv c life m"
  shows "md_inv c life (subscribe_now env m i)"
proof (cases "md_ws m = None \<or> md_connection m \<noteq> CnConnected")
  case True
  with assms show ?thesis by (auto simp: subscribe_now_def split: option.split)
next
  case False
  then obtain w where w: "md_ws m = Some w" "md_connection m = CnConnected" by auto
  obtain w' sent where t: "send_text w (subscribe_payload m i) = (w', sent)" by fastforce
  let ?m = "m\<lparr>md_ws := Some w', md_subscribe_id := inc32 (md_subscribe_id m)\<rparr>"
  have "ws_state w' = ws_state w"
    using t by (auto simp: send_text_def Let_def split: if_splits)
  then have m: "md_inv c life ?m" using assms w by (simp add: md_inv_def ws_state_of_def)
  have "md_inv c life (run_sync (run_sync ?m (env_now env) i SeConnected) (env_now env) i SeSubscribed)"
    using run_sync_slots(2) [OF md_inv_slots [OF m]] run_sync_slots(2)
    by (intro md_inv_ok [OF m] conjI md_frame_trans [OF run_sync_frame run_sync_frame]) (simp add: quiet_def)
  with m w t show ?thesis by (simp add: subscribe_now_def Let_def)
qed

lemma run_task_inv:
  assumes "md_inv c life m" "task_ok (length (md_symbols m)) task"
  shows "md_inv c life (run_task env m task)"
proof (cases task)
  case TaskBoot
  have "md_inv c life (issue_exchange_info env m)"
    by (rule md_inv_ok [OF assms(1) issue_exchange_info_ok [OF md_inv_slots [OF assms(1)]]])
  from with_ws_inv [OF this ws_start_announced] show ?thesis by (simp add: TaskBoot run_task_def arm_timer_def)
next
  case (TaskSubscribe i)
  with assms show ?thesis by (simp add: run_task_def subscribe_now_inv)
next
  case (TaskSnapshot symbol)
  have "md_inv c life (issue_snapshot env m i)" if "md_find m symbol = Some i" for i
    using md_inv_ok [OF assms(1) issue_snapshot_ok [OF md_inv_slots [OF assms(1)]]] md_find_Some [OF that] by blast
  with assms(1) show ?thesis by (simp add: TaskSnapshot run_task_def split: option.split)
next
  case TaskInstruments
  then show ?thesis using md_inv_ok [OF assms(1) issue_exchange_info_ok [OF md_inv_slots [OF assms(1)]]]
    by (simp add: run_task_def)
next
  case TaskStop
  with with_ws_inv [OF assms(1) ws_stop_announced] show ?thesis by (simp add: run_task_def)
qed

lemma run_posted_inv:
  assumes "md_inv c life m"
  shows "md_inv c life (run_posted env m)"
proof (cases "md_posted m")
  case (Cons task tasks)
  with assms have "md_inv c life (m\<lparr>md_posted := tasks\<rparr>)" "task_ok (length (md_symbols m)) task" by (simp_all add: md_inv_def)
  with Cons show ?thesis by (simp add: run_posted_def run_task_inv)
qed (use assms in \<open>simp add: run_posted_def\<close>)

lemma md_post_inv: "md_inv c life m \<Longrightarrow> task_ok (length (md_symbols m)) task \<Longrightarrow> md_inv c life (md_post m task)"
  by (simp add: md_inv_def md_post_def)

lemma md_stop_inv:
  assumes "md_inv c (True, True) m"
  shows "md_inv c (False, False) (md_stop env m k)"
proof -
  let ?m1 = "md_post (m\<lparr>md_running := False\<rparr>) TaskStop"
  have run: "md_running m" using assms by (simp add: md_inv_def)
  have "md_inv c (False, True) (m\<lparr>md_running := False\<rparr>)" using assms by (simp add: md_inv_def)
  then have "md_inv c (False, True) ?m1" by (rule md_post_inv) (simp add: task_ok_def)
  then have "md_inv c (False, True) ((run_posted env ^^ k) ?m1)" by (induction k) (simp_all add: run_posted_inv)
  then show ?thesis by (simp add: md_stop_def run Let_def md_inv_def ws_state_of_def refs_ok_alt)
qed

lemma md_start_inv:
  assumes "md_inv c (False, False) m"
  shows "md_inv c (if is_err tls then (False, False) else (True, True)) (fst (md_start m tls))"
proof -
  have "refs_ok (m\<lparr>md_requests := []\<rparr>)" by (simp add: refs_ok_alt)
  with assms show ?thesis
    by (simp add: md_start_def Let_def md_inv_def ws_state_of_def task_ok_def new_ws_def) (simp add: refs_ok_alt)
qed

lemma new_slot_ok: "slot_ok c (new_slot c request)" "view_ok (new_slot c request)"
  by (simp_all add: slot_ok_def view_ok_def new_slot_def new_sync_inv view_of_def empty_view_def is_quotable_def Let_def)
     (simp_all add: new_sync_def)

lemma register_slot_inv:
  assumes "md_inv c life m"
  shows "md_inv c life (fst (register_slot m request))"
proof -
  let ?m = "m\<lparr>md_symbols := md_symbols m @ [new_slot (md_config m) request], md_registering := RegSlot (length (md_symbols m))\<rparr>"
  have "md_inv c life ?m"
    if "\<not> (\<exists>s\<in>set (md_symbols m). ss_symbol s = sr_symbol request)" "length (md_symbols m) < kMaxSymbols"
  proof -
    have "list_all (task_ok (Suc (length (md_symbols m)))) (md_posted m)"
      using assms by (auto simp: md_inv_def list_all_iff task_ok_def split: MdTask.splits)
    moreover have "refs_ok ?m"
      using assms by (auto simp: md_inv_def refs_ok_alt call_ok_def split: RestCall.splits)
    moreover have "slots c {} ?m"
      using assms new_slot_ok by (simp add: md_inv_def slots_def nth_append less_Suc_eq)
    ultimately show ?thesis using assms that
      by (auto simp: md_inv_def reg_ok_def new_slot_def)
  qed
  then show ?thesis using assms by (simp add: register_slot_def)
qed

lemma wire_synchronizer_inv:
  assumes "md_inv c life m"
  shows "md_inv c life (wire_synchronizer m)"
proof -
  let ?f = "\<lambda>s. s\<lparr>ss_wired := True\<rparr>"
  have "slot_ok c s \<Longrightarrow> slot_ok c (?f s)" "view_ok s \<Longrightarrow> view_ok (?f s)" for s
    by (simp_all add: slot_ok_def view_ok_def view_of_def Let_def)
  then have "slots c {} (on_slot m i ?f)" for i
    using md_inv_slots [OF assms] by (simp add: slots_def on_slot_def nth_update)
  moreover have "md_frame m (on_slot m i ?f)" for i by (rule on_slot_frame) simp
  ultimately have "md_inv c life (on_slot m i ?f)" for i using md_inv_ok [OF assms] by blast
  then have "md_inv c life ((on_slot m i ?f)\<lparr>md_registering := RegWired i\<rparr>)" if "md_registering m = RegSlot i" for i
    using that assms by (simp add: md_inv_def reg_ok_def on_slot_def)
  with assms show ?thesis by (simp add: wire_synchronizer_def split: Registration.split)
qed

lemma post_subscription_inv:
  assumes "md_inv c life m"
  shows "md_inv c life (post_subscription m)"
proof -
  have idle: "md_inv c life (m\<lparr>md_registering := RegIdle\<rparr>)" using assms by (simp add: md_inv_def reg_ok_def)
  have "md_inv c life (md_post (m\<lparr>md_registering := RegIdle\<rparr>) (TaskSubscribe i))" if "md_registering m = RegWired i" for i
    using assms that by (intro md_post_inv [OF idle]) (simp add: md_inv_def reg_ok_def task_ok_def)
  with assms idle show ?thesis by (simp add: post_subscription_def Let_def split: Registration.split)
qed

lemma unsubscribe_inv:
  assumes "md_inv c life m"
  shows "md_inv c life (fst (unsubscribe m symbol))"
proof -
  let ?f = "\<lambda>s. s\<lparr>ss_active := False, ss_published_state := Disconnected\<rparr>"
  have "slot_ok c s \<Longrightarrow> slot_ok c (?f s)" "view_ok s \<Longrightarrow> view_ok (?f s)" for s
    by (simp_all add: slot_ok_def view_ok_def view_of_def Let_def)
  then have "slots c {} (on_slot m i ?f)" for i
    using md_inv_slots [OF assms] by (simp add: slots_def on_slot_def nth_update)
  moreover have "md_frame m (on_slot m i ?f)" for i by (rule on_slot_frame) simp
  ultimately have "md_inv c life (on_slot m i ?f)" for i using md_inv_ok [OF assms] by blast
  with assms show ?thesis by (simp add: unsubscribe_def split: option.split)
qed

lemma timer_event_inv:
  assumes "md_inv c life m"
  shows "md_inv c life (timer_event env m)"
proof -
  have "round_ok c (timer_slot env)" unfolding round_ok_def
  proof (intro allI impI)
    fix m i
    assume a: "slots c {} m \<and> i < length (md_symbols m)"
    let ?m = "run_sync m (env_now env) i SeTimer"
    have s: "slots c {} ?m" using run_sync_slots(2) [OF conjunct1 [OF a]] by (simp add: quiet_def)
    have "i < length (md_symbols ?m)" using a md_frame_length [OF run_sync_frame] by simp
    from issue_snapshot_ok [OF s this] s md_frame_trans [OF run_sync_frame [of m "env_now env" i SeTimer]]
    show "slots c {} (timer_slot env m i) \<and> md_frame m (timer_slot env m i)" by (simp add: timer_slot_def Let_def)
  qed
  moreover have m: "md_inv c life (m\<lparr>md_timer_armed := False\<rparr>)" using assms by simp
  ultimately have "md_inv c life (md_on_timer env (m\<lparr>md_timer_armed := False\<rparr>))"
    unfolding md_on_timer_def using for_active_ok md_inv_slots md_inv_ok by blast
  with assms show ?thesis by (simp add: timer_event_def arm_timer_def)
qed

text \<open>Between the steps of the engine and the loop, an adapter is either running with a session or has neither.\<close>

definition adapter_inv :: "MdConfig \<Rightarrow> MdAdapter \<Rightarrow> bool" where
  "adapter_inv c m \<longleftrightarrow> md_inv c (False, False) m \<or> md_inv c (True, True) m"

lemma md_act_inv:
  assumes "adapter_inv c m"
  shows "adapter_inv c (md_act env m act)"
proof -
  have keep: "adapter_inv c m'" if "\<And>life. md_inv c life m \<Longrightarrow> md_inv c life m'" for m'
    using assms that unfolding adapter_inv_def by blast
  show ?thesis
  proof (cases act)
    case (ActStart tls)
    have "md_running m \<Longrightarrow> fst (md_start m tls) = m" by (simp add: md_start_def)
    moreover have "md_inv c (False, False) m \<Longrightarrow> adapter_inv c (fst (md_start m tls))"
      using md_start_inv [of c m tls] by (auto simp: adapter_inv_def split: if_splits)
    moreover have "md_inv c (True, True) m \<Longrightarrow> md_running m" by (simp add: md_inv_def)
    ultimately show ?thesis using assms ActStart by (auto simp: md_act_def adapter_inv_def)
  next
    case (ActStop k)
    have "\<not> md_running m \<Longrightarrow> md_stop env m k = m" by (simp add: md_stop_def)
    moreover have "md_inv c (False, False) m \<Longrightarrow> \<not> md_running m" by (simp add: md_inv_def)
    ultimately show ?thesis using assms ActStop md_stop_inv [of c m env k] by (auto simp: md_act_def adapter_inv_def)
  next
    case (ActRequestSnapshot symbol)
    show ?thesis unfolding ActRequestSnapshot md_act_def
      by (rule keep) (simp add: request_snapshot_def md_post_inv task_ok_def)
  next
    case ActRequestInstruments
    show ?thesis unfolding ActRequestInstruments md_act_def
      by (rule keep) (simp add: request_instruments_def md_post_inv task_ok_def)
  next
    case (ActRest i out)
    show ?thesis unfolding ActRest md_act_def
      by (rule keep) (simp add: md_inv_ok [OF _ rest_event_ok] md_inv_slots)
  next
    case (ActExpire i)
    have "announced_change w (ws_expire w i, [])" for w by (simp add: announced_change_def)
    from with_ws_inv [OF _ this] show ?thesis unfolding ActExpire md_act_def by (simp add: keep)
  qed (simp_all add: md_act_def keep register_slot_inv wire_synchronizer_inv post_subscription_inv unsubscribe_inv run_posted_inv
        timer_event_inv with_ws_inv ws_complete_announced)
qed

lemma md_reachable_inv: "md_reachable c m \<Longrightarrow> adapter_inv c m"
proof (induction rule: md_reachable.induct)
  case md_new
  show ?case by (simp add: adapter_inv_def md_inv_def new_adapter_def slots_def ws_state_of_def refs_ok_alt reg_ok_def)
qed (rule md_act_inv)

section \<open>Properties\<close>

lemma is_sane_view:
  assumes "book_inv (bs_book (ss_sync s))" "uncrossed (bs_book (ss_sync s))" "bv_bids (view_of s) \<noteq> []" "bv_asks (view_of s) \<noteq> []"
    and "bv_bids v = bv_bids (view_of s)" "bv_asks v = bv_asks (view_of s)"
  shows "is_sane (view_bbo v)"
proof -
  have q: "is_quotable (bs_state (ss_sync s))" using assms(3) by (auto simp: view_of_def Let_def split: if_splits)
  have ne: "ob_bids (bs_book (ss_sync s)) \<noteq> []" "ob_asks (bs_book (ss_sync s)) \<noteq> []"
    using assms(3,4) q by (auto simp: view_of_def Let_def)
  have hd: "bv_bids (view_of s) \<noteq> [] \<Longrightarrow> hd (bv_bids (view_of s)) = hd (ob_bids (bs_book (ss_sync s)))"
    "bv_asks (view_of s) \<noteq> [] \<Longrightarrow> hd (bv_asks (view_of s)) = hd (ob_asks (bs_book (ss_sync s)))"
    using q by (simp_all add: view_of_def Let_def hd_take kPublishedDepth_def)
  from bbo_sane [OF assms(1,2) ne] show ?thesis using assms(3-6) hd ne
    by (simp add: is_sane_def is_two_sided_def view_bbo_def bbo_def best_bid_price_def best_bid_qty_def best_ask_price_def best_ask_qty_def
        hd_conv_nth split: list.splits)
qed

text \<open>
  C18. Between two steps of the event loop, whatever the venue sent and in whatever order the loop delivered it, a
  consumer can rely on the view of a subscribed symbol, unless the symbol's last transition came before its registration
  had set the callback: the view's state is the session state the adapter reports and the state of the symbol's
  synchroniser; while the book is ready to quote the view shows exactly the first ten levels of each side of the
  synchroniser's book, and otherwise it shows none; on both sides of that book the prices and sizes are positive and
  every level is better than those after it, bids falling and asks rising, so the ten shown are the best ten; and when
  both sides show, the best bid is below the best ask.
\<close>

theorem published_view_is_sound:
  assumes "md_reachable c m" and "md_find m symbol = Some i" and "\<not> ss_missed (md_symbols m ! i)"
    and "book_view m symbol = Some v" and "sync = ss_sync (md_symbols m ! i)" and "book = bs_book sync"
  shows "bv_state v = session_state m symbol \<and> bv_state v = bs_state sync
    \<and> bv_bids v = (if bv_state v = Ready then take 10 (ob_bids book) else [])
    \<and> bv_asks v = (if bv_state v = Ready then take 10 (ob_asks book) else [])
    \<and> (\<forall>l\<in>set (ob_bids book) \<union> set (ob_asks book). pl_price l > 0 \<and> pl_quantity l > 0)
    \<and> sorted_wrt (\<lambda>x y. pl_price x > pl_price y) (ob_bids book)
    \<and> sorted_wrt (\<lambda>x y. pl_price x < pl_price y) (ob_asks book)
    \<and> (bv_bids v \<noteq> [] \<and> bv_asks v \<noteq> [] \<longrightarrow> is_sane (view_bbo v) \<and> pl_price (hd (bv_bids v)) < pl_price (hd (bv_asks v)))"
proof -
  let ?s = "md_symbols m ! i"
  have v: "v = ss_view ?s" using assms(2,4) by (simp add: book_view_def)
  have at: "i < length (md_symbols m)" "ss_active ?s" using md_find_Some [OF assms(2)] by simp_all
  have "slots c {} m" using md_reachable_inv [OF assms(1)] by (auto simp: adapter_inv_def md_inv_def)
  then have ok: "slot_ok c ?s" "view_ok ?s" using at(1) assms(3) by (simp_all add: slots_def)
  have inv: "sync_inv (ss_symbol ?s) (sync_config_for c (ss_request ?s)) sync" and pub: "ss_published_state ?s = bs_state sync"
    using ok(1) at(2) assms(3,5) by (simp_all add: slot_ok_def)
  have b: "book_inv book" using inv assms(6) by (simp add: sync_inv_def sync_core_def)
  have st: "session_state m symbol = bs_state sync" using assms(2) pub by (simp add: session_state_def)
  have lv: "bv_bids v = bv_bids (view_of ?s)" "bv_asks v = bv_asks (view_of ?s)" "bv_state v = bs_state sync"
    using ok(2) v assms(5) by (simp_all add: view_ok_def)
  have shown: "bv_bids v = (if bv_state v = Ready then take 10 (ob_bids book) else [])"
    "bv_asks v = (if bv_state v = Ready then take 10 (ob_asks book) else [])"
    using lv assms(5,6) by (simp_all add: view_of_def is_quotable_def kPublishedDepth_def Let_def)
  have good: "bs_state sync = Ready \<Longrightarrow> uncrossed book"
    using inv assms(6) by (simp add: sync_inv_def sync_good_def is_quotable_def synced_book_def)
  have sane: "is_sane (view_bbo v)" if "bv_bids v \<noteq> []" "bv_asks v \<noteq> []"
  proof -
    have "bs_state sync = Ready" using that(1) shown(1) lv(3) by (simp split: if_splits)
    from is_sane_view [OF _ _ _ _ lv(1,2)] b good [OF this] that lv(1,2) show ?thesis unfolding assms(5,6) by simp
  qed
  then have "bv_bids v \<noteq> [] \<and> bv_asks v \<noteq> [] \<longrightarrow> is_sane (view_bbo v) \<and> pl_price (hd (bv_bids v)) < pl_price (hd (bv_asks v))"
    by (auto simp: is_sane_def view_bbo_def)
  moreover have "(\<forall>l\<in>set (ob_bids book) \<union> set (ob_asks book). pl_price l > 0 \<and> pl_quantity l > 0)
    \<and> sorted_wrt (\<lambda>x y. pl_price x > pl_price y) (ob_bids book)
    \<and> sorted_wrt (\<lambda>x y. pl_price x < pl_price y) (ob_asks book)"
    using b by (simp add: book_inv_def ladder_ok_def is_better_def Ball_def)
  ultimately show ?thesis using shown st lv(3) by simp
qed

definition demo_md_config :: MdConfig where
  "demo_md_config = \<lparr>mdc_ws_host = ''h'', mdc_ws_port = ''p'', mdc_depth_update_ms = 100, mdc_snapshot_limit = 5,
     mdc_want_trades = True, mdc_sync = demo_config, mdc_backoff = default_backoff, mdc_seed = 0\<rparr>"

definition demo_request :: SubscriptionRequest where
  "demo_request = \<lparr>sr_symbol = ''B'', sr_symbol_id = 0, sr_want_depth = True, sr_want_trades = False, sr_want_bbo = False,
     sr_depth_levels = 5\<rparr>"

definition demo_image_doc :: json where
  "demo_image_doc = JObject [(''lastUpdateId'', JUnsigned 7), (''bids'', JArray [demo_level_json ''2'', demo_level_json ''1'']),
     (''asks'', JArray [demo_level_json ''3''])]"

definition demo_env :: MdEnv where
  "demo_env = \<lparr>env_parse = (\<lambda>_. Some demo_image_doc), env_now = 0, env_sni = True\<rparr>"

text \<open>Subscribe, start, connect, let the timer ask for the image, and let the image arrive.\<close>

definition demo_acts :: "MdAct list" where
  "demo_acts = [ActSubscribe demo_request, ActWire, ActPost, ActStart Ok, ActPosted, ActWs 0 demo_done, ActWs 0 demo_done, ActWs 0 demo_done,
     ActWs 0 demo_done, ActTimer] @ replicate 4 (ActRest 1 (demo_outcome 200))"

definition demo_before :: MdAdapter where
  "demo_before = foldl (md_act demo_env) (new_adapter demo_md_config) demo_acts"

definition demo_adapter :: MdAdapter where
  "demo_adapter = md_act demo_env demo_before (ActRest 1 (demo_outcome 200))"

lemma demo_adapter_reachable: "md_reachable demo_md_config demo_adapter"
proof -
  have "md_reachable demo_md_config m \<Longrightarrow> md_reachable demo_md_config (foldl (md_act demo_env) m acts)" for m acts
    by (induction acts arbitrary: m) (simp_all add: md_step)
  then show ?thesis unfolding demo_adapter_def demo_before_def by (simp add: md_new md_step)
qed

text \<open>The image as the codec delivers it; its symbol id is a variable where it does not matter.\<close>

definition demo_event :: "symbol_id \<Rightarrow> MarketDataEvent" where
  "demo_event i = stamp 0 0 0 (MdBookSnapshot \<lparr>bse_symbol = ''B'', bse_symbol_id = i, bse_last_update_id = 7,
     bse_levels = \<lparr>bl_bids = [\<lparr>pl_price = 200000000, pl_quantity = 100000000\<rparr>, \<lparr>pl_price = 100000000, pl_quantity = 100000000\<rparr>],
       bl_asks = [\<lparr>pl_price = 300000000, pl_quantity = 100000000\<rparr>], bl_bid_count = 2, bl_ask_count = 1\<rparr>,
     bse_is_first = True, bse_is_last = True\<rparr>)"

lemma demo_decode: "decode_depth_snapshot (\<lambda>_. Some demo_image_doc) ''{}'' ''B'' 0 0 [] = (DeNone, [demo_event kInvalidSymbolId])"
proof -
  have l: "fill_chunk kMaxLevelsPerEvent [demo_level_json ''2'', demo_level_json ''1'']
      = Some ([\<lparr>pl_price = 200000000, pl_quantity = 100000000\<rparr>, \<lparr>pl_price = 100000000, pl_quantity = 100000000\<rparr>], [])"
    "fill_chunk kMaxLevelsPerEvent [demo_level_json ''3''] = Some ([\<lparr>pl_price = 300000000, pl_quantity = 100000000\<rparr>], [])"
    by code_simp+
  have k: "map_of [(''lastUpdateId'', JUnsigned 7), (''bids'', JArray [demo_level_json ''2'', demo_level_json ''1'']),
     (''asks'', JArray [demo_level_json ''3''])] x = (if x = ''lastUpdateId'' then Some (JUnsigned 7)
       else if x = ''bids'' then Some (JArray [demo_level_json ''2'', demo_level_json ''1''])
       else if x = ''asks'' then Some (JArray [demo_level_json ''3'']) else None)" for x by simp
  show ?thesis
    by (simp add: decode_depth_snapshot_def demo_image_doc_def k chunk_levels.simps l kMaxFrameBytes_def demo_event_def numeral_2_eq_2 del: map_of.simps)
qed

definition demo_after :: "symbol_id \<Rightarrow> MdAdapter" where
  "demo_after i = publish_view (image_chunk 0 0 (demo_before\<lparr>md_rest := Some \<lparr>rc_issued = 2, rc_failed = 0\<rparr>,
     md_requests := take 1 (md_requests demo_before)\<rparr>) (demo_event i)) 0"

lemma demo_adapter_eq: "demo_adapter = demo_after kInvalidSymbolId"
proof -
  have r: "md_rest demo_before = Some \<lparr>rc_issued = 2, rc_failed = 0\<rparr>" "length (md_requests demo_before) = 2"
    "map_prod id (\<lambda>r. (rr_stage r, rr_completed r, rr_answers r)) (md_requests demo_before ! 1) = (CallDepth 0, RsRead, False, [])"
    "ss_symbol (md_symbols demo_before ! 0) = ''B''" by code_simp+
  obtain q where q: "md_requests demo_before ! 1 = (CallDepth 0, q)" "rr_stage q = RsRead" "\<not> rr_completed q" "rr_answers q = []"
    using r(3) by (cases "md_requests demo_before ! 1") simp
  show ?thesis
    using r(1,2,4) q demo_decode
    by (simp add: demo_adapter_def demo_after_def md_act_def rest_event_def rest_complete_def on_read_def rest_finish_def
        demo_outcome_def on_response_def on_snapshot_response_def demo_env_def Let_def)
qed

lemma demo_view:
  "md_find (demo_after i) ''B'' = Some 0" "\<not> ss_missed (md_symbols (demo_after i) ! 0)"
  "map_option (\<lambda>v. (length (bv_bids v), bv_asks v = [])) (book_view (demo_after i) ''B'') = Some (2, False)"
  "session_state (demo_after i) ''B'' = Ready" "md_connection (demo_after i) = CnConnected"
  by code_simp+

theorem published_view_is_sound_witness:
  "\<exists>v. book_view demo_adapter ''B'' = Some v \<and> session_state demo_adapter ''B'' = Ready \<and> length (bv_bids v) = 2
     \<and> bv_asks v \<noteq> [] \<and> is_sane (view_bbo v)
     \<and> bv_bids v = take 10 (ob_bids (bs_book (ss_sync (md_symbols demo_adapter ! 0))))"
proof -
  note some = demo_view [of kInvalidSymbolId, folded demo_adapter_eq]
  then obtain v where v: "book_view demo_adapter ''B'' = Some v" "length (bv_bids v) = 2" "bv_asks v \<noteq> []" by auto
  then have "bv_bids v \<noteq> []" by auto
  with published_view_is_sound [OF demo_adapter_reachable some(1,2) v(1) refl refl] v some(4) show ?thesis by auto
qed

text \<open>
  The adapter's own books are in order after every history: its connection state is that of its session, and
  \<open>Disconnected\<close> when it has none, however calls, completions and callbacks interleave; no symbol is registered twice,
  at most 32 are registered, and every REST request in flight belongs to a registered symbol.
\<close>

theorem adapter_follows_its_session:
  assumes "md_reachable c m"
  shows "md_connection m = (case md_ws m of None \<Rightarrow> CnDisconnected | Some w \<Rightarrow> ws_state w)
    \<and> distinct (map ss_symbol (md_symbols m)) \<and> length (md_symbols m) \<le> kMaxSymbols
    \<and> (\<forall>(call, r)\<in>set (md_requests m). \<forall>i. call = CallDepth i \<longrightarrow> i < length (md_symbols m))"
  using md_reachable_inv [OF assms]
  by (auto simp: adapter_inv_def md_inv_def ws_state_of_def refs_ok_def)

theorem adapter_follows_its_session_witness:
  "md_connection demo_adapter = CnConnected \<and> distinct (map ss_symbol (md_symbols demo_adapter))
   \<and> (case md_ws demo_adapter of None \<Rightarrow> False | Some w \<Rightarrow> ws_state w = CnConnected)"
proof -
  have c: "md_connection demo_adapter = CnConnected" by (rule demo_view(5) [of kInvalidSymbolId, folded demo_adapter_eq])
  with adapter_follows_its_session [OF demo_adapter_reachable] show ?thesis by (auto split: option.splits)
qed

section \<open>What an unsubscribed symbol and a stopped adapter leave behind\<close>

text \<open>A slot is never freed and \<open>subscribe\<close> looks at inactive slots too: a symbol cannot be subscribed again.\<close>

lemma resubscribe_refused:
  assumes "snd (unsubscribe m symbol) = Ok" "sr_symbol request = symbol" "symbol \<noteq> []"
  shows "snd (subscribe (fst (unsubscribe m symbol)) request) = AlreadyExists"
proof -
  obtain i where i: "md_find m symbol = Some i" using assms(1) by (auto simp: unsubscribe_def split: option.splits)
  then have "i < length (md_symbols m)" "ss_symbol (md_symbols m ! i) = symbol" using md_find_Some by auto
  then have "\<exists>s\<in>set (md_symbols (fst (unsubscribe m symbol))). ss_symbol s = symbol"
    using i by (auto simp: unsubscribe_def on_slot_def set_update_memI intro!: bexI [OF _ set_update_memI])
  with assms(2,3) show ?thesis by (simp add: subscribe_def register_slot_def)
qed

text \<open>
  When the loop stops before it runs the closing closure, the synchronisers never learn of it: the stopped adapter still
  reports the symbol ready to quote, and after a restart the symbol goes to \<open>Error\<close> and stays there.
\<close>

lemma stop_can_leave_ready:
  "session_state (md_stop demo_env demo_adapter 0) ''B'' = Ready \<and> md_connection (md_stop demo_env demo_adapter 0) = CnDisconnected"
proof -
  have "session_state (md_stop demo_env (demo_after i) 0) ''B'' = Ready \<and> md_connection (md_stop demo_env (demo_after i) 0) = CnDisconnected" for i
    by code_simp
  then show ?thesis by (simp add: demo_adapter_eq)
qed

lemma restart_can_strand_symbol:
  "session_state (foldl (md_act demo_env) demo_adapter ([ActStop 0, ActStart Ok, ActPosted] @ replicate 4 (ActWs 0 demo_done) @ [ActTimer])) ''B'' = Error"
proof -
  have "session_state (foldl (md_act demo_env) (demo_after i) ([ActStop 0, ActStart Ok, ActPosted] @ replicate 4 (ActWs 0 demo_done) @ [ActTimer])) ''B'' = Error" for i
    by code_simp
  then show ?thesis by (simp add: demo_adapter_eq)
qed

section \<open>What a registration leaves out\<close>

text \<open>
  An uninterrupted \<open>subscribe\<close> sets the callback before anything can happen to the symbol, and a symbol with a callback
  that has missed nothing misses nothing from then on.
\<close>

lemma subscribe_misses_nothing:
  assumes "snd (subscribe m request) = Ok"
  shows "let s = last (md_symbols (fst (subscribe m request))) in ss_symbol s = sr_symbol request \<and> ss_wired s \<and> \<not> ss_missed s"
  using assms
  by (auto simp: subscribe_def register_slot_def wire_synchronizer_def post_subscription_def md_post_def on_slot_def new_slot_def
      Let_def split: if_splits)

lemma wired_misses_nothing: "ss_wired s \<Longrightarrow> \<not> ss_missed s \<Longrightarrow> \<not> ss_missed (ss_sync_event now ev s)"
  by simp

text \<open>
  A symbol registered while the session dials: when the connection comes up between the count and the callback, the
  synchroniser goes to \<open>Subscribed\<close> and the adapter goes on reporting \<open>Disconnected\<close>.
\<close>

definition dialling_acts :: "MdAct list" where
  "dialling_acts = [ActStart Ok, ActPosted, ActWs 0 demo_done, ActWs 0 demo_done, ActWs 0 demo_done, ActSubscribe demo_request]"

lemma registration_can_lose_transitions:
  "let m = foldl (md_act demo_env) (new_adapter demo_md_config) (dialling_acts @ [ActWs 0 demo_done, ActWire, ActPost])
   in session_state m ''B'' = Disconnected \<and> bs_state (ss_sync (md_symbols m ! 0)) = Subscribed \<and> ss_missed (md_symbols m ! 0)"
  by code_simp

text \<open>
  Without that interleaving, too, a symbol registered while the session dials is lost: the new connection takes it to
  \<open>Subscribed\<close>, and then the posted closure reports the connection a second time, an illegal transition.
\<close>

lemma subscribing_while_dialling_fails:
  "let m = foldl (md_act demo_env) (new_adapter demo_md_config) (dialling_acts @ [ActWire, ActPost, ActWs 0 demo_done])
   in session_state m ''B'' = Subscribed \<and> session_state (md_act demo_env m ActPosted) ''B'' = Error"
  by code_simp

end
