(* ===== verification/DedupRing.thy ===== *)
theory DedupRing
  imports Types
begin

text \<open>
  The two fixed rings that remember applied trade ids: \<open>portfolio::SeenTrades\<close> (64 ids, per symbol, in
  \<^verbatim>\<open>PositionAccount.hpp\<close>) and \<open>oms::SeenTradeIds\<close> (32 ids, per order, in \<^verbatim>\<open>OrderRecord.hpp\<close>). Their common
  contract is the locale \<open>dedup_ring\<close>: the ring is a window over the most recent distinct ids, and
  a delivery is accepted exactly when the id is not in the window. Both classes interpret it.
\<close>

section \<open>Definitions\<close>

record SeenIds =
  sr_ids :: "string list"
  sr_count :: nat
  sr_next :: nat
  sr_overflowed :: bool

definition seen_contains :: "SeenIds \<Rightarrow> string \<Rightarrow> bool" where
  "seen_contains r i \<longleftrightarrow> i \<in> set (take (sr_count r) (sr_ids r))"

definition SeenTrades_kCapacity :: nat where
  "SeenTrades_kCapacity = 64"

definition seen_trades_insert :: "SeenIds \<Rightarrow> string \<Rightarrow> SeenIds \<times> bool" where
  "seen_trades_insert r i =
     (if seen_contains r i then (r, False)
      else let r1 = (if sr_count r = SeenTrades_kCapacity then r\<lparr>sr_overflowed := True\<rparr> else r);
               r2 = r1\<lparr>sr_ids := (sr_ids r1)[sr_next r1 := i],
                       sr_next := (sr_next r1 + 1) mod SeenTrades_kCapacity\<rparr>;
               r3 = (if sr_count r2 < SeenTrades_kCapacity then r2\<lparr>sr_count := sr_count r2 + 1\<rparr> else r2)
           in (r3, True))"

definition SeenTradeIds_kCapacity :: nat where
  "SeenTradeIds_kCapacity = 32"

definition seen_trade_ids_insert :: "SeenIds \<Rightarrow> string \<Rightarrow> SeenIds \<times> bool" where
  "seen_trade_ids_insert r i =
     (if seen_contains r i then (r, False)
      else let r1 = r\<lparr>sr_ids := (sr_ids r)[sr_next r := i],
                      sr_next := (sr_next r + 1) mod SeenTradeIds_kCapacity\<rparr>;
               r2 = (if sr_count r1 < SeenTradeIds_kCapacity then r1\<lparr>sr_count := sr_count r1 + 1\<rparr>
                     else r1\<lparr>sr_overflowed := True\<rparr>)
           in (r2, True))"

definition seen_trade_ids_clear :: "SeenIds \<Rightarrow> SeenIds" where
  "seen_trade_ids_clear r = r\<lparr>sr_count := 0, sr_next := 0, sr_overflowed := False\<rparr>"

text \<open>The value-initialised ring: \<open>cap\<close> empty slots.\<close>

definition empty_seen :: "nat \<Rightarrow> SeenIds" where
  "empty_seen cap = \<lparr>sr_ids = replicate cap [], sr_count = 0, sr_next = 0, sr_overflowed = False\<rparr>"

text \<open>A sequence of deliveries and the ids it accepts, in order.\<close>

fun deliver :: "('r \<Rightarrow> 'i \<Rightarrow> 'r \<times> bool) \<Rightarrow> 'r \<Rightarrow> 'i list \<Rightarrow> 'r \<times> 'i list" where
  "deliver ins r [] = (r, [])"
| "deliver ins r (i # is) =
     (let (r', new) = ins r i; (r'', acc) = deliver ins r' is
      in (r'', if new then i # acc else acc))"

lemma deliver_Cons [simp]:
  "fst (deliver ins r (i # is)) = fst (deliver ins (fst (ins r i)) is)"
  "snd (deliver ins r (i # is)) =
     (if snd (ins r i) then i # snd (deliver ins (fst (ins r i)) is)
      else snd (deliver ins (fst (ins r i)) is))"
  by (simp_all add: Let_def case_prod_beta)

declare deliver.simps(2) [simp del]

section \<open>The interface\<close>

locale dedup_ring =
  fixes cap :: nat
    and inv :: "'r \<Rightarrow> bool"
    and window :: "'r \<Rightarrow> 'i list"
    and contains :: "'r \<Rightarrow> 'i \<Rightarrow> bool"
    and overflowed :: "'r \<Rightarrow> bool"
    and ins :: "'r \<Rightarrow> 'i \<Rightarrow> 'r \<times> bool"
  assumes cap_pos: "0 < cap"
    and contains_iff: "inv r \<Longrightarrow> contains r i \<longleftrightarrow> i \<in> set (window r)"
    and window_inv: "inv r \<Longrightarrow> distinct (window r) \<and> length (window r) \<le> cap"
    and ins_dup: "inv r \<Longrightarrow> contains r i \<Longrightarrow> ins r i = (r, False)"
    and ins_flag: "inv r \<Longrightarrow> \<not> contains r i \<Longrightarrow> snd (ins r i)"
    and ins_window: "inv r \<Longrightarrow> \<not> contains r i \<Longrightarrow>
      window (fst (ins r i)) = (if length (window r) < cap then window r else tl (window r)) @ [i]"
    and ins_overflowed: "inv r \<Longrightarrow> \<not> contains r i \<Longrightarrow>
      overflowed (fst (ins r i)) \<longleftrightarrow> overflowed r \<or> \<not> length (window r) < cap"
    and ins_inv: "inv r \<Longrightarrow> \<not> contains r i \<Longrightarrow> inv (fst (ins r i))"
begin

lemma ins_preserves: "inv r \<Longrightarrow> inv (fst (ins r i))"
  using ins_inv ins_dup by (cases "contains r i") auto

lemma ins_contains: "inv r \<Longrightarrow> contains (fst (ins r i)) i"
  using ins_preserves [of r i] by (cases "contains r i") (auto simp: ins_dup contains_iff ins_window)

lemma ins_result: "inv r \<Longrightarrow> snd (ins r i) \<longleftrightarrow> \<not> contains r i"
  using ins_flag ins_dup by (cases "contains r i") auto

lemma overflowed_sticky: "inv r \<Longrightarrow> overflowed r \<Longrightarrow> overflowed (fst (ins r i))"
  by (cases "contains r i") (simp_all add: ins_dup ins_overflowed)

lemma deliver_inv: "inv r \<Longrightarrow> inv (fst (deliver ins r is))"
proof (induction "is" arbitrary: r)
  case Nil
  then show ?case by simp
next
  case (Cons i js)
  then show ?case using ins_preserves [of r i] by simp
qed

lemma deliver_overflowed: "inv r \<Longrightarrow> overflowed r \<Longrightarrow> overflowed (fst (deliver ins r is))"
proof (induction "is" arbitrary: r)
  case Nil
  then show ?case by simp
next
  case (Cons i js)
  then show ?case using ins_preserves [of r i] overflowed_sticky [of r i] by simp
qed

text \<open>Until the ring reports an overflow, every id is accepted exactly once, however it is redelivered.\<close>

lemma deliver_once:
  assumes "inv r" and "\<not> overflowed (fst (deliver ins r is))"
  shows "distinct (snd (deliver ins r is)) \<and> set (snd (deliver ins r is)) = set is - set (window r)
    \<and> set (window (fst (deliver ins r is))) = set (window r) \<union> set is"
  using assms
proof (induction "is" arbitrary: r)
  case Nil
  then show ?case by simp
next
  case (Cons i js)
  show ?case
  proof (cases "contains r i")
    case True
    with Cons show ?thesis by (auto simp: contains_iff ins_dup)
  next
    case False
    let ?r = "fst (ins r i)"
    from False Cons.prems(1) have new: "snd (ins r i)" by (simp add: ins_flag)
    have inv': "inv ?r" using Cons.prems(1) False by (rule ins_inv)
    from Cons.prems(2) have no: "\<not> overflowed (fst (deliver ins ?r js))" by simp
    then have "\<not> overflowed ?r" using deliver_overflowed [OF inv'] by blast
    then have "length (window r) < cap" using ins_overflowed [OF Cons.prems(1) False] by blast
    then have w: "window ?r = window r @ [i]" using ins_window [OF Cons.prems(1) False] by simp
    have "i \<notin> set (window r)" using False Cons.prems(1) by (simp add: contains_iff)
    with Cons.IH [OF inv' no] w new show ?thesis by auto
  qed
qed

end

section \<open>The ring as a window\<close>

definition ring_window :: "nat \<Rightarrow> SeenIds \<Rightarrow> string list" where
  "ring_window cap r = (if sr_count r < cap then take (sr_count r) (sr_ids r)
     else drop (sr_next r) (sr_ids r) @ take (sr_next r) (sr_ids r))"

definition ring_ok :: "nat \<Rightarrow> SeenIds \<Rightarrow> bool" where
  [inv_defs]: "ring_ok cap r \<longleftrightarrow> length (sr_ids r) = cap \<and> sr_count r \<le> cap \<and> sr_next r < cap
     \<and> (sr_count r < cap \<longrightarrow> sr_next r = sr_count r) \<and> distinct (ring_window cap r)"

definition ring_push :: "nat \<Rightarrow> SeenIds \<Rightarrow> string \<Rightarrow> SeenIds" where
  "ring_push cap r i = r\<lparr>sr_ids := (sr_ids r)[sr_next r := i], sr_next := (sr_next r + 1) mod cap,
     sr_count := (if sr_count r < cap then sr_count r + 1 else sr_count r),
     sr_overflowed := (if sr_count r < cap then sr_overflowed r else True)\<rparr>"

lemma ring_empty: "0 < cap \<Longrightarrow> ring_ok cap (empty_seen cap) \<and> ring_window cap (empty_seen cap) = []"
  by (simp add: ring_ok_def empty_seen_def ring_window_def)

lemma ring_contains: "ring_ok cap r \<Longrightarrow> seen_contains r i \<longleftrightarrow> i \<in> set (ring_window cap r)"
proof -
  assume ok: "ring_ok cap r"
  have "set (drop n xs) \<union> set (take n xs) = set xs" for n and xs :: "string list"
    by (metis append_take_drop_id set_append sup_commute)
  with ok show ?thesis by (auto simp: ring_ok_def ring_window_def seen_contains_def)
qed

lemma ring_window_length: "ring_ok cap r \<Longrightarrow> length (ring_window cap r) = sr_count r"
  by (auto simp: ring_ok_def ring_window_def)

lemma ring_push_window:
  assumes "ring_ok cap r"
  shows "ring_window cap (ring_push cap r i)
    = (if length (ring_window cap r) < cap then ring_window cap r else tl (ring_window cap r)) @ [i]"
proof (cases "sr_count r < cap")
  case True
  with assms have n: "sr_next r = sr_count r" and len: "length (sr_ids r) = cap"
    by (simp_all add: ring_ok_def)
  have tk: "take (Suc (sr_count r)) ((sr_ids r)[sr_count r := i]) = take (sr_count r) (sr_ids r) @ [i]"
    using True len by (simp add: take_Suc_conv_app_nth)
  show ?thesis
  proof (cases "Suc (sr_count r) < cap")
    case more: True
    with True n tk len show ?thesis
      by (simp add: ring_window_def ring_push_def)
  next
    case False
    with True have "Suc (sr_count r) = cap" by simp
    with True n tk len show ?thesis by (simp add: ring_window_def ring_push_def)
  qed
next
  case False
  with assms have c: "sr_count r = cap" and len: "length (sr_ids r) = cap" and n: "sr_next r < cap"
    by (simp_all add: ring_ok_def)
  have tk: "take (Suc (sr_next r)) ((sr_ids r)[sr_next r := i]) = take (sr_next r) (sr_ids r) @ [i]"
    using n len by (simp add: take_Suc_conv_app_nth)
  have tl: "tl (ring_window cap r) = drop (Suc (sr_next r)) (sr_ids r) @ take (sr_next r) (sr_ids r)"
    using c n len by (simp add: ring_window_def drop_Suc tl_drop)
  have full: "\<not> length (ring_window cap r) < cap" using assms c by (simp add: ring_window_length)
  show ?thesis
  proof (cases "Suc (sr_next r) < cap")
    case True
    with c tl tk full show ?thesis by (simp add: ring_window_def ring_push_def)
  next
    case False
    with n have "Suc (sr_next r) = cap" by simp
    with c tl tk full len show ?thesis by (simp add: ring_window_def ring_push_def)
  qed
qed

lemma ring_push_ok:
  assumes "ring_ok cap r" and "i \<notin> set (ring_window cap r)"
  shows "ring_ok cap (ring_push cap r i)"
proof -
  have d: "distinct (ring_window cap r)" using assms(1) by (simp add: ring_ok_def)
  have "i \<notin> set (tl (ring_window cap r))" using assms(2) by (cases "ring_window cap r") auto
  with d assms have "distinct (ring_window cap (ring_push cap r i))"
    by (simp add: ring_push_window distinct_tl)
  with assms(1) show ?thesis
    by (auto simp: ring_ok_def ring_push_def mod_Suc)
qed

lemma seen_trades_insert_push:
  "seen_trades_insert r i =
     (if seen_contains r i then (r, False) else (ring_push SeenTrades_kCapacity r i, True))"
  if "ring_ok SeenTrades_kCapacity r"
  using that by (auto simp: seen_trades_insert_def ring_push_def ring_ok_def Let_def)

lemma seen_trade_ids_insert_push:
  "seen_trade_ids_insert r i =
     (if seen_contains r i then (r, False) else (ring_push SeenTradeIds_kCapacity r i, True))"
  by (auto simp: seen_trade_ids_insert_def ring_push_def Let_def)

lemma dedup_ring_of_push:
  assumes "0 < cap"
    and "\<And>r i. ring_ok cap r \<Longrightarrow>
      ins r i = (if seen_contains r i then (r, False) else (ring_push cap r i, True))"
  shows "dedup_ring cap (ring_ok cap) (ring_window cap) seen_contains sr_overflowed ins"
proof
  show "0 < cap" by fact
next
  fix r :: SeenIds and i
  assume ok: "ring_ok cap r"
  show "seen_contains r i \<longleftrightarrow> i \<in> set (ring_window cap r)" using ok by (rule ring_contains)
  show "distinct (ring_window cap r) \<and> length (ring_window cap r) \<le> cap"
    using ok by (simp add: ring_window_length) (simp add: ring_ok_def)
  show "seen_contains r i \<Longrightarrow> ins r i = (r, False)" using assms(2) [OF ok] by simp
  assume new: "\<not> seen_contains r i"
  then have eq: "ins r i = (ring_push cap r i, True)" using assms(2) [OF ok] by simp
  then show "snd (ins r i)" by simp
  show "ring_window cap (fst (ins r i))
      = (if length (ring_window cap r) < cap then ring_window cap r else tl (ring_window cap r)) @ [i]"
    using eq ok by (simp add: ring_push_window)
  show "sr_overflowed (fst (ins r i)) \<longleftrightarrow> sr_overflowed r \<or> \<not> length (ring_window cap r) < cap"
    using eq ok by (simp add: ring_window_length) (simp add: ring_push_def)
  show "ring_ok cap (fst (ins r i))"
    using eq ok new by (simp add: ring_push_ok ring_contains)
qed

interpretation ledger_ring: dedup_ring SeenTrades_kCapacity "ring_ok SeenTrades_kCapacity"
  "ring_window SeenTrades_kCapacity" seen_contains sr_overflowed seen_trades_insert
  by (rule dedup_ring_of_push) (simp_all add: SeenTrades_kCapacity_def seen_trades_insert_push
      [unfolded SeenTrades_kCapacity_def])

interpretation order_ring: dedup_ring SeenTradeIds_kCapacity "ring_ok SeenTradeIds_kCapacity"
  "ring_window SeenTradeIds_kCapacity" seen_contains sr_overflowed seen_trade_ids_insert
  by (rule dedup_ring_of_push) (simp_all add: SeenTradeIds_kCapacity_def seen_trade_ids_insert_push
      [unfolded SeenTradeIds_kCapacity_def])

section \<open>Properties\<close>

text \<open>
  Redelivered trade ids: starting from an empty ring, as long as the ring does not report
  \<open>overflowed\<close>, any sequence of deliveries is accepted exactly once per distinct id, in both classes,
  whatever the order and multiplicity of redelivery; and the ring then remembers exactly the ids delivered.
\<close>

theorem seen_rings_accept_once:
  assumes "\<not> sr_overflowed (fst (deliver seen_trades_insert (empty_seen SeenTrades_kCapacity) ts))"
    and "\<not> sr_overflowed (fst (deliver seen_trade_ids_insert (empty_seen SeenTradeIds_kCapacity) us))"
  shows "distinct (snd (deliver seen_trades_insert (empty_seen SeenTrades_kCapacity) ts))
    \<and> set (snd (deliver seen_trades_insert (empty_seen SeenTrades_kCapacity) ts)) = set ts
    \<and> (\<forall>t. seen_contains (fst (deliver seen_trades_insert (empty_seen SeenTrades_kCapacity) ts)) t \<longleftrightarrow> t \<in> set ts)
    \<and> distinct (snd (deliver seen_trade_ids_insert (empty_seen SeenTradeIds_kCapacity) us))
    \<and> set (snd (deliver seen_trade_ids_insert (empty_seen SeenTradeIds_kCapacity) us)) = set us
    \<and> (\<forall>t. seen_contains (fst (deliver seen_trade_ids_insert (empty_seen SeenTradeIds_kCapacity) us)) t \<longleftrightarrow> t \<in> set us)"
proof -
  have e: "ring_ok SeenTrades_kCapacity (empty_seen SeenTrades_kCapacity)"
      "ring_window SeenTrades_kCapacity (empty_seen SeenTrades_kCapacity) = []"
      "ring_ok SeenTradeIds_kCapacity (empty_seen SeenTradeIds_kCapacity)"
      "ring_window SeenTradeIds_kCapacity (empty_seen SeenTradeIds_kCapacity) = []"
    using ring_empty [OF ledger_ring.cap_pos] ring_empty [OF order_ring.cap_pos] by blast+
  show ?thesis
    using ledger_ring.deliver_once [OF e(1) assms(1)] order_ring.deliver_once [OF e(3) assms(2)]
      ledger_ring.contains_iff [OF ledger_ring.deliver_inv [OF e(1)]]
      order_ring.contains_iff [OF order_ring.deliver_inv [OF e(3)]]
    by (simp add: e(2,4))
qed

theorem seen_rings_accept_once_witness:
  "set (snd (deliver seen_trades_insert (empty_seen SeenTrades_kCapacity) [''t1'', ''t2'', ''t1'']))
    = {''t1'', ''t2''}"
proof -
  have h: "\<not> sr_overflowed (fst (deliver seen_trades_insert (empty_seen SeenTrades_kCapacity) [''t1'', ''t2'', ''t1'']))"
    "\<not> sr_overflowed (fst (deliver seen_trade_ids_insert (empty_seen SeenTradeIds_kCapacity) [''u'', ''u'']))"
    by code_simp+
  from seen_rings_accept_once [OF h] show ?thesis by auto
qed

end
