(* ===== verification/PositionAccount.thy ===== *)
theory PositionAccount
  imports DedupRing
begin

text \<open>
  One symbol's ledger: \<^verbatim>\<open>AccountingTypes.hpp\<close>, \<^verbatim>\<open>PositionAccount.hpp\<close> and \<^verbatim>\<open>PositionAccount.cpp\<close>. The record
  \<open>PositionAccount\<close> has the fields of the class; \<open>acct_apply_fill\<close>, \<open>acct_apply_mark\<close>, \<open>acct_save\<close> and
  \<open>acct_restore\<close> are its operations, returning the updated account with what the method returns.
  \<open>cost_basis_spec\<close> is the weighted-average rule the header of the class states, on unbounded integers;
  \<open>basis_after\<close> adds that a flat account has no average price.
\<close>

section \<open>Definitions\<close>

datatype AccountingError =
    AeNone | AeInvalidQuantity | AeInvalidPrice | AeDuplicateFill | AeMissingTradeId
  | AeArithmeticOverflow | AeUnknownSymbol | AeCapacityExhausted | AeInvalidMark | AeStaleMark
  | AeSequenceRegression | AeCorruptSnapshot | AeFaulted

definition corrupts_ledger :: "AccountingError \<Rightarrow> bool" where
  "corrupts_ledger e \<longleftrightarrow> e \<noteq> AeNone \<and> e \<noteq> AeDuplicateFill"

record FillOutcome =
  fo_error :: AccountingError
  fo_applied_quantity :: qty
  fo_realized_delta :: notional
  fo_fee :: notional
  fo_flipped :: bool
  fo_closed :: bool

definition fill_refused :: "AccountingError \<Rightarrow> FillOutcome" where
  "fill_refused e = \<lparr>fo_error = e, fo_applied_quantity = 0, fo_realized_delta = 0, fo_fee = 0,
     fo_flipped = False, fo_closed = False\<rparr>"

record PnlBreakdown =
  pnl_realized :: notional
  pnl_unrealized :: notional
  pnl_fees :: notional
  pnl_funding :: notional
  pnl_unrealized_valid :: bool

definition pnl_gross :: "PnlBreakdown \<Rightarrow> notional" where
  "pnl_gross p = fx_add (pnl_realized p) (pnl_unrealized p)"

definition pnl_checked_net :: "PnlBreakdown \<Rightarrow> notional option" where
  "pnl_checked_net p =
     (case checked_add (pnl_realized p) (pnl_unrealized p) of
        None \<Rightarrow> None
      | Some t \<Rightarrow> (case checked_add t (pnl_funding p) of
                    None \<Rightarrow> None
                  | Some t' \<Rightarrow> checked_sub t' (pnl_fees p)))"

record MarkPrice =
  mp_symbol :: string
  mp_bid :: px
  mp_ask :: px
  mp_as_of_ns :: nanos
  mp_sequence :: nat

definition mark_usable :: "MarkPrice \<Rightarrow> bool" where
  "mark_usable m \<longleftrightarrow> mp_bid m > 0 \<and> mp_ask m > 0 \<and> mp_ask m \<ge> mp_bid m"

definition mark_for_position :: "MarkPrice \<Rightarrow> qty \<Rightarrow> px" where
  "mark_for_position m position = (if position < 0 then mp_ask m else mp_bid m)"

definition abs_notional :: "px \<Rightarrow> qty \<Rightarrow> notional option" where
  "abs_notional price quantity = checked_notional_of price (saturating_abs quantity)"

definition weighted_average :: "px \<Rightarrow> qty \<Rightarrow> px \<Rightarrow> qty \<Rightarrow> px option" where
  "weighted_average a qa b qb =
     (let wa = saturating_abs qa; wb = saturating_abs qb
      in case checked_add wa wb of
           None \<Rightarrow> None
         | Some tot \<Rightarrow>
             if \<not> tot > 0 then None
             else (let num = a * wa + b * wb; avg = num sdiv tot
                   in if avg > INT64_MAX \<or> avg < INT64_MIN then None else Some avg))"

definition realized_of :: "px \<Rightarrow> px \<Rightarrow> qty \<Rightarrow> bool \<Rightarrow> notional option" where
  "realized_of entry exit_price closed long_position =
     (case checked_sub exit_price entry of
        None \<Rightarrow> None
      | Some move \<Rightarrow>
          (let move' = (if \<not> long_position then fx_sub 0 move else move)
           in checked_notional_of move' (saturating_abs closed)))"

record PositionAccount =
  pa_symbol :: string
  pa_position :: qty
  pa_average_price :: px
  pa_realized :: notional
  pa_unrealized :: notional
  pa_fees :: notional
  pa_last_mark :: px
  pa_fill_count :: nat
  pa_unrealized_valid :: bool
  pa_faulted :: bool
  pa_seen :: SeenIds

definition new_account :: "string \<Rightarrow> PositionAccount" where
  "new_account symbol = \<lparr>pa_symbol = symbol, pa_position = 0, pa_average_price = 0, pa_realized = 0,
     pa_unrealized = 0, pa_fees = 0, pa_last_mark = 0, pa_fill_count = 0, pa_unrealized_valid = True,
     pa_faulted = False, pa_seen = empty_seen SeenTrades_kCapacity\<rparr>"

text \<open>The new average price, the realized delta and whether the fill flips the position.\<close>

definition fill_basis ::
  "PositionAccount \<Rightarrow> qty \<Rightarrow> px \<Rightarrow> qty \<Rightarrow> (px \<times> notional \<times> bool) option" where
  "fill_basis a signed_fill price new_position =
     (let was_flat = (pa_position a = 0);
          same_direction = (\<not> was_flat \<and> (pa_position a < 0) = (signed_fill < 0))
      in if was_flat then Some (price, 0, False)
         else if same_direction then
           (case weighted_average (pa_average_price a) (pa_position a) price signed_fill of
              None \<Rightarrow> None
            | Some avg \<Rightarrow> Some (avg, 0, False))
         else
           (let held = saturating_abs (pa_position a); incoming = saturating_abs signed_fill;
                was_long = (pa_position a > 0); closed = (if incoming < held then incoming else held)
            in case realized_of (pa_average_price a) price closed was_long of
                 None \<Rightarrow> None
               | Some delta \<Rightarrow>
                   if incoming > held then Some (price, delta, True)
                   else if new_position = 0 then Some (0, delta, False)
                   else Some (pa_average_price a, delta, False)))"

definition acct_apply_fill ::
  "PositionAccount \<Rightarrow> string \<Rightarrow> Side \<Rightarrow> px \<Rightarrow> qty \<Rightarrow> notional \<Rightarrow> PositionAccount \<times> FillOutcome" where
  "acct_apply_fill a trade_id side price quantity fee =
     (if pa_faulted a then (a, fill_refused AeFaulted)
      else if trade_id = [] then (a, fill_refused AeMissingTradeId)
      else if \<not> quantity > 0 then (a, fill_refused AeInvalidQuantity)
      else if \<not> price > 0 then (a, fill_refused AeInvalidPrice)
      else if fee < 0 then (a, fill_refused AeInvalidQuantity)
      else if seen_contains (pa_seen a) trade_id then (a, fill_refused AeDuplicateFill)
      else
        let signed_fill = (if side = Buy then quantity else fx_sub 0 quantity)
        in case checked_add (pa_position a) signed_fill of
             None \<Rightarrow> (a, fill_refused AeArithmeticOverflow)
           | Some new_position \<Rightarrow>
        (case fill_basis a signed_fill price new_position of
             None \<Rightarrow> (a, fill_refused AeArithmeticOverflow)
           | Some (new_average, realized_delta, flipped) \<Rightarrow>
        (case checked_notional_of new_average new_position of
             None \<Rightarrow> (a, fill_refused AeArithmeticOverflow)
           | Some new_cost \<Rightarrow>
        (case checked_add (pa_realized a) realized_delta of
             None \<Rightarrow> (a, fill_refused AeArithmeticOverflow)
           | Some new_realized \<Rightarrow>
        (case checked_add (pa_fees a) fee of
             None \<Rightarrow> (a, fill_refused AeArithmeticOverflow)
           | Some new_fees \<Rightarrow>
               (a\<lparr>pa_position := new_position, pa_average_price := new_average,
                  pa_realized := new_realized, pa_fees := new_fees,
                  pa_fill_count := inc64 (pa_fill_count a),
                  pa_seen := fst (seen_trades_insert (pa_seen a) trade_id),
                  pa_unrealized := 0, pa_unrealized_valid := (new_position = 0)\<rparr>,
                \<lparr>fo_error = AeNone, fo_applied_quantity = signed_fill,
                 fo_realized_delta = realized_delta, fo_fee = fee, fo_flipped = flipped,
                 fo_closed = (new_position = 0)\<rparr>))))))"

definition acct_apply_mark ::
  "PositionAccount \<Rightarrow> MarkPrice \<Rightarrow> nanos \<Rightarrow> nanos \<Rightarrow> PositionAccount \<times> AccountingError" where
  "acct_apply_mark a mark now_ns max_age_ns =
     (if \<not> mark_usable mark then
        (a\<lparr>pa_unrealized_valid := (pa_position a = 0), pa_unrealized := 0\<rparr>, AeInvalidMark)
      else if max_age_ns > 0 \<and> mp_as_of_ns mark \<noteq> 0 \<and> wrap64 (now_ns - mp_as_of_ns mark) > max_age_ns then
        (a\<lparr>pa_unrealized_valid := (pa_position a = 0), pa_unrealized := 0\<rparr>, AeStaleMark)
      else
        let mark_price = mark_for_position mark (pa_position a); a1 = a\<lparr>pa_last_mark := mark_price\<rparr>
        in if pa_position a1 = 0 then (a1\<lparr>pa_unrealized := 0, pa_unrealized_valid := True\<rparr>, AeNone)
           else (case realized_of (pa_average_price a1) mark_price (pa_position a1) (pa_position a1 > 0) of
                   None \<Rightarrow> (a1\<lparr>pa_unrealized_valid := False, pa_unrealized := 0\<rparr>, AeArithmeticOverflow)
                 | Some v \<Rightarrow> (a1\<lparr>pa_unrealized := v, pa_unrealized_valid := True\<rparr>, AeNone)))"

definition checked_cost_basis :: "PositionAccount \<Rightarrow> notional option" where
  "checked_cost_basis a = checked_notional_of (pa_average_price a) (pa_position a)"

definition checked_gross_exposure :: "PositionAccount \<Rightarrow> notional option" where
  "checked_gross_exposure a =
     (if pa_position a = 0 then Some 0
      else let price = (if pa_last_mark a > 0 then pa_last_mark a else pa_average_price a)
           in if \<not> price > 0 then None else abs_notional price (pa_position a))"

definition acct_pnl :: "PositionAccount \<Rightarrow> PnlBreakdown" where
  "acct_pnl a = \<lparr>pnl_realized = pa_realized a, pnl_unrealized = pa_unrealized a, pnl_fees = pa_fees a,
     pnl_funding = 0, pnl_unrealized_valid = pa_unrealized_valid a\<rparr>"

definition acct_fault :: "PositionAccount \<Rightarrow> PositionAccount" where
  "acct_fault a = a\<lparr>pa_faulted := True\<rparr>"

definition acct_clear_fault :: "PositionAccount \<Rightarrow> PositionAccount" where
  "acct_clear_fault a = a\<lparr>pa_faulted := False\<rparr>"

record AccountState =
  as_symbol :: string
  as_position :: qty
  as_average_price :: px
  as_realized :: notional
  as_fees :: notional
  as_fill_count :: nat
  as_seen :: SeenIds
  as_faulted :: bool

definition acct_save :: "PositionAccount \<Rightarrow> AccountState" where
  "acct_save a = \<lparr>as_symbol = pa_symbol a, as_position = pa_position a,
     as_average_price = pa_average_price a, as_realized = pa_realized a, as_fees = pa_fees a,
     as_fill_count = pa_fill_count a, as_seen = pa_seen a, as_faulted = pa_faulted a\<rparr>"

definition acct_restore :: "PositionAccount \<Rightarrow> AccountState \<Rightarrow> PositionAccount \<times> AccountingError" where
  "acct_restore a s =
     (if as_fees s < 0 then (a, AeCorruptSnapshot)
      else if as_position s \<noteq> 0 \<and> \<not> as_average_price s > 0 then (a, AeCorruptSnapshot)
      else if as_position s = 0 \<and> as_average_price s > 0 then (a, AeCorruptSnapshot)
      else (a\<lparr>pa_symbol := as_symbol s, pa_position := as_position s,
              pa_average_price := as_average_price s, pa_realized := as_realized s,
              pa_fees := as_fees s, pa_fill_count := as_fill_count s, pa_seen := as_seen s,
              pa_faulted := as_faulted s, pa_unrealized := 0,
              pa_unrealized_valid := (as_position s = 0), pa_last_mark := 0\<rparr>, AeNone))"

section \<open>Specification\<close>

text \<open>
  The accounting rule of the class comment: position \<open>q\<close> at average \<open>a\<close>, signed fill \<open>f\<close> at price \<open>p\<close>; the
  result is the new average and the realized PnL, truncated at the 1e-8 scale.
\<close>

definition cost_basis_spec :: "qty \<Rightarrow> px \<Rightarrow> qty \<Rightarrow> px \<Rightarrow> px \<times> notional" where
  "cost_basis_spec q a f p =
     (if q = 0 \<or> (q < 0) = (f < 0) then ((\<bar>q\<bar> * a + \<bar>f\<bar> * p) div (\<bar>q\<bar> + \<bar>f\<bar>), 0)
      else if \<bar>f\<bar> \<le> \<bar>q\<bar> then (a, ((p - a) * \<bar>f\<bar> * sgn q) sdiv kScale)
      else (p, ((p - a) * \<bar>q\<bar> * sgn q) sdiv kScale))"

definition basis_after :: "qty \<Rightarrow> px \<Rightarrow> qty \<Rightarrow> px \<Rightarrow> px \<times> notional" where
  "basis_after q a f p = (if q + f = 0 then 0 else fst (cost_basis_spec q a f p), snd (cost_basis_spec q a f p))"

definition acct_inv :: "PositionAccount \<Rightarrow> bool" where
  [inv_defs]: "acct_inv a \<longleftrightarrow>
     in64 (pa_position a) \<and> in64 (pa_average_price a) \<and> in64 (pa_realized a) \<and> in64 (pa_unrealized a)
   \<and> in64 (pa_fees a) \<and> 0 \<le> pa_fees a \<and> 0 \<le> pa_last_mark a \<and> in64 (pa_last_mark a)
   \<and> (if pa_position a = 0 then pa_average_price a = 0 else pa_average_price a > 0)
   \<and> (pa_position a = 0 \<longrightarrow> pa_unrealized_valid a \<and> pa_unrealized a = 0)
   \<and> checked_cost_basis a \<noteq> None \<and> ring_ok SeenTrades_kCapacity (pa_seen a)"

section \<open>Lemmas\<close>

lemma weighted_average_Some:
  assumes "weighted_average a qa b qb = Some avg" and "0 < a" and "0 < b"
  shows "min a b \<le> avg \<and> avg \<le> max a b \<and> in64 avg"
    and "qa \<noteq> INT64_MIN \<Longrightarrow> qb \<noteq> INT64_MIN \<Longrightarrow> avg = (\<bar>qa\<bar> * a + \<bar>qb\<bar> * b) div (\<bar>qa\<bar> + \<bar>qb\<bar>)"
proof -
  let ?wa = "saturating_abs qa" and ?wb = "saturating_abs qb"
  from assms(1) have tot: "0 < ?wa + ?wb" and avg: "avg = (a * ?wa + b * ?wb) sdiv (?wa + ?wb)" and rng: "in64 avg"
    by (auto simp: weighted_average_def Let_def in64_def checked_add_def split: option.splits if_splits)
  have w: "0 \<le> ?wa" "0 \<le> ?wb" by (simp_all add: saturating_abs_nonneg)
  then have "0 \<le> a * ?wa + b * ?wb" using assms by simp
  with tot avg have d: "avg = (a * ?wa + b * ?wb) div (?wa + ?wb)" by (simp add: sdiv_nonneg)
  have "min a b * (?wa + ?wb) \<le> a * ?wa + b * ?wb" and "a * ?wa + b * ?wb \<le> max a b * (?wa + ?wb)"
    using w by (simp_all add: distrib_left add_mono mult_right_mono)
  from this [THEN zdiv_mono1, OF tot] tot rng show "min a b \<le> avg \<and> avg \<le> max a b \<and> in64 avg"
    by (simp add: d)
  show "avg = (\<bar>qa\<bar> * a + \<bar>qb\<bar> * b) div (\<bar>qa\<bar> + \<bar>qb\<bar>)" if "qa \<noteq> INT64_MIN" "qb \<noteq> INT64_MIN"
    using that d by (simp add: saturating_abs_eq mult.commute)
qed

lemma realized_of_Some:
  assumes "realized_of entry ex closed long = Some v" and "0 < entry" and "0 < ex" and "in64 ex" "in64 entry"
  shows "v = ((ex - entry) * saturating_abs closed * (if long then 1 else -1)) sdiv kScale \<and> in64 v"
proof -
  have "in64 (ex - entry)" "in64 (entry - ex)" using assms by (simp_all add: in64_def)
  with assms(1) have "checked_notional_of (if long then ex - entry else entry - ex) (saturating_abs closed) = Some v"
    by (auto simp: realized_of_def checked_simps fx_sub_def Let_def split: option.splits if_splits)
  then show ?thesis
    by (auto simp: checked_simps algebra_simps split: if_splits)
qed

lemma fill_basis_Some:
  assumes inv: "acct_inv a" and fb: "fill_basis a f p (pa_position a + f) = Some (avg, delta, fl)"
    and p: "0 < p" "in64 p" and f: "f \<noteq> 0" "in64 f" "f \<noteq> INT64_MIN"
  shows "in64 avg" and "in64 delta" and "if pa_position a + f = 0 then avg = 0 else avg > 0"
    and "pa_position a \<noteq> INT64_MIN \<Longrightarrow>
      (avg, delta) = basis_after (pa_position a) (pa_average_price a) f p
      \<and> (fl \<longleftrightarrow> pa_position a * (pa_position a + f) < 0)"
proof -
  let ?q = "pa_position a" and ?a = "pa_average_price a"
  from inv have q: "in64 ?q" and a: "in64 ?a" "?q \<noteq> 0 \<Longrightarrow> 0 < ?a" by (auto simp: acct_inv_def split: if_splits)
  consider (flat) "?q = 0" | (same) "?q \<noteq> 0" "(?q < 0) = (f < 0)" | (opp) "?q \<noteq> 0" "(?q < 0) \<noteq> (f < 0)"
    by blast
  then have "in64 avg \<and> in64 delta \<and> (if ?q + f = 0 then avg = 0 else avg > 0)
    \<and> (?q \<noteq> INT64_MIN \<longrightarrow> (avg, delta) = basis_after ?q ?a f p \<and> (fl \<longleftrightarrow> ?q * (?q + f) < 0))"
  proof cases
    case flat
    with fb p f show ?thesis by (simp add: fill_basis_def basis_after_def cost_basis_spec_def)
  next
    case same
    with fb obtain w: "weighted_average ?a ?q p f = Some avg" and r: "delta = 0" "\<not> fl"
      by (auto simp: fill_basis_def Let_def split: option.splits)
    note wa = weighted_average_Some [OF w a(2) p(1)]
    have "\<not> ?q * (?q + f) < 0" "?q + f \<noteq> 0" using same f by (auto simp: mult_less_0_iff)
    with same r wa a(2) p f(3) show ?thesis by (auto simp: basis_after_def cost_basis_spec_def)
  next
    case opp
    let ?closed = "if saturating_abs f < saturating_abs ?q then saturating_abs f else saturating_abs ?q"
    from opp fb obtain d: "realized_of ?a p ?closed (0 < ?q) = Some delta"
      and r: "avg = (if saturating_abs f > saturating_abs ?q then p else if ?q + f = 0 then 0 else ?a)"
        "fl = (saturating_abs f > saturating_abs ?q)"
      by (auto simp: fill_basis_def Let_def split: option.splits if_splits)
    have cs: "saturating_abs ?closed = ?closed"
      using q f by (auto simp: saturating_abs_def in64_def)
    note rz = realized_of_Some [OF d a(2) [OF opp(1)] p a(1), unfolded cs]
    have delta: "delta = ((p - ?a) * ?closed * (if 0 < ?q then 1 else -1)) sdiv kScale" "in64 delta"
      using rz by (rule conjunct1, rule conjunct2)
    have zero: "?q + f = 0 \<Longrightarrow> \<not> saturating_abs f > saturating_abs ?q"
      using f by (auto simp: saturating_abs_def in64_def)
    have spec: "(avg, delta) = basis_after ?q ?a f p \<and> (fl \<longleftrightarrow> ?q * (?q + f) < 0)" if "?q \<noteq> INT64_MIN"
    proof -
      have ab: "saturating_abs f = \<bar>f\<bar>" "saturating_abs ?q = \<bar>?q\<bar>" using f that by (simp_all add: saturating_abs_eq)
      have sg: "sgn ?q = (if 0 < ?q then 1 else -1)" using opp by (simp add: sgn_if)
      have fl: "\<bar>f\<bar> > \<bar>?q\<bar> \<longleftrightarrow> ?q * (?q + f) < 0" using opp by (auto simp: mult_less_0_iff)
      have cl: "?closed = (if \<bar>f\<bar> \<le> \<bar>?q\<bar> then \<bar>f\<bar> else \<bar>?q\<bar>)" unfolding ab by auto
      have dl: "delta = ((p - ?a) * (if \<bar>f\<bar> \<le> \<bar>?q\<bar> then \<bar>f\<bar> else \<bar>?q\<bar>) * sgn ?q) sdiv kScale"
        unfolding sg using delta(1) [unfolded cl] .
      have spec: "basis_after ?q ?a f p = (if \<bar>f\<bar> > \<bar>?q\<bar> then p else if ?q + f = 0 then 0 else ?a,
          ((p - ?a) * (if \<bar>f\<bar> \<le> \<bar>?q\<bar> then \<bar>f\<bar> else \<bar>?q\<bar>) * sgn ?q) sdiv kScale)"
        unfolding basis_after_def cost_basis_spec_def using opp by auto
      show ?thesis unfolding spec dl r ab using fl by simp
    qed
    with opp r delta a p zero show ?thesis by auto
  qed
  then show "in64 avg" "in64 delta" "if ?q + f = 0 then avg = 0 else avg > 0"
    "?q \<noteq> INT64_MIN \<Longrightarrow> (avg, delta) = basis_after ?q ?a f p \<and> (fl \<longleftrightarrow> ?q * (?q + f) < 0)" by blast+
qed

text \<open>A fill is either refused with the account returned as it was, or applied in full.\<close>

lemma acct_apply_fill_cases:
  obtains (refused) e where "acct_apply_fill a t s p q fee = (a, fill_refused e)" "e \<noteq> AeNone"
  | (applied) f avg delta fl where
      "acct_apply_fill a t s p q fee =
         (a\<lparr>pa_position := pa_position a + f, pa_average_price := avg, pa_realized := pa_realized a + delta,
            pa_fees := pa_fees a + fee, pa_fill_count := inc64 (pa_fill_count a),
            pa_seen := fst (seen_trades_insert (pa_seen a) t), pa_unrealized := 0,
            pa_unrealized_valid := (pa_position a + f = 0)\<rparr>,
          \<lparr>fo_error = AeNone, fo_applied_quantity = f, fo_realized_delta = delta, fo_fee = fee,
           fo_flipped = fl, fo_closed = (pa_position a + f = 0)\<rparr>)"
      "f = (if s = Buy then q else fx_sub 0 q)" "\<not> pa_faulted a" "t \<noteq> []" "0 < q" "0 < p" "0 \<le> fee"
      "\<not> seen_contains (pa_seen a) t" "in64 (pa_position a + f)"
      "fill_basis a f p (pa_position a + f) = Some (avg, delta, fl)"
      "checked_notional_of avg (pa_position a + f) \<noteq> None" "in64 (pa_realized a + delta)" "in64 (pa_fees a + fee)"
proof (cases "fo_error (snd (acct_apply_fill a t s p q fee)) = AeNone")
  case True
  then show ?thesis
    by (auto simp: acct_apply_fill_def Let_def fill_refused_def checked_add_Some_iff
        split: if_splits option.splits prod.splits intro!: applied)
next
  case False
  then have "acct_apply_fill a t s p q fee = (a, fill_refused (fo_error (snd (acct_apply_fill a t s p q fee))))"
    by (auto simp: acct_apply_fill_def Let_def fill_refused_def split: if_splits option.splits prod.splits)
  with False show ?thesis by (intro refused)
qed

lemma signed_fill_range:
  "0 < q \<Longrightarrow> in64 q \<Longrightarrow> (if s = Buy then q else fx_sub 0 q) = sign_of s * q
    \<and> sign_of s * q \<noteq> 0 \<and> in64 (sign_of s * q) \<and> sign_of s * q \<noteq> INT64_MIN"
  by (auto simp: sign_of_def fx_sub_def in64_def)

lemma new_account_inv: "acct_inv (new_account symbol)"
  using ring_empty [OF ledger_ring.cap_pos]
  by (simp add: acct_inv_def new_account_def checked_cost_basis_def)

lemma acct_apply_fill_inv:
  assumes "acct_inv a" and "in64 p" and "in64 q"
  shows "acct_inv (fst (acct_apply_fill a t s p q fee))"
proof (cases rule: acct_apply_fill_cases [of a t s p q fee])
  case refused
  with assms show ?thesis by simp
next
  case (applied f avg delta fl)
  with signed_fill_range [of q s] assms(3) have f: "f \<noteq> 0" "in64 f" "f \<noteq> INT64_MIN" by simp_all
  note fb = fill_basis_Some [OF assms(1) applied(10,6) assms(2) f]
  have "ring_ok SeenTrades_kCapacity (fst (seen_trades_insert (pa_seen a) t))"
    using assms(1) ledger_ring.ins_preserves by (simp add: acct_inv_def)
  with applied fb assms(1) show ?thesis
    by (auto simp: acct_inv_def checked_cost_basis_def)
qed

lemma acct_apply_mark_inv:
  assumes "acct_inv a" and "in64 (mp_bid m)" and "in64 (mp_ask m)"
  shows "acct_inv (fst (acct_apply_mark a m now max_age))"
proof -
  have mk: "mark_usable m \<Longrightarrow> 0 < mark_for_position m (pa_position a) \<and> in64 (mark_for_position m (pa_position a))"
    using assms by (simp add: mark_usable_def mark_for_position_def)
  show ?thesis
  proof (cases "mark_usable m")
    case True
    with mk have m: "0 < mark_for_position m (pa_position a)" "in64 (mark_for_position m (pa_position a))" by auto
    have v: "in64 v" if "realized_of (pa_average_price a) (mark_for_position m (pa_position a)) (pa_position a) l = Some v"
      "pa_position a \<noteq> 0" for v l
      using realized_of_Some [OF that(1)] m assms(1) that(2) by (auto simp: acct_inv_def split: if_splits)
    show ?thesis using True assms(1) m v
      by (auto simp: acct_apply_mark_def acct_inv_def checked_cost_basis_def Let_def split: option.splits)
  next
    case False
    with assms(1) show ?thesis by (auto simp: acct_apply_mark_def acct_inv_def checked_cost_basis_def)
  qed
qed

lemma save_restore:
  assumes "acct_inv a"
  shows "acct_restore b (acct_save a)
    = (a\<lparr>pa_unrealized := 0, pa_unrealized_valid := (pa_position a = 0), pa_last_mark := 0\<rparr>, AeNone)"
  using assms by (auto simp: acct_restore_def acct_save_def acct_inv_def split: if_splits)

text \<open>A run of fills against one account: the account at the end and the outcome of each.\<close>

type_synonym fill_args = "string \<times> Side \<times> px \<times> qty \<times> notional"

fun apply_fills :: "PositionAccount \<Rightarrow> fill_args list \<Rightarrow> PositionAccount \<times> FillOutcome list" where
  "apply_fills a [] = (a, [])"
| "apply_fills a ((t, s, p, q, fee) # fs) =
     (let (a', o1) = acct_apply_fill a t s p q fee; (a'', os) = apply_fills a' fs in (a'', o1 # os))"

lemma apply_fills_Cons [simp]:
  "fst (apply_fills a ((t, s, p, q, fee) # fs)) = fst (apply_fills (fst (acct_apply_fill a t s p q fee)) fs)"
  "snd (apply_fills a ((t, s, p, q, fee) # fs)) =
     snd (acct_apply_fill a t s p q fee) # snd (apply_fills (fst (acct_apply_fill a t s p q fee)) fs)"
  by (simp_all add: Let_def case_prod_beta)

declare apply_fills.simps(2) [simp del]

lemma apply_fills_sums:
  "pa_position (fst (apply_fills a fs)) = pa_position a + sum_list (map fo_applied_quantity (snd (apply_fills a fs)))
   \<and> pa_realized (fst (apply_fills a fs)) = pa_realized a + sum_list (map fo_realized_delta (snd (apply_fills a fs)))
   \<and> pa_fees (fst (apply_fills a fs)) = pa_fees a + sum_list (map fo_fee (snd (apply_fills a fs)))"
proof (induction fs arbitrary: a)
  case Nil
  then show ?case by simp
next
  case (Cons x fs)
  obtain t s p q fee where x: "x = (t, s, p, q, fee)" by (metis prod_cases5)
  show ?case
    by (cases rule: acct_apply_fill_cases [of a t s p q fee])
       (simp_all add: x Cons fill_refused_def)
qed

text \<open>The trade ids whose fills were applied, in order.\<close>

definition applied_ids :: "fill_args list \<Rightarrow> FillOutcome list \<Rightarrow> string list" where
  "applied_ids fs os = map (fst \<circ> fst) (filter (\<lambda>x. fo_error (snd x) = AeNone) (zip fs os))"

lemma applied_ids_Cons [simp]:
  "applied_ids [] [] = []"
  "applied_ids (x # fs) (o1 # os) = (if fo_error o1 = AeNone then fst x # applied_ids fs os else applied_ids fs os)"
  by (simp_all add: applied_ids_def)

lemma acct_apply_fill_seen:
  assumes "ring_ok SeenTrades_kCapacity (pa_seen a)"
  shows "if fo_error (snd (acct_apply_fill a t s p q fee)) = AeNone
    then \<not> seen_contains (pa_seen a) t
       \<and> pa_seen (fst (acct_apply_fill a t s p q fee)) = fst (seen_trades_insert (pa_seen a) t)
    else fst (acct_apply_fill a t s p q fee) = a"
  by (cases rule: acct_apply_fill_cases [of a t s p q fee]) (simp_all add: fill_refused_def)

text \<open>The ledger's ring sees exactly the applied ids, so the interface lemma on deliveries applies.\<close>

lemma apply_fills_deliver:
  assumes "ring_ok SeenTrades_kCapacity (pa_seen a)"
  shows "pa_seen (fst (apply_fills a fs))
      = fst (deliver seen_trades_insert (pa_seen a) (applied_ids fs (snd (apply_fills a fs))))
    \<and> snd (deliver seen_trades_insert (pa_seen a) (applied_ids fs (snd (apply_fills a fs))))
      = applied_ids fs (snd (apply_fills a fs))"
  using assms
proof (induction fs arbitrary: a)
  case Nil
  then show ?case by simp
next
  case (Cons x fs)
  obtain t s p q fee where x: "x = (t, s, p, q, fee)" by (metis prod_cases5)
  let ?r = "acct_apply_fill a t s p q fee"
  show ?case
  proof (cases "fo_error (snd ?r) = AeNone")
    case True
    with acct_apply_fill_seen [OF Cons.prems, of t s p q fee]
    have new: "\<not> seen_contains (pa_seen a) t" "pa_seen (fst ?r) = fst (seen_trades_insert (pa_seen a) t)" by simp_all
    then have "ring_ok SeenTrades_kCapacity (pa_seen (fst ?r))"
      using ledger_ring.ins_preserves [OF Cons.prems] by simp
    from Cons.IH [OF this] new True show ?thesis
      using ledger_ring.ins_flag [OF Cons.prems new(1)] by (simp add: x)
  next
    case False
    with acct_apply_fill_seen [OF Cons.prems, of t s p q fee] have "fst ?r = a" by simp
    with Cons.IH [OF Cons.prems] False show ?thesis by (simp add: x)
  qed
qed

lemma apply_fills_inv:
  "acct_inv a \<Longrightarrow> \<forall>(t, s, p, q, fee) \<in> set fs. in64 p \<and> in64 q \<Longrightarrow> acct_inv (fst (apply_fills a fs))"
  by (induction fs arbitrary: a) (auto simp: acct_apply_fill_inv)

section \<open>Properties\<close>

text \<open>
  C25. A fill is all or nothing: \<open>apply_fill\<close> either refuses, with the error reported, nothing applied and
  the whole account (position, basis, PnL, fees, remembered ids, mark) exactly as it was, or applies the
  signed quantity, the realized delta and the venue's fee in full and remembers the trade id, so that the same
  id delivered again is refused as a duplicate without effect.
\<close>

theorem apply_fill_all_or_nothing:
  assumes "ring_ok SeenTrades_kCapacity (pa_seen a)" and "acct_apply_fill a t s p q fee = (a', out)"
  shows "if fo_error out = AeNone
     then fo_applied_quantity out = (if s = Buy then q else fx_sub 0 q) \<and> fo_fee out = fee \<and> 0 < q \<and> 0 < p \<and> 0 \<le> fee
       \<and> pa_position a' = pa_position a + fo_applied_quantity out
       \<and> pa_realized a' = pa_realized a + fo_realized_delta out \<and> pa_fees a' = pa_fees a + fee
       \<and> (fo_closed out \<longleftrightarrow> pa_position a' = 0)
       \<and> fo_error (snd (acct_apply_fill a' t s' p' q' fee')) \<noteq> AeNone
       \<and> fst (acct_apply_fill a' t s' p' q' fee') = a'
     else a' = a \<and> out = fill_refused (fo_error out)"
proof (cases rule: acct_apply_fill_cases [of a t s p q fee])
  case (refused e)
  with assms show ?thesis by (auto simp: fill_refused_def)
next
  case (applied f avg delta fl)
  from applied(1) assms(2) have a': "pa_seen a' = fst (seen_trades_insert (pa_seen a) t)"
    "pa_faulted a' = pa_faulted a" by auto
  then have "seen_contains (pa_seen a') t" using ledger_ring.ins_contains [OF assms(1)] by simp
  with applied(3,4) a' have "fst (acct_apply_fill a' t s' p' q' fee') = a'"
    "fo_error (snd (acct_apply_fill a' t s' p' q' fee')) \<noteq> AeNone"
    by (auto simp: acct_apply_fill_def fill_refused_def)
  with applied assms(2) show ?thesis by auto
qed

theorem apply_fill_all_or_nothing_witness:
  "ring_ok SeenTrades_kCapacity (pa_seen (new_account ''BTCUSDT''))
   \<and> pa_position (fst (acct_apply_fill (new_account ''BTCUSDT'') ''t1'' Sell 5000000000 150000000 12)) = - 150000000"
proof -
  let ?a = "new_account ''BTCUSDT''"
  have ok: "ring_ok SeenTrades_kCapacity (pa_seen ?a)"
    using new_account_inv [of "''BTCUSDT''"] by (simp add: acct_inv_def)
  obtain a' out where r: "acct_apply_fill ?a ''t1'' Sell 5000000000 150000000 12 = (a', out)"
    by (metis surj_pair)
  have "fo_error (snd (acct_apply_fill ?a ''t1'' Sell 5000000000 150000000 12)) = AeNone" by code_simp
  with r have e: "fo_error out = AeNone" by simp
  from apply_fill_all_or_nothing [OF ok r, of Buy 1 1 0] e
  have "pa_position a' = pa_position ?a + fx_sub 0 150000000" by simp
  then show ?thesis using ok r by (simp add: new_account_def fx_sub_def in64_def)
qed

text \<open>
  C26. The weighted-average cost basis of the class comment: on a well-formed account (position not at the very bottom
  of the range) an applied fill realizes exactly the PnL of the stated rule, for opening, increasing, reducing, closing
  and flipping fills alike, and leaves exactly the average entry price of that rule, with one exception: a fill that
  closes the position exactly leaves the average price zero, where the rule for \<open>|f| \<le> |q|\<close> in the comment keeps it.
  The fill is flagged as a flip exactly when the position crosses zero.
\<close>

theorem apply_fill_cost_basis:
  assumes "acct_inv a" and "in64 p" and "in64 q" and "pa_position a \<noteq> INT64_MIN"
    and "acct_apply_fill a t s p q fee = (a', out)" and "fo_error out = AeNone"
  shows "fo_realized_delta out = snd (cost_basis_spec (pa_position a) (pa_average_price a) (sign_of s * q) p)
    \<and> pa_average_price a' = (if pa_position a' = 0 then 0
         else fst (cost_basis_spec (pa_position a) (pa_average_price a) (sign_of s * q) p))
    \<and> (fo_flipped out \<longleftrightarrow> pa_position a * pa_position a' < 0)
    \<and> pa_position a' = pa_position a + sign_of s * q"
proof (cases rule: acct_apply_fill_cases [of a t s p q fee])
  case (refused e)
  with assms show ?thesis by (auto simp: fill_refused_def)
next
  case (applied f avg delta fl)
  with signed_fill_range [of q s] assms(3)
  have f: "f = sign_of s * q" "f \<noteq> 0" "in64 f" "f \<noteq> INT64_MIN" by simp_all
  from fill_basis_Some(4) [OF assms(1) applied(10,6) assms(2) f(2-4) assms(4)] applied(1) assms(5) f(1)
  show ?thesis by (auto simp: basis_after_def)
qed

theorem apply_fill_cost_basis_witness:
  "pa_average_price (fst (acct_apply_fill (fst (acct_apply_fill (new_account ''BTCUSDT'') ''t1'' Buy 100 3 0)) ''t2'' Sell 130 5 0)) = 130
   \<and> cost_basis_spec 3 100 (-5) 130 = (130, 0)"
proof -
  let ?a = "fst (acct_apply_fill (new_account ''BTCUSDT'') ''t1'' Buy 100 3 0)"
  have inv: "acct_inv ?a" by (rule acct_apply_fill_inv [OF new_account_inv]) (simp_all add: in64_def)
  have e: "fo_error (snd (acct_apply_fill ?a ''t2'' Sell 130 5 0)) = AeNone" by code_simp
  have pos: "pa_position ?a = 3" "pa_average_price ?a = 100" by code_simp+
  have spec: "cost_basis_spec 3 100 (-5) 130 = (130, 0)" by code_simp
  from apply_fill_cost_basis [OF inv _ _ _ prod.collapse [symmetric] e] pos spec
  show ?thesis by (simp add: in64_def sign_of_def)
qed

text \<open>
  The ledger invariant: values in range, fees never negative, a position exactly when there is a positive
  cost basis, flat means zero unrealized PnL, the cost basis representable, the id ring well-formed. It
  holds initially and every operation keeps it: fills and marks with 64-bit prices, fault and clear, and
  a snapshot that is saved and restored comes back as the same ledger with only the market-dependent
  fields reset.
\<close>

theorem account_invariant:
  "acct_inv (new_account symbol)
   \<and> (acct_inv a \<and> in64 p \<and> in64 q \<longrightarrow> acct_inv (fst (acct_apply_fill a t s p q fee)))
   \<and> (acct_inv a \<and> in64 (mp_bid m) \<and> in64 (mp_ask m) \<longrightarrow> acct_inv (fst (acct_apply_mark a m now max_age)))
   \<and> (acct_inv a \<longrightarrow> acct_inv (acct_fault a) \<and> acct_inv (acct_clear_fault a)
       \<and> acct_restore b (acct_save a)
           = (a\<lparr>pa_unrealized := 0, pa_unrealized_valid := (pa_position a = 0), pa_last_mark := 0\<rparr>, AeNone)
       \<and> acct_inv (fst (acct_restore b (acct_save a))))"
proof -
  have "acct_inv (a\<lparr>pa_unrealized := 0, pa_unrealized_valid := (pa_position a = 0), pa_last_mark := 0\<rparr>)"
    if "acct_inv a"
    using that by (simp add: acct_inv_def checked_cost_basis_def)
  moreover have "acct_inv (acct_fault a) \<and> acct_inv (acct_clear_fault a)" if "acct_inv a"
    using that by (simp add: acct_inv_def acct_fault_def acct_clear_fault_def checked_cost_basis_def)
  ultimately show ?thesis
    using new_account_inv acct_apply_fill_inv acct_apply_mark_inv save_restore by simp
qed

theorem account_invariant_witness:
  "acct_inv (fst (acct_apply_fill (new_account ''BTCUSDT'') ''t1'' Buy 100 3 0))"
  using account_invariant [of "''BTCUSDT''" "new_account ''BTCUSDT''" 100 3 "''t1''" Buy 0]
  by (simp add: in64_def)

text \<open>
  The ledger is the sum of its fills: after any sequence of deliveries from a fresh account, position,
  realized PnL and fees are exactly the sums over the outcomes (refused fills contribute nothing), and while
  duplicate detection has not overflowed no trade id is ever applied twice, however fills are redelivered.
\<close>

theorem ledger_is_sum_of_distinct_fills:
  assumes "\<not> sr_overflowed (pa_seen (fst (apply_fills (new_account symbol) fs)))"
  shows "pa_position (fst (apply_fills (new_account symbol) fs))
      = sum_list (map fo_applied_quantity (snd (apply_fills (new_account symbol) fs)))
    \<and> pa_realized (fst (apply_fills (new_account symbol) fs))
      = sum_list (map fo_realized_delta (snd (apply_fills (new_account symbol) fs)))
    \<and> pa_fees (fst (apply_fills (new_account symbol) fs))
      = sum_list (map fo_fee (snd (apply_fills (new_account symbol) fs)))
    \<and> distinct (applied_ids fs (snd (apply_fills (new_account symbol) fs)))"
proof -
  have ok: "ring_ok SeenTrades_kCapacity (pa_seen (new_account symbol))"
    using new_account_inv [of symbol] by (simp add: acct_inv_def)
  from apply_fills_deliver [OF ok, of fs] assms ledger_ring.deliver_once [OF ok]
  have "distinct (applied_ids fs (snd (apply_fills (new_account symbol) fs)))" by metis
  with apply_fills_sums [of "new_account symbol" fs] show ?thesis by (simp add: new_account_def)
qed

theorem ledger_is_sum_of_distinct_fills_witness:
  "pa_position (fst (apply_fills (new_account ''X'') [(''t1'', Buy, 100, 3, 0), (''t1'', Buy, 100, 3, 0), (''t2'', Sell, 110, 1, 0)])) = 2"
proof -
  let ?fs = "[(''t1'', Buy, 100, 3, 0), (''t1'', Buy, 100, 3, 0), (''t2'', Sell, 110, 1, 0)]"
  have h: "\<not> sr_overflowed (pa_seen (fst (apply_fills (new_account ''X'') ?fs)))" by code_simp
  have "map fo_applied_quantity (snd (apply_fills (new_account ''X'') ?fs)) = [3, 0, - 1]" by code_simp
  with ledger_is_sum_of_distinct_fills [OF h] show ?thesis by simp
qed

end
