(* ===== verification/RiskState.thy ===== *)
theory RiskState
  imports Types
begin

text \<open>
  What the risk engine is told: \<^verbatim>\<open>PositionState.hpp\<close>, \<^verbatim>\<open>PositionState.cpp\<close> and \<^verbatim>\<open>PortfolioState.hpp\<close>. An
  out-parameter with a boolean result becomes an \<open>option\<close>.
\<close>

section \<open>Definitions\<close>

record PositionSnapshot =
  ps_valid :: bool
  ps_symbol :: string
  ps_quantity :: qty
  ps_notional :: notional
  ps_average_price :: px
  ps_as_of_ns :: nanos
  ps_sequence :: nat

record ExposureSnapshot =
  es_determinate :: bool
  es_working_buy :: qty
  es_working_sell :: qty
  es_working_buy_notional :: notional
  es_working_sell_notional :: notional
  es_open_order_count :: nat
  es_indeterminate_order_count :: nat

definition empty_exposure :: ExposureSnapshot where
  "empty_exposure = \<lparr>es_determinate = True, es_working_buy = 0, es_working_sell = 0,
     es_working_buy_notional = 0, es_working_sell_notional = 0, es_open_order_count = 0,
     es_indeterminate_order_count = 0\<rparr>"

definition exposure_gross :: "ExposureSnapshot \<Rightarrow> qty" where
  "exposure_gross e = fx_add (es_working_buy e) (es_working_sell e)"

record WorstCaseExposure =
  wc_long :: qty
  wc_short :: qty

definition peak_absolute :: "WorstCaseExposure \<Rightarrow> qty" where
  "peak_absolute w = (let a = saturating_abs (wc_long w); b = saturating_abs (wc_short w)
                      in if a > b then a else b)"

definition compute_worst_case :: "PositionSnapshot \<Rightarrow> ExposureSnapshot \<Rightarrow> WorstCaseExposure option" where
  "compute_worst_case position exposure =
     (if \<not> ps_valid position \<or> \<not> es_determinate exposure then None
      else case checked_add (ps_quantity position) (es_working_buy exposure) of
             None \<Rightarrow> None
           | Some l \<Rightarrow> (case checked_sub (ps_quantity position) (es_working_sell exposure) of
                         None \<Rightarrow> None
                       | Some s \<Rightarrow> Some \<lparr>wc_long = l, wc_short = s\<rparr>))"

definition compute_worst_case_with ::
  "PositionSnapshot \<Rightarrow> ExposureSnapshot \<Rightarrow> Side \<Rightarrow> qty \<Rightarrow> WorstCaseExposure option" where
  "compute_worst_case_with position exposure side quantity =
     (if side = Buy then
        (case checked_add (es_working_buy exposure) quantity of
           None \<Rightarrow> None
         | Some b \<Rightarrow> compute_worst_case position (exposure\<lparr>es_working_buy := b\<rparr>))
      else
        (case checked_add (es_working_sell exposure) quantity of
           None \<Rightarrow> None
         | Some s \<Rightarrow> compute_worst_case position (exposure\<lparr>es_working_sell := s\<rparr>)))"

definition increases_absolute_position :: "PositionSnapshot \<Rightarrow> Side \<Rightarrow> qty \<Rightarrow> bool" where
  "increases_absolute_position position side quantity =
     (if \<not> quantity > 0 then False
      else if ps_quantity position = 0 then True
      else (side = Buy) = (ps_quantity position > 0))"

record PortfolioState =
  pf_valid :: bool
  pf_pnl_determinate :: bool
  pf_gross_notional :: notional
  pf_net_notional :: notional
  pf_realized :: notional
  pf_unrealized :: notional
  pf_fees :: notional
  pf_net_pnl :: notional
  pf_as_of_ns :: nanos
  pf_sequence :: nat

definition usable_for_notional_limits :: "PortfolioState \<Rightarrow> bool" where
  "usable_for_notional_limits p \<longleftrightarrow> pf_valid p"

definition usable_for_loss_limits :: "PortfolioState \<Rightarrow> bool" where
  "usable_for_loss_limits p \<longleftrightarrow> pf_valid p \<and> pf_pnl_determinate p"

section \<open>Lemmas\<close>

lemma compute_worst_case_Some_iff [checked_simps]:
  "compute_worst_case p e = Some w \<longleftrightarrow> ps_valid p \<and> es_determinate e
     \<and> w = \<lparr>wc_long = ps_quantity p + es_working_buy e, wc_short = ps_quantity p - es_working_sell e\<rparr>
     \<and> in64 (ps_quantity p + es_working_buy e) \<and> in64 (ps_quantity p - es_working_sell e)"
  by (auto simp: compute_worst_case_def checked_simps split: option.splits)

lemma compute_worst_case_with_Some_iff [checked_simps]:
  "compute_worst_case_with p e side q = Some w \<longleftrightarrow> ps_valid p \<and> es_determinate e
     \<and> w = \<lparr>wc_long = ps_quantity p + es_working_buy e + (if side = Buy then q else 0),
            wc_short = ps_quantity p - es_working_sell e - (if side = Buy then 0 else q)\<rparr>
     \<and> in64 (wc_long w) \<and> in64 (wc_short w)
     \<and> in64 (if side = Buy then es_working_buy e + q else es_working_sell e + q)"
  by (cases side) (auto simp: compute_worst_case_with_def checked_simps algebra_simps split: option.splits)

lemma peak_absolute_le:
  assumes "in64 (wc_long w)" and "in64 (wc_short w)" and "m < INT64_MAX"
  shows "peak_absolute w \<le> m \<longleftrightarrow> \<bar>wc_long w\<bar> \<le> m \<and> \<bar>wc_short w\<bar> \<le> m"
  using saturating_abs_le_iff [OF assms(1,3)] saturating_abs_le_iff [OF assms(2,3)]
  by (auto simp: peak_absolute_def Let_def)

text \<open>Whatever part of the resting orders and of the new one fills, the position stays within the peak.\<close>

lemma worst_case_fill_bound:
  assumes "compute_worst_case_with p e side q = Some w" and "peak_absolute w \<le> m" and "m < INT64_MAX"
    and "0 \<le> bought" and "bought \<le> es_working_buy e + (if side = Buy then q else 0)"
    and "0 \<le> sold" and "sold \<le> es_working_sell e + (if side = Buy then 0 else q)"
  shows "\<bar>ps_quantity p + bought - sold\<bar> \<le> m"
proof -
  from assms(1) have w: "wc_long w = ps_quantity p + es_working_buy e + (if side = Buy then q else 0)"
    "wc_short w = ps_quantity p - es_working_sell e - (if side = Buy then 0 else q)"
    "in64 (wc_long w)" "in64 (wc_short w)" by (auto simp: checked_simps)
  with assms(2,3) have "\<bar>wc_long w\<bar> \<le> m" "\<bar>wc_short w\<bar> \<le> m" by (simp_all add: peak_absolute_le)
  moreover have "ps_quantity p + bought - sold \<le> wc_long w" "wc_short w \<le> ps_quantity p + bought - sold"
    using assms(4-7) unfolding w by linarith+
  ultimately show ?thesis by linarith
qed

section \<open>Properties\<close>

text \<open>
  The reduce-only test looks at the direction alone: selling 100 out of a long position of 1 is not
  reported as increasing the absolute position, although filling it leaves a short of 99.
\<close>

theorem reduce_only_test_ignores_flip:
  "\<not> increases_absolute_position \<lparr>ps_valid = True, ps_symbol = ''X'', ps_quantity = 1, ps_notional = 0,
        ps_average_price = 1, ps_as_of_ns = 0, ps_sequence = 0\<rparr> Sell 100
   \<and> \<bar>1 + sign_of Sell * 100\<bar> > \<bar>1 :: int\<bar>"
  by (simp add: increases_absolute_position_def sign_of_def)

end
