(* ===== verification/Portfolio.thy ===== *)
theory Portfolio
  imports PositionAccount ExecutionEvents RiskState
begin

text \<open>
  The portfolio accountant, \<^verbatim>\<open>PortfolioAccountant.hpp\<close> and \<^verbatim>\<open>PortfolioAccountant.cpp\<close>: the accounts of all
  symbols, venue balances, the aggregate snapshot and the view handed to risk, recovery. The vector of
  accounts is a list found by its symbol; the clock reading an operation makes is its argument \<open>now\<close>.
\<close>

section \<open>Definitions\<close>

record AssetBalance =
  ab_asset :: string
  ab_free :: qty
  ab_locked :: qty
  ab_as_of_ns :: nanos
  ab_valid :: bool

definition ab_checked_total :: "AssetBalance \<Rightarrow> qty option" where
  "ab_checked_total b = checked_add (ab_free b) (ab_locked b)"

record PortfolioSnapshot =
  sn_valid :: bool
  sn_pnl_determinate :: bool
  sn_gross_notional :: notional
  sn_net_notional :: notional
  sn_realized :: notional
  sn_unrealized :: notional
  sn_fees :: notional
  sn_funding :: notional
  sn_net_pnl :: notional
  sn_symbols_with_position :: nat
  sn_symbol_count :: nat
  sn_sequence :: nat
  sn_as_of_ns :: nanos
  sn_degraded :: bool

datatype AccountingMetric =
    FillsApplied | DuplicateFills | RejectedFills | Flips | Closes | MarksApplied | MarksRejected
  | StaleMarks | Overflows | Faults

record AccountingConfig =
  ac_max_mark_age_ns :: nanos
  ac_max_symbols :: nat

record Portfolio =
  po_config :: AccountingConfig
  po_accounts :: "PositionAccount list"
  po_balances :: "AssetBalance list"
  po_balance_capacity :: nat
  po_sequence :: nat
  po_metrics :: "AccountingMetric counters"

definition new_portfolio :: "AccountingConfig \<Rightarrow> Portfolio" where
  "new_portfolio cfg = \<lparr>po_config = cfg, po_accounts = [], po_balances = [],
     po_balance_capacity = ac_max_symbols cfg * 2, po_sequence = 0, po_metrics = zero_counters\<rparr>"

definition account_index :: "Portfolio \<Rightarrow> string \<Rightarrow> nat option" where
  "account_index po symbol = find_index (\<lambda>a. pa_symbol a = symbol) (po_accounts po)"

definition find_account :: "Portfolio \<Rightarrow> string \<Rightarrow> PositionAccount option" where
  "find_account po symbol = find (\<lambda>a. pa_symbol a = symbol) (po_accounts po)"

definition register_symbol :: "Portfolio \<Rightarrow> string \<Rightarrow> Portfolio \<times> AccountingError" where
  "register_symbol po symbol =
     (if symbol = [] then (po, AeUnknownSymbol)
      else if find_account po symbol \<noteq> None then (po, AeNone)
      else if length (po_accounts po) \<ge> ac_max_symbols (po_config po) then (po, AeCapacityExhausted)
      else (po\<lparr>po_accounts := po_accounts po @ [new_account symbol]\<rparr>, AeNone))"

definition po_count :: "Portfolio \<Rightarrow> AccountingMetric \<Rightarrow> Portfolio" where
  "po_count po c = po\<lparr>po_metrics := bump (po_metrics po) c\<rparr>"

definition on_fill :: "Portfolio \<Rightarrow> FillEvent \<Rightarrow> Portfolio \<times> FillOutcome" where
  "on_fill po fill =
     (case account_index po (fill_symbol fill) of
        None \<Rightarrow> (po_count po RejectedFills, fill_refused AeUnknownSymbol)
      | Some i \<Rightarrow>
          (let (a, outcome) = acct_apply_fill (po_accounts po ! i) (fill_trade_id fill) (fill_side fill)
                 (fill_price fill) (fill_quantity fill) (fill_fee fill);
               po1 = po\<lparr>po_accounts := (po_accounts po)[i := a]\<rparr>
           in case fo_error outcome of
                AeNone \<Rightarrow>
                  (let po2 = po_count po1 FillsApplied;
                       po3 = (if fo_flipped outcome then po_count po2 Flips else po2);
                       po4 = (if fo_closed outcome then po_count po3 Closes else po3)
                   in (po4\<lparr>po_sequence := inc64 (po_sequence po4)\<rparr>, outcome))
              | AeDuplicateFill \<Rightarrow> (po_count po1 DuplicateFills, outcome)
              | AeArithmeticOverflow \<Rightarrow>
                  (let po2 = po_count (po_count (po_count po1 Overflows) RejectedFills) Faults
                   in (po2\<lparr>po_accounts := (po_accounts po2)[i := acct_fault a]\<rparr>, outcome))
              | _ \<Rightarrow> (po_count po1 RejectedFills, outcome)))"

definition on_mark :: "Portfolio \<Rightarrow> nanos \<Rightarrow> MarkPrice \<Rightarrow> Portfolio \<times> AccountingError" where
  "on_mark po now mark =
     (case account_index po (mp_symbol mark) of
        None \<Rightarrow> (po_count po MarksRejected, AeUnknownSymbol)
      | Some i \<Rightarrow>
          (let (a, e) = acct_apply_mark (po_accounts po ! i) mark now (ac_max_mark_age_ns (po_config po));
               po1 = po\<lparr>po_accounts := (po_accounts po)[i := a]\<rparr>
           in if e = AeNone then
                (let po2 = po_count po1 MarksApplied in (po2\<lparr>po_sequence := inc64 (po_sequence po2)\<rparr>, e))
              else (po_count (if e = AeStaleMark then po_count po1 StaleMarks else po1) MarksRejected, e)))"

definition on_balance :: "Portfolio \<Rightarrow> nanos \<Rightarrow> BalanceUpdateEvent \<Rightarrow> Portfolio \<times> AccountingError" where
  "on_balance po now u =
     (if bal_asset u = [] then (po, AeUnknownSymbol)
      else if bal_free u < 0 \<or> bal_locked u < 0 then (po, AeInvalidQuantity)
      else case find_index (\<lambda>b. ab_asset b = bal_asset u) (po_balances po) of
             Some i \<Rightarrow>
               (po\<lparr>po_balances := (po_balances po)[i := (po_balances po ! i)
                     \<lparr>ab_free := bal_free u, ab_locked := bal_locked u, ab_as_of_ns := now, ab_valid := True\<rparr>]\<rparr>,
                AeNone)
           | None \<Rightarrow>
               if length (po_balances po) \<ge> po_balance_capacity po then (po, AeCapacityExhausted)
               else (po\<lparr>po_balances := po_balances po @
                       [\<lparr>ab_asset = bal_asset u, ab_free = bal_free u, ab_locked = bal_locked u,
                         ab_as_of_ns = now, ab_valid = True\<rparr>]\<rparr>, AeNone))"

definition balance :: "Portfolio \<Rightarrow> string \<Rightarrow> AssetBalance option" where
  "balance po asset = find (\<lambda>b. ab_asset b = asset) (po_balances po)"

definition degraded :: "Portfolio \<Rightarrow> bool" where
  "degraded po \<longleftrightarrow> list_ex pa_faulted (po_accounts po)"

definition position_snapshot :: "Portfolio \<Rightarrow> nanos \<Rightarrow> string \<Rightarrow> PositionSnapshot" where
  "position_snapshot po now symbol =
     (let s0 = \<lparr>ps_valid = False, ps_symbol = symbol, ps_quantity = 0, ps_notional = 0,
                ps_average_price = 0, ps_as_of_ns = 0, ps_sequence = 0\<rparr>
      in case find_account po symbol of
           None \<Rightarrow> s0
         | Some a \<Rightarrow>
             if pa_faulted a then s0
             else s0\<lparr>ps_valid := True, ps_quantity := pa_position a, ps_average_price := pa_average_price a,
                     ps_notional := (case checked_cost_basis a of Some c \<Rightarrow> c | None \<Rightarrow> 0),
                     ps_as_of_ns := now, ps_sequence := po_sequence po\<rparr>)"

text \<open>One iteration of the aggregation loop; a \<open>continue\<close> of the source ends the step.\<close>

definition snap_fail :: "PortfolioSnapshot \<Rightarrow> PortfolioSnapshot" where
  "snap_fail s = s\<lparr>sn_degraded := True, sn_valid := False, sn_pnl_determinate := False\<rparr>"

definition snap_add_net :: "PortfolioSnapshot \<Rightarrow> PositionAccount \<Rightarrow> PortfolioSnapshot" where
  "snap_add_net s a =
     (let price = (if pa_last_mark a > 0 then pa_last_mark a else pa_average_price a)
      in case checked_notional_of price (pa_position a) of
           None \<Rightarrow> s
         | Some v \<Rightarrow> (case checked_add (sn_net_notional s) v of
                       None \<Rightarrow> s\<lparr>sn_degraded := True, sn_valid := False\<rparr>
                     | Some n \<Rightarrow> s\<lparr>sn_net_notional := n\<rparr>))"

definition snap_add_pnl :: "PortfolioSnapshot \<Rightarrow> PositionAccount \<Rightarrow> PortfolioSnapshot" where
  "snap_add_pnl s a =
     (let p = acct_pnl a
      in case checked_add (sn_realized s) (pnl_realized p) of
           None \<Rightarrow> snap_fail s
         | Some r \<Rightarrow>
        (let s1 = s\<lparr>sn_realized := r\<rparr>
         in case checked_add (sn_fees s1) (pnl_fees p) of
              None \<Rightarrow> snap_fail s1
            | Some f \<Rightarrow>
           (let s2 = s1\<lparr>sn_fees := f\<rparr>
            in if \<not> pnl_unrealized_valid p then s2\<lparr>sn_pnl_determinate := False\<rparr>
               else case checked_add (sn_unrealized s2) (pnl_unrealized p) of
                      None \<Rightarrow> snap_fail s2
                    | Some u \<Rightarrow> s2\<lparr>sn_unrealized := u\<rparr>)))"

definition snap_add :: "PortfolioSnapshot \<Rightarrow> PositionAccount \<Rightarrow> PortfolioSnapshot" where
  "snap_add s a =
     (if pa_faulted a then snap_fail s
      else
        let s1 = (if pa_position a \<noteq> 0 then s\<lparr>sn_symbols_with_position := sn_symbols_with_position s + 1\<rparr> else s)
        in case checked_gross_exposure a of
             None \<Rightarrow> snap_fail s1
           | Some gross \<Rightarrow>
               (case checked_add (sn_gross_notional s1) (saturating_abs gross) of
                  None \<Rightarrow> snap_fail s1
                | Some g \<Rightarrow> snap_add_pnl (snap_add_net (s1\<lparr>sn_gross_notional := g\<rparr>) a) a))"

definition portfolio_snapshot :: "Portfolio \<Rightarrow> nanos \<Rightarrow> PortfolioSnapshot" where
  "portfolio_snapshot po now =
     (let s0 = \<lparr>sn_valid = True, sn_pnl_determinate = True, sn_gross_notional = 0, sn_net_notional = 0,
                sn_realized = 0, sn_unrealized = 0, sn_fees = 0, sn_funding = 0, sn_net_pnl = 0,
                sn_symbols_with_position = 0, sn_symbol_count = length (po_accounts po),
                sn_sequence = po_sequence po, sn_as_of_ns = now, sn_degraded = False\<rparr>;
          s = foldl snap_add s0 (po_accounts po);
          total_pnl = \<lparr>pnl_realized = sn_realized s, pnl_unrealized = sn_unrealized s, pnl_fees = sn_fees s,
                   pnl_funding = sn_funding s, pnl_unrealized_valid = True\<rparr>
      in case pnl_checked_net total_pnl of
           None \<Rightarrow> (snap_fail s)\<lparr>sn_net_pnl := 0\<rparr>
         | Some n \<Rightarrow> s\<lparr>sn_net_pnl := n\<rparr>)"

definition risk_view :: "Portfolio \<Rightarrow> nanos \<Rightarrow> PortfolioState" where
  "risk_view po now =
     (let s = portfolio_snapshot po now
      in \<lparr>pf_valid = sn_valid s, pf_pnl_determinate = sn_pnl_determinate s,
          pf_gross_notional = sn_gross_notional s, pf_net_notional = sn_net_notional s,
          pf_realized = sn_realized s, pf_unrealized = sn_unrealized s, pf_fees = sn_fees s,
          pf_net_pnl = sn_net_pnl s, pf_as_of_ns = sn_as_of_ns s, pf_sequence = sn_sequence s\<rparr>)"

record RecoveryState =
  rs_sequence :: nat
  rs_accounts :: "AccountState list"
  rs_balances :: "AssetBalance list"

definition portfolio_save :: "Portfolio \<Rightarrow> RecoveryState" where
  "portfolio_save po = \<lparr>rs_sequence = po_sequence po, rs_accounts = map acct_save (po_accounts po),
     rs_balances = po_balances po\<rparr>"

text \<open>The restore loop: the accounts restored so far, or the first error.\<close>

fun restore_accounts :: "AccountState list \<Rightarrow> PositionAccount list \<Rightarrow> PositionAccount list + AccountingError" where
  "restore_accounts [] acc = Inl acc"
| "restore_accounts (s # ss) acc =
     (let (a, e) = acct_restore (new_account []) s
      in if e \<noteq> AeNone then Inr e else restore_accounts ss (acc @ [a]))"

definition portfolio_restore :: "Portfolio \<Rightarrow> RecoveryState \<Rightarrow> Portfolio \<times> AccountingError" where
  "portfolio_restore po st =
     (if po_accounts po \<noteq> [] then (po, AeCorruptSnapshot)
      else if length (rs_accounts st) > ac_max_symbols (po_config po) then (po, AeCapacityExhausted)
      else case restore_accounts (rs_accounts st) [] of
             Inr e \<Rightarrow> (po\<lparr>po_accounts := []\<rparr>, e)
           | Inl accounts \<Rightarrow>
               (po\<lparr>po_accounts := accounts, po_balances := rs_balances st,
                  po_balance_capacity := max (po_balance_capacity po) (length (rs_balances st)),
                  po_sequence := rs_sequence st\<rparr>, AeNone))"

section \<open>Aggregation\<close>

definition mark_or_cost :: "PositionAccount \<Rightarrow> px" where
  "mark_or_cost a = (if pa_last_mark a > 0 then pa_last_mark a else pa_average_price a)"

text \<open>Signed and absolute market value of one account, in units of 1e-8.\<close>

definition signed_value :: "PositionAccount \<Rightarrow> notional" where
  "signed_value a = (mark_or_cost a * pa_position a) sdiv kScale"

definition gross_value :: "PositionAccount \<Rightarrow> notional" where
  "gross_value a = (mark_or_cost a * \<bar>pa_position a\<bar>) sdiv kScale"

lemma sdiv_kScale_nonneg: "0 \<le> x \<Longrightarrow> 0 \<le> x sdiv kScale"
  by (simp add: sdiv_nonneg pos_imp_zdiv_nonneg_iff)

lemma checked_gross_exposure_Some:
  assumes "checked_gross_exposure a = Some g" and "pa_position a \<noteq> INT64_MIN"
  shows "g = gross_value a \<and> 0 \<le> g \<and> saturating_abs g = g
    \<and> checked_notional_of (mark_or_cost a) (pa_position a) = Some (signed_value a)"
proof (cases "pa_position a = 0")
  case True
  with assms show ?thesis
    by (auto simp: checked_gross_exposure_def gross_value_def signed_value_def saturating_abs_def checked_simps)
next
  case False
  let ?q = "pa_position a" and ?m = "mark_or_cost a"
  from False assms(1) have pos: "0 < ?m" and n: "abs_notional ?m ?q = Some g"
    by (auto simp: checked_gross_exposure_def mark_or_cost_def Let_def split: if_splits)
  from n assms(2) have g: "g = (?m * \<bar>?q\<bar>) sdiv kScale" "in64 g"
    unfolding abs_notional_def saturating_abs_eq [OF assms(2)] checked_notional_of_Some_iff by blast+
  have g0: "0 \<le> g" unfolding g using pos by (intro sdiv_kScale_nonneg) simp
  then have sat: "saturating_abs g = g" by (simp add: saturating_abs_def)
  have "signed_value a = g \<or> signed_value a = - g"
    unfolding g signed_value_def by (cases "0 \<le> ?q") (simp_all add: abs_if sdiv_minus_left)
  with g(2) g0 have "in64 (signed_value a)" by (auto simp: in64_def)
  with g g0 sat show ?thesis by (simp add: gross_value_def signed_value_def checked_simps)
qed

lemma snap_fail_valid [simp]: "\<not> sn_valid (snap_fail s)" "\<not> sn_pnl_determinate (snap_fail s)"
  by (simp_all add: snap_fail_def)

text \<open>One aggregation step of a snapshot that stays valid adds the account exactly.\<close>

lemma snap_add_valid:
  assumes "sn_valid (snap_add s a)" and "pa_position a \<noteq> INT64_MIN"
  shows "sn_valid s" and "\<not> pa_faulted a"
    and "sn_gross_notional (snap_add s a) = sn_gross_notional s + gross_value a"
    and "sn_net_notional (snap_add s a) = sn_net_notional s + signed_value a"
    and "sn_realized (snap_add s a) = sn_realized s + pa_realized a"
    and "sn_fees (snap_add s a) = sn_fees s + pa_fees a"
    and "sn_funding (snap_add s a) = sn_funding s"
    and "sn_pnl_determinate (snap_add s a) \<Longrightarrow> sn_pnl_determinate s \<and> pa_unrealized_valid a
      \<and> sn_unrealized (snap_add s a) = sn_unrealized s + pa_unrealized a"
proof -
  let ?s1 = "if pa_position a \<noteq> 0 then s\<lparr>sn_symbols_with_position := sn_symbols_with_position s + 1\<rparr> else s"
  from assms(1) obtain g0 where nf: "\<not> pa_faulted a" and g0: "checked_gross_exposure a = Some g0"
    by (auto simp: snap_add_def Let_def split: if_splits option.splits)
  note ge = checked_gross_exposure_Some [OF g0 assms(2)]
  have g0': "checked_gross_exposure a = Some (gross_value a)" and sat: "saturating_abs (gross_value a) = gross_value a"
    using g0 ge by auto
  from assms(1) nf obtain g where g: "checked_add (sn_gross_notional s) (gross_value a) = Some g"
    by (auto simp: snap_add_def Let_def g0' sat split: if_splits option.splits)
  define s2 where "s2 = ?s1\<lparr>sn_gross_notional := g\<rparr>"
  have eq: "snap_add s a = snap_add_pnl (snap_add_net s2 a) a"
    using nf by (simp add: snap_add_def Let_def s2_def g0' sat g)
  define s3 where "s3 = snap_add_net s2 a"
  have s3: "s3 = (case checked_add (sn_net_notional s2) (signed_value a) of
      None \<Rightarrow> s2\<lparr>sn_degraded := True, sn_valid := False\<rparr> | Some n \<Rightarrow> s2\<lparr>sn_net_notional := n\<rparr>)"
    using ge by (simp add: s3_def snap_add_net_def mark_or_cost_def [symmetric])
  have v: "sn_valid s3" using assms(1) unfolding eq s3_def [symmetric]
    by (auto simp: snap_add_pnl_def Let_def split: option.splits if_splits)
  with s3 have n: "s3 = s2\<lparr>sn_net_notional := sn_net_notional s2 + signed_value a\<rparr>"
    by (auto simp: checked_simps split: option.splits)
  have g': "g = sn_gross_notional s + gross_value a" using g by (simp add: checked_simps)
  have base: "sn_valid s" "sn_gross_notional s3 = sn_gross_notional s + gross_value a"
    "sn_net_notional s3 = sn_net_notional s + signed_value a" "sn_realized s3 = sn_realized s"
    "sn_fees s3 = sn_fees s" "sn_funding s3 = sn_funding s" "sn_unrealized s3 = sn_unrealized s"
    "sn_pnl_determinate s3 = sn_pnl_determinate s"
    using v n g' by (simp_all add: s2_def split: if_splits)
  have pnl: "sn_gross_notional (snap_add s a) = sn_gross_notional s3 \<and> sn_net_notional (snap_add s a) = sn_net_notional s3
    \<and> sn_realized (snap_add s a) = sn_realized s3 + pa_realized a \<and> sn_fees (snap_add s a) = sn_fees s3 + pa_fees a
    \<and> sn_funding (snap_add s a) = sn_funding s3
    \<and> (sn_pnl_determinate (snap_add s a) \<longrightarrow> sn_pnl_determinate s3 \<and> pa_unrealized_valid a
        \<and> sn_unrealized (snap_add s a) = sn_unrealized s3 + pa_unrealized a)"
    using assms(1) unfolding eq s3_def [symmetric] snap_add_pnl_def Let_def
    by (simp add: acct_pnl_def checked_simps split: option.splits if_splits)
  show "sn_valid s" "\<not> pa_faulted a" by fact+
  show "sn_gross_notional (snap_add s a) = sn_gross_notional s + gross_value a"
    and "sn_net_notional (snap_add s a) = sn_net_notional s + signed_value a"
    and "sn_realized (snap_add s a) = sn_realized s + pa_realized a"
    and "sn_fees (snap_add s a) = sn_fees s + pa_fees a"
    and "sn_funding (snap_add s a) = sn_funding s"
    and "sn_pnl_determinate (snap_add s a) \<Longrightarrow> sn_pnl_determinate s \<and> pa_unrealized_valid a
      \<and> sn_unrealized (snap_add s a) = sn_unrealized s + pa_unrealized a"
    using pnl base by simp_all
qed

lemma snap_fold_valid:
  assumes "sn_valid (foldl snap_add s as)" and "\<forall>a\<in>set as. pa_position a \<noteq> INT64_MIN"
  shows "sn_valid s \<and> (\<forall>a\<in>set as. \<not> pa_faulted a)
    \<and> sn_gross_notional (foldl snap_add s as) = sn_gross_notional s + sum_list (map gross_value as)
    \<and> sn_net_notional (foldl snap_add s as) = sn_net_notional s + sum_list (map signed_value as)
    \<and> sn_realized (foldl snap_add s as) = sn_realized s + sum_list (map pa_realized as)
    \<and> sn_fees (foldl snap_add s as) = sn_fees s + sum_list (map pa_fees as)
    \<and> sn_funding (foldl snap_add s as) = sn_funding s
    \<and> (sn_pnl_determinate (foldl snap_add s as) \<longrightarrow> sn_pnl_determinate s \<and> (\<forall>a\<in>set as. pa_unrealized_valid a)
        \<and> sn_unrealized (foldl snap_add s as) = sn_unrealized s + sum_list (map pa_unrealized as))"
  using assms
proof (induction as arbitrary: s)
  case Nil
  then show ?case by simp
next
  case (Cons a as)
  from Cons.IH [of "snap_add s a"] Cons.prems have v: "sn_valid (snap_add s a)" by simp
  have a: "pa_position a \<noteq> INT64_MIN" using Cons.prems by simp
  from Cons.IH [of "snap_add s a"] Cons.prems snap_add_valid [OF v a] show ?case
    by (simp add: add.assoc)
qed

lemma snap_add_invalid: "\<not> sn_valid s \<or> pa_faulted a \<Longrightarrow> \<not> sn_valid (snap_add s a)"
  by (auto simp: snap_add_def snap_add_net_def snap_add_pnl_def Let_def split: option.splits if_splits)

lemma snap_fold_faulted: "sn_valid (foldl snap_add s as) \<Longrightarrow> sn_valid s \<and> (\<forall>a\<in>set as. \<not> pa_faulted a)"
proof (induction as arbitrary: s)
  case Nil
  then show ?case by simp
next
  case (Cons a as)
  then have "sn_valid (snap_add s a)" "\<forall>a\<in>set as. \<not> pa_faulted a" by simp_all
  with snap_add_invalid [of s a] show ?case by auto
qed

lemma risk_view_faulted:
  assumes "a \<in> set (po_accounts po)" and "pa_faulted a"
  shows "\<not> pf_valid (risk_view po now)"
proof
  assume "pf_valid (risk_view po now)"
  then obtain s where "sn_valid (foldl snap_add s (po_accounts po))"
    by (auto simp: risk_view_def portfolio_snapshot_def Let_def snap_fail_def split: option.splits)
  with assms snap_fold_faulted show False by blast
qed

section \<open>The portfolio invariant\<close>

definition portfolio_inv :: "Portfolio \<Rightarrow> bool" where
  [inv_defs]: "portfolio_inv po \<longleftrightarrow> (\<forall>a\<in>set (po_accounts po). acct_inv a)
     \<and> distinct (map pa_symbol (po_accounts po))
     \<and> length (po_accounts po) \<le> ac_max_symbols (po_config po)
     \<and> length (po_balances po) \<le> po_balance_capacity po"

lemma po_count_simps [simp]:
  "po_accounts (po_count po c) = po_accounts po" "po_config (po_count po c) = po_config po"
  "po_balances (po_count po c) = po_balances po" "po_balance_capacity (po_count po c) = po_balance_capacity po"
  "po_sequence (po_count po c) = po_sequence po" "po_metrics (po_count po c) = bump (po_metrics po) c"
  by (simp_all add: po_count_def)

lemma find_account_index:
  "find_account po s = map_option (\<lambda>i. po_accounts po ! i) (account_index po s)"
  by (simp add: find_account_def account_index_def find_Some_find_index split: option.splits)

lemma account_index_Some:
  "account_index po s = Some i \<Longrightarrow> i < length (po_accounts po) \<and> pa_symbol (po_accounts po ! i) = s"
  unfolding account_index_def by (drule find_index_Some) simp

lemma acct_apply_fill_symbol [simp]: "pa_symbol (fst (acct_apply_fill a t s p q f)) = pa_symbol a"
  by (cases rule: acct_apply_fill_cases [of a t s p q f]) simp_all

lemma acct_apply_mark_fixed [simp]:
  "pa_symbol (fst (acct_apply_mark a m now age)) = pa_symbol a"
  "pa_position (fst (acct_apply_mark a m now age)) = pa_position a"
  "pa_average_price (fst (acct_apply_mark a m now age)) = pa_average_price a"
  "pa_realized (fst (acct_apply_mark a m now age)) = pa_realized a"
  "pa_fees (fst (acct_apply_mark a m now age)) = pa_fees a"
  "pa_faulted (fst (acct_apply_mark a m now age)) = pa_faulted a"
  by (simp_all add: acct_apply_mark_def Let_def split: option.splits)

text \<open>What \<open>on_fill\<close> does to the accounts: nothing, or one account is replaced.\<close>

lemma on_fill_accounts:
  "po_accounts (fst (on_fill po f)) =
     (case account_index po (fill_symbol f) of
        None \<Rightarrow> po_accounts po
      | Some i \<Rightarrow>
          (let r = acct_apply_fill (po_accounts po ! i) (fill_trade_id f) (fill_side f) (fill_price f)
                     (fill_quantity f) (fill_fee f)
           in (po_accounts po)[i := (if fo_error (snd r) = AeArithmeticOverflow then acct_fault (fst r) else fst r)]))"
  "snd (on_fill po f) =
     (case account_index po (fill_symbol f) of
        None \<Rightarrow> fill_refused AeUnknownSymbol
      | Some i \<Rightarrow> snd (acct_apply_fill (po_accounts po ! i) (fill_trade_id f) (fill_side f) (fill_price f)
                     (fill_quantity f) (fill_fee f)))"
  by (simp_all add: on_fill_def Let_def split: option.splits prod.splits AccountingError.splits)

lemma on_fill_frame [simp]:
  "po_config (fst (on_fill po f)) = po_config po" "po_balances (fst (on_fill po f)) = po_balances po"
  "po_balance_capacity (fst (on_fill po f)) = po_balance_capacity po"
  by (simp_all add: on_fill_def Let_def split: option.splits prod.splits AccountingError.splits)

lemma replace_account_inv:
  assumes "portfolio_inv po" and "i < length (po_accounts po)" and "acct_inv a"
    and "pa_symbol a = pa_symbol (po_accounts po ! i)"
    and "po_accounts po' = (po_accounts po)[i := a]" and "po_config po' = po_config po"
    and "po_balances po' = po_balances po" and "po_balance_capacity po' = po_balance_capacity po"
  shows "portfolio_inv po'"
proof -
  have "map pa_symbol (po_accounts po') = map pa_symbol (po_accounts po)"
    using assms(2,4,5) by (simp add: map_update list_update_same_conv)
  moreover have "\<forall>x\<in>set (po_accounts po'). acct_inv x"
    unfolding assms(5) using assms(1,3) by (intro list_update_forall) (simp_all add: portfolio_inv_def)
  ultimately show ?thesis using assms by (simp add: portfolio_inv_def)
qed

lemma on_fill_inv:
  assumes "portfolio_inv po" and "in64 (fill_price f)" and "in64 (fill_quantity f)"
  shows "portfolio_inv (fst (on_fill po f))"
proof (cases "account_index po (fill_symbol f)")
  case None
  then have "po_accounts (fst (on_fill po f)) = po_accounts po" by (simp add: on_fill_accounts)
  with assms(1) show ?thesis by (simp add: portfolio_inv_def)
next
  case (Some i)
  note i = account_index_Some [OF Some]
  let ?r = "acct_apply_fill (po_accounts po ! i) (fill_trade_id f) (fill_side f) (fill_price f) (fill_quantity f) (fill_fee f)"
  have "acct_inv (fst ?r)" using assms i by (auto simp: portfolio_inv_def intro!: acct_apply_fill_inv)
  then have "acct_inv (if fo_error (snd ?r) = AeArithmeticOverflow then acct_fault (fst ?r) else fst ?r)"
    by (simp add: acct_inv_def acct_fault_def checked_cost_basis_def)
  from replace_account_inv [OF assms(1) _ this, of i "fst (on_fill po f)"] i Some show ?thesis
    by (simp add: on_fill_accounts Let_def acct_fault_def)
qed

lemma on_mark_accounts:
  "po_accounts (fst (on_mark po now m)) =
     (case account_index po (mp_symbol m) of
        None \<Rightarrow> po_accounts po
      | Some i \<Rightarrow> (po_accounts po)[i := fst (acct_apply_mark (po_accounts po ! i) m now
                    (ac_max_mark_age_ns (po_config po)))])"
  "po_config (fst (on_mark po now m)) = po_config po" "po_balances (fst (on_mark po now m)) = po_balances po"
  "po_balance_capacity (fst (on_mark po now m)) = po_balance_capacity po"
  by (simp_all add: on_mark_def Let_def split: option.splits prod.splits)

lemma on_mark_inv:
  assumes "portfolio_inv po" and "in64 (mp_bid m)" and "in64 (mp_ask m)"
  shows "portfolio_inv (fst (on_mark po now m))"
proof (cases "account_index po (mp_symbol m)")
  case None
  with assms(1) show ?thesis by (simp add: portfolio_inv_def on_mark_accounts)
next
  case (Some i)
  note i = account_index_Some [OF Some]
  have "acct_inv (fst (acct_apply_mark (po_accounts po ! i) m now (ac_max_mark_age_ns (po_config po))))"
    using assms i by (auto simp: portfolio_inv_def intro!: acct_apply_mark_inv)
  from replace_account_inv [OF assms(1) _ this, of i "fst (on_mark po now m)"] i Some show ?thesis
    by (simp add: on_mark_accounts)
qed

lemma register_symbol_inv:
  assumes "portfolio_inv po"
  shows "portfolio_inv (fst (register_symbol po s))"
  using assms new_account_inv [of s]
  by (auto simp: register_symbol_def portfolio_inv_def find_account_def find_None_iff new_account_def)

lemma on_balance_inv: "portfolio_inv po \<Longrightarrow> portfolio_inv (fst (on_balance po now u))"
  by (auto simp: on_balance_def portfolio_inv_def split: option.splits)

lemma restore_accounts_save:
  "\<forall>a\<in>set as. acct_inv a \<Longrightarrow> restore_accounts (map acct_save as) acc
    = Inl (acc @ map (\<lambda>a. a\<lparr>pa_unrealized := 0, pa_unrealized_valid := (pa_position a = 0), pa_last_mark := 0\<rparr>) as)"
  by (induction as arbitrary: acc) (simp_all add: save_restore)

section \<open>Properties\<close>

text \<open>
  Aggregates are exact or refused: whenever the portfolio snapshot (and so the view handed to risk) says
  \<open>valid\<close>, no account is faulted and gross, net, realized and fee totals are the exact sums over all
  accounts, gross being absolute value at mark or cost; when it also says that PnL is determinate, every
  account has a usable mark, the unrealized total is exact and the net PnL is realized plus unrealized less
  fees, with no overflow anywhere.
\<close>

theorem valid_snapshot_is_exact:
  assumes "\<forall>a\<in>set (po_accounts po). pa_position a \<noteq> INT64_MIN" and "pf_valid (risk_view po now)"
  shows "\<not> degraded po
    \<and> pf_gross_notional (risk_view po now) = sum_list (map gross_value (po_accounts po))
    \<and> pf_net_notional (risk_view po now) = sum_list (map signed_value (po_accounts po))
    \<and> pf_realized (risk_view po now) = sum_list (map pa_realized (po_accounts po))
    \<and> pf_fees (risk_view po now) = sum_list (map pa_fees (po_accounts po))
    \<and> (usable_for_loss_limits (risk_view po now) \<longrightarrow>
         (\<forall>a\<in>set (po_accounts po). pa_unrealized_valid a)
       \<and> pf_unrealized (risk_view po now) = sum_list (map pa_unrealized (po_accounts po))
       \<and> pf_net_pnl (risk_view po now) = sum_list (map pa_realized (po_accounts po))
           + sum_list (map pa_unrealized (po_accounts po)) - sum_list (map pa_fees (po_accounts po)))"
proof -
  define s0 where "s0 = \<lparr>sn_valid = True, sn_pnl_determinate = True, sn_gross_notional = 0, sn_net_notional = 0,
    sn_realized = 0, sn_unrealized = 0, sn_fees = 0, sn_funding = 0, sn_net_pnl = 0,
    sn_symbols_with_position = 0, sn_symbol_count = length (po_accounts po),
    sn_sequence = po_sequence po, sn_as_of_ns = now, sn_degraded = False\<rparr>"
  define s where "s = foldl snap_add s0 (po_accounts po)"
  have snap: "portfolio_snapshot po now =
     (case pnl_checked_net \<lparr>pnl_realized = sn_realized s, pnl_unrealized = sn_unrealized s, pnl_fees = sn_fees s,
         pnl_funding = sn_funding s, pnl_unrealized_valid = True\<rparr> of
        None \<Rightarrow> (snap_fail s)\<lparr>sn_net_pnl := 0\<rparr> | Some n \<Rightarrow> s\<lparr>sn_net_pnl := n\<rparr>)"
    by (simp only: portfolio_snapshot_def Let_def s_def s0_def)
  from assms(2) obtain n where n: "portfolio_snapshot po now = s\<lparr>sn_net_pnl := n\<rparr>"
    and net: "n = sn_realized s + sn_unrealized s + sn_funding s - sn_fees s" and v: "sn_valid s"
    by (auto simp: risk_view_def snap pnl_checked_net_def checked_simps Let_def snap_fail_def split: option.splits)
  from snap_fold_valid [OF v [unfolded s_def] assms(1)] show ?thesis
    unfolding s_def [symmetric]
    by (simp add: risk_view_def n net usable_for_loss_limits_def degraded_def list_ex_iff s0_def Let_def)
qed

theorem valid_snapshot_is_exact_witness:
  "pf_valid (risk_view (fst (register_symbol (new_portfolio \<lparr>ac_max_mark_age_ns = 5, ac_max_symbols = 4\<rparr>) ''X'')) 7)
   \<and> pf_gross_notional (risk_view (fst (register_symbol (new_portfolio \<lparr>ac_max_mark_age_ns = 5, ac_max_symbols = 4\<rparr>) ''X'')) 7) = 0"
proof -
  let ?po = "fst (register_symbol (new_portfolio \<lparr>ac_max_mark_age_ns = 5, ac_max_symbols = 4\<rparr>) ''X'')"
  have v: "pf_valid (risk_view ?po 7)" by code_simp
  have a: "po_accounts ?po = [new_account ''X'']"
    by (simp add: register_symbol_def new_portfolio_def find_account_def)
  then have h: "\<forall>a\<in>set (po_accounts ?po). pa_position a \<noteq> INT64_MIN" by (simp add: new_account_def)
  from valid_snapshot_is_exact [OF h v] a v show ?thesis
    by (simp add: gross_value_def new_account_def sdiv_kScale_nonneg)
qed

text \<open>
  Fail closed: as long as any account is faulted, neither the aggregate view nor that symbol's position
  snapshot is usable, and every fill for the symbol is refused without changing any account; and an
  arithmetic overflow in a fill faults exactly that account and leaves its numbers as they were.
\<close>

theorem accounting_fails_closed:
  assumes "account_index po symbol = Some i" and "fill_symbol f = symbol"
  shows "(pa_faulted (po_accounts po ! i) \<longrightarrow>
        \<not> pf_valid (risk_view po now) \<and> \<not> ps_valid (position_snapshot po now symbol)
      \<and> fo_error (snd (on_fill po f)) = AeFaulted \<and> po_accounts (fst (on_fill po f)) = po_accounts po)
    \<and> (fo_error (snd (on_fill po f)) = AeArithmeticOverflow \<longrightarrow>
        po_accounts (fst (on_fill po f)) = (po_accounts po)[i := acct_fault (po_accounts po ! i)]
      \<and> \<not> ps_valid (position_snapshot (fst (on_fill po f)) now symbol))"
proof -
  note i = account_index_Some [OF assms(1)]
  let ?a = "po_accounts po ! i"
  let ?r = "acct_apply_fill ?a (fill_trade_id f) (fill_side f) (fill_price f) (fill_quantity f) (fill_fee f)"
  have mem: "?a \<in> set (po_accounts po)" using i by simp
  have refuse: "fo_error (snd ?r) \<noteq> AeNone \<longrightarrow> fst ?r = ?a"
    by (cases rule: acct_apply_fill_cases [of ?a "fill_trade_id f" "fill_side f" "fill_price f" "fill_quantity f" "fill_fee f"])
       (simp_all add: fill_refused_def)
  have on: "po_accounts (fst (on_fill po f)) =
      (po_accounts po)[i := (if fo_error (snd ?r) = AeArithmeticOverflow then acct_fault (fst ?r) else fst ?r)]"
    "snd (on_fill po f) = snd ?r"
    using assms by (simp_all add: on_fill_accounts Let_def)
  have ps: "\<not> ps_valid (position_snapshot po' now symbol)"
    if "po_accounts po' = (po_accounts po)[i := b]" "pa_faulted b" "pa_symbol b = symbol" for po' b
  proof -
    have "map pa_symbol (po_accounts po') = map pa_symbol (po_accounts po)"
      using that i by (simp add: map_update list_update_same_conv)
    then have "account_index po' symbol = account_index po symbol"
      unfolding account_index_def by (rule find_index_cong_map) simp
    with assms(1) that i have "find_account po' symbol = Some b" by (simp add: find_account_index)
    with that show ?thesis by (simp add: position_snapshot_def)
  qed
  show ?thesis
  proof (intro conjI impI)
    assume f: "pa_faulted ?a"
    with mem show "\<not> pf_valid (risk_view po now)" by (rule risk_view_faulted)
    show "\<not> ps_valid (position_snapshot po now symbol)"
      using ps [of po ?a] f i by simp
    show "fo_error (snd (on_fill po f)) = AeFaulted" "po_accounts (fst (on_fill po f)) = po_accounts po"
      using f i on by (simp_all add: acct_apply_fill_def fill_refused_def)
  next
    assume o': "fo_error (snd (on_fill po f)) = AeArithmeticOverflow"
    with refuse on(2) have "fst ?r = ?a" by simp
    with o' on show "po_accounts (fst (on_fill po f)) = (po_accounts po)[i := acct_fault ?a]" by simp
    then show "\<not> ps_valid (position_snapshot (fst (on_fill po f)) now symbol)"
      by (rule ps) (simp_all add: acct_fault_def i)
  qed
qed

theorem accounting_fails_closed_witness:
  "fo_error (snd (on_fill ((new_portfolio \<lparr>ac_max_mark_age_ns = 5, ac_max_symbols = 4\<rparr>)
       \<lparr>po_accounts := [acct_fault (new_account ''X'')]\<rparr>)
     \<lparr>fill_client_order_id = ''c'', fill_exchange_order_id = [], fill_trade_id = ''t'', fill_symbol = ''X'',
      fill_symbol_id = 0, fill_side = Buy, fill_price = 1, fill_quantity = 1, fill_cumulative_qty = 1,
      fill_leaves_qty = 0, fill_fee = 0, fill_fee_asset = [], fill_liquidity = Maker, fill_order_status = StFilled,
      fill_transact_ns = 0, fill_seq = 0\<rparr>))
   = AeFaulted"
  (is "fo_error (snd (on_fill ?po ?f)) = _")
proof -
  have idx: "account_index ?po ''X'' = Some 0" by (simp add: account_index_def acct_fault_def new_account_def)
  have sym: "fill_symbol ?f = ''X''" by simp
  have "pa_faulted (po_accounts ?po ! 0)" by (simp add: acct_fault_def)
  with accounting_fails_closed [OF idx sym] show ?thesis by blast
qed

text \<open>
  The portfolio is well-formed in every history: from construction, registering symbols, fills, marks
  and balance updates keep every ledger's invariant, one account per symbol and the configured bounds; fills
  and marks touch only the account of their own symbol, and a mark never changes a position, its cost
  basis, realized PnL or fees.
\<close>

theorem portfolio_invariant:
  "portfolio_inv (new_portfolio cfg)
   \<and> (portfolio_inv po \<longrightarrow> portfolio_inv (fst (register_symbol po s)) \<and> portfolio_inv (fst (on_balance po now u)))
   \<and> (portfolio_inv po \<and> in64 (fill_price f) \<and> in64 (fill_quantity f) \<longrightarrow> portfolio_inv (fst (on_fill po f)))
   \<and> (portfolio_inv po \<and> in64 (mp_bid m) \<and> in64 (mp_ask m) \<longrightarrow> portfolio_inv (fst (on_mark po now m)))
   \<and> (\<forall>j < length (po_accounts po). pa_symbol (po_accounts po ! j) \<noteq> fill_symbol f \<longrightarrow>
        po_accounts (fst (on_fill po f)) ! j = po_accounts po ! j)
   \<and> map (\<lambda>a. (pa_symbol a, pa_position a, pa_average_price a, pa_realized a, pa_fees a)) (po_accounts (fst (on_mark po now m)))
     = map (\<lambda>a. (pa_symbol a, pa_position a, pa_average_price a, pa_realized a, pa_fees a)) (po_accounts po)"
proof -
  have "po_accounts (fst (on_fill po f)) ! j = po_accounts po ! j"
    if "pa_symbol (po_accounts po ! j) \<noteq> fill_symbol f" for j
    using that account_index_Some [of po "fill_symbol f"]
    by (cases "account_index po (fill_symbol f)") (auto simp: on_fill_accounts Let_def nth_list_update)
  moreover have "map (\<lambda>a. (pa_symbol a, pa_position a, pa_average_price a, pa_realized a, pa_fees a)) (po_accounts (fst (on_mark po now m)))
     = map (\<lambda>a. (pa_symbol a, pa_position a, pa_average_price a, pa_realized a, pa_fees a)) (po_accounts po)"
    using account_index_Some [of po "mp_symbol m"]
    by (cases "account_index po (mp_symbol m)") (auto simp: on_mark_accounts map_update list_update_same_conv)
  moreover have "portfolio_inv (new_portfolio cfg)" by (simp add: portfolio_inv_def new_portfolio_def)
  ultimately show ?thesis
    using register_symbol_inv on_balance_inv on_fill_inv on_mark_inv by blast
qed

theorem portfolio_invariant_witness:
  "portfolio_inv (fst (register_symbol (new_portfolio \<lparr>ac_max_mark_age_ns = 5, ac_max_symbols = 4\<rparr>) ''X''))"
  using portfolio_invariant [of "\<lparr>ac_max_mark_age_ns = 5, ac_max_symbols = 4\<rparr>"]
    portfolio_invariant [of _ "new_portfolio \<lparr>ac_max_mark_age_ns = 5, ac_max_symbols = 4\<rparr>" "''X''"] by blast

text \<open>
  Recovery: saving a well-formed portfolio and restoring it into a fresh accountant with the same
  configuration reproduces every account (position, basis, realized PnL, fees, remembered trade ids, fault flag),
  the balances and the sequence number; only the market-dependent unrealized PnL and last mark are reset,
  to be re-established by a fresh mark.
\<close>

theorem portfolio_save_restore:
  assumes "portfolio_inv po"
  shows "portfolio_restore (new_portfolio (po_config po)) (portfolio_save po)
    = (po\<lparr>po_accounts := map (\<lambda>a. a\<lparr>pa_unrealized := 0, pa_unrealized_valid := (pa_position a = 0),
                                   pa_last_mark := 0\<rparr>) (po_accounts po),
         po_balance_capacity := max (ac_max_symbols (po_config po) * 2) (length (po_balances po)),
         po_metrics := zero_counters\<rparr>, AeNone)"
  using assms restore_accounts_save [of "po_accounts po" "[]"]
  by (simp add: portfolio_restore_def portfolio_save_def new_portfolio_def portfolio_inv_def)

theorem portfolio_save_restore_witness:
  "snd (portfolio_restore (new_portfolio \<lparr>ac_max_mark_age_ns = 5, ac_max_symbols = 4\<rparr>)
     (portfolio_save (new_portfolio \<lparr>ac_max_mark_age_ns = 5, ac_max_symbols = 4\<rparr>))) = AeNone"
proof -
  have inv: "portfolio_inv (new_portfolio \<lparr>ac_max_mark_age_ns = 5, ac_max_symbols = 4\<rparr>)"
    by (simp add: portfolio_inv_def new_portfolio_def)
  from portfolio_save_restore [OF inv] show ?thesis by (simp add: new_portfolio_def)
qed

end
