(* ===== verification/PaperProperties.thy ===== *)
theory PaperProperties
  imports PaperExecution "HOL-Library.Multiset"
begin

text \<open>
  What the simulated venue guarantees on every run: its order table is sound and never overfilled, finished orders
  stay finished, every event it produces is one the order manager accepts (with one exception, stated exactly), answers
  only ever leave through the pump and in order, and a matching pass cannot hand out more than the market displayed.
\<close>

section \<open>What the helpers leave alone\<close>

lemma pe_count_simps [simp]:
  "pe_config (pe_count v m) = pe_config v" "pe_sink (pe_count v m) = pe_sink v"
  "pe_delivered (pe_count v m) = pe_delivered v" "pe_orders (pe_count v m) = pe_orders v"
  "pe_by_client_id (pe_count v m) = pe_by_client_id v" "pe_by_exchange_id (pe_count v m) = pe_by_exchange_id v"
  "pe_books (pe_count v m) = pe_books v" "pe_pending (pe_count v m) = pe_pending v"
  "pe_in_flight (pe_count v m) = pe_in_flight v" "pe_faults (pe_count v m) = pe_faults v"
  "pe_next_ordinal (pe_count v m) = pe_next_ordinal v" "pe_seq (pe_count v m) = pe_seq v"
  "pe_processing_arrival_ns (pe_count v m) = pe_processing_arrival_ns v"
  "pe_next_exchange_seq (pe_count v m) = pe_next_exchange_seq v"
  by (simp_all add: pe_count_def pe_faults_def)

lemma inject_simps [simp]:
  "pe_sink (inject v f) = pe_sink v" "pe_delivered (inject v f) = pe_delivered v" "pe_orders (inject v f) = pe_orders v"
  "pe_by_client_id (inject v f) = pe_by_client_id v" "pe_by_exchange_id (inject v f) = pe_by_exchange_id v"
  "pe_books (inject v f) = pe_books v" "pe_pending (inject v f) = pe_pending v"
  "pe_in_flight (inject v f) = pe_in_flight v" "pe_next_ordinal (inject v f) = pe_next_ordinal v"
  "pe_seq (inject v f) = pe_seq v" "pe_processing_arrival_ns (inject v f) = pe_processing_arrival_ns v"
  "pe_next_exchange_seq (inject v f) = pe_next_exchange_seq v" "pe_faults (inject v f) = f"
  "pc_latency (pe_config (inject v f)) = pc_latency (pe_config v)"
  "pc_fill_model (pe_config (inject v f)) = pc_fill_model (pe_config v)"
  "pc_queue_share_bps (pe_config (inject v f)) = pc_queue_share_bps (pe_config v)"
  "pc_max_pending_events (pe_config (inject v f)) = pc_max_pending_events (pe_config v)"
  by (simp_all add: inject_def pe_faults_def)

lemma consume_simps [simp]:
  "pe_sink (snd (consume g p v)) = pe_sink v" "pe_delivered (snd (consume g p v)) = pe_delivered v"
  "pe_orders (snd (consume g p v)) = pe_orders v" "pe_by_client_id (snd (consume g p v)) = pe_by_client_id v"
  "pe_by_exchange_id (snd (consume g p v)) = pe_by_exchange_id v" "pe_books (snd (consume g p v)) = pe_books v"
  "pe_pending (snd (consume g p v)) = pe_pending v" "pe_in_flight (snd (consume g p v)) = pe_in_flight v"
  "pe_next_ordinal (snd (consume g p v)) = pe_next_ordinal v" "pe_seq (snd (consume g p v)) = pe_seq v"
  "pe_processing_arrival_ns (snd (consume g p v)) = pe_processing_arrival_ns v"
  "pe_next_exchange_seq (snd (consume g p v)) = pe_next_exchange_seq v"
  "pc_latency (pe_config (snd (consume g p v))) = pc_latency (pe_config v)"
  "pc_fill_model (pe_config (snd (consume g p v))) = pc_fill_model (pe_config v)"
  "pc_queue_share_bps (pe_config (snd (consume g p v))) = pc_queue_share_bps (pe_config v)"
  "pc_max_pending_events (pe_config (snd (consume g p v))) = pc_max_pending_events (pe_config v)"
  by (simp_all add: consume_def)

lemma write_order_simps [simp]:
  "pe_config (write_order v i x) = pe_config v" "pe_sink (write_order v i x) = pe_sink v"
  "pe_delivered (write_order v i x) = pe_delivered v" "pe_orders (write_order v i x) = (pe_orders v)[i := x]"
  "pe_by_client_id (write_order v i x) = pe_by_client_id v" "pe_by_exchange_id (write_order v i x) = pe_by_exchange_id v"
  "pe_pending (write_order v i x) = pe_pending v" "pe_in_flight (write_order v i x) = pe_in_flight v"
  "pe_faults (write_order v i x) = pe_faults v"
  by (simp_all add: write_order_def pe_faults_def)

lemma next_simps [simp]:
  "pe_orders (snd (next_seq v)) = pe_orders v" "pe_by_client_id (snd (next_seq v)) = pe_by_client_id v"
  "pe_by_exchange_id (snd (next_seq v)) = pe_by_exchange_id v" "pe_pending (snd (next_seq v)) = pe_pending v"
  "pe_in_flight (snd (next_seq v)) = pe_in_flight v" "pe_delivered (snd (next_seq v)) = pe_delivered v"
  "pe_sink (snd (next_seq v)) = pe_sink v" "pe_config (snd (next_seq v)) = pe_config v"
  "pe_faults (snd (next_seq v)) = pe_faults v" "pe_books (snd (next_seq v)) = pe_books v"
  "pe_orders (snd (next_exchange_id v)) = pe_orders v" "pe_by_client_id (snd (next_exchange_id v)) = pe_by_client_id v"
  "pe_by_exchange_id (snd (next_exchange_id v)) = pe_by_exchange_id v" "pe_pending (snd (next_exchange_id v)) = pe_pending v"
  "pe_in_flight (snd (next_exchange_id v)) = pe_in_flight v" "pe_delivered (snd (next_exchange_id v)) = pe_delivered v"
  "pe_sink (snd (next_exchange_id v)) = pe_sink v" "pe_config (snd (next_exchange_id v)) = pe_config v"
  "pe_faults (snd (next_exchange_id v)) = pe_faults v" "pe_books (snd (next_exchange_id v)) = pe_books v"
  "pe_orders (snd (next_trade_id v)) = pe_orders v" "pe_by_client_id (snd (next_trade_id v)) = pe_by_client_id v"
  "pe_by_exchange_id (snd (next_trade_id v)) = pe_by_exchange_id v" "pe_pending (snd (next_trade_id v)) = pe_pending v"
  "pe_in_flight (snd (next_trade_id v)) = pe_in_flight v" "pe_delivered (snd (next_trade_id v)) = pe_delivered v"
  "pe_sink (snd (next_trade_id v)) = pe_sink v" "pe_config (snd (next_trade_id v)) = pe_config v"
  "pe_faults (snd (next_trade_id v)) = pe_faults v" "pe_books (snd (next_trade_id v)) = pe_books v"
  by (simp_all add: next_seq_def next_exchange_id_def next_trade_id_def pe_faults_def)

lemma schedule_simps [simp]:
  "pe_sink (schedule ck v d ev) = pe_sink v" "pe_delivered (schedule ck v d ev) = pe_delivered v"
  "pe_orders (schedule ck v d ev) = pe_orders v" "pe_by_client_id (schedule ck v d ev) = pe_by_client_id v"
  "pe_by_exchange_id (schedule ck v d ev) = pe_by_exchange_id v" "pe_in_flight (schedule ck v d ev) = pe_in_flight v"
  "pe_books (schedule ck v d ev) = pe_books v"
  "pc_latency (pe_config (schedule ck v d ev)) = pc_latency (pe_config v)"
  "pc_fill_model (pe_config (schedule ck v d ev)) = pc_fill_model (pe_config v)"
  "pc_queue_share_bps (pe_config (schedule ck v d ev)) = pc_queue_share_bps (pe_config v)"
  by (simp_all add: schedule_def schedule_at_def Let_def case_prod_beta)

lemma schedule_pending:
  "sc_event ` set (pe_pending (schedule ck v d ev)) \<subseteq> insert ev (sc_event ` set (pe_pending v))"
  by (auto simp: schedule_def schedule_at_def Let_def case_prod_beta)

lemma emit_simps [simp]:
  "pe_orders (emit v ev) = pe_orders v" "pe_by_client_id (emit v ev) = pe_by_client_id v"
  "pe_by_exchange_id (emit v ev) = pe_by_exchange_id v" "pe_pending (emit v ev) = pe_pending v"
  "pe_in_flight (emit v ev) = pe_in_flight v" "pe_sink (emit v ev) = pe_sink v" "pe_faults (emit v ev) = pe_faults v"
  "pe_delivered (emit v ev) = (if pe_sink v then pe_delivered v @ [ev] else pe_delivered v)"
  by (simp_all add: emit_def pe_count_def pe_faults_def)

section \<open>The invariant of the venue\<close>

definition order_ok :: "PaperOrder \<Rightarrow> bool" where
  [inv_defs]: "order_ok o' \<longleftrightarrow> pv_sound o' \<and> pv_client_order_id o' \<noteq> [] \<and>
     (pv_status o' = StNew \<and> pv_cumulative_qty o' = 0 \<or> pv_status o' = StPartiallyFilled \<and> pv_cumulative_qty o' > 0
      \<or> pv_status o' = StFilled \<and> pv_cumulative_qty o' = pv_original_qty o' \<or> pv_status o' = StCanceled)"

definition tables_ok :: "PaperExecution \<Rightarrow> bool" where
  [inv_defs]: "tables_ok v \<longleftrightarrow> (\<forall>o'\<in>set (pe_orders v). order_ok o')
     \<and> (\<forall>cid i. pe_by_client_id v cid = Some i \<longrightarrow> i < length (pe_orders v) \<and> pv_client_order_id (pe_orders v ! i) = cid)
     \<and> (\<forall>eid i. pe_by_exchange_id v eid = Some i \<longrightarrow> i < length (pe_orders v) \<and> pv_exchange_order_id (pe_orders v ! i) = eid)"

definition submit_fits :: "OrderRequest \<Rightarrow> bool" where
  "submit_fits r \<longleftrightarrow> in64 (or_price r) \<and> in64 (or_quantity r)"

definition replace_fits :: "ReplaceRequest \<Rightarrow> bool" where
  "replace_fits r \<longleftrightarrow> in64 (rr_new_price r) \<and> in64 (rr_new_quantity r)"

definition request_ok :: "VenueRequest \<Rightarrow> bool" where
  [inv_defs]: "request_ok r = (case r of
     VrSubmit q \<Rightarrow> or_client_order_id q \<noteq> [] \<and> or_price q > 0 \<and> or_quantity q > 0 \<and> submit_fits q
   | VrCancel q \<Rightarrow> identifies_an_order q
   | VrReplace q \<Rightarrow> rr_new_client_order_id q \<noteq> [] \<and> rr_new_price q > 0 \<and> rr_new_quantity q > 0 \<and> replace_fits q)"

text \<open>
  An event of the venue passes the order manager's check, unless it is a refused cancel of an order that has ended
  otherwise than by filling.
\<close>

definition refused_after_end :: "ExecutionEvent \<Rightarrow> bool" where
  "refused_after_end ev = (case ev of
     EvOrderCancel e \<Rightarrow> cxl_cancel_status e = CsRejected \<and> cxl_order_status e = StCanceled
   | _ \<Rightarrow> False)"

definition event_ok :: "ExecutionEvent \<Rightarrow> bool" where
  [inv_defs]: "event_ok ev \<longleftrightarrow> is_ok (validate_execution_event ev) \<or> refused_after_end ev"

definition pe_inv :: "PaperExecution \<Rightarrow> bool" where
  [inv_defs]: "pe_inv v \<longleftrightarrow> tables_ok v \<and> (\<forall>r\<in>set (pe_in_flight v). request_ok (pr_request r))
     \<and> (\<forall>ev\<in>sc_event ` set (pe_pending v). event_ok ev) \<and> (\<forall>ev\<in>set (pe_delivered v). event_ok ev)"

lemma tables_ok_cong:
  "pe_orders v' = pe_orders v \<Longrightarrow> pe_by_client_id v' = pe_by_client_id v \<Longrightarrow> pe_by_exchange_id v' = pe_by_exchange_id v
    \<Longrightarrow> tables_ok v' = tables_ok v"
  by (simp add: tables_ok_def)

lemma pe_inv_frame [simp]:
  "pe_inv (pe_count v m) = pe_inv v" "pe_inv (inject v f) = pe_inv v" "pe_inv (snd (consume g p v)) = pe_inv v"
  "pe_inv (snd (next_seq v)) = pe_inv v" "pe_inv (snd (next_exchange_id v)) = pe_inv v"
  "pe_inv (snd (next_trade_id v)) = pe_inv v" "pe_inv (v\<lparr>pe_processing_arrival_ns := t\<rparr>) = pe_inv v"
  "pe_inv (v\<lparr>pe_next_arrival_seq := n\<rparr>) = pe_inv v" "pe_inv (v\<lparr>pe_authenticated := b\<rparr>) = pe_inv v"
  "pe_inv (v\<lparr>pe_books := m'\<rparr>) = pe_inv v" "pe_inv (v\<lparr>pe_book_updated_ns := m''\<rparr>) = pe_inv v"
  "pe_inv (v\<lparr>pe_sink := b\<rparr>) = pe_inv v" "pe_inv (v\<lparr>pe_started := b\<rparr>) = pe_inv v"
  "pe_inv (v\<lparr>pe_connection := c\<rparr>) = pe_inv v"
  by (simp_all add: pe_inv_def tables_ok_def)

lemma pe_inv_schedule:
  assumes "pe_inv v" and "event_ok ev"
  shows "pe_inv (schedule ck v d ev)"
  using assms schedule_pending [of ck v d ev] by (auto simp: pe_inv_def tables_ok_def)

lemma pe_inv_emit:
  "pe_inv v \<Longrightarrow> event_ok ev \<Longrightarrow> pe_inv (emit v ev)"
  by (auto simp: pe_inv_def tables_ok_def)

lemma update_same_field: "f x = f (xs ! i) \<Longrightarrow> f (xs[i := x] ! j) = f (xs ! j)"
  by (cases "i = j"; cases "i < length xs") (simp_all add: list_update_beyond)

lemma pe_inv_put:
  assumes "pe_inv v" and "order_ok x" and "pv_client_order_id x = pv_client_order_id (pe_orders v ! i)"
    and "pv_exchange_order_id x = pv_exchange_order_id (pe_orders v ! i)"
  shows "pe_inv (write_order v i x)"
  using assms list_update_forall [of "pe_orders v" order_ok x i]
  by (simp add: pe_inv_def tables_ok_def update_same_field [OF assms(3)] update_same_field [OF assms(4)])

lemma pe_inv_order:
  assumes "pe_inv v"
  shows "pe_by_client_id v cid = Some i \<Longrightarrow> i < length (pe_orders v) \<and> order_ok (pe_orders v ! i)
      \<and> pv_client_order_id (pe_orders v ! i) = cid"
    and "pe_by_exchange_id v eid = Some i \<Longrightarrow> i < length (pe_orders v) \<and> order_ok (pe_orders v ! i)"
  using assms by (auto simp: pe_inv_def tables_ok_def)

section \<open>Every operation keeps it\<close>

lemma unset_error_consistent [simp]: "is_consistent (ee_category unset_error) (ee_outcome unset_error)"
  "\<not> ee_is_error unset_error"
  by (simp_all add: unset_error_def is_consistent_def ee_is_error_def)

lemma padded11_nonempty [simp]: "padded11 n \<noteq> []"
  using uint_to_string_digits [of "int n"] by (simp add: padded11_def Let_def)

lemma next_id_nonempty [simp]: "fst (next_trade_id v) \<noteq> []" "fst (next_exchange_id v) \<noteq> []"
  by (simp_all add: next_trade_id_def next_exchange_id_def inline_assign_def Let_def)

text \<open>The shapes of event the handlers build.\<close>

lemma event_ok_cancel:
  assumes "cxl_client_order_id e \<noteq> [] \<or> cxl_exchange_order_id e \<noteq> []"
    and "0 \<le> cxl_cumulative_qty e" and "0 \<le> cxl_leaves_qty e"
    and "cxl_cancel_status e = CsRejected \<Longrightarrow> cxl_order_status e \<notin> {StRejected, StExpired}"
    and "is_consistent (ee_category (cxl_error e)) (ee_outcome (cxl_error e))"
  shows "event_ok (EvOrderCancel e)"
  using assms by (auto simp: event_ok_def refused_after_end_def validate_execution_event_def status_is_terminal_def)

lemma event_ok_replace:
  assumes "rpl_new_client_order_id e \<noteq> []" and "\<not> (rpl_accepted e \<and> ee_is_error (rpl_error e))"
    and "is_consistent (ee_category (rpl_error e)) (ee_outcome (rpl_error e))"
  shows "event_ok (EvOrderReplace e)"
  using assms by (auto simp: event_ok_def validate_execution_event_def)

lemma event_ok_fill:
  assumes "fill_client_order_id e \<noteq> []" and "fill_trade_id e \<noteq> []" and "0 < fill_quantity e" and "0 < fill_price e"
    and "fill_quantity e \<le> fill_cumulative_qty e" and "0 \<le> fill_leaves_qty e"
  shows "event_ok (EvFill e)"
  using assms by (simp add: event_ok_def validate_execution_event_def)

lemma rejection_outcome [simp]:
  "ee_outcome (make_error ExchangeRejectionErr OutRejected reason code retry) = OutRejected"
  "ee_outcome (make_error TransportErr OutUnknown reason code retry) = OutUnknown"
  "ee_outcome (make_error UnknownOrderStateErr OutUnknown reason code retry) = OutUnknown"
  "is_consistent UnknownOrderStateErr OutUnknown" "is_consistent ExchangeRejectionErr OutRejected"
  "is_consistent TransportErr OutUnknown" "is_consistent InvalidRequestErr OutRejected"
  "ee_outcome (make_error InvalidRequestErr OutRejected reason code retry) = OutRejected"
  by (simp_all add: make_error_def is_consistent_def)

lemma order_ok_remaining:
  assumes "order_ok o'"
  shows "0 \<le> pv_remaining o'" "pv_remaining o' = pv_original_qty o' - pv_cumulative_qty o'" "0 \<le> pv_cumulative_qty o'"
  using assms by (auto simp: order_ok_def) (auto simp: pv_sound_def)

lemma apply_match_filled:
  assumes "order_ok o'" and "pv_is_resting o'" and "0 < mr_quantity m" and "mr_quantity m \<le> pv_remaining o'"
  shows "order_ok (apply_match o' m t) \<and> pv_cumulative_qty (apply_match o' m t) = pv_cumulative_qty o' + mr_quantity m"
proof -
  have s: "pv_sound o'" using assms(1) by (simp add: order_ok_def)
  then have q: "pv_cumulative_qty o' + mr_quantity m \<le> pv_original_qty o'" "0 \<le> pv_cumulative_qty o'"
    using assms(4) by (auto simp: pv_sound_def)
  have "checked_add (pv_cumulative_qty o') (mr_quantity m) = Some (pv_cumulative_qty o' + mr_quantity m)"
    using q s assms(3) by (auto simp: checked_simps pv_sound_def in64_def)
  moreover have "pv_sound (o'\<lparr>pv_cumulative_qty := pv_cumulative_qty o' + mr_quantity m, pv_last_event_ns := t\<rparr>)"
    using s q assms(3) by (auto simp: pv_sound_def)
  moreover from this have "pv_sound (o'\<lparr>pv_cumulative_qty := pv_cumulative_qty o' + mr_quantity m,
      pv_last_event_ns := t, pv_status := st\<rparr>)" for st
    by (simp add: pv_sound_def)
  ultimately show ?thesis
    using assms(1,3) q by (auto simp: apply_match_def order_ok_def Let_def)
qed

lemma apply_match_ids [simp]:
  "pv_client_order_id (apply_match o' m t) = pv_client_order_id o'"
  "pv_exchange_order_id (apply_match o' m t) = pv_exchange_order_id o'"
  "pv_side (apply_match o' m t) = pv_side o'" "pv_symbol (apply_match o' m t) = pv_symbol o'"
  by (simp_all add: apply_match_def Let_def split: option.splits)

lemma pe_inv_schedule_fill:
  assumes "pe_inv v" and "order_ok o'" and "0 < mr_quantity m" and "0 < mr_price m"
    and "mr_quantity m \<le> pv_cumulative_qty o'"
  shows "pe_inv (schedule_fill ck v o' m delay)"
  unfolding schedule_fill_def Let_def case_prod_beta
  by (rule pe_inv_schedule, simp add: assms, rule event_ok_fill)
     (use assms order_ok_remaining(1) [OF assms(2)] in \<open>simp_all add: order_ok_def\<close>)

text \<open>An execution: the matched order is written back and the fill is on its way.\<close>

lemma pe_inv_execute:
  assumes "pe_inv v" and "i < length (pe_orders v)" and "pv_is_resting (pe_orders v ! i)"
    and "0 < mr_quantity m" and "mr_quantity m \<le> pv_remaining (pe_orders v ! i)" and "0 < mr_price m"
    and "x = apply_match (pe_orders v ! i) m t"
  shows "pe_inv (schedule_fill ck (write_order v i x) x m delay)"
proof -
  have ok: "order_ok (pe_orders v ! i)" using assms(1,2) by (simp add: pe_inv_def tables_ok_def)
  note am = apply_match_filled [OF ok assms(3,4,5), of t, folded assms(7)]
  show ?thesis
    by (rule pe_inv_schedule_fill [OF pe_inv_put])
       (use assms am order_ok_remaining(3) [OF ok] in auto)
qed

definition store_fits :: "(nat \<Rightarrow> OrderBook) \<Rightarrow> bool" where
  "store_fits store \<longleftrightarrow> (\<forall>a. levels_fit (ob_bids (store a)) \<and> levels_fit (ob_asks (store a)))"

lemma executable_fit: "store_fits store \<Longrightarrow> levels_fit (executable_side (store a) side)"
  by (simp add: store_fits_def executable_side_def)

lemma match_resting:
  "match_and_consume o' ls model bps = (m, ls') \<Longrightarrow> 0 < mr_quantity m \<Longrightarrow> pv_is_resting o'"
  by (auto simp: match_and_consume_def split: if_splits)

lemma match_against_book_fair:
  assumes "0 < mr_quantity (match_against_book o' b model bps)" and "pv_sound o'"
    and "levels_fit (ob_bids b)" and "levels_fit (ob_asks b)"
  shows "pv_is_resting o' \<and> mr_quantity (match_against_book o' b model bps) \<le> pv_remaining o'
    \<and> 0 < mr_price (match_against_book o' b model bps) \<and> limit_permits o' (mr_price (match_against_book o' b model bps))"
proof -
  obtain r ls' where m: "match_and_consume o' (executable_side b (pv_side o')) model bps = (r, ls')"
    by (metis surj_pair)
  have fit: "levels_fit (executable_side b (pv_side o'))" using assms(3,4) by (simp add: executable_side_def)
  have "match_against_book o' b model bps = r" using assms(1) m by (auto simp: match_against_book_def split: if_splits)
  with match_and_consume_fair [OF m assms(2) fit] assms(1) show ?thesis by (simp add: fair_match_def)
qed

lemma pe_inv_take_on_arrival:
  assumes "pe_inv v" and "i < length (pe_orders v)" and "levels_fit (ob_bids b)" and "levels_fit (ob_asks b)"
  shows "pe_inv (take_on_arrival ck v i b delay)"
proof -
  have s: "pv_sound (pe_orders v ! i)" using assms(1,2) by (auto simp: pe_inv_def tables_ok_def order_ok_def)
  let ?m = "match_against_book (pe_orders v ! i) b (pc_fill_model (pe_config v)) (pc_queue_share_bps (pe_config v))"
  show ?thesis
  proof (cases "0 < mr_quantity ?m")
    case True
    from match_against_book_fair [OF True s assms(3,4)] True show ?thesis
      unfolding take_on_arrival_def Let_def
      by (simp add: pe_inv_execute [OF assms(1,2)])
  next
    case False
    with assms(1) show ?thesis by (simp add: take_on_arrival_def Let_def)
  qed
qed

lemma pe_inv_reject: "pe_inv v \<Longrightarrow> or_client_order_id req \<noteq> [] \<Longrightarrow> pe_inv (reject_order ck v req reason delay)"
  by (auto simp: reject_order_def Let_def case_prod_beta event_ok_def validate_execution_event_def intro!: pe_inv_schedule)

lemma pe_inv_expire: "pe_inv v \<Longrightarrow> or_client_order_id req \<noteq> [] \<Longrightarrow> pe_inv (expire_order ck v req eid delay)"
  unfolding expire_order_def Let_def case_prod_beta by (rule pe_inv_schedule, simp, rule event_ok_cancel) simp_all

lemma order_from_ok:
  assumes "or_client_order_id req \<noteq> []" and "0 < or_price req" and "0 < or_quantity req" and "submit_fits req"
  shows "order_ok (order_from req eid n t)"
  using assms by (simp add: order_ok_def pv_sound_def order_from_def submit_fits_def)

lemma pe_inv_rest:
  assumes "pe_inv v" and "order_ok o'"
  shows "pe_inv (rest_order ck v o' delay)"
proof -
  let ?i = "length (pe_orders v)"
  have "pe_inv (v\<lparr>pe_orders := pe_orders v @ [o'], pe_by_client_id := (pe_by_client_id v)(pv_client_order_id o' \<mapsto> ?i),
      pe_by_exchange_id := (pe_by_exchange_id v)(pv_exchange_order_id o' \<mapsto> ?i)\<rparr>)"
    using assms by (fastforce simp: pe_inv_def tables_ok_def nth_append)
  moreover have "event_ok (ack_event ck o' sq)" for sq
    using assms(2) by (simp add: ack_event_def event_ok_def validate_execution_event_def order_ok_def pv_sound_def)
  ultimately show ?thesis
    unfolding rest_order_def Let_def case_prod_beta by (intro pe_inv_schedule) simp_all
qed

lemma rest_order_length [simp]: "length (pe_orders (rest_order ck v o' delay)) = Suc (length (pe_orders v))"
  by (simp add: rest_order_def Let_def case_prod_beta)

lemma pe_inv_accept:
  assumes "pe_inv v" and "request_ok (VrSubmit req)" and "store_fits store"
  shows "pe_inv (accept_order ck store v req delay)"
proof -
  have r: "or_client_order_id req \<noteq> []" "0 < or_price req" "0 < or_quantity req" "submit_fits req"
    using assms(2) by (simp_all add: request_ok_def)
  note ok = order_from_ok [OF r]
  have rest: "pe_inv (rest_order ck w (order_from req eid n t) delay)" if "pe_inv w" for w eid n t
    by (rule pe_inv_rest [OF that ok])
  have exec: "pe_inv (take_on_arrival ck (rest_order ck w (order_from req eid n t) delay) k (store a) delay)"
    if "pe_inv w" "k = length (pe_orders w)" for w eid n t a k
    using assms(3) by (intro pe_inv_take_on_arrival pe_inv_rest [OF that(1) ok]) (simp_all add: store_fits_def that(2))
  show ?thesis
    using assms(1) r(1)
    by (auto simp: accept_order_def Let_def case_prod_beta intro!: rest exec pe_inv_reject pe_inv_expire split: option.splits)
qed

lemma pe_inv_process_submit:
  assumes "pe_inv v" and "request_ok (VrSubmit req)" and "store_fits store"
  shows "pe_inv (process_submit ck store v req delay)"
proof -
  have r: "or_client_order_id req \<noteq> []" using assms(2) by (simp add: request_ok_def)
  have "event_ok (EvRequestFailure \<lparr>rf_kind = RkSubmit, rf_client_order_id = or_client_order_id req,
      rf_exchange_order_id = [], rf_symbol = or_symbol req, rf_symbol_id = 0,
      rf_error = make_error TransportErr OutUnknown NoReason 0 False\<rparr>)"
    by (simp add: event_ok_def validate_execution_event_def is_consistent_def)
  with assms r show ?thesis
    unfolding process_submit_def Let_def case_prod_beta
    by (auto intro: pe_inv_schedule pe_inv_reject pe_inv_accept)
qed

lemma venue_cancel_target_ok:
  assumes "pe_inv v" and "venue_cancel_target v req = Some i"
  shows "i < length (pe_orders v) \<and> order_ok (pe_orders v ! i)"
  using assms pe_inv_order [OF assms(1)] by (auto simp: venue_cancel_target_def split: option.splits if_splits)

lemma cancel_event_simps [simp]:
  "cxl_client_order_id (cancel_event ck req sq) = cr_client_order_id req"
  "cxl_exchange_order_id (cancel_event ck req sq) = cr_exchange_order_id req"
  "cxl_error (cancel_event ck req sq) = unset_error" "cxl_cumulative_qty (cancel_event ck req sq) = 0"
  "cxl_leaves_qty (cancel_event ck req sq) = 0"
  by (simp_all add: cancel_event_def)

lemma order_ok_flag [simp]:
  "order_ok (o'\<lparr>pv_cancel_pending := b\<rparr>) = order_ok o'" "order_ok (o'\<lparr>pv_last_event_ns := t\<rparr>) = order_ok o'"
  "pv_remaining (o'\<lparr>pv_cancel_pending := b\<rparr>) = pv_remaining o'"
  "pv_is_terminal (o'\<lparr>pv_cancel_pending := b\<rparr>) = pv_is_terminal o'"
  by (simp_all add: order_ok_def pv_sound_def pv_remaining_def pv_is_terminal_def)

lemma order_ok_cases:
  "order_ok o' \<Longrightarrow> pv_status o' \<in> {StNew, StPartiallyFilled, StFilled, StCanceled}"
  by (auto simp: order_ok_def)

lemma pe_inv_process_cancel:
  assumes "pe_inv v" and "request_ok (VrCancel req)"
  shows "pe_inv (process_cancel ck v req delay)"
proof (cases "venue_cancel_target (snd (next_seq v)) req")
  case None
  with assms show ?thesis
    unfolding process_cancel_def Let_def case_prod_beta
    by (auto intro!: pe_inv_schedule event_ok_cancel simp: request_ok_def identifies_an_order_def)
next
  case (Some i)
  have v1: "pe_inv (snd (next_seq v))" using assms(1) by simp
  note ok = venue_cancel_target_ok [OF v1 Some]
  let ?o = "pe_orders v ! i"
  have o: "order_ok ?o" "i < length (pe_orders v)" using ok by auto
  have id: "cr_client_order_id req \<noteq> [] \<or> cr_exchange_order_id req \<noteq> []"
    using assms(2) by (auto simp: request_ok_def identifies_an_order_def)
  have put: "pe_inv (write_order (snd (consume g p (snd (next_seq v)))) i (?o\<lparr>pv_cancel_pending := True\<rparr>))" for g p
    using assms(1) o by (intro pe_inv_put) simp_all
  note rem = order_ok_remaining [OF o(1)] order_ok_cases [OF o(1)]
  have cid: "pv_client_order_id ?o \<noteq> []" using o(1) by (simp add: order_ok_def)
  show ?thesis
    unfolding process_cancel_def Let_def case_prod_beta Some option.case
    using id rem cid assms(1) put by (auto intro!: pe_inv_schedule event_ok_cancel)
qed

lemma swap_identity_inv:
  assumes "pe_inv v" and "pe_by_client_id v (rr_original_client_order_id req) = Some i"
    and "request_ok (VrReplace req)" and "pv_cumulative_qty (pe_orders v ! i) \<le> rr_new_quantity req"
  shows "pe_inv (fst (swap_identity ck v i req))"
proof -
  have i: "i < length (pe_orders v)" "order_ok (pe_orders v ! i)" using pe_inv_order(1) [OF assms(1,2)] by auto
  define x where "x = amended (pe_orders v ! i) req (fst (next_exchange_id v)) (pe_next_arrival_seq (snd (next_exchange_id v)))
    (ck_steady ck)"
  have ok: "order_ok x"
    using i(2) assms(3,4) by (auto simp: x_def amended_def order_ok_def pv_sound_def request_ok_def replace_fits_def)
  have ids: "pe_by_client_id v cid = Some i \<Longrightarrow> pv_client_order_id (pe_orders v ! i) = cid"
    "pe_by_exchange_id v eid = Some i \<Longrightarrow> pv_exchange_order_id (pe_orders v ! i) = eid" for cid eid
    using assms(1) by (auto simp: pe_inv_def tables_ok_def)
  have "tables_ok (fst (swap_identity ck v i req))"
    using assms(1) i(1) list_update_forall [of "pe_orders v" order_ok x i] ok ids
    by (auto simp: swap_identity_def Let_def case_prod_beta x_def [symmetric] pe_inv_def tables_ok_def nth_list_update
        split: if_splits)
  with assms(1) show ?thesis
    by (auto simp: pe_inv_def swap_identity_def Let_def case_prod_beta)
qed

lemma pe_inv_process_replace:
  assumes "pe_inv v" and "request_ok (VrReplace req)"
  shows "pe_inv (process_replace ck v req delay)"
proof -
  have id: "rpl_new_client_order_id (replace_event ck req sq) \<noteq> []" "rpl_error (replace_event ck req sq) = unset_error"
    "\<not> rpl_accepted (replace_event ck req sq)" for sq
    using assms(2) by (simp_all add: request_ok_def replace_event_def)
  have swap: "pe_inv (fst (swap_identity ck w i req))"
    if "pe_inv w" "pe_by_client_id w (rr_original_client_order_id req) = Some i"
      "\<not> rr_new_quantity req < pv_cumulative_qty (pe_orders w ! i)" for w i
    using that assms(2) by (intro swap_identity_inv) auto
  show ?thesis
    unfolding process_replace_def Let_def case_prod_beta
    using assms(1) id swap [of "snd (consume fa_reject_next_replace fa_reject_next_replace_update (snd (next_seq v)))"]
    by (auto intro!: pe_inv_schedule event_ok_replace split: option.split)
qed

lemma pe_inv_process_request:
  assumes "pe_inv v" and "request_ok (pr_request r)" and "store_fits store"
  shows "pe_inv (process_request ck store v r)"
  using assms by (auto simp: process_request_def Let_def intro: pe_inv_process_submit pe_inv_process_cancel
      pe_inv_process_replace split: VenueRequest.split)


section \<open>A matching pass\<close>

definition filled_on :: "Side \<Rightarrow> PaperExecution \<Rightarrow> int" where
  "filled_on side v = (\<Sum>o'\<leftarrow>pe_orders v. if pv_side o' = side then pv_cumulative_qty o' else 0)"

lemma sum_list_put:
  fixes f :: "'a \<Rightarrow> int"
  shows "i < length xs \<Longrightarrow> (\<Sum>x\<leftarrow>xs[i := y]. f x) = (\<Sum>x\<leftarrow>xs. f x) + f y - f (xs ! i)"
  by (induction xs arbitrary: i) (auto split: nat.split)

lemma schedule_fill_simps [simp]:
  "pe_orders (schedule_fill ck v x m d) = pe_orders v" "pe_delivered (schedule_fill ck v x m d) = pe_delivered v"
  "pe_in_flight (schedule_fill ck v x m d) = pe_in_flight v"
  "pc_fill_model (pe_config (schedule_fill ck v x m d)) = pc_fill_model (pe_config v)"
  by (simp_all add: schedule_fill_def Let_def case_prod_beta)

text \<open>What one step of the pass keeps: the invariant, the ladders, and on each side displayed plus filled.\<close>

definition pass_ok :: "PaperExecution \<times> PriceLevel list \<times> PriceLevel list \<Rightarrow> bool" where
  "pass_ok s = (case s of (v, asks, bids) \<Rightarrow> pe_inv v \<and> levels_fit asks \<and> levels_fit bids)"

definition pass_keeps :: "PaperExecution \<times> PriceLevel list \<times> PriceLevel list
    \<Rightarrow> PaperExecution \<times> PriceLevel list \<times> PriceLevel list \<Rightarrow> bool" where
  "pass_keeps s t = (case s of (v, asks, bids) \<Rightarrow> case t of (w, asks', bids') \<Rightarrow>
     length (pe_orders w) = length (pe_orders v) \<and> pe_delivered w = pe_delivered v \<and> pe_in_flight w = pe_in_flight v
     \<and> pc_fill_model (pe_config w) = pc_fill_model (pe_config v) \<and> reduced asks asks' \<and> reduced bids bids'
     \<and> (pc_fill_model (pe_config v) = DisplayedLiquidity \<longrightarrow>
          displayed asks' + filled_on Buy w = displayed asks + filled_on Buy v
        \<and> displayed bids' + filled_on Sell w = displayed bids + filled_on Sell v))"

lemma pass_keeps_trans: "pass_keeps s t \<Longrightarrow> pass_keeps t u \<Longrightarrow> pass_keeps s u"
  by (auto simp: pass_keeps_def intro: reduced_trans split: prod.splits)

lemma pass_keeps_refl: "pass_ok s \<Longrightarrow> pass_keeps s s"
  by (auto simp: pass_keeps_def pass_ok_def intro: reduced_refl)

lemma match_one_keeps:
  assumes ok: "pass_ok (v, asks, bids)" and i: "i < length (pe_orders v)"
  shows "pass_ok (match_one ck now (v, asks, bids) i) \<and> pass_keeps (v, asks, bids) (match_one ck now (v, asks, bids) i)"
proof -
  let ?o = "pe_orders v ! i"
  have inv: "pe_inv v" "levels_fit asks" "levels_fit bids" using ok by (simp_all add: pass_ok_def)
  have o: "order_ok ?o" using inv(1) i by (simp add: pe_inv_def tables_ok_def)
  let ?ls = "if pv_side ?o = Buy then asks else bids"
  obtain m ls' where m: "match_and_consume ?o ?ls (pc_fill_model (pe_config v)) (pc_queue_share_bps (pe_config v)) = (m, ls')"
    by (metis surj_pair)
  have fit: "levels_fit ?ls" using inv by simp
  have s: "pv_sound ?o" using o by (simp add: order_ok_def)
  note fair = match_and_consume_fair [OF m s fit]
  have red: "reduced ?ls ls'" using fair by (simp add: fair_match_def)
  note fit' = reduced_fit [OF red fit]
  show ?thesis
  proof (cases "pv_is_resting ?o \<and> 0 < mr_quantity m")
    case True
    let ?x = "apply_match ?o m now"
    have q: "0 < mr_quantity m" "mr_quantity m \<le> pv_remaining ?o" "0 < mr_price m"
      using True fair by (simp_all add: fair_match_def)
    have x: "pv_cumulative_qty ?x = pv_cumulative_qty ?o + mr_quantity m"
      using apply_match_filled [OF o] True q by simp
    have inv': "pe_inv (schedule_fill ck (write_order v i ?x) ?x m d)" for d
      by (rule pe_inv_execute [OF inv(1) i]) (use True q in simp_all)
    show ?thesis
      using True m inv inv' red fit' fair x i reduced_refl [OF inv(2)] reduced_refl [OF inv(3)]
      by (cases "pv_side ?o") (auto simp: pass_ok_def pass_keeps_def Let_def filled_on_def sum_list_put)
  next
    case False
    show ?thesis
    proof (cases "pv_is_resting ?o")
      case True
      with False fair have "mr_quantity m = 0" by (simp add: fair_match_def)
      with True m inv red fit' fair reduced_refl [OF inv(2)] reduced_refl [OF inv(3)] show ?thesis
        by (auto simp: pass_ok_def pass_keeps_def Let_def split: if_splits)
    next
      case False
      with ok show ?thesis by (simp add: pass_keeps_refl)
    qed
  qed
qed

lemma match_pass_keeps:
  assumes "pass_ok s" and "\<forall>i\<in>set is. i < length (pe_orders (fst s))"
  shows "pass_ok (foldl (match_one ck now) s is) \<and> pass_keeps s (foldl (match_one ck now) s is)"
  using assms
proof (induction "is" arbitrary: s)
  case Nil
  then show ?case by (simp add: pass_keeps_refl)
next
  case (Cons i "is")
  obtain v asks bids where s: "s = (v, asks, bids)" by (cases s)
  have one: "pass_ok (match_one ck now s i)" "pass_keeps s (match_one ck now s i)"
    using match_one_keeps [of v asks bids i ck now] Cons.prems s by auto
  have len: "length (pe_orders (fst (match_one ck now s i))) = length (pe_orders (fst s))"
    using one(2) by (auto simp: pass_keeps_def split: prod.splits)
  from Cons.IH [OF one(1)] Cons.prems len one(2) show ?case by (auto intro: pass_keeps_trans)
qed

lemma match_symbol_pass:
  assumes "pe_inv v" and "store_fits store"
  obtains (none) "match_symbol ck store v symbol now = v"
  | (stale) "match_symbol ck store v symbol now = pe_count v PmStaleBookSkips"
  | (pass) a w asks bids where "pe_books v symbol = Some a" "match_symbol ck store v symbol now = w"
      "pass_ok (w, asks, bids)" "pass_keeps (v, ob_asks (store a), ob_bids (store a)) (w, asks, bids)"
proof -
  have ok: "pass_ok (v, ob_asks (store a), ob_bids (store a))" for a
    using assms by (simp add: pass_ok_def store_fits_def)
  have idx: "\<forall>i\<in>set (match_order v symbol). i < length (pe_orders v)" by (simp add: match_order_def)
  have "match_symbol ck store v symbol now = v \<or> match_symbol ck store v symbol now = pe_count v PmStaleBookSkips
    \<or> (\<exists>a. pe_books v symbol = Some a \<and> match_symbol ck store v symbol now
        = fst (foldl (match_one ck now) (v, ob_asks (store a), ob_bids (store a)) (match_order v symbol)))"
    by (cases "pe_books v symbol") (simp_all add: match_symbol_def Let_def executable_side_def)
  then consider "match_symbol ck store v symbol now = v" | "match_symbol ck store v symbol now = pe_count v PmStaleBookSkips"
    | a where "pe_books v symbol = Some a" "match_symbol ck store v symbol now
        = fst (foldl (match_one ck now) (v, ob_asks (store a), ob_bids (store a)) (match_order v symbol))"
    by blast
  then show ?thesis
  proof cases
    case (3 a)
    obtain w asks bids where f: "foldl (match_one ck now) (v, ob_asks (store a), ob_bids (store a)) (match_order v symbol) = (w, asks, bids)"
      by (metis prod_cases3)
    from match_pass_keeps [OF ok, of "match_order v symbol" a ck now] idx f 3 show ?thesis by (intro pass) auto
  qed (auto intro: none stale)
qed

lemma match_symbol_keeps:
  assumes "pe_inv v" and "store_fits store"
  shows "pe_inv (match_symbol ck store v symbol now)
    \<and> pe_delivered (match_symbol ck store v symbol now) = pe_delivered v
    \<and> pe_in_flight (match_symbol ck store v symbol now) = pe_in_flight v"
  by (rule match_symbol_pass [OF assms, of ck symbol now])
     (use assms(1) in \<open>auto simp: pass_ok_def pass_keeps_def\<close>)

section \<open>The pump\<close>

lemma resolve_inv:
  assumes "pe_inv v" and "event_ok (EvOrderCancel e)" and "cxl_cancel_status e = CsAccepted"
  shows "pe_inv (fst (resolve_pending_cancel ck v e)) \<and> event_ok (EvOrderCancel (snd (resolve_pending_cancel ck v e)))"
proof -
  have e: "cxl_client_order_id e \<noteq> [] \<or> cxl_exchange_order_id e \<noteq> []" "0 \<le> cxl_cumulative_qty e"
      "0 \<le> cxl_leaves_qty e" "is_consistent (ee_category (cxl_error e)) (ee_outcome (cxl_error e))"
    using assms(2,3) by (auto simp: event_ok_def refused_after_end_def validate_execution_event_def is_ok_def split: if_splits)
  show ?thesis
  proof (cases "pe_by_client_id v (cxl_client_order_id e)")
    case None
    with e assms(1) show ?thesis by (auto simp: resolve_pending_cancel_def intro!: event_ok_cancel)
  next
    case (Some i)
    let ?o = "pe_orders v ! i"
    have o: "order_ok ?o" "i < length (pe_orders v)" using pe_inv_order(1) [OF assms(1) Some] by auto
    have "order_ok (?o\<lparr>pv_cancel_pending := False, pv_status := StCanceled, pv_last_event_ns := t\<rparr>)" for t
      using o(1) by (simp add: order_ok_def pv_sound_def)
    then have "pe_inv (write_order v i (?o\<lparr>pv_cancel_pending := False, pv_status := StCanceled, pv_last_event_ns := t\<rparr>))" for t
      by (intro pe_inv_put) (simp_all add: assms(1))
    moreover have "pe_inv (write_order v i (?o\<lparr>pv_cancel_pending := False\<rparr>))"
      using o by (intro pe_inv_put) (simp_all add: assms(1))
    ultimately show ?thesis
      using Some e order_ok_remaining [OF o(1)]
      by (auto simp: resolve_pending_cancel_def Let_def intro!: event_ok_cancel)
  qed
qed

lemma deliver_one_inv:
  assumes "pe_inv v" and "event_ok (sc_event s)"
  shows "pe_inv (deliver_one ck v s)"
  using assms resolve_inv [of v _ ck]
  by (auto simp: deliver_one_def case_prod_beta intro!: pe_inv_emit split: ExecutionEvent.split)

lemma foldl_inv: "P v \<Longrightarrow> (\<And>w x. P w \<Longrightarrow> x \<in> set xs \<Longrightarrow> P (f w x)) \<Longrightarrow> P (foldl f v xs)"
  by (induction xs arbitrary: v) auto

lemma swap_last_two_mset: "2 \<le> length xs \<Longrightarrow> mset (swap_last_two xs) = mset xs"
  by (auto simp: swap_last_two_def Let_def mset_swap)

lemma reorder_due_facts:
  "mset (snd (reorder_due k v due)) = mset due"
  "pe_inv (fst (reorder_due k v due)) = pe_inv v"
  "pe_delivered (fst (reorder_due k v due)) = pe_delivered v" "pe_pending (fst (reorder_due k v due)) = pe_pending v"
  "pe_sink (fst (reorder_due k v due)) = pe_sink v" "pe_orders (fst (reorder_due k v due)) = pe_orders v"
  "pe_in_flight (fst (reorder_due k v due)) = pe_in_flight v"
  by (induction k arbitrary: v due) (simp_all add: case_prod_beta swap_last_two_mset)

text \<open>The stages of \<open>poll\<close>: the requests that have arrived, the venue after them, and the events then due.\<close>

definition arrived_requests :: "Clock \<Rightarrow> PaperExecution \<Rightarrow> PendingRequest list" where
  "arrived_requests ck v = sort_key (\<lambda>r. (pr_due_ns r, pr_ordinal r)) (filter (\<lambda>r. pr_due_ns r \<le> ck_steady ck) (pe_in_flight v))"

definition after_requests :: "Clock \<Rightarrow> (nat \<Rightarrow> OrderBook) \<Rightarrow> PaperExecution \<Rightarrow> PaperExecution" where
  "after_requests ck store v = foldl (process_request ck store)
     (v\<lparr>pe_in_flight := filter (\<lambda>r. \<not> pr_due_ns r \<le> ck_steady ck) (pe_in_flight v)\<rparr>) (arrived_requests ck v)"

definition due_events :: "Clock \<Rightarrow> PaperExecution \<Rightarrow> Scheduled list" where
  "due_events ck v = sort_key (\<lambda>s. (sc_due_ns s, sc_ordinal s)) (filter (\<lambda>s. sc_due_ns s \<le> ck_steady ck) (pe_pending v))"

definition after_due :: "Clock \<Rightarrow> PaperExecution \<Rightarrow> PaperExecution" where
  "after_due ck v = v\<lparr>pe_pending := filter (\<lambda>s. \<not> sc_due_ns s \<le> ck_steady ck) (pe_pending v)\<rparr>"

definition delivery_order :: "Clock \<Rightarrow> PaperExecution \<Rightarrow> PaperExecution \<times> Scheduled list" where
  "delivery_order ck v = reorder_due (fa_reorder_next_event (pe_faults (after_due ck v))) (after_due ck v) (due_events ck v)"

lemma poll_stages:
  "pe_sink v \<Longrightarrow> poll ck store v =
     (foldl (deliver_one ck) (fst (delivery_order ck (after_requests ck store v)))
        (snd (delivery_order ck (after_requests ck store v))),
      length (snd (delivery_order ck (after_requests ck store v))))"
  by (simp add: poll_def Let_def arrived_requests_def after_requests_def due_events_def after_due_def delivery_order_def
      case_prod_beta)

lemma after_requests_inv:
  assumes "pe_inv v" and "store_fits store"
  shows "pe_inv (after_requests ck store v)"
proof -
  have "pe_inv (v\<lparr>pe_in_flight := filter P (pe_in_flight v)\<rparr>)" for P
    using assms(1) by (auto simp: pe_inv_def tables_ok_def)
  moreover have "\<forall>r\<in>set (arrived_requests ck v). request_ok (pr_request r)"
    using assms(1) by (auto simp: arrived_requests_def pe_inv_def)
  ultimately show ?thesis
    unfolding after_requests_def using assms(2) by (intro foldl_inv [where P = pe_inv]) (auto intro: pe_inv_process_request)
qed

lemma poll_inv:
  assumes "pe_inv v" and "store_fits store"
  shows "pe_inv (fst (poll ck store v))"
proof (cases "pe_sink v")
  case True
  let ?w = "after_requests ck store v"
  have w: "pe_inv ?w" by (rule after_requests_inv [OF assms])
  then have d: "pe_inv (after_due ck ?w)" and due: "\<forall>s\<in>set (due_events ck ?w). event_ok (sc_event s)"
    by (auto simp: after_due_def due_events_def pe_inv_def tables_ok_def)
  have "set (snd (delivery_order ck ?w)) = set (due_events ck ?w)"
    unfolding delivery_order_def by (metis reorder_due_facts(1) set_mset_mset)
  moreover have "pe_inv (fst (delivery_order ck ?w))" using d by (simp add: delivery_order_def reorder_due_facts)
  ultimately show ?thesis using due True
    by (simp add: poll_stages) (intro foldl_inv [where P = pe_inv] deliver_one_inv, auto)
next
  case False
  with assms show ?thesis by (simp add: poll_def)
qed

section \<open>Requests and queries\<close>

lemma set_connection_simps [simp]:
  "pe_orders (set_connection v st err) = pe_orders v" "pe_in_flight (set_connection v st err) = pe_in_flight v"
  "pe_pending (set_connection v st err) = pe_pending v" "pe_by_client_id (set_connection v st err) = pe_by_client_id v"
  "pe_by_exchange_id (set_connection v st err) = pe_by_exchange_id v"
  by (simp_all add: set_connection_def Let_def)

lemma pe_inv_set_connection: "pe_inv v \<Longrightarrow> pe_inv (set_connection v st err)"
  by (auto simp: set_connection_def Let_def event_ok_def validate_execution_event_def intro!: pe_inv_emit)

lemma send_request_facts:
  "pe_orders (fst (send_request ck v req d)) = pe_orders v" "pe_delivered (fst (send_request ck v req d)) = pe_delivered v"
  "pe_pending (fst (send_request ck v req d)) = pe_pending v"
  "pe_by_client_id (fst (send_request ck v req d)) = pe_by_client_id v"
  "pe_by_exchange_id (fst (send_request ck v req d)) = pe_by_exchange_id v"
  "pr_request ` set (pe_in_flight (fst (send_request ck v req d))) \<subseteq> insert req (pr_request ` set (pe_in_flight v))"
  by (auto simp: send_request_def enqueue_request_def take_request_delay_def Let_def case_prod_beta)

lemma pe_inv_send:
  assumes "pe_inv v" and "request_ok req"
  shows "pe_inv (fst (send_request ck v req d))"
  using assms send_request_facts [of ck v req d] by (auto simp: pe_inv_def tables_ok_def)

lemma pe_inv_pe_submit: "pe_inv v \<Longrightarrow> submit_fits req \<Longrightarrow> pe_inv (fst (pe_submit ck v req))"
  by (auto simp: pe_submit_def request_ok_def intro!: pe_inv_send)

lemma pe_inv_cancel: "pe_inv v \<Longrightarrow> pe_inv (fst (pe_cancel ck v req))"
  by (auto simp: pe_cancel_def request_ok_def intro!: pe_inv_send)

lemma pe_inv_replace: "pe_inv v \<Longrightarrow> replace_fits req \<Longrightarrow> pe_inv (fst (pe_replace ck v req))"
  by (auto simp: pe_replace_def request_ok_def intro!: pe_inv_send)

lemma pe_inv_cancel_each: "pe_inv v \<Longrightarrow> pe_inv (fst (cancel_each ck v symbol os))"
  by (induction os arbitrary: v) (auto simp: Let_def case_prod_beta pe_inv_cancel)

lemma pe_inv_query_open: 
  assumes "pe_inv v"
  shows "pe_inv (fst (query_open_orders ck v symbol))"
proof -
  have "event_ok (snapshot_chunk symbol rows chunks c)" for rows chunks c
    by (simp add: snapshot_chunk_def Let_def event_ok_def validate_execution_event_def kMaxOrdersPerSnapshotEvent_def)
  with assms show ?thesis
    by (auto simp: query_open_orders_def Let_def intro!: foldl_inv [where P = pe_inv] pe_inv_schedule)
qed

lemma pe_inv_query_order:
  assumes "pe_inv v"
  shows "pe_inv (fst (query_order ck v cid eid))"
proof -
  have row: "event_ok (EvOrderStatus (status_row o'))" if "order_ok o'" for o'
    using that by (auto simp: event_ok_def validate_execution_event_def status_row_def order_ok_def pv_sound_def)
  have fail: "event_ok (EvRequestFailure \<lparr>rf_kind = RkQueryOrder, rf_client_order_id = cid, rf_exchange_order_id = eid,
      rf_symbol = [], rf_symbol_id = 0, rf_error = make_error UnknownOrderStateErr OutUnknown UnknownOrder 0 False\<rparr>)"
    by (simp add: event_ok_def validate_execution_event_def)
  have "order_ok o'" if "order_by_client v cid = Some o' \<or> order_by_exchange v eid = Some o'" for o'
    using that pe_inv_order [OF assms] by (auto simp: order_by_client_def order_by_exchange_def)
  with assms row fail show ?thesis
    by (auto simp: query_order_def Let_def intro!: pe_inv_schedule split: option.split)
qed

definition op_fits :: "PaperOp \<Rightarrow> bool" where
  "op_fits op = (case op of PoSubmit req \<Rightarrow> submit_fits req | PoReplace req \<Rightarrow> replace_fits req | _ \<Rightarrow> True)"

lemma paper_do_inv:
  assumes "pe_inv v" and "op_fits op" and "store_fits store"
  shows "pe_inv (paper_do ck store op v)"
proof (cases op)
  case PoStart
  with assms(1) show ?thesis by (simp add: paper_do_def pe_start_def Let_def pe_inv_set_connection)
next
  case PoStop
  have "pe_inv (v\<lparr>pe_started := False, pe_in_flight := []\<rparr>)" using assms(1) by (simp add: pe_inv_def tables_ok_def)
  from pe_inv_set_connection [OF this] PoStop assms(1) show ?thesis
    by (simp add: paper_do_def pe_stop_def) (simp add: pe_inv_def tables_ok_def)
qed (use assms in \<open>simp_all add: paper_do_def op_fits_def pe_inv_set_connection pe_inv_pe_submit pe_inv_cancel pe_inv_replace
      cancel_all_def pe_inv_cancel_each pe_inv_query_open pe_inv_query_order attach_book_def on_market_update_def
      match_symbol_keeps poll_inv\<close>)

text \<open>Runs of the venue: any sequence of calls, at any clock readings, against any contents of the books.\<close>

type_synonym paper_call = "Clock \<times> (nat \<Rightarrow> OrderBook) \<times> PaperOp"

definition paper_run :: "paper_call list \<Rightarrow> PaperExecution \<Rightarrow> PaperExecution" where
  "paper_run calls v = foldl (\<lambda>w (ck, store, op). paper_do ck store op w) v calls"

definition calls_fit :: "paper_call list \<Rightarrow> bool" where
  "calls_fit calls \<longleftrightarrow> list_all (\<lambda>(ck, store, op). op_fits op \<and> store_fits store) calls"

lemma new_paper_inv: "pe_inv (new_paper config)"
  by (simp add: pe_inv_def tables_ok_def new_paper_def)

lemma paper_run_inv: "pe_inv v \<Longrightarrow> calls_fit calls \<Longrightarrow> pe_inv (paper_run calls v)"
  unfolding paper_run_def calls_fit_def
  by (rule foldl_inv [where P = pe_inv]) (auto simp: list_all_iff intro: paper_do_inv)

section \<open>How orders evolve\<close>

definition pv_evolves :: "PaperOrder \<Rightarrow> PaperOrder \<Rightarrow> bool" where
  "pv_evolves o' x \<longleftrightarrow> pv_cumulative_qty o' \<le> pv_cumulative_qty x \<and> pv_side x = pv_side o' \<and> pv_symbol x = pv_symbol o'
     \<and> (pv_is_terminal o' \<longrightarrow> pv_status x = pv_status o' \<and> pv_cumulative_qty x = pv_cumulative_qty o'
          \<and> pv_original_qty x = pv_original_qty o' \<and> pv_price x = pv_price o' \<and> pv_client_order_id x = pv_client_order_id o')"

definition orders_evolve :: "PaperExecution \<Rightarrow> PaperExecution \<Rightarrow> bool" where
  "orders_evolve v w \<longleftrightarrow> length (pe_orders v) \<le> length (pe_orders w)
     \<and> (\<forall>i<length (pe_orders v). pv_evolves (pe_orders v ! i) (pe_orders w ! i))"

lemma pv_evolves_refl [simp]: "pv_evolves o' o'"
  by (simp add: pv_evolves_def)

lemma pv_evolves_trans: "pv_evolves a b \<Longrightarrow> pv_evolves b c \<Longrightarrow> pv_evolves a c"
  by (auto simp: pv_evolves_def pv_is_terminal_def)

lemma orders_evolve_same: "pe_orders w = pe_orders v \<Longrightarrow> orders_evolve v w"
  by (simp add: orders_evolve_def)

lemma orders_evolve_trans: "orders_evolve u v \<Longrightarrow> orders_evolve v w \<Longrightarrow> orders_evolve u w"
  by (auto simp: orders_evolve_def intro: pv_evolves_trans)

lemma orders_evolve_put:
  assumes "pv_evolves (pe_orders v ! i) x" and "pe_orders w = (pe_orders v)[i := x]"
  shows "orders_evolve v w"
  unfolding orders_evolve_def assms(2)
proof (intro conjI allI impI)
  fix j assume "j < length (pe_orders v)"
  then show "pv_evolves (pe_orders v ! j) ((pe_orders v)[i := x] ! j)" using assms(1) by (cases "j = i") simp_all
qed simp

lemma orders_evolve_strip [simp]:
  "orders_evolve v (schedule ck w d ev) = orders_evolve v w" "orders_evolve v (pe_count w m) = orders_evolve v w"
  "orders_evolve v (emit w ev) = orders_evolve v w"
  by (simp_all add: orders_evolve_def)

lemma orders_evolve_write:
  "pe_orders u = pe_orders v \<Longrightarrow> pv_evolves (pe_orders v ! i) x \<Longrightarrow> orders_evolve v (write_order u i x)"
  by (rule orders_evolve_put) simp_all

lemma orders_evolve_foldl: "(\<And>w x. orders_evolve w (f w x)) \<Longrightarrow> orders_evolve v (foldl f v xs)"
  by (induction xs arbitrary: v) (auto intro: orders_evolve_same orders_evolve_trans)

lemma resting_not_terminal: "pv_is_resting o' \<Longrightarrow> \<not> pv_is_terminal o'"
  by (auto simp: pv_is_resting_def pv_is_terminal_def)

lemma apply_match_evolves:
  "pv_is_resting o' \<Longrightarrow> 0 < mr_quantity m \<Longrightarrow> pv_evolves o' (apply_match o' m t)"
  by (auto simp: pv_evolves_def apply_match_def checked_simps resting_not_terminal Let_def split: option.split)

lemma take_on_arrival_evolves: "orders_evolve v (take_on_arrival ck v i b delay)"
proof -
  let ?o = "pe_orders v ! i"
  let ?m = "match_against_book ?o b (pc_fill_model (pe_config v)) (pc_queue_share_bps (pe_config v))"
  show ?thesis
  proof (cases "0 < mr_quantity ?m")
    case True
    then have "pv_is_resting ?o"
      using match_resting [OF prod.collapse [symmetric], of ?o] by (auto simp: match_against_book_def split: if_splits)
    then have "pv_evolves ?o (apply_match ?o (?m\<lparr>mr_liquidity := Taker\<rparr>) (ck_steady ck))"
      using True by (intro apply_match_evolves) simp_all
    from orders_evolve_put [OF this] True show ?thesis by (simp add: take_on_arrival_def Let_def)
  next
    case False
    then show ?thesis by (simp add: take_on_arrival_def Let_def orders_evolve_same)
  qed
qed

lemma rest_order_evolves: "orders_evolve v (rest_order ck v o' delay)"
  by (simp add: orders_evolve_def rest_order_def Let_def case_prod_beta nth_append)

lemma handler_orders [simp]:
  "pe_orders (reject_order ck v req reason delay) = pe_orders v"
  "pe_orders (expire_order ck v req eid delay) = pe_orders v"
  by (simp_all add: reject_order_def expire_order_def Let_def case_prod_beta)

lemma accept_order_evolves: "orders_evolve v (accept_order ck store v req delay)"
proof -
  have "orders_evolve v (rest_order ck w x delay)" if "pe_orders w = pe_orders v" for w x
    using orders_evolve_same [OF that] rest_order_evolves by (rule orders_evolve_trans)
  moreover have "orders_evolve v (take_on_arrival ck (rest_order ck w x delay) k b delay)" if "pe_orders w = pe_orders v" for w x k b
    using calculation [OF that] take_on_arrival_evolves by (rule orders_evolve_trans)
  ultimately show ?thesis
    by (simp add: accept_order_def Let_def case_prod_beta orders_evolve_same split: option.split)
qed

lemma process_submit_evolves: "orders_evolve v (process_submit ck store v req delay)"
proof -
  have "orders_evolve v (accept_order ck store w req delay)" if "pe_orders w = pe_orders v" for w
    using orders_evolve_same [OF that] accept_order_evolves by (rule orders_evolve_trans)
  then show ?thesis by (simp add: process_submit_def Let_def case_prod_beta orders_evolve_same)
qed

lemma process_cancel_evolves: "orders_evolve v (process_cancel ck v req delay)"
proof -
  have "pv_evolves o' (o'\<lparr>pv_cancel_pending := True\<rparr>)" for o' by (simp add: pv_evolves_def)
  then show ?thesis
    by (auto simp: process_cancel_def Let_def case_prod_beta intro: orders_evolve_same orders_evolve_write split: option.split)
qed

lemma process_replace_evolves: "orders_evolve v (process_replace ck v req delay)"
proof -
  have a: "pv_evolves o' (amended o' req eid n t)" if "pv_is_resting o'" for o' eid n t
    using resting_not_terminal [OF that] by (simp add: pv_evolves_def amended_def)
  have "orders_evolve v (fst (swap_identity ck w i req))" if "pe_orders w = pe_orders v" "pv_is_resting (pe_orders v ! i)" for w i
    by (rule orders_evolve_put [OF a [OF that(2), of "fst (next_exchange_id w)"
          "pe_next_arrival_seq (snd (next_exchange_id w))" "ck_steady ck"]])
       (simp add: swap_identity_def Let_def case_prod_beta that(1))
  then show ?thesis
    by (auto simp: process_replace_def Let_def case_prod_beta intro: orders_evolve_same split: option.split)
qed

lemma process_request_evolves: "orders_evolve v (process_request ck store v r)"
proof -
  have same: "orders_evolve v (w\<lparr>pe_processing_arrival_ns := 0\<rparr>)"
    if "orders_evolve (v\<lparr>pe_processing_arrival_ns := t\<rparr>) w" for w t
    using that by (simp add: orders_evolve_def)
  show ?thesis
    by (auto simp: process_request_def Let_def intro: same process_submit_evolves process_cancel_evolves process_replace_evolves
        split: VenueRequest.split)
qed

lemma deliver_one_evolves: "orders_evolve v (deliver_one ck v s)"
proof -
  have "orders_evolve v (fst (resolve_pending_cancel ck v e))" for e
  proof (cases "pe_by_client_id v (cxl_client_order_id e)")
    case None
    then show ?thesis by (simp add: resolve_pending_cancel_def orders_evolve_same)
  next
    case (Some i)
    have "pv_evolves (pe_orders v ! i) ((pe_orders v ! i)\<lparr>pv_cancel_pending := False\<rparr>)"
      by (simp add: pv_evolves_def)
    moreover have "\<not> pv_is_terminal (pe_orders v ! i) \<Longrightarrow> pv_evolves (pe_orders v ! i)
        ((pe_orders v ! i)\<lparr>pv_cancel_pending := False, pv_status := StCanceled, pv_last_event_ns := t\<rparr>)" for t
      by (simp add: pv_evolves_def)
    ultimately show ?thesis
      using Some by (auto simp: resolve_pending_cancel_def Let_def intro: orders_evolve_write)
  qed
  then show ?thesis
    by (auto simp: deliver_one_def case_prod_beta intro: orders_evolve_same split: ExecutionEvent.split)
qed

lemma poll_evolves: "orders_evolve v (fst (poll ck store v))"
proof (cases "pe_sink v")
  case True
  let ?w = "after_requests ck store v"
  have "orders_evolve v ?w"
    unfolding after_requests_def
    by (rule orders_evolve_trans [OF orders_evolve_same orders_evolve_foldl]) (simp_all add: process_request_evolves)
  moreover have "orders_evolve ?w (fst (delivery_order ck ?w))"
    by (rule orders_evolve_same) (simp add: delivery_order_def reorder_due_facts after_due_def)
  ultimately show ?thesis
    using True orders_evolve_foldl [of "deliver_one ck"] deliver_one_evolves
    by (simp add: poll_stages) (meson orders_evolve_trans)
next
  case False
  then show ?thesis by (simp add: poll_def orders_evolve_same)
qed

lemma match_one_evolves: "orders_evolve v (fst (match_one ck now (v, asks, bids) i))"
proof -
  let ?o = "pe_orders v ! i"
  obtain m ls' where "match_and_consume ?o (if pv_side ?o = Buy then asks else bids) (pc_fill_model (pe_config v))
      (pc_queue_share_bps (pe_config v)) = (m, ls')"
    by (metis surj_pair)
  then show ?thesis
    using apply_match_evolves [of ?o m now]
    by (auto simp: Let_def intro: orders_evolve_same orders_evolve_put)
qed

lemma match_symbol_evolves: "orders_evolve v (match_symbol ck store v symbol now)"
proof -
  have "orders_evolve (fst s) (fst (foldl (match_one ck now) s is))" for s "is"
  proof (induction "is" arbitrary: s)
    case (Cons i "is")
    obtain w asks bids where s: "s = (w, asks, bids)" by (cases s)
    have "orders_evolve (fst s) (fst (match_one ck now s i))" unfolding s using match_one_evolves [of w ck now asks bids i] by simp
    with Cons.IH [of "match_one ck now s i"] show ?case by (auto intro: orders_evolve_trans)
  qed (simp add: orders_evolve_same)
  from this [of "(v, asks, bids)" for asks bids] show ?thesis
    by (simp add: match_symbol_def Let_def orders_evolve_same split: option.split)
qed

lemma request_calls_simps [simp]:
  "pe_orders (fst (pe_submit ck v req)) = pe_orders v" "pe_delivered (fst (pe_submit ck v req)) = pe_delivered v"
  "pe_orders (fst (pe_cancel ck v creq)) = pe_orders v" "pe_delivered (fst (pe_cancel ck v creq)) = pe_delivered v"
  "pe_orders (fst (pe_replace ck v rreq)) = pe_orders v" "pe_delivered (fst (pe_replace ck v rreq)) = pe_delivered v"
  "pe_orders (fst (query_order ck v cid eid)) = pe_orders v" "pe_delivered (fst (query_order ck v cid eid)) = pe_delivered v"
  by (simp_all add: pe_submit_def pe_cancel_def pe_replace_def send_request_facts query_order_def Let_def split: option.split)

lemma cancel_each_simps [simp]:
  "pe_orders (fst (cancel_each ck v symbol os)) = pe_orders v" "pe_delivered (fst (cancel_each ck v symbol os)) = pe_delivered v"
  by (induction os arbitrary: v) (auto simp: Let_def case_prod_beta)

lemma foldl_field: "(\<And>w x. f (g w x) = f w) \<Longrightarrow> f (foldl g v xs) = f v"
  by (induction xs arbitrary: v) auto

lemma query_open_simps [simp]:
  "pe_orders (fst (query_open_orders ck v symbol)) = pe_orders v"
  "pe_delivered (fst (query_open_orders ck v symbol)) = pe_delivered v"
  by (simp_all add: query_open_orders_def Let_def foldl_field [where f = pe_orders] foldl_field [where f = pe_delivered])

lemma paper_do_evolves: "orders_evolve v (paper_do ck store op v)"
proof (cases op)
  case (PoMarketUpdate symbol t)
  then show ?thesis
    using match_symbol_evolves [of "v\<lparr>pe_book_updated_ns := (pe_book_updated_ns v)(symbol \<mapsto> t)\<rparr>" ck store symbol "ck_steady ck"]
    by (simp add: paper_do_def on_market_update_def orders_evolve_def)
qed (simp_all add: paper_do_def poll_evolves, simp_all add: orders_evolve_same pe_start_def pe_stop_def Let_def cancel_all_def
      attach_book_def)

lemma paper_run_evolves: "orders_evolve v (paper_run calls v)"
  unfolding paper_run_def by (rule orders_evolve_foldl) (auto simp: paper_do_evolves)

section \<open>Deliveries\<close>

text \<open>What a scheduled event becomes on delivery: itself, or the resolution of the cancel it confirms.\<close>

definition answers :: "Scheduled \<Rightarrow> ExecutionEvent \<Rightarrow> bool" where
  "answers s ev = (case sc_event s of
     EvOrderCancel e \<Rightarrow> (\<exists>e'. ev = EvOrderCancel e' \<and> cxl_seq e' = cxl_seq e \<and> cxl_client_order_id e' = cxl_client_order_id e)
   | x \<Rightarrow> ev = x)"

lemma deliver_one_facts:
  assumes "pe_sink v"
  obtains ev where "pe_delivered (deliver_one ck v s) = pe_delivered v @ [ev]" "answers s ev"
    "pe_sink (deliver_one ck v s)" "pe_pending (deliver_one ck v s) = pe_pending v"
proof -
  have r: "pe_sink (fst (resolve_pending_cancel ck v e))" "pe_pending (fst (resolve_pending_cancel ck v e)) = pe_pending v"
    "pe_delivered (fst (resolve_pending_cancel ck v e)) = pe_delivered v"
    "cxl_seq (snd (resolve_pending_cancel ck v e)) = cxl_seq e"
    "cxl_client_order_id (snd (resolve_pending_cancel ck v e)) = cxl_client_order_id e" for e
    using assms by (simp_all add: resolve_pending_cancel_def Let_def split: option.split)
  show thesis
  proof (cases "sc_event s")
    case (EvOrderCancel e)
    show thesis
      by (cases "cxl_cancel_status e = CsAccepted \<and> cxl_order_status e = StCanceled")
         (rule that, use EvOrderCancel assms r in \<open>auto simp: deliver_one_def answers_def case_prod_beta\<close>)+
  qed (rule that, use assms in \<open>simp_all add: deliver_one_def answers_def\<close>)+
qed

lemma deliver_all_facts:
  assumes "pe_sink v"
  shows "\<exists>evs. pe_delivered (foldl (deliver_one ck) v ss) = pe_delivered v @ evs \<and> list_all2 answers ss evs
    \<and> pe_pending (foldl (deliver_one ck) v ss) = pe_pending v"
  using assms
proof (induction ss arbitrary: v)
  case Nil
  then show ?case by simp
next
  case (Cons s ss)
  obtain ev where ev: "pe_delivered (deliver_one ck v s) = pe_delivered v @ [ev]" "answers s ev"
    "pe_sink (deliver_one ck v s)" "pe_pending (deliver_one ck v s) = pe_pending v"
    using deliver_one_facts [OF Cons.prems] by metis
  obtain evs where "pe_delivered (foldl (deliver_one ck) (deliver_one ck v s) ss) = pe_delivered (deliver_one ck v s) @ evs"
    "list_all2 answers ss evs" "pe_pending (foldl (deliver_one ck) (deliver_one ck v s) ss) = pe_pending (deliver_one ck v s)"
    using Cons.IH [OF ev(3)] by blast
  with ev show ?case by (intro exI [of _ "ev # evs"]) simp
qed

lemma process_request_quiet:
  "pe_delivered (process_request ck store v r) = pe_delivered v \<and> pe_sink (process_request ck store v r) = pe_sink v"
proof -
  have t: "pe_delivered (take_on_arrival ck w i b d) = pe_delivered w" "pe_sink (take_on_arrival ck w i b d) = pe_sink w" for w i b d
    by (simp_all add: take_on_arrival_def Let_def schedule_fill_def case_prod_beta)
  show ?thesis
    by (simp add: process_request_def process_submit_def process_cancel_def process_replace_def accept_order_def rest_order_def
        reject_order_def expire_order_def swap_identity_def Let_def case_prod_beta t split: VenueRequest.split option.split)
qed

section \<open>A session\<close>

definition demo_market :: OrderBook where
  "demo_market = (new_book ''BTC'' 8)\<lparr>ob_bids := [\<lparr>pl_price = 90, pl_quantity = 4\<rparr>],
     ob_asks := [\<lparr>pl_price = 100, pl_quantity = 8\<rparr>], ob_snapshot_applied := True\<rparr>"

definition demo_paper_bid :: OrderRequest where
  "demo_paper_bid = \<lparr>or_client_order_id = ''c1'', or_symbol = ''BTC'', or_symbol_id = 0, or_side = Buy, or_type = Limit,
     or_tif = GTC, or_price = 95, or_quantity = 6, or_post_only = False, or_reduce_only = False, or_trace = 0,
     or_created_ns = 0\<rparr>"

definition demo_clock :: "int \<Rightarrow> Clock" where
  "demo_clock t = \<lparr>ck_steady = t, ck_wall = t\<rparr>"

definition demo_session :: "paper_call list" where
  "demo_session = [(demo_clock 10, \<lambda>_. demo_market, PoStart), (demo_clock 10, \<lambda>_. demo_market, PoAttachBook ''BTC'' 0),
     (demo_clock 20, \<lambda>_. demo_market, PoSubmit demo_paper_bid), (demo_clock 600000, \<lambda>_. demo_market, PoPoll)]"

lemma demo_session_fits: "calls_fit demo_session"
  by (simp add: calls_fit_def demo_session_def op_fits_def store_fits_def submit_fits_def demo_paper_bid_def demo_market_def
      new_book_def in64_def)

section \<open>Properties\<close>

text \<open>
  C14. The venue's book of orders is sound on every run: whatever calls are made, at whatever times, with whatever books,
  faults and connection states, every order has a positive price and size, is filled by at least nothing and at most its
  size, and carries the status its quantities imply (new means unfilled, filled means filled to the last unit); and the
  two identity tables lead only to existing orders that carry the identity asked for.
\<close>

theorem venue_orders_are_sound:
  assumes "calls_fit calls"
  shows "tables_ok (paper_run calls (new_paper config))"
  using paper_run_inv [OF new_paper_inv assms] by (simp add: pe_inv_def)

theorem venue_orders_are_sound_witness:
  "calls_fit demo_session \<and> tables_ok (paper_run demo_session (new_paper default_paper_config))"
  using venue_orders_are_sound [OF demo_session_fits] demo_session_fits by simp

text \<open>
  What is finished stays finished at the venue: from any point of any run on, no order is ever forgotten or moves to
  another side or symbol, no filled quantity is ever taken back, and an order that is filled, cancelled, rejected or
  expired keeps its status, quantities, price and client identity for ever.
\<close>

theorem finished_venue_orders_stay_finished:
  assumes "i < length (pe_orders v)" and "pv_is_terminal (pe_orders v ! i)"
  shows "i < length (pe_orders (paper_run calls v))
    \<and> pv_status (pe_orders (paper_run calls v) ! i) = pv_status (pe_orders v ! i)
    \<and> pv_cumulative_qty (pe_orders (paper_run calls v) ! i) = pv_cumulative_qty (pe_orders v ! i)
    \<and> pv_client_order_id (pe_orders (paper_run calls v) ! i) = pv_client_order_id (pe_orders v ! i)"
  using paper_run_evolves [of v calls] assms by (auto simp: orders_evolve_def pv_evolves_def)

definition demo_finished :: PaperExecution where
  "demo_finished = (new_paper default_paper_config)\<lparr>pe_orders := [(order_from demo_paper_bid ''PX'' 1 5)
     \<lparr>pv_cumulative_qty := 6, pv_status := StFilled\<rparr>]\<rparr>"

theorem finished_venue_orders_stay_finished_witness:
  "pv_status (pe_orders (paper_run demo_session demo_finished) ! 0) = StFilled
   \<and> pv_cumulative_qty (pe_orders (paper_run demo_session demo_finished) ! 0) = 6"
  using finished_venue_orders_stay_finished [of 0 demo_finished demo_session]
  by (simp add: demo_finished_def order_from_def pv_is_terminal_def)

text \<open>
  C13. The order manager accepts what the venue says: every event ever delivered on any run passes
  \<open>validate_execution_event\<close>, the check by which the order manager quarantines contradictory events, with exactly one
  exception, the refusal of a cancel for an order that had already been cancelled.
\<close>

theorem venue_events_are_accepted:
  assumes "calls_fit calls" and "ev \<in> set (pe_delivered (paper_run calls (new_paper config)))"
  shows "is_ok (validate_execution_event ev) \<or> refused_after_end ev"
  using paper_run_inv [OF new_paper_inv assms(1)] assms(2) by (auto simp: pe_inv_def event_ok_def)

definition demo_connected :: ExecutionEvent where
  "demo_connected = EvConnection \<lparr>con_venue = ''paper'', con_from = CnConnecting, con_to = CnConnected,
     con_error = error_none, con_reconnect_count = 0\<rparr>"

theorem venue_events_are_accepted_witness:
  "demo_connected \<in> set (pe_delivered (paper_run [(demo_clock 10, \<lambda>_. demo_market, PoStart)] (new_paper default_paper_config)))
   \<and> (is_ok (validate_execution_event demo_connected) \<or> refused_after_end demo_connected)"
proof -
  let ?run = "[(demo_clock 10, \<lambda>_::nat. demo_market, PoStart)]"
  have d: "demo_connected \<in> set (pe_delivered (paper_run ?run (new_paper default_paper_config)))"
    by (simp add: paper_run_def paper_do_def pe_start_def set_connection_def emit_def pe_count_def new_paper_def
        default_paper_config_def Let_def demo_connected_def)
  have f: "calls_fit ?run"
    by (simp add: calls_fit_def op_fits_def store_fits_def demo_market_def new_book_def in64_def)
  from venue_events_are_accepted [OF f d] d show ?thesis by simp
qed

text \<open>
  The venue never answers from inside a call: submitting, cancelling, replacing, cancelling everything, querying,
  injecting a fault and telling it of a market update deliver nothing to the sink, and apart from the market update they
  do not touch an order either; an answer leaves only through the pump, a connection change through
  \<open>start\<close>, \<open>stop\<close> and \<open>set_connection\<close>.
\<close>

definition speaks :: "PaperOp \<Rightarrow> bool" where
  "speaks op = (case op of PoPoll \<Rightarrow> True | PoStart \<Rightarrow> True | PoStop \<Rightarrow> True | PoSetConnection _ _ \<Rightarrow> True | _ \<Rightarrow> False)"

theorem venue_answers_asynchronously:
  assumes "calls_fit calls" and "store_fits store" and "\<not> speaks op"
    and "v = paper_run calls (new_paper config)"
  shows "pe_delivered (paper_do ck store op v) = pe_delivered v
    \<and> ((\<forall>symbol t. op \<noteq> PoMarketUpdate symbol t) \<longrightarrow> pe_orders (paper_do ck store op v) = pe_orders v)"
proof -
  have "pe_inv v" using paper_run_inv [OF new_paper_inv assms(1)] assms(4) by simp
  then have "pe_inv (v\<lparr>pe_book_updated_ns := m\<rparr>)" for m by simp
  from match_symbol_keeps [OF this assms(2)] assms(3) show ?thesis
    by (cases op) (simp_all add: paper_do_def speaks_def cancel_all_def attach_book_def on_market_update_def)
qed

theorem venue_answers_asynchronously_witness:
  "pe_delivered (paper_do (demo_clock 30) (\<lambda>_. demo_market) (PoSubmit demo_paper_bid) (paper_run demo_session (new_paper default_paper_config)))
     = pe_delivered (paper_run demo_session (new_paper default_paper_config))"
proof -
  have s: "store_fits (\<lambda>_. demo_market)" by (simp add: store_fits_def demo_market_def new_book_def in64_def)
  from venue_answers_asynchronously [OF demo_session_fits s, of "PoSubmit demo_paper_bid"] show ?thesis
    by (simp add: speaks_def)
qed

text \<open>
  The pump delivers what is due, all of it, and in order: with no reordering fault, a \<open>poll\<close> first lets the venue act on
  the requests that have arrived, then hands the sink one event for each scheduled event whose time has come, ordered by
  due time and, within one instant, by the order in which the venue produced them; what remains scheduled is strictly in
  the future, and the count returned is the number delivered.
\<close>

theorem pump_delivers_in_order:
  assumes "pe_sink v" and "w = after_requests ck store v" and "fa_reorder_next_event (pe_faults w) = 0"
    and "due = sort_key (\<lambda>s. (sc_due_ns s, sc_ordinal s)) (filter (\<lambda>s. sc_due_ns s \<le> ck_steady ck) (pe_pending w))"
  shows "\<exists>evs. pe_delivered (fst (poll ck store v)) = pe_delivered v @ evs \<and> list_all2 answers due evs
    \<and> snd (poll ck store v) = length evs \<and> list_all (\<lambda>s. ck_steady ck < sc_due_ns s) (pe_pending (fst (poll ck store v)))"
proof -
  have quiet: "pe_delivered w = pe_delivered v" "pe_sink w"
    using assms(1) process_request_quiet
    by (simp_all add: assms(2) after_requests_def foldl_field [where f = pe_delivered] foldl_field [where f = pe_sink])
  have d: "due = due_events ck w" "delivery_order ck w = (after_due ck w, due)"
    using assms(3) by (simp_all add: assms(4) due_events_def delivery_order_def after_due_def pe_faults_def)
  have p: "poll ck store v = (foldl (deliver_one ck) (after_due ck w) due, length due)"
    using poll_stages [OF assms(1), of ck store] d(2) assms(2) by simp
  have a: "pe_sink (after_due ck w)" "pe_delivered (after_due ck w) = pe_delivered v"
      "list_all (\<lambda>s. ck_steady ck < sc_due_ns s) (pe_pending (after_due ck w))"
    using quiet by (auto simp: after_due_def list_all_iff)
  from deliver_all_facts [OF a(1), of ck due] a show ?thesis
    unfolding p by (auto dest: list_all2_lengthD)
qed

definition demo_pump :: PaperExecution where
  "demo_pump = (new_paper default_paper_config)\<lparr>pe_sink := True, pe_pending :=
     [\<lparr>sc_due_ns = 9, sc_ordinal = 0, sc_event = demo_connected\<rparr>, \<lparr>sc_due_ns = 4, sc_ordinal = 2, sc_event = EvNone\<rparr>,
      \<lparr>sc_due_ns = 50, sc_ordinal = 3, sc_event = EvNone\<rparr>]\<rparr>"

theorem pump_delivers_in_order_witness:
  "pe_delivered (fst (poll (demo_clock 10) (\<lambda>_. demo_market) demo_pump)) = [EvNone, demo_connected]
   \<and> snd (poll (demo_clock 10) (\<lambda>_. demo_market) demo_pump) = 2"
proof -
  let ?w = "after_requests (demo_clock 10) (\<lambda>_. demo_market) demo_pump"
  have w: "?w = demo_pump" by (simp add: after_requests_def arrived_requests_def demo_pump_def new_paper_def)
  have f: "fa_reorder_next_event (pe_faults ?w) = 0"
    by (simp add: w) (simp add: demo_pump_def new_paper_def pe_faults_def default_paper_config_def no_faults_def)
  obtain evs where e: "pe_delivered (fst (poll (demo_clock 10) (\<lambda>_. demo_market) demo_pump)) = pe_delivered demo_pump @ evs"
    "list_all2 answers (sort_key (\<lambda>s. (sc_due_ns s, sc_ordinal s)) (filter (\<lambda>s. sc_due_ns s \<le> ck_steady (demo_clock 10)) (pe_pending ?w))) evs"
    "snd (poll (demo_clock 10) (\<lambda>_. demo_market) demo_pump) = length evs"
    using pump_delivers_in_order [OF _ refl f refl] by (auto simp: demo_pump_def)
  have "list_all2 answers [\<lparr>sc_due_ns = 4, sc_ordinal = 2, sc_event = EvNone\<rparr>, \<lparr>sc_due_ns = 9, sc_ordinal = 0, sc_event = demo_connected\<rparr>] evs"
    using e(2) unfolding w by (simp add: demo_pump_def demo_clock_def)
  then have "evs = [EvNone, demo_connected]"
    by (auto simp: list_all2_Cons1 answers_def demo_connected_def)
  with e show ?thesis by (simp add: demo_pump_def new_paper_def)
qed

text \<open>
  The simulated venue cannot fill more than the market displayed: in a matching pass under the default fill model, however
  many orders rest on a side, the quantity executed over all buy orders together is at most what the book's ask side displays,
  and over all sell orders at most what the bid side displays.
\<close>

theorem pass_fills_at_most_displayed:
  assumes "calls_fit calls" and "store_fits store" and "v = paper_run calls (new_paper config)"
    and "pc_fill_model (pe_config v) = DisplayedLiquidity" and "pe_books v symbol = Some a"
  shows "filled_on Buy (on_market_update ck store v symbol t) - filled_on Buy v \<le> displayed (ob_asks (store a))
    \<and> filled_on Sell (on_market_update ck store v symbol t) - filled_on Sell v \<le> displayed (ob_bids (store a))"
proof -
  let ?v = "v\<lparr>pe_book_updated_ns := (pe_book_updated_ns v)(symbol \<mapsto> t)\<rparr>"
  have inv: "pe_inv ?v" using paper_run_inv [OF new_paper_inv assms(1)] assms(3) by simp
  have pos: "0 \<le> displayed (ob_asks (store a))" "0 \<le> displayed (ob_bids (store a))"
    using assms(2) by (auto simp: store_fits_def intro: displayed_nonneg)
  have same: "filled_on side ?v = filled_on side v" "filled_on side (pe_count ?v m) = filled_on side v" for side m
    by (simp_all add: filled_on_def)
  show ?thesis
  proof (rule match_symbol_pass [OF inv assms(2), of ck symbol "ck_steady ck"])
    fix b w asks bids
    assume pass: "pe_books ?v symbol = Some b" "match_symbol ck store ?v symbol (ck_steady ck) = w"
      "pass_ok (w, asks, bids)" "pass_keeps (?v, ob_asks (store b), ob_bids (store b)) (w, asks, bids)"
    have "b = a" using pass(1) assms(5) by simp
    moreover have "0 \<le> displayed asks" "0 \<le> displayed bids"
      using pass(3) by (auto simp: pass_ok_def intro: displayed_nonneg)
    ultimately show ?thesis
      using pass(2,4) assms(4) same by (auto simp: pass_keeps_def on_market_update_def)
  qed (use pos same in \<open>simp_all add: on_market_update_def\<close>)
qed

definition demo_listening :: PaperExecution where
  "demo_listening = attach_book (new_paper default_paper_config) ''BTC'' 0"

theorem pass_fills_at_most_displayed_witness:
  "filled_on Buy (on_market_update (demo_clock 30) (\<lambda>_. demo_market) demo_listening ''BTC'' 30) - filled_on Buy demo_listening
     \<le> displayed (ob_asks demo_market)"
proof -
  let ?calls = "[(demo_clock 5, \<lambda>_::nat. demo_market, PoAttachBook ''BTC'' 0)]"
  have f: "calls_fit ?calls" "store_fits (\<lambda>_. demo_market)"
    by (simp_all add: calls_fit_def op_fits_def store_fits_def demo_market_def new_book_def in64_def)
  have "demo_listening = paper_run ?calls (new_paper default_paper_config)"
    by (simp add: demo_listening_def paper_run_def paper_do_def)
  from pass_fills_at_most_displayed [OF f this, of "''BTC''" 0] show ?thesis
    by (simp add: demo_listening_def attach_book_def new_paper_def default_paper_config_def)
qed

section \<open>Where the venue does not do what it says\<close>

text \<open>
  The cancel race is resolved in favour of what happened: a confirmation that leaves as accepted belongs to an order that is
  cancelled at the venue at that moment and reports its true filled and open quantity, and a cancel of an order that filled
  in the meantime is reported as too late.
\<close>

theorem cancel_confirmation_is_honest:
  assumes "pe_by_client_id v (cxl_client_order_id e) = Some i" and "i < length (pe_orders v)"
    and "resolve_pending_cancel ck v e = (w, e')"
  shows "(cxl_cancel_status e' = CsAccepted \<longrightarrow> pv_status (pe_orders w ! i) = StCanceled
        \<and> cxl_cumulative_qty e' = pv_cumulative_qty (pe_orders v ! i) \<and> cxl_leaves_qty e' = pv_remaining (pe_orders v ! i))
    \<and> (pv_status (pe_orders v ! i) = StFilled \<longrightarrow> cxl_cancel_status e' = CsTooLate \<and> cxl_order_status e' = StFilled
        \<and> cxl_cumulative_qty e' = pv_cumulative_qty (pe_orders v ! i))"
  using assms by (auto simp: resolve_pending_cancel_def Let_def split: if_splits)

text \<open>
  The exception of \<open>venue_events_are_accepted\<close> is real: with the fault that refuses the next cancel, cancelling an order that
  is already cancelled makes the venue schedule an event that calls the cancel refused and the order cancelled, which the
  order manager's check takes for a contradiction.
\<close>

theorem refused_cancel_contradicts_itself:
  assumes "venue_cancel_target v req = Some i" and "pv_status (pe_orders v ! i) = StCanceled" and "identifies_an_order req"
    and "0 < fa_reject_next_cancel (pe_faults v)" and "length (pe_pending v) < pc_max_pending_events (pe_config v)"
    and "order_ok (pe_orders v ! i)"
  shows "\<exists>s\<in>set (pe_pending (process_cancel ck v req delay)). validate_execution_event (sc_event s) = Internal"
proof -
  have t: "venue_cancel_target (snd (next_seq v)) req = Some i" using assms(1) by (auto simp: venue_cancel_target_def split: option.splits if_splits)
  have c: "fst (consume fa_reject_next_cancel fa_reject_next_cancel_update (snd (next_seq v)))"
    using assms(4) by (simp add: consume_def)
  have sched: "\<exists>s\<in>set (pe_pending (schedule ck w d ev)). sc_event s = ev"
    if "length (pe_pending w) < pc_max_pending_events (pe_config w)" for w d ev
    using that by (simp add: schedule_def schedule_at_def Let_def case_prod_beta)
  let ?e = "(cancel_event ck req (fst (next_seq v)))\<lparr>cxl_cancel_status := CsRejected, cxl_order_status := StCanceled,
    cxl_cumulative_qty := pv_cumulative_qty (pe_orders v ! i), cxl_leaves_qty := pv_remaining (pe_orders v ! i),
    cxl_error := make_error ExchangeRejectionErr OutRejected NoReason 0 False\<rparr>"
  have "validate_execution_event (EvOrderCancel ?e) = Internal"
    using assms(3) order_ok_remaining [OF assms(6)]
    by (auto simp: validate_execution_event_def identifies_an_order_def status_is_terminal_def)
  moreover have "\<exists>s\<in>set (pe_pending (process_cancel ck v req delay)). sc_event s = EvOrderCancel ?e"
    using t c assms(2,5) by (simp add: process_cancel_def Let_def case_prod_beta sched)
  ultimately show ?thesis by metis
qed

text \<open>
  A stale book stops the fills of resting orders only: the pass does nothing but count the skip, while an order that is
  marketable on arrival is executed without any look at the age of the book, although the configuration promises that a
  book older than \<open>max_book_age_ns\<close> stops producing fills.
\<close>

theorem stale_book_still_fills_arrivals:
  assumes "pe_books v (or_symbol req) = Some a" and "\<not> is_post_only req" and "request_ok (VrSubmit req)"
    and "store_fits store" and "o' = order_from req (fst (next_exchange_id v)) (pe_next_arrival_seq v) (ck_steady ck)"
    and "is_marketable_on_arrival o' (store a)"
    and "0 < mr_quantity (match_against_book o' (store a) (pc_fill_model (pe_config v)) (pc_queue_share_bps (pe_config v)))"
  shows "0 < pv_cumulative_qty (pe_orders (accept_order ck store (v\<lparr>pe_book_updated_ns := updated\<rparr>) req delay) ! length (pe_orders v))
    \<and> (ob_is_valid (store a) \<and> pc_max_book_age_ns (pe_config v) < now - t \<longrightarrow>
         pe_orders (match_symbol ck store (v\<lparr>pe_book_updated_ns := (pe_book_updated_ns v)(or_symbol req \<mapsto> t)\<rparr>) (or_symbol req) now)
           = pe_orders v)"
proof -
  let ?m = "match_against_book o' (store a) (pc_fill_model (pe_config v)) (pc_queue_share_bps (pe_config v))"
  have ok: "order_ok o'" using assms(3) unfolding assms(5) by (intro order_from_ok) (simp_all add: request_ok_def)
  then have fair: "pv_is_resting o'" "mr_quantity ?m \<le> pv_remaining o'"
    using match_against_book_fair [OF assms(7)] assms(4) by (simp_all add: order_ok_def store_fits_def)
  have "pv_cumulative_qty (apply_match o' (?m\<lparr>mr_liquidity := Taker\<rparr>) t') = pv_cumulative_qty o' + mr_quantity ?m" for t'
    using apply_match_filled [OF ok fair(1), of "?m\<lparr>mr_liquidity := Taker\<rparr>" t'] assms(7) fair(2) by simp
  moreover have "pv_cumulative_qty o' = 0" "\<not> pv_post_only o'" using assms(2,5) by (simp_all add: order_from_def)
  moreover have n: "next_exchange_id (v\<lparr>pe_book_updated_ns := updated\<rparr>)
      = (fst (next_exchange_id v), (snd (next_exchange_id v))\<lparr>pe_book_updated_ns := updated\<rparr>)"
    "pe_next_arrival_seq (snd (next_exchange_id v)) = pe_next_arrival_seq v"
    by (simp_all add: next_exchange_id_def)
  ultimately have "0 < pv_cumulative_qty (pe_orders (accept_order ck store (v\<lparr>pe_book_updated_ns := updated\<rparr>) req delay) ! length (pe_orders v))"
    using assms(1,6,7)
    by (simp add: accept_order_def assms(5) [symmetric] take_on_arrival_def rest_order_def Let_def case_prod_beta)
  moreover have "ob_is_valid (store a) \<and> pc_max_book_age_ns (pe_config v) < now - t \<longrightarrow>
       pe_orders (match_symbol ck store (v\<lparr>pe_book_updated_ns := (pe_book_updated_ns v)(or_symbol req \<mapsto> t)\<rparr>) (or_symbol req) now)
         = pe_orders v"
    using assms(1) by (simp add: match_symbol_def Let_def)
  ultimately show ?thesis by blast
qed

text \<open>
  A replace does not ask whether its new client identity is taken: afterwards the identity leads to the replaced order, while
  the order that had it rests on unreachable, so that two orders of the venue answer to one client identity.
\<close>

theorem replace_takes_over_identity:
  assumes "pe_by_client_id v (rr_new_client_order_id req) = Some j" and "j \<noteq> i" and "i < length (pe_orders v)"
    and "pe_inv v"
  shows "pe_by_client_id (fst (swap_identity ck v i req)) (rr_new_client_order_id req) = Some i
    \<and> pe_orders (fst (swap_identity ck v i req)) ! j = pe_orders v ! j
    \<and> pv_client_order_id (pe_orders v ! j) = rr_new_client_order_id req
    \<and> pv_client_order_id (pe_orders (fst (swap_identity ck v i req)) ! i) = rr_new_client_order_id req"
  using assms pe_inv_order(1) [OF assms(4,1)]
  by (simp add: swap_identity_def Let_def case_prod_beta amended_def)

end
