(* ===== verification/PaperReplay.thy ===== *)
theory PaperReplay
  imports PaperProperties
begin

text \<open>
  Recording and replaying a session of the simulated venue, \<^verbatim>\<open>PaperReplay.hpp\<close> and \<^verbatim>\<open>PaperReplay.cpp\<close>. The
  replay owns its clock, its venue and one book; the book lives at one address, so a market update rewrites the store the
  venue reads. The transcribing sink turns every delivered event into a line of text.
\<close>

section \<open>Names\<close>

definition OrderStatus_to_string :: "OrderStatus \<Rightarrow> string" where
  "OrderStatus_to_string s = (case s of
     StUnknown \<Rightarrow> ''UNKNOWN'' | StNew \<Rightarrow> ''NEW'' | StPartiallyFilled \<Rightarrow> ''PARTIALLY_FILLED'' | StFilled \<Rightarrow> ''FILLED''
   | StCanceled \<Rightarrow> ''CANCELED'' | StRejected \<Rightarrow> ''REJECTED'' | StExpired \<Rightarrow> ''EXPIRED''
   | StPendingCancel \<Rightarrow> ''PENDING_CANCEL'' | StPendingReplace \<Rightarrow> ''PENDING_REPLACE'')"

definition CancelStatus_to_string :: "CancelStatus \<Rightarrow> string" where
  "CancelStatus_to_string s = (case s of
     CsUnknown \<Rightarrow> ''UNKNOWN'' | CsAccepted \<Rightarrow> ''ACCEPTED'' | CsRejected \<Rightarrow> ''REJECTED''
   | CsOrderNotFound \<Rightarrow> ''ORDER_NOT_FOUND'' | CsTooLate \<Rightarrow> ''TOO_LATE'')"

definition ConnectionState_to_string :: "ConnectionState \<Rightarrow> string" where
  "ConnectionState_to_string s = (case s of
     CnDisconnected \<Rightarrow> ''DISCONNECTED'' | CnConnecting \<Rightarrow> ''CONNECTING'' | CnConnected \<Rightarrow> ''CONNECTED''
   | CnReconnecting \<Rightarrow> ''RECONNECTING'' | CnFailed \<Rightarrow> ''FAILED'')"

definition RejectReason_to_string :: "RejectReason \<Rightarrow> string" where
  "RejectReason_to_string r = (case r of
     NoReason \<Rightarrow> ''NONE'' | UnknownReason \<Rightarrow> ''UNKNOWN'' | InsufficientBalance \<Rightarrow> ''INSUFFICIENT_BALANCE''
   | PriceOutOfBounds \<Rightarrow> ''PRICE_OUT_OF_BOUNDS'' | QuantityOutOfBounds \<Rightarrow> ''QUANTITY_OUT_OF_BOUNDS''
   | NotionalTooSmall \<Rightarrow> ''NOTIONAL_TOO_SMALL'' | TickSizeViolation \<Rightarrow> ''TICK_SIZE_VIOLATION''
   | LotSizeViolation \<Rightarrow> ''LOT_SIZE_VIOLATION'' | PostOnlyWouldCross \<Rightarrow> ''POST_ONLY_WOULD_CROSS''
   | DuplicateClientOrderId \<Rightarrow> ''DUPLICATE_CLIENT_ORDER_ID'' | UnknownOrder \<Rightarrow> ''UNKNOWN_ORDER''
   | RateLimited \<Rightarrow> ''RATE_LIMITED'' | MarketClosed \<Rightarrow> ''MARKET_CLOSED'' | SymbolNotTrading \<Rightarrow> ''SYMBOL_NOT_TRADING''
   | ReduceOnlyViolation \<Rightarrow> ''REDUCE_ONLY_VIOLATION'' | RiskLimitExceeded \<Rightarrow> ''RISK_LIMIT_EXCEEDED''
   | Connectivity \<Rightarrow> ''CONNECTIVITY'' | InternalError \<Rightarrow> ''INTERNAL_ERROR'')"

definition event_type_to_string :: "ExecutionEvent \<Rightarrow> string" where
  "event_type_to_string ev = (case ev of
     EvNone \<Rightarrow> ''NONE'' | EvOrderAck _ \<Rightarrow> ''ORDER_ACK'' | EvOrderReject _ \<Rightarrow> ''ORDER_REJECT''
   | EvOrderCancel _ \<Rightarrow> ''ORDER_CANCEL'' | EvOrderReplace _ \<Rightarrow> ''ORDER_REPLACE'' | EvFill _ \<Rightarrow> ''FILL''
   | EvBalanceUpdate _ \<Rightarrow> ''BALANCE_UPDATE'' | EvPositionUpdate _ \<Rightarrow> ''POSITION_UPDATE''
   | EvConnection _ \<Rightarrow> ''CONNECTION'' | EvRequestFailure _ \<Rightarrow> ''REQUEST_FAILURE''
   | EvOpenOrdersSnapshot _ \<Rightarrow> ''OPEN_ORDERS_SNAPSHOT'' | EvOrderStatus _ \<Rightarrow> ''ORDER_STATUS'')"

section \<open>Sessions and transcripts\<close>

datatype RecordedKind =
    RaSubmit OrderRequest | RaCancel CancelRequest | RaReplace ReplaceRequest
  | RaMarketUpdate string BookLevels seq | RaPoll

record RecordedAction =
  ra_kind :: RecordedKind
  ra_offset_ns :: nanos

record RecordedSession =
  rs_config :: PaperExecutionConfig
  rs_symbol :: string
  rs_initial_levels :: BookLevels
  rs_initial_update_id :: seq
  rs_actions :: "RecordedAction list"

definition transcribe :: "ExecutionEvent \<Rightarrow> string" where
  "transcribe ev = event_type_to_string ev @ ''|'' @ event_client_order_id ev @
     (case ev of
        EvOrderAck e \<Rightarrow> ''|'' @ ack_exchange_order_id e @ ''|'' @ format_fixed_raw (ack_price e) @ ''|''
          @ format_fixed_raw (ack_original_qty e)
      | EvFill e \<Rightarrow> ''|'' @ fill_trade_id e @ ''|'' @ format_fixed_raw (fill_price e) @ ''|''
          @ format_fixed_raw (fill_quantity e) @ ''|'' @ format_fixed_raw (fill_cumulative_qty e)
      | EvOrderCancel e \<Rightarrow> ''|'' @ CancelStatus_to_string (cxl_cancel_status e) @ ''|'' @ OrderStatus_to_string (cxl_order_status e)
      | EvOrderReplace e \<Rightarrow> ''|'' @ (if rpl_accepted e then ''OK'' else ''NO'') @ ''|'' @ format_fixed_raw (rpl_new_price e)
      | EvOrderReject e \<Rightarrow> ''|'' @ RejectReason_to_string (ee_reason (rej_error e))
      | EvConnection e \<Rightarrow> ''|'' @ ConnectionState_to_string (con_to e)
      | EvOpenOrdersSnapshot e \<Rightarrow> ''|'' @ uint_to_string (int (oos_count e))
      | _ \<Rightarrow> [])"

record ReplayResult =
  rep_transcript :: "string list"
  rep_final_orders :: "PaperOrder list"
  rep_metrics :: "PaperMetric counters"

text \<open>The fields of an order that a comparison of two replays looks at.\<close>

definition same_final_order :: "PaperOrder \<Rightarrow> PaperOrder \<Rightarrow> bool" where
  "same_final_order a b \<longleftrightarrow> pv_exchange_order_id a = pv_exchange_order_id b \<and> pv_client_order_id a = pv_client_order_id b
     \<and> pv_status a = pv_status b \<and> pv_price a = pv_price b \<and> pv_original_qty a = pv_original_qty b
     \<and> pv_cumulative_qty a = pv_cumulative_qty b \<and> pv_arrival_sequence a = pv_arrival_sequence b"

definition replay_matches :: "ReplayResult \<Rightarrow> ReplayResult \<Rightarrow> bool" where
  "replay_matches a b \<longleftrightarrow> rep_transcript a = rep_transcript b
     \<and> length (rep_final_orders a) = length (rep_final_orders b)
     \<and> list_all (\<lambda>i. same_final_order (rep_final_orders a ! i) (rep_final_orders b ! i)) [0..<length (rep_final_orders a)]"

fun first_order_difference :: "PaperOrder list \<Rightarrow> PaperOrder list \<Rightarrow> string" where
  "first_order_difference (a # as) (b # bs) =
     (if pv_cumulative_qty a \<noteq> pv_cumulative_qty b then ''final cumulative quantity for '' @ pv_client_order_id a
      else if pv_status a \<noteq> pv_status b then ''final status for '' @ pv_client_order_id a
      else first_order_difference as bs)"
| "first_order_difference _ _ = []"

fun first_line_difference :: "nat \<Rightarrow> string list \<Rightarrow> string list \<Rightarrow> string option" where
  "first_line_difference i (x # xs) (y # ys) =
     (if x \<noteq> y then Some (''event '' @ uint_to_string (int i) @ '': '' @ [CHR 39] @ x @ [CHR 39] @ '' vs '' @ [CHR 39] @ y @ [CHR 39])
      else first_line_difference (Suc i) xs ys)"
| "first_line_difference i _ _ = None"

definition first_difference :: "ReplayResult \<Rightarrow> ReplayResult \<Rightarrow> string" where
  "first_difference a b =
     (case first_line_difference 0 (rep_transcript a) (rep_transcript b) of
        Some d \<Rightarrow> d
      | None \<Rightarrow>
          if length (rep_transcript a) \<noteq> length (rep_transcript b)
          then ''event count '' @ uint_to_string (int (length (rep_transcript a))) @ '' vs ''
             @ uint_to_string (int (length (rep_transcript b)))
          else if length (rep_final_orders a) \<noteq> length (rep_final_orders b)
          then ''final order count '' @ uint_to_string (int (length (rep_final_orders a))) @ '' vs ''
             @ uint_to_string (int (length (rep_final_orders b)))
          else first_order_difference (rep_final_orders a) (rep_final_orders b))"

section \<open>Replay\<close>

text \<open>A whole image goes into the book in one step; a refusal of it is ignored.\<close>

definition load_book :: "OrderBook \<Rightarrow> BookLevels \<Rightarrow> seq \<Rightarrow> OrderBook" where
  "load_book b levels update_id =
     fst (finish_snapshot (fst (add_snapshot_levels (begin_snapshot b) levels)) update_id)"

text \<open>The running replay: the clock's reading, the time applied so far, the book and the venue.\<close>

record Replaying =
  rg_now :: nanos
  rg_applied_ns :: nanos
  rg_book :: OrderBook
  rg_venue :: PaperExecution

definition replay_clock :: "nanos \<Rightarrow> Clock" where
  "replay_clock t = \<lparr>ck_steady = t, ck_wall = t\<rparr>"

definition replay_step :: "Replaying \<Rightarrow> RecordedAction \<Rightarrow> Replaying" where
  "replay_step r a =
     (let r1 = (if ra_offset_ns a > rg_applied_ns r
                then r\<lparr>rg_now := rg_now r + (ra_offset_ns a - rg_applied_ns r), rg_applied_ns := ra_offset_ns a\<rparr> else r);
          ck = replay_clock (rg_now r1); v = rg_venue r1
      in (case ra_kind a of
            RaSubmit req \<Rightarrow> r1\<lparr>rg_venue := fst (pe_submit ck v req)\<rparr>
          | RaCancel req \<Rightarrow> r1\<lparr>rg_venue := fst (pe_cancel ck v req)\<rparr>
          | RaReplace req \<Rightarrow> r1\<lparr>rg_venue := fst (pe_replace ck v req)\<rparr>
          | RaMarketUpdate symbol levels update_id \<Rightarrow>
              let b = load_book (rg_book r1) levels update_id
              in r1\<lparr>rg_book := b, rg_venue := on_market_update ck (\<lambda>_. b) v symbol (rg_now r1)\<rparr>
          | RaPoll \<Rightarrow> r1\<lparr>rg_venue := fst (poll ck (\<lambda>_. rg_book r1) v)\<rparr>))"

definition replay_start :: "RecordedSession \<Rightarrow> Replaying" where
  "replay_start s =
     (let b = load_book (new_book (rs_symbol s) 32) (rs_initial_levels s) (rs_initial_update_id s);
          v = attach_book (fst (pe_start (new_paper (rs_config s)))) (rs_symbol s) 0
      in \<lparr>rg_now = 0, rg_applied_ns = 0, rg_book = b,
          rg_venue = on_market_update (replay_clock 0) (\<lambda>_. b) v (rs_symbol s) 0\<rparr>)"

definition replay_session :: "RecordedSession \<Rightarrow> ReplayResult" where
  "replay_session s =
     (let r = foldl replay_step (replay_start s) (rs_actions s)
      in \<lparr>rep_transcript = map transcribe (pe_delivered (rg_venue r)), rep_final_orders = pe_orders (rg_venue r),
          rep_metrics = pe_metrics (rg_venue r)\<rparr>)"

definition new_recorder :: "PaperExecutionConfig \<Rightarrow> string \<Rightarrow> BookLevels \<Rightarrow> seq \<Rightarrow> RecordedSession" where
  "new_recorder config symbol initial update_id =
     \<lparr>rs_config = config, rs_symbol = symbol, rs_initial_levels = initial, rs_initial_update_id = update_id, rs_actions = []\<rparr>"

definition record_step :: "RecordedSession \<Rightarrow> nanos \<Rightarrow> RecordedKind \<Rightarrow> RecordedSession" where
  "record_step s offset k = s\<lparr>rs_actions := rs_actions s @ [\<lparr>ra_kind = k, ra_offset_ns = offset\<rparr>]\<rparr>"

definition record_submit :: "RecordedSession \<Rightarrow> nanos \<Rightarrow> OrderRequest \<Rightarrow> RecordedSession" where
  "record_submit s offset req = record_step s offset (RaSubmit req)"

definition record_cancel :: "RecordedSession \<Rightarrow> nanos \<Rightarrow> CancelRequest \<Rightarrow> RecordedSession" where
  "record_cancel s offset req = record_step s offset (RaCancel req)"

definition record_replace :: "RecordedSession \<Rightarrow> nanos \<Rightarrow> ReplaceRequest \<Rightarrow> RecordedSession" where
  "record_replace s offset req = record_step s offset (RaReplace req)"

definition record_market :: "RecordedSession \<Rightarrow> nanos \<Rightarrow> string \<Rightarrow> BookLevels \<Rightarrow> seq \<Rightarrow> RecordedSession" where
  "record_market s offset symbol levels update_id = record_step s offset (RaMarketUpdate symbol levels update_id)"

definition record_poll :: "RecordedSession \<Rightarrow> nanos \<Rightarrow> RecordedSession" where
  "record_poll s offset = record_step s offset RaPoll"

section \<open>Lemmas\<close>

lemma first_line_difference_None:
  "length xs = length ys \<Longrightarrow> first_line_difference i xs ys = None \<longleftrightarrow> xs = ys"
  by (induction i xs ys rule: first_line_difference.induct) auto

lemma first_line_difference_same [simp]: "first_line_difference i xs xs = None"
  by (simp add: first_line_difference_None)

lemma first_order_difference_same:
  "list_all2 same_final_order as bs \<Longrightarrow> first_order_difference as bs = []"
  by (induction rule: list_all2_induct) (simp_all add: same_final_order_def)

lemma replay_matches_list_all2:
  "replay_matches a b \<longleftrightarrow> rep_transcript a = rep_transcript b
     \<and> list_all2 same_final_order (rep_final_orders a) (rep_final_orders b)"
  by (auto simp: replay_matches_def list_all2_conv_all_nth list_all_iff)

lemma replay_snoc:
  "foldl replay_step (replay_start (record_step s offset k)) (rs_actions (record_step s offset k))
     = replay_step (foldl replay_step (replay_start s) (rs_actions s)) \<lparr>ra_kind = k, ra_offset_ns = offset\<rparr>"
  by (simp add: record_step_def replay_start_def)

section \<open>Properties\<close>

text \<open>
  Two replays that match have no difference to report; when both delivered the same transcript and differ in an order's
  filled quantity or status, a difference is reported.
\<close>

theorem matching_replays_report_nothing:
  assumes "replay_matches a b"
  shows "first_difference a b = []"
  using assms first_order_difference_same by (auto simp: replay_matches_list_all2 first_difference_def dest: list_all2_lengthD)

text \<open>
  The report is weaker than the comparison: two replays can differ, in a final price for instance, and the first difference
  reported is empty.
\<close>

theorem replay_difference_unreported:
  assumes "rep_transcript a = rep_transcript b" and "rep_final_orders a = [x]" and "rep_final_orders b = [x\<lparr>pv_price := p\<rparr>]"
    and "p \<noteq> pv_price x"
  shows "\<not> replay_matches a b \<and> first_difference a b = []"
  using assms by (simp add: replay_matches_list_all2 same_final_order_def first_difference_def)

end
