(* ===== verification/OrderTypes.thy ===== *)
theory OrderTypes
  imports OrderAction ExecutionEvents DedupRing RiskState ClientOrderId
begin

text \<open>
  The order life cycle and the records of the order manager: \<^verbatim>\<open>OrderTypes\<close>, \<^verbatim>\<open>OrderRecord.hpp\<close>, \<^verbatim>\<open>OrderJournal.hpp\<close>
  and \<^verbatim>\<open>Reconciliation.hpp\<close>, and the view the quote manager gets (\<^verbatim>\<open>WorkingQuoteState.hpp\<close>). Engine-owned
  identifiers are naturals with 0 as the invalid one.
\<close>

section \<open>Definitions\<close>

type_synonym logical_order_id = nat
type_synonym request_id = nat

datatype OrderState =
    Created | PendingNew | Working | PartiallyFilled | PendingCancel | PendingReplace
  | Filled | Cancelled | RejectedState | Expired | UnknownState | Orphaned

definition is_terminal :: "OrderState \<Rightarrow> bool" where
  "is_terminal s \<longleftrightarrow> s = Filled \<or> s = Cancelled \<or> s = RejectedState \<or> s = Expired"

definition consumes_exposure :: "OrderState \<Rightarrow> bool" where
  "consumes_exposure s \<longleftrightarrow> \<not> is_terminal s \<and> s \<noteq> Created \<and> s \<noteq> Orphaned"

definition is_live :: "OrderState \<Rightarrow> bool" where
  "is_live s \<longleftrightarrow> s = Working \<or> s = PartiallyFilled \<or> s = PendingCancel \<or> s = PendingReplace"

definition state_has_pending_request :: "OrderState \<Rightarrow> bool" where
  "state_has_pending_request s \<longleftrightarrow> s = PendingNew \<or> s = PendingCancel \<or> s = PendingReplace"

datatype OrderEventType =
    OeNone | OeCreated | OeRequestSent | OeAcknowledged | OeRejected | OePartiallyFilled | OeFilled
  | OeCancelRequested | OeCancelAcknowledged | OeCancelRejected | OeReplaceRequested | OeReplaceAcknowledged
  | OeReplaceRejected | OeExpired | OeRequestTimedOut | OeOutcomeUnknown | OeReconciliationDetected
  | OeReconciliationResolved | OeEventQuarantined

datatype OmsReject =
    OrNone | OrNotRiskApproved | OrIllegalTransition | OrTerminalOrder | OrUnknownOrder | OrDuplicateRequest
  | OrDuplicateEvent | OrPendingOperation | OrOwnershipViolation | OrStaleGeneration | OrCapacityExhausted
  | OrIdentityGenerationFailed | OrImpossibleFill | OrArithmeticOverflow | OrExecutionUnavailable
  | OrIdentityCollision

definition order_legal_transition :: "OrderState \<Rightarrow> OrderState \<Rightarrow> bool" where
  "order_legal_transition from_st to_st =
     (if from_st = to_st then True
      else if is_terminal from_st then False
      else if to_st = UnknownState then from_st \<noteq> Created
      else if to_st = Orphaned then True
      else case from_st of
             Created \<Rightarrow> to_st = PendingNew \<or> to_st = RejectedState
           | PendingNew \<Rightarrow> to_st = Working \<or> to_st = PartiallyFilled \<or> to_st = Filled \<or> to_st = RejectedState
               \<or> to_st = Expired
           | Working \<Rightarrow> to_st = PartiallyFilled \<or> to_st = Filled \<or> to_st = PendingCancel \<or> to_st = PendingReplace
               \<or> to_st = Cancelled \<or> to_st = Expired \<or> to_st = RejectedState
           | PartiallyFilled \<Rightarrow> to_st = Filled \<or> to_st = PendingCancel \<or> to_st = PendingReplace
               \<or> to_st = Cancelled \<or> to_st = Expired
           | PendingCancel \<Rightarrow> to_st = Cancelled \<or> to_st = Filled \<or> to_st = PartiallyFilled \<or> to_st = Working
               \<or> to_st = Expired
           | PendingReplace \<Rightarrow> to_st = Working \<or> to_st = PartiallyFilled \<or> to_st = Filled \<or> to_st = Cancelled
               \<or> to_st = RejectedState \<or> to_st = Expired
           | UnknownState \<Rightarrow> True
           | Orphaned \<Rightarrow> to_st = Cancelled \<or> to_st = UnknownState
           | _ \<Rightarrow> False)"

definition from_venue_status :: "OrderStatus \<Rightarrow> OrderState" where
  "from_venue_status status =
     (case status of
        StNew \<Rightarrow> Working
      | StPartiallyFilled \<Rightarrow> PartiallyFilled
      | StFilled \<Rightarrow> Filled
      | StCanceled \<Rightarrow> Cancelled
      | StRejected \<Rightarrow> RejectedState
      | StExpired \<Rightarrow> Expired
      | StPendingCancel \<Rightarrow> PendingCancel
      | StPendingReplace \<Rightarrow> PendingReplace
      | StUnknown \<Rightarrow> UnknownState)"

record OrderOwnership =
  oo_strategy :: string
  oo_slot :: QuoteSlot
  oo_generation :: nat
  oo_creation_sequence :: nat

definition ownership_matches :: "OrderOwnership \<Rightarrow> string \<Rightarrow> QuoteSlot \<Rightarrow> bool" where
  "ownership_matches o1 owner which \<longleftrightarrow> oo_strategy o1 \<noteq> [] \<and> oo_strategy o1 = owner \<and> oo_slot o1 = which"

record OrderRecord =
  od_logical_id :: logical_order_id
  od_client_order_id :: string
  od_exchange_order_id :: string
  od_ownership :: OrderOwnership
  od_symbol :: string
  od_symbol_id :: symbol_id
  od_side :: Side
  od_type :: OrderType
  od_tif :: TimeInForce
  od_price :: px
  od_original_quantity :: qty
  od_state :: OrderState
  od_cumulative_quantity :: qty
  od_average_fill_price :: px
  od_cumulative_fees :: notional
  od_seen_trades :: SeenIds
  od_pending_request :: request_id
  od_pending_since_ns :: nanos
  od_pending_price :: px
  od_pending_quantity :: qty
  od_pending_client_order_id :: string
  od_created_ns :: nanos
  od_sent_ns :: nanos
  od_acknowledged_ns :: nanos
  od_terminal_ns :: nanos
  od_venue_ns :: nanos
  od_last_applied_sequence :: seq
  od_trace :: nat

definition remaining :: "OrderRecord \<Rightarrow> qty" where
  "remaining o1 =
     (case checked_sub (od_original_quantity o1) (od_cumulative_quantity o1) of
        None \<Rightarrow> 0
      | Some left \<Rightarrow> if left > 0 then left else 0)"

definition has_pending_request :: "OrderRecord \<Rightarrow> bool" where
  "has_pending_request o1 \<longleftrightarrow> od_pending_request o1 \<noteq> 0"

record OrderJournalRecord =
  jr_sequence :: nat
  jr_type :: OrderEventType
  jr_logical_id :: logical_order_id
  jr_client_order_id :: string
  jr_exchange_order_id :: string
  jr_symbol :: string
  jr_side :: Side
  jr_from_state :: OrderState
  jr_to_state :: OrderState
  jr_price :: px
  jr_quantity :: qty
  jr_cumulative_quantity :: qty
  jr_trade_id :: string
  jr_reject :: OmsReject
  jr_request_id :: request_id
  jr_recorded_ns :: nanos
  jr_venue_ns :: nanos
  jr_generation :: nat
  jr_trace :: nat

definition blank_record :: OrderJournalRecord where
  "blank_record = \<lparr>jr_sequence = 0, jr_type = OeNone, jr_logical_id = 0, jr_client_order_id = [],
     jr_exchange_order_id = [], jr_symbol = [], jr_side = Buy, jr_from_state = Created, jr_to_state = Created,
     jr_price = 0, jr_quantity = 0, jr_cumulative_quantity = 0, jr_trade_id = [], jr_reject = OrNone,
     jr_request_id = 0, jr_recorded_ns = 0, jr_venue_ns = 0, jr_generation = 0, jr_trace = 0\<rparr>"

text \<open>\<open>InMemoryOrderJournal\<close>: bounded, the oldest record goes first.\<close>

record OrderJournal =
  oj_records :: "OrderJournalRecord list"
  oj_capacity :: nat
  oj_appended :: nat
  oj_dropped :: nat

definition journal_append :: "OrderJournal \<Rightarrow> OrderJournalRecord \<Rightarrow> OrderJournal" where
  "journal_append j r =
     (let j1 = (if length (oj_records j) \<ge> oj_capacity j
                then j\<lparr>oj_records := tl (oj_records j), oj_dropped := inc64 (oj_dropped j)\<rparr> else j)
      in j1\<lparr>oj_records := oj_records j1 @ [r], oj_appended := inc64 (oj_appended j1)\<rparr>)"

definition journal_for_order :: "OrderJournal \<Rightarrow> logical_order_id \<Rightarrow> OrderJournalRecord list" where
  "journal_for_order j i = filter (\<lambda>r. jr_logical_id r = i) (oj_records j)"

definition journal_count_of :: "OrderJournal \<Rightarrow> OrderEventType \<Rightarrow> nat" where
  "journal_count_of j ty = length (filter (\<lambda>r. jr_type r = ty) (oj_records j))"

definition journal_clear :: "OrderJournal \<Rightarrow> OrderJournal" where
  "journal_clear j = j\<lparr>oj_records := [], oj_appended := 0, oj_dropped := 0\<rparr>"

datatype DiscrepancyKind =
    DkNone | DkOrphanAtVenue | DkMissingAtVenue | DkQuantityMismatch | DkPriceMismatch | DkStatusMismatch
  | DkIdentityCollision

record Discrepancy =
  dc_kind :: DiscrepancyKind
  dc_logical_id :: logical_order_id
  dc_client_order_id :: string
  dc_exchange_order_id :: string
  dc_symbol :: string
  dc_local_state :: OrderState
  dc_venue_status :: OrderStatus
  dc_local_cumulative :: qty
  dc_venue_cumulative :: qty
  dc_local_price :: px
  dc_venue_price :: px
  dc_identity_is_ours :: bool

record VenueSnapshot =
  vs_orders :: "OrderStatusReport list"
  vs_symbol_filter :: string
  vs_is_complete :: bool
  vs_received_ns :: nanos

record ReconciliationReport =
  rp_discrepancies :: "Discrepancy list"
  rp_orders_compared :: nat
  rp_orders_agreed :: nat
  rp_performed_ns :: nanos

definition report_clean :: "ReconciliationReport \<Rightarrow> bool" where
  "report_clean r \<longleftrightarrow> rp_discrepancies r = []"

definition report_count_of :: "ReconciliationReport \<Rightarrow> DiscrepancyKind \<Rightarrow> nat" where
  "report_count_of r kind = length (filter (\<lambda>d. dc_kind d = kind) (rp_discrepancies r))"

record WorkingOrder =
  wo_present :: bool
  wo_owner :: QuoteOwner
  wo_side :: Side
  wo_price :: px
  wo_original_quantity :: qty
  wo_cumulative_quantity :: qty
  wo_status :: OrderStatus
  wo_pending :: PendingOperation
  wo_client_order_id :: string
  wo_exchange_order_id :: string
  wo_generation :: nat
  wo_last_action_ns :: nanos

definition no_order :: WorkingOrder where
  "no_order = \<lparr>wo_present = False, wo_owner = no_owner, wo_side = Buy, wo_price = 0, wo_original_quantity = 0,
     wo_cumulative_quantity = 0, wo_status = StUnknown, wo_pending = PoNone, wo_client_order_id = [],
     wo_exchange_order_id = [], wo_generation = 0, wo_last_action_ns = 0\<rparr>"

definition wo_remaining :: "WorkingOrder \<Rightarrow> qty" where
  "wo_remaining w =
     (let left = fx_sub (wo_original_quantity w) (wo_cumulative_quantity w) in if left > 0 then left else 0)"

definition is_partially_filled :: "WorkingOrder \<Rightarrow> bool" where
  "is_partially_filled w \<longleftrightarrow> wo_cumulative_quantity w > 0 \<and> wo_remaining w > 0"

definition wo_is_live :: "WorkingOrder \<Rightarrow> bool" where
  "wo_is_live w \<longleftrightarrow> wo_present w \<and> \<not> status_is_terminal (wo_status w)"

definition is_uncertain :: "WorkingOrder \<Rightarrow> bool" where
  "is_uncertain w \<longleftrightarrow> wo_present w \<and> wo_status w = StUnknown"

definition wo_has_pending_request :: "WorkingOrder \<Rightarrow> bool" where
  "wo_has_pending_request w \<longleftrightarrow> wo_pending w \<noteq> PoNone"

record WorkingQuoteState =
  wq_bid :: WorkingOrder
  wq_ask :: WorkingOrder
  wq_foreign_order_count :: nat

definition empty_quotes :: WorkingQuoteState where
  "empty_quotes = \<lparr>wq_bid = no_order, wq_ask = no_order, wq_foreign_order_count = 0\<rparr>"

definition wq_slot :: "WorkingQuoteState \<Rightarrow> QuoteSlot \<Rightarrow> WorkingOrder" where
  "wq_slot s which = (if which = Bid then wq_bid s else wq_ask s)"

definition set_wq_slot :: "WorkingQuoteState \<Rightarrow> QuoteSlot \<Rightarrow> WorkingOrder \<Rightarrow> WorkingQuoteState" where
  "set_wq_slot s which w = (if which = Bid then s\<lparr>wq_bid := w\<rparr> else s\<lparr>wq_ask := w\<rparr>)"

definition any_live :: "WorkingQuoteState \<Rightarrow> bool" where
  "any_live s \<longleftrightarrow> wo_is_live (wq_bid s) \<or> wo_is_live (wq_ask s)"

section \<open>Lemmas\<close>

lemma terminal_absorbing: "is_terminal s \<Longrightarrow> order_legal_transition s t \<Longrightarrow> t = s"
  by (simp add: order_legal_transition_def split: if_splits)

lemma terminal_simps [simp]:
  "is_terminal Filled" "is_terminal Cancelled" "is_terminal RejectedState" "is_terminal Expired"
  "\<not> is_terminal Created" "\<not> is_terminal PendingNew" "\<not> is_terminal Working" "\<not> is_terminal PartiallyFilled"
  "\<not> is_terminal PendingCancel" "\<not> is_terminal PendingReplace" "\<not> is_terminal UnknownState" "\<not> is_terminal Orphaned"
  by (simp_all add: is_terminal_def)

lemma remaining_nonneg: "0 \<le> remaining o1"
  by (simp add: remaining_def split: option.splits)

end
