(* ===== verification/RateLimiter.thy ===== *)
theory RateLimiter
  imports Double Types
begin

text \<open>
  The token bucket of \<^verbatim>\<open>include/mm/risk/RateLimiter.hpp\<close>: a budget of \<^verbatim>\<open>double\<close> tokens that refills with elapsed
  steady-clock time and is capped at the burst capacity. The clock reading is an argument, as in the source.
\<close>

section \<open>Definitions\<close>

definition kNanosPerSecond :: int where
  "kNanosPerSecond = 1000000000"

record RateLimiter =
  rl_capacity :: int
  rl_per_second :: int
  rl_tokens :: rat
  rl_last_refill_ns :: nanos
  rl_grants :: nat
  rl_denials :: nat

definition new_limiter :: "int \<Rightarrow> int \<Rightarrow> RateLimiter" where
  "new_limiter capacity per_second = \<lparr>rl_capacity = capacity, rl_per_second = per_second,
     rl_tokens = of_int64 capacity, rl_last_refill_ns = 0, rl_grants = 0, rl_denials = 0\<rparr>"

definition projected_tokens :: "RateLimiter \<Rightarrow> nanos \<Rightarrow> rat" where
  "projected_tokens l now =
     (if rl_last_refill_ns l = 0 then of_int64 (rl_capacity l)
      else let elapsed = wrap64 (now - rl_last_refill_ns l)
           in if elapsed \<le> 0 then rl_tokens l
              else let refilled = dadd (rl_tokens l)
                         (dmul (ddiv (of_int64 elapsed) (of_int64 kNanosPerSecond)) (of_int64 (rl_per_second l)));
                       cap = of_int64 (rl_capacity l)
                   in if refilled > cap then cap else refilled)"

definition refill :: "RateLimiter \<Rightarrow> nanos \<Rightarrow> RateLimiter" where
  "refill l now =
     (if rl_last_refill_ns l = 0
      then l\<lparr>rl_last_refill_ns := now, rl_tokens := of_int64 (rl_capacity l)\<rparr>
      else l\<lparr>rl_tokens := projected_tokens l now, rl_last_refill_ns := now\<rparr>)"

definition try_acquire :: "RateLimiter \<Rightarrow> nanos \<Rightarrow> RateLimiter \<times> bool" where
  "try_acquire l now =
     (if rl_per_second l \<le> 0 then (l, True)
      else let l1 = refill l now
           in if rl_tokens l1 < 1 then (l1\<lparr>rl_denials := inc64 (rl_denials l1)\<rparr>, False)
              else (l1\<lparr>rl_tokens := dsub (rl_tokens l1) 1, rl_grants := inc64 (rl_grants l1)\<rparr>, True))"

definition would_allow :: "RateLimiter \<Rightarrow> nanos \<Rightarrow> bool" where
  "would_allow l now = (if rl_per_second l \<le> 0 then True else projected_tokens l now \<ge> 1)"

definition limiter_reset :: "RateLimiter \<Rightarrow> nanos \<Rightarrow> RateLimiter" where
  "limiter_reset l now = l\<lparr>rl_tokens := of_int64 (rl_capacity l), rl_last_refill_ns := now\<rparr>"

definition limiter_enabled :: "RateLimiter \<Rightarrow> bool" where
  "limiter_enabled l \<longleftrightarrow> rl_per_second l > 0"

section \<open>The budget stays within the capacity\<close>

definition limiter_ok :: "RateLimiter \<Rightarrow> bool" where
  [inv_defs]: "limiter_ok l \<longleftrightarrow> 0 \<le> rl_capacity l \<and> rl_capacity l < 2 ^ 31 \<and> 0 \<le> rl_tokens l
     \<and> rl_tokens l \<le> of_int (rl_capacity l)"

lemma of_int64_exact: "0 \<le> n \<Longrightarrow> n < 2 ^ 31 \<Longrightarrow> of_int64 n = of_int n"
  unfolding of_int64_def by (rule fl_of_int) simp

lemma of_int64_nonneg: "0 \<le> n \<Longrightarrow> 0 \<le> of_int64 n"
  unfolding of_int64_def by (rule fl_nonneg) simp

lemma new_limiter_ok: "0 \<le> c \<Longrightarrow> c < 2 ^ 31 \<Longrightarrow> limiter_ok (new_limiter c r)"
  by (simp add: limiter_ok_def new_limiter_def of_int64_exact)

lemma projected_ok:
  assumes "limiter_ok l" and "0 < rl_per_second l"
  shows "0 \<le> projected_tokens l now \<and> projected_tokens l now \<le> of_int (rl_capacity l)"
proof -
  have cap: "of_int64 (rl_capacity l) = of_int (rl_capacity l)"
    using assms(1) by (simp add: limiter_ok_def of_int64_exact)
  have nn: "0 \<le> dadd (rl_tokens l) (dmul (ddiv (of_int64 e) (of_int64 kNanosPerSecond)) (of_int64 (rl_per_second l)))"
    if "0 < e" for e
    using that assms unfolding dadd_def dmul_def ddiv_def limiter_ok_def
    by (intro fl_nonneg add_nonneg_nonneg mult_nonneg_nonneg divide_nonneg_nonneg of_int64_nonneg)
       (simp_all add: kNanosPerSecond_def)
  show ?thesis using assms nn by (auto simp: projected_tokens_def cap Let_def limiter_ok_def)
qed

lemma refill_ok: "limiter_ok l \<Longrightarrow> 0 < rl_per_second l \<Longrightarrow> limiter_ok (refill l now)"
  using projected_ok [of l now]
  by (auto simp: refill_def limiter_ok_def of_int64_exact)

lemma refill_simps [simp]:
  "rl_capacity (refill l now) = rl_capacity l" "rl_per_second (refill l now) = rl_per_second l"
  "rl_grants (refill l now) = rl_grants l"
  by (simp_all add: refill_def)

lemma try_acquire_ok:
  assumes "limiter_ok l"
  shows "limiter_ok (fst (try_acquire l now))"
proof (cases "rl_per_second l \<le> 0")
  case False
  then have l1: "limiter_ok (refill l now)" using assms by (simp add: refill_ok)
  have "0 \<le> dsub (rl_tokens (refill l now)) 1 \<and> dsub (rl_tokens (refill l now)) 1 \<le> of_int (rl_capacity l)"
    if "\<not> rl_tokens (refill l now) < 1"
  proof -
    have "dsub (rl_tokens (refill l now)) 1 \<le> fl (of_int (rl_capacity l))"
      unfolding dsub_def using l1 by (intro fl_mono) (simp add: limiter_ok_def)
    moreover have "fl (of_int (rl_capacity l)) = of_int (rl_capacity l)"
      using assms by (intro fl_of_int) (simp add: limiter_ok_def)
    moreover have "0 \<le> dsub (rl_tokens (refill l now)) 1" unfolding dsub_def using that by (intro fl_nonneg) simp
    ultimately show ?thesis by simp
  qed
  with l1 False show ?thesis by (auto simp: try_acquire_def Let_def limiter_ok_def)
qed (simp add: try_acquire_def assms)

lemma try_acquire_simps [simp]:
  "rl_capacity (fst (try_acquire l now)) = rl_capacity l" "rl_per_second (fst (try_acquire l now)) = rl_per_second l"
  by (simp_all add: try_acquire_def Let_def)

section \<open>The sustained rate\<close>

text \<open>A run of attempts at the given clock readings: the answers, in order.\<close>

fun acquire_all :: "RateLimiter \<Rightarrow> nanos list \<Rightarrow> RateLimiter \<times> bool list" where
  "acquire_all l [] = (l, [])"
| "acquire_all l (t # ts) =
     (let (l1, ok) = try_acquire l t; (l2, oks) = acquire_all l1 ts in (l2, ok # oks))"

definition granted :: "bool list \<Rightarrow> rat" where
  "granted oks = of_nat (length (filter id oks))"

lemma granted_Cons [simp]: "granted (b # bs) = (if b then 1 else 0) + granted bs"
  by (simp add: granted_def)

lemma granted_Nil [simp]: "granted [] = 0"
  by (simp add: granted_def)

lemma fl_upper_add: "0 \<le> x \<Longrightarrow> fl x \<le> x + x / 2 ^ 53"
  using fl_error [of x] by linarith

lemma fl_upper: "0 \<le> x \<Longrightarrow> fl x \<le> x * (1 + 1 / 2 ^ 53)"
  using fl_upper_add [of x] by (simp add: distrib_left)

definition refill_of :: "int \<Rightarrow> int \<Rightarrow> rat" where
  "refill_of e r = dmul (ddiv (of_int64 e) (of_int64 kNanosPerSecond)) (of_int64 r)"

lemma refill_of_upper:
  assumes "0 \<le> e" "0 < r" "r < 2 ^ 31"
  shows "0 \<le> refill_of e r" and "refill_of e r \<le> of_int e * of_int r / 10 ^ 9 * (1 + 1 / 2 ^ 53) ^ 3"
proof -
  let ?u = "1 + 1 / 2 ^ 53 :: rat"
  have r: "of_int64 r = of_int r" using assms by (simp add: of_int64_exact)
  have k: "of_int64 kNanosPerSecond = 10 ^ 9" by (simp add: of_int64_exact kNanosPerSecond_def)
  have a: "0 \<le> of_int64 e" using assms(1) by (rule of_int64_nonneg)
  have a2: "of_int64 e \<le> of_int e * ?u" unfolding of_int64_def using assms(1) by (intro fl_upper) simp
  have "0 \<le> of_int64 e / 10 ^ 9" using a by simp
  then have b: "0 \<le> ddiv (of_int64 e) (10 ^ 9)" "ddiv (of_int64 e) (10 ^ 9) \<le> of_int64 e / 10 ^ 9 * ?u"
    unfolding ddiv_def by (rule fl_nonneg, rule fl_upper)
  have c: "0 \<le> ddiv (of_int64 e) (10 ^ 9) * of_int r" using b(1) assms(2) by simp
  show "0 \<le> refill_of e r" unfolding refill_of_def r k dmul_def using c by (rule fl_nonneg)
  have "refill_of e r \<le> ddiv (of_int64 e) (10 ^ 9) * of_int r * ?u"
    unfolding refill_of_def r k dmul_def using c by (rule fl_upper)
  also have "\<dots> \<le> (of_int64 e / 10 ^ 9 * ?u) * of_int r * ?u" using b(2) assms(2) by (intro mult_right_mono) simp_all
  also have "\<dots> \<le> (of_int e * ?u / 10 ^ 9 * ?u) * of_int r * ?u" using a2 assms(2) by (intro mult_right_mono divide_right_mono) simp_all
  also have "\<dots> = of_int e * of_int r / 10 ^ 9 * ?u ^ 3" by (simp add: power3_eq_cube)
  finally show "refill_of e r \<le> of_int e * of_int r / 10 ^ 9 * ?u ^ 3" .
qed

definition allowance :: "int \<Rightarrow> nanos \<Rightarrow> rat" where
  "allowance r ns = of_int ns * of_int r / 10 ^ 9 * (1 + 1 / 2 ^ 50)"

lemma projected_upper:
  assumes "limiter_ok l" "0 < rl_per_second l" "rl_per_second l < 2 ^ 31" "0 < rl_last_refill_ns l" "rl_last_refill_ns l \<le> now" "in64 now"
  shows "projected_tokens l now \<le> rl_tokens l + allowance (rl_per_second l) (now - rl_last_refill_ns l)
    + of_int (rl_capacity l) / 2 ^ 53"
proof -
  define e t r where "e = now - rl_last_refill_ns l" and "t = rl_tokens l" and "r = rl_per_second l"
  let ?u = "1 + 1 / 2 ^ 53 :: rat" and ?w = "of_int e * of_int r / 10 ^ 9 :: rat"
  have e: "0 \<le> e" "wrap64 (now - rl_last_refill_ns l) = e" using assms(4-6) by (simp_all add: e_def in64_def)
  have w: "0 \<le> ?w" using e assms(2) by (simp add: r_def)
  have t: "0 \<le> t" "t \<le> of_int (rl_capacity l)" using assms(1) by (simp_all add: limiter_ok_def t_def)
  note i = refill_of_upper [of e r, OF e(1)]
  have i1: "0 \<le> refill_of e r" "refill_of e r \<le> ?w * ?u ^ 3" using i assms(2,3) by (simp_all add: r_def)
  have "dadd t (refill_of e r) \<le> (t + refill_of e r) * ?u" unfolding dadd_def using t(1) i1(1) by (intro fl_upper) simp
  also have "\<dots> \<le> (t + ?w * ?u ^ 3) * ?u" using i1(2) by (intro mult_right_mono) simp_all
  also have "\<dots> = t + t / 2 ^ 53 + ?w * ?u ^ 4" by (simp add: distrib_right distrib_left power_numeral_reduce)
  also have "\<dots> \<le> t + of_int (rl_capacity l) / 2 ^ 53 + ?w * (1 + 1 / 2 ^ 50)"
  proof -
    have "?u ^ 4 \<le> 1 + 1 / 2 ^ 50" by (simp add: power_divide)
    with w have "?w * ?u ^ 4 \<le> ?w * (1 + 1 / 2 ^ 50)" by (rule mult_left_mono [rotated])
    moreover have "t / 2 ^ 53 \<le> of_int (rl_capacity l) / 2 ^ 53" using t(2) by (rule divide_right_mono) simp
    ultimately show ?thesis by linarith
  qed
  finally have up: "dadd t (refill_of e r) \<le> t + ?w * (1 + 1 / 2 ^ 50) + of_int (rl_capacity l) / 2 ^ 53" by simp
  have "0 \<le> ?w * (1 + 1 / 2 ^ 50)" "0 \<le> rat_of_int (rl_capacity l) / 2 ^ 53" using w assms(1) by (simp_all add: limiter_ok_def)
  then have t0: "t \<le> t + ?w * (1 + 1 / 2 ^ 50) + of_int (rl_capacity l) / 2 ^ 53" by linarith
  have "projected_tokens l now \<le> max t (dadd t (refill_of e r))"
    using assms(4) by (auto simp: projected_tokens_def e(2) Let_def t_def r_def refill_of_def)
  also have "\<dots> \<le> t + ?w * (1 + 1 / 2 ^ 50) + of_int (rl_capacity l) / 2 ^ 53" using up t0 by (rule max.boundedI [rotated])
  finally show ?thesis unfolding allowance_def t_def [symmetric] e_def [symmetric] r_def [symmetric] by simp
qed

text \<open>One attempt spends at most what it gained: the budget plus the grant never exceeds the old budget, the refill and the rounding.\<close>

lemma try_acquire_spends:
  assumes "limiter_ok l" "0 < rl_per_second l" "rl_per_second l < 2 ^ 31" "0 < rl_last_refill_ns l" "rl_last_refill_ns l \<le> now" "in64 now"
  shows "rl_tokens (fst (try_acquire l now)) + (if snd (try_acquire l now) then 1 else 0)
    \<le> rl_tokens l + allowance (rl_per_second l) (now - rl_last_refill_ns l) + of_int (rl_capacity l) / 2 ^ 52"
proof -
  define p where "p = projected_tokens l now"
  have f: "rl_tokens (refill l now) = p" using assms(4) by (simp add: refill_def p_def)
  have p: "p \<le> rl_tokens l + allowance (rl_per_second l) (now - rl_last_refill_ns l) + of_int (rl_capacity l) / 2 ^ 53"
    unfolding p_def by (rule projected_upper [OF assms])
  have cap: "p \<le> of_int (rl_capacity l)" "0 \<le> rat_of_int (rl_capacity l)"
    using projected_ok [OF assms(1,2), of now] assms(1) by (simp_all add: p_def limiter_ok_def)
  have half: "rat_of_int (rl_capacity l) / 2 ^ 53 + of_int (rl_capacity l) / 2 ^ 53 = of_int (rl_capacity l) / 2 ^ 52" by simp
  show ?thesis
  proof (cases "p < 1")
    case True
    then show ?thesis using p half cap(2) assms(2) by (simp add: try_acquire_def Let_def f)
  next
    case False
    then have "dsub p 1 \<le> (p - 1) + (p - 1) / 2 ^ 53" unfolding dsub_def by (intro fl_upper_add) simp
    moreover have "(p - 1) / 2 ^ 53 \<le> of_int (rl_capacity l) / 2 ^ 53" using cap(1) by (intro divide_right_mono) simp_all
    ultimately have "dsub p 1 + 1 \<le> p + of_int (rl_capacity l) / 2 ^ 53" by linarith
    then show ?thesis using p half False assms(2) by (simp add: try_acquire_def Let_def f)
  qed
qed

lemma try_acquire_clock:
  "0 < rl_per_second l \<Longrightarrow> rl_last_refill_ns (fst (try_acquire l now)) = now"
  by (simp add: try_acquire_def Let_def refill_def)

lemma allowance_add: "allowance r a + allowance r b = allowance r (a + b)"
  by (simp add: allowance_def distrib_right add_divide_distrib)

lemma acquire_all_spends:
  assumes "limiter_ok l" "0 < rl_per_second l" "rl_per_second l < 2 ^ 31" "0 < rl_last_refill_ns l"
    and "sorted (rl_last_refill_ns l # ts)" "\<forall>t\<in>set ts. in64 t"
  shows "granted (snd (acquire_all l ts)) + rl_tokens (fst (acquire_all l ts)) \<le> rl_tokens l
    + allowance (rl_per_second l) (last (rl_last_refill_ns l # ts) - rl_last_refill_ns l)
    + of_nat (length ts) * (of_int (rl_capacity l) / 2 ^ 52)"
  using assms
proof (induction ts arbitrary: l)
  case Nil
  then show ?case by (simp add: allowance_def)
next
  case (Cons t ts)
  obtain l1 ok where r: "try_acquire l t = (l1, ok)" by (metis surj_pair)
  have s: "rl_tokens l1 + (if ok then 1 else 0) \<le> rl_tokens l + allowance (rl_per_second l) (t - rl_last_refill_ns l)
      + of_int (rl_capacity l) / 2 ^ 52"
    using try_acquire_spends [of l t] Cons.prems r by simp
  have l1: "limiter_ok l1" "rl_per_second l1 = rl_per_second l" "rl_last_refill_ns l1 = t" "rl_capacity l1 = rl_capacity l"
    using try_acquire_ok [of l t] try_acquire_clock [of l t] try_acquire_simps [of l t] Cons.prems r by simp_all
  have ih: "granted (snd (acquire_all l1 ts)) + rl_tokens (fst (acquire_all l1 ts)) \<le> rl_tokens l1
    + allowance (rl_per_second l) (last (t # ts) - t) + of_nat (length ts) * (of_int (rl_capacity l) / 2 ^ 52)"
    using Cons.IH [of l1] Cons.prems l1 by simp
  have add: "allowance (rl_per_second l) (t - rl_last_refill_ns l) + allowance (rl_per_second l) (last (t # ts) - t)
      = allowance (rl_per_second l) (last (t # ts) - rl_last_refill_ns l)"
    by (simp add: allowance_add)
  have g: "granted (snd (acquire_all l (t # ts))) = (if ok then 1 else 0) + granted (snd (acquire_all l1 ts))"
    "fst (acquire_all l (t # ts)) = fst (acquire_all l1 ts)"
    by (simp_all add: r Let_def case_prod_beta)
  have n: "of_nat (length (t # ts)) * (rat_of_int (rl_capacity l) / 2 ^ 52)
    = of_int (rl_capacity l) / 2 ^ 52 + of_nat (length ts) * (of_int (rl_capacity l) / 2 ^ 52)"
    by (simp add: distrib_right)
  have la: "last (rl_last_refill_ns l # t # ts) = last (t # ts)" by simp
  show ?case unfolding g n la add [symmetric] using s ih by linarith
qed

lemma refill_after_second:
  assumes "limiter_ok l" "0 < rl_per_second l" "rl_per_second l < 2 ^ 31" "1 \<le> rl_capacity l" "0 < rl_last_refill_ns l"
    and "rl_last_refill_ns l + kNanosPerSecond \<le> now" "in64 now"
  shows "1 \<le> projected_tokens l now"
proof -
  define e r where "e = now - rl_last_refill_ns l" and "r = rl_per_second l"
  have e: "kNanosPerSecond \<le> e" "wrap64 (now - rl_last_refill_ns l) = e"
    using assms(5-7) by (simp_all add: e_def in64_def kNanosPerSecond_def)
  have one: "fl 1 = 1" using fl_of_int [of 1] by simp
  have k: "of_int64 kNanosPerSecond = 10 ^ 9" by (simp add: of_int64_exact kNanosPerSecond_def)
  have r: "of_int64 r = of_int r" "fl (of_int r) = rat_of_int r" "1 \<le> r"
    using assms(2,3) by (simp_all add: of_int64_exact r_def fl_of_int)
  have "of_int64 kNanosPerSecond \<le> of_int64 e" unfolding of_int64_def using e(1) by (intro fl_mono) simp
  then have "1 \<le> of_int64 e / 10 ^ 9" by (simp add: k)
  then have "fl 1 \<le> ddiv (of_int64 e) (10 ^ 9)" unfolding ddiv_def by (rule fl_mono)
  then have "rat_of_int r \<le> ddiv (of_int64 e) (10 ^ 9) * of_int r" using r(3) by (simp add: one mult_le_cancel_right1)
  then have i: "rat_of_int r \<le> refill_of e r"
    unfolding refill_of_def r(1) k dmul_def using fl_mono r(2) by metis
  have "1 \<le> rl_tokens l + refill_of e r" using i r(3) assms(1) by (simp add: limiter_ok_def)
  then have "fl 1 \<le> dadd (rl_tokens l) (refill_of e r)" unfolding dadd_def by (rule fl_mono)
  moreover have "of_int64 (rl_capacity l) = of_int (rl_capacity l)" using assms by (simp add: of_int64_exact limiter_ok_def)
  moreover have "0 < e" using e(1) by (simp add: kNanosPerSecond_def)
  ultimately show ?thesis using assms(4,5) by (simp add: projected_tokens_def Let_def refill_of_def e(2) r_def one)
qed

section \<open>Properties\<close>

text \<open>
  C37. The token bucket bounds the rate in floating-point arithmetic: for a bucket with burst capacity and positive
  rate (both 32-bit), over any run of attempts at clock readings that are positive, 64-bit and do not go back, the
  number of grants is at most the capacity plus the rate times the elapsed seconds, up to a relative error of
  \<open>2 ^ -50\<close> of the refill and of \<open>2 ^ -52\<close> of the capacity per attempt. The budget always stays between zero and the
  capacity, and after such a run an attempt at any reading at least one second later than the last is granted when the
  capacity is at least one.
\<close>

theorem token_bucket_bounds_rate:
  assumes "0 \<le> c" "c < 2 ^ 31" "0 < r" "r < 2 ^ 31" and "0 < t" "sorted (t # ts)" "\<forall>x\<in>set (t # ts). in64 x"
  shows "granted (snd (acquire_all (new_limiter c r) (t # ts)))
      \<le> of_int c + of_int (last (t # ts) - t) * of_int r / 10 ^ 9 * (1 + 1 / 2 ^ 50)
        + of_nat (length (t # ts)) * (of_int c / 2 ^ 52)
    \<and> limiter_ok (fst (acquire_all (new_limiter c r) (t # ts)))
    \<and> (\<forall>now. 1 \<le> c \<and> last (t # ts) + kNanosPerSecond \<le> now \<and> in64 now \<longrightarrow>
        snd (try_acquire (fst (acquire_all (new_limiter c r) (t # ts))) now))"
proof -
  define l0 where "l0 = (new_limiter c r)\<lparr>rl_last_refill_ns := t\<rparr>"
  have l0: "limiter_ok l0" "rl_per_second l0 = r" "rl_capacity l0 = c" "rl_tokens l0 = of_int c" "rl_last_refill_ns l0 = t"
    using assms(1,2) by (simp_all add: l0_def new_limiter_def limiter_ok_def of_int64_exact)
  have eq: "try_acquire (new_limiter c r) t = try_acquire l0 t"
    using assms(3,5) by (simp add: try_acquire_def refill_def l0_def new_limiter_def projected_tokens_def)
  then have all: "acquire_all (new_limiter c r) (t # ts) = acquire_all l0 (t # ts)" by simp
  have keep: "limiter_ok (fst (acquire_all l xs)) \<and> rl_per_second (fst (acquire_all l xs)) = rl_per_second l
      \<and> rl_capacity (fst (acquire_all l xs)) = rl_capacity l
      \<and> (0 < rl_per_second l \<longrightarrow> rl_last_refill_ns (fst (acquire_all l xs)) = last (rl_last_refill_ns l # xs))"
    if "limiter_ok l" for l xs
    using that
  proof (induction xs arbitrary: l)
    case (Cons x xs)
    from Cons.IH [OF try_acquire_ok [OF Cons.prems, of x]] try_acquire_clock [of l x] show ?case
      by (auto simp: Let_def case_prod_beta)
  qed simp
  define lf where "lf = fst (acquire_all l0 (t # ts))"
  have lf: "limiter_ok lf" "rl_per_second lf = r" "rl_capacity lf = c" "rl_last_refill_ns lf = last (t # ts)"
    using keep [OF l0(1), of "t # ts"] l0 assms(3) by (simp_all add: lf_def)
  have "0 \<le> rl_tokens lf" using lf(1) by (simp add: limiter_ok_def)
  moreover have "granted (snd (acquire_all l0 (t # ts))) + rl_tokens lf \<le> of_int c + allowance r (last (t # t # ts) - t)
    + of_nat (length (t # ts)) * (of_int c / 2 ^ 52)"
    using acquire_all_spends [OF l0(1), of "t # ts"] l0 assms by (simp add: lf_def)
  ultimately have bound: "granted (snd (acquire_all l0 (t # ts))) \<le> of_int c + allowance r (last (t # ts) - t)
    + of_nat (length (t # ts)) * (of_int c / 2 ^ 52)" by simp
  have live: "snd (try_acquire lf now)" if "1 \<le> c" "last (t # ts) + kNanosPerSecond \<le> now" "in64 now" for now
  proof -
    have "0 < last (t # ts)"
    proof (cases "ts = []")
      case False
      then have "t \<le> last ts" using assms(6) by simp
      then show ?thesis using assms(5) False by simp
    qed (simp add: assms(5))
    then have "1 \<le> projected_tokens lf now" using lf assms(3,4) that by (intro refill_after_second) simp_all
    then show ?thesis using lf \<open>0 < last (t # ts)\<close> assms(3) by (simp add: try_acquire_def Let_def refill_def)
  qed
  show ?thesis unfolding all using bound lf(1) live by (simp add: lf_def allowance_def)
qed

theorem token_bucket_bounds_rate_witness:
  "granted (snd (acquire_all (new_limiter 2 5) [1000000000, 1000000000, 1000000000, 1100000000, 1200000000]))
     \<le> 2 + 1 * (1 + 1 / 2 ^ 50) + 5 * (2 / 2 ^ 52)
   \<and> granted (snd (acquire_all (new_limiter 2 5) [1000000000, 1000000000, 1000000000, 1100000000, 1200000000])) = 3"
proof -
  let ?ts = "[1000000000, 1000000000, 1000000000, 1100000000, 1200000000] :: int list"
  have "granted (snd (acquire_all (new_limiter 2 5) ?ts))
      \<le> of_int 2 + of_int (last ?ts - 1000000000) * of_int 5 / 10 ^ 9 * (1 + 1 / 2 ^ 50) + of_nat (length ?ts) * (of_int 2 / 2 ^ 52)"
    using token_bucket_bounds_rate [of 2 5 1000000000 "[1000000000, 1000000000, 1100000000, 1200000000]"]
    by (simp add: in64_def)
  moreover have "granted (snd (acquire_all (new_limiter 2 5) ?ts)) = 3" by code_simp
  ultimately show ?thesis by simp
qed

end
