(* ===== verification/RiskEngine.thy ===== *)
theory RiskEngine
  imports RiskState RateLimiter OrderAction
begin

text \<open>
  The risk engine: \<^verbatim>\<open>RiskTypes\<close>, \<^verbatim>\<open>RiskLimits\<close>, \<^verbatim>\<open>RiskDecision.hpp\<close> and \<^verbatim>\<open>RiskEngine.cpp\<close>. A null instrument
  pointer is \<open>None\<close>; an out-parameter \<^verbatim>\<open>LimitContext&\<close> is returned next to the reason. The readings of the steady
  clock are arguments: one when the evaluation starts, and one for each age that is measured later. The latency
  histogram is not modelled.
\<close>

section \<open>Definitions\<close>

subsection \<open>Vocabulary and limits\<close>

datatype RiskState = Disarmed | Armed | Warning | Killed | Faulted

definition permits_new_exposure :: "RiskState \<Rightarrow> bool" where
  "permits_new_exposure s \<longleftrightarrow> s = Armed"

definition is_reduce_only :: "RiskState \<Rightarrow> bool" where
  "is_reduce_only s \<longleftrightarrow> s = Warning"

definition needs_operator_recovery :: "RiskState \<Rightarrow> bool" where
  "needs_operator_recovery s \<longleftrightarrow> s = Killed \<or> s = Faulted"

definition risk_legal_transition :: "RiskState \<Rightarrow> RiskState \<Rightarrow> bool" where
  "risk_legal_transition from_st to_st =
     (if from_st = to_st then True
      else if to_st = Killed \<or> to_st = Faulted then True
      else case from_st of
             Disarmed \<Rightarrow> to_st = Armed
           | Armed \<Rightarrow> to_st = Warning
           | Warning \<Rightarrow> to_st = Armed
           | Killed \<Rightarrow> to_st = Disarmed
           | Faulted \<Rightarrow> to_st = Disarmed)"

datatype RiskVerdict = Approve | Reduce | Reject

datatype RiskReason =
    RrNone
  | RrMaxPosition | RrMaxPositionNotional | RrMaxOrderQuantity | RrMaxOrderNotional | RrMaxWorkingExposure
  | RrMaxSideExposure | RrMaxOpenOrders | RrMaxPortfolioNotional
  | RrStaleMarket | RrInvalidPrice | RrInvalidQuantity | RrPriceOutsideBand | RrReferencePriceUnavailable
  | RrInstrumentInvalid
  | RrRiskDisarmed | RrRiskKilled | RrRiskFaulted | RrReduceOnly | RrSystemNotReady
  | RrPositionUnavailable | RrPositionStale | RrPortfolioUnavailable | RrPortfolioStale | RrPnlIndeterminate
  | RrUnknownExposure
  | RrRateLimit | RrOwnershipViolation | RrArithmeticOverflow | RrConfigurationMissing
  | RrReductionInvalid
  | RrMaxDailyLoss | RrMaxSessionLoss | RrEmergencyLoss

text \<open>The underlying value of the enumerator.\<close>

fun reason_index :: "RiskReason \<Rightarrow> nat" where
  "reason_index RrNone = 0"
| "reason_index RrMaxPosition = 1" | "reason_index RrMaxPositionNotional = 2" | "reason_index RrMaxOrderQuantity = 3"
| "reason_index RrMaxOrderNotional = 4" | "reason_index RrMaxWorkingExposure = 5"
| "reason_index RrMaxSideExposure = 6" | "reason_index RrMaxOpenOrders = 7"
| "reason_index RrMaxPortfolioNotional = 8" | "reason_index RrStaleMarket = 9" | "reason_index RrInvalidPrice = 10"
| "reason_index RrInvalidQuantity = 11" | "reason_index RrPriceOutsideBand = 12"
| "reason_index RrReferencePriceUnavailable = 13" | "reason_index RrInstrumentInvalid = 14"
| "reason_index RrRiskDisarmed = 15" | "reason_index RrRiskKilled = 16" | "reason_index RrRiskFaulted = 17"
| "reason_index RrReduceOnly = 18" | "reason_index RrSystemNotReady = 19"
| "reason_index RrPositionUnavailable = 20" | "reason_index RrPositionStale = 21"
| "reason_index RrPortfolioUnavailable = 22" | "reason_index RrPortfolioStale = 23"
| "reason_index RrPnlIndeterminate = 24" | "reason_index RrUnknownExposure = 25" | "reason_index RrRateLimit = 26"
| "reason_index RrOwnershipViolation = 27" | "reason_index RrArithmeticOverflow = 28"
| "reason_index RrConfigurationMissing = 29" | "reason_index RrReductionInvalid = 30"
| "reason_index RrMaxDailyLoss = 31" | "reason_index RrMaxSessionLoss = 32" | "reason_index RrEmergencyLoss = 33"

definition indicates_blindness :: "RiskReason \<Rightarrow> bool" where
  "indicates_blindness r \<longleftrightarrow> r = RrPositionUnavailable \<or> r = RrPositionStale \<or> r = RrUnknownExposure
     \<or> r = RrReferencePriceUnavailable \<or> r = RrStaleMarket \<or> r = RrArithmeticOverflow
     \<or> r = RrConfigurationMissing \<or> r = RrPortfolioUnavailable \<or> r = RrPortfolioStale \<or> r = RrPnlIndeterminate"

record SymbolLimits =
  sl_symbol :: string
  sl_max_position :: qty
  sl_max_position_notional :: notional
  sl_max_order_quantity :: qty
  sl_max_order_notional :: notional
  sl_max_working_exposure :: qty
  sl_max_side_exposure :: qty
  sl_max_open_orders :: int
  sl_price_band_bps :: int

record GlobalLimits =
  gl_max_portfolio_notional :: notional
  gl_max_open_orders_total :: int
  gl_max_daily_loss :: notional
  gl_max_session_loss :: notional
  gl_emergency_loss :: notional
  gl_max_new_orders_per_second :: int
  gl_max_cancels_per_second :: int
  gl_max_replaces_per_second :: int
  gl_max_actions_per_second :: int
  gl_burst_capacity :: int
  gl_max_market_data_age_ns :: nanos
  gl_max_position_age_ns :: nanos

text \<open>The first \<open>symbol_count\<close> entries of the array of 32.\<close>

record RiskLimits =
  rk_global :: GlobalLimits
  rk_symbols :: "SymbolLimits list"

definition limits_find :: "RiskLimits \<Rightarrow> string \<Rightarrow> SymbolLimits option" where
  "limits_find l symbol = find (\<lambda>s. sl_symbol s = symbol) (rk_symbols l)"

definition limits_add :: "RiskLimits \<Rightarrow> SymbolLimits \<Rightarrow> RiskLimits \<times> bool" where
  "limits_add l s =
     (if length (rk_symbols l) \<ge> 32 \<or> limits_find l (sl_symbol s) \<noteq> None then (l, False)
      else (l\<lparr>rk_symbols := rk_symbols l @ [s]\<rparr>, True))"

fun symbols_armable :: "SymbolLimits list \<Rightarrow> bool" where
  "symbols_armable [] = True"
| "symbols_armable (s # ss) =
     (if \<not> sl_max_position s > 0 then False
      else if \<not> sl_max_order_quantity s > 0 then False
      else if \<not> sl_max_order_notional s > 0 then False
      else if sl_max_open_orders s \<le> 0 then False
      else symbols_armable ss)"

definition validate_for_arming :: "RiskLimits \<Rightarrow> ErrorCode" where
  "validate_for_arming l =
     (if rk_symbols l = [] then FailedPrecondition
      else if \<not> symbols_armable (rk_symbols l) then FailedPrecondition
      else if gl_max_market_data_age_ns (rk_global l) \<le> 0 \<or> gl_max_position_age_ns (rk_global l) \<le> 0
        then FailedPrecondition
      else Ok)"

subsection \<open>Decisions\<close>

record ApprovedAction =
  aa_action :: OrderAction
  aa_sequence :: nat
  aa_valid :: bool

definition no_approval :: ApprovedAction where
  "no_approval = \<lparr>aa_action = default_action, aa_sequence = 0, aa_valid = False\<rparr>"

record LimitContext =
  lc_max_position :: qty
  lc_peak_absolute_exposure :: qty
  lc_working_buy :: qty
  lc_working_sell :: qty
  lc_order_notional :: notional
  lc_open_orders :: nat

definition no_context :: LimitContext where
  "no_context = \<lparr>lc_max_position = 0, lc_peak_absolute_exposure = 0, lc_working_buy = 0, lc_working_sell = 0,
     lc_order_notional = 0, lc_open_orders = 0\<rparr>"

record RiskDecision =
  rd_verdict :: RiskVerdict
  rd_reason :: RiskReason
  rd_state :: RiskState
  rd_requested :: OrderAction
  rd_approved :: OrderAction
  rd_approval :: ApprovedAction
  rd_limits :: LimitContext
  rd_decided_ns :: nanos
  rd_generation :: nat
  rd_trace :: nat

definition decision_approved :: "RiskDecision \<Rightarrow> bool" where
  "decision_approved d \<longleftrightarrow> rd_verdict d = Approve \<or> rd_verdict d = Reduce"

definition decision_permits_exposure :: "RiskDecision \<Rightarrow> bool" where
  "decision_permits_exposure d \<longleftrightarrow> decision_approved d \<and> adds_exposure (oa_type (rd_approved d))"

definition rejected :: "OrderAction \<Rightarrow> RiskReason \<Rightarrow> RiskState \<Rightarrow> nanos \<Rightarrow> RiskDecision" where
  "rejected requested reason state now = \<lparr>rd_verdict = Reject, rd_reason = reason, rd_state = state,
     rd_requested = requested,
     rd_approved = default_action\<lparr>oa_slot := oa_slot requested, oa_symbol := oa_symbol requested\<rparr>,
     rd_approval = no_approval, rd_limits = no_context, rd_decided_ns = now,
     rd_generation = oa_generation requested, rd_trace = oa_trace requested\<rparr>"

text \<open>A decision that lets an action through, before it is stamped.\<close>

definition permitted_decision ::
  "RiskVerdict \<Rightarrow> RiskReason \<Rightarrow> RiskState \<Rightarrow> OrderAction \<Rightarrow> OrderAction \<Rightarrow> LimitContext \<Rightarrow> nanos \<Rightarrow> RiskDecision" where
  "permitted_decision verdict reason state requested approved context now = \<lparr>rd_verdict = verdict,
     rd_reason = reason, rd_state = state, rd_requested = requested, rd_approved = approved,
     rd_approval = no_approval, rd_limits = context, rd_decided_ns = now,
     rd_generation = oa_generation requested, rd_trace = oa_trace requested\<rparr>"

subsection \<open>The engine\<close>

record RiskInput =
  ri_symbol :: string
  ri_instrument :: "InstrumentSpec option"
  ri_position :: PositionSnapshot
  ri_exposure :: ExposureSnapshot
  ri_portfolio :: PortfolioState
  ri_bbo :: BestBidAsk
  ri_market_data_age_ns :: nanos
  ri_system_ready :: bool
  ri_atomic_replace :: bool
  ri_replaced_order_remaining :: qty
  ri_expected_owner :: string

datatype RiskMetric =
  Evaluations | Approvals | Reductions | Rejections | CancelsPermittedWhileBlocked | Kills

record RiskEngine =
  rg_limits :: RiskLimits
  rg_state :: RiskState
  rg_state_reason :: RiskReason
  rg_new_orders :: RateLimiter
  rg_cancels :: RateLimiter
  rg_replaces :: RateLimiter
  rg_all_actions :: RateLimiter
  rg_approval_sequence :: nat
  rg_metrics :: "RiskMetric counters"
  rg_rejections_by_reason :: "nat list"

definition metrics_count :: "RiskEngine \<Rightarrow> RiskReason \<Rightarrow> nat" where
  "metrics_count e reason =
     (let index = reason_index reason
      in if index < length (rg_rejections_by_reason e) then rg_rejections_by_reason e ! index else 0)"

definition bucket_for :: "GlobalLimits \<Rightarrow> int \<Rightarrow> RateLimiter" where
  "bucket_for g per_second =
     new_limiter (if gl_burst_capacity g > 0 then gl_burst_capacity g else per_second) per_second"

definition new_engine :: "RiskLimits \<Rightarrow> RiskEngine" where
  "new_engine limits = (let g = rk_global limits in
     \<lparr>rg_limits = limits, rg_state = Disarmed, rg_state_reason = RrNone,
      rg_new_orders = bucket_for g (gl_max_new_orders_per_second g),
      rg_cancels = bucket_for g (gl_max_cancels_per_second g),
      rg_replaces = bucket_for g (gl_max_replaces_per_second g),
      rg_all_actions = bucket_for g (gl_max_actions_per_second g),
      rg_approval_sequence = 0, rg_metrics = zero_counters, rg_rejections_by_reason = replicate 32 0\<rparr>)"

definition rg_transition :: "RiskEngine \<Rightarrow> RiskState \<Rightarrow> RiskReason \<Rightarrow> RiskEngine" where
  "rg_transition e to_st reason =
     (if \<not> risk_legal_transition (rg_state e) to_st then e
      else e\<lparr>rg_state := to_st, rg_state_reason := reason\<rparr>)"

definition arm :: "RiskEngine \<Rightarrow> RiskEngine \<times> ErrorCode" where
  "arm e =
     (if needs_operator_recovery (rg_state e) then (e, FailedPrecondition)
      else let st = validate_for_arming (rg_limits e)
           in if is_err st then (e, st) else (rg_transition e Armed RrNone, Ok))"

definition warn :: "RiskEngine \<Rightarrow> RiskReason \<Rightarrow> RiskEngine" where
  "warn e reason = rg_transition e Warning reason"

definition kill :: "RiskEngine \<Rightarrow> RiskReason \<Rightarrow> RiskEngine" where
  "kill e reason = rg_transition (e\<lparr>rg_metrics := bump (rg_metrics e) Kills\<rparr>) Killed reason"

definition fault :: "RiskEngine \<Rightarrow> RiskReason \<Rightarrow> RiskEngine" where
  "fault e reason = rg_transition e Faulted reason"

definition rearm :: "RiskEngine \<Rightarrow> RiskEngine \<times> ErrorCode" where
  "rearm e =
     (if \<not> needs_operator_recovery (rg_state e) then (e, FailedPrecondition)
      else (e\<lparr>rg_state := Disarmed, rg_state_reason := RrNone\<rparr>, Ok))"

definition stamp_approval :: "RiskEngine \<Rightarrow> RiskDecision \<Rightarrow> RiskEngine \<times> RiskDecision" where
  "stamp_approval e d =
     (if \<not> decision_approved d then (e, d)
      else let n = inc64 (rg_approval_sequence e)
           in (e\<lparr>rg_approval_sequence := n\<rparr>,
               d\<lparr>rd_approval := \<lparr>aa_action = rd_approved d, aa_sequence = n, aa_valid = True\<rparr>\<rparr>))"

definition risk_record :: "RiskEngine \<Rightarrow> RiskDecision \<Rightarrow> RiskEngine" where
  "risk_record e d =
     (let e1 = e\<lparr>rg_metrics := bump (rg_metrics e) Evaluations\<rparr>
      in case rd_verdict d of
           Approve \<Rightarrow> e1\<lparr>rg_metrics := bump (rg_metrics e1) Approvals\<rparr>
         | Reduce \<Rightarrow> e1\<lparr>rg_metrics := bump (rg_metrics e1) Reductions\<rparr>
         | Reject \<Rightarrow>
             (let e2 = e1\<lparr>rg_metrics := bump (rg_metrics e1) Rejections\<rparr>; index = reason_index (rd_reason d);
                  tallies = rg_rejections_by_reason e2
              in if index < length tallies
                 then e2\<lparr>rg_rejections_by_reason := tallies[index := inc64 (tallies ! index)]\<rparr> else e2))"

definition ownership_violated :: "OrderAction \<Rightarrow> RiskInput \<Rightarrow> bool" where
  "ownership_violated action input \<longleftrightarrow> ri_expected_owner input \<noteq> [] \<and> si_name (oa_identity action) \<noteq> []
     \<and> si_name (oa_identity action) \<noteq> ri_expected_owner input"

text \<open>The portfolio and loss limits, the second half of \<open>screen\<close>; \<open>now\<close> is the clock reading for the portfolio's age.\<close>

definition screen_portfolio :: "GlobalLimits \<Rightarrow> PortfolioState \<Rightarrow> nanos \<Rightarrow> RiskReason" where
  "screen_portfolio g portfolio now =
     (let portfolio_limits_configured = (gl_max_portfolio_notional g > 0);
          loss_limits_configured = (gl_max_daily_loss g > 0 \<or> gl_max_session_loss g > 0 \<or> gl_emergency_loss g > 0);
          loss = fx_sub 0 (pf_net_pnl portfolio)
      in if (portfolio_limits_configured \<or> loss_limits_configured) \<and> \<not> pf_valid portfolio
           then RrPortfolioUnavailable
         else if (portfolio_limits_configured \<or> loss_limits_configured) \<and> pf_as_of_ns portfolio > 0
             \<and> wrap64 (now - pf_as_of_ns portfolio) > gl_max_position_age_ns g
           then RrPortfolioStale
         else if portfolio_limits_configured \<and> pf_gross_notional portfolio > gl_max_portfolio_notional g
           then RrMaxPortfolioNotional
         else if loss_limits_configured \<and> \<not> pf_pnl_determinate portfolio then RrPnlIndeterminate
         else if loss_limits_configured \<and> gl_emergency_loss g > 0 \<and> loss \<ge> gl_emergency_loss g
           then RrEmergencyLoss
         else if loss_limits_configured \<and> gl_max_daily_loss g > 0 \<and> loss \<ge> gl_max_daily_loss g
           then RrMaxDailyLoss
         else if loss_limits_configured \<and> gl_max_session_loss g > 0 \<and> loss \<ge> gl_max_session_loss g
           then RrMaxSessionLoss
         else RrNone)"

definition screen :: "RiskEngine \<Rightarrow> OrderAction \<Rightarrow> RiskInput \<Rightarrow> nanos \<Rightarrow> nanos \<Rightarrow> RiskReason" where
  "screen e action input now_position now_portfolio =
     (let g = rk_global (rg_limits e)
      in if ownership_violated action input then RrOwnershipViolation
         else if rg_state e = Disarmed then RrRiskDisarmed
         else if rg_state e = Killed then RrRiskKilled
         else if rg_state e = Faulted then RrRiskFaulted
         else if \<not> ri_system_ready input then RrSystemNotReady
         else if (case ri_instrument input of None \<Rightarrow> True | Some spec \<Rightarrow> \<not> spec_is_valid spec)
           then RrInstrumentInvalid
         else if ri_market_data_age_ns input > gl_max_market_data_age_ns g then RrStaleMarket
         else if \<not> is_sane (ri_bbo input) then RrReferencePriceUnavailable
         else if \<not> ps_valid (ri_position input) then RrPositionUnavailable
         else if ps_as_of_ns (ri_position input) > 0
             \<and> wrap64 (now_position - ps_as_of_ns (ri_position input)) > gl_max_position_age_ns g
           then RrPositionStale
         else if \<not> es_determinate (ri_exposure input) then RrUnknownExposure
         else screen_portfolio g (ri_portfolio input) now_portfolio)"

definition distance_bps :: "px \<Rightarrow> px \<Rightarrow> rat" where
  "distance_bps price reference =
     (if \<not> reference > 0 then 0
      else let diff = of_int64 (wrap64 (price - reference));
               away = ddiv (dmul 10000 diff) (of_int64 reference)
           in if away < 0 then - away else away)"

definition passes_venue_rules :: "OrderAction \<Rightarrow> qty \<Rightarrow> InstrumentSpec \<Rightarrow> bool" where
  "passes_venue_rules action quantity spec =
     (let probe = default_request\<lparr>or_client_order_id := fst (inline_assign 40 ''risk-venue-probe''),
            or_symbol := is_symbol spec, or_side := oa_side action, or_type := Limit, or_price := oa_price action,
            or_quantity := quantity\<rparr>;
          caps = default_capabilities\<lparr>cap_client_order_id := True\<rparr>
      in \<not> ee_is_error (validate_order probe spec caps))"

definition check_order_bounds ::
  "OrderAction \<Rightarrow> qty \<Rightarrow> RiskInput \<Rightarrow> SymbolLimits \<Rightarrow> LimitContext \<Rightarrow> RiskReason \<times> LimitContext" where
  "check_order_bounds action quantity input limits context =
     (if \<not> quantity > 0 then (RrInvalidQuantity, context)
      else if \<not> oa_price action > 0 then (RrInvalidPrice, context)
      else if sl_max_order_quantity limits > 0 \<and> quantity > sl_max_order_quantity limits
        then (RrMaxOrderQuantity, context)
      else case checked_notional_of (oa_price action) quantity of
             None \<Rightarrow> (RrArithmeticOverflow, context)
           | Some order_notional \<Rightarrow>
               (let context1 = context\<lparr>lc_order_notional := order_notional\<rparr>; reference = mid (ri_bbo input)
                in if sl_max_order_notional limits > 0 \<and> order_notional > sl_max_order_notional limits
                     then (RrMaxOrderNotional, context1)
                   else if sl_price_band_bps limits > 0 \<and> \<not> reference > 0
                     then (RrReferencePriceUnavailable, context1)
                   else if sl_price_band_bps limits > 0
                       \<and> distance_bps (oa_price action) reference > of_int64 (sl_price_band_bps limits)
                     then (RrPriceOutsideBand, context1)
                   else if (case ri_instrument input of None \<Rightarrow> True
                            | Some spec \<Rightarrow> \<not> passes_venue_rules action quantity spec)
                     then (RrReductionInvalid, context1)
                   else (RrNone, context1)))"

text \<open>The exposure that remains when an atomic replace has removed the old order.\<close>

definition project_replace :: "OrderAction \<Rightarrow> RiskInput \<Rightarrow> ExposureSnapshot option" where
  "project_replace action input =
     (let x = ri_exposure input
      in if oa_type action = ActReplace \<and> ri_atomic_replace input \<and> ri_replaced_order_remaining input > 0 then
           (case checked_sub (if oa_side action = Buy then es_working_buy x else es_working_sell x)
                   (ri_replaced_order_remaining input) of
              None \<Rightarrow> None
            | Some reduced \<Rightarrow>
                (let side = (if reduced > 0 then reduced else 0)
                 in Some (if oa_side action = Buy then x\<lparr>es_working_buy := side\<rparr>
                          else x\<lparr>es_working_sell := side\<rparr>)))
         else Some x)"

definition check_exposure ::
  "RiskState \<Rightarrow> OrderAction \<Rightarrow> qty \<Rightarrow> RiskInput \<Rightarrow> SymbolLimits \<Rightarrow> LimitContext \<Rightarrow> RiskReason \<times> LimitContext" where
  "check_exposure state action quantity input limits context =
     (if sl_max_open_orders limits > 0 \<and> int (es_open_order_count (ri_exposure input)) \<ge> sl_max_open_orders limits
         \<and> oa_type action = ActNew
        then (RrMaxOpenOrders, context)
      else case project_replace action input of
             None \<Rightarrow> (RrArithmeticOverflow, context)
           | Some projected \<Rightarrow>
      (case compute_worst_case_with (ri_position input) projected (oa_side action) quantity of
             None \<Rightarrow> (RrArithmeticOverflow, context)
           | Some worst \<Rightarrow>
      (let context1 = context\<lparr>lc_peak_absolute_exposure := peak_absolute worst,
             lc_working_buy := es_working_buy projected, lc_working_sell := es_working_sell projected\<rparr>;
           peak_notional = checked_notional_of (mid (ri_bbo input)) (peak_absolute worst);
           side_now = (if oa_side action = Buy then es_working_buy projected else es_working_sell projected);
           projected_side = checked_add side_now quantity;
           gross = (case checked_add (es_working_buy projected) (es_working_sell projected) of
                      None \<Rightarrow> None | Some g \<Rightarrow> checked_add g quantity)
       in if sl_max_position limits > 0 \<and> peak_absolute worst > sl_max_position limits
            then (RrMaxPosition, context1)
          else if sl_max_position_notional limits > 0 \<and> peak_notional = None then (RrArithmeticOverflow, context1)
          else if sl_max_position_notional limits > 0 \<and> the peak_notional > sl_max_position_notional limits
            then (RrMaxPositionNotional, context1)
          else if projected_side = None then (RrArithmeticOverflow, context1)
          else if sl_max_side_exposure limits > 0 \<and> the projected_side > sl_max_side_exposure limits
            then (RrMaxSideExposure, context1)
          else if sl_max_working_exposure limits > 0 \<and> gross = None then (RrArithmeticOverflow, context1)
          else if sl_max_working_exposure limits > 0 \<and> the gross > sl_max_working_exposure limits
            then (RrMaxWorkingExposure, context1)
          else if is_reduce_only state \<and> increases_absolute_position (ri_position input) (oa_side action) quantity
            then (RrReduceOnly, context1)
          else (RrNone, context1))))"

text \<open>Both checks of one quantity, the second only after the first.\<close>

definition check_quantity ::
  "RiskState \<Rightarrow> OrderAction \<Rightarrow> qty \<Rightarrow> RiskInput \<Rightarrow> SymbolLimits \<Rightarrow> LimitContext \<Rightarrow> RiskReason \<times> LimitContext" where
  "check_quantity state action quantity input limits context =
     (let (failure, context1) = check_order_bounds action quantity input limits context
      in if failure = RrNone then check_exposure state action quantity input limits context1
         else (failure, context1))"

text \<open>
  The binary search over lots. When \<open>high - low + 1\<close> does not fit 64 bits it wraps to the smallest integer, the
  candidate is negative and refused, and the loop ends at once.
\<close>

function search_lots :: "(int \<Rightarrow> bool) \<Rightarrow> int \<Rightarrow> int \<Rightarrow> int" where
  "search_lots ok low high =
     (if \<not> low < high then low
      else if high - low \<ge> INT64_MAX then low
      else let mid = low + (high - low + 1) div 2
           in if ok mid then search_lots ok mid high else search_lots ok low (mid - 1))"
  by pat_completeness auto
termination
  by (relation "measure (\<lambda>(_, low, high). nat (high - low))") auto

declare search_lots.simps [simp del]

definition largest_permitted_quantity ::
  "RiskState \<Rightarrow> OrderAction \<Rightarrow> RiskInput \<Rightarrow> InstrumentSpec \<Rightarrow> SymbolLimits \<Rightarrow> qty" where
  "largest_permitted_quantity state action input spec limits =
     (let step = (if is_lot_size spec > 0 then is_lot_size spec else 1);
          high = oa_quantity action sdiv step;
          permitted = (\<lambda>q. fst (check_quantity state action q input limits no_context) = RrNone)
      in if high \<le> 0 then 0
         else if \<not> permitted step then 0
         else wrap64 (search_lots (\<lambda>lots. permitted (wrap64 (lots * step))) 0 high * step))"

definition is_reducible :: "RiskReason \<Rightarrow> bool" where
  "is_reducible failure \<longleftrightarrow> failure = RrMaxPosition \<or> failure = RrMaxPositionNotional
     \<or> failure = RrMaxOrderQuantity \<or> failure = RrMaxOrderNotional \<or> failure = RrMaxSideExposure
     \<or> failure = RrMaxWorkingExposure"

text \<open>A decision on its way out: stamped, recorded.\<close>

definition conclude :: "RiskEngine \<Rightarrow> RiskDecision \<Rightarrow> RiskEngine \<times> RiskDecision" where
  "conclude e d = (let (e1, d1) = stamp_approval e d in (risk_record e1 d1, d1))"

definition refuse :: "RiskEngine \<Rightarrow> OrderAction \<Rightarrow> RiskReason \<Rightarrow> nanos \<Rightarrow> RiskEngine \<times> RiskDecision" where
  "refuse e action reason now =
     (let d = rejected action reason (rg_state e) now in (risk_record e d, d))"

definition approve_cancel :: "RiskEngine \<Rightarrow> OrderAction \<Rightarrow> RiskInput \<Rightarrow> nanos \<Rightarrow> RiskEngine \<times> RiskDecision" where
  "approve_cancel e cancel input now =
     (let (e1, d) = stamp_approval e (permitted_decision Approve RrNone (rg_state e) cancel cancel no_context now)
      in if ownership_violated cancel input then refuse e1 cancel RrOwnershipViolation now
         else
           let e2 = e1\<lparr>rg_cancels := fst (try_acquire (rg_cancels e1) now)\<rparr>;
               e3 = (if \<not> permits_new_exposure (rg_state e2)
                     then e2\<lparr>rg_metrics := bump (rg_metrics e2) CancelsPermittedWhileBlocked\<rparr> else e2)
           in (risk_record e3 d, d))"

text \<open>The rate limiters of an exposure-adding action; the second bucket is only asked when the first grants.\<close>

definition take_tokens :: "RiskEngine \<Rightarrow> OrderActionType \<Rightarrow> nanos \<Rightarrow> RiskEngine \<times> bool" where
  "take_tokens e ty now =
     (let (b, ok) = try_acquire (if ty = ActNew then rg_new_orders e else rg_replaces e) now;
          e1 = (if ty = ActNew then e\<lparr>rg_new_orders := b\<rparr> else e\<lparr>rg_replaces := b\<rparr>)
      in if \<not> ok then (e1, False)
         else let (all_b, ok2) = try_acquire (rg_all_actions e1) now in (e1\<lparr>rg_all_actions := all_b\<rparr>, ok2))"

definition start_context :: "SymbolLimits \<Rightarrow> RiskInput \<Rightarrow> LimitContext" where
  "start_context limits input = no_context\<lparr>lc_max_position := sl_max_position limits,
     lc_open_orders := es_open_order_count (ri_exposure input)\<rparr>"

text \<open>After the rate limiters: the limits, and the reduction with its revalidation.\<close>

definition judge :: "RiskEngine \<Rightarrow> OrderAction \<Rightarrow> RiskInput \<Rightarrow> SymbolLimits \<Rightarrow> nanos \<Rightarrow> RiskEngine \<times> RiskDecision" where
  "judge e action input limits started =
     (let (failure, context) = check_quantity (rg_state e) action (oa_quantity action) input limits
                                 (start_context limits input)
      in if failure = RrNone
           then conclude e (permitted_decision Approve RrNone (rg_state e) action action context started)
         else if \<not> is_reducible failure then refuse e action failure started
         else
           let permitted = (case ri_instrument input of None \<Rightarrow> 0
                            | Some spec \<Rightarrow> largest_permitted_quantity (rg_state e) action input spec limits)
           in if \<not> permitted > 0 \<or> permitted \<ge> oa_quantity action then refuse e action failure started
              else
                let reduced = action\<lparr>oa_quantity := permitted\<rparr>;
                    (recheck, revalidated) = check_quantity (rg_state e) reduced (oa_quantity reduced) input limits
                                               (start_context limits input)
                in if recheck \<noteq> RrNone then refuse e action recheck started
                   else conclude e (permitted_decision Reduce failure (rg_state e) action reduced revalidated started))"

definition evaluate ::
  "RiskEngine \<Rightarrow> OrderAction \<Rightarrow> RiskInput \<Rightarrow> nanos \<Rightarrow> nanos \<Rightarrow> nanos \<Rightarrow> RiskEngine \<times> RiskDecision" where
  "evaluate e action input started now_position now_portfolio =
     (if oa_type action = ActNoop
        then conclude e (permitted_decision Approve RrNone (rg_state e) action action no_context started)
      else if oa_type action = ActCancel then approve_cancel e action input started
      else
        let screened = screen e action input now_position now_portfolio
        in if screened \<noteq> RrNone then refuse e action screened started
           else case limits_find (rg_limits e) (ri_symbol input) of
                  None \<Rightarrow> refuse e action RrConfigurationMissing started
                | Some limits \<Rightarrow>
                    (let (e1, ok) = (if adds_exposure (oa_type action)
                                          then take_tokens e (oa_type action) started else (e, True))
                     in if \<not> ok then refuse e1 action RrRateLimit started
                        else judge e1 action input limits started))"

section \<open>What the checks establish\<close>

lemma check_order_bounds_None:
  assumes "fst (check_order_bounds action q input l c) = RrNone"
  shows "0 < q" "0 < oa_price action" "sl_max_order_quantity l \<le> 0 \<or> q \<le> sl_max_order_quantity l"
    and "\<exists>n. checked_notional_of (oa_price action) q = Some n \<and> (sl_max_order_notional l \<le> 0 \<or> n \<le> sl_max_order_notional l)"
    and "sl_price_band_bps l \<le> 0 \<or> distance_bps (oa_price action) (mid (ri_bbo input)) \<le> of_int64 (sl_price_band_bps l)"
    and "\<exists>spec. ri_instrument input = Some spec \<and> passes_venue_rules action q spec"
  using assms by (auto simp: check_order_bounds_def Let_def not_less split: if_splits option.splits)

lemma check_exposure_None:
  assumes "fst (check_exposure st action q input l c) = RrNone"
  shows "sl_max_open_orders l \<le> 0 \<or> int (es_open_order_count (ri_exposure input)) < sl_max_open_orders l \<or> oa_type action \<noteq> ActNew"
    and "\<exists>x w. project_replace action input = Some x \<and> compute_worst_case_with (ri_position input) x (oa_side action) q = Some w
      \<and> (sl_max_position l \<le> 0 \<or> peak_absolute w \<le> sl_max_position l)"
    and "is_reduce_only st \<longrightarrow> \<not> increases_absolute_position (ri_position input) (oa_side action) q"
  using assms by (auto simp: check_exposure_def Let_def not_less split: if_splits option.splits)

lemma check_quantity_None:
  "fst (check_quantity st action q input l c) = RrNone \<longleftrightarrow> fst (check_order_bounds action q input l c) = RrNone
     \<and> fst (check_exposure st action q input l (snd (check_order_bounds action q input l c))) = RrNone"
  by (auto simp: check_quantity_def case_prod_beta Let_def)

text \<open>Only price, side, type and quantity of the action matter to the checks.\<close>

lemma passes_ignore_quantity [simp]:
  "passes_venue_rules (action\<lparr>oa_quantity := r\<rparr>) q spec = passes_venue_rules action q spec"
  "project_replace (action\<lparr>oa_quantity := r\<rparr>) input = project_replace action input"
  by (simp_all add: passes_venue_rules_def project_replace_def cong: if_cong option.case_cong)

lemma checks_ignore_quantity [simp]:
  "check_order_bounds (action\<lparr>oa_quantity := r\<rparr>) q input l c = check_order_bounds action q input l c"
  "check_exposure st (action\<lparr>oa_quantity := r\<rparr>) q input l c = check_exposure st action q input l c"
  "check_quantity st (action\<lparr>oa_quantity := r\<rparr>) q input l c = check_quantity st action q input l c"
  by (simp_all add: check_quantity_def check_order_bounds_def check_exposure_def Let_def cong: if_cong option.case_cong)

section \<open>Bookkeeping\<close>

lemma risk_record_simps [simp]:
  "rg_limits (risk_record e d) = rg_limits e" "rg_state (risk_record e d) = rg_state e"
  by (cases "rd_verdict d"; simp add: risk_record_def Let_def)+

lemma stamp_simps [simp]:
  "rg_limits (fst (stamp_approval e d)) = rg_limits e" "rg_state (fst (stamp_approval e d)) = rg_state e"
  "rd_verdict (snd (stamp_approval e d)) = rd_verdict d" "rd_approved (snd (stamp_approval e d)) = rd_approved d"
  "rd_requested (snd (stamp_approval e d)) = rd_requested d" "rd_reason (snd (stamp_approval e d)) = rd_reason d"
  by (simp_all add: stamp_approval_def Let_def)

lemma permitted_decision_simps [simp]:
  "rd_verdict (permitted_decision v r st q a c n) = v" "rd_approved (permitted_decision v r st q a c n) = a"
  "rd_requested (permitted_decision v r st q a c n) = q" "rd_reason (permitted_decision v r st q a c n) = r"
  "rd_approval (permitted_decision v r st q a c n) = no_approval"
  by (simp_all add: permitted_decision_def)

lemma conclude_simps [simp]:
  "rg_limits (fst (conclude e d)) = rg_limits e" "rg_state (fst (conclude e d)) = rg_state e"
  "snd (conclude e d) = snd (stamp_approval e d)"
  by (simp_all add: conclude_def case_prod_beta Let_def)

lemma refuse_simps [simp]:
  "rg_limits (fst (refuse e a r n)) = rg_limits e" "rg_state (fst (refuse e a r n)) = rg_state e"
  "snd (refuse e a r n) = rejected a r (rg_state e) n"
  by (simp_all add: refuse_def Let_def)

lemma take_tokens_simps [simp]:
  "rg_limits (fst (take_tokens e ty n)) = rg_limits e" "rg_state (fst (take_tokens e ty n)) = rg_state e"
  by (simp_all add: take_tokens_def case_prod_beta Let_def)

lemma rejected_simps [simp]:
  "rd_verdict (rejected a r st n) = Reject" "rd_approval (rejected a r st n) = no_approval"
  "rd_requested (rejected a r st n) = a" "rd_reason (rejected a r st n) = r" "\<not> decision_approved (rejected a r st n)"
  "oa_type (rd_approved (rejected a r st n)) = ActNoop"
  by (simp_all add: rejected_def decision_approved_def default_action_def)

lemma approve_cancel_simps [simp]:
  "rg_limits (fst (approve_cancel e a i n)) = rg_limits e" "rg_state (fst (approve_cancel e a i n)) = rg_state e"
  "snd (approve_cancel e a i n) = (if ownership_violated a i then rejected a RrOwnershipViolation (rg_state e) n
     else snd (stamp_approval e (permitted_decision Approve RrNone (rg_state e) a a no_context n)))"
  by (simp_all add: approve_cancel_def case_prod_beta Let_def)

lemma judge_simps [simp]:
  "rg_limits (fst (judge e a i l n)) = rg_limits e" "rg_state (fst (judge e a i l n)) = rg_state e"
  by (simp_all add: judge_def case_prod_beta Let_def)

lemma evaluate_simps [simp]:
  "rg_limits (fst (evaluate e a i n1 n2 n3)) = rg_limits e" "rg_state (fst (evaluate e a i n1 n2 n3)) = rg_state e"
  by (simp_all add: evaluate_def case_prod_beta Let_def split: option.splits)

text \<open>What leaves \<open>judge\<close>: an approval of the action with a quantity that passed both checks, or a refusal.\<close>

lemma judge_cases:
  obtains (approve) c where "snd (judge e a i l n) = snd (stamp_approval e (permitted_decision Approve RrNone (rg_state e) a a c n))"
      "fst (check_quantity (rg_state e) a (oa_quantity a) i l (start_context l i)) = RrNone"
  | (reduce) q r c spec where "snd (judge e a i l n) = snd (stamp_approval e (permitted_decision Reduce r (rg_state e) a (a\<lparr>oa_quantity := q\<rparr>) c n))"
      "0 < q" "q < oa_quantity a" "fst (check_quantity (rg_state e) a q i l (start_context l i)) = RrNone"
      "ri_instrument i = Some spec" "q = largest_permitted_quantity (rg_state e) a i spec l" "is_reducible r"
      "fst (check_quantity (rg_state e) a (oa_quantity a) i l (start_context l i)) = r"
  | (refuse) r where "snd (judge e a i l n) = rejected a r (rg_state e) n" "r \<noteq> RrNone"
proof -
  obtain f c where f: "check_quantity (rg_state e) a (oa_quantity a) i l (start_context l i) = (f, c)" by (metis surj_pair)
  define p where "p = (case ri_instrument i of None \<Rightarrow> 0 | Some spec \<Rightarrow> largest_permitted_quantity (rg_state e) a i spec l)"
  obtain g c' where g: "check_quantity (rg_state e) a p i l (start_context l i) = (g, c')" by (metis surj_pair)
  consider "f = RrNone" | "f \<noteq> RrNone" "\<not> is_reducible f" | "f \<noteq> RrNone" "is_reducible f" "\<not> p > 0 \<or> p \<ge> oa_quantity a"
    | "f \<noteq> RrNone" "is_reducible f" "0 < p" "p < oa_quantity a" "g \<noteq> RrNone"
    | "f \<noteq> RrNone" "is_reducible f" "0 < p" "p < oa_quantity a" "g = RrNone" by linarith
  then show ?thesis
  proof cases
    case 1
    then show ?thesis using approve [of c] f by (simp add: judge_def)
  next
    case 2
    then show ?thesis using refuse [of f] f by (simp add: judge_def)
  next
    case 3
    then show ?thesis using refuse [of f] f by (simp add: judge_def p_def [symmetric])
  next
    case 4
    then show ?thesis using refuse [of g] f g by (simp add: judge_def p_def [symmetric] Let_def)
  next
    case 5
    then obtain spec where "ri_instrument i = Some spec" "p = largest_permitted_quantity (rg_state e) a i spec l"
      by (auto simp: p_def split: option.splits)
    with 5 show ?thesis using reduce [of f p c' spec] f g by (simp add: judge_def p_def [symmetric] Let_def)
  qed
qed

lemma evaluate_exposure:
  assumes "decision_permits_exposure (snd (evaluate e a i n1 n2 n3))"
  obtains l e1 where "adds_exposure (oa_type a)" "screen e a i n2 n3 = RrNone" "limits_find (rg_limits e) (ri_symbol i) = Some l"
    "rg_state e1 = rg_state e" "snd (evaluate e a i n1 n2 n3) = snd (judge e1 a i l n1)"
proof -
  have x: "oa_type a \<noteq> ActNoop" "oa_type a \<noteq> ActCancel"
    using assms by (auto simp: evaluate_def decision_permits_exposure_def adds_exposure_def split: if_splits)
  then have t: "adds_exposure (oa_type a)" by (cases "oa_type a") (simp_all add: adds_exposure_def)
  have sc: "screen e a i n2 n3 = RrNone"
    using assms x by (auto simp: evaluate_def Let_def decision_permits_exposure_def split: if_splits)
  show ?thesis
  proof (cases "limits_find (rg_limits e) (ri_symbol i)")
    case None
    then show ?thesis using assms x sc by (simp add: evaluate_def decision_permits_exposure_def)
  next
    case (Some l)
    obtain e1 ok where tk: "take_tokens e (oa_type a) n1 = (e1, ok)" by (metis surj_pair)
    then have "rg_state e1 = rg_state e" using take_tokens_simps [of e "oa_type a" n1] by simp
    moreover have "ok" using assms x sc Some t tk by (auto simp: evaluate_def decision_permits_exposure_def split: if_splits)
    ultimately show ?thesis using that [of l e1] x sc Some t tk by (simp add: evaluate_def)
  qed
qed

section \<open>The search for a smaller order\<close>

lemma search_lots_result:
  assumes "low \<le> high" and "high - low < INT64_MAX"
  shows "low \<le> search_lots ok low high \<and> search_lots ok low high \<le> high
    \<and> (search_lots ok low high = low \<or> ok (search_lots ok low high))
    \<and> (search_lots ok low high = high \<or> \<not> ok (search_lots ok low high + 1))"
  using assms
proof (induction ok low high rule: search_lots.induct)
  case (1 ok low high)
  define m where "m = low + (high - low + 1) div 2"
  show ?case
  proof (cases "low < high")
    case False
    then have "search_lots ok low high = low" by (simp add: search_lots.simps [of ok low high])
    with False 1 show ?thesis by simp
  next
    case True
    then have m: "low < m" "m \<le> high" by (simp_all add: m_def)
    have eq: "search_lots ok low high = (if ok m then search_lots ok m high else search_lots ok low (m - 1))"
      using True 1 by (subst search_lots.simps) (simp add: m_def Let_def)
    show ?thesis
    proof (cases "ok m")
      case True
      have "m \<le> search_lots ok m high \<and> search_lots ok m high \<le> high
        \<and> (search_lots ok m high = m \<or> ok (search_lots ok m high))
        \<and> (search_lots ok m high = high \<or> \<not> ok (search_lots ok m high + 1))"
        using "1.IH"(1) [OF _ _ m_def] \<open>low < high\<close> 1(4) True m by simp
      with True m show ?thesis unfolding eq by auto
    next
      case False
      have "low \<le> search_lots ok low (m - 1) \<and> search_lots ok low (m - 1) \<le> m - 1
        \<and> (search_lots ok low (m - 1) = low \<or> ok (search_lots ok low (m - 1)))
        \<and> (search_lots ok low (m - 1) = m - 1 \<or> \<not> ok (search_lots ok low (m - 1) + 1))"
        using "1.IH"(2) [OF _ _ m_def] \<open>low < high\<close> 1(4) False m by simp
      with False m show ?thesis unfolding eq by auto
    qed
  qed
qed

text \<open>The result of the search is a whole number of lots; one more lot would exceed the request or fail a check.\<close>

lemma largest_permitted_is_edge:
  assumes "q = largest_permitted_quantity st a i spec l" and "0 < q" and "0 < is_lot_size spec" and "in64 (oa_quantity a)"
    and "oa_quantity a < INT64_MAX"
  shows "is_lot_size spec dvd q \<and> q \<le> oa_quantity a
    \<and> (oa_quantity a < q + is_lot_size spec \<or> fst (check_quantity st a (q + is_lot_size spec) i l no_context) \<noteq> RrNone)"
proof -
  define s h ok where "s = is_lot_size spec" and "h = oa_quantity a sdiv is_lot_size spec"
    and "ok = (\<lambda>lots. fst (check_quantity st a (wrap64 (lots * s)) i l no_context) = RrNone)"
  define r where "r = search_lots ok 0 h"
  have s: "0 < s" using assms(3) by (simp add: s_def)
  have q0: "q = (if h \<le> 0 then 0 else if fst (check_quantity st a s i l no_context) \<noteq> RrNone then 0 else wrap64 (r * s))"
    unfolding assms(1) largest_permitted_quantity_def r_def ok_def h_def s_def using assms(3) by (simp add: Let_def)
  then have h: "0 < h" and q: "q = wrap64 (r * s)" using assms(2) by (auto split: if_splits)
  have a: "0 < oa_quantity a"
  proof (rule ccontr)
    assume "\<not> 0 < oa_quantity a"
    then have "oa_quantity a sdiv s \<le> 0 sdiv s" using s by (intro sdiv_mono) simp_all
    then show False using h by (simp add: h_def s_def)
  qed
  then have hd: "h = oa_quantity a div s" using s by (simp add: h_def s_def sdiv_nonneg)
  have hs: "h * s \<le> oa_quantity a" "oa_quantity a < h * s + s"
    using mult_div_mod_eq [of s "oa_quantity a"] pos_mod_bound [OF s, of "oa_quantity a"] pos_mod_sign [OF s, of "oa_quantity a"]
    unfolding hd mult.commute [of _ s] by linarith+
  have "h * 1 \<le> h * s" using s h by (intro mult_left_mono) simp_all
  then have "h < INT64_MAX" using hs(1) assms(5) by linarith
  with search_lots_result [of 0 h ok] h
  have r: "0 \<le> r" "r \<le> h" "r = 0 \<or> ok r" "r = h \<or> \<not> ok (r + 1)" by (auto simp: r_def)
  have rs: "0 \<le> r * s" "r * s \<le> h * s" using r s by (simp_all add: mult_right_mono)
  then have w: "wrap64 (r * s) = r * s" using hs(1) assms(4) by (intro wrap64_id) (simp add: in64_def)
  then have qq: "q = r * s" using q by simp
  have "oa_quantity a < q + s \<or> fst (check_quantity st a (q + s) i l no_context) \<noteq> RrNone"
  proof (cases "r = h")
    case True
    with hs(2) qq show ?thesis by simp
  next
    case False
    then have "r + 1 \<le> h" using r(2) by simp
    then have "(r + 1) * s \<le> h * s" using s by (intro mult_right_mono) simp_all
    then have "wrap64 ((r + 1) * s) = (r + 1) * s" using hs(1) assms(4) rs s by (intro wrap64_id) (simp add: in64_def distrib_right)
    with r(4) False show ?thesis by (simp add: ok_def qq distrib_right)
  qed
  then show ?thesis using qq rs(2) hs(1) by (simp add: s_def)
qed

section \<open>Histories\<close>

datatype RiskCommand =
    RcArm | RcWarn RiskReason | RcKill RiskReason | RcFault RiskReason | RcRearm
  | RcEvaluate OrderAction RiskInput nanos nanos nanos | RcApproveCancel OrderAction RiskInput nanos

fun risk_do :: "RiskEngine \<Rightarrow> RiskCommand \<Rightarrow> RiskEngine" where
  "risk_do e RcArm = fst (arm e)"
| "risk_do e (RcWarn r) = warn e r"
| "risk_do e (RcKill r) = kill e r"
| "risk_do e (RcFault r) = fault e r"
| "risk_do e RcRearm = fst (rearm e)"
| "risk_do e (RcEvaluate a i n1 n2 n3) = fst (evaluate e a i n1 n2 n3)"
| "risk_do e (RcApproveCancel a i n) = fst (approve_cancel e a i n)"

inductive risk_reachable :: "RiskLimits \<Rightarrow> RiskEngine \<Rightarrow> bool" for limits where
  risk_start: "risk_reachable limits (new_engine limits)"
| risk_step: "risk_reachable limits e \<Longrightarrow> risk_reachable limits (risk_do e c)"

definition risk_inv :: "RiskLimits \<Rightarrow> RiskEngine \<Rightarrow> bool" where
  [inv_defs]: "risk_inv limits e \<longleftrightarrow> rg_limits e = limits
     \<and> (rg_state e = Armed \<or> rg_state e = Warning \<longrightarrow> validate_for_arming limits = Ok)"

lemma rg_transition_simps [simp]:
  "rg_limits (rg_transition e st r) = rg_limits e"
  "rg_state (rg_transition e st r) = (if risk_legal_transition (rg_state e) st then st else rg_state e)"
  by (simp_all add: rg_transition_def)

lemma legal_into_Warning: "risk_legal_transition s Warning \<longleftrightarrow> s = Armed \<or> s = Warning"
  by (cases s) (simp_all add: risk_legal_transition_def)

lemma risk_do_inv: "risk_inv limits e \<Longrightarrow> risk_inv limits (risk_do e c)"
  by (cases c)
     (auto simp: risk_inv_def arm_def warn_def kill_def fault_def rearm_def Let_def is_ok_def legal_into_Warning split: if_splits)

lemma risk_reachable_inv: "risk_reachable limits e \<Longrightarrow> risk_inv limits e"
proof (induction rule: risk_reachable.induct)
  case risk_start
  show ?case by (simp add: risk_inv_def new_engine_def Let_def)
next
  case (risk_step e c)
  then show ?case by (simp add: risk_do_inv)
qed

lemma symbols_armable_all:
  "symbols_armable ss \<Longrightarrow> s \<in> set ss \<Longrightarrow> 0 < sl_max_position s \<and> 0 < sl_max_order_quantity s \<and> 0 < sl_max_order_notional s
     \<and> 0 < sl_max_open_orders s"
  by (induction ss) (auto split: if_splits)

lemma armed_limits:
  assumes "validate_for_arming limits = Ok" "limits_find limits symbol = Some l"
  shows "0 < sl_max_position l \<and> 0 < sl_max_order_quantity l \<and> 0 < sl_max_order_notional l \<and> 0 < sl_max_open_orders l"
proof -
  have "l \<in> set (rk_symbols limits)" using assms(2) by (auto simp: limits_find_def find_Some_iff)
  with assms(1) show ?thesis by (intro symbols_armable_all) (auto simp: validate_for_arming_def split: if_splits)
qed

lemma screen_None:
  assumes "screen e a i n2 n3 = RrNone"
  shows "\<not> ownership_violated a i" "rg_state e = Armed \<or> rg_state e = Warning" "ri_system_ready i"
    "ri_market_data_age_ns i \<le> gl_max_market_data_age_ns (rk_global (rg_limits e))" "is_sane (ri_bbo i)"
    "ps_valid (ri_position i)" "es_determinate (ri_exposure i)"
    "screen_portfolio (rk_global (rg_limits e)) (ri_portfolio i) n3 = RrNone"
  using assms by (cases "rg_state e"; auto simp: screen_def Let_def not_less split: if_splits)+

section \<open>A concrete engine\<close>

definition demo_symbol_limits :: SymbolLimits where
  "demo_symbol_limits = \<lparr>sl_symbol = ''BTCUSDT'', sl_max_position = 100, sl_max_position_notional = 0,
     sl_max_order_quantity = 200, sl_max_order_notional = 100000, sl_max_working_exposure = 0,
     sl_max_side_exposure = 0, sl_max_open_orders = 10, sl_price_band_bps = 0\<rparr>"

definition demo_limits :: RiskLimits where
  "demo_limits = \<lparr>rk_global = \<lparr>gl_max_portfolio_notional = 0, gl_max_open_orders_total = 0, gl_max_daily_loss = 0,
     gl_max_session_loss = 0, gl_emergency_loss = 0, gl_max_new_orders_per_second = 0,
     gl_max_cancels_per_second = 0, gl_max_replaces_per_second = 0, gl_max_actions_per_second = 0,
     gl_burst_capacity = 0, gl_max_market_data_age_ns = 500, gl_max_position_age_ns = 5000\<rparr>,
     rk_symbols = [demo_symbol_limits]\<rparr>"

definition demo_engine :: RiskEngine where
  "demo_engine = risk_do (new_engine demo_limits) RcArm"

definition demo_spec :: "qty \<Rightarrow> InstrumentSpec" where
  "demo_spec min_qty = \<lparr>is_symbol = ''BTCUSDT'', is_id = 0, is_base = ''BTC'', is_quote = ''USDT'', is_tick_size = 1,
     is_lot_size = 10, is_min_qty = min_qty, is_max_qty = 0, is_min_notional = 0, is_price_band_lo = 0,
     is_price_band_hi = 0, is_status = Trading\<rparr>"

definition demo_input :: "qty \<Rightarrow> RiskInput" where
  "demo_input min_qty = \<lparr>ri_symbol = ''BTCUSDT'', ri_instrument = Some (demo_spec min_qty),
     ri_position = \<lparr>ps_valid = True, ps_symbol = ''BTCUSDT'', ps_quantity = 50, ps_notional = 0,
       ps_average_price = 1, ps_as_of_ns = 0, ps_sequence = 0\<rparr>,
     ri_exposure = empty_exposure,
     ri_portfolio = \<lparr>pf_valid = False, pf_pnl_determinate = False, pf_gross_notional = 0, pf_net_notional = 0,
       pf_realized = 0, pf_unrealized = 0, pf_fees = 0, pf_net_pnl = 0, pf_as_of_ns = 0, pf_sequence = 0\<rparr>,
     ri_bbo = \<lparr>bba_bid_px = 100, bba_bid_qty = 5, bba_ask_px = 102, bba_ask_qty = 5, bba_seq = 1,
       bba_exchange_ns = 0\<rparr>,
     ri_market_data_age_ns = 0, ri_system_ready = True, ri_atomic_replace = False,
     ri_replaced_order_remaining = 0, ri_expected_owner = []\<rparr>"

definition demo_order :: "OrderActionType \<Rightarrow> qty \<Rightarrow> OrderAction" where
  "demo_order ty q = default_action\<lparr>oa_type := ty, oa_symbol := ''BTCUSDT'', oa_price := 100, oa_quantity := q\<rparr>"

lemma demo_engine_reachable: "risk_reachable demo_limits demo_engine"
  unfolding demo_engine_def by (intro risk_reachable.intros)

lemmas demo_defs = demo_order_def demo_input_def demo_spec_def demo_symbol_limits_def demo_limits_def empty_exposure_def
  default_action_def

lemma demo_venue_rules:
  assumes "0 < q" "10 dvd q"
  shows "passes_venue_rules (demo_order ty r) q (demo_spec m) \<longleftrightarrow> m \<le> 0 \<or> m \<le> q"
proof -
  have "q smod 10 = 0" "100 smod 1 = (0::int)" using assms by (simp_all add: signed_modulo_int_def sdiv_nonneg)
  then show ?thesis using assms(1)
    by (auto simp: passes_venue_rules_def demo_defs validate_order_def default_request_def default_capabilities_def
        inline_assign_def spec_is_valid_def is_on_step_def requires_price_def is_post_only_def request_notional_def)
qed

lemma demo_check:
  assumes "0 < q" "q \<le> 200" "10 dvd q"
  shows "fst (check_quantity Armed (demo_order ActNew r) q (demo_input m) demo_symbol_limits c)
    = (if 0 < m \<and> q < m then RrReductionInvalid else if 50 < q then RrMaxPosition else RrNone)"
proof -
  have i: "ri_instrument (demo_input m) = Some (demo_spec m)" "ri_exposure (demo_input m) = empty_exposure"
    "ps_quantity (ri_position (demo_input m)) = 50" "ps_valid (ri_position (demo_input m))" by (simp_all add: demo_input_def)
  have "q * 100 sdiv 100000000 = 0" using assms by (simp add: sdiv_nonneg)
  then have ob: "check_order_bounds (demo_order ActNew r) q (demo_input m) demo_symbol_limits c
    = (if 0 < m \<and> q < m then RrReductionInvalid else RrNone, c\<lparr>lc_order_notional := 0\<rparr>)"
    using assms demo_venue_rules [OF assms(1,3), of ActNew r m]
    by (auto simp: check_order_bounds_def i checked_notional_of_def kScale_def Let_def demo_symbol_limits_def mult.commute
        demo_order_def default_action_def)
  have "fst (check_exposure Armed (demo_order ActNew r) q (demo_input m) demo_symbol_limits c')
    = (if 50 < q then RrMaxPosition else RrNone)" for c'
    using assms by (simp add: check_exposure_def i project_replace_def compute_worst_case_with_def compute_worst_case_def
        demo_symbol_limits_def demo_order_def default_action_def empty_exposure_def
        checked_add_def checked_sub_def Let_def peak_absolute_def saturating_abs_def is_reduce_only_def)
  then show ?thesis by (auto simp: check_quantity_def ob)
qed

lemma demo_largest:
  assumes "m \<le> 0 \<or> 10 < m"
  shows "largest_permitted_quantity Armed (demo_order ActNew 80) (demo_input m) (demo_spec m) demo_symbol_limits
    = (if m \<le> 0 then 50 else 0)"
proof -
  have h: "oa_quantity (demo_order ActNew 80) sdiv 10 = 8" "is_lot_size (demo_spec m) = 10"
    by (simp_all add: demo_order_def demo_spec_def sdiv_nonneg)
  define ok where "ok = (\<lambda>lots. fst (check_quantity Armed (demo_order ActNew 80) (wrap64 (lots * 10)) (demo_input m)
     demo_symbol_limits no_context) = RrNone)"
  have ok: "ok n \<longleftrightarrow> \<not> (0 < m \<and> n * 10 < m) \<and> n * 10 \<le> 50" if "0 < n" "n \<le> 20" for n
    using that demo_check [of "n * 10" 80 m no_context] by (simp add: ok_def in64_def)
  have s: "search_lots ok 0 8 = 5" if "m \<le> 0"
    using that ok by (simp add: search_lots.simps)
  have one: "fst (check_quantity Armed (demo_order ActNew 80) 10 (demo_input m) demo_symbol_limits no_context) = RrNone \<longleftrightarrow> m \<le> 0"
    using demo_check [of 10 80 m no_context] assms by auto
  show ?thesis unfolding largest_permitted_quantity_def using s one
    by (simp add: h Let_def ok_def [symmetric] in64_def)
qed

lemma demo_screen: "screen demo_engine (demo_order ActNew q) (demo_input m) n2 n3 = RrNone" "rg_state demo_engine = Armed"
    "limits_find (rg_limits demo_engine) (ri_symbol (demo_input m)) = Some demo_symbol_limits"
    "take_tokens demo_engine ActNew n = (demo_engine, True)" "oa_type (demo_order ActNew q) = ActNew"
  by (simp_all add: demo_engine_def arm_def new_engine_def Let_def demo_defs needs_operator_recovery_def is_ok_def
      validate_for_arming_def rg_transition_def risk_legal_transition_def screen_def ownership_violated_def no_identity_def
      spec_is_valid_def is_sane_def is_two_sided_def screen_portfolio_def limits_find_def take_tokens_def try_acquire_def
      bucket_for_def new_limiter_def)

lemma demo_evaluate:
  "evaluate demo_engine (demo_order ActNew q) (demo_input m) n1 n2 n3 = judge demo_engine (demo_order ActNew q) (demo_input m) demo_symbol_limits n1"
  by (simp add: evaluate_def demo_screen adds_exposure_def)

lemma demo_judge_50:
  assumes "m \<le> 50"
  shows "rd_verdict (snd (evaluate demo_engine (demo_order ActNew 50) (demo_input m) n1 n2 n3)) = Approve
    \<and> rd_approved (snd (evaluate demo_engine (demo_order ActNew 50) (demo_input m) n1 n2 n3)) = demo_order ActNew 50"
proof -
  have q: "oa_quantity (demo_order ActNew 50) = 50" by (simp add: demo_order_def)
  show ?thesis using demo_check [of 50 50 m "start_context demo_symbol_limits (demo_input m)"] assms
    by (auto simp: demo_evaluate judge_def demo_screen case_prod_beta Let_def q)
qed

lemma demo_judge_80:
  assumes "m \<le> 0 \<or> 10 < m \<and> m \<le> 50"
  shows "rd_verdict (snd (evaluate demo_engine (demo_order ActNew 80) (demo_input m) n1 n2 n3)) = (if m \<le> 0 then Reduce else Reject)
    \<and> rd_reason (snd (evaluate demo_engine (demo_order ActNew 80) (demo_input m) n1 n2 n3)) = RrMaxPosition
    \<and> (m \<le> 0 \<longrightarrow> oa_quantity (rd_approved (snd (evaluate demo_engine (demo_order ActNew 80) (demo_input m) n1 n2 n3))) = 50)"
proof -
  have q: "oa_quantity (demo_order ActNew 80) = 80" "ri_instrument (demo_input m) = Some (demo_spec m)"
    by (simp_all add: demo_order_def demo_input_def)
  have "fst (check_quantity Armed (demo_order ActNew 80) 80 (demo_input m) demo_symbol_limits c) = RrMaxPosition" for c
    using demo_check [of 80 80 m c] assms by auto
  moreover have "m \<le> 0 \<Longrightarrow> fst (check_quantity Armed (demo_order ActNew 80) 50 (demo_input m) demo_symbol_limits c) = RrNone" for c
    using demo_check [of 50 80 m c] by simp
  moreover have "largest_permitted_quantity Armed (demo_order ActNew 80) (demo_input m) (demo_spec m) demo_symbol_limits
    = (if m \<le> 0 then 50 else 0)" using assms by (intro demo_largest) auto
  ultimately show ?thesis
    by (auto simp: demo_evaluate judge_def demo_screen case_prod_beta Let_def q is_reducible_def)
qed

lemma permitted_exposure_bounds:
  assumes "risk_reachable limits e"
    and "decision_permits_exposure (snd (evaluate e action input started now_position now_portfolio))"
  defines "a \<equiv> rd_approved (snd (evaluate e action input started now_position now_portfolio))"
  shows "\<exists>l spec n x. limits_find limits (ri_symbol input) = Some l
    \<and> (rg_state e = Armed \<or> rg_state e = Warning) \<and> \<not> ownership_violated action input \<and> ri_system_ready input
    \<and> ri_market_data_age_ns input \<le> gl_max_market_data_age_ns (rk_global limits) \<and> is_sane (ri_bbo input)
    \<and> ps_valid (ri_position input) \<and> es_determinate (ri_exposure input)
    \<and> screen_portfolio (rk_global limits) (ri_portfolio input) now_portfolio = RrNone
    \<and> a = action\<lparr>oa_quantity := oa_quantity a\<rparr> \<and> 0 < oa_quantity a \<and> oa_quantity a \<le> oa_quantity action
    \<and> ri_instrument input = Some spec \<and> passes_venue_rules a (oa_quantity a) spec
    \<and> oa_quantity a \<le> sl_max_order_quantity l
    \<and> checked_notional_of (oa_price a) (oa_quantity a) = Some n \<and> n \<le> sl_max_order_notional l
    \<and> (oa_type a = ActNew \<longrightarrow> int (es_open_order_count (ri_exposure input)) < sl_max_open_orders l)
    \<and> (rg_state e = Warning \<longrightarrow> \<not> increases_absolute_position (ri_position input) (oa_side a) (oa_quantity a))
    \<and> project_replace action input = Some x
    \<and> (sl_max_position l < INT64_MAX \<longrightarrow>
        (\<forall>bought sold. 0 \<le> bought \<and> bought \<le> es_working_buy x + (if oa_side a = Buy then oa_quantity a else 0)
          \<and> 0 \<le> sold \<and> sold \<le> es_working_sell x + (if oa_side a = Buy then 0 else oa_quantity a)
          \<longrightarrow> \<bar>ps_quantity (ri_position input) + bought - sold\<bar> \<le> sl_max_position l))"
proof -
  from evaluate_exposure [OF assms(2)] obtain l e1 where l: "screen e action input now_position now_portfolio = RrNone"
    "limits_find (rg_limits e) (ri_symbol input) = Some l" "rg_state e1 = rg_state e"
    "snd (evaluate e action input started now_position now_portfolio) = snd (judge e1 action input l started)" by metis
  have inv: "rg_limits e = limits" "rg_state e = Armed \<or> rg_state e = Warning \<longrightarrow> validate_for_arming limits = Ok"
    using risk_reachable_inv [OF assms(1)] by (simp_all add: risk_inv_def)
  note s = screen_None [OF l(1), unfolded inv(1)]
  have lim: "0 < sl_max_position l" "0 < sl_max_order_quantity l" "0 < sl_max_order_notional l" "0 < sl_max_open_orders l"
    using armed_limits [of limits "ri_symbol input" l] inv s(2) l(2) by simp_all
  obtain q where q: "a = action\<lparr>oa_quantity := q\<rparr>" "q \<le> oa_quantity action"
    "fst (check_quantity (rg_state e) action q input l (start_context l input)) = RrNone"
  proof (cases rule: judge_cases [of e1 action input l started])
    case (approve c)
    then show thesis using that [of "oa_quantity action"] l(3,4) by (simp add: a_def)
  next
    case (reduce q r c spec)
    then show thesis using that [of q] l(3,4) by (simp add: a_def)
  next
    case (refuse r)
    then show thesis using assms(2) l(4) by (simp add: decision_permits_exposure_def)
  qed
  from q(3) obtain c where ob: "fst (check_order_bounds action q input l (start_context l input)) = RrNone"
    and ex: "fst (check_exposure (rg_state e) action q input l c) = RrNone" by (auto simp: check_quantity_None)
  note b = check_order_bounds_None [OF ob] and x = check_exposure_None [OF ex]
  from b(4) lim(3) obtain n where n: "checked_notional_of (oa_price action) q = Some n" "n \<le> sl_max_order_notional l" by auto
  from b(6) obtain spec where spec: "ri_instrument input = Some spec" "passes_venue_rules action q spec" by auto
  from x(2) lim(1) obtain y w where w: "project_replace action input = Some y"
    "compute_worst_case_with (ri_position input) y (oa_side action) q = Some w" "peak_absolute w \<le> sl_max_position l" by auto
  have mp: "\<forall>bought sold. 0 \<le> bought \<and> bought \<le> es_working_buy y + (if oa_side action = Buy then q else 0)
          \<and> 0 \<le> sold \<and> sold \<le> es_working_sell y + (if oa_side action = Buy then 0 else q)
          \<longrightarrow> \<bar>ps_quantity (ri_position input) + bought - sold\<bar> \<le> sl_max_position l" if "sl_max_position l < INT64_MAX"
    using worst_case_fill_bound [OF w(2,3) that] by blast
  have "oa_type action = ActNew \<longrightarrow> int (es_open_order_count (ri_exposure input)) < sl_max_open_orders l" using x(1) lim(4) by auto
  moreover have "rg_state e = Warning \<longrightarrow> \<not> increases_absolute_position (ri_position input) (oa_side action) q"
    using x(3) by (auto simp: is_reduce_only_def)
  moreover have "q \<le> sl_max_order_quantity l" using b(3) lim(2) by auto
  ultimately show ?thesis
    using l(2) inv(1) s q(2) b(1) spec n w(1) mp
    by (intro exI [of _ l] exI [of _ spec] exI [of _ n] exI [of _ y]) (simp add: q(1))
qed

text \<open>A valid token is issued exactly for an approving decision, for the approved action.\<close>

definition honest :: "RiskDecision \<Rightarrow> bool" where
  "honest d \<longleftrightarrow> aa_valid (rd_approval d) = decision_approved d
    \<and> (decision_approved d \<longrightarrow> aa_action (rd_approval d) = rd_approved d)
    \<and> (\<not> decision_approved d \<longrightarrow> oa_type (rd_approved d) = ActNoop \<and> rd_reason d \<noteq> RrNone)"

lemma evaluate_honest: "honest (snd (evaluate e action input started now_position now_portfolio))"
proof -
  have st: "honest (snd (stamp_approval e' (permitted_decision v r st q a c n)))" if "v \<noteq> Reject" for e' v r st q a c n
    using that by (cases v) (simp_all add: honest_def stamp_approval_def decision_approved_def Let_def)
  have rj: "honest (rejected q r s n)" if "r \<noteq> RrNone" for q r s n
    using that by (simp add: honest_def no_approval_def)
  have jd: "honest (snd (judge e' action input l started))" for e' l
    by (cases rule: judge_cases [of e' action input l started]) (simp_all add: st rj)
  show ?thesis by (auto simp: evaluate_def Let_def case_prod_beta st rj jd split: option.splits)
qed

section \<open>Properties\<close>

text \<open>
  C2. The safety boundary: in every reachable state of the engine, if \<open>evaluate\<close> lets an action through that adds
  exposure, then the engine was armed or reduce-only, the action's owner matches, the instrument is known, the market
  is fresh and sane, position and working exposure are authoritative, the portfolio and loss screen passed, the symbol
  is configured, and what was approved is the requested action with a positive, not larger quantity that the venue's
  rules accept and that is within the per-order quantity, notional and open-order limits. Whatever part of the working
  orders (after an atomic replace has removed its old order) and of the approved order fills, the absolute position
  stays within the configured maximum. In the reduce-only state the direction is not the one that adds to the position.
\<close>

theorem approved_exposure_is_within_limits:
  assumes "risk_reachable limits e"
    and "decision_permits_exposure (snd (evaluate e action input started now_position now_portfolio))"
  defines "a \<equiv> rd_approved (snd (evaluate e action input started now_position now_portfolio))"
  shows "\<exists>l spec n x. limits_find limits (ri_symbol input) = Some l
    \<and> (rg_state e = Armed \<or> rg_state e = Warning) \<and> \<not> ownership_violated action input \<and> ri_system_ready input
    \<and> ri_market_data_age_ns input \<le> gl_max_market_data_age_ns (rk_global limits) \<and> is_sane (ri_bbo input)
    \<and> ps_valid (ri_position input) \<and> es_determinate (ri_exposure input)
    \<and> screen_portfolio (rk_global limits) (ri_portfolio input) now_portfolio = RrNone
    \<and> a = action\<lparr>oa_quantity := oa_quantity a\<rparr> \<and> 0 < oa_quantity a \<and> oa_quantity a \<le> oa_quantity action
    \<and> ri_instrument input = Some spec \<and> passes_venue_rules a (oa_quantity a) spec
    \<and> oa_quantity a \<le> sl_max_order_quantity l
    \<and> checked_notional_of (oa_price a) (oa_quantity a) = Some n \<and> n \<le> sl_max_order_notional l
    \<and> (oa_type a = ActNew \<longrightarrow> int (es_open_order_count (ri_exposure input)) < sl_max_open_orders l)
    \<and> (rg_state e = Warning \<longrightarrow> \<not> increases_absolute_position (ri_position input) (oa_side a) (oa_quantity a))
    \<and> project_replace action input = Some x
    \<and> (sl_max_position l < INT64_MAX \<longrightarrow>
        (\<forall>bought sold. 0 \<le> bought \<and> bought \<le> es_working_buy x + (if oa_side a = Buy then oa_quantity a else 0)
          \<and> 0 \<le> sold \<and> sold \<le> es_working_sell x + (if oa_side a = Buy then 0 else oa_quantity a)
          \<longrightarrow> \<bar>ps_quantity (ri_position input) + bought - sold\<bar> \<le> sl_max_position l))"
  unfolding a_def by (rule permitted_exposure_bounds [OF assms(1,2)])

theorem approved_exposure_is_within_limits_witness:
  "let a = rd_approved (snd (evaluate demo_engine (demo_order ActNew 50) (demo_input 0) 1 2 3))
   in decision_permits_exposure (snd (evaluate demo_engine (demo_order ActNew 50) (demo_input 0) 1 2 3))
    \<and> 0 < oa_quantity a \<and> oa_quantity a \<le> 200"
proof -
  let ?d = "snd (evaluate demo_engine (demo_order ActNew 50) (demo_input 0) 1 2 3)"
  have p: "decision_permits_exposure ?d" using demo_judge_50 [of 0]
    by (simp add: decision_permits_exposure_def decision_approved_def demo_screen adds_exposure_def)
  have l: "limits_find demo_limits (ri_symbol (demo_input 0)) = Some demo_symbol_limits" by code_simp
  have m: "sl_max_order_quantity demo_symbol_limits = 200" by (simp add: demo_symbol_limits_def)
  from approved_exposure_is_within_limits [OF demo_engine_reachable p] p l m show ?thesis by auto
qed

text \<open>
  The approval token is the only door and it is honest: a decision carries a valid token exactly when it approves,
  the token is for exactly the approved action, a rejected decision forwards a no-op, and a cancel or no-op is
  approved unchanged in every state of the engine (killed, faulted and disarmed included) and at any rate, unless it
  names another strategy's order.
\<close>

theorem approval_token_is_honest:
  "let d = snd (evaluate e action input started now_position now_portfolio)
   in aa_valid (rd_approval d) = decision_approved d
    \<and> (decision_approved d \<longrightarrow> aa_action (rd_approval d) = rd_approved d)
    \<and> (\<not> decision_approved d \<longrightarrow> oa_type (rd_approved d) = ActNoop \<and> rd_reason d \<noteq> RrNone)
    \<and> (oa_type action = ActNoop \<or> oa_type action = ActCancel \<and> \<not> ownership_violated action input
       \<longrightarrow> rd_verdict d = Approve \<and> rd_approved d = action)"
proof -
  have "honest (snd (evaluate e action input started now_position now_portfolio))" by (rule evaluate_honest)
  moreover have "oa_type action = ActNoop \<or> oa_type action = ActCancel \<and> \<not> ownership_violated action input
       \<longrightarrow> rd_verdict (snd (evaluate e action input started now_position now_portfolio)) = Approve
         \<and> rd_approved (snd (evaluate e action input started now_position now_portfolio)) = action"
    by (auto simp: evaluate_def)
  ultimately show ?thesis by (simp add: honest_def Let_def)
qed

theorem approval_token_is_honest_witness:
  "rd_verdict (snd (evaluate (kill demo_engine RrEmergencyLoss) (demo_order ActCancel 0) (demo_input 0) 1 2 3)) = Approve
   \<and> rg_state (kill demo_engine RrEmergencyLoss) = Killed"
proof -
  have "oa_type (demo_order ActCancel 0) = ActCancel" by (simp add: demo_order_def)
  moreover have "\<not> ownership_violated (demo_order ActCancel 0) (demo_input 0)" by (simp add: ownership_violated_def demo_input_def)
  ultimately have "rd_verdict (snd (evaluate (kill demo_engine RrEmergencyLoss) (demo_order ActCancel 0) (demo_input 0) 1 2 3)) = Approve"
    using approval_token_is_honest [of "kill demo_engine RrEmergencyLoss" "demo_order ActCancel 0" "demo_input 0" 1 2 3]
    by (simp add: Let_def)
  moreover have "rg_state (kill demo_engine RrEmergencyLoss) = Killed" by code_simp
  ultimately show ?thesis by blast
qed

text \<open>
  C20. A kill holds until the operator re-arms: from a killed or faulted engine, any sequence of commands without an
  explicit re-arm (arming, warnings, further kills and faults, evaluations, cancels) leaves it killed or faulted, no
  evaluation on the way approves new exposure, and a re-arm leads to the disarmed state.
\<close>

theorem kill_holds_until_rearm:
  assumes "needs_operator_recovery (rg_state e)" and "RcRearm \<notin> set cmds"
  shows "needs_operator_recovery (rg_state (foldl risk_do e cmds))
    \<and> \<not> decision_permits_exposure (snd (evaluate (foldl risk_do e cmds) action input n1 n2 n3))
    \<and> rg_state (fst (rearm (foldl risk_do e cmds))) = Disarmed"
proof -
  have step: "needs_operator_recovery (rg_state (risk_do e' c))" if "needs_operator_recovery (rg_state e')" "c \<noteq> RcRearm" for e' c
    using that by (cases c) (auto simp: needs_operator_recovery_def arm_def warn_def kill_def fault_def risk_legal_transition_def
        rg_transition_def split: if_splits)
  have inv: "needs_operator_recovery (rg_state (foldl risk_do e' cs))"
    if "needs_operator_recovery (rg_state e')" "RcRearm \<notin> set cs" for e' cs
    using that by (induction cs arbitrary: e') (auto simp: step)
  have k: "needs_operator_recovery (rg_state (foldl risk_do e cmds))" using inv assms by blast
  have "\<not> decision_permits_exposure (snd (evaluate (foldl risk_do e cmds) action input n1 n2 n3))"
  proof
    assume "decision_permits_exposure (snd (evaluate (foldl risk_do e cmds) action input n1 n2 n3))"
    from evaluate_exposure [OF this] screen_None(2) k show False by (metis RiskState.distinct needs_operator_recovery_def)
  qed
  with k show ?thesis by (simp add: rearm_def)
qed

theorem kill_holds_until_rearm_witness:
  "needs_operator_recovery (rg_state (foldl risk_do (kill demo_engine RrEmergencyLoss) [RcArm, RcWarn RrNone]))
   \<and> \<not> decision_permits_exposure (snd (evaluate (foldl risk_do (kill demo_engine RrEmergencyLoss) [RcArm, RcWarn RrNone])
        (demo_order ActNew 50) (demo_input 0) 1 2 3))"
proof -
  have "needs_operator_recovery (rg_state (kill demo_engine RrEmergencyLoss))" by code_simp
  from kill_holds_until_rearm [OF this, of "[RcArm, RcWarn RrNone]"] show ?thesis by simp
qed

text \<open>
  A reduction is real and maximal at its edge: when an exposure-adding action is reduced, the approved quantity is
  positive, strictly smaller than requested, a whole number of lots, passes every check itself, and one lot more would
  either exceed the request or fail a check; and the recorded reason is the limit the full quantity failed.
\<close>

theorem reduction_is_edge:
  assumes "rd_verdict (snd (evaluate e action input started n2 n3)) = Reduce" and "in64 (oa_quantity action)"
    and "oa_quantity action < INT64_MAX"
  defines "d \<equiv> snd (evaluate e action input started n2 n3)"
  shows "\<exists>l spec. limits_find (rg_limits e) (ri_symbol input) = Some l \<and> ri_instrument input = Some spec
    \<and> 0 < oa_quantity (rd_approved d) \<and> oa_quantity (rd_approved d) < oa_quantity action
    \<and> is_lot_size spec dvd oa_quantity (rd_approved d)
    \<and> fst (check_quantity (rg_state e) action (oa_quantity (rd_approved d)) input l (start_context l input)) = RrNone
    \<and> (oa_quantity action < oa_quantity (rd_approved d) + is_lot_size spec
       \<or> fst (check_quantity (rg_state e) action (oa_quantity (rd_approved d) + is_lot_size spec) input l no_context) \<noteq> RrNone)
    \<and> is_reducible (rd_reason d)
    \<and> rd_reason d = fst (check_quantity (rg_state e) action (oa_quantity action) input l (start_context l input))"
proof -
  have x: "oa_type action \<noteq> ActNoop" "oa_type action \<noteq> ActCancel"
    using assms(1) by (auto simp: evaluate_def split: if_splits)
  then have "adds_exposure (oa_type action)" by (cases "oa_type action") (simp_all add: adds_exposure_def)
  moreover have "oa_type (rd_approved d) = oa_type action"
    using assms(1) x by (auto simp: d_def evaluate_def Let_def case_prod_beta judge_def split: if_splits option.splits)
  ultimately have "decision_permits_exposure d" using assms(1) by (simp add: decision_permits_exposure_def decision_approved_def d_def)
  from evaluate_exposure [OF this [unfolded d_def]] obtain l e1 where l: "screen e action input n2 n3 = RrNone"
    "limits_find (rg_limits e) (ri_symbol input) = Some l" "rg_state e1 = rg_state e"
    "d = snd (judge e1 action input l started)" unfolding d_def by metis
  show ?thesis
  proof (cases rule: judge_cases [of e1 action input l started])
    case (approve c)
    then show ?thesis using assms(1) l(4) by (simp add: d_def)
  next
    case (refuse r)
    then show ?thesis using assms(1) l(4) by (simp add: d_def)
  next
    case (reduce q r c spec)
    have lot: "0 < is_lot_size spec"
      using l(1) reduce(5) by (auto simp: screen_def Let_def spec_is_valid_def split: if_splits)
    from largest_permitted_is_edge [OF reduce(6) reduce(2) lot assms(2,3)] reduce l(3) l(2)
    show ?thesis by (intro exI [of _ l] exI [of _ spec]) (simp add: l(4))
  qed
qed

theorem reduction_is_edge_witness:
  "let d = snd (evaluate demo_engine (demo_order ActNew 80) (demo_input 0) 1 2 3)
   in rd_verdict d = Reduce \<and> is_reducible (rd_reason d) \<and> oa_quantity (rd_approved d) = 50"
proof -
  let ?d = "snd (evaluate demo_engine (demo_order ActNew 80) (demo_input 0) 1 2 3)"
  have d: "rd_verdict ?d = Reduce" "oa_quantity (rd_approved ?d) = 50" using demo_judge_80 [of 0] by simp_all
  have q: "oa_quantity (demo_order ActNew 80) = 80" by (simp add: demo_order_def)
  from reduction_is_edge [OF d(1)] d q show ?thesis by (simp add: in64_def Let_def) blast
qed

text \<open>
  The search for a smaller order can give up too early: it first asks whether a single lot passes every check, and a
  venue minimum above one lot makes that test fail although larger quantities pass. With a position of 50, a maximum of
  100, lots of 10 and a minimum of 30, a request for 80 is rejected although 50 passes every check.
\<close>

theorem reduction_gives_up_below_minimum:
  "let d = snd (evaluate demo_engine (demo_order ActNew 80) (demo_input 30) 1 2 3)
   in rd_verdict d = Reject \<and> rd_reason d = RrMaxPosition
    \<and> fst (check_quantity (rg_state demo_engine) (demo_order ActNew 80) 50 (demo_input 30) demo_symbol_limits no_context) = RrNone
    \<and> rd_verdict (snd (evaluate demo_engine (demo_order ActNew 50) (demo_input 30) 1 2 3)) = Approve"
  using demo_judge_80 [of 30] demo_judge_50 [of 30] demo_check [of 50 80 30 no_context] by (simp add: demo_screen Let_def)

end
