(* ===== verification/OrderManager.thy ===== *)
theory OrderManager
  imports OrderTypes RiskEngine SpscRing
begin

text \<open>
  The order manager, \<^verbatim>\<open>OrderManager.hpp\<close> and \<^verbatim>\<open>OrderManager.cpp\<close>: order records in a vector that never moves,
  three indices into it, deferred new orders, the event queue, and the journal. A pointer to a record is its index.
  The execution adapter is a parameter \<open>ex\<close>: given the calls made so far and the next call, it says whether the call
  was taken; the calls themselves are logged in \<open>om_sent\<close>. The journal is the sequence of appended records. A call
  reads the steady clock several times in the source; the model takes one reading \<open>now\<close> for the whole call.
  Latency histograms are left out.
\<close>

section \<open>Data\<close>

record OmsConfig =
  oc_new_request_timeout_ns :: nanos
  oc_cancel_request_timeout_ns :: nanos
  oc_replace_request_timeout_ns :: nanos
  oc_reconciliation_timeout_ns :: nanos
  oc_client_id_prefix :: string
  oc_session_id :: nat
  oc_max_client_id_length :: nat
  oc_max_orders :: nat

datatype OmsMetric =
    OmOrdersCreated | OmNewRequests | OmCancelRequests | OmReplaceRequests | OmAcknowledgements | OmRejects
  | OmFills | OmPartialFills | OmDuplicateEvents | OmDuplicateFills | OmDuplicateRequests | OmOutOfOrderEvents
  | OmQuarantinedEvents | OmIllegalTransitions | OmUnknownStates | OmTimeouts | OmStaleOperations
  | OmOwnershipViolations | OmDeferredNews | OmReconciliations | OmReconciliationsRefused | OmOrphanOrders
  | OmMissingOrders | OmNotRiskApproved

record SubmitResult =
  sb_accepted :: bool
  sb_reject :: OmsReject
  sb_logical_id :: logical_order_id
  sb_request_id :: request_id
  sb_deferred :: bool
  sb_coalesced :: bool

definition no_result :: SubmitResult where
  "no_result = \<lparr>sb_accepted = False, sb_reject = OrNone, sb_logical_id = 0, sb_request_id = 0,
     sb_deferred = False, sb_coalesced = False\<rparr>"

record RecoveryState =
  rs_session_id :: nat
  rs_next_client_id_sequence :: nat
  rs_next_logical_id :: nat
  rs_next_request_id :: nat
  rs_journal_sequence :: nat
  rs_orders :: "OrderRecord list"

record DeferredNew =
  dn_present :: bool
  dn_action :: OrderAction
  dn_waiting_on :: logical_order_id

definition no_deferred :: DeferredNew where
  "no_deferred = \<lparr>dn_present = False, dn_action = default_action, dn_waiting_on = 0\<rparr>"

text \<open>The calls of \<open>IExchangeExecution\<close> that the order manager makes.\<close>

datatype VenueCall = VcSubmit OrderRequest | VcCancel CancelRequest | VcReplace ReplaceRequest

type_synonym adapter = "VenueCall list \<Rightarrow> VenueCall \<Rightarrow> ErrorCode"

record OrderManager =
  om_config :: OmsConfig
  om_id_generator :: IdGenerator
  om_attached :: bool
  om_orders :: "OrderRecord list"
  om_by_client_id :: "string \<rightharpoonup> nat"
  om_by_exchange_id :: "string \<rightharpoonup> nat"
  om_by_logical_id :: "logical_order_id \<rightharpoonup> nat"
  om_deferred :: "DeferredNew list"
  om_deferred_count :: nat
  om_queue :: "ExecutionEvent SpscRing"
  om_dropped_events :: nat
  om_next_logical_id :: nat
  om_next_request_id :: nat
  om_journal_sequence :: nat
  om_creation_sequence :: nat
  om_metrics :: "OmsMetric counters"
  om_rejects_by_reason :: "OmsReject counters"
  om_journal :: "OrderJournalRecord list"
  om_sent :: "VenueCall list"

definition kQueueCapacity :: nat where
  "kQueueCapacity = 1024"

definition new_oms :: "OmsConfig \<Rightarrow> OrderManager" where
  "new_oms config = \<lparr>om_config = config,
     om_id_generator = new_generator (oc_client_id_prefix config) (oc_session_id config) (oc_max_client_id_length config),
     om_attached = False, om_orders = [], om_by_client_id = Map.empty, om_by_exchange_id = Map.empty,
     om_by_logical_id = Map.empty, om_deferred = replicate (oc_max_orders config) no_deferred, om_deferred_count = 0,
     om_queue = new_ring kQueueCapacity EvNone, om_dropped_events = 0, om_next_logical_id = 0, om_next_request_id = 0,
     om_journal_sequence = 0, om_creation_sequence = 0, om_metrics = zero_counters,
     om_rejects_by_reason = zero_counters, om_journal = [], om_sent = []\<rparr>"

definition attach_execution :: "OrderManager \<Rightarrow> OrderManager" where
  "attach_execution s = s\<lparr>om_attached := True\<rparr>"

section \<open>Journal, counters and transitions\<close>

definition count_metric :: "OmsMetric \<Rightarrow> OrderManager \<Rightarrow> OrderManager" where
  "count_metric c s = s\<lparr>om_metrics := bump (om_metrics s) c\<rparr>"

text \<open>\<open>rejects_by_reason\<close> has 20 slots and \<open>OmsReject\<close> 16 values, so the bound of the source never cuts.\<close>

definition record_reject :: "OmsReject \<Rightarrow> OrderManager \<Rightarrow> OrderManager" where
  "record_reject r s = s\<lparr>om_rejects_by_reason := bump (om_rejects_by_reason s) r\<rparr>"

definition append_record :: "OrderJournalRecord \<Rightarrow> OrderManager \<Rightarrow> OrderManager" where
  "append_record r s =
     (let n = inc64 (om_journal_sequence s)
      in s\<lparr>om_journal_sequence := n, om_journal := om_journal s @ [r\<lparr>jr_sequence := n\<rparr>]\<rparr>)"

definition order_at :: "OrderManager \<Rightarrow> nat \<Rightarrow> OrderRecord" where
  "order_at s i = om_orders s ! i"

definition put_order :: "nat \<Rightarrow> OrderRecord \<Rightarrow> OrderManager \<Rightarrow> OrderManager" where
  "put_order i o1 s = s\<lparr>om_orders := (om_orders s)[i := o1]\<rparr>"

definition journal_event ::
  "nanos \<Rightarrow> OrderEventType \<Rightarrow> OrderRecord \<Rightarrow> OrderState \<Rightarrow> OrderState \<Rightarrow> OrderManager \<Rightarrow> OrderManager" where
  "journal_event now ty o1 from_st to_st s =
     append_record (blank_record\<lparr>jr_type := ty, jr_logical_id := od_logical_id o1,
       jr_client_order_id := od_client_order_id o1, jr_exchange_order_id := od_exchange_order_id o1,
       jr_symbol := od_symbol o1, jr_side := od_side o1, jr_from_state := from_st, jr_to_state := to_st,
       jr_price := od_price o1, jr_quantity := od_original_quantity o1,
       jr_cumulative_quantity := od_cumulative_quantity o1, jr_reject := OrNone,
       jr_request_id := od_pending_request o1, jr_recorded_ns := now, jr_venue_ns := od_venue_ns o1,
       jr_generation := oo_generation (od_ownership o1), jr_trace := od_trace o1\<rparr>) s"

definition journal_rejection ::
  "nanos \<Rightarrow> OrderEventType \<Rightarrow> OrderAction \<Rightarrow> OmsReject \<Rightarrow> OrderManager \<Rightarrow> OrderManager" where
  "journal_rejection now ty action rej s =
     append_record (blank_record\<lparr>jr_type := ty, jr_symbol := oa_symbol action, jr_side := oa_side action,
       jr_price := oa_price action, jr_quantity := oa_quantity action, jr_reject := rej, jr_recorded_ns := now,
       jr_generation := oa_generation action, jr_trace := oa_trace action\<rparr>) s"

text \<open>\<open>transition\<close> on a record; every caller in the source discards the returned flag.\<close>

definition enter_state :: "nanos \<Rightarrow> OrderState \<Rightarrow> OrderRecord \<Rightarrow> OrderRecord" where
  "enter_state now to_st o1 =
     (if is_terminal to_st
      then o1\<lparr>od_state := to_st, od_terminal_ns := now, od_pending_request := 0, od_pending_since_ns := 0\<rparr>
      else o1\<lparr>od_state := to_st\<rparr>)"

definition om_transition ::
  "nanos \<Rightarrow> nat \<Rightarrow> OrderState \<Rightarrow> OrderEventType \<Rightarrow> OrderJournalRecord \<Rightarrow> OrderManager \<Rightarrow> OrderManager" where
  "om_transition now i to_st event detail s =
     (let from_st = od_state (order_at s i)
      in if \<not> order_legal_transition from_st to_st
         then append_record (detail\<lparr>jr_type := OeEventQuarantined, jr_from_state := from_st, jr_to_state := to_st,
                jr_reject := OrIllegalTransition, jr_recorded_ns := now\<rparr>)
                (record_reject OrIllegalTransition (count_metric OmIllegalTransitions s))
         else
           let o1 = enter_state now to_st (order_at s i);
               s1 = put_order i o1 s;
               s2 = (if to_st = UnknownState then count_metric OmUnknownStates s1 else s1)
           in journal_event now event o1 from_st to_st s2)"

definition detail_for :: "OrderRecord \<Rightarrow> OrderJournalRecord" where
  "detail_for o1 = blank_record\<lparr>jr_logical_id := od_logical_id o1\<rparr>"

section \<open>Lookup\<close>

definition find_logical :: "OrderManager \<Rightarrow> logical_order_id \<Rightarrow> nat option" where
  "find_logical s i = om_by_logical_id s i"

definition find_client :: "OrderManager \<Rightarrow> string \<Rightarrow> nat option" where
  "find_client s i = om_by_client_id s i"

definition find_by_exchange_id :: "OrderManager \<Rightarrow> string \<Rightarrow> nat option" where
  "find_by_exchange_id s i = om_by_exchange_id s i"

definition occupies :: "string \<Rightarrow> string \<Rightarrow> QuoteSlot \<Rightarrow> OrderRecord \<Rightarrow> bool" where
  "occupies owner symbol slot o1 \<longleftrightarrow>
     od_symbol o1 = symbol \<and> ownership_matches (od_ownership o1) owner slot \<and> consumes_exposure (od_state o1)"

definition find_slot_order :: "OrderManager \<Rightarrow> string \<Rightarrow> string \<Rightarrow> QuoteSlot \<Rightarrow> nat option" where
  "find_slot_order s owner symbol slot = find_index (occupies owner symbol slot) (om_orders s)"

definition live_order_count :: "OrderManager \<Rightarrow> nat" where
  "live_order_count s = length (filter (\<lambda>o1. is_live (od_state o1)) (om_orders s))"

definition order_count :: "OrderManager \<Rightarrow> nat" where
  "order_count s = length (om_orders s)"

section \<open>Submit\<close>

definition oms_next_request_id :: "OrderManager \<Rightarrow> OrderManager \<times> request_id" where
  "oms_next_request_id s = (let n = inc64 (om_next_request_id s) in (s\<lparr>om_next_request_id := n\<rparr>, n))"

definition venue_call :: "adapter \<Rightarrow> VenueCall \<Rightarrow> OrderManager \<Rightarrow> OrderManager \<times> ErrorCode" where
  "venue_call ex c s = (s\<lparr>om_sent := om_sent s @ [c]\<rparr>, ex (om_sent s) c)"

definition refuse_submit :: "OmsReject \<Rightarrow> OrderManager \<Rightarrow> OrderManager \<times> SubmitResult" where
  "refuse_submit r s = (record_reject r s, no_result\<lparr>sb_reject := r\<rparr>)"

definition defer_new :: "OrderAction \<Rightarrow> logical_order_id \<Rightarrow> OrderManager \<Rightarrow> OrderManager \<times> SubmitResult" where
  "defer_new action waiting_on s =
     (case find_index (\<lambda>d. \<not> dn_present d) (om_deferred s) of
        None \<Rightarrow> refuse_submit OrCapacityExhausted s
      | Some k \<Rightarrow>
          (count_metric OmDeferredNews
             (s\<lparr>om_deferred := (om_deferred s)[k := \<lparr>dn_present = True, dn_action = action,
                                                dn_waiting_on = waiting_on\<rparr>],
                om_deferred_count := inc64 (om_deferred_count s)\<rparr>),
           no_result\<lparr>sb_accepted := True, sb_deferred := True\<rparr>))"

definition fresh_order :: "nanos \<Rightarrow> OrderAction \<Rightarrow> string \<Rightarrow> nat \<Rightarrow> nat \<Rightarrow> OrderRecord" where
  "fresh_order now action client_id logical creation =
     \<lparr>od_logical_id = logical, od_client_order_id = client_id, od_exchange_order_id = [],
      od_ownership = \<lparr>oo_strategy = si_name (oa_identity action), oo_slot = oa_slot action,
        oo_generation = oa_generation action, oo_creation_sequence = creation\<rparr>,
      od_symbol = oa_symbol action, od_symbol_id = oa_symbol_id action, od_side = oa_side action,
      od_type = Limit, od_tif = GTC, od_price = oa_price action, od_original_quantity = oa_quantity action,
      od_state = Created, od_cumulative_quantity = 0, od_average_fill_price = 0, od_cumulative_fees = 0,
      od_seen_trades = empty_seen SeenTradeIds_kCapacity, od_pending_request = 0, od_pending_since_ns = 0,
      od_pending_price = 0, od_pending_quantity = 0, od_pending_client_order_id = [], od_created_ns = now,
      od_sent_ns = 0, od_acknowledged_ns = 0, od_terminal_ns = 0, od_venue_ns = 0, od_last_applied_sequence = 0,
      od_trace = oa_trace action\<rparr>"

definition insert_order :: "nanos \<Rightarrow> OrderAction \<Rightarrow> string \<Rightarrow> OrderManager \<Rightarrow> OrderManager" where
  "insert_order now action client_id s =
     (let logical = inc64 (om_next_logical_id s);
          creation = inc64 (om_creation_sequence s);
          o1 = fresh_order now action client_id logical creation;
          index = length (om_orders s);
          s1 = s\<lparr>om_next_logical_id := logical, om_creation_sequence := creation, om_orders := om_orders s @ [o1],
                 om_by_client_id := (case om_by_client_id s client_id of
                    None \<Rightarrow> (om_by_client_id s)(client_id \<mapsto> index) | Some _ \<Rightarrow> om_by_client_id s),
                 om_by_logical_id := (case om_by_logical_id s logical of
                    None \<Rightarrow> (om_by_logical_id s)(logical \<mapsto> index) | Some _ \<Rightarrow> om_by_logical_id s)\<rparr>
      in journal_event now OeCreated o1 Created Created (count_metric OmOrdersCreated s1))"

definition order_request :: "nanos \<Rightarrow> OrderRecord \<Rightarrow> OrderRequest" where
  "order_request now o1 = default_request\<lparr>or_client_order_id := od_client_order_id o1, or_symbol := od_symbol o1,
     or_symbol_id := od_symbol_id o1, or_side := od_side o1, or_type := od_type o1, or_tif := od_tif o1,
     or_price := od_price o1, or_quantity := od_original_quantity o1, or_trace := od_trace o1,
     or_created_ns := now\<rparr>"

definition send_new :: "adapter \<Rightarrow> nanos \<Rightarrow> nat \<Rightarrow> OrderManager \<Rightarrow> OrderManager \<times> SubmitResult" where
  "send_new ex now i s =
     (let stored = order_at s i;
          request = order_request now stored;
          (s1, rid) = oms_next_request_id s;
          s2 = put_order i (stored\<lparr>od_pending_request := rid, od_pending_since_ns := now, od_sent_ns := now\<rparr>) s1;
          detail = detail_for stored;
          s3 = count_metric OmNewRequests (om_transition now i PendingNew OeRequestSent detail s2);
          (s4, sent) = venue_call ex (VcSubmit request) s3
      in if is_err sent
         then (count_metric OmRejects (om_transition now i RejectedState OeRejected detail
                 (put_order i ((order_at s4 i)\<lparr>od_pending_request := 0\<rparr>) s4)),
               no_result\<lparr>sb_reject := OrExecutionUnavailable, sb_logical_id := od_logical_id stored\<rparr>)
         else (s4, no_result\<lparr>sb_accepted := True, sb_logical_id := od_logical_id stored,
                     sb_request_id := od_pending_request (order_at s4 i)\<rparr>))"

definition handle_new :: "adapter \<Rightarrow> nanos \<Rightarrow> OrderAction \<Rightarrow> OrderManager \<Rightarrow> OrderManager \<times> SubmitResult" where
  "handle_new ex now action s =
     (if length (om_orders s) \<ge> oc_max_orders (om_config s) then refuse_submit OrCapacityExhausted s
      else
        let occupant = find_slot_order s (si_name (oa_identity action)) (oa_symbol action) (oa_slot action);
            create = (let (g, client) = next_id (om_id_generator s);
                          s1 = s\<lparr>om_id_generator := g\<rparr>
                      in case client of
                           None \<Rightarrow> refuse_submit OrIdentityGenerationFailed s1
                         | Some client_id \<Rightarrow>
                             if om_by_client_id s1 client_id \<noteq> None then refuse_submit OrIdentityCollision s1
                             else
                               let i = length (om_orders s1); s2 = insert_order now action client_id s1
                               in if \<not> om_attached s2
                                  then (record_reject OrExecutionUnavailable s2,
                                        no_result\<lparr>sb_reject := OrExecutionUnavailable,
                                                  sb_logical_id := od_logical_id (order_at s2 i)\<rparr>)
                                  else send_new ex now i s2)
        in case occupant of
             None \<Rightarrow> create
           | Some k \<Rightarrow>
               (if od_state (order_at s k) = PendingCancel
                  then defer_new action (od_logical_id (order_at s k)) s
                else if has_pending_request (order_at s k)
                  then refuse_submit OrPendingOperation (count_metric OmDuplicateRequests s)
                else create))"

definition or_else :: "'a option \<Rightarrow> 'a option \<Rightarrow> 'a option" where
  "or_else a b = (case a of None \<Rightarrow> b | Some _ \<Rightarrow> a)"

definition cancel_target :: "OrderManager \<Rightarrow> OrderAction \<Rightarrow> nat option" where
  "cancel_target s action =
     or_else (if oa_target_client_order_id action \<noteq> [] then find_client s (oa_target_client_order_id action) else None)
       (or_else (if oa_target_exchange_order_id action \<noteq> []
                 then find_by_exchange_id s (oa_target_exchange_order_id action) else None)
          (find_slot_order s (si_name (oa_identity action)) (oa_symbol action) (oa_slot action)))"

definition not_owner :: "OrderAction \<Rightarrow> OrderRecord \<Rightarrow> bool" where
  "not_owner action o1 \<longleftrightarrow> si_name (oa_identity action) \<noteq> []
     \<and> \<not> ownership_matches (od_ownership o1) (si_name (oa_identity action)) (oo_slot (od_ownership o1))"

definition cancel_request :: "nanos \<Rightarrow> OrderRecord \<Rightarrow> CancelRequest" where
  "cancel_request now o1 = \<lparr>cr_client_order_id = od_client_order_id o1,
     cr_exchange_order_id = od_exchange_order_id o1, cr_symbol = od_symbol o1, cr_symbol_id = od_symbol_id o1,
     cr_trace = od_trace o1, cr_created_ns = now\<rparr>"

definition send_cancel :: "adapter \<Rightarrow> nanos \<Rightarrow> nat \<Rightarrow> OrderManager \<Rightarrow> OrderManager \<times> SubmitResult" where
  "send_cancel ex now i s =
     (let o1 = order_at s i;
          (s1, rid) = oms_next_request_id s;
          s2 = put_order i (o1\<lparr>od_pending_request := rid, od_pending_since_ns := now\<rparr>) s1;
          detail = detail_for o1;
          s3 = count_metric OmCancelRequests (om_transition now i PendingCancel OeCancelRequested detail s2);
          (s4, sent) = venue_call ex (VcCancel (cancel_request now o1)) s3
      in if is_err sent
         then (om_transition now i Working OeCancelRejected detail
                 (put_order i ((order_at s4 i)\<lparr>od_pending_request := 0\<rparr>) s4),
               no_result\<lparr>sb_reject := OrExecutionUnavailable, sb_logical_id := od_logical_id o1\<rparr>)
         else (s4, no_result\<lparr>sb_accepted := True, sb_logical_id := od_logical_id o1,
                     sb_request_id := od_pending_request (order_at s4 i)\<rparr>))"

definition handle_cancel :: "adapter \<Rightarrow> nanos \<Rightarrow> OrderAction \<Rightarrow> OrderManager \<Rightarrow> OrderManager \<times> SubmitResult" where
  "handle_cancel ex now action s =
     (case cancel_target s action of
        None \<Rightarrow> refuse_submit OrUnknownOrder s
      | Some i \<Rightarrow>
          (let o1 = order_at s i
           in if not_owner action o1
                then refuse_submit OrOwnershipViolation (count_metric OmOwnershipViolations s)
              else if is_terminal (od_state o1)
                then (record_reject OrTerminalOrder s,
                      no_result\<lparr>sb_reject := OrTerminalOrder, sb_logical_id := od_logical_id o1\<rparr>)
              else if od_state o1 = PendingCancel
                then (record_reject OrDuplicateRequest (count_metric OmDuplicateRequests s),
                      no_result\<lparr>sb_reject := OrDuplicateRequest, sb_logical_id := od_logical_id o1,
                                sb_coalesced := True\<rparr>)
              else if \<not> om_attached s then refuse_submit OrExecutionUnavailable s
              else send_cancel ex now i s))"

definition replace_target :: "OrderManager \<Rightarrow> OrderAction \<Rightarrow> nat option" where
  "replace_target s action =
     or_else (if oa_target_client_order_id action \<noteq> [] then find_client s (oa_target_client_order_id action) else None)
       (find_slot_order s (si_name (oa_identity action)) (oa_symbol action) (oa_slot action))"

definition replace_request :: "nanos \<Rightarrow> OrderRecord \<Rightarrow> OrderAction \<Rightarrow> string \<Rightarrow> ReplaceRequest" where
  "replace_request now o1 action replacement_id = \<lparr>rr_original_client_order_id = od_client_order_id o1,
     rr_original_exchange_order_id = od_exchange_order_id o1, rr_new_client_order_id = replacement_id,
     rr_symbol = od_symbol o1, rr_symbol_id = od_symbol_id o1, rr_new_price = oa_price action,
     rr_new_quantity = oa_quantity action, rr_trace = od_trace o1, rr_created_ns = now\<rparr>"

definition serve_generation :: "nat \<Rightarrow> OrderRecord \<Rightarrow> OrderRecord" where
  "serve_generation g o1 = o1\<lparr>od_ownership := (od_ownership o1)\<lparr>oo_generation := g\<rparr>\<rparr>"

definition send_replace ::
  "adapter \<Rightarrow> nanos \<Rightarrow> OrderAction \<Rightarrow> string \<Rightarrow> nat \<Rightarrow> OrderManager \<Rightarrow> OrderManager \<times> SubmitResult" where
  "send_replace ex now action replacement_id i s =
     (let o1 = order_at s i;
          (s1, rid) = oms_next_request_id s;
          s2 = put_order i (serve_generation (oa_generation action)
                 (o1\<lparr>od_pending_price := oa_price action, od_pending_quantity := oa_quantity action,
                     od_pending_client_order_id := replacement_id, od_pending_request := rid,
                     od_pending_since_ns := now\<rparr>)) s1;
          detail = detail_for o1;
          s3 = count_metric OmReplaceRequests (om_transition now i PendingReplace OeReplaceRequested detail s2);
          (s4, sent) = venue_call ex (VcReplace (replace_request now o1 action replacement_id)) s3
      in if is_err sent
         then (om_transition now i Working OeReplaceRejected detail
                 (put_order i ((order_at s4 i)\<lparr>od_pending_request := 0, od_pending_client_order_id := []\<rparr>) s4),
               no_result\<lparr>sb_reject := OrExecutionUnavailable\<rparr>)
         else (s4, no_result\<lparr>sb_accepted := True, sb_logical_id := od_logical_id o1,
                     sb_request_id := od_pending_request (order_at s4 i)\<rparr>))"

definition handle_replace :: "adapter \<Rightarrow> nanos \<Rightarrow> OrderAction \<Rightarrow> OrderManager \<Rightarrow> OrderManager \<times> SubmitResult" where
  "handle_replace ex now action s =
     (case replace_target s action of
        None \<Rightarrow> refuse_submit OrUnknownOrder s
      | Some i \<Rightarrow>
          (let o1 = order_at s i
           in if not_owner action o1
                then refuse_submit OrOwnershipViolation (count_metric OmOwnershipViolations s)
              else if is_terminal (od_state o1) then refuse_submit OrTerminalOrder s
              else if oa_generation action < oo_generation (od_ownership o1)
                then refuse_submit OrStaleGeneration (count_metric OmStaleOperations s)
              else if od_state o1 = PendingReplace
                then (record_reject OrDuplicateRequest (count_metric OmDuplicateRequests
                        (put_order i (serve_generation (oa_generation action)
                           (o1\<lparr>od_pending_price := oa_price action, od_pending_quantity := oa_quantity action\<rparr>)) s)),
                      no_result\<lparr>sb_reject := OrDuplicateRequest, sb_logical_id := od_logical_id o1,
                                sb_coalesced := True\<rparr>)
              else if has_pending_request o1
                then refuse_submit OrPendingOperation (count_metric OmDuplicateRequests s)
              else if \<not> om_attached s then refuse_submit OrExecutionUnavailable s
              else
                let (g, replacement) = next_id (om_id_generator s); s1 = s\<lparr>om_id_generator := g\<rparr>
                in case replacement of
                     None \<Rightarrow> refuse_submit OrIdentityGenerationFailed s1
                   | Some replacement_id \<Rightarrow> send_replace ex now action replacement_id i s1))"

definition submit :: "adapter \<Rightarrow> nanos \<Rightarrow> ApprovedAction \<Rightarrow> OrderManager \<Rightarrow> OrderManager \<times> SubmitResult" where
  "submit ex now approved s =
     (if \<not> aa_valid approved
      then (journal_rejection now OeEventQuarantined (aa_action approved) OrNotRiskApproved
              (record_reject OrNotRiskApproved (count_metric OmNotRiskApproved s)),
            no_result\<lparr>sb_reject := OrNotRiskApproved\<rparr>)
      else case oa_type (aa_action approved) of
             ActNew \<Rightarrow> handle_new ex now (aa_action approved) s
           | ActCancel \<Rightarrow> handle_cancel ex now (aa_action approved) s
           | ActReplace \<Rightarrow> handle_replace ex now (aa_action approved) s
           | ActNoop \<Rightarrow> (s, no_result\<lparr>sb_accepted := True\<rparr>))"

section \<open>Deferred orders\<close>

definition dec64 :: "nat \<Rightarrow> nat" where
  "dec64 n = nat ((int n - 1) mod 18446744073709551616)"

definition release_slot ::
  "adapter \<Rightarrow> nanos \<Rightarrow> logical_order_id \<Rightarrow> OrderManager \<Rightarrow> nat \<Rightarrow> OrderManager" where
  "release_slot ex now resolved s k =
     (let d = om_deferred s ! k
      in if \<not> dn_present d \<or> dn_waiting_on d \<noteq> resolved then s
         else fst (handle_new ex now (dn_action d)
                (s\<lparr>om_deferred := (om_deferred s)[k := d\<lparr>dn_present := False, dn_waiting_on := 0\<rparr>],
                   om_deferred_count := dec64 (om_deferred_count s)\<rparr>)))"

definition release_deferred ::
  "adapter \<Rightarrow> nanos \<Rightarrow> logical_order_id \<Rightarrow> OrderManager \<Rightarrow> OrderManager" where
  "release_deferred ex now resolved s =
     (if om_deferred_count s = 0 then s
      else foldl (release_slot ex now resolved) s [0..<length (om_deferred s)])"

section \<open>Events\<close>

definition on_execution :: "ExecutionEvent \<Rightarrow> OrderManager \<Rightarrow> OrderManager" where
  "on_execution event s =
     (let (q, ok) = try_push (om_queue s) event; s1 = s\<lparr>om_queue := q\<rparr>
      in if ok then s1
         else count_metric OmQuarantinedEvents (s1\<lparr>om_dropped_events := inc64 (om_dropped_events s1)\<rparr>))"

definition ack_identity_clash :: "OrderAckEvent \<Rightarrow> nat \<Rightarrow> OrderManager \<Rightarrow> bool" where
  "ack_identity_clash ack i s \<longleftrightarrow>
     ack_exchange_order_id ack \<noteq> []
     \<and> (case find_by_exchange_id s (ack_exchange_order_id ack) of
          None \<Rightarrow> False | Some k \<Rightarrow> od_logical_id (order_at s k) \<noteq> od_logical_id (order_at s i))"

definition learn_exchange_id :: "string \<Rightarrow> nat \<Rightarrow> OrderManager \<Rightarrow> OrderManager" where
  "learn_exchange_id x i s =
     (if x = [] then s
      else
        let s1 = put_order i ((order_at s i)\<lparr>od_exchange_order_id := x\<rparr>) s
        in case om_by_logical_id s1 (od_logical_id (order_at s1 i)) of
             None \<Rightarrow> s1
           | Some k \<Rightarrow> s1\<lparr>om_by_exchange_id := (om_by_exchange_id s1)(x \<mapsto> k)\<rparr>)"

definition apply_ack :: "nanos \<Rightarrow> OrderAckEvent \<Rightarrow> OrderManager \<Rightarrow> OrderManager" where
  "apply_ack now ack s =
     (case find_client s (ack_client_order_id ack) of
        None \<Rightarrow> count_metric OmQuarantinedEvents (count_metric OmOrphanOrders s)
      | Some i \<Rightarrow>
          (let o1 = order_at s i
           in if is_terminal (od_state o1) then count_metric OmDuplicateEvents s
              else if ack_seq ack \<noteq> 0 \<and> od_last_applied_sequence o1 \<noteq> 0
                      \<and> ack_seq ack < od_last_applied_sequence o1
                then count_metric OmOutOfOrderEvents s
              else if od_acknowledged_ns o1 \<noteq> 0 then count_metric OmDuplicateEvents s
              else if ack_identity_clash ack i s
                then record_reject OrIdentityCollision (count_metric OmQuarantinedEvents s)
              else
                let s1 = learn_exchange_id (ack_exchange_order_id ack) i s;
                    s2 = count_metric OmAcknowledgements
                           (put_order i ((order_at s1 i)\<lparr>od_pending_request := 0, od_pending_since_ns := 0,
                              od_acknowledged_ns := now, od_venue_ns := ack_transact_ns ack,
                              od_last_applied_sequence := ack_seq ack\<rparr>) s1);
                    target = from_venue_status (ack_status ack)
                in om_transition now i (if target = UnknownState then Working else target) OeAcknowledged
                     (detail_for o1) s2))"

definition apply_reject :: "adapter \<Rightarrow> nanos \<Rightarrow> OrderRejectEvent \<Rightarrow> OrderManager \<Rightarrow> OrderManager" where
  "apply_reject ex now rej s =
     (case find_client s (rej_client_order_id rej) of
        None \<Rightarrow> count_metric OmQuarantinedEvents s
      | Some i \<Rightarrow>
          (let o1 = order_at s i
           in if is_terminal (od_state o1) then count_metric OmDuplicateEvents s
              else
                let s1 = count_metric OmRejects
                           (put_order i (o1\<lparr>od_pending_request := 0, od_venue_ns := rej_transact_ns rej\<rparr>) s)
                in release_deferred ex now (od_logical_id o1)
                     (om_transition now i RejectedState OeRejected (detail_for o1) s1)))"

text \<open>The arithmetic of a fill: new cumulative quantity, new average price, new fees, or the reason to refuse.\<close>

definition fill_amounts :: "OrderRecord \<Rightarrow> FillEvent \<Rightarrow> OmsReject + qty \<times> px \<times> notional" where
  "fill_amounts o1 fill =
     (case checked_add (od_cumulative_quantity o1) (fill_quantity fill) of
        None \<Rightarrow> Inl OrArithmeticOverflow
      | Some new_cumulative \<Rightarrow>
          if new_cumulative > od_original_quantity o1 then Inl OrImpossibleFill
          else case (checked_notional_of (od_average_fill_price o1) (od_cumulative_quantity o1),
                     checked_notional_of (fill_price fill) (fill_quantity fill)) of
                 (Some previous_value, Some fill_value) \<Rightarrow>
                   (case checked_add previous_value fill_value of
                      None \<Rightarrow> Inl OrArithmeticOverflow
                    | Some total_value \<Rightarrow>
                        Inr (new_cumulative,
                             (if new_cumulative > 0 then wrap64 ((total_value * kScale) sdiv new_cumulative)
                              else od_average_fill_price o1),
                             (case checked_add (od_cumulative_fees o1) (fill_fee fill) of
                                None \<Rightarrow> od_cumulative_fees o1 | Some f \<Rightarrow> f)))
               | _ \<Rightarrow> Inl OrArithmeticOverflow)"

definition fill_detail :: "OrderRecord \<Rightarrow> FillEvent \<Rightarrow> OrderJournalRecord" where
  "fill_detail o1 fill = blank_record\<lparr>jr_logical_id := od_logical_id o1, jr_trade_id := fill_trade_id fill,
     jr_price := fill_price fill, jr_quantity := fill_quantity fill,
     jr_cumulative_quantity := od_cumulative_quantity o1\<rparr>"

definition apply_fill :: "adapter \<Rightarrow> nanos \<Rightarrow> FillEvent \<Rightarrow> OrderManager \<Rightarrow> OrderManager" where
  "apply_fill ex now fill s =
     (case find_client s (fill_client_order_id fill) of
        None \<Rightarrow> count_metric OmQuarantinedEvents (count_metric OmOrphanOrders s)
      | Some i \<Rightarrow>
          (let o1 = order_at s i
           in if is_terminal (od_state o1)
                then record_reject OrTerminalOrder (count_metric OmQuarantinedEvents (count_metric OmDuplicateEvents s))
              else if \<not> fill_quantity fill > 0 \<or> \<not> fill_price fill > 0
                then record_reject OrImpossibleFill (count_metric OmQuarantinedEvents s)
              else
                let (seen, new) = seen_trade_ids_insert (od_seen_trades o1) (fill_trade_id fill)
                in if \<not> new then count_metric OmDuplicateEvents (count_metric OmDuplicateFills s)
                   else
                     let s1 = put_order i (o1\<lparr>od_seen_trades := seen\<rparr>) s
                     in case fill_amounts o1 fill of
                          Inl r \<Rightarrow> record_reject r (count_metric OmQuarantinedEvents s1)
                        | Inr (cumulative, average, fees) \<Rightarrow>
                            (let o2 = o1\<lparr>od_seen_trades := seen, od_cumulative_quantity := cumulative,
                                        od_average_fill_price := average, od_cumulative_fees := fees,
                                        od_venue_ns := fill_transact_ns fill,
                                        od_last_applied_sequence := fill_seq fill\<rparr>;
                                 s2 = put_order i o2 s
                             in if remaining o2 = 0
                                then release_deferred ex now (od_logical_id o1)
                                       (om_transition now i Filled OeFilled (fill_detail o2 fill)
                                          (count_metric OmFills s2))
                                else om_transition now i PartiallyFilled OePartiallyFilled (fill_detail o2 fill)
                                       (count_metric OmPartialFills s2))))"

definition resting_state :: "OrderRecord \<Rightarrow> OrderState" where
  "resting_state o1 = (if od_cumulative_quantity o1 > 0 then PartiallyFilled else Working)"

definition apply_cancel :: "adapter \<Rightarrow> nanos \<Rightarrow> OrderCancelEvent \<Rightarrow> OrderManager \<Rightarrow> OrderManager" where
  "apply_cancel ex now cxl s =
     (case or_else (find_client s (cxl_client_order_id cxl))
             (if cxl_exchange_order_id cxl \<noteq> [] then find_by_exchange_id s (cxl_exchange_order_id cxl) else None) of
        None \<Rightarrow> count_metric OmQuarantinedEvents s
      | Some i \<Rightarrow>
          (let o1 = order_at s i
           in if is_terminal (od_state o1) then count_metric OmDuplicateEvents s
              else
                let o2 = o1\<lparr>od_venue_ns := cxl_transact_ns cxl, od_pending_request := 0\<rparr>;
                    detail = detail_for o1
                in case cxl_cancel_status cxl of
                     CsAccepted \<Rightarrow> release_deferred ex now (od_logical_id o1)
                       (om_transition now i Cancelled OeCancelAcknowledged detail (put_order i o2 s))
                   | CsRejected \<Rightarrow> om_transition now i (resting_state o2) OeCancelRejected detail (put_order i o2 s)
                   | CsTooLate \<Rightarrow> release_deferred ex now (od_logical_id o1)
                       (om_transition now i Filled OeFilled detail
                          (put_order i (o2\<lparr>od_cumulative_quantity := od_original_quantity o2\<rparr>) s))
                   | CsOrderNotFound \<Rightarrow> om_transition now i UnknownState OeOutcomeUnknown detail (put_order i o2 s)
                   | CsUnknown \<Rightarrow> om_transition now i UnknownState OeOutcomeUnknown detail (put_order i o2 s)))"

text \<open>
  An accepted replace: the pending identity and parameters become live. \<open>it\<close> is the index entry of the order, looked
  up before the changes.
\<close>

definition adopt_client_id :: "nat option \<Rightarrow> nat \<Rightarrow> OrderManager \<Rightarrow> OrderManager" where
  "adopt_client_id it i s =
     (let o1 = order_at s i
      in case it of
           None \<Rightarrow> s
         | Some k \<Rightarrow>
             (if od_pending_client_order_id o1 = [] then s
              else put_order i (o1\<lparr>od_client_order_id := od_pending_client_order_id o1\<rparr>)
                     (s\<lparr>om_by_client_id := ((om_by_client_id s)(od_client_order_id o1 := None))
                          (od_pending_client_order_id o1 \<mapsto> k)\<rparr>)))"

definition adopt_exchange_id :: "string \<Rightarrow> nat option \<Rightarrow> nat \<Rightarrow> OrderManager \<Rightarrow> OrderManager" where
  "adopt_exchange_id x it i s =
     (let o1 = order_at s i
      in case it of
           None \<Rightarrow> s
         | Some k \<Rightarrow>
             (if x = [] then s
              else put_order i (o1\<lparr>od_exchange_order_id := x\<rparr>)
                     (s\<lparr>om_by_exchange_id := ((om_by_exchange_id s)(od_exchange_order_id o1 := None))(x \<mapsto> k)\<rparr>)))"

definition adopt_replace :: "string \<Rightarrow> nat \<Rightarrow> OrderManager \<Rightarrow> OrderManager" where
  "adopt_replace x i s =
     (let it = om_by_logical_id s (od_logical_id (order_at s i));
          s1 = adopt_client_id it i s;
          s2 = put_order i ((order_at s1 i)\<lparr>od_price := od_pending_price (order_at s1 i),
                 od_original_quantity := od_pending_quantity (order_at s1 i)\<rparr>) s1;
          s3 = adopt_exchange_id x it i s2
      in put_order i ((order_at s3 i)\<lparr>od_pending_client_order_id := [], od_pending_request := 0\<rparr>) s3)"

definition apply_replace :: "nanos \<Rightarrow> OrderReplaceEvent \<Rightarrow> OrderManager \<Rightarrow> OrderManager" where
  "apply_replace now rpl s =
     (case find_client s (rpl_original_client_order_id rpl) of
        None \<Rightarrow> count_metric OmQuarantinedEvents s
      | Some i \<Rightarrow>
          (let o1 = order_at s i
           in if is_terminal (od_state o1) then count_metric OmDuplicateEvents s
              else
                let s0 = put_order i (o1\<lparr>od_venue_ns := rpl_transact_ns rpl\<rparr>) s;
                    detail = detail_for o1
                in if rpl_accepted rpl
                   then
                     let s1 = adopt_replace (rpl_new_exchange_order_id rpl) i s0
                     in om_transition now i (resting_state (order_at s1 i)) OeReplaceAcknowledged detail s1
                   else
                     let o2 = o1\<lparr>od_venue_ns := rpl_transact_ns rpl, od_pending_request := 0,
                                 od_pending_client_order_id := []\<rparr>
                     in if ee_outcome (rpl_error rpl) = OutUnknown
                        then om_transition now i UnknownState OeOutcomeUnknown detail (put_order i o2 s)
                        else om_transition now i (resting_state o2) OeReplaceRejected detail (put_order i o2 s)))"

definition apply_failure :: "adapter \<Rightarrow> nanos \<Rightarrow> RequestFailureEvent \<Rightarrow> OrderManager \<Rightarrow> OrderManager" where
  "apply_failure ex now f s =
     (case find_client s (rf_client_order_id f) of
        None \<Rightarrow> count_metric OmQuarantinedEvents s
      | Some i \<Rightarrow>
          (let o1 = order_at s i
           in if is_terminal (od_state o1) then count_metric OmDuplicateEvents s
              else
                let s1 = put_order i (o1\<lparr>od_pending_request := 0\<rparr>) s; detail = detail_for o1
                in if ee_outcome (rf_error f) = OutNotSent
                   then release_deferred ex now (od_logical_id o1)
                          (om_transition now i RejectedState OeRejected detail s1)
                   else om_transition now i UnknownState OeOutcomeUnknown detail s1))"

definition apply_event :: "adapter \<Rightarrow> nanos \<Rightarrow> ExecutionEvent \<Rightarrow> OrderManager \<Rightarrow> OrderManager" where
  "apply_event ex now event s =
     (if is_err (validate_execution_event event) then count_metric OmQuarantinedEvents s
      else case event of
             EvOrderAck e \<Rightarrow> apply_ack now e s
           | EvOrderReject e \<Rightarrow> apply_reject ex now e s
           | EvFill e \<Rightarrow> apply_fill ex now e s
           | EvOrderCancel e \<Rightarrow> apply_cancel ex now e s
           | EvOrderReplace e \<Rightarrow> apply_replace now e s
           | EvRequestFailure e \<Rightarrow> apply_failure ex now e s
           | _ \<Rightarrow> s)"

text \<open>The drain loop, with the number of rounds as fuel and the number of applied events; \<open>now\<close> gives the clock
  reading of each round.\<close>

fun drain :: "adapter \<Rightarrow> nat \<Rightarrow> (nat \<Rightarrow> nanos) \<Rightarrow> OrderManager \<Rightarrow> OrderManager \<times> nat" where
  "drain ex 0 now s = (s, 0)"
| "drain ex (Suc rounds) now s =
     (case try_pop (om_queue s) of
        (q, None) \<Rightarrow> (s\<lparr>om_queue := q\<rparr>, 0)
      | (q, Some event) \<Rightarrow>
          (let (s1, n) = drain ex rounds (now \<circ> Suc) (apply_event ex (now 0) event (s\<lparr>om_queue := q\<rparr>))
           in (s1, Suc n)))"

definition process_events :: "adapter \<Rightarrow> (nat \<Rightarrow> nanos) \<Rightarrow> OrderManager \<Rightarrow> OrderManager \<times> nat" where
  "process_events ex now s = drain ex (Suc (size_approx (om_queue s))) now s"

section \<open>Timer\<close>

definition request_limit :: "OmsConfig \<Rightarrow> OrderState \<Rightarrow> nanos" where
  "request_limit c st =
     (if st = PendingCancel then oc_cancel_request_timeout_ns c
      else if st = PendingReplace then oc_replace_request_timeout_ns c
      else oc_new_request_timeout_ns c)"

definition request_expired :: "OmsConfig \<Rightarrow> nanos \<Rightarrow> OrderRecord \<Rightarrow> bool" where
  "request_expired c now o1 \<longleftrightarrow> has_pending_request o1 \<and> od_pending_since_ns o1 \<noteq> 0
     \<and> \<not> wrap64 (now - od_pending_since_ns o1) < request_limit c (od_state o1)"

definition time_out :: "nanos \<Rightarrow> OrderManager \<Rightarrow> nat \<Rightarrow> OrderManager" where
  "time_out now s i =
     (let o1 = order_at s i
      in if \<not> request_expired (om_config s) now o1 then s
         else om_transition now i UnknownState OeRequestTimedOut (detail_for o1)
                (put_order i (o1\<lparr>od_pending_request := 0\<rparr>) (count_metric OmTimeouts s)))"

definition on_timer :: "nanos \<Rightarrow> OrderManager \<Rightarrow> OrderManager" where
  "on_timer now s = foldl (time_out now) s [0..<length (om_orders s)]"

section \<open>Views\<close>

definition slot_status :: "OrderRecord \<Rightarrow> OrderStatus" where
  "slot_status o1 =
     (case od_state o1 of
        PendingNew \<Rightarrow> StNew
      | PendingCancel \<Rightarrow> (if od_cumulative_quantity o1 > 0 then StPartiallyFilled else StNew)
      | PendingReplace \<Rightarrow> (if od_cumulative_quantity o1 > 0 then StPartiallyFilled else StNew)
      | PartiallyFilled \<Rightarrow> StPartiallyFilled
      | Working \<Rightarrow> StNew
      | _ \<Rightarrow> StUnknown)"

definition slot_pending :: "OrderRecord \<Rightarrow> PendingOperation \<Rightarrow> PendingOperation" where
  "slot_pending o1 before =
     (case od_state o1 of
        PendingNew \<Rightarrow> PoNew | PendingCancel \<Rightarrow> PoCancel | PendingReplace \<Rightarrow> PoReplace | _ \<Rightarrow> before)"

definition show_order :: "OrderRecord \<Rightarrow> WorkingOrder \<Rightarrow> WorkingOrder" where
  "show_order o1 w = w\<lparr>wo_present := True,
     wo_owner := \<lparr>qo_strategy = oo_strategy (od_ownership o1), qo_slot = oo_slot (od_ownership o1)\<rparr>,
     wo_side := od_side o1, wo_price := od_price o1, wo_original_quantity := od_original_quantity o1,
     wo_cumulative_quantity := od_cumulative_quantity o1, wo_client_order_id := od_client_order_id o1,
     wo_exchange_order_id := od_exchange_order_id o1, wo_generation := oo_generation (od_ownership o1),
     wo_last_action_ns := od_sent_ns o1, wo_status := slot_status o1, wo_pending := slot_pending o1 (wo_pending w)\<rparr>"

definition view_order :: "string \<Rightarrow> string \<Rightarrow> WorkingQuoteState \<Rightarrow> OrderRecord \<Rightarrow> WorkingQuoteState" where
  "view_order symbol owner st o1 =
     (if od_symbol o1 \<noteq> symbol \<or> \<not> consumes_exposure (od_state o1) then st
      else if \<not> ownership_matches (od_ownership o1) owner (oo_slot (od_ownership o1))
        then st\<lparr>wq_foreign_order_count := inc32 (wq_foreign_order_count st)\<rparr>
      else set_wq_slot st (oo_slot (od_ownership o1)) (show_order o1 (wq_slot st (oo_slot (od_ownership o1)))))"

definition working_state :: "string \<Rightarrow> string \<Rightarrow> OrderManager \<Rightarrow> WorkingQuoteState" where
  "working_state symbol owner s = foldl (view_order symbol owner) empty_quotes (om_orders s)"

definition contribution :: "OrderRecord \<Rightarrow> qty" where
  "contribution o1 = (if od_state o1 = PendingNew then od_original_quantity o1 else remaining o1)"

definition add_exposure :: "OrderRecord \<Rightarrow> ExposureSnapshot \<Rightarrow> ExposureSnapshot" where
  "add_exposure o1 e =
     (case checked_add (if od_side o1 = Buy then es_working_buy e else es_working_sell e) (contribution o1) of
        None \<Rightarrow> e\<lparr>es_determinate := False\<rparr>
      | Some side \<Rightarrow>
          (let e1 = (if od_side o1 = Buy then e\<lparr>es_working_buy := side\<rparr> else e\<lparr>es_working_sell := side\<rparr>);
               e2 = (case checked_notional_of (od_price o1) (contribution o1) of
                       None \<Rightarrow> e1
                     | Some value \<Rightarrow>
                         (case checked_add (if od_side o1 = Buy then es_working_buy_notional e1
                                            else es_working_sell_notional e1) value of
                            None \<Rightarrow> e1
                          | Some v \<Rightarrow> if od_side o1 = Buy then e1\<lparr>es_working_buy_notional := v\<rparr>
                                      else e1\<lparr>es_working_sell_notional := v\<rparr>))
           in e2\<lparr>es_open_order_count := inc32 (es_open_order_count e2)\<rparr>))"

definition expose_order :: "string \<Rightarrow> ExposureSnapshot \<Rightarrow> OrderRecord \<Rightarrow> ExposureSnapshot" where
  "expose_order symbol e o1 =
     (if od_symbol o1 \<noteq> symbol \<or> \<not> consumes_exposure (od_state o1) then e
      else if od_state o1 = UnknownState
        then e\<lparr>es_determinate := False, es_indeterminate_order_count := inc32 (es_indeterminate_order_count e)\<rparr>
      else if \<not> contribution o1 > 0 then e
      else add_exposure o1 e)"

definition exposure :: "string \<Rightarrow> OrderManager \<Rightarrow> ExposureSnapshot" where
  "exposure symbol s = foldl (expose_order symbol) empty_exposure (om_orders s)"

section \<open>Reconciliation\<close>

definition no_discrepancy :: Discrepancy where
  "no_discrepancy = \<lparr>dc_kind = DkNone, dc_logical_id = 0, dc_client_order_id = [], dc_exchange_order_id = [],
     dc_symbol = [], dc_local_state = UnknownState, dc_venue_status = StUnknown, dc_local_cumulative = 0,
     dc_venue_cumulative = 0, dc_local_price = 0, dc_venue_price = 0, dc_identity_is_ours = False\<rparr>"

definition orphan_discrepancy :: "OmsConfig \<Rightarrow> OrderStatusReport \<Rightarrow> Discrepancy" where
  "orphan_discrepancy c v = no_discrepancy\<lparr>dc_kind := DkOrphanAtVenue,
     dc_client_order_id := osr_client_order_id v, dc_exchange_order_id := osr_exchange_order_id v,
     dc_symbol := osr_symbol v, dc_venue_status := osr_status v, dc_venue_cumulative := osr_cumulative_qty v,
     dc_venue_price := osr_price v,
     dc_identity_is_ours := parse_id (osr_client_order_id v) (oc_client_id_prefix c) \<noteq> None\<rparr>"

definition mismatch_kind :: "OrderRecord \<Rightarrow> OrderStatusReport \<Rightarrow> DiscrepancyKind" where
  "mismatch_kind o1 v =
     (if od_cumulative_quantity o1 \<noteq> osr_cumulative_qty v then DkQuantityMismatch
      else if od_price o1 \<noteq> osr_price v then DkPriceMismatch
      else if from_venue_status (osr_status v) \<noteq> od_state o1 \<and> od_state o1 \<noteq> PendingCancel
              \<and> od_state o1 \<noteq> PendingReplace then DkStatusMismatch
      else DkNone)"

definition order_discrepancy :: "DiscrepancyKind \<Rightarrow> OrderRecord \<Rightarrow> Discrepancy" where
  "order_discrepancy kind o1 = no_discrepancy\<lparr>dc_kind := kind, dc_logical_id := od_logical_id o1,
     dc_client_order_id := od_client_order_id o1, dc_exchange_order_id := od_exchange_order_id o1,
     dc_symbol := od_symbol o1, dc_local_state := od_state o1, dc_local_cumulative := od_cumulative_quantity o1,
     dc_local_price := od_price o1, dc_identity_is_ours := True\<rparr>"

record ReconcileRun =
  rc_oms :: OrderManager
  rc_report :: ReconciliationReport
  rc_matched :: "bool list"

definition report_discrepancy :: "Discrepancy \<Rightarrow> ReconciliationReport \<Rightarrow> ReconciliationReport" where
  "report_discrepancy d r = r\<lparr>rp_discrepancies := rp_discrepancies r @ [d]\<rparr>"

definition compare_order :: "ReconcileRun \<Rightarrow> OrderStatusReport \<Rightarrow> ReconcileRun" where
  "compare_order run v =
     (let s = rc_oms run;
          rep = (rc_report run)\<lparr>rp_orders_compared := inc32 (rp_orders_compared (rc_report run))\<rparr>
      in case or_else (find_client s (osr_client_order_id v))
                (if osr_exchange_order_id v \<noteq> [] then find_by_exchange_id s (osr_exchange_order_id v) else None) of
           None \<Rightarrow> run\<lparr>rc_oms := count_metric OmOrphanOrders s,
                       rc_report := report_discrepancy (orphan_discrepancy (om_config s) v) rep\<rparr>
         | Some i \<Rightarrow>
             (let o1 = order_at s i;
                  matched = (case om_by_logical_id s (od_logical_id o1) of
                               None \<Rightarrow> rc_matched run | Some k \<Rightarrow> (rc_matched run)[k := True]);
                  kind = mismatch_kind o1 v
              in if kind = DkNone
                 then run\<lparr>rc_report := rep\<lparr>rp_orders_agreed := inc32 (rp_orders_agreed rep)\<rparr>, rc_matched := matched\<rparr>
                 else run\<lparr>rc_report := report_discrepancy ((order_discrepancy kind o1)\<lparr>
                            dc_venue_status := osr_status v, dc_venue_cumulative := osr_cumulative_qty v,
                            dc_venue_price := osr_price v\<rparr>) rep, rc_matched := matched\<rparr>))"

definition is_missing :: "VenueSnapshot \<Rightarrow> bool list \<Rightarrow> OrderManager \<Rightarrow> nat \<Rightarrow> bool" where
  "is_missing snap matched s i \<longleftrightarrow>
     \<not> matched ! i \<and> is_live (od_state (order_at s i))
     \<and> (vs_symbol_filter snap = [] \<or> od_symbol (order_at s i) = vs_symbol_filter snap)"

definition doubt_missing :: "nanos \<Rightarrow> nanos \<Rightarrow> OrderManager \<Rightarrow> logical_order_id \<Rightarrow> OrderManager" where
  "doubt_missing now snapshot_ns s l =
     (case find_logical s l of
        None \<Rightarrow> s
      | Some i \<Rightarrow>
          if od_acknowledged_ns (order_at s i) > snapshot_ns then s
          else om_transition now i UnknownState OeReconciliationDetected (detail_for (order_at s i))
                 (count_metric OmUnknownStates s))"

definition journal_discrepancy :: "nanos \<Rightarrow> OrderManager \<Rightarrow> Discrepancy \<Rightarrow> OrderManager" where
  "journal_discrepancy now s d =
     (if dc_logical_id d = 0 then s
      else case find_logical s (dc_logical_id d) of
             None \<Rightarrow> s
           | Some i \<Rightarrow>
               let o1 = order_at s i
               in if is_terminal (od_state o1) then s
                  else journal_event now OeReconciliationDetected o1 (od_state o1) (od_state o1) s)"

definition reconcile :: "nanos \<Rightarrow> VenueSnapshot \<Rightarrow> OrderManager \<Rightarrow> OrderManager \<times> ReconciliationReport" where
  "reconcile now snap s =
     (let report = \<lparr>rp_discrepancies = [], rp_orders_compared = 0, rp_orders_agreed = 0, rp_performed_ns = now\<rparr>
      in if \<not> vs_is_complete snap then (count_metric OmReconciliationsRefused s, report)
         else
           let snapshot_ns = (if vs_received_ns snap \<noteq> 0 then vs_received_ns snap else now);
               run = foldl compare_order
                       \<lparr>rc_oms = count_metric OmReconciliations s, rc_report = report,
                        rc_matched = replicate (length (om_orders s)) False\<rparr> (vs_orders snap);
               missing = filter (is_missing snap (rc_matched run) (rc_oms run)) [0..<length (om_orders (rc_oms run))];
               s1 = foldl (\<lambda>t _. count_metric OmMissingOrders t) (rc_oms run) missing;
               report1 = foldl (\<lambda>r i. report_discrepancy (order_discrepancy DkMissingAtVenue (order_at s1 i)) r)
                           (rc_report run) missing;
               s2 = foldl (doubt_missing now snapshot_ns) s1 (map (\<lambda>i. od_logical_id (order_at s1 i)) missing)
           in (foldl (journal_discrepancy now) s2 (rp_discrepancies report1), report1))"

definition resolve ::
  "adapter \<Rightarrow> nanos \<Rightarrow> logical_order_id \<Rightarrow> OrderState \<Rightarrow> OrderManager \<Rightarrow> OrderManager \<times> ErrorCode" where
  "resolve ex now l resolved_state s =
     (case find_logical s l of
        None \<Rightarrow> (s, NotFound)
      | Some i \<Rightarrow>
          (let o1 = order_at s i; from_st = od_state o1
           in if \<not> order_legal_transition from_st resolved_state then (s, FailedPrecondition)
              else
                let o2 = (if is_terminal resolved_state
                          then o1\<lparr>od_state := resolved_state, od_terminal_ns := now, od_pending_request := 0\<rparr>
                          else o1\<lparr>od_state := resolved_state\<rparr>)
                in (release_deferred ex now (od_logical_id o1)
                      (journal_event now OeReconciliationResolved o2 from_st resolved_state (put_order i o2 s)), Ok)))"

section \<open>Recovery\<close>

definition snapshot_for_recovery :: "OrderManager \<Rightarrow> RecoveryState" where
  "snapshot_for_recovery s = \<lparr>rs_session_id = oc_session_id (om_config s),
     rs_next_client_id_sequence = ig_sequence (om_id_generator s), rs_next_logical_id = om_next_logical_id s,
     rs_next_request_id = om_next_request_id s, rs_journal_sequence = om_journal_sequence s,
     rs_orders = om_orders s\<rparr>"

definition restore_order :: "nanos \<Rightarrow> OrderManager \<Rightarrow> nat \<Rightarrow> OrderManager" where
  "restore_order now s i =
     (let o1 = order_at s i;
          s1 = s\<lparr>om_by_logical_id := (om_by_logical_id s)(od_logical_id o1 \<mapsto> i),
                 om_by_client_id := (if od_client_order_id o1 = [] then om_by_client_id s
                                     else (om_by_client_id s)(od_client_order_id o1 \<mapsto> i)),
                 om_by_exchange_id := (if od_exchange_order_id o1 = [] then om_by_exchange_id s
                                       else (om_by_exchange_id s)(od_exchange_order_id o1 \<mapsto> i))\<rparr>
      in if state_has_pending_request (od_state o1)
         then
           let o2 = o1\<lparr>od_state := UnknownState, od_pending_request := 0, od_pending_since_ns := 0\<rparr>
           in journal_event now OeOutcomeUnknown o2 (od_state o1) UnknownState
                (count_metric OmUnknownStates (put_order i o2 s1))
         else s1)"

definition restore :: "nanos \<Rightarrow> RecoveryState \<Rightarrow> OrderManager \<Rightarrow> OrderManager \<times> ErrorCode" where
  "restore now st s =
     (if om_orders s \<noteq> [] then (s, FailedPrecondition)
      else if length (rs_orders st) > oc_max_orders (om_config s) then (s, OutOfRange)
      else
        let s1 = s\<lparr>om_orders := rs_orders st, om_next_logical_id := rs_next_logical_id st,
                   om_next_request_id := rs_next_request_id st, om_journal_sequence := rs_journal_sequence st,
                   om_id_generator := generator_restore (om_id_generator s) (rs_next_client_id_sequence st),
                   om_by_client_id := Map.empty, om_by_exchange_id := Map.empty, om_by_logical_id := Map.empty\<rparr>
        in (foldl (restore_order now) s1 [0..<length (rs_orders st)], Ok))"

end
