(* ===== verification/OrderLifecycle.thy ===== *)
theory OrderLifecycle
  imports OrderManager
begin

text \<open>
  What every operation of the order manager does to the order records: the frame lemmas of the primitives, the
  relation \<open>evolves\<close> between the tables before and after, and the life cycle property.
\<close>

section \<open>Frame lemmas\<close>

text \<open>Counters and journal entries touch nothing else.\<close>

lemma count_metric_frame [simp]:
  "om_orders (count_metric c s) = om_orders s" "om_sent (count_metric c s) = om_sent s"
  "om_deferred (count_metric c s) = om_deferred s" "om_deferred_count (count_metric c s) = om_deferred_count s"
  "om_by_client_id (count_metric c s) = om_by_client_id s" "om_by_exchange_id (count_metric c s) = om_by_exchange_id s"
  "om_by_logical_id (count_metric c s) = om_by_logical_id s" "om_config (count_metric c s) = om_config s"
  "om_id_generator (count_metric c s) = om_id_generator s" "om_attached (count_metric c s) = om_attached s"
  "om_queue (count_metric c s) = om_queue s" "om_next_logical_id (count_metric c s) = om_next_logical_id s"
  "om_next_request_id (count_metric c s) = om_next_request_id s" "om_journal (count_metric c s) = om_journal s"
  by (simp_all add: count_metric_def)

lemma record_reject_frame [simp]:
  "om_orders (record_reject r s) = om_orders s" "om_sent (record_reject r s) = om_sent s"
  "om_deferred (record_reject r s) = om_deferred s" "om_deferred_count (record_reject r s) = om_deferred_count s"
  "om_by_client_id (record_reject r s) = om_by_client_id s" "om_by_exchange_id (record_reject r s) = om_by_exchange_id s"
  "om_by_logical_id (record_reject r s) = om_by_logical_id s" "om_config (record_reject r s) = om_config s"
  "om_id_generator (record_reject r s) = om_id_generator s" "om_attached (record_reject r s) = om_attached s"
  "om_queue (record_reject r s) = om_queue s" "om_next_logical_id (record_reject r s) = om_next_logical_id s"
  "om_next_request_id (record_reject r s) = om_next_request_id s" "om_journal (record_reject r s) = om_journal s"
  by (simp_all add: record_reject_def)

lemma append_record_frame [simp]:
  "om_orders (append_record r s) = om_orders s" "om_sent (append_record r s) = om_sent s"
  "om_deferred (append_record r s) = om_deferred s" "om_deferred_count (append_record r s) = om_deferred_count s"
  "om_by_client_id (append_record r s) = om_by_client_id s" "om_by_exchange_id (append_record r s) = om_by_exchange_id s"
  "om_by_logical_id (append_record r s) = om_by_logical_id s" "om_config (append_record r s) = om_config s"
  "om_id_generator (append_record r s) = om_id_generator s" "om_attached (append_record r s) = om_attached s"
  "om_queue (append_record r s) = om_queue s" "om_next_logical_id (append_record r s) = om_next_logical_id s"
  "om_next_request_id (append_record r s) = om_next_request_id s"
  by (simp_all add: append_record_def Let_def)

lemma put_order_frame [simp]:
  "length (om_orders (put_order i o1 s)) = length (om_orders s)" "om_sent (put_order i o1 s) = om_sent s"
  "om_deferred (put_order i o1 s) = om_deferred s" "om_deferred_count (put_order i o1 s) = om_deferred_count s"
  "om_by_client_id (put_order i o1 s) = om_by_client_id s" "om_by_exchange_id (put_order i o1 s) = om_by_exchange_id s"
  "om_by_logical_id (put_order i o1 s) = om_by_logical_id s" "om_config (put_order i o1 s) = om_config s"
  "om_id_generator (put_order i o1 s) = om_id_generator s" "om_attached (put_order i o1 s) = om_attached s"
  "om_queue (put_order i o1 s) = om_queue s" "om_next_logical_id (put_order i o1 s) = om_next_logical_id s"
  "om_next_request_id (put_order i o1 s) = om_next_request_id s"
  by (simp_all add: put_order_def)

lemma order_at_put [simp]:
  "order_at (put_order i o1 s) j = (if j = i \<and> i < length (om_orders s) then o1 else order_at s j)"
  by (cases "i < length (om_orders s)"; cases "j = i") (simp_all add: order_at_def put_order_def list_update_beyond)

text \<open>\<open>order_at\<close> of a state with the same table.\<close>

lemma order_at_cong: "om_orders s = om_orders t \<Longrightarrow> order_at s i = order_at t i"
  by (simp add: order_at_def)

lemma order_at_frame [simp]:
  "order_at (count_metric c s) i = order_at s i" "order_at (record_reject r s) i = order_at s i"
  "order_at (append_record j s) i = order_at s i"
  by (simp_all add: order_at_def)

lemma journal_event_frame [simp]:
  "om_orders (journal_event n e x a b s) = om_orders s" "om_sent (journal_event n e x a b s) = om_sent s"
  "om_deferred (journal_event n e x a b s) = om_deferred s"
  "om_deferred_count (journal_event n e x a b s) = om_deferred_count s"
  "om_by_client_id (journal_event n e x a b s) = om_by_client_id s"
  "om_by_exchange_id (journal_event n e x a b s) = om_by_exchange_id s"
  "om_by_logical_id (journal_event n e x a b s) = om_by_logical_id s"
  "om_config (journal_event n e x a b s) = om_config s"
  "om_id_generator (journal_event n e x a b s) = om_id_generator s"
  "om_attached (journal_event n e x a b s) = om_attached s" "om_queue (journal_event n e x a b s) = om_queue s"
  "om_next_logical_id (journal_event n e x a b s) = om_next_logical_id s"
  "om_next_request_id (journal_event n e x a b s) = om_next_request_id s"
  "order_at (journal_event n e x a b s) i = order_at s i"
  by (simp_all add: journal_event_def)

lemma transition_frame [simp]:
  "om_sent (om_transition n i t e d s) = om_sent s" "om_deferred (om_transition n i t e d s) = om_deferred s"
  "om_deferred_count (om_transition n i t e d s) = om_deferred_count s"
  "om_by_client_id (om_transition n i t e d s) = om_by_client_id s"
  "om_by_exchange_id (om_transition n i t e d s) = om_by_exchange_id s"
  "om_by_logical_id (om_transition n i t e d s) = om_by_logical_id s"
  "om_config (om_transition n i t e d s) = om_config s"
  "om_id_generator (om_transition n i t e d s) = om_id_generator s"
  "om_attached (om_transition n i t e d s) = om_attached s" "om_queue (om_transition n i t e d s) = om_queue s"
  "om_next_logical_id (om_transition n i t e d s) = om_next_logical_id s"
  "om_next_request_id (om_transition n i t e d s) = om_next_request_id s"
  "length (om_orders (om_transition n i t e d s)) = length (om_orders s)"
  by (simp_all add: om_transition_def Let_def)

lemma order_at_transition:
  "order_at (om_transition n i t e d s) j =
     (if j = i \<and> i < length (om_orders s) \<and> order_legal_transition (od_state (order_at s i)) t
      then enter_state n t (order_at s i) else order_at s j)"
  by (simp add: om_transition_def Let_def)

section \<open>How a record evolves\<close>

text \<open>What a terminal record keeps: all but the time it ended and the request it no longer waits for.\<close>

definition settled :: "OrderRecord \<Rightarrow> OrderRecord" where
  "settled o1 = o1\<lparr>od_terminal_ns := 0, od_pending_request := 0, od_pending_since_ns := 0\<rparr>"

definition same_order :: "OrderRecord \<Rightarrow> OrderRecord \<Rightarrow> bool" where
  "same_order o1 o2 \<longleftrightarrow>
     od_logical_id o2 = od_logical_id o1 \<and> od_symbol o2 = od_symbol o1 \<and> od_symbol_id o2 = od_symbol_id o1
     \<and> od_side o2 = od_side o1 \<and> od_type o2 = od_type o1 \<and> od_tif o2 = od_tif o1
     \<and> oo_strategy (od_ownership o2) = oo_strategy (od_ownership o1)
     \<and> oo_slot (od_ownership o2) = oo_slot (od_ownership o1)
     \<and> oo_creation_sequence (od_ownership o2) = oo_creation_sequence (od_ownership o1)
     \<and> od_created_ns o2 = od_created_ns o1 \<and> od_trace o2 = od_trace o1"

definition od_evolves :: "OrderRecord \<Rightarrow> OrderRecord \<Rightarrow> bool" where
  "od_evolves o1 o2 \<longleftrightarrow> same_order o1 o2
     \<and> order_legal_transition\<^sup>*\<^sup>* (od_state o1) (od_state o2)
     \<and> (is_terminal (od_state o1) \<longrightarrow> settled o2 = settled o1)"

lemma legal_chain_terminal:
  assumes "order_legal_transition\<^sup>*\<^sup>* a b" "is_terminal a"
  shows "b = a"
  using assms(1) by (induction rule: rtranclp_induct) (use assms(2) terminal_absorbing in auto)

lemma od_evolves_refl [simp]: "od_evolves o1 o1"
  by (simp add: od_evolves_def same_order_def)

lemma od_evolves_trans: "od_evolves a b \<Longrightarrow> od_evolves b c \<Longrightarrow> od_evolves a c"
  using legal_chain_terminal [of "od_state a" "od_state b"]
  by (auto simp: od_evolves_def same_order_def)

lemma od_evolves_same_state:
  "same_order o1 o2 \<Longrightarrow> od_state o2 = od_state o1 \<Longrightarrow> \<not> is_terminal (od_state o1) \<Longrightarrow> od_evolves o1 o2"
  by (simp add: od_evolves_def)

lemma od_evolves_enter:
  "order_legal_transition (od_state o1) t \<Longrightarrow> od_evolves o1 (enter_state n t o1)"
  using terminal_absorbing [of "od_state o1" t]
  by (auto simp: od_evolves_def same_order_def enter_state_def settled_def)

section \<open>How the table evolves\<close>

definition evolves :: "OrderManager \<Rightarrow> OrderManager \<Rightarrow> bool" where
  "evolves s t \<longleftrightarrow> length (om_orders s) \<le> length (om_orders t)
     \<and> (\<forall>i<length (om_orders s). od_evolves (order_at s i) (order_at t i))"

named_theorems evolves_intros \<open>steps that extend an evolution\<close>

lemma evolves_refl [simp, evolves_intros]: "evolves s s"
  by (simp add: evolves_def)

lemma evolves_trans [trans]: "evolves s t \<Longrightarrow> evolves t u \<Longrightarrow> evolves s u"
  by (meson evolves_def od_evolves_trans order_less_le_trans le_trans)

lemma evolves_same_table: "om_orders t = om_orders u \<Longrightarrow> evolves s t = evolves s u"
  by (simp add: evolves_def order_at_def)

lemma evolves_frame [simp]:
  "evolves s (count_metric c t) = evolves s t" "evolves s (record_reject r t) = evolves s t"
  "evolves s (append_record j t) = evolves s t" "evolves s (journal_event n e x a b t) = evolves s t"
  "evolves s (journal_rejection n e y r t) = evolves s t"
  "evolves s (t\<lparr>om_id_generator := g\<rparr>) = evolves s t" "evolves s (t\<lparr>om_queue := q\<rparr>) = evolves s t"
  "evolves s (t\<lparr>om_sent := l\<rparr>) = evolves s t" "evolves s (t\<lparr>om_next_request_id := k\<rparr>) = evolves s t"
  "evolves s (t\<lparr>om_by_exchange_id := m\<rparr>) = evolves s t" "evolves s (t\<lparr>om_by_client_id := m\<rparr>) = evolves s t"
  "evolves s (t\<lparr>om_deferred := ds, om_deferred_count := k\<rparr>) = evolves s t"
  "evolves s (t\<lparr>om_dropped_events := k\<rparr>) = evolves s t"
  by (rule evolves_same_table; simp add: journal_rejection_def)+

lemma evolves_put [evolves_intros]:
  "evolves s t \<Longrightarrow> od_evolves (order_at t i) o1 \<Longrightarrow> evolves s (put_order i o1 t)"
  by (erule evolves_trans) (simp add: evolves_def)

lemma evolves_transition [evolves_intros]: "evolves s t \<Longrightarrow> evolves s (om_transition n i st e d t)"
  by (erule evolves_trans) (simp add: evolves_def order_at_transition od_evolves_enter)

lemma evolves_foldl:
  assumes "\<And>t x. evolves t (f t x)"
  shows "evolves s (foldl f s xs)"
  by (induction xs arbitrary: s) (simp, metis assms evolves_trans foldl_Cons)

section \<open>Every operation evolves the table\<close>

text \<open>A change of the request fields of a record that has not ended.\<close>

lemma od_evolves_update:
  assumes "same_order o1 o2" "od_state o2 = od_state o1" "is_terminal (od_state o1) \<Longrightarrow> settled o2 = settled o1"
  shows "od_evolves o1 o2"
  using assms by (simp add: od_evolves_def)

lemma evolves_insert: "evolves s (insert_order n a c s)"
  by (simp add: insert_order_def Let_def evolves_def order_at_def nth_append)

lemma insert_order_facts:
  "length (om_orders (insert_order n a c s)) = Suc (length (om_orders s))"
  "od_state (order_at (insert_order n a c s) (length (om_orders s))) = Created"
  by (simp_all add: insert_order_def Let_def order_at_def nth_append fresh_order_def)

lemma venue_call_simps [simp]:
  "venue_call ex c s = (s\<lparr>om_sent := om_sent s @ [c]\<rparr>, ex (om_sent s) c)"
  "order_at (s\<lparr>om_sent := l\<rparr>) i = order_at s i" "order_at (s\<lparr>om_next_request_id := k\<rparr>) i = order_at s i"
  "order_at (s\<lparr>om_id_generator := g\<rparr>) i = order_at s i" "order_at (s\<lparr>om_queue := q\<rparr>) i = order_at s i"
  "order_at (s\<lparr>om_by_exchange_id := m\<rparr>) i = order_at s i" "order_at (s\<lparr>om_by_client_id := m\<rparr>) i = order_at s i"
  by (simp_all add: venue_call_def order_at_def)

lemma evolves_send_new: "od_state (order_at s i) = Created \<Longrightarrow> evolves s (fst (send_new ex n i s))"
  by (auto simp: send_new_def oms_next_request_id_def Let_def same_order_def settled_def
           intro!: evolves_intros od_evolves_update)

lemma evolves_refuse [simp]: "evolves s (fst (refuse_submit r t)) = evolves s t"
  by (simp add: refuse_submit_def)

lemma evolves_defer [simp]: "evolves s (fst (defer_new a l t)) = evolves s t"
  by (simp add: defer_new_def split: option.splits)

lemma evolves_handle_new: "evolves s (fst (handle_new ex n a s))"
proof -
  have ins: "evolves s (insert_order n a c (s\<lparr>om_id_generator := g\<rparr>))" for c g
    using evolves_insert [of "s\<lparr>om_id_generator := g\<rparr>" n a c] evolves_frame(6) [where s = s and t = s and g = g]
    by (blast intro: evolves_trans evolves_refl)
  moreover have "evolves s (fst (send_new ex n (length (om_orders s)) (insert_order n a c (s\<lparr>om_id_generator := g\<rparr>))))" for c g
    using insert_order_facts(2) [of n a c "s\<lparr>om_id_generator := g\<rparr>"]
    by (intro evolves_trans [OF ins evolves_send_new]) simp
  ultimately show ?thesis
    by (auto simp: handle_new_def Let_def case_prod_beta split: option.splits)
qed

lemma evolves_send_cancel: "\<not> is_terminal (od_state (order_at s i)) \<Longrightarrow> evolves s (fst (send_cancel ex n i s))"
  by (auto simp: send_cancel_def oms_next_request_id_def Let_def same_order_def settled_def
           intro!: evolves_intros od_evolves_update)

lemma evolves_handle_cancel: "evolves s (fst (handle_cancel ex n a s))"
  using evolves_send_cancel by (auto simp: handle_cancel_def Let_def split: option.splits)

lemma same_order_generation [simp]: "same_order o1 (serve_generation g o2) = same_order o1 o2"
  by (simp add: same_order_def serve_generation_def)

lemma generation_state [simp]: "od_state (serve_generation g o1) = od_state o1"
  by (simp add: serve_generation_def)

lemma transition_not_terminal:
  "\<not> is_terminal (od_state (order_at s i)) \<Longrightarrow> \<not> is_terminal t \<Longrightarrow>
     \<not> is_terminal (od_state (order_at (om_transition n i t e d s) i))"
  by (simp add: order_at_transition enter_state_def)

lemma evolves_send_replace:
  assumes "\<not> is_terminal (od_state (order_at s i))"
  shows "evolves s (fst (send_replace ex n a c i s))"
proof -
  let ?o = "serve_generation (oa_generation a) ((order_at s i)\<lparr>od_pending_price := oa_price a,
     od_pending_quantity := oa_quantity a, od_pending_client_order_id := c,
     od_pending_request := inc64 (om_next_request_id s), od_pending_since_ns := n\<rparr>)"
  let ?s2 = "put_order i ?o (s\<lparr>om_next_request_id := inc64 (om_next_request_id s)\<rparr>)"
  let ?s3 = "om_transition n i PendingReplace OeReplaceRequested (detail_for (order_at s i)) ?s2"
  have o: "od_evolves (order_at s i) ?o" using assms by (intro od_evolves_same_state) (simp_all, simp add: same_order_def)
  then have s3: "evolves s ?s3" by (intro evolves_intros) simp_all
  have nt: "\<not> is_terminal (od_state (order_at ?s3 i))" using assms by (intro transition_not_terminal) simp_all
  have "od_evolves (order_at ?s3 i) ((order_at ?s3 i)\<lparr>od_pending_request := 0, od_pending_client_order_id := []\<rparr>)"
    using nt by (intro od_evolves_same_state) (simp_all add: same_order_def)
  with s3 show ?thesis
    by (auto simp: send_replace_def oms_next_request_id_def Let_def intro!: evolves_intros)
qed

lemma evolves_handle_replace: "evolves s (fst (handle_replace ex n a s))"
proof -
  have "evolves s (fst (send_replace ex n a c i (s\<lparr>om_id_generator := g\<rparr>)))"
    if "\<not> is_terminal (od_state (order_at s i))" for c i g
    by (rule evolves_trans [OF _ evolves_send_replace]) (use that in simp_all)
  moreover have "evolves s (put_order i (serve_generation g ((order_at s i)\<lparr>od_pending_price := p, od_pending_quantity := q\<rparr>)) s)"
    if "\<not> is_terminal (od_state (order_at s i))" for i g p q
    using that by (intro evolves_intros od_evolves_same_state) (simp_all, simp add: same_order_def)
  ultimately show ?thesis
    by (auto simp: handle_replace_def Let_def case_prod_beta split: option.splits)
qed

lemma evolves_submit: "evolves s (fst (submit ex n a s))"
  by (simp add: submit_def evolves_handle_new evolves_handle_cancel evolves_handle_replace
           split: OrderActionType.split)

lemma evolves_release_slot: "evolves s (release_slot ex n l s k)"
  using evolves_trans [OF _ evolves_handle_new] by (simp add: release_slot_def Let_def)

lemma evolves_release [evolves_intros]: "evolves s t \<Longrightarrow> evolves s (release_deferred ex n l t)"
  by (erule evolves_trans) (simp add: release_deferred_def evolves_foldl evolves_release_slot)

lemmas evolves_event_rules = evolves_intros od_evolves_same_state

lemma evolves_learn: "\<not> is_terminal (od_state (order_at s i)) \<Longrightarrow> evolves s (learn_exchange_id x i s)"
  by (auto simp: learn_exchange_id_def Let_def same_order_def split: option.splits intro!: evolves_event_rules)

lemma state_learn [simp]: "od_state (order_at (learn_exchange_id x i s) j) = od_state (order_at s j)"
  by (simp add: learn_exchange_id_def Let_def split: option.splits)

lemma evolves_apply_ack: "evolves s (apply_ack n ack s)"
  by (auto simp: apply_ack_def Let_def same_order_def split: option.splits
           intro!: evolves_event_rules evolves_learn)

lemma evolves_apply_reject: "evolves s (apply_reject ex n rej s)"
  by (auto simp: apply_reject_def Let_def same_order_def split: option.splits intro!: evolves_event_rules)

lemma evolves_apply_fill: "evolves s (apply_fill ex n fill s)"
  by (auto simp: apply_fill_def Let_def same_order_def case_prod_beta split: option.splits sum.splits
           intro!: evolves_event_rules)

lemma evolves_apply_cancel: "evolves s (apply_cancel ex n cxl s)"
  by (auto simp: apply_cancel_def Let_def same_order_def split: option.splits CancelStatus.splits
           intro!: evolves_event_rules)

lemma evolves_adopt:
  "\<not> is_terminal (od_state (order_at s i)) \<Longrightarrow> evolves s (adopt_client_id it i s)"
  "\<not> is_terminal (od_state (order_at s i)) \<Longrightarrow> evolves s (adopt_exchange_id x it i s)"
  by (auto simp: adopt_client_id_def adopt_exchange_id_def Let_def same_order_def split: option.splits
           intro!: evolves_event_rules)

lemma state_adopt [simp]:
  "od_state (order_at (adopt_client_id it i s) j) = od_state (order_at s j)"
  "od_state (order_at (adopt_exchange_id x it i s) j) = od_state (order_at s j)"
  by (simp_all add: adopt_client_id_def adopt_exchange_id_def Let_def split: option.splits)

lemma evolves_adopt_replace:
  assumes nt: "\<not> is_terminal (od_state (order_at s i))"
  shows "evolves s (adopt_replace x i s)"
proof -
  define it where "it = om_by_logical_id s (od_logical_id (order_at s i))"
  define s1 where "s1 = adopt_client_id it i s"
  define s2 where "s2 = put_order i ((order_at s1 i)\<lparr>od_price := od_pending_price (order_at s1 i),
                          od_original_quantity := od_pending_quantity (order_at s1 i)\<rparr>) s1"
  define s3 where "s3 = adopt_exchange_id x it i s2"
  have st: "od_state (order_at s1 i) = od_state (order_at s i)"
    "od_state (order_at s2 i) = od_state (order_at s i)" "od_state (order_at s3 i) = od_state (order_at s i)"
    by (simp_all add: s1_def s2_def s3_def)
  have "evolves s s1" unfolding s1_def using nt by (rule evolves_adopt)
  also have "evolves s1 s2" unfolding s2_def using nt st by (auto simp: same_order_def intro!: evolves_event_rules)
  also have "evolves s2 s3" unfolding s3_def using nt st by (intro evolves_adopt) simp
  finally have "evolves s s3" .
  then have "evolves s (put_order i ((order_at s3 i)\<lparr>od_pending_client_order_id := [], od_pending_request := 0\<rparr>) s3)"
    using nt st by (auto simp: same_order_def intro!: evolves_event_rules)
  then show ?thesis by (simp add: adopt_replace_def Let_def it_def s1_def s2_def s3_def)
qed

lemma evolves_apply_replace: "evolves s (apply_replace n rpl s)"
proof -
  have "evolves s (adopt_replace x i (put_order i ((order_at s i)\<lparr>od_venue_ns := v\<rparr>) s))"
    if "\<not> is_terminal (od_state (order_at s i))" for i v x
    by (rule evolves_trans [OF _ evolves_adopt_replace])
       (use that in \<open>auto simp: same_order_def intro!: evolves_event_rules\<close>)
  then show ?thesis
    by (auto simp: apply_replace_def Let_def same_order_def split: option.splits intro!: evolves_event_rules)
qed

lemma evolves_apply_failure: "evolves s (apply_failure ex n f s)"
  by (auto simp: apply_failure_def Let_def same_order_def split: option.splits intro!: evolves_event_rules)

lemmas evolves_apply = evolves_apply_ack evolves_apply_reject evolves_apply_fill evolves_apply_cancel
  evolves_apply_replace evolves_apply_failure

lemma evolves_apply_event: "evolves s (apply_event ex n ev s)"
  by (simp add: apply_event_def evolves_apply split: ExecutionEvent.split)

lemma evolves_drain: "evolves s (fst (drain ex k now s))"
proof (induction k arbitrary: now s)
  case (Suc k)
  obtain q e where q: "try_pop (om_queue s) = (q, e)" by (cases "try_pop (om_queue s)")
  show ?case
  proof (cases e)
    case None
    then show ?thesis by (simp add: q)
  next
    case (Some ev)
    have "evolves s (apply_event ex (now 0) ev (s\<lparr>om_queue := q\<rparr>))"
      by (rule evolves_trans [OF _ evolves_apply_event]) simp
    then show ?thesis using evolves_trans [OF _ Suc.IH] by (simp add: q Some case_prod_beta)
  qed
qed simp

lemma evolves_on_execution: "evolves s (on_execution ev s)"
  by (simp add: on_execution_def case_prod_beta Let_def)

lemma evolves_time_out: "evolves s (time_out n s i)"
  by (auto simp: time_out_def Let_def same_order_def settled_def intro!: evolves_intros od_evolves_update)

lemma evolves_on_timer: "evolves s (on_timer n s)"
  by (simp add: on_timer_def evolves_foldl evolves_time_out)

lemma compare_orders_frame: "om_orders (rc_oms (foldl compare_order run vs)) = om_orders (rc_oms run)"
  by (induction vs arbitrary: run) (simp_all add: compare_order_def Let_def split: option.splits)

lemma count_all_frame [simp]: "om_orders (foldl (\<lambda>t _. count_metric c t) s xs) = om_orders s"
  by (induction xs arbitrary: s) simp_all

lemma evolves_reconcile: "evolves s (fst (reconcile n snap s))"
proof -
  have doubt: "evolves t (doubt_missing n m t l)" for t m l
    by (auto simp: doubt_missing_def split: option.splits intro!: evolves_intros)
  have jot: "evolves t (journal_discrepancy n t d)" for t d
    by (simp add: journal_discrepancy_def Let_def split: option.splits)
  have start: "evolves s (foldl (\<lambda>t _. count_metric OmMissingOrders t) (rc_oms (foldl compare_order run vs)) xs)"
    if "om_orders (rc_oms run) = om_orders s" for run vs and xs :: "nat list"
    using that by (simp add: evolves_same_table [where u = s] compare_orders_frame)
  show ?thesis
    unfolding reconcile_def Let_def
    by (auto intro!: evolves_trans [OF evolves_trans [OF start evolves_foldl] evolves_foldl] doubt jot)
qed

lemma evolves_resolve: "evolves s (fst (resolve ex n l st s))"
proof -
  have "evolves s (put_order i (if is_terminal st
        then (order_at s i)\<lparr>od_state := st, od_terminal_ns := n, od_pending_request := 0\<rparr>
        else (order_at s i)\<lparr>od_state := st\<rparr>) s)"
    if "order_legal_transition (od_state (order_at s i)) st" for i
    using that terminal_absorbing [OF _ that]
    by (intro evolves_intros) (auto simp: od_evolves_def same_order_def settled_def)
  then show ?thesis
    by (auto simp: resolve_def Let_def split: option.splits intro!: evolves_intros)
qed

end
