(* ===== verification/OmsInvariant.thy ===== *)
theory OmsInvariant
  imports OrderLifecycle
begin

text \<open>
  Invariants of the order manager. The locale \<open>oms_preserved\<close> states what a state predicate must be closed under,
  the primitive state changes with the conditions the operations establish for them, and derives from it that every
  operation preserves the predicate. It is interpreted for the table invariant \<open>om_inv\<close> and for the approval
  invariant.
\<close>

section \<open>Primitive changes\<close>

text \<open>A record changed in place without a state change; its trade ids are kept or gain one.\<close>

definition od_touch :: "OrderRecord \<Rightarrow> OrderRecord \<Rightarrow> bool" where
  "od_touch o1 o2 \<longleftrightarrow> same_order o1 o2 \<and> od_state o2 = od_state o1
     \<and> (od_seen_trades o2 = od_seen_trades o1
        \<or> (\<exists>t. od_seen_trades o2 = fst (seen_trade_ids_insert (od_seen_trades o1) t)))"

lemma od_touchD: "od_touch o1 o2 \<Longrightarrow> od_state o2 = od_state o1"
  by (simp add: od_touch_def)

definition clear_deferred :: "nat \<Rightarrow> OrderManager \<Rightarrow> OrderManager" where
  "clear_deferred k s =
     s\<lparr>om_deferred := (om_deferred s)[k := (om_deferred s ! k)\<lparr>dn_present := False, dn_waiting_on := 0\<rparr>],
       om_deferred_count := dec64 (om_deferred_count s)\<rparr>"

definition fill_deferred :: "nat \<Rightarrow> OrderAction \<Rightarrow> logical_order_id \<Rightarrow> OrderManager \<Rightarrow> OrderManager" where
  "fill_deferred k a l s =
     s\<lparr>om_deferred := (om_deferred s)[k := \<lparr>dn_present = True, dn_action = a, dn_waiting_on = l\<rparr>],
       om_deferred_count := inc64 (om_deferred_count s)\<rparr>"

definition resolve_order :: "nanos \<Rightarrow> OrderState \<Rightarrow> OrderRecord \<Rightarrow> OrderRecord" where
  "resolve_order now st o1 =
     (if is_terminal st then o1\<lparr>od_state := st, od_terminal_ns := now, od_pending_request := 0\<rparr>
      else o1\<lparr>od_state := st\<rparr>)"

lemma resolve_order_fields [simp]:
  "od_logical_id (resolve_order n st o1) = od_logical_id o1" "od_seen_trades (resolve_order n st o1) = od_seen_trades o1"
  "od_state (resolve_order n st o1) = st" "same_order o1 (resolve_order n st o1)"
  by (simp_all add: resolve_order_def same_order_def)

section \<open>Predicates the operations preserve\<close>

locale oms_preserved =
  fixes P :: "OrderManager \<Rightarrow> bool"
    and approved :: "OrderAction \<Rightarrow> bool"
  assumes index_range: "P s \<Longrightarrow> om_by_client_id s c = Some i \<Longrightarrow> i < length (om_orders s)"
    "P s \<Longrightarrow> om_by_exchange_id s c = Some i \<Longrightarrow> i < length (om_orders s)"
    "P s \<Longrightarrow> om_by_logical_id s l = Some i \<Longrightarrow> i < length (om_orders s)"
    and metric: "P s \<Longrightarrow> P (count_metric m s)"
    and counted_reject: "P s \<Longrightarrow> P (record_reject r s)"
    and quarantine: "P s \<Longrightarrow> jr_type j = OeEventQuarantined \<Longrightarrow> P (append_record j s)"
    and request_id: "P s \<Longrightarrow> P (s\<lparr>om_next_request_id := k\<rparr>)"
    and generator: "P s \<Longrightarrow> P (s\<lparr>om_id_generator := fst (next_id (om_id_generator s))\<rparr>)"
    and touch: "P s \<Longrightarrow> od_touch (order_at s i) o2 \<Longrightarrow> P (put_order i o2 s)"
    and moved: "P s \<Longrightarrow> i < length (om_orders s) \<Longrightarrow> e \<noteq> OeEventQuarantined \<Longrightarrow> P (om_transition n i t e d s)"
    and inserted: "P s \<Longrightarrow> approved a \<Longrightarrow> oa_type a = ActNew \<Longrightarrow> length (om_orders s) < oc_max_orders (om_config s) \<Longrightarrow>
      om_by_client_id s c = None \<Longrightarrow> P (insert_order n a c s)"
    and called_new: "P s \<Longrightarrow> approved a \<Longrightarrow> oa_type a = ActNew \<Longrightarrow>
      P (s\<lparr>om_sent := om_sent s @ [VcSubmit (order_request n (fresh_order n a c l k))]\<rparr>)"
    and called_cancel: "P s \<Longrightarrow> approved a \<Longrightarrow> oa_type a = ActCancel \<Longrightarrow>
      i < length (om_orders s) \<Longrightarrow> same_order (order_at s i) o1 \<Longrightarrow> \<not> not_owner a o1 \<Longrightarrow>
      P (s\<lparr>om_sent := om_sent s @ [VcCancel (cancel_request n o1)]\<rparr>)"
    and called_replace: "P s \<Longrightarrow> approved a \<Longrightarrow> oa_type a = ActReplace \<Longrightarrow>
      i < length (om_orders s) \<Longrightarrow> same_order (order_at s i) o1 \<Longrightarrow> \<not> not_owner a o1 \<Longrightarrow>
      P (s\<lparr>om_sent := om_sent s @ [VcReplace (replace_request n o1 a c)]\<rparr>)"
    and deferred: "P s \<Longrightarrow> approved a \<Longrightarrow> oa_type a = ActNew \<Longrightarrow>
      find_index (\<lambda>d. \<not> dn_present d) (om_deferred s) = Some k \<Longrightarrow> P (fill_deferred k a l s)"
    and released: "P s \<Longrightarrow> k < length (om_deferred s) \<Longrightarrow> dn_present (om_deferred s ! k) \<Longrightarrow>
      P (clear_deferred k s) \<and> approved (dn_action (om_deferred s ! k)) \<and> oa_type (dn_action (om_deferred s ! k)) = ActNew"
    and learned: "P s \<Longrightarrow> i < length (om_orders s) \<Longrightarrow> P (learn_exchange_id x i s)"
    and replaced: "P s \<Longrightarrow> i < length (om_orders s) \<Longrightarrow> P (adopt_replace x i s)"
    and resolved: "P s \<Longrightarrow> i < length (om_orders s) \<Longrightarrow> order_legal_transition (od_state (order_at s i)) st \<Longrightarrow>
      P (journal_event n OeReconciliationResolved (resolve_order n st (order_at s i)) (od_state (order_at s i)) st
           (put_order i (resolve_order n st (order_at s i)) s))"
    and noted: "P s \<Longrightarrow> i < length (om_orders s) \<Longrightarrow>
      P (journal_event n OeReconciliationDetected (order_at s i) (od_state (order_at s i)) (od_state (order_at s i)) s)"
    and queued: "P s \<Longrightarrow> P (s\<lparr>om_queue := fst (try_push (om_queue s) ev)\<rparr>)"
    and dequeued: "P s \<Longrightarrow> P (s\<lparr>om_queue := fst (try_pop (om_queue s))\<rparr>)"
    and dropped: "P s \<Longrightarrow> P (s\<lparr>om_dropped_events := k\<rparr>)"
begin

lemmas steps = metric counted_reject request_id generator touch moved

lemma slot_range: "find_slot_order s a b c = Some i \<Longrightarrow> i < length (om_orders s)"
  using find_index_Some by (fastforce simp: find_slot_order_def)

lemma refused: "P s \<Longrightarrow> P (fst (refuse_submit r s))"
  by (simp add: refuse_submit_def counted_reject)

lemma defer_keeps: "P s \<Longrightarrow> approved a \<Longrightarrow> oa_type a = ActNew \<Longrightarrow> P (fst (defer_new a l s))"
  using deferred [of s a _ l]
  by (auto simp: defer_new_def refused fill_deferred_def metric split: option.splits)

lemma new_order_at:
  "order_at (insert_order n a c s) (length (om_orders s)) =
     fresh_order n a c (inc64 (om_next_logical_id s)) (inc64 (om_creation_sequence s))"
  "length (om_orders (insert_order n a c s)) = Suc (length (om_orders s))"
  by (simp_all add: insert_order_def Let_def order_at_def nth_append)

lemma send_new_keeps:
  assumes "P s" "i < length (om_orders s)" "order_at s i = fresh_order n a c l k" "approved a" "oa_type a = ActNew"
  shows "P (fst (send_new ex n i s))"
proof -
  let ?s2 = "put_order i ((order_at s i)\<lparr>od_pending_request := inc64 (om_next_request_id s), od_pending_since_ns := n,
     od_sent_ns := n\<rparr>) (s\<lparr>om_next_request_id := inc64 (om_next_request_id s)\<rparr>)"
  let ?s3 = "count_metric OmNewRequests (om_transition n i PendingNew OeRequestSent (detail_for (order_at s i)) ?s2)"
  let ?s4 = "?s3\<lparr>om_sent := om_sent ?s3 @ [VcSubmit (order_request n (order_at s i))]\<rparr>"
  have "P ?s2" using assms by (intro touch request_id) (simp_all add: od_touch_def same_order_def)
  then have "P ?s3" using assms by (intro metric moved) simp_all
  from called_new [OF this assms(4,5), of n c l k] have s4: "P ?s4" by (simp only: assms(3))
  have "P (put_order i ((order_at ?s4 i)\<lparr>od_pending_request := 0\<rparr>) ?s4)"
    using s4 by (intro touch) (simp_all add: od_touch_def same_order_def)
  then show ?thesis
    using s4 assms(2) by (simp add: send_new_def oms_next_request_id_def Let_def metric moved)
qed

lemma handle_new_keeps:
  assumes "P s" "approved a" "oa_type a = ActNew"
  shows "P (fst (handle_new ex n a s))"
proof -
  let ?s1 = "s\<lparr>om_id_generator := fst (next_id (om_id_generator s))\<rparr>"
  have s1: "P ?s1" using assms(1) by (rule generator)
  have ins: "P (insert_order n a c ?s1)" if "om_by_client_id s c = None" "length (om_orders s) < oc_max_orders (om_config s)" for c
    using that s1 assms by (intro inserted) simp_all
  have "P (fst (send_new ex n (length (om_orders s)) (insert_order n a c ?s1)))"
    if "om_by_client_id s c = None" "length (om_orders s) < oc_max_orders (om_config s)" for c
    using new_order_at [of n a c ?s1] assms ins [OF that] by (intro send_new_keeps) simp_all
  then show ?thesis
    using assms s1 ins
    by (auto simp: handle_new_def Let_def case_prod_beta refused defer_keeps counted_reject metric split: option.splits)
qed

lemma target_range:
  "P s \<Longrightarrow> cancel_target s a = Some i \<Longrightarrow> i < length (om_orders s)"
  "P s \<Longrightarrow> replace_target s a = Some i \<Longrightarrow> i < length (om_orders s)"
  "P s \<Longrightarrow> find_client s c = Some i \<Longrightarrow> i < length (om_orders s)"
  "P s \<Longrightarrow> find_logical s l = Some i \<Longrightarrow> i < length (om_orders s)"
  "P s \<Longrightarrow> or_else (find_client s c) (if b then find_by_exchange_id s x else None) = Some i \<Longrightarrow> i < length (om_orders s)"
  by (auto simp: cancel_target_def replace_target_def or_else_def find_client_def find_by_exchange_id_def
      find_logical_def dest: index_range slot_range split: option.splits if_splits)

lemma send_cancel_keeps:
  assumes "P s" "i < length (om_orders s)" "approved a" "oa_type a = ActCancel" "\<not> not_owner a (order_at s i)"
  shows "P (fst (send_cancel ex n i s))"
proof -
  let ?s2 = "put_order i ((order_at s i)\<lparr>od_pending_request := inc64 (om_next_request_id s), od_pending_since_ns := n\<rparr>)
     (s\<lparr>om_next_request_id := inc64 (om_next_request_id s)\<rparr>)"
  let ?s3 = "count_metric OmCancelRequests (om_transition n i PendingCancel OeCancelRequested (detail_for (order_at s i)) ?s2)"
  let ?s4 = "?s3\<lparr>om_sent := om_sent ?s3 @ [VcCancel (cancel_request n (order_at s i))]\<rparr>"
  have "P ?s2" using assms by (intro touch request_id) (simp_all add: od_touch_def same_order_def)
  then have "P ?s3" using assms by (intro metric moved) simp_all
  then have s4: "P ?s4"
    by (rule called_cancel [OF _ assms(3,4), of _ i]) (use assms(2,5) in \<open>auto simp: order_at_transition same_order_def enter_state_def\<close>)
  have "P (put_order i ((order_at ?s4 i)\<lparr>od_pending_request := 0\<rparr>) ?s4)"
    using s4 by (intro touch) (simp_all add: od_touch_def same_order_def)
  then show ?thesis
    using s4 assms(2) by (simp add: send_cancel_def oms_next_request_id_def Let_def metric moved)
qed

lemma handle_cancel_keeps:
  assumes "P s" "approved a" "oa_type a = ActCancel"
  shows "P (fst (handle_cancel ex n a s))"
  using assms send_cancel_keeps target_range(1) [OF assms(1)]
  by (auto simp: handle_cancel_def Let_def refused counted_reject metric split: option.splits)

lemma send_replace_keeps:
  assumes "P s" "i < length (om_orders s)" "approved a" "oa_type a = ActReplace" "\<not> not_owner a (order_at s i)"
  shows "P (fst (send_replace ex n a c i s))"
proof -
  let ?s2 = "put_order i (serve_generation (oa_generation a) ((order_at s i)\<lparr>od_pending_price := oa_price a,
     od_pending_quantity := oa_quantity a, od_pending_client_order_id := c,
     od_pending_request := inc64 (om_next_request_id s), od_pending_since_ns := n\<rparr>))
     (s\<lparr>om_next_request_id := inc64 (om_next_request_id s)\<rparr>)"
  let ?s3 = "count_metric OmReplaceRequests
     (om_transition n i PendingReplace OeReplaceRequested (detail_for (order_at s i)) ?s2)"
  let ?s4 = "?s3\<lparr>om_sent := om_sent ?s3 @ [VcReplace (replace_request n (order_at s i) a c)]\<rparr>"
  have "P ?s2" using assms
    by (intro touch request_id) (simp_all add: od_touch_def, simp_all add: same_order_def serve_generation_def)
  then have "P ?s3" using assms by (intro metric moved) simp_all
  then have s4: "P ?s4"
    by (rule called_replace [OF _ assms(3,4), of _ i])
       (use assms(2,5) in \<open>auto simp: order_at_transition same_order_def enter_state_def serve_generation_def\<close>)
  have "P (put_order i ((order_at ?s4 i)\<lparr>od_pending_request := 0, od_pending_client_order_id := []\<rparr>) ?s4)"
    using s4 by (intro touch) (simp_all add: od_touch_def same_order_def)
  then show ?thesis
    using s4 assms(2) by (simp add: send_replace_def oms_next_request_id_def Let_def metric moved)
qed

lemma handle_replace_keeps:
  assumes "P s" "approved a" "oa_type a = ActReplace"
  shows "P (fst (handle_replace ex n a s))"
proof -
  have "P (fst (send_replace ex n a c i (s\<lparr>om_id_generator := fst (next_id (om_id_generator s))\<rparr>)))"
    if "i < length (om_orders s)" "\<not> not_owner a (order_at s i)" for c i
    using that assms generator [OF assms(1)] by (intro send_replace_keeps) (simp_all add: order_at_def)
  moreover have "P (put_order i (serve_generation g ((order_at s i)\<lparr>od_pending_price := p, od_pending_quantity := q\<rparr>)) s)" for i g p q
    using assms(1) by (intro touch) (simp_all add: od_touch_def, simp_all add: same_order_def serve_generation_def)
  ultimately show ?thesis
    using assms(1) generator [OF assms(1)] target_range(2) [OF assms(1)]
    by (auto simp: handle_replace_def Let_def case_prod_beta refused counted_reject metric split: option.splits)
qed

lemma submit_keeps:
  assumes "P s" "aa_valid token \<Longrightarrow> approved (aa_action token)"
  shows "P (fst (submit ex n token s))"
  using assms handle_new_keeps handle_cancel_keeps handle_replace_keeps
  by (auto simp: submit_def journal_rejection_def quarantine counted_reject metric split: OrderActionType.splits)

lemma release_keeps: "P s \<Longrightarrow> P (release_deferred ex n l s)"
proof -
  have one: "P (release_slot ex n l s k) \<and> length (om_deferred (release_slot ex n l s k)) = length (om_deferred s)"
    if "P s" "k < length (om_deferred s)" for s k
  proof -
    have len: "length (om_deferred (fst (handle_new ex n a t))) = length (om_deferred t)" for a t
      by (auto simp: handle_new_def send_new_def refuse_submit_def defer_new_def insert_order_def Let_def
          oms_next_request_id_def case_prod_beta split: option.splits)
    show ?thesis
      using released [OF that] that handle_new_keeps
      by (auto simp: release_slot_def Let_def clear_deferred_def [symmetric] len)
         (simp_all add: clear_deferred_def)
  qed
  have "P (foldl (release_slot ex n l) s ks)" if "P s" "\<forall>k\<in>set ks. k < length (om_deferred s)" for ks s
    using that by (induction ks arbitrary: s) (use one in auto)
  then show "P s \<Longrightarrow> P (release_deferred ex n l s)" by (simp add: release_deferred_def)
qed

end

context oms_preserved
begin

lemma touchI:
  "P s \<Longrightarrow> same_order (order_at s i) o2 \<Longrightarrow> od_state o2 = od_state (order_at s i) \<Longrightarrow>
     od_seen_trades o2 = od_seen_trades (order_at s i) \<Longrightarrow> P (put_order i o2 s)"
  by (rule touch) (simp_all add: od_touch_def)

lemmas event_rules = metric counted_reject touchI moved release_keeps

lemma learn_length [simp]: "length (om_orders (learn_exchange_id x i s)) = length (om_orders s)"
  by (simp add: learn_exchange_id_def Let_def split: option.splits)

lemma apply_ack_keeps: "P s \<Longrightarrow> P (apply_ack n ack s)"
  using target_range(3) [of s]
  by (auto simp: apply_ack_def Let_def same_order_def split: option.splits intro!: event_rules learned)

lemma apply_reject_keeps: "P s \<Longrightarrow> P (apply_reject ex n rej s)"
  using target_range(3) [of s]
  by (auto simp: apply_reject_def Let_def same_order_def split: option.splits intro!: event_rules)

lemma apply_fill_keeps:
  assumes "P s"
  shows "P (apply_fill ex n fill s)"
proof -
  have "P (put_order i o2 s)"
    if "same_order (order_at s i) o2" "od_state o2 = od_state (order_at s i)"
      "od_seen_trades o2 = fst (seen_trade_ids_insert (od_seen_trades (order_at s i)) t)" for i o2 t
    using assms that by (intro touch) (auto simp: od_touch_def)
  then show ?thesis
    using assms target_range(3) [OF assms]
    by (auto simp: apply_fill_def Let_def case_prod_beta same_order_def split: option.splits sum.splits
             intro!: metric counted_reject moved release_keeps)
qed

lemma apply_cancel_keeps: "P s \<Longrightarrow> P (apply_cancel ex n cxl s)"
  using target_range(5) [of s "cxl_client_order_id cxl" "cxl_exchange_order_id cxl \<noteq> []" "cxl_exchange_order_id cxl"]
  by (auto simp: apply_cancel_def Let_def same_order_def split: option.splits CancelStatus.splits intro!: event_rules)

lemma adopt_replace_length [simp]: "length (om_orders (adopt_replace x i s)) = length (om_orders s)"
  by (simp add: adopt_replace_def adopt_client_id_def adopt_exchange_id_def Let_def split: option.splits)

lemma apply_replace_keeps: "P s \<Longrightarrow> P (apply_replace n rpl s)"
  using target_range(3) [of s]
  by (auto simp: apply_replace_def Let_def same_order_def split: option.splits intro!: event_rules replaced)

lemma apply_failure_keeps: "P s \<Longrightarrow> P (apply_failure ex n f s)"
  using target_range(3) [of s]
  by (auto simp: apply_failure_def Let_def same_order_def split: option.splits intro!: event_rules)

lemma apply_event_keeps: "P s \<Longrightarrow> P (apply_event ex n ev s)"
  by (simp add: apply_event_def metric apply_ack_keeps apply_reject_keeps apply_fill_keeps apply_cancel_keeps
      apply_replace_keeps apply_failure_keeps split: ExecutionEvent.split)

lemma on_execution_keeps: "P s \<Longrightarrow> P (on_execution ev s)"
  using queued [of s ev] by (auto simp: on_execution_def case_prod_beta Let_def intro: metric dropped)

lemma drain_keeps: "P s \<Longrightarrow> P (fst (drain ex k now s))"
proof (induction k arbitrary: now s)
  case (Suc k)
  have q: "P (s\<lparr>om_queue := fst (try_pop (om_queue s))\<rparr>)" using Suc.prems by (rule dequeued)
  show ?case
    using q Suc.IH [OF apply_event_keeps [OF q]]
    by (auto simp: case_prod_beta split: prod.splits option.splits)
qed simp

lemma process_events_keeps: "P s \<Longrightarrow> P (fst (process_events ex now s))"
  unfolding process_events_def by (rule drain_keeps)

lemma on_timer_keeps: "P s \<Longrightarrow> P (on_timer n s)"
proof -
  have one: "P (time_out n s i) \<and> length (om_orders (time_out n s i)) = length (om_orders s)"
    if "P s" "i < length (om_orders s)" for s i
    using that by (auto simp: time_out_def Let_def same_order_def intro!: event_rules)
  have "P (foldl (time_out n) s is)" if "P s" "\<forall>i\<in>set is. i < length (om_orders s)" for "is" s
    using that by (induction "is" arbitrary: s) (use one in auto)
  then show "P s \<Longrightarrow> P (on_timer n s)" by (simp add: on_timer_def)
qed

lemma foldl_keeps: "(\<And>t x. P t \<Longrightarrow> P (f t x)) \<Longrightarrow> P s \<Longrightarrow> P (foldl f s xs)"
  by (induction xs arbitrary: s) simp_all

lemma reconcile_keeps: "P s \<Longrightarrow> P (fst (reconcile n snap s))"
proof -
  have cmp: "P (rc_oms (foldl compare_order run vs))" if "P (rc_oms run)" for run vs
    using that by (induction vs arbitrary: run) (simp_all add: compare_order_def Let_def metric split: option.splits)
  have doubt: "P (doubt_missing n m t l)" if "P t" for t m l
    using that target_range(4) [OF that] by (auto simp: doubt_missing_def split: option.splits intro!: moved metric)
  have jot: "P (journal_discrepancy n t d)" if "P t" for t d
    using that target_range(4) [OF that] by (auto simp: journal_discrepancy_def Let_def split: option.splits intro!: noted)
  show "P s \<Longrightarrow> P (fst (reconcile n snap s))"
    unfolding reconcile_def Let_def by (auto intro!: foldl_keeps doubt jot metric cmp)
qed

lemma resolve_keeps: "P s \<Longrightarrow> P (fst (resolve ex n l st s))"
  using resolved [of s _ st n] target_range(4) [of s]
  by (auto simp: resolve_def Let_def resolve_order_def [symmetric] split: option.splits intro!: release_keeps)

end

section \<open>The table invariant\<close>

text \<open>
  Replaying the journal: the records of one order, without the quarantined ones, must chain, each transition legal.
  An order of the base starts in the state it was in then, any other in Created.
\<close>

fun replay :: "OrderState \<Rightarrow> OrderJournalRecord list \<Rightarrow> OrderState option" where
  "replay st [] = Some st"
| "replay st (r # rs) =
     (if jr_from_state r = st \<and> order_legal_transition st (jr_to_state r) then replay (jr_to_state r) rs else None)"

definition own_records :: "logical_order_id \<Rightarrow> OrderJournalRecord list \<Rightarrow> OrderJournalRecord list" where
  "own_records l rs = filter (\<lambda>r. jr_logical_id r = l \<and> jr_type r \<noteq> OeEventQuarantined) rs"

definition trail :: "OrderManager \<Rightarrow> logical_order_id \<Rightarrow> OrderJournalRecord list" where
  "trail s l = own_records l (om_journal s)"

definition base_state :: "OrderState list \<Rightarrow> nat \<Rightarrow> OrderState" where
  "base_state bs i = (if i < length bs then bs ! i else Created)"

definition states :: "OrderManager \<Rightarrow> OrderState list" where
  "states s = map od_state (om_orders s)"

definition chained :: "OrderState list \<Rightarrow> OrderJournalRecord list \<Rightarrow> OrderState list \<Rightarrow> OrderJournalRecord list \<Rightarrow> bool" where
  "chained bs pre sts js \<longleftrightarrow> length bs \<le> length sts
     \<and> (\<exists>new. js = pre @ new \<and> (\<forall>i < length sts. replay (base_state bs i) (own_records (Suc i) new) = Some (sts ! i)))"

definition tables_ok :: "OrderManager \<Rightarrow> bool" where
  [inv_defs]: "tables_ok s \<longleftrightarrow>
     length (om_orders s) \<le> oc_max_orders (om_config s) \<and> oc_max_orders (om_config s) < W64
     \<and> om_next_logical_id s = length (om_orders s)
     \<and> (\<forall>i<length (om_orders s). od_logical_id (order_at s i) = Suc i)
     \<and> (\<forall>l. om_by_logical_id s l = (if 0 < l \<and> l \<le> length (om_orders s) then Some (l - 1) else None))
     \<and> (\<forall>c i. om_by_client_id s c = Some i \<longrightarrow> i < length (om_orders s))
     \<and> (\<forall>x i. om_by_exchange_id s x = Some i \<longrightarrow> i < length (om_orders s))"

definition deferred_ok :: "OrderManager \<Rightarrow> bool" where
  [inv_defs]: "deferred_ok s \<longleftrightarrow> length (om_deferred s) = oc_max_orders (om_config s)
     \<and> om_deferred_count s = length (filter dn_present (om_deferred s))
     \<and> (\<forall>d\<in>set (om_deferred s). dn_present d \<longrightarrow> oa_type (dn_action d) = ActNew)"

definition journal_ok :: "OrderManager \<Rightarrow> bool" where
  [inv_defs]: "journal_ok s \<longleftrightarrow>
     (\<forall>r\<in>set (om_journal s). jr_type r \<noteq> OeEventQuarantined \<longrightarrow> jr_logical_id r \<le> length (om_orders s))"

definition records_ok :: "OrderManager \<Rightarrow> bool" where
  [inv_defs]: "records_ok s \<longleftrightarrow>
     (\<forall>i<length (om_orders s). ring_ok SeenTradeIds_kCapacity (od_seen_trades (order_at s i)))"

definition queue_ok :: "OrderManager \<Rightarrow> bool" where
  [inv_defs]: "queue_ok s \<longleftrightarrow> ring_inv (om_queue s) \<and> sq_capacity (om_queue s) = kQueueCapacity"

definition om_inv :: "OrderManager \<Rightarrow> bool" where
  "om_inv s \<longleftrightarrow> tables_ok s \<and> deferred_ok s \<and> journal_ok s \<and> records_ok s \<and> queue_ok s"

lemma replay_append:
  "replay st (xs @ ys) = (case replay st xs of None \<Rightarrow> None | Some t \<Rightarrow> replay t ys)"
  by (induction xs arbitrary: st) auto

text \<open>The invariant reads only some of the fields.\<close>

lemma om_inv_cong:
  assumes "om_orders t = om_orders s" "om_config t = om_config s" "om_next_logical_id t = om_next_logical_id s"
    "om_by_logical_id t = om_by_logical_id s" "om_by_client_id t = om_by_client_id s"
    "om_by_exchange_id t = om_by_exchange_id s" "om_deferred t = om_deferred s"
    "om_deferred_count t = om_deferred_count s" "om_journal t = om_journal s" "om_queue t = om_queue s"
  shows "om_inv t = om_inv s"
  using assms by (simp add: om_inv_def inv_defs order_at_def)

lemma om_inv_metric: "om_inv s \<Longrightarrow> om_inv (count_metric c s)"
  by (simp add: om_inv_cong [of "count_metric c s" s])

lemma om_inv_reject: "om_inv s \<Longrightarrow> om_inv (record_reject r s)"
  by (simp add: om_inv_cong [of "record_reject r s" s])

lemma om_inv_quarantine:
  assumes "om_inv s" "jr_type j = OeEventQuarantined"
  shows "om_inv (append_record j s)"
proof -
  have "set (om_journal (append_record j s)) = insert (j\<lparr>jr_sequence := inc64 (om_journal_sequence s)\<rparr>) (set (om_journal s))"
    by (simp add: append_record_def Let_def)
  then show ?thesis using assms by (simp add: om_inv_def inv_defs)
qed

lemma om_inv_put:
  assumes "om_inv s" "od_logical_id o2 = od_logical_id (order_at s i)" "od_state o2 = od_state (order_at s i)"
    "i < length (om_orders s) \<Longrightarrow> ring_ok SeenTradeIds_kCapacity (od_seen_trades o2)"
  shows "om_inv (put_order i o2 s)"
proof -
  have "om_journal (put_order i o2 s) = om_journal s" by (simp add: put_order_def)
  then show ?thesis using assms by (auto simp: om_inv_def inv_defs)
qed

lemma om_inv_touch: "om_inv s \<Longrightarrow> od_touch (order_at s i) o2 \<Longrightarrow> om_inv (put_order i o2 s)"
  using order_ring.ins_preserves
  by (intro om_inv_put) (auto simp: od_touch_def same_order_def om_inv_def records_ok_def)

text \<open>A journalled state change of one order.\<close>

lemma om_inv_move:
  assumes inv: "om_inv s" and i: "i < length (om_orders s)"
    and o2: "od_logical_id o2 = od_logical_id (order_at s i)" "od_seen_trades o2 = od_seen_trades (order_at s i)"
  shows "om_inv (journal_event n e o2 a b (put_order i o2 s))"
proof -
  let ?t = "journal_event n e o2 a b (put_order i o2 s)"
  obtain r where j: "om_journal ?t = om_journal s @ [r]" and r: "jr_logical_id r = od_logical_id (order_at s i)"
    by (simp add: journal_event_def append_record_def put_order_def o2 Let_def)
  have l: "od_logical_id (order_at s i) = Suc i" using inv i by (simp add: om_inv_def tables_ok_def)
  have "journal_ok ?t" using inv i r l by (auto simp: journal_ok_def om_inv_def j)
  moreover have "tables_ok ?t" "deferred_ok ?t" "records_ok ?t" "queue_ok ?t"
    using inv i o2 by (auto simp: om_inv_def inv_defs)
  ultimately show ?thesis by (simp add: om_inv_def)
qed

lemma om_inv_transition:
  assumes "om_inv s" "i < length (om_orders s)" "e \<noteq> OeEventQuarantined"
  shows "om_inv (om_transition n i t e d s)"
proof (cases "order_legal_transition (od_state (order_at s i)) t")
  case False
  with assms show ?thesis
    by (simp add: om_transition_def Let_def om_inv_quarantine om_inv_reject om_inv_metric)
next
  case True
  let ?o = "enter_state n t (order_at s i)"
  have o: "od_logical_id ?o = od_logical_id (order_at s i)" "od_seen_trades ?o = od_seen_trades (order_at s i)" "od_state ?o = t"
    by (simp_all add: enter_state_def)
  have "om_inv (journal_event n e ?o (od_state (order_at s i)) t (put_order i ?o s))"
    by (rule om_inv_move [OF assms(1,2) o(1,2)])
  moreover have "journal_event n e x a b (count_metric m u) = count_metric m (journal_event n e x a b u)" for x a b m u
    by (simp add: journal_event_def append_record_def count_metric_def Let_def)
  ultimately show ?thesis using True by (auto simp: om_transition_def Let_def intro: om_inv_metric)
qed
lemma om_inv_insert:
  assumes inv: "om_inv s" and room: "length (om_orders s) < oc_max_orders (om_config s)"
    and new: "om_by_client_id s c = None"
  shows "om_inv (insert_order n a c s)"
proof -
  let ?t = "insert_order n a c s" and ?k = "length (om_orders s)"
  have next_l: "inc64 (om_next_logical_id s) = Suc ?k"
    using inv room by (simp add: om_inv_def tables_ok_def inc64_less)
  let ?o = "fresh_order n a c (Suc ?k) (inc64 (om_creation_sequence s))"
  obtain r where j: "om_journal ?t = om_journal s @ [r]" and r: "jr_logical_id r = Suc ?k" "jr_type r = OeCreated"
    "jr_from_state r = Created" "jr_to_state r = Created"
    by (simp add: insert_order_def journal_event_def append_record_def next_l fresh_order_def count_metric_def Let_def)
  have orders: "om_orders ?t = om_orders s @ [?o]"
    by (simp add: insert_order_def Let_def next_l)
  have "om_by_logical_id s (Suc ?k) = None" using inv by (simp add: om_inv_def tables_ok_def)
  then have maps: "om_by_logical_id ?t = (om_by_logical_id s)(Suc ?k \<mapsto> ?k)" "om_by_client_id ?t = (om_by_client_id s)(c \<mapsto> ?k)"
    "om_by_exchange_id ?t = om_by_exchange_id s" "om_next_logical_id ?t = Suc ?k" "om_config ?t = om_config s"
    "om_deferred ?t = om_deferred s" "om_deferred_count ?t = om_deferred_count s" "om_queue ?t = om_queue s"
    using new by (simp_all add: insert_order_def Let_def next_l)
  have at: "order_at ?t i = (if i < ?k then order_at s i else ?o)" if "i < Suc ?k" for i
    using that by (simp add: order_at_def orders nth_append)
  have "tables_ok ?t"
    using inv room by (auto simp: tables_ok_def om_inv_def maps orders at fresh_order_def less_Suc_eq)
  moreover have "journal_ok ?t"
    using inv by (auto simp: journal_ok_def om_inv_def orders j r)
  moreover have "records_ok ?t"
    using inv ring_empty [OF order_ring.cap_pos] by (auto simp: records_ok_def om_inv_def orders at fresh_order_def)
  ultimately show ?thesis using inv by (simp add: om_inv_def deferred_ok_def queue_ok_def maps)
qed

lemma count_update:
  "k < length xs \<Longrightarrow> length (filter Q (xs[k := x])) + (if Q (xs ! k) then 1 else 0) = length (filter Q xs) + (if Q x then 1 else 0)"
proof -
  assume k: "k < length xs"
  have "filter Q xs = filter Q (take k xs @ xs ! k # drop (Suc k) xs)" using id_take_nth_drop [OF k] by simp
  moreover have "filter Q (xs[k := x]) = filter Q (take k xs @ x # drop (Suc k) xs)"
    using k by (simp add: upd_conv_take_nth_drop)
  ultimately show ?thesis by simp
qed

lemma dec64_Suc: "n < W64 \<Longrightarrow> dec64 (Suc n) = n"
  by (simp add: dec64_def)

lemma om_inv_fill:
  assumes "om_inv s" "find_index (\<lambda>d. \<not> dn_present d) (om_deferred s) = Some k" "oa_type a = ActNew"
  shows "om_inv (fill_deferred k a l s)"
proof -
  let ?x = "\<lparr>dn_present = True, dn_action = a, dn_waiting_on = l\<rparr>"
  have k: "k < length (om_deferred s)" "\<not> dn_present (om_deferred s ! k)"
    using find_index_Some [OF assms(2)] by simp_all
  have n: "length (filter dn_present ((om_deferred s)[k := ?x])) = Suc (length (filter dn_present (om_deferred s)))"
    using count_update [OF k(1), of dn_present ?x] k(2) by simp
  have "length (filter dn_present ((om_deferred s)[k := ?x])) \<le> length (om_deferred s)"
    using length_filter_le [of dn_present "(om_deferred s)[k := ?x]"] by simp
  then have "inc64 (om_deferred_count s) = Suc (om_deferred_count s)"
    using assms(1) n by (intro inc64_less) (simp add: om_inv_def deferred_ok_def tables_ok_def)
  then show ?thesis
    using assms(1,3) n set_update_subset_insert [of "om_deferred s" k ?x]
    by (auto simp: om_inv_def inv_defs fill_deferred_def order_at_def)
qed

lemma om_inv_clear:
  assumes "om_inv s" "k < length (om_deferred s)" "dn_present (om_deferred s ! k)"
  shows "om_inv (clear_deferred k s)"
proof -
  let ?x = "(om_deferred s ! k)\<lparr>dn_present := False, dn_waiting_on := 0\<rparr>"
  have n: "Suc (length (filter dn_present ((om_deferred s)[k := ?x]))) = length (filter dn_present (om_deferred s))"
    using count_update [OF assms(2), of dn_present ?x] assms(3) by simp
  have le: "length (filter dn_present (om_deferred s)) \<le> length (om_deferred s)" by (rule length_filter_le)
  have "dec64 (om_deferred_count s) = length (filter dn_present ((om_deferred s)[k := ?x]))"
    using assms(1) n le dec64_Suc [of "length (filter dn_present ((om_deferred s)[k := ?x]))"]
    by (simp add: om_inv_def deferred_ok_def tables_ok_def)
  then show ?thesis
    using assms(1) set_update_subset_insert [of "om_deferred s" k ?x]
    by (auto simp: om_inv_def inv_defs clear_deferred_def order_at_def)
qed

text \<open>Index entries for an order that is in the table.\<close>

lemma om_inv_index:
  assumes "om_inv s"
  shows "k < length (om_orders s) \<Longrightarrow> om_inv (s\<lparr>om_by_exchange_id := (om_by_exchange_id s)(x \<mapsto> k)\<rparr>)"
    "k < length (om_orders s) \<Longrightarrow> om_inv (s\<lparr>om_by_exchange_id := ((om_by_exchange_id s)(y := None))(x \<mapsto> k)\<rparr>)"
    "k < length (om_orders s) \<Longrightarrow> om_inv (s\<lparr>om_by_client_id := ((om_by_client_id s)(y := None))(x \<mapsto> k)\<rparr>)"
  using assms by (auto simp: om_inv_def inv_defs order_at_def)

lemma om_inv_logical: "om_inv s \<Longrightarrow> om_by_logical_id s l = Some k \<Longrightarrow> k < length (om_orders s)"
  by (auto simp: om_inv_def tables_ok_def split: if_splits)

lemma om_inv_put_same:
  "om_inv s \<Longrightarrow> same_order (order_at s i) o2 \<Longrightarrow> od_state o2 = od_state (order_at s i) \<Longrightarrow>
     od_seen_trades o2 = od_seen_trades (order_at s i) \<Longrightarrow> om_inv (put_order i o2 s)"
  by (rule om_inv_touch) (simp_all add: od_touch_def)

lemma om_inv_learn:
  assumes "om_inv s"
  shows "om_inv (learn_exchange_id x i s)"
proof -
  let ?t = "put_order i ((order_at s i)\<lparr>od_exchange_order_id := x\<rparr>) s"
  have t: "om_inv ?t" using assms by (rule om_inv_put_same) (simp_all add: same_order_def)
  have "om_inv (?t\<lparr>om_by_exchange_id := (om_by_exchange_id ?t)(x \<mapsto> k)\<rparr>)" if "om_by_logical_id ?t l = Some k" for k l
    by (rule om_inv_index(1) [OF t om_inv_logical [OF t that]])
  with t assms show ?thesis by (auto simp: learn_exchange_id_def Let_def split: option.splits)
qed

lemma om_inv_adopt:
  assumes "om_inv s" "\<And>k. it = Some k \<Longrightarrow> k < length (om_orders s)"
  shows "om_inv (adopt_client_id it i s)" "om_inv (adopt_exchange_id x it i s)"
  using assms om_inv_index(2,3) [OF assms(1)]
  by (auto simp: adopt_client_id_def adopt_exchange_id_def Let_def same_order_def
           split: option.splits intro!: om_inv_put_same)

lemma om_inv_adopt_replace:
  assumes "om_inv s"
  shows "om_inv (adopt_replace x i s)"
proof -
  define it where "it = om_by_logical_id s (od_logical_id (order_at s i))"
  have it: "k < length (om_orders s)" if "it = Some k" for k using om_inv_logical [OF assms] that by (simp add: it_def)
  define s1 where "s1 = adopt_client_id it i s"
  define s2 where "s2 = put_order i ((order_at s1 i)\<lparr>od_price := od_pending_price (order_at s1 i),
                          od_original_quantity := od_pending_quantity (order_at s1 i)\<rparr>) s1"
  define s3 where "s3 = adopt_exchange_id x it i s2"
  have len: "length (om_orders s2) = length (om_orders s)"
    by (simp add: s2_def s1_def adopt_client_id_def Let_def split: option.splits)
  have "om_inv s1" unfolding s1_def using assms it by (rule om_inv_adopt)
  then have "om_inv s2" unfolding s2_def by (rule om_inv_put_same) (simp_all add: same_order_def)
  then have "om_inv s3" unfolding s3_def using it len by (intro om_inv_adopt) simp_all
  then have "om_inv (put_order i ((order_at s3 i)\<lparr>od_pending_client_order_id := [], od_pending_request := 0\<rparr>) s3)"
    by (rule om_inv_put_same) (simp_all add: same_order_def)
  then show ?thesis by (simp add: adopt_replace_def Let_def it_def s1_def s2_def s3_def)
qed

lemma om_inv_resolved:
  assumes "om_inv s" "i < length (om_orders s)" "order_legal_transition (od_state (order_at s i)) st"
  shows "om_inv (journal_event n OeReconciliationResolved (resolve_order n st (order_at s i)) (od_state (order_at s i)) st
           (put_order i (resolve_order n st (order_at s i)) s))"
proof -
  let ?o = "resolve_order n st (order_at s i)"
  have o: "od_logical_id ?o = od_logical_id (order_at s i)" "od_seen_trades ?o = od_seen_trades (order_at s i)" "od_state ?o = st"
    by (simp_all add: resolve_order_def)
  show ?thesis by (rule om_inv_move [OF assms(1,2) o(1,2)])
qed

lemma om_inv_noted:
  assumes "om_inv s" "i < length (om_orders s)"
  shows "om_inv (journal_event n OeReconciliationDetected (order_at s i) (od_state (order_at s i)) (od_state (order_at s i)) s)"
proof -
  have "put_order i (order_at s i) s = s" by (simp add: put_order_def order_at_def)
  then show ?thesis
    using om_inv_move [OF assms, of "order_at s i" n OeReconciliationDetected] by simp
qed

lemma om_inv_queue:
  assumes "om_inv s"
  shows "om_inv (s\<lparr>om_queue := fst (try_push (om_queue s) ev)\<rparr>)" "om_inv (s\<lparr>om_queue := fst (try_pop (om_queue s))\<rparr>)"
  using assms spsc.push_inv [of "om_queue s" ev] spsc.pop_inv [of "om_queue s"]
  by (auto simp: om_inv_def inv_defs order_at_def)


lemma om_inv_fields:
  "om_inv s \<Longrightarrow> om_inv (s\<lparr>om_next_request_id := k\<rparr>)" "om_inv s \<Longrightarrow> om_inv (s\<lparr>om_id_generator := g\<rparr>)"
  "om_inv s \<Longrightarrow> om_inv (s\<lparr>om_sent := cs\<rparr>)" "om_inv s \<Longrightarrow> om_inv (s\<lparr>om_dropped_events := k\<rparr>)"
  "om_inv s \<Longrightarrow> om_inv (s\<lparr>om_attached := b\<rparr>)"
  by (rule iffD2 [OF om_inv_cong [where s = s]]; simp)+

lemma om_inv_ranges:
  "om_inv s \<Longrightarrow> om_by_client_id s c = Some i \<Longrightarrow> i < length (om_orders s)"
  "om_inv s \<Longrightarrow> om_by_exchange_id s c = Some i \<Longrightarrow> i < length (om_orders s)"
  by (auto simp: om_inv_def tables_ok_def)

lemma om_inv_deferred_new:
  "om_inv s \<Longrightarrow> k < length (om_deferred s) \<Longrightarrow> dn_present (om_deferred s ! k) \<Longrightarrow>
     oa_type (dn_action (om_deferred s ! k)) = ActNew"
  by (simp add: om_inv_def deferred_ok_def)

lemmas om_inv_steps = om_inv_metric om_inv_reject om_inv_quarantine om_inv_touch om_inv_transition om_inv_insert
  om_inv_fill om_inv_clear om_inv_learn om_inv_adopt_replace om_inv_resolved om_inv_noted om_inv_queue om_inv_fields
  om_inv_logical om_inv_ranges om_inv_deferred_new

interpretation table: oms_preserved om_inv "\<lambda>_. True"
  by unfold_locales (simp_all add: om_inv_steps)

section \<open>The journal\<close>

text \<open>The journal since some point together with the states then replays to the states now.\<close>

definition tracked :: "OrderState list \<Rightarrow> OrderJournalRecord list \<Rightarrow> OrderManager \<Rightarrow> bool" where
  "tracked bs pre s \<longleftrightarrow> om_inv s \<and> chained bs pre (states s) (om_journal s)"

lemma tracked_start: "om_inv s \<Longrightarrow> tracked (states s) (om_journal s) s"
  by (simp add: tracked_def chained_def own_records_def base_state_def)

lemma tracked_cong:
  "tracked bs pre s \<Longrightarrow> om_inv t \<Longrightarrow> states t = states s \<Longrightarrow> om_journal t = om_journal s \<Longrightarrow> tracked bs pre t"
  by (simp add: tracked_def)

lemma states_cong: "om_orders t = om_orders s \<Longrightarrow> states t = states s"
  by (simp add: states_def)

lemma states_put: "od_state o2 = od_state (order_at s i) \<Longrightarrow> states (put_order i o2 s) = states s"
  by (rule nth_equalityI; cases "i < length (om_orders s)")
     (auto simp: states_def put_order_def order_at_def nth_list_update list_update_beyond)

lemma journal_put [simp]: "om_journal (put_order i o2 s) = om_journal s"
  by (simp add: put_order_def)

lemma states_adopt [simp]:
  "states (learn_exchange_id x i s) = states s" "om_journal (learn_exchange_id x i s) = om_journal s"
  "states (adopt_client_id it i s) = states s" "om_journal (adopt_client_id it i s) = om_journal s"
  "states (adopt_exchange_id x it i s) = states s" "om_journal (adopt_exchange_id x it i s) = om_journal s"
proof -
  have "states (s\<lparr>om_by_exchange_id := m\<rparr>) = states s" "states (s\<lparr>om_by_client_id := m\<rparr>) = states s" for s m
    by (simp_all add: states_def)
  then show "states (learn_exchange_id x i s) = states s" "om_journal (learn_exchange_id x i s) = om_journal s"
    "states (adopt_client_id it i s) = states s" "om_journal (adopt_client_id it i s) = om_journal s"
    "states (adopt_exchange_id x it i s) = states s" "om_journal (adopt_exchange_id x it i s) = om_journal s"
    by (simp_all add: learn_exchange_id_def adopt_client_id_def adopt_exchange_id_def Let_def states_put split: option.splits)
qed

lemma states_adopt_replace [simp]:
  "states (adopt_replace x i s) = states s" "om_journal (adopt_replace x i s) = om_journal s"
  by (simp_all add: adopt_replace_def Let_def states_put)

text \<open>One more record.\<close>

lemma chained_move:
  assumes ch: "chained bs pre sts js" and i: "i < length sts" and r: "jr_logical_id r = Suc i" "jr_type r \<noteq> OeEventQuarantined"
    "jr_from_state r = sts ! i" "order_legal_transition (sts ! i) (jr_to_state r)"
  shows "chained bs pre (sts[i := jr_to_state r]) (js @ [r])"
proof -
  obtain new where new: "js = pre @ new" and len: "length bs \<le> length sts"
    and rep: "\<And>k. k < length sts \<Longrightarrow> replay (base_state bs k) (own_records (Suc k) new) = Some (sts ! k)"
    using ch by (auto simp: chained_def)
  have "replay (base_state bs k) (own_records (Suc k) (new @ [r])) = Some (sts[i := jr_to_state r] ! k)" if "k < length sts" for k
    using that rep [OF that] r i by (cases "k = i") (auto simp: own_records_def replay_append)
  then show ?thesis using len new by (auto simp: chained_def intro!: exI [of _ "new @ [r]"])
qed

lemma chained_quarantine:
  assumes "chained bs pre sts js" "jr_type r = OeEventQuarantined"
  shows "chained bs pre sts (js @ [r])"
  using assms by (fastforce simp: chained_def own_records_def)

lemma tracked_move:
  assumes tr: "tracked bs pre s" and i: "i < length (om_orders s)"
    and o2: "od_logical_id o2 = od_logical_id (order_at s i)" "od_seen_trades o2 = od_seen_trades (order_at s i)"
    and legal: "order_legal_transition (od_state (order_at s i)) (od_state o2)" and e: "e \<noteq> OeEventQuarantined"
  shows "tracked bs pre (journal_event n e o2 (od_state (order_at s i)) (od_state o2) (put_order i o2 s))"
proof -
  let ?t = "journal_event n e o2 (od_state (order_at s i)) (od_state o2) (put_order i o2 s)"
  have inv: "om_inv s" and ch: "chained bs pre (states s) (om_journal s)" using tr by (simp_all add: tracked_def)
  have l: "od_logical_id (order_at s i) = Suc i" using inv i by (simp add: om_inv_def tables_ok_def)
  obtain r where j: "om_journal ?t = om_journal s @ [r]" and r: "jr_logical_id r = Suc i"
    "jr_type r \<noteq> OeEventQuarantined" "jr_from_state r = states s ! i" "jr_to_state r = od_state o2"
    using e i by (simp add: journal_event_def append_record_def put_order_def o2 l [unfolded order_at_def] Let_def states_def order_at_def)
  have "order_legal_transition (states s ! i) (jr_to_state r)" "i < length (states s)"
    using legal i r(4) by (simp_all add: states_def order_at_def)
  from chained_move [OF ch this(2) r(1-3) this(1)] have "chained bs pre (states ?t) (om_journal ?t)"
    by (simp add: j r(4)) (simp add: states_def put_order_def map_update)
  then show ?thesis using om_inv_move [OF inv i o2] by (simp add: tracked_def)
qed

lemma tracked_transition:
  assumes "tracked bs pre s" "i < length (om_orders s)" "e \<noteq> OeEventQuarantined"
  shows "tracked bs pre (om_transition n i t e d s)"
proof (cases "order_legal_transition (od_state (order_at s i)) t")
  case False
  then have st: "states (om_transition n i t e d s) = states s" by (simp add: om_transition_def Let_def states_def)
  obtain r where j: "om_journal (om_transition n i t e d s) = om_journal s @ [r]" "jr_type r = OeEventQuarantined"
    using False by (simp add: om_transition_def Let_def append_record_def)
  have "chained bs pre (states s) (om_journal s @ [r])"
    using assms(1) j(2) by (simp add: tracked_def chained_quarantine)
  then show ?thesis using om_inv_transition [of s i e n t d] assms by (simp add: tracked_def st j(1))
next
  case True
  let ?o = "enter_state n t (order_at s i)"
  have o: "od_logical_id ?o = od_logical_id (order_at s i)" "od_seen_trades ?o = od_seen_trades (order_at s i)" "od_state ?o = t"
    by (simp_all add: enter_state_def)
  have mv: "tracked bs pre (journal_event n e ?o (od_state (order_at s i)) t (put_order i ?o s))"
    using tracked_move [OF assms(1,2) o(1,2) _ assms(3)] True o(3) by simp
  have "om_orders (om_transition n i t e d s) = om_orders (journal_event n e ?o (od_state (order_at s i)) t (put_order i ?o s))"
    "om_journal (om_transition n i t e d s) = om_journal (journal_event n e ?o (od_state (order_at s i)) t (put_order i ?o s))"
    using True by (simp_all add: om_transition_def Let_def journal_event_def append_record_def put_order_def count_metric_def)
  then show ?thesis using mv om_inv_transition [of s i e n t d] assms tracked_cong states_cong by (metis tracked_def)
qed

lemma tracked_insert:
  assumes tr: "tracked bs pre s" and room: "length (om_orders s) < oc_max_orders (om_config s)"
    and new: "om_by_client_id s c = None"
  shows "tracked bs pre (insert_order n a c s)"
proof -
  let ?t = "insert_order n a c s" and ?k = "length (om_orders s)"
  have inv: "om_inv s" using tr by (simp add: tracked_def)
  have next_l: "inc64 (om_next_logical_id s) = Suc ?k"
    using inv room by (simp add: om_inv_def tables_ok_def inc64_less)
  obtain r where j: "om_journal ?t = om_journal s @ [r]" and r: "jr_logical_id r = Suc ?k" "jr_type r = OeCreated"
    "jr_from_state r = Created" "jr_to_state r = Created"
    by (simp add: insert_order_def journal_event_def append_record_def next_l fresh_order_def count_metric_def Let_def)
  have st: "states ?t = states s @ [Created]" by (simp add: states_def insert_order_def Let_def fresh_order_def)
  have [simp]: "length (states s) = ?k" by (simp add: states_def)
  obtain rs where rs: "om_journal s = pre @ rs" and len: "length bs \<le> ?k"
    and rep: "\<And>i. i < ?k \<Longrightarrow> replay (base_state bs i) (own_records (Suc i) rs) = Some (states s ! i)"
    using tr by (auto simp: tracked_def chained_def)
  have "own_records (Suc ?k) rs = []"
    using inv rs by (fastforce simp: own_records_def om_inv_def journal_ok_def filter_empty_conv)
  then have "replay (base_state bs i) (own_records (Suc i) (rs @ [r])) = Some (states ?t ! i)" if "i < Suc ?k" for i
    using that len r rep [of i]
    by (cases "i = ?k") (simp_all add: own_records_def base_state_def st nth_append order_legal_transition_def)
  then have "chained bs pre (states ?t) (om_journal ?t)"
    using len rs j by (auto simp: chained_def st intro!: exI [of _ "rs @ [r]"])
  then show ?thesis using om_inv_insert [OF inv room new] by (simp add: tracked_def)
qed

lemma tracked_quarantine:
  assumes "tracked bs pre s" "jr_type j = OeEventQuarantined"
  shows "tracked bs pre (append_record j s)"
proof -
  obtain r where r: "om_journal (append_record j s) = om_journal s @ [r]" "jr_type r = OeEventQuarantined"
    using assms(2) by (simp add: append_record_def Let_def)
  have "chained bs pre (states s) (om_journal s @ [r])"
    using assms(1) r(2) by (simp add: tracked_def chained_quarantine)
  then show ?thesis using assms om_inv_quarantine r(1) by (simp add: tracked_def states_def)
qed

interpretation history: oms_preserved "tracked bs pre" "\<lambda>_. True" for bs pre
proof unfold_locales
  fix s m r j k i o2 n t e d c and a :: OrderAction and l x st ev
  assume g: "tracked bs pre s"
  then have inv: "om_inv s" by (simp add: tracked_def)
  note cong = tracked_cong [OF g]
  show "om_by_client_id s c = Some i \<Longrightarrow> i < length (om_orders s)"
    "om_by_exchange_id s c = Some i \<Longrightarrow> i < length (om_orders s)"
    "om_by_logical_id s l = Some i \<Longrightarrow> i < length (om_orders s)"
    by (rule om_inv_ranges [OF inv] om_inv_logical [OF inv], assumption)+
  show "tracked bs pre (count_metric m s)" "tracked bs pre (record_reject r s)" "tracked bs pre (s\<lparr>om_next_request_id := k\<rparr>)"
    "tracked bs pre (s\<lparr>om_id_generator := fst (next_id (om_id_generator s))\<rparr>)" "tracked bs pre (s\<lparr>om_dropped_events := k\<rparr>)"
    "tracked bs pre (s\<lparr>om_queue := fst (try_push (om_queue s) ev)\<rparr>)" "tracked bs pre (s\<lparr>om_queue := fst (try_pop (om_queue s))\<rparr>)"
    "tracked bs pre (s\<lparr>om_sent := om_sent s @ [VcSubmit (order_request n (fresh_order n a c l k))]\<rparr>)"
    "tracked bs pre (s\<lparr>om_sent := om_sent s @ [VcCancel (cancel_request n o2)]\<rparr>)"
    "tracked bs pre (s\<lparr>om_sent := om_sent s @ [VcReplace (replace_request n o2 a c)]\<rparr>)"
    using inv by (auto intro!: cong states_cong simp: om_inv_steps)
  show "od_touch (order_at s i) o2 \<Longrightarrow> tracked bs pre (put_order i o2 s)"
    "tracked bs pre (learn_exchange_id x i s)" "tracked bs pre (adopt_replace x i s)"
    using inv by (auto intro!: cong simp: om_inv_steps states_put dest: od_touchD)
  show "oa_type a = ActNew \<Longrightarrow> find_index (\<lambda>d. \<not> dn_present d) (om_deferred s) = Some k \<Longrightarrow> tracked bs pre (fill_deferred k a l s)"
    using om_inv_fill [OF inv] by (auto intro!: cong simp: fill_deferred_def states_def)
  show "k < length (om_deferred s) \<Longrightarrow> dn_present (om_deferred s ! k) \<Longrightarrow> tracked bs pre (clear_deferred k s) \<and> True
      \<and> oa_type (dn_action (om_deferred s ! k)) = ActNew"
    using om_inv_clear [OF inv] om_inv_deferred_new [OF inv] by (auto intro!: cong simp: clear_deferred_def states_def)
  show "i < length (om_orders s) \<Longrightarrow> order_legal_transition (od_state (order_at s i)) st \<Longrightarrow>
      tracked bs pre (journal_event n OeReconciliationResolved (resolve_order n st (order_at s i)) (od_state (order_at s i)) st
           (put_order i (resolve_order n st (order_at s i)) s))"
    using tracked_move [OF g, of i "resolve_order n st (order_at s i)" OeReconciliationResolved n] by simp
  have "put_order i (order_at s i) s = s" by (simp add: put_order_def order_at_def)
  then show "i < length (om_orders s) \<Longrightarrow>
      tracked bs pre (journal_event n OeReconciliationDetected (order_at s i) (od_state (order_at s i)) (od_state (order_at s i)) s)"
    using tracked_move [OF g, of i "order_at s i" OeReconciliationDetected n] by (simp add: order_legal_transition_def)
qed (auto simp: tracked_transition tracked_insert tracked_quarantine)

section \<open>The approval invariant\<close>

text \<open>
  Where a venue call comes from: an action of the right kind with the same economic content. A cancel or a replace is
  sent for an order that an action for a new order created, by the same strategy if the action names one.
\<close>

definition created_by :: "(OrderAction \<Rightarrow> bool) \<Rightarrow> string \<Rightarrow> string \<Rightarrow> symbol_id \<Rightarrow> bool" where
  "created_by ok strategy symbol sid \<longleftrightarrow>
     (\<exists>b. ok b \<and> oa_type b = ActNew \<and> oa_symbol b = symbol \<and> oa_symbol_id b = sid
        \<and> (strategy = [] \<or> si_name (oa_identity b) = strategy))"

fun call_from :: "(OrderAction \<Rightarrow> bool) \<Rightarrow> VenueCall \<Rightarrow> bool" where
  "call_from ok (VcSubmit r) = (\<exists>a. ok a \<and> oa_type a = ActNew \<and> or_symbol r = oa_symbol a
     \<and> or_symbol_id r = oa_symbol_id a \<and> or_side r = oa_side a \<and> or_type r = Limit
     \<and> or_price r = oa_price a \<and> or_quantity r = oa_quantity a)"
| "call_from ok (VcCancel r) = (\<exists>a. ok a \<and> oa_type a = ActCancel
     \<and> created_by ok (si_name (oa_identity a)) (cr_symbol r) (cr_symbol_id r))"
| "call_from ok (VcReplace r) = (\<exists>a. ok a \<and> oa_type a = ActReplace \<and> rr_new_price r = oa_price a
     \<and> rr_new_quantity r = oa_quantity a \<and> created_by ok (si_name (oa_identity a)) (rr_symbol r) (rr_symbol_id r))"

definition born :: "(OrderAction \<Rightarrow> bool) \<Rightarrow> OrderRecord \<Rightarrow> bool" where
  "born ok o1 \<longleftrightarrow> (\<exists>b. ok b \<and> oa_type b = ActNew \<and> oa_symbol b = od_symbol o1 \<and> oa_symbol_id b = od_symbol_id o1
     \<and> si_name (oa_identity b) = oo_strategy (od_ownership o1))"

definition gated :: "(OrderAction \<Rightarrow> bool) \<Rightarrow> OrderManager \<Rightarrow> bool" where
  "gated ok s \<longleftrightarrow> om_inv s \<and> (\<forall>d\<in>set (om_deferred s). dn_present d \<longrightarrow> ok (dn_action d))
     \<and> (\<forall>c\<in>set (om_sent s). call_from ok c) \<and> (\<forall>o1\<in>set (om_orders s). born ok o1)"

lemma born_same: "born ok o1 \<Longrightarrow> same_order o1 o2 \<Longrightarrow> born ok o2"
  by (simp add: born_def same_order_def)

lemma created_by_owner: "born ok o1 \<Longrightarrow> \<not> not_owner a o1 \<Longrightarrow> created_by ok (si_name (oa_identity a)) (od_symbol o1) (od_symbol_id o1)"
  by (auto simp: born_def created_by_def not_owner_def ownership_matches_def)

text \<open>The order at a position stays the same order.\<close>

definition same_orders :: "OrderManager \<Rightarrow> OrderManager \<Rightarrow> bool" where
  "same_orders s t \<longleftrightarrow> length (om_orders t) = length (om_orders s)
     \<and> (\<forall>i < length (om_orders s). same_order (order_at s i) (order_at t i))"

lemma same_orders_same: "om_orders t = om_orders s \<Longrightarrow> same_orders s t"
  by (simp add: same_orders_def order_at_def same_order_def)

lemma same_orders_trans: "same_orders s t \<Longrightarrow> same_orders t u \<Longrightarrow> same_orders s u"
  by (auto simp: same_orders_def same_order_def)

lemma same_orders_put: "(i < length (om_orders s) \<Longrightarrow> same_order (order_at s i) o2) \<Longrightarrow> same_orders s (put_order i o2 s)"
  by (auto simp: same_orders_def same_order_def)

lemma same_orders_via:
  "same_order (order_at s i) o2 \<Longrightarrow> om_orders u = om_orders (put_order i o2 s) \<Longrightarrow> same_orders s u"
  using same_orders_trans [OF same_orders_put same_orders_same] by blast

lemma same_orders_transition: "same_orders s (om_transition n i t e d s)"
  by (auto simp: same_orders_def order_at_transition same_order_def enter_state_def)

lemma same_orders_adopt:
  "same_orders s (learn_exchange_id x i s)" "same_orders s (adopt_client_id it i s)" "same_orders s (adopt_exchange_id y it i s)"
proof -
  have [simp]: "same_orders s s" by (simp add: same_orders_same)
  show "same_orders s (learn_exchange_id x i s)"
    by (auto simp: learn_exchange_id_def Let_def same_order_def put_order_def split: option.splits
        intro!: same_orders_via [of s i "(order_at s i)\<lparr>od_exchange_order_id := x\<rparr>"])
  show "same_orders s (adopt_client_id it i s)"
    by (auto simp: adopt_client_id_def Let_def same_order_def put_order_def split: option.splits
        intro!: same_orders_via [of s i "(order_at s i)\<lparr>od_client_order_id := od_pending_client_order_id (order_at s i)\<rparr>"])
  show "same_orders s (adopt_exchange_id y it i s)"
    by (auto simp: adopt_exchange_id_def Let_def same_order_def put_order_def split: option.splits
        intro!: same_orders_via [of s i "(order_at s i)\<lparr>od_exchange_order_id := y\<rparr>"])
qed

lemma same_orders_adopt_replace: "same_orders s (adopt_replace x i s)"
proof -
  define it where "it = om_by_logical_id s (od_logical_id (order_at s i))"
  define s1 where "s1 = adopt_client_id it i s"
  define s2 where "s2 = put_order i ((order_at s1 i)\<lparr>od_price := od_pending_price (order_at s1 i),
                          od_original_quantity := od_pending_quantity (order_at s1 i)\<rparr>) s1"
  define s3 where "s3 = adopt_exchange_id x it i s2"
  have "same_orders s s1" "same_orders s1 s2" "same_orders s2 s3"
    unfolding s1_def s2_def s3_def by (simp_all add: same_orders_adopt) (simp add: same_orders_put same_order_def)
  moreover have "same_orders s3 (put_order i ((order_at s3 i)\<lparr>od_pending_client_order_id := [], od_pending_request := 0\<rparr>) s3)"
    by (simp add: same_orders_put same_order_def)
  ultimately have "same_orders s (put_order i ((order_at s3 i)\<lparr>od_pending_client_order_id := [], od_pending_request := 0\<rparr>) s3)"
    using same_orders_trans by blast
  then show ?thesis by (simp add: adopt_replace_def Let_def it_def s1_def s2_def s3_def)
qed

lemma born_all:
  assumes "\<forall>o1\<in>set (om_orders s). born ok o1" "same_orders s t"
  shows "\<forall>o1\<in>set (om_orders t). born ok o1"
proof
  fix o1
  assume "o1 \<in> set (om_orders t)"
  then obtain i where i: "i < length (om_orders s)" "o1 = order_at t i"
    using assms(2) by (auto simp: in_set_conv_nth same_orders_def order_at_def)
  then have "born ok (order_at s i)" "same_order (order_at s i) o1" using assms by (simp_all add: order_at_def same_orders_def)
  then show "born ok o1" by (rule born_same)
qed

lemma gated_cong:
  "gated ok s \<Longrightarrow> om_inv t \<Longrightarrow> om_deferred t = om_deferred s \<Longrightarrow> om_sent t = om_sent s \<Longrightarrow> same_orders s t \<Longrightarrow> gated ok t"
  using born_all [of s ok t] by (simp add: gated_def)

lemma gated_inv: "gated ok s \<Longrightarrow> om_inv s"
  by (simp add: gated_def)

lemma gated_call:
  "gated ok s \<Longrightarrow> call_from ok c \<Longrightarrow> gated ok (s\<lparr>om_sent := om_sent s @ [c]\<rparr>)"
  by (auto simp: gated_def om_inv_fields)

lemma call_from_requests:
  "ok a \<Longrightarrow> oa_type a = ActNew \<Longrightarrow> call_from ok (VcSubmit (order_request n (fresh_order n a c l k)))"
  "ok a \<Longrightarrow> oa_type a = ActCancel \<Longrightarrow> born ok o1 \<Longrightarrow> \<not> not_owner a o1 \<Longrightarrow> call_from ok (VcCancel (cancel_request n o1))"
  "ok a \<Longrightarrow> oa_type a = ActReplace \<Longrightarrow> born ok o1 \<Longrightarrow> \<not> not_owner a o1 \<Longrightarrow> call_from ok (VcReplace (replace_request n o1 a c))"
  by (auto simp: order_request_def fresh_order_def replace_request_def cancel_request_def dest: created_by_owner)

lemma gated_born: "gated ok s \<Longrightarrow> i < length (om_orders s) \<Longrightarrow> same_order (order_at s i) o1 \<Longrightarrow> born ok o1"
  by (rule born_same [of ok "order_at s i"]) (simp_all add: gated_def order_at_def)

lemma gated_insert:
  assumes "gated ok s" "ok a" "oa_type a = ActNew" "om_inv (insert_order n a c s)"
  shows "gated ok (insert_order n a c s)"
proof -
  have "born ok (fresh_order n a c l k)" for l k using assms(2,3) by (auto simp: born_def fresh_order_def)
  moreover obtain l k where "om_orders (insert_order n a c s) = om_orders s @ [fresh_order n a c l k]"
    by (simp add: insert_order_def Let_def)
  ultimately show ?thesis using assms by (simp add: gated_def insert_order_def Let_def)
qed

lemma gated_deferred:
  "gated ok s \<Longrightarrow> ok a \<Longrightarrow> oa_type a = ActNew \<Longrightarrow> find_index (\<lambda>d. \<not> dn_present d) (om_deferred s) = Some k \<Longrightarrow>
     gated ok (fill_deferred k a l s)"
  using om_inv_fill [of s k a l] set_update_subset_insert [of "om_deferred s" k "\<lparr>dn_present = True, dn_action = a, dn_waiting_on = l\<rparr>"]
  by (auto simp: gated_def) (auto simp: fill_deferred_def)

lemma gated_cleared:
  "gated ok s \<Longrightarrow> k < length (om_deferred s) \<Longrightarrow> dn_present (om_deferred s ! k) \<Longrightarrow>
     gated ok (clear_deferred k s) \<and> ok (dn_action (om_deferred s ! k)) \<and> oa_type (dn_action (om_deferred s ! k)) = ActNew"
  using om_inv_clear [of s k] om_inv_deferred_new [of s k]
    set_update_subset_insert [of "om_deferred s" k "(om_deferred s ! k)\<lparr>dn_present := False, dn_waiting_on := 0\<rparr>"]
  by (auto simp: gated_def) (auto simp: clear_deferred_def)

lemma frame_learn_adopt [simp]:
  "om_deferred (learn_exchange_id x i s) = om_deferred s" "om_sent (learn_exchange_id x i s) = om_sent s"
  "om_deferred (adopt_replace x i s) = om_deferred s" "om_sent (adopt_replace x i s) = om_sent s"
  by (simp_all add: learn_exchange_id_def adopt_replace_def adopt_client_id_def adopt_exchange_id_def Let_def
      split: option.splits)

lemma frame_insert [simp]:
  "om_deferred (insert_order n a c s) = om_deferred s" "om_sent (insert_order n a c s) = om_sent s"
  by (simp_all add: insert_order_def Let_def)

interpretation approval: oms_preserved "gated ok" ok for ok
proof unfold_locales
  fix s m r j k i o2 n t e d c and a :: OrderAction and l x st ev
  assume g: "gated ok s"
  note inv = gated_inv [OF g]
  note cong = gated_cong [OF g]
  show "om_by_client_id s c = Some i \<Longrightarrow> i < length (om_orders s)"
    "om_by_exchange_id s c = Some i \<Longrightarrow> i < length (om_orders s)"
    "om_by_logical_id s l = Some i \<Longrightarrow> i < length (om_orders s)"
    by (rule om_inv_ranges [OF inv] om_inv_logical [OF inv], assumption)+
  show "gated ok (count_metric m s)" "gated ok (record_reject r s)" "gated ok (s\<lparr>om_next_request_id := k\<rparr>)"
    "gated ok (s\<lparr>om_id_generator := fst (next_id (om_id_generator s))\<rparr>)" "gated ok (s\<lparr>om_dropped_events := k\<rparr>)"
    "gated ok (s\<lparr>om_queue := fst (try_push (om_queue s) ev)\<rparr>)" "gated ok (s\<lparr>om_queue := fst (try_pop (om_queue s))\<rparr>)"
    "jr_type j = OeEventQuarantined \<Longrightarrow> gated ok (append_record j s)"
    "i < length (om_orders s) \<Longrightarrow>
      gated ok (journal_event n OeReconciliationDetected (order_at s i) (od_state (order_at s i)) (od_state (order_at s i)) s)"
    using inv by (auto intro!: cong same_orders_same simp: om_inv_steps)
  show "i < length (om_orders s) \<Longrightarrow> order_legal_transition (od_state (order_at s i)) st \<Longrightarrow>
      gated ok (journal_event n OeReconciliationResolved (resolve_order n st (order_at s i)) (od_state (order_at s i)) st
           (put_order i (resolve_order n st (order_at s i)) s))"
    using om_inv_resolved [OF inv] by (auto intro!: cong same_orders_via [of s i "resolve_order n st (order_at s i)"])
  show "od_touch (order_at s i) o2 \<Longrightarrow> gated ok (put_order i o2 s)"
    using inv by (auto intro!: cong same_orders_put simp: om_inv_touch) (simp add: od_touch_def)
  show "i < length (om_orders s) \<Longrightarrow> e \<noteq> OeEventQuarantined \<Longrightarrow> gated ok (om_transition n i t e d s)"
    "gated ok (learn_exchange_id x i s)" "gated ok (adopt_replace x i s)"
    using inv by (auto intro!: cong simp: om_inv_steps same_orders_transition same_orders_adopt same_orders_adopt_replace)
  show "ok a \<Longrightarrow> oa_type a = ActNew \<Longrightarrow> length (om_orders s) < oc_max_orders (om_config s) \<Longrightarrow> om_by_client_id s c = None \<Longrightarrow>
      gated ok (insert_order n a c s)"
    using gated_insert [OF g] om_inv_insert [OF inv] by blast
qed (auto intro: gated_call call_from_requests gated_deferred gated_born simp: gated_cleared)

end
