(* ===== verification/OmsProperties.thy ===== *)
theory OmsProperties
  imports OmsInvariant
begin

text \<open>
  The properties of the order manager over sequences of calls: approval, tables, timeouts, fills, the exposure it
  reports, reconciliation and recovery. The calls are those of a session; \<open>restore\<close>, which the source allows only
  while the table is empty, is the subject of the section on recovery, and sessions that begin with it are in
  \<open>OmsHistory\<close>.
\<close>

section \<open>Sequences of calls\<close>

datatype OmsCommand =
    CmAttach | CmSubmit ApprovedAction | CmExecution ExecutionEvent | CmProcess | CmTimer
  | CmReconcile VenueSnapshot | CmResolve logical_order_id OrderState

fun om_do :: "adapter \<Rightarrow> OrderManager \<Rightarrow> nanos \<times> OmsCommand \<Rightarrow> OrderManager" where
  "om_do ex s (now, CmAttach) = attach_execution s"
| "om_do ex s (now, CmSubmit token) = fst (submit ex now token s)"
| "om_do ex s (now, CmExecution ev) = on_execution ev s"
| "om_do ex s (now, CmProcess) = fst (process_events ex (\<lambda>_. now) s)"
| "om_do ex s (now, CmTimer) = on_timer now s"
| "om_do ex s (now, CmReconcile snap) = fst (reconcile now snap s)"
| "om_do ex s (now, CmResolve l st) = fst (resolve ex now l st s)"

definition om_run :: "adapter \<Rightarrow> (nanos \<times> OmsCommand) list \<Rightarrow> OrderManager \<Rightarrow> OrderManager" where
  "om_run ex cs s = foldl (om_do ex) s cs"

lemma evolves_do: "evolves s (om_do ex s c)"
proof -
  have "evolves s (attach_execution s)" by (simp add: attach_execution_def evolves_def order_at_def)
  moreover obtain now cmd where "c = (now, cmd)" by (cases c)
  ultimately show ?thesis
    by (cases cmd) (simp_all add: evolves_submit evolves_on_execution evolves_drain process_events_def evolves_on_timer
        evolves_reconcile evolves_resolve del: drain.simps)
qed

lemma evolves_run: "evolves s (om_run ex cs s)"
  unfolding om_run_def by (rule evolves_foldl) (rule evolves_do)

lemma gated_do:
  assumes "gated ok s" "\<And>token. snd c = CmSubmit token \<Longrightarrow> aa_valid token \<Longrightarrow> ok (aa_action token)"
  shows "gated ok (om_do ex s c)"
proof -
  have "gated ok (attach_execution s)"
    using assms(1) om_inv_fields(5) [of s True] by (simp add: attach_execution_def gated_def)
  moreover obtain now cmd where "c = (now, cmd)" by (cases c)
  ultimately show ?thesis
    using assms
    by (cases cmd) (simp_all add: approval.submit_keeps approval.on_execution_keeps approval.process_events_keeps
        approval.on_timer_keeps approval.reconcile_keeps approval.resolve_keeps)
qed

lemma gated_run:
  assumes "gated ok s" "\<And>now token. (now, CmSubmit token) \<in> set cs \<Longrightarrow> aa_valid token \<Longrightarrow> ok (aa_action token)"
  shows "gated ok (om_run ex cs s)"
  unfolding om_run_def using assms
proof (induction cs arbitrary: s)
  case (Cons c cs)
  have "gated ok (om_do ex s c)" using Cons.prems by (intro gated_do) (cases c; auto)+
  from Cons.IH [OF this] Cons.prems(2) show ?case by auto
qed simp

lemma om_inv_new:
  assumes "oc_max_orders cfg < W64"
  shows "om_inv (new_oms cfg)"
proof -
  have "kQueueCapacity dvd W64" unfolding kQueueCapacity_def by (rule dvdI [of _ _ 18014398509481984]) simp
  then have "ring_inv (new_ring kQueueCapacity EvNone)"
    by (intro new_ring_inv) (simp_all add: kQueueCapacity_def)
  moreover have "filter dn_present (replicate n no_deferred) = []" for n
    by (simp add: no_deferred_def)
  ultimately show ?thesis
    using assms by (auto simp: om_inv_def inv_defs new_oms_def no_deferred_def sq_capacity_def new_ring_def)
qed

lemma gated_new: "oc_max_orders cfg < W64 \<Longrightarrow> gated ok (new_oms cfg)"
  using om_inv_new [of cfg] by (simp add: gated_def) (simp add: new_oms_def no_deferred_def)

lemma om_inv_run: "oc_max_orders cfg < W64 \<Longrightarrow> om_inv (om_run ex cs (new_oms cfg))"
  using gated_run [OF gated_new [of cfg "\<lambda>_. True"]] gated_inv by blast

section \<open>A small run\<close>

definition demo_config :: OmsConfig where
  "demo_config = \<lparr>oc_new_request_timeout_ns = 5000, oc_cancel_request_timeout_ns = 5000,
     oc_replace_request_timeout_ns = 5000, oc_reconciliation_timeout_ns = 30000, oc_client_id_prefix = ''mm'',
     oc_session_id = 7, oc_max_client_id_length = 36, oc_max_orders = 2\<rparr>"

definition demo_new :: OrderAction where
  "demo_new = default_action\<lparr>oa_type := ActNew, oa_symbol := ''BTC'', oa_price := 100, oa_quantity := 5,
     oa_identity := \<lparr>si_name = ''s'', si_version = 1, si_config_generation = 0\<rparr>\<rparr>"

definition demo_token :: ApprovedAction where
  "demo_token = \<lparr>aa_action = demo_new, aa_sequence = 1, aa_valid = True\<rparr>"

definition demo_calls :: "(nanos \<times> OmsCommand) list" where
  "demo_calls = [(10, CmAttach), (20, CmSubmit demo_token)]"

lemma demo_config_fits: "oc_max_orders demo_config < 2 ^ 64"
  by (simp add: demo_config_def)

lemma demo_id: "next_id (new_generator ''mm'' 7 36) = (\<lparr>ig_prefix = ''mm'', ig_session_id = 7, ig_sequence = 1, ig_max_length = 36, ig_generated = 1, ig_failures = 0\<rparr>, Some ''mm-7-1'')"
  by (simp add: next_id_def new_generator_def inline_assign_def inline_append_def encode_base36_def kDigits_def kClientIdCapacity_def inc64_def Let_def numeral_eq_Suc)

text \<open>The state after the run: one order, sent and waiting for its acknowledgement.\<close>

definition demo_state :: OrderManager where
  "demo_state = om_run (\<lambda>_ _. Ok) demo_calls (new_oms demo_config)"

definition demo_sent_order :: OrderRecord where
  "demo_sent_order = (fresh_order 20 demo_new ''mm-7-1'' 1 1)\<lparr>od_pending_request := 1, od_pending_since_ns := 20,
     od_sent_ns := 20, od_state := PendingNew\<rparr>"

lemmas oms_demo_defs = om_run_def demo_calls_def attach_execution_def submit_def demo_token_def handle_new_def
  find_slot_order_def insert_order_def send_new_def oms_next_request_id_def om_transition_def enter_state_def
  order_at_def put_order_def demo_new_def default_action_def no_result_def

lemma demo_state_orders: "om_orders demo_state = [demo_sent_order]"
  and demo_state_sent: "om_sent demo_state = [VcSubmit (order_request 20 (fresh_order 20 demo_new ''mm-7-1'' 1 1))]"
  and demo_state_client: "om_by_client_id demo_state = [''mm-7-1'' \<mapsto> 0]"
  by (simp_all add: demo_state_def demo_sent_order_def oms_demo_defs new_oms_def demo_config_def demo_id [simplified] Let_def
      fresh_order_def inc64_def order_legal_transition_def is_err_def)

section \<open>Approval and tables\<close>

text \<open>
  C3. Nothing reaches the venue without risk approval: starting from a fresh order manager, every order, cancel and
  replace request ever handed to the execution adapter comes from a submitted action of the same kind that carried a
  valid approval. A new order carries exactly the instrument, side, price and quantity of that approved action, also
  when it was held back behind a pending cancel. A replace carries exactly the approved price and quantity. A replace
  and a cancel go out for the instrument of an order that an approved new-order action created, an action of the same
  strategy whenever the replace or cancel names a strategy; the instrument the replacing action itself names is not
  compared with the order's.
\<close>

theorem nothing_sent_without_approval:
  assumes "oc_max_orders cfg < 2 ^ 64"
  shows "\<forall>c \<in> set (om_sent (om_run ex cs (new_oms cfg))).
    call_from (\<lambda>a. \<exists>now token. (now, CmSubmit token) \<in> set cs \<and> aa_valid token \<and> aa_action token = a) c"
proof -
  let ?ok = "\<lambda>a. \<exists>now token. (now, CmSubmit token) \<in> set cs \<and> aa_valid token \<and> aa_action token = a"
  have "gated ?ok (om_run ex cs (new_oms cfg))"
    by (rule gated_run [OF gated_new]) (use assms in auto)
  then show ?thesis by (simp add: gated_def)
qed

theorem nothing_sent_without_approval_witness:
  "VcSubmit (order_request 20 (fresh_order 20 demo_new ''mm-7-1'' 1 1)) \<in> set (om_sent demo_state)
   \<and> call_from (\<lambda>a. \<exists>now token. (now, CmSubmit token) \<in> set demo_calls \<and> aa_valid token \<and> aa_action token = a)
        (VcSubmit (order_request 20 (fresh_order 20 demo_new ''mm-7-1'' 1 1)))"
  using nothing_sent_without_approval [OF demo_config_fits, of "\<lambda>_ _. Ok" demo_calls]
  by (simp add: demo_state_def [symmetric] demo_state_sent del: call_from.simps)

text \<open>
  C22. The tables stay consistent: from a fresh order manager, under every sequence of calls, the table never exceeds
  its configured capacity, the logical id of an order is its position plus one and the logical index finds exactly
  that position, every entry of the client-id and exchange-id indices points into the table (no lookup reads past the
  vector), the count of deferred orders is the number of occupied entries, and at most 1024 events are queued.
\<close>

theorem oms_tables_consistent:
  assumes "oc_max_orders cfg < 2 ^ 64" and "s = om_run ex cs (new_oms cfg)"
  shows "length (om_orders s) \<le> oc_max_orders (om_config s)
    \<and> (\<forall>i < length (om_orders s). od_logical_id (order_at s i) = Suc i \<and> find_logical s (Suc i) = Some i)
    \<and> (\<forall>c i. find_client s c = Some i \<longrightarrow> i < length (om_orders s))
    \<and> (\<forall>x i. find_by_exchange_id s x = Some i \<longrightarrow> i < length (om_orders s))
    \<and> om_deferred_count s = length (filter dn_present (om_deferred s))
    \<and> size_approx (om_queue s) \<le> 1024"
proof -
  have inv: "om_inv s" using om_inv_run [of cfg ex cs] assms by simp
  have "size_approx (om_queue s) \<le> 1024"
    using inv spsc.bounded [of "om_queue s"] by (simp add: size_approx_length om_inv_def queue_ok_def kQueueCapacity_def)
  then show ?thesis
    using inv by (auto simp: om_inv_def tables_ok_def deferred_ok_def find_client_def find_logical_def find_by_exchange_id_def)
qed

theorem oms_tables_consistent_witness:
  "find_logical demo_state 1 = Some 0 \<and> find_client demo_state ''mm-7-1'' = Some 0"
  using oms_tables_consistent [OF demo_config_fits demo_state_def]
  by (simp add: demo_state_orders find_client_def demo_state_client)

section \<open>Timeouts\<close>

definition timed_out :: "OmsConfig \<Rightarrow> nanos \<Rightarrow> OrderRecord \<Rightarrow> OrderRecord" where
  "timed_out c now o1 =
     (if \<not> request_expired c now o1 then o1
      else if is_terminal (od_state o1) \<or> od_state o1 = Created then o1\<lparr>od_pending_request := 0\<rparr>
      else o1\<lparr>od_pending_request := 0, od_state := UnknownState\<rparr>)"

lemma legal_to_unknown: "order_legal_transition st UnknownState \<longleftrightarrow> st = UnknownState \<or> \<not> is_terminal st \<and> st \<noteq> Created"
  by (auto simp: order_legal_transition_def)

lemma time_out_orders:
  assumes "i < length (om_orders s)"
  shows "om_orders (time_out now s i) = (om_orders s)[i := timed_out (om_config s) now (order_at s i)]"
    and "om_config (time_out now s i) = om_config s" "om_sent (time_out now s i) = om_sent s"
    and "om_deferred (time_out now s i) = om_deferred s"
proof -
  have "order_at (time_out now s i) k = (if k = i then timed_out (om_config s) now (order_at s i) else order_at s k)" for k
    using assms by (auto simp: time_out_def Let_def timed_out_def order_at_transition enter_state_def legal_to_unknown)
  moreover have "length (om_orders (time_out now s i)) = length (om_orders s)" by (simp add: time_out_def Let_def)
  ultimately show "om_orders (time_out now s i) = (om_orders s)[i := timed_out (om_config s) now (order_at s i)]"
    by (intro nth_equalityI) (auto simp: order_at_def nth_list_update)
  show "om_config (time_out now s i) = om_config s" "om_sent (time_out now s i) = om_sent s"
    "om_deferred (time_out now s i) = om_deferred s"
    by (simp_all add: time_out_def Let_def)
qed

lemma on_timer_orders:
  "om_orders (on_timer now s) = map (timed_out (om_config s) now) (om_orders s)"
  "om_sent (on_timer now s) = om_sent s" "om_deferred (on_timer now s) = om_deferred s"
proof -
  let ?f = "timed_out (om_config s) now" and ?xs = "om_orders s"
  have "om_orders (foldl (time_out now) s [0..<k]) = map ?f (take k ?xs) @ drop k ?xs
      \<and> om_config (foldl (time_out now) s [0..<k]) = om_config s \<and> om_sent (foldl (time_out now) s [0..<k]) = om_sent s
      \<and> om_deferred (foldl (time_out now) s [0..<k]) = om_deferred s" if "k \<le> length ?xs" for k
    using that
  proof (induction k)
    case (Suc k)
    let ?t = "foldl (time_out now) s [0..<k]"
    have t: "om_orders ?t = map ?f (take k ?xs) @ drop k ?xs" "om_config ?t = om_config s" "om_sent ?t = om_sent s"
      "om_deferred ?t = om_deferred s" and k: "k < length ?xs"
      using Suc by auto
    then have len: "k < length (om_orders ?t)" by simp
    have "order_at ?t k = ?xs ! k" using k by (simp add: order_at_def t nth_append)
    then have "om_orders (time_out now ?t k) = map ?f (take (Suc k) ?xs) @ drop (Suc k) ?xs"
      using k by (simp add: time_out_orders [OF len] t list_update_append take_Suc_conv_app_nth Cons_nth_drop_Suc [symmetric])
    then show ?case using time_out_orders(2-4) [OF len] t by simp
  qed simp
  from this [of "length ?xs"] show "om_orders (on_timer now s) = map ?f ?xs"
    "om_sent (on_timer now s) = om_sent s" "om_deferred (on_timer now s) = om_deferred s"
    by (simp_all add: on_timer_def)
qed

lemma demo_state_config: "om_config demo_state = demo_config"
  by (simp add: demo_state_def oms_demo_defs new_oms_def Let_def is_err_def demo_config_def demo_id [simplified]
      fresh_order_def inc64_def order_legal_transition_def)

lemma demo_request_expired: "request_expired demo_config 6000 demo_sent_order"
  by (simp add: request_expired_def demo_sent_order_def has_pending_request_def request_limit_def demo_config_def in64_def)

lemma demo_expired:
  "om_orders (on_timer 6000 demo_state) = [demo_sent_order\<lparr>od_pending_request := 0, od_state := UnknownState\<rparr>]"
  using demo_request_expired
  by (simp add: on_timer_orders demo_state_orders demo_state_config timed_out_def) (simp add: demo_sent_order_def)

text \<open>
  A timeout fabricates nothing: the timer sweep changes exactly the orders whose outstanding request has passed its
  deadline; such an order becomes Unknown, never filled, cancelled or rejected, with its quantities, prices and
  identities untouched, every other record is left exactly as it was, and nothing is sent and no deferred order is
  released.
\<close>

theorem timeout_yields_unknown:
  assumes "i < length (om_orders s)"
  shows "(request_expired (om_config s) now (order_at s i) \<and> \<not> is_terminal (od_state (order_at s i)) \<and> od_state (order_at s i) \<noteq> Created
      \<longrightarrow> order_at (on_timer now s) i = (order_at s i)\<lparr>od_pending_request := 0, od_state := UnknownState\<rparr>)
    \<and> (\<not> request_expired (om_config s) now (order_at s i) \<longrightarrow> order_at (on_timer now s) i = order_at s i)
    \<and> length (om_orders (on_timer now s)) = length (om_orders s)
    \<and> om_sent (on_timer now s) = om_sent s \<and> om_deferred (on_timer now s) = om_deferred s"
  using assms by (simp add: on_timer_orders order_at_def timed_out_def)

theorem timeout_yields_unknown_witness:
  "request_expired demo_config 6000 demo_sent_order
   \<and> order_at (on_timer 6000 demo_state) 0 = demo_sent_order\<lparr>od_pending_request := 0, od_state := UnknownState\<rparr>"
  using timeout_yields_unknown [of 0 demo_state 6000] demo_request_expired
  by (simp add: demo_state_orders order_at_def demo_state_config) (simp add: demo_sent_order_def)

section \<open>Reported exposure\<close>

definition may_trade :: "string \<Rightarrow> OrderRecord \<Rightarrow> bool" where
  "may_trade symbol o1 \<longleftrightarrow> od_symbol o1 = symbol \<and> consumes_exposure (od_state o1)"

text \<open>
  What an order can still trade, by state: all of it while the venue has not acknowledged it; what is not yet filled
  while it rests, and just the same while a cancel or a replace of it is pending; nothing once it has ended, and
  nothing before it was sent. A difference outside the 64-bit range, which amounts that are not negative cannot have,
  counts as nothing.
\<close>

definition unfilled :: "OrderRecord \<Rightarrow> int" where
  "unfilled o1 = (let left = od_original_quantity o1 - od_cumulative_quantity o1 in if in64 left then max 0 left else 0)"

definition open_size :: "OrderRecord \<Rightarrow> int" where
  "open_size o1 =
     (case od_state o1 of
        PendingNew \<Rightarrow> max 0 (od_original_quantity o1)
      | Working \<Rightarrow> unfilled o1
      | PartiallyFilled \<Rightarrow> unfilled o1
      | PendingCancel \<Rightarrow> unfilled o1
      | PendingReplace \<Rightarrow> unfilled o1
      | _ \<Rightarrow> 0)"

definition open_quantity :: "string \<Rightarrow> Side \<Rightarrow> OrderRecord list \<Rightarrow> int" where
  "open_quantity symbol side os = (\<Sum>o1 \<leftarrow> filter (\<lambda>o1. od_symbol o1 = symbol \<and> od_side o1 = side) os. open_size o1)"

definition in_doubt :: "string \<Rightarrow> OrderRecord list \<Rightarrow> bool" where
  "in_doubt symbol os \<longleftrightarrow> (\<exists>o1 \<in> set os. od_symbol o1 = symbol \<and> od_state o1 = UnknownState)"

lemma open_quantity_Cons:
  "open_quantity symbol side (o1 # os) =
     (if od_symbol o1 = symbol \<and> od_side o1 = side then open_size o1 else 0) + open_quantity symbol side os"
  by (simp add: open_quantity_def)

lemma open_size_nonneg: "0 \<le> open_size o1"
  by (simp add: open_size_def unfilled_def Let_def split: OrderState.splits)

lemma open_quantity_nonneg: "0 \<le> open_quantity symbol side os"
  by (induction os) (simp_all add: open_quantity_Cons open_size_nonneg, simp add: open_quantity_def)

lemma unfilled_remaining: "remaining o1 = unfilled o1"
  by (auto simp: remaining_def unfilled_def Let_def checked_simps split: option.splits)

lemma open_size_contribution:
  "open_size o1 = (if consumes_exposure (od_state o1) \<and> od_state o1 \<noteq> UnknownState then max 0 (contribution o1) else 0)"
  using remaining_nonneg [of o1]
  by (cases "od_state o1") (simp_all add: open_size_def consumes_exposure_def contribution_def unfilled_remaining is_terminal_def)

lemma add_exposure_fields:
  "es_determinate (add_exposure o1 e) \<longleftrightarrow> es_determinate e
     \<and> in64 ((if od_side o1 = Buy then es_working_buy e else es_working_sell e) + contribution o1)"
  "es_determinate (add_exposure o1 e) \<Longrightarrow> es_working_buy (add_exposure o1 e) = es_working_buy e + (if od_side o1 = Buy then contribution o1 else 0)"
  "es_determinate (add_exposure o1 e) \<Longrightarrow> es_working_sell (add_exposure o1 e) = es_working_sell e + (if od_side o1 = Sell then contribution o1 else 0)"
  by (cases "od_side o1"; auto simp: add_exposure_def Let_def checked_simps split: option.splits)+

definition side_sum :: "string \<Rightarrow> Side \<Rightarrow> ExposureSnapshot \<Rightarrow> OrderRecord list \<Rightarrow> int" where
  "side_sum symbol side e os = (if side = Buy then es_working_buy e else es_working_sell e) + open_quantity symbol side os"

lemma expose_order_fields:
  assumes "in64 (es_working_buy e)" "in64 (es_working_sell e)"
  shows "es_determinate (expose_order symbol e o1) \<longleftrightarrow> es_determinate e \<and> \<not> in_doubt symbol [o1]
      \<and> in64 (side_sum symbol Buy e [o1]) \<and> in64 (side_sum symbol Sell e [o1])"
    and "es_determinate (expose_order symbol e o1) \<Longrightarrow>
      es_working_buy (expose_order symbol e o1) = side_sum symbol Buy e [o1]
      \<and> es_working_sell (expose_order symbol e o1) = side_sum symbol Sell e [o1]"
  using assms add_exposure_fields [of o1 e]
  by (cases "od_side o1";
      auto simp: expose_order_def in_doubt_def side_sum_def open_quantity_def open_size_contribution consumes_exposure_def)+

lemma in64_partial_sum: "in64 a \<Longrightarrow> 0 \<le> b \<Longrightarrow> 0 \<le> c \<Longrightarrow> in64 (a + (b + c)) \<Longrightarrow> in64 (a + b)"
  by (auto simp: in64_def)

lemma expose_fold:
  assumes "in64 (es_working_buy e)" "in64 (es_working_sell e)"
  shows "(es_determinate (foldl (expose_order symbol) e os) \<longleftrightarrow> es_determinate e \<and> \<not> in_doubt symbol os
      \<and> in64 (side_sum symbol Buy e os) \<and> in64 (side_sum symbol Sell e os))
    \<and> (es_determinate (foldl (expose_order symbol) e os) \<longrightarrow>
        es_working_buy (foldl (expose_order symbol) e os) = side_sum symbol Buy e os
        \<and> es_working_sell (foldl (expose_order symbol) e os) = side_sum symbol Sell e os)"
  using assms
proof (induction os arbitrary: e)
  case Nil
  then show ?case by (simp add: side_sum_def open_quantity_def in_doubt_def)
next
  case (Cons o1 os)
  let ?e = "expose_order symbol e o1"
  note one = expose_order_fields [OF Cons.prems, of symbol o1]
  have range: "in64 (es_working_buy ?e)" "in64 (es_working_sell ?e)"
    using Cons.prems
    by (auto simp: expose_order_def add_exposure_def Let_def checked_simps split: option.splits)
  have doubt: "in_doubt symbol (o1 # os) \<longleftrightarrow> in_doubt symbol [o1] \<or> in_doubt symbol os" by (auto simp: in_doubt_def)
  have sum: "side_sum symbol side ?e os = side_sum symbol side e (o1 # os)" if "es_determinate ?e" for side
    using one(2) [OF that] by (cases side) (simp_all add: side_sum_def open_quantity_Cons, simp_all add: open_quantity_def)
  have part: "in64 (side_sum symbol side e [o1])" if "in64 (side_sum symbol side e (o1 # os))" for side
    using that Cons.prems in64_partial_sum [OF _ open_quantity_nonneg [of symbol side "[o1]"] open_quantity_nonneg [of symbol side os]]
    by (cases side) (auto simp: side_sum_def open_quantity_Cons, auto simp: open_quantity_def)
  show ?case
  proof (cases "es_determinate ?e")
    case True
    then show ?thesis using Cons.IH [OF range] one(1) by (simp add: sum doubt)
  next
    case False
    then show ?thesis using Cons.IH [OF range] one(1) part [of Buy] part [of Sell] by (auto simp: doubt)
  qed
qed

lemma exposure_determinate:
  "es_determinate (exposure symbol s) \<longleftrightarrow> \<not> in_doubt symbol (om_orders s)
     \<and> in64 (open_quantity symbol Buy (om_orders s)) \<and> in64 (open_quantity symbol Sell (om_orders s))"
  "es_determinate (exposure symbol s) \<Longrightarrow> es_working_buy (exposure symbol s) = open_quantity symbol Buy (om_orders s)
     \<and> es_working_sell (exposure symbol s) = open_quantity symbol Sell (om_orders s)"
  using expose_fold [of empty_exposure symbol "om_orders s"]
  by (simp_all add: exposure_def side_sum_def empty_exposure_def in64_def)

lemma exposure_unknown:
  assumes "o1 \<in> set (om_orders s)" "may_trade symbol o1" "od_state o1 = UnknownState"
  shows "\<not> es_determinate (exposure symbol s)"
  using assms by (auto simp: exposure_determinate(1) in_doubt_def may_trade_def)

text \<open>
  C5. The exposure reported to risk is complete. The snapshot is determinate exactly when no order of the symbol is in
  an unknown state and the open quantities of the buy orders and of the sell orders both fit 64 bits; and then the
  working buy and sell quantities are exactly those sums over all orders of the symbol: an order counts with its full
  size until the venue acknowledges it, afterwards with what is left to fill, just the same while a cancel or a
  replace is pending, and not at all once it is filled, cancelled, rejected or expired.
\<close>

theorem exposure_is_complete:
  "(es_determinate (exposure symbol s) \<longleftrightarrow>
      (\<forall>o1 \<in> set (om_orders s). od_symbol o1 = symbol \<longrightarrow> od_state o1 \<noteq> UnknownState)
      \<and> in64 (open_quantity symbol Buy (om_orders s)) \<and> in64 (open_quantity symbol Sell (om_orders s)))
    \<and> (es_determinate (exposure symbol s) \<longrightarrow>
        es_working_buy (exposure symbol s) = open_quantity symbol Buy (om_orders s)
        \<and> es_working_sell (exposure symbol s) = open_quantity symbol Sell (om_orders s))"
  using exposure_determinate [of symbol s] by (auto simp: in_doubt_def)

theorem exposure_is_complete_witness:
  "es_determinate (exposure ''BTC'' demo_state) \<and> es_working_buy (exposure ''BTC'' demo_state) = 5
   \<and> open_quantity ''BTC'' Buy (om_orders demo_state) = 5"
proof -
  have o: "od_state demo_sent_order = PendingNew" "od_symbol demo_sent_order = ''BTC''" "od_side demo_sent_order = Buy"
    "od_original_quantity demo_sent_order = 5"
    by (simp_all add: demo_sent_order_def fresh_order_def demo_new_def default_action_def)
  have "open_quantity ''BTC'' Buy (om_orders demo_state) = 5" "open_quantity ''BTC'' Sell (om_orders demo_state) = 0"
    by (simp_all add: open_quantity_def demo_state_orders o open_size_def)
  then show ?thesis using exposure_is_complete [of "''BTC''" demo_state] by (simp add: demo_state_orders o in64_def)
qed

section \<open>Fills\<close>

text \<open>Creating an order leaves the existing records and client-id entries alone.\<close>

definition extends :: "OrderManager \<Rightarrow> OrderManager \<Rightarrow> bool" where
  "extends s t \<longleftrightarrow> length (om_orders s) \<le> length (om_orders t)
     \<and> (\<forall>j < length (om_orders s). order_at t j = order_at s j)
     \<and> (\<forall>c i. om_by_client_id s c = Some i \<longrightarrow> om_by_client_id t c = Some i)"

lemma extends_refl: "extends s s"
  by (simp add: extends_def)

lemma extends_trans: "extends s t \<Longrightarrow> extends t u \<Longrightarrow> extends s u"
  by (auto simp: extends_def)

lemma extends_insert: "om_by_client_id s c = None \<Longrightarrow> extends s (insert_order n a c s)"
  by (auto simp: extends_def insert_order_def Let_def order_at_def nth_append)

lemma send_new_frame:
  "j \<noteq> i \<Longrightarrow> order_at (fst (send_new ex n i s)) j = order_at s j"
  "length (om_orders (fst (send_new ex n i s))) = length (om_orders s)"
  "om_by_client_id (fst (send_new ex n i s)) = om_by_client_id s"
  by (simp_all add: send_new_def oms_next_request_id_def Let_def order_at_transition)

lemma extends_handle_new: "extends s (fst (handle_new ex n a s))"
proof -
  let ?s1 = "s\<lparr>om_id_generator := fst (next_id (om_id_generator s))\<rparr>"
  have s1: "extends s ?s1" by (simp add: extends_def)
  have ins: "extends s (insert_order n a c ?s1)" if "om_by_client_id s c = None" for c
    using extends_trans [OF s1 extends_insert] that by simp
  have "extends s (fst (send_new ex n (length (om_orders s)) (insert_order n a c ?s1)))" if "om_by_client_id s c = None" for c
    using ins [OF that] by (auto simp: extends_def send_new_frame)
  moreover have "extends s (fst (refuse_submit r u)) = extends s u" "extends s (record_reject r u) = extends s u"
    "extends s (count_metric m u) = extends s u" "extends s (fst (defer_new a l u)) = extends s u" for r m l u
    by (simp_all add: extends_def refuse_submit_def defer_new_def order_at_def split: option.splits)
  ultimately show ?thesis
    using s1 ins extends_refl [of s]
    by (auto simp: handle_new_def Let_def case_prod_beta split: option.splits)
qed

lemma extends_release: "extends s (release_deferred ex n l s)"
proof -
  have "extends s (s\<lparr>om_deferred := ds, om_deferred_count := m\<rparr>)" for s ds m by (simp add: extends_def order_at_def)
  then have "extends s (release_slot ex n l s k)" for s k
    using extends_trans [OF _ extends_handle_new] by (simp add: release_slot_def Let_def extends_refl)
  then have "extends s (foldl (release_slot ex n l) s ks)" for s ks
    by (induction ks arbitrary: s) (simp add: extends_refl, metis extends_trans foldl_Cons)
  then show ?thesis by (simp add: release_deferred_def extends_refl)
qed

text \<open>
  When a fill is applied: it does not fill the order beyond its size, and neither the new total nor the values of what
  was filled before, of this fill and of both together leave the 64-bit range.
\<close>

definition filled_value :: "px \<Rightarrow> qty \<Rightarrow> int" where
  "filled_value p q = (p * q) sdiv 100000000"

definition fill_fits :: "OrderRecord \<Rightarrow> FillEvent \<Rightarrow> bool" where
  "fill_fits o1 fill \<longleftrightarrow>
     (let before = filled_value (od_average_fill_price o1) (od_cumulative_quantity o1);
          now = filled_value (fill_price fill) (fill_quantity fill)
      in od_cumulative_quantity o1 + fill_quantity fill \<le> od_original_quantity o1
         \<and> in64 (od_cumulative_quantity o1 + fill_quantity fill) \<and> in64 before \<and> in64 now \<and> in64 (before + now))"

definition fill_applies :: "OrderRecord \<Rightarrow> FillEvent \<Rightarrow> bool" where
  "fill_applies o1 fill \<longleftrightarrow> \<not> is_terminal (od_state o1) \<and> 0 < fill_quantity fill \<and> 0 < fill_price fill
     \<and> \<not> seen_contains (od_seen_trades o1) (fill_trade_id fill) \<and> fill_fits o1 fill"

lemma fill_amounts_fits: "(\<exists>x. fill_amounts o1 fill = Inr x) \<longleftrightarrow> fill_fits o1 fill"
  by (auto simp: fill_amounts_def fill_fits_def filled_value_def kScale_def Let_def checked_simps split: option.splits)

lemma fill_amounts_Inr:
  assumes "fill_amounts o1 fill = Inr (cum, avg, fees)"
  shows "cum = od_cumulative_quantity o1 + fill_quantity fill" "cum \<le> od_original_quantity o1"
  using assms by (auto simp: fill_amounts_def checked_simps split: option.splits if_splits)

lemma insert_flag: "snd (seen_trade_ids_insert r t) \<longleftrightarrow> \<not> seen_contains r t"
  by (simp add: seen_trade_ids_insert_def Let_def)

lemma apply_fill_refused:
  assumes "find_client s (fill_client_order_id fill) = Some i"
    and "is_terminal (od_state (order_at s i)) \<or> \<not> fill_quantity fill > 0 \<or> \<not> fill_price fill > 0
      \<or> seen_contains (od_seen_trades (order_at s i)) (fill_trade_id fill)"
  shows "om_orders (apply_fill ex n fill s) = om_orders s" "om_sent (apply_fill ex n fill s) = om_sent s"
    "om_deferred (apply_fill ex n fill s) = om_deferred s"
  using assms insert_flag [of "od_seen_trades (order_at s i)" "fill_trade_id fill"]
  by (auto simp: apply_fill_def Let_def case_prod_beta)

lemma apply_fill_accepted:
  assumes f: "find_client s (fill_client_order_id fill) = Some i" and i: "i < length (om_orders s)"
    and ok: "\<not> is_terminal (od_state (order_at s i))" "0 < fill_quantity fill" "0 < fill_price fill"
      "\<not> seen_contains (od_seen_trades (order_at s i)) (fill_trade_id fill)"
    and s': "s' = apply_fill ex n fill s"
  shows "i < length (om_orders s')" "find_client s' (fill_client_order_id fill) = Some i"
    and "\<And>j. j < length (om_orders s) \<Longrightarrow> j \<noteq> i \<Longrightarrow> order_at s' j = order_at s j"
    and "od_seen_trades (order_at s' i) = fst (seen_trade_ids_insert (od_seen_trades (order_at s i)) (fill_trade_id fill))"
    and "od_cumulative_quantity (order_at s' i) = od_cumulative_quantity (order_at s i)
           + (if fill_applies (order_at s i) fill then fill_quantity fill else 0)"
    and "od_original_quantity (order_at s' i) = od_original_quantity (order_at s i)"
proof -
  let ?o = "order_at s i" and ?seen = "fst (seen_trade_ids_insert (od_seen_trades (order_at s i)) (fill_trade_id fill))"
  have new: "snd (seen_trade_ids_insert (od_seen_trades ?o) (fill_trade_id fill))" using ok(4) by (simp add: insert_flag)
  have keep: "extends u (release_deferred ex n l u)" for l u by (rule extends_release)
  have enter: "od_seen_trades (enter_state n st x) = od_seen_trades x" "od_cumulative_quantity (enter_state n st x) = od_cumulative_quantity x"
    "od_original_quantity (enter_state n st x) = od_original_quantity x" for st x by (simp_all add: enter_state_def)
  obtain t where t: "extends t s'" and len: "length (om_orders t) = length (om_orders s)"
    and cl: "om_by_client_id t = om_by_client_id s" and oth: "\<And>j. j \<noteq> i \<Longrightarrow> order_at t j = order_at s j"
    and sn: "od_seen_trades (order_at t i) = ?seen"
    and cum: "od_cumulative_quantity (order_at t i) = od_cumulative_quantity ?o + (if fill_applies ?o fill then fill_quantity fill else 0)"
    and orig: "od_original_quantity (order_at t i) = od_original_quantity ?o"
  proof (cases "fill_amounts ?o fill")
    case (Inl r)
    have na: "\<not> fill_applies ?o fill" using Inl by (simp add: fill_applies_def fill_amounts_fits [symmetric])
    let ?t = "record_reject r (count_metric OmQuarantinedEvents (put_order i (?o\<lparr>od_seen_trades := ?seen\<rparr>) s))"
    have "s' = ?t" using f ok new Inl by (simp add: s' apply_fill_def Let_def case_prod_beta)
    then show ?thesis using that [of ?t] i na extends_refl by simp
  next
    case (Inr x)
    obtain c a fe where x: "x = (c, a, fe)" by (cases x)
    have c: "c = od_cumulative_quantity ?o + fill_quantity fill" using fill_amounts_Inr Inr x by simp
    have ap: "fill_applies ?o fill" using Inr ok x by (simp add: fill_applies_def fill_amounts_fits [symmetric])
    let ?o2 = "?o\<lparr>od_seen_trades := ?seen, od_cumulative_quantity := c, od_average_fill_price := a, od_cumulative_fees := fe,
      od_venue_ns := fill_transact_ns fill, od_last_applied_sequence := fill_seq fill\<rparr>"
    let ?t = "if remaining ?o2 = 0
      then om_transition n i Filled OeFilled (fill_detail ?o2 fill) (count_metric OmFills (put_order i ?o2 s))
      else om_transition n i PartiallyFilled OePartiallyFilled (fill_detail ?o2 fill) (count_metric OmPartialFills (put_order i ?o2 s))"
    have "s' = (if remaining ?o2 = 0 then release_deferred ex n (od_logical_id ?o) ?t else ?t)"
      using f ok new Inr x by (simp add: s' apply_fill_def Let_def case_prod_beta)
    then have "extends ?t s'" using keep extends_refl by simp
    then show ?thesis using that [of ?t] i ap by (simp add: order_at_transition enter c)
  qed
  from t len i show "i < length (om_orders s')" by (simp add: extends_def)
  from t cl f show "find_client s' (fill_client_order_id fill) = Some i" by (simp add: extends_def find_client_def)
  from t len oth show "\<And>j. j < length (om_orders s) \<Longrightarrow> j \<noteq> i \<Longrightarrow> order_at s' j = order_at s j" by (simp add: extends_def)
  have "order_at s' i = order_at t i" using t len i by (simp add: extends_def)
  then show "od_seen_trades (order_at s' i) = ?seen"
    "od_cumulative_quantity (order_at s' i) = od_cumulative_quantity ?o + (if fill_applies ?o fill then fill_quantity fill else 0)"
    "od_original_quantity (order_at s' i) = od_original_quantity ?o"
    using sn cum orig by simp_all
qed

text \<open>
  C12. Fills count once: in every state of the order manager that calls lead to, applying a fill adds its quantity to
  the cumulative quantity of the order it names exactly when the order has not ended, quantity and price are positive,
  the trade id is not among those remembered, the new total does not exceed the order's size (a fill that completes
  the order is applied), and neither the new total nor the values of what was filled before, of this fill and of both
  together leave the 64-bit range; otherwise the quantity does not move. No other record changes, and delivering the
  same fill again changes no record, sends nothing and releases nothing.
\<close>

theorem fills_count_once:
  assumes "oc_max_orders cfg < 2 ^ 64" and "s = om_run ex cs (new_oms cfg)" and "s1 = apply_fill ex now fill s"
    and "find_client s (fill_client_order_id fill) = Some i"
  shows "od_cumulative_quantity (order_at s1 i) = od_cumulative_quantity (order_at s i)
        + (if fill_applies (order_at s i) fill then fill_quantity fill else 0)
    \<and> (fill_applies (order_at s i) fill \<longrightarrow> od_cumulative_quantity (order_at s1 i) \<le> od_original_quantity (order_at s1 i))
    \<and> (\<forall>j < length (om_orders s). j \<noteq> i \<longrightarrow> order_at s1 j = order_at s j)
    \<and> om_orders (apply_fill ex later fill s1) = om_orders s1
    \<and> om_sent (apply_fill ex later fill s1) = om_sent s1
    \<and> om_deferred (apply_fill ex later fill s1) = om_deferred s1"
proof -
  have inv: "om_inv s" using om_inv_run [of cfg ex cs] assms(1,2) by simp
  have i: "i < length (om_orders s)" using om_inv_ranges(1) [OF inv] assms(4) by (simp add: find_client_def)
  show ?thesis
  proof (cases "is_terminal (od_state (order_at s i)) \<or> \<not> fill_quantity fill > 0 \<or> \<not> fill_price fill > 0
      \<or> seen_contains (od_seen_trades (order_at s i)) (fill_trade_id fill)")
    case True
    note r = apply_fill_refused [OF assms(4) True, of ex now, folded assms(3)]
    have c: "om_by_client_id s1 = om_by_client_id s"
      using True assms(4) insert_flag [of "od_seen_trades (order_at s i)" "fill_trade_id fill"]
      by (auto simp: assms(3) apply_fill_def Let_def case_prod_beta)
    then have "find_client s1 (fill_client_order_id fill) = Some i" using assms(4) by (simp add: find_client_def)
    from apply_fill_refused [OF this, of ex later] True r(1)
    show ?thesis using True order_at_cong [OF r(1)] by (auto simp: fill_applies_def)
  next
    case False
    then have ok: "\<not> is_terminal (od_state (order_at s i))" "0 < fill_quantity fill" "0 < fill_price fill"
      "\<not> seen_contains (od_seen_trades (order_at s i)) (fill_trade_id fill)" by simp_all
    note a = apply_fill_accepted [OF assms(4) i ok assms(3)]
    have "ring_ok SeenTradeIds_kCapacity (od_seen_trades (order_at s i))" using inv i by (simp add: om_inv_def records_ok_def)
    then have "seen_contains (od_seen_trades (order_at s1 i)) (fill_trade_id fill)"
      using order_ring.ins_contains by (simp add: a(4))
    then have dup: "is_terminal (od_state (order_at s1 i)) \<or> \<not> fill_quantity fill > 0 \<or> \<not> fill_price fill > 0
      \<or> seen_contains (od_seen_trades (order_at s1 i)) (fill_trade_id fill)" by simp
    have "fill_applies (order_at s i) fill \<Longrightarrow> od_cumulative_quantity (order_at s i) + fill_quantity fill \<le> od_original_quantity (order_at s i)"
      by (simp add: fill_applies_def fill_fits_def Let_def)
    then show ?thesis using a(3,5,6) apply_fill_refused [OF a(2) dup, of ex later] by auto
  qed
qed

definition demo_fill :: FillEvent where
  "demo_fill = \<lparr>fill_client_order_id = ''mm-7-1'', fill_exchange_order_id = ''9'', fill_trade_id = ''t1'',
     fill_symbol = ''BTC'', fill_symbol_id = 0, fill_side = Buy, fill_price = 100, fill_quantity = 2,
     fill_cumulative_qty = 2, fill_leaves_qty = 3, fill_fee = 0, fill_fee_asset = [], fill_liquidity = Maker,
     fill_order_status = StPartiallyFilled, fill_transact_ns = 30, fill_seq = 1\<rparr>"

theorem fills_count_once_witness:
  "od_cumulative_quantity (order_at (apply_fill (\<lambda>_ _. Ok) 40 demo_fill demo_state) 0) = 2
   \<and> om_orders (apply_fill (\<lambda>_ _. Ok) 50 demo_fill (apply_fill (\<lambda>_ _. Ok) 40 demo_fill demo_state))
      = om_orders (apply_fill (\<lambda>_ _. Ok) 40 demo_fill demo_state)"
proof -
  have f: "find_client demo_state (fill_client_order_id demo_fill) = Some 0"
    by (simp add: demo_fill_def find_client_def demo_state_client)
  have "fill_fits demo_sent_order demo_fill"
    by (simp add: fill_fits_def filled_value_def demo_sent_order_def fresh_order_def demo_fill_def demo_new_def default_action_def
        Let_def signed_divide_int_def in64_def)
  then have "fill_applies demo_sent_order demo_fill"
    by (simp add: fill_applies_def) (simp add: demo_sent_order_def fresh_order_def demo_fill_def seen_contains_def empty_seen_def)
  then show ?thesis
    using fills_count_once [OF demo_config_fits demo_state_def refl f, of 40 50]
    by (simp add: order_at_def demo_state_orders) (simp add: demo_sent_order_def fresh_order_def demo_fill_def)
qed

section \<open>Reconciliation\<close>

definition venue_match :: "OrderManager \<Rightarrow> OrderStatusReport \<Rightarrow> nat option" where
  "venue_match s v = or_else (find_client s (osr_client_order_id v))
     (if osr_exchange_order_id v \<noteq> [] then find_by_exchange_id s (osr_exchange_order_id v) else None)"

text \<open>States that agree on the tables and on what was sent and deferred.\<close>

definition same_tables :: "OrderManager \<Rightarrow> OrderManager \<Rightarrow> bool" where
  "same_tables s t \<longleftrightarrow> length (om_orders t) = length (om_orders s) \<and> om_by_client_id t = om_by_client_id s
     \<and> om_by_exchange_id t = om_by_exchange_id s \<and> om_by_logical_id t = om_by_logical_id s
     \<and> om_sent t = om_sent s \<and> om_deferred t = om_deferred s"

lemma same_tables_trans: "same_tables s t \<Longrightarrow> same_tables t u \<Longrightarrow> same_tables s u"
  by (simp add: same_tables_def)

lemma same_tables_frame:
  "same_tables s s" "same_tables s (count_metric c s)" "same_tables s (om_transition n i t e d s)"
  "same_tables s (journal_event n e x a b s)"
  by (simp_all add: same_tables_def)

lemma same_tables_foldl:
  assumes "\<And>t x. same_tables t (f t x)"
  shows "same_tables s (foldl f s xs)"
  by (induction xs arbitrary: s) (simp add: same_tables_frame, metis assms same_tables_trans foldl_Cons)

lemma foldl_orders:
  assumes "\<And>t x. om_orders (f t x) = om_orders t"
  shows "om_orders (foldl f s xs) = om_orders s"
  using assms by (induction xs arbitrary: s) simp_all

lemma compare_orders_run:
  assumes "om_inv s" "same_tables s (rc_oms run)" "om_orders (rc_oms run) = om_orders s"
    "length (rc_matched run) = length (om_orders s)"
  shows "same_tables s (rc_oms (foldl compare_order run vs)) \<and> om_orders (rc_oms (foldl compare_order run vs)) = om_orders s
    \<and> length (rc_matched (foldl compare_order run vs)) = length (om_orders s)
    \<and> (\<forall>i < length (om_orders s). rc_matched (foldl compare_order run vs) ! i
         \<longleftrightarrow> rc_matched run ! i \<or> (\<exists>v\<in>set vs. venue_match s v = Some i))"
  using assms(2-)
proof (induction vs arbitrary: run)
  case (Cons v vs)
  let ?run = "compare_order run v"
  have vm: "or_else (find_client (rc_oms run) (osr_client_order_id v))
       (if osr_exchange_order_id v \<noteq> [] then find_by_exchange_id (rc_oms run) (osr_exchange_order_id v) else None) = venue_match s v"
    using Cons.prems by (simp add: venue_match_def same_tables_def find_client_def find_by_exchange_id_def)
  have rng: "i < length (om_orders s)" if "venue_match s v = Some i" for i
    using table.target_range(5) [OF assms(1)] that by (simp add: venue_match_def)
  have lg: "om_by_logical_id (rc_oms run) (od_logical_id (order_at (rc_oms run) i)) = Some i" if "i < length (om_orders s)" for i
    using assms(1) that Cons.prems by (simp add: om_inv_def tables_ok_def same_tables_def order_at_def)
  have one: "same_tables s (rc_oms ?run)" "om_orders (rc_oms ?run) = om_orders s"
    "length (rc_matched ?run) = length (om_orders s)"
    "\<And>i. i < length (om_orders s) \<Longrightarrow> rc_matched ?run ! i \<longleftrightarrow> rc_matched run ! i \<or> venue_match s v = Some i"
    using Cons.prems rng lg
    by (auto simp: compare_order_def Let_def vm same_tables_def nth_list_update split: option.splits)
  show ?case using Cons.IH [OF one(1-3)] one(4) by auto
qed simp

definition doubted :: "OrderManager \<Rightarrow> nanos \<Rightarrow> (nat \<Rightarrow> bool) \<Rightarrow> OrderManager \<Rightarrow> bool" where
  "doubted s ns M t \<longleftrightarrow> same_tables s t \<and> (\<forall>i < length (om_orders s). order_at t i = order_at s i
       \<or> M i \<and> od_acknowledged_ns (order_at s i) \<le> ns \<and> order_at t i = (order_at s i)\<lparr>od_state := UnknownState\<rparr>)"

lemma doubt_step:
  assumes "doubted s ns M t" "om_inv s" "0 < l" "l \<le> length (om_orders s)" "M (l - 1)"
    "is_live (od_state (order_at s (l - 1)))"
  shows "doubted s ns M (doubt_missing n ns t l)"
proof -
  let ?t = "doubt_missing n ns t l" and ?k = "l - 1"
  have st: "same_tables s t" and k: "?k < length (om_orders s)" using assms by (auto simp: doubted_def)
  then have f: "find_logical t l = Some ?k"
    using assms(2-4) by (simp add: find_logical_def same_tables_def om_inv_def tables_ok_def)
  have old: "order_at t i = order_at s i
      \<or> M i \<and> od_acknowledged_ns (order_at s i) \<le> ns \<and> order_at t i = (order_at s i)\<lparr>od_state := UnknownState\<rparr>"
    if "i < length (om_orders s)" for i using assms(1) that by (simp add: doubted_def)
  have legal: "order_legal_transition (od_state (order_at t ?k)) UnknownState"
    using old [OF k] assms(6) by (auto simp: legal_to_unknown is_live_def)
  have st': "same_tables s ?t" using st by (simp add: doubt_missing_def f same_tables_def)
  have eq: "order_at ?t i = (if i = ?k \<and> od_acknowledged_ns (order_at t i) \<le> ns
      then (order_at t i)\<lparr>od_state := UnknownState\<rparr> else order_at t i)" for i
    using legal k st
    by (auto simp: doubt_missing_def f order_at_transition enter_state_def same_tables_def)
  have "order_at ?t i = order_at s i
      \<or> M i \<and> od_acknowledged_ns (order_at s i) \<le> ns \<and> order_at ?t i = (order_at s i)\<lparr>od_state := UnknownState\<rparr>"
    if "i < length (om_orders s)" for i
    using old [OF that] assms(5) unfolding eq by (cases "i = ?k") auto
  with st' show ?thesis by (simp add: doubted_def)
qed

lemma doubt_fold:
  assumes "doubted s ns M t" "om_inv s"
    "\<And>l. l \<in> set ls \<Longrightarrow> 0 < l \<and> l \<le> length (om_orders s) \<and> M (l - 1) \<and> is_live (od_state (order_at s (l - 1)))"
  shows "doubted s ns M (foldl (doubt_missing n ns) t ls)"
  using assms(1,3) by (induction ls arbitrary: t) (simp_all add: doubt_step [OF _ assms(2)])

text \<open>
  Reconciliation never forgets an order: in every state that calls lead to, an incomplete listing changes no record
  and reports nothing; a complete listing leaves every record exactly as it is, except that a live order which no entry
  of the listing matches and which was acknowledged no later than the listing becomes Unknown with everything else
  kept; nothing is sent, cancelled, filled or released, and the identity indices stay as they are.
\<close>

theorem reconcile_never_forgets:
  assumes "oc_max_orders cfg < 2 ^ 64" and "s = om_run ex cs (new_oms cfg)" and "(s', report) = reconcile now snap s"
  shows "same_tables s s'
    \<and> (\<not> vs_is_complete snap \<longrightarrow> om_orders s' = om_orders s \<and> rp_discrepancies report = [])
    \<and> (\<forall>i < length (om_orders s). order_at s' i = order_at s i
        \<or> vs_is_complete snap \<and> is_live (od_state (order_at s i))
          \<and> (\<forall>v \<in> set (vs_orders snap). venue_match s v \<noteq> Some i)
          \<and> od_acknowledged_ns (order_at s i) \<le> (if vs_received_ns snap \<noteq> 0 then vs_received_ns snap else now)
          \<and> order_at s' i = (order_at s i)\<lparr>od_state := UnknownState\<rparr>)"
proof (cases "vs_is_complete snap")
  case False
  then show ?thesis using assms(3) by (simp add: reconcile_def Let_def same_tables_frame)
next
  case True
  have inv: "om_inv s" using om_inv_run [of cfg ex cs] assms(1,2) by simp
  let ?n = "length (om_orders s)" and ?ns = "if vs_received_ns snap \<noteq> 0 then vs_received_ns snap else now"
  define run0 where "run0 = \<lparr>rc_oms = count_metric OmReconciliations s,
     rc_report = \<lparr>rp_discrepancies = [], rp_orders_compared = 0, rp_orders_agreed = 0, rp_performed_ns = now\<rparr>,
     rc_matched = replicate ?n False\<rparr>"
  define run where "run = foldl compare_order run0 (vs_orders snap)"
  define missing where "missing = filter (is_missing snap (rc_matched run) (rc_oms run)) [0..<length (om_orders (rc_oms run))]"
  define s1 where "s1 = foldl (\<lambda>t _. count_metric OmMissingOrders t) (rc_oms run) missing"
  define ls where "ls = map (\<lambda>i. od_logical_id (order_at s1 i)) missing"
  define s2 where "s2 = foldl (doubt_missing now ?ns) s1 ls"
  obtain ds where s': "s' = foldl (journal_discrepancy now) s2 ds"
    using assms(3) True unfolding reconcile_def Let_def s2_def ls_def s1_def missing_def run_def run0_def
    by (simp only: if_True if_False prod.inject not_True_eq_False)
  have run: "same_tables s (rc_oms run)" "om_orders (rc_oms run) = om_orders s"
    "\<And>i. i < ?n \<Longrightarrow> rc_matched run ! i \<longleftrightarrow> (\<exists>v\<in>set (vs_orders snap). venue_match s v = Some i)"
    using compare_orders_run [OF inv, of run0 "vs_orders snap"] by (auto simp: run_def run0_def same_tables_frame)
  have t1: "same_tables s s1" "om_orders s1 = om_orders s"
    using same_tables_trans [OF run(1) same_tables_foldl [of "\<lambda>t _. count_metric OmMissingOrders t"]] run(2)
    by (simp_all add: s1_def same_tables_frame)
  have at: "order_at s1 i = order_at s i" "order_at (rc_oms run) i = order_at s i" for i
    using t1(2) run(2) by (simp_all add: order_at_def)
  let ?M = "\<lambda>i. is_live (od_state (order_at s i)) \<and> (\<forall>v\<in>set (vs_orders snap). venue_match s v \<noteq> Some i)"
  have miss: "i < ?n \<and> ?M i" if "i \<in> set missing" for i
    using that run(2,3) by (auto simp: missing_def is_missing_def at)
  have "0 < l \<and> l \<le> ?n \<and> ?M (l - 1) \<and> is_live (od_state (order_at s (l - 1)))" if "l \<in> set ls" for l
    using that miss inv by (force simp: ls_def at om_inv_def tables_ok_def)
  moreover have "doubted s ?ns ?M s1" using t1(1) by (simp add: doubted_def at)
  ultimately have "doubted s ?ns ?M s2" unfolding s2_def by (intro doubt_fold [OF _ inv])
  then have d: "order_at s2 i = order_at s i \<or> ?M i \<and> od_acknowledged_ns (order_at s i) \<le> ?ns
      \<and> order_at s2 i = (order_at s i)\<lparr>od_state := UnknownState\<rparr>" if "i < ?n" for i
    using that by (simp add: doubted_def)
  have "same_tables s1 s2" unfolding s2_def
    by (rule same_tables_foldl) (simp add: doubt_missing_def same_tables_def split: option.splits)
  moreover have "same_tables s2 s'" unfolding s'
    by (rule same_tables_foldl) (simp add: journal_discrepancy_def Let_def same_tables_def split: option.splits)
  moreover have "om_orders s' = om_orders s2" unfolding s'
    by (rule foldl_orders) (simp add: journal_discrepancy_def Let_def split: option.splits)
  ultimately show ?thesis
    using d t1(1) same_tables_trans True by (auto simp: order_at_def [of s'] order_at_def [of s2])
qed

definition demo_listing :: VenueSnapshot where
  "demo_listing = \<lparr>vs_orders = [], vs_symbol_filter = [], vs_is_complete = True, vs_received_ns = 25\<rparr>"

theorem reconcile_never_forgets_witness:
  "order_at (fst (reconcile 30 demo_listing demo_state)) 0 = demo_sent_order
   \<and> om_sent (fst (reconcile 30 demo_listing demo_state)) = om_sent demo_state"
  using reconcile_never_forgets [OF demo_config_fits demo_state_def,
      of "fst (reconcile 30 demo_listing demo_state)" "snd (reconcile 30 demo_listing demo_state)" 30 demo_listing]
  by (simp add: order_at_def demo_state_orders same_tables_def)
     (auto simp: is_live_def demo_sent_order_def fresh_order_def)

section \<open>Recovery\<close>

definition restored :: "OrderRecord \<Rightarrow> OrderRecord" where
  "restored o1 = (if state_has_pending_request (od_state o1)
     then o1\<lparr>od_state := UnknownState, od_pending_request := 0, od_pending_since_ns := 0\<rparr> else o1)"

lemma restored_keeps [simp]:
  "od_logical_id (restored o1) = od_logical_id o1" "od_client_order_id (restored o1) = od_client_order_id o1"
  "od_exchange_order_id (restored o1) = od_exchange_order_id o1" "od_symbol (restored o1) = od_symbol o1"
  by (simp_all add: restored_def)

lemma restore_order_fields:
  assumes "i < length (om_orders s)"
  shows "om_orders (restore_order now s i) = (om_orders s)[i := restored (order_at s i)]"
    and "om_by_logical_id (restore_order now s i) = (om_by_logical_id s)(od_logical_id (order_at s i) \<mapsto> i)"
    and "om_by_client_id (restore_order now s i) = (if od_client_order_id (order_at s i) = [] then om_by_client_id s
           else (om_by_client_id s)(od_client_order_id (order_at s i) \<mapsto> i))"
    and "om_by_exchange_id (restore_order now s i) = (if od_exchange_order_id (order_at s i) = [] then om_by_exchange_id s
           else (om_by_exchange_id s)(od_exchange_order_id (order_at s i) \<mapsto> i))"
    and "om_next_logical_id (restore_order now s i) = om_next_logical_id s"
    and "om_next_request_id (restore_order now s i) = om_next_request_id s"
    and "om_id_generator (restore_order now s i) = om_id_generator s"
    and "om_sent (restore_order now s i) = om_sent s"
  using assms by (simp_all add: restore_order_def Let_def restored_def put_order_def order_at_def)

text \<open>The entry an index built front to back has for a key: the last record with it.\<close>

definition last_with :: "('a \<Rightarrow> 'k) \<Rightarrow> 'k \<Rightarrow> 'a list \<Rightarrow> nat \<Rightarrow> bool" where
  "last_with key k xs i \<longleftrightarrow> i < length xs \<and> key (xs ! i) = k \<and> (\<forall>j. i < j \<and> j < length xs \<longrightarrow> key (xs ! j) \<noteq> k)"

lemma last_with_snoc:
  "last_with key k (xs @ [x]) i \<longleftrightarrow> (if key x = k then i = length xs else last_with key k xs i)"
proof (cases "i < length xs")
  case True
  have "(\<forall>j. i < j \<and> j < Suc (length xs) \<longrightarrow> key ((xs @ [x]) ! j) \<noteq> k)
      \<longleftrightarrow> (\<forall>j. i < j \<and> j < length xs \<longrightarrow> key (xs ! j) \<noteq> k) \<and> key x \<noteq> k" (is "?l \<longleftrightarrow> ?r")
  proof
    assume ?l
    then show ?r using True by (metis less_Suc_eq nth_append nth_append_length)
  next
    assume ?r
    then show ?l by (metis less_Suc_eq nth_append nth_append_length)
  qed
  with True show ?thesis by (simp add: last_with_def nth_append)
next
  case False
  then show ?thesis by (auto simp: last_with_def less_Suc_eq)
qed

lemma restore_fold:
  assumes "om_orders s = os" "om_by_logical_id s = Map.empty" "om_by_client_id s = Map.empty" "om_by_exchange_id s = Map.empty"
    and "k \<le> length os" and "t = foldl (restore_order now) s [0..<k]"
  shows "om_orders t = map restored (take k os) @ drop k os
    \<and> (\<forall>l i. om_by_logical_id t l = Some i \<longleftrightarrow> last_with od_logical_id l (take k os) i)
    \<and> (\<forall>c i. c \<noteq> [] \<longrightarrow> (om_by_client_id t c = Some i \<longleftrightarrow> last_with od_client_order_id c (take k os) i))
    \<and> (\<forall>x i. x \<noteq> [] \<longrightarrow> (om_by_exchange_id t x = Some i \<longleftrightarrow> last_with od_exchange_order_id x (take k os) i))
    \<and> om_next_logical_id t = om_next_logical_id s \<and> om_next_request_id t = om_next_request_id s
    \<and> om_id_generator t = om_id_generator s \<and> om_sent t = om_sent s"
  using assms(5,6)
proof (induction k arbitrary: t)
  case 0
  then show ?case using assms by (simp add: last_with_def)
next
  case (Suc k)
  define u where "u = foldl (restore_order now) s [0..<k]"
  have u: "om_orders u = map restored (take k os) @ drop k os"
    "\<And>l i. om_by_logical_id u l = Some i \<longleftrightarrow> last_with od_logical_id l (take k os) i"
    "\<And>c i. c \<noteq> [] \<Longrightarrow> om_by_client_id u c = Some i \<longleftrightarrow> last_with od_client_order_id c (take k os) i"
    "\<And>x i. x \<noteq> [] \<Longrightarrow> om_by_exchange_id u x = Some i \<longleftrightarrow> last_with od_exchange_order_id x (take k os) i"
    "om_next_logical_id u = om_next_logical_id s" "om_next_request_id u = om_next_request_id s"
    "om_id_generator u = om_id_generator s" "om_sent u = om_sent s"
    using Suc.IH [OF _ u_def] Suc.prems by auto
  have k: "k < length os" and t: "t = restore_order now u k" using Suc.prems by (simp_all add: u_def)
  have ku: "k < length (om_orders u)" using k by (simp add: u(1))
  have ok: "order_at u k = os ! k" using k by (simp add: order_at_def u(1) nth_append)
  have tk: "take (Suc k) os = take k os @ [os ! k]" using k by (simp add: take_Suc_conv_app_nth)
  note f = restore_order_fields [OF ku, of now, folded t, unfolded ok]
  have "om_orders t = map restored (take (Suc k) os) @ drop (Suc k) os"
    using k by (simp add: f u(1) list_update_append tk Cons_nth_drop_Suc [symmetric])
  moreover have "\<forall>l i. om_by_logical_id t l = Some i \<longleftrightarrow> last_with od_logical_id l (take (Suc k) os) i"
    using k by (auto simp: f(2) tk last_with_snoc u(2))
  moreover have "\<forall>c i. c \<noteq> [] \<longrightarrow> (om_by_client_id t c = Some i \<longleftrightarrow> last_with od_client_order_id c (take (Suc k) os) i)"
    using k by (auto simp: f(3) tk last_with_snoc u(3))
  moreover have "\<forall>x i. x \<noteq> [] \<longrightarrow> (om_by_exchange_id t x = Some i \<longleftrightarrow> last_with od_exchange_order_id x (take (Suc k) os) i)"
    using k by (auto simp: f(4) tk last_with_snoc u(4))
  ultimately show ?case using u(5-8) f(5-8) by simp
qed

text \<open>
  C32. Recovery: the saved state of an order manager that calls led to, restored into a fresh one with enough capacity,
  is accepted and gives back every order with its identity, quantities, price, fills and trade ids; an order with a
  request in flight comes back as Unknown, never as ended, and makes the exposure of its symbol indeterminate; every
  order is found again by its logical id and by its client and exchange ids (by the last record carrying the id); the
  counters for logical ids, request ids and client order ids continue where they were, and nothing is sent.
\<close>

theorem recovery_round_trip:
  assumes "oc_max_orders cfg < 2 ^ 64" and "s = om_run ex cs (new_oms cfg)" and "length (om_orders s) \<le> oc_max_orders cfg2"
    and "(t, code) = restore now (snapshot_for_recovery s) (new_oms cfg2)"
  shows "code = Ok \<and> om_orders t = map restored (om_orders s)
    \<and> (\<forall>i < length (om_orders s). find_logical t (od_logical_id (order_at s i)) = Some i)
    \<and> (\<forall>c i. c \<noteq> [] \<longrightarrow> (find_client t c = Some i \<longleftrightarrow> last_with od_client_order_id c (om_orders s) i))
    \<and> (\<forall>x i. x \<noteq> [] \<longrightarrow> (find_by_exchange_id t x = Some i \<longleftrightarrow> last_with od_exchange_order_id x (om_orders s) i))
    \<and> om_next_logical_id t = om_next_logical_id s \<and> om_next_request_id t = om_next_request_id s
    \<and> ig_sequence (om_id_generator t) = ig_sequence (om_id_generator s) \<and> om_sent t = []
    \<and> (\<forall>o1 \<in> set (om_orders s). state_has_pending_request (od_state o1) \<longrightarrow> \<not> es_determinate (exposure (od_symbol o1) t))"
proof -
  have inv: "om_inv s" using om_inv_run [of cfg ex cs] assms(1,2) by simp
  let ?n = "length (om_orders s)"
  define s1 where "s1 = (new_oms cfg2)\<lparr>om_orders := om_orders s, om_next_logical_id := om_next_logical_id s,
     om_next_request_id := om_next_request_id s, om_journal_sequence := om_journal_sequence s,
     om_id_generator := generator_restore (om_id_generator (new_oms cfg2)) (ig_sequence (om_id_generator s)),
     om_by_client_id := Map.empty, om_by_exchange_id := Map.empty, om_by_logical_id := Map.empty\<rparr>"
  have new: "om_orders (new_oms cfg2) = []" "om_config (new_oms cfg2) = cfg2" "om_sent (new_oms cfg2) = []"
    by (simp_all add: new_oms_def)
  have t: "t = foldl (restore_order now) s1 [0..<?n]" and code: "code = Ok"
    using assms(3,4) by (simp_all add: restore_def Let_def new snapshot_for_recovery_def s1_def)
  have init: "om_orders s1 = om_orders s" "om_by_logical_id s1 = Map.empty" "om_by_client_id s1 = Map.empty"
    "om_by_exchange_id s1 = Map.empty" "om_next_logical_id s1 = om_next_logical_id s"
    "om_next_request_id s1 = om_next_request_id s" "om_sent s1 = []"
    "ig_sequence (om_id_generator s1) = ig_sequence (om_id_generator s)"
    by (simp_all add: s1_def new generator_restore_def)
  note f = restore_fold [OF init(1-4) order_refl t]
  have orders: "om_orders t = map restored (om_orders s)" using f by simp
  have "last_with od_logical_id (od_logical_id (order_at s i)) (om_orders s) i" if "i < ?n" for i
    using inv that by (auto simp: last_with_def om_inv_def tables_ok_def order_at_def)
  then have lg: "\<forall>i < ?n. find_logical t (od_logical_id (order_at s i)) = Some i" using f by (simp add: find_logical_def)
  have "\<not> es_determinate (exposure (od_symbol o1) t)"
    if "o1 \<in> set (om_orders s)" "state_has_pending_request (od_state o1)" for o1
    using that by (intro exposure_unknown [of "restored o1"])
      (auto simp: orders may_trade_def restored_def consumes_exposure_def)
  then show ?thesis using f lg orders code init by (simp add: find_client_def find_by_exchange_id_def)
qed

theorem recovery_round_trip_witness:
  "snd (restore 99 (snapshot_for_recovery demo_state) (new_oms demo_config)) = Ok
   \<and> om_orders (fst (restore 99 (snapshot_for_recovery demo_state) (new_oms demo_config))) = [restored demo_sent_order]
   \<and> od_state (restored demo_sent_order) = UnknownState"
  using recovery_round_trip [OF demo_config_fits demo_state_def _ prod.collapse, of demo_config 99]
  by (simp add: demo_state_orders demo_config_def) (simp add: restored_def state_has_pending_request_def demo_sent_order_def)

section \<open>The event loop\<close>

lemma release_queue [simp]: "om_queue (release_deferred ex n l s) = om_queue s"
proof -
  have new: "om_queue (fst (handle_new ex n a t)) = om_queue t" for a t
    by (auto simp: handle_new_def send_new_def refuse_submit_def defer_new_def insert_order_def Let_def
        oms_next_request_id_def case_prod_beta split: option.splits)
  have "om_queue (foldl (release_slot ex n l) s ks) = om_queue s" for ks
    by (induction ks arbitrary: s) (simp_all add: release_slot_def Let_def new)
  then show ?thesis by (simp add: release_deferred_def)
qed

lemma adopt_queue [simp]:
  "om_queue (learn_exchange_id x i s) = om_queue s" "om_queue (adopt_replace x i s) = om_queue s"
  by (simp_all add: learn_exchange_id_def adopt_replace_def adopt_client_id_def adopt_exchange_id_def Let_def
      split: option.splits)

lemma apply_event_queue: "om_queue (apply_event ex n ev s) = om_queue s"
  by (auto simp: apply_event_def apply_ack_def apply_reject_def apply_fill_def apply_cancel_def apply_replace_def
      apply_failure_def Let_def case_prod_beta split: ExecutionEvent.splits option.splits sum.splits CancelStatus.splits)

lemma drain_empties:
  assumes "ring_inv (om_queue s)" "length (ring_list (om_queue s)) < k"
  shows "ring_list (om_queue (fst (drain ex k now s))) = [] \<and> snd (drain ex k now s) = length (ring_list (om_queue s))"
  using assms
proof (induction k arbitrary: now s)
  case (Suc k)
  let ?q = "fst (try_pop (om_queue s))"
  show ?case
  proof (cases "ring_list (om_queue s)")
    case Nil
    then have "snd (try_pop (om_queue s)) = None" by (rule spsc.pop_empty [OF Suc.prems(1)])
    then show ?thesis using Nil spsc.pop_queue [OF Suc.prems(1)] by (simp add: case_prod_beta)
  next
    case (Cons ev evs)
    then have p: "snd (try_pop (om_queue s)) = Some ev" by (rule spsc.pop_hd [OF Suc.prems(1)])
    let ?t = "apply_event ex (now 0) ev (s\<lparr>om_queue := ?q\<rparr>)"
    have t: "om_queue ?t = ?q" by (simp add: apply_event_queue)
    have "ring_list (om_queue (fst (drain ex k (now \<circ> Suc) ?t))) = [] \<and> snd (drain ex k (now \<circ> Suc) ?t) = length evs"
      using Suc.IH [of ?t "now \<circ> Suc"] Suc.prems Cons spsc.pop_inv [OF Suc.prems(1)] spsc.pop_queue [OF Suc.prems(1)]
      by (simp add: t o_def)
    then show ?thesis using Cons p by (simp add: case_prod_beta)
  qed
qed simp



section \<open>Unsolicited amendments\<close>

text \<open>
  An accepted amendment the order manager never asked for: it has no pending price and quantity for it, but the
  confirmation overwrites the live ones with the unset pending values. The order stays live with a quantity of zero,
  and the exposure snapshot is determinate without it.
\<close>

definition demo_amendment :: OrderReplaceEvent where
  "demo_amendment = \<lparr>rpl_original_client_order_id = ''mm-7-1'', rpl_new_client_order_id = ''x'',
     rpl_original_exchange_order_id = [], rpl_new_exchange_order_id = [], rpl_symbol = ''BTC'', rpl_symbol_id = 0,
     rpl_accepted = True, rpl_new_status = StNew, rpl_new_price = 100, rpl_new_qty = 5, rpl_cumulative_qty = 0,
     rpl_error = \<lparr>ee_category = NoError, ee_outcome = OutAcknowledged, ee_reason = NoReason, ee_venue_code = 0,
       ee_retryable = False\<rparr>, rpl_transact_ns = 25, rpl_seq = 1\<rparr>"

lemma demo_exposure_before: "es_working_buy (exposure ''BTC'' demo_state) = 5"
proof -
  have o: "od_side demo_sent_order = Buy" "contribution demo_sent_order = 5" "may_trade ''BTC'' demo_sent_order"
    "od_state demo_sent_order = PendingNew"
    by (simp_all add: demo_sent_order_def fresh_order_def demo_new_def default_action_def contribution_def may_trade_def
        consumes_exposure_def is_terminal_def)
  then have "exposure ''BTC'' demo_state = add_exposure demo_sent_order empty_exposure"
    by (simp add: exposure_def demo_state_orders expose_order_def may_trade_def)
  with o show ?thesis using add_exposure_fields [of demo_sent_order empty_exposure]
    by (simp add: empty_exposure_def in64_def)
qed

theorem unsolicited_amendment_hides_exposure:
  "let s = apply_event ex 30 (EvOrderReplace demo_amendment) demo_state; e = exposure ''BTC'' s
   in es_working_buy (exposure ''BTC'' demo_state) = 5
    \<and> od_state (order_at s 0) = Working \<and> od_original_quantity (order_at s 0) = 0
    \<and> es_determinate e \<and> es_working_buy e = 0"
proof -
  let ?s = "apply_event ex 30 (EvOrderReplace demo_amendment) demo_state"
  let ?p = "demo_sent_order\<lparr>od_venue_ns := 25, od_price := 0, od_original_quantity := 0, od_pending_client_order_id := [],
    od_pending_request := 0\<rparr>"
  have ok: "\<not> is_err (validate_execution_event (EvOrderReplace demo_amendment))"
    by (simp add: validate_execution_event_def demo_amendment_def is_consistent_def ee_is_error_def is_err_def)
  let ?t = "adopt_replace [] 0 (put_order 0 (demo_sent_order\<lparr>od_venue_ns := 25\<rparr>) demo_state)"
  have o: "od_state demo_sent_order = PendingNew" "od_pending_client_order_id demo_sent_order = []"
    "od_pending_price demo_sent_order = 0" "od_pending_quantity demo_sent_order = 0" "od_cumulative_quantity demo_sent_order = 0"
    by (simp_all add: demo_sent_order_def fresh_order_def)
  have t: "om_orders ?t = [?p]"
    by (simp add: adopt_replace_def adopt_client_id_def adopt_exchange_id_def put_order_def order_at_def Let_def
        demo_state_orders o split: option.split)
  have "?s = om_transition 30 0 (resting_state ?p) OeReplaceAcknowledged (detail_for demo_sent_order) ?t"
    unfolding apply_event_def using ok t
    by (simp add: apply_replace_def find_client_def demo_state_client demo_amendment_def demo_state_orders order_at_def o is_terminal_def)
  then have "om_orders ?s = [?p\<lparr>od_state := Working\<rparr>]"
    using t by (intro nth_equalityI) (simp_all add: order_at_transition [unfolded order_at_def] enter_state_def o
      resting_state_def order_legal_transition_def)
  moreover have "exposure ''BTC'' ?s = empty_exposure" unfolding exposure_def calculation
    using o by (simp add: expose_order_def contribution_def remaining_def checked_sub_def)
  ultimately show ?thesis using demo_exposure_before by (simp add: Let_def order_at_def empty_exposure_def)
qed

end
