(* ===== verification/OmsHistory.thy ===== *)
theory OmsHistory
  imports OmsProperties
begin

text \<open>
  The history of an order over calls and restarts: which states an order manager can be in when sessions may begin by
  restoring the saved state of an earlier one, the life cycle of an order step by step, and the journal. The journal
  of the model keeps every record; \<^verbatim>\<open>InMemoryOrderJournal\<close> keeps the last 4096.
\<close>

section \<open>Sessions and restarts\<close>

text \<open>
  The states of an order manager: a fresh one, one more call, and a fresh one that restored the state a predecessor
  saved. The first argument holds the states the orders had when the session began.
\<close>

inductive om_reachable :: "OrderState list \<Rightarrow> OrderManager \<Rightarrow> bool" where
  fresh: "oc_max_orders cfg < 2 ^ 64 \<Longrightarrow> om_reachable [] (new_oms cfg)"
| called: "om_reachable bs s \<Longrightarrow> om_reachable bs (om_do ex s c)"
| restarted: "om_reachable bs s \<Longrightarrow> oc_max_orders cfg < 2 ^ 64 \<Longrightarrow> length (om_orders s) \<le> oc_max_orders cfg \<Longrightarrow>
    om_reachable (states s) (fst (restore now (snapshot_for_recovery s) (new_oms cfg)))"

lemma reachable_run: "om_reachable bs s \<Longrightarrow> om_reachable bs (om_run ex cs s)"
  unfolding om_run_def by (induction cs arbitrary: s) (simp_all add: called)

lemma tracked_do: "tracked bs pre s \<Longrightarrow> tracked bs pre (om_do ex s c)"
proof -
  assume s: "tracked bs pre s"
  then have "tracked bs pre (attach_execution s)"
    using om_inv_fields(5) [of s True] by (simp add: attach_execution_def tracked_def states_def)
  moreover obtain now cmd where "c = (now, cmd)" by (cases c)
  ultimately show ?thesis
    using s
    by (cases cmd) (simp_all add: history.submit_keeps history.on_execution_keeps history.process_events_keeps
        history.on_timer_keeps history.reconcile_keeps history.resolve_keeps)
qed

lemma tracked_run: "tracked bs pre s \<Longrightarrow> tracked bs pre (om_run ex cs s)"
  unfolding om_run_def by (induction cs arbitrary: s) (simp_all add: tracked_do)

text \<open>Restoring: the journal begins with the orders that were in flight becoming Unknown.\<close>

definition restoring :: "OrderRecord list \<Rightarrow> OrderManager \<Rightarrow> OrderManager \<Rightarrow> bool" where
  "restoring os s u \<longleftrightarrow> chained (map od_state os) [] (states u) (om_journal u)
     \<and> (\<forall>r \<in> set (om_journal u). jr_logical_id r \<le> length os)
     \<and> (\<forall>c i. om_by_client_id u c = Some i \<longrightarrow> i < length os) \<and> (\<forall>x i. om_by_exchange_id u x = Some i \<longrightarrow> i < length os)
     \<and> om_config u = om_config s \<and> om_deferred u = om_deferred s \<and> om_deferred_count u = om_deferred_count s
     \<and> om_queue u = om_queue s"

lemma restoring_order:
  assumes "restoring os s u" "k < length os" "length (om_orders u) = length os" "od_logical_id (order_at u k) = Suc k"
  shows "restoring os s (restore_order now u k)"
proof (cases "state_has_pending_request (od_state (order_at u k))")
  case False
  then show ?thesis using assms by (auto simp: restoring_def restore_order_def Let_def states_def)
next
  case True
  let ?t = "restore_order now u k"
  obtain r where j: "om_journal ?t = om_journal u @ [r]" and r: "jr_logical_id r = Suc k" "jr_type r \<noteq> OeEventQuarantined"
    "jr_from_state r = states u ! k" "jr_to_state r = UnknownState"
    using True assms
    by (simp add: restore_order_def Let_def journal_event_def append_record_def count_metric_def put_order_def states_def order_at_def)
  have k: "k < length (states u)" using assms by (simp add: states_def)
  have "states u ! k = od_state (order_at u k)" using k by (simp add: states_def order_at_def)
  then have legal: "order_legal_transition (states u ! k) (jr_to_state r)"
    using True by (auto simp: r(4) state_has_pending_request_def order_legal_transition_def is_terminal_def)
  have "chained (map od_state os) [] (states u) (om_journal u)" using assms(1) by (simp add: restoring_def)
  from chained_move [OF this k r(1-3) legal]
  have "chained (map od_state os) [] (states ?t) (om_journal ?t)"
    using True by (simp add: j r(4)) (simp add: states_def restore_order_def Let_def put_order_def map_update)
  then show ?thesis using assms True r(1) by (auto simp: restoring_def j) (auto simp: restore_order_def Let_def split: if_splits)
qed

lemma om_inv_restored:
  assumes inv: "om_inv s" and cfg: "oc_max_orders cfg < 2 ^ 64" "length (om_orders s) \<le> oc_max_orders cfg"
    and t: "t = fst (restore now (snapshot_for_recovery s) (new_oms cfg))"
  shows "om_inv t \<and> chained (states s) [] (states t) (om_journal t)"
proof -
  let ?os = "om_orders s"
  define s1 where "s1 = (new_oms cfg)\<lparr>om_orders := ?os, om_next_logical_id := om_next_logical_id s,
     om_next_request_id := om_next_request_id s, om_journal_sequence := om_journal_sequence s,
     om_id_generator := generator_restore (om_id_generator (new_oms cfg)) (ig_sequence (om_id_generator s)),
     om_by_client_id := Map.empty, om_by_exchange_id := Map.empty, om_by_logical_id := Map.empty\<rparr>"
  have new: "om_orders (new_oms cfg) = []" "om_config (new_oms cfg) = cfg" "om_journal (new_oms cfg) = []"
    by (simp_all add: new_oms_def)
  have tf: "t = foldl (restore_order now) s1 [0..<length ?os]"
    using t cfg by (simp add: restore_def Let_def new snapshot_for_recovery_def s1_def)
  have init: "om_orders s1 = ?os" "om_by_logical_id s1 = Map.empty" "om_by_client_id s1 = Map.empty"
    "om_by_exchange_id s1 = Map.empty" "om_next_logical_id s1 = om_next_logical_id s" by (simp_all add: s1_def)
  have ids: "od_logical_id (?os ! i) = Suc i" if "i < length ?os" for i
    using inv that by (simp add: om_inv_def tables_ok_def order_at_def)
  have "restoring ?os s1 (foldl (restore_order now) s1 [0..<k])" if "k \<le> length ?os" for k
    using that
  proof (induction k)
    case 0
    show ?case by (simp add: restoring_def init chained_def own_records_def base_state_def states_def) (simp add: s1_def new)
  next
    case (Suc k)
    let ?u = "foldl (restore_order now) s1 [0..<k]"
    have "om_orders ?u = map restored (take k ?os) @ drop k ?os" using restore_fold [OF init(1-4) _ refl, of k now] Suc.prems by simp
    then have "length (om_orders ?u) = length ?os" "od_logical_id (order_at ?u k) = Suc k"
      using Suc.prems ids [of k] by (simp_all add: order_at_def nth_append)
    with Suc show ?case by (simp add: restoring_order)
  qed
  then have r: "restoring ?os s1 t" by (simp add: tf)
  note f = restore_fold [OF init(1-4) order_refl tf]
  have orders: "om_orders t = map restored ?os" using f by simp
  have lw: "last_with od_logical_id l ?os i \<longleftrightarrow> i < length ?os \<and> l = Suc i" for l i
    using ids by (auto simp: last_with_def)
  have "om_by_logical_id t l = (if 0 < l \<and> l \<le> length ?os then Some (l - 1) else None)" for l
    using f lw by (cases "om_by_logical_id t l") (auto split: if_splits, metis Suc_pred le_simps(3) option.distinct(1))
  then have "tables_ok t"
    using r f cfg inv ids
    by (auto simp: tables_ok_def orders order_at_def restoring_def om_inv_def init) (auto simp: s1_def new)
  moreover have "records_ok t"
    using inv by (auto simp: records_ok_def orders order_at_def om_inv_def restored_def)
  moreover have "deferred_ok t \<and> queue_ok t"
    using om_inv_new [of cfg] r cfg by (simp add: om_inv_def deferred_ok_def queue_ok_def restoring_def) (simp add: s1_def)
  moreover have "journal_ok t" using r by (auto simp: journal_ok_def restoring_def orders)
  ultimately show ?thesis using r by (simp add: om_inv_def restoring_def states_def [of s])
qed

lemma reachable_tracked: "om_reachable bs s \<Longrightarrow> tracked bs [] s"
proof (induction rule: om_reachable.induct)
  case (fresh cfg)
  then show ?case using om_inv_new [of cfg] by (simp add: tracked_def chained_def states_def) (simp add: new_oms_def)
next
  case (restarted bs s cfg now)
  then show ?case using om_inv_restored by (simp add: tracked_def)
qed (rule tracked_do)

section \<open>The life cycle of an order\<close>

text \<open>The states that may follow each state.\<close>

fun successors :: "OrderState \<Rightarrow> OrderState set" where
  "successors Created = {PendingNew, RejectedState, Orphaned}"
| "successors PendingNew = {Working, PartiallyFilled, Filled, RejectedState, Expired, UnknownState, Orphaned}"
| "successors Working =
     {PartiallyFilled, Filled, PendingCancel, PendingReplace, Cancelled, Expired, RejectedState, UnknownState, Orphaned}"
| "successors PartiallyFilled =
     {Filled, PendingCancel, PendingReplace, Cancelled, Expired, UnknownState, Orphaned}"
| "successors PendingCancel = {Working, PartiallyFilled, Filled, Cancelled, Expired, UnknownState, Orphaned}"
| "successors PendingReplace =
     {Working, PartiallyFilled, Filled, Cancelled, RejectedState, Expired, UnknownState, Orphaned}"
| "successors UnknownState = - {UnknownState}"
| "successors Orphaned = {Cancelled, UnknownState}"
| "successors Filled = {}"
| "successors Cancelled = {}"
| "successors RejectedState = {}"
| "successors Expired = {}"

text \<open>A sequence of records that starts in one state, moves at each record to a successor or stays, and ends in another.\<close>

fun moves :: "OrderState \<Rightarrow> OrderJournalRecord list \<Rightarrow> OrderState \<Rightarrow> bool" where
  "moves st [] st' \<longleftrightarrow> st' = st"
| "moves st (r # rs) st' \<longleftrightarrow>
     jr_from_state r = st \<and> (jr_to_state r = st \<or> jr_to_state r \<in> successors st) \<and> moves (jr_to_state r) rs st'"

lemma legal_successors: "order_legal_transition st st' \<longleftrightarrow> st' = st \<or> st' \<in> successors st"
  by (cases st; cases st') (simp_all add: order_legal_transition_def is_terminal_def)

lemma replay_moves: "replay st rs = Some st' \<longleftrightarrow> moves st rs st'"
  by (induction rs arbitrary: st) (auto simp: legal_successors)

text \<open>
  C4. The order life cycle: whatever sequence of calls the order manager executes, from any state that calls and
  restarts lead to, an order in the table stays the same order (identity, instrument, side and owner never change and
  its position in the table is stable); every change of its state is recorded, and the records the calls append for
  it, quarantined ones left out, lead from its state before to its state after one step at a time, each step starting
  where the last one ended and going to one of the successors listed for that state or staying; and once it is filled,
  cancelled, rejected or expired no later event, request, timeout, reconciliation or resolution changes its state,
  quantities, price, fees or remembered trades.
\<close>

theorem order_lifecycle:
  assumes "om_reachable bs s" and "i < length (om_orders s)" and "t = om_run ex cs s"
  shows "i < length (om_orders t) \<and> same_order (order_at s i) (order_at t i)
    \<and> (\<exists>new. om_journal t = om_journal s @ new
         \<and> moves (od_state (order_at s i)) (own_records (od_logical_id (order_at s i)) new) (od_state (order_at t i)))
    \<and> (is_terminal (od_state (order_at s i)) \<longrightarrow> settled (order_at t i) = settled (order_at s i))"
proof -
  have inv: "om_inv s" using reachable_tracked [OF assms(1)] by (simp add: tracked_def)
  have ev: "i < length (om_orders t) \<and> same_order (order_at s i) (order_at t i)
    \<and> (is_terminal (od_state (order_at s i)) \<longrightarrow> settled (order_at t i) = settled (order_at s i))"
    using evolves_run [of s ex cs] assms by (auto simp: evolves_def od_evolves_def)
  have l: "od_logical_id (order_at s i) = Suc i" using inv assms(2) by (simp add: om_inv_def tables_ok_def)
  obtain new where "om_journal t = om_journal s @ new"
    "replay (base_state (states s) i) (own_records (Suc i) new) = Some (states t ! i)"
    using tracked_run [OF tracked_start [OF inv], of ex cs] ev assms(3) by (auto simp: tracked_def chained_def states_def)
  then show ?thesis
    using ev l assms(2) by (auto simp: replay_moves base_state_def states_def order_at_def)
qed

lemma demo_reachable: "om_reachable [] demo_state"
  unfolding demo_state_def by (intro reachable_run fresh demo_config_fits)

lemma demo_timeout_run: "om_run (\<lambda>_ _. Ok) [(6000, CmTimer)] demo_state = on_timer 6000 demo_state"
  by (simp add: om_run_def)

theorem order_lifecycle_witness:
  "same_order demo_sent_order (order_at (on_timer 6000 demo_state) 0)
   \<and> (\<exists>new. om_journal (on_timer 6000 demo_state) = om_journal demo_state @ new \<and> moves PendingNew (own_records 1 new) UnknownState)"
  using order_lifecycle [OF demo_reachable _ demo_timeout_run [symmetric], of 0]
  by (simp add: demo_state_orders order_at_def demo_expired) (simp add: demo_sent_order_def fresh_order_def)

section \<open>The journal\<close>

text \<open>
  C21. The journal tells the truth: in every state that calls and restarts lead to, replaying the journal records of an
  order, leaving out the quarantined ones, finds a chain in which each record starts in the state the previous one
  ended in and makes a legal step, and which ends in exactly the state of the order. For an order created in this
  session the chain starts in Created; for an order that the session restored it starts in the state in which the
  order was saved.
\<close>

theorem journal_replays_to_state:
  assumes "om_reachable bs s" and "i < length (om_orders s)"
  shows "moves (if i < length bs then bs ! i else Created) (trail s (od_logical_id (order_at s i))) (od_state (order_at s i))"
proof -
  note tr = reachable_tracked [OF assms(1)]
  have l: "od_logical_id (order_at s i) = Suc i" using tr assms(2) by (simp add: tracked_def om_inv_def tables_ok_def)
  have "replay (base_state bs i) (own_records (Suc i) (om_journal s)) = Some (states s ! i)"
    using tr assms(2) by (simp add: tracked_def chained_def states_def)
  then show ?thesis using l assms(2) by (simp add: replay_moves trail_def states_def order_at_def base_state_def)
qed

theorem journal_replays_to_state_witness:
  "om_reachable [PendingNew] (fst (restore 99 (snapshot_for_recovery demo_state) (new_oms demo_config)))
   \<and> moves PendingNew (trail (fst (restore 99 (snapshot_for_recovery demo_state) (new_oms demo_config))) 1) UnknownState"
proof -
  let ?t = "fst (restore 99 (snapshot_for_recovery demo_state) (new_oms demo_config))"
  have fits: "length (om_orders demo_state) \<le> oc_max_orders demo_config" by (simp add: demo_state_orders demo_config_def)
  have "states demo_state = [PendingNew]" by (simp add: states_def demo_state_orders) (simp add: demo_sent_order_def)
  then have r: "om_reachable [PendingNew] ?t" using restarted [OF demo_reachable demo_config_fits fits, of 99] by simp
  have "om_orders ?t = [restored demo_sent_order]"
    by (simp add: restore_def snapshot_for_recovery_def demo_state_orders demo_config_def new_oms_def Let_def restore_order_fields)
       (simp add: order_at_def)
  then show ?thesis using journal_replays_to_state [OF r, of 0] r
    by (simp add: order_at_def) (simp add: restored_def demo_sent_order_def fresh_order_def state_has_pending_request_def)
qed

end
