(* ===== verification/QuoteManager.thy ===== *)
theory QuoteManager
  imports StrategyTypes OrderTypes
begin

text \<open>
  The quote manager, \<^verbatim>\<open>QuoteManager.hpp\<close> and \<^verbatim>\<open>QuoteManager.cpp\<close>: it turns an intent and the working orders into order
  actions. The array of actions with its count is a list, cut at the capacity of the array. One clock reading \<open>now\<close>
  stands for the readings of a call; the latency histogram is left out.
\<close>

section \<open>Data\<close>

record QuoteManagerConfig =
  qc_max_intent_age_ns :: nanos
  qc_max_market_data_age_ns :: nanos
  qc_min_price_move_ticks :: int
  qc_min_quantity_move_fraction :: rat
  qc_min_replace_interval_ns :: nanos
  qc_cooldown_after_cancel_ns :: nanos
  qc_assume_request_lost_after_ns :: nanos
  qc_replenish_partial_fills :: bool

datatype QuoteMetric =
    QmIntentsReceived | QmIntentsRejected | QmStaleIntents | QmDuplicateIntents | QmGenerationRegressions
  | QmNewActions | QmCancelActions | QmReplaceActions | QmNoopEvaluations | QmKeeps | QmOwnershipViolations
  | QmUnknownOrderStates | QmChurnSuppressions | QmInvalidQuotesBlocked | QmPendingWaits | QmForeignOrdersSeen

definition churn :: "QuoteMetric counters \<Rightarrow> nat" where
  "churn m = (m QmReplaceActions + m QmCancelActions) mod 18446744073709551616"

record QuoteManagerInput =
  qn_symbol :: string
  qn_symbol_id :: symbol_id
  qn_instrument :: "InstrumentSpec option"
  qn_capabilities :: "ExchangeCapabilities option"
  qn_working :: WorkingQuoteState
  qn_market_data_age_ns :: nanos
  qn_system_ready :: bool

record SlotMemory =
  sm_last_action :: OrderActionType
  sm_last_action_generation :: nat
  sm_last_action_ns :: nanos
  sm_last_cancel_ns :: nanos

definition no_memory :: SlotMemory where
  "no_memory = \<lparr>sm_last_action = ActNoop, sm_last_action_generation = 0, sm_last_action_ns = 0, sm_last_cancel_ns = 0\<rparr>"

record DesiredQuote =
  dq_wanted :: bool
  dq_price :: px
  dq_quantity :: qty

definition no_quote :: DesiredQuote where
  "no_quote = \<lparr>dq_wanted = False, dq_price = 0, dq_quantity = 0\<rparr>"

record SlotDecision =
  sd_outcome :: SlotOutcome
  sd_reason :: ActionReason
  sd_invalid_reason :: RejectReason

definition no_decision :: SlotDecision where
  "no_decision = \<lparr>sd_outcome = SoIdle, sd_reason = ArNone, sd_invalid_reason = NoReason\<rparr>"

definition kMaxActionsPerEvaluation :: nat where
  "kMaxActionsPerEvaluation = 4"

record QuoteManagerResult =
  qr_intent_accepted :: bool
  qr_rejection :: QuoteRejection
  qr_actions :: "OrderAction list"
  qr_bid :: SlotDecision
  qr_ask :: SlotDecision
  qr_generation :: nat

definition no_quote_result :: QuoteManagerResult where
  "no_quote_result = \<lparr>qr_intent_accepted = False, qr_rejection = QrNone, qr_actions = [], qr_bid = no_decision,
     qr_ask = no_decision, qr_generation = 0\<rparr>"

definition qr_decision :: "QuoteManagerResult \<Rightarrow> QuoteSlot \<Rightarrow> SlotDecision" where
  "qr_decision r slot = (if slot = Bid then qr_bid r else qr_ask r)"

definition has_actions :: "QuoteManagerResult \<Rightarrow> bool" where
  "has_actions r \<longleftrightarrow> length (qr_actions r) > 0"

definition qr_count_of :: "QuoteManagerResult \<Rightarrow> OrderActionType \<Rightarrow> nat" where
  "qr_count_of r ty = length (filter (\<lambda>a. oa_type a = ty) (qr_actions r))"

record QuoteManager =
  qm_owner :: string
  qm_config :: QuoteManagerConfig
  qm_last_generation :: nat
  qm_memory :: "QuoteSlot \<Rightarrow> SlotMemory"
  qm_metrics :: "QuoteMetric counters"

definition new_quote_manager :: "string \<Rightarrow> QuoteManagerConfig \<Rightarrow> QuoteManager" where
  "new_quote_manager owner config = \<lparr>qm_owner = owner, qm_config = config, qm_last_generation = 0,
     qm_memory = (\<lambda>_. no_memory), qm_metrics = zero_counters\<rparr>"

definition qm_reset :: "QuoteManager \<Rightarrow> QuoteManager" where
  "qm_reset m = m\<lparr>qm_last_generation := 0, qm_memory := (\<lambda>_. no_memory)\<rparr>"

definition qm_count :: "QuoteMetric \<Rightarrow> QuoteManager \<Rightarrow> QuoteManager" where
  "qm_count c m = m\<lparr>qm_metrics := bump (qm_metrics m) c\<rparr>"

definition remember :: "QuoteSlot \<Rightarrow> (SlotMemory \<Rightarrow> SlotMemory) \<Rightarrow> QuoteManager \<Rightarrow> QuoteManager" where
  "remember slot f m = m\<lparr>qm_memory := (qm_memory m)(slot := f (qm_memory m slot))\<rparr>"

section \<open>Screening, validation and comparison\<close>

definition ticks_between :: "px \<Rightarrow> px \<Rightarrow> px \<Rightarrow> int" where
  "ticks_between a b tick =
     (if \<not> tick > 0 then (if a = b then 0 else 1)
      else let diff = wrap64 (a - b); magnitude = (if diff < 0 then wrap64 (- diff) else diff)
           in magnitude sdiv tick)"

definition qm_screen :: "QuoteManager \<Rightarrow> nanos \<Rightarrow> QuoteIntent \<Rightarrow> QuoteManagerInput \<Rightarrow> QuoteRejection" where
  "qm_screen m now intent input =
     (if qi_generation intent < qm_last_generation m then QrGenerationRegression
      else if si_name (qi_identity intent) \<noteq> qm_owner m then QrIdentityMismatch
      else if \<not> qn_system_ready input then QrNotRunning
      else if (case qn_instrument input of None \<Rightarrow> True | Some spec \<Rightarrow> \<not> spec_is_valid spec) then QrInstrumentNotLoaded
      else if qn_market_data_age_ns input > qc_max_market_data_age_ns (qm_config m) then QrMarketDataStale
      else if qc_max_intent_age_ns (qm_config m) > 0 \<and> qi_computed_ns intent > 0
          \<and> wrap64 (now - qi_computed_ns intent) > qc_max_intent_age_ns (qm_config m) then QrIntentExpired
      else QrNone)"

definition probe_request :: "nanos \<Rightarrow> QuoteSlot \<Rightarrow> DesiredQuote \<Rightarrow> QuoteManagerInput \<Rightarrow> OrderRequest" where
  "probe_request now slot desired input = default_request\<lparr>or_client_order_id := fst (inline_assign 40 ''quote-manager-probe''),
     or_symbol := qn_symbol input, or_symbol_id := qn_symbol_id input, or_side := slot_side slot, or_type := Limit,
     or_tif := GTC, or_price := dq_price desired, or_quantity := dq_quantity desired, or_created_ns := now\<rparr>"

definition kPermissive :: ExchangeCapabilities where
  "kPermissive = default_capabilities\<lparr>cap_client_order_id := True\<rparr>"

definition qm_validate :: "nanos \<Rightarrow> QuoteSlot \<Rightarrow> DesiredQuote \<Rightarrow> QuoteManagerInput \<Rightarrow> RejectReason" where
  "qm_validate now slot desired input =
     (if \<not> dq_wanted desired then NoReason
      else
        let caps = (case qn_capabilities input of None \<Rightarrow> kPermissive | Some c \<Rightarrow> c);
            error = validate_order (probe_request now slot desired input) (the (qn_instrument input)) caps
        in if \<not> ee_is_error error then NoReason
           else if ee_reason error \<noteq> NoReason then ee_reason error else UnknownReason)"

definition qm_ratio :: "qty \<Rightarrow> qty \<Rightarrow> rat" where
  "qm_ratio a b = (if b = 0 then 0 else ddiv (of_int64 a) (of_int64 b))"

definition represents :: "QuoteManagerConfig \<Rightarrow> WorkingOrder \<Rightarrow> DesiredQuote \<Rightarrow> InstrumentSpec \<Rightarrow> bool" where
  "represents c order desired spec =
     (if \<not> wo_is_live order \<or> \<not> dq_wanted desired then False
      else if ticks_between (wo_price order) (dq_price desired) (is_tick_size spec) \<ge> qc_min_price_move_ticks c then False
      else if \<not> qc_replenish_partial_fills c \<and> is_partially_filled order then True
      else
        let resting = wo_remaining order;
            difference = (if resting > dq_quantity desired then fx_sub resting (dq_quantity desired)
                          else fx_sub (dq_quantity desired) resting)
        in if difference = 0 then True
           else if qc_min_quantity_move_fraction c \<le> 0 then False
           else qm_ratio difference (dq_quantity desired) < qc_min_quantity_move_fraction c)"

section \<open>Actions\<close>

definition make_action ::
  "nanos \<Rightarrow> OrderActionType \<Rightarrow> QuoteSlot \<Rightarrow> ActionReason \<Rightarrow> QuoteIntent \<Rightarrow> QuoteManagerInput \<Rightarrow> OrderAction" where
  "make_action now ty slot reason intent input = default_action\<lparr>oa_type := ty, oa_slot := slot, oa_reason := reason,
     oa_symbol := qn_symbol input, oa_symbol_id := qn_symbol_id input, oa_side := slot_side slot,
     oa_identity := qi_identity intent, oa_generation := qi_generation intent,
     oa_market_sequence := qi_market_sequence intent, oa_trace := qi_trace intent, oa_issued_ns := now\<rparr>"

definition aim_at :: "WorkingOrder \<Rightarrow> OrderAction \<Rightarrow> OrderAction" where
  "aim_at order a = a\<lparr>oa_target_client_order_id := wo_client_order_id order,
     oa_target_exchange_order_id := wo_exchange_order_id order\<rparr>"

definition ask_for :: "DesiredQuote \<Rightarrow> OrderAction \<Rightarrow> OrderAction" where
  "ask_for desired a = a\<lparr>oa_price := dq_price desired, oa_quantity := dq_quantity desired\<rparr>"

type_synonym quoting = "QuoteManager \<times> QuoteManagerResult"

definition push_action :: "OrderAction \<Rightarrow> quoting \<Rightarrow> quoting" where
  "push_action a q =
     (if length (qr_actions (snd q)) \<ge> kMaxActionsPerEvaluation then q
      else ((case oa_type a of
               ActNew \<Rightarrow> qm_count QmNewActions (fst q)
             | ActCancel \<Rightarrow> qm_count QmCancelActions (fst q)
             | ActReplace \<Rightarrow> qm_count QmReplaceActions (fst q)
             | ActNoop \<Rightarrow> fst q),
            (snd q)\<lparr>qr_actions := qr_actions (snd q) @ [a]\<rparr>))"

definition record_action :: "OrderActionType \<Rightarrow> bool \<Rightarrow> nat \<Rightarrow> nanos \<Rightarrow> SlotMemory \<Rightarrow> SlotMemory" where
  "record_action ty cancels generation now s = s\<lparr>sm_last_action := ty, sm_last_action_generation := generation,
     sm_last_action_ns := now, sm_last_cancel_ns := (if cancels then now else sm_last_cancel_ns s)\<rparr>"

definition noted :: "QuoteMetric \<Rightarrow> SlotOutcome \<Rightarrow> quoting \<Rightarrow> quoting \<times> SlotDecision" where
  "noted c out q = ((qm_count c (fst q), snd q), no_decision\<lparr>sd_outcome := out\<rparr>)"

section \<open>Resolving a slot\<close>

definition withdraw_slot ::
  "nanos \<Rightarrow> QuoteSlot \<Rightarrow> QuoteIntent \<Rightarrow> QuoteManagerInput \<Rightarrow> quoting \<Rightarrow> quoting \<times> SlotDecision" where
  "withdraw_slot now slot intent input q =
     (let order = wq_slot (qn_working input) slot;
          (m, res) = push_action (aim_at order (make_action now ActCancel slot ArQuoteDisabled intent input)) q
      in ((remember slot (record_action ActCancel True (qi_generation intent) now) m, res),
          no_decision\<lparr>sd_outcome := SoCancel, sd_reason := ArQuoteDisabled\<rparr>))"

definition create_quote ::
  "nanos \<Rightarrow> QuoteSlot \<Rightarrow> DesiredQuote \<Rightarrow> QuoteIntent \<Rightarrow> QuoteManagerInput \<Rightarrow> quoting \<Rightarrow> quoting \<times> SlotDecision" where
  "create_quote now slot desired intent input q =
     (let (m, res) = push_action (ask_for desired (make_action now ActNew slot ArNoQuoteResting intent input)) q
      in ((remember slot (record_action ActNew False (qi_generation intent) now) m, res),
          no_decision\<lparr>sd_outcome := SoNew, sd_reason := ArNoQuoteResting\<rparr>))"

definition change_reason :: "QuoteManagerConfig \<Rightarrow> WorkingOrder \<Rightarrow> DesiredQuote \<Rightarrow> InstrumentSpec \<Rightarrow> ActionReason" where
  "change_reason c order desired spec =
     (if ticks_between (wo_price order) (dq_price desired) (is_tick_size spec) < qc_min_price_move_ticks c
      then if is_partially_filled order then ArPartialFillReplenish else ArQuantityChanged
      else ArPriceChanged)"

definition change_quote ::
  "nanos \<Rightarrow> QuoteSlot \<Rightarrow> DesiredQuote \<Rightarrow> ActionReason \<Rightarrow> QuoteIntent \<Rightarrow> QuoteManagerInput \<Rightarrow> quoting \<Rightarrow> quoting \<times> SlotDecision" where
  "change_quote now slot desired reason intent input q =
     (let order = wq_slot (qn_working input) slot
      in if (case qn_capabilities input of None \<Rightarrow> False | Some c \<Rightarrow> cap_replace c)
         then
           let (m, res) = push_action (aim_at order (ask_for desired (make_action now ActReplace slot reason intent input))) q
           in ((remember slot (record_action ActReplace False (qi_generation intent) now) m, res),
               no_decision\<lparr>sd_outcome := SoReplace, sd_reason := reason\<rparr>)
         else
           let q1 = push_action (aim_at order (make_action now ActCancel slot ArReplaceUnsupported intent input)) q;
               (m, res) = push_action (ask_for desired (make_action now ActNew slot ArReplaceUnsupported intent input)) q1
           in ((remember slot (record_action ActNew True (qi_generation intent) now) m, res),
               no_decision\<lparr>sd_outcome := SoCancelThenNew, sd_reason := reason\<rparr>))"

definition awaiting_own_request :: "SlotMemory \<Rightarrow> WorkingOrder \<Rightarrow> bool" where
  "awaiting_own_request mem order \<longleftrightarrow> (sm_last_action mem = ActNew \<or> sm_last_action mem = ActReplace) \<and> \<not> wo_is_live order"

definition request_fresh :: "QuoteManager \<Rightarrow> nanos \<Rightarrow> QuoteSlot \<Rightarrow> WorkingOrder \<Rightarrow> bool" where
  "request_fresh m now slot order \<longleftrightarrow> awaiting_own_request (qm_memory m slot) order
     \<and> qc_assume_request_lost_after_ns (qm_config m) > 0
     \<and> wrap64 (now - sm_last_action_ns (qm_memory m slot)) < qc_assume_request_lost_after_ns (qm_config m)"

text \<open>The second half of \<open>resolve_slot\<close>, once ownership, uncertainty and outstanding requests are out of the way.\<close>

definition settle_slot ::
  "nanos \<Rightarrow> QuoteSlot \<Rightarrow> DesiredQuote \<Rightarrow> QuoteIntent \<Rightarrow> QuoteManagerInput \<Rightarrow> quoting \<Rightarrow> quoting \<times> SlotDecision" where
  "settle_slot now slot desired intent input q =
     (let c = qm_config (fst q); order = wq_slot (qn_working input) slot; mem = qm_memory (fst q) slot;
          spec = the (qn_instrument input); invalid = qm_validate now slot desired input;
          reason = change_reason c order desired spec
      in if \<not> dq_wanted desired
           then (if \<not> wo_is_live order then (q, no_decision) else withdraw_slot now slot intent input q)
         else if invalid \<noteq> NoReason
           then (let (q1, d) = noted QmInvalidQuotesBlocked SoBlockedInvalid q in (q1, d\<lparr>sd_invalid_reason := invalid\<rparr>))
         else if \<not> wo_is_live order
           then (if qc_cooldown_after_cancel_ns c > 0 \<and> sm_last_cancel_ns mem > 0
                   \<and> wrap64 (now - sm_last_cancel_ns mem) < qc_cooldown_after_cancel_ns c
                 then noted QmChurnSuppressions SoSuppressedByChurnControl q
                 else create_quote now slot desired intent input q)
         else if represents c order desired spec then noted QmKeeps SoKeep q
         else if qc_min_replace_interval_ns c > 0 \<and> sm_last_action_ns mem > 0
             \<and> wrap64 (now - sm_last_action_ns mem) < qc_min_replace_interval_ns c
           then (let (q1, d) = noted QmChurnSuppressions SoSuppressedByChurnControl q in (q1, d\<lparr>sd_reason := reason\<rparr>))
         else change_quote now slot desired reason intent input q)"

definition resolve_slot ::
  "nanos \<Rightarrow> QuoteSlot \<Rightarrow> DesiredQuote \<Rightarrow> QuoteIntent \<Rightarrow> QuoteManagerInput \<Rightarrow> quoting \<Rightarrow> quoting \<times> SlotDecision" where
  "resolve_slot now slot desired intent input q =
     (let order = wq_slot (qn_working input) slot
      in if wo_present order \<and> \<not> owner_matches (wo_owner order) (qm_owner (fst q)) slot
           then noted QmOwnershipViolations SoFrozenUnknown q
         else if is_uncertain order
           then (let (q1, d) = noted QmUnknownOrderStates SoFrozenUnknown q
                 in if \<not> dq_wanted desired \<and> \<not> wo_has_pending_request order then withdraw_slot now slot intent input q1
                    else (q1, d))
         else if wo_has_pending_request order then noted QmPendingWaits SoAwaitingPending q
         else if request_fresh (fst q) now slot order then noted QmPendingWaits SoAwaitingPending q
         else settle_slot now slot desired intent input q)"

section \<open>Evaluation\<close>

definition desired_quote :: "QuoteIntent \<Rightarrow> QuoteManagerInput \<Rightarrow> QuoteSlot \<Rightarrow> DesiredQuote" where
  "desired_quote intent input slot =
     (case qi_action intent of
        QaQuote \<Rightarrow>
          (if slot = Bid then \<lparr>dq_wanted = qi_quote_bid intent, dq_price = qi_bid_price intent, dq_quantity = qi_bid_quantity intent\<rparr>
           else \<lparr>dq_wanted = qi_quote_ask intent, dq_price = qi_ask_price intent, dq_quantity = qi_ask_quantity intent\<rparr>)
      | QaNoChange \<Rightarrow>
          (let resting = wq_slot (qn_working input) slot
           in \<lparr>dq_wanted = wo_is_live resting, dq_price = wo_price resting, dq_quantity = wo_remaining resting\<rparr>)
      | QaPull \<Rightarrow> no_quote)"

definition disable_slot ::
  "nanos \<Rightarrow> ActionReason \<Rightarrow> QuoteIntent \<Rightarrow> QuoteManagerInput \<Rightarrow> quoting \<Rightarrow> QuoteSlot \<Rightarrow> quoting" where
  "disable_slot now reason synthetic input q slot =
     (let order = wq_slot (qn_working input) slot;
          ((m, res), d) =
            (if wo_present order \<and> \<not> owner_matches (wo_owner order) (qm_owner (fst q)) slot
               then noted QmOwnershipViolations SoFrozenUnknown q
             else if \<not> wo_present order \<or> \<not> wo_is_live order then (q, no_decision)
             else if wo_pending order = PoCancel then noted QmPendingWaits SoAwaitingPending q
             else
               let (m1, res1) = push_action (aim_at order (make_action now ActCancel slot reason synthetic input)) q
               in ((remember slot (\<lambda>s. s\<lparr>sm_last_action := ActCancel, sm_last_action_ns := now, sm_last_cancel_ns := now\<rparr>) m1,
                    res1), no_decision\<lparr>sd_outcome := SoCancel, sd_reason := reason\<rparr>))
      in (m, if slot = Bid then res\<lparr>qr_bid := d\<rparr> else res\<lparr>qr_ask := d\<rparr>))"

definition synthetic_intent :: "QuoteManager \<Rightarrow> QuoteIntent" where
  "synthetic_intent m = default_intent\<lparr>qi_identity := \<lparr>si_name = fst (inline_assign 32 (qm_owner m)), si_version = 1,
     si_config_generation = 0\<rparr>, qi_generation := qm_last_generation m\<rparr>"

definition disable_all_quotes :: "nanos \<Rightarrow> ActionReason \<Rightarrow> QuoteManagerInput \<Rightarrow> QuoteManager \<Rightarrow> quoting" where
  "disable_all_quotes now reason input m =
     foldl (disable_slot now reason (synthetic_intent m) input)
       (m, no_quote_result\<lparr>qr_intent_accepted := True, qr_generation := qm_last_generation m\<rparr>) [Bid, Ask]"

definition advance_generation :: "nat \<Rightarrow> QuoteManager \<Rightarrow> QuoteManager" where
  "advance_generation g m = (if g > qm_last_generation m then m\<lparr>qm_last_generation := g\<rparr> else m)"

definition withdraw_reason :: "QuoteRejection \<Rightarrow> ActionReason" where
  "withdraw_reason r =
     (if r = QrIntentExpired then ArIntentExpired else if r = QrMarketDataStale then ArMarketDataStale else ArStrategyNotRunning)"

definition count_refusal :: "QuoteRejection \<Rightarrow> QuoteManager \<Rightarrow> QuoteManager" where
  "count_refusal rejection m =
     (let m1 = qm_count QmIntentsRejected m;
          m2 = (if rejection = QrGenerationRegression then qm_count QmGenerationRegressions m1 else m1)
      in if rejection = QrIntentExpired \<or> rejection = QrMarketDataStale then qm_count QmStaleIntents m2 else m2)"

definition refuse_intent :: "nanos \<Rightarrow> QuoteRejection \<Rightarrow> QuoteIntent \<Rightarrow> QuoteManagerInput \<Rightarrow> QuoteManager \<Rightarrow> quoting" where
  "refuse_intent now rejection intent input m =
     (let m1 = count_refusal rejection m
      in if implies_withdraw rejection
         then
           let (m2, w) = disable_all_quotes now (withdraw_reason rejection) input m1
           in (advance_generation (qi_generation intent) m2,
               w\<lparr>qr_rejection := rejection, qr_generation := qi_generation intent\<rparr>)
         else (m1, no_quote_result\<lparr>qr_generation := qi_generation intent, qr_rejection := rejection\<rparr>))"

definition place_quotes :: "nanos \<Rightarrow> QuoteIntent \<Rightarrow> QuoteManagerInput \<Rightarrow> QuoteManager \<Rightarrow> quoting" where
  "place_quotes now intent input m =
     (let q0 = (m, no_quote_result\<lparr>qr_generation := qi_generation intent, qr_intent_accepted := True\<rparr>);
          (q1, bid) = resolve_slot now Bid (desired_quote intent input Bid) intent input q0;
          ((m2, res), ask) = resolve_slot now Ask (desired_quote intent input Ask) intent input (fst q1, (snd q1)\<lparr>qr_bid := bid\<rparr>);
          res1 = res\<lparr>qr_ask := ask\<rparr>;
          m3 = advance_generation (qi_generation intent) m2
      in (if \<not> has_actions res1 then qm_count QmNoopEvaluations m3 else m3, res1))"

definition count_intent :: "QuoteIntent \<Rightarrow> QuoteManagerInput \<Rightarrow> QuoteManager \<Rightarrow> QuoteManager" where
  "count_intent intent input m =
     (let m1 = qm_count QmIntentsReceived m;
          m2 = m1\<lparr>qm_metrics := (qm_metrics m1)(QmForeignOrdersSeen :=
                 (qm_metrics m1 QmForeignOrdersSeen + wq_foreign_order_count (qn_working input)) mod 18446744073709551616)\<rparr>
      in if qi_generation intent = qm_last_generation m2 \<and> qm_last_generation m2 \<noteq> 0
         then qm_count QmDuplicateIntents m2 else m2)"

definition qm_evaluate :: "nanos \<Rightarrow> QuoteIntent \<Rightarrow> QuoteManagerInput \<Rightarrow> QuoteManager \<Rightarrow> quoting" where
  "qm_evaluate now intent input m =
     (let m1 = count_intent intent input m; rejection = qm_screen m1 now intent input
      in if rejection \<noteq> QrNone then refuse_intent now rejection intent input m1
         else place_quotes now intent input m1)"

section \<open>What a slot contributes\<close>

text \<open>An order in the slot that is ours, that the venue can still act on, and for which no request is outstanding.\<close>

definition own_live :: "string \<Rightarrow> QuoteSlot \<Rightarrow> WorkingOrder \<Rightarrow> bool" where
  "own_live owner slot order \<longleftrightarrow> wo_is_live order \<and> owner_matches (wo_owner order) owner slot \<and> \<not> wo_has_pending_request order"

definition foreign_order :: "string \<Rightarrow> QuoteSlot \<Rightarrow> WorkingOrder \<Rightarrow> bool" where
  "foreign_order owner slot order \<longleftrightarrow> wo_present order \<and> \<not> owner_matches (wo_owner order) owner slot"

text \<open>What the venue's rules ask of a quote, bounds that are not positive being unset.\<close>

definition venue_allows :: "InstrumentSpec \<Rightarrow> string \<Rightarrow> px \<Rightarrow> qty \<Rightarrow> bool" where
  "venue_allows spec symbol p q \<longleftrightarrow> symbol = is_symbol spec \<and> is_status spec = Trading
     \<and> 0 < q \<and> is_lot_size spec dvd q \<and> (0 < is_min_qty spec \<longrightarrow> is_min_qty spec \<le> q) \<and> (0 < is_max_qty spec \<longrightarrow> q \<le> is_max_qty spec)
     \<and> 0 < p \<and> is_tick_size spec dvd p \<and> (0 < is_price_band_lo spec \<longrightarrow> is_price_band_lo spec \<le> p)
     \<and> (0 < is_price_band_hi spec \<longrightarrow> p \<le> is_price_band_hi spec)
     \<and> (0 < is_min_notional spec \<longrightarrow> is_min_notional spec \<le> notional_of p q)"

text \<open>The action lists one slot may contribute.\<close>

definition slot_sound ::
  "QuoteManager \<Rightarrow> nanos \<Rightarrow> QuoteSlot \<Rightarrow> DesiredQuote \<Rightarrow> QuoteIntent \<Rightarrow> QuoteManagerInput \<Rightarrow> OrderAction list \<Rightarrow> bool" where
  "slot_sound m now slot desired intent input as \<longleftrightarrow>
     (let order = wq_slot (qn_working input) slot; own = own_live (qm_owner m) slot order;
          valid = (dq_wanted desired \<and> venue_allows (the (qn_instrument input)) (qn_symbol input) (dq_price desired) (dq_quantity desired));
          stands = represents (qm_config m) order desired (the (qn_instrument input));
          atomic = (\<exists>c. qn_capabilities input = Some c \<and> cap_replace c)
      in as = []
       \<or> (\<exists>r. as = [aim_at order (make_action now ActCancel slot r intent input)] \<and> own \<and> \<not> dq_wanted desired)
       \<or> (\<exists>r. as = [ask_for desired (make_action now ActNew slot r intent input)] \<and> valid
            \<and> \<not> wo_is_live order \<and> \<not> wo_has_pending_request order \<and> \<not> is_uncertain order
            \<and> \<not> foreign_order (qm_owner m) slot order)
       \<or> (\<exists>r. as = [aim_at order (ask_for desired (make_action now ActReplace slot r intent input))] \<and> valid \<and> own
            \<and> \<not> is_uncertain order \<and> \<not> stands \<and> atomic)
       \<or> (\<exists>r. as = [aim_at order (make_action now ActCancel slot r intent input),
                    ask_for desired (make_action now ActNew slot r intent input)] \<and> valid \<and> own
            \<and> \<not> is_uncertain order \<and> \<not> stands \<and> \<not> atomic))"

definition keeps_manager :: "QuoteSlot \<Rightarrow> QuoteManager \<Rightarrow> QuoteManager \<Rightarrow> bool" where
  "keeps_manager slot m m' \<longleftrightarrow> qm_owner m' = qm_owner m \<and> qm_config m' = qm_config m
     \<and> qm_last_generation m' = qm_last_generation m \<and> (\<forall>s. s \<noteq> slot \<longrightarrow> qm_memory m' s = qm_memory m s)"

lemma qm_count_fields [simp]:
  "qm_owner (qm_count c m) = qm_owner m" "qm_config (qm_count c m) = qm_config m"
  "qm_last_generation (qm_count c m) = qm_last_generation m" "qm_memory (qm_count c m) = qm_memory m"
  by (simp_all add: qm_count_def)

lemma remember_fields [simp]:
  "qm_owner (remember s f m) = qm_owner m" "qm_config (remember s f m) = qm_config m"
  "qm_last_generation (remember s f m) = qm_last_generation m"
  "qm_memory (remember s f m) = (qm_memory m)(s := f (qm_memory m s))"
  by (simp_all add: remember_def)

lemma push_action_fields [simp]:
  "qm_owner (fst (push_action a q)) = qm_owner (fst q)" "qm_config (fst (push_action a q)) = qm_config (fst q)"
  "qm_last_generation (fst (push_action a q)) = qm_last_generation (fst q)" "qm_memory (fst (push_action a q)) = qm_memory (fst q)"
  "qr_rejection (snd (push_action a q)) = qr_rejection (snd q)"
  by (simp_all add: push_action_def split: OrderActionType.split)

lemma push_action_appends:
  "length (qr_actions (snd q)) < 4 \<Longrightarrow> qr_actions (snd (push_action a q)) = qr_actions (snd q) @ [a]"
  by (simp add: push_action_def kMaxActionsPerEvaluation_def)

lemma noted_fields [simp]:
  "fst (fst (noted c out q)) = qm_count c (fst q)" "snd (fst (noted c out q)) = snd q"
  by (simp_all add: noted_def)

lemma uncertain_live: "is_uncertain order \<Longrightarrow> wo_is_live order"
  by (simp add: is_uncertain_def wo_is_live_def status_is_terminal_def)

lemma withdraw_slot_adds:
  assumes "length (qr_actions (snd q)) < 4"
  shows "qr_actions (snd (fst (withdraw_slot now slot intent input q))) = qr_actions (snd q) @
      [aim_at (wq_slot (qn_working input) slot) (make_action now ActCancel slot ArQuoteDisabled intent input)]"
    and "keeps_manager slot (fst q) (fst (fst (withdraw_slot now slot intent input q)))"
    and "qr_rejection (snd (fst (withdraw_slot now slot intent input q))) = qr_rejection (snd q)"
  using assms by (simp_all add: withdraw_slot_def Let_def case_prod_beta push_action_appends keeps_manager_def)

lemma create_quote_adds:
  assumes "length (qr_actions (snd q)) < 4"
  shows "qr_actions (snd (fst (create_quote now slot desired intent input q))) = qr_actions (snd q) @
      [ask_for desired (make_action now ActNew slot ArNoQuoteResting intent input)]"
    and "keeps_manager slot (fst q) (fst (fst (create_quote now slot desired intent input q)))"
    and "qm_memory (fst (fst (create_quote now slot desired intent input q))) slot
      = record_action ActNew False (qi_generation intent) now (qm_memory (fst q) slot)"
    and "qr_rejection (snd (fst (create_quote now slot desired intent input q))) = qr_rejection (snd q)"
  using assms by (simp_all add: create_quote_def Let_def case_prod_beta push_action_appends keeps_manager_def)

lemma change_quote_adds:
  assumes "length (qr_actions (snd q)) < 3" and "order = wq_slot (qn_working input) slot"
  shows "qr_actions (snd (fst (change_quote now slot desired reason intent input q))) = qr_actions (snd q) @
      (if \<exists>c. qn_capabilities input = Some c \<and> cap_replace c
       then [aim_at order (ask_for desired (make_action now ActReplace slot reason intent input))]
       else [aim_at order (make_action now ActCancel slot ArReplaceUnsupported intent input),
             ask_for desired (make_action now ActNew slot ArReplaceUnsupported intent input)])"
    and "keeps_manager slot (fst q) (fst (fst (change_quote now slot desired reason intent input q)))"
    and "sm_last_action (qm_memory (fst (fst (change_quote now slot desired reason intent input q))) slot) \<in> {ActNew, ActReplace}"
    and "sm_last_action_ns (qm_memory (fst (fst (change_quote now slot desired reason intent input q))) slot) = now"
    and "qr_rejection (snd (fst (change_quote now slot desired reason intent input q))) = qr_rejection (snd q)"
  using assms
  by (auto simp: change_quote_def Let_def case_prod_beta push_action_appends keeps_manager_def record_action_def split: option.splits)

text \<open>The manager with at most one counter moved.\<close>

definition counted :: "QuoteManager \<Rightarrow> QuoteManager \<Rightarrow> bool" where
  "counted m m' \<longleftrightarrow> m' = m \<or> (\<exists>c. m' = qm_count c m)"

lemma counted_fields:
  assumes "counted m m'"
  shows "qm_owner m' = qm_owner m" "qm_config m' = qm_config m" "qm_last_generation m' = qm_last_generation m" "qm_memory m' = qm_memory m"
  using assms by (auto simp: counted_def)

lemma noted_eq: "noted c x q = ((qm_count c (fst q), snd q), no_decision\<lparr>sd_outcome := x\<rparr>)" "counted m (qm_count c m)" "counted m m"
  by (auto simp: noted_def counted_def)

text \<open>The four ways a slot can be resolved.\<close>

definition slot_idle :: "quoting \<Rightarrow> quoting \<times> SlotDecision \<Rightarrow> bool" where
  "slot_idle q x \<longleftrightarrow> counted (fst q) (fst (fst x)) \<and> snd (fst x) = snd q"

definition slot_withdrawn :: "nanos \<Rightarrow> QuoteSlot \<Rightarrow> QuoteIntent \<Rightarrow> QuoteManagerInput \<Rightarrow> quoting \<Rightarrow> quoting \<times> SlotDecision \<Rightarrow> bool" where
  "slot_withdrawn now slot intent input q x \<longleftrightarrow> (\<exists>m. counted (fst q) m \<and> x = withdraw_slot now slot intent input (m, snd q))"

lemma slot_simps:
  "slot_idle q (noted c x q)" "slot_idle q (q, d)" "slot_idle q (fst (noted c x q), d)"
  "slot_withdrawn now slot intent input q (withdraw_slot now slot intent input q)"
  "slot_withdrawn now slot intent input q (withdraw_slot now slot intent input (fst (noted c x q)))"
proof -
  show "slot_withdrawn now slot intent input q (withdraw_slot now slot intent input q)"
    unfolding slot_withdrawn_def by (rule exI [of _ "fst q"]) (simp add: noted_eq)
  show "slot_withdrawn now slot intent input q (withdraw_slot now slot intent input (fst (noted c x q)))"
    unfolding slot_withdrawn_def by (rule exI [of _ "qm_count c (fst q)"]) (simp add: noted_eq)
qed (simp_all add: slot_idle_def noted_eq)

lemma settle_slot_cases:
  assumes "order = wq_slot (qn_working input) slot" "x = settle_slot now slot desired intent input q"
  shows "slot_idle q x
    \<or> slot_withdrawn now slot intent input q x \<and> wo_is_live order \<and> \<not> dq_wanted desired
    \<or> x = create_quote now slot desired intent input q \<and> dq_wanted desired \<and> qm_validate now slot desired input = NoReason
        \<and> \<not> wo_is_live order
    \<or> (\<exists>reason. x = change_quote now slot desired reason intent input q) \<and> dq_wanted desired
        \<and> qm_validate now slot desired input = NoReason \<and> wo_is_live order
        \<and> \<not> represents (qm_config (fst q)) order desired (the (qn_instrument input))"
  unfolding assms by (simp add: settle_slot_def Let_def case_prod_beta slot_simps) blast

lemma resolve_slot_cases:
  assumes "order = wq_slot (qn_working input) slot" "x = resolve_slot now slot desired intent input q"
  shows "slot_idle q x
    \<or> slot_withdrawn now slot intent input q x \<and> own_live (qm_owner (fst q)) slot order \<and> \<not> dq_wanted desired
    \<or> \<not> wo_has_pending_request order \<and> \<not> request_fresh (fst q) now slot order
      \<and> (x = create_quote now slot desired intent input q \<and> dq_wanted desired \<and> qm_validate now slot desired input = NoReason
          \<and> \<not> wo_is_live order \<and> \<not> is_uncertain order \<and> \<not> foreign_order (qm_owner (fst q)) slot order
        \<or> (\<exists>reason. x = change_quote now slot desired reason intent input q) \<and> dq_wanted desired
          \<and> qm_validate now slot desired input = NoReason \<and> own_live (qm_owner (fst q)) slot order \<and> \<not> is_uncertain order
          \<and> \<not> represents (qm_config (fst q)) order desired (the (qn_instrument input)))"
proof -
  let ?foreign = "foreign_order (qm_owner (fst q)) slot order"
  have own: "own_live (qm_owner (fst q)) slot order" if "wo_is_live order" "\<not> ?foreign" "\<not> wo_has_pending_request order"
    using that by (auto simp: own_live_def wo_is_live_def foreign_order_def)
  show ?thesis
  proof (cases "?foreign \<or> is_uncertain order \<or> wo_has_pending_request order \<or> request_fresh (fst q) now slot order")
    case True
    then show ?thesis
      unfolding assms using own [unfolded assms] uncertain_live [of "wq_slot (qn_working input) slot"]
      by (simp add: resolve_slot_def Let_def case_prod_beta slot_simps foreign_order_def) blast
  next
    case False
    then have "x = settle_slot now slot desired intent input q" unfolding assms(2) by (auto simp: resolve_slot_def Let_def assms(1) foreign_order_def)
    from settle_slot_cases [OF assms(1) this] False own show ?thesis by blast
  qed
qed

text \<open>What one resolved slot adds to the result, what it leaves alone in the manager, and what it remembers.\<close>

definition slot_effect ::
  "QuoteManager \<Rightarrow> nanos \<Rightarrow> QuoteSlot \<Rightarrow> DesiredQuote \<Rightarrow> QuoteIntent \<Rightarrow> QuoteManagerInput \<Rightarrow> OrderAction list \<Rightarrow> QuoteManager \<Rightarrow> bool" where
  "slot_effect m now slot desired intent input as m' \<longleftrightarrow>
     slot_sound m now slot desired intent input as \<and> keeps_manager slot m m' \<and> length as \<le> 2
     \<and> (as = [] \<longrightarrow> qm_memory m' = qm_memory m)
     \<and> (request_fresh m now slot (wq_slot (qn_working input) slot) \<longrightarrow> as = [])
     \<and> ((\<exists>a\<in>set as. adds_exposure (oa_type a)) \<longrightarrow>
          sm_last_action (qm_memory m' slot) \<in> {ActNew, ActReplace} \<and> sm_last_action_ns (qm_memory m' slot) = now)"

lemma action_types [simp]:
  "oa_type (aim_at order a) = oa_type a" "oa_type (ask_for d a) = oa_type a" "oa_type (make_action n ty s r i p) = ty"
  "oa_slot (aim_at order a) = oa_slot a" "oa_slot (ask_for d a) = oa_slot a" "oa_slot (make_action n ty s r i p) = s"
  by (simp_all add: aim_at_def ask_for_def make_action_def)

lemma validated:
  assumes "dq_wanted desired" "qm_validate now slot desired input = NoReason"
  shows "venue_allows (the (qn_instrument input)) (qn_symbol input) (dq_price desired) (dq_quantity desired)"
proof -
  let ?spec = "the (qn_instrument input)" and ?req = "probe_request now slot desired input"
  obtain caps where "\<not> ee_is_error (validate_order ?req ?spec caps)"
    using assms by (auto simp: qm_validate_def Let_def split: if_splits)
  moreover have "or_symbol ?req = qn_symbol input" "or_price ?req = dq_price desired" "or_quantity ?req = dq_quantity desired"
    "or_type ?req = Limit" by (simp_all add: probe_request_def)
  ultimately have "spec_is_valid ?spec" "qn_symbol input = is_symbol ?spec" "is_status ?spec = Trading"
    "0 < dq_quantity desired" "is_on_step (dq_quantity desired) (is_lot_size ?spec)"
    "is_min_qty ?spec \<le> 0 \<or> is_min_qty ?spec \<le> dq_quantity desired" "is_max_qty ?spec \<le> 0 \<or> dq_quantity desired \<le> is_max_qty ?spec"
    "0 < dq_price desired" "is_on_step (dq_price desired) (is_tick_size ?spec)"
    "is_price_band_lo ?spec \<le> 0 \<or> is_price_band_lo ?spec \<le> dq_price desired"
    "is_price_band_hi ?spec \<le> 0 \<or> dq_price desired \<le> is_price_band_hi ?spec"
    "is_min_notional ?spec \<le> 0 \<or> is_min_notional ?spec \<le> notional_of (dq_price desired) (dq_quantity desired)"
    by (simp_all add: validate_order_iff [THEN conjunct1] request_notional_def)
  moreover from this(1) have "0 < is_lot_size ?spec" "0 < is_tick_size ?spec" by (simp_all add: spec_is_valid_def)
  ultimately show ?thesis by (simp add: venue_allows_def is_on_step_dvd not_le [symmetric]) blast
qed

lemma resolve_slot_effect:
  assumes "length (qr_actions (snd q)) \<le> 2" and "x = resolve_slot now slot desired intent input q"
  shows "\<exists>as. qr_actions (snd (fst x)) = qr_actions (snd q) @ as \<and> slot_effect (fst q) now slot desired intent input as (fst (fst x))
    \<and> qr_rejection (snd (fst x)) = qr_rejection (snd q)"
proof -
  let ?o = "wq_slot (qn_working input) slot"
  have l: "length (qr_actions (snd (m, snd q))) < 4" "length (qr_actions (snd q)) < 4" "length (qr_actions (snd q)) < 3" for m :: QuoteManager
    using assms(1) by simp_all
  have fresh: "\<not> wo_is_live ?o" if "request_fresh (fst q) now slot ?o" using that by (simp add: request_fresh_def awaiting_own_request_def)
  note sound = slot_effect_def slot_sound_def Let_def adds_exposure_def
  from resolve_slot_cases [OF refl assms(2)] consider
    (idle) "slot_idle q x"
  | (withdraw) "slot_withdrawn now slot intent input q x" "own_live (qm_owner (fst q)) slot ?o" "\<not> dq_wanted desired"
  | (create) "x = create_quote now slot desired intent input q" "dq_wanted desired" "qm_validate now slot desired input = NoReason"
      "\<not> wo_is_live ?o" "\<not> wo_has_pending_request ?o" "\<not> request_fresh (fst q) now slot ?o" "\<not> is_uncertain ?o"
      "\<not> foreign_order (qm_owner (fst q)) slot ?o"
  | (change) reason where "x = change_quote now slot desired reason intent input q" "dq_wanted desired"
      "qm_validate now slot desired input = NoReason" "own_live (qm_owner (fst q)) slot ?o" "\<not> is_uncertain ?o"
      "\<not> represents (qm_config (fst q)) ?o desired (the (qn_instrument input))" "\<not> request_fresh (fst q) now slot ?o"
    by blast
  then show ?thesis
  proof cases
    case idle
    then show ?thesis
      by (intro exI [of _ "[]"]) (auto simp: sound slot_idle_def keeps_manager_def dest: counted_fields)
  next
    case withdraw
    then obtain m where m: "counted (fst q) m" "x = withdraw_slot now slot intent input (m, snd q)" by (auto simp: slot_withdrawn_def)
    show ?thesis
      unfolding m(2) withdraw_slot_adds(1,3) [OF l(1)] using withdraw(2,3) withdraw_slot_adds(2) [OF l(1) [of m]] counted_fields [OF m(1)] fresh
      by (auto simp: sound keeps_manager_def own_live_def)
  next
    case create
    show ?thesis unfolding create(1) create_quote_adds(1,4) [OF l(2)]
      using create(2-) create_quote_adds(2,3) [OF l(2)] validated [OF create(2,3)] by (auto simp: sound record_action_def)
  next
    case change
    show ?thesis unfolding change(1) change_quote_adds(1,5) [OF l(3) refl]
      using change(2-) change_quote_adds(2-4) [OF l(3) refl] validated [OF change(2,3)] by (auto simp: sound)
  qed
qed

section \<open>Whole evaluations\<close>

text \<open>The cancel that withdrawing a slot produces: one for an order of ours that is live and not already being cancelled.\<close>

definition cancel_of ::
  "QuoteManager \<Rightarrow> nanos \<Rightarrow> ActionReason \<Rightarrow> QuoteIntent \<Rightarrow> QuoteManagerInput \<Rightarrow> QuoteSlot \<Rightarrow> OrderAction list" where
  "cancel_of m now reason intent input slot =
     (let order = wq_slot (qn_working input) slot
      in if wo_is_live order \<and> owner_matches (wo_owner order) (qm_owner m) slot \<and> wo_pending order \<noteq> PoCancel
         then [aim_at order (make_action now ActCancel slot reason intent input)] else [])"

lemma disable_slot_effect:
  assumes "length (qr_actions (snd q)) < 4"
  shows "qr_actions (snd (disable_slot now reason synthetic input q slot)) = qr_actions (snd q) @ cancel_of (fst q) now reason synthetic input slot
    \<and> keeps_manager slot (fst q) (fst (disable_slot now reason synthetic input q slot))
    \<and> (cancel_of (fst q) now reason synthetic input slot = [] \<longrightarrow>
        qm_memory (fst (disable_slot now reason synthetic input q slot)) = qm_memory (fst q))"
  using assms
  by (auto simp: disable_slot_def cancel_of_def Let_def case_prod_beta push_action_appends keeps_manager_def wo_is_live_def noted_def)

lemma cancel_of_cong: "qm_owner m' = qm_owner m \<Longrightarrow> cancel_of m' = cancel_of m"
  by (intro ext) (simp add: cancel_of_def)

lemma cancel_of_length: "length (cancel_of m now reason intent input slot) \<le> 1"
  by (simp add: cancel_of_def Let_def)

lemma disable_all_quotes_effect:
  assumes "(m', res) = disable_all_quotes now reason input m"
  shows "qr_actions res = cancel_of m now reason (synthetic_intent m) input Bid @ cancel_of m now reason (synthetic_intent m) input Ask"
    and "qm_owner m' = qm_owner m" "qm_config m' = qm_config m" "qm_last_generation m' = qm_last_generation m"
    and "cancel_of m now reason (synthetic_intent m) input slot = [] \<longrightarrow> qm_memory m' slot = qm_memory m slot"
proof -
  let ?q0 = "(m, no_quote_result\<lparr>qr_intent_accepted := True, qr_generation := qm_last_generation m\<rparr>)"
  let ?q1 = "disable_slot now reason (synthetic_intent m) input ?q0 Bid"
  have e: "(m', res) = disable_slot now reason (synthetic_intent m) input ?q1 Ask"
    using assms by (simp add: disable_all_quotes_def)
  have b: "qr_actions (snd ?q1) = cancel_of m now reason (synthetic_intent m) input Bid" "keeps_manager Bid m (fst ?q1)"
    "cancel_of m now reason (synthetic_intent m) input Bid = [] \<longrightarrow> qm_memory (fst ?q1) = qm_memory m"
    using disable_slot_effect [of ?q0 now reason "synthetic_intent m" input Bid] by (simp_all add: no_quote_result_def)
  have c: "cancel_of (fst ?q1) = cancel_of m" using b(2) by (intro cancel_of_cong) (simp add: keeps_manager_def)
  have "length (qr_actions (snd ?q1)) < 4" using cancel_of_length [of m now reason "synthetic_intent m" input Bid] by (simp add: b(1))
  from disable_slot_effect [OF this, of now reason "synthetic_intent m" input Ask, folded e]
  show "qr_actions res = cancel_of m now reason (synthetic_intent m) input Bid @ cancel_of m now reason (synthetic_intent m) input Ask"
    "qm_owner m' = qm_owner m" "qm_config m' = qm_config m" "qm_last_generation m' = qm_last_generation m"
    "cancel_of m now reason (synthetic_intent m) input slot = [] \<longrightarrow> qm_memory m' slot = qm_memory m slot"
    using b c by (cases slot; auto simp: keeps_manager_def)+
qed

lemma slot_sound_cong:
  "qm_owner m' = qm_owner m \<Longrightarrow> qm_config m' = qm_config m \<Longrightarrow> slot_sound m' now slot d i p as = slot_sound m now slot d i p as"
  by (simp add: slot_sound_def)

lemma slot_effect_cong:
  assumes "qm_owner m1 = qm_owner m" "qm_config m1 = qm_config m" "qm_last_generation m1 = qm_last_generation m" "qm_memory m1 = qm_memory m"
  shows "slot_effect m1 now slot d i p as m' = slot_effect m now slot d i p as m'"
  using assms slot_sound_cong [OF assms(1,2)] by (simp add: slot_effect_def keeps_manager_def request_fresh_def)

lemma place_quotes_effect:
  assumes "(m', res) = place_quotes now intent input m"
  obtains as bs m1 m2 where "qr_actions res = as @ bs" "qr_rejection res = QrNone"
    "slot_effect m now Bid (desired_quote intent input Bid) intent input as m1"
    "slot_effect m1 now Ask (desired_quote intent input Ask) intent input bs m2"
    "qm_memory m' = qm_memory m2" "qm_owner m' = qm_owner m" "qm_config m' = qm_config m"
    "qm_last_generation m' = max (qm_last_generation m) (qi_generation intent)"
proof -
  let ?q0 = "(m, no_quote_result\<lparr>qr_generation := qi_generation intent, qr_intent_accepted := True\<rparr>)"
  define x where "x = resolve_slot now Bid (desired_quote intent input Bid) intent input ?q0"
  define q1 where "q1 = (fst (fst x), (snd (fst x))\<lparr>qr_bid := snd x\<rparr>)"
  define y where "y = resolve_slot now Ask (desired_quote intent input Ask) intent input q1"
  obtain as where a: "qr_actions (snd q1) = as" "slot_effect m now Bid (desired_quote intent input Bid) intent input as (fst q1)"
    "qr_rejection (snd q1) = QrNone"
    using resolve_slot_effect [OF _ x_def] by (auto simp: q1_def no_quote_result_def)
  have "length (qr_actions (snd q1)) \<le> 2" using a by (simp add: slot_effect_def)
  from resolve_slot_effect [OF this y_def] obtain bs where b: "qr_actions (snd (fst y)) = as @ bs"
    "slot_effect (fst q1) now Ask (desired_quote intent input Ask) intent input bs (fst (fst y))" "qr_rejection (snd (fst y)) = QrNone"
    using a by auto
  have "m' = (if has_actions ((snd (fst y))\<lparr>qr_ask := snd y\<rparr>) then advance_generation (qi_generation intent) (fst (fst y))
      else qm_count QmNoopEvaluations (advance_generation (qi_generation intent) (fst (fst y))))" "res = (snd (fst y))\<lparr>qr_ask := snd y\<rparr>"
    using assms by (simp_all add: place_quotes_def Let_def case_prod_beta x_def y_def q1_def)
  then have "qm_memory m' = qm_memory (fst (fst y))" "qm_owner m' = qm_owner (fst (fst y))" "qm_config m' = qm_config (fst (fst y))"
    "qm_last_generation m' = max (qm_last_generation (fst (fst y))) (qi_generation intent)" "qr_actions res = as @ bs" "qr_rejection res = QrNone"
    using b by (simp_all add: advance_generation_def)
  then show ?thesis using that [of as bs "fst q1" "fst (fst y)"] a b by (simp add: slot_effect_def keeps_manager_def)
qed

text \<open>The manager with only counters moved.\<close>

definition same_manager :: "QuoteManager \<Rightarrow> QuoteManager \<Rightarrow> bool" where
  "same_manager m m' \<longleftrightarrow> qm_owner m' = qm_owner m \<and> qm_config m' = qm_config m \<and> qm_last_generation m' = qm_last_generation m
     \<and> qm_memory m' = qm_memory m"

lemma same_manager_counts: "same_manager m (count_refusal r m)" "same_manager m (count_intent intent input m)"
  by (simp_all add: same_manager_def count_refusal_def count_intent_def Let_def)

lemma same_manager_views:
  assumes "same_manager m m1"
  shows "cancel_of m1 = cancel_of m" "synthetic_intent m1 = synthetic_intent m" "qm_screen m1 = qm_screen m"
proof -
  have m: "qm_owner m1 = qm_owner m" "qm_config m1 = qm_config m" "qm_last_generation m1 = qm_last_generation m"
    using assms by (simp_all add: same_manager_def)
  show "cancel_of m1 = cancel_of m" by (rule cancel_of_cong [OF m(1)])
  show "synthetic_intent m1 = synthetic_intent m" by (simp add: m synthetic_intent_def)
  show "qm_screen m1 = qm_screen m" by (intro ext) (simp only: m qm_screen_def)
qed

text \<open>A refused intent that calls for withdrawal cancels exactly what is ours and live.\<close>

definition withdrawn ::
  "QuoteManager \<Rightarrow> nanos \<Rightarrow> QuoteRejection \<Rightarrow> QuoteIntent \<Rightarrow> QuoteManagerInput \<Rightarrow> QuoteManager \<Rightarrow> QuoteManagerResult \<Rightarrow> bool" where
  "withdrawn m now rejection intent input m' res \<longleftrightarrow>
     (let cancels = cancel_of m now (withdraw_reason rejection) (synthetic_intent m) input
      in qr_actions res = cancels Bid @ cancels Ask \<and> qm_owner m' = qm_owner m \<and> qm_config m' = qm_config m
       \<and> qm_last_generation m' = max (qm_last_generation m) (qi_generation intent)
       \<and> (\<forall>slot. cancels slot = [] \<longrightarrow> qm_memory m' slot = qm_memory m slot))"

lemma refuse_intent_effect:
  assumes "(m', res) = refuse_intent now rejection intent input m"
  shows "qr_rejection res = rejection"
    and "\<not> implies_withdraw rejection \<Longrightarrow> qr_actions res = [] \<and> same_manager m m'"
    and "implies_withdraw rejection \<Longrightarrow> withdrawn m now rejection intent input m' res"
proof -
  let ?m1 = "count_refusal rejection m"
  obtain m2 w where w: "disable_all_quotes now (withdraw_reason rejection) input ?m1 = (m2, w)" by (rule prod.exhaust)
  note s = same_manager_counts(1) [of m rejection]
  note v = same_manager_views [OF s]
  have e: "m' = (if implies_withdraw rejection then advance_generation (qi_generation intent) m2 else ?m1)"
    "res = (if implies_withdraw rejection then w\<lparr>qr_rejection := rejection, qr_generation := qi_generation intent\<rparr>
      else no_quote_result\<lparr>qr_generation := qi_generation intent, qr_rejection := rejection\<rparr>)"
    using arg_cong [OF assms, of fst] arg_cong [OF assms, of snd] unfolding refuse_intent_def Let_def w by simp_all
  show "qr_rejection res = rejection" by (simp add: e)
  show "\<not> implies_withdraw rejection \<Longrightarrow> qr_actions res = [] \<and> same_manager m m'"
    using s by (simp add: e no_quote_result_def)
  note d = disable_all_quotes_effect [OF w [symmetric], unfolded v(1,2)]
  show "implies_withdraw rejection \<Longrightarrow> withdrawn m now rejection intent input m' res"
    using d(1-4) d(5) s unfolding e withdrawn_def Let_def same_manager_def advance_generation_def by simp
qed

lemma qm_evaluate_placed:
  assumes "(m', res) = qm_evaluate now intent input m" "qm_screen m now intent input = QrNone"
  obtains as bs m1 m2 where "qr_actions res = as @ bs" "qr_rejection res = QrNone"
    "slot_effect m now Bid (desired_quote intent input Bid) intent input as m1"
    "slot_effect m1 now Ask (desired_quote intent input Ask) intent input bs m2"
    "qm_memory m' = qm_memory m2" "qm_owner m' = qm_owner m" "qm_config m' = qm_config m"
    "qm_last_generation m' = max (qm_last_generation m) (qi_generation intent)"
proof -
  let ?m1 = "count_intent intent input m"
  note s = same_manager_counts(2) [of m intent input]
  have "(m', res) = place_quotes now intent input ?m1"
    using assms by (simp add: qm_evaluate_def Let_def same_manager_views [OF s])
  then show ?thesis
  proof (rule place_quotes_effect)
    fix as bs m1 m2
    assume "qr_actions res = as @ bs" "qr_rejection res = QrNone"
      "slot_effect ?m1 now Bid (desired_quote intent input Bid) intent input as m1"
      "slot_effect m1 now Ask (desired_quote intent input Ask) intent input bs m2" "qm_memory m' = qm_memory m2"
      "qm_owner m' = qm_owner ?m1" "qm_config m' = qm_config ?m1" "qm_last_generation m' = max (qm_last_generation ?m1) (qi_generation intent)"
    then show thesis
      using that [of as bs m1 m2] s slot_effect_cong [of ?m1 m now Bid _ intent input as m1] by (simp add: same_manager_def)
  qed
qed

lemma qm_evaluate_refused:
  assumes "(m', res) = qm_evaluate now intent input m" "qm_screen m now intent input = rejection" "rejection \<noteq> QrNone"
  shows "qr_rejection res = rejection"
    and "\<not> implies_withdraw rejection \<Longrightarrow> qr_actions res = [] \<and> same_manager m m'"
    and "implies_withdraw rejection \<Longrightarrow> withdrawn m now rejection intent input m' res"
proof -
  let ?m1 = "count_intent intent input m"
  note s = same_manager_counts(2) [of m intent input]
  have "(m', res) = refuse_intent now rejection intent input ?m1"
    using assms by (simp add: qm_evaluate_def Let_def same_manager_views [OF s])
  note e = refuse_intent_effect [OF this]
  show "qr_rejection res = rejection" by (rule e(1))
  show "\<not> implies_withdraw rejection \<Longrightarrow> qr_actions res = [] \<and> same_manager m m'"
    using e(2) s by (simp add: same_manager_def)
  show "implies_withdraw rejection \<Longrightarrow> withdrawn m now rejection intent input m' res"
    using e(3) s by (simp add: withdrawn_def Let_def same_manager_views [OF s] same_manager_def)
qed

section \<open>Waiting for a request of its own\<close>

fun qm_run :: "(nanos \<times> QuoteIntent \<times> QuoteManagerInput) list \<Rightarrow> QuoteManager \<Rightarrow> QuoteManager \<times> OrderAction list" where
  "qm_run [] m = (m, [])"
| "qm_run ((now, intent, input) # es) m =
     (let (m1, res) = qm_evaluate now intent input m; (m2, as) = qm_run es m1 in (m2, qr_actions res @ as))"

definition waiting :: "QuoteSlot \<Rightarrow> nanos \<Rightarrow> QuoteManager \<Rightarrow> bool" where
  "waiting slot t m \<longleftrightarrow> sm_last_action (qm_memory m slot) \<in> {ActNew, ActReplace} \<and> sm_last_action_ns (qm_memory m slot) = t"

lemma slot_sound_slots: "slot_sound m now slot d i p as \<Longrightarrow> a \<in> set as \<Longrightarrow> oa_slot a = slot"
  by (auto simp: slot_sound_def Let_def)

lemma cancel_of_slots: "a \<in> set (cancel_of m now r i p slot) \<Longrightarrow> oa_slot a = slot \<and> oa_type a = ActCancel"
  by (simp add: cancel_of_def Let_def split: if_splits)

lemma keeps_memory: "slot_effect m now s d i p as m' \<Longrightarrow> s \<noteq> slot \<Longrightarrow> qm_memory m' slot = qm_memory m slot"
  by (simp add: slot_effect_def keeps_manager_def)

lemma waiting_fresh:
  assumes "waiting slot t m" "\<not> wo_is_live order" "0 < qc_assume_request_lost_after_ns (qm_config m)"
    "wrap64 (now - t) < qc_assume_request_lost_after_ns (qm_config m)"
  shows "request_fresh m now slot order"
  using assms by (auto simp: waiting_def request_fresh_def awaiting_own_request_def)

lemma waiting_placed:
  assumes "slot_effect m now Bid d1 i p as m1" "slot_effect m1 now Ask d2 i p bs m2" "waiting slot t m"
    "\<not> wo_is_live (wq_slot (qn_working p) slot)" "0 < qc_assume_request_lost_after_ns (qm_config m)"
    "wrap64 (now - t) < qc_assume_request_lost_after_ns (qm_config m)"
  shows "(\<forall>a\<in>set (as @ bs). oa_slot a \<noteq> slot) \<and> qm_memory m2 slot = qm_memory m slot"
proof (cases slot)
  case Bid
  have "as = []" "qm_memory m1 slot = qm_memory m slot"
    using assms(1) waiting_fresh [OF assms(3-6)] Bid by (auto simp: slot_effect_def)
  moreover have "\<forall>b\<in>set bs. oa_slot b \<noteq> slot" "qm_memory m2 slot = qm_memory m1 slot"
    using assms(2) Bid slot_sound_slots keeps_memory [OF assms(2)] by (fastforce simp: slot_effect_def)+
  ultimately show ?thesis by simp
next
  case Ask
  have m1: "qm_memory m1 slot = qm_memory m slot" "qm_config m1 = qm_config m"
    using assms(1) Ask by (auto simp: slot_effect_def keeps_manager_def)
  then have "request_fresh m1 now slot (wq_slot (qn_working p) slot)"
    using assms(3-6) by (intro waiting_fresh [of slot t]) (simp_all add: waiting_def)
  then have "bs = []" "qm_memory m2 slot = qm_memory m1 slot" using assms(2) Ask by (auto simp: slot_effect_def)
  moreover have "\<forall>a\<in>set as. oa_slot a \<noteq> slot" using assms(1) Ask slot_sound_slots by (fastforce simp: slot_effect_def)
  ultimately show ?thesis using m1 by simp
qed

lemma waiting_step:
  assumes "waiting slot t m" "(m', res) = qm_evaluate now intent input m" "\<not> wo_is_live (wq_slot (qn_working input) slot)"
    "0 < qc_assume_request_lost_after_ns (qm_config m)" "wrap64 (now - t) < qc_assume_request_lost_after_ns (qm_config m)"
  shows "(\<forall>a\<in>set (qr_actions res). oa_slot a \<noteq> slot) \<and> waiting slot t m' \<and> qm_config m' = qm_config m"
proof (cases "qm_screen m now intent input = QrNone")
  case True
  show ?thesis
  proof (rule qm_evaluate_placed [OF assms(2) True])
    fix as bs m1 m2
    assume a: "qr_actions res = as @ bs" "slot_effect m now Bid (desired_quote intent input Bid) intent input as m1"
      "slot_effect m1 now Ask (desired_quote intent input Ask) intent input bs m2" "qm_memory m' = qm_memory m2" "qm_config m' = qm_config m"
    from waiting_placed [OF a(2,3) assms(1,3-5)] a assms(1) show ?thesis by (simp add: waiting_def)
  qed
next
  case False
  have none: "cancel_of m now r i input slot = []" for r i using assms(3) by (simp add: cancel_of_def)
  have other: "oa_slot a \<noteq> slot" if "a \<in> set (cancel_of m now r i input Bid @ cancel_of m now r i input Ask)" for a r i
    using that none [of r i] cancel_of_slots [of a m now r i input] by (cases slot) auto
  show ?thesis
    using qm_evaluate_refused(2,3) [OF assms(2) refl False] assms(1) none other
    by (cases "implies_withdraw (qm_screen m now intent input)") (auto simp: withdrawn_def Let_def waiting_def same_manager_def)
qed

lemma waiting_starts:
  assumes "(m', res) = qm_evaluate now intent input m" "a \<in> set (qr_actions res)" "adds_exposure (oa_type a)"
  shows "waiting (oa_slot a) now m' \<and> qm_config m' = qm_config m"
proof (cases "qm_screen m now intent input = QrNone")
  case True
  show ?thesis
  proof (rule qm_evaluate_placed [OF assms(1) True])
    fix as bs m1 m2
    assume e: "qr_actions res = as @ bs" "slot_effect m now Bid (desired_quote intent input Bid) intent input as m1"
      "slot_effect m1 now Ask (desired_quote intent input Ask) intent input bs m2" "qm_memory m' = qm_memory m2" "qm_config m' = qm_config m"
    show ?thesis
    proof (cases "a \<in> set as")
      case True
      then have "oa_slot a = Bid" "waiting Bid now m1" using e(2) assms(3) slot_sound_slots by (auto simp: slot_effect_def waiting_def)
      then show ?thesis using e keeps_memory [OF e(3), of Bid] by (simp add: waiting_def)
    next
      case False
      then have b: "a \<in> set bs" using assms(2) e(1) by simp
      then have "oa_slot a = Ask" using e(3) slot_sound_slots by (auto simp: slot_effect_def)
      then show ?thesis using b e assms(3) by (auto simp: slot_effect_def waiting_def)
    qed
  qed
next
  case False
  then show ?thesis
    using qm_evaluate_refused(2,3) [OF assms(1) refl False] assms(2,3) cancel_of_slots
    by (cases "implies_withdraw (qm_screen m now intent input)") (fastforce simp: withdrawn_def Let_def adds_exposure_def)+
qed

section \<open>A concrete manager\<close>

definition demo_quote_config :: QuoteManagerConfig where
  "demo_quote_config = \<lparr>qc_max_intent_age_ns = 250, qc_max_market_data_age_ns = 500, qc_min_price_move_ticks = 1,
     qc_min_quantity_move_fraction = 0, qc_min_replace_interval_ns = 0, qc_cooldown_after_cancel_ns = 0,
     qc_assume_request_lost_after_ns = 1000, qc_replenish_partial_fills = True\<rparr>"

definition demo_manager :: QuoteManager where
  "demo_manager = new_quote_manager ''ref'' demo_quote_config"

definition demo_bid :: "nat \<Rightarrow> QuoteIntent" where
  "demo_bid g = default_intent\<lparr>qi_action := QaQuote, qi_quote_bid := True, qi_bid_price := 99, qi_bid_quantity := 10,
     qi_identity := \<lparr>si_name = ''ref'', si_version = 1, si_config_generation = 0\<rparr>, qi_generation := g, qi_computed_ns := 90\<rparr>"

definition demo_quote_input :: QuoteManagerInput where
  "demo_quote_input = \<lparr>qn_symbol = ''BTC'', qn_symbol_id = 0, qn_instrument = Some demo_instrument, qn_capabilities = None,
     qn_working = empty_quotes, qn_market_data_age_ns = 1, qn_system_ready = True\<rparr>"

lemma demo_quote_screen: "qm_screen demo_manager 100 (demo_bid 5) demo_quote_input = QrNone"
  by (simp add: qm_screen_def demo_manager_def new_quote_manager_def demo_quote_config_def demo_bid_def default_intent_def
      demo_quote_input_def demo_instrument_def spec_is_valid_def in64_def)

lemma demo_quote_valid: "qm_validate 100 Bid (desired_quote (demo_bid 5) demo_quote_input Bid) demo_quote_input = NoReason"
  by (simp add: qm_validate_def desired_quote_def demo_bid_def demo_quote_input_def probe_request_def kPermissive_def
      validate_order_def demo_instrument_def spec_is_valid_def default_request_def default_capabilities_def inline_assign_def
      is_on_step_dvd requires_price_def is_post_only_def Let_def ee_is_error_def error_none_def)

definition demo_new_bid :: OrderAction where
  "demo_new_bid = ask_for (desired_quote (demo_bid 5) demo_quote_input Bid)
     (make_action 100 ActNew Bid ArNoQuoteResting (demo_bid 5) demo_quote_input)"

lemma demo_quote_actions: "qr_actions (snd (qm_evaluate 100 (demo_bid 5) demo_quote_input demo_manager)) = [demo_new_bid]"
proof -
  let ?m = "count_intent (demo_bid 5) demo_quote_input demo_manager"
  let ?q = "(?m, no_quote_result\<lparr>qr_generation := 5, qr_intent_accepted := True\<rparr>)"
  note s = same_manager_counts(2) [of demo_manager "demo_bid 5" demo_quote_input]
  have o: "wq_slot (qn_working demo_quote_input) slot = no_order" for slot
    by (simp add: demo_quote_input_def wq_slot_def empty_quotes_def)
  have n: "\<not> wo_present no_order" "\<not> is_uncertain no_order" "\<not> wo_has_pending_request no_order" "\<not> wo_is_live no_order"
    by (simp_all add: no_order_def is_uncertain_def wo_has_pending_request_def wo_is_live_def)
  have m: "qm_memory ?m slot = no_memory" "qm_config ?m = demo_quote_config" for slot
    using s by (simp_all add: same_manager_def demo_manager_def new_quote_manager_def)
  have f: "\<not> request_fresh m now slot no_order" if "qm_memory m slot = no_memory" for m now slot
    using that by (simp add: request_fresh_def awaiting_own_request_def no_memory_def)
  have d: "dq_wanted (desired_quote (demo_bid 5) demo_quote_input slot) = (slot = Bid)" "qi_generation (demo_bid 5) = 5" for slot
    by (simp_all add: desired_quote_def demo_bid_def default_intent_def)
  have bid: "resolve_slot 100 Bid (desired_quote (demo_bid 5) demo_quote_input Bid) (demo_bid 5) demo_quote_input ?q
      = create_quote 100 Bid (desired_quote (demo_bid 5) demo_quote_input Bid) (demo_bid 5) demo_quote_input ?q"
    by (simp add: resolve_slot_def settle_slot_def Let_def o n f m d demo_quote_valid) (simp add: demo_quote_config_def)
  define x where "x = create_quote 100 Bid (desired_quote (demo_bid 5) demo_quote_input Bid) (demo_bid 5) demo_quote_input ?q"
  have x: "qr_actions (snd (fst x)) = [demo_new_bid]" "qm_memory (fst (fst x)) Ask = no_memory"
    using create_quote_adds(1,2) [of ?q] by (simp_all add: x_def no_quote_result_def demo_new_bid_def keeps_manager_def m)
  have "resolve_slot 100 Ask (desired_quote (demo_bid 5) demo_quote_input Ask) (demo_bid 5) demo_quote_input
      (fst (fst x), (snd (fst x))\<lparr>qr_bid := snd x\<rparr>) = ((fst (fst x), (snd (fst x))\<lparr>qr_bid := snd x\<rparr>), no_decision)"
    by (simp add: resolve_slot_def settle_slot_def Let_def o n f x d)
  then have "qr_actions (snd (place_quotes 100 (demo_bid 5) demo_quote_input ?m)) = [demo_new_bid]"
    by (simp add: place_quotes_def Let_def case_prod_beta d bid x_def [symmetric] x)
  then show ?thesis
    by (simp add: qm_evaluate_def Let_def same_manager_views(3) [OF s] demo_quote_screen)
qed

section \<open>Properties\<close>



text \<open>
  C9. One order per slot: after an evaluation that asked for a new order or a replacement in a slot, no later
  evaluation asks for anything in that slot as long as the working state shows no live order there and the configured
  time after which a request is presumed lost has not passed, whatever the intents, their generations and the rest of
  the inputs are.
\<close>

theorem no_duplicate_quote:
  assumes "a \<in> set (qr_actions (snd (qm_evaluate t intent input m)))" and "adds_exposure (oa_type a)"
    and "0 < qc_assume_request_lost_after_ns (qm_config m)"
    and "\<And>now intent' input'. (now, intent', input') \<in> set es \<Longrightarrow> \<not> wo_is_live (wq_slot (qn_working input') (oa_slot a))
      \<and> wrap64 (now - t) < qc_assume_request_lost_after_ns (qm_config m)"
  shows "\<forall>b \<in> set (snd (qm_run es (fst (qm_evaluate t intent input m)))). oa_slot b \<noteq> oa_slot a"
proof -
  let ?s = "oa_slot a" and ?c = "qm_config m"
  have run: "\<forall>b \<in> set (snd (qm_run es m1)). oa_slot b \<noteq> ?s" if "waiting ?s t m1" "qm_config m1 = ?c" for m1
    using that assms(4)
  proof (induction es arbitrary: m1)
    case (Cons e es)
    obtain now i p where e: "e = (now, i, p)" by (cases e)
    obtain m2 res where r: "(m2, res) = qm_evaluate now i p m1" by (metis surj_pair)
    have "\<not> wo_is_live (wq_slot (qn_working p) ?s)" "wrap64 (now - t) < qc_assume_request_lost_after_ns (qm_config m1)"
      using Cons.prems(2,3) e by auto
    from waiting_step [OF Cons.prems(1) r this(1) _ this(2)] Cons.prems(2) assms(3)
    have w: "\<forall>a\<in>set (qr_actions res). oa_slot a \<noteq> ?s" "waiting ?s t m2" "qm_config m2 = ?c" by auto
    then have "\<forall>b \<in> set (snd (qm_run es m2)). oa_slot b \<noteq> ?s" using Cons.IH [of m2] Cons.prems(3) by auto
    with w show ?case using r by (auto simp: e case_prod_beta Let_def simp flip: r)
  qed simp
  show ?thesis using run waiting_starts [OF prod.collapse assms(1,2)] by blast
qed

theorem no_duplicate_quote_witness:
  "list_all (\<lambda>b. oa_slot b \<noteq> Bid)
     (snd (qm_run [(110, demo_bid 6, demo_quote_input), (900, demo_bid 7, demo_quote_input)]
        (fst (qm_evaluate 100 (demo_bid 5) demo_quote_input demo_manager))))"
proof -
  have b: "demo_new_bid \<in> set (qr_actions (snd (qm_evaluate 100 (demo_bid 5) demo_quote_input demo_manager)))"
    "adds_exposure (oa_type demo_new_bid)" "oa_slot demo_new_bid = Bid"
    by (simp_all add: demo_quote_actions) (simp_all add: demo_new_bid_def adds_exposure_def)
  have c: "qc_assume_request_lost_after_ns (qm_config demo_manager) = 1000"
    by (simp add: demo_manager_def new_quote_manager_def demo_quote_config_def)
  have "\<not> wo_is_live (wq_slot (qn_working demo_quote_input) Bid)"
    by (simp add: demo_quote_input_def empty_quotes_def wq_slot_def no_order_def wo_is_live_def)
  then show ?thesis unfolding list_all_iff by (intro no_duplicate_quote [OF b(1,2), unfolded b(3) c]) (auto simp: in64_def)
qed

end
