(* ===== verification/Spec2Isabelle.thy ===== *)
theory Spec2Isabelle
  imports LatencyHistogram ObjectPool Seqlock ReferenceMarketMaker ConfigProperties BinanceMarketData
    Decimal Portfolio PaperReplay BookSync OmsHistory StrategyRuntime QuoteManager
begin

text \<open>
  A verification of the crypto market-making engine.

  \<^bold>\<open>The program.\<close> A configuration file is read and validated, and a strategy is built from the registry. The Binance
  adapter receives market data over a reconnecting WebSocket and REST, decodes it and hands it on as snapshots and
  updates; the book synchroniser turns them into an order book
  that may be quoted from, the strategy runtime calls a strategy plug-in and contains what it returns, the quote manager
  turns the resulting intent into order actions against the orders that work, the risk engine evaluates each action and
  issues approval tokens, the order manager takes tokens, sends requests through an execution adapter and applies the
  events that come back, and the accounting components keep positions and portfolio figures that the next risk
  evaluation reads. The paper exchange is a simulated venue behind the adapter's interface. All prices, quantities and
  notionals are 64-bit fixed-point numbers.

  \<^bold>\<open>The theories\<close>, in the order of the code (paths are relative to the repository).

  \<^item> \<open>Prelude\<close>: counters, list and option lemmas, the named collections.
  \<^item> \<open>Fixed\<close>, \<open>Decimal\<close>: \<^verbatim>\<open>common/Fixed.hpp\<close> and \<^verbatim>\<open>common/Decimal.cpp\<close>. A raw value is an \<open>int\<close>; every operation that
    can leave the 64-bit range says what happens there (checked operations return an option, unchecked ones wrap).
  \<^item> \<open>Double\<close>: binary64 addition, subtraction, multiplication and division as correctly rounded exact operations, for
    the token buckets and the price-band test.
  \<^item> \<open>Types\<close>, \<open>ExchangeTypes\<close>, \<open>ExecutionEvents\<close>: the shared vocabulary, the venue's failure model, request and
    event validation (\<^verbatim>\<open>common/Types.hpp\<close>, \<^verbatim>\<open>exchange/common\<close>).
  \<^item> \<open>DedupRing\<close>: the two rings of trade ids (\<^verbatim>\<open>SeenTrades\<close>, \<^verbatim>\<open>SeenTradeIds\<close>).
  \<^item> \<open>PositionAccount\<close>, \<open>Portfolio\<close>: \<^verbatim>\<open>portfolio/PositionAccount.cpp\<close>, \<^verbatim>\<open>portfolio/PortfolioAccountant.cpp\<close>.
  \<^item> \<open>OrderBook\<close>, \<open>BookSync\<close>: \<^verbatim>\<open>orderbook/OrderBook.cpp\<close>, \<^verbatim>\<open>orderbook/BookSynchronizer.cpp\<close>.
  \<^item> \<open>OrderAction\<close>: the quote vocabulary of \<^verbatim>\<open>quote/OrderAction.hpp\<close>.
  \<^item> \<open>RiskState\<close>, \<open>RateLimiter\<close>, \<open>RiskEngine\<close>: \<^verbatim>\<open>risk/PositionState.cpp\<close>, \<^verbatim>\<open>risk/RateLimiter.hpp\<close>,
    \<^verbatim>\<open>risk/RiskEngine.cpp\<close> and the limit and decision headers.
  \<^item> \<open>ClientOrderId\<close>, \<open>OrderTypes\<close>, \<open>OrderManager\<close>: \<^verbatim>\<open>oms/ClientOrderIdGenerator.cpp\<close>, \<^verbatim>\<open>oms/OrderTypes.cpp\<close> with the
    record, journal and reconciliation headers, and \<^verbatim>\<open>oms/OrderManager.cpp\<close>.
  \<^item> \<open>OrderLifecycle\<close>, \<open>OmsInvariant\<close>, \<open>OmsProperties\<close>, \<open>OmsHistory\<close>: how a record evolves under every operation, the
    invariant of the order manager and its preservation, the properties over sequences of calls from a fresh order
    manager, and those over every state that calls and restarts from a saved state (\<open>restore\<close>) lead to.
  \<^item> \<open>StrategyTypes\<close>, \<open>StrategyRuntime\<close>: \<^verbatim>\<open>strategy/StrategyTypes.cpp\<close>, \<^verbatim>\<open>QuoteIntent.hpp\<close>, \<^verbatim>\<open>StrategyContext.hpp\<close> and
    \<^verbatim>\<open>strategy/StrategyRuntime.cpp\<close>. The plug-in is a record of functions, each of which may throw.
  \<^item> \<open>QuoteManager\<close>: \<^verbatim>\<open>quote/QuoteManager.cpp\<close>, the convergence of resting quotes to the intent.
  \<^item> \<open>PaperMatcher\<close>, \<open>PaperExecution\<close>, \<open>PaperProperties\<close>, \<open>PaperReplay\<close>: \<^verbatim>\<open>exchange/paper/PaperMatcher.cpp\<close>,
    \<^verbatim>\<open>PaperExecution.cpp\<close> with its types, what the simulated venue guarantees on every run, and \<^verbatim>\<open>PaperReplay.cpp\<close>.
  \<^item> \<open>SpscRing\<close>: \<^verbatim>\<open>common/SpscRing.hpp\<close>, split at its atomic operations, with the interleavings of one producer and one
    consumer as a step relation.
  \<^item> \<open>Seqlock\<close>, \<open>ObjectPool\<close>, \<open>LatencyHistogram\<close>: the headers of the same names in \<^verbatim>\<open>common\<close>; the seqlock is split at its
    atomic accesses like the ring.
  \<^item> \<open>Params\<close>, \<open>StrategyRegistry\<close>, \<open>ReferenceMarketMaker\<close>: \<^verbatim>\<open>common/Params.cpp\<close> with the number parsing it relies on,
    \<^verbatim>\<open>strategy/StrategyRegistry.cpp\<close> and \<^verbatim>\<open>reference_mm_v1/ReferenceMarketMaker.cpp\<close>.
  \<^item> \<open>ConfigTypes\<close>, \<open>ConfigLoader\<close>, \<open>ConfigProperties\<close>: \<^verbatim>\<open>common/Config.hpp\<close> and \<^verbatim>\<open>common/Config.cpp\<close> over a parsed YAML tree;
    the parser is a parameter and an exception of the YAML library a value of the result.
  \<^item> \<open>BinanceCodec\<close>, \<open>ReconnectBackoff\<close>, \<open>BinanceTransport\<close>, \<open>BinanceMarketData\<close>: the adapter under \<^verbatim>\<open>exchange/binance\<close>. The
    JSON parser is a parameter; an asynchronous operation is a pending completion that the environment delivers in any
    order and with any outcome, including a wait that had expired before it could be cancelled; callbacks run in the order
    the code makes them, a registration is three steps that the loop can come between, and every history of calls,
    steps and completions is a reachable state.

  \<^bold>\<open>State and operations.\<close> A class is a record of its members, an operation a function from the old state to the new
  one and its result, an early return a branch. A clock reading is an argument. A callback or a call to the
  execution adapter is an entry of a log in the state; what the adapter answers is a parameter. A pointer to a record
  in a vector is its index. A container that the source reserves once and never lets grow is a list with the capacity
  test written out. Unsigned counters wrap as in the source.

  \<^bold>\<open>Interfaces.\<close> The laws a client relies on are locales, interpreted on the model's own definitions: the dedup rings,
  the order book ladder, the bounded queue under the order manager's event loop (\<open>spsc\<close>), and \<open>oms_preserved\<close>, which
  lifts a predicate kept by the primitive steps of the order manager to every operation and is interpreted for the
  table invariant, for the approval discipline and for the history of each order.

  \<^bold>\<open>What is shown.\<close> The synchroniser quotes only from a book without gaps, and an image restores quoting; the book stays
  sorted and uncrossed and refines a finite map; accounting is all or nothing, exact, and fails closed; what the risk
  engine approves keeps the worst case within the limits, a kill holds until it is re-armed, and a token is honest; the
  order manager sends nothing without a token, the state changes of an order, one by one, are those the lifecycle allows and
  none leaves a terminal state, its journal replays to its state, also after a restart, fills count once, a timeout or a missing listing entry makes an order
  unknown and never absent, the exposure it reports is complete, and its event loop ends; the strategy runtime lets only
  sound, stamped intents through and latches faults; the quote manager acts only on what works, once per request; the
  simulated venue keeps its orders sound, executes within limit and displayed liquidity, answers only through its pump
  and in order, and every event it sends but one passes the order manager's check; a load through the seqlock is never
  torn; a configuration that loads has known keys and convertible values only, is accepted by the components and never
  opens live execution;
  the reference strategy quotes on the grid and uncrossed; decoded events are well formed and carry every level once; a
  REST request is answered exactly once, a session announces every change of its state, writes in order and stays within its reconnect budget, and the
  view the adapter publishes shows the best levels of a synchronised, uncrossed book and no others. The properties in this theory join
  risk engine and order manager, and order manager, strategy runtime and quote manager.

  \<^bold>\<open>Bounds and fuel.\<close> The event loop of the order manager carries the number of rounds as fuel; \<open>event_loop_ends\<close> shows
  that one more than the queue length is enough. The chunk loop of the codec terminates by the levels that are left; a
  bounded copy of it serves evaluation only and is proved equal. All other loops are structural or have a termination proof. The table
  of orders is assumed smaller than \<open>2 ^ 64\<close>, which the vector of the source is.

  \<^bold>\<open>Not modelled.\<close> Log lines, metrics export and clock access (nothing reads them back), the mock exchange (a test
  double), and the third-party libraries: sockets, TLS, the event loop, the JSON and YAML parsers, whose results are
  arguments. The ring and the seqlock are interleavings of atomic accesses in program order, which their fences enforce;
  weaker memory orders are not modelled. The reason texts of state changes are left out. The in-memory journal of the order
  manager keeps its newest 4096 records; the model keeps all, since the property is about what is written. The callbacks
  of one event of a synchroniser are run after it has handled the event, so the views between two of its transitions
  are not the code's; the last one is. Specifications that describe no code, such as the sums and predicates a property
  compares an operation with, are defined beside the property.
\<close>

section \<open>Risk engine and order manager together\<close>

text \<open>A token that the risk engine issued in some state reachable under the given limits.\<close>

definition issued :: "RiskLimits \<Rightarrow> ApprovedAction \<Rightarrow> bool" where
  "issued limits token \<longleftrightarrow> (\<exists>e action input started now_position now_portfolio. risk_reachable limits e
     \<and> token = rd_approval (snd (evaluate e action input started now_position now_portfolio)))"

text \<open>What the limits of a configured symbol allow one order to be.\<close>

definition order_within :: "RiskLimits \<Rightarrow> px \<Rightarrow> qty \<Rightarrow> bool" where
  "order_within limits price quantity \<longleftrightarrow> (\<exists>symbol l n. limits_find limits symbol = Some l
     \<and> 0 < quantity \<and> quantity \<le> sl_max_order_quantity l
     \<and> checked_notional_of price quantity = Some n \<and> n \<le> sl_max_order_notional l)"

lemma issued_within:
  assumes "issued limits token" "aa_valid token" "adds_exposure (oa_type (aa_action token))"
  shows "order_within limits (oa_price (aa_action token)) (oa_quantity (aa_action token))"
proof -
  obtain e action input n1 n2 n3 where e: "risk_reachable limits e"
    and t: "token = rd_approval (snd (evaluate e action input n1 n2 n3))"
    using assms(1) by (auto simp: issued_def)
  let ?d = "snd (evaluate e action input n1 n2 n3)"
  have h: "honest ?d" by (rule evaluate_honest)
  then have a: "decision_approved ?d" "aa_action token = rd_approved ?d" using assms(2) t by (auto simp: honest_def)
  then have "decision_permits_exposure ?d" using assms(3) by (simp add: decision_permits_exposure_def)
  from permitted_exposure_bounds [OF e this] show ?thesis
    unfolding order_within_def a(2) by blast
qed

text \<open>
  C1. The chain from risk to the venue: when every token handed to the order manager was issued by the risk engine in a
  state reachable under the limits, then over every sequence of calls, events, timeouts, reconciliations and
  resolutions of a fresh order manager, each new order and each replace that reaches the execution adapter has a positive quantity within the
  per-order quantity limit and a representable notional within the per-order notional limit of a configured symbol.
\<close>

theorem venue_orders_are_within_limits:
  assumes "oc_max_orders cfg < 2 ^ 64"
    and "\<And>now token. (now, CmSubmit token) \<in> set cs \<Longrightarrow> aa_valid token \<Longrightarrow> issued limits token"
    and "call \<in> set (om_sent (om_run ex cs (new_oms cfg)))"
  shows "case call of VcSubmit r \<Rightarrow> order_within limits (or_price r) (or_quantity r)
    | VcReplace r \<Rightarrow> order_within limits (rr_new_price r) (rr_new_quantity r)
    | VcCancel r \<Rightarrow> True"
proof -
  let ?ok = "\<lambda>a. \<exists>token. issued limits token \<and> aa_valid token \<and> aa_action token = a"
  have "gated ?ok (om_run ex cs (new_oms cfg))"
    by (rule gated_run [OF gated_new]) (use assms(1,2) in auto)
  then have "call_from ?ok call" using assms(3) by (simp add: gated_def)
  then show ?thesis
    by (cases call) (auto simp: adds_exposure_def dest: issued_within)
qed

text \<open>A run in which the token of the concrete engine of the risk theory is submitted.\<close>

definition demo_issued :: ApprovedAction where
  "demo_issued = rd_approval (snd (evaluate demo_engine (demo_order ActNew 50) (demo_input 0) 1 2 3))"

definition demo_issued_calls :: "(nanos \<times> OmsCommand) list" where
  "demo_issued_calls = [(10, CmAttach), (20, CmSubmit demo_issued)]"

definition demo_issued_request :: OrderRequest where
  "demo_issued_request = order_request 20 (fresh_order 20 (demo_order ActNew 50) ''mm-7-1'' 1 1)"

lemma demo_issued: "issued demo_limits demo_issued" "aa_valid demo_issued" "aa_action demo_issued = demo_order ActNew 50"
proof -
  let ?d = "snd (evaluate demo_engine (demo_order ActNew 50) (demo_input 0) 1 2 3)"
  show "issued demo_limits demo_issued"
    unfolding issued_def demo_issued_def using demo_engine_reachable by blast
  have "decision_approved ?d" "rd_approved ?d = demo_order ActNew 50" using demo_judge_50 [of 0] by (simp_all add: decision_approved_def)
  then show "aa_valid demo_issued" "aa_action demo_issued = demo_order ActNew 50"
    using evaluate_honest [of demo_engine "demo_order ActNew 50" "demo_input 0" 1 2 3] by (simp_all add: honest_def demo_issued_def)
qed

lemma demo_issued_sent:
  "om_sent (om_run (\<lambda>_ _. Ok) demo_issued_calls (new_oms demo_config)) = [VcSubmit demo_issued_request]"
  by (simp add: demo_issued_calls_def demo_issued_request_def oms_demo_defs demo_issued demo_order_def new_oms_def
      demo_config_def demo_id [simplified] Let_def fresh_order_def inc64_def order_legal_transition_def is_err_def)

theorem venue_orders_are_within_limits_witness:
  "VcSubmit demo_issued_request \<in> set (om_sent (om_run (\<lambda>_ _. Ok) demo_issued_calls (new_oms demo_config)))
   \<and> order_within demo_limits (or_price demo_issued_request) (or_quantity demo_issued_request)"
  using venue_orders_are_within_limits [OF demo_config_fits, of demo_issued_calls demo_limits "VcSubmit demo_issued_request" "\<lambda>_ _. Ok"]
    demo_issued(1) by (simp add: demo_issued_sent) (simp add: demo_issued_calls_def)

text \<open>
  C6. Doubt about an order stops new exposure: while an order of the symbol is in the unknown state in the order
  manager, a risk evaluation that is given the order manager's exposure snapshot permits no action that adds exposure,
  whatever the action, the engine state, the limits and the other inputs; cancels of its own orders stay approved.
\<close>

theorem unknown_order_blocks_exposure:
  assumes "o1 \<in> set (om_orders s)" and "od_symbol o1 = symbol" and "od_state o1 = UnknownState"
    and "ri_exposure input = exposure symbol s"
  shows "\<not> decision_permits_exposure (snd (evaluate e action input n1 n2 n3))
    \<and> (oa_type action = ActCancel \<and> \<not> ownership_violated action input \<longrightarrow>
        rd_verdict (snd (evaluate e action input n1 n2 n3)) = Approve)"
proof -
  have u: "\<not> es_determinate (ri_exposure input)"
    using exposure_unknown [of o1 s symbol] assms by (simp add: may_trade_def consumes_exposure_def is_terminal_def)
  have "\<not> decision_permits_exposure (snd (evaluate e action input n1 n2 n3))"
  proof
    assume "decision_permits_exposure (snd (evaluate e action input n1 n2 n3))"
    from evaluate_exposure [OF this] screen_None(7) u show False by metis
  qed
  moreover have "oa_type action = ActCancel \<and> \<not> ownership_violated action input \<longrightarrow>
      rd_verdict (snd (evaluate e action input n1 n2 n3)) = Approve" by (auto simp: evaluate_def)
  ultimately show ?thesis by blast
qed

theorem unknown_order_blocks_exposure_witness:
  "\<not> decision_permits_exposure (snd (evaluate demo_engine (demo_order ActNew 50)
      ((demo_input 0)\<lparr>ri_exposure := exposure ''BTC'' (on_timer 6000 demo_state)\<rparr>) 1 2 3))"
proof -
  have "od_state (order_at (on_timer 6000 demo_state) 0) = UnknownState" "od_symbol (order_at (on_timer 6000 demo_state) 0) = ''BTC''"
    "order_at (on_timer 6000 demo_state) 0 \<in> set (om_orders (on_timer 6000 demo_state))"
    by (simp_all add: order_at_def demo_expired) (simp add: demo_sent_order_def fresh_order_def demo_new_def)
  from unknown_order_blocks_exposure [OF this(3,2,1), of "(demo_input 0)\<lparr>ri_exposure := exposure ''BTC'' (on_timer 6000 demo_state)\<rparr>"]
  show ?thesis by simp
qed

section \<open>Quote manager and order manager together\<close>

text \<open>
  The slot of the working state shows an order of the owner that may still trade in that slot when there is one, and is
  empty otherwise.
\<close>

lemma slot_status_live [simp]: "\<not> status_is_terminal (slot_status o1)"
  by (simp add: slot_status_def status_is_terminal_def split: OrderState.split)

lemma working_state_slot:
  fixes slot :: QuoteSlot and symbol owner :: string
  defines "shown os \<equiv> wq_slot (foldl (view_order symbol owner) empty_quotes os) slot"
  shows "(\<forall>o1\<in>set os. \<not> occupies owner symbol slot o1) \<and> shown os = no_order
    \<or> (\<exists>o1\<in>set os. \<exists>w. occupies owner symbol slot o1 \<and> shown os = show_order o1 w)"
proof (induction os rule: rev_induct)
  case Nil
  show ?case by (simp add: shown_def empty_quotes_def wq_slot_def)
next
  case (snoc o1 os)
  let ?st = "foldl (view_order symbol owner) empty_quotes os"
  have "shown (os @ [o1]) = (if occupies owner symbol slot o1 then show_order o1 (shown os) else shown os)"
    by (cases slot; cases "oo_slot (od_ownership o1)")
      (auto simp: shown_def view_order_def occupies_def ownership_matches_def set_wq_slot_def wq_slot_def)
  with snoc show ?case by (auto split: if_splits)
qed

lemma working_state_cases:
  obtains (empty) "wq_slot (working_state symbol owner s) slot = no_order" "\<forall>o1\<in>set (om_orders s). \<not> occupies owner symbol slot o1"
  | (shown) o1 w where "o1 \<in> set (om_orders s)" "occupies owner symbol slot o1"
      "wq_slot (working_state symbol owner s) slot = show_order o1 w"
  using working_state_slot [of "om_orders s" owner symbol slot] unfolding working_state_def by blast

text \<open>What the quote manager may ask of a slot, in terms of the orders themselves.\<close>

definition action_justified :: "OrderManager \<Rightarrow> string \<Rightarrow> string \<Rightarrow> OrderAction list \<Rightarrow> OrderAction \<Rightarrow> bool" where
  "action_justified s symbol owner as a \<longleftrightarrow>
     (oa_type a \<in> {ActCancel, ActReplace} \<longrightarrow> (\<exists>o1\<in>set (om_orders s). occupies owner symbol (oa_slot a) o1
        \<and> oa_target_client_order_id a = od_client_order_id o1 \<and> oa_target_exchange_order_id a = od_exchange_order_id o1))
     \<and> (oa_type a = ActNew \<longrightarrow> (\<forall>o1\<in>set (om_orders s). \<not> occupies owner symbol (oa_slot a) o1)
        \<or> (\<exists>c\<in>set as. oa_type c = ActCancel \<and> oa_slot c = oa_slot a))"

lemma shown_live: "wo_is_live (show_order o1 w)"
  by (simp add: wo_is_live_def show_order_def)

lemma slot_sound_justified:
  assumes "slot_sound m now slot d intent input as" "qn_working input = working_state symbol (qm_owner m) s" "a \<in> set as" "set as \<subseteq> set all"
  shows "action_justified s symbol (qm_owner m) all a"
proof (rule working_state_cases [of symbol "qm_owner m" s slot])
  assume "wq_slot (working_state symbol (qm_owner m) s) slot = no_order" "\<forall>o1\<in>set (om_orders s). \<not> occupies (qm_owner m) symbol slot o1"
  moreover have "\<not> wo_is_live no_order" by (simp add: wo_is_live_def no_order_def)
  ultimately show ?thesis using assms by (auto simp: slot_sound_def Let_def own_live_def action_justified_def)
next
  fix o1 w
  assume o: "o1 \<in> set (om_orders s)" "occupies (qm_owner m) symbol slot o1" "wq_slot (working_state symbol (qm_owner m) s) slot = show_order o1 w"
  have j: "action_justified s symbol (qm_owner m) all (aim_at (show_order o1 w) b)" if "oa_slot b = slot" "oa_type b \<noteq> ActNew" for b
    using o(1,2) that unfolding action_justified_def by (auto intro!: bexI [of _ o1] simp: aim_at_def show_order_def)
  have k: "action_justified s symbol (qm_owner m) all (ask_for d (make_action now ActNew slot r intent input))"
    if "aim_at (show_order o1 w) (make_action now ActCancel slot r intent input) \<in> set all" for r
    unfolding action_justified_def using that by (auto intro!: bexI [of _ "aim_at (show_order o1 w) (make_action now ActCancel slot r intent input)"])
  show ?thesis using assms o(3) shown_live [of o1 w] by (auto simp: slot_sound_def Let_def intro!: j k)
qed

lemma cancel_of_justified:
  assumes "a \<in> set (cancel_of m now reason intent input slot)" "qn_working input = working_state symbol (qm_owner m) s"
  shows "action_justified s symbol (qm_owner m) all a"
proof (rule working_state_cases [of symbol "qm_owner m" s slot])
  assume "wq_slot (working_state symbol (qm_owner m) s) slot = no_order"
  then show ?thesis using assms by (simp add: cancel_of_def wo_is_live_def no_order_def)
next
  fix o1 w
  assume "o1 \<in> set (om_orders s)" "occupies (qm_owner m) symbol slot o1" "wq_slot (working_state symbol (qm_owner m) s) slot = show_order o1 w"
  then show ?thesis using assms
    by (auto simp: cancel_of_def Let_def action_justified_def aim_at_def show_order_def make_action_def split: if_splits)
qed

text \<open>
  C7. The quote manager acts on the order manager's truth: when its working state is the order manager's view of the
  symbol and owner, every cancel and replace names the client and exchange id of an order in the order manager's table
  that belongs to the owner, is on that symbol and slot and may still trade, and a new order is asked for only when no
  order of the owner on that symbol and slot may still trade, or right with the cancel of that order.
\<close>

theorem quotes_follow_the_orders:
  assumes "qn_working input = working_state symbol (qm_owner m) s"
  shows "\<forall>a \<in> set (qr_actions (snd (qm_evaluate now intent input m))).
    action_justified s symbol (qm_owner m) (qr_actions (snd (qm_evaluate now intent input m))) a"
proof -
  obtain m' res where e: "(m', res) = qm_evaluate now intent input m" by (metis surj_pair)
  then have r: "snd (qm_evaluate now intent input m) = res" by (metis snd_conv)
  show ?thesis
  proof (cases "qm_screen m now intent input = QrNone")
    case True
    show ?thesis
    proof (rule qm_evaluate_placed [OF e True])
      fix as bs m1 m2
      assume a: "qr_actions res = as @ bs" "slot_effect m now Bid (desired_quote intent input Bid) intent input as m1"
        "slot_effect m1 now Ask (desired_quote intent input Ask) intent input bs m2"
      then have "slot_sound m now Bid (desired_quote intent input Bid) intent input as"
        "slot_sound m now Ask (desired_quote intent input Ask) intent input bs"
        using slot_sound_cong [of m1 m] by (simp_all add: slot_effect_def keeps_manager_def)
      then show ?thesis unfolding r a(1) using slot_sound_justified [OF _ assms] by auto
    qed
  next
    case False
    from qm_evaluate_refused(2,3) [OF e refl False] cancel_of_justified [OF _ assms] show ?thesis
      unfolding r by (cases "implies_withdraw (qm_screen m now intent input)") (auto simp: withdrawn_def Let_def)
  qed
qed

theorem quotes_follow_the_orders_witness:
  "list_all (action_justified demo_state ''BTC'' ''ref''
       (qr_actions (snd (qm_evaluate 100 (demo_bid 5) (demo_quote_input\<lparr>qn_working := working_state ''BTC'' ''ref'' demo_state\<rparr>) demo_manager))))
     (qr_actions (snd (qm_evaluate 100 (demo_bid 5) (demo_quote_input\<lparr>qn_working := working_state ''BTC'' ''ref'' demo_state\<rparr>) demo_manager)))"
proof -
  have "qm_owner demo_manager = ''ref''" by (simp add: demo_manager_def new_quote_manager_def)
  then show ?thesis
    using quotes_follow_the_orders [of "demo_quote_input\<lparr>qn_working := working_state ''BTC'' ''ref'' demo_state\<rparr>" "''BTC''" demo_manager demo_state 100 "demo_bid 5"]
    by (simp add: list_all_iff)
qed

section \<open>Strategy runtime and quote manager together\<close>

lemma old_intent_ignored:
  assumes "qi_generation intent < qm_last_generation m"
  shows "qr_actions (snd (qm_evaluate now intent input m)) = [] \<and> qr_rejection (snd (qm_evaluate now intent input m)) = QrGenerationRegression
    \<and> same_manager m (fst (qm_evaluate now intent input m))"
proof -
  have "qm_screen m now intent input = QrGenerationRegression" using assms by (simp add: qm_screen_def)
  from qm_evaluate_refused [OF prod.collapse this] show ?thesis by (simp add: implies_withdraw_def)
qed

lemma refused_output_unstamped:
  assumes "er_rejection (snd (rt_evaluate plug t1 t2 now context r)) \<noteq> IrNone"
  shows "qi_action (er_intent (snd (rt_evaluate plug t1 t2 now context r))) = QaPull
    \<and> qi_generation (er_intent (snd (rt_evaluate plug t1 t2 now context r))) = 0"
proof (cases rule: rt_evaluate_cases [of plug t1 t2 now "context" r])
  case (skip reason r1)
  then show ?thesis using assms by (simp add: skipped_def no_evaluation_def Let_def)
next
  case (handle r1 intent)
  then show ?thesis using assms
    by (auto simp: handle_intent_def accept_intent_def reject_intent_def no_evaluation_def Let_def pull_intent_def default_intent_def
        case_prod_beta split: if_splits)
qed

text \<open>
  A withdrawal that is not carried out: when the runtime refuses what the strategy returned, the pull it hands on
  carries generation zero, and so does the pull that the operator's quoting switch puts in place of a quoting intent. A
  quote manager that has already seen an intent refuses both as superseded: it cancels nothing, so the quotes that rest
  stay in the market.
\<close>

theorem refused_output_leaves_quotes:
  assumes "0 < qm_last_generation m" and "er_rejection (snd (rt_evaluate plug t1 t2 now context r)) \<noteq> IrNone"
    and "qi_action intent = QaQuote" and "\<not> rtc_quoting_enabled (rt_config r') \<or> \<not> sc_quoting_enabled context'"
  shows "let pull = er_intent (snd (rt_evaluate plug t1 t2 now context r)); off = er_intent (snd (accept_intent elapsed context' intent r'))
    in qi_action pull = QaPull \<and> qi_action off = QaPull
      \<and> qr_actions (snd (qm_evaluate t pull input m)) = [] \<and> qr_actions (snd (qm_evaluate t off input m)) = []
      \<and> same_manager m (fst (qm_evaluate t pull input m)) \<and> same_manager m (fst (qm_evaluate t off input m))"
proof -
  let ?off = "er_intent (snd (accept_intent elapsed context' intent r'))"
  have o: "qi_action ?off = QaPull" "qi_generation ?off = 0"
    using assms(3,4) by (simp_all add: accept_intent_def Let_def pull_intent_def default_intent_def)
  show ?thesis
    using refused_output_unstamped [OF assms(2)] o assms(1) old_intent_ignored [of _ m t input] by (simp add: Let_def)
qed

text \<open>A manager with a resting bid of its own, which has seen generation five.\<close>

definition demo_resting :: QuoteManagerInput where
  "demo_resting = demo_quote_input\<lparr>qn_working := empty_quotes\<lparr>wq_bid := no_order\<lparr>wo_present := True,
     wo_owner := \<lparr>qo_strategy = ''ref'', qo_slot = Bid\<rparr>, wo_price := 99, wo_original_quantity := 10, wo_status := StNew\<rparr>\<rparr>\<rparr>"

theorem refused_output_leaves_quotes_witness:
  "let pull = er_intent (snd (rt_evaluate (demo_plug 50) 5 9 20 (demo_context True) (demo_runtime 50)))
   in qi_action pull = QaPull \<and> own_live ''ref'' Bid (wq_slot (qn_working demo_resting) Bid)
    \<and> qr_actions (snd (qm_evaluate 30 pull demo_resting (demo_manager\<lparr>qm_last_generation := 5\<rparr>))) = []"
proof -
  have r: "er_rejection (snd (rt_evaluate (demo_plug 50) 5 9 20 (demo_context True) (demo_runtime 50))) \<noteq> IrNone"
    by (simp add: demo_result)
  have c: "\<not> sc_quoting_enabled (demo_context False)" "qi_action (demo_quote 50) = QaQuote" by (simp_all add: demo_context_def demo_quote_def)
  have l: "own_live ''ref'' Bid (wq_slot (qn_working demo_resting) Bid)"
    by (simp add: demo_resting_def own_live_def wq_slot_def wo_is_live_def status_is_terminal_def owner_matches_def is_managed_def
        wo_has_pending_request_def no_order_def)
  show ?thesis
    using refused_output_leaves_quotes [of "demo_manager\<lparr>qm_last_generation := 5\<rparr>", OF _ r c(2), of "demo_runtime 50" "demo_context False" 4 30 demo_resting]
      c(1) l by (simp add: Let_def)
qed

end
